(* ===== verification/C_Prelude.thy ===== *)
theory C_Prelude
  imports Main "HOL-Library.Word"
begin

text \<open>
  What the component theories share: the fixed-width types of the sources, C strings and the
  bytes that travel through pipes and sockets, the decimal rendering used by
  \<^verbatim>\<open>printf\<close>, the result of a function that may leave the process with
  \<^verbatim>\<open>exit\<close>, and the generic lemmas on lists, words and decimal numerals.
  The collection \<open>c_run\<close> holds the equations that execute the models of straight-line code.
\<close>

named_theorems c_run \<open>equations that execute straight-line C code\<close>

section \<open>Fixed-width types\<close>

type_synonym uint8 = "8 word"
type_synonym uint16 = "16 word"
type_synonym uint32 = "32 word"
type_synonym uint64 = "64 word"

text \<open>A byte of a file, a pipe or a socket is a \<^typ>\<open>char\<close>; a \<^verbatim>\<open>uint8_t\<close>
  object that is written to a descriptor travels as one such byte.\<close>

definition byte_of_u8 :: "uint8 \<Rightarrow> char" where
  "byte_of_u8 w = char_of (unat w)"

definition u8_of_byte :: "char \<Rightarrow> uint8" where
  "u8_of_byte c = word_of_nat (of_char c)"

lemma of_char_less_256: "(of_char c :: nat) < 256"
  by simp

lemma unat_u8_less: "unat (w :: uint8) < 256"
  using unsigned_less [of w] by simp

lemma u8_of_byte_of_u8 [simp]: "u8_of_byte (byte_of_u8 w) = w"
  using unat_u8_less [of w] by (simp add: u8_of_byte_def byte_of_u8_def)

lemma unat_u8_of_byte: "unat (u8_of_byte c) = of_char c"
proof -
  have "unat (word_of_nat (of_char c) :: uint8) = take_bit 8 (of_char c :: nat)"
    by (simp add: unsigned_of_nat)
  also have "\<dots> = of_char c"
    using of_char_less_256 [of c] by (simp add: take_bit_nat_eq_self_iff)
  finally show ?thesis by (simp add: u8_of_byte_def)
qed

lemma byte_of_u8_of_byte [simp]: "byte_of_u8 (u8_of_byte c) = c"
  by (simp add: byte_of_u8_def unat_u8_of_byte)

lemma unat_word_of_nat_u8: "n < 256 \<Longrightarrow> unat (word_of_nat n :: uint8) = n"
  by (simp add: unsigned_of_nat take_bit_nat_eq_self_iff)

lemma unat_word_of_nat_u64: "n < 2 ^ 64 \<Longrightarrow> unat (word_of_nat n :: uint64) = n"
  by (simp only: unsigned_of_nat len_bit0 len_num1 semiring_norm mult_1 take_bit_nat_eq_self_iff)
    (simp add: take_bit_nat_eq_self_iff)

lemma word_of_nat_eqI: "unat w = n \<Longrightarrow> w = word_of_nat n"
  by auto

lemma unat_Suc_u8: "unat w < 255 \<Longrightarrow> unat (w + 1 :: uint8) = Suc (unat w)"
  by (simp add: unat_word_ariths)

section \<open>C strings\<close>

abbreviation NUL :: char where "NUL \<equiv> CHR 0x00"

abbreviation TAB :: char where "TAB \<equiv> CHR 0x09"

abbreviation NL :: char where "NL \<equiv> CHR 0x0A"

abbreviation SPACE :: char where "SPACE \<equiv> CHR 0x20"

text \<open>The string a C function sees at the start of an array: the characters before the first NUL.\<close>

definition c_str :: "char list \<Rightarrow> string" where
  "c_str buf = takeWhile (\<lambda>c. c \<noteq> NUL) buf"

lemma c_str_NUL [simp]: "c_str (NUL # r) = []"
  by (simp add: c_str_def)

lemma c_str_Cons [simp]: "c \<noteq> NUL \<Longrightarrow> c_str (c # r) = c # c_str r"
  by (simp add: c_str_def)

lemma c_str_append: "c_str (s @ NUL # r) = c_str s"
  by (induction s) (auto simp: c_str_def)

lemma c_str_append_NUL [simp]: "NUL \<notin> set s \<Longrightarrow> c_str (s @ NUL # r) = s"
  by (induction s) (auto simp: c_str_def)

text \<open>\<^verbatim>\<open>isspace\<close> of the C locale.\<close>

definition c_isspace :: "char \<Rightarrow> bool" where
  "c_isspace c \<longleftrightarrow> c \<in> {SPACE, TAB, NL, CHR 0x0B, CHR 0x0C, CHR 0x0D}"

definition c_isdigit :: "char \<Rightarrow> bool" where
  "c_isdigit c \<longleftrightarrow> (48 :: nat) \<le> of_char c \<and> (of_char c :: nat) \<le> 57"

section \<open>Decimal numerals\<close>

text \<open>\<^verbatim>\<open>%u\<close> and \<^verbatim>\<open>%d\<close> of \<^verbatim>\<open>printf\<close>.\<close>

definition digit_char :: "nat \<Rightarrow> char" where
  "digit_char d = char_of (48 + d)"

definition digit_value :: "char \<Rightarrow> nat" where
  "digit_value c = of_char c - 48"

fun dec_nat :: "nat \<Rightarrow> string" where
  "dec_nat n = (if n < 10 then [digit_char n] else dec_nat (n div 10) @ [digit_char (n mod 10)])"

declare dec_nat.simps [simp del]

definition dec_int :: "int \<Rightarrow> string" where
  "dec_int i = (if i < 0 then CHR ''-'' # dec_nat (nat (- i)) else dec_nat (nat i))"

text \<open>Reading digits, most significant first.\<close>

fun undec :: "nat \<Rightarrow> string \<Rightarrow> nat" where
  "undec acc [] = acc"
| "undec acc (c # s) = undec (10 * acc + digit_value c) s"

lemma of_digit_char: "d < 10 \<Longrightarrow> (of_char (digit_char d) :: nat) = 48 + d"
  by (simp add: digit_char_def)

lemma digit_value_digit_char: "d < 10 \<Longrightarrow> digit_value (digit_char d) = d"
  by (simp add: digit_value_def of_digit_char)

lemma c_isdigit_digit_char: "d < 10 \<Longrightarrow> c_isdigit (digit_char d)"
  by (simp add: c_isdigit_def of_digit_char)

lemma undec_append: "undec acc (s @ t) = undec (undec acc s) t"
  by (induction s arbitrary: acc) auto

lemma undec_dec_nat [simp]: "undec 0 (dec_nat n) = n"
proof (induction n rule: dec_nat.induct)
  case (1 n)
  show ?case
  proof (cases "n < 10")
    case True
    then show ?thesis by (simp add: dec_nat.simps [of n] digit_value_digit_char)
  next
    case False
    with 1 have "undec 0 (dec_nat (n div 10)) = n div 10" by simp
    with False show ?thesis
      by (simp add: dec_nat.simps [of n] undec_append digit_value_digit_char)
  qed
qed

lemma dec_nat_digits: "c \<in> set (dec_nat n) \<Longrightarrow> c_isdigit c"
proof (induction n rule: dec_nat.induct)
  case (1 n)
  then show ?case
    by (cases "n < 10") (auto simp: dec_nat.simps [of n] c_isdigit_digit_char)
qed

lemma dec_nat_nonempty [simp]: "dec_nat n \<noteq> []"
  by (simp add: dec_nat.simps [of n])

lemma dec_nat_inject [simp]: "dec_nat m = dec_nat n \<longleftrightarrow> m = n"
  by (metis undec_dec_nat)

text \<open>A numeral below \<open>10 ^ k\<close> has at most \<open>k\<close> digits.\<close>

lemma length_dec_nat: "n < 10 ^ k \<Longrightarrow> 0 < k \<Longrightarrow> length (dec_nat n) \<le> k"
proof (induction n arbitrary: k rule: dec_nat.induct)
  case (1 n)
  show ?case
  proof (cases "n < 10")
    case True
    with 1 show ?thesis by (simp add: dec_nat.simps [of n])
  next
    case False
    with 1 obtain j where k: "k = Suc j" "0 < j" by (cases k; cases "k - 1") auto
    with False 1 have "n div 10 < 10 ^ j" by (simp add: less_mult_imp_div_less)
    with False k 1 have "length (dec_nat (n div 10)) \<le> j" by simp
    with False k show ?thesis by (simp add: dec_nat.simps [of n])
  qed
qed

lemma isdigit_not_NUL: "c_isdigit c \<Longrightarrow> c \<noteq> NUL"
  by (auto simp: c_isdigit_def)

lemma isdigit_not_space: "c_isdigit c \<Longrightarrow> \<not> c_isspace c"
  by (auto simp: c_isdigit_def c_isspace_def)

lemma isdigit_not_sign: "c_isdigit c \<Longrightarrow> c \<noteq> CHR ''-'' \<and> c \<noteq> CHR ''+''"
  by (auto simp: c_isdigit_def)

lemma NUL_notin_dec_nat [simp]: "NUL \<notin> set (dec_nat n)"
  using dec_nat_digits [of NUL n] isdigit_not_NUL by blast

lemma NUL_notin_dec_int [simp]: "NUL \<notin> set (dec_int i)"
  by (simp add: dec_int_def)

section \<open>Leaving the process\<close>

text \<open>
  A function that may call \<^verbatim>\<open>exit\<close> returns a value or ends the process with an exit
  status and what it has written to \<^verbatim>\<open>stderr\<close>. \<^verbatim>\<open>perror\<close> appends the
  text of the current \<^verbatim>\<open>errno\<close>, which the C library chooses: the item keeps the prefix.
  \<open>Undef\<close> is undefined behaviour, such as an access outside an array; \<open>Blocks\<close> a
  call that never returns.
\<close>

datatype err_item = Text string | Perror string

datatype 'a result = Returns 'a | Exits int "err_item list" | Undef | Blocks

abbreviation (input) EXIT_SUCCESS :: int where "EXIT_SUCCESS \<equiv> 0"

abbreviation (input) EXIT_FAILURE :: int where "EXIT_FAILURE \<equiv> 1"

fun bind_result :: "'a result \<Rightarrow> ('a \<Rightarrow> 'b result) \<Rightarrow> 'b result" where
  "bind_result (Returns a) f = f a"
| "bind_result (Exits n e) f = Exits n e"
| "bind_result Undef f = Undef"
| "bind_result Blocks f = Blocks"

lemma bind_result_Returns_iff:
  "bind_result m f = Returns b \<longleftrightarrow> (\<exists>a. m = Returns a \<and> f a = Returns b)"
  by (cases m) auto

lemma bind_result_Undef_iff:
  "bind_result m f = Undef \<longleftrightarrow> m = Undef \<or> (\<exists>a. m = Returns a \<and> f a = Undef)"
  by (cases m) auto

lemma bind_result_Blocks_iff:
  "bind_result m f = Blocks \<longleftrightarrow> m = Blocks \<or> (\<exists>a. m = Returns a \<and> f a = Blocks)"
  by (cases m) auto

lemma bind_result_assoc: "bind_result (bind_result m f) g = bind_result m (\<lambda>a. bind_result (f a) g)"
  by (cases m) auto

lemma bind_result_Exits_iff:
  "bind_result m f = Exits n e \<longleftrightarrow> m = Exits n e \<or> (\<exists>a. m = Returns a \<and> f a = Exits n e)"
  by (cases m) auto

text \<open>What every \<^verbatim>\<open>usage\<close> function does: the message, if any, the synopsis and the
  option lines on \<^verbatim>\<open>stderr\<close>, then \<^verbatim>\<open>exit(exit_code)\<close>.\<close>

definition usage_exit :: "string list \<Rightarrow> int \<Rightarrow> string option \<Rightarrow> 'a result" where
  "usage_exit lines code msg =
     Exits code ((case msg of None \<Rightarrow> [] | Some m \<Rightarrow> [Text (m @ [NL])])
       @ map (\<lambda>l. Text (l @ [NL])) lines)"

lemma usage_exit_not_Returns [simp]: "usage_exit ls c m \<noteq> Returns v" "Returns v \<noteq> usage_exit ls c m"
    "usage_exit ls c m \<noteq> Undef"
  by (simp_all add: usage_exit_def)

section \<open>Arrays\<close>

text \<open>An array is a list of its size; an access outside it is undefined.\<close>

definition arr_get :: "'a list \<Rightarrow> nat \<Rightarrow> 'a result" where
  "arr_get xs i = (if i < length xs then Returns (xs ! i) else Undef)"

definition arr_set :: "'a list \<Rightarrow> nat \<Rightarrow> 'a \<Rightarrow> 'a list result" where
  "arr_set xs i x = (if i < length xs then Returns (xs[i := x]) else Undef)"

lemma arr_get_ok [simp]: "i < length xs \<Longrightarrow> arr_get xs i = Returns (xs ! i)"
  by (simp add: arr_get_def)

lemma arr_set_ok [simp]: "i < length xs \<Longrightarrow> arr_set xs i x = Returns (xs[i := x])"
  by (simp add: arr_set_def)

section \<open>Lists\<close>

lemma take_Suc_update:
  "n < length xs \<Longrightarrow> take (Suc n) (xs[n := x]) = take n xs @ [x]"
  by (simp add: take_Suc_conv_app_nth)

text \<open>The first element of a list that decides, every element before it passing.\<close>

lemma ex_first_Cons:
  "(\<exists>us w vs. x # xs = us @ w # vs \<and> P w \<and> (\<forall>u \<in> set us. Q u))
     \<longleftrightarrow> P x \<or> (Q x \<and> (\<exists>us w vs. xs = us @ w # vs \<and> P w \<and> (\<forall>u \<in> set us. Q u)))"
  (is "?L \<longleftrightarrow> P x \<or> (Q x \<and> ?R)")
proof
  assume ?L
  then obtain us w vs where d: "x # xs = us @ w # vs" "P w" "\<forall>u \<in> set us. Q u" by blast
  then show "P x \<or> (Q x \<and> ?R)" by (cases us) auto
next
  assume "P x \<or> (Q x \<and> ?R)"
  then show ?L
  proof
    assume "P x"
    then show ?L by (intro exI [of _ "[]"] exI [of _ x] exI [of _ xs]) simp
  next
    assume "Q x \<and> ?R"
    then obtain us w vs where d: "Q x" "xs = us @ w # vs" "P w" "\<forall>u \<in> set us. Q u" by blast
    then show ?L by (intro exI [of _ "x # us"] exI [of _ w] exI [of _ vs]) simp
  qed
qed

lemma concat_map_concat: "concat (map f (concat xss)) = concat (map (\<lambda>xs. concat (map f xs)) xss)"
  by (induction xss) auto

lemma takeWhile_all: "(\<forall>x \<in> set xs. P x) \<Longrightarrow> takeWhile P xs = xs"
  by (induction xs) auto

lemma dropWhile_all: "(\<forall>x \<in> set xs. P x) \<Longrightarrow> dropWhile P xs = []"
  by (induction xs) auto

end
