(* ===== verification/Processes.thy ===== *)
theory Processes
  imports C_Prelude
begin

text \<open>
  The programs under \<^verbatim>\<open>src/process\<close> and \<^verbatim>\<open>src/process-groups\<close> that fork, wait, leave and change their process group
  or session. A process is a list of calls that it goes through, with its identifiers, the buffer of its standard
  output and its exit handlers; a step is one call of one of the processes. The theory shows that every such program
  ends under every schedule, and what becomes of text that is still in the buffer when a process forks, executes
  another program or aborts.
\<close>

section \<open>Processes\<close>

record identity =
  id_pid :: nat
  id_ppid :: nat
  id_pgid :: nat
  id_sid :: nat

text \<open>The calls; a message is that of the \<^verbatim>\<open>perror\<close> for the call, after which the process leaves with the status that
  follows, or 1. \<open>Call\<close> is a call that may fail and changes nothing here, \<open>Quiet\<close> one whose result is not looked at
  (\<^verbatim>\<open>sleep\<close>, \<^verbatim>\<open>close\<close>). \<open>Wait_for k\<close> waits for the child of the \<open>k\<close>-th \<^verbatim>\<open>fork\<close>, \<open>Wait_any\<close> is \<^verbatim>\<open>wait(NULL)\<close>. \<open>At_exit\<close>
  registers a function that prints a text.\<close>

datatype act =
    Printf "identity \<Rightarrow> string"
  | Fork "act list" err_item
  | Wait_for nat err_item
  | Wait_any
  | Say_status nat string
  | Setpgid "identity \<Rightarrow> nat" err_item
  | Setsid err_item
  | Call err_item
  | Quiet
  | At_exit string
  | Return int
  | Abort
  | Exec err_item

datatype fate = Running | Exited int | Killed | Replaced

record process =
  p_id :: identity
  p_code :: "act list"
  p_buffer :: string
  p_handlers :: "string list"
  p_kids :: "nat list"
  p_statuses :: "(nat \<times> fate) list"
  p_fate :: fate
  p_reaped :: bool

text \<open>\<open>w_pid n\<close> is the number the kernel gives to the \<open>n\<close>-th process; \<open>w_faults\<close> says which of the next calls fail.\<close>

record world =
  w_procs :: "process list"
  w_pid :: "nat \<Rightarrow> nat"
  w_tty :: bool
  w_faults :: "bool list"
  w_out :: string
  w_err :: "err_item list"

definition put_process :: "nat \<Rightarrow> process \<Rightarrow> world \<Rightarrow> world" where
  "put_process i p w = w\<lparr>w_procs := (w_procs w)[i := p]\<rparr>"

text \<open>\<^verbatim>\<open>printf\<close>: a terminal gets the buffer with every newline, a file when the buffer is full, which it never is here.\<close>

definition emit :: "nat \<Rightarrow> process \<Rightarrow> string \<Rightarrow> world \<Rightarrow> world" where
  "emit i p t w =
     (if w_tty w \<and> NL \<in> set t then put_process i (p\<lparr>p_buffer := []\<rparr>) (w\<lparr>w_out := w_out w @ p_buffer p @ t\<rparr>)
      else put_process i (p\<lparr>p_buffer := p_buffer p @ t\<rparr>) w)"

text \<open>The children of a process that has ended have process 1 as their parent.\<close>

definition adopt :: "nat \<Rightarrow> process \<Rightarrow> process" where
  "adopt pid p = (if id_ppid (p_id p) = pid then p\<lparr>p_id := (p_id p)\<lparr>id_ppid := 1\<rparr>\<rparr> else p)"

definition finish :: "fate \<Rightarrow> nat \<Rightarrow> process \<Rightarrow> world \<Rightarrow> world" where
  "finish f i p w =
     w\<lparr>w_procs := map (adopt (id_pid (p_id p))) ((w_procs w)[i := p\<lparr>p_code := [], p_buffer := [], p_fate := f\<rparr>])\<rparr>"

text \<open>\<^verbatim>\<open>exit\<close> calls the handlers, the last one first, and flushes.\<close>

definition leave :: "int \<Rightarrow> nat \<Rightarrow> process \<Rightarrow> world \<Rightarrow> world" where
  "leave n i p w = finish (Exited n) i p (w\<lparr>w_out := w_out w @ p_buffer p @ concat (rev (p_handlers p))\<rparr>)"

definition complain_leave :: "err_item \<Rightarrow> nat \<Rightarrow> process \<Rightarrow> world \<Rightarrow> world" where
  "complain_leave m i p w = leave EXIT_FAILURE i p (w\<lparr>w_err := w_err w @ [m]\<rparr>)"

definition fails_now :: "world \<Rightarrow> bool" where
  "fails_now w = (case w_faults w of [] \<Rightarrow> False | b # _ \<Rightarrow> b)"

definition used :: "world \<Rightarrow> world" where
  "used w = w\<lparr>w_faults := tl (w_faults w)\<rparr>"

definition reap :: "nat \<Rightarrow> world \<Rightarrow> world" where
  "reap j w = w\<lparr>w_procs := (w_procs w)[j := (w_procs w ! j)\<lparr>p_reaped := True\<rparr>]\<rparr>"

definition ended_kids :: "world \<Rightarrow> process \<Rightarrow> nat list" where
  "ended_kids w p = filter (\<lambda>j. p_fate (w_procs w ! j) \<noteq> Running \<and> \<not> p_reaped (w_procs w ! j)) (p_kids p)"

definition process_step :: "nat \<Rightarrow> world \<Rightarrow> world option" where
  "process_step i w =
     (if length (w_procs w) \<le> i then None
      else case p_code (w_procs w ! i) of
        [] \<Rightarrow> None
      | a # rest \<Rightarrow>
          let p = (w_procs w ! i)\<lparr>p_code := rest\<rparr>; me = p_id p in
          (case a of
             Printf f \<Rightarrow> Some (emit i p (f me) w)
           | Fork child m \<Rightarrow>
               if fails_now w then Some (complain_leave m i p (used w))
               else
                 let n = length (w_procs w);
                     new = \<lparr>p_id = me\<lparr>id_pid := w_pid w n, id_ppid := id_pid me\<rparr>, p_code = child, p_buffer = p_buffer p,
                            p_handlers = p_handlers p, p_kids = [], p_statuses = [], p_fate = Running, p_reaped = False\<rparr>
                 in Some ((used w)\<lparr>w_procs := (w_procs w)[i := p\<lparr>p_kids := p_kids p @ [n]\<rparr>] @ [new]\<rparr>)
           | Wait_for k m \<Rightarrow>
               if fails_now w \<or> length (p_kids p) \<le> k then Some (complain_leave m i p (used w))
               else let j = p_kids p ! k; f = p_fate (w_procs w ! j) in
                 if f = Running then None
                 else if p_reaped (w_procs w ! j) then Some (complain_leave m i p (used w))
                 else Some (put_process i (p\<lparr>p_statuses := (k, f) # p_statuses p\<rparr>) (reap j (used w)))
           | Wait_any \<Rightarrow>
               (case ended_kids w p of
                  j # _ \<Rightarrow> Some (put_process i p (reap j w))
                | [] \<Rightarrow> if list_all (\<lambda>j. p_fate (w_procs w ! j) \<noteq> Running) (p_kids p) then Some (put_process i p w) else None)
           | Say_status k t \<Rightarrow>
               (case map_of (p_statuses p) k of
                  Some (Exited n) \<Rightarrow> Some (emit i p (t @ dec_int n @ [NL]) w)
                | _ \<Rightarrow> Some (put_process i p w))
           | Setpgid f m \<Rightarrow>
               if fails_now w \<or> id_sid me = id_pid me
                 \<or> \<not> (f me = id_pid me \<or> list_ex (\<lambda>q. id_pgid (p_id q) = f me \<and> id_sid (p_id q) = id_sid me) (w_procs w))
               then Some (complain_leave m i p (used w))
               else Some (put_process i (p\<lparr>p_id := me\<lparr>id_pgid := f me\<rparr>\<rparr>) (used w))
           | Setsid m \<Rightarrow>
               if fails_now w \<or> list_ex (\<lambda>q. id_pgid (p_id q) = id_pid me) (w_procs w)
               then Some (complain_leave m i p (used w))
               else Some (put_process i (p\<lparr>p_id := me\<lparr>id_pgid := id_pid me, id_sid := id_pid me\<rparr>\<rparr>) (used w))
           | Call m \<Rightarrow> if fails_now w then Some (complain_leave m i p (used w)) else Some (put_process i p (used w))
           | Quiet \<Rightarrow> Some (put_process i p w)
           | At_exit t \<Rightarrow> Some (put_process i (p\<lparr>p_handlers := p_handlers p @ [t]\<rparr>) w)
           | Return n \<Rightarrow> Some (leave n i p w)
           | Abort \<Rightarrow> Some (finish Killed i p w)
           | Exec m \<Rightarrow>
               if fails_now w then Some (complain_leave m i p (used w)) else Some (finish Replaced i p (used w))))"

inductive runs_to :: "world \<Rightarrow> world \<Rightarrow> bool" for w0 where
  start: "runs_to w0 w0"
| step: "runs_to w0 w \<Longrightarrow> process_step i w = Some w' \<Longrightarrow> runs_to w0 w'"

text \<open>A process that a shell has started: the leader of its own group, in a session of the shell.\<close>

definition begin_with :: "act list \<Rightarrow> (nat \<Rightarrow> nat) \<Rightarrow> nat \<Rightarrow> bool \<Rightarrow> bool list \<Rightarrow> world" where
  "begin_with code pid shell tty faults =
     \<lparr>w_procs = [\<lparr>p_id = \<lparr>id_pid = pid 0, id_ppid = shell, id_pgid = pid 0, id_sid = shell\<rparr>, p_code = code, p_buffer = [],
        p_handlers = [], p_kids = [], p_statuses = [], p_fate = Running, p_reaped = False\<rparr>],
      w_pid = pid, w_tty = tty, w_faults = faults, w_out = [], w_err = []\<rparr>"

section \<open>The programs\<close>

definition line :: "string \<Rightarrow> (identity \<Rightarrow> nat) \<Rightarrow> act" where
  "line t f = Printf (\<lambda>me. t @ dec_nat (f me) @ [NL])"

definition say :: "string \<Rightarrow> act" where
  "say t = Printf (\<lambda>me. t @ [NL])"

definition print_process_info :: "string \<Rightarrow> act" where
  "print_process_info name =
     Printf (\<lambda>me. ''Name: '' @ name @ '', Process: PID='' @ dec_nat (id_pid me) @ '', Parent PID='' @ dec_nat (id_ppid me) @ [NL])"

definition child_process :: "string \<Rightarrow> nat \<Rightarrow> act list" where
  "child_process name sleep_time =
     [print_process_info name, Quiet,
      say (name @ '' process finished after sleeping '' @ dec_nat sleep_time @ '' seconds.'')]"

text \<open>The random numbers of the two children are arguments.\<close>

definition wait_main :: "nat \<Rightarrow> nat \<Rightarrow> act list" where
  "wait_main random1 random2 =
     [Fork (child_process ''Child 1'' random1 @ [Return EXIT_SUCCESS]) (Perror ''Error creating child process 1''),
      Fork (child_process ''Child 2'' random2 @ [Return EXIT_SUCCESS]) (Perror ''Error creating child process 2''),
      print_process_info ''Parent'',
      Wait_for 0 (Perror ''Error waiting for child process 1''),
      Wait_for 1 (Perror ''Error waiting for child process 2''),
      Say_status 0 ''Child 1 exited with status: '',
      Say_status 1 ''Child 2 exited with status: '',
      Return EXIT_SUCCESS]"

definition waitpid_main :: "act list" where
  "waitpid_main =
     [Fork [print_process_info ''Child'', say ''Child process finished.'', Return EXIT_SUCCESS] (Perror ''Error creating child process''),
      print_process_info ''Parent'',
      say ''Parent is waiting for the child'',
      Wait_for 0 (Perror ''Error waiting for child process''),
      say ''Parent process finished.'',
      Return EXIT_SUCCESS]"

definition fork_main :: "act list" where
  "fork_main =
     [Fork [print_process_info ''Child'', say ''Child process finished.'', Return EXIT_SUCCESS] (Perror ''Error creating child process''),
      print_process_info ''Parent'', Quiet, say ''Parent process finished.'', Return EXIT_SUCCESS]"

definition exit_handler :: "nat \<Rightarrow> string" where
  "exit_handler n = ''exit_handler'' @ dec_nat n @ '' called.'' @ [NL]"

definition exit_main :: "act list" where
  "exit_main =
     [At_exit (exit_handler 1), At_exit (exit_handler 2), At_exit (exit_handler 3), say ''Main function executing.'', Return EXIT_SUCCESS]"

definition atexit_main :: "act list" where
  "atexit_main =
     [At_exit (exit_handler 1), At_exit (exit_handler 2), At_exit (exit_handler 3), say ''Main function executing.'', Return EXIT_SUCCESS]"

definition set_core_dump_limit :: "act list" where
  "set_core_dump_limit =
     [Call (Perror ''Error setting core dump limit''), say (''Core dump limit set to: '' @ [CHR 0x22] @ ''unlimited'' @ [CHR 0x22])]"

definition abort_main :: "act list" where
  "abort_main =
     set_core_dump_limit
     @ [Call (Perror ''Error setting abort handler''), At_exit (''Abort handler called.'' @ [NL]), say ''Main function executing.'', Abort,
        say ''Main function finished.'', Return EXIT_SUCCESS]"

definition exec_main :: "act list" where
  "exec_main =
     [line ''Current Process ID: '' id_pid, Exec (Perror ''execl''), say ''This line will not be executed if execl is successful.'',
      Return EXIT_SUCCESS]"

definition setpgid_handle_child :: "act list" where
  "setpgid_handle_child =
     [line ''Child Process ID (PID): '' id_pid,
      line ''Child Process Group ID (PGID): '' id_pgid,
      Setpgid id_pid (Perror ''Error setting PGID for the child process''),
      line ''Child Process Group ID (PGID) after change: '' id_pgid]"

definition setpgid_main :: "act list" where
  "setpgid_main =
     [line ''Original Process ID (PID): '' id_pid,
      line ''Original Process Group ID (PGID): '' id_pgid,
      Fork (setpgid_handle_child @ [Return EXIT_SUCCESS]) (Perror ''Error forking a new process''),
      Wait_any,
      Return EXIT_SUCCESS]"

definition setsid_handle_child :: "act list" where
  "setsid_handle_child =
     [line ''Child Process ID (PID): '' id_pid,
      line ''Child Process Group ID (PGID): '' id_pgid,
      Setsid (Perror ''Error creating a new session for the child process''),
      line ''Child Process New Session ID (SID): '' id_sid,
      line ''Child Process New Process Group ID (PGID): '' id_pgid]"

definition setsid_main :: "act list" where
  "setsid_main =
     [line ''Original Process ID (PID): '' id_pid,
      line ''Original Process Group ID (PGID): '' id_pgid,
      Fork (setsid_handle_child @ [Return EXIT_SUCCESS]) (Perror ''Error forking a new process''),
      Wait_any,
      line ''Parent Process ID (PID) after child process execution: '' id_pid,
      Return EXIT_SUCCESS]"

definition XXX :: nat where
  "XXX = 100"

definition tcsetpgrp_main :: "act list" where
  "tcsetpgrp_main =
     [Call (Perror ''Error opening terminal''),
      line ''Original Process ID (PID): '' id_pid,
      Fork
        [line ''Child Process ID (PID): '' id_pid,
         Setsid (Perror ''Error creating a new session for the child process''),
         line ''Child Process Group ID (PGID) after creating a new session: '' id_pid,
         Setpgid (\<lambda>me. id_pid me + XXX) (Perror ''Error setting PGID for the child process''),
         line ''Child Process Group ID (PGID) after change: '' (\<lambda>me. id_pid me + XXX),
         Quiet, Return EXIT_SUCCESS]
        (Perror ''Error forking a new process''),
      Wait_any,
      line ''Parent Process ID (PID) after child process execution: '' id_pid,
      Quiet, Return EXIT_SUCCESS]"

text \<open>The programs that print an identifier.\<close>

definition getpid_main :: "act list" where
  "getpid_main = [line ''Process ID (PID): '' id_pid, Return EXIT_SUCCESS]"

definition getppid_main :: "act list" where
  "getppid_main = [line ''Process ID (PID): '' id_ppid, Return EXIT_SUCCESS]"

definition pid_line :: "string \<Rightarrow> string \<Rightarrow> (identity \<Rightarrow> nat) \<Rightarrow> act" where
  "pid_line t t' f = Printf (\<lambda>me. t @ dec_nat (id_pid me) @ t' @ dec_nat (f me) @ [NL])"

definition getpgid_main :: "act list" where
  "getpgid_main =
     [Call (Perror ''Error getting PGID''), line ''Process ID (PID): '' id_pid,
      pid_line ''Process Group ID (PGID) of the process with PID '' '': '' id_pgid, Return EXIT_SUCCESS]"

definition getpgrp_main :: "act list" where
  "getpgrp_main =
     [line ''Process ID (PID): '' id_pid, line ''Process Group ID (PGID) of the calling process: '' id_pgid, Return EXIT_SUCCESS]"

definition getsid_main :: "act list" where
  "getsid_main =
     [Call (Perror ''Error getting SID''), line ''Process ID (PID): '' id_pid,
      pid_line ''Session ID (SID) of the process with PID '' '': '' id_sid, Return EXIT_SUCCESS]"

section \<open>Every program ends\<close>

text \<open>Every path through the code ends with a \<^verbatim>\<open>return\<close>.\<close>

fun proper :: "act list \<Rightarrow> bool" where
  "proper [] = False"
| "proper (Return n # rest) = (rest = [])"
| "proper (Fork child m # rest) = (proper child \<and> proper rest)"
| "proper (a # rest) = proper rest"

fun act_weight :: "act \<Rightarrow> nat" where
  "act_weight (Fork child m) = Suc (sum_list (map act_weight child))"
| "act_weight a = 1"

definition code_weight :: "act list \<Rightarrow> nat" where
  "code_weight code = sum_list (map act_weight code)"

definition world_weight :: "world \<Rightarrow> nat" where
  "world_weight w = sum_list (map (\<lambda>p. code_weight (p_code p)) (w_procs w))"

definition proc_ok :: "nat \<Rightarrow> nat \<Rightarrow> process \<Rightarrow> bool" where
  "proc_ok n i p \<longleftrightarrow>
     (if p_fate p = Running then proper (p_code p) \<and> \<not> p_reaped p else p_code p = [])
     \<and> (\<forall>k \<in> set (p_kids p). i < k \<and> k < n)"

definition world_ok :: "world \<Rightarrow> bool" where
  "world_ok w \<longleftrightarrow> (\<forall>i < length (w_procs w). proc_ok (length (w_procs w)) i (w_procs w ! i))"

lemma adopt_keeps [simp]:
  "p_code (adopt k p) = p_code p" "p_kids (adopt k p) = p_kids p" "p_fate (adopt k p) = p_fate p"
  "p_reaped (adopt k p) = p_reaped p" "p_buffer (adopt k p) = p_buffer p" "p_statuses (adopt k p) = p_statuses p"
  by (simp_all add: adopt_def)

lemma proc_ok_adopt [simp]: "proc_ok n i (adopt k p) = proc_ok n i p"
  by (simp add: proc_ok_def)

lemma used_keeps [simp]:
  "w_procs (used w) = w_procs w" "w_out (used w) = w_out w" "w_err (used w) = w_err w" "w_tty (used w) = w_tty w" "w_pid (used w) = w_pid w"
  by (simp_all add: used_def)

lemma all_update: "\<forall>i < length ps. P i (ps ! i) \<Longrightarrow> P k x \<Longrightarrow> \<forall>i < length ps. P i (ps[k := x] ! i)"
proof (intro allI impI)
  fix i
  assume "\<forall>i < length ps. P i (ps ! i)" "P k x" "i < length ps"
  then show "P i (ps[k := x] ! i)" by (cases "i = k") auto
qed

lemma ok_put:
  assumes "world_ok w" "proc_ok (length (w_procs w)) i p"
  shows "world_ok (put_process i p w)"
  unfolding world_ok_def put_process_def using all_update [OF assms(1) [unfolded world_ok_def] assms(2)] by simp

lemma ok_out [simp]:
  "world_ok (w\<lparr>w_out := t\<rparr>) = world_ok w" "world_ok (w\<lparr>w_err := e\<rparr>) = world_ok w" "world_ok (used w) = world_ok w"
  by (simp_all add: world_ok_def)

lemma proc_ok_buffer [simp]:
  "proc_ok n i (p\<lparr>p_buffer := t\<rparr>) = proc_ok n i p" "proc_ok n i (p\<lparr>p_id := j\<rparr>) = proc_ok n i p"
  "proc_ok n i (p\<lparr>p_handlers := h\<rparr>) = proc_ok n i p" "proc_ok n i (p\<lparr>p_statuses := x\<rparr>) = proc_ok n i p"
  by (simp_all add: proc_ok_def)

lemma ok_emit: "world_ok w \<Longrightarrow> proc_ok (length (w_procs w)) i p \<Longrightarrow> world_ok (emit i p t w)"
  by (simp add: emit_def ok_put)

lemma ok_finish:
  assumes "world_ok w" "\<forall>k \<in> set (p_kids p). i < k \<and> k < length (w_procs w)" "f \<noteq> Running"
  shows "world_ok (finish f i p w)"
proof -
  have "proc_ok (length (w_procs w)) i (p\<lparr>p_code := [], p_buffer := [], p_fate := f\<rparr>)"
    using assms(2,3) by (simp add: proc_ok_def)
  from all_update [OF assms(1) [unfolded world_ok_def] this] show ?thesis
    by (simp add: world_ok_def finish_def)
qed

lemma ok_leave: "world_ok w \<Longrightarrow> \<forall>k \<in> set (p_kids p). i < k \<and> k < length (w_procs w) \<Longrightarrow> world_ok (leave n i p w)"
  by (simp add: leave_def ok_finish)

lemma ok_complain: "world_ok w \<Longrightarrow> \<forall>k \<in> set (p_kids p). i < k \<and> k < length (w_procs w) \<Longrightarrow> world_ok (complain_leave m i p w)"
  by (simp add: complain_leave_def ok_leave)

lemma ok_reap:
  assumes "world_ok w" "p_fate (w_procs w ! j) \<noteq> Running"
  shows "world_ok (reap j w)"
proof (cases "j < length (w_procs w)")
  case True
  then have "proc_ok (length (w_procs w)) j (w_procs w ! j)" using assms(1) unfolding world_ok_def by blast
  then have "proc_ok (length (w_procs w)) j ((w_procs w ! j)\<lparr>p_reaped := True\<rparr>)"
    using assms(2) by (simp add: proc_ok_def)
  from all_update [OF assms(1) [unfolded world_ok_def] this] show ?thesis by (simp add: world_ok_def reap_def)
next
  case False
  then have "reap j w = w" by (simp add: reap_def list_update_beyond)
  with assms(1) show ?thesis by simp
qed

lemma length_procs [simp]:
  "length (w_procs (put_process i p w)) = length (w_procs w)" "length (w_procs (emit i p t w)) = length (w_procs w)"
  "length (w_procs (finish f i p w)) = length (w_procs w)" "length (w_procs (reap j w)) = length (w_procs w)"
  "length (w_procs (leave n i p w)) = length (w_procs w)" "length (w_procs (complain_leave m i p w)) = length (w_procs w)"
  by (simp_all add: put_process_def emit_def finish_def reap_def leave_def complain_leave_def)

lemma proper_rest: "proper (a # rest) \<Longrightarrow> (\<forall>n. a \<noteq> Return n) \<Longrightarrow> proper rest"
  by (cases a) auto

lemma ended_kids_ended: "j \<in> set (ended_kids w p) \<Longrightarrow> p_fate (w_procs w ! j) \<noteq> Running"
  by (simp add: ended_kids_def)

lemma ok_fork:
  assumes "world_ok w" "i < length (w_procs w)" "proc_ok (length (w_procs w)) i p" "proc_ok 0 0 new" "p_kids new = []"
  shows "world_ok ((used w)\<lparr>w_procs := (w_procs w)[i := p\<lparr>p_kids := p_kids p @ [length (w_procs w)]\<rparr>] @ [new]\<rparr>)"
proof -
  let ?n = "length (w_procs w)" and ?p = "p\<lparr>p_kids := p_kids p @ [length (w_procs w)]\<rparr>"
  have more: "proc_ok (Suc ?n) j q" if "proc_ok ?n j q" for j q
    using that by (auto simp: proc_ok_def split: if_splits)
  have "proc_ok (Suc ?n) i ?p" using more [OF assms(3)] assms(2) by (simp add: proc_ok_def)
  moreover have "\<forall>j < ?n. proc_ok (Suc ?n) j (w_procs w ! j)" using assms(1) more by (simp add: world_ok_def)
  ultimately have "\<forall>j < ?n. proc_ok (Suc ?n) j ((w_procs w)[i := ?p] ! j)"
    using all_update [of "w_procs w" "proc_ok (Suc ?n)" i ?p] by blast
  moreover have "proc_ok (Suc ?n) ?n new" using assms(4,5) by (simp add: proc_ok_def)
  ultimately show ?thesis by (simp add: world_ok_def nth_append less_Suc_eq)
qed

lemma step_ok:
  assumes "process_step i w = Some w'" "world_ok w"
  shows "world_ok w'"
proof -
  from assms(1) have i: "i < length (w_procs w)" by (auto simp: process_step_def split: if_splits)
  from assms(1) i obtain a rest where code: "p_code (w_procs w ! i) = a # rest"
    by (auto simp: process_step_def split: list.splits)
  let ?p = "(w_procs w ! i)\<lparr>p_code := rest\<rparr>"
  have pi: "proc_ok (length (w_procs w)) i (w_procs w ! i)" using assms(2) i by (simp add: world_ok_def)
  then have run: "p_fate (w_procs w ! i) = Running" "proper (a # rest)" "\<not> p_reaped (w_procs w ! i)"
    and kids: "\<forall>k \<in> set (p_kids ?p). i < k \<and> k < length (w_procs w)"
    using code by (auto simp: proc_ok_def split: if_splits)
  have p: "proc_ok (length (w_procs w)) i ?p" if "\<forall>n. a \<noteq> Return n"
    using proper_rest [OF run(2) that] run kids by (simp add: proc_ok_def)
  have kids': "\<forall>k \<in> set (p_kids (w_procs w ! i)). i < k \<and> k < length (w_procs w)" using kids by simp
  have step: "process_step i w = Some w'" by (rule assms(1))
  note rules = ok_put ok_emit ok_finish ok_leave ok_complain ok_reap
  show ?thesis
  proof (cases a)
    case (Fork child m)
    let ?n = "length (w_procs w)"
    let ?new = "\<lparr>p_id = (p_id ?p)\<lparr>id_pid := w_pid w ?n, id_ppid := id_pid (p_id ?p)\<rparr>, p_code = child, p_buffer = p_buffer ?p,
      p_handlers = p_handlers ?p, p_kids = [], p_statuses = [], p_fate = Running, p_reaped = False\<rparr>"
    have new: "proc_ok 0 0 ?new" using run(2) Fork by (simp add: proc_ok_def)
    have "world_ok ((used w)\<lparr>w_procs := (w_procs w)[i := ?p\<lparr>p_kids := p_kids ?p @ [?n]\<rparr>] @ [?new]\<rparr>)"
      using p Fork new by (intro ok_fork [OF assms(2) i]) simp_all
    then show ?thesis
      using step i assms(2) kids' by (auto simp: process_step_def Let_def code Fork intro: rules split: if_splits)
  next
    case (Wait_for k m)
    then show ?thesis
      using step i assms(2) kids' p
      by (auto simp: process_step_def Let_def code ok_put ok_reap intro: rules split: if_splits)
  next
    case Wait_any
    have "p_fate (w_procs w ! j) \<noteq> Running" if "ended_kids w ?p = j # js" for j js
      using ended_kids_ended [of j w ?p] that by simp
    with Wait_any show ?thesis
      using step i assms(2) kids' p
      by (auto simp: process_step_def Let_def code intro: rules split: if_splits list.splits)
  next
    case (Say_status k t)
    then show ?thesis
      using step i assms(2) kids' p
      by (auto simp: process_step_def Let_def code intro: rules split: option.splits fate.splits)
  qed (use step i assms(2) kids' p in \<open>auto simp: process_step_def Let_def code intro: rules split: if_splits\<close>)
qed

lemma runs_to_ok: "runs_to w0 w \<Longrightarrow> world_ok w0 \<Longrightarrow> world_ok w"
  by (induction rule: runs_to.induct) (auto intro: step_ok)

lemma begin_ok: "proper code \<Longrightarrow> world_ok (begin_with code pid shell tty faults)"
  by (simp add: world_ok_def begin_with_def proc_ok_def)

text \<open>A process that waits is waited for by nobody it waits for: children come later.\<close>

lemma last_running_steps:
  assumes "world_ok w" "i < length (w_procs w)" "p_fate (w_procs w ! i) = Running"
    and "\<forall>j < length (w_procs w). i < j \<longrightarrow> p_fate (w_procs w ! j) \<noteq> Running"
  shows "process_step i w \<noteq> None"
proof -
  have ok: "proc_ok (length (w_procs w)) i (w_procs w ! i)" using assms(1,2) by (simp add: world_ok_def)
  then have kids: "\<forall>j \<in> set (p_kids (w_procs w ! i)). p_fate (w_procs w ! j) \<noteq> Running"
    using assms(4) by (simp add: proc_ok_def)
  from ok assms(3) obtain a rest where code: "p_code (w_procs w ! i) = a # rest"
    by (cases "p_code (w_procs w ! i)") (auto simp: proc_ok_def)
  show ?thesis
    using assms(2) kids
    by (cases a) (auto simp: process_step_def Let_def code list_all_iff split: list.split option.split fate.split)
qed

lemma some_process_steps:
  assumes "world_ok w" "\<exists>p \<in> set (w_procs w). p_fate p = Running"
  shows "\<exists>i. process_step i w \<noteq> None"
proof -
  let ?run = "\<lambda>i. i < length (w_procs w) \<and> p_fate (w_procs w ! i) = Running"
  obtain i where "?run i" using assms(2) by (auto simp: in_set_conv_nth)
  moreover have "\<forall>i. ?run i \<longrightarrow> i \<le> length (w_procs w)" by simp
  ultimately have last: "?run (Greatest ?run)" "\<forall>j. ?run j \<longrightarrow> j \<le> Greatest ?run"
    by (metis (mono_tags, lifting) GreatestI_nat, metis (mono_tags, lifting) Greatest_le_nat)
  have "process_step (Greatest ?run) w \<noteq> None"
  proof (rule last_running_steps [OF assms(1)])
    show "\<forall>j < length (w_procs w). Greatest ?run < j \<longrightarrow> p_fate (w_procs w ! j) \<noteq> Running"
      using last(2) by (meson leD)
  qed (use last(1) in simp_all)
  then show ?thesis by blast
qed

lemma map_adopt_code: "map (\<lambda>p. code_weight (p_code p)) (map (adopt k) ps) = map (\<lambda>p. code_weight (p_code p)) ps"
  by simp

lemma weight_update:
  "i < length ps \<Longrightarrow> sum_list (map f (ps[i := x])) + f (ps ! i) = sum_list (map f ps) + f x" for f :: "'a \<Rightarrow> nat"
proof (induction ps arbitrary: i)
  case (Cons p ps)
  then show ?case by (cases i) auto
qed simp

lemma code_weight_simps [simp]: "code_weight [] = 0" "code_weight (a # as) = act_weight a + code_weight as"
  by (simp_all add: code_weight_def)

lemma act_weight_pos: "0 < act_weight a"
  by (cases a) simp_all

lemma weight_reap: "world_weight (reap j w) = world_weight w"
proof (cases "j < length (w_procs w)")
  case True
  then show ?thesis
    using weight_update [of j "w_procs w" "\<lambda>p. code_weight (p_code p)" "(w_procs w ! j)\<lparr>p_reaped := True\<rparr>"]
    by (simp add: world_weight_def reap_def)
qed (simp add: world_weight_def reap_def list_update_beyond)

lemma weight_put:
  assumes "i < length (w_procs w)" "p_code (w_procs w ! i) = a # rest" "code_weight (p_code p) \<le> code_weight rest"
  shows "world_weight (put_process i p w) < world_weight w"
  using weight_update [OF assms(1), of "\<lambda>p. code_weight (p_code p)" p] assms(2,3) act_weight_pos [of a]
  by (simp add: world_weight_def put_process_def)

lemma weight_emit:
  assumes "i < length (w_procs w)" "p_code (w_procs w ! i) = a # rest" "code_weight (p_code p) \<le> code_weight rest"
  shows "world_weight (emit i p t w) < world_weight w"
  using weight_put [of i "w\<lparr>w_out := w_out w @ p_buffer p @ t\<rparr>" a rest "p\<lparr>p_buffer := []\<rparr>"]
    weight_put [of i w a rest "p\<lparr>p_buffer := p_buffer p @ t\<rparr>"] assms
  by (simp add: emit_def) (simp add: world_weight_def)

lemma weight_used: "world_weight (used w) = world_weight w"
  by (simp add: world_weight_def)

lemma weight_finish:
  assumes "i < length (w_procs w)" "p_code (w_procs w ! i) = a # rest"
  shows "world_weight (finish f i p w) < world_weight w"
  using weight_update [OF assms(1), of "\<lambda>p. code_weight (p_code p)" "p\<lparr>p_code := [], p_buffer := [], p_fate := f\<rparr>"] assms(2)
    act_weight_pos [of a]
  by (simp add: world_weight_def finish_def comp_def del: map_update)

lemma weight_leave:
  assumes "i < length (w_procs w)" "p_code (w_procs w ! i) = a # rest"
  shows "world_weight (leave n i p w) < world_weight w" "world_weight (complain_leave m i p w) < world_weight w"
  using weight_finish [of i "w\<lparr>w_out := t\<rparr>" a rest _ p for t] weight_finish [of i "w\<lparr>w_err := e, w_out := t\<rparr>" a rest _ p for e t] assms
  by (simp_all add: leave_def complain_leave_def world_weight_def)

lemma step_weight:
  assumes "process_step i w = Some w'"
  shows "world_weight w' < world_weight w"
proof -
  from assms have i: "i < length (w_procs w)" by (auto simp: process_step_def split: if_splits)
  from assms i obtain a rest where code: "p_code (w_procs w ! i) = a # rest"
    by (auto simp: process_step_def split: list.splits)
  have code': "p_code (w_procs (used w) ! i) = a # rest" using code by simp
  have ir: "i < length (w_procs (reap j (used w)))" "i < length (w_procs (reap j w))" for j using i by simp_all
  have cr: "p_code (w_procs (reap j (used w)) ! i) = a # rest" "p_code (w_procs (reap j w) ! i) = a # rest" for j
    using code i by (cases "i = j"; simp add: reap_def)+
  note less = weight_put [OF i code] weight_emit [OF i code] weight_finish [OF i code] weight_leave [OF i code]
    weight_put [of i "used w", simplified, OF i code, unfolded weight_used]
    weight_finish [of i "used w", simplified, OF i code, unfolded weight_used]
    weight_leave [of i "used w", simplified, OF i code, unfolded weight_used]
    weight_put [OF ir(1) cr(1), unfolded weight_reap weight_used] weight_put [OF ir(2) cr(2), unfolded weight_reap]
  show ?thesis
  proof (cases a)
    case (Fork child m)
    let ?f = "\<lambda>p. code_weight (p_code p)"
    have "sum_list (map ?f ((w_procs w)[i := x])) + act_weight a + code_weight rest = world_weight w + ?f x" for x
      using weight_update [OF i, of ?f x] code by (simp add: world_weight_def)
    from this [of "(w_procs w ! i)\<lparr>p_code := rest, p_kids := p_kids (w_procs w ! i) @ [length (w_procs w)]\<rparr>"]
    show ?thesis
      using assms i less
      by (auto simp: process_step_def Let_def code Fork code_weight_def world_weight_def split: if_splits)
  qed (use assms i less in \<open>auto simp: process_step_def Let_def code split: if_splits list.splits option.splits fate.splits\<close>)
qed

definition process_programs :: "nat \<Rightarrow> nat \<Rightarrow> act list set" where
  "process_programs r1 r2 =
     {wait_main r1 r2, waitpid_main, fork_main, exit_main, atexit_main, abort_main, exec_main, setpgid_main, setsid_main,
      tcsetpgrp_main, getpid_main, getppid_main, getpgid_main, getpgrp_main, getsid_main}"

lemma programs_proper: "code \<in> process_programs r1 r2 \<Longrightarrow> proper code"
  by (auto simp: process_programs_def wait_main_def waitpid_main_def fork_main_def exit_main_def atexit_main_def abort_main_def
      exec_main_def setpgid_main_def setsid_main_def tcsetpgrp_main_def getpid_main_def getppid_main_def getpgid_main_def
      getpgrp_main_def getsid_main_def child_process_def setpgid_handle_child_def setsid_handle_child_def
      set_core_dump_limit_def print_process_info_def say_def line_def pid_line_def)

text \<open>The programs that fork, wait and change their group or session end: whatever the schedule and whatever calls fail, every
  step of a process lowers a weight, and as long as a process is running one can do a step, so that no process waits for ever.\<close>

theorem process_programs_end:
  assumes "code \<in> process_programs r1 r2" "runs_to (begin_with code pid shell tty faults) w"
  shows "(process_step i w = Some w' \<longrightarrow> world_weight w' < world_weight w)
    \<and> ((\<exists>p \<in> set (w_procs w). p_fate p = Running) \<longrightarrow> (\<exists>j. process_step j w \<noteq> None))"
proof (intro conjI impI)
  show "world_weight w' < world_weight w" if "process_step i w = Some w'" using that by (rule step_weight)
  have "world_ok w" by (rule runs_to_ok [OF assms(2) begin_ok [OF programs_proper [OF assms(1)]]])
  then show "\<exists>j. process_step j w \<noteq> None" if "\<exists>p \<in> set (w_procs w). p_fate p = Running"
    using that by (rule some_process_steps)
qed

lemma process_programs_end_witness:
  "\<exists>j. process_step j (begin_with waitpid_main Suc 0 True []) \<noteq> None"
proof -
  have "waitpid_main \<in> process_programs 0 0" by (simp add: process_programs_def)
  from process_programs_end [where pid = Suc and shell = 0 and tty = True and faults = "[]", OF this runs_to.start]
  show ?thesis by (simp add: begin_with_def)
qed

section \<open>Runs without a choice\<close>

definition successors :: "world \<Rightarrow> world list" where
  "successors w = List.map_filter (\<lambda>i. process_step i w) [0..<length (w_procs w)]"

fun only_end :: "nat \<Rightarrow> world \<Rightarrow> world option" where
  "only_end 0 w = None"
| "only_end (Suc n) w = (case successors w of [] \<Rightarrow> Some w | [w'] \<Rightarrow> only_end n w' | _ \<Rightarrow> None)"

lemma successors_step: "process_step i w = Some w' \<Longrightarrow> w' \<in> set (successors w)"
proof -
  assume step: "process_step i w = Some w'"
  then have "i < length (w_procs w)" by (auto simp: process_step_def split: if_splits)
  with step show ?thesis by (force simp: successors_def map_filter_def)
qed

lemma only_end_step:
  assumes "only_end n w = Some fin" "process_step i w = Some w'"
  shows "\<exists>m. only_end m w' = Some fin"
proof (cases n)
  case (Suc m)
  with assms successors_step [OF assms(2)] show ?thesis
    by (auto split: list.splits)
qed (use assms in simp)

lemma only_end_reached:
  assumes "runs_to w0 w" "only_end n w0 = Some fin"
  shows "\<exists>m. only_end m w = Some fin"
  using assms by (induction rule: runs_to.induct) (auto dest: only_end_step)

lemma only_end_last:
  assumes "runs_to w0 w" "only_end n w0 = Some fin" "\<forall>i. process_step i w = None"
  shows "w = fin"
proof -
  obtain m where m: "only_end m w = Some fin" using only_end_reached [OF assms(1,2)] by blast
  moreover have "successors w = []" using assms(3) by (simp add: successors_def map_filter_def)
  ultimately show ?thesis by (cases m) auto
qed

lemma successor_steps: "w' \<in> set (successors w) \<Longrightarrow> \<exists>i. process_step i w = Some w'"
  by (auto simp: successors_def map_filter_def)

lemma only_end_runs_from: "only_end n w = Some fin \<Longrightarrow> runs_to w0 w \<Longrightarrow> runs_to w0 fin \<and> successors fin = []"
proof (induction n arbitrary: w)
  case (Suc n)
  show ?case
  proof (cases "successors w")
    case Nil
    with Suc.prems show ?thesis by simp
  next
    case (Cons w' ws)
    with Suc.prems(1) have "ws = []" and fin: "only_end n w' = Some fin" by (auto split: list.splits)
    from Cons obtain i where "process_step i w = Some w'" using successor_steps [of w' w] by auto
    then have "runs_to w0 w'" by (rule runs_to.step [OF Suc.prems(2)])
    with Suc.IH [OF fin] show ?thesis by blast
  qed
qed simp

lemma only_end_runs:
  assumes "only_end n w0 = Some fin"
  shows "runs_to w0 fin" "\<forall>i. process_step i fin = None"
proof -
  have fin: "runs_to w0 fin \<and> successors fin = []" by (rule only_end_runs_from [OF assms runs_to.start])
  then show "runs_to w0 fin" by simp
  show "\<forall>i. process_step i fin = None"
  proof
    fix i
    show "process_step i fin = None" using fin successors_step [of i fin] by (cases "process_step i fin") auto
  qed
qed

lemmas world_run = successors_def map_filter_simps process_step_def Let_def put_process_def emit_def finish_def leave_def adopt_def
  complain_leave_def fails_now_def used_def reap_def ended_kids_def line_def say_def begin_with_def

text \<open>What the two programs print before they fork, and what the child and then the parent print after it.\<close>

definition group_heading :: "nat \<Rightarrow> string" where
  "group_heading me =
     ''Original Process ID (PID): '' @ dec_nat me @ [NL] @ ''Original Process Group ID (PGID): '' @ dec_nat me @ [NL]"

definition group_child :: "nat \<Rightarrow> nat \<Rightarrow> string" where
  "group_child parent me =
     ''Child Process ID (PID): '' @ dec_nat me @ [NL] @ ''Child Process Group ID (PGID): '' @ dec_nat parent @ [NL]"

lemma setpgid_only_end:
  assumes "pid 0 \<noteq> pid 1" "shell \<noteq> pid 0" "shell \<noteq> pid 1"
  shows "\<exists>w. only_end 20 (begin_with setpgid_main pid shell tty []) = Some w \<and> w_err w = []
     \<and> map p_fate (w_procs w) = [Exited 0, Exited 0]
     \<and> w_out w = group_heading (pid 0) @ group_child (pid 0) (pid 1)
         @ ''Child Process Group ID (PGID) after change: '' @ dec_nat (pid 1) @ [NL]
         @ (if tty then [] else group_heading (pid 0))"
  using assms
  by (cases tty)
    (simp_all add: numeral_eq_Suc setpgid_main_def setpgid_handle_child_def world_run group_heading_def group_child_def)

lemma setsid_only_end:
  assumes "pid 0 \<noteq> pid 1" "shell \<noteq> pid 0" "shell \<noteq> pid 1"
  shows "\<exists>w. only_end 20 (begin_with setsid_main pid shell tty []) = Some w \<and> w_err w = []
     \<and> map p_fate (w_procs w) = [Exited 0, Exited 0]
     \<and> w_out w = group_heading (pid 0) @ group_child (pid 0) (pid 1)
         @ ''Child Process New Session ID (SID): '' @ dec_nat (pid 1) @ [NL]
         @ ''Child Process New Process Group ID (PGID): '' @ dec_nat (pid 1) @ [NL]
         @ (if tty then [] else group_heading (pid 0))
         @ ''Parent Process ID (PID) after child process execution: '' @ dec_nat (pid 0) @ [NL]"
  using assms
  by (cases tty)
    (simp_all add: numeral_eq_Suc setsid_main_def setsid_handle_child_def world_run group_heading_def group_child_def)

lemma tcsetpgrp_only_end:
  assumes "pid 0 \<noteq> pid 1" "shell \<noteq> pid 0" "shell \<noteq> pid 1"
  shows "\<exists>w. only_end 20 (begin_with tcsetpgrp_main pid shell tty []) = Some w
     \<and> w_err w = [Perror ''Error setting PGID for the child process'']
     \<and> map p_fate (w_procs w) = [Exited 0, Exited 1]"
  using assms
  by (cases tty) (simp_all add: numeral_eq_Suc tcsetpgrp_main_def world_run)

lemma abort_only_end:
  "\<exists>w. only_end 20 (begin_with abort_main pid shell tty []) = Some w \<and> w_err w = [] \<and> map p_fate (w_procs w) = [Killed]
     \<and> w_out w = (if tty then ''Core dump limit set to: '' @ [CHR 0x22] @ ''unlimited'' @ [CHR 0x22] @ [NL]
         @ ''Main function executing.'' @ [NL] else [])"
  by (cases tty) (simp_all add: numeral_eq_Suc abort_main_def set_core_dump_limit_def world_run)

lemma exec_only_end:
  "\<exists>w. only_end 20 (begin_with exec_main pid shell tty []) = Some w \<and> map p_fate (w_procs w) = [Replaced]
     \<and> w_out w = (if tty then ''Current Process ID: '' @ dec_nat (pid 0) @ [NL] else [])"
  by (cases tty) (simp_all add: numeral_eq_Suc exec_main_def world_run)

lemma atexit_only_end:
  "\<exists>w. only_end 20 (begin_with atexit_main pid shell tty []) = Some w
     \<and> w_out w = ''Main function executing.'' @ [NL] @ exit_handler 3 @ exit_handler 2 @ exit_handler 1"
  by (cases tty) (simp_all add: numeral_eq_Suc atexit_main_def world_run)

text \<open>C34. Text that is still in the buffer of the standard output is copied by \<^verbatim>\<open>fork\<close>: with a terminal the heading of setpgid and
  setsid comes once, and with the output redirected to a file it comes twice, after the lines of the child, which flushes its copy
  first. The child of tcsetpgrp, which is the leader of a session by then, never gets the group that it asks for.\<close>

theorem group_programs_print:
  assumes "pid 0 \<noteq> pid 1" "shell \<noteq> pid 0" "shell \<noteq> pid 1" "\<forall>i. process_step i w = None"
    and "runs_to (begin_with code pid shell tty []) w"
  shows "(code = setpgid_main \<longrightarrow> w_err w = []
       \<and> w_out w = group_heading (pid 0) @ group_child (pid 0) (pid 1)
         @ ''Child Process Group ID (PGID) after change: '' @ dec_nat (pid 1) @ [NL]
         @ (if tty then [] else group_heading (pid 0)))
    \<and> (code = setsid_main \<longrightarrow> w_err w = []
       \<and> w_out w = group_heading (pid 0) @ group_child (pid 0) (pid 1)
         @ ''Child Process New Session ID (SID): '' @ dec_nat (pid 1) @ [NL]
         @ ''Child Process New Process Group ID (PGID): '' @ dec_nat (pid 1) @ [NL]
         @ (if tty then [] else group_heading (pid 0))
         @ ''Parent Process ID (PID) after child process execution: '' @ dec_nat (pid 0) @ [NL])
    \<and> (code = tcsetpgrp_main \<longrightarrow> w_err w = [Perror ''Error setting PGID for the child process'']
       \<and> map p_fate (w_procs w) = [Exited 0, Exited 1])"
  using setpgid_only_end [OF assms(1-3), of tty] setsid_only_end [OF assms(1-3), of tty] tcsetpgrp_only_end [OF assms(1-3), of tty]
    only_end_last [OF assms(5) _ assms(4)]
  by metis

lemma group_programs_print_witness:
  "w_out (the (only_end 20 (begin_with setpgid_main Suc 0 False []))) =
     group_heading 1 @ group_child 1 2 @ ''Child Process Group ID (PGID) after change: '' @ dec_nat 2 @ [NL] @ group_heading 1"
proof -
  obtain w where w: "only_end 20 (begin_with setpgid_main Suc 0 False []) = Some w"
    using setpgid_only_end [of Suc 0 False] by auto
  from only_end_runs [OF w] have "runs_to (begin_with setpgid_main Suc 0 False []) w" "\<forall>i. process_step i w = None" by simp_all
  from group_programs_print [where pid = Suc and shell = 0, OF _ _ _ this(2,1)] have
    "w_out w = group_heading 1 @ group_child 1 2 @ ''Child Process Group ID (PGID) after change: '' @ dec_nat 2 @ [NL] @ group_heading 1"
    by (simp add: numeral_2_eq_2)
  with w show ?thesis by simp
qed

end
