(* ===== verification/Waiting_Programs.thy ===== *)
theory Waiting_Programs
  imports Processes
begin

text \<open>
  \<^verbatim>\<open>src/process/wait\<close> and \<^verbatim>\<open>src/process/waitpid\<close>, whose parent forks its children and then waits for each of them. The theory
  shows what every run without a failing call ends with: which processes there are, with which status they have ended,
  that each child has been waited for, and what has been printed in which order, on a terminal and to a file.
\<close>

section \<open>What a process prints\<close>

text \<open>The texts of one call; the children here all exit with 0.\<close>

fun says :: "identity \<Rightarrow> act \<Rightarrow> string list" where
  "says me (Printf f) = [f me]"
| "says me (Say_status k t) = [t @ dec_int 0 @ [NL]]"
| "says me a = []"

definition lines_of :: "identity \<Rightarrow> act list \<Rightarrow> string list" where
  "lines_of me code = concat (map (says me) code)"

lemma lines_of_simps [simp]:
  "lines_of me [] = []" "lines_of me (a # code) = says me a @ lines_of me code" "lines_of me (c @ d) = lines_of me c @ lines_of me d"
  by (simp_all add: lines_of_def)

text \<open>What has come out of a process that has gone through the calls \<open>before\<close> of its code: on a terminal every line, to a file
  everything when the process has ended.\<close>

definition shown :: "bool \<Rightarrow> identity \<Rightarrow> act list \<Rightarrow> act list \<Rightarrow> string list" where
  "shown tty me before rest =
     (if tty then lines_of me before else if rest = [] then [concat (lines_of me before)] else [])"

text \<open>The output as a list of texts, each with the number of the process that has printed it.\<close>

definition by_process :: "nat \<Rightarrow> (nat \<times> string) list \<Rightarrow> string list" where
  "by_process i log = map snd (filter (\<lambda>x. fst x = i) log)"

lemma by_process_simps [simp]:
  "by_process i [] = []" "by_process i (log @ log') = by_process i log @ by_process i log'"
  "by_process i (map (Pair j) ls) = (if i = j then ls else [])"
  by (simp_all add: by_process_def filter_map comp_def)

lemma snd_Pair [simp]: "map (snd \<circ> Pair i) ls = ls"
  by (simp add: comp_def)

fun is_wait :: "act \<Rightarrow> bool" where
  "is_wait (Wait_for k m) = True"
| "is_wait a = False"

definition after_waits :: "act list \<Rightarrow> act list" where
  "after_waits code = rev (takeWhile (\<lambda>a. \<not> is_wait a) (rev code))"

lemma after_waits_snoc: "after_waits (code @ [a]) = (if is_wait a then [] else after_waits code @ [a])"
  by (simp add: after_waits_def)

section \<open>Programs that wait for their children\<close>

text \<open>The code of a child prints lines and returns 0. That of the parent forks the children in turn, waits once for each, and
  returns 0 when it has waited for all. \<open>n\<close> children have been forked and those of \<open>W\<close> waited for.\<close>

fun child_ok :: "identity \<Rightarrow> act list \<Rightarrow> bool" where
  "child_ok me [] = False"
| "child_ok me (a # rest) =
     (case a of
        Printf f \<Rightarrow> NL \<in> set (f me) \<and> child_ok me rest
      | Quiet \<Rightarrow> child_ok me rest
      | Return v \<Rightarrow> v = 0 \<and> rest = []
      | _ \<Rightarrow> False)"

fun parent_ok :: "identity \<Rightarrow> act list list \<Rightarrow> nat \<Rightarrow> nat set \<Rightarrow> act list \<Rightarrow> bool" where
  "parent_ok me codes n W [] = False"
| "parent_ok me codes n W (a # rest) =
     (case a of
        Printf f \<Rightarrow> NL \<in> set (f me) \<and> parent_ok me codes n W rest
      | Quiet \<Rightarrow> parent_ok me codes n W rest
      | Fork child m \<Rightarrow> n < length codes \<and> child = codes ! n \<and> parent_ok me codes (Suc n) W rest
      | Wait_for k m \<Rightarrow> k < n \<and> k \<notin> W \<and> parent_ok me codes n (insert k W) rest
      | Say_status k t \<Rightarrow> k \<in> W \<and> parent_ok me codes n W rest
      | Return v \<Rightarrow> v = 0 \<and> rest = [] \<and> n = length codes \<and> W = {..<n}
      | _ \<Rightarrow> False)"

definition parent_id :: "(nat \<Rightarrow> nat) \<Rightarrow> nat \<Rightarrow> identity" where
  "parent_id pid shell = \<lparr>id_pid = pid 0, id_ppid = shell, id_pgid = pid 0, id_sid = shell\<rparr>"

definition child_id :: "(nat \<Rightarrow> nat) \<Rightarrow> nat \<Rightarrow> nat \<Rightarrow> identity" where
  "child_id pid shell i = \<lparr>id_pid = pid (Suc i), id_ppid = pid 0, id_pgid = pid 0, id_sid = shell\<rparr>"

section \<open>Invariant\<close>

definition unprinted :: "bool \<Rightarrow> identity \<Rightarrow> act list \<Rightarrow> string" where
  "unprinted tty me before = (if tty then [] else concat (lines_of me before))"

definition child_part :: "bool \<Rightarrow> identity \<Rightarrow> act list \<Rightarrow> bool \<Rightarrow> string list \<Rightarrow> process \<Rightarrow> bool" where
  "child_part tty me code reaped out p \<longleftrightarrow>
     (\<exists>before. code = before @ p_code p \<and> (p_code p \<noteq> [] \<longrightarrow> child_ok me (p_code p)) \<and> p_id p = me \<and> p_handlers p = [] \<and> p_kids p = []
       \<and> p_fate p = (if p_code p = [] then Exited 0 else Running) \<and> p_reaped p = reaped \<and> (reaped \<longrightarrow> p_code p = [])
       \<and> p_buffer p = (if p_code p = [] then [] else unprinted tty me before) \<and> out = shown tty me before (p_code p))"

definition parent_part ::
  "bool \<Rightarrow> identity \<Rightarrow> act list \<Rightarrow> act list list \<Rightarrow> nat \<Rightarrow> nat set \<Rightarrow> (nat \<times> string) list \<Rightarrow> process \<Rightarrow> bool" where
  "parent_part tty me main codes n W log p \<longleftrightarrow>
     (\<exists>before. main = before @ p_code p \<and> parent_ok me codes n W (p_code p) \<and> p_id p = me \<and> p_handlers p = [] \<and> p_kids p = [1..<Suc n]
       \<and> p_fate p = Running \<and> (\<forall>k. map_of (p_statuses p) k = (if k \<in> W then Some (Exited 0) else None))
       \<and> p_buffer p = unprinted tty me before \<and> by_process 0 log = shown tty me before (p_code p)
       \<and> (n = length codes \<and> W = {..<n} \<longrightarrow> (\<exists>L. log = L @ map (Pair 0) (if tty then lines_of me (after_waits before) else []))))"

definition at_work ::
  "act list \<Rightarrow> act list list \<Rightarrow> (nat \<Rightarrow> nat) \<Rightarrow> nat \<Rightarrow> nat \<Rightarrow> nat set \<Rightarrow> (nat \<times> string) list \<Rightarrow> world \<Rightarrow> bool" where
  "at_work main codes pid shell n W log w \<longleftrightarrow>
     w_faults w = [] \<and> w_err w = [] \<and> w_pid w = pid \<and> w_out w = concat (map snd log) \<and> (\<forall>x \<in> set log. fst x \<le> n)
   \<and> length (w_procs w) = Suc n \<and> n \<le> length codes \<and> W \<subseteq> {..<n}
   \<and> parent_part (w_tty w) (parent_id pid shell) main codes n W log (w_procs w ! 0)
   \<and> (\<forall>i < n. child_part (w_tty w) (child_id pid shell i) (codes ! i) (i \<in> W) (by_process (Suc i) log) (w_procs w ! Suc i))"

text \<open>All processes have ended with status 0, all children have been waited for, every process has printed its lines in their order,
  and what the parent prints after it has waited comes behind everything else.\<close>

definition all_ended :: "act list \<Rightarrow> act list list \<Rightarrow> (nat \<Rightarrow> nat) \<Rightarrow> nat \<Rightarrow> world \<Rightarrow> bool" where
  "all_ended main codes pid shell w \<longleftrightarrow>
     w_err w = [] \<and> length (w_procs w) = Suc (length codes)
   \<and> (\<forall>p \<in> set (w_procs w). p_code p = [] \<and> p_fate p = Exited 0) \<and> (\<forall>i < length codes. p_reaped (w_procs w ! Suc i))
   \<and> (\<exists>log. w_out w = concat (map snd log)
       \<and> by_process 0 log = shown (w_tty w) (parent_id pid shell) main []
       \<and> (\<forall>i < length codes. by_process (Suc i) log = shown (w_tty w) (child_id pid shell i) (codes ! i) [])
       \<and> (\<exists>L. log = L @ map (Pair 0) (if w_tty w then lines_of (parent_id pid shell) (after_waits main)
           else [concat (lines_of (parent_id pid shell) main)])))"

section \<open>Steps\<close>

text \<open>A call that prints or sleeps.\<close>

definition printed :: "process \<Rightarrow> act \<Rightarrow> act list \<Rightarrow> bool \<Rightarrow> process" where
  "printed p a rest tty = p\<lparr>p_code := rest, p_buffer := (if tty then [] else p_buffer p @ concat (says (p_id p) a))\<rparr>"

fun plain :: "process \<Rightarrow> act \<Rightarrow> bool" where
  "plain p (Printf f) \<longleftrightarrow> NL \<in> set (f (p_id p))"
| "plain p Quiet \<longleftrightarrow> True"
| "plain p (Say_status k t) \<longleftrightarrow> map_of (p_statuses p) k = Some (Exited 0)"
| "plain p a \<longleftrightarrow> False"

lemma same_buffer: "p_buffer p = [] \<Longrightarrow> p\<lparr>p_code := c, p_buffer := []\<rparr> = p\<lparr>p_code := c\<rparr>"
  "p\<lparr>p_code := c, p_buffer := p_buffer p\<rparr> = p\<lparr>p_code := c\<rparr>"
  by (cases p; simp)+

lemma plain_step:
  assumes "i < length (w_procs w)" "p_code (w_procs w ! i) = a # rest" "plain (w_procs w ! i) a" "w_tty w \<Longrightarrow> p_buffer (w_procs w ! i) = []"
  shows "process_step i w = Some (w\<lparr>w_procs := (w_procs w)[i := printed (w_procs w ! i) a rest (w_tty w)],
    w_out := w_out w @ concat (if w_tty w then says (p_id (w_procs w ! i)) a else [])\<rparr>)"
  using assms
  by (cases a) (auto simp: process_step_def Let_def emit_def put_process_def printed_def same_buffer)

lemma return_step:
  assumes "i < length (w_procs w)" "p_code (w_procs w ! i) = [Return 0]" "p_handlers (w_procs w ! i) = []"
  shows "process_step i w = Some (w\<lparr>w_out := w_out w @ p_buffer (w_procs w ! i),
    w_procs := map (adopt (id_pid (p_id (w_procs w ! i)))) ((w_procs w)[i := (w_procs w ! i)\<lparr>p_code := [], p_buffer := [], p_fate := Exited 0\<rparr>])\<rparr>)"
  using assms by (simp add: process_step_def Let_def leave_def finish_def)

lemma child_plain:
  assumes "child_part tty me code r out p" "p_code p = a # rest" "a \<noteq> Return 0"
  shows "plain p a \<and> (tty \<longrightarrow> p_buffer p = [])
    \<and> child_part tty me code r (out @ (if tty then says me a else [])) (printed p a rest tty)"
proof -
  from assms(1,2) obtain before where b: "code = before @ a # rest" "child_ok me (a # rest)" "p_id p = me" "p_handlers p = []"
    "p_kids p = []" "p_fate p = Running" "p_reaped p = r" "\<not> r" "p_buffer p = unprinted tty me before" "out = shown tty me before (a # rest)"
    by (auto simp: child_part_def)
  have rest: "rest \<noteq> []" "child_ok me rest" and plain: "plain p a" using b(2,3) assms(3) by (cases a; cases rest; simp)+
  have "child_part tty me code r (out @ (if tty then says me a else [])) (printed p a rest tty)"
    unfolding child_part_def
    using b rest by (intro exI [of _ "before @ [a]"]) (simp add: printed_def unprinted_def shown_def)
  with plain b(9) show ?thesis by (simp add: unprinted_def)
qed

lemma child_return:
  assumes "child_part tty me code r out p" "p_code p = [Return 0]"
  shows "p_handlers p = [] \<and> p_id p = me
    \<and> child_part tty me code r (out @ (if tty then [] else [p_buffer p])) (p\<lparr>p_code := [], p_buffer := [], p_fate := Exited 0\<rparr>)"
proof -
  from assms obtain before where b: "code = before @ [Return 0]" "p_id p = me" "p_handlers p = []"
    "p_kids p = []" "p_reaped p = r" "\<not> r" "p_buffer p = unprinted tty me before" "out = shown tty me before [Return 0]"
    by (auto simp: child_part_def)
  then show ?thesis
    unfolding child_part_def by (auto simp: unprinted_def shown_def intro!: exI [of _ "before @ [Return 0]"])
qed

lemma child_codes: "child_ok me (a # rest) \<Longrightarrow> a = Return 0 \<longrightarrow> rest = []"
  by (cases a) auto


section \<open>The invariant is kept\<close>

lemma step_tty: "process_step i w = Some w' \<Longrightarrow> w_tty w' = w_tty w"
  by (auto simp: process_step_def Let_def emit_def put_process_def finish_def leave_def complain_leave_def used_def reap_def
      split: if_splits list.splits act.splits option.splits fate.splits)

lemma at_work_start:
  assumes "parent_ok (parent_id pid shell) codes 0 {} main" "inj pid"
  shows "at_work main codes pid shell 0 {} [] (begin_with main pid shell tty [])"
proof -
  have "main \<noteq> []" using assms(1) by auto
  with assms(1) show ?thesis
    by (simp add: at_work_def begin_with_def parent_part_def parent_id_def unprinted_def shown_def after_waits_def)
qed

lemma at_work_other:
  assumes "at_work main codes pid shell n W log w" "i < n"
  shows "child_part (w_tty w) (child_id pid shell i) (codes ! i) (i \<in> W) (by_process (Suc i) log) (w_procs w ! Suc i)"
  using assms by (simp add: at_work_def)

text \<open>A child that is not replaced by its step.\<close>

lemma child_step:
  assumes inv: "at_work main codes pid shell n W log w" and i: "i < n" and step: "process_step (Suc i) w = Some w'"
    and pids: "inj pid" "shell \<notin> range pid"
  shows "\<exists>log'. at_work main codes pid shell n W log' w'"
proof -
  let ?p = "w_procs w ! Suc i" and ?me = "child_id pid shell i"
  note part = at_work_other [OF inv i]
  have len: "Suc i < length (w_procs w)" using inv i by (simp add: at_work_def)
  obtain a rest where code: "p_code ?p = a # rest"
    using step len by (auto simp: process_step_def split: list.splits)
  then have work: "i \<notin> W" "child_ok ?me (a # rest)" using part by (auto simp: child_part_def)
  then have open': "\<not> (n = length codes \<and> W = {..<n})" using i by auto
  have ids: "id_ppid (p_id (w_procs w ! 0)) = shell" "\<And>j. j < n \<Longrightarrow> id_ppid (p_id (w_procs w ! Suc j)) = pid 0"
    using inv by (auto simp: at_work_def parent_part_def child_part_def parent_id_def child_id_def)
  show ?thesis
  proof (cases "a = Return 0")
    case False
    from child_plain [OF part code False] have plain: "plain ?p a" "w_tty w \<Longrightarrow> p_buffer ?p = []"
      "child_part (w_tty w) ?me (codes ! i) (i \<in> W) (by_process (Suc i) log @ (if w_tty w then says ?me a else [])) (printed ?p a rest (w_tty w))"
      by simp_all
    have me: "p_id ?p = ?me" using part by (auto simp: child_part_def)
    let ?log = "log @ map (Pair (Suc i)) (if w_tty w then says ?me a else [])"
    have w': "w' = w\<lparr>w_procs := (w_procs w)[Suc i := printed ?p a rest (w_tty w)], w_out := w_out w @ concat (if w_tty w then says ?me a else [])\<rparr>"
      using plain_step [OF len code plain(1,2)] step me by simp
    have "at_work main codes pid shell n W ?log w'"
      unfolding at_work_def w'
      using inv plain(3) open' i by (auto simp: at_work_def parent_part_def nth_list_update)
    then show ?thesis ..
  next
    case True
    then have code': "p_code ?p = [Return 0]" using code child_codes [OF work(2)] by simp
    note ret = child_return [OF part code']
    let ?log = "log @ map (Pair (Suc i)) (if w_tty w then [] else [p_buffer ?p])"
    let ?q = "?p\<lparr>p_code := [], p_buffer := [], p_fate := Exited 0\<rparr>"
    have id: "id_pid (p_id ?p) = pid (Suc i)" using ret by (simp add: child_id_def)
    have "adopt (pid (Suc i)) p = p" if p: "p \<in> set ((w_procs w)[Suc i := ?q])" for p
    proof -
      obtain j where j: "j < length (w_procs w)" "p = (w_procs w)[Suc i := ?q] ! j" using p by (auto simp: in_set_conv_nth)
      have "id_ppid (p_id p) \<in> {shell, pid 0}"
        using j ids inv by (cases j; cases "j = Suc i") (auto simp: at_work_def nth_list_update)
      moreover have "pid (Suc i) \<notin> {shell, pid 0}" using pids by (auto dest: injD)
      ultimately show ?thesis by (auto simp: adopt_def)
    qed
    then have same: "map (adopt (pid (Suc i))) ((w_procs w)[Suc i := ?q]) = (w_procs w)[Suc i := ?q]" by (simp add: map_idI)
    have buffer: "w_tty w \<Longrightarrow> p_buffer ?p = []" using part code' by (auto simp: child_part_def unprinted_def)
    have w': "w' = w\<lparr>w_out := w_out w @ p_buffer ?p, w_procs := (w_procs w)[Suc i := ?q]\<rparr>"
      using return_step [OF len code'] ret step id same by simp
    have "at_work main codes pid shell n W ?log w'"
      unfolding at_work_def w'
      using inv ret open' i buffer by (auto simp: at_work_def parent_part_def nth_list_update)
    then show ?thesis ..
  qed
qed

lemma parent_codes: "parent_ok me codes n W (a # rest) \<Longrightarrow> rest = [] \<longleftrightarrow> a = Return 0"
  by (cases a; cases rest) auto

lemma parentE:
  assumes "at_work main codes pid shell n W log w" "p_code (w_procs w ! 0) = a # rest"
  obtains before where "main = before @ a # rest" "parent_ok (parent_id pid shell) codes n W (a # rest)"
    "p_id (w_procs w ! 0) = parent_id pid shell" "p_handlers (w_procs w ! 0) = []" "p_kids (w_procs w ! 0) = [1..<Suc n]"
    "p_fate (w_procs w ! 0) = Running" "\<forall>k. map_of (p_statuses (w_procs w ! 0)) k = (if k \<in> W then Some (Exited 0) else None)"
    "p_buffer (w_procs w ! 0) = unprinted (w_tty w) (parent_id pid shell) before"
    "by_process 0 log = (if w_tty w then lines_of (parent_id pid shell) before else [])"
    "n = length codes \<and> W = {..<n} \<longrightarrow>
      (\<exists>L. log = L @ map (Pair 0) (if w_tty w then lines_of (parent_id pid shell) (after_waits before) else []))"
  using assms unfolding at_work_def parent_part_def shown_def by force

text \<open>A call of the parent that prints or sleeps.\<close>

lemma parent_plain:
  assumes inv: "at_work main codes pid shell n W log w" and code: "p_code (w_procs w ! 0) = a # rest"
    and step: "process_step 0 w = Some w'" and a: "plain (w_procs w ! 0) a"
  shows "\<exists>log'. at_work main codes pid shell n W log' w'"
proof -
  let ?p = "w_procs w ! 0" and ?me = "parent_id pid shell"
  obtain before where b: "main = before @ a # rest" "parent_ok ?me codes n W (a # rest)" "p_id ?p = ?me" "p_handlers ?p = []"
    "p_kids ?p = [1..<Suc n]" "p_fate ?p = Running" "\<forall>k. map_of (p_statuses ?p) k = (if k \<in> W then Some (Exited 0) else None)"
    "p_buffer ?p = unprinted (w_tty w) ?me before" "by_process 0 log = (if w_tty w then lines_of ?me before else [])"
    "n = length codes \<and> W = {..<n} \<longrightarrow> (\<exists>L. log = L @ map (Pair 0) (if w_tty w then lines_of ?me (after_waits before) else []))"
    by (rule parentE [OF inv code])
  let ?t = "if w_tty w then says ?me a else []"
  let ?log = "log @ map (Pair 0) ?t"
  have len: "length (w_procs w) = Suc n" using inv by (simp add: at_work_def)
  have rest: "rest \<noteq> []" "parent_ok ?me codes n W rest" using b(2) parent_codes [OF b(2)] a by (cases a; simp)+
  have "\<not> is_wait a" using a by (cases a) simp_all
  then have tail: "after_waits (before @ [a]) = after_waits before @ [a]" by (simp add: after_waits_snoc)
  have "process_step 0 w = Some (w\<lparr>w_procs := (w_procs w)[0 := printed ?p a rest (w_tty w)], w_out := w_out w @ concat (if w_tty w then says (p_id ?p) a else [])\<rparr>)"
    by (rule plain_step) (use len code a b(8) in \<open>simp_all add: unprinted_def\<close>)
  then have w': "w' = w\<lparr>w_procs := (w_procs w)[0 := printed ?p a rest (w_tty w)], w_out := w_out w @ concat ?t\<rparr>"
    using step b(3) by simp
  have "\<exists>L. ?log = L @ map (Pair 0) (if w_tty w then lines_of ?me (after_waits (before @ [a])) else [])"
    if "n = length codes" "W = {..<n}"
    using b(10) that unfolding tail by auto
  then have "parent_part (w_tty w) ?me main codes n W ?log (printed ?p a rest (w_tty w))"
    unfolding parent_part_def using b rest
    by (intro exI [of _ "before @ [a]"]) (simp add: printed_def unprinted_def shown_def)
  then have "at_work main codes pid shell n W ?log w'"
    unfolding at_work_def w' using inv by (auto simp: at_work_def)
  then show ?thesis ..
qed

lemma parent_fork:
  assumes inv: "at_work main codes pid shell n W log w" and code: "p_code (w_procs w ! 0) = Fork child m # rest"
    and step: "process_step 0 w = Some w'" and children: "\<forall>i < length codes. child_ok (child_id pid shell i) (codes ! i)"
    and before_empty: "\<And>before. main = before @ Fork child m # rest \<Longrightarrow> lines_of (parent_id pid shell) before = []"
  shows "at_work main codes pid shell (Suc n) W log w'"
proof -
  let ?p = "w_procs w ! 0" and ?me = "parent_id pid shell"
  obtain before where b: "main = before @ Fork child m # rest" "parent_ok ?me codes n W (Fork child m # rest)" "p_id ?p = ?me" "p_handlers ?p = []"
    "p_kids ?p = [1..<Suc n]" "p_fate ?p = Running" "\<forall>k. map_of (p_statuses ?p) k = (if k \<in> W then Some (Exited 0) else None)"
    "p_buffer ?p = unprinted (w_tty w) ?me before" "by_process 0 log = (if w_tty w then lines_of ?me before else [])"
    by (rule parentE [OF inv code]) blast
  have len: "length (w_procs w) = Suc n" "w_faults w = []" "w_pid w = pid" "W \<subseteq> {..<n}" "\<forall>x \<in> set log. fst x \<le> n"
    using inv by (simp_all add: at_work_def)
  have rest: "rest \<noteq> []" "parent_ok ?me codes (Suc n) W rest" "n < length codes" "child = codes ! n"
    using b(2) parent_codes [OF b(2)] by simp_all
  have buffer: "p_buffer ?p = []" using b(8) before_empty [OF b(1)] by (simp add: unprinted_def)
  let ?new = "\<lparr>p_id = child_id pid shell n, p_code = codes ! n, p_buffer = [], p_handlers = [], p_kids = [], p_statuses = [],
    p_fate = Running, p_reaped = False\<rparr>"
  let ?q = "?p\<lparr>p_code := rest, p_kids := [1..<Suc (Suc n)]\<rparr>"
  have w': "w' = w\<lparr>w_procs := (w_procs w)[0 := ?q] @ [?new]\<rparr>"
  proof -
    have kids: "p_kids ?p @ [length (w_procs w)] = [1..<Suc (Suc n)]" using b(5) len(1) by simp
    have used: "used w = w" using len(2) by (simp add: used_def)
    have "process_step 0 w = Some ((used w)\<lparr>w_procs := (w_procs w)[0 := ?p\<lparr>p_code := rest, p_kids := p_kids ?p @ [length (w_procs w)]\<rparr>]
        @ [\<lparr>p_id = (p_id ?p)\<lparr>id_pid := w_pid w (length (w_procs w)), id_ppid := id_pid (p_id ?p)\<rparr>, p_code = child, p_buffer = p_buffer ?p,
            p_handlers = p_handlers ?p, p_kids = [], p_statuses = [], p_fate = Running, p_reaped = False\<rparr>]\<rparr>)"
      using len(1,2) code by (simp add: process_step_def Let_def fails_now_def)
    then show ?thesis
      using step b(3,4) buffer rest(4) len(1,3) unfolding kids used by (simp add: parent_id_def child_id_def)
  qed
  have none: "by_process (Suc n) log = []" using len(5) by (auto simp: by_process_def filter_empty_conv)
  have c: "child_ok (child_id pid shell n) (codes ! n)" using children rest(3) by blast
  then have ne: "codes ! n \<noteq> []" by auto
  have new: "child_part (w_tty w) (child_id pid shell n) (codes ! n) (n \<in> W) (by_process (Suc n) log) ?new"
    unfolding child_part_def none using c ne len(4) by (intro exI [of _ "[]"]) (auto simp: unprinted_def shown_def)
  have open': "\<not> (Suc n = length codes \<and> W = {..<Suc n})" using len(4) by auto
  have "parent_part (w_tty w) ?me main codes (Suc n) W log ?q"
    unfolding parent_part_def using b rest open' before_empty [OF b(1)]
    by (intro exI [of _ "before @ [Fork child m]"]) (auto simp: unprinted_def shown_def)
  moreover have "child_part (w_tty w) (child_id pid shell i) (codes ! i) (i \<in> W) (by_process (Suc i) log) (((w_procs w)[0 := ?q] @ [?new]) ! Suc i)"
    if "i < Suc n" for i
    using that new at_work_other [OF inv, of i] len(1) by (cases "i = n") (auto simp: nth_append)
  ultimately show ?thesis
    unfolding at_work_def w' using inv rest(3) len(1) by (auto simp: at_work_def nth_append)
qed

lemma parent_wait:
  assumes inv: "at_work main codes pid shell n W log w" and code: "p_code (w_procs w ! 0) = Wait_for k m # rest"
    and step: "process_step 0 w = Some w'"
  shows "at_work main codes pid shell n (insert k W) log w'"
proof -
  let ?p = "w_procs w ! 0" and ?me = "parent_id pid shell"
  obtain before where b: "main = before @ Wait_for k m # rest" "parent_ok ?me codes n W (Wait_for k m # rest)" "p_id ?p = ?me" "p_handlers ?p = []"
    "p_kids ?p = [1..<Suc n]" "p_fate ?p = Running" "\<forall>k. map_of (p_statuses ?p) k = (if k \<in> W then Some (Exited 0) else None)"
    "p_buffer ?p = unprinted (w_tty w) ?me before" "by_process 0 log = (if w_tty w then lines_of ?me before else [])"
    by (rule parentE [OF inv code]) blast
  have len: "length (w_procs w) = Suc n" "w_faults w = []" using inv by (simp_all add: at_work_def)
  have rest: "rest \<noteq> []" "parent_ok ?me codes n (insert k W) rest" "k < n" "k \<notin> W"
    using b(2) parent_codes [OF b(2)] by simp_all
  let ?c = "w_procs w ! Suc k"
  have kid: "p_kids ?p ! k = Suc k" "k < length (p_kids ?p)" using rest(3) unfolding b(5) by (simp_all del: upt_Suc)
  note part = at_work_other [OF inv rest(3)]
  have fate: "p_fate ?c \<noteq> Running"
    using step len code kid rest(3) by (auto simp: process_step_def Let_def fails_now_def split: if_splits)
  then have ended: "p_code ?c = []" "p_fate ?c = Exited 0" "\<not> p_reaped ?c"
    using part rest(4) by (auto simp: child_part_def split: if_splits)
  let ?q = "?p\<lparr>p_code := rest, p_statuses := (k, Exited 0) # p_statuses ?p\<rparr>"
  have used: "used w = w" using len(2) by (simp add: used_def)
  have "process_step 0 w = Some (put_process 0 ?q (reap (Suc k) w))"
    using len code kid ended rest(3) used by (simp add: process_step_def Let_def fails_now_def)
  then have w': "w' = w\<lparr>w_procs := (w_procs w)[Suc k := ?c\<lparr>p_reaped := True\<rparr>, 0 := ?q]\<rparr>"
    using step by (simp add: put_process_def reap_def)
  have "parent_part (w_tty w) ?me main codes n (insert k W) log ?q"
    unfolding parent_part_def using b rest
    by (intro exI [of _ "before @ [Wait_for k m]"]) (simp add: unprinted_def shown_def after_waits_snoc)
  moreover have "child_part (w_tty w) (child_id pid shell k) (codes ! k) True (by_process (Suc k) log) (?c\<lparr>p_reaped := True\<rparr>)"
    using part ended(1) by (auto simp: child_part_def)
  ultimately show ?thesis
    unfolding at_work_def w' using inv rest(3) len(1) by (auto simp: at_work_def nth_list_update)
qed

lemma parent_return:
  assumes inv: "at_work main codes pid shell n W log w" and code: "p_code (w_procs w ! 0) = Return v # rest"
    and step: "process_step 0 w = Some w'"
  shows "all_ended main codes pid shell w'"
proof -
  let ?p = "w_procs w ! 0" and ?me = "parent_id pid shell"
  obtain before where b: "main = before @ Return v # rest" "parent_ok ?me codes n W (Return v # rest)" "p_id ?p = ?me" "p_handlers ?p = []"
    "p_buffer ?p = unprinted (w_tty w) ?me before" "by_process 0 log = (if w_tty w then lines_of ?me before else [])"
    "n = length codes \<and> W = {..<n} \<longrightarrow> (\<exists>L. log = L @ map (Pair 0) (if w_tty w then lines_of ?me (after_waits before) else []))"
    by (rule parentE [OF inv code]) blast
  then have v: "v = 0" "rest = []" "n = length codes" "W = {..<n}" by simp_all
  then obtain L where L: "log = L @ map (Pair 0) (if w_tty w then lines_of ?me (after_waits before) else [])" using b(7) by blast
  have len: "length (w_procs w) = Suc n" "w_err w = []" "w_out w = concat (map snd log)" using inv by (simp_all add: at_work_def)
  have main: "main = before @ [Return 0]" using b(1) v by simp
  let ?q = "?p\<lparr>p_code := [], p_buffer := [], p_fate := Exited 0\<rparr>"
  have w': "w' = w\<lparr>w_out := w_out w @ unprinted (w_tty w) ?me before, w_procs := map (adopt (id_pid ?me)) ((w_procs w)[0 := ?q])\<rparr>"
    using return_step [of 0 w] step len(1) code v b(3,4,5) by simp
  have children: "p_code (w_procs w ! Suc i) = [] \<and> p_fate (w_procs w ! Suc i) = Exited 0 \<and> p_reaped (w_procs w ! Suc i)
      \<and> by_process (Suc i) log = shown (w_tty w) (child_id pid shell i) (codes ! i) []" if "i < n" for i
    using at_work_other [OF inv that] v(4) that by (auto simp: child_part_def)
  define log' where "log' = log @ map (Pair 0) (if w_tty w then [] else [concat (lines_of ?me main)])"
  have tail: "after_waits main = after_waits before @ [Return 0]" using main by (simp add: after_waits_snoc)
  have tty: "w_tty w' = w_tty w" by (rule step_tty [OF step])
  have last: "\<exists>L. log' = L @ map (Pair 0) (if w_tty w' then lines_of ?me (after_waits main) else [concat (lines_of ?me main)])"
  proof (cases "w_tty w")
    case True
    with L tail tty show ?thesis by (intro exI [of _ L]) (simp add: log'_def)
  qed (intro exI [of _ log], simp add: tty log'_def)
  have own: "by_process 0 log' = shown (w_tty w') ?me main []"
    using b(6) main tty by (simp add: shown_def log'_def)
  have others: "\<forall>i < length codes. by_process (Suc i) log' = shown (w_tty w') (child_id pid shell i) (codes ! i) []"
    using children v(3) tty by (simp add: log'_def)
  have out: "w_out w' = concat (map snd log')"
    unfolding w' log'_def using len(3) main by (simp add: unprinted_def)
  have procs: "\<forall>p \<in> set (w_procs w'). p_code p = [] \<and> p_fate p = Exited 0"
  proof
    fix p
    assume "p \<in> set (w_procs w')"
    then obtain j where j: "j < Suc n" "p = adopt (id_pid ?me) (((w_procs w)[0 := ?q]) ! j)"
      unfolding w' using len(1) by (auto simp: in_set_conv_nth)
    then show "p_code p = [] \<and> p_fate p = Exited 0" using children len(1) by (cases j) auto
  qed
  have rest: "w_err w' = []" "length (w_procs w') = Suc (length codes)" "\<forall>i < length codes. p_reaped (w_procs w' ! Suc i)"
    using len children v(3) by (simp_all add: w')
  show ?thesis unfolding all_ended_def using out own others last procs rest by blast
qed

text \<open>The forks come before anything is printed, so that no child has text of the parent in its buffer.\<close>

definition forks_first :: "identity \<Rightarrow> act list \<Rightarrow> bool" where
  "forks_first me main \<longleftrightarrow> (\<forall>a \<in> set (dropWhile (\<lambda>a. says me a = []) main). \<forall>child m. a \<noteq> Fork child m)"

lemma forks_firstD: "forks_first me main \<Longrightarrow> main = before @ Fork child m # rest \<Longrightarrow> lines_of me before = []"
proof (rule ccontr)
  assume first: "forks_first me main" "main = before @ Fork child m # rest" and "lines_of me before \<noteq> []"
  then obtain a where "a \<in> set before" "says me a \<noteq> []" by (auto simp: lines_of_def)
  then have "dropWhile (\<lambda>a. says me a = []) main = dropWhile (\<lambda>a. says me a = []) before @ Fork child m # rest"
    using first(2) by (simp add: dropWhile_append1)
  with first(1) show False by (auto simp: forks_first_def)
qed

definition waits_for_all :: "act list \<Rightarrow> act list list \<Rightarrow> (nat \<Rightarrow> nat) \<Rightarrow> nat \<Rightarrow> bool" where
  "waits_for_all main codes pid shell \<longleftrightarrow>
     parent_ok (parent_id pid shell) codes 0 {} main \<and> forks_first (parent_id pid shell) main
   \<and> (\<forall>i < length codes. child_ok (child_id pid shell i) (codes ! i))"

lemma parent_step:
  assumes inv: "at_work main codes pid shell n W log w" and step: "process_step 0 w = Some w'" and ok: "waits_for_all main codes pid shell"
  shows "(\<exists>n W log. at_work main codes pid shell n W log w') \<or> all_ended main codes pid shell w'"
proof -
  have len: "0 < length (w_procs w)" using inv by (simp add: at_work_def)
  obtain a rest where code: "p_code (w_procs w ! 0) = a # rest"
    using step len by (auto simp: process_step_def split: list.splits)
  from inv code have b: "parent_ok (parent_id pid shell) codes n W (a # rest)" "p_id (w_procs w ! 0) = parent_id pid shell"
    "\<And>k. map_of (p_statuses (w_procs w ! 0)) k = (if k \<in> W then Some (Exited 0) else None)"
    by (auto elim!: parentE)
  show ?thesis
  proof (cases a)
    case (Fork child m)
    have "at_work main codes pid shell (Suc n) W log w'"
      by (rule parent_fork [OF inv code [unfolded Fork] step])
        (use ok forks_firstD in \<open>auto simp: waits_for_all_def\<close>)
    then show ?thesis by blast
  next
    case (Wait_for k m)
    from parent_wait [OF inv code [unfolded Wait_for] step] show ?thesis by blast
  next
    case (Return v)
    from parent_return [OF inv code [unfolded Return] step] show ?thesis by blast
  next
    case (Printf f)
    then have "plain (w_procs w ! 0) a" using b by simp
    from parent_plain [OF inv code step this] show ?thesis by blast
  next
    case (Say_status k t)
    then have "plain (w_procs w ! 0) a" using b by simp
    from parent_plain [OF inv code step this] show ?thesis by blast
  next
    case Quiet
    then have "plain (w_procs w ! 0) a" by simp
    from parent_plain [OF inv code step this] show ?thesis by blast
  qed (use b(1) in simp_all)
qed

lemma ended_no_step: "all_ended main codes pid shell w \<Longrightarrow> process_step i w = None"
  by (cases "i < length (w_procs w)") (auto simp: all_ended_def process_step_def)

lemma at_work_running: "at_work main codes pid shell n W log w \<Longrightarrow> \<exists>p \<in> set (w_procs w). p_fate p = Running"
proof -
  assume inv: "at_work main codes pid shell n W log w"
  then have "p_fate (w_procs w ! 0) = Running" "0 < length (w_procs w)" by (auto simp: at_work_def parent_part_def)
  then show ?thesis using nth_mem by blast
qed

lemma waits_for_all_runs:
  assumes ok: "waits_for_all main codes pid shell" and pids: "inj pid" "shell \<notin> range pid"
    and run: "runs_to (begin_with main pid shell tty []) w"
  shows "((\<exists>n W log. at_work main codes pid shell n W log w) \<or> all_ended main codes pid shell w) \<and> w_tty w = tty"
  using run
proof induction
  case start
  have "at_work main codes pid shell 0 {} [] (begin_with main pid shell tty [])"
    by (rule at_work_start [OF _ pids(1)]) (use ok in \<open>simp add: waits_for_all_def\<close>)
  then show ?case by (auto simp: begin_with_def)
next
  case (step w i w')
  have tty: "w_tty w' = tty" using step_tty [OF step.hyps(2)] step.IH by simp
  from step.IH show ?case
  proof (elim conjE disjE exE)
    fix n W log
    assume inv: "at_work main codes pid shell n W log w"
    have "i < Suc n" using step.hyps(2) inv by (auto simp: at_work_def process_step_def split: if_splits)
    show ?thesis
    proof (cases i)
      case 0
      with parent_step [OF inv _ ok] step.hyps(2) tty show ?thesis by simp
    next
      case (Suc j)
      with child_step [OF inv _ _ pids, of j w'] step.hyps(2) \<open>i < Suc n\<close> tty show ?thesis by auto
    qed
  qed (use step.hyps(2) ended_no_step in fastforce)
qed

lemma waits_end:
  assumes "waits_for_all main codes pid shell" "inj pid" "shell \<notin> range pid" "runs_to (begin_with main pid shell tty []) w"
    and none: "\<forall>j. process_step j w = None" and some: "(\<exists>p \<in> set (w_procs w). p_fate p = Running) \<Longrightarrow> \<exists>j. process_step j w \<noteq> None"
  shows "all_ended main codes pid shell w" "w_tty w = tty"
proof -
  have "\<not> (\<exists>p \<in> set (w_procs w). p_fate p = Running)" using some none by auto
  then have "\<not> at_work main codes pid shell n W log w" for n W log using at_work_running by blast
  with waits_for_all_runs [OF assms(1-4)] show "all_ended main codes pid shell w" "w_tty w = tty" by blast+
qed

section \<open>wait and waitpid\<close>

definition info_line :: "string \<Rightarrow> nat \<Rightarrow> nat \<Rightarrow> string" where
  "info_line name pid ppid = ''Name: '' @ name @ '', Process: PID='' @ dec_nat pid @ '', Parent PID='' @ dec_nat ppid @ [NL]"

definition slept_line :: "string \<Rightarrow> nat \<Rightarrow> string" where
  "slept_line name n = name @ '' process finished after sleeping '' @ dec_nat n @ '' seconds.'' @ [NL]"

text \<open>Each program with what its parent prints before and after it has waited, and what its children print.\<close>

definition waiting_programs ::
  "nat \<Rightarrow> nat \<Rightarrow> (nat \<Rightarrow> nat) \<Rightarrow> nat \<Rightarrow> (act list \<times> string list \<times> string list \<times> string list list) set" where
  "waiting_programs random1 random2 pid shell =
     {(wait_main random1 random2, [info_line ''Parent'' (pid 0) shell],
        [''Child 1 exited with status: 0'' @ [NL], ''Child 2 exited with status: 0'' @ [NL]],
        [[info_line ''Child 1'' (pid 1) (pid 0), slept_line ''Child 1'' random1],
         [info_line ''Child 2'' (pid 2) (pid 0), slept_line ''Child 2'' random2]]),
      (waitpid_main, [info_line ''Parent'' (pid 0) shell, ''Parent is waiting for the child'' @ [NL]],
        [''Parent process finished.'' @ [NL]],
        [[info_line ''Child'' (pid 1) (pid 0), ''Child process finished.'' @ [NL]]])}"

text \<open>The processes are the parent and its children; all have exited with 0 and the parent has waited for each child. The output is
  made up of the lines of the processes, or of their whole texts if it is a file, those of each process in order, and the last
  text of the parent stands behind everything else.\<close>

definition ended_with :: "bool \<Rightarrow> string list \<Rightarrow> string list \<Rightarrow> string list list \<Rightarrow> world \<Rightarrow> bool" where
  "ended_with tty before after children w \<longleftrightarrow>
     w_err w = [] \<and> length (w_procs w) = Suc (length children) \<and> (\<forall>p \<in> set (w_procs w). p_fate p = Exited 0)
   \<and> (\<forall>i < length children. p_reaped (w_procs w ! Suc i))
   \<and> (\<exists>log. w_out w = concat (map snd log) @ concat (if tty then after else [concat (before @ after)])
       \<and> by_process 0 log = (if tty then before else [])
       \<and> (\<forall>i < length children. by_process (Suc i) log = (if tty then children ! i else [concat (children ! i)])))"

lemma all_ended_with:
  assumes "all_ended main codes pid shell w" "w_tty w = tty" "length children = length codes"
    and "lines_of (parent_id pid shell) main = before @ after" "lines_of (parent_id pid shell) (after_waits main) = after"
    and "\<forall>i < length codes. lines_of (child_id pid shell i) (codes ! i) = children ! i"
  shows "ended_with tty before after children w"
proof -
  from assms(1) obtain log L where log: "w_out w = concat (map snd log)"
      "by_process 0 log = shown tty (parent_id pid shell) main []"
      "\<forall>i < length codes. by_process (Suc i) log = shown tty (child_id pid shell i) (codes ! i) []"
      "log = L @ map (Pair 0) (if tty then after else [concat (before @ after)])"
    unfolding all_ended_def assms(2,4,5) by blast
  have "by_process 0 L = (if tty then before else [])" using log(2) assms(4) unfolding log(4) by (auto simp: shown_def)
  moreover have "\<forall>i < length children. by_process (Suc i) L = (if tty then children ! i else [concat (children ! i)])"
    using log(3) assms(3,6) unfolding log(4) by (auto simp: shown_def)
  moreover have "w_out w = concat (map snd L) @ concat (if tty then after else [concat (before @ after)])"
    using log(1) unfolding log(4) by auto
  ultimately show ?thesis using assms(1,3) unfolding ended_with_def all_ended_def by auto
qed

lemma dec_int_zero: "dec_int 0 = ''0''"
  by code_simp

lemma wait_waits:
  assumes "inj pid" "shell \<notin> range pid" "runs_to (begin_with (wait_main r1 r2) pid shell tty []) w" "\<forall>j. process_step j w = None"
    and some: "(\<exists>p \<in> set (w_procs w). p_fate p = Running) \<Longrightarrow> \<exists>j. process_step j w \<noteq> None"
  shows "ended_with tty [info_line ''Parent'' (pid 0) shell]
        [''Child 1 exited with status: 0'' @ [NL], ''Child 2 exited with status: 0'' @ [NL]]
        [[info_line ''Child 1'' (pid 1) (pid 0), slept_line ''Child 1'' r1], [info_line ''Child 2'' (pid 2) (pid 0), slept_line ''Child 2'' r2]] w"
proof -
  let ?codes = "[child_process ''Child 1'' r1 @ [Return EXIT_SUCCESS], child_process ''Child 2'' r2 @ [Return EXIT_SUCCESS]]"
  have "waits_for_all (wait_main r1 r2) ?codes pid shell"
    by (auto simp: waits_for_all_def wait_main_def forks_first_def child_process_def print_process_info_def say_def less_Suc_eq numeral_2_eq_2)
  from waits_end [OF this assms(1-4) some] show ?thesis
    by (rule all_ended_with)
      (auto simp: wait_main_def child_process_def print_process_info_def say_def after_waits_def info_line_def slept_line_def
        parent_id_def child_id_def less_Suc_eq dec_int_zero numeral_2_eq_2)
qed

lemma waitpid_waits:
  assumes "inj pid" "shell \<notin> range pid" "runs_to (begin_with waitpid_main pid shell tty []) w" "\<forall>j. process_step j w = None"
    and some: "(\<exists>p \<in> set (w_procs w). p_fate p = Running) \<Longrightarrow> \<exists>j. process_step j w \<noteq> None"
  shows "ended_with tty [info_line ''Parent'' (pid 0) shell, ''Parent is waiting for the child'' @ [NL]]
        [''Parent process finished.'' @ [NL]] [[info_line ''Child'' (pid 1) (pid 0), ''Child process finished.'' @ [NL]]] w"
proof -
  let ?codes = "[[print_process_info ''Child'', say ''Child process finished.'', Return EXIT_SUCCESS]]"
  have "waits_for_all waitpid_main ?codes pid shell"
    by (auto simp: waits_for_all_def waitpid_main_def forks_first_def print_process_info_def say_def)
  from waits_end [OF this assms(1-4) some] show ?thesis
    by (rule all_ended_with)
      (auto simp: waitpid_main_def print_process_info_def say_def after_waits_def info_line_def parent_id_def child_id_def)
qed

text \<open>C33. wait and waitpid, when no call fails, under every schedule, with distinct process numbers, on a terminal or to a file: a run
  ends, for every step lowers a weight, and it ends only when there are exactly the parent and its children, all of which
  have exited with 0, the parent has waited for every child, no \<^verbatim>\<open>waitpid\<close> has failed, and the output consists of the
  lines of each process in order, what the parent prints after it has waited behind everything else, its reports of the status 0
  included.\<close>

theorem waiting_programs_end:
  assumes "(main, before, after, children) \<in> waiting_programs random1 random2 pid shell" "inj pid" "shell \<notin> range pid"
    and "runs_to (begin_with main pid shell tty []) w"
  shows "(process_step i w = Some w' \<longrightarrow> world_weight w' < world_weight w)
    \<and> ((\<exists>j. process_step j w \<noteq> None) \<or> ended_with tty before after children w)"
proof (intro conjI impI)
  show "world_weight w' < world_weight w" if "process_step i w = Some w'" using that by (rule step_weight)
  have "main \<in> process_programs random1 random2" using assms(1) by (auto simp: waiting_programs_def process_programs_def)
  then have "world_ok w" by (intro runs_to_ok [OF assms(4) begin_ok [OF programs_proper]])
  then have some: "(\<exists>p \<in> set (w_procs w). p_fate p = Running) \<Longrightarrow> \<exists>j. process_step j w \<noteq> None"
    by (rule some_process_steps)
  show "(\<exists>j. process_step j w \<noteq> None) \<or> ended_with tty before after children w"
  proof (cases "\<exists>j. process_step j w \<noteq> None")
    case False
    then have none: "\<forall>j. process_step j w = None" by simp
    from assms(1) consider "main = wait_main random1 random2" | "main = waitpid_main"
      by (auto simp: waiting_programs_def)
    then show ?thesis
    proof cases
      case 1
      have "main \<noteq> waitpid_main" unfolding 1 by (simp add: wait_main_def waitpid_main_def)
      with wait_waits [OF assms(2,3) assms(4) [unfolded 1] none some] assms(1) show ?thesis
        by (auto simp: waiting_programs_def)
    next
      case 2
      have "main \<noteq> wait_main random1 random2" unfolding 2 by (simp add: wait_main_def waitpid_main_def)
      with waitpid_waits [OF assms(2,3) assms(4) [unfolded 2] none some] assms(1) show ?thesis
        by (auto simp: waiting_programs_def)
    qed
  qed simp
qed

text \<open>A run of \<^verbatim>\<open>waitpid\<close> in which the child goes first, on a terminal.\<close>

fun in_turn :: "nat list \<Rightarrow> world \<Rightarrow> world option" where
  "in_turn [] w = Some w"
| "in_turn (i # is) w = (case process_step i w of None \<Rightarrow> None | Some w' \<Rightarrow> in_turn is w')"

lemma in_turn_runs: "in_turn is w = Some w' \<Longrightarrow> runs_to w0 w \<Longrightarrow> runs_to w0 w'"
  by (induction "is" arbitrary: w) (auto split: option.splits intro: runs_to.step)

lemma waiting_programs_end_witness:
  "\<exists>w. in_turn [0, 1, 1, 1, 0, 0, 0, 0, 0] (begin_with waitpid_main Suc 0 True []) = Some w
    \<and> ended_with True [info_line ''Parent'' 1 0, ''Parent is waiting for the child'' @ [NL]] [''Parent process finished.'' @ [NL]]
        [[info_line ''Child'' 2 1, ''Child process finished.'' @ [NL]]] w"
proof -
  let ?run = "in_turn [0, 1, 1, 1, 0, 0, 0, 0, 0] (begin_with waitpid_main Suc 0 True [])"
  have "case ?run of None \<Rightarrow> False | Some w \<Rightarrow> map p_code (w_procs w) = [[], []]"
    by (simp add: waitpid_main_def begin_with_def process_step_def Let_def emit_def put_process_def say_def print_process_info_def
        fails_now_def used_def leave_def finish_def reap_def adopt_def)
  then obtain w where w: "?run = Some w" "map p_code (w_procs w) = [[], []]" by (auto split: option.splits)
  then have run: "runs_to (begin_with waitpid_main Suc 0 True []) w" by (blast intro: in_turn_runs runs_to.start)
  have "process_step j w = None" for j
  proof (cases "j < length (w_procs w)")
    case True
    then have "p_code (w_procs w ! j) \<in> set (map p_code (w_procs w))" by simp
    then have "p_code (w_procs w ! j) = []" unfolding w(2) by simp
    then show ?thesis by (simp add: process_step_def)
  qed (simp add: process_step_def)
  moreover have "(waitpid_main, [info_line ''Parent'' 1 0, ''Parent is waiting for the child'' @ [NL]], [''Parent process finished.'' @ [NL]],
      [[info_line ''Child'' 2 1, ''Child process finished.'' @ [NL]]]) \<in> waiting_programs 0 0 Suc 0"
    by (simp add: waiting_programs_def numeral_2_eq_2)
  ultimately show ?thesis
    using waiting_programs_end [OF _ _ _ run] w(1) by auto
qed

end
