(* ===== verification/Thread_Programs.thy ===== *)
theory Thread_Programs
  imports C_Prelude
begin

text \<open>
  The four programs under \<^verbatim>\<open>src/pthread\<close>. A thread is the list of calls it still has to make; a step is one call of the
  main thread or of another one. A creation may fail, and only \<^verbatim>\<open>pthread_create-pthread_join\<close> looks at its result: the others
  then use a \<^verbatim>\<open>pthread_t\<close> that has not been set, which is undefined.
\<close>

section \<open>Threads\<close>

text \<open>\<open>Create i m\<close> starts thread \<open>i\<close>; if it fails the program goes on, or leaves with the message. \<open>Compare i w t u\<close> compares its identifier with
  that of thread \<open>w\<close>, or of the main thread, and prints \<open>t\<close> if they are the same, or \<open>u\<close>: the identifiers of threads
  that have not been joined differ.
  \<open>Give v m\<close> allocates an \<^verbatim>\<open>int\<close>, or leaves with the message, and is the result of the thread. \<open>Say_result i t\<close> prints the
  result of a thread behind a text and frees it.\<close>

datatype tact =
    Say string
  | Create nat "err_item option"
  | Compare nat "nat option" string string
  | Join nat
  | Give int err_item
  | Say_result nat string
  | Nap
  | Return_zero

datatype tend = Th_going | Th_left int | Th_undefined

record threads =
  th_main :: "tact list"
  th_codes :: "tact list list"
  th_live :: "tact list option list"
  th_results :: "int option list"
  th_faults :: "bool list"
  th_end :: tend
  th_out :: "(nat option \<times> string) list"
  th_err :: "err_item list"

definition th_fails :: "threads \<Rightarrow> bool" where
  "th_fails s = (case th_faults s of [] \<Rightarrow> False | b # _ \<Rightarrow> b)"

definition th_used :: "threads \<Rightarrow> threads" where
  "th_used s = s\<lparr>th_faults := tl (th_faults s)\<rparr>"

definition th_say :: "nat option \<Rightarrow> string \<Rightarrow> threads \<Rightarrow> threads" where
  "th_say who t s = s\<lparr>th_out := th_out s @ [(who, t)]\<rparr>"

definition th_leave :: "err_item \<Rightarrow> threads \<Rightarrow> threads" where
  "th_leave m s = s\<lparr>th_end := Th_left EXIT_FAILURE, th_err := th_err s @ [m]\<rparr>"

fun main_call :: "tact \<Rightarrow> threads \<Rightarrow> threads option" where
  "main_call (Say t) s = Some (th_say None t s)"
| "main_call (Create i m) s =
     (if th_fails s then Some (case m of Some e \<Rightarrow> th_leave e (th_used s) | None \<Rightarrow> th_used s)
      else Some ((th_used s)\<lparr>th_live := (th_live s)[i := Some (th_codes s ! i)]\<rparr>))"
| "main_call (Compare i w t u) s =
     Some (if th_live s ! i = None \<or> (\<exists>j \<in> set_option w. th_live s ! j = None) then s\<lparr>th_end := Th_undefined\<rparr>
           else th_say None (if w = Some i then t else u) s)"
| "main_call (Join i) s =
     (case th_live s ! i of None \<Rightarrow> Some (s\<lparr>th_end := Th_undefined\<rparr>) | Some [] \<Rightarrow> Some s | Some (a # rest) \<Rightarrow> None)"
| "main_call (Give v m) s = Some s"
| "main_call (Say_result i t) s =
     Some (case th_results s ! i of None \<Rightarrow> s\<lparr>th_end := Th_undefined\<rparr> | Some v \<Rightarrow> th_say None (t @ dec_int v @ [NL]) s)"
| "main_call Nap s = Some s"
| "main_call Return_zero s = Some (s\<lparr>th_end := Th_left EXIT_SUCCESS\<rparr>)"

fun thread_call :: "nat \<Rightarrow> tact \<Rightarrow> threads \<Rightarrow> threads" where
  "thread_call i (Say t) s = th_say (Some i) t s"
| "thread_call i (Give v m) s =
     (if th_fails s then th_leave m (th_used s) else (th_used s)\<lparr>th_results := (th_results s)[i := Some v]\<rparr>)"
| "thread_call i a s = s"

definition thread_step :: "nat option \<Rightarrow> threads \<Rightarrow> threads option" where
  "thread_step who s =
     (if th_end s \<noteq> Th_going then None
      else case who of
        None \<Rightarrow> (case th_main s of [] \<Rightarrow> None | a # rest \<Rightarrow> main_call a (s\<lparr>th_main := rest\<rparr>))
      | Some i \<Rightarrow>
          if length (th_live s) \<le> i then None
          else case th_live s ! i of
            Some (a # rest) \<Rightarrow> Some (thread_call i a (s\<lparr>th_live := (th_live s)[i := Some rest]\<rparr>))
          | _ \<Rightarrow> None)"

inductive thread_run :: "threads \<Rightarrow> threads \<Rightarrow> bool" for s0 where
  start: "thread_run s0 s0"
| step: "thread_run s0 s \<Longrightarrow> thread_step who s = Some s' \<Longrightarrow> thread_run s0 s'"

definition threads_start :: "tact list \<Rightarrow> tact list list \<Rightarrow> bool list \<Rightarrow> threads" where
  "threads_start main codes faults =
     \<lparr>th_main = main, th_codes = codes, th_live = replicate (length codes) None, th_results = replicate (length codes) None,
      th_faults = faults, th_end = Th_going, th_out = [], th_err = []\<rparr>"

section \<open>The programs\<close>

definition NUMBERS_LEN :: nat where
  "NUMBERS_LEN = 5"

definition print_numbers :: "tact list" where
  "print_numbers = concat (map (\<lambda>i. [Say (''Thread: '' @ dec_nat i @ [NL]), Nap]) [1..<NUMBERS_LEN + 1])"

definition create_join_main :: "tact list" where
  "create_join_main =
     [Create 0 (Some (Perror ''Thread creation failed'')),
      Say (''Main is working'' @ [NL]), Nap, Say (''Main is still working'' @ [NL]), Nap,
      Say (''Main is done working, waiting for the thread to finish'' @ [NL]),
      Join 0, Say (''Thread execution completed.'' @ [NL]), Return_zero]"

definition exit_thread_function :: "nat \<Rightarrow> tact list" where
  "exit_thread_function thread_id =
     [Say (''Thread '' @ dec_nat thread_id @ '' is executing.'' @ [NL]), Say (''Thread '' @ dec_nat thread_id @ '' is done.'' @ [NL]),
      Give (int thread_id * 2) (Perror ''malloc'')]"

definition pthread_exit_main :: "tact list" where
  "pthread_exit_main =
     map (\<lambda>i. Create i None) [0, 1, 2]
     @ concat (map (\<lambda>i. [Join i, Say_result i (''Thread '' @ dec_nat (i + 1) @ '' returned: '')]) [0, 1, 2])
     @ [Say (''Main thread is done.'' @ [NL]), Return_zero]"

definition self_thread_function :: "nat \<Rightarrow> tact list" where
  "self_thread_function thread_id = [Say (''Thread ID: '' @ dec_nat thread_id @ [NL])]"

definition pthread_self_main :: "tact list" where
  "pthread_self_main = map (\<lambda>i. Create i None) [0, 1, 2] @ map Join [0, 1, 2] @ [Say (''Main thread is done.'' @ [NL]), Return_zero]"

definition pthread_equal_main :: "tact list" where
  "pthread_equal_main =
     [Create 0 None, Create 1 None,
      Compare 0 (Some 0) (''Thread 1 and Thread 1 have the same thread ID.'' @ [NL]) (''Thread 1 and Thread 1 have different thread IDs.'' @ [NL]),
      Compare 0 (Some 1) (''Thread 1 and Thread 2 have the same thread ID.'' @ [NL]) (''Thread 1 and Thread 2 have different thread IDs.'' @ [NL]),
      Compare 0 None (''Thread 1 and the main thread have the same thread ID.'' @ [NL])
        (''Thread 1 and the main thread have different thread IDs.'' @ [NL]),
      Join 0, Join 1, Say (''Main thread is done.'' @ [NL]), Return_zero]"

text \<open>Each program with the code of its threads; \<open>ids\<close> are the identifiers that \<^verbatim>\<open>pthread_self\<close> returns.\<close>

definition thread_programs :: "(nat \<Rightarrow> nat) \<Rightarrow> (tact list \<times> tact list list) set" where
  "thread_programs ids =
     {(create_join_main, [print_numbers]),
      (pthread_exit_main, map exit_thread_function [1, 2, 3]),
      (pthread_self_main, map (\<lambda>i. self_thread_function (ids i)) [0, 1, 2]),
      (pthread_equal_main, [[], []])}"

section \<open>The order of the calls\<close>

fun texts :: "tact list \<Rightarrow> string list" where
  "texts [] = []"
| "texts (Say t # rest) = t # texts rest"
| "texts (a # rest) = texts rest"

fun gives :: "tact list \<Rightarrow> int list" where
  "gives [] = []"
| "gives (Give v m # rest) = v # gives rest"
| "gives (a # rest) = gives rest"

text \<open>What the main thread prints when every thread gives its result.\<close>

fun main_texts :: "tact list list \<Rightarrow> tact list \<Rightarrow> string list" where
  "main_texts codes [] = []"
| "main_texts codes (Say t # rest) = t # main_texts codes rest"
| "main_texts codes (Compare i w t u # rest) = (if w = Some i then t else u) # main_texts codes rest"
| "main_texts codes (Say_result i t # rest) = (t @ dec_int (last (gives (codes ! i))) @ [NL]) # main_texts codes rest"
| "main_texts codes (a # rest) = main_texts codes rest"

lemma texts_append [simp]: "texts (a @ b) = texts a @ texts b"
  by (induction a rule: texts.induct) auto

lemma gives_append [simp]: "gives (a @ b) = gives a @ gives b"
  by (induction a rule: gives.induct) auto

lemma main_texts_append [simp]: "main_texts codes (a @ b) = main_texts codes a @ main_texts codes b"
  by (induction codes a rule: main_texts.induct) auto

text \<open>A thread is created once and before it is used, joined before its result is used, and before the program returns.\<close>

fun main_ok :: "tact list list \<Rightarrow> nat set \<Rightarrow> nat set \<Rightarrow> tact list \<Rightarrow> bool" where
  "main_ok codes C J [] = False"
| "main_ok codes C J (a # rest) =
     (case a of
        Say t \<Rightarrow> main_ok codes C J rest
      | Create i m \<Rightarrow> i < length codes \<and> i \<notin> C \<and> main_ok codes (insert i C) J rest
      | Compare i w t u \<Rightarrow> i \<in> C \<and> set_option w \<subseteq> C \<and> main_ok codes C J rest
      | Join i \<Rightarrow> i \<in> C \<and> main_ok codes C (insert i J) rest
      | Give v m \<Rightarrow> False
      | Say_result i t \<Rightarrow> i < length codes \<and> i \<in> J \<and> gives (codes ! i) \<noteq> [] \<and> main_ok codes C J rest
      | Nap \<Rightarrow> main_ok codes C J rest
      | Return_zero \<Rightarrow> rest = [] \<and> {..<length codes} \<subseteq> J)"

lemma programs_main_ok: "(main, codes) \<in> thread_programs ids \<Longrightarrow> main_ok codes {} {} main"
  by (auto simp: thread_programs_def create_join_main_def pthread_exit_main_def pthread_self_main_def pthread_equal_main_def
      exit_thread_function_def lessThan_Suc numeral_eq_Suc)

section \<open>Invariant\<close>

definition said_by :: "nat option \<Rightarrow> threads \<Rightarrow> string list" where
  "said_by who s = map snd (filter (\<lambda>x. fst x = who) (th_out s))"

definition thread_inv :: "tact list \<Rightarrow> tact list option \<Rightarrow> int option \<Rightarrow> string list \<Rightarrow> bool" where
  "thread_inv code l r out \<longleftrightarrow>
     (case l of
        None \<Rightarrow> out = [] \<and> r = None
      | Some rest \<Rightarrow> \<exists>before. code = before @ rest \<and> out = texts before
          \<and> r = (if gives before = [] then None else Some (last (gives before))))"

definition started :: "threads \<Rightarrow> nat set" where
  "started s = {i. i < length (th_live s) \<and> th_live s ! i \<noteq> None}"

definition checked :: "tact list \<Rightarrow> bool" where
  "checked main \<longleftrightarrow> (\<forall>i. Create i None \<notin> set main)"

definition main_inv :: "bool \<Rightarrow> tact list \<Rightarrow> tact list list \<Rightarrow> threads \<Rightarrow> bool" where
  "main_inv nf main codes s \<longleftrightarrow>
     (\<exists>before C J. main = before @ th_main s \<and> said_by None s = main_texts codes before \<and> main_ok codes C J (th_main s)
       \<and> C \<subseteq> {..<length codes} \<and> started s \<subseteq> C \<and> (nf \<longrightarrow> True \<notin> set (th_faults s)) \<and> (nf \<or> checked main \<longrightarrow> C \<subseteq> started s) \<and> (\<forall>i \<in> J. th_live s ! i = Some []))"

lemma tl_no_fault: "True \<notin> set fs \<Longrightarrow> True \<notin> set (tl fs)"
  by (cases fs) auto

lemma main_invI:
  assumes "main = before @ th_main s" "said_by None s = main_texts codes before" "main_ok codes C J (th_main s)"
    "C \<subseteq> {..<length codes}" "started s \<subseteq> C" "(nf \<longrightarrow> True \<notin> set (th_faults s)) \<and> (nf \<or> checked main \<longrightarrow> C \<subseteq> started s)" "\<forall>i \<in> J. th_live s ! i = Some []"
  shows "main_inv nf main codes s"
  unfolding main_inv_def using assms by blast

definition threads_inv :: "tact list list \<Rightarrow> threads \<Rightarrow> bool" where
  "threads_inv codes s \<longleftrightarrow> (\<forall>i < length codes. thread_inv (codes ! i) (th_live s ! i) (th_results s ! i) (said_by (Some i) s))"

definition all_said :: "tact list \<Rightarrow> tact list list \<Rightarrow> threads \<Rightarrow> bool" where
  "all_said main codes s \<longleftrightarrow>
     th_err s = [] \<and> said_by None s = main_texts codes main \<and> (\<forall>i < length codes. said_by (Some i) s = texts (codes ! i))"

definition threads_ok :: "bool \<Rightarrow> tact list \<Rightarrow> tact list list \<Rightarrow> threads \<Rightarrow> bool" where
  "threads_ok nf main codes s \<longleftrightarrow>
     th_codes s = codes \<and> length (th_live s) = length codes \<and> length (th_results s) = length codes
     \<and> (th_end s = Th_going \<longrightarrow> th_err s = [] \<and> threads_inv codes s \<and> main_inv nf main codes s)
     \<and> (th_end s = Th_left EXIT_SUCCESS \<longrightarrow> all_said main codes s)
     \<and> (th_end s = Th_undefined \<longrightarrow> \<not> nf \<and> \<not> checked main)
     \<and> (\<forall>n. th_end s = Th_left n \<longrightarrow> n = EXIT_SUCCESS \<or> n = EXIT_FAILURE \<and> th_err s \<noteq> [])"

lemma said_by_say [simp]: "said_by who (th_say w t s) = (if who = w then said_by who s @ [t] else said_by who s)"
  by (simp add: said_by_def th_say_def)

lemma said_by_updates [simp]:
  "said_by who (s\<lparr>th_main := m\<rparr>) = said_by who s" "said_by who (s\<lparr>th_live := l\<rparr>) = said_by who s" "said_by who (s\<lparr>th_results := r\<rparr>) = said_by who s"
  "said_by who (s\<lparr>th_end := e\<rparr>) = said_by who s" "said_by who (th_used s) = said_by who s" "said_by who (th_leave m' s) = said_by who s"
  by (simp_all add: said_by_def th_used_def th_leave_def)

lemma started_updates [simp]:
  "started (s\<lparr>th_main := m\<rparr>) = started s" "started (s\<lparr>th_results := r\<rparr>) = started s" "started (s\<lparr>th_end := e\<rparr>) = started s"
  by (simp_all add: started_def)

lemma th_say_simps [simp]:
  "th_main (th_say w t s) = th_main s" "th_codes (th_say w t s) = th_codes s" "th_live (th_say w t s) = th_live s"
  "th_results (th_say w t s) = th_results s" "th_faults (th_say w t s) = th_faults s" "th_end (th_say w t s) = th_end s"
  "th_err (th_say w t s) = th_err s" "started (th_say w t s) = started s"
  by (simp_all add: th_say_def started_def)

lemma th_used_simps [simp]:
  "th_main (th_used s) = th_main s" "th_codes (th_used s) = th_codes s" "th_live (th_used s) = th_live s"
  "th_results (th_used s) = th_results s" "th_faults (th_used s) = tl (th_faults s)" "th_end (th_used s) = th_end s"
  "th_err (th_used s) = th_err s" "started (th_used s) = started s" "th_out (th_used s) = th_out s"
  by (simp_all add: th_used_def started_def)

lemma th_leave_simps [simp]:
  "th_codes (th_leave m s) = th_codes s" "th_live (th_leave m s) = th_live s" "th_results (th_leave m s) = th_results s"
  "th_err (th_leave m s) = th_err s @ [m]" "th_end (th_leave m s) = Th_left EXIT_FAILURE" "th_main (th_leave m s) = th_main s"
  by (simp_all add: th_leave_def)

lemma start_ok: "main_ok codes {} {} main \<Longrightarrow> threads_ok (True \<notin> set faults) main codes (threads_start main codes faults)"
  unfolding threads_ok_def main_inv_def
  by (auto simp: threads_start_def threads_inv_def thread_inv_def said_by_def started_def intro!: exI [of _ "[]"] exI [of _ "{}"])

lemma thread_inv_step:
  assumes "thread_inv code (Some (a # rest)) r out"
  shows "thread_inv code (Some rest) (case a of Give v m \<Rightarrow> Some v | _ \<Rightarrow> r) (case a of Say t \<Rightarrow> out @ [t] | _ \<Rightarrow> out)"
proof -
  obtain before where b: "code = before @ a # rest" "out = texts before" "r = (if gives before = [] then None else Some (last (gives before)))"
    using assms by (auto simp: thread_inv_def)
  then show ?thesis
    by (cases a) (auto simp: thread_inv_def intro!: exI [of _ "before @ [a]"])
qed

lemma thread_call_ok:
  assumes "threads_ok nf main codes s" "th_end s = Th_going" "i < length codes" "th_live s ! i = Some (a # rest)"
  shows "threads_ok nf main codes (thread_call i a (s\<lparr>th_live := (th_live s)[i := Some rest]\<rparr>))"
proof -
  let ?s = "s\<lparr>th_live := (th_live s)[i := Some rest]\<rparr>" and ?t = "thread_call i a (s\<lparr>th_live := (th_live s)[i := Some rest]\<rparr>)"
  have len: "length (th_live s) = length codes" "length (th_results s) = length codes" "th_codes s = codes" "th_err s = []"
    and threads: "threads_inv codes s" and main: "main_inv nf main codes s"
    using assms(1,2) by (simp_all add: threads_ok_def)
  have started: "started ?s = started s" using assms(3,4) len by (auto simp: started_def nth_list_update)
  have join: "(th_live s)[i := Some rest] ! j = Some []" if "th_live s ! j = Some []" for j
    using that assms(3,4) len by (auto simp: nth_list_update)
  note step = thread_inv_step [of "codes ! i" a rest "th_results s ! i" "said_by (Some i) s"]
  have inv_i: "thread_inv (codes ! i) (Some (a # rest)) (th_results s ! i) (said_by (Some i) s)"
    using threads assms(3,4) by (metis threads_inv_def)
  show ?thesis
  proof (cases "th_end ?t = Th_going")
    case True
    have live: "th_live ?t = (th_live s)[i := Some rest]" by (cases a) simp_all
    have fields: "th_main ?t = th_main s" "said_by None ?t = said_by None s" "started ?t = started s" "th_codes ?t = codes" "th_err ?t = []"
        "length (th_results ?t) = length codes"
      using True started len by (cases a; simp split: if_splits)+
    have faults: "True \<notin> set (th_faults s) \<longrightarrow> True \<notin> set (th_faults ?t)"
      using True tl_no_fault [of "th_faults s"] by (cases a) (auto split: if_splits)
    have "main_inv nf main codes ?t"
      using main unfolding main_inv_def fields(1,2,3) live using faults join by blast
    moreover have "thread_inv (codes ! j) (th_live ?t ! j) (th_results ?t ! j) (said_by (Some j) ?t)" if j: "j < length codes" for j
    proof (cases "j = i")
      case True
      have "th_results ?t ! i = (case a of Give v m \<Rightarrow> Some v | _ \<Rightarrow> th_results s ! i)"
        "said_by (Some i) ?t = (case a of Say t \<Rightarrow> said_by (Some i) s @ [t] | _ \<Rightarrow> said_by (Some i) s)"
        using \<open>th_end ?t = Th_going\<close> assms(3) len by (cases a; auto split: if_splits)+
      with step [OF inv_i] live True assms(3) len show ?thesis by simp
    next
      case False
      have "th_results ?t ! j = th_results s ! j" "said_by (Some j) ?t = said_by (Some j) s"
        using \<open>th_end ?t = Th_going\<close> False by (cases a; auto split: if_splits)+
      with threads live False j show ?thesis by (simp add: threads_inv_def)
    qed
    ultimately show ?thesis using True fields live len by (simp add: threads_ok_def threads_inv_def)
  next
    case False
    then show ?thesis using assms(2) len by (cases a) (auto simp: threads_ok_def split: if_splits)
  qed
qed

lemma main_call_ok:
  assumes "threads_ok nf main codes s" "th_end s = Th_going" "th_main s = a # rest" "main_call a (s\<lparr>th_main := rest\<rparr>) = Some s'"
  shows "threads_ok nf main codes s' \<and> (nf \<longrightarrow> th_end s' = Th_going \<or> th_end s' = Th_left EXIT_SUCCESS)"
proof -
  have len: "length (th_live s) = length codes" "length (th_results s) = length codes" "th_codes s = codes" "th_err s = []"
    and threads: "threads_inv codes s" and main: "main_inv nf main codes s"
    using assms(1,2) by (simp_all add: threads_ok_def)
  from main obtain before C J where b: "main = before @ a # rest" "said_by None s = main_texts codes before"
    "main_ok codes C J (a # rest)" "C \<subseteq> {..<length codes}" "started s \<subseteq> C" "(nf \<longrightarrow> True \<notin> set (th_faults s)) \<and> (nf \<or> checked main \<longrightarrow> C \<subseteq> started s)"
    "\<forall>i \<in> J. th_live s ! i = Some []" unfolding main_inv_def assms(3) by blast
  have finished: "thread_inv (codes ! i) (Some []) (th_results s ! i) (said_by (Some i) s)" if "i < length codes" "th_live s ! i = Some []" for i
    using threads that by (metis threads_inv_def)
  have same: "main_inv nf main codes t" if "th_main t = rest" "said_by None t = said_by None s @ main_texts codes [a]" "main_ok codes C J rest"
      "th_live t = th_live s" "th_faults t = th_faults s" for t
    unfolding main_inv_def
    using that b by (intro exI [of _ "before @ [a]"] exI [of _ C] exI [of _ J]) (simp add: started_def)
  have keep: "threads_inv codes t" if "th_live t = th_live s" "th_results t = th_results s" "\<And>i. said_by (Some i) t = said_by (Some i) s" for t
    using threads that by (simp add: threads_inv_def)
  show ?thesis
  proof (cases a)
    case (Say t)
    with assms b len same [of s'] keep [of s'] show ?thesis by (auto simp: threads_ok_def)
  next
    case (Create i m)
    then have i: "i < length codes" "i \<notin> C" "main_ok codes (insert i C) J rest" using b(3) by simp_all
    then have none: "th_live s ! i = None" using b(5) len by (auto simp: started_def)
    show ?thesis
    proof (cases "th_fails (s\<lparr>th_main := rest\<rparr>)")
      case True
      then have nf: "\<not> nf" using b(6) by (auto simp: th_fails_def split: list.splits)
      have "main_inv nf main codes t" if "th_main t = rest" "th_out t = th_out s" "th_live t = th_live s" "m = None" for t
      proof (rule main_invI [of main "before @ [a]" t codes "insert i C" J])
        show "said_by None t = main_texts codes (before @ [a])" using that(2) b(2) Create by (simp add: said_by_def)
        have "\<not> checked main" using b(1) Create that(4) by (auto simp: checked_def)
        then show "(nf \<longrightarrow> True \<notin> set (th_faults t)) \<and> (nf \<or> checked main \<longrightarrow> insert i C \<subseteq> started t)" using nf by simp
      qed (use that b i in \<open>auto simp: started_def\<close>)
      with True Create assms nf len keep [of s'] show ?thesis
        by (cases m) (auto simp: threads_ok_def)
    next
      case False
      let ?t = "(th_used (s\<lparr>th_main := rest\<rparr>))\<lparr>th_live := (th_live s)[i := Some (codes ! i)]\<rparr>"
      have t: "s' = ?t" using False Create assms(4) len by simp
      have started: "started ?t = insert i (started s)" using i len by (auto simp: started_def nth_list_update)
      have joined: "\<forall>j \<in> J. (th_live s)[i := Some (codes ! i)] ! j = Some []" using b(7) none by (metis nth_list_update_neq option.distinct(1))
      have inv: "main_inv nf main codes ?t"
      proof (rule main_invI [of main "before @ [a]" ?t codes "insert i C" J])
        show "(nf \<longrightarrow> True \<notin> set (th_faults ?t)) \<and> (nf \<or> checked main \<longrightarrow> insert i C \<subseteq> started ?t)"
          using b(6) started tl_no_fault [of "th_faults s"] by auto
      qed (use b i Create started joined in auto)
      moreover have "threads_inv codes ?t"
        unfolding threads_inv_def
      proof (intro allI impI)
        fix j
        assume j: "j < length codes"
        have "thread_inv (codes ! i) None (th_results s ! i) (said_by (Some i) s)" using threads i(1) none by (metis threads_inv_def)
        then have "thread_inv (codes ! i) (Some (codes ! i)) (th_results s ! i) (said_by (Some i) s)" by (simp add: thread_inv_def)
        with threads j i(1) len show "thread_inv (codes ! j) (th_live ?t ! j) (th_results ?t ! j) (said_by (Some j) ?t)"
          by (cases "j = i") (simp_all add: threads_inv_def)
      qed
      ultimately show ?thesis using inv t len assms(2) by (simp add: threads_ok_def)
    qed
  next
    case (Compare i w t u)
    show ?thesis
    proof (cases "th_live s ! i = None \<or> (\<exists>j \<in> set_option w. th_live s ! j = None)")
      case True
      with Compare b have "\<not> nf \<and> \<not> checked main" by (auto simp: started_def)
      with True Compare assms len show ?thesis by (auto simp: threads_ok_def)
    next
      case False
      have s': "s' = th_say None (if w = Some i then t else u) (s\<lparr>th_main := rest\<rparr>)"
        using assms(4) unfolding Compare main_call.simps using False by (simp del: not_None_eq)
      have "main_inv nf main codes s'" by (rule same) (use s' Compare b in simp_all)
      with s' assms(2) len keep [of s'] show ?thesis by (simp add: threads_ok_def)
    qed
  next
    case (Join i)
    show ?thesis
    proof (cases "th_live s ! i")
      case None
      with Join b have "\<not> nf \<and> \<not> checked main" by (auto simp: started_def)
      with None Join assms len show ?thesis by (auto simp: threads_ok_def)
    next
      case (Some l)
      with Join assms(4) have l: "l = []" "s' = s\<lparr>th_main := rest\<rparr>" by (auto split: list.splits)
      have "main_inv nf main codes s'"
        unfolding main_inv_def l(2)
        using b Join Some l(1) by (intro exI [of _ "before @ [a]"] exI [of _ C] exI [of _ "insert i J"]) (simp add: started_def)
      with keep [of s'] l assms(2) len show ?thesis by (simp add: threads_ok_def)
    qed
  next
    case (Give v m)
    with b(3) show ?thesis by simp
  next
    case (Say_result i t)
    then have i: "i < length codes" "i \<in> J" "gives (codes ! i) \<noteq> []" using b(3) by simp_all
    then have "th_results s ! i = Some (last (gives (codes ! i)))" using finished [OF i(1)] b(7) by (simp add: thread_inv_def)
    with Say_result assms b len same [of s'] keep [of s'] show ?thesis by (auto simp: threads_ok_def)
  next
    case Nap
    with assms b len same [of s'] keep [of s'] show ?thesis by (auto simp: threads_ok_def)
  next
    case Return_zero
    then have rest: "rest = []" "{..<length codes} \<subseteq> J" using b(3) by simp_all
    have "said_by (Some i) s = texts (codes ! i)" if "i < length codes" for i
    proof -
      have "th_live s ! i = Some []" using b(7) rest(2) that by blast
      from finished [OF that this] show ?thesis by (simp add: thread_inv_def)
    qed
    with Return_zero assms b rest len show ?thesis by (auto simp: threads_ok_def all_said_def)
  qed
qed

lemma thread_step_other:
  assumes "thread_step (Some i) s = Some s'" "threads_ok nf main codes s"
  obtains a rest where "th_end s = Th_going" "i < length codes" "th_live s ! i = Some (a # rest)"
    "s' = thread_call i a (s\<lparr>th_live := (th_live s)[i := Some rest]\<rparr>)"
proof -
  have len: "length (th_live s) = length codes" using assms(2) by (simp add: threads_ok_def)
  have going: "th_end s = Th_going" and i: "i < length codes" using assms(1) len by (simp_all add: thread_step_def split: if_splits)
  then obtain a rest where live: "th_live s ! i = Some (a # rest)"
    using assms(1) len by (auto simp: thread_step_def split: option.splits list.splits)
  then have "s' = thread_call i a (s\<lparr>th_live := (th_live s)[i := Some rest]\<rparr>)"
    using assms(1) going i len by (simp add: thread_step_def)
  with going i live show thesis by (rule that)
qed

lemma thread_call_end: "nf \<longrightarrow> True \<notin> set (th_faults s) \<Longrightarrow> th_end s = Th_going \<Longrightarrow> nf \<Longrightarrow> th_end (thread_call i a s) = Th_going"
  by (cases a) (auto simp: th_fails_def split: list.splits)

lemma thread_step_ok:
  assumes "thread_step who s = Some s'" "threads_ok nf main codes s"
  shows "threads_ok nf main codes s' \<and> (nf \<longrightarrow> th_end s' = Th_going \<or> th_end s' = Th_left EXIT_SUCCESS)"
proof (cases who)
  case None
  with assms(1) obtain a rest where "th_end s = Th_going" "th_main s = a # rest" "main_call a (s\<lparr>th_main := rest\<rparr>) = Some s'"
    by (auto simp: thread_step_def split: if_splits list.splits)
  from main_call_ok [OF assms(2) this] show ?thesis .
next
  case (Some i)
  with assms obtain a rest where a: "th_end s = Th_going" "i < length codes" "th_live s ! i = Some (a # rest)"
    "s' = thread_call i a (s\<lparr>th_live := (th_live s)[i := Some rest]\<rparr>)"
    by (blast elim: thread_step_other)
  have "main_inv nf main codes s" using assms(2) a(1) by (simp add: threads_ok_def)
  then have "nf \<longrightarrow> True \<notin> set (th_faults s)" unfolding main_inv_def by blast
  then have "nf \<Longrightarrow> th_end s' = Th_going"
    unfolding a(4) using a(1) by (intro thread_call_end [of nf]) simp_all
  with thread_call_ok [OF assms(2) a(1,2,3)] a(4) show ?thesis by auto
qed

lemma thread_run_ok:
  assumes "thread_run (threads_start main codes faults) s" "main_ok codes {} {} main"
  shows "threads_ok (True \<notin> set faults) main codes s \<and> (True \<notin> set faults \<longrightarrow> th_end s = Th_going \<or> th_end s = Th_left EXIT_SUCCESS)"
  using assms(1)
proof induction
  case start
  show ?case using start_ok [OF assms(2)] by (simp add: threads_start_def)
next
  case (step s who s')
  with thread_step_ok [OF step.hyps(2)] show ?case by blast
qed

section \<open>Every run ends\<close>

definition rest_weight :: "tact list \<Rightarrow> tact list option \<Rightarrow> nat" where
  "rest_weight code l = (case l of None \<Rightarrow> Suc (length code) | Some rest \<Rightarrow> length rest)"

definition thread_weight :: "threads \<Rightarrow> nat" where
  "thread_weight s = length (th_main s) + (\<Sum>i < length (th_codes s). rest_weight (th_codes s ! i) (th_live s ! i))"

lemma sum_one_less:
  fixes f g :: "nat \<Rightarrow> nat"
  assumes "i < n" "f i < g i" "\<And>j. j < n \<Longrightarrow> j \<noteq> i \<Longrightarrow> f j = g j"
  shows "(\<Sum>j < n. f j) < (\<Sum>j < n. g j)"
  by (rule sum_strict_mono_ex1) (use assms in \<open>auto, metis less_or_eq_imp_le order_refl\<close>)

lemma thread_step_weight:
  assumes "thread_step who s = Some s'" "threads_ok nf main codes s"
  shows "thread_weight s' < thread_weight s"
proof (cases who)
  case None
  with assms(1) obtain a rest where a: "th_end s = Th_going" "th_main s = a # rest" "main_call a (s\<lparr>th_main := rest\<rparr>) = Some s'"
    by (auto simp: thread_step_def split: if_splits list.splits)
  have len: "length (th_live s) = length codes" "th_codes s = codes" using assms(2) by (simp_all add: threads_ok_def)
  show ?thesis
  proof (cases "\<exists>i m. a = Create i m \<and> \<not> th_fails (s\<lparr>th_main := rest\<rparr>)")
    case True
    then obtain i m where c: "a = Create i m" "\<not> th_fails (s\<lparr>th_main := rest\<rparr>)" by blast
    have "main_inv nf main codes s" using assms(2) a(1) by (simp add: threads_ok_def)
    then obtain C J where "main_ok codes C J (a # rest)" "started s \<subseteq> C" unfolding main_inv_def a(2) by blast
    then have i: "i < length codes" "th_live s ! i = None" using c len by (auto simp: started_def)
    have "s' = (th_used (s\<lparr>th_main := rest\<rparr>))\<lparr>th_live := (th_live s)[i := Some (codes ! i)]\<rparr>" using c a(3) len by simp
    moreover have "(\<Sum>j < length codes. rest_weight (codes ! j) ((th_live s)[i := Some (codes ! i)] ! j))
        < (\<Sum>j < length codes. rest_weight (codes ! j) (th_live s ! j))"
      by (rule sum_one_less [of i]) (use i len in \<open>auto simp: rest_weight_def\<close>)
    ultimately show ?thesis using a(2) len by (simp add: thread_weight_def)
  next
    case False
    then have "th_main s' = rest" "th_live s' = th_live s" "th_codes s' = th_codes s"
      using a(3) by (cases a; auto split: if_splits option.splits list.splits)+
    then show ?thesis using a(2) by (simp add: thread_weight_def)
  qed
next
  case (Some i)
  with assms obtain a rest where a: "th_end s = Th_going" "i < length codes" "th_live s ! i = Some (a # rest)"
    "s' = thread_call i a (s\<lparr>th_live := (th_live s)[i := Some rest]\<rparr>)"
    by (blast elim: thread_step_other)
  have len: "length (th_live s) = length codes" "th_codes s = codes" using assms(2) by (simp_all add: threads_ok_def)
  have "th_main s' = th_main s" "th_live s' = (th_live s)[i := Some rest]" "th_codes s' = th_codes s"
    unfolding a(4) by (cases a; auto split: if_splits)+
  moreover have "(\<Sum>j < length codes. rest_weight (codes ! j) ((th_live s)[i := Some rest] ! j))
      < (\<Sum>j < length codes. rest_weight (codes ! j) (th_live s ! j))"
    by (rule sum_one_less [of i]) (use a(2,3) len in \<open>auto simp: rest_weight_def\<close>)
  ultimately show ?thesis using len by (simp add: thread_weight_def)
qed

lemma thread_progress:
  assumes "threads_ok nf main codes s" "th_end s = Th_going"
  shows "\<exists>who. thread_step who s \<noteq> None"
proof -
  have len: "length (th_live s) = length codes" using assms(1) by (simp add: threads_ok_def)
  have "main_inv nf main codes s" using assms by (simp add: threads_ok_def)
  then obtain C J where m: "main_ok codes C J (th_main s)" "C \<subseteq> {..<length codes}" unfolding main_inv_def by blast
  then obtain a rest where a: "th_main s = a # rest" by (cases "th_main s") auto
  show ?thesis
  proof (cases "main_call a (s\<lparr>th_main := rest\<rparr>)")
    case None
    then obtain i b l where i: "a = Join i" "th_live s ! i = Some (b # l)"
      by (cases a) (auto split: if_splits option.splits list.splits)
    then have "i < length codes" using m a by auto
    with i assms(2) len show ?thesis by (intro exI [of _ "Some i"]) (simp add: thread_step_def)
  next
    case (Some s')
    with a assms(2) show ?thesis by (intro exI [of _ None]) (simp add: thread_step_def)
  qed
qed

lemma create_join_checked: "checked create_join_main"
  by (simp add: checked_def create_join_main_def)

text \<open>C40. The four programs with threads, under every schedule. No run is endless and nobody waits for ever. If no creation and no
  allocation fails, a run ends with success, every thread has printed its lines in their order, and the main thread its own, with
  the results of the threads; otherwise it may end with failure and a message. \<^verbatim>\<open>pthread_create-pthread_join\<close> does one of the two
  whatever fails. The three others do not look at the result of \<^verbatim>\<open>pthread_create\<close>: a creation that fails may make them use a
  \<^verbatim>\<open>pthread_t\<close> that has not been set, which is undefined, and nothing else does.\<close>

theorem thread_programs_end:
  assumes "(main, codes) \<in> thread_programs ids" "thread_run (threads_start main codes faults) s"
  shows "(thread_step who s = Some s' \<longrightarrow> thread_weight s' < thread_weight s)
    \<and> (th_end s = Th_going \<longrightarrow> (\<exists>who. thread_step who s \<noteq> None))
    \<and> (True \<notin> set faults \<and> th_end s \<noteq> Th_going \<longrightarrow> th_end s = Th_left EXIT_SUCCESS)
    \<and> (th_end s = Th_left EXIT_SUCCESS \<longrightarrow> all_said main codes s)
    \<and> (\<forall>n. th_end s = Th_left n \<longrightarrow> n = EXIT_SUCCESS \<or> n = EXIT_FAILURE \<and> th_err s \<noteq> [])
    \<and> (th_end s = Th_undefined \<longrightarrow> True \<in> set faults \<and> main \<noteq> create_join_main)"
proof -
  note run = thread_run_ok [OF assms(2) programs_main_ok [OF assms(1)]]
  then have ok: "threads_ok (True \<notin> set faults) main codes s" ..
  have "th_end s = Th_undefined \<Longrightarrow> main \<noteq> create_join_main" using ok create_join_checked by (auto simp: threads_ok_def)
  then show ?thesis
    using run thread_step_weight [OF _ ok, of who s'] thread_progress [OF ok]
    by (auto simp: threads_ok_def)
qed

lemma thread_programs_end_witness:
  "\<exists>who. thread_step who (threads_start pthread_exit_main (map exit_thread_function [1, 2, 3]) [True]) \<noteq> None"
proof -
  have "(pthread_exit_main, map exit_thread_function [1, 2, 3]) \<in> thread_programs (\<lambda>_. 0)" by (simp add: thread_programs_def)
  from thread_programs_end [OF this thread_run.start, where faults = "[True]" and who = None] show ?thesis by (simp add: threads_start_def)
qed

text \<open>After a creation that has failed the three other programs do come to that use: \<^verbatim>\<open>main\<close> alone takes them there.\<close>

fun main_alone :: "nat \<Rightarrow> threads \<Rightarrow> threads" where
  "main_alone 0 s = s"
| "main_alone (Suc n) s = (case thread_step None s of None \<Rightarrow> s | Some s' \<Rightarrow> main_alone n s')"

lemma main_alone_run: "thread_run s0 s \<Longrightarrow> thread_run s0 (main_alone n s)"
  by (induction n arbitrary: s) (auto intro: thread_run.step split: option.split)

lemma thread_programs_unset:
  assumes "(main, codes) \<in> thread_programs ids" "main \<noteq> create_join_main"
  shows "\<exists>s. thread_run (threads_start main codes [True]) s \<and> th_end s = Th_undefined"
proof -
  have "th_end (main_alone 4 (threads_start main codes [True])) = Th_undefined"
    using assms
    by (auto simp: thread_programs_def pthread_exit_main_def pthread_self_main_def pthread_equal_main_def threads_start_def thread_step_def th_fails_def
        th_used_def numeral_eq_Suc)
  with main_alone_run [OF thread_run.start] show ?thesis by blast
qed

end
