(* ===== verification/Word_Framing.thy ===== *)
theory Word_Framing
  imports C_Prelude
begin

text \<open>
  The sending side of the word pipelines under \<^verbatim>\<open>src/pipe\<close> and of
  \<^verbatim>\<open>src/domain-socket/socketpair\<close>: \<^verbatim>\<open>child_process\<close> cuts a file into words
  and passes each to \<^verbatim>\<open>send_word\<close>. The control flow depends on the file only, so the
  model yields the sequence of system calls the process makes and how the function ends;
  the kernel theories execute that sequence. The automatic array
  \<^verbatim>\<open>word[]\<close> is a list of its declared size, and a store outside it ends in
  \<open>Undefined\<close>.
\<close>

section \<open>System calls of the sending process\<close>

datatype op =
    Op_print string        \<comment> \<open>\<^verbatim>\<open>printf\<close> on the child's \<^verbatim>\<open>stdout\<close>\<close>
  | Op_write string        \<comment> \<open>\<^verbatim>\<open>write(pipefd, ...)\<close> of these bytes\<close>
  | Op_post                \<comment> \<open>\<^verbatim>\<open>sem_post(sem_parent)\<close>\<close>
  | Op_wait                \<comment> \<open>\<^verbatim>\<open>sem_wait(sem_child)\<close>\<close>
  | Op_fclose              \<comment> \<open>\<^verbatim>\<open>fclose(file)\<close>\<close>
  | Op_close               \<comment> \<open>\<^verbatim>\<open>close\<close> of the write end\<close>

datatype status = Running | Failed string | Undefined

record child =
  c_word :: "char list"
  c_length :: uint8
  c_ops :: "op list"
  c_status :: status

text \<open>The bytes a sequence of calls writes, call by call.\<close>

fun chunks :: "op list \<Rightarrow> string list" where
  "chunks [] = []"
| "chunks (Op_write bs # ops) = bs # chunks ops"
| "chunks (_ # ops) = chunks ops"

abbreviation written :: "op list \<Rightarrow> string" where
  "written ops \<equiv> concat (chunks ops)"

lemma chunks_append [simp]: "chunks (xs @ ys) = chunks xs @ chunks ys"
  by (induction xs rule: chunks.induct) auto

section \<open>The scanning loop of child\_process\<close>

definition MAX_WORD_LENGTH :: nat where
  "MAX_WORD_LENGTH = 255"

definition is_blank :: "char \<Rightarrow> bool" where
  "is_blank ch \<longleftrightarrow> ch = SPACE \<or> ch = NL \<or> ch = TAB"

definition long_word_message :: string where
  "long_word_message = ''Encountered a word longer than the maximum allowed length''"

definition child_store :: "nat \<Rightarrow> char \<Rightarrow> child \<Rightarrow> child" where
  "child_store i ch c =
     (if i < length (c_word c) then c\<lparr>c_word := (c_word c)[i := ch]\<rparr> else c\<lparr>c_status := Undefined\<rparr>)"

text \<open>\<^verbatim>\<open>word[length] = '\\0'; send_word(...); length = 0;\<close>\<close>

definition child_flush :: "(char list option \<Rightarrow> uint8 \<Rightarrow> op list) \<Rightarrow> child \<Rightarrow> child" where
  "child_flush send c =
     (let c1 = child_store (unat (c_length c)) NUL c
      in if c_status c1 = Running
         then c1\<lparr>c_ops := c_ops c1 @ send (Some (c_word c1)) (c_length c1), c_length := 0\<rparr>
         else c1)"

definition child_char :: "(char list option \<Rightarrow> uint8 \<Rightarrow> op list) \<Rightarrow> child \<Rightarrow> char \<Rightarrow> child" where
  "child_char send c ch =
     (if is_blank ch
      then (if c_length c > 0 then child_flush send c else c)
      else if unat (c_length c) \<ge> MAX_WORD_LENGTH
      then c\<lparr>c_status := Failed long_word_message\<rparr>
      else (child_store (unat (c_length c)) ch c)\<lparr>c_length := c_length c + 1\<rparr>)"

fun child_loop :: "(char list option \<Rightarrow> uint8 \<Rightarrow> op list) \<Rightarrow> child \<Rightarrow> string \<Rightarrow> child" where
  "child_loop send c [] = c"
| "child_loop send c (ch # file) =
     (if c_status c = Running then child_loop send (child_char send c ch) file else c)"

text \<open>After the loop: the last word, the terminator, and the closing calls.\<close>

definition child_end :: "(char list option \<Rightarrow> uint8 \<Rightarrow> op list) \<Rightarrow> op list \<Rightarrow> child \<Rightarrow> child" where
  "child_end send closing c =
     (if c_status c \<noteq> Running then c
      else let c1 = (if c_length c > 0 then child_flush send c else c)
           in if c_status c1 = Running then c1\<lparr>c_ops := c_ops c1 @ send None 0 @ closing\<rparr> else c1)"

definition child_init :: "char list \<Rightarrow> child" where
  "child_init word0 = \<lparr>c_word = word0, c_length = 0, c_ops = [], c_status = Running\<rparr>"

definition run_child ::
  "(char list option \<Rightarrow> uint8 \<Rightarrow> op list) \<Rightarrow> op list \<Rightarrow> char list \<Rightarrow> string \<Rightarrow> child" where
  "run_child send closing word0 file = child_end send closing (child_loop send (child_init word0) file)"

text \<open>The calls up to the end of the process; \<^verbatim>\<open>error_exit\<close> leaves it to the kernel to
  close the write end.\<close>

definition child_calls :: "child \<Rightarrow> op list" where
  "child_calls c = (case c_status c of Failed _ \<Rightarrow> c_ops c @ [Op_close] | _ \<Rightarrow> c_ops c)"

section \<open>The words of a file\<close>

text \<open>What the loop is to send: the maximal runs of characters that are not blanks.\<close>

fun words_from :: "string \<Rightarrow> string \<Rightarrow> string list" where
  "words_from cur [] = (if cur = [] then [] else [cur])"
| "words_from cur (ch # s) =
     (if is_blank ch then (if cur = [] then words_from [] s else cur # words_from [] s)
      else words_from (cur @ [ch]) s)"

abbreviation words_of :: "string \<Rightarrow> string list" where
  "words_of s \<equiv> words_from [] s"

lemma words_from_Cons: "cur \<noteq> [] \<Longrightarrow> \<exists>x rest. words_from cur s = (cur @ x) # rest"
proof (induction cur s rule: words_from.induct)
  case (2 cur ch s)
  show ?case
  proof (cases "is_blank ch")
    case True
    with 2 show ?thesis by auto
  next
    case False
    then obtain x rest where "words_from (cur @ [ch]) s = ((cur @ [ch]) @ x) # rest"
      using 2 by blast
    with False show ?thesis by (intro exI [of _ "ch # x"]) simp
  qed
qed simp

lemma words_from_nonempty: "w \<in> set (words_from cur s) \<Longrightarrow> w \<noteq> []"
  by (induction cur s rule: words_from.induct) (auto split: if_splits)

lemma concat_words_from: "concat (words_from cur s) = cur @ filter (\<lambda>c. \<not> is_blank c) s"
  by (induction cur s rule: words_from.induct) auto

lemma words_of_nonblank:
  assumes "w \<in> set (words_of s)" "c \<in> set w"
  shows "\<not> is_blank c"
proof -
  from assms have "c \<in> set (concat (words_of s))" by auto
  then show ?thesis by (simp add: concat_words_from)
qed

text \<open>A message: one length byte, then the word. The empty message ends the stream.\<close>

definition frame :: "string \<Rightarrow> string" where
  "frame w = byte_of_u8 (word_of_nat (length w)) # w"

definition frame_chunks :: "string \<Rightarrow> string list" where
  "frame_chunks w = [byte_of_u8 (word_of_nat (length w))] # (if w = [] then [] else [w])"

lemma concat_frame_chunks [simp]: "concat (frame_chunks w) = frame w"
  by (simp add: frame_chunks_def frame_def)

definition encode :: "string list \<Rightarrow> string" where
  "encode ws = concat (map frame ws) @ frame []"

section \<open>The contract of send\_word and the scan it drives\<close>

text \<open>
  Every \<^verbatim>\<open>send_word\<close> of these programs looks at the array only up to the NUL that
  \<^verbatim>\<open>child_process\<close> has just stored behind the word.
\<close>

locale word_sender =
  fixes send :: "char list option \<Rightarrow> uint8 \<Rightarrow> op list"
  assumes send_prefix:
    "length w = unat n \<Longrightarrow> send (Some (w @ NUL # r)) n = send (Some (w @ [NUL])) n"
  and send_chunks:
    "length w = unat n \<Longrightarrow> chunks (send (Some (w @ [NUL])) n) = frame_chunks w"
  and send_end_chunks: "chunks (send None 0) = [frame []]"

text \<open>The calls for a list of words and how the process ends, stated over the words.
  \<open>B\<close> is the declared size of \<^verbatim>\<open>word[]\<close>.\<close>

fun send_words ::
  "(char list option \<Rightarrow> uint8 \<Rightarrow> op list) \<Rightarrow> op list \<Rightarrow> nat \<Rightarrow> string list \<Rightarrow> op list \<times> status" where
  "send_words send closing B [] = (send None 0 @ closing, Running)"
| "send_words send closing B (w # ws) =
     (if MAX_WORD_LENGTH < length w then ([], Failed long_word_message)
      else if B \<le> length w then ([], Undefined)
      else case send_words send closing B ws of
             (ops, st) \<Rightarrow> (send (Some (w @ [NUL])) (word_of_nat (length w)) @ ops, st))"

text \<open>The loop's state while it is inside a word: the array starts with the characters of the
  word read so far.\<close>

definition scanning :: "nat \<Rightarrow> string \<Rightarrow> child \<Rightarrow> bool" where
  "scanning B cur c \<longleftrightarrow> c_status c = Running \<and> length (c_word c) = B \<and> length cur \<le> MAX_WORD_LENGTH
     \<and> unat (c_length c) = length cur \<and> length cur \<le> B \<and> take (length cur) (c_word c) = cur"

lemma child_loop_stopped: "c_status c \<noteq> Running \<Longrightarrow> child_loop send c s = c"
  by (cases s) auto

lemma child_end_stopped: "c_status c \<noteq> Running \<Longrightarrow> child_end send closing c = c"
  by (simp add: child_end_def)

lemma scanning_store:
  assumes "scanning B cur c" "length cur < MAX_WORD_LENGTH" "length cur < B"
  shows "scanning B (cur @ [ch])
    ((child_store (unat (c_length c)) ch c)\<lparr>c_length := c_length c + 1\<rparr>)"
  using assms by (simp add: scanning_def child_store_def take_Suc_update unat_Suc_u8 MAX_WORD_LENGTH_def)

lemma scanning_full:
  assumes "scanning B cur c" "length cur = B"
  shows "c_status (child_store (unat (c_length c)) ch c) = Undefined"
    and "c_ops (child_store (unat (c_length c)) ch c) = c_ops c"
  using assms by (simp_all add: scanning_def child_store_def)

context word_sender
begin

lemma flush_ok:
  assumes "scanning B cur c" "length cur < B"
  shows "scanning B [] (child_flush send c)"
    and "c_ops (child_flush send c) = c_ops c @ send (Some (cur @ [NUL])) (word_of_nat (length cur))"
proof -
  have len: "c_length c = word_of_nat (length cur)"
    using assms(1) by (intro word_of_nat_eqI) (simp add: scanning_def)
  have split: "(c_word c)[length cur := NUL] = cur @ NUL # drop (Suc (length cur)) (c_word c)"
    using assms by (simp add: scanning_def upd_conv_take_nth_drop)
  have "send (Some ((c_word c)[length cur := NUL])) (c_length c) = send (Some (cur @ [NUL])) (c_length c)"
    using assms(1) unfolding split by (intro send_prefix) (simp add: scanning_def)
  then show "c_ops (child_flush send c) = c_ops c @ send (Some (cur @ [NUL])) (word_of_nat (length cur))"
    using assms by (simp add: child_flush_def child_store_def scanning_def len Let_def)
  show "scanning B [] (child_flush send c)"
    using assms by (simp add: child_flush_def child_store_def scanning_def Let_def)
qed

lemma flush_full:
  assumes "scanning B cur c" "length cur = B"
  shows "c_status (child_flush send c) = Undefined \<and> c_ops (child_flush send c) = c_ops c"
  using scanning_full [OF assms, of NUL] by (simp add: child_flush_def Let_def)

lemma end_ok:
  assumes "scanning B cur c" "MAX_WORD_LENGTH \<le> B"
  shows "(c_ops (child_end send closing c), c_status (child_end send closing c))
    = (case send_words send closing B (words_from cur []) of (ops, st) \<Rightarrow> (c_ops c @ ops, st))"
proof (cases "cur = []")
  case True
  with assms have "c_length c = 0" by (simp add: scanning_def unat_eq_zero)
  with True assms show ?thesis by (simp add: child_end_def scanning_def)
next
  case False
  with assms have pos: "c_length c > 0" by (auto simp: scanning_def word_greater_zero_iff)
  have "length cur \<le> MAX_WORD_LENGTH" "c_status c = Running" using assms by (auto simp: scanning_def)
  with False pos assms flush_ok [of B cur c] flush_full [of B cur c] show ?thesis
    by (cases "length cur < B") (auto simp: child_end_def scanning_def Let_def)
qed

lemma child_scan:
  fixes closing :: "op list"
  assumes "scanning B cur c" "MAX_WORD_LENGTH \<le> B"
  defines "r \<equiv> \<lambda>s c. child_end send closing (child_loop send c s)"
  shows "(c_ops (r s c), c_status (r s c))
    = (case send_words send closing B (words_from cur s) of (ops, st) \<Rightarrow> (c_ops c @ ops, st))"
  using assms(1)
proof (induction s arbitrary: cur c)
  case Nil
  then show ?case using end_ok assms(2) by (simp add: r_def)
next
  case (Cons ch s)
  have run: "c_status c = Running" and le: "length cur \<le> MAX_WORD_LENGTH"
    using Cons.prems by (auto simp: scanning_def)
  then have step: "r (ch # s) c = r s (child_char send c ch)" by (simp add: r_def)
  show ?case
  proof (cases "is_blank ch")
    case blank: True
    show ?thesis
    proof (cases "cur = []")
      case True
      with Cons.prems have "c_length c = 0" by (simp add: scanning_def unat_eq_zero)
      with blank True step Cons.IH [OF Cons.prems] show ?thesis by (simp add: child_char_def)
    next
      case False
      with Cons.prems have "c_length c > 0" by (auto simp: scanning_def word_greater_zero_iff)
      with blank have cc: "child_char send c ch = child_flush send c" by (simp add: child_char_def)
      show ?thesis
      proof (cases "length cur < B")
        case True
        with flush_ok [OF Cons.prems] Cons.IH [of "[]" "child_flush send c"] False blank le
        show ?thesis by (simp add: step cc split: prod.splits)
      next
        case B: False
        with Cons.prems have "length cur = B" by (auto simp: scanning_def)
        with flush_full [OF Cons.prems] run False blank le show ?thesis
          by (simp add: step cc r_def child_loop_stopped child_end_stopped)
      qed
    qed
  next
    case nb: False
    show ?thesis
    proof (cases "length cur < MAX_WORD_LENGTH")
      case True
      with nb Cons.prems have "child_char send c ch
          = (child_store (unat (c_length c)) ch c)\<lparr>c_length := c_length c + 1\<rparr>"
        by (simp add: child_char_def scanning_def)
      moreover have "c_ops (child_store (unat (c_length c)) ch c) = c_ops c"
        by (simp add: child_store_def)
      ultimately show ?thesis
        using Cons.IH [OF scanning_store [OF Cons.prems True], of ch] True nb assms(2) by (simp add: step)
    next
      case False
      obtain x rest where w: "words_from (cur @ [ch]) s = ((cur @ [ch]) @ x) # rest"
        using words_from_Cons [of "cur @ [ch]" s] by auto
      have "child_char send c ch = c\<lparr>c_status := Failed long_word_message\<rparr>"
        using nb False Cons.prems by (simp add: child_char_def scanning_def)
      then show ?thesis
        using nb False le w run by (simp add: step r_def child_loop_stopped child_end_stopped)
    qed
  qed
qed

lemma run_child_sends:
  assumes "MAX_WORD_LENGTH \<le> length word0"
  shows "(c_ops (run_child send closing word0 file), c_status (run_child send closing word0 file))
    = send_words send closing (length word0) (words_of file)"
proof -
  have "scanning (length word0) [] (child_init word0)"
    by (simp add: scanning_def child_init_def)
  from child_scan [OF this assms, where closing = closing and s = "file"] show ?thesis
    by (simp add: run_child_def child_init_def split: prod.splits)
qed

lemma run_child_calls:
  assumes "MAX_WORD_LENGTH \<le> length word0" "snd (send_words send closing (length word0) (words_of file)) = Running"
  shows "child_calls (run_child send closing word0 file)
    = fst (send_words send closing (length word0) (words_of file))"
proof -
  let ?r = "run_child send closing word0 file"
  have eq: "send_words send closing (length word0) (words_of file) = (c_ops ?r, c_status ?r)"
    using run_child_sends [OF assms(1), of closing "file"] by simp
  with assms(2) have "c_status ?r = Running" by simp
  with eq show ?thesis by (simp add: child_calls_def)
qed

lemma send_words_chunks:
  assumes "\<forall>w \<in> set ws. length w < B \<and> length w \<le> MAX_WORD_LENGTH"
  shows "chunks (fst (send_words send closing B ws)) = concat (map frame_chunks ws) @ [frame []] @ chunks closing"
  using assms
proof (induction ws)
  case (Cons w ws)
  have "chunks (send (Some (w @ [NUL])) (word_of_nat (length w))) = frame_chunks w"
    using Cons.prems by (intro send_chunks) (simp add: MAX_WORD_LENGTH_def unat_word_of_nat_u8)
  with Cons show ?case by (auto split: prod.splits)
qed (simp add: send_end_chunks)

end

text \<open>The status depends on the words alone: the first word that is too long decides.\<close>

lemma send_words_status:
  "snd (send_words send closing B ws) = Running
     \<longleftrightarrow> (\<forall>w \<in> set ws. length w < B \<and> length w \<le> MAX_WORD_LENGTH)"
  by (induction ws) (auto split: prod.splits)

lemma send_words_undefined:
  "snd (send_words send closing B ws) = Undefined
     \<longleftrightarrow> (\<exists>us w vs. ws = us @ w # vs \<and> B \<le> length w \<and> length w \<le> MAX_WORD_LENGTH
            \<and> (\<forall>u \<in> set us. length u < B \<and> length u \<le> MAX_WORD_LENGTH))"
proof (induction ws)
  case (Cons w ws)
  have "snd (send_words send closing B (w # ws)) = Undefined
      \<longleftrightarrow> B \<le> length w \<and> length w \<le> MAX_WORD_LENGTH
        \<or> (length w < B \<and> length w \<le> MAX_WORD_LENGTH) \<and> snd (send_words send closing B ws) = Undefined"
    by (auto split: prod.splits)
  then show ?case
    unfolding Cons.IH
    using ex_first_Cons [where x = w and xs = ws
        and P = "\<lambda>w. B \<le> length w \<and> length w \<le> MAX_WORD_LENGTH"
        and Q = "\<lambda>u. length u < B \<and> length u \<le> MAX_WORD_LENGTH"]
    by (simp only: conj_assoc)
qed simp

lemma send_words_nonempty:
  "snd (send_words send closing B ws) = Running \<Longrightarrow> closing \<noteq> [] \<Longrightarrow> fst (send_words send closing B ws) \<noteq> []"
  by (induction ws) (auto split: prod.splits if_splits)

end
