(* ===== verification/Pipe_Kernel.thy ===== *)
theory Pipe_Kernel
  imports Word_Framing
begin

text \<open>
  Two processes joined by a pipe and by two counting semaphores, as the programs under
  \<^verbatim>\<open>src/pipe\<close> set them up: the state they share, the effect of each system call of
  the sending process, and the interleavings of the two processes. The receiving process is a
  parameter of the step relation; each program supplies its own. Last, the invariant that
  ties what the receiver has printed to the words of the file, proved once for every
  receiver that meets the contract \<open>pipe_reader\<close>.
\<close>

section \<open>State\<close>

text \<open>Control points of \<^verbatim>\<open>parent_process\<close>, named after the call that comes next.\<close>

datatype ppc = P_wait | P_length | P_word | P_print | P_post | P_close | P_done | P_failed | P_undefined

record parent =
  p_pc :: ppc
  p_length :: uint8
  p_word :: "char list"
  p_off :: nat
  p_out :: "string list"

record sys =
  ops :: "op list"
  child_out :: "string list"
  writer_open :: bool
  pipe :: string
  sem_parent :: nat
  sem_child :: nat
  par :: parent

text \<open>The line \<^verbatim>\<open>parent_process\<close> prints for a word.\<close>

definition parent_line :: "uint8 \<Rightarrow> char list \<Rightarrow> string" where
  "parent_line n word = ''Parent: received word of length '' @ dec_nat (unat n) @ '': '' @ c_str word @ [NL]"

definition word_line :: "string \<Rightarrow> string" where
  "word_line w = parent_line (word_of_nat (length w)) (w @ [NUL])"

section \<open>Steps\<close>

text \<open>
  The next call of the sending process. A write is at most 255 bytes, below
  \<^verbatim>\<open>PIPE_BUF\<close>, so it is atomic and blocks until the pipe of capacity \<open>cap\<close> has room
  for all of it. \<open>None\<close>: the process is blocked, or it has made its last call.
\<close>

fun child_call :: "nat \<Rightarrow> op \<Rightarrow> sys \<Rightarrow> sys option" where
  "child_call cap (Op_print t) s = Some (s\<lparr>child_out := child_out s @ [t]\<rparr>)"
| "child_call cap (Op_write bs) s =
     (if length (pipe s) + length bs \<le> cap then Some (s\<lparr>pipe := pipe s @ bs\<rparr>) else None)"
| "child_call cap Op_post s = Some (s\<lparr>sem_parent := Suc (sem_parent s)\<rparr>)"
| "child_call cap Op_wait s =
     (if 0 < sem_child s then Some (s\<lparr>sem_child := sem_child s - 1\<rparr>) else None)"
| "child_call cap Op_fclose s = Some s"
| "child_call cap Op_close s = Some (s\<lparr>writer_open := False\<rparr>)"

definition child_step :: "nat \<Rightarrow> sys \<Rightarrow> sys option" where
  "child_step cap s = (case ops s of [] \<Rightarrow> None | x # r \<Rightarrow> child_call cap x (s\<lparr>ops := r\<rparr>))"

text \<open>A step is one call of one of the processes, all calls succeeding. The number is the
  count a \<^verbatim>\<open>read\<close> of the receiver returns, where that is not determined.\<close>

inductive kstep :: "(nat \<Rightarrow> sys \<Rightarrow> sys option) \<Rightarrow> nat \<Rightarrow> sys \<Rightarrow> sys \<Rightarrow> bool"
  for rcv :: "nat \<Rightarrow> sys \<Rightarrow> sys option" and cap :: nat where
  by_child: "child_step cap s = Some t \<Longrightarrow> kstep rcv cap s t"
| by_parent: "rcv k s = Some t \<Longrightarrow> kstep rcv cap s t"

text \<open>A call that fails ends its process through \<^verbatim>\<open>error_exit\<close>; the kernel closes
  its end of the pipe.\<close>

inductive kfault :: "sys \<Rightarrow> sys \<Rightarrow> bool" where
  child_fault: "ops s \<noteq> [] \<Longrightarrow> kfault s (s\<lparr>ops := [], writer_open := False\<rparr>)"
| parent_fault: "p_pc (par s) \<notin> {P_done, P_undefined} \<Longrightarrow> kfault s (s\<lparr>par := (par s)\<lparr>p_pc := P_failed\<rparr>\<rparr>)"

inductive kreach :: "(nat \<Rightarrow> sys \<Rightarrow> sys option) \<Rightarrow> nat \<Rightarrow> sys \<Rightarrow> sys \<Rightarrow> bool"
  for rcv :: "nat \<Rightarrow> sys \<Rightarrow> sys option" and cap :: nat and s0 :: sys where
  kreach_start: "kreach rcv cap s0 s0"
| kreach_step: "kreach rcv cap s0 s \<Longrightarrow> kstep rcv cap s t \<Longrightarrow> kreach rcv cap s0 t"

inductive kreach_faulty :: "(nat \<Rightarrow> sys \<Rightarrow> sys option) \<Rightarrow> nat \<Rightarrow> sys \<Rightarrow> sys \<Rightarrow> bool"
  for rcv :: "nat \<Rightarrow> sys \<Rightarrow> sys option" and cap :: nat and s0 :: sys where
  kf_start: "kreach_faulty rcv cap s0 s0"
| kf_step: "kreach_faulty rcv cap s0 s \<Longrightarrow> kstep rcv cap s t \<Longrightarrow> kreach_faulty rcv cap s0 t"
| kf_fault: "kreach_faulty rcv cap s0 s \<Longrightarrow> kfault s t \<Longrightarrow> kreach_faulty rcv cap s0 t"

inductive_simps kstep_iff: "kstep rcv cap s t"

lemma kreach_imp_faulty: "kreach rcv cap s0 s \<Longrightarrow> kreach_faulty rcv cap s0 s"
  by (induction rule: kreach.induct) (auto intro: kreach_faulty.intros)

text \<open>One schedule, computed: the sending process runs whenever it can, and a read of the receiver
  returns one byte where it may choose.\<close>

fun krun :: "(nat \<Rightarrow> sys \<Rightarrow> sys option) \<Rightarrow> nat \<Rightarrow> nat \<Rightarrow> sys \<Rightarrow> sys" where
  "krun rcv cap 0 s = s"
| "krun rcv cap (Suc n) s =
     (case child_step cap s of
        Some t \<Rightarrow> krun rcv cap n t
      | None \<Rightarrow> (case rcv 1 s of Some t \<Rightarrow> krun rcv cap n t | None \<Rightarrow> s))"

lemma krun_reach: "kreach rcv cap s0 s \<Longrightarrow> kreach rcv cap s0 (krun rcv cap n s)"
  by (induction n arbitrary: s) (auto split: option.split intro: kreach.kreach_step kstep.intros)

lemmas krun_from_start = krun_reach [OF kreach_start]

text \<open>The state after \<^verbatim>\<open>fork\<close>: the calls of the child, the two semaphore values and the
  automatic variables of the parent, whose contents are indeterminate.\<close>

definition start_sys :: "op list \<Rightarrow> nat \<Rightarrow> nat \<Rightarrow> ppc \<Rightarrow> uint8 \<Rightarrow> char list \<Rightarrow> sys" where
  "start_sys calls sp sc pc len0 word0 =
     \<lparr>ops = calls, child_out = [], writer_open = True, pipe = [], sem_parent = sp, sem_child = sc,
      par = \<lparr>p_pc = pc, p_length = len0, p_word = word0, p_off = 0, p_out = []\<rparr>\<rparr>"

section \<open>What the receiver has printed and what is still to come\<close>

text \<open>
  \<open>par_inv ws rest ex p\<close>: the receiver has printed the lines of the words before
  \<open>rest\<close> (the last element of \<open>rest\<close> is the empty terminator), and \<open>ex\<close> are the
  chunks it still has to get, the first of them possibly read in part.
\<close>

definition par_inv :: "string list \<Rightarrow> string list \<Rightarrow> string list \<Rightarrow> parent \<Rightarrow> bool" where
  "par_inv ws rest ex p \<longleftrightarrow> length (p_word p) = MAX_WORD_LENGTH \<and>
     (\<exists>dn. ws = dn @ rest \<and> p_out p = map word_line dn \<and>
       (case p_pc p of
          P_wait \<Rightarrow> ex = concat (map frame_chunks (rest @ [[]]))
        | P_length \<Rightarrow> ex = concat (map frame_chunks (rest @ [[]]))
        | P_post \<Rightarrow> ex = concat (map frame_chunks (rest @ [[]]))
        | P_word \<Rightarrow> (\<exists>w rest'. rest = w # rest' \<and> p_length p = word_of_nat (length w) \<and> p_off p < length w
             \<and> take (p_off p) (p_word p) = take (p_off p) w
             \<and> ex = drop (p_off p) w # concat (map frame_chunks (rest' @ [[]])))
        | P_print \<Rightarrow> (\<exists>w rest'. rest = w # rest' \<and> p_length p = word_of_nat (length w)
             \<and> take (length w) (p_word p) = w \<and> ex = concat (map frame_chunks (rest' @ [[]])))
        | P_close \<Rightarrow> rest = [] \<and> ex = []
        | P_done \<Rightarrow> rest = [] \<and> ex = []
        | P_failed \<Rightarrow> True
        | P_undefined \<Rightarrow> False))"

text \<open>The pipe holds whole chunks, apart from the one being read; behind them come the chunks of
  the calls the child has left, and behind those the ones lost with a child that failed.\<close>

definition stream_inv :: "string list \<Rightarrow> string list \<Rightarrow> string list \<Rightarrow> sys \<Rightarrow> bool" where
  "stream_inv ws rest lost s \<longleftrightarrow> (\<exists>cs ex. pipe s = concat cs \<and> [] \<notin> set ex
     \<and> cs @ chunks (ops s) @ lost = ex \<and> par_inv ws rest ex (par s))"

text \<open>Every word fits the buffers.\<close>

definition fits :: "string list \<Rightarrow> bool" where
  "fits ws \<longleftrightarrow> (\<forall>w \<in> set ws. w \<noteq> [] \<and> length w < MAX_WORD_LENGTH)"

lemma fits_frame_chunks: "fits ws \<Longrightarrow> [] \<notin> set (concat (map frame_chunks (ws @ [[]])))"
  by (auto simp: fits_def frame_chunks_def)

lemma fits_append [simp]: "fits (us @ vs) \<longleftrightarrow> fits us \<and> fits vs"
  by (auto simp: fits_def)

lemma fits_Cons [simp]: "fits (w # ws) \<longleftrightarrow> w \<noteq> [] \<and> length w < MAX_WORD_LENGTH \<and> fits ws"
  by (auto simp: fits_def)

lemma fits_Nil [simp]: "fits []"
  by (simp add: fits_def)

lemma unat_length_fits: "length w < MAX_WORD_LENGTH \<Longrightarrow> unat (word_of_nat (length w) :: uint8) = length w"
  by (simp add: MAX_WORD_LENGTH_def unat_word_of_nat_u8)

lemma stream_inv_start:
  assumes "chunks calls = concat (map frame_chunks (ws @ [[]]))" "fits ws"
    and "length word0 = MAX_WORD_LENGTH" "pc = P_wait \<or> pc = P_length"
  shows "stream_inv ws ws [] (start_sys calls sp sc pc len0 word0)"
proof -
  have "par_inv ws ws (chunks calls) (par (start_sys calls sp sc pc len0 word0))"
    using assms by (auto simp: par_inv_def start_sys_def)
  moreover have "[] \<notin> set (chunks calls)" using assms fits_frame_chunks by metis
  ultimately show ?thesis
    unfolding stream_inv_def by (intro exI [of _ "[]"] exI [of _ "chunks calls"]) (simp add: start_sys_def)
qed

lemma stream_inv_child:
  assumes "stream_inv ws rest lost s" "child_step cap s = Some t"
  shows "stream_inv ws rest lost t"
proof -
  from assms(1) obtain cs ex where inv: "pipe s = concat cs" "[] \<notin> set ex"
    "cs @ chunks (ops s) @ lost = ex" "par_inv ws rest ex (par s)"
    unfolding stream_inv_def by blast
  from assms(2) obtain x r where ops: "ops s = x # r" and call: "child_call cap x (s\<lparr>ops := r\<rparr>) = Some t"
    by (auto simp: child_step_def split: list.splits)
  show ?thesis
  proof (cases "\<exists>bs. x = Op_write bs")
    case True
    then obtain bs where x: "x = Op_write bs" by blast
    with call have "t = s\<lparr>ops := r, pipe := pipe s @ bs\<rparr>" by (auto split: if_splits)
    with inv ops x show ?thesis
      unfolding stream_inv_def by (intro exI [of _ "cs @ [bs]"] exI [of _ ex]) simp
  next
    case False
    then have "chunks (x # r) = chunks r" by (cases x) auto
    moreover have "pipe t = pipe s" "par t = par s" "ops t = r"
      using call False by (cases x; auto split: if_splits)+
    ultimately show ?thesis
      using inv ops unfolding stream_inv_def by (intro exI [of _ cs] exI [of _ ex]) simp
  qed
qed

lemma stream_inv_fault:
  assumes "stream_inv ws rest lost s" "kfault s t"
  shows "\<exists>lost'. stream_inv ws rest lost' t"
  using assms(2)
proof cases
  case child_fault
  with assms(1) have "stream_inv ws rest (chunks (ops s) @ lost) t"
    by (auto simp: stream_inv_def)
  then show ?thesis ..
next
  case parent_fault
  moreover have "par_inv ws rest ex (p\<lparr>p_pc := P_failed\<rparr>)" if "par_inv ws rest ex p" for ex p
    using that by (auto simp: par_inv_def)
  ultimately have "stream_inv ws rest lost t"
    using assms(1) by (fastforce simp: stream_inv_def)
  then show ?thesis ..
qed

text \<open>What every state of the invariant shows: no undefined behaviour in the receiver, and only
  whole words printed, in the order of the file.\<close>

lemma stream_inv_out:
  assumes "stream_inv ws rest lost s"
  shows "p_pc (par s) \<noteq> P_undefined \<and> (\<exists>dn. ws = dn @ rest \<and> p_out (par s) = map word_line dn)"
  using assms by (fastforce simp: stream_inv_def par_inv_def)

section \<open>End of file on the pipe\<close>

text \<open>A read would meet the end of the file: the pipe is empty and no writer is left.\<close>

definition at_eof :: "sys \<Rightarrow> bool" where
  "at_eof s \<longleftrightarrow> pipe s = [] \<and> \<not> writer_open s \<and> p_pc (par s) \<in> {P_length, P_word}"

definition open_inv :: "sys \<Rightarrow> bool" where
  "open_inv s \<longleftrightarrow> (chunks (ops s) \<noteq> [] \<longrightarrow> writer_open s)
     \<and> (\<forall>a b. ops s = a @ Op_close # b \<longrightarrow> chunks b = [])"

lemma open_inv_child: "open_inv s \<Longrightarrow> child_step cap s = Some t \<Longrightarrow> open_inv t"
  unfolding open_inv_def child_step_def
  by (cases "ops s"; cases "hd (ops s)") (fastforce simp: Cons_eq_append_conv split: if_splits)+

lemma open_inv_start:
  assumes "calls = pre @ [Op_fclose, Op_close]" "Op_close \<notin> set pre"
  shows "open_inv (start_sys calls sp sc pc len0 word0)"
proof -
  have "chunks b = []" if "calls = a @ Op_close # b" for a b
    using that assms by (auto simp: append_eq_append_conv2 Cons_eq_append_conv append_eq_Cons_conv)
  then show ?thesis by (simp add: open_inv_def start_sys_def)
qed

lemma not_at_eof:
  assumes "stream_inv ws rest [] s" "open_inv s"
  shows "\<not> at_eof s"
proof
  assume eof: "at_eof s"
  from assms(1) obtain cs ex where inv: "pipe s = concat cs" "[] \<notin> set ex"
    "cs @ chunks (ops s) @ [] = ex" "par_inv ws rest ex (par s)"
    unfolding stream_inv_def by blast
  from eof assms(2) have "chunks (ops s) = []" by (auto simp: at_eof_def open_inv_def)
  with inv eof have "ex = []" by (cases cs) (auto simp: at_eof_def)
  with inv(4) eof show False by (auto simp: at_eof_def par_inv_def frame_chunks_def)
qed

section \<open>Parts the senders and receivers share\<close>

text \<open>The line \<^verbatim>\<open>send_word\<close> prints.\<close>

definition send_word_text :: "char list option \<Rightarrow> uint8 \<Rightarrow> string" where
  "send_word_text word n =
     (case word of
        None \<Rightarrow> ''Child: sending word of length 0'' @ [NL]
      | Some w \<Rightarrow> ''Child: sending word of length '' @ dec_nat (unat n) @ '': '' @ c_str w @ [NL])"

text \<open>Bytes stored into the array at an offset.\<close>

definition overwrite :: "char list \<Rightarrow> nat \<Rightarrow> string \<Rightarrow> char list" where
  "overwrite buf off bs = take off buf @ bs @ drop (off + length bs) buf"

lemma length_overwrite [simp]:
  "off + length bs \<le> length buf \<Longrightarrow> length (overwrite buf off bs) = length buf"
  by (simp add: overwrite_def)

lemma take_overwrite:
  "off + length bs \<le> length buf \<Longrightarrow> take (off + length bs) (overwrite buf off bs) = take off buf @ bs"
  by (simp add: overwrite_def)

lemma par_inv_length_step:
  assumes "par_inv ws rest ex p" "p_pc p = P_length" "fits ws"
  shows "\<exists>c ex'. ex = [c] # ex' \<and> par_inv ws rest ex' (p\<lparr>p_length := u8_of_byte c, p_off := 0,
    p_pc := (if u8_of_byte c = 0 then P_close else P_word)\<rparr>)"
proof (cases rest)
  case Nil
  with assms show ?thesis by (auto simp: par_inv_def frame_chunks_def)
next
  case (Cons w rest')
  with assms have w: "w \<noteq> []" "length w < MAX_WORD_LENGTH" by (auto simp: par_inv_def)
  then have "(word_of_nat (length w) :: uint8) \<noteq> 0"
    using unat_length_fits [OF w(2)] by (metis length_0_conv unat_0)
  with Cons assms w show ?thesis
    by (intro exI [of _ "byte_of_u8 (word_of_nat (length w))"]) (auto simp: par_inv_def frame_chunks_def)
qed

lemma word_line_array:
  assumes "take (length w) buf = w" "length w < length buf"
  shows "parent_line (word_of_nat (length w)) (buf[length w := NUL]) = word_line w"
proof -
  have "buf[length w := NUL] = w @ NUL # drop (Suc (length w)) buf"
    using assms by (simp add: upd_conv_take_nth_drop)
  then show ?thesis by (simp add: word_line_def parent_line_def c_str_def takeWhile_tail)
qed

lemma par_inv_print_step:
  assumes "par_inv ws rest ex p" "p_pc p = P_print" "fits ws" "pc' = P_post \<or> pc' = P_length"
  defines "word \<equiv> (p_word p)[unat (p_length p) := NUL]"
  shows "unat (p_length p) < length (p_word p) \<and>
    (\<exists>w rest'. rest = w # rest' \<and> par_inv ws rest' ex
      (p\<lparr>p_word := word, p_out := p_out p @ [parent_line (p_length p) word], p_pc := pc'\<rparr>))"
proof -
  from assms obtain w rest' dn where w: "rest = w # rest'" "p_length p = word_of_nat (length w)"
    "take (length w) (p_word p) = w" "ws = dn @ rest" "length (p_word p) = MAX_WORD_LENGTH"
    "p_out p = map word_line dn" "ex = concat (map frame_chunks (rest' @ [[]]))"
    by (auto simp: par_inv_def)
  with assms(3) have len: "length w < MAX_WORD_LENGTH" by simp
  then have "parent_line (p_length p) word = word_line w"
    using w by (simp add: word_def unat_length_fits word_line_array)
  with w len assms(4) show ?thesis
    by (auto simp: par_inv_def word_def unat_length_fits intro!: exI [of _ "dn @ [w]"])
qed

lemma concat_head:
  "concat cs = b # r \<Longrightarrow> [] \<notin> set (cs @ es) \<Longrightarrow> \<exists>c cs'. cs = (b # c) # cs' \<and> r = c @ concat cs'"
  by (cases cs; cases "hd cs") auto

lemma stream_invE:
  assumes "stream_inv ws rest lost s"
  obtains cs ex where "pipe s = concat cs" "[] \<notin> set cs" "[] \<notin> set ex"
    "ex = cs @ chunks (ops s) @ lost" "par_inv ws rest ex (par s)"
  using assms unfolding stream_inv_def by auto

lemma stream_invI:
  assumes "pipe s = concat cs" "[] \<notin> set (cs @ chunks (ops s) @ lost)"
    "par_inv ws rest (cs @ chunks (ops s) @ lost) (par s)"
  shows "stream_inv ws rest lost s"
  using assms unfolding stream_inv_def by blast

lemma fits_rest: "par_inv ws rest ex p \<Longrightarrow> fits ws \<Longrightarrow> fits rest"
  by (auto simp: par_inv_def)

lemma reader_length_step:
  assumes inv: "stream_inv ws rest lost s" and pc: "p_pc (par s) = P_length" and fit: "fits ws"
    and pipe: "pipe s = b # r"
  defines "p \<equiv> par s"
  shows "stream_inv ws rest lost (s\<lparr>pipe := r, par := p\<lparr>p_length := u8_of_byte b, p_off := 0,
    p_pc := (if u8_of_byte b = 0 then P_close else P_word)\<rparr>\<rparr>)"
proof -
  from inv obtain cs ex where st: "pipe s = concat cs" "[] \<notin> set cs" "[] \<notin> set ex"
    "ex = cs @ chunks (ops s) @ lost" "par_inv ws rest ex p"
    unfolding p_def by (rule stream_invE)
  from par_inv_length_step [OF st(5)] pc fit obtain c ex' where c: "ex = [c] # ex'"
    "par_inv ws rest ex' (p\<lparr>p_length := u8_of_byte c, p_off := 0,
       p_pc := (if u8_of_byte c = 0 then P_close else P_word)\<rparr>)"
    unfolding p_def by blast
  from st pipe c(1) obtain cs' where cs: "cs = [c] # cs'" by (cases cs) auto
  with st c pipe show ?thesis by (intro stream_invI [where cs = cs']) auto
qed

lemma reader_print_step:
  assumes inv: "stream_inv ws rest lost s" and pc: "p_pc (par s) = P_print" and fit: "fits ws"
    and pc2: "pc' = P_post \<or> pc' = P_length"
  defines "p \<equiv> par s"
  defines "word \<equiv> (p_word p)[unat (p_length p) := NUL]"
  shows "unat (p_length p) < length (p_word p)
    \<and> (\<exists>rest'. stream_inv ws rest' lost
      (s\<lparr>par := p\<lparr>p_word := word, p_out := p_out p @ [parent_line (p_length p) word], p_pc := pc'\<rparr>\<rparr>))"
proof -
  from inv obtain cs ex where st: "pipe s = concat cs" "[] \<notin> set cs" "[] \<notin> set ex"
    "ex = cs @ chunks (ops s) @ lost" "par_inv ws rest ex p"
    unfolding p_def by (rule stream_invE)
  from par_inv_print_step [OF st(5) _ fit pc2] pc
  have "unat (p_length p) < length (p_word p) \<and> (\<exists>w rest'. rest = w # rest' \<and> par_inv ws rest' ex
      (p\<lparr>p_word := word, p_out := p_out p @ [parent_line (p_length p) word], p_pc := pc'\<rparr>))"
    by (simp add: p_def word_def)
  with st show ?thesis unfolding stream_inv_def by fastforce
qed

text \<open>Every word is short enough for \<^verbatim>\<open>word[MAX_WORD_LENGTH]\<close> and its NUL.\<close>

definition short_words :: "string \<Rightarrow> bool" where
  "short_words file \<longleftrightarrow> (\<forall>w \<in> set (words_of file). length w < MAX_WORD_LENGTH)"

lemma fits_words_of: "fits (words_of file) \<longleftrightarrow> short_words file"
  by (auto simp: fits_def short_words_def dest: words_from_nonempty)

lemma short_words_send:
  assumes "short_words file" "length word0 = MAX_WORD_LENGTH"
  shows "snd (send_words send closing (length word0) (words_of file)) = Running"
  using assms by (auto simp: short_words_def send_words_status intro: less_imp_le)

lemma chunks_concat_map:
  "\<forall>w \<in> set ws. chunks (f w) = g w \<Longrightarrow> chunks (concat (map f ws)) = concat (map g ws)"
  by (induction ws) auto

lemma frame_chunk_length: "length w < MAX_WORD_LENGTH \<Longrightarrow> c \<in> set (frame_chunks w) \<Longrightarrow> length c < MAX_WORD_LENGTH"
  by (auto simp: frame_chunks_def MAX_WORD_LENGTH_def split: if_splits)

lemma par_inv_chunk_length:
  assumes "par_inv ws rest ex p" "fits ws" "p_pc p \<noteq> P_failed" "c \<in> set ex"
  shows "length c < MAX_WORD_LENGTH"
proof -
  have "\<forall>w \<in> set rest. length w < MAX_WORD_LENGTH"
    using fits_rest [OF assms(1,2)] by (auto simp: fits_def)
  moreover from this have "\<forall>w \<in> set (rest @ [[]]). \<forall>c \<in> set (frame_chunks w). length c < MAX_WORD_LENGTH"
    using frame_chunk_length frame_chunk_length [of "[]"] by (auto simp: MAX_WORD_LENGTH_def)
  ultimately show ?thesis
    using assms(1,3,4) by (auto simp: par_inv_def less_imp_diff_less split: ppc.splits)
qed

lemma par_inv_rest:
  assumes "par_inv ws rest ex p"
  shows "rest = drop (length (p_out p)) ws" "length (p_out p) + length rest = length ws"
    "p_out p = map word_line (take (length (p_out p)) ws)"
  using assms by (auto simp: par_inv_def)

lemma pipe_empty_chunks:
  "stream_inv ws rest [] s \<Longrightarrow> pipe s = [] \<Longrightarrow> par_inv ws rest (chunks (ops s)) (par s)"
  by (erule stream_invE) (metis append_Nil append_Nil2 concat_eq_Nil_conv last_in_set)

section \<open>The contract of a receiver\<close>

text \<open>\<open>ok\<close> is what the receiver knows of its own variables beyond \<open>par_inv\<close>.\<close>

locale pipe_reader =
  fixes rcv :: "nat \<Rightarrow> sys \<Rightarrow> sys option"
    and ok :: "parent \<Rightarrow> bool"
  assumes rcv_frame: "rcv k s = Some t \<Longrightarrow> ops t = ops s \<and> writer_open t = writer_open s"
    and rcv_inv: "fits ws \<Longrightarrow> stream_inv ws rest lost s \<Longrightarrow> ok (par s) \<Longrightarrow> \<not> at_eof s
      \<Longrightarrow> rcv k s = Some t \<Longrightarrow> (\<exists>rest'. stream_inv ws rest' lost t) \<and> ok (par t)"

text \<open>A receiver that never takes the end of the file for data.\<close>

locale robust_reader = pipe_reader +
  assumes rcv_eof: "at_eof s \<Longrightarrow> rcv k s = Some t \<Longrightarrow> t = s"
    and ok_fault: "ok p \<Longrightarrow> ok (p\<lparr>p_pc := P_failed\<rparr>)"

lemma child_step_frame: "child_step cap s = Some t \<Longrightarrow> par t = par s \<and> ops s = hd (ops s) # ops t"
  unfolding child_step_def by (cases "ops s"; cases "hd (ops s)") (auto split: if_splits)

context pipe_reader
begin

lemma reach_inv:
  assumes "kreach rcv cap s0 s" "fits ws" "stream_inv ws ws [] s0" "open_inv s0" "ok (par s0)"
  shows "(\<exists>rest. stream_inv ws rest [] s) \<and> open_inv s \<and> ok (par s)"
  using assms(1)
proof (induction rule: kreach.induct)
  case kreach_start
  then show ?case using assms by blast
next
  case (kreach_step s t)
  from kreach_step.IH obtain rest where inv: "stream_inv ws rest [] s" and op: "open_inv s" "ok (par s)"
    by blast
  from kreach_step.hyps(2) show ?case
  proof cases
    case by_child
    then show ?thesis using inv op stream_inv_child open_inv_child child_step_frame by metis
  next
    case (by_parent k)
    then have "open_inv t" using rcv_frame op by (auto simp: open_inv_def)
    then show ?thesis using rcv_inv [OF assms(2) inv op(2) not_at_eof [OF inv op(1)] by_parent] by blast
  qed
qed

lemma reach_ops: "kreach rcv cap s0 s \<Longrightarrow> set (ops s) \<subseteq> set (ops s0)"
proof (induction rule: kreach.induct)
  case (kreach_step s t)
  from kreach_step.hyps(2) have "set (ops t) \<subseteq> set (ops s)"
  proof cases
    case by_child
    then show ?thesis using child_step_frame by (metis set_subset_Cons)
  next
    case (by_parent k)
    then show ?thesis using rcv_frame by simp
  qed
  with kreach_step.IH show ?case by blast
qed simp

lemma reach_printed:
  assumes "kreach rcv cap s0 s" "fits ws" "stream_inv ws ws [] s0" "open_inv s0" "ok (par s0)"
  shows "p_pc (par s) \<noteq> P_undefined \<and> (\<exists>dn rest. ws = dn @ rest \<and> p_out (par s) = map word_line dn)"
  using reach_inv [OF assms] stream_inv_out by blast

end

context robust_reader
begin

lemma faulty_inv:
  assumes "kreach_faulty rcv cap s0 s" "fits ws" "stream_inv ws ws [] s0" "ok (par s0)"
  shows "(\<exists>rest lost. stream_inv ws rest lost s) \<and> ok (par s)"
  using assms(1)
proof (induction rule: kreach_faulty.induct)
  case kf_start
  then show ?case using assms by blast
next
  case (kf_step s t)
  from kf_step.IH obtain rest lost where inv: "stream_inv ws rest lost s" and op: "ok (par s)" by blast
  from kf_step.hyps(2) show ?case
  proof cases
    case by_child
    then show ?thesis using inv op stream_inv_child child_step_frame by metis
  next
    case (by_parent k)
    then show ?thesis
      using inv op rcv_eof rcv_inv [OF assms(2) inv] by (cases "at_eof s") blast+
  qed
next
  case (kf_fault s t)
  then have "ok (par t)" by (auto elim!: kfault.cases intro: ok_fault)
  then show ?case using kf_fault stream_inv_fault by blast
qed

lemma faulty_printed:
  assumes "kreach_faulty rcv cap s0 s" "fits ws" "stream_inv ws ws [] s0" "ok (par s0)"
  shows "p_pc (par s) \<noteq> P_undefined \<and> (\<exists>dn rest. ws = dn @ rest \<and> p_out (par s) = map word_line dn)"
  using faulty_inv [OF assms] stream_inv_out by blast

end

end
