(* ===== verification/Turn_Taking.thy ===== *)
theory Turn_Taking
  imports Pipe_Kernel "HOL-Library.Sublist"
begin

text \<open>
  Two processes that pass words through a pipe and take turns through two semaphores, the
  scheme of \<^verbatim>\<open>src/pipe/reliable\<close> and \<^verbatim>\<open>src/pipe/synchronized\<close>: the sender
  posts \<^verbatim>\<open>sem_parent\<close> behind every message and waits on \<^verbatim>\<open>sem_child\<close>, the
  receiver the other way round. The initial values \<open>sp\<close> and \<open>sc\<close> of the semaphores are
  parameters. The locale \<open>turn_sender\<close> is the contract of a \<^verbatim>\<open>send_word\<close>, the
  locale \<open>turn_reader\<close> that of a receiver; from the second the development shows that the
  processes never block each other for good, that every run ends, and how far the sender can
  run ahead.
\<close>

unbundle bit_operations_syntax

section \<open>sem\_open\<close>

text \<open>
  \<^verbatim>\<open>sem_open(name, oflag, ...)\<close> with \<^verbatim>\<open>O_CREAT\<close> in \<^verbatim>\<open>oflag\<close>
  takes two more arguments from the variable part of its list, the mode and the initial value;
  a further argument is ignored. The flag values are those of Linux.
\<close>

definition O_CREAT :: uint32 where "O_CREAT = 0x40"

definition S_IRUSR :: uint32 where "S_IRUSR = 0x100"

definition S_IWUSR :: uint32 where "S_IWUSR = 0x80"

definition S_IRGRP :: uint32 where "S_IRGRP = 0x20"

definition S_IROTH :: uint32 where "S_IROTH = 0x04"

definition sem_open_value :: "uint32 list \<Rightarrow> nat" where
  "sem_open_value va = unat (va ! 1)"

section \<open>The calls of the sender\<close>

text \<open>One message: the line printed, the length byte, the word, and the turn.\<close>

definition turn_message :: "string \<Rightarrow> string \<Rightarrow> op list" where
  "turn_message line w =
     [Op_print line, Op_write [byte_of_u8 (word_of_nat (length w))]]
     @ (if w = [] then [] else [Op_write w]) @ [Op_post, Op_wait]"

definition message_calls :: "string \<Rightarrow> op list" where
  "message_calls w =
     turn_message (if w = [] then send_word_text None 0
                   else send_word_text (Some (w @ [NUL])) (word_of_nat (length w))) w"

definition turn_calls :: "string list \<Rightarrow> op list" where
  "turn_calls ms = concat (map message_calls ms) @ [Op_fclose, Op_close]"

lemma turn_message_chunks: "chunks (turn_message l w) = frame_chunks w"
  by (simp add: turn_message_def frame_chunks_def)

lemma message_calls_chunks: "chunks (message_calls w) = frame_chunks w"
  by (simp add: message_calls_def turn_message_chunks)

lemma send_word_text_prefix: "length w = unat n \<Longrightarrow>
    send_word_text (Some (w @ NUL # r)) n = send_word_text (Some (w @ [NUL])) n"
  by (simp add: send_word_text_def c_str_def takeWhile_tail)

locale turn_sender =
  fixes send :: "char list option \<Rightarrow> uint8 \<Rightarrow> op list"
  assumes send_message: "length w = unat n
      \<Longrightarrow> send (Some (w @ NUL # r)) n = turn_message (send_word_text (Some (w @ [NUL])) n) w"
    and send_stop: "send None 0 = turn_message (send_word_text None 0) []"

sublocale turn_sender \<subseteq> word_sender send
  by unfold_locales
    (simp_all add: send_message send_stop turn_message_chunks, simp add: frame_chunks_def frame_def)

context turn_sender
begin

lemma send_words_turn:
  "fits ws \<Longrightarrow> fst (send_words send [Op_fclose, Op_close] MAX_WORD_LENGTH ws) = turn_calls (ws @ [[]])"
proof (induction ws)
  case (Cons w ws)
  then have w: "w \<noteq> []" "length w < MAX_WORD_LENGTH" by simp_all
  have "send (Some (w @ [NUL])) (word_of_nat (length w)) = message_calls w"
    using w send_message [of w "word_of_nat (length w)" "[]"]
    by (simp add: message_calls_def unat_length_fits)
  with Cons w show ?case by (auto simp: turn_calls_def split: prod.splits)
qed (simp add: turn_calls_def message_calls_def send_stop)

lemma child_turn_calls:
  assumes "short_words file" "length cword0 = MAX_WORD_LENGTH"
  shows "child_calls (run_child send [Op_fclose, Op_close] cword0 file) = turn_calls (words_of file @ [[]])"
  using run_child_calls [OF _ short_words_send [OF assms]] assms send_words_turn [of "words_of file"]
  by (simp add: fits_words_of)

end

text \<open>The start state of such a program is in the invariants.\<close>

lemma turn_start_inv:
  fixes sp sc :: nat and len :: uint8
  assumes "short_words file" "length pword0 = MAX_WORD_LENGTH"
  defines "s0 \<equiv> start_sys (turn_calls (words_of file @ [[]])) sp sc P_wait len pword0"
  shows "stream_inv (words_of file) (words_of file) [] s0" and "open_inv s0"
proof -
  let ?ws = "words_of file"
  have fit: "fits ?ws" using assms(1) by (simp add: fits_words_of)
  have "chunks (concat (map message_calls (?ws @ [[]]))) = concat (map frame_chunks (?ws @ [[]]))"
    by (intro chunks_concat_map) (auto simp: message_calls_chunks)
  then show "stream_inv ?ws ?ws [] s0"
    unfolding s0_def turn_calls_def by (intro stream_inv_start) (use fit assms(2) in auto)
  have "Op_close \<notin> set (concat (map message_calls (?ws @ [[]])))"
    by (auto simp: message_calls_def turn_message_def)
  then show "open_inv s0" unfolding s0_def turn_calls_def by (intro open_inv_start [OF refl])
qed

section \<open>Where the child is in its program\<close>

definition posts :: "op list \<Rightarrow> nat" where
  "posts xs = count_list xs Op_post"

definition waits :: "op list \<Rightarrow> nat" where
  "waits xs = count_list xs Op_wait"

text \<open>A state of the child: with \<open>k\<close> posts to go it is in the last \<open>k\<close> messages, and inside the
  first of these until that post.\<close>

definition child_at :: "string list \<Rightarrow> op list \<Rightarrow> bool" where
  "child_at ms o' \<longleftrightarrow> posts o' \<le> length ms
     \<and> waits o' = posts o' + (if o' \<noteq> [] \<and> hd o' = Op_wait then 1 else 0)
     \<and> (\<exists>pre. pre @ chunks o' = concat (map frame_chunks (drop (length ms - posts o') ms)))
     \<and> (\<forall>bs r. o' = Op_write bs # r \<longrightarrow> (\<exists>m ms' pre post. drop (length ms - posts o') ms = m # ms'
          \<and> pre @ [bs] @ post = frame_chunks m \<and> chunks r = post @ concat (map frame_chunks ms')))"

lemma count_list_append_op: "count_list (xs @ ys) x = count_list xs x + count_list ys x"
  by (induction xs) auto

lemma suffix_message:
  assumes "suffix o' (message_calls m)" "o' \<noteq> []"
  shows "child_at [m] o'"
  using assms
  by (cases "m = []")
    (auto simp: message_calls_def turn_message_def suffix_Cons child_at_def posts_def waits_def frame_chunks_def)

lemma child_at_append:
  assumes "child_at [m] o'" "o' \<noteq> []" "posts full = length ms" "waits full = length ms"
    "chunks full = concat (map frame_chunks ms)"
  shows "child_at (m # ms) (o' @ full)"
proof (cases "posts o'")
  case 0
  with assms(1) have "chunks o' = []" by (auto simp: child_at_def)
  with assms(2) have "o' @ full \<noteq> Op_write bs # r" for bs r by (cases o') auto
  with 0 assms \<open>chunks o' = []\<close> show ?thesis
    by (auto simp: child_at_def posts_def waits_def count_list_append_op)
next
  case (Suc n)
  with assms have "posts o' = 1" by (simp add: child_at_def)
  with assms show ?thesis
    by (fastforce simp: child_at_def posts_def waits_def count_list_append_op append_eq_Cons_conv Cons_eq_append_conv)
qed

lemma turn_calls_facts:
  "posts (turn_calls ms) = length ms" "waits (turn_calls ms) = length ms"
  "chunks (turn_calls ms) = concat (map frame_chunks ms)"
proof -
  have "posts (message_calls m) = 1 \<and> waits (message_calls m) = 1" for m
    by (simp add: message_calls_def turn_message_def posts_def waits_def)
  then show "posts (turn_calls ms) = length ms" "waits (turn_calls ms) = length ms"
    unfolding turn_calls_def posts_def waits_def
    by (induction ms) (auto simp: count_list_append_op)
  show "chunks (turn_calls ms) = concat (map frame_chunks ms)"
    by (simp add: turn_calls_def chunks_concat_map message_calls_chunks)
qed

lemma child_at_suffix: "suffix o' (turn_calls ms) \<Longrightarrow> child_at ms o'"
proof (induction ms)
  case Nil
  then show ?case
    by (auto simp: turn_calls_def suffix_Cons child_at_def posts_def waits_def)
next
  case (Cons m ms)
  have full: "turn_calls (m # ms) = message_calls m @ turn_calls ms"
    by (simp add: turn_calls_def)
  from Cons.prems consider
      (later) "suffix o' (turn_calls ms)"
    | (here) xs where "o' = xs @ turn_calls ms" "suffix xs (message_calls m)" "xs \<noteq> []"
    unfolding full suffix_append by (metis append_Nil suffix_order.refl)
  then show ?case
  proof cases
    case later
    with Cons.IH have at: "child_at ms o'" by simp
    then have "Suc (length ms) - posts o' = Suc (length ms - posts o')" by (simp add: child_at_def Suc_diff_le)
    with at show ?thesis by (auto simp: child_at_def)
  next
    case here
    then show ?thesis using child_at_append [OF suffix_message] turn_calls_facts by auto
  qed
qed

section \<open>The semaphores\<close>

text \<open>Lines printed, waits passed and posts made by the parent, from its control point.\<close>

definition parent_waits :: "sys \<Rightarrow> nat" where
  "parent_waits s = length (p_out (par s))
     + (if p_pc (par s) \<in> {P_length, P_word, P_print, P_close, P_done} then 1 else 0)"

definition parent_posts :: "sys \<Rightarrow> nat" where
  "parent_posts s = length (p_out (par s)) - (if p_pc (par s) = P_post then 1 else 0)"

definition turn_inv :: "nat \<Rightarrow> nat \<Rightarrow> string list \<Rightarrow> sys \<Rightarrow> bool" where
  "turn_inv sp sc ws s \<longleftrightarrow> suffix (ops s) (turn_calls (ws @ [[]])) \<and> p_pc (par s) \<noteq> P_failed
     \<and> (p_pc (par s) = P_post \<longrightarrow> p_out (par s) \<noteq> [])
     \<and> sem_parent s + parent_waits s + posts (ops s) = sp + Suc (length ws)
     \<and> sem_child s + Suc (length ws) = sc + parent_posts s + waits (ops s)"

lemma turn_inv_start:
  "turn_inv sp sc ws (start_sys (turn_calls (ws @ [[]])) sp sc P_wait len0 pword0)"
  using turn_calls_facts [of "ws @ [[]]"]
  by (simp add: turn_inv_def start_sys_def parent_waits_def parent_posts_def)

lemma turn_inv_child:
  assumes "turn_inv sp sc ws s" "child_step cap s = Some t"
  shows "turn_inv sp sc ws t"
proof -
  from assms(2) obtain x r where ops: "ops s = x # r" and call: "child_call cap x (s\<lparr>ops := r\<rparr>) = Some t"
    by (auto simp: child_step_def split: list.splits)
  have suf: "suffix r (turn_calls (ws @ [[]]))"
    using assms(1) ops by (auto simp: turn_inv_def dest: suffix_ConsD)
  have "ops t = r" and par: "par t = par s"
    using call by (cases x; auto split: if_splits)+
  moreover have "parent_waits t = parent_waits s" "parent_posts t = parent_posts s"
    using par by (simp_all add: parent_waits_def parent_posts_def)
  moreover have "sem_parent t + posts r = sem_parent s + posts (ops s)"
    using call ops by (cases x) (auto simp: posts_def split: if_splits)
  moreover have "sem_child t + waits (ops s) = sem_child s + waits r"
    using call ops by (cases x) (auto simp: waits_def split: if_splits)
  ultimately show ?thesis
    using assms(1) suf unfolding turn_inv_def by auto
qed

text \<open>Every step lowers this weight: a call of the child pays for the bytes and the permit it
  adds, a permit for one round of the parent.\<close>

fun pc_weight :: "ppc \<Rightarrow> nat" where
  "pc_weight P_length = 4"
| "pc_weight P_word = 3"
| "pc_weight P_print = 2"
| "pc_weight P_post = 1"
| "pc_weight P_close = 1"
| "pc_weight _ = 0"

definition weight :: "sys \<Rightarrow> nat" where
  "weight s = 300 * length (ops s) + length (pipe s) + 5 * sem_parent s + pc_weight (p_pc (par s))"

text \<open>The control points at which a receiver of such a program can be blocked.\<close>

definition parent_blocked :: "sys \<Rightarrow> bool" where
  "parent_blocked s \<longleftrightarrow> (p_pc (par s) = P_wait \<and> sem_parent s = 0)
     \<or> (p_pc (par s) \<in> {P_length, P_word} \<and> pipe s = []) \<or> p_pc (par s) = P_done"

text \<open>The state in which both processes have ended normally.\<close>

definition turn_final :: "nat \<Rightarrow> nat \<Rightarrow> string list \<Rightarrow> sys \<Rightarrow> bool" where
  "turn_final sp sc ws s \<longleftrightarrow> ops s = [] \<and> p_pc (par s) = P_done \<and> p_out (par s) = map word_line ws
     \<and> pipe s = [] \<and> sem_parent s = sp \<and> Suc (sem_child s) = sc"

section \<open>Progress\<close>

lemma drop_chunks_less:
  assumes "i < j" "j \<le> length ms"
  shows "length (concat (map frame_chunks (drop j ms))) < length (concat (map frame_chunks (drop i ms)))"
proof -
  have "drop i ms = take (j - i) (drop i ms) @ drop j ms" "take (j - i) (drop i ms) \<noteq> []"
    using assms by (metis append_take_drop_id drop_drop le_add_diff_inverse2 less_imp_le_nat, auto)
  then obtain m ms' where "drop i ms = (m # ms') @ drop j ms" by (metis list.exhaust)
  then show ?thesis by (simp add: frame_chunks_def)
qed

lemma ex_after_length:
  assumes "par_inv ws rest ex p" "p_pc p \<in> {P_length, P_word}"
  shows "length (concat (map frame_chunks (drop (Suc (length (p_out p))) (ws @ [[]])))) < length ex"
proof -
  let ?d = "length (p_out p)"
  have d: "?d \<le> length ws" "rest @ [[]] = drop ?d (ws @ [[]])"
    using par_inv_rest [OF assms(1)] by simp_all
  from assms(2) consider "p_pc p = P_length" | "p_pc p = P_word" by blast
  then show ?thesis
  proof cases
    case 1
    with assms(1) d(2) have "ex = concat (map frame_chunks (drop ?d (ws @ [[]])))"
      by (auto simp: par_inv_def)
    with d(1) drop_chunks_less [of ?d "Suc ?d" "ws @ [[]]"] show ?thesis by simp
  next
    case 2
    with assms(1) obtain w rest' x where w: "rest = w # rest'" "ex = x # concat (map frame_chunks (rest' @ [[]]))"
      by (auto simp: par_inv_def)
    have "drop (Suc ?d) (ws @ [[]]) = drop 1 (drop ?d (ws @ [[]]))" by (simp del: drop_append)
    also have "\<dots> = rest' @ [[]]" unfolding d(2) [symmetric] w(1) by simp
    finally show ?thesis by (simp add: w(2))
  qed
qed

lemma concat_drop_le:
  assumes "i \<le> j"
  shows "length (concat (concat (map frame_chunks (drop j ms))))
    \<le> length (concat (concat (map frame_chunks (drop i ms))))"
proof -
  have "drop i ms = take (j - i) (drop i ms) @ drop j ms"
    using assms by (metis append_take_drop_id drop_drop le_add_diff_inverse2)
  then have "concat (concat (map frame_chunks (drop i ms)))
      = concat (concat (map frame_chunks (take (j - i) (drop i ms))))
        @ concat (concat (map frame_chunks (drop j ms)))"
    by (metis concat_append map_append)
  then show ?thesis by simp
qed

locale turn_reader = pipe_reader +
  assumes rcv_turn: "turn_inv sp sc ws s \<Longrightarrow> rcv k s = Some t \<Longrightarrow> p_pc (par t) \<noteq> P_undefined
      \<Longrightarrow> turn_inv sp sc ws t"
    and rcv_stuck: "stream_inv ws rest [] s \<Longrightarrow> fits ws \<Longrightarrow> ok (par s) \<Longrightarrow> p_pc (par s) \<noteq> P_failed
      \<Longrightarrow> (\<And>k. rcv k s = None) \<Longrightarrow> parent_blocked s"
    and rcv_weight: "\<not> at_eof s \<Longrightarrow> rcv k s = Some t \<Longrightarrow> weight t < weight s"

text \<open>Neither a permit nor a full pipe can block the sender while the receiver is blocked too.\<close>

lemma blocked_wait:
  assumes inv: "turn_inv sp sc ws s" "stream_inv ws rest [] s" "0 < sc" "parent_blocked s"
    and at: "child_at (ws @ [[]]) (ops s)" and op: "ops s = Op_wait # r" "sem_child s = 0"
  shows False
proof -
  let ?out = "length (p_out (par s))"
  have w: "waits (ops s) = Suc (posts (ops s))" using at op(1) by (simp add: child_at_def)
  have n: "Suc (length ws) = sc + ?out + posts (ops s) + 1"
    using inv(1,4) op(2) w by (auto simp: turn_inv_def parent_posts_def parent_blocked_def)
  from inv(4) show False
    unfolding parent_blocked_def
  proof (elim disjE conjE)
    assume "p_pc (par s) = P_wait" "sem_parent s = 0"
    with inv(1,3) n show False by (simp add: turn_inv_def parent_waits_def)
  next
    assume pc: "p_pc (par s) \<in> {P_length, P_word}" and "pipe s = []"
    with inv(2) have p: "par_inv ws rest (chunks (ops s)) (par s)" by (intro pipe_empty_chunks)
    have j: "length (ws @ [[]]) - posts (ops s) = Suc (sc + ?out)" using n by simp
    from at have "\<exists>pre. pre @ chunks (ops s)
        = concat (map frame_chunks (drop (length (ws @ [[]]) - posts (ops s)) (ws @ [[]])))"
      unfolding child_at_def by blast
    then obtain pre where "pre @ chunks (ops s) = concat (map frame_chunks (drop (Suc (sc + ?out)) (ws @ [[]])))"
      unfolding j by blast
    then have "length (chunks (ops s)) \<le> length (concat (map frame_chunks (drop (Suc (sc + ?out)) (ws @ [[]]))))"
      by (metis length_append le_add2)
    also have "\<dots> < length (concat (map frame_chunks (drop (Suc ?out) (ws @ [[]]))))"
      by (rule drop_chunks_less) (use n inv(3) in auto)
    also have "\<dots> < length (chunks (ops s))" by (rule ex_after_length [OF p pc])
    finally show False .
  next
    assume "p_pc (par s) = P_done"
    then show False using inv(2,3) n by (auto simp: stream_inv_def par_inv_def)
  qed
qed

lemma blocked_write:
  assumes inv: "turn_inv sp sc ws s" "stream_inv ws rest [] s" "fits ws" "MAX_WORD_LENGTH \<le> cap"
      "parent_blocked s"
    and at: "child_at (ws @ [[]]) (ops s)" and op: "ops s = Op_write bs # r" "cap < length (pipe s) + length bs"
  shows False
proof -
  from inv(2) obtain cs ex where st: "pipe s = concat cs" "[] \<notin> set cs" "[] \<notin> set ex"
    "ex = cs @ chunks (ops s) @ []" "par_inv ws rest ex (par s)" by (rule stream_invE)
  have bs: "bs \<in> set ex" using st(4) op(1) by simp
  have short: "length bs < MAX_WORD_LENGTH"
    using par_inv_chunk_length [OF st(5) inv(3) _ bs] inv(1) by (simp add: turn_inv_def)
  consider (empty) "pipe s = []" | (ended) "p_pc (par s) = P_done"
    | (waiting) "p_pc (par s) = P_wait" "sem_parent s = 0"
    using inv(5) by (auto simp: parent_blocked_def)
  then show False
  proof cases
    case empty
    with op(2) short inv(4) show False by simp
  next
    case ended
    with st(5) bs show False by (auto simp: par_inv_def)
  next
    case waiting
    let ?d = "length (p_out (par s))"
    let ?j = "length (ws @ [[]]) - posts (ops s)"
    have n: "?j \<le> ?d" using inv(1) waiting by (auto simp: turn_inv_def parent_waits_def)
    from at op(1) have "\<exists>m ms' pre post. drop ?j (ws @ [[]]) = m # ms'
        \<and> pre @ [bs] @ post = frame_chunks m \<and> chunks r = post @ concat (map frame_chunks ms')"
      unfolding child_at_def by blast
    then obtain m ms' pre post where m: "drop ?j (ws @ [[]]) = m # ms'"
      "pre @ [bs] @ post = frame_chunks m" "chunks r = post @ concat (map frame_chunks ms')"
      by blast
    have "rest @ [[]] = drop ?d (ws @ [[]])" using par_inv_rest [OF st(5)] by simp
    moreover have "ex = concat (map frame_chunks (rest @ [[]]))" using st(5) waiting by (auto simp: par_inv_def)
    ultimately have "length (concat ex) \<le> length (concat (concat (map frame_chunks (m # ms'))))"
      using concat_drop_le [OF n, of "ws @ [[]]"] unfolding m(1) by simp
    moreover have "length (concat ex) = length (pipe s) + length bs + length (concat (chunks r))"
      using st(1,4) op(1) by simp
    moreover have "concat (frame_chunks m) = concat pre @ bs @ concat post"
      using m(2) by (metis append_Nil2 concat.simps(1,2) concat_append)
    ultimately have le: "length (pipe s) + length bs \<le> length (frame m)"
      using m(3) by (simp add: concat_frame_chunks [symmetric] del: concat_frame_chunks)
    have "m \<in> set (ws @ [[]])" using m(1) by (metis in_set_dropD list.set_intros(1))
    then have "length (frame m) \<le> MAX_WORD_LENGTH"
      using inv(3) by (auto simp: fits_def frame_def MAX_WORD_LENGTH_def)
    with le show False using op(2) inv(4) by simp
  qed
qed

lemma blocked_final:
  assumes inv: "turn_inv sp sc ws s" "stream_inv ws rest [] s" "parent_blocked s" and ops: "ops s = []"
  shows "turn_final sp sc ws s"
proof -
  let ?d = "length (p_out (par s))"
  from inv(2) obtain cs ex where st: "pipe s = concat cs" "[] \<notin> set cs" "[] \<notin> set ex"
    "ex = cs @ chunks (ops s) @ []" "par_inv ws rest ex (par s)" by (rule stream_invE)
  have zero: "posts (ops s) = 0" "waits (ops s) = 0" using ops by (simp_all add: posts_def waits_def)
  have le: "?d \<le> length ws" using par_inv_rest(2) [OF st(5)] by simp
  have dn: "p_pc (par s) = P_done"
  proof (rule ccontr)
    assume "p_pc (par s) \<noteq> P_done"
    with inv(3) consider "p_pc (par s) = P_wait" "sem_parent s = 0"
      | "p_pc (par s) \<in> {P_length, P_word}" "pipe s = []" unfolding parent_blocked_def by argo
    then show False
    proof cases
      case 1
      with inv(1) zero le show False by (simp add: turn_inv_def parent_waits_def)
    next
      case 2
      with inv(2) have "par_inv ws rest (chunks (ops s)) (par s)" by (intro pipe_empty_chunks)
      with 2 ops show False by (auto simp: par_inv_def frame_chunks_def)
    qed
  qed
  then have d: "?d = length ws" using st(5) by (auto simp: par_inv_def)
  then have "p_out (par s) = map word_line ws" using par_inv_rest(3) [OF st(5)] by simp
  moreover have "pipe s = []" using st dn ops by (auto simp: par_inv_def)
  moreover have "sem_parent s = sp \<and> Suc (sem_child s) = sc"
    using inv(1) zero d dn by (simp add: turn_inv_def parent_waits_def parent_posts_def)
  ultimately show ?thesis using ops dn by (simp add: turn_final_def)
qed

lemma weight_child:
  assumes "stream_inv ws rest [] s" "fits ws" "p_pc (par s) \<noteq> P_failed" "child_step cap s = Some t"
  shows "weight t < weight s"
proof -
  from assms(4) obtain x r where ops: "ops s = x # r" and call: "child_call cap x (s\<lparr>ops := r\<rparr>) = Some t"
    by (auto simp: child_step_def split: list.splits)
  have "length bs < MAX_WORD_LENGTH" if "x = Op_write bs" for bs
  proof -
    from assms(1) obtain cs ex where st: "ex = cs @ chunks (ops s) @ []" "par_inv ws rest ex (par s)"
      by (rule stream_invE)
    then show ?thesis using par_inv_chunk_length [OF st(2) assms(2,3)] ops that by simp
  qed
  with ops call show ?thesis
    by (cases x) (auto simp: weight_def MAX_WORD_LENGTH_def split: if_splits)
qed

section \<open>What the contract gives\<close>

context turn_reader
begin

lemma turn_reach:
  assumes "kreach rcv cap s0 s" "fits ws" "stream_inv ws ws [] s0" "open_inv s0" "ok (par s0)"
    and "turn_inv sp sc ws s0"
  shows "turn_inv sp sc ws s"
  using assms(1)
proof (induction rule: kreach.induct)
  case kreach_start
  show ?case by (rule assms(6))
next
  case (kreach_step s t)
  have "kreach rcv cap s0 t" using kreach_step.hyps by (rule kreach.kreach_step)
  then have "p_pc (par t) \<noteq> P_undefined" using reach_printed assms by blast
  with kreach_step show ?case by (auto simp: kstep_iff intro: turn_inv_child rcv_turn)
qed

lemma turn_progress:
  assumes inv: "turn_inv sp sc ws s" "stream_inv ws rest [] s" "ok (par s)" "fits ws"
    and par: "0 < sc" "MAX_WORD_LENGTH \<le> cap"
  shows "turn_final sp sc ws s \<or> (\<exists>t. kstep rcv cap s t)"
proof (rule disjCI)
  assume stuck: "\<nexists>t. kstep rcv cap s t"
  then have none: "rcv k s = None" for k using kstep.by_parent by (cases "rcv k s") blast+
  from stuck have child: "child_step cap s = None"
    using kstep.by_child by (cases "child_step cap s") blast+
  have blk: "parent_blocked s" using rcv_stuck [OF inv(2,4,3) _ none] inv(1) by (simp add: turn_inv_def)
  have at: "child_at (ws @ [[]]) (ops s)" using inv(1) by (intro child_at_suffix) (simp add: turn_inv_def)
  have "ops s = []"
  proof (cases "ops s")
    case (Cons x r)
    with child have "child_call cap x (s\<lparr>ops := r\<rparr>) = None" by (simp add: child_step_def)
    with Cons show ?thesis
      using blocked_wait [OF inv(1,2) par(1) blk at] blocked_write [OF inv(1,2,4) par(2) blk at]
      by (cases x) (auto split: if_splits)
  qed
  then show "turn_final sp sc ws s" by (rule blocked_final [OF inv(1,2) blk])
qed

lemma turn_decreases:
  assumes "turn_inv sp sc ws s" "stream_inv ws rest [] s" "open_inv s" "fits ws" "kstep rcv cap s t"
  shows "weight t < weight s"
  using assms not_at_eof [OF assms(2,3)]
  by (auto simp: kstep_iff turn_inv_def intro: weight_child rcv_weight)

end

text \<open>How far the sender is ahead: the permits of \<^verbatim>\<open>sem_child\<close> and one message more.\<close>

lemma turn_ahead:
  assumes "turn_inv sp sc ws s"
  shows "Suc (length ws) - posts (ops s) \<le> length (p_out (par s)) + sc + 1"
proof -
  have "child_at (ws @ [[]]) (ops s)" using assms by (intro child_at_suffix) (simp add: turn_inv_def)
  with assms show ?thesis by (auto simp: turn_inv_def child_at_def parent_posts_def split: if_splits)
qed

end
