(* ===== verification/Pipe_Reliable.thy ===== *)
theory Pipe_Reliable
  imports Turn_Taking
begin

text \<open>
  \<^verbatim>\<open>src/pipe/reliable/main.c\<close>: the two processes take turns through the semaphores
  \<^verbatim>\<open>/sem_parent\<close> (initially 0) and \<^verbatim>\<open>/sem_child\<close> (initially 1), and every
  transfer is completed by \<^verbatim>\<open>write_fully\<close> and \<^verbatim>\<open>read_fully\<close>. The theory
  holds those two loops against an arbitrary sequence of system call results, the two processes,
  and the proofs that the words arrive in order, that the processes never block each other for
  good, and that every run ends.
\<close>

section \<open>write\_fully and read\_fully\<close>

text \<open>
  How a transfer loop ends: complete, through \<^verbatim>\<open>error_exit\<close>, or not at all (it is
  still in the loop when the given results are used up).
\<close>

datatype io_end = Complete | Io_error | In_loop

text \<open>The results of successive \<^verbatim>\<open>write\<close> calls; the first component is what
  has been written.\<close>

fun write_fully :: "int list \<Rightarrow> string \<Rightarrow> string \<times> io_end" where
  "write_fully rs [] = ([], Complete)"
| "write_fully [] (b # buf) = ([], In_loop)"
| "write_fully (r # rs) (b # buf) =
     (if r < 0 then ([], Io_error)
      else case write_fully rs (drop (nat r) (b # buf)) of
             (out, e) \<Rightarrow> (take (nat r) (b # buf) @ out, e))"

datatype read_result = Read_error | Read_bytes string

fun read_fully :: "read_result list \<Rightarrow> nat \<Rightarrow> string \<times> io_end" where
  "read_fully rs 0 = ([], Complete)"
| "read_fully [] (Suc n) = ([], In_loop)"
| "read_fully (Read_error # rs) (Suc n) = ([], Io_error)"
| "read_fully (Read_bytes bs # rs) (Suc n) =
     (case read_fully rs (Suc n - length bs) of (got, e) \<Rightarrow> (bs @ got, e))"

text \<open>Whatever the loop writes is an initial part of the buffer, and all of it on completion.\<close>

lemma write_fully_prefix:
  "write_fully rs buf = (out, e) \<Longrightarrow> prefix out buf \<and> (e = Complete \<longrightarrow> out = buf)"
proof (induction rs buf arbitrary: out rule: write_fully.induct)
  case (3 r rs b buf)
  show ?case
  proof (cases "r < 0")
    case False
    then obtain o' where o': "write_fully rs (drop (nat r) (b # buf)) = (o', e)"
      "out = take (nat r) (b # buf) @ o'"
      using "3.prems" by (auto split: prod.splits)
    have ih: "prefix o' (drop (nat r) (b # buf)) \<and> (e = Complete \<longrightarrow> o' = drop (nat r) (b # buf))"
      using "3.IH" [OF False o'(1)] .
    then have "prefix out (take (nat r) (b # buf) @ drop (nat r) (b # buf))"
      unfolding o'(2) by (simp only: same_prefix_prefix)
    with ih o'(2) show ?thesis by (simp only: append_take_drop_id) simp
  qed (use "3.prems" in auto)
qed auto

text \<open>A peer that has closed its end makes every \<^verbatim>\<open>read\<close> return 0, and the loop goes on.\<close>

lemma read_fully_eof: "read_fully (replicate k (Read_bytes [])) (Suc n) = ([], In_loop)"
  by (induction k) auto

lemma read_fully_complete:
  assumes "\<forall>b \<in> set bss. b \<noteq> []" "concat bss = w"
  shows "read_fully (map Read_bytes bss @ rs) (length w) = (w, Complete)"
  using assms
proof (induction bss arbitrary: w)
  case (Cons b bss)
  then have w: "w = b @ concat bss" and b: "b \<noteq> []" by auto
  then obtain m where m: "length w = Suc m" by (cases b) auto
  with w have "Suc m - length b = length (concat bss)" by simp
  with Cons.IH [of "concat bss"] Cons.prems w m show ?case by simp
qed simp

section \<open>The two processes\<close>

definition reliable_send_word :: "char list option \<Rightarrow> uint8 \<Rightarrow> op list" where
  "reliable_send_word word n =
     [Op_print (send_word_text word n), Op_write [byte_of_u8 n]]
     @ (if n > 0 then [Op_write (take (unat n) (the word))] else [])
     @ [Op_post, Op_wait]"

definition reliable_child_process :: "char list \<Rightarrow> string \<Rightarrow> child" where
  "reliable_child_process word0 file = run_child reliable_send_word [Op_fclose, Op_close] word0 file"

text \<open>One call of \<^verbatim>\<open>parent_process\<close>. Inside \<^verbatim>\<open>read_fully\<close> a read returns
  any number \<open>k\<close> of bytes from 1 up to what is wanted and there; at the end of the file it returns 0
  and the loop repeats.\<close>

definition reliable_parent_step :: "nat \<Rightarrow> sys \<Rightarrow> sys option" where
  "reliable_parent_step k s =
     (let p = par s in
      case p_pc p of
        P_wait \<Rightarrow>
          if 0 < sem_parent s
          then Some (s\<lparr>sem_parent := sem_parent s - 1, par := p\<lparr>p_pc := P_length\<rparr>\<rparr>) else None
      | P_length \<Rightarrow>
          (case pipe s of
             [] \<Rightarrow> if writer_open s then None else Some s
           | b # r \<Rightarrow> Some (s\<lparr>pipe := r, par := p\<lparr>p_length := u8_of_byte b, p_off := 0,
               p_pc := (if u8_of_byte b = 0 then P_close else P_word)\<rparr>\<rparr>))
      | P_word \<Rightarrow>
          if pipe s = [] then (if writer_open s then None else Some s)
          else if 0 < k \<and> k \<le> unat (p_length p) - p_off p \<and> k \<le> length (pipe s)
          then Some (s\<lparr>pipe := drop k (pipe s),
                 par := p\<lparr>p_word := overwrite (p_word p) (p_off p) (take k (pipe s)), p_off := p_off p + k,
                   p_pc := (if p_off p + k = unat (p_length p) then P_print else P_word)\<rparr>\<rparr>)
          else None
      | P_print \<Rightarrow>
          if unat (p_length p) < length (p_word p)
          then let word = (p_word p)[unat (p_length p) := NUL]
               in Some (s\<lparr>par := p\<lparr>p_word := word, p_out := p_out p @ [parent_line (p_length p) word],
                    p_pc := P_post\<rparr>\<rparr>)
          else Some (s\<lparr>par := p\<lparr>p_pc := P_undefined\<rparr>\<rparr>)
      | P_post \<Rightarrow> Some (s\<lparr>sem_child := Suc (sem_child s), par := p\<lparr>p_pc := P_wait\<rparr>\<rparr>)
      | P_close \<Rightarrow> Some (s\<lparr>par := p\<lparr>p_pc := P_done\<rparr>\<rparr>)
      | _ \<Rightarrow> None)"

text \<open>The state \<^verbatim>\<open>main\<close> reaches with its \<^verbatim>\<open>fork\<close>: new semaphores with their initial values.\<close>

definition reliable_start :: "char list \<Rightarrow> string \<Rightarrow> uint8 \<Rightarrow> char list \<Rightarrow> sys" where
  "reliable_start cword0 file len0 pword0 =
     start_sys (child_calls (reliable_child_process cword0 file))
       (sem_open_value [S_IRUSR OR S_IWUSR OR S_IRGRP OR S_IROTH, 0])
       (sem_open_value [S_IRUSR OR S_IWUSR OR S_IRGRP OR S_IROTH, 1]) P_wait len0 pword0"

section \<open>The contracts\<close>

interpretation rs: turn_sender reliable_send_word
proof unfold_locales
  fix w r :: string and n :: uint8
  assume len: "length w = unat n"
  then have "n = word_of_nat (length w)" "0 < n \<longleftrightarrow> w \<noteq> []"
    by (auto simp: word_greater_zero_iff unat_eq_zero intro!: word_of_nat_eqI)
  with len send_word_text_prefix [OF len, of r]
  show "reliable_send_word (Some (w @ NUL # r)) n = turn_message (send_word_text (Some (w @ [NUL])) n) w"
    by (auto simp: reliable_send_word_def turn_message_def)
qed (simp add: reliable_send_word_def turn_message_def)

lemma reliable_word_step:
  assumes inv: "stream_inv ws rest lost s" and pc: "p_pc (par s) = P_word" and fit: "fits ws"
    and k: "0 < k" "k \<le> unat (p_length (par s)) - p_off (par s)" "k \<le> length (pipe s)"
  defines "p \<equiv> par s"
  shows "stream_inv ws rest lost (s\<lparr>pipe := drop k (pipe s),
    par := p\<lparr>p_word := overwrite (p_word p) (p_off p) (take k (pipe s)), p_off := p_off p + k,
      p_pc := (if p_off p + k = unat (p_length p) then P_print else P_word)\<rparr>\<rparr>)"
proof -
  from inv obtain cs ex where st: "pipe s = concat cs" "[] \<notin> set cs" "[] \<notin> set ex"
    "ex = cs @ chunks (ops s) @ lost" "par_inv ws rest ex p"
    unfolding p_def by (rule stream_invE)
  from st(5) pc obtain w rest' where w: "rest = w # rest'" "p_length p = word_of_nat (length w)"
    "p_off p < length w" "take (p_off p) (p_word p) = take (p_off p) w"
    "length (p_word p) = MAX_WORD_LENGTH" "ex = drop (p_off p) w # concat (map frame_chunks (rest' @ [[]]))"
    unfolding p_def by (auto simp: par_inv_def)
  have lw: "length w < MAX_WORD_LENGTH" using fits_rest [OF st(5) fit] w by simp
  have len: "unat (p_length p) = length w" using w lw by (simp add: unat_length_fits)
  from k st(1) w(6) st(4) obtain cs' where cs: "cs = drop (p_off p) w # cs'" by (cases cs) auto
  have kle: "k \<le> length w - p_off p" using k(2) len by (simp add: p_def)
  then have tk: "take k (pipe s) = take k (drop (p_off p) w)"
    and dk: "drop k (pipe s) = drop (p_off p + k) w @ concat cs'"
    using st(1) cs by (simp_all add: add.commute)
  have low: "length (take k (pipe s)) = k" using k by simp
  have bound: "p_off p + k \<le> length (p_word p)" using kle w(3,5) lw by simp
  have buf: "take (p_off p + k) (overwrite (p_word p) (p_off p) (take k (pipe s))) = take (p_off p + k) w"
    using take_overwrite [of "p_off p" "take k (pipe s)" "p_word p"] low bound w(4)
    by (simp add: tk take_add)
  show ?thesis
  proof (cases "p_off p + k = length w")
    case True
    then have "drop k (pipe s) = concat cs'" using dk by simp
    with True w st cs len buf low kle lw show ?thesis
      by (intro stream_invI [where cs = cs']) (auto simp: par_inv_def)
  next
    case False
    with kle w have "p_off p + k < length w" by simp
    with False w st cs len buf low kle lw dk show ?thesis
      by (intro stream_invI [where cs = "drop (p_off p + k) w # cs'"]) (auto simp: par_inv_def)
  qed
qed

lemma reliable_parent_inv:
  assumes fit: "fits ws" and inv: "stream_inv ws rest lost s" and eof: "\<not> at_eof s"
    and step: "reliable_parent_step k s = Some t"
  shows "\<exists>rest'. stream_inv ws rest' lost t"
proof (cases "p_pc (par s)")
  case P_wait
  with inv step show ?thesis
    by (intro exI [of _ rest]) (auto simp: reliable_parent_step_def stream_inv_def par_inv_def split: if_splits)
next
  case P_length
  with eof step obtain b r where b: "pipe s = b # r"
    by (auto simp: reliable_parent_step_def at_eof_def split: list.splits if_splits)
  with reader_length_step [OF inv P_length fit b] P_length step show ?thesis
    by (auto simp: reliable_parent_step_def Let_def)
next
  case P_word
  with eof step have "pipe s \<noteq> []" and k: "0 < k" "k \<le> unat (p_length (par s)) - p_off (par s)"
    "k \<le> length (pipe s)"
    by (auto simp: reliable_parent_step_def Let_def at_eof_def split: if_splits)
  with reliable_word_step [OF inv P_word fit k] P_word step show ?thesis
    by (auto simp: reliable_parent_step_def Let_def)
next
  case P_print
  with reader_print_step [OF inv P_print fit, of P_post] step show ?thesis
    by (auto simp: reliable_parent_step_def Let_def)
next
  case P_post
  with inv step show ?thesis
    by (intro exI [of _ rest]) (auto simp: reliable_parent_step_def stream_inv_def par_inv_def)
next
  case P_close
  with inv step show ?thesis
    by (intro exI [of _ rest]) (auto simp: reliable_parent_step_def stream_inv_def par_inv_def)
qed (use step in \<open>simp_all add: reliable_parent_step_def Let_def\<close>)

lemma reliable_parent_stuck:
  assumes "stream_inv ws rest [] s" "fits ws" "p_pc (par s) \<noteq> P_failed" "\<And>k. reliable_parent_step k s = None"
  shows "parent_blocked s"
proof (cases "p_pc (par s)")
  case P_word
  from assms(1) obtain cs ex where st: "par_inv ws rest ex (par s)" by (rule stream_invE)
  with P_word obtain w where "p_length (par s) = word_of_nat (length w)" "p_off (par s) < length w" "w \<in> set rest"
    by (auto simp: par_inv_def)
  moreover from this fits_rest [OF st assms(2)] have "length w < MAX_WORD_LENGTH" by (auto simp: fits_def)
  ultimately have "p_off (par s) < unat (p_length (par s))" by (simp add: unat_length_fits)
  with P_word assms(4) [of 1] show ?thesis
    by (cases "pipe s") (auto simp: reliable_parent_step_def parent_blocked_def Let_def split: if_splits)
next
  case P_undefined
  with stream_inv_out [OF assms(1)] show ?thesis by simp
qed (use assms(3) assms(4) [of 1] in
  \<open>auto simp: reliable_parent_step_def parent_blocked_def Let_def split: if_splits list.splits\<close>)

interpretation rel: robust_reader reliable_parent_step "\<lambda>_. True"
proof unfold_locales
  fix k s t
  assume "reliable_parent_step k s = Some t"
  then show "ops t = ops s \<and> writer_open t = writer_open s"
    by (auto simp: reliable_parent_step_def Let_def split: ppc.splits if_splits list.splits)
next
  fix ws rest lost s k t
  assume "fits ws" "stream_inv ws rest lost s" "\<not> at_eof s" "reliable_parent_step k s = Some t"
  then show "(\<exists>rest'. stream_inv ws rest' lost t) \<and> True" by (auto intro: reliable_parent_inv)
next
  fix s k t
  assume "at_eof s" "reliable_parent_step k s = Some t"
  then show "t = s" by (auto simp: reliable_parent_step_def Let_def at_eof_def split: if_splits list.splits)
qed simp

interpretation relt: turn_reader reliable_parent_step "\<lambda>_. True"
proof unfold_locales
  fix sp sc ws s k t
  assume "turn_inv sp sc ws s" "reliable_parent_step k s = Some t" "p_pc (par t) \<noteq> P_undefined"
  then show "turn_inv sp sc ws t"
    by (cases "p_pc (par s)")
      (auto simp: turn_inv_def reliable_parent_step_def parent_waits_def parent_posts_def Let_def
        split: if_splits list.splits)
next
  fix ws rest s
  assume "stream_inv ws rest [] s" "fits ws" "p_pc (par s) \<noteq> P_failed" "\<And>k. reliable_parent_step k s = None"
  then show "parent_blocked s" by (rule reliable_parent_stuck)
next
  fix s k t
  assume "\<not> at_eof s" "reliable_parent_step k s = Some t"
  then show "weight t < weight s"
    by (cases "p_pc (par s)")
      (auto simp: weight_def reliable_parent_step_def Let_def at_eof_def split: if_splits list.splits)
qed

section \<open>The system\<close>

lemma reliable_start_eq:
  assumes "short_words file" "length cword0 = MAX_WORD_LENGTH"
  shows "reliable_start cword0 file len0 pword0
    = start_sys (turn_calls (words_of file @ [[]])) 0 1 P_wait len0 pword0"
  using rs.child_turn_calls [OF assms]
  by (simp add: reliable_start_def reliable_child_process_def sem_open_value_def)

lemma reliable_inv:
  fixes len0 :: uint8
  assumes "short_words file" "length cword0 = MAX_WORD_LENGTH" "length pword0 = MAX_WORD_LENGTH"
    and "kreach reliable_parent_step cap (reliable_start cword0 file len0 pword0) s"
  shows "turn_inv 0 1 (words_of file) s \<and> open_inv s \<and> (\<exists>rest. stream_inv (words_of file) rest [] s)"
proof -
  note r = assms(4) [unfolded reliable_start_eq [OF assms(1,2)]]
  have fit: "fits (words_of file)" using assms(1) by (simp add: fits_words_of)
  note st = turn_start_inv [OF assms(1,3), where sp = 0 and sc = 1 and len = len0]
  show ?thesis
    using relt.turn_reach [OF r fit st TrueI turn_inv_start] rel.reach_inv [OF r fit st TrueI] by blast
qed

section \<open>Theorems about the program\<close>

text \<open>A concrete run, at which the theorems are instantiated: the file \<open>ab c\<close>.\<close>

abbreviation demo_start :: sys where
  "demo_start \<equiv> reliable_start (replicate 255 NUL) ''ab c'' 0 (replicate 255 NUL)"

lemma demo_sizes:
  "short_words ''ab c''" "length (replicate 255 NUL) = MAX_WORD_LENGTH" "MAX_WORD_LENGTH \<le> (255 :: nat)"
  by (simp_all add: short_words_def is_blank_def MAX_WORD_LENGTH_def)

lemma demo_runs: "kreach reliable_parent_step 255 demo_start (krun reliable_parent_step 255 n demo_start)"
  by (rule krun_from_start)

lemma demo_ends: "turn_final 0 1 (words_of ''ab c'') (krun reliable_parent_step 255 40 demo_start)"
  by code_simp

text \<open>C1. For a file without a word of \<^verbatim>\<open>MAX_WORD_LENGTH\<close> (255) characters or more (what a longer one does is the subject of
  \<open>pipe_children_overrun\<close>): whatever calls of either process fail, and however the reads are split, the parent never
  stores outside \<^verbatim>\<open>word[]\<close>, and what it has printed is the lines of the first words of
  the file, in order and complete.\<close>

theorem reliable_prints_prefix:
  fixes len0 :: uint8
  assumes "short_words file" "length cword0 = MAX_WORD_LENGTH" "length pword0 = MAX_WORD_LENGTH"
    and "kreach_faulty reliable_parent_step cap (reliable_start cword0 file len0 pword0) s"
  shows "p_pc (par s) \<noteq> P_undefined \<and> prefix (p_out (par s)) (map word_line (words_of file))"
proof -
  note st = turn_start_inv [OF assms(1,3), where sp = 0 and sc = 1 and len = len0]
  from rel.faulty_printed [OF assms(4) [unfolded reliable_start_eq [OF assms(1,2)]] _ st(1) TrueI] assms(1)
  obtain dn rest where "p_pc (par s) \<noteq> P_undefined" "words_of file = dn @ rest" "p_out (par s) = map word_line dn"
    by (auto simp: fits_words_of)
  then show ?thesis by (simp add: prefix_def)
qed

lemma reliable_prints_prefix_witness:
  "p_pc (par (krun reliable_parent_step 255 30 demo_start)) \<noteq> P_undefined
    \<and> prefix (p_out (par (krun reliable_parent_step 255 30 demo_start))) (map word_line (words_of ''ab c''))"
  by (rule reliable_prints_prefix [OF demo_sizes(1,2,2) kreach_imp_faulty [OF demo_runs]])

text \<open>C2. For a file whose words are all shorter than 255 characters, when no call fails and the pipe holds at least 255 bytes,
  the two processes never block each other: a reachable state without a further step is the one where every word has been
  printed, the pipe is drained and both semaphores are at zero.\<close>

theorem reliable_deadlock_free:
  fixes len0 :: uint8
  assumes "short_words file" "length cword0 = MAX_WORD_LENGTH" "length pword0 = MAX_WORD_LENGTH"
    and "MAX_WORD_LENGTH \<le> cap"
    and "kreach reliable_parent_step cap (reliable_start cword0 file len0 pword0) s"
  shows "turn_final 0 1 (words_of file) s \<or> (\<exists>t. kstep reliable_parent_step cap s t)"
  using reliable_inv [OF assms(1-3,5)] relt.turn_progress [OF _ _ TrueI _ _ assms(4)] assms(1)
  by (fastforce simp: fits_words_of)

lemma reliable_deadlock_free_witness:
  "turn_final 0 1 (words_of ''ab c'') (krun reliable_parent_step 255 9 demo_start)
    \<or> (\<exists>t. kstep reliable_parent_step 255 (krun reliable_parent_step 255 9 demo_start) t)"
  by (rule reliable_deadlock_free [OF demo_sizes(1,2,2,3) demo_runs])

text \<open>C3. For a file whose words are all shorter than 255 characters, when no call fails: every step from a reachable state
  lowers a weight, so every run of the two processes ends.\<close>

theorem reliable_terminates:
  fixes len0 :: uint8
  assumes "short_words file" "length cword0 = MAX_WORD_LENGTH" "length pword0 = MAX_WORD_LENGTH"
    and "kreach reliable_parent_step cap (reliable_start cword0 file len0 pword0) s"
    and "kstep reliable_parent_step cap s t"
  shows "weight t < weight s"
  using reliable_inv [OF assms(1-4)] relt.turn_decreases [OF _ _ _ _ assms(5)] assms(1)
  by (auto simp: fits_words_of)

lemma reliable_terminates_witness:
  "weight (krun reliable_parent_step 255 1 demo_start) < weight demo_start"
proof (rule reliable_terminates [OF demo_sizes(1,2,2) kreach_start by_child])
  have "child_step 255 demo_start \<noteq> None" by code_simp
  then show "child_step 255 demo_start = Some (krun reliable_parent_step 255 1 demo_start)" by auto
qed

text \<open>C4. For a file whose words are all shorter than 255 characters, when no call fails: the semaphores keep the processes in
  step, at any moment the child has announced at most two messages more than the parent has printed.\<close>

theorem reliable_lock_step:
  fixes len0 :: uint8
  assumes "short_words file" "length cword0 = MAX_WORD_LENGTH" "length pword0 = MAX_WORD_LENGTH"
    and "kreach reliable_parent_step cap (reliable_start cword0 file len0 pword0) s"
  shows "Suc (length (words_of file)) - posts (ops s) \<le> length (p_out (par s)) + 2"
  using reliable_inv [OF assms] turn_ahead by fastforce

lemma reliable_lock_step_witness:
  "Suc (length (words_of ''ab c'')) - posts (ops (krun reliable_parent_step 255 12 demo_start))
    \<le> length (p_out (par (krun reliable_parent_step 255 12 demo_start))) + 2"
  by (rule reliable_lock_step [OF demo_sizes(1,2,2) demo_runs])

end
