(* ===== verification/Pipe_Simple.thy ===== *)
theory Pipe_Simple
  imports Pipe_Kernel "HOL-Library.Sublist"
begin

text \<open>
  \<^verbatim>\<open>src/pipe/simple/main.c\<close>: the pipe alone, without semaphores, and a parent that issues one
  \<^verbatim>\<open>read\<close> per item and never looks at a result of 0. The theory shows that the
  words arrive as long as no call fails (the child writes a word in one piece, so one
  \<^verbatim>\<open>read\<close> gets all of it), and what the parent does when the child is gone.
\<close>

section \<open>Reading a whole word at once\<close>

text \<open>What a receiver without semaphores knows beyond the stream: a word is read from its first byte.\<close>

definition whole_word :: "parent \<Rightarrow> bool" where
  "whole_word p \<longleftrightarrow> (p_pc p = P_word \<longrightarrow> p_off p = 0)"

definition no_turns :: "parent \<Rightarrow> bool" where
  "no_turns p \<longleftrightarrow> whole_word p \<and> p_pc p \<notin> {P_wait, P_post, P_failed}"

lemma whole_word_step:
  assumes inv: "stream_inv ws rest lost s" and pc: "p_pc (par s) = P_word" and fit: "fits ws"
    and off: "whole_word (par s)" and pipe: "pipe s \<noteq> []"
  defines "p \<equiv> par s"
  defines "n \<equiv> min (unat (p_length p)) (length (pipe s))"
  shows "stream_inv ws rest lost (s\<lparr>pipe := drop n (pipe s),
    par := p\<lparr>p_word := overwrite (p_word p) 0 (take n (pipe s)), p_pc := P_print\<rparr>\<rparr>)"
proof -
  from inv obtain cs ex where st: "pipe s = concat cs" "[] \<notin> set cs" "[] \<notin> set ex"
    "ex = cs @ chunks (ops s) @ lost" "par_inv ws rest ex p"
    unfolding p_def by (rule stream_invE)
  from st(5) pc off obtain w rest' where w: "rest = w # rest'" "p_length p = word_of_nat (length w)"
    "w \<noteq> []" "length (p_word p) = MAX_WORD_LENGTH" "ex = w # concat (map frame_chunks (rest' @ [[]]))"
    unfolding p_def whole_word_def by (auto simp: par_inv_def)
  have lw: "length w < MAX_WORD_LENGTH" using fits_rest [OF st(5) fit] w by simp
  from pipe st(1) w(5) st(4) obtain cs' where cs: "cs = w # cs'" by (cases cs) auto
  have n: "n = length w" using st(1) cs w(2) lw by (simp add: n_def unat_length_fits)
  have buf: "take (length w) (overwrite (p_word p) 0 w) = w" "length (overwrite (p_word p) 0 w) = MAX_WORD_LENGTH"
    using w(4) lw by (simp_all add: overwrite_def)
  from st w cs n buf pc show ?thesis
    by (intro stream_invI [where cs = cs']) (auto simp: par_inv_def p_def)
qed

section \<open>The two processes\<close>

definition simple_send_word :: "char list option \<Rightarrow> uint8 \<Rightarrow> op list" where
  "simple_send_word word n =
     [Op_print (send_word_text word n), Op_write [byte_of_u8 n]]
     @ (if n > 0 then [Op_write (take (unat n) (the word))] else [])"

definition simple_child_process :: "char list \<Rightarrow> string \<Rightarrow> child" where
  "simple_child_process word0 file = run_child simple_send_word [Op_fclose, Op_close] word0 file"

text \<open>One call of \<^verbatim>\<open>parent_process\<close>. At the end of the file \<^verbatim>\<open>read\<close> returns 0 and
  stores nothing, and the code goes on with what \<^verbatim>\<open>length\<close> and \<^verbatim>\<open>word\<close> held before.\<close>

definition simple_parent_step :: "nat \<Rightarrow> sys \<Rightarrow> sys option" where
  "simple_parent_step k s =
     (let p = par s in
      case p_pc p of
        P_length \<Rightarrow>
          (case pipe s of
             [] \<Rightarrow> if writer_open s then None
                  else Some (s\<lparr>par := p\<lparr>p_off := 0,
                    p_pc := (if p_length p = 0 then P_close else P_word)\<rparr>\<rparr>)
           | b # r \<Rightarrow> Some (s\<lparr>pipe := r, par := p\<lparr>p_length := u8_of_byte b, p_off := 0,
               p_pc := (if u8_of_byte b = 0 then P_close else P_word)\<rparr>\<rparr>))
      | P_word \<Rightarrow>
          if pipe s = [] \<and> writer_open s then None
          else let n = min (unat (p_length p)) (length (pipe s))
               in Some (s\<lparr>pipe := drop n (pipe s),
                    par := p\<lparr>p_word := overwrite (p_word p) 0 (take n (pipe s)), p_pc := P_print\<rparr>\<rparr>)
      | P_print \<Rightarrow>
          if unat (p_length p) < length (p_word p)
          then let word = (p_word p)[unat (p_length p) := NUL]
               in Some (s\<lparr>par := p\<lparr>p_word := word, p_out := p_out p @ [parent_line (p_length p) word],
                    p_pc := P_length\<rparr>\<rparr>)
          else Some (s\<lparr>par := p\<lparr>p_pc := P_undefined\<rparr>\<rparr>)
      | P_close \<Rightarrow> Some (s\<lparr>par := p\<lparr>p_pc := P_done\<rparr>\<rparr>)
      | _ \<Rightarrow> None)"

definition simple_start :: "char list \<Rightarrow> string \<Rightarrow> uint8 \<Rightarrow> char list \<Rightarrow> sys" where
  "simple_start cword0 file len0 pword0 =
     start_sys (child_calls (simple_child_process cword0 file)) 0 0 P_length len0 pword0"

section \<open>The contracts\<close>

interpretation ss: word_sender simple_send_word
proof unfold_locales
  fix w r :: string and n :: uint8
  assume len: "length w = unat n"
  then show "simple_send_word (Some (w @ NUL # r)) n = simple_send_word (Some (w @ [NUL])) n"
    by (simp add: simple_send_word_def send_word_text_def c_str_def takeWhile_tail)
  have "n = word_of_nat (length w)" "0 < n \<longleftrightarrow> w \<noteq> []"
    using len by (auto simp: word_greater_zero_iff unat_eq_zero intro!: word_of_nat_eqI)
  then show "chunks (simple_send_word (Some (w @ [NUL])) n) = frame_chunks w"
    using len by (auto simp: simple_send_word_def frame_chunks_def)
next
  show "chunks (simple_send_word None 0) = [frame []]"
    by (simp add: simple_send_word_def frame_def)
qed

lemma simple_parent_inv:
  assumes fit: "fits ws" and inv: "stream_inv ws rest lost s" and ok: "whole_word (par s)" and eof: "\<not> at_eof s"
    and step: "simple_parent_step k s = Some t"
  shows "\<exists>rest'. stream_inv ws rest' lost t"
proof (cases "p_pc (par s)")
  case P_length
  with eof step obtain b r where b: "pipe s = b # r"
    by (cases "pipe s") (auto simp: simple_parent_step_def at_eof_def Let_def split: if_splits)
  with reader_length_step [OF inv P_length fit b] P_length step show ?thesis
    by (auto simp: simple_parent_step_def Let_def)
next
  case P_word
  with eof step have "pipe s \<noteq> []"
    by (auto simp: simple_parent_step_def Let_def at_eof_def split: if_splits)
  with whole_word_step [OF inv P_word fit ok] P_word step show ?thesis
    by (auto simp: simple_parent_step_def Let_def)
next
  case P_print
  with reader_print_step [OF inv P_print fit, of P_length] step show ?thesis
    by (auto simp: simple_parent_step_def Let_def)
next
  case P_close
  with inv step show ?thesis
    by (intro exI [of _ rest]) (auto simp: simple_parent_step_def stream_inv_def par_inv_def)
qed (use step in \<open>simp_all add: simple_parent_step_def Let_def\<close>)

interpretation simp: pipe_reader simple_parent_step no_turns
proof unfold_locales
  fix k s t
  assume "simple_parent_step k s = Some t"
  then show "ops t = ops s \<and> writer_open t = writer_open s"
    by (auto simp: simple_parent_step_def Let_def split: ppc.splits if_splits list.splits)
next
  fix ws rest lost s k t
  assume a: "fits ws" "stream_inv ws rest lost s" "no_turns (par s)" "\<not> at_eof s"
    and step: "simple_parent_step k s = Some t"
  have "no_turns (par t)"
    using step by (auto simp: simple_parent_step_def Let_def no_turns_def whole_word_def split: ppc.splits if_splits list.splits)
  moreover have "whole_word (par s)" using a(3) by (simp add: no_turns_def)
  ultimately show "(\<exists>rest'. stream_inv ws rest' lost t) \<and> no_turns (par t)"
    using simple_parent_inv [OF a(1,2) _ a(4) step] by simp
qed

section \<open>The system\<close>

lemma simple_send_no_close: "Op_close \<notin> set (simple_send_word w n)"
  by (simp add: simple_send_word_def)

lemma simple_start_inv:
  fixes len0 :: uint8
  assumes "short_words file" "length cword0 = MAX_WORD_LENGTH" "length pword0 = MAX_WORD_LENGTH"
  defines "s0 \<equiv> simple_start cword0 file len0 pword0"
  shows "stream_inv (words_of file) (words_of file) [] s0" and "open_inv s0" and "no_turns (par s0)"
proof -
  let ?ws = "words_of file"
  let ?calls = "fst (send_words simple_send_word [Op_fclose, Op_close] MAX_WORD_LENGTH ?ws)"
  have fit: "fits ?ws" using assms(1) by (simp add: fits_words_of)
  have s0: "s0 = start_sys ?calls 0 0 P_length len0 pword0"
    using ss.run_child_calls [OF _ short_words_send [OF assms(1,2)]] assms(2)
    by (simp add: s0_def simple_start_def simple_child_process_def)
  have "chunks ?calls = concat (map frame_chunks (?ws @ [[]]))"
    using ss.send_words_chunks [of ?ws MAX_WORD_LENGTH "[Op_fclose, Op_close]"] assms(1)
    by (simp add: short_words_def frame_chunks_def frame_def order_less_imp_le)
  then show "stream_inv ?ws ?ws [] s0"
    unfolding s0 by (intro stream_inv_start) (use fit assms(3) in auto)
  show "no_turns (par s0)" by (simp add: s0 start_sys_def no_turns_def whole_word_def)
  have "\<exists>pre. fst (send_words simple_send_word [Op_fclose, Op_close] MAX_WORD_LENGTH ws) = pre @ [Op_fclose, Op_close]
      \<and> Op_close \<notin> set pre" if "fits ws" for ws
    using that
  proof (induction ws)
    case Nil
    show ?case by (intro exI [of _ "simple_send_word None 0"]) (simp add: simple_send_no_close)
  next
    case (Cons w ws)
    then obtain pre where pre: "fst (send_words simple_send_word [Op_fclose, Op_close] MAX_WORD_LENGTH ws)
        = pre @ [Op_fclose, Op_close]" "Op_close \<notin> set pre" by auto
    with Cons.prems show ?case
      by (intro exI [of _ "simple_send_word (Some (w @ [NUL])) (word_of_nat (length w)) @ pre"])
        (auto simp: simple_send_no_close split: prod.splits)
  qed
  with fit obtain pre where "?calls = pre @ [Op_fclose, Op_close]" "Op_close \<notin> set pre" by blast
  then show "open_inv s0" unfolding s0 by (rule open_inv_start)
qed

lemma simple_inv:
  fixes len0 :: uint8
  assumes "short_words file" "length cword0 = MAX_WORD_LENGTH" "length pword0 = MAX_WORD_LENGTH"
    and "kreach simple_parent_step cap (simple_start cword0 file len0 pword0) s"
  shows "(\<exists>rest. stream_inv (words_of file) rest [] s) \<and> open_inv s \<and> no_turns (par s)"
  using simp.reach_inv [OF assms(4) _ simple_start_inv [OF assms(1-3)]] assms(1) by (simp add: fits_words_of)

lemma simple_no_turn_calls:
  "op \<in> set (fst (send_words simple_send_word [Op_fclose, Op_close] B ws)) \<Longrightarrow> op \<notin> {Op_wait, Op_post}"
  by (induction ws) (auto simp: simple_send_word_def split: prod.splits if_splits)

lemma simple_calls_left:
  fixes len0 :: uint8
  assumes "short_words file" "length cword0 = MAX_WORD_LENGTH"
    and "kreach simple_parent_step cap (simple_start cword0 file len0 pword0) s"
  shows "Op_wait \<notin> set (ops s)"
proof -
  have "ops (simple_start cword0 file len0 pword0)
      = fst (send_words simple_send_word [Op_fclose, Op_close] MAX_WORD_LENGTH (words_of file))"
    using ss.run_child_calls [OF _ short_words_send [OF assms(1,2)]] assms(2)
    by (simp add: simple_start_def simple_child_process_def start_sys_def)
  with simp.reach_ops [OF assms(3)] simple_no_turn_calls show ?thesis by fastforce
qed

section \<open>Progress\<close>

text \<open>The state in which both processes have ended normally.\<close>

definition simple_final :: "string list \<Rightarrow> sys \<Rightarrow> bool" where
  "simple_final ws s \<longleftrightarrow> ops s = [] \<and> p_pc (par s) = P_done \<and> p_out (par s) = map word_line ws \<and> pipe s = []"

lemma simple_parent_stuck:
  assumes "stream_inv ws rest [] s" "no_turns (par s)" "simple_parent_step 0 s = None"
  shows "(p_pc (par s) \<in> {P_length, P_word} \<and> pipe s = []) \<or> p_pc (par s) = P_done"
  using assms stream_inv_out [OF assms(1)]
  by (cases "p_pc (par s)")
    (auto simp: simple_parent_step_def no_turns_def Let_def split: if_splits list.splits)

lemma child_stuck:
  assumes "child_step cap s = None" "Op_wait \<notin> set (ops s)" "ops s \<noteq> []"
  obtains bs r where "ops s = Op_write bs # r" "cap < length (pipe s) + length bs"
  using assms by (cases "ops s"; cases "hd (ops s)") (auto simp: child_step_def split: if_splits)

lemma simple_stuck_final:
  assumes inv: "stream_inv ws rest [] s" "no_turns (par s)" "fits ws" "Op_wait \<notin> set (ops s)"
    and cap: "MAX_WORD_LENGTH \<le> cap" and stuck: "\<nexists>t. kstep simple_parent_step cap s t"
  shows "simple_final ws s"
proof -
  from inv(1) obtain cs ex where st: "pipe s = concat cs" "[] \<notin> set cs" "[] \<notin> set ex"
    "ex = cs @ chunks (ops s) @ []" "par_inv ws rest ex (par s)" by (rule stream_invE)
  have "simple_parent_step 0 s = None"
    using stuck kstep.by_parent by (cases "simple_parent_step 0 s") blast+
  then have par: "(p_pc (par s) \<in> {P_length, P_word} \<and> pipe s = []) \<or> p_pc (par s) = P_done"
    by (rule simple_parent_stuck [OF inv(1,2)])
  have child: "child_step cap s = None"
    using stuck kstep.by_child by (cases "child_step cap s") blast+
  have ops: "ops s = []"
  proof (rule ccontr)
    assume "ops s \<noteq> []"
    with child inv(4) obtain bs r where w: "ops s = Op_write bs # r" "cap < length (pipe s) + length bs"
      by (rule child_stuck)
    have bs: "bs \<in> set ex" using st(4) w(1) by simp
    have "length bs < MAX_WORD_LENGTH"
      using par_inv_chunk_length [OF st(5) inv(3) _ bs] inv(2) by (simp add: no_turns_def)
    with w(2) cap par have "p_pc (par s) = P_done" by auto
    with st(5) bs show False by (auto simp: par_inv_def)
  qed
  have dn: "p_pc (par s) = P_done"
  proof (rule ccontr)
    assume "p_pc (par s) \<noteq> P_done"
    with par have "p_pc (par s) \<in> {P_length, P_word}" "pipe s = []" by auto
    with pipe_empty_chunks [OF inv(1)] ops show False by (auto simp: par_inv_def frame_chunks_def)
  qed
  then have "rest = []" "pipe s = []" using st by (auto simp: par_inv_def)
  then show ?thesis using st(5) ops dn by (auto simp: simple_final_def par_inv_def)
qed

fun simple_pc_weight :: "ppc \<Rightarrow> nat" where
  "simple_pc_weight P_word = 2"
| "simple_pc_weight P_print = 1"
| "simple_pc_weight P_close = 1"
| "simple_pc_weight _ = 0"

definition simple_weight :: "sys \<Rightarrow> nat" where
  "simple_weight s = 2000 * length (ops s) + 5 * length (pipe s) + simple_pc_weight (p_pc (par s))"

lemma simple_weight_child:
  assumes "stream_inv ws rest [] s" "fits ws" "no_turns (par s)" "child_step cap s = Some t"
  shows "simple_weight t < simple_weight s"
proof -
  from assms(4) obtain x r where ops: "ops s = x # r" and call: "child_call cap x (s\<lparr>ops := r\<rparr>) = Some t"
    by (auto simp: child_step_def split: list.splits)
  have "length bs < MAX_WORD_LENGTH" if "x = Op_write bs" for bs
  proof -
    from assms(1) obtain cs ex where st: "ex = cs @ chunks (ops s) @ []" "par_inv ws rest ex (par s)"
      by (rule stream_invE)
    then show ?thesis
      using par_inv_chunk_length [OF st(2) assms(2)] assms(3) ops that by (simp add: no_turns_def)
  qed
  with ops call show ?thesis
    by (cases x) (auto simp: simple_weight_def MAX_WORD_LENGTH_def split: if_splits)
qed

lemma simple_weight_parent:
  assumes "\<not> at_eof s" "simple_parent_step k s = Some t"
  shows "simple_weight t < simple_weight s"
proof (cases "p_pc (par s)")
  case P_length
  with assms show ?thesis
    by (cases "pipe s") (auto simp: simple_weight_def simple_parent_step_def Let_def at_eof_def split: if_splits)
qed (use assms in \<open>auto simp: simple_weight_def simple_parent_step_def Let_def at_eof_def split: if_splits\<close>)

section \<open>When the child is gone\<close>

text \<open>The parent is about to read a length at the end of the file, and the array still holds the
  last word.\<close>

definition orphaned :: "string \<Rightarrow> sys \<Rightarrow> bool" where
  "orphaned w s \<longleftrightarrow> pipe s = [] \<and> \<not> writer_open s \<and> p_pc (par s) = P_length
     \<and> length (p_word (par s)) = MAX_WORD_LENGTH \<and> take (length w) (p_word (par s)) = w
     \<and> p_length (par s) = word_of_nat (length w)"

text \<open>Then it goes round its loop and prints the word once more.\<close>

lemma orphaned_round:
  assumes "kreach_faulty simple_parent_step cap s0 s" "orphaned w s" "w \<noteq> []" "length w < MAX_WORD_LENGTH"
  shows "\<exists>t. kreach_faulty simple_parent_step cap s0 t \<and> orphaned w t
    \<and> p_out (par t) = p_out (par s) @ [word_line w]"
proof -
  let ?p = "par s"
  let ?p1 = "?p\<lparr>p_off := 0, p_pc := P_word\<rparr>"
  let ?p2 = "?p1\<lparr>p_word := overwrite (p_word ?p) 0 [], p_pc := P_print\<rparr>"
  let ?w = "(p_word ?p)[length w := NUL]"
  let ?p3 = "?p2\<lparr>p_word := ?w, p_out := p_out ?p @ [word_line w], p_pc := P_length\<rparr>"
  have len: "unat (p_length ?p) = length w" "p_length ?p \<noteq> 0"
    using assms unat_length_fits [OF assms(4)] by (auto simp: orphaned_def unat_eq_zero)
  then have "parent_line (p_length ?p) ?w = word_line w"
    using assms(2,4) word_line_array [of w "p_word ?p"] by (simp add: orphaned_def)
  with len assms(2,4) have "simple_parent_step 0 s = Some (s\<lparr>par := ?p1\<rparr>)"
    "simple_parent_step 0 (s\<lparr>par := ?p1\<rparr>) = Some (s\<lparr>par := ?p2\<rparr>)"
    "simple_parent_step 0 (s\<lparr>par := ?p2\<rparr>) = Some (s\<lparr>par := ?p3\<rparr>)"
    by (simp_all add: simple_parent_step_def orphaned_def overwrite_def Let_def)
  then have "kreach_faulty simple_parent_step cap s0 (s\<lparr>par := ?p3\<rparr>)"
    by (meson assms(1) kf_step by_parent)
  moreover have "orphaned w (s\<lparr>par := ?p3\<rparr>)"
    using assms(2,4) by (simp add: orphaned_def overwrite_def)
  ultimately show ?thesis by force
qed

text \<open>The run that leads there: the child sends its first word and fails before it sends the next one.\<close>

lemma simple_first_word:
  fixes len0 :: uint8
  assumes "short_words file" "length cword0 = MAX_WORD_LENGTH" "length pword0 = MAX_WORD_LENGTH"
    and "words_of file = w # ws" "MAX_WORD_LENGTH \<le> cap"
  shows "\<exists>s. kreach_faulty simple_parent_step cap (simple_start cword0 file len0 pword0) s
    \<and> orphaned w s \<and> p_out (par s) = [word_line w]"
proof -
  let ?n = "word_of_nat (length w) :: uint8"
  let ?p0 = "\<lparr>p_pc = P_length, p_length = len0, p_word = pword0, p_off = 0, p_out = []\<rparr>"
  have fit: "fits (w # ws)" using assms(1,4) fits_words_of by metis
  then have w: "w \<noteq> []" "length w < MAX_WORD_LENGTH" by simp_all
  then have n: "unat ?n = length w" "?n \<noteq> 0"
    using unat_length_fits [OF w(2)] by (auto simp: unat_eq_zero)
  have "child_calls (simple_child_process cword0 file)
      = fst (send_words simple_send_word [Op_fclose, Op_close] MAX_WORD_LENGTH (w # ws))"
    using ss.run_child_calls [OF _ short_words_send [OF assms(1,2)]] assms(2,4)
    by (simp add: simple_child_process_def)
  moreover have "snd (send_words simple_send_word [Op_fclose, Op_close] MAX_WORD_LENGTH ws) = Running"
    using fit by (auto simp: send_words_status fits_def intro: less_imp_le)
  then have "fst (send_words simple_send_word [Op_fclose, Op_close] MAX_WORD_LENGTH ws) \<noteq> []"
    by (rule send_words_nonempty) simp
  ultimately obtain tl where tl: "child_calls (simple_child_process cword0 file)
      = Op_print (send_word_text (Some (w @ [NUL])) ?n) # Op_write [byte_of_u8 ?n] # Op_write w # tl" "tl \<noteq> []"
    using w n by (auto simp: simple_send_word_def word_greater_zero_iff split: prod.splits)
  define l1 where "l1 = send_word_text (Some (w @ [NUL])) ?n"
  let ?s0 = "start_sys (Op_print l1 # Op_write [byte_of_u8 ?n] # Op_write w # tl) 0 0 P_length len0 pword0"
  let ?s1 = "?s0\<lparr>ops := Op_write [byte_of_u8 ?n] # Op_write w # tl, child_out := [l1]\<rparr>"
  let ?s2 = "?s1\<lparr>ops := Op_write w # tl, pipe := [byte_of_u8 ?n]\<rparr>"
  let ?s3 = "?s0\<lparr>ops := tl, child_out := [l1], pipe := byte_of_u8 ?n # w\<rparr>"
  let ?p4 = "?p0\<lparr>p_length := ?n, p_off := 0, p_pc := P_word\<rparr>"
  let ?p5 = "?p4\<lparr>p_word := overwrite pword0 0 w, p_pc := P_print\<rparr>"
  let ?a = "(overwrite pword0 0 w)[length w := NUL]"
  let ?p6 = "?p5\<lparr>p_word := ?a, p_out := [word_line w], p_pc := P_length\<rparr>"
  let ?s6 = "?s3\<lparr>pipe := [], par := ?p6\<rparr>"
  have buf: "take (length w) (overwrite pword0 0 w) = w" "length (overwrite pword0 0 w) = MAX_WORD_LENGTH"
    using w assms(3) by (simp_all add: overwrite_def)
  have line: "parent_line ?n ?a = word_line w" using word_line_array [OF buf(1)] buf(2) w by simp
  have small: "length w + 1 \<le> cap" using w(2) assms(5) by simp
  then have "child_step cap ?s0 = Some ?s1" "child_step cap ?s1 = Some ?s2" "child_step cap ?s2 = Some ?s3"
    by (simp_all add: child_step_def start_sys_def)
  moreover have "simple_parent_step 0 ?s3 = Some (?s3\<lparr>pipe := w, par := ?p4\<rparr>)"
    using n by (simp add: simple_parent_step_def start_sys_def)
  moreover have "simple_parent_step 0 (?s3\<lparr>pipe := w, par := ?p4\<rparr>) = Some (?s3\<lparr>pipe := [], par := ?p5\<rparr>)"
    using n w by (simp add: simple_parent_step_def Let_def)
  moreover have "simple_parent_step 0 (?s3\<lparr>pipe := [], par := ?p5\<rparr>) = Some ?s6"
    using n w buf line by (simp add: simple_parent_step_def Let_def)
  ultimately have "kreach_faulty simple_parent_step cap ?s0 ?s6"
    by (meson kf_start kf_step by_child by_parent)
  moreover have "kfault ?s6 (?s6\<lparr>ops := [], writer_open := False\<rparr>)"
    using tl(2) by (intro child_fault) simp
  ultimately have "kreach_faulty simple_parent_step cap ?s0 (?s6\<lparr>ops := [], writer_open := False\<rparr>)"
    by (rule kf_fault)
  moreover have "orphaned w (?s6\<lparr>ops := [], writer_open := False\<rparr>)"
    using buf w by (simp add: orphaned_def)
  moreover have "simple_start cword0 file len0 pword0 = ?s0"
    unfolding simple_start_def tl(1) l1_def ..
  ultimately show ?thesis by force
qed

section \<open>Theorems about the program\<close>

abbreviation simple_demo :: sys where
  "simple_demo \<equiv> simple_start (replicate 255 NUL) ''ab c'' 0 (replicate 255 NUL)"

lemma simple_demo_sizes: "short_words ''ab c''" "length (replicate 255 NUL) = MAX_WORD_LENGTH"
    "MAX_WORD_LENGTH \<le> (255 :: nat)"
  by (simp_all add: short_words_def is_blank_def MAX_WORD_LENGTH_def)

lemma simple_demo_ends: "simple_final (words_of ''ab c'') (krun simple_parent_step 255 40 simple_demo)"
  by code_simp

text \<open>C5. For a file whose words are all shorter than 255 characters, when no call fails and the pipe holds at least 255 bytes,
  the pipe alone keeps the words whole and in order: what is printed is an initial part of the file's words, the processes
  never block each other, and every step lowers a weight, so every run ends with all words printed.\<close>

theorem simple_runs:
  fixes len0 :: uint8
  assumes "short_words file" "length cword0 = MAX_WORD_LENGTH" "length pword0 = MAX_WORD_LENGTH"
    and "MAX_WORD_LENGTH \<le> cap"
    and "kreach simple_parent_step cap (simple_start cword0 file len0 pword0) s"
  shows "prefix (p_out (par s)) (map word_line (words_of file))
    \<and> (simple_final (words_of file) s \<or> (\<exists>t. kstep simple_parent_step cap s t))
    \<and> (\<forall>t. kstep simple_parent_step cap s t \<longrightarrow> simple_weight t < simple_weight s)"
proof (intro conjI allI impI)
  from simple_inv [OF assms(1-3,5)] obtain rest where inv: "stream_inv (words_of file) rest [] s"
    "open_inv s" "no_turns (par s)" by blast
  have fit: "fits (words_of file)" using assms(1) by (simp add: fits_words_of)
  show "prefix (p_out (par s)) (map word_line (words_of file))"
    using stream_inv_out [OF inv(1)] by (auto simp: prefix_def)
  show "simple_final (words_of file) s \<or> (\<exists>t. kstep simple_parent_step cap s t)"
    using simple_stuck_final [OF inv(1,3) fit simple_calls_left [OF assms(1,2,5)] assms(4)] by blast
  fix t
  assume "kstep simple_parent_step cap s t"
  with inv fit not_at_eof [OF inv(1,2)] show "simple_weight t < simple_weight s"
    by (auto simp: kstep_iff intro: simple_weight_child simple_weight_parent)
qed

lemma simple_runs_witness:
  "prefix (p_out (par (krun simple_parent_step 255 11 simple_demo))) (map word_line (words_of ''ab c''))"
  using simple_runs [OF simple_demo_sizes(1,2,2,3) krun_from_start [where n = 11]] by blast

text \<open>When the child fails after it has sent its first word, the parent takes the end of the file
  for that word again: it prints it any number of times.\<close>

theorem simple_child_failure:
  fixes len0 :: uint8
  assumes "short_words file" "length cword0 = MAX_WORD_LENGTH" "length pword0 = MAX_WORD_LENGTH"
    and "words_of file = w # ws" "MAX_WORD_LENGTH \<le> cap"
  shows "\<exists>s. kreach_faulty simple_parent_step cap (simple_start cword0 file len0 pword0) s
    \<and> p_out (par s) = replicate (Suc n) (word_line w)"
proof -
  have w: "w \<noteq> []" "length w < MAX_WORD_LENGTH" using assms(1,4) fits_words_of by (metis fits_Cons)+
  have "\<exists>s. kreach_faulty simple_parent_step cap (simple_start cword0 file len0 pword0) s \<and> orphaned w s
      \<and> p_out (par s) = replicate (Suc n) (word_line w)"
  proof (induction n)
    case 0
    then show ?case using simple_first_word [OF assms] by simp
  next
    case (Suc n)
    then obtain s where "kreach_faulty simple_parent_step cap (simple_start cword0 file len0 pword0) s"
      "orphaned w s" and out: "p_out (par s) = replicate (Suc n) (word_line w)" by blast
    from orphaned_round [OF this(1,2) w] out show ?case
      by (metis replicate_Suc replicate_append_same)
  qed
  then show ?thesis by blast
qed

lemma simple_child_failure_witness:
  "\<exists>s. kreach_faulty simple_parent_step 255 simple_demo s \<and> p_out (par s) = replicate 1000 (word_line ''ab'')"
  using simple_child_failure [OF simple_demo_sizes(1,2,2) _ simple_demo_sizes(3), of "''ab''" "[''c'']" 0 999]
  by (simp add: is_blank_def)

end
