(* ===== verification/Pipe_Synchronized.thy ===== *)
theory Pipe_Synchronized
  imports Turn_Taking Pipe_Simple
begin

text \<open>
  \<^verbatim>\<open>src/pipe/synchronized/main.c\<close>: the single \<^verbatim>\<open>read\<close>s of the simple program with the
  two semaphores of the reliable one. Its calls of \<^verbatim>\<open>sem_open\<close> pass
  \<^verbatim>\<open>O_CREAT\<close> twice, which makes \<^verbatim>\<open>O_CREAT\<close> the mode of the new
  semaphores and the mode their initial value. The theory shows that the words still arrive
  and that the processes do not take turns.
\<close>

section \<open>The two processes\<close>

definition synchronized_send_word :: "char list option \<Rightarrow> uint8 \<Rightarrow> op list" where
  "synchronized_send_word word n =
     [Op_print (send_word_text word n), Op_write [byte_of_u8 n]]
     @ (if n > 0 then [Op_write (take (unat n) (the word))] else [])
     @ [Op_post, Op_wait]"

definition synchronized_child_process :: "char list \<Rightarrow> string \<Rightarrow> child" where
  "synchronized_child_process word0 file =
     run_child synchronized_send_word [Op_fclose, Op_close] word0 file"

text \<open>One call of \<^verbatim>\<open>parent_process\<close>; at the end of the file \<^verbatim>\<open>length\<close> keeps
  its value, as in the simple program.\<close>

definition synchronized_parent_step :: "nat \<Rightarrow> sys \<Rightarrow> sys option" where
  "synchronized_parent_step k s =
     (let p = par s in
      case p_pc p of
        P_wait \<Rightarrow>
          if 0 < sem_parent s
          then Some (s\<lparr>sem_parent := sem_parent s - 1, par := p\<lparr>p_pc := P_length\<rparr>\<rparr>) else None
      | P_length \<Rightarrow>
          (case pipe s of
             [] \<Rightarrow> if writer_open s then None
                  else Some (s\<lparr>par := p\<lparr>p_off := 0,
                    p_pc := (if p_length p = 0 then P_close else P_word)\<rparr>\<rparr>)
           | b # r \<Rightarrow> Some (s\<lparr>pipe := r, par := p\<lparr>p_length := u8_of_byte b, p_off := 0,
               p_pc := (if u8_of_byte b = 0 then P_close else P_word)\<rparr>\<rparr>))
      | P_word \<Rightarrow>
          if pipe s = [] \<and> writer_open s then None
          else let n = min (unat (p_length p)) (length (pipe s))
               in Some (s\<lparr>pipe := drop n (pipe s),
                    par := p\<lparr>p_word := overwrite (p_word p) 0 (take n (pipe s)), p_pc := P_print\<rparr>\<rparr>)
      | P_print \<Rightarrow>
          if unat (p_length p) < length (p_word p)
          then let word = (p_word p)[unat (p_length p) := NUL]
               in Some (s\<lparr>par := p\<lparr>p_word := word, p_out := p_out p @ [parent_line (p_length p) word],
                    p_pc := P_post\<rparr>\<rparr>)
          else Some (s\<lparr>par := p\<lparr>p_pc := P_undefined\<rparr>\<rparr>)
      | P_post \<Rightarrow> Some (s\<lparr>sem_child := Suc (sem_child s), par := p\<lparr>p_pc := P_wait\<rparr>\<rparr>)
      | P_close \<Rightarrow> Some (s\<lparr>par := p\<lparr>p_pc := P_done\<rparr>\<rparr>)
      | _ \<Rightarrow> None)"

definition synchronized_start :: "char list \<Rightarrow> string \<Rightarrow> uint8 \<Rightarrow> char list \<Rightarrow> sys" where
  "synchronized_start cword0 file len0 pword0 =
     start_sys (child_calls (synchronized_child_process cword0 file))
       (sem_open_value [O_CREAT, S_IRUSR OR S_IWUSR OR S_IRGRP OR S_IROTH, 0])
       (sem_open_value [O_CREAT, S_IRUSR OR S_IWUSR OR S_IRGRP OR S_IROTH, 1]) P_wait len0 pword0"

text \<open>The value both semaphores start with: the mode 0644.\<close>

lemma synchronized_permits: "sem_open_value [O_CREAT, S_IRUSR OR S_IWUSR OR S_IRGRP OR S_IROTH, n] = 420"
  by (simp add: sem_open_value_def S_IRUSR_def S_IWUSR_def S_IRGRP_def S_IROTH_def)

section \<open>The contracts\<close>

interpretation sys: turn_sender synchronized_send_word
proof unfold_locales
  fix w r :: string and n :: uint8
  assume len: "length w = unat n"
  then have "n = word_of_nat (length w)" "0 < n \<longleftrightarrow> w \<noteq> []"
    by (auto simp: word_greater_zero_iff unat_eq_zero intro!: word_of_nat_eqI)
  with len send_word_text_prefix [OF len, of r]
  show "synchronized_send_word (Some (w @ NUL # r)) n = turn_message (send_word_text (Some (w @ [NUL])) n) w"
    by (auto simp: synchronized_send_word_def turn_message_def)
qed (simp add: synchronized_send_word_def turn_message_def)

lemma synchronized_parent_inv:
  assumes fit: "fits ws" and inv: "stream_inv ws rest lost s" and ok: "whole_word (par s)" and eof: "\<not> at_eof s"
    and step: "synchronized_parent_step k s = Some t"
  shows "\<exists>rest'. stream_inv ws rest' lost t"
proof (cases "p_pc (par s)")
  case P_wait
  with inv step show ?thesis
    by (intro exI [of _ rest])
      (auto simp: synchronized_parent_step_def stream_inv_def par_inv_def split: if_splits)
next
  case P_length
  with eof step obtain b r where b: "pipe s = b # r"
    by (cases "pipe s") (auto simp: synchronized_parent_step_def at_eof_def Let_def split: if_splits)
  with reader_length_step [OF inv P_length fit b] P_length step show ?thesis
    by (auto simp: synchronized_parent_step_def Let_def)
next
  case P_word
  with eof step have "pipe s \<noteq> []"
    by (auto simp: synchronized_parent_step_def Let_def at_eof_def split: if_splits)
  with whole_word_step [OF inv P_word fit ok] P_word step show ?thesis
    by (auto simp: synchronized_parent_step_def Let_def)
next
  case P_print
  with reader_print_step [OF inv P_print fit, of P_post] step show ?thesis
    by (auto simp: synchronized_parent_step_def Let_def)
next
  case P_post
  with inv step show ?thesis
    by (intro exI [of _ rest]) (auto simp: synchronized_parent_step_def stream_inv_def par_inv_def)
next
  case P_close
  with inv step show ?thesis
    by (intro exI [of _ rest]) (auto simp: synchronized_parent_step_def stream_inv_def par_inv_def)
qed (use step in \<open>simp_all add: synchronized_parent_step_def Let_def\<close>)

interpretation syn: turn_reader synchronized_parent_step whole_word
proof unfold_locales
  fix k s t
  assume "synchronized_parent_step k s = Some t"
  then show "ops t = ops s \<and> writer_open t = writer_open s"
    by (auto simp: synchronized_parent_step_def Let_def split: ppc.splits if_splits list.splits)
next
  fix ws rest lost s k t
  assume a: "fits ws" "stream_inv ws rest lost s" "whole_word (par s)" "\<not> at_eof s"
    and step: "synchronized_parent_step k s = Some t"
  have "whole_word (par t)"
    using step
    by (auto simp: synchronized_parent_step_def Let_def whole_word_def split: ppc.splits if_splits list.splits)
  with synchronized_parent_inv [OF a step] show "(\<exists>rest'. stream_inv ws rest' lost t) \<and> whole_word (par t)"
    by simp
next
  fix sp sc ws s k t
  assume "turn_inv sp sc ws s" "synchronized_parent_step k s = Some t" "p_pc (par t) \<noteq> P_undefined"
  then show "turn_inv sp sc ws t"
    by (cases "p_pc (par s)")
      (auto simp: turn_inv_def synchronized_parent_step_def parent_waits_def parent_posts_def Let_def
        split: if_splits list.splits)
next
  fix ws rest s
  assume "stream_inv ws rest [] s" "p_pc (par s) \<noteq> P_failed" "\<And>k. synchronized_parent_step k s = None"
  with stream_inv_out [of ws rest "[]" s] show "parent_blocked s"
    by (cases "p_pc (par s)"; cases "pipe s")
      (auto simp: synchronized_parent_step_def parent_blocked_def Let_def split: if_splits)
next
  fix s k t
  assume "\<not> at_eof s" "synchronized_parent_step k s = Some t"
  then show "weight t < weight s"
    by (cases "p_pc (par s)"; cases "pipe s")
      (auto simp: weight_def synchronized_parent_step_def Let_def at_eof_def split: if_splits)
qed

section \<open>The system\<close>

lemma synchronized_start_eq:
  assumes "short_words file" "length cword0 = MAX_WORD_LENGTH"
  shows "synchronized_start cword0 file len0 pword0
    = start_sys (turn_calls (words_of file @ [[]])) 420 420 P_wait len0 pword0"
  using sys.child_turn_calls [OF assms]
  by (simp add: synchronized_start_def synchronized_child_process_def synchronized_permits)

lemma synchronized_inv:
  fixes len0 :: uint8
  assumes "short_words file" "length cword0 = MAX_WORD_LENGTH" "length pword0 = MAX_WORD_LENGTH"
    and "kreach synchronized_parent_step cap (synchronized_start cword0 file len0 pword0) s"
  shows "turn_inv 420 420 (words_of file) s \<and> open_inv s \<and> whole_word (par s)
    \<and> (\<exists>rest. stream_inv (words_of file) rest [] s)"
proof -
  note r = assms(4) [unfolded synchronized_start_eq [OF assms(1,2)]]
  have fit: "fits (words_of file)" using assms(1) by (simp add: fits_words_of)
  note st = turn_start_inv [OF assms(1,3), where sp = 420 and sc = 420 and len = len0]
  have ok: "whole_word (par (start_sys (turn_calls (words_of file @ [[]])) 420 420 P_wait len0 pword0))"
    by (simp add: whole_word_def start_sys_def)
  show ?thesis
    using syn.turn_reach [OF r fit st ok turn_inv_start] syn.reach_inv [OF r fit st ok] by blast
qed

section \<open>Theorems about the program\<close>

abbreviation synchronized_demo :: "string \<Rightarrow> sys" where
  "synchronized_demo file \<equiv> synchronized_start (replicate 255 NUL) file 0 (replicate 255 NUL)"

text \<open>C6. For a file whose words are all shorter than 255 characters, when no call fails and the pipe holds at least 255 bytes:
  in spite of the semaphores' initial values the words arrive whole and in order, the processes never block each other, and
  every step lowers a weight, so every run ends with all words printed.\<close>

theorem synchronized_runs:
  fixes len0 :: uint8
  assumes "short_words file" "length cword0 = MAX_WORD_LENGTH" "length pword0 = MAX_WORD_LENGTH"
    and "MAX_WORD_LENGTH \<le> cap"
    and "kreach synchronized_parent_step cap (synchronized_start cword0 file len0 pword0) s"
  shows "prefix (p_out (par s)) (map word_line (words_of file))
    \<and> (turn_final 420 420 (words_of file) s \<or> (\<exists>t. kstep synchronized_parent_step cap s t))
    \<and> (\<forall>t. kstep synchronized_parent_step cap s t \<longrightarrow> weight t < weight s)"
proof (intro conjI allI impI)
  from synchronized_inv [OF assms(1-3,5)] obtain rest where inv: "stream_inv (words_of file) rest [] s"
    "open_inv s" "whole_word (par s)" "turn_inv 420 420 (words_of file) s" by blast
  have fit: "fits (words_of file)" using assms(1) by (simp add: fits_words_of)
  show "prefix (p_out (par s)) (map word_line (words_of file))"
    using stream_inv_out [OF inv(1)] by (auto simp: prefix_def)
  show "turn_final 420 420 (words_of file) s \<or> (\<exists>t. kstep synchronized_parent_step cap s t)"
    by (rule syn.turn_progress [OF inv(4,1,3) fit _ assms(4)]) simp
  fix t
  assume "kstep synchronized_parent_step cap s t"
  then show "weight t < weight s" by (rule syn.turn_decreases [OF inv(4,1,2) fit])
qed

lemma synchronized_runs_witness:
  "prefix (p_out (par (krun synchronized_parent_step 255 11 (synchronized_demo ''ab c''))))
    (map word_line (words_of ''ab c''))"
  using synchronized_runs [OF simple_demo_sizes(1,2,2,3) krun_from_start [where n = 11]] by blast

text \<open>C7. The processes do not take turns: the child can announce four words before the parent has
  printed the first one (with the initial values 0 and 1 the bound is two).\<close>

theorem synchronized_runs_ahead:
  "\<exists>s. kreach synchronized_parent_step 255 (synchronized_demo ''a b c d'') s
     \<and> Suc (length (words_of ''a b c d'')) - posts (ops s) = 4 \<and> p_out (par s) = []"
proof -
  have "Suc (length (words_of ''a b c d'')) - posts (ops (krun synchronized_parent_step 255 20 (synchronized_demo ''a b c d''))) = 4
      \<and> p_out (par (krun synchronized_parent_step 255 20 (synchronized_demo ''a b c d''))) = []"
    by code_simp
  with krun_from_start show ?thesis by blast
qed

end
