(* ===== verification/Socketpair.thy ===== *)
theory Socketpair
  imports Pipe_Simple
begin

text \<open>
  \<^verbatim>\<open>src/domain-socket/socketpair/main.c\<close>: the words over a pair of connected stream
  sockets. The child declares \<^verbatim>\<open>word[MAX_WORD_LENGTH + 1]\<close>, the parent
  \<^verbatim>\<open>word[MAX_WORD_LENGTH]\<close>. A message of the child is one buffer of the socket, so the
  channel behaves like the pipe of \<open>Pipe_Kernel\<close>.
\<close>

section \<open>The two processes\<close>

text \<open>The end marker is announced without a newline.\<close>

definition socketpair_send_word :: "char list option \<Rightarrow> uint8 \<Rightarrow> op list" where
  "socketpair_send_word word n =
     [Op_print (case word of None \<Rightarrow> ''Child: sending word of length 0'' | Some w \<Rightarrow> send_word_text (Some w) n),
      Op_write [byte_of_u8 n]]
     @ (if n > 0 then [Op_write (take (unat n) (the word))] else [])"

definition socketpair_child_process :: "char list \<Rightarrow> string \<Rightarrow> child" where
  "socketpair_child_process word0 file = run_child socketpair_send_word [Op_fclose, Op_close] word0 file"

text \<open>One call of \<^verbatim>\<open>parent_process\<close>. At the end of the file \<^verbatim>\<open>read\<close> returns 0 and
  stores nothing; \<^verbatim>\<open>length\<close>, an automatic variable of the loop body, then holds whatever
  is there, here the number \<open>k\<close>.\<close>

definition socketpair_parent_step :: "nat \<Rightarrow> sys \<Rightarrow> sys option" where
  "socketpair_parent_step k s =
     (let p = par s in
      case p_pc p of
        P_length \<Rightarrow>
          (case pipe s of
             [] \<Rightarrow> if writer_open s then None
                  else Some (s\<lparr>par := p\<lparr>p_length := word_of_nat k, p_off := 0,
                    p_pc := (if (word_of_nat k :: uint8) = 0 then P_close else P_word)\<rparr>\<rparr>)
           | b # r \<Rightarrow> Some (s\<lparr>pipe := r, par := p\<lparr>p_length := u8_of_byte b, p_off := 0,
               p_pc := (if u8_of_byte b = 0 then P_close else P_word)\<rparr>\<rparr>))
      | P_word \<Rightarrow>
          if pipe s = [] \<and> writer_open s then None
          else let n = min (unat (p_length p)) (length (pipe s))
               in Some (s\<lparr>pipe := drop n (pipe s),
                    par := p\<lparr>p_word := overwrite (p_word p) 0 (take n (pipe s)), p_pc := P_print\<rparr>\<rparr>)
      | P_print \<Rightarrow>
          if unat (p_length p) < length (p_word p)
          then let word = (p_word p)[unat (p_length p) := NUL]
               in Some (s\<lparr>par := p\<lparr>p_word := word, p_out := p_out p @ [parent_line (p_length p) word],
                    p_pc := P_length\<rparr>\<rparr>)
          else Some (s\<lparr>par := p\<lparr>p_pc := P_undefined\<rparr>\<rparr>)
      | P_close \<Rightarrow> Some (s\<lparr>par := p\<lparr>p_pc := P_done\<rparr>\<rparr>)
      | _ \<Rightarrow> None)"

definition socketpair_start :: "char list \<Rightarrow> string \<Rightarrow> uint8 \<Rightarrow> char list \<Rightarrow> sys" where
  "socketpair_start cword0 file len0 pword0 =
     start_sys (child_calls (socketpair_child_process cword0 file)) 0 0 P_length len0 pword0"

section \<open>The contracts\<close>

interpretation sps: word_sender socketpair_send_word
proof unfold_locales
  fix w r :: string and n :: uint8
  assume len: "length w = unat n"
  then show "socketpair_send_word (Some (w @ NUL # r)) n = socketpair_send_word (Some (w @ [NUL])) n"
    by (simp add: socketpair_send_word_def send_word_text_def c_str_def takeWhile_tail)
  have "n = word_of_nat (length w)" "0 < n \<longleftrightarrow> w \<noteq> []"
    using len by (auto simp: word_greater_zero_iff unat_eq_zero intro!: word_of_nat_eqI)
  then show "chunks (socketpair_send_word (Some (w @ [NUL])) n) = frame_chunks w"
    using len by (auto simp: socketpair_send_word_def frame_chunks_def)
next
  show "chunks (socketpair_send_word None 0) = [frame []]"
    by (simp add: socketpair_send_word_def frame_def)
qed

text \<open>As long as there is something to read, or the child may still send, the parent is that of the
  simple pipe program.\<close>

lemma socketpair_parent_simple: "\<not> at_eof s \<Longrightarrow> socketpair_parent_step k s = simple_parent_step k s"
  by (cases "p_pc (par s)"; cases "pipe s")
    (auto simp: socketpair_parent_step_def simple_parent_step_def at_eof_def Let_def)

interpretation spr: pipe_reader socketpair_parent_step no_turns
proof unfold_locales
  fix k s t
  assume "socketpair_parent_step k s = Some t"
  then show "ops t = ops s \<and> writer_open t = writer_open s"
    by (auto simp: socketpair_parent_step_def Let_def split: ppc.splits if_splits list.splits)
next
  fix ws rest lost s k t
  assume "fits ws" "stream_inv ws rest lost s" "no_turns (par s)" "\<not> at_eof s" "socketpair_parent_step k s = Some t"
  then show "(\<exists>rest'. stream_inv ws rest' lost t) \<and> no_turns (par t)"
    by (intro simp.rcv_inv) (simp_all add: socketpair_parent_simple)
qed

section \<open>When the child is gone\<close>

definition sock_orphaned :: "nat \<Rightarrow> sys \<Rightarrow> bool" where
  "sock_orphaned n s \<longleftrightarrow> pipe s = [] \<and> \<not> writer_open s \<and> p_pc (par s) = P_length
     \<and> length (p_word (par s)) = MAX_WORD_LENGTH \<and> length (p_out (par s)) = n"

lemma sock_orphaned_round:
  assumes "kreach_faulty socketpair_parent_step cap s0 s" "sock_orphaned n s"
  shows "\<exists>t. kreach_faulty socketpair_parent_step cap s0 t \<and> sock_orphaned (Suc n) t"
proof -
  let ?p = "par s"
  let ?p1 = "?p\<lparr>p_length := 1, p_off := 0, p_pc := P_word\<rparr>"
  let ?p2 = "?p1\<lparr>p_word := overwrite (p_word ?p) 0 [], p_pc := P_print\<rparr>"
  let ?w = "(overwrite (p_word ?p) 0 [])[1 := NUL]"
  let ?p3 = "?p2\<lparr>p_word := ?w, p_out := p_out ?p @ [parent_line 1 ?w], p_pc := P_length\<rparr>"
  have "socketpair_parent_step 1 s = Some (s\<lparr>par := ?p1\<rparr>)"
    "socketpair_parent_step 1 (s\<lparr>par := ?p1\<rparr>) = Some (s\<lparr>par := ?p2\<rparr>)"
    "socketpair_parent_step 1 (s\<lparr>par := ?p2\<rparr>) = Some (s\<lparr>par := ?p3\<rparr>)"
    using assms(2)
    by (simp_all add: socketpair_parent_step_def sock_orphaned_def overwrite_def MAX_WORD_LENGTH_def Let_def)
  then have "kreach_faulty socketpair_parent_step cap s0 (s\<lparr>par := ?p3\<rparr>)"
    by (meson assms(1) kf_step by_parent)
  moreover have "sock_orphaned (Suc n) (s\<lparr>par := ?p3\<rparr>)"
    using assms(2) by (simp add: sock_orphaned_def overwrite_def)
  ultimately show ?thesis by blast
qed

lemma sock_orphaned_overrun:
  assumes "kreach_faulty socketpair_parent_step cap s0 s" "sock_orphaned n s"
  shows "\<exists>t. kreach_faulty socketpair_parent_step cap s0 t \<and> p_pc (par t) = P_undefined"
proof -
  let ?p = "par s"
  let ?p1 = "?p\<lparr>p_length := 255, p_off := 0, p_pc := P_word\<rparr>"
  let ?p2 = "?p1\<lparr>p_word := overwrite (p_word ?p) 0 [], p_pc := P_print\<rparr>"
  have "socketpair_parent_step 255 s = Some (s\<lparr>par := ?p1\<rparr>)"
    "socketpair_parent_step 255 (s\<lparr>par := ?p1\<rparr>) = Some (s\<lparr>par := ?p2\<rparr>)"
    "socketpair_parent_step 255 (s\<lparr>par := ?p2\<rparr>) = Some (s\<lparr>par := ?p2\<lparr>p_pc := P_undefined\<rparr>\<rparr>)"
    using assms(2)
    by (simp_all add: socketpair_parent_step_def sock_orphaned_def overwrite_def MAX_WORD_LENGTH_def)
  then have "kreach_faulty socketpair_parent_step cap s0 (s\<lparr>par := ?p2\<lparr>p_pc := P_undefined\<rparr>\<rparr>)"
    by (meson assms(1) kf_step by_parent)
  then show ?thesis by force
qed

section \<open>Theorems about the program\<close>

text \<open>The child never stores outside its array: it sends the words of the file up to the first one
  of more than 255 characters, with which it leaves through \<^verbatim>\<open>error_exit\<close>.\<close>

theorem socketpair_child_sends:
  assumes "length word0 = MAX_WORD_LENGTH + 1"
  shows "c_status (socketpair_child_process word0 file) \<noteq> Undefined
    \<and> (c_status (socketpair_child_process word0 file) = Running
         \<longleftrightarrow> (\<forall>w \<in> set (words_of file). length w \<le> MAX_WORD_LENGTH))
    \<and> (c_status (socketpair_child_process word0 file) = Running
         \<longrightarrow> written (c_ops (socketpair_child_process word0 file)) = encode (words_of file))"
proof -
  let ?c = "socketpair_child_process word0 file"
  let ?s = "send_words socketpair_send_word [Op_fclose, Op_close] (length word0) (words_of file)"
  have eq: "?s = (c_ops ?c, c_status ?c)"
    using sps.run_child_sends [of word0 "[Op_fclose, Op_close]" "file"] assms
    by (simp add: socketpair_child_process_def)
  have run: "c_status ?c = Running \<longleftrightarrow> (\<forall>w \<in> set (words_of file). length w \<le> MAX_WORD_LENGTH)"
    using send_words_status [of socketpair_send_word "[Op_fclose, Op_close]" "length word0" "words_of file"] eq assms
    by auto
  have "c_status ?c \<noteq> Undefined"
    using send_words_undefined [of socketpair_send_word "[Op_fclose, Op_close]" "length word0" "words_of file"]
      eq assms by auto
  moreover have "written (c_ops ?c) = encode (words_of file)" if "c_status ?c = Running"
  proof -
    have "chunks (c_ops ?c) = concat (map frame_chunks (words_of file)) @ [frame []]"
      using sps.send_words_chunks [of "words_of file" "length word0" "[Op_fclose, Op_close]"] that run eq assms
      by (simp add: less_Suc_eq_le)
    moreover have "concat (concat (map frame_chunks ws)) = concat (map frame ws)" for ws
      by (induction ws) auto
    ultimately show ?thesis by (simp add: encode_def)
  qed
  ultimately show ?thesis using run by blast
qed

lemma socketpair_child_sends_witness:
  "c_status (socketpair_child_process (replicate 256 NUL) ''ab c'') \<noteq> Undefined"
  using socketpair_child_sends [of "replicate 256 NUL" "''ab c''"] by (simp add: MAX_WORD_LENGTH_def)

text \<open>A word of exactly 255 characters, which the child accepts and sends, makes the parent store
  its NUL one past the end of \<^verbatim>\<open>word[255]\<close>.\<close>

theorem socketpair_parent_overrun:
  assumes "words_of file = [w]" "length w = MAX_WORD_LENGTH"
    and "length cword0 = MAX_WORD_LENGTH + 1" "length pword0 = MAX_WORD_LENGTH" "2 * MAX_WORD_LENGTH \<le> cap"
  shows "\<exists>s. kreach socketpair_parent_step cap (socketpair_start cword0 file len0 pword0) s
    \<and> p_pc (par s) = P_undefined"
proof -
  let ?send = "socketpair_send_word (Some (w @ [NUL])) 255"
  let ?p0 = "\<lparr>p_pc = P_length, p_length = len0, p_word = pword0, p_off = 0, p_out = []\<rparr>"
  have "child_calls (socketpair_child_process cword0 file)
      = ?send @ socketpair_send_word None 0 @ [Op_fclose, Op_close]"
    using sps.run_child_calls [of cword0 "[Op_fclose, Op_close]" "file"] assms
      send_words_status [of socketpair_send_word "[Op_fclose, Op_close]" "length cword0" "words_of file"]
    by (simp add: socketpair_child_process_def MAX_WORD_LENGTH_def)
  then obtain l1 tl where s0: "socketpair_start cword0 file len0 pword0
      = start_sys (Op_print l1 # Op_write [byte_of_u8 255] # Op_write w # tl) 0 0 P_length len0 pword0"
    using assms(2) by (simp add: socketpair_start_def socketpair_send_word_def MAX_WORD_LENGTH_def)
  let ?s0 = "start_sys (Op_print l1 # Op_write [byte_of_u8 255] # Op_write w # tl) 0 0 P_length len0 pword0"
  let ?s3 = "?s0\<lparr>ops := tl, child_out := [l1], pipe := byte_of_u8 255 # w\<rparr>"
  let ?p4 = "?p0\<lparr>p_length := 255, p_off := 0, p_pc := P_word\<rparr>"
  let ?p5 = "?p4\<lparr>p_word := w, p_pc := P_print\<rparr>"
  let ?s1 = "?s0\<lparr>ops := Op_write [byte_of_u8 255] # Op_write w # tl, child_out := [l1]\<rparr>"
  let ?s2 = "?s1\<lparr>ops := Op_write w # tl, pipe := [byte_of_u8 255]\<rparr>"
  have "child_step cap ?s0 = Some ?s1" "child_step cap ?s1 = Some ?s2" "child_step cap ?s2 = Some ?s3"
    using assms by (simp_all add: child_step_def start_sys_def MAX_WORD_LENGTH_def)
  then have "kreach socketpair_parent_step cap ?s0 ?s3"
    by (meson kreach_start kreach_step by_child)
  moreover have "socketpair_parent_step 0 ?s3 = Some (?s3\<lparr>pipe := w, par := ?p4\<rparr>)"
    by (simp add: socketpair_parent_step_def start_sys_def)
  moreover have "w \<noteq> []" using assms(2) by (auto simp: MAX_WORD_LENGTH_def)
  then have "socketpair_parent_step 0 (?s3\<lparr>pipe := w, par := ?p4\<rparr>) = Some (?s3\<lparr>pipe := [], par := ?p5\<rparr>)"
    using assms(2,4) by (simp add: socketpair_parent_step_def overwrite_def MAX_WORD_LENGTH_def)
  moreover have "socketpair_parent_step 0 (?s3\<lparr>pipe := [], par := ?p5\<rparr>)
      = Some (?s3\<lparr>pipe := [], par := ?p5\<lparr>p_pc := P_undefined\<rparr>\<rparr>)"
    using assms(2) by (simp add: socketpair_parent_step_def MAX_WORD_LENGTH_def)
  ultimately have "kreach socketpair_parent_step cap ?s0 (?s3\<lparr>pipe := [], par := ?p5\<lparr>p_pc := P_undefined\<rparr>\<rparr>)"
    by (meson kreach_step by_parent)
  then show ?thesis unfolding s0 by force
qed

text \<open>When the child cannot open the file, the parent reads nothing and prints all the same: any
  number of lines, and, with 255 in \<^verbatim>\<open>length\<close>, it stores past the end of its array.\<close>

theorem socketpair_child_failure:
  fixes len0 :: uint8
  assumes "length pword0 = MAX_WORD_LENGTH" "child_calls (socketpair_child_process cword0 file) \<noteq> []"
  defines "s0 \<equiv> socketpair_start cword0 file len0 pword0"
  shows "(\<exists>s. kreach_faulty socketpair_parent_step cap s0 s \<and> length (p_out (par s)) = n)
    \<and> (\<exists>s. kreach_faulty socketpair_parent_step cap s0 s \<and> p_pc (par s) = P_undefined)"
proof -
  have reach: "\<exists>s. kreach_faulty socketpair_parent_step cap s0 s \<and> sock_orphaned m s" for m
  proof (induction m)
    case 0
    have "kfault s0 (s0\<lparr>ops := [], writer_open := False\<rparr>)"
      using assms(2) by (intro child_fault) (simp add: s0_def socketpair_start_def start_sys_def)
    with kf_start [of socketpair_parent_step cap s0]
    have "kreach_faulty socketpair_parent_step cap s0 (s0\<lparr>ops := [], writer_open := False\<rparr>)" by (rule kf_fault)
    moreover have "sock_orphaned 0 (s0\<lparr>ops := [], writer_open := False\<rparr>)"
      using assms(1) by (simp add: sock_orphaned_def s0_def socketpair_start_def start_sys_def)
    ultimately show ?case by blast
  qed (use sock_orphaned_round in blast)
  show ?thesis using reach sock_orphaned_overrun reach [of 0] by (metis sock_orphaned_def)
qed

lemma socketpair_child_failure_witness:
  "\<exists>s. kreach_faulty socketpair_parent_step 65536
      (socketpair_start (replicate 256 NUL) ''ab c'' 0 (replicate 255 NUL)) s \<and> length (p_out (par s)) = 1000"
proof -
  have "child_calls (socketpair_child_process (replicate 256 NUL) ''ab c'') \<noteq> []" by code_simp
  with socketpair_child_failure [of "replicate 255 NUL" "replicate 256 NUL" "''ab c''" 65536 0 1000]
  show ?thesis by (simp add: MAX_WORD_LENGTH_def)
qed

lemma words_of_replicate: "0 < n \<Longrightarrow> words_from (replicate m CHR ''a'') (replicate n CHR ''a'') = [replicate (m + n) CHR ''a'']"
proof (induction n arbitrary: m)
  case (Suc n)
  have "replicate m CHR ''a'' @ [CHR ''a''] = replicate (Suc m) CHR ''a''" by (simp add: replicate_append_same)
  with Suc.IH [of "Suc m"] show ?case by (cases n) (simp_all add: is_blank_def)
qed simp

lemma socketpair_parent_overrun_witness:
  "\<exists>s. kreach socketpair_parent_step 65536
      (socketpair_start (replicate 256 NUL) (replicate 255 CHR ''a'') 0 (replicate 255 NUL)) s
    \<and> p_pc (par s) = P_undefined"
  by (rule socketpair_parent_overrun [of _ "replicate 255 CHR ''a''"])
    (use words_of_replicate [of 255 0] in \<open>simp_all add: MAX_WORD_LENGTH_def\<close>)

end
