(* ===== verification/Getopt.thy ===== *)
theory Getopt
  imports C_Prelude
begin

text \<open>
  The command line as the programs read it: \<^verbatim>\<open>getopt\<close> of POSIX over
  \<^verbatim>\<open>argv\<close> (no permutation: the first operand ends the options), the loop of
  \<^verbatim>\<open>parse_arguments\<close> around it, and the access to \<^verbatim>\<open>argv[i]\<close>.
  The results of successive calls of \<^verbatim>\<open>getopt\<close> depend on \<^verbatim>\<open>argv\<close> and the option string
  only; they are computed as a list of events together with the final \<^verbatim>\<open>optind\<close>.
\<close>

section \<open>getopt\<close>

text \<open>\<open>Opt c arg\<close>: the option \<open>c\<close> with \<^verbatim>\<open>optarg\<close>; \<open>Unknown c\<close>: the
  return value \<open>?\<close> with \<^verbatim>\<open>optopt\<close>, for a character that is not in the option string and
  for an option whose argument is missing.\<close>

datatype getopt_event = Opt char "string option" | Unknown char

fun takes_argument :: "string \<Rightarrow> char \<Rightarrow> bool option" where
  "takes_argument [] c = None"
| "takes_argument (x # xs) c =
     (if x = c \<and> c \<noteq> CHR '':'' then Some (xs \<noteq> [] \<and> hd xs = CHR '':'') else takes_argument xs c)"

text \<open>The characters of one element of \<^verbatim>\<open>argv\<close> behind its dash; the number says how many
  of the following elements were taken as an argument.\<close>

fun getopt_cluster :: "string \<Rightarrow> string \<Rightarrow> string list \<Rightarrow> getopt_event list \<times> nat" where
  "getopt_cluster os [] as = ([], 0)"
| "getopt_cluster os (c # cs) as =
     (case takes_argument os c of
        None \<Rightarrow> (case getopt_cluster os cs as of (evs, n) \<Rightarrow> (Unknown c # evs, n))
      | Some False \<Rightarrow> (case getopt_cluster os cs as of (evs, n) \<Rightarrow> (Opt c None # evs, n))
      | Some True \<Rightarrow>
          (if cs \<noteq> [] then ([Opt c (Some cs)], 0)
           else case as of [] \<Rightarrow> ([Unknown c], 0) | a # _ \<Rightarrow> ([Opt c (Some a)], 1)))"

function getopt_events :: "string \<Rightarrow> int \<Rightarrow> string list \<Rightarrow> getopt_event list \<times> int" where
  "getopt_events os optind [] = ([], optind)"
| "getopt_events os optind (a # as) =
     (if a = [] \<or> hd a \<noteq> CHR ''-'' \<or> tl a = [] then ([], optind)
      else if a = ''--'' then ([], optind + 1)
      else case getopt_cluster os (tl a) as of
             (evs, n) \<Rightarrow>
               (case getopt_events os (optind + 1 + int n) (drop n as) of
                  (evs', optind') \<Rightarrow> (evs @ evs', optind')))"
  by pat_completeness auto
termination by (relation "measure (\<lambda>(os, optind, as). length as)") auto

section \<open>The loop of parse\_arguments\<close>

text \<open>\<open>run_options f st evs\<close>: the body of the loop, a \<^verbatim>\<open>switch\<close>, applied to each result of
  \<^verbatim>\<open>getopt\<close> in turn until it leaves the process.\<close>

fun run_options :: "(getopt_event \<Rightarrow> 's \<Rightarrow> 's result) \<Rightarrow> 's \<Rightarrow> getopt_event list \<Rightarrow> 's result" where
  "run_options f st [] = Returns st"
| "run_options f st (ev # evs) = bind_result (f ev st) (\<lambda>st'. run_options f st' evs)"

text \<open>\<^verbatim>\<open>opterr = 0; while((opt = getopt(argc, argv, os)) != -1) switch(opt) ...\<close>, then the rest
  of the function, which gets the variables set by the loop and \<^verbatim>\<open>optind\<close>.\<close>

definition with_options ::
  "string list \<Rightarrow> string \<Rightarrow> (getopt_event \<Rightarrow> 's \<Rightarrow> 's result) \<Rightarrow> 's \<Rightarrow> ('s \<Rightarrow> int \<Rightarrow> 'a result) \<Rightarrow> 'a result"
where
  "with_options argv os switch st rest =
     (case getopt_events os 1 (tl argv) of
        (evs, optind) \<Rightarrow> bind_result (run_options switch st evs) (\<lambda>st'. rest st' optind))"

abbreviation (input) argc :: "string list \<Rightarrow> int" where
  "argc argv \<equiv> int (length argv)"

text \<open>\<^verbatim>\<open>argv[i]\<close>: the element at \<open>argc\<close> is the null pointer, and there is none behind it.\<close>

definition argv_at :: "string list \<Rightarrow> int \<Rightarrow> string option result" where
  "argv_at argv i =
     (if i < 0 then Undef
      else if i < argc argv then Returns (Some (argv ! nat i))
      else if i = argc argv then Returns None
      else Undef)"

text \<open>\<^verbatim>\<open>snprintf(message, sizeof(message), "Unknown option '-%c'.", optopt)\<close>, 20 bytes with
  the NUL into an array of 24.\<close>

definition unknown_option :: "char \<Rightarrow> string" where
  "unknown_option c = ''Unknown option '' @ [CHR 0x27, CHR ''-'', c, CHR 0x27, CHR ''.'']"

text \<open>The cases of the \<^verbatim>\<open>switch\<close>. \<open>option_case c set other\<close> is
  \<^verbatim>\<open>case 'c': { ... break; }\<close> with the assignment \<open>assign\<close> to the variables of the function,
  \<open>unknown_case c\<close> the branch \<^verbatim>\<open>if(optopt == 'c')\<close> of \<^verbatim>\<open>case '?'\<close>;
  \<open>other\<close> are the cases that follow.\<close>

definition option_case ::
  "char \<Rightarrow> (string option \<Rightarrow> 's \<Rightarrow> 's) \<Rightarrow> (getopt_event \<Rightarrow> 's \<Rightarrow> 's result) \<Rightarrow> getopt_event \<Rightarrow> 's \<Rightarrow> 's result"
where
  "option_case c assign other ev st =
     (case ev of
        Opt opt optarg \<Rightarrow> if opt = c then Returns (assign optarg st) else other ev st
      | Unknown optopt \<Rightarrow> other ev st)"

definition unknown_case ::
  "char \<Rightarrow> 's result \<Rightarrow> (getopt_event \<Rightarrow> 's \<Rightarrow> 's result) \<Rightarrow> getopt_event \<Rightarrow> 's \<Rightarrow> 's result"
where
  "unknown_case c leave other ev st = (if ev = Unknown c then leave else other ev st)"

text \<open>The cases \<^verbatim>\<open>'h'\<close>, \<^verbatim>\<open>'?'\<close> and \<^verbatim>\<open>default\<close>; \<open>name\<close> is
  \<^verbatim>\<open>argv[0]\<close>, and \<open>dcode\<close> and \<open>dmsg\<close> are what \<^verbatim>\<open>default\<close>
  passes to \<^verbatim>\<open>usage\<close>.\<close>

definition help_cases_default ::
  "(string \<Rightarrow> int \<Rightarrow> string option \<Rightarrow> 's result) \<Rightarrow> string \<Rightarrow> int \<Rightarrow> string option
     \<Rightarrow> getopt_event \<Rightarrow> 's \<Rightarrow> 's result"
where
  "help_cases_default usage name dcode dmsg ev st =
     (case ev of
        Opt opt optarg \<Rightarrow>
          if opt = CHR ''h'' then usage name EXIT_SUCCESS None else usage name dcode dmsg
      | Unknown optopt \<Rightarrow> usage name EXIT_FAILURE (Some (unknown_option optopt)))"

definition help_cases ::
  "(string \<Rightarrow> int \<Rightarrow> string option \<Rightarrow> 's result) \<Rightarrow> string \<Rightarrow> getopt_event \<Rightarrow> 's \<Rightarrow> 's result"
where
  "help_cases usage name = help_cases_default usage name EXIT_FAILURE None"

section \<open>Lemmas\<close>

lemma unknown_option_fits: "length (unknown_option c) < 24"
  by (simp add: unknown_option_def)

lemma getopt_cluster_taken: "getopt_cluster os cs as = (evs, n) \<Longrightarrow> n \<le> length as"
  by (induction os cs as arbitrary: evs n rule: getopt_cluster.induct)
    (auto split: option.splits bool.splits if_splits list.splits prod.splits)

text \<open>\<^verbatim>\<open>optind\<close> never passes the end of \<^verbatim>\<open>argv\<close>.\<close>

lemma getopt_events_optind:
  "getopt_events os i as = (evs, j) \<Longrightarrow> i \<le> j \<and> j \<le> i + int (length as)"
proof (induction os i as arbitrary: evs j rule: getopt_events.induct)
  case (2 os i a as)
  show ?case
  proof (cases "a = [] \<or> hd a \<noteq> CHR ''-'' \<or> tl a = [] \<or> a = ''--''")
    case True
    with "2.prems" show ?thesis by (auto split: if_splits)
  next
    case False
    obtain evs1 n where c: "getopt_cluster os (tl a) as = (evs1, n)" by (cases "getopt_cluster os (tl a) as")
    obtain evs2 j2 where e: "getopt_events os (i + 1 + int n) (drop n as) = (evs2, j2)"
      by (cases "getopt_events os (i + 1 + int n) (drop n as)")
    have "n \<le> length as" using c by (rule getopt_cluster_taken)
    moreover have "i + 1 + int n \<le> j2 \<and> j2 \<le> i + 1 + int n + int (length (drop n as))"
      using "2.IH" [OF _ _ c [symmetric] e] False by auto
    moreover have "j = j2" using "2.prems" False c e by auto
    ultimately show ?thesis by simp
  qed
qed simp

lemma getopt_events_argv:
  "argv \<noteq> [] \<Longrightarrow> getopt_events os 1 (tl argv) = (evs, j) \<Longrightarrow> 1 \<le> j \<and> j \<le> argc argv"
  using getopt_events_optind [of os 1 "tl argv" evs j] by (cases argv) auto

lemma argv_at_defined: "0 \<le> i \<Longrightarrow> i \<le> argc argv \<Longrightarrow> argv_at argv i \<noteq> Undef"
  by (auto simp: argv_at_def)

text \<open>A loop body that always leaves the process or returns keeps the loop defined.\<close>

lemma run_options_defined:
  "(\<And>ev st. f ev st \<noteq> Undef) \<Longrightarrow> run_options f st evs \<noteq> Undef"
  by (induction evs arbitrary: st) (auto simp: bind_result_Undef_iff)

lemma with_options_defined:
  assumes "argv \<noteq> []" "\<And>ev st. switch ev st \<noteq> Undef"
    and "\<And>st optind. 1 \<le> optind \<Longrightarrow> optind \<le> argc argv \<Longrightarrow> rest st optind \<noteq> Undef"
  shows "with_options argv os switch st rest \<noteq> Undef"
  using assms run_options_defined [of switch] getopt_events_argv [OF assms(1)]
  by (auto simp: with_options_def bind_result_Undef_iff split: prod.split)

text \<open>Operands only: the first element does not start with a dash.\<close>

definition operand :: "string \<Rightarrow> bool" where
  "operand a \<longleftrightarrow> a = [] \<or> hd a \<noteq> CHR ''-'' \<or> tl a = []"

lemma with_options_operands:
  "(args = [] \<or> operand (hd args)) \<Longrightarrow> with_options (name # args) os switch st rest = rest st 1"
  by (cases args) (auto simp: with_options_def operand_def)

lemma with_options_help:
  assumes "takes_argument os (CHR ''h'') = Some False" "switch (Opt (CHR ''h'') None) st = Exits n e"
  shows "with_options (name # ''-h'' # args) os switch st rest = Exits n e"
  using assms by (simp add: with_options_def split: prod.split)

lemma with_options_unknown:
  assumes "takes_argument os c = None" "c \<noteq> CHR ''-''" "switch (Unknown c) st = Exits n e"
  shows "with_options (name # [CHR ''-'', c] # args) os switch st rest = Exits n e"
  using assms by (simp add: with_options_def split: prod.split)

text \<open>How the command line of a program ends: the program goes on, it leaves with a status, or
  its behaviour is undefined, or it waits for ever.\<close>

datatype ending = Continues | Leaves int | Breaks | Hangs

fun outcome :: "'a result \<Rightarrow> ending" where
  "outcome (Returns a) = Continues"
| "outcome (Exits n e) = Leaves n"
| "outcome Undef = Breaks"
| "outcome Blocks = Hangs"

lemma outcome_Breaks [simp]: "outcome r = Breaks \<longleftrightarrow> r = Undef"
  by (cases r) auto

lemma argv_at_Undef_iff: "argv_at argv i = Undef \<longleftrightarrow> i < 0 \<or> argc argv < i"
  by (auto simp: argv_at_def)

lemma with_options_Undef:
  assumes "with_options argv os switch st rest = Undef" "argv \<noteq> []"
  shows "(\<exists>ev st. switch ev st = Undef)
    \<or> (\<exists>st optind. 1 \<le> optind \<and> optind \<le> argc argv \<and> rest st optind = Undef)"
  using with_options_defined [OF assms(2), of switch rest os st] assms(1) by blast

lemma option_case_Undef: "option_case c assign other ev st = Undef \<Longrightarrow> other ev st = Undef"
  by (auto simp: option_case_def split: getopt_event.splits if_splits)

lemma unknown_case_Undef:
  "unknown_case c leave other ev st = Undef \<Longrightarrow> leave = Undef \<or> other ev st = Undef"
  by (auto simp: unknown_case_def split: if_splits)

lemma help_cases_Undef:
  "help_cases_default usage name dcode dmsg ev st = Undef \<Longrightarrow> \<exists>c m. usage name c m = Undef"
  "help_cases usage name ev st = Undef \<Longrightarrow> \<exists>c m. usage name c m = Undef"
  by (auto simp: help_cases_def help_cases_default_def split: getopt_event.splits if_splits)

lemmas cli_Undef = with_options_Undef option_case_Undef unknown_case_Undef help_cases_Undef

lemmas cli_switch = with_options_def option_case_def unknown_case_def help_cases_def help_cases_default_def
  usage_exit_def

end
