(* ===== verification/Number_Parse.thy ===== *)
theory Number_Parse
  imports C_Prelude
begin

text \<open>
  \<^verbatim>\<open>strtoumax\<close>, \<^verbatim>\<open>strtoimax\<close> and \<^verbatim>\<open>strtoll\<close> with base 10, and
  the limits of the integer types on a 64-bit Linux system, as the \<^verbatim>\<open>parse_...\<close> functions
  of the programs use them. A conversion yields the value, the rest of the string
  (\<^verbatim>\<open>endptr\<close>) and whether \<^verbatim>\<open>errno\<close> has become \<^verbatim>\<open>ERANGE\<close>. A string without
  digits leaves \<^verbatim>\<open>errno\<close> alone, as in the GNU and BSD libraries.
\<close>

section \<open>Limits\<close>

definition UINT16_MAX :: uint64 where "UINT16_MAX = 0xFFFF"

definition UCHAR_MAX :: uint64 where "UCHAR_MAX = 0xFF"

definition USHRT_MAX :: uint64 where "USHRT_MAX = 0xFFFF"

definition UINT_MAX :: uint64 where "UINT_MAX = 0xFFFFFFFF"

definition ULONG_MAX :: uint64 where "ULONG_MAX = 0xFFFFFFFFFFFFFFFF"

definition ULLONG_MAX :: uint64 where "ULLONG_MAX = 0xFFFFFFFFFFFFFFFF"

definition SIZE_MAX :: uint64 where "SIZE_MAX = 0xFFFFFFFFFFFFFFFF"

definition SCHAR_MIN :: int where "SCHAR_MIN = - 0x80"

definition SCHAR_MAX :: int where "SCHAR_MAX = 0x7F"

definition CHAR_MIN :: int where "CHAR_MIN = - 0x80"

definition CHAR_MAX :: int where "CHAR_MAX = 0x7F"

definition SHRT_MIN :: int where "SHRT_MIN = - 0x8000"

definition SHRT_MAX :: int where "SHRT_MAX = 0x7FFF"

definition INT_MIN :: int where "INT_MIN = - 0x80000000"

definition INT_MAX :: int where "INT_MAX = 0x7FFFFFFF"

definition LONG_MIN :: int where "LONG_MIN = - 0x8000000000000000"

definition LONG_MAX :: int where "LONG_MAX = 0x7FFFFFFFFFFFFFFF"

definition LLONG_MIN :: int where "LLONG_MIN = - 0x8000000000000000"

definition LLONG_MAX :: int where "LLONG_MAX = 0x7FFFFFFFFFFFFFFF"

lemmas c_limits = UINT16_MAX_def UCHAR_MAX_def USHRT_MAX_def UINT_MAX_def ULONG_MAX_def ULLONG_MAX_def
  SIZE_MAX_def SCHAR_MIN_def SCHAR_MAX_def CHAR_MIN_def CHAR_MAX_def SHRT_MIN_def SHRT_MAX_def INT_MIN_def
  INT_MAX_def LONG_MIN_def LONG_MAX_def LLONG_MIN_def LLONG_MAX_def

text \<open>\<^verbatim>\<open>sizeof\<close> of the standard types; the sizes of \<^verbatim>\<open>uid_t\<close> and its like are
  arguments of the models.\<close>

definition sizeof_char :: nat where "sizeof_char = 1"

definition sizeof_short :: nat where "sizeof_short = 2"

definition sizeof_int :: nat where "sizeof_int = 4"

definition sizeof_long :: nat where "sizeof_long = 8"

definition sizeof_long_long :: nat where "sizeof_long_long = 8"

lemmas c_sizes = sizeof_char_def sizeof_short_def sizeof_int_def sizeof_long_def sizeof_long_long_def

text \<open>Conversion to an unsigned type of \<open>sz\<close> bytes.\<close>

definition cast_unsigned :: "nat \<Rightarrow> uint64 \<Rightarrow> uint64" where
  "cast_unsigned sz v = take_bit (8 * sz) v"

section \<open>Conversions\<close>

definition strto_split :: "string \<Rightarrow> bool \<times> string \<times> string" where
  "strto_split s =
     (let s1 = dropWhile c_isspace s;
          neg = (s1 \<noteq> [] \<and> hd s1 = CHR ''-'');
          s2 = (if s1 \<noteq> [] \<and> (hd s1 = CHR ''-'' \<or> hd s1 = CHR ''+'') then tl s1 else s1)
      in (neg, takeWhile c_isdigit s2, dropWhile c_isdigit s2))"

definition strtoumax :: "string \<Rightarrow> uint64 \<times> string \<times> bool" where
  "strtoumax s =
     (case strto_split s of (neg, ds, rest) \<Rightarrow>
        if ds = [] then (0, s, False)
        else if 0xFFFFFFFFFFFFFFFF < undec 0 ds then (0xFFFFFFFFFFFFFFFF, rest, True)
        else (if neg then - word_of_nat (undec 0 ds) else word_of_nat (undec 0 ds), rest, False))"

definition strtoimax :: "string \<Rightarrow> int \<times> string \<times> bool" where
  "strtoimax s =
     (case strto_split s of (neg, ds, rest) \<Rightarrow>
        if ds = [] then (0, s, False)
        else let v = (if neg then - int (undec 0 ds) else int (undec 0 ds))
             in if v < LLONG_MIN then (LLONG_MIN, rest, True)
                else if LLONG_MAX < v then (LLONG_MAX, rest, True)
                else (v, rest, False))"

definition strtoll :: "string \<Rightarrow> int \<times> string \<times> bool" where
  "strtoll s = strtoimax s"

section \<open>Lemmas\<close>

lemma dec_nat_head: "\<exists>c s. dec_nat n = c # s \<and> c_isdigit c"
  by (metis dec_nat_digits dec_nat_nonempty list.set_intros(1) neq_Nil_conv)

lemma takeWhile_dec_nat [simp]: "takeWhile c_isdigit (dec_nat n) = dec_nat n"
  using dec_nat_digits by (intro takeWhile_all) blast

lemma dropWhile_dec_nat [simp]: "dropWhile c_isdigit (dec_nat n) = []"
  using dec_nat_digits by (intro dropWhile_all) blast

lemma strto_split_dec_nat [simp]: "strto_split (dec_nat n) = (False, dec_nat n, [])"
proof -
  obtain c s where c: "dec_nat n = c # s" "c_isdigit c" using dec_nat_head by blast
  then have "dropWhile c_isspace (dec_nat n) = dec_nat n" by (simp add: isdigit_not_space)
  moreover have "hd (dec_nat n) \<noteq> CHR ''-'' \<and> hd (dec_nat n) \<noteq> CHR ''+''"
    using c isdigit_not_sign by simp
  ultimately show ?thesis by (simp add: strto_split_def Let_def)
qed

lemma strto_split_neg [simp]: "strto_split (CHR ''-'' # dec_nat n) = (True, dec_nat n, [])"
  by (simp add: strto_split_def Let_def c_isspace_def)

lemma strtoumax_dec_nat:
  assumes "n < 2 ^ 64"
  shows "strtoumax (dec_nat n) = (word_of_nat n, [], False)"
  using assms by (simp add: strtoumax_def)

lemma strtoumax_neg:
  assumes "n < 2 ^ 64"
  shows "strtoumax (CHR ''-'' # dec_nat n) = (- word_of_nat n, [], False)"
  using assms by (simp add: strtoumax_def)

lemma strtoumax_large:
  assumes "2 ^ 64 \<le> n"
  shows "strtoumax (dec_nat n) = (0xFFFFFFFFFFFFFFFF, [], True)"
  using assms by (simp add: strtoumax_def)

lemma strtoumax_empty [simp]: "strtoumax [] = (0, [], False)"
  by (simp add: strtoumax_def strto_split_def)

lemma strtoimax_empty [simp]: "strtoimax [] = (0, [], False)"
  by (simp add: strtoimax_def strto_split_def)

lemma strtoimax_dec_int:
  assumes "LLONG_MIN \<le> i" "i \<le> LLONG_MAX"
  shows "strtoimax (dec_int i) = (i, [], False)"
  using assms by (simp add: strtoimax_def dec_int_def)

text \<open>A number of fewer than 64 bits compares as a \<^verbatim>\<open>uintmax_t\<close> the way it does as a number.\<close>

lemma word_of_nat_less_u64: "m < 2 ^ 64 \<Longrightarrow> n < 2 ^ 64
    \<Longrightarrow> (word_of_nat m :: uint64) < word_of_nat n \<longleftrightarrow> m < n"
  by (simp add: word_less_nat_alt unat_word_of_nat_u64)

lemma cast_unsigned_small:
  assumes "n < 2 ^ (8 * sz)" "n < 2 ^ 64"
  shows "cast_unsigned sz (word_of_nat n) = word_of_nat n"
proof -
  have "unat (cast_unsigned sz (word_of_nat n)) = take_bit (8 * sz) n"
    using assms(2) by (simp add: cast_unsigned_def unsigned_take_bit_eq unat_word_of_nat_u64)
  also have "\<dots> = n" using assms(1) by (simp add: take_bit_nat_eq_self_iff)
  finally show ?thesis by (rule word_of_nat_eqI)
qed

end
