(* ===== verification/Cli_Files.thy ===== *)
theory Cli_Files
  imports Getopt Number_Parse
begin

text \<open>
  The command lines of the programs under \<^verbatim>\<open>file-system, file-tree-walking, files, streams, path-manipulation, shared-memory and pipe\<close>
  of \<^verbatim>\<open>src\<close>: for each program its \<^verbatim>\<open>usage\<close>, its
  \<^verbatim>\<open>parse_...\<close> and \<^verbatim>\<open>get_..._max\<close> functions, \<^verbatim>\<open>parse_arguments\<close>,
  \<^verbatim>\<open>handle_arguments\<close>, and, as \<open>..._arguments\<close>, the two calls with which
  \<^verbatim>\<open>main\<close> begins. A \<^verbatim>\<open>char *\<close> variable is a \<^typ>\<open>string option\<close>, the null pointer
  being \<open>None\<close>; the variables a function sets through pointers are its result.
\<close>

section \<open>The programs\<close>

subsection \<open>file-system/access/main.c\<close>

definition access_usage :: "string \<Rightarrow> int \<Rightarrow> string option \<Rightarrow> 'a result" where
  "access_usage program_name exit_code message =
     usage_exit
       [''Usage: '' @ program_name @ '' [-h] <file path>'',
        ''Options:'',
        ''  -h  Display this help message''] exit_code message"

definition access_parse_arguments :: "string list \<Rightarrow> string option result" where
  "access_parse_arguments argv =
     with_options argv ''h''
       (help_cases access_usage (hd argv)) ()
       (\<lambda>_ optind.
       if optind \<ge> argc argv then access_usage (hd argv) EXIT_FAILURE (Some ''The file path is required'')
       else if optind < argc argv - 1 then access_usage (hd argv) EXIT_FAILURE (Some ''Too many arguments.'')
       else bind_result (argv_at argv optind) (\<lambda>file_path.
       Returns file_path))"

definition access_handle_arguments :: "string \<Rightarrow> string option \<Rightarrow> unit result" where
  "access_handle_arguments binary_name file_path =
     (if file_path = None then access_usage binary_name EXIT_FAILURE (Some ''The file path is required.'')
      else Returns ())"

definition access_arguments :: "string list \<Rightarrow> string option result" where
  "access_arguments argv =
     bind_result (access_parse_arguments argv) (\<lambda>file_path.
     bind_result (access_handle_arguments (hd argv) file_path) (\<lambda>_.
       Returns file_path))"

subsection \<open>file-system/chdir/main.c\<close>

definition chdir_usage :: "string \<Rightarrow> int \<Rightarrow> string option \<Rightarrow> 'a result" where
  "chdir_usage program_name exit_code message =
     usage_exit
       [''Usage: '' @ program_name @ '' [-h] <directory path>'',
        ''Options:'',
        ''  -h  Display this help message''] exit_code message"

definition chdir_parse_arguments :: "string list \<Rightarrow> string option result" where
  "chdir_parse_arguments argv =
     with_options argv ''h''
       (help_cases chdir_usage (hd argv)) ()
       (\<lambda>_ optind.
       if optind \<ge> argc argv then chdir_usage (hd argv) EXIT_FAILURE (Some ''The directory path is required'')
       else if optind < argc argv - 1 then chdir_usage (hd argv) EXIT_FAILURE (Some ''Too many arguments.'')
       else bind_result (argv_at argv optind) (\<lambda>directory_path.
       Returns directory_path))"

definition chdir_handle_arguments :: "string \<Rightarrow> string option \<Rightarrow> unit result" where
  "chdir_handle_arguments binary_name directory_path =
     (if directory_path = None then chdir_usage binary_name EXIT_FAILURE (Some ''The directory path is required.'')
      else Returns ())"

definition chdir_arguments :: "string list \<Rightarrow> string option result" where
  "chdir_arguments argv =
     bind_result (chdir_parse_arguments argv) (\<lambda>directory_path.
     bind_result (chdir_handle_arguments (hd argv) directory_path) (\<lambda>_.
       Returns directory_path))"

subsection \<open>file-system/chown/main.c\<close>

definition chown_usage :: "string \<Rightarrow> int \<Rightarrow> string option \<Rightarrow> 'a result" where
  "chown_usage program_name exit_code message =
     usage_exit
       [''Usage: '' @ program_name @ '' [-h] -u <user id> -g <group id> <path>'',
        ''Options:'',
        ''  -h              Display this help message'',
        ''  -u <user id>    User ID'',
        ''  -g <group id>   Group ID''] exit_code message"

definition chown_get_uid_t_max :: "nat \<Rightarrow> uint64 result" where
  "chown_get_uid_t_max sizeof_uid_t =
     (if sizeof_uid_t = sizeof_char then Returns (cast_unsigned sizeof_uid_t UCHAR_MAX)
      else if sizeof_uid_t = sizeof_short then Returns (cast_unsigned sizeof_uid_t USHRT_MAX)
      else if sizeof_uid_t = sizeof_int then Returns (cast_unsigned sizeof_uid_t UINT_MAX)
      else if sizeof_uid_t = sizeof_long then Returns (cast_unsigned sizeof_uid_t ULONG_MAX)
      else if sizeof_uid_t = sizeof_long_long then Returns (cast_unsigned sizeof_uid_t ULLONG_MAX)
      else Exits EXIT_FAILURE [Text (''Unsupported size of uid_t'' @ [NL])])"

definition chown_get_gid_t_max :: "nat \<Rightarrow> uint64 result" where
  "chown_get_gid_t_max sizeof_gid_t =
     (if sizeof_gid_t = sizeof_char then Returns (cast_unsigned sizeof_gid_t UCHAR_MAX)
      else if sizeof_gid_t = sizeof_short then Returns (cast_unsigned sizeof_gid_t USHRT_MAX)
      else if sizeof_gid_t = sizeof_int then Returns (cast_unsigned sizeof_gid_t UINT_MAX)
      else if sizeof_gid_t = sizeof_long then Returns (cast_unsigned sizeof_gid_t ULONG_MAX)
      else if sizeof_gid_t = sizeof_long_long then Returns (cast_unsigned sizeof_gid_t ULLONG_MAX)
      else Exits EXIT_FAILURE [Text (''Unsupported size of gid_t'' @ [NL])])"

definition chown_parse_uid_t :: "nat \<Rightarrow> string \<Rightarrow> string \<Rightarrow> uint64 result" where
  "chown_parse_uid_t sizeof_uid_t binary_name str =
     (case strtoumax str of (parsed_value, endptr, erange) \<Rightarrow>
      if erange then chown_usage binary_name EXIT_FAILURE (Some ''Error parsing uid_t.'')
      else if endptr \<noteq> [] then chown_usage binary_name EXIT_FAILURE (Some ''Invalid characters in input.'')
      else bind_result (chown_get_uid_t_max sizeof_uid_t) (\<lambda>max_value.
      if max_value < parsed_value then chown_usage binary_name EXIT_FAILURE (Some ''uid_t value out of range.'')
      else Returns (cast_unsigned sizeof_uid_t parsed_value)))"

definition chown_parse_gid_t :: "nat \<Rightarrow> string \<Rightarrow> string \<Rightarrow> uint64 result" where
  "chown_parse_gid_t sizeof_gid_t binary_name str =
     (case strtoumax str of (parsed_value, endptr, erange) \<Rightarrow>
      if erange then chown_usage binary_name EXIT_FAILURE (Some ''Error parsing gid_t.'')
      else if endptr \<noteq> [] then chown_usage binary_name EXIT_FAILURE (Some ''Invalid characters in input.'')
      else bind_result (chown_get_gid_t_max sizeof_gid_t) (\<lambda>max_value.
      if max_value < parsed_value then chown_usage binary_name EXIT_FAILURE (Some ''gid_t value out of range.'')
      else Returns (cast_unsigned sizeof_gid_t parsed_value)))"

definition chown_parse_arguments :: "string list \<Rightarrow> string option \<Rightarrow> string option \<Rightarrow> (string option \<times> string option \<times> string option) result" where
  "chown_parse_arguments argv user_id group_id =
     with_options argv ''hu:g:''
       (option_case (CHR ''u'') (\<lambda>arg (_, group_id). (arg, group_id))
       (option_case (CHR ''g'') (\<lambda>arg (user_id, _). (user_id, arg))
       (help_cases chown_usage (hd argv)))) (user_id, group_id)
       (\<lambda>(user_id, group_id) optind.
       if optind \<ge> argc argv then chown_usage (hd argv) EXIT_FAILURE (Some ''The file path is required'')
       else if optind < argc argv - 1 then chown_usage (hd argv) EXIT_FAILURE (Some ''Too many arguments.'')
       else bind_result (argv_at argv optind) (\<lambda>path.
       Returns (path, user_id, group_id)))"

definition chown_handle_arguments :: "nat \<Rightarrow> nat \<Rightarrow> string \<Rightarrow> string option \<Rightarrow> string option \<Rightarrow> string option \<Rightarrow> (uint64 \<times> uint64) result" where
  "chown_handle_arguments sizeof_uid_t sizeof_gid_t binary_name path user_id group_id =
     (if path = None then chown_usage binary_name EXIT_FAILURE (Some ''The path is required.'')
      else if user_id = None then chown_usage binary_name EXIT_FAILURE (Some ''The user id is required.'')
      else if group_id = None then chown_usage binary_name EXIT_FAILURE (Some ''The group id is required.'')
      else bind_result (chown_parse_uid_t sizeof_uid_t binary_name (the user_id)) (\<lambda>uid.
      bind_result (chown_parse_gid_t sizeof_gid_t binary_name (the group_id)) (\<lambda>gid.
      Returns (uid, gid))))"

definition chown_arguments :: "nat \<Rightarrow> nat \<Rightarrow> string list \<Rightarrow> (string option \<times> string option \<times> string option \<times> uint64 \<times> uint64) result" where
  "chown_arguments sizeof_uid_t sizeof_gid_t argv =
     bind_result (chown_parse_arguments argv None None) (\<lambda>(path, user_id, group_id).
     bind_result (chown_handle_arguments sizeof_uid_t sizeof_gid_t (hd argv) path user_id group_id) (\<lambda>(uid, gid).
       Returns (path, user_id, group_id, uid, gid)))"

subsection \<open>file-system/lstat/main.c\<close>

definition lstat_usage :: "string \<Rightarrow> int \<Rightarrow> string option \<Rightarrow> 'a result" where
  "lstat_usage program_name exit_code message =
     usage_exit
       [''Usage: '' @ program_name @ '' [-h] <file path>'',
        ''Options:'',
        ''  -h  Display this help message''] exit_code message"

definition lstat_parse_arguments :: "string list \<Rightarrow> string option result" where
  "lstat_parse_arguments argv =
     with_options argv ''h''
       (help_cases lstat_usage (hd argv)) ()
       (\<lambda>_ optind.
       if optind \<ge> argc argv then lstat_usage (hd argv) EXIT_FAILURE (Some ''The file path is required'')
       else if optind < argc argv - 1 then lstat_usage (hd argv) EXIT_FAILURE (Some ''Too many arguments.'')
       else bind_result (argv_at argv optind) (\<lambda>file_path.
       Returns file_path))"

definition lstat_handle_arguments :: "string \<Rightarrow> string option \<Rightarrow> unit result" where
  "lstat_handle_arguments binary_name file_path =
     (if file_path = None then lstat_usage binary_name EXIT_FAILURE (Some ''The file path is required.'')
      else Returns ())"

definition lstat_arguments :: "string list \<Rightarrow> string option result" where
  "lstat_arguments argv =
     bind_result (lstat_parse_arguments argv) (\<lambda>file_path.
     bind_result (lstat_handle_arguments (hd argv) file_path) (\<lambda>_.
       Returns file_path))"

subsection \<open>file-system/opendir-closedir/main.c\<close>

definition opendir_usage :: "string \<Rightarrow> int \<Rightarrow> string option \<Rightarrow> 'a result" where
  "opendir_usage program_name exit_code message =
     usage_exit
       [''Usage: '' @ program_name @ '' [-h] <directory path>'',
        ''Options:'',
        ''  -h  Display this help message''] exit_code message"

definition opendir_parse_arguments :: "string list \<Rightarrow> string option result" where
  "opendir_parse_arguments argv =
     with_options argv ''h''
       (help_cases opendir_usage (hd argv)) ()
       (\<lambda>_ optind.
       if optind \<ge> argc argv then opendir_usage (hd argv) EXIT_FAILURE (Some ''The directory path is required'')
       else if optind < argc argv - 1 then opendir_usage (hd argv) EXIT_FAILURE (Some ''Too many arguments.'')
       else bind_result (argv_at argv optind) (\<lambda>directory_path.
       Returns directory_path))"

definition opendir_handle_arguments :: "string \<Rightarrow> string option \<Rightarrow> unit result" where
  "opendir_handle_arguments binary_name directory_path =
     (if directory_path = None then opendir_usage binary_name EXIT_FAILURE (Some ''The directory path is required.'')
      else Returns ())"

definition opendir_arguments :: "string list \<Rightarrow> string option result" where
  "opendir_arguments argv =
     bind_result (opendir_parse_arguments argv) (\<lambda>directory_path.
     bind_result (opendir_handle_arguments (hd argv) directory_path) (\<lambda>_.
       Returns directory_path))"

subsection \<open>file-system/readdir/main.c\<close>

definition readdir_usage :: "string \<Rightarrow> int \<Rightarrow> string option \<Rightarrow> 'a result" where
  "readdir_usage program_name exit_code message =
     usage_exit
       [''Usage: '' @ program_name @ '' [-h] <directory path>'',
        ''Options:'',
        ''  -h  Display this help message''] exit_code message"

definition readdir_parse_arguments :: "string list \<Rightarrow> string option result" where
  "readdir_parse_arguments argv =
     with_options argv ''h''
       (help_cases readdir_usage (hd argv)) ()
       (\<lambda>_ optind.
       if optind \<ge> argc argv then readdir_usage (hd argv) EXIT_FAILURE (Some ''The directory path is required'')
       else if optind < argc argv - 1 then readdir_usage (hd argv) EXIT_FAILURE (Some ''Too many arguments.'')
       else bind_result (argv_at argv optind) (\<lambda>directory_path.
       Returns directory_path))"

definition readdir_handle_arguments :: "string \<Rightarrow> string option \<Rightarrow> unit result" where
  "readdir_handle_arguments binary_name directory_path =
     (if directory_path = None then readdir_usage binary_name EXIT_FAILURE (Some ''The directory path is required.'')
      else Returns ())"

definition readdir_arguments :: "string list \<Rightarrow> string option result" where
  "readdir_arguments argv =
     bind_result (readdir_parse_arguments argv) (\<lambda>directory_path.
     bind_result (readdir_handle_arguments (hd argv) directory_path) (\<lambda>_.
       Returns directory_path))"

subsection \<open>file-system/stat/main.c\<close>

definition stat_usage :: "string \<Rightarrow> int \<Rightarrow> string option \<Rightarrow> 'a result" where
  "stat_usage program_name exit_code message =
     usage_exit
       [''Usage: '' @ program_name @ '' [-h] <file path>'',
        ''Options:'',
        ''  -h  Display this help message''] exit_code message"

definition stat_parse_arguments :: "string list \<Rightarrow> string option result" where
  "stat_parse_arguments argv =
     with_options argv ''h''
       (help_cases stat_usage (hd argv)) ()
       (\<lambda>_ optind.
       if optind \<ge> argc argv then stat_usage (hd argv) EXIT_FAILURE (Some ''The file path is required'')
       else if optind < argc argv - 1 then stat_usage (hd argv) EXIT_FAILURE (Some ''Too many arguments.'')
       else bind_result (argv_at argv optind) (\<lambda>file_path.
       Returns file_path))"

definition stat_handle_arguments :: "string \<Rightarrow> string option \<Rightarrow> unit result" where
  "stat_handle_arguments binary_name file_path =
     (if file_path = None then stat_usage binary_name EXIT_FAILURE (Some ''The file path is required.'')
      else Returns ())"

definition stat_arguments :: "string list \<Rightarrow> string option result" where
  "stat_arguments argv =
     bind_result (stat_parse_arguments argv) (\<lambda>file_path.
     bind_result (stat_handle_arguments (hd argv) file_path) (\<lambda>_.
       Returns file_path))"

subsection \<open>file-system/unlink/main.c\<close>

definition unlink_usage :: "string \<Rightarrow> int \<Rightarrow> string option \<Rightarrow> 'a result" where
  "unlink_usage program_name exit_code message =
     usage_exit
       [''Usage: '' @ program_name @ '' [-h] <file path>'',
        ''Options:'',
        ''  -h  Display this help message''] exit_code message"

definition unlink_parse_arguments :: "string list \<Rightarrow> string option result" where
  "unlink_parse_arguments argv =
     with_options argv ''h''
       (help_cases unlink_usage (hd argv)) ()
       (\<lambda>_ optind.
       if optind \<ge> argc argv then unlink_usage (hd argv) EXIT_FAILURE (Some ''The file path is required'')
       else if optind < argc argv - 1 then unlink_usage (hd argv) EXIT_FAILURE (Some ''Too many arguments.'')
       else bind_result (argv_at argv optind) (\<lambda>file_path.
       Returns file_path))"

definition unlink_handle_arguments :: "string \<Rightarrow> string option \<Rightarrow> unit result" where
  "unlink_handle_arguments binary_name file_path =
     (if file_path = None then unlink_usage binary_name EXIT_FAILURE (Some ''The file path is required.'')
      else Returns ())"

definition unlink_arguments :: "string list \<Rightarrow> string option result" where
  "unlink_arguments argv =
     bind_result (unlink_parse_arguments argv) (\<lambda>file_path.
     bind_result (unlink_handle_arguments (hd argv) file_path) (\<lambda>_.
       Returns file_path))"

subsection \<open>file-tree-walking/nftw/main.c\<close>

definition nftw_usage :: "string \<Rightarrow> int \<Rightarrow> string option \<Rightarrow> 'a result" where
  "nftw_usage program_name exit_code message =
     usage_exit
       [''Usage: '' @ program_name @ '' [-h] <directory path>'',
        ''Options:'',
        ''  -h  Display this help message''] exit_code message"

definition nftw_parse_arguments :: "string list \<Rightarrow> string option result" where
  "nftw_parse_arguments argv =
     with_options argv ''h''
       (help_cases nftw_usage (hd argv)) ()
       (\<lambda>_ optind.
       if optind \<ge> argc argv then nftw_usage (hd argv) EXIT_FAILURE (Some ''The directory path is required'')
       else if optind < argc argv - 1 then nftw_usage (hd argv) EXIT_FAILURE (Some ''Too many arguments.'')
       else bind_result (argv_at argv optind) (\<lambda>directory_path.
       Returns directory_path))"

definition nftw_handle_arguments :: "string \<Rightarrow> string option \<Rightarrow> unit result" where
  "nftw_handle_arguments binary_name directory_path =
     (if directory_path = None then nftw_usage binary_name EXIT_FAILURE (Some ''The directory path is required.'')
      else Returns ())"

definition nftw_arguments :: "string list \<Rightarrow> string option result" where
  "nftw_arguments argv =
     bind_result (nftw_parse_arguments argv) (\<lambda>directory_path.
     bind_result (nftw_handle_arguments (hd argv) directory_path) (\<lambda>_.
       Returns directory_path))"

subsection \<open>files/S\_IS/main.c\<close>

definition S_IS_usage :: "string \<Rightarrow> int \<Rightarrow> string option \<Rightarrow> 'a result" where
  "S_IS_usage program_name exit_code message =
     usage_exit
       [''Usage: '' @ program_name @ '' [-h] <file name>'',
        ''Options:'',
        ''  -h  Display this help message''] exit_code message"

definition S_IS_parse_arguments :: "string list \<Rightarrow> string option result" where
  "S_IS_parse_arguments argv =
     with_options argv ''h''
       (help_cases S_IS_usage (hd argv)) ()
       (\<lambda>_ optind.
       if optind \<ge> argc argv then S_IS_usage (hd argv) EXIT_FAILURE (Some ''The file name is required'')
       else if optind < argc argv - 1 then S_IS_usage (hd argv) EXIT_FAILURE (Some ''Too many arguments.'')
       else bind_result (argv_at argv optind) (\<lambda>file_path.
       Returns file_path))"

definition S_IS_handle_arguments :: "string \<Rightarrow> string option \<Rightarrow> unit result" where
  "S_IS_handle_arguments binary_name file_path =
     (if file_path = None then S_IS_usage binary_name EXIT_FAILURE (Some ''The file path is required.'')
      else Returns ())"

definition S_IS_arguments :: "string list \<Rightarrow> string option result" where
  "S_IS_arguments argv =
     bind_result (S_IS_parse_arguments argv) (\<lambda>file_path.
     bind_result (S_IS_handle_arguments (hd argv) file_path) (\<lambda>_.
       Returns file_path))"

subsection \<open>files/fcntl/main.c\<close>

definition fcntl_usage :: "string \<Rightarrow> int \<Rightarrow> string option \<Rightarrow> 'a result" where
  "fcntl_usage program_name exit_code message =
     usage_exit
       [''Usage: '' @ program_name @ '' [-h] <file path>'',
        ''Options:'',
        ''  -h  Display this help message''] exit_code message"

definition fcntl_parse_arguments :: "string list \<Rightarrow> string option result" where
  "fcntl_parse_arguments argv =
     with_options argv ''h''
       (help_cases fcntl_usage (hd argv)) ()
       (\<lambda>_ optind.
       if optind \<ge> argc argv then fcntl_usage (hd argv) EXIT_FAILURE (Some ''The file path is required'')
       else if optind < argc argv - 1 then fcntl_usage (hd argv) EXIT_FAILURE (Some ''Too many arguments.'')
       else bind_result (argv_at argv optind) (\<lambda>file_path.
       Returns file_path))"

definition fcntl_handle_arguments :: "string \<Rightarrow> string option \<Rightarrow> unit result" where
  "fcntl_handle_arguments binary_name file_path =
     (if file_path = None then fcntl_usage binary_name EXIT_FAILURE (Some ''The file path is required.'')
      else Returns ())"

definition fcntl_arguments :: "string list \<Rightarrow> string option result" where
  "fcntl_arguments argv =
     bind_result (fcntl_parse_arguments argv) (\<lambda>file_path.
     bind_result (fcntl_handle_arguments (hd argv) file_path) (\<lambda>_.
       Returns file_path))"

subsection \<open>files/fdopen/main.c\<close>

definition fdopen_usage :: "string \<Rightarrow> int \<Rightarrow> string option \<Rightarrow> 'a result" where
  "fdopen_usage program_name exit_code message =
     usage_exit
       [''Usage: '' @ program_name @ '' [-h] <file path>'',
        ''Options:'',
        ''  -h  Display this help message''] exit_code message"

definition fdopen_parse_arguments :: "string list \<Rightarrow> string option result" where
  "fdopen_parse_arguments argv =
     with_options argv ''h''
       (help_cases fdopen_usage (hd argv)) ()
       (\<lambda>_ optind.
       if optind \<ge> argc argv then fdopen_usage (hd argv) EXIT_FAILURE (Some ''The file path is required'')
       else if optind < argc argv - 1 then fdopen_usage (hd argv) EXIT_FAILURE (Some ''Too many arguments.'')
       else bind_result (argv_at argv optind) (\<lambda>file_path.
       Returns file_path))"

definition fdopen_handle_arguments :: "string \<Rightarrow> string option \<Rightarrow> unit result" where
  "fdopen_handle_arguments binary_name file_path =
     (if file_path = None then fdopen_usage binary_name EXIT_FAILURE (Some ''The file path is required.'')
      else Returns ())"

definition fdopen_arguments :: "string list \<Rightarrow> string option result" where
  "fdopen_arguments argv =
     bind_result (fdopen_parse_arguments argv) (\<lambda>file_path.
     bind_result (fdopen_handle_arguments (hd argv) file_path) (\<lambda>_.
       Returns file_path))"

subsection \<open>files/fstat/main.c\<close>

definition fstat_usage :: "string \<Rightarrow> int \<Rightarrow> string option \<Rightarrow> 'a result" where
  "fstat_usage program_name exit_code message =
     usage_exit
       [''Usage: '' @ program_name @ '' [-h] <file path>'',
        ''Options:'',
        ''  -h  Display this help message''] exit_code message"

definition fstat_parse_arguments :: "string list \<Rightarrow> string option result" where
  "fstat_parse_arguments argv =
     with_options argv ''h''
       (help_cases fstat_usage (hd argv)) ()
       (\<lambda>_ optind.
       if optind \<ge> argc argv then fstat_usage (hd argv) EXIT_FAILURE (Some ''The file path is required'')
       else if optind < argc argv - 1 then fstat_usage (hd argv) EXIT_FAILURE (Some ''Too many arguments.'')
       else bind_result (argv_at argv optind) (\<lambda>file_path.
       Returns file_path))"

definition fstat_handle_arguments :: "string \<Rightarrow> string option \<Rightarrow> unit result" where
  "fstat_handle_arguments binary_name file_path =
     (if file_path = None then fstat_usage binary_name EXIT_FAILURE (Some ''The file path is required.'')
      else Returns ())"

definition fstat_arguments :: "string list \<Rightarrow> string option result" where
  "fstat_arguments argv =
     bind_result (fstat_parse_arguments argv) (\<lambda>file_path.
     bind_result (fstat_handle_arguments (hd argv) file_path) (\<lambda>_.
       Returns file_path))"

subsection \<open>files/lseek/main.c\<close>

definition lseek_usage :: "string \<Rightarrow> int \<Rightarrow> string option \<Rightarrow> 'a result" where
  "lseek_usage program_name exit_code message =
     usage_exit
       [''Usage: '' @ program_name @ '' [-h] -o <offset> <file path>'',
        ''Options:'',
        ''  -h           Display this help message'',
        ''  -o <offset>  The offset to move from the start of the file''] exit_code message"

definition lseek_get_off_t_min :: "nat \<Rightarrow> int result" where
  "lseek_get_off_t_min sizeof_off_t =
     (if sizeof_off_t = sizeof_char then Returns SCHAR_MIN
      else if sizeof_off_t = sizeof_short then Returns SHRT_MIN
      else if sizeof_off_t = sizeof_int then Returns INT_MIN
      else if sizeof_off_t = sizeof_long then Returns LONG_MIN
      else if sizeof_off_t = sizeof_long_long then Returns LLONG_MIN
      else Exits EXIT_FAILURE [Text (''Unsupported size of off_t'' @ [NL])])"

definition lseek_get_off_t_max :: "nat \<Rightarrow> int result" where
  "lseek_get_off_t_max sizeof_off_t =
     (if sizeof_off_t = sizeof_char then Returns SCHAR_MAX
      else if sizeof_off_t = sizeof_short then Returns SHRT_MAX
      else if sizeof_off_t = sizeof_int then Returns INT_MAX
      else if sizeof_off_t = sizeof_long then Returns LONG_MAX
      else if sizeof_off_t = sizeof_long_long then Returns LLONG_MAX
      else Exits EXIT_FAILURE [Text (''Unsupported size of off_t'' @ [NL])])"

definition lseek_parse_off_t :: "string \<Rightarrow> int \<Rightarrow> int \<Rightarrow> string \<Rightarrow> int result" where
  "lseek_parse_off_t binary_name min_value max_value str =
     (case strtoimax str of (parsed_value, endptr, erange) \<Rightarrow>
      if erange then lseek_usage binary_name EXIT_FAILURE (Some ''Error parsing off_t.'')
      else if endptr \<noteq> [] then lseek_usage binary_name EXIT_FAILURE (Some ''Invalid characters in input.'')
      else if parsed_value < min_value \<or> max_value < parsed_value then lseek_usage binary_name EXIT_FAILURE (Some ''off_t value out of range.'')
      else Returns parsed_value)"

definition lseek_parse_arguments :: "string list \<Rightarrow> string option \<Rightarrow> (string option \<times> string option) result" where
  "lseek_parse_arguments argv offset =
     with_options argv ''ho:''
       (option_case (CHR ''o'') (\<lambda>arg _. arg)
       (help_cases lseek_usage (hd argv))) offset
       (\<lambda>offset optind.
       if optind \<ge> argc argv then lseek_usage (hd argv) EXIT_FAILURE (Some ''The file path is required'')
       else if optind < argc argv - 1 then lseek_usage (hd argv) EXIT_FAILURE (Some ''Too many arguments.'')
       else bind_result (argv_at argv optind) (\<lambda>file_path.
       Returns (file_path, offset)))"

definition lseek_handle_arguments :: "nat \<Rightarrow> string \<Rightarrow> string option \<Rightarrow> string option \<Rightarrow> int result" where
  "lseek_handle_arguments sizeof_off_t binary_name file_path offset_str =
     (if file_path = None then lseek_usage binary_name EXIT_FAILURE (Some ''The file path is required.'')
      else if offset_str = None then lseek_usage binary_name EXIT_FAILURE (Some ''The offset is required.'')
      else bind_result (lseek_get_off_t_min sizeof_off_t) (\<lambda>min_value.
      bind_result (lseek_get_off_t_max sizeof_off_t) (\<lambda>max_value.
      bind_result (lseek_parse_off_t binary_name min_value max_value (the offset_str)) (\<lambda>offset.
      Returns offset))))"

definition lseek_arguments :: "nat \<Rightarrow> string list \<Rightarrow> (string option \<times> string option \<times> int) result" where
  "lseek_arguments sizeof_off_t argv =
     bind_result (lseek_parse_arguments argv None) (\<lambda>(file_path, offset_str).
     bind_result (lseek_handle_arguments sizeof_off_t (hd argv) file_path offset_str) (\<lambda>offset.
       Returns (file_path, offset_str, offset)))"

subsection \<open>files/open-close/main.c\<close>

definition open_usage :: "string \<Rightarrow> int \<Rightarrow> string option \<Rightarrow> 'a result" where
  "open_usage program_name exit_code message =
     usage_exit
       [''Usage: '' @ program_name @ '' [-h] <file path>'',
        ''Options:'',
        ''  -h  Display this help message''] exit_code message"

definition open_parse_arguments :: "string list \<Rightarrow> string option result" where
  "open_parse_arguments argv =
     with_options argv ''h''
       (help_cases open_usage (hd argv)) ()
       (\<lambda>_ optind.
       if optind \<ge> argc argv then open_usage (hd argv) EXIT_FAILURE (Some ''The file path is required'')
       else if optind < argc argv - 1 then open_usage (hd argv) EXIT_FAILURE (Some ''Too many arguments.'')
       else bind_result (argv_at argv optind) (\<lambda>file_path.
       Returns file_path))"

definition open_handle_arguments :: "string \<Rightarrow> string option \<Rightarrow> unit result" where
  "open_handle_arguments binary_name file_path =
     (if file_path = None then open_usage binary_name EXIT_FAILURE (Some ''The file path is required.'')
      else Returns ())"

definition open_arguments :: "string list \<Rightarrow> string option result" where
  "open_arguments argv =
     bind_result (open_parse_arguments argv) (\<lambda>file_path.
     bind_result (open_handle_arguments (hd argv) file_path) (\<lambda>_.
       Returns file_path))"

subsection \<open>path-manipulation/basename/main.c\<close>

definition basename_usage :: "string \<Rightarrow> int \<Rightarrow> string option \<Rightarrow> 'a result" where
  "basename_usage program_name exit_code message =
     usage_exit
       [''Usage: '' @ program_name @ '' [-h] <path>'',
        ''Options:'',
        ''  -h  Display this help message''] exit_code message"

definition basename_parse_arguments :: "string list \<Rightarrow> string option result" where
  "basename_parse_arguments argv =
     with_options argv ''h''
       (help_cases basename_usage (hd argv)) ()
       (\<lambda>_ optind.
       if optind \<ge> argc argv then basename_usage (hd argv) EXIT_FAILURE (Some ''The path is required'')
       else if optind < argc argv - 1 then basename_usage (hd argv) EXIT_FAILURE (Some ''Too many arguments.'')
       else bind_result (argv_at argv optind) (\<lambda>path.
       Returns path))"

definition basename_handle_arguments :: "string \<Rightarrow> string option \<Rightarrow> unit result" where
  "basename_handle_arguments binary_name path =
     (if path = None then basename_usage binary_name EXIT_FAILURE (Some ''The path is required.'')
      else Returns ())"

definition basename_arguments :: "string list \<Rightarrow> string option result" where
  "basename_arguments argv =
     bind_result (basename_parse_arguments argv) (\<lambda>path.
     bind_result (basename_handle_arguments (hd argv) path) (\<lambda>_.
       Returns path))"

subsection \<open>path-manipulation/dirname/main.c\<close>

definition dirname_usage :: "string \<Rightarrow> int \<Rightarrow> string option \<Rightarrow> 'a result" where
  "dirname_usage program_name exit_code message =
     usage_exit
       [''Usage: '' @ program_name @ '' [-h] <path>'',
        ''Options:'',
        ''  -h  Display this help message''] exit_code message"

definition dirname_parse_arguments :: "string list \<Rightarrow> string option result" where
  "dirname_parse_arguments argv =
     with_options argv ''h''
       (help_cases dirname_usage (hd argv)) ()
       (\<lambda>_ optind.
       if optind \<ge> argc argv then dirname_usage (hd argv) EXIT_FAILURE (Some ''The path is required'')
       else if optind < argc argv - 1 then dirname_usage (hd argv) EXIT_FAILURE (Some ''Too many arguments.'')
       else bind_result (argv_at argv optind) (\<lambda>path.
       Returns path))"

definition dirname_handle_arguments :: "string \<Rightarrow> string option \<Rightarrow> unit result" where
  "dirname_handle_arguments binary_name path =
     (if path = None then dirname_usage binary_name EXIT_FAILURE (Some ''The path is required.'')
      else Returns ())"

definition dirname_arguments :: "string list \<Rightarrow> string option result" where
  "dirname_arguments argv =
     bind_result (dirname_parse_arguments argv) (\<lambda>path.
     bind_result (dirname_handle_arguments (hd argv) path) (\<lambda>_.
       Returns path))"

subsection \<open>path-manipulation/fnmatch/main.c\<close>

definition fnmatch_usage :: "string \<Rightarrow> int \<Rightarrow> string option \<Rightarrow> 'a result" where
  "fnmatch_usage program_name exit_code message =
     usage_exit
       [''Usage: '' @ program_name @ '' [-h] <pattern> <path1> [path2 ...]'',
        ''Options:'',
        ''  -h  Display this help message''] exit_code message"

definition fnmatch_parse_arguments :: "string list \<Rightarrow> string option result" where
  "fnmatch_parse_arguments argv =
     with_options argv ''h''
       (help_cases fnmatch_usage (hd argv)) ()
       (\<lambda>_ optind.
       if optind \<ge> argc argv then fnmatch_usage (hd argv) EXIT_FAILURE (Some ''The pattern and at least one path are required'')
       else if optind + 1 \<ge> argc argv then fnmatch_usage (hd argv) EXIT_FAILURE (Some ''At least one path is required'')
       else bind_result (argv_at argv optind) (\<lambda>pattern.
       Returns pattern))"

definition fnmatch_handle_arguments :: "string \<Rightarrow> string option \<Rightarrow> unit result" where
  "fnmatch_handle_arguments binary_name pattern =
     (if pattern = None then fnmatch_usage binary_name EXIT_FAILURE (Some ''The pattern is required.'')
      else Returns ())"

definition fnmatch_arguments :: "string list \<Rightarrow> string option result" where
  "fnmatch_arguments argv =
     bind_result (fnmatch_parse_arguments argv) (\<lambda>pattern.
     bind_result (fnmatch_handle_arguments (hd argv) pattern) (\<lambda>_.
       Returns pattern))"

subsection \<open>path-manipulation/glob-globfree/main.c\<close>

definition glob_usage :: "string \<Rightarrow> int \<Rightarrow> string option \<Rightarrow> 'a result" where
  "glob_usage program_name exit_code message =
     usage_exit
       [''Usage: '' @ program_name @ '' [-h] <pattern>'',
        ''Options:'',
        ''  -h  Display this help message''] exit_code message"

definition glob_parse_arguments :: "string list \<Rightarrow> string option result" where
  "glob_parse_arguments argv =
     with_options argv ''h''
       (help_cases glob_usage (hd argv)) ()
       (\<lambda>_ optind.
       if optind \<ge> argc argv then glob_usage (hd argv) EXIT_FAILURE (Some ''The pattern is required'')
       else if optind < argc argv - 1 then glob_usage (hd argv) EXIT_FAILURE (Some ''Too many arguments.'')
       else bind_result (argv_at argv optind) (\<lambda>pattern.
       Returns pattern))"

definition glob_handle_arguments :: "string \<Rightarrow> string option \<Rightarrow> unit result" where
  "glob_handle_arguments binary_name pattern =
     (if pattern = None then glob_usage binary_name EXIT_FAILURE (Some ''The pattern is required.'')
      else Returns ())"

definition glob_arguments :: "string list \<Rightarrow> string option result" where
  "glob_arguments argv =
     bind_result (glob_parse_arguments argv) (\<lambda>pattern.
     bind_result (glob_handle_arguments (hd argv) pattern) (\<lambda>_.
       Returns pattern))"

subsection \<open>pipe/reliable/main.c\<close>

definition reliable_usage :: "string \<Rightarrow> int \<Rightarrow> string option \<Rightarrow> 'a result" where
  "reliable_usage program_name exit_code message =
     usage_exit
       [''Usage: '' @ program_name @ '' [-h] <file path>'',
        ''Options:'',
        ''  -h  Display this help message''] exit_code message"

definition reliable_parse_arguments :: "string list \<Rightarrow> string option result" where
  "reliable_parse_arguments argv =
     with_options argv ''h''
       (help_cases reliable_usage (hd argv)) ()
       (\<lambda>_ optind.
       if optind \<ge> argc argv then reliable_usage (hd argv) EXIT_FAILURE (Some ''The file path is required'')
       else if optind < argc argv - 1 then reliable_usage (hd argv) EXIT_FAILURE (Some ''Too many arguments.'')
       else bind_result (argv_at argv optind) (\<lambda>file_path.
       Returns file_path))"

definition reliable_handle_arguments :: "string \<Rightarrow> string option \<Rightarrow> unit result" where
  "reliable_handle_arguments binary_name file_path =
     (if file_path = None then reliable_usage binary_name EXIT_FAILURE (Some ''The file path is required.'')
      else Returns ())"

definition reliable_arguments :: "string list \<Rightarrow> string option result" where
  "reliable_arguments argv =
     bind_result (reliable_parse_arguments argv) (\<lambda>file_path.
     bind_result (reliable_handle_arguments (hd argv) file_path) (\<lambda>_.
       Returns file_path))"

subsection \<open>pipe/simple/main.c\<close>

definition simple_usage :: "string \<Rightarrow> int \<Rightarrow> string option \<Rightarrow> 'a result" where
  "simple_usage program_name exit_code message =
     usage_exit
       [''Usage: '' @ program_name @ '' [-h] <file path>'',
        ''Options:'',
        ''  -h  Display this help message''] exit_code message"

definition simple_parse_arguments :: "string list \<Rightarrow> string option result" where
  "simple_parse_arguments argv =
     with_options argv ''h''
       (help_cases simple_usage (hd argv)) ()
       (\<lambda>_ optind.
       if optind \<ge> argc argv then simple_usage (hd argv) EXIT_FAILURE (Some ''The file path is required'')
       else if optind < argc argv - 1 then simple_usage (hd argv) EXIT_FAILURE (Some ''Too many arguments.'')
       else bind_result (argv_at argv optind) (\<lambda>file_path.
       Returns file_path))"

definition simple_handle_arguments :: "string \<Rightarrow> string option \<Rightarrow> unit result" where
  "simple_handle_arguments binary_name file_path =
     (if file_path = None then simple_usage binary_name EXIT_FAILURE (Some ''The file path is required.'')
      else Returns ())"

definition simple_arguments :: "string list \<Rightarrow> string option result" where
  "simple_arguments argv =
     bind_result (simple_parse_arguments argv) (\<lambda>file_path.
     bind_result (simple_handle_arguments (hd argv) file_path) (\<lambda>_.
       Returns file_path))"

subsection \<open>pipe/synchronized/main.c\<close>

definition synchronized_usage :: "string \<Rightarrow> int \<Rightarrow> string option \<Rightarrow> 'a result" where
  "synchronized_usage program_name exit_code message =
     usage_exit
       [''Usage: '' @ program_name @ '' [-h] <file path>'',
        ''Options:'',
        ''  -h  Display this help message''] exit_code message"

definition synchronized_parse_arguments :: "string list \<Rightarrow> string option result" where
  "synchronized_parse_arguments argv =
     with_options argv ''h''
       (help_cases synchronized_usage (hd argv)) ()
       (\<lambda>_ optind.
       if optind \<ge> argc argv then synchronized_usage (hd argv) EXIT_FAILURE (Some ''The file path is required'')
       else if optind < argc argv - 1 then synchronized_usage (hd argv) EXIT_FAILURE (Some ''Too many arguments.'')
       else bind_result (argv_at argv optind) (\<lambda>file_path.
       Returns file_path))"

definition synchronized_handle_arguments :: "string \<Rightarrow> string option \<Rightarrow> unit result" where
  "synchronized_handle_arguments binary_name file_path =
     (if file_path = None then synchronized_usage binary_name EXIT_FAILURE (Some ''The file path is required.'')
      else Returns ())"

definition synchronized_arguments :: "string list \<Rightarrow> string option result" where
  "synchronized_arguments argv =
     bind_result (synchronized_parse_arguments argv) (\<lambda>file_path.
     bind_result (synchronized_handle_arguments (hd argv) file_path) (\<lambda>_.
       Returns file_path))"

subsection \<open>shared-memory/mmap-munmap/client.c\<close>

definition mmap_client_usage :: "string \<Rightarrow> int \<Rightarrow> string option \<Rightarrow> 'a result" where
  "mmap_client_usage program_name exit_code message =
     usage_exit
       [''Usage: '' @ program_name @ '' [-h] <file path>'',
        ''Options:'',
        ''  -h  Display this help message''] exit_code message"

definition mmap_client_parse_arguments :: "string list \<Rightarrow> string option result" where
  "mmap_client_parse_arguments argv =
     with_options argv ''h''
       (help_cases mmap_client_usage (hd argv)) ()
       (\<lambda>_ optind.
       if optind \<ge> argc argv then mmap_client_usage (hd argv) EXIT_FAILURE (Some ''The file path is required'')
       else if optind < argc argv - 1 then mmap_client_usage (hd argv) EXIT_FAILURE (Some ''Too many arguments.'')
       else bind_result (argv_at argv optind) (\<lambda>file_path.
       Returns file_path))"

definition mmap_client_handle_arguments :: "string \<Rightarrow> string option \<Rightarrow> unit result" where
  "mmap_client_handle_arguments binary_name file_path =
     (if file_path = None then mmap_client_usage binary_name EXIT_FAILURE (Some ''The file path is required.'')
      else Returns ())"

definition mmap_client_arguments :: "string list \<Rightarrow> string option result" where
  "mmap_client_arguments argv =
     bind_result (mmap_client_parse_arguments argv) (\<lambda>file_path.
     bind_result (mmap_client_handle_arguments (hd argv) file_path) (\<lambda>_.
       Returns file_path))"

subsection \<open>shared-memory/shm\_open-shm\_unlink/main.c\<close>

definition shm_open_usage :: "string \<Rightarrow> int \<Rightarrow> string option \<Rightarrow> 'a result" where
  "shm_open_usage program_name exit_code message =
     usage_exit
       [''Usage: '' @ program_name @ '' [-h] <shared memory name>''] exit_code message"

definition shm_open_parse_arguments :: "string list \<Rightarrow> string option result" where
  "shm_open_parse_arguments argv =
     with_options argv ''h:''
       (help_cases_default shm_open_usage (hd argv) EXIT_SUCCESS None) ()
       (\<lambda>_ optind.
       if optind \<ge> argc argv then shm_open_usage (hd argv) EXIT_FAILURE (Some ''The library name is required'')
       else if optind < argc argv - 1 then shm_open_usage (hd argv) EXIT_FAILURE (Some ''Too many arguments.'')
       else bind_result (argv_at argv optind) (\<lambda>shm_name.
       Returns shm_name))"

definition shm_open_handle_arguments :: "string \<Rightarrow> string option \<Rightarrow> unit result" where
  "shm_open_handle_arguments binary_name shm_name =
     (if shm_name = None then shm_open_usage binary_name EXIT_FAILURE (Some ''The shared memory name is required.'')
      else Returns ())"

definition shm_open_arguments :: "string list \<Rightarrow> string option result" where
  "shm_open_arguments argv =
     bind_result (shm_open_parse_arguments argv) (\<lambda>shm_name.
     bind_result (shm_open_handle_arguments (hd argv) shm_name) (\<lambda>_.
       Returns shm_name))"

subsection \<open>streams/ferror/main.c\<close>

definition ferror_usage :: "string \<Rightarrow> int \<Rightarrow> string option \<Rightarrow> 'a result" where
  "ferror_usage program_name exit_code message =
     usage_exit
       [''Usage: '' @ program_name @ '' [-h] <file path>'',
        ''Options:'',
        ''  -h  Display this help message''] exit_code message"

definition ferror_parse_arguments :: "string list \<Rightarrow> string option result" where
  "ferror_parse_arguments argv =
     with_options argv ''h''
       (help_cases ferror_usage (hd argv)) ()
       (\<lambda>_ optind.
       if optind \<ge> argc argv then ferror_usage (hd argv) EXIT_FAILURE (Some ''The file path is required'')
       else if optind < argc argv - 1 then ferror_usage (hd argv) EXIT_FAILURE (Some ''Too many arguments.'')
       else bind_result (argv_at argv optind) (\<lambda>file_path.
       Returns file_path))"

definition ferror_handle_arguments :: "string \<Rightarrow> string option \<Rightarrow> unit result" where
  "ferror_handle_arguments binary_name file_path =
     (if file_path = None then ferror_usage binary_name EXIT_FAILURE (Some ''The file path is required.'')
      else Returns ())"

definition ferror_arguments :: "string list \<Rightarrow> string option result" where
  "ferror_arguments argv =
     bind_result (ferror_parse_arguments argv) (\<lambda>file_path.
     bind_result (ferror_handle_arguments (hd argv) file_path) (\<lambda>_.
       Returns file_path))"

subsection \<open>streams/fopen-fclose/main.c\<close>

definition fopen_usage :: "string \<Rightarrow> int \<Rightarrow> string option \<Rightarrow> 'a result" where
  "fopen_usage program_name exit_code message =
     usage_exit
       [''Usage: '' @ program_name @ '' [-h] <file name>'',
        ''Options:'',
        ''  -h  Display this help message''] exit_code message"

definition fopen_parse_arguments :: "string list \<Rightarrow> string option result" where
  "fopen_parse_arguments argv =
     with_options argv ''h''
       (help_cases fopen_usage (hd argv)) ()
       (\<lambda>_ optind.
       if optind \<ge> argc argv then fopen_usage (hd argv) EXIT_FAILURE (Some ''The file name is required'')
       else if optind < argc argv - 1 then fopen_usage (hd argv) EXIT_FAILURE (Some ''Too many arguments.'')
       else bind_result (argv_at argv optind) (\<lambda>file_path.
       Returns file_path))"

definition fopen_handle_arguments :: "string \<Rightarrow> string option \<Rightarrow> unit result" where
  "fopen_handle_arguments binary_name file_path =
     (if file_path = None then fopen_usage binary_name EXIT_FAILURE (Some ''The file path is required.'')
      else Returns ())"

definition fopen_arguments :: "string list \<Rightarrow> string option result" where
  "fopen_arguments argv =
     bind_result (fopen_parse_arguments argv) (\<lambda>file_path.
     bind_result (fopen_handle_arguments (hd argv) file_path) (\<lambda>_.
       Returns file_path))"

subsection \<open>streams/fprintf/main.c\<close>

definition fprintf_usage :: "string \<Rightarrow> int \<Rightarrow> string option \<Rightarrow> 'a result" where
  "fprintf_usage program_name exit_code message =
     usage_exit
       [''Usage: '' @ program_name @ '' [-h] <shared memory name>''] exit_code message"

definition fprintf_parse_arguments :: "string list \<Rightarrow> string option result" where
  "fprintf_parse_arguments argv =
     with_options argv ''h:''
       (help_cases_default fprintf_usage (hd argv) EXIT_SUCCESS None) ()
       (\<lambda>_ optind.
       if optind \<ge> argc argv then fprintf_usage (hd argv) EXIT_FAILURE (Some ''The library name is required'')
       else if optind < argc argv - 1 then fprintf_usage (hd argv) EXIT_FAILURE (Some ''Too many arguments.'')
       else bind_result (argv_at argv optind) (\<lambda>msg.
       Returns msg))"

definition fprintf_handle_arguments :: "string \<Rightarrow> string option \<Rightarrow> unit result" where
  "fprintf_handle_arguments binary_name message =
     (if message = None then fprintf_usage binary_name EXIT_FAILURE (Some ''The message is required.'')
      else Returns ())"

definition fprintf_arguments :: "string list \<Rightarrow> string option result" where
  "fprintf_arguments argv =
     bind_result (fprintf_parse_arguments argv) (\<lambda>message.
     bind_result (fprintf_handle_arguments (hd argv) message) (\<lambda>_.
       Returns message))"

subsection \<open>streams/fseek/main.c\<close>

definition fseek_usage :: "string \<Rightarrow> int \<Rightarrow> string option \<Rightarrow> 'a result" where
  "fseek_usage program_name exit_code message =
     usage_exit
       [''Usage: '' @ program_name @ '' [-h] <file path>'',
        ''Options:'',
        ''  -h           Display this help message'',
        ''  -o <offset>  The offset to move from the start of the file''] exit_code message"

definition fseek_parse_long :: "string \<Rightarrow> string \<Rightarrow> int result" where
  "fseek_parse_long binary_name str =
     (case strtoimax str of (parsed_value, endptr, erange) \<Rightarrow>
      if erange then fseek_usage binary_name EXIT_FAILURE (Some ''Error parsing unsigned integer.'')
      else if endptr \<noteq> [] then fseek_usage binary_name EXIT_FAILURE (Some ''Invalid characters in input.'')
      else if parsed_value < LONG_MIN \<or> LONG_MAX < parsed_value then fseek_usage binary_name EXIT_FAILURE (Some ''Unsigned integer out of range for signed long.'')
      else Returns parsed_value)"

definition fseek_parse_arguments :: "string list \<Rightarrow> string option \<Rightarrow> (string option \<times> string option) result" where
  "fseek_parse_arguments argv offset =
     with_options argv ''ho:''
       (option_case (CHR ''o'') (\<lambda>arg _. arg)
       (help_cases fseek_usage (hd argv))) offset
       (\<lambda>offset optind.
       if optind \<ge> argc argv then fseek_usage (hd argv) EXIT_FAILURE (Some ''The file path is required'')
       else if optind < argc argv - 1 then fseek_usage (hd argv) EXIT_FAILURE (Some ''Too many arguments.'')
       else bind_result (argv_at argv optind) (\<lambda>file_path.
       Returns (file_path, offset)))"

definition fseek_handle_arguments :: "string \<Rightarrow> string option \<Rightarrow> string option \<Rightarrow> int result" where
  "fseek_handle_arguments binary_name file_path offset_str =
     (if file_path = None then fseek_usage binary_name EXIT_FAILURE (Some ''The file path is required.'')
      else if offset_str = None then fseek_usage binary_name EXIT_FAILURE (Some ''The offset is required.'')
      else bind_result (fseek_parse_long binary_name (the offset_str)) (\<lambda>offset.
      Returns offset))"

definition fseek_arguments :: "string list \<Rightarrow> (string option \<times> string option \<times> int) result" where
  "fseek_arguments argv =
     bind_result (fseek_parse_arguments argv None) (\<lambda>(file_path, offset_str).
     bind_result (fseek_handle_arguments (hd argv) file_path offset_str) (\<lambda>offset.
       Returns (file_path, offset_str, offset)))"

subsection \<open>streams/fseeko/main.c\<close>

definition fseeko_usage :: "string \<Rightarrow> int \<Rightarrow> string option \<Rightarrow> 'a result" where
  "fseeko_usage program_name exit_code message =
     usage_exit
       [''Usage: '' @ program_name @ '' [-h] <file path>'',
        ''Options:'',
        ''  -h           Display this help message'',
        ''  -o <offset>  The offset to move from the start of the file''] exit_code message"

definition fseeko_get_off_t_min :: "nat \<Rightarrow> int result" where
  "fseeko_get_off_t_min sizeof_off_t =
     (if sizeof_off_t = sizeof_char then Returns SCHAR_MIN
      else if sizeof_off_t = sizeof_short then Returns SHRT_MIN
      else if sizeof_off_t = sizeof_int then Returns INT_MIN
      else if sizeof_off_t = sizeof_long then Returns LONG_MIN
      else if sizeof_off_t = sizeof_long_long then Returns LLONG_MIN
      else Exits EXIT_FAILURE [Text (''Unsupported size of off_t'' @ [NL])])"

definition fseeko_get_off_t_max :: "nat \<Rightarrow> int result" where
  "fseeko_get_off_t_max sizeof_off_t =
     (if sizeof_off_t = sizeof_char then Returns SCHAR_MAX
      else if sizeof_off_t = sizeof_short then Returns SHRT_MAX
      else if sizeof_off_t = sizeof_int then Returns INT_MAX
      else if sizeof_off_t = sizeof_long then Returns LONG_MAX
      else if sizeof_off_t = sizeof_long_long then Returns LLONG_MAX
      else Exits EXIT_FAILURE [Text (''Unsupported size of off_t'' @ [NL])])"

definition fseeko_parse_off_t :: "nat \<Rightarrow> string \<Rightarrow> string \<Rightarrow> int result" where
  "fseeko_parse_off_t sizeof_off_t binary_name str =
     bind_result (fseeko_get_off_t_min sizeof_off_t) (\<lambda>min_value.
      bind_result (fseeko_get_off_t_max sizeof_off_t) (\<lambda>max_value.
      (case strtoimax str of (parsed_value, endptr, erange) \<Rightarrow>
      if erange then fseeko_usage binary_name EXIT_FAILURE (Some ''Error parsing off_t.'')
      else if endptr \<noteq> [] then fseeko_usage binary_name EXIT_FAILURE (Some ''Invalid characters in input.'')
      else if parsed_value < min_value \<or> max_value < parsed_value then fseeko_usage binary_name EXIT_FAILURE (Some ''off_t value out of range.'')
      else Returns parsed_value)))"

definition fseeko_parse_arguments :: "string list \<Rightarrow> string option \<Rightarrow> (string option \<times> string option) result" where
  "fseeko_parse_arguments argv offset =
     with_options argv ''ho:''
       (option_case (CHR ''o'') (\<lambda>arg _. arg)
       (help_cases fseeko_usage (hd argv))) offset
       (\<lambda>offset optind.
       if optind \<ge> argc argv then fseeko_usage (hd argv) EXIT_FAILURE (Some ''The file path is required'')
       else if optind < argc argv - 1 then fseeko_usage (hd argv) EXIT_FAILURE (Some ''Too many arguments.'')
       else bind_result (argv_at argv optind) (\<lambda>file_path.
       Returns (file_path, offset)))"

definition fseeko_handle_arguments :: "nat \<Rightarrow> string \<Rightarrow> string option \<Rightarrow> string option \<Rightarrow> int result" where
  "fseeko_handle_arguments sizeof_off_t binary_name file_path offset_str =
     (if file_path = None then fseeko_usage binary_name EXIT_FAILURE (Some ''The file path is required.'')
      else if offset_str = None then fseeko_usage binary_name EXIT_FAILURE (Some ''The offset is required.'')
      else bind_result (fseeko_parse_off_t sizeof_off_t binary_name (the offset_str)) (\<lambda>offset.
      Returns offset))"

definition fseeko_arguments :: "nat \<Rightarrow> string list \<Rightarrow> (string option \<times> string option \<times> int) result" where
  "fseeko_arguments sizeof_off_t argv =
     bind_result (fseeko_parse_arguments argv None) (\<lambda>(file_path, offset_str).
     bind_result (fseeko_handle_arguments sizeof_off_t (hd argv) file_path offset_str) (\<lambda>offset.
       Returns (file_path, offset_str, offset)))"

section \<open>All of them\<close>

lemmas files_usage =
    access_usage_def chdir_usage_def chown_usage_def lstat_usage_def opendir_usage_def readdir_usage_def
    stat_usage_def unlink_usage_def nftw_usage_def S_IS_usage_def fcntl_usage_def fdopen_usage_def
    fstat_usage_def lseek_usage_def open_usage_def basename_usage_def dirname_usage_def fnmatch_usage_def
    glob_usage_def reliable_usage_def simple_usage_def synchronized_usage_def mmap_client_usage_def
    shm_open_usage_def ferror_usage_def fopen_usage_def fprintf_usage_def fseek_usage_def fseeko_usage_def

lemmas files_defs =
    access_parse_arguments_def access_handle_arguments_def access_arguments_def chdir_parse_arguments_def
    chdir_handle_arguments_def chdir_arguments_def chown_parse_arguments_def chown_get_uid_t_max_def
    chown_get_gid_t_max_def chown_parse_uid_t_def chown_parse_gid_t_def chown_handle_arguments_def
    chown_arguments_def lstat_parse_arguments_def lstat_handle_arguments_def lstat_arguments_def
    opendir_parse_arguments_def opendir_handle_arguments_def opendir_arguments_def
    readdir_parse_arguments_def readdir_handle_arguments_def readdir_arguments_def stat_parse_arguments_def
    stat_handle_arguments_def stat_arguments_def unlink_parse_arguments_def unlink_handle_arguments_def
    unlink_arguments_def nftw_parse_arguments_def nftw_handle_arguments_def nftw_arguments_def
    S_IS_parse_arguments_def S_IS_handle_arguments_def S_IS_arguments_def fcntl_parse_arguments_def
    fcntl_handle_arguments_def fcntl_arguments_def fdopen_parse_arguments_def fdopen_handle_arguments_def
    fdopen_arguments_def fstat_parse_arguments_def fstat_handle_arguments_def fstat_arguments_def
    lseek_parse_arguments_def lseek_get_off_t_min_def lseek_get_off_t_max_def lseek_parse_off_t_def
    lseek_handle_arguments_def lseek_arguments_def open_parse_arguments_def open_handle_arguments_def
    open_arguments_def basename_parse_arguments_def basename_handle_arguments_def basename_arguments_def
    dirname_parse_arguments_def dirname_handle_arguments_def dirname_arguments_def
    fnmatch_parse_arguments_def fnmatch_handle_arguments_def fnmatch_arguments_def glob_parse_arguments_def
    glob_handle_arguments_def glob_arguments_def reliable_parse_arguments_def reliable_handle_arguments_def
    reliable_arguments_def simple_parse_arguments_def simple_handle_arguments_def simple_arguments_def
    synchronized_parse_arguments_def synchronized_handle_arguments_def synchronized_arguments_def
    mmap_client_parse_arguments_def mmap_client_handle_arguments_def mmap_client_arguments_def
    shm_open_parse_arguments_def shm_open_handle_arguments_def shm_open_arguments_def
    ferror_parse_arguments_def ferror_handle_arguments_def ferror_arguments_def fopen_parse_arguments_def
    fopen_handle_arguments_def fopen_arguments_def fprintf_parse_arguments_def fprintf_handle_arguments_def
    fprintf_arguments_def fseek_parse_arguments_def fseek_parse_long_def fseek_handle_arguments_def
    fseek_arguments_def fseeko_parse_arguments_def fseeko_get_off_t_min_def fseeko_get_off_t_max_def
    fseeko_parse_off_t_def fseeko_handle_arguments_def fseeko_arguments_def

text \<open>The command lines with \<^verbatim>\<open>-h\<close> as an option without argument, and the ones where the option string gives it one.\<close>

definition files_programs :: "(string list \<Rightarrow> ending) list" where
  "files_programs =
    [\<lambda>argv. outcome (access_arguments argv),
     \<lambda>argv. outcome (chdir_arguments argv),
     \<lambda>argv. outcome (chown_arguments 4 4 argv),
     \<lambda>argv. outcome (lstat_arguments argv),
     \<lambda>argv. outcome (opendir_arguments argv),
     \<lambda>argv. outcome (readdir_arguments argv),
     \<lambda>argv. outcome (stat_arguments argv),
     \<lambda>argv. outcome (unlink_arguments argv),
     \<lambda>argv. outcome (nftw_arguments argv),
     \<lambda>argv. outcome (S_IS_arguments argv),
     \<lambda>argv. outcome (fcntl_arguments argv),
     \<lambda>argv. outcome (fdopen_arguments argv),
     \<lambda>argv. outcome (fstat_arguments argv),
     \<lambda>argv. outcome (lseek_arguments 8 argv),
     \<lambda>argv. outcome (open_arguments argv),
     \<lambda>argv. outcome (basename_arguments argv),
     \<lambda>argv. outcome (dirname_arguments argv),
     \<lambda>argv. outcome (fnmatch_arguments argv),
     \<lambda>argv. outcome (glob_arguments argv),
     \<lambda>argv. outcome (reliable_arguments argv),
     \<lambda>argv. outcome (simple_arguments argv),
     \<lambda>argv. outcome (synchronized_arguments argv),
     \<lambda>argv. outcome (mmap_client_arguments argv),
     \<lambda>argv. outcome (ferror_arguments argv),
     \<lambda>argv. outcome (fopen_arguments argv),
     \<lambda>argv. outcome (fseek_arguments argv),
     \<lambda>argv. outcome (fseeko_arguments 8 argv)]"

definition files_argument_help_programs :: "(string list \<Rightarrow> ending) list" where
  "files_argument_help_programs =
    [\<lambda>argv. outcome (shm_open_arguments argv),
     \<lambda>argv. outcome (fprintf_arguments argv)]"

lemma files_defined:
  assumes "argv \<noteq> []" "p \<in> set files_programs \<union> set files_argument_help_programs"
  shows "p argv \<noteq> Breaks"
  using assms
  by (auto simp: files_programs_def files_argument_help_programs_def files_defs files_usage c_sizes bind_result_Undef_iff
      argv_at_Undef_iff split: prod.splits if_splits dest!: cli_Undef)

lemma files_help:
  "p \<in> set files_programs \<Longrightarrow> p (name # ''-h'' # args) = Leaves EXIT_SUCCESS"
  by (auto simp: files_programs_def files_defs files_usage cli_switch split: prod.splits)

end
