(* ===== verification/Cli_Identity.thy ===== *)
theory Cli_Identity
  imports Getopt Number_Parse
begin

text \<open>
  The command lines of the programs under \<^verbatim>\<open>groups and users\<close>
  of \<^verbatim>\<open>src\<close>: for each program its \<^verbatim>\<open>usage\<close>, its
  \<^verbatim>\<open>parse_...\<close> and \<^verbatim>\<open>get_..._max\<close> functions, \<^verbatim>\<open>parse_arguments\<close>,
  \<^verbatim>\<open>handle_arguments\<close>, and, as \<open>..._arguments\<close>, the two calls with which
  \<^verbatim>\<open>main\<close> begins. A \<^verbatim>\<open>char *\<close> variable is a \<^typ>\<open>string option\<close>, the null pointer
  being \<open>None\<close>; the variables a function sets through pointers are its result.
\<close>

section \<open>The programs\<close>

subsection \<open>groups/getgrgid/main.c\<close>

definition getgrgid_usage :: "string \<Rightarrow> int \<Rightarrow> string option \<Rightarrow> 'a result" where
  "getgrgid_usage program_name exit_code message =
     usage_exit
       [''Usage: '' @ program_name @ '' [-h] <group id>'',
        ''Options:'',
        ''  -h  Display this help message''] exit_code message"

definition getgrgid_get_gid_t_max :: "nat \<Rightarrow> uint64 result" where
  "getgrgid_get_gid_t_max sizeof_gid_t =
     (if sizeof_gid_t = sizeof_char then Returns (cast_unsigned sizeof_gid_t UCHAR_MAX)
      else if sizeof_gid_t = sizeof_short then Returns (cast_unsigned sizeof_gid_t USHRT_MAX)
      else if sizeof_gid_t = sizeof_int then Returns (cast_unsigned sizeof_gid_t UINT_MAX)
      else if sizeof_gid_t = sizeof_long then Returns (cast_unsigned sizeof_gid_t ULONG_MAX)
      else if sizeof_gid_t = sizeof_long_long then Returns (cast_unsigned sizeof_gid_t ULLONG_MAX)
      else Exits EXIT_FAILURE [Text (''Unsupported size of gid_t'' @ [NL])])"

definition getgrgid_parse_gid_t :: "nat \<Rightarrow> string \<Rightarrow> string \<Rightarrow> uint64 result" where
  "getgrgid_parse_gid_t sizeof_gid_t binary_name str =
     bind_result (getgrgid_get_gid_t_max sizeof_gid_t) (\<lambda>max_value.
      (case strtoumax str of (parsed_value, endptr, erange) \<Rightarrow>
      if erange then getgrgid_usage binary_name EXIT_FAILURE (Some ''Error parsing gid_t.'')
      else if endptr \<noteq> [] then getgrgid_usage binary_name EXIT_FAILURE (Some ''Invalid characters in input.'')
      else if max_value < parsed_value then getgrgid_usage binary_name EXIT_FAILURE (Some ''gid_t value out of range.'')
      else Returns (cast_unsigned sizeof_gid_t parsed_value)))"

definition getgrgid_parse_arguments :: "string list \<Rightarrow> string option result" where
  "getgrgid_parse_arguments argv =
     with_options argv ''h''
       (help_cases getgrgid_usage (hd argv)) ()
       (\<lambda>_ optind.
       if optind \<ge> argc argv then getgrgid_usage (hd argv) EXIT_FAILURE (Some ''The group id is required'')
       else if optind < argc argv - 1 then getgrgid_usage (hd argv) EXIT_FAILURE (Some ''Too many arguments.'')
       else bind_result (argv_at argv optind) (\<lambda>group_id.
       Returns group_id))"

definition getgrgid_handle_arguments :: "nat \<Rightarrow> string \<Rightarrow> string option \<Rightarrow> uint64 result" where
  "getgrgid_handle_arguments sizeof_gid_t binary_name group_id =
     (if group_id = None then getgrgid_usage binary_name EXIT_FAILURE (Some ''The group id is required.'')
      else bind_result (getgrgid_parse_gid_t sizeof_gid_t binary_name (the group_id)) (\<lambda>gid.
      Returns gid))"

definition getgrgid_arguments :: "nat \<Rightarrow> string list \<Rightarrow> (string option \<times> uint64) result" where
  "getgrgid_arguments sizeof_gid_t argv =
     bind_result (getgrgid_parse_arguments argv) (\<lambda>group_id.
     bind_result (getgrgid_handle_arguments sizeof_gid_t (hd argv) group_id) (\<lambda>gid.
       Returns (group_id, gid)))"

subsection \<open>groups/getgrnam/main.c\<close>

definition getgrnam_usage :: "string \<Rightarrow> int \<Rightarrow> string option \<Rightarrow> 'a result" where
  "getgrnam_usage program_name exit_code message =
     usage_exit
       [''Usage: '' @ program_name @ '' [-h] <group name>'',
        ''Options:'',
        ''  -h  Display this help message''] exit_code message"

definition getgrnam_parse_arguments :: "string list \<Rightarrow> string option result" where
  "getgrnam_parse_arguments argv =
     with_options argv ''h''
       (help_cases getgrnam_usage (hd argv)) ()
       (\<lambda>_ optind.
       if optind \<ge> argc argv then getgrnam_usage (hd argv) EXIT_FAILURE (Some ''The group name is required'')
       else if optind < argc argv - 1 then getgrnam_usage (hd argv) EXIT_FAILURE (Some ''Too many arguments.'')
       else bind_result (argv_at argv optind) (\<lambda>group_name.
       Returns group_name))"

definition getgrnam_handle_arguments :: "string \<Rightarrow> string option \<Rightarrow> unit result" where
  "getgrnam_handle_arguments binary_name group_name =
     (if group_name = None then getgrnam_usage binary_name EXIT_FAILURE (Some ''The group name is required.'')
      else Returns ())"

definition getgrnam_arguments :: "string list \<Rightarrow> string option result" where
  "getgrnam_arguments argv =
     bind_result (getgrnam_parse_arguments argv) (\<lambda>group_name.
     bind_result (getgrnam_handle_arguments (hd argv) group_name) (\<lambda>_.
       Returns group_name))"

subsection \<open>groups/setegid/main.c\<close>

definition setegid_usage :: "string \<Rightarrow> int \<Rightarrow> string option \<Rightarrow> 'a result" where
  "setegid_usage program_name exit_code message =
     usage_exit
       [''Usage: '' @ program_name @ '' [-h] <group id>'',
        ''Options:'',
        ''  -h  Display this help message''] exit_code message"

definition setegid_get_gid_t_max :: "nat \<Rightarrow> uint64 result" where
  "setegid_get_gid_t_max sizeof_gid_t =
     (if sizeof_gid_t = sizeof_char then Returns (cast_unsigned sizeof_gid_t UCHAR_MAX)
      else if sizeof_gid_t = sizeof_short then Returns (cast_unsigned sizeof_gid_t USHRT_MAX)
      else if sizeof_gid_t = sizeof_int then Returns (cast_unsigned sizeof_gid_t UINT_MAX)
      else if sizeof_gid_t = sizeof_long then Returns (cast_unsigned sizeof_gid_t ULONG_MAX)
      else if sizeof_gid_t = sizeof_long_long then Returns (cast_unsigned sizeof_gid_t ULLONG_MAX)
      else Exits EXIT_FAILURE [Text (''Unsupported size of gid_t'' @ [NL])])"

definition setegid_parse_gid_t :: "nat \<Rightarrow> string \<Rightarrow> string \<Rightarrow> uint64 result" where
  "setegid_parse_gid_t sizeof_gid_t binary_name str =
     (case strtoumax str of (parsed_value, endptr, erange) \<Rightarrow>
      if erange then setegid_usage binary_name EXIT_FAILURE (Some ''Error parsing gid_t.'')
      else if endptr \<noteq> [] then setegid_usage binary_name EXIT_FAILURE (Some ''Invalid characters in input.'')
      else bind_result (setegid_get_gid_t_max sizeof_gid_t) (\<lambda>max_value.
      if max_value < parsed_value then setegid_usage binary_name EXIT_FAILURE (Some ''gid_t value out of range.'')
      else Returns (cast_unsigned sizeof_gid_t parsed_value)))"

definition setegid_parse_arguments :: "string list \<Rightarrow> string option result" where
  "setegid_parse_arguments argv =
     with_options argv ''h''
       (help_cases setegid_usage (hd argv)) ()
       (\<lambda>_ optind.
       if optind \<ge> argc argv then setegid_usage (hd argv) EXIT_FAILURE (Some ''The group id is required'')
       else if optind < argc argv - 1 then setegid_usage (hd argv) EXIT_FAILURE (Some ''Too many arguments.'')
       else bind_result (argv_at argv optind) (\<lambda>group_id.
       Returns group_id))"

definition setegid_handle_arguments :: "nat \<Rightarrow> string \<Rightarrow> string option \<Rightarrow> uint64 result" where
  "setegid_handle_arguments sizeof_gid_t binary_name group_id =
     (if group_id = None then setegid_usage binary_name EXIT_FAILURE (Some ''The group id is required.'')
      else bind_result (setegid_parse_gid_t sizeof_gid_t binary_name (the group_id)) (\<lambda>gid.
      Returns gid))"

definition setegid_arguments :: "nat \<Rightarrow> string list \<Rightarrow> (string option \<times> uint64) result" where
  "setegid_arguments sizeof_gid_t argv =
     bind_result (setegid_parse_arguments argv) (\<lambda>group_id.
     bind_result (setegid_handle_arguments sizeof_gid_t (hd argv) group_id) (\<lambda>gid.
       Returns (group_id, gid)))"

subsection \<open>groups/setgid/main.c\<close>

definition setgid_usage :: "string \<Rightarrow> int \<Rightarrow> string option \<Rightarrow> 'a result" where
  "setgid_usage program_name exit_code message =
     usage_exit
       [''Usage: '' @ program_name @ '' [-h] <group id>'',
        ''Options:'',
        ''  -h  Display this help message''] exit_code message"

definition setgid_get_gid_t_max :: "nat \<Rightarrow> uint64 result" where
  "setgid_get_gid_t_max sizeof_gid_t =
     (if sizeof_gid_t = sizeof_char then Returns (cast_unsigned sizeof_gid_t UCHAR_MAX)
      else if sizeof_gid_t = sizeof_short then Returns (cast_unsigned sizeof_gid_t USHRT_MAX)
      else if sizeof_gid_t = sizeof_int then Returns (cast_unsigned sizeof_gid_t UINT_MAX)
      else if sizeof_gid_t = sizeof_long then Returns (cast_unsigned sizeof_gid_t ULONG_MAX)
      else if sizeof_gid_t = sizeof_long_long then Returns (cast_unsigned sizeof_gid_t ULLONG_MAX)
      else Exits EXIT_FAILURE [Text (''Unsupported size of gid_t'' @ [NL])])"

definition setgid_parse_gid_t :: "nat \<Rightarrow> string \<Rightarrow> string \<Rightarrow> uint64 result" where
  "setgid_parse_gid_t sizeof_gid_t binary_name str =
     (case strtoumax str of (parsed_value, endptr, erange) \<Rightarrow>
      if erange then setgid_usage binary_name EXIT_FAILURE (Some ''Error parsing gid_t.'')
      else if endptr \<noteq> [] then setgid_usage binary_name EXIT_FAILURE (Some ''Invalid characters in input.'')
      else bind_result (setgid_get_gid_t_max sizeof_gid_t) (\<lambda>max_value.
      if max_value < parsed_value then setgid_usage binary_name EXIT_FAILURE (Some ''gid_t value out of range.'')
      else Returns (cast_unsigned sizeof_gid_t parsed_value)))"

definition setgid_parse_arguments :: "string list \<Rightarrow> string option result" where
  "setgid_parse_arguments argv =
     with_options argv ''h''
       (help_cases setgid_usage (hd argv)) ()
       (\<lambda>_ optind.
       if optind \<ge> argc argv then setgid_usage (hd argv) EXIT_FAILURE (Some ''The group id is required'')
       else if optind < argc argv - 1 then setgid_usage (hd argv) EXIT_FAILURE (Some ''Too many arguments.'')
       else bind_result (argv_at argv optind) (\<lambda>group_id.
       Returns group_id))"

definition setgid_handle_arguments :: "nat \<Rightarrow> string \<Rightarrow> string option \<Rightarrow> uint64 result" where
  "setgid_handle_arguments sizeof_gid_t binary_name group_id =
     (if group_id = None then setgid_usage binary_name EXIT_FAILURE (Some ''The group id is required.'')
      else bind_result (setgid_parse_gid_t sizeof_gid_t binary_name (the group_id)) (\<lambda>gid.
      Returns gid))"

definition setgid_arguments :: "nat \<Rightarrow> string list \<Rightarrow> (string option \<times> uint64) result" where
  "setgid_arguments sizeof_gid_t argv =
     bind_result (setgid_parse_arguments argv) (\<lambda>group_id.
     bind_result (setgid_handle_arguments sizeof_gid_t (hd argv) group_id) (\<lambda>gid.
       Returns (group_id, gid)))"

subsection \<open>groups/setregid/main.c\<close>

definition setregid_usage :: "string \<Rightarrow> int \<Rightarrow> string option \<Rightarrow> 'a result" where
  "setregid_usage program_name exit_code message =
     usage_exit
       [''Usage: '' @ program_name @ '' [-h] -g <group id> -e <effective group id>'',
        ''Options:'',
        ''  -h                       Display this help message'',
        ''  -g <group id>            Specify the new group id'',
        ''  -e <effective group id>  Specify the new effective group id''] exit_code message"

definition setregid_get_gid_t_max :: "nat \<Rightarrow> uint64 result" where
  "setregid_get_gid_t_max sizeof_gid_t =
     (if sizeof_gid_t = sizeof_char then Returns (cast_unsigned sizeof_gid_t UCHAR_MAX)
      else if sizeof_gid_t = sizeof_short then Returns (cast_unsigned sizeof_gid_t USHRT_MAX)
      else if sizeof_gid_t = sizeof_int then Returns (cast_unsigned sizeof_gid_t UINT_MAX)
      else if sizeof_gid_t = sizeof_long then Returns (cast_unsigned sizeof_gid_t ULONG_MAX)
      else if sizeof_gid_t = sizeof_long_long then Returns (cast_unsigned sizeof_gid_t ULLONG_MAX)
      else Exits EXIT_FAILURE [Text (''Unsupported size of gid_t'' @ [NL])])"

definition setregid_parse_gid_t :: "nat \<Rightarrow> string \<Rightarrow> string \<Rightarrow> uint64 result" where
  "setregid_parse_gid_t sizeof_gid_t binary_name str =
     (case strtoumax str of (parsed_value, endptr, erange) \<Rightarrow>
      if erange then setregid_usage binary_name EXIT_FAILURE (Some ''Error parsing gid_t.'')
      else if endptr \<noteq> [] then setregid_usage binary_name EXIT_FAILURE (Some ''Invalid characters in input.'')
      else bind_result (setregid_get_gid_t_max sizeof_gid_t) (\<lambda>max_value.
      if max_value < parsed_value then setregid_usage binary_name EXIT_FAILURE (Some ''gid_t value out of range.'')
      else Returns (cast_unsigned sizeof_gid_t parsed_value)))"

definition setregid_parse_arguments :: "string list \<Rightarrow> string option \<Rightarrow> string option \<Rightarrow> (string option \<times> string option) result" where
  "setregid_parse_arguments argv group_id egroup_id =
     with_options argv ''hg:e:''
       (option_case (CHR ''g'') (\<lambda>arg (_, egroup_id). (arg, egroup_id))
       (option_case (CHR ''e'') (\<lambda>arg (group_id, _). (group_id, arg))
       (help_cases setregid_usage (hd argv)))) (group_id, egroup_id)
       (\<lambda>(group_id, egroup_id) _.
       Returns (group_id, egroup_id))"

definition setregid_handle_arguments :: "nat \<Rightarrow> string \<Rightarrow> string option \<Rightarrow> string option \<Rightarrow> (uint64 \<times> uint64) result" where
  "setregid_handle_arguments sizeof_gid_t binary_name group_id egroup_id =
     (if group_id = None then setregid_usage binary_name EXIT_FAILURE (Some ''The group id is required.'')
      else if egroup_id = None then setregid_usage binary_name EXIT_FAILURE (Some ''The effective group id is required.'')
      else bind_result (setregid_parse_gid_t sizeof_gid_t binary_name (the group_id)) (\<lambda>gid.
      bind_result (setregid_parse_gid_t sizeof_gid_t binary_name (the egroup_id)) (\<lambda>egid.
      Returns (gid, egid))))"

definition setregid_arguments :: "nat \<Rightarrow> string list \<Rightarrow> (string option \<times> string option \<times> uint64 \<times> uint64) result" where
  "setregid_arguments sizeof_gid_t argv =
     bind_result (setregid_parse_arguments argv None None) (\<lambda>(group_id, egroup_id).
     bind_result (setregid_handle_arguments sizeof_gid_t (hd argv) group_id egroup_id) (\<lambda>(gid, egid).
       Returns (group_id, egroup_id, gid, egid)))"

subsection \<open>users/getpwnam/main.c\<close>

definition getpwnam_usage :: "string \<Rightarrow> int \<Rightarrow> string option \<Rightarrow> 'a result" where
  "getpwnam_usage program_name exit_code message =
     usage_exit
       [''Usage: '' @ program_name @ '' [-h] <user name>'',
        ''Options:'',
        ''  -h  Display this help message''] exit_code message"

definition getpwnam_parse_arguments :: "string list \<Rightarrow> string option result" where
  "getpwnam_parse_arguments argv =
     with_options argv ''h''
       (help_cases getpwnam_usage (hd argv)) ()
       (\<lambda>_ optind.
       if optind \<ge> argc argv then getpwnam_usage (hd argv) EXIT_FAILURE (Some ''The user name is required'')
       else if optind < argc argv - 1 then getpwnam_usage (hd argv) EXIT_FAILURE (Some ''Too many arguments.'')
       else bind_result (argv_at argv optind) (\<lambda>user_name.
       Returns user_name))"

definition getpwnam_handle_arguments :: "string \<Rightarrow> string option \<Rightarrow> unit result" where
  "getpwnam_handle_arguments binary_name user_name =
     (if user_name = None then getpwnam_usage binary_name EXIT_FAILURE (Some ''The user name are required.'')
      else Returns ())"

definition getpwnam_arguments :: "string list \<Rightarrow> string option result" where
  "getpwnam_arguments argv =
     bind_result (getpwnam_parse_arguments argv) (\<lambda>user_name.
     bind_result (getpwnam_handle_arguments (hd argv) user_name) (\<lambda>_.
       Returns user_name))"

subsection \<open>users/getpwuid/main.c\<close>

definition getpwuid_usage :: "string \<Rightarrow> int \<Rightarrow> string option \<Rightarrow> 'a result" where
  "getpwuid_usage program_name exit_code message =
     usage_exit
       [''Usage: '' @ program_name @ '' [-h] <user id>'',
        ''Options:'',
        ''  -h  Display this help message''] exit_code message"

definition getpwuid_get_uid_t_max :: "nat \<Rightarrow> uint64 result" where
  "getpwuid_get_uid_t_max sizeof_uid_t =
     (if sizeof_uid_t = sizeof_char then Returns (cast_unsigned sizeof_uid_t UCHAR_MAX)
      else if sizeof_uid_t = sizeof_short then Returns (cast_unsigned sizeof_uid_t USHRT_MAX)
      else if sizeof_uid_t = sizeof_int then Returns (cast_unsigned sizeof_uid_t UINT_MAX)
      else if sizeof_uid_t = sizeof_long then Returns (cast_unsigned sizeof_uid_t ULONG_MAX)
      else if sizeof_uid_t = sizeof_long_long then Returns (cast_unsigned sizeof_uid_t ULLONG_MAX)
      else Exits EXIT_FAILURE [Text (''Unsupported size of uid_t'' @ [NL])])"

definition getpwuid_parse_uid_t :: "nat \<Rightarrow> string \<Rightarrow> string \<Rightarrow> uint64 result" where
  "getpwuid_parse_uid_t sizeof_uid_t binary_name str =
     bind_result (getpwuid_get_uid_t_max sizeof_uid_t) (\<lambda>max_value.
      (case strtoumax str of (parsed_value, endptr, erange) \<Rightarrow>
      if erange then getpwuid_usage binary_name EXIT_FAILURE (Some ''Error parsing uid_t.'')
      else if endptr \<noteq> [] then getpwuid_usage binary_name EXIT_FAILURE (Some ''Invalid characters in input.'')
      else if max_value < parsed_value then getpwuid_usage binary_name EXIT_FAILURE (Some ''uid_t value out of range.'')
      else Returns (cast_unsigned sizeof_uid_t parsed_value)))"

definition getpwuid_parse_arguments :: "string list \<Rightarrow> string option result" where
  "getpwuid_parse_arguments argv =
     with_options argv ''h''
       (help_cases getpwuid_usage (hd argv)) ()
       (\<lambda>_ optind.
       if optind \<ge> argc argv then getpwuid_usage (hd argv) EXIT_FAILURE (Some ''The user id is required'')
       else if optind < argc argv - 1 then getpwuid_usage (hd argv) EXIT_FAILURE (Some ''Too many arguments.'')
       else bind_result (argv_at argv optind) (\<lambda>user_id.
       Returns user_id))"

definition getpwuid_handle_arguments :: "nat \<Rightarrow> string \<Rightarrow> string option \<Rightarrow> uint64 result" where
  "getpwuid_handle_arguments sizeof_uid_t binary_name user_id =
     (if user_id = None then getpwuid_usage binary_name EXIT_FAILURE (Some ''The user id are required.'')
      else bind_result (getpwuid_parse_uid_t sizeof_uid_t binary_name (the user_id)) (\<lambda>uid.
      Returns uid))"

definition getpwuid_arguments :: "nat \<Rightarrow> string list \<Rightarrow> (string option \<times> uint64) result" where
  "getpwuid_arguments sizeof_uid_t argv =
     bind_result (getpwuid_parse_arguments argv) (\<lambda>user_id.
     bind_result (getpwuid_handle_arguments sizeof_uid_t (hd argv) user_id) (\<lambda>uid.
       Returns (user_id, uid)))"

subsection \<open>users/seteuid/main.c\<close>

definition seteuid_usage :: "string \<Rightarrow> int \<Rightarrow> string option \<Rightarrow> 'a result" where
  "seteuid_usage program_name exit_code message =
     usage_exit
       [''Usage: '' @ program_name @ '' [-h] <user id>'',
        ''Options:'',
        ''  -h  Display this help message''] exit_code message"

definition seteuid_get_uid_t_max :: "nat \<Rightarrow> uint64 result" where
  "seteuid_get_uid_t_max sizeof_uid_t =
     (if sizeof_uid_t = sizeof_char then Returns (cast_unsigned sizeof_uid_t UCHAR_MAX)
      else if sizeof_uid_t = sizeof_short then Returns (cast_unsigned sizeof_uid_t USHRT_MAX)
      else if sizeof_uid_t = sizeof_int then Returns (cast_unsigned sizeof_uid_t UINT_MAX)
      else if sizeof_uid_t = sizeof_long then Returns (cast_unsigned sizeof_uid_t ULONG_MAX)
      else if sizeof_uid_t = sizeof_long_long then Returns (cast_unsigned sizeof_uid_t ULLONG_MAX)
      else Exits EXIT_FAILURE [Text (''Unsupported size of uid_t'' @ [NL])])"

definition seteuid_parse_uid_t :: "nat \<Rightarrow> string \<Rightarrow> string \<Rightarrow> uint64 result" where
  "seteuid_parse_uid_t sizeof_uid_t binary_name str =
     bind_result (seteuid_get_uid_t_max sizeof_uid_t) (\<lambda>max_value.
      (case strtoumax str of (parsed_value, endptr, erange) \<Rightarrow>
      if erange then seteuid_usage binary_name EXIT_FAILURE (Some ''Error parsing uid_t.'')
      else if endptr \<noteq> [] then seteuid_usage binary_name EXIT_FAILURE (Some ''Invalid characters in input.'')
      else if max_value < parsed_value then seteuid_usage binary_name EXIT_FAILURE (Some ''uid_t value out of range.'')
      else Returns (cast_unsigned sizeof_uid_t parsed_value)))"

definition seteuid_parse_arguments :: "string list \<Rightarrow> string option result" where
  "seteuid_parse_arguments argv =
     with_options argv ''h''
       (help_cases seteuid_usage (hd argv)) ()
       (\<lambda>_ optind.
       if optind \<ge> argc argv then seteuid_usage (hd argv) EXIT_FAILURE (Some ''The user id is required'')
       else if optind < argc argv - 1 then seteuid_usage (hd argv) EXIT_FAILURE (Some ''Too many arguments.'')
       else bind_result (argv_at argv optind) (\<lambda>user_id.
       Returns user_id))"

definition seteuid_handle_arguments :: "nat \<Rightarrow> string \<Rightarrow> string option \<Rightarrow> uint64 result" where
  "seteuid_handle_arguments sizeof_uid_t binary_name user_id =
     (if user_id = None then seteuid_usage binary_name EXIT_FAILURE (Some ''The user id are required.'')
      else bind_result (seteuid_parse_uid_t sizeof_uid_t binary_name (the user_id)) (\<lambda>uid.
      Returns uid))"

definition seteuid_arguments :: "nat \<Rightarrow> string list \<Rightarrow> (string option \<times> uint64) result" where
  "seteuid_arguments sizeof_uid_t argv =
     bind_result (seteuid_parse_arguments argv) (\<lambda>user_id.
     bind_result (seteuid_handle_arguments sizeof_uid_t (hd argv) user_id) (\<lambda>uid.
       Returns (user_id, uid)))"

subsection \<open>users/setreuid/main.c\<close>

definition setreuid_usage :: "string \<Rightarrow> int \<Rightarrow> string option \<Rightarrow> 'a result" where
  "setreuid_usage program_name exit_code message =
     usage_exit
       [''Usage: '' @ program_name @ '' [-h] -u <user id> -e <effective user id>'',
        ''Options:'',
        ''  -h                      Display this help message'',
        ''  -u <user id>            Specify the new user id'',
        ''  -e <effective user id>  Specify the new effective user id''] exit_code message"

definition setreuid_get_uid_t_max :: "nat \<Rightarrow> uint64 result" where
  "setreuid_get_uid_t_max sizeof_uid_t =
     (if sizeof_uid_t = sizeof_char then Returns (cast_unsigned sizeof_uid_t UCHAR_MAX)
      else if sizeof_uid_t = sizeof_short then Returns (cast_unsigned sizeof_uid_t USHRT_MAX)
      else if sizeof_uid_t = sizeof_int then Returns (cast_unsigned sizeof_uid_t UINT_MAX)
      else if sizeof_uid_t = sizeof_long then Returns (cast_unsigned sizeof_uid_t ULONG_MAX)
      else if sizeof_uid_t = sizeof_long_long then Returns (cast_unsigned sizeof_uid_t ULLONG_MAX)
      else Exits EXIT_FAILURE [Text (''Unsupported size of uid_t'' @ [NL])])"

definition setreuid_parse_uid_t :: "nat \<Rightarrow> string \<Rightarrow> string \<Rightarrow> uint64 result" where
  "setreuid_parse_uid_t sizeof_uid_t binary_name str =
     bind_result (setreuid_get_uid_t_max sizeof_uid_t) (\<lambda>max_value.
      (case strtoumax str of (parsed_value, endptr, erange) \<Rightarrow>
      if erange then setreuid_usage binary_name EXIT_FAILURE (Some ''Error parsing uid_t.'')
      else if endptr \<noteq> [] then setreuid_usage binary_name EXIT_FAILURE (Some ''Invalid characters in input.'')
      else if max_value < parsed_value then setreuid_usage binary_name EXIT_FAILURE (Some ''uid_t value out of range.'')
      else Returns (cast_unsigned sizeof_uid_t parsed_value)))"

definition setreuid_parse_arguments :: "string list \<Rightarrow> string option \<Rightarrow> string option \<Rightarrow> (string option \<times> string option) result" where
  "setreuid_parse_arguments argv user_id euser_id =
     with_options argv ''hu:e:''
       (option_case (CHR ''u'') (\<lambda>arg (_, euser_id). (arg, euser_id))
       (option_case (CHR ''e'') (\<lambda>arg (user_id, _). (user_id, arg))
       (help_cases setreuid_usage (hd argv)))) (user_id, euser_id)
       (\<lambda>(user_id, euser_id) optind.
       if optind < argc argv then setreuid_usage (hd argv) EXIT_FAILURE (Some ''Unexpected extra arguments'')
       else Returns (user_id, euser_id))"

definition setreuid_handle_arguments :: "nat \<Rightarrow> string \<Rightarrow> string option \<Rightarrow> string option \<Rightarrow> (uint64 \<times> uint64) result" where
  "setreuid_handle_arguments sizeof_uid_t binary_name user_id euser_id =
     (if user_id = None then setreuid_usage binary_name EXIT_FAILURE (Some ''The user id are required.'')
      else if euser_id = None then setreuid_usage binary_name EXIT_FAILURE (Some ''The effective user id are required.'')
      else bind_result (setreuid_parse_uid_t sizeof_uid_t binary_name (the user_id)) (\<lambda>uid.
      bind_result (setreuid_parse_uid_t sizeof_uid_t binary_name (the euser_id)) (\<lambda>euid.
      Returns (uid, euid))))"

definition setreuid_arguments :: "nat \<Rightarrow> string list \<Rightarrow> (string option \<times> string option \<times> uint64 \<times> uint64) result" where
  "setreuid_arguments sizeof_uid_t argv =
     bind_result (setreuid_parse_arguments argv None None) (\<lambda>(user_id, euser_id).
     bind_result (setreuid_handle_arguments sizeof_uid_t (hd argv) user_id euser_id) (\<lambda>(uid, euid).
       Returns (user_id, euser_id, uid, euid)))"

subsection \<open>users/setuid/main.c\<close>

definition setuid_usage :: "string \<Rightarrow> int \<Rightarrow> string option \<Rightarrow> 'a result" where
  "setuid_usage program_name exit_code message =
     usage_exit
       [''Usage: [-h] '' @ program_name @ '' <user id>'',
        ''Options:'',
        ''  -h  Display this help message''] exit_code message"

definition setuid_get_uid_t_max :: "nat \<Rightarrow> uint64 result" where
  "setuid_get_uid_t_max sizeof_uid_t =
     (if sizeof_uid_t = sizeof_char then Returns (cast_unsigned sizeof_uid_t UCHAR_MAX)
      else if sizeof_uid_t = sizeof_short then Returns (cast_unsigned sizeof_uid_t USHRT_MAX)
      else if sizeof_uid_t = sizeof_int then Returns (cast_unsigned sizeof_uid_t UINT_MAX)
      else if sizeof_uid_t = sizeof_long then Returns (cast_unsigned sizeof_uid_t ULONG_MAX)
      else if sizeof_uid_t = sizeof_long_long then Returns (cast_unsigned sizeof_uid_t ULLONG_MAX)
      else Exits EXIT_FAILURE [Text (''Unsupported size of uid_t'' @ [NL])])"

definition setuid_parse_uid_t :: "nat \<Rightarrow> string \<Rightarrow> string \<Rightarrow> uint64 result" where
  "setuid_parse_uid_t sizeof_uid_t binary_name str =
     bind_result (setuid_get_uid_t_max sizeof_uid_t) (\<lambda>max_value.
      (case strtoumax str of (parsed_value, endptr, erange) \<Rightarrow>
      if erange then setuid_usage binary_name EXIT_FAILURE (Some ''Error parsing uid_t.'')
      else if endptr \<noteq> [] then setuid_usage binary_name EXIT_FAILURE (Some ''Invalid characters in input.'')
      else if max_value < parsed_value then setuid_usage binary_name EXIT_FAILURE (Some ''uid_t value out of range.'')
      else Returns (cast_unsigned sizeof_uid_t parsed_value)))"

definition setuid_parse_arguments :: "string list \<Rightarrow> string option result" where
  "setuid_parse_arguments argv =
     with_options argv ''h''
       (help_cases setuid_usage (hd argv)) ()
       (\<lambda>_ optind.
       if optind \<ge> argc argv then setuid_usage (hd argv) EXIT_FAILURE (Some ''The user id is required'')
       else if optind < argc argv - 1 then setuid_usage (hd argv) EXIT_FAILURE (Some ''Too many arguments.'')
       else bind_result (argv_at argv optind) (\<lambda>user_id.
       Returns user_id))"

definition setuid_handle_arguments :: "nat \<Rightarrow> string \<Rightarrow> string option \<Rightarrow> uint64 result" where
  "setuid_handle_arguments sizeof_uid_t binary_name user_id =
     (if user_id = None then setuid_usage binary_name EXIT_FAILURE (Some ''The user id are required.'')
      else bind_result (setuid_parse_uid_t sizeof_uid_t binary_name (the user_id)) (\<lambda>uid.
      Returns uid))"

definition setuid_arguments :: "nat \<Rightarrow> string list \<Rightarrow> (string option \<times> uint64) result" where
  "setuid_arguments sizeof_uid_t argv =
     bind_result (setuid_parse_arguments argv) (\<lambda>user_id.
     bind_result (setuid_handle_arguments sizeof_uid_t (hd argv) user_id) (\<lambda>uid.
       Returns (user_id, uid)))"

section \<open>All of them\<close>

lemmas identity_usage =
    getgrgid_usage_def getgrnam_usage_def setegid_usage_def setgid_usage_def setregid_usage_def
    getpwnam_usage_def getpwuid_usage_def seteuid_usage_def setreuid_usage_def setuid_usage_def

lemmas identity_defs =
    getgrgid_parse_arguments_def getgrgid_get_gid_t_max_def getgrgid_parse_gid_t_def
    getgrgid_handle_arguments_def getgrgid_arguments_def getgrnam_parse_arguments_def
    getgrnam_handle_arguments_def getgrnam_arguments_def setegid_parse_arguments_def
    setegid_get_gid_t_max_def setegid_parse_gid_t_def setegid_handle_arguments_def setegid_arguments_def
    setgid_parse_arguments_def setgid_get_gid_t_max_def setgid_parse_gid_t_def setgid_handle_arguments_def
    setgid_arguments_def setregid_parse_arguments_def setregid_get_gid_t_max_def setregid_parse_gid_t_def
    setregid_handle_arguments_def setregid_arguments_def getpwnam_parse_arguments_def
    getpwnam_handle_arguments_def getpwnam_arguments_def getpwuid_parse_arguments_def
    getpwuid_get_uid_t_max_def getpwuid_parse_uid_t_def getpwuid_handle_arguments_def
    getpwuid_arguments_def seteuid_parse_arguments_def seteuid_get_uid_t_max_def seteuid_parse_uid_t_def
    seteuid_handle_arguments_def seteuid_arguments_def setreuid_parse_arguments_def
    setreuid_get_uid_t_max_def setreuid_parse_uid_t_def setreuid_handle_arguments_def
    setreuid_arguments_def setuid_parse_arguments_def setuid_get_uid_t_max_def setuid_parse_uid_t_def
    setuid_handle_arguments_def setuid_arguments_def

text \<open>The command lines with \<^verbatim>\<open>-h\<close> as an option without argument.\<close>

definition identity_programs :: "(string list \<Rightarrow> ending) list" where
  "identity_programs =
    [\<lambda>argv. outcome (getgrgid_arguments 4 argv),
     \<lambda>argv. outcome (getgrnam_arguments argv),
     \<lambda>argv. outcome (setegid_arguments 4 argv),
     \<lambda>argv. outcome (setgid_arguments 4 argv),
     \<lambda>argv. outcome (setregid_arguments 4 argv),
     \<lambda>argv. outcome (getpwnam_arguments argv),
     \<lambda>argv. outcome (getpwuid_arguments 4 argv),
     \<lambda>argv. outcome (seteuid_arguments 4 argv),
     \<lambda>argv. outcome (setreuid_arguments 4 argv),
     \<lambda>argv. outcome (setuid_arguments 4 argv)]"

lemma identity_defined:
  assumes "argv \<noteq> []" "p \<in> set identity_programs"
  shows "p argv \<noteq> Breaks"
  using assms
  by (auto simp: identity_programs_def identity_defs identity_usage c_sizes bind_result_Undef_iff
      argv_at_Undef_iff split: prod.splits if_splits dest!: cli_Undef)

lemma identity_help:
  "p \<in> set identity_programs \<Longrightarrow> p (name # ''-h'' # args) = Leaves EXIT_SUCCESS"
  by (auto simp: identity_programs_def identity_defs identity_usage cli_switch split: prod.splits)

end
