(* ===== verification/Cli_Network.thy ===== *)
theory Cli_Network
  imports Getopt Number_Parse
begin

text \<open>
  The command lines of the programs under \<^verbatim>\<open>domain-socket, io-multiplexing, network-address, networking-functions, sockets, tcp and udp\<close>
  of \<^verbatim>\<open>src\<close>: for each program its \<^verbatim>\<open>usage\<close>, its
  \<^verbatim>\<open>parse_...\<close> and \<^verbatim>\<open>get_..._max\<close> functions, \<^verbatim>\<open>parse_arguments\<close>,
  \<^verbatim>\<open>handle_arguments\<close>, and, as \<open>..._arguments\<close>, the two calls with which
  \<^verbatim>\<open>main\<close> begins. A \<^verbatim>\<open>char *\<close> variable is a \<^typ>\<open>string option\<close>, the null pointer
  being \<open>None\<close>; the variables a function sets through pointers are its result.
\<close>

section \<open>The programs\<close>

text \<open>Address families and socket types of Linux.\<close>

definition AF_UNIX :: int where "AF_UNIX = 1"

definition AF_INET :: int where "AF_INET = 2"

definition AF_INET6 :: int where "AF_INET6 = 10"

definition SOCK_STREAM :: int where "SOCK_STREAM = 1"

definition SOCK_DGRAM :: int where "SOCK_DGRAM = 2"

definition SOCK_RAW :: int where "SOCK_RAW = 3"

definition SOCK_SEQPACKET :: int where "SOCK_SEQPACKET = 5"

subsection \<open>domain-socket/read-write/client.c\<close>

definition read_write_client_usage :: "string \<Rightarrow> int \<Rightarrow> string option \<Rightarrow> 'a result" where
  "read_write_client_usage program_name exit_code message =
     usage_exit
       [''Usage: '' @ program_name @ '' [-h] <file path>'',
        ''Options:'',
        ''  -h  Display this help message''] exit_code message"

definition read_write_client_parse_arguments :: "string list \<Rightarrow> string option result" where
  "read_write_client_parse_arguments argv =
     with_options argv ''h''
       (help_cases read_write_client_usage (hd argv)) ()
       (\<lambda>_ optind.
       if optind \<ge> argc argv then read_write_client_usage (hd argv) EXIT_FAILURE (Some ''The file path is required'')
       else if optind < argc argv - 1 then read_write_client_usage (hd argv) EXIT_FAILURE (Some ''Too many arguments.'')
       else bind_result (argv_at argv optind) (\<lambda>file_path.
       Returns file_path))"

definition read_write_client_handle_arguments :: "string \<Rightarrow> string option \<Rightarrow> unit result" where
  "read_write_client_handle_arguments binary_name file_path =
     (if file_path = None then read_write_client_usage binary_name EXIT_FAILURE (Some ''The file name is required.'')
      else Returns ())"

definition read_write_client_arguments :: "string list \<Rightarrow> string option result" where
  "read_write_client_arguments argv =
     bind_result (read_write_client_parse_arguments argv) (\<lambda>file_path.
     bind_result (read_write_client_handle_arguments (hd argv) file_path) (\<lambda>_.
       Returns file_path))"

subsection \<open>domain-socket/send-recv/client.c\<close>

definition send_recv_client_usage :: "string \<Rightarrow> int \<Rightarrow> string option \<Rightarrow> 'a result" where
  "send_recv_client_usage program_name exit_code message =
     usage_exit
       [''Usage: '' @ program_name @ '' [-h] <file path>'',
        ''Options:'',
        ''  -h  Display this help message''] exit_code message"

definition send_recv_client_parse_arguments :: "string list \<Rightarrow> string option result" where
  "send_recv_client_parse_arguments argv =
     with_options argv ''h''
       (help_cases send_recv_client_usage (hd argv)) ()
       (\<lambda>_ optind.
       if optind \<ge> argc argv then send_recv_client_usage (hd argv) EXIT_FAILURE (Some ''The file path is required'')
       else if optind < argc argv - 1 then send_recv_client_usage (hd argv) EXIT_FAILURE (Some ''Too many arguments.'')
       else bind_result (argv_at argv optind) (\<lambda>file_path.
       Returns file_path))"

definition send_recv_client_handle_arguments :: "string \<Rightarrow> string option \<Rightarrow> unit result" where
  "send_recv_client_handle_arguments binary_name file_path =
     (if file_path = None then send_recv_client_usage binary_name EXIT_FAILURE (Some ''The file name is required.'')
      else Returns ())"

definition send_recv_client_arguments :: "string list \<Rightarrow> string option result" where
  "send_recv_client_arguments argv =
     bind_result (send_recv_client_parse_arguments argv) (\<lambda>file_path.
     bind_result (send_recv_client_handle_arguments (hd argv) file_path) (\<lambda>_.
       Returns file_path))"

subsection \<open>domain-socket/socketpair/main.c\<close>

definition socketpair_usage :: "string \<Rightarrow> int \<Rightarrow> string option \<Rightarrow> 'a result" where
  "socketpair_usage program_name exit_code message =
     usage_exit
       [''Usage: '' @ program_name @ '' [-h] <file path>'',
        ''Options:'',
        ''  -h  Display this help message''] exit_code message"

definition socketpair_parse_arguments :: "string list \<Rightarrow> string option result" where
  "socketpair_parse_arguments argv =
     with_options argv ''h''
       (help_cases socketpair_usage (hd argv)) ()
       (\<lambda>_ optind.
       if optind \<ge> argc argv then socketpair_usage (hd argv) EXIT_FAILURE (Some ''The file path is required'')
       else if optind < argc argv - 1 then socketpair_usage (hd argv) EXIT_FAILURE (Some ''Too many arguments.'')
       else bind_result (argv_at argv optind) (\<lambda>file_path.
       Returns file_path))"

definition socketpair_handle_arguments :: "string \<Rightarrow> string option \<Rightarrow> unit result" where
  "socketpair_handle_arguments binary_name file_path =
     (if file_path = None then socketpair_usage binary_name EXIT_FAILURE (Some ''The file path is required.'')
      else Returns ())"

definition socketpair_arguments :: "string list \<Rightarrow> string option result" where
  "socketpair_arguments argv =
     bind_result (socketpair_parse_arguments argv) (\<lambda>file_path.
     bind_result (socketpair_handle_arguments (hd argv) file_path) (\<lambda>_.
       Returns file_path))"

subsection \<open>io-multiplexing/client.c\<close>

definition io_client_usage :: "string \<Rightarrow> int \<Rightarrow> string option \<Rightarrow> 'a result" where
  "io_client_usage program_name exit_code message =
     usage_exit
       [''Usage: '' @ program_name @ '' [-h] <file path>'',
        ''Options:'',
        ''  -h  Display this help message''] exit_code message"

definition io_client_parse_arguments :: "string list \<Rightarrow> string option result" where
  "io_client_parse_arguments argv =
     with_options argv ''h''
       (help_cases io_client_usage (hd argv)) ()
       (\<lambda>_ optind.
       if optind \<ge> argc argv then io_client_usage (hd argv) EXIT_FAILURE (Some ''The file path is required'')
       else if optind < argc argv - 1 then io_client_usage (hd argv) EXIT_FAILURE (Some ''Too many arguments.'')
       else bind_result (argv_at argv optind) (\<lambda>file_path.
       Returns file_path))"

definition io_client_handle_arguments :: "string \<Rightarrow> string option \<Rightarrow> unit result" where
  "io_client_handle_arguments binary_name file_path =
     (if file_path = None then io_client_usage binary_name EXIT_FAILURE (Some ''The file path is required.'')
      else Returns ())"

definition io_client_arguments :: "string list \<Rightarrow> string option result" where
  "io_client_arguments argv =
     bind_result (io_client_parse_arguments argv) (\<lambda>file_path.
     bind_result (io_client_handle_arguments (hd argv) file_path) (\<lambda>_.
       Returns file_path))"

subsection \<open>network-address/getaddrinfo-freeaddrinfo-gai\_strerror/main.c\<close>

definition getaddrinfo_usage :: "string \<Rightarrow> int \<Rightarrow> string option \<Rightarrow> 'a result" where
  "getaddrinfo_usage program_name exit_code message =
     usage_exit
       [''Usage: '' @ program_name @ '' [-h] <host name>'',
        ''Options:'',
        ''  -h  Display this help message''] exit_code message"

definition getaddrinfo_parse_arguments :: "string list \<Rightarrow> string option result" where
  "getaddrinfo_parse_arguments argv =
     with_options argv ''h''
       (help_cases getaddrinfo_usage (hd argv)) ()
       (\<lambda>_ optind.
       if optind \<ge> argc argv then getaddrinfo_usage (hd argv) EXIT_FAILURE (Some ''The host name is required'')
       else if optind < argc argv - 1 then getaddrinfo_usage (hd argv) EXIT_FAILURE (Some ''Too many arguments.'')
       else bind_result (argv_at argv optind) (\<lambda>host_name.
       Returns host_name))"

definition getaddrinfo_handle_arguments :: "string \<Rightarrow> string option \<Rightarrow> unit result" where
  "getaddrinfo_handle_arguments binary_name host_name =
     (if host_name = None then getaddrinfo_usage binary_name EXIT_FAILURE (Some ''The host name is required.'')
      else Returns ())"

definition getaddrinfo_arguments :: "string list \<Rightarrow> string option result" where
  "getaddrinfo_arguments argv =
     bind_result (getaddrinfo_parse_arguments argv) (\<lambda>host_name.
     bind_result (getaddrinfo_handle_arguments (hd argv) host_name) (\<lambda>_.
       Returns host_name))"

subsection \<open>network-address/getnameinfo/main.c\<close>

definition getnameinfo_usage :: "string \<Rightarrow> int \<Rightarrow> string option \<Rightarrow> 'a result" where
  "getnameinfo_usage program_name exit_code message =
     usage_exit
       [''Usage: '' @ program_name @ '' [-h] <server address> <port>'',
        ''Options:'',
        ''  -h         Display this help message'',
        ''  -p <port>  THe port to connect to''] exit_code message"

definition getnameinfo_parse_in_port_t :: "string \<Rightarrow> string \<Rightarrow> uint64 result" where
  "getnameinfo_parse_in_port_t binary_name str =
     (case strtoumax str of (parsed_value, endptr, erange) \<Rightarrow>
      if erange then Exits EXIT_FAILURE [Perror ''Error parsing in_port_t'']
      else if endptr \<noteq> [] then getnameinfo_usage binary_name EXIT_FAILURE (Some ''Invalid characters in input.'')
      else if UINT16_MAX < parsed_value then getnameinfo_usage binary_name EXIT_FAILURE (Some ''in_port_t value out of range.'')
      else Returns (cast_unsigned 2 parsed_value))"

definition getnameinfo_parse_arguments :: "string list \<Rightarrow> (string option \<times> string option) result" where
  "getnameinfo_parse_arguments argv =
     with_options argv ''h''
       (help_cases getnameinfo_usage (hd argv)) ()
       (\<lambda>_ optind.
       if optind + 1 \<ge> argc argv then getnameinfo_usage (hd argv) EXIT_FAILURE (Some ''Too few arguments.'')
       else if optind < argc argv - 2 then getnameinfo_usage (hd argv) EXIT_FAILURE (Some ''Too many arguments.'')
       else bind_result (argv_at argv optind) (\<lambda>server_address.
       bind_result (argv_at argv (optind + 1)) (\<lambda>port.
       Returns (server_address, port))))"

definition getnameinfo_handle_arguments :: "string \<Rightarrow> string option \<Rightarrow> string option \<Rightarrow> uint64 result" where
  "getnameinfo_handle_arguments binary_name server_address port_str =
     (if server_address = None then getnameinfo_usage binary_name EXIT_FAILURE (Some ''The ip address is required.'')
      else if port_str = None then getnameinfo_usage binary_name EXIT_FAILURE (Some ''The port is required.'')
      else bind_result (getnameinfo_parse_in_port_t binary_name (the port_str)) (\<lambda>port.
      Returns port))"

definition getnameinfo_arguments :: "string list \<Rightarrow> (string option \<times> string option \<times> uint64) result" where
  "getnameinfo_arguments argv =
     bind_result (getnameinfo_parse_arguments argv) (\<lambda>(server_address, port_str).
     bind_result (getnameinfo_handle_arguments (hd argv) server_address port_str) (\<lambda>port.
       Returns (server_address, port_str, port)))"

subsection \<open>network-address/getpeername/main.c\<close>

definition getpeername_usage :: "string \<Rightarrow> int \<Rightarrow> string option \<Rightarrow> 'a result" where
  "getpeername_usage program_name exit_code message =
     usage_exit
       [''Usage: '' @ program_name @ '' [-h] [-p <port>] <server address> <service>'',
        ''Options:'',
        ''  -h         Display this help message''] exit_code message"

definition getpeername_parse_arguments :: "string list \<Rightarrow> (string option \<times> string option) result" where
  "getpeername_parse_arguments argv =
     with_options argv ''h''
       (help_cases getpeername_usage (hd argv)) ()
       (\<lambda>_ optind.
       if optind + 1 \<ge> argc argv then getpeername_usage (hd argv) EXIT_FAILURE (Some ''Too few arguments.'')
       else if optind < argc argv - 2 then getpeername_usage (hd argv) EXIT_FAILURE (Some ''Too many arguments.'')
       else bind_result (argv_at argv optind) (\<lambda>server_address.
       bind_result (argv_at argv (optind + 1)) (\<lambda>service.
       Returns (server_address, service))))"

definition getpeername_handle_arguments :: "string \<Rightarrow> string option \<Rightarrow> string option \<Rightarrow> unit result" where
  "getpeername_handle_arguments binary_name server_address service =
     (if server_address = None then getpeername_usage binary_name EXIT_FAILURE (Some ''The server address is required.'')
      else if service = None then getpeername_usage binary_name EXIT_FAILURE (Some ''The service is required.'')
      else Returns ())"

definition getpeername_arguments :: "string list \<Rightarrow> (string option \<times> string option) result" where
  "getpeername_arguments argv =
     bind_result (getpeername_parse_arguments argv) (\<lambda>(server_address, service).
     bind_result (getpeername_handle_arguments (hd argv) server_address service) (\<lambda>_.
       Returns (server_address, service)))"

subsection \<open>network-address/getsockname/main.c\<close>

definition getsockname_usage :: "string \<Rightarrow> int \<Rightarrow> string option \<Rightarrow> 'a result" where
  "getsockname_usage program_name exit_code message =
     usage_exit
       [''Usage: '' @ program_name @ '' [-h] <host name> <service>'',
        ''Options:'',
        ''  -h         Display this help message''] exit_code message"

definition getsockname_parse_arguments :: "string list \<Rightarrow> (string option \<times> string option) result" where
  "getsockname_parse_arguments argv =
     with_options argv ''h''
       (help_cases getsockname_usage (hd argv)) ()
       (\<lambda>_ optind.
       if optind + 1 \<ge> argc argv then getsockname_usage (hd argv) EXIT_FAILURE (Some ''Too few arguments.'')
       else if optind < argc argv - 2 then getsockname_usage (hd argv) EXIT_FAILURE (Some ''Too many arguments.'')
       else bind_result (argv_at argv optind) (\<lambda>host_name.
       bind_result (argv_at argv (optind + 1)) (\<lambda>service.
       Returns (host_name, service))))"

definition getsockname_handle_arguments :: "string \<Rightarrow> string option \<Rightarrow> string option \<Rightarrow> unit result" where
  "getsockname_handle_arguments binary_name host_name service =
     (if host_name = None then getsockname_usage binary_name EXIT_FAILURE (Some ''X'')
      else if service = None then getsockname_usage binary_name EXIT_FAILURE (Some ''Y'')
      else Returns ())"

definition getsockname_arguments :: "string list \<Rightarrow> (string option \<times> string option) result" where
  "getsockname_arguments argv =
     bind_result (getsockname_parse_arguments argv) (\<lambda>(host_name, service).
     bind_result (getsockname_handle_arguments (hd argv) host_name service) (\<lambda>_.
       Returns (host_name, service)))"

subsection \<open>networking-functions/bind/main.c\<close>

definition bind_usage :: "string \<Rightarrow> int \<Rightarrow> string option \<Rightarrow> 'a result" where
  "bind_usage program_name exit_code message =
     usage_exit
       [''Usage: '' @ program_name @ '' [-h] <IP address or hostname> <port>'',
        ''Options:'',
        ''  -h  Display this help message''] exit_code message"

definition bind_parse_in_port_t :: "string \<Rightarrow> string \<Rightarrow> uint64 result" where
  "bind_parse_in_port_t binary_name str =
     (case strtoumax str of (parsed_value, endptr, erange) \<Rightarrow>
      if erange then Exits EXIT_FAILURE [Perror ''Error parsing in_port_t'']
      else if endptr \<noteq> [] then bind_usage binary_name EXIT_FAILURE (Some ''Invalid characters in input.'')
      else if UINT16_MAX < parsed_value then bind_usage binary_name EXIT_FAILURE (Some ''in_port_t value out of range.'')
      else Returns (cast_unsigned 2 parsed_value))"

definition bind_parse_arguments :: "string list \<Rightarrow> (string option \<times> string option) result" where
  "bind_parse_arguments argv =
     with_options argv ''h''
       (help_cases bind_usage (hd argv)) ()
       (\<lambda>_ optind.
       if optind \<ge> argc argv then bind_usage (hd argv) EXIT_FAILURE (Some ''The IP address or hostname is required.'')
       else if optind < argc argv - 2 then bind_usage (hd argv) EXIT_FAILURE (Some ''Too many arguments.'')
       else bind_result (argv_at argv optind) (\<lambda>address.
       bind_result (argv_at argv (optind + 1)) (\<lambda>port.
       Returns (address, port))))"

definition bind_handle_arguments :: "string \<Rightarrow> string option \<Rightarrow> string option \<Rightarrow> uint64 result" where
  "bind_handle_arguments binary_name address port_str =
     (if address = None then bind_usage binary_name EXIT_FAILURE (Some ''The IP address or hostname is required.'')
      else if port_str = None then bind_usage binary_name EXIT_FAILURE (Some ''Port argument is missing.'')
      else bind_result (bind_parse_in_port_t binary_name (the port_str)) (\<lambda>port.
      Returns port))"

definition bind_arguments :: "string list \<Rightarrow> (string option \<times> string option \<times> uint64) result" where
  "bind_arguments argv =
     bind_result (bind_parse_arguments argv) (\<lambda>(address, port_str).
     bind_result (bind_handle_arguments (hd argv) address port_str) (\<lambda>port.
       Returns (address, port_str, port)))"

subsection \<open>networking-functions/connect/main.c\<close>

definition connect_usage :: "string \<Rightarrow> int \<Rightarrow> string option \<Rightarrow> 'a result" where
  "connect_usage program_name exit_code message =
     usage_exit
       [''Usage: '' @ program_name @ '' [-h] <ip address> <port>'',
        ''Options:'',
        ''  -h  Display this help message''] exit_code message"

definition connect_parse_in_port_t :: "string \<Rightarrow> string \<Rightarrow> uint64 result" where
  "connect_parse_in_port_t binary_name str =
     (case strtoumax str of (parsed_value, endptr, erange) \<Rightarrow>
      if erange then Exits EXIT_FAILURE [Perror ''Error parsing in_port_t'']
      else if endptr \<noteq> [] then connect_usage binary_name EXIT_FAILURE (Some ''Invalid characters in input.'')
      else if UINT16_MAX < parsed_value then connect_usage binary_name EXIT_FAILURE (Some ''in_port_t value out of range.'')
      else Returns (cast_unsigned 2 parsed_value))"

definition connect_parse_arguments :: "string list \<Rightarrow> (string option \<times> string option) result" where
  "connect_parse_arguments argv =
     with_options argv ''h''
       (help_cases connect_usage (hd argv)) ()
       (\<lambda>_ optind.
       if optind + 1 \<ge> argc argv then connect_usage (hd argv) EXIT_FAILURE (Some ''Too few arguments.'')
       else if optind < argc argv - 2 then connect_usage (hd argv) EXIT_FAILURE (Some ''Too many arguments.'')
       else bind_result (argv_at argv optind) (\<lambda>ip_address.
       bind_result (argv_at argv (optind + 1)) (\<lambda>port.
       Returns (ip_address, port))))"

definition connect_handle_arguments :: "string \<Rightarrow> string option \<Rightarrow> string option \<Rightarrow> uint64 result" where
  "connect_handle_arguments binary_name ip_address port_str =
     (if ip_address = None then connect_usage binary_name EXIT_FAILURE (Some ''The ip address is required.'')
      else if port_str = None then connect_usage binary_name EXIT_FAILURE (Some ''The port is required.'')
      else bind_result (connect_parse_in_port_t binary_name (the port_str)) (\<lambda>port.
      Returns port))"

definition connect_arguments :: "string list \<Rightarrow> (string option \<times> string option \<times> uint64) result" where
  "connect_arguments argv =
     bind_result (connect_parse_arguments argv) (\<lambda>(address, port_str).
     bind_result (connect_handle_arguments (hd argv) address port_str) (\<lambda>port.
       Returns (address, port_str, port)))"

subsection \<open>networking-functions/listen-accept/main.c\<close>

definition listen_usage :: "string \<Rightarrow> int \<Rightarrow> string option \<Rightarrow> 'a result" where
  "listen_usage program_name exit_code message =
     usage_exit
       [''Usage: '' @ program_name @ '' [-h] -b <backlog> <ip address> <port> <message>'',
        ''Options:'',
        ''  -h  Display this help message'',
        ''  -b <backlog> the backlog''] exit_code message"

definition listen_parse_in_port_t :: "string \<Rightarrow> string \<Rightarrow> uint64 result" where
  "listen_parse_in_port_t binary_name str =
     (case strtoumax str of (parsed_value, endptr, erange) \<Rightarrow>
      if erange then Exits EXIT_FAILURE [Perror ''Error parsing in_port_t'']
      else if endptr \<noteq> [] then listen_usage binary_name EXIT_FAILURE (Some ''Invalid characters in input.'')
      else if UINT16_MAX < parsed_value then listen_usage binary_name EXIT_FAILURE (Some ''in_port_t value out of range.'')
      else Returns (cast_unsigned 2 parsed_value))"

definition listen_parse_positive_int :: "string \<Rightarrow> string \<Rightarrow> int result" where
  "listen_parse_positive_int binary_name str =
     (case strtoimax str of (parsed_value, endptr, erange) \<Rightarrow>
      if erange then listen_usage binary_name EXIT_FAILURE (Some ''Error parsing integer.'')
      else if endptr \<noteq> [] then listen_usage binary_name EXIT_FAILURE (Some ''Invalid characters in input.'')
      else if parsed_value < 0 \<or> INT_MAX < parsed_value then listen_usage binary_name EXIT_FAILURE (Some ''Integer out of range or negative.'')
      else Returns parsed_value)"

definition listen_parse_arguments :: "string list \<Rightarrow> string option \<Rightarrow> (string option \<times> string option \<times> string option \<times> string option) result" where
  "listen_parse_arguments argv backlog =
     with_options argv ''hb:''
       (option_case (CHR ''b'') (\<lambda>arg _. arg)
       (help_cases listen_usage (hd argv))) backlog
       (\<lambda>backlog optind.
       if optind \<ge> argc argv then listen_usage (hd argv) EXIT_FAILURE (Some ''The ip address and port are required'')
       else if optind + 1 \<ge> argc argv then listen_usage (hd argv) EXIT_FAILURE (Some ''The port is required'')
       else if optind < argc argv - 3 then listen_usage (hd argv) EXIT_FAILURE (Some ''Error: Too many arguments.'')
       else bind_result (argv_at argv optind) (\<lambda>ip_address.
       bind_result (argv_at argv (optind + 1)) (\<lambda>port.
       bind_result (argv_at argv (optind + 2)) (\<lambda>msg.
       Returns (ip_address, port, backlog, msg)))))"

definition listen_handle_arguments :: "string \<Rightarrow> string option \<Rightarrow> string option \<Rightarrow> string option \<Rightarrow> string option \<Rightarrow> (uint64 \<times> int) result" where
  "listen_handle_arguments binary_name ip_address port_str backlog_str message =
     (if ip_address = None then listen_usage binary_name EXIT_FAILURE (Some ''The ip address is required.'')
      else if port_str = None then listen_usage binary_name EXIT_FAILURE (Some ''The port is required.'')
      else if backlog_str = None then listen_usage binary_name EXIT_FAILURE (Some ''The backlog is required.'')
      else if message = None then listen_usage binary_name EXIT_FAILURE (Some ''The message is required.'')
      else bind_result (listen_parse_in_port_t binary_name (the port_str)) (\<lambda>port.
      bind_result (listen_parse_positive_int binary_name (the backlog_str)) (\<lambda>backlog.
      Returns (port, backlog))))"

definition listen_arguments :: "string list \<Rightarrow> (string option \<times> string option \<times> string option \<times> string option \<times> uint64 \<times> int) result" where
  "listen_arguments argv =
     bind_result (listen_parse_arguments argv None) (\<lambda>(address, port_str, backlog_str, message).
     bind_result (listen_handle_arguments (hd argv) address port_str backlog_str message) (\<lambda>(port, backlog).
       Returns (address, port_str, backlog_str, message, port, backlog)))"

subsection \<open>networking-functions/socket/main.c\<close>

definition socket_usage :: "string \<Rightarrow> int \<Rightarrow> string option \<Rightarrow> 'a result" where
  "socket_usage program_name exit_code message =
     usage_exit
       [''Usage: '' @ program_name @ '' [-h] <address_family> <socket_type>'',
        ''Options:'',
        ''  -h  Display this help message''] exit_code message"

definition socket_string_to_address_family :: "string option \<Rightarrow> int result" where
  "socket_string_to_address_family str =
     (if str = None then socket_usage ''Invalid address family string.'' EXIT_FAILURE None
      else if str = Some ''AF_INET'' then Returns AF_INET
      else if str = Some ''AF_INET6'' then Returns AF_INET6
      else if str = Some ''AF_UNIX'' then Returns AF_UNIX
      else socket_usage ''Invalid address family string.'' EXIT_FAILURE None)"

definition socket_string_to_socket_type :: "string option \<Rightarrow> int result" where
  "socket_string_to_socket_type str =
     (if str = None then socket_usage ''Invalid socket type string.'' EXIT_FAILURE None
      else if str = Some ''SOCK_STREAM'' then Returns SOCK_STREAM
      else if str = Some ''SOCK_DGRAM'' then Returns SOCK_DGRAM
      else if str = Some ''SOCK_RAW'' then Returns SOCK_RAW
      else if str = Some ''SOCK_SEQPACKET'' then Returns SOCK_SEQPACKET
      else socket_usage ''Invalid socket type string.'' EXIT_FAILURE None)"

definition socket_parse_arguments :: "string list \<Rightarrow> (string option \<times> string option) result" where
  "socket_parse_arguments argv =
     with_options argv ''h''
       (help_cases socket_usage (hd argv)) ()
       (\<lambda>_ optind.
       if optind + 1 \<ge> argc argv then socket_usage (hd argv) EXIT_FAILURE (Some ''Too few arguments.'')
       else if optind < argc argv - 2 then socket_usage (hd argv) EXIT_FAILURE (Some ''Too many arguments.'')
       else bind_result (argv_at argv optind) (\<lambda>address_family_str.
       bind_result (argv_at argv (optind + 1)) (\<lambda>socket_type_str.
       Returns (address_family_str, socket_type_str))))"

definition socket_handle_arguments :: "string \<Rightarrow> string option \<Rightarrow> string option \<Rightarrow> (int \<times> int) result" where
  "socket_handle_arguments binary_name address_family_str socket_type_str =
     (if address_family_str = None then socket_usage binary_name EXIT_FAILURE (Some ''The address family is required.'')
      else if socket_type_str = None then socket_usage binary_name EXIT_FAILURE (Some ''The socket type is required.'')
      else bind_result (socket_string_to_address_family address_family_str) (\<lambda>address_family.
      bind_result (socket_string_to_socket_type socket_type_str) (\<lambda>socket_type.
      Returns (address_family, socket_type))))"

definition socket_arguments :: "string list \<Rightarrow> (string option \<times> string option \<times> int \<times> int) result" where
  "socket_arguments argv =
     bind_result (socket_parse_arguments argv) (\<lambda>(address_family_str, socket_type_str).
     bind_result (socket_handle_arguments (hd argv) address_family_str socket_type_str) (\<lambda>(address_family, socket_type).
       Returns (address_family_str, socket_type_str, address_family, socket_type)))"

subsection \<open>sockets/getsockopt/main.c\<close>

definition getsockopt_usage :: "string \<Rightarrow> int \<Rightarrow> string option \<Rightarrow> 'a result" where
  "getsockopt_usage program_name exit_code message =
     usage_exit
       [''Usage: '' @ program_name @ '' [-h] <ip address> <port>'',
        ''Options:'',
        ''  -h  Display this help message''] exit_code message"

definition getsockopt_parse_in_port_t :: "string \<Rightarrow> string \<Rightarrow> uint64 result" where
  "getsockopt_parse_in_port_t binary_name str =
     (case strtoumax str of (parsed_value, endptr, erange) \<Rightarrow>
      if erange then Exits EXIT_FAILURE [Perror ''Error parsing in_port_t'']
      else if endptr \<noteq> [] then getsockopt_usage binary_name EXIT_FAILURE (Some ''Invalid characters in input.'')
      else if UINT16_MAX < parsed_value then getsockopt_usage binary_name EXIT_FAILURE (Some ''in_port_t value out of range.'')
      else Returns (cast_unsigned 2 parsed_value))"

definition getsockopt_parse_arguments :: "string list \<Rightarrow> (string option \<times> string option) result" where
  "getsockopt_parse_arguments argv =
     with_options argv ''h''
       (help_cases getsockopt_usage (hd argv)) ()
       (\<lambda>_ optind.
       if optind \<ge> argc argv then getsockopt_usage (hd argv) EXIT_FAILURE (Some ''The ip address and port are required'')
       else if optind + 1 \<ge> argc argv then getsockopt_usage (hd argv) EXIT_FAILURE (Some ''The port is required'')
       else if optind < argc argv - 2 then getsockopt_usage (hd argv) EXIT_FAILURE (Some ''Error: Too many arguments.'')
       else bind_result (argv_at argv optind) (\<lambda>address.
       bind_result (argv_at argv (optind + 1)) (\<lambda>port.
       Returns (address, port))))"

definition getsockopt_handle_arguments :: "string \<Rightarrow> string option \<Rightarrow> string option \<Rightarrow> uint64 result" where
  "getsockopt_handle_arguments binary_name address port_str =
     (if address = None then getsockopt_usage binary_name EXIT_FAILURE (Some ''The ip address is required.'')
      else if port_str = None then getsockopt_usage binary_name EXIT_FAILURE (Some ''The port is required.'')
      else bind_result (getsockopt_parse_in_port_t binary_name (the port_str)) (\<lambda>port.
      Returns port))"

definition getsockopt_arguments :: "string list \<Rightarrow> (string option \<times> string option \<times> uint64) result" where
  "getsockopt_arguments argv =
     bind_result (getsockopt_parse_arguments argv) (\<lambda>(address, port_str).
     bind_result (getsockopt_handle_arguments (hd argv) address port_str) (\<lambda>port.
       Returns (address, port_str, port)))"

subsection \<open>sockets/setsockopt/client.c\<close>

definition setsockopt_client_usage :: "string \<Rightarrow> int \<Rightarrow> string option \<Rightarrow> 'a result" where
  "setsockopt_client_usage program_name exit_code message =
     usage_exit
       [''Usage: '' @ program_name @ '' [-h] <address> <port>'',
        ''Options:'',
        ''  -h  Display this help message''] exit_code message"

definition setsockopt_client_parse_in_port_t :: "string \<Rightarrow> string \<Rightarrow> uint64 result" where
  "setsockopt_client_parse_in_port_t binary_name str =
     (case strtoumax str of (parsed_value, endptr, erange) \<Rightarrow>
      if erange then Exits EXIT_FAILURE [Perror ''Error parsing in_port_t'']
      else if endptr \<noteq> [] then setsockopt_client_usage binary_name EXIT_FAILURE (Some ''Invalid characters in input.'')
      else if UINT16_MAX < parsed_value then setsockopt_client_usage binary_name EXIT_FAILURE (Some ''in_port_t value out of range.'')
      else Returns (cast_unsigned 2 parsed_value))"

definition setsockopt_client_parse_arguments :: "string list \<Rightarrow> (string option \<times> string option) result" where
  "setsockopt_client_parse_arguments argv =
     with_options argv ''h''
       (help_cases setsockopt_client_usage (hd argv)) ()
       (\<lambda>_ optind.
       if optind + 1 \<ge> argc argv then setsockopt_client_usage (hd argv) EXIT_FAILURE (Some ''Too few arguments.'')
       else if optind < argc argv - 2 then setsockopt_client_usage (hd argv) EXIT_FAILURE (Some ''Too many arguments.'')
       else bind_result (argv_at argv optind) (\<lambda>address.
       bind_result (argv_at argv (optind + 1)) (\<lambda>port.
       Returns (address, port))))"

definition setsockopt_client_handle_arguments :: "string \<Rightarrow> string option \<Rightarrow> string option \<Rightarrow> uint64 result" where
  "setsockopt_client_handle_arguments binary_name address port_str =
     (if address = None then setsockopt_client_usage binary_name EXIT_FAILURE (Some ''The port is required.'')
      else if port_str = None then setsockopt_client_usage binary_name EXIT_FAILURE (Some ''The address is required.'')
      else bind_result (setsockopt_client_parse_in_port_t binary_name (the port_str)) (\<lambda>port.
      Returns port))"

definition setsockopt_client_arguments :: "string list \<Rightarrow> (string option \<times> string option \<times> uint64) result" where
  "setsockopt_client_arguments argv =
     bind_result (setsockopt_client_parse_arguments argv) (\<lambda>(address, port_str).
     bind_result (setsockopt_client_handle_arguments (hd argv) address port_str) (\<lambda>port.
       Returns (address, port_str, port)))"

subsection \<open>sockets/setsockopt/server.c\<close>

definition setsockopt_server_usage :: "string \<Rightarrow> int \<Rightarrow> string option \<Rightarrow> 'a result" where
  "setsockopt_server_usage program_name exit_code message =
     usage_exit
       [''Usage: '' @ program_name @ '' [-h] <ip address> <port>'',
        ''Options:'',
        ''  -h  Display this help message''] exit_code message"

definition setsockopt_server_parse_in_port_t :: "string \<Rightarrow> string \<Rightarrow> uint64 result" where
  "setsockopt_server_parse_in_port_t binary_name str =
     (case strtoumax str of (parsed_value, endptr, erange) \<Rightarrow>
      if erange then Exits EXIT_FAILURE [Perror ''Error parsing in_port_t'']
      else if endptr \<noteq> [] then setsockopt_server_usage binary_name EXIT_FAILURE (Some ''Invalid characters in input.'')
      else if UINT16_MAX < parsed_value then setsockopt_server_usage binary_name EXIT_FAILURE (Some ''in_port_t value out of range.'')
      else Returns (cast_unsigned 2 parsed_value))"

definition setsockopt_server_parse_arguments :: "string list \<Rightarrow> (string option \<times> string option) result" where
  "setsockopt_server_parse_arguments argv =
     with_options argv ''h''
       (help_cases setsockopt_server_usage (hd argv)) ()
       (\<lambda>_ optind.
       if optind \<ge> argc argv then setsockopt_server_usage (hd argv) EXIT_FAILURE (Some ''The ip address and port are required'')
       else if optind + 1 \<ge> argc argv then setsockopt_server_usage (hd argv) EXIT_FAILURE (Some ''The port is required'')
       else if optind < argc argv - 2 then setsockopt_server_usage (hd argv) EXIT_FAILURE (Some ''Error: Too many arguments.'')
       else bind_result (argv_at argv optind) (\<lambda>ip_address.
       bind_result (argv_at argv (optind + 1)) (\<lambda>port.
       Returns (ip_address, port))))"

definition setsockopt_server_handle_arguments :: "string \<Rightarrow> string option \<Rightarrow> string option \<Rightarrow> uint64 result" where
  "setsockopt_server_handle_arguments binary_name ip_address port_str =
     (if ip_address = None then setsockopt_server_usage binary_name EXIT_FAILURE (Some ''The ip address is required.'')
      else if port_str = None then setsockopt_server_usage binary_name EXIT_FAILURE (Some ''The port is required.'')
      else bind_result (setsockopt_server_parse_in_port_t binary_name (the port_str)) (\<lambda>port.
      Returns port))"

definition setsockopt_server_arguments :: "string list \<Rightarrow> (string option \<times> string option \<times> uint64) result" where
  "setsockopt_server_arguments argv =
     bind_result (setsockopt_server_parse_arguments argv) (\<lambda>(address, port_str).
     bind_result (setsockopt_server_handle_arguments (hd argv) address port_str) (\<lambda>port.
       Returns (address, port_str, port)))"

subsection \<open>tcp/shutdown/client.c\<close>

definition shutdown_client_usage :: "string \<Rightarrow> int \<Rightarrow> string option \<Rightarrow> 'a result" where
  "shutdown_client_usage program_name exit_code message =
     usage_exit
       [''Usage: '' @ program_name @ '' [-h] <target address> <port>'',
        ''Options:'',
        ''  -h  Display this help message''] exit_code message"

definition shutdown_client_parse_in_port_t :: "string \<Rightarrow> string \<Rightarrow> uint64 result" where
  "shutdown_client_parse_in_port_t binary_name str =
     (case strtoumax str of (parsed_value, endptr, erange) \<Rightarrow>
      if erange then Exits EXIT_FAILURE [Perror ''Error parsing in_port_t'']
      else if endptr \<noteq> [] then shutdown_client_usage binary_name EXIT_FAILURE (Some ''Invalid characters in input.'')
      else if UINT16_MAX < parsed_value then shutdown_client_usage binary_name EXIT_FAILURE (Some ''in_port_t value out of range.'')
      else Returns (cast_unsigned 2 parsed_value))"

definition shutdown_client_parse_arguments :: "string list \<Rightarrow> (string option \<times> string option) result" where
  "shutdown_client_parse_arguments argv =
     with_options argv ''h''
       (help_cases shutdown_client_usage (hd argv)) ()
       (\<lambda>_ optind.
       if optind + 1 \<ge> argc argv then shutdown_client_usage (hd argv) EXIT_FAILURE (Some ''Too few arguments.'')
       else if optind < argc argv - 2 then shutdown_client_usage (hd argv) EXIT_FAILURE (Some ''Too many arguments.'')
       else bind_result (argv_at argv optind) (\<lambda>target_address.
       bind_result (argv_at argv (optind + 1)) (\<lambda>port.
       Returns (target_address, port))))"

definition shutdown_client_handle_arguments :: "string \<Rightarrow> string option \<Rightarrow> string option \<Rightarrow> uint64 result" where
  "shutdown_client_handle_arguments binary_name target_address port_str =
     (if target_address = None then shutdown_client_usage binary_name EXIT_FAILURE (Some ''The target address is required.'')
      else if port_str = None then shutdown_client_usage binary_name EXIT_FAILURE (Some ''The port is required.'')
      else bind_result (shutdown_client_parse_in_port_t binary_name (the port_str)) (\<lambda>port.
      Returns port))"

definition shutdown_client_arguments :: "string list \<Rightarrow> (string option \<times> string option \<times> uint64) result" where
  "shutdown_client_arguments argv =
     bind_result (shutdown_client_parse_arguments argv) (\<lambda>(address, port_str).
     bind_result (shutdown_client_handle_arguments (hd argv) address port_str) (\<lambda>port.
       Returns (address, port_str, port)))"

subsection \<open>tcp/shutdown/server.c\<close>

definition shutdown_server_usage :: "string \<Rightarrow> int \<Rightarrow> string option \<Rightarrow> 'a result" where
  "shutdown_server_usage program_name exit_code message =
     usage_exit
       [''Usage: '' @ program_name @ '' [-h] <ip address> <port>'',
        ''Options:'',
        ''  -h  Display this help message''] exit_code message"

definition shutdown_server_parse_in_port_t :: "string \<Rightarrow> string \<Rightarrow> uint64 result" where
  "shutdown_server_parse_in_port_t binary_name str =
     (case strtoumax str of (parsed_value, endptr, erange) \<Rightarrow>
      if erange then Exits EXIT_FAILURE [Perror ''Error parsing in_port_t'']
      else if endptr \<noteq> [] then shutdown_server_usage binary_name EXIT_FAILURE (Some ''Invalid characters in input.'')
      else if UINT16_MAX < parsed_value then shutdown_server_usage binary_name EXIT_FAILURE (Some ''in_port_t value out of range.'')
      else Returns (cast_unsigned 2 parsed_value))"

definition shutdown_server_parse_arguments :: "string list \<Rightarrow> (string option \<times> string option) result" where
  "shutdown_server_parse_arguments argv =
     with_options argv ''h''
       (help_cases shutdown_server_usage (hd argv)) ()
       (\<lambda>_ optind.
       if optind \<ge> argc argv then shutdown_server_usage (hd argv) EXIT_FAILURE (Some ''The ip address and port are required'')
       else if optind + 1 \<ge> argc argv then shutdown_server_usage (hd argv) EXIT_FAILURE (Some ''The port is required'')
       else if optind < argc argv - 2 then shutdown_server_usage (hd argv) EXIT_FAILURE (Some ''Error: Too many arguments.'')
       else bind_result (argv_at argv optind) (\<lambda>ip_address.
       bind_result (argv_at argv (optind + 1)) (\<lambda>port.
       Returns (ip_address, port))))"

definition shutdown_server_handle_arguments :: "string \<Rightarrow> string option \<Rightarrow> string option \<Rightarrow> uint64 result" where
  "shutdown_server_handle_arguments binary_name ip_address port_str =
     (if ip_address = None then shutdown_server_usage binary_name EXIT_FAILURE (Some ''The ip address is required.'')
      else if port_str = None then shutdown_server_usage binary_name EXIT_FAILURE (Some ''The port is required.'')
      else bind_result (shutdown_server_parse_in_port_t binary_name (the port_str)) (\<lambda>port.
      Returns port))"

definition shutdown_server_arguments :: "string list \<Rightarrow> (string option \<times> string option \<times> uint64) result" where
  "shutdown_server_arguments argv =
     bind_result (shutdown_server_parse_arguments argv) (\<lambda>(address, port_str).
     bind_result (shutdown_server_handle_arguments (hd argv) address port_str) (\<lambda>port.
       Returns (address, port_str, port)))"

subsection \<open>udp/sendto-recvfrom/client.c\<close>

definition sendto_client_usage :: "string \<Rightarrow> int \<Rightarrow> string option \<Rightarrow> 'a result" where
  "sendto_client_usage program_name exit_code message =
     usage_exit
       [''Usage: '' @ program_name @ '' [-h] <address> <port> <message>'',
        ''Options:'',
        ''  -h  Display this help message''] exit_code message"

definition sendto_client_parse_in_port_t :: "string \<Rightarrow> string \<Rightarrow> uint64 result" where
  "sendto_client_parse_in_port_t binary_name str =
     (case strtoumax str of (parsed_value, endptr, erange) \<Rightarrow>
      if erange then Exits EXIT_FAILURE [Perror ''Error parsing in_port_t'']
      else if endptr \<noteq> [] then sendto_client_usage binary_name EXIT_FAILURE (Some ''Invalid characters in input.'')
      else if UINT16_MAX < parsed_value then sendto_client_usage binary_name EXIT_FAILURE (Some ''in_port_t value out of range.'')
      else Returns (cast_unsigned 2 parsed_value))"

definition sendto_client_parse_arguments :: "string list \<Rightarrow> (string option \<times> string option \<times> string option) result" where
  "sendto_client_parse_arguments argv =
     with_options argv ''h''
       (help_cases sendto_client_usage (hd argv)) ()
       (\<lambda>_ optind.
       if optind + 1 \<ge> argc argv then sendto_client_usage (hd argv) EXIT_FAILURE (Some ''Too few arguments.'')
       else if optind < argc argv - 3 then sendto_client_usage (hd argv) EXIT_FAILURE (Some ''Too many arguments.'')
       else bind_result (argv_at argv optind) (\<lambda>address.
       bind_result (argv_at argv (optind + 1)) (\<lambda>port.
       bind_result (argv_at argv (optind + 2)) (\<lambda>msg.
       Returns (address, port, msg)))))"

definition sendto_client_handle_arguments :: "string \<Rightarrow> string option \<Rightarrow> string option \<Rightarrow> string option \<Rightarrow> uint64 result" where
  "sendto_client_handle_arguments binary_name address port_str message =
     (if address = None then sendto_client_usage binary_name EXIT_FAILURE (Some ''The address is required.'')
      else if port_str = None then sendto_client_usage binary_name EXIT_FAILURE (Some ''The port is required.'')
      else if message = None then sendto_client_usage binary_name EXIT_FAILURE (Some ''The message is required.'')
      else bind_result (sendto_client_parse_in_port_t binary_name (the port_str)) (\<lambda>port.
      Returns port))"

definition sendto_client_arguments :: "string list \<Rightarrow> (string option \<times> string option \<times> string option \<times> uint64) result" where
  "sendto_client_arguments argv =
     bind_result (sendto_client_parse_arguments argv) (\<lambda>(address, port_str, message).
     bind_result (sendto_client_handle_arguments (hd argv) address port_str message) (\<lambda>port.
       Returns (address, port_str, message, port)))"

subsection \<open>udp/sendto-recvfrom/server.c\<close>

definition sendto_server_usage :: "string \<Rightarrow> int \<Rightarrow> string option \<Rightarrow> 'a result" where
  "sendto_server_usage program_name exit_code message =
     usage_exit
       [''Usage: '' @ program_name @ '' [-h] <ip address> <port>'',
        ''Options:'',
        ''  -h  Display this help message''] exit_code message"

definition sendto_server_parse_in_port_t :: "string \<Rightarrow> string \<Rightarrow> uint64 result" where
  "sendto_server_parse_in_port_t binary_name str =
     (case strtoumax str of (parsed_value, endptr, erange) \<Rightarrow>
      if erange then Exits EXIT_FAILURE [Perror ''Error parsing in_port_t'']
      else if endptr \<noteq> [] then sendto_server_usage binary_name EXIT_FAILURE (Some ''Invalid characters in input.'')
      else if UINT16_MAX < parsed_value then sendto_server_usage binary_name EXIT_FAILURE (Some ''in_port_t value out of range.'')
      else Returns (cast_unsigned 2 parsed_value))"

definition sendto_server_parse_arguments :: "string list \<Rightarrow> (string option \<times> string option) result" where
  "sendto_server_parse_arguments argv =
     with_options argv ''h''
       (help_cases sendto_server_usage (hd argv)) ()
       (\<lambda>_ optind.
       if optind \<ge> argc argv then sendto_server_usage (hd argv) EXIT_FAILURE (Some ''The ip address and port are required'')
       else if optind + 1 \<ge> argc argv then sendto_server_usage (hd argv) EXIT_FAILURE (Some ''The port is required'')
       else if optind < argc argv - 2 then sendto_server_usage (hd argv) EXIT_FAILURE (Some ''Error: Too many arguments.'')
       else bind_result (argv_at argv optind) (\<lambda>ip_address.
       bind_result (argv_at argv (optind + 1)) (\<lambda>port.
       Returns (ip_address, port))))"

definition sendto_server_handle_arguments :: "string \<Rightarrow> string option \<Rightarrow> string option \<Rightarrow> uint64 result" where
  "sendto_server_handle_arguments binary_name ip_address port_str =
     (if ip_address = None then sendto_server_usage binary_name EXIT_FAILURE (Some ''The ip address is required.'')
      else if port_str = None then sendto_server_usage binary_name EXIT_FAILURE (Some ''The port is required.'')
      else bind_result (sendto_server_parse_in_port_t binary_name (the port_str)) (\<lambda>port.
      Returns port))"

definition sendto_server_arguments :: "string list \<Rightarrow> (string option \<times> string option \<times> uint64) result" where
  "sendto_server_arguments argv =
     bind_result (sendto_server_parse_arguments argv) (\<lambda>(address, port_str).
     bind_result (sendto_server_handle_arguments (hd argv) address port_str) (\<lambda>port.
       Returns (address, port_str, port)))"

section \<open>All of them\<close>

lemmas network_usage =
    read_write_client_usage_def send_recv_client_usage_def socketpair_usage_def io_client_usage_def
    getaddrinfo_usage_def getnameinfo_usage_def getpeername_usage_def getsockname_usage_def bind_usage_def
    connect_usage_def listen_usage_def socket_usage_def getsockopt_usage_def setsockopt_client_usage_def
    setsockopt_server_usage_def shutdown_client_usage_def shutdown_server_usage_def sendto_client_usage_def
    sendto_server_usage_def

lemmas network_defs =
    read_write_client_parse_arguments_def read_write_client_handle_arguments_def
    read_write_client_arguments_def send_recv_client_parse_arguments_def
    send_recv_client_handle_arguments_def send_recv_client_arguments_def socketpair_parse_arguments_def
    socketpair_handle_arguments_def socketpair_arguments_def io_client_parse_arguments_def
    io_client_handle_arguments_def io_client_arguments_def getaddrinfo_parse_arguments_def
    getaddrinfo_handle_arguments_def getaddrinfo_arguments_def getnameinfo_parse_arguments_def
    getnameinfo_parse_in_port_t_def getnameinfo_handle_arguments_def getnameinfo_arguments_def
    getpeername_parse_arguments_def getpeername_handle_arguments_def getpeername_arguments_def
    getsockname_parse_arguments_def getsockname_handle_arguments_def getsockname_arguments_def
    bind_parse_arguments_def bind_parse_in_port_t_def bind_handle_arguments_def bind_arguments_def
    connect_parse_arguments_def connect_parse_in_port_t_def connect_handle_arguments_def
    connect_arguments_def listen_parse_arguments_def listen_parse_in_port_t_def
    listen_parse_positive_int_def listen_handle_arguments_def listen_arguments_def
    socket_parse_arguments_def socket_string_to_address_family_def socket_string_to_socket_type_def
    socket_handle_arguments_def socket_arguments_def getsockopt_parse_arguments_def
    getsockopt_parse_in_port_t_def getsockopt_handle_arguments_def getsockopt_arguments_def
    setsockopt_client_parse_arguments_def setsockopt_client_parse_in_port_t_def
    setsockopt_client_handle_arguments_def setsockopt_client_arguments_def
    setsockopt_server_parse_arguments_def setsockopt_server_parse_in_port_t_def
    setsockopt_server_handle_arguments_def setsockopt_server_arguments_def
    shutdown_client_parse_arguments_def shutdown_client_parse_in_port_t_def
    shutdown_client_handle_arguments_def shutdown_client_arguments_def shutdown_server_parse_arguments_def
    shutdown_server_parse_in_port_t_def shutdown_server_handle_arguments_def shutdown_server_arguments_def
    sendto_client_parse_arguments_def sendto_client_parse_in_port_t_def sendto_client_handle_arguments_def
    sendto_client_arguments_def sendto_server_parse_arguments_def sendto_server_parse_in_port_t_def
    sendto_server_handle_arguments_def sendto_server_arguments_def

text \<open>The command lines with \<^verbatim>\<open>-h\<close> as an option without argument.\<close>

definition network_programs :: "(string list \<Rightarrow> ending) list" where
  "network_programs =
    [\<lambda>argv. outcome (read_write_client_arguments argv),
     \<lambda>argv. outcome (send_recv_client_arguments argv),
     \<lambda>argv. outcome (socketpair_arguments argv),
     \<lambda>argv. outcome (io_client_arguments argv),
     \<lambda>argv. outcome (getaddrinfo_arguments argv),
     \<lambda>argv. outcome (getnameinfo_arguments argv),
     \<lambda>argv. outcome (getpeername_arguments argv),
     \<lambda>argv. outcome (getsockname_arguments argv),
     \<lambda>argv. outcome (bind_arguments argv),
     \<lambda>argv. outcome (connect_arguments argv),
     \<lambda>argv. outcome (listen_arguments argv),
     \<lambda>argv. outcome (socket_arguments argv),
     \<lambda>argv. outcome (getsockopt_arguments argv),
     \<lambda>argv. outcome (setsockopt_client_arguments argv),
     \<lambda>argv. outcome (setsockopt_server_arguments argv),
     \<lambda>argv. outcome (shutdown_client_arguments argv),
     \<lambda>argv. outcome (shutdown_server_arguments argv),
     \<lambda>argv. outcome (sendto_client_arguments argv),
     \<lambda>argv. outcome (sendto_server_arguments argv)]"

lemma network_defined:
  assumes "argv \<noteq> []" "p \<in> set network_programs"
  shows "p argv \<noteq> Breaks"
  using assms
  by (auto simp: network_programs_def network_defs network_usage c_sizes bind_result_Undef_iff
      argv_at_Undef_iff split: prod.splits if_splits dest!: cli_Undef)

lemma network_help:
  "p \<in> set network_programs \<Longrightarrow> p (name # ''-h'' # args) = Leaves EXIT_SUCCESS"
  by (auto simp: network_programs_def network_defs network_usage cli_switch split: prod.splits)

end
