(* ===== verification/Cli_System.thy ===== *)
theory Cli_System
  imports Getopt Number_Parse
begin

text \<open>
  The command lines of the programs under \<^verbatim>\<open>dynamic-libraries, logging, process, pthread-condition, pthread-mutex, shell, sleep, terminal and time\<close>
  of \<^verbatim>\<open>src\<close>: for each program its \<^verbatim>\<open>usage\<close>, its
  \<^verbatim>\<open>parse_...\<close> and \<^verbatim>\<open>get_..._max\<close> functions, \<^verbatim>\<open>parse_arguments\<close>,
  \<^verbatim>\<open>handle_arguments\<close>, and, as \<open>..._arguments\<close>, the two calls with which
  \<^verbatim>\<open>main\<close> begins. A \<^verbatim>\<open>char *\<close> variable is a \<^typ>\<open>string option\<close>, the null pointer
  being \<open>None\<close>; the variables a function sets through pointers are its result.
\<close>

section \<open>The programs\<close>

definition RLIM_INFINITY :: uint64 where "RLIM_INFINITY = 0xFFFFFFFFFFFFFFFF"

text \<open>The codes \<^verbatim>\<open>B0\<close>, ..., \<^verbatim>\<open>B38400\<close> of \<^verbatim>\<open>termios.h\<close> on Linux,
  in the order of the table \<^verbatim>\<open>baud_rates\<close>.\<close>

definition baud_rates :: "int list" where
  "baud_rates = [0, 1, 2, 3, 4, 5, 6, 7, 8, 9, 10, 11, 12, 13, 14, 15]"

definition B38400 :: int where "B38400 = 15"

subsection \<open>dynamic-libraries/dlopen-dlclose-dlerror/main.c\<close>

definition dlopen_usage :: "string \<Rightarrow> int \<Rightarrow> string option \<Rightarrow> 'a result" where
  "dlopen_usage program_name exit_code message =
     usage_exit
       [''Usage: '' @ program_name @ '' [-h] <library path>''] exit_code message"

definition dlopen_parse_arguments :: "string list \<Rightarrow> string option result" where
  "dlopen_parse_arguments argv =
     with_options argv ''h:''
       (help_cases_default dlopen_usage (hd argv) EXIT_SUCCESS None) ()
       (\<lambda>_ optind.
       if optind \<ge> argc argv then dlopen_usage (hd argv) EXIT_FAILURE (Some ''The library name is required'')
       else if optind < argc argv - 1 then dlopen_usage (hd argv) EXIT_FAILURE (Some ''Too many arguments.'')
       else bind_result (argv_at argv optind) (\<lambda>library_path.
       Returns library_path))"

definition dlopen_handle_arguments :: "string \<Rightarrow> string option \<Rightarrow> unit result" where
  "dlopen_handle_arguments binary_name library_path =
     (if library_path = None then dlopen_usage binary_name EXIT_FAILURE (Some ''The library path is required.'')
      else Returns ())"

definition dlopen_arguments :: "string list \<Rightarrow> string option result" where
  "dlopen_arguments argv =
     bind_result (dlopen_parse_arguments argv) (\<lambda>library_path.
     bind_result (dlopen_handle_arguments (hd argv) library_path) (\<lambda>_.
       Returns library_path))"

subsection \<open>dynamic-libraries/dlsym/main.c\<close>

definition dlsym_usage :: "string \<Rightarrow> int \<Rightarrow> string option \<Rightarrow> 'a result" where
  "dlsym_usage program_name exit_code message =
     usage_exit
       [''Usage: '' @ program_name @ '' [-h] -l <library path> -f <function name>'',
        ''Options:'',
        ''  -h  Display this help message'',
        ''  -l <library path>  Path to the shared library to load'',
        ''  -f <function name> Function to call from the library (must be (void))''] exit_code message"

definition dlsym_parse_arguments :: "string list \<Rightarrow> string option \<Rightarrow> string option \<Rightarrow> (string option \<times> string option) result" where
  "dlsym_parse_arguments argv library_path function_name =
     with_options argv ''hl:f:''
       (option_case (CHR ''l'') (\<lambda>arg (_, function_name). (arg, function_name))
       (option_case (CHR ''f'') (\<lambda>arg (library_path, _). (library_path, arg))
       (help_cases dlsym_usage (hd argv)))) (library_path, function_name)
       (\<lambda>(library_path, function_name) _.
       Returns (library_path, function_name))"

definition dlsym_handle_arguments :: "string \<Rightarrow> string option \<Rightarrow> string option \<Rightarrow> unit result" where
  "dlsym_handle_arguments binary_name library_path function_name =
     (if library_path = None then dlsym_usage binary_name EXIT_FAILURE (Some ''The library path is required.'')
      else if function_name = None then dlsym_usage binary_name EXIT_FAILURE (Some ''The function name is required.'')
      else Returns ())"

definition dlsym_arguments :: "string list \<Rightarrow> (string option \<times> string option) result" where
  "dlsym_arguments argv =
     bind_result (dlsym_parse_arguments argv None None) (\<lambda>(library_path, function_name).
     bind_result (dlsym_handle_arguments (hd argv) library_path function_name) (\<lambda>_.
       Returns (library_path, function_name)))"

subsection \<open>logging/openlog-closelog/main.c\<close>

definition openlog_usage :: "string \<Rightarrow> int \<Rightarrow> string option \<Rightarrow> 'a result" where
  "openlog_usage program_name exit_code message =
     usage_exit
       [''Usage: '' @ program_name @ '' [-h] <log name>'',
        ''Options:'',
        ''  -h  Display this help message''] exit_code message"

definition openlog_parse_arguments :: "string list \<Rightarrow> string option result" where
  "openlog_parse_arguments argv =
     with_options argv ''h''
       (help_cases openlog_usage (hd argv)) ()
       (\<lambda>_ optind.
       if optind \<ge> argc argv then openlog_usage (hd argv) EXIT_FAILURE (Some ''The log name is required'')
       else if optind < argc argv - 1 then openlog_usage (hd argv) EXIT_FAILURE (Some ''Too many arguments.'')
       else bind_result (argv_at argv optind) (\<lambda>log_name.
       Returns log_name))"

definition openlog_handle_arguments :: "string \<Rightarrow> string option \<Rightarrow> unit result" where
  "openlog_handle_arguments binary_name log_name =
     (if log_name = None then openlog_usage binary_name EXIT_FAILURE (Some ''The log name is required.'')
      else Returns ())"

definition openlog_arguments :: "string list \<Rightarrow> string option result" where
  "openlog_arguments argv =
     bind_result (openlog_parse_arguments argv) (\<lambda>log_name.
     bind_result (openlog_handle_arguments (hd argv) log_name) (\<lambda>_.
       Returns log_name))"

subsection \<open>logging/setlogmask/main.c\<close>

definition setlogmask_usage :: "string \<Rightarrow> int \<Rightarrow> string option \<Rightarrow> 'a result" where
  "setlogmask_usage program_name exit_code message =
     usage_exit
       [''Usage: '' @ program_name @ '' [-h] <log name>'',
        ''Options:'',
        ''  -h  Display this help message''] exit_code message"

definition setlogmask_parse_arguments :: "string list \<Rightarrow> string option result" where
  "setlogmask_parse_arguments argv =
     with_options argv ''h''
       (help_cases setlogmask_usage (hd argv)) ()
       (\<lambda>_ optind.
       if optind \<ge> argc argv then setlogmask_usage (hd argv) EXIT_FAILURE (Some ''The log name is required'')
       else if optind < argc argv - 1 then setlogmask_usage (hd argv) EXIT_FAILURE (Some ''Too many arguments.'')
       else bind_result (argv_at argv optind) (\<lambda>log_name.
       Returns log_name))"

definition setlogmask_handle_arguments :: "string \<Rightarrow> string option \<Rightarrow> unit result" where
  "setlogmask_handle_arguments binary_name log_name =
     (if log_name = None then setlogmask_usage binary_name EXIT_FAILURE (Some ''The log name is required.'')
      else Returns ())"

definition setlogmask_arguments :: "string list \<Rightarrow> string option result" where
  "setlogmask_arguments argv =
     bind_result (setlogmask_parse_arguments argv) (\<lambda>log_name.
     bind_result (setlogmask_handle_arguments (hd argv) log_name) (\<lambda>_.
       Returns log_name))"

subsection \<open>logging/syslog/main.c\<close>

definition syslog_usage :: "string \<Rightarrow> int \<Rightarrow> string option \<Rightarrow> 'a result" where
  "syslog_usage program_name exit_code message =
     usage_exit
       [''Usage: '' @ program_name @ '' [-h] <log name>'',
        ''Options:'',
        ''  -h  Display this help message''] exit_code message"

definition syslog_parse_arguments :: "string list \<Rightarrow> string option result" where
  "syslog_parse_arguments argv =
     with_options argv ''h''
       (help_cases syslog_usage (hd argv)) ()
       (\<lambda>_ optind.
       if optind \<ge> argc argv then syslog_usage (hd argv) EXIT_FAILURE (Some ''The log name is required'')
       else if optind < argc argv - 1 then syslog_usage (hd argv) EXIT_FAILURE (Some ''Too many arguments.'')
       else bind_result (argv_at argv optind) (\<lambda>log_name.
       Returns log_name))"

definition syslog_handle_arguments :: "string \<Rightarrow> string option \<Rightarrow> unit result" where
  "syslog_handle_arguments binary_name log_name =
     (if log_name = None then syslog_usage binary_name EXIT_FAILURE (Some ''The log name is required.'')
      else Returns ())"

definition syslog_arguments :: "string list \<Rightarrow> string option result" where
  "syslog_arguments argv =
     bind_result (syslog_parse_arguments argv) (\<lambda>log_name.
     bind_result (syslog_handle_arguments (hd argv) log_name) (\<lambda>_.
       Returns log_name))"

subsection \<open>process/abort/main.c\<close>

definition abort_usage :: "string \<Rightarrow> int \<Rightarrow> string option \<Rightarrow> 'a result" where
  "abort_usage program_name exit_code message =
     usage_exit
       [''Usage: '' @ program_name @ '' [-h] [-l limit]'',
        ''Options:'',
        ''  -h  Display this help message'',
        ''  -l  Set the core dump limit to unlimited''] exit_code message"

definition abort_get_rlim_t_max :: "nat \<Rightarrow> uint64 result" where
  "abort_get_rlim_t_max sizeof_rlim_t =
     (if sizeof_rlim_t = sizeof_char then Returns (cast_unsigned sizeof_rlim_t UCHAR_MAX)
      else if sizeof_rlim_t = sizeof_short then Returns (cast_unsigned sizeof_rlim_t USHRT_MAX)
      else if sizeof_rlim_t = sizeof_int then Returns (cast_unsigned sizeof_rlim_t UINT_MAX)
      else if sizeof_rlim_t = sizeof_long then Returns (cast_unsigned sizeof_rlim_t ULONG_MAX)
      else if sizeof_rlim_t = sizeof_long_long then Returns (cast_unsigned sizeof_rlim_t ULLONG_MAX)
      else Exits EXIT_FAILURE [Text (''Unsupported size of uid_t'' @ [NL])])"

definition abort_parse_rlim_t :: "nat \<Rightarrow> string \<Rightarrow> string \<Rightarrow> uint64 result" where
  "abort_parse_rlim_t sizeof_rlim_t binary_name str =
     bind_result (abort_get_rlim_t_max sizeof_rlim_t) (\<lambda>max_value.
      (case strtoumax str of (parsed_value, endptr, erange) \<Rightarrow>
      if erange then abort_usage binary_name EXIT_FAILURE (Some ''Error parsing uid_t.'')
      else if endptr \<noteq> [] then abort_usage binary_name EXIT_FAILURE (Some ''Invalid characters in input.'')
      else if max_value < parsed_value then abort_usage binary_name EXIT_FAILURE (Some ''uid_t value out of range.'')
      else Returns (cast_unsigned sizeof_rlim_t parsed_value)))"

definition abort_parse_arguments :: "string list \<Rightarrow> string option \<Rightarrow> string option result" where
  "abort_parse_arguments argv limit =
     with_options argv ''hl:''
       (option_case (CHR ''l'') (\<lambda>arg _. arg)
       (help_cases abort_usage (hd argv))) limit
       (\<lambda>limit _.
       Returns limit)"

definition abort_handle_arguments :: "nat \<Rightarrow> string \<Rightarrow> string option \<Rightarrow> uint64 result" where
  "abort_handle_arguments sizeof_rlim_t binary_name limit_str =
     (bind_result (if limit_str = None then Returns RLIM_INFINITY else abort_parse_rlim_t sizeof_rlim_t binary_name (the limit_str)) (\<lambda>limit.
      Returns limit))"

definition abort_arguments :: "nat \<Rightarrow> string list \<Rightarrow> (string option \<times> uint64) result" where
  "abort_arguments sizeof_rlim_t argv =
     bind_result (abort_parse_arguments argv None) (\<lambda>limit_str.
     bind_result (abort_handle_arguments sizeof_rlim_t (hd argv) limit_str) (\<lambda>limit.
       Returns (limit_str, limit)))"

subsection \<open>process/fork/main.c\<close>

definition fork_usage :: "string \<Rightarrow> int \<Rightarrow> string option \<Rightarrow> 'a result" where
  "fork_usage program_name exit_code message =
     usage_exit
       [''Usage: '' @ program_name @ '' [-h] <seconds>'',
        ''Options:'',
        ''  -h  Display this help message''] exit_code message"

definition fork_parse_unsigned_int :: "string \<Rightarrow> string \<Rightarrow> uint64 result" where
  "fork_parse_unsigned_int binary_name str =
     (case strtoumax str of (parsed_value, endptr, erange) \<Rightarrow>
      if erange then fork_usage binary_name EXIT_FAILURE (Some ''Error parsing unsigned integer.'')
      else if endptr \<noteq> [] then fork_usage binary_name EXIT_FAILURE (Some ''Invalid characters in input.'')
      else if UINT_MAX < parsed_value then fork_usage binary_name EXIT_FAILURE (Some ''Unsigned integer out of range.'')
      else Returns (cast_unsigned sizeof_int parsed_value))"

definition fork_parse_arguments :: "string list \<Rightarrow> string option \<Rightarrow> string option result" where
  "fork_parse_arguments argv seconds =
     with_options argv ''hs:''
       (option_case (CHR ''s'') (\<lambda>arg _. arg)
       (help_cases fork_usage (hd argv))) seconds
       (\<lambda>seconds _.
       Returns seconds)"

definition fork_handle_arguments :: "string \<Rightarrow> string option \<Rightarrow> uint64 result" where
  "fork_handle_arguments binary_name seconds_str =
     (bind_result (if seconds_str = None then Returns 0 else fork_parse_unsigned_int binary_name (the seconds_str)) (\<lambda>seconds.
      Returns seconds))"

definition fork_arguments :: "string list \<Rightarrow> (string option \<times> uint64) result" where
  "fork_arguments argv =
     bind_result (fork_parse_arguments argv None) (\<lambda>seconds_str.
     bind_result (fork_handle_arguments (hd argv) seconds_str) (\<lambda>seconds.
       Returns (seconds_str, seconds)))"

subsection \<open>process/nice/main.c\<close>

definition nice_usage :: "string \<Rightarrow> int \<Rightarrow> string option \<Rightarrow> 'a result" where
  "nice_usage program_name exit_code message =
     usage_exit
       [''Usage: '' @ program_name @ '' [-h] <increment>'',
        ''Options:'',
        ''  -h  Display this help message''] exit_code message"

definition nice_parse_int :: "string \<Rightarrow> string \<Rightarrow> int result" where
  "nice_parse_int binary_name str =
     (case strtoimax str of (parsed_value, endptr, erange) \<Rightarrow>
      if erange then nice_usage binary_name EXIT_FAILURE (Some ''Error parsing integer.'')
      else if endptr \<noteq> [] then nice_usage binary_name EXIT_FAILURE (Some ''Invalid characters in input.'')
      else if INT_MAX < parsed_value \<or> parsed_value < INT_MIN then nice_usage binary_name EXIT_FAILURE (Some ''Integer out of range.'')
      else Returns parsed_value)"

definition nice_parse_arguments :: "string list \<Rightarrow> string option result" where
  "nice_parse_arguments argv =
     with_options argv ''hs:''
       (help_cases nice_usage (hd argv)) ()
       (\<lambda>_ optind.
       if optind \<ge> argc argv then nice_usage (hd argv) EXIT_FAILURE (Some ''The increment is required'')
       else if optind < argc argv - 1 then nice_usage (hd argv) EXIT_FAILURE (Some ''Too many arguments.'')
       else bind_result (argv_at argv optind) (\<lambda>increment.
       Returns increment))"

definition nice_handle_arguments :: "string \<Rightarrow> string option \<Rightarrow> int result" where
  "nice_handle_arguments binary_name increment_str =
     (if increment_str = None then nice_usage binary_name EXIT_FAILURE (Some ''The increment is required.'')
      else bind_result (nice_parse_int binary_name (the increment_str)) (\<lambda>increment.
      Returns increment))"

definition nice_arguments :: "string list \<Rightarrow> (string option \<times> int) result" where
  "nice_arguments argv =
     bind_result (nice_parse_arguments argv) (\<lambda>increment_str.
     bind_result (nice_handle_arguments (hd argv) increment_str) (\<lambda>increment.
       Returns (increment_str, increment)))"

subsection \<open>pthread-condition/pthread\_cond\_timedwait/main.c\<close>

definition pthread_cond_timedwait_usage :: "string \<Rightarrow> int \<Rightarrow> string option \<Rightarrow> 'a result" where
  "pthread_cond_timedwait_usage program_name exit_code message =
     usage_exit
       [''Usage: '' @ program_name @ '' [-h] -m <seconds> -t <seconds>'',
        ''Options:'',
        ''  -h                Display this help message'',
        ''  -m <seconds>      '',
        ''  -t <seconds>  ''] exit_code message"

definition pthread_cond_timedwait_get_time_t_min :: "nat \<Rightarrow> int result" where
  "pthread_cond_timedwait_get_time_t_min sizeof_time_t =
     (if sizeof_time_t = sizeof_char then Returns CHAR_MIN
      else if sizeof_time_t = sizeof_short then Returns SHRT_MIN
      else if sizeof_time_t = sizeof_int then Returns INT_MIN
      else if sizeof_time_t = sizeof_long then Returns LONG_MIN
      else if sizeof_time_t = sizeof_long_long then Returns LLONG_MIN
      else Exits EXIT_FAILURE [Text (''Unsupported size of time_t'' @ [NL])])"

definition pthread_cond_timedwait_get_time_t_max :: "nat \<Rightarrow> int result" where
  "pthread_cond_timedwait_get_time_t_max sizeof_time_t =
     (if sizeof_time_t = sizeof_char then Returns CHAR_MAX
      else if sizeof_time_t = sizeof_short then Returns SHRT_MAX
      else if sizeof_time_t = sizeof_int then Returns INT_MAX
      else if sizeof_time_t = sizeof_long then Returns LONG_MAX
      else if sizeof_time_t = sizeof_long_long then Returns LLONG_MAX
      else Exits EXIT_FAILURE [Text (''Unsupported size of time_t'' @ [NL])])"

definition pthread_cond_timedwait_parse_time_t :: "string \<Rightarrow> int \<Rightarrow> int \<Rightarrow> string \<Rightarrow> int result" where
  "pthread_cond_timedwait_parse_time_t binary_name min_value max_value str =
     (case strtoimax str of (parsed_value, endptr, erange) \<Rightarrow>
      if erange then pthread_cond_timedwait_usage binary_name EXIT_FAILURE (Some ''Error parsing time.'')
      else if endptr \<noteq> [] then pthread_cond_timedwait_usage binary_name EXIT_FAILURE (Some ''Invalid characters in input.'')
      else if parsed_value < min_value \<or> max_value < parsed_value then pthread_cond_timedwait_usage binary_name EXIT_FAILURE (Some ''Unsigned integer out of range for time.'')
      else Returns parsed_value)"

definition pthread_cond_timedwait_parse_unsigned_int :: "string \<Rightarrow> string \<Rightarrow> uint64 result" where
  "pthread_cond_timedwait_parse_unsigned_int binary_name str =
     (case strtoumax str of (parsed_value, endptr, erange) \<Rightarrow>
      if erange then pthread_cond_timedwait_usage binary_name EXIT_FAILURE (Some ''Error parsing unsigned integer.'')
      else if endptr \<noteq> [] then pthread_cond_timedwait_usage binary_name EXIT_FAILURE (Some ''Invalid characters in input.'')
      else if UINT_MAX < parsed_value then pthread_cond_timedwait_usage binary_name EXIT_FAILURE (Some ''Unsigned integer out of range.'')
      else Returns (cast_unsigned sizeof_int parsed_value))"

definition pthread_cond_timedwait_parse_arguments :: "string list \<Rightarrow> string option \<Rightarrow> string option \<Rightarrow> (string option \<times> string option) result" where
  "pthread_cond_timedwait_parse_arguments argv main_seconds thread_seconds =
     with_options argv ''hm:t:''
       (option_case (CHR ''m'') (\<lambda>arg (_, thread_seconds). (arg, thread_seconds))
       (option_case (CHR ''t'') (\<lambda>arg (main_seconds, _). (main_seconds, arg))
       (help_cases pthread_cond_timedwait_usage (hd argv)))) (main_seconds, thread_seconds)
       (\<lambda>(main_seconds, thread_seconds) optind.
       if optind \<noteq> argc argv then pthread_cond_timedwait_usage (hd argv) EXIT_FAILURE (Some ''Too many arguments.'')
       else Returns (main_seconds, thread_seconds))"

definition pthread_cond_timedwait_handle_arguments :: "nat \<Rightarrow> string \<Rightarrow> string option \<Rightarrow> string option \<Rightarrow> (int \<times> uint64) result" where
  "pthread_cond_timedwait_handle_arguments sizeof_time_t binary_name main_seconds_str thread_seconds_str =
     (if main_seconds_str = None then pthread_cond_timedwait_usage binary_name EXIT_FAILURE (Some ''main seconds or nanoseconds are required.'')
      else if thread_seconds_str = None then pthread_cond_timedwait_usage binary_name EXIT_FAILURE (Some ''thread seconds or nanoseconds are required.'')
      else bind_result (pthread_cond_timedwait_get_time_t_min sizeof_time_t) (\<lambda>min_value.
      bind_result (pthread_cond_timedwait_get_time_t_max sizeof_time_t) (\<lambda>max_value.
      bind_result (pthread_cond_timedwait_parse_time_t binary_name min_value max_value (the main_seconds_str)) (\<lambda>main_seconds.
      bind_result (pthread_cond_timedwait_parse_unsigned_int binary_name (the thread_seconds_str)) (\<lambda>thread_seconds.
      Returns (main_seconds, thread_seconds))))))"

definition pthread_cond_timedwait_arguments :: "nat \<Rightarrow> string list \<Rightarrow> (string option \<times> string option \<times> int \<times> uint64) result" where
  "pthread_cond_timedwait_arguments sizeof_time_t argv =
     bind_result (pthread_cond_timedwait_parse_arguments argv None None) (\<lambda>(main_seconds_str, thread_seconds_str).
     bind_result (pthread_cond_timedwait_handle_arguments sizeof_time_t (hd argv) main_seconds_str thread_seconds_str) (\<lambda>(main_seconds, thread_seconds).
       Returns (main_seconds_str, thread_seconds_str, main_seconds, thread_seconds)))"

subsection \<open>pthread-condition/pthread\_cond\_wait-pthread\_cond\_signal/main.c\<close>

definition pthread_cond_wait_usage :: "string \<Rightarrow> int \<Rightarrow> string option \<Rightarrow> 'a result" where
  "pthread_cond_wait_usage program_name exit_code message =
     usage_exit
       [''Usage: '' @ program_name @ '' [-h] <file path>'',
        ''Options:'',
        ''  -h  Display this help message''] exit_code message"

definition pthread_cond_wait_parse_arguments :: "string list \<Rightarrow> string option result" where
  "pthread_cond_wait_parse_arguments argv =
     with_options argv ''h''
       (help_cases pthread_cond_wait_usage (hd argv)) ()
       (\<lambda>_ optind.
       if optind \<ge> argc argv then pthread_cond_wait_usage (hd argv) EXIT_FAILURE (Some ''The file path is required'')
       else if optind < argc argv - 1 then pthread_cond_wait_usage (hd argv) EXIT_FAILURE (Some ''Too many arguments.'')
       else bind_result (argv_at argv optind) (\<lambda>file_path.
       Returns file_path))"

definition pthread_cond_wait_handle_arguments :: "string \<Rightarrow> string option \<Rightarrow> unit result" where
  "pthread_cond_wait_handle_arguments binary_name file_path =
     (if file_path = None then pthread_cond_wait_usage binary_name EXIT_FAILURE (Some ''The file path is required.'')
      else Returns ())"

definition pthread_cond_wait_arguments :: "string list \<Rightarrow> string option result" where
  "pthread_cond_wait_arguments argv =
     bind_result (pthread_cond_wait_parse_arguments argv) (\<lambda>file_path.
     bind_result (pthread_cond_wait_handle_arguments (hd argv) file_path) (\<lambda>_.
       Returns file_path))"

subsection \<open>pthread-mutex/pthread\_mutex\_lock-pthread\_mutex\_unlock/main.c\<close>

definition pthread_mutex_lock_usage :: "string \<Rightarrow> int \<Rightarrow> string option \<Rightarrow> 'a result" where
  "pthread_mutex_lock_usage program_name exit_code message =
     usage_exit
       [''Usage: '' @ program_name @ '' [-h] [-m]'',
        ''Options:'',
        ''  -h  Display this help message.'',
        ''  -m  Use mutex (default is no mutex).''] exit_code message"

definition pthread_mutex_lock_parse_arguments :: "string list \<Rightarrow> bool \<Rightarrow> bool result" where
  "pthread_mutex_lock_parse_arguments argv use_mutex =
     with_options argv ''hm''
       (option_case (CHR ''m'') (\<lambda>_ _. True)
       (help_cases pthread_mutex_lock_usage (hd argv))) use_mutex
       (\<lambda>use_mutex _.
       Returns use_mutex)"

definition pthread_mutex_lock_arguments :: "string list \<Rightarrow> bool result" where
  "pthread_mutex_lock_arguments argv =
     bind_result (pthread_mutex_lock_parse_arguments argv False) (\<lambda>use_mutex.
     Returns use_mutex)"

subsection \<open>shell/popen-pclose/main.c\<close>

definition popen_usage :: "string \<Rightarrow> int \<Rightarrow> string option \<Rightarrow> 'a result" where
  "popen_usage program_name exit_code message =
     usage_exit
       [''Usage: '' @ program_name @ '' [-h] <command>'',
        ''Options:'',
        ''  -h  Display this help message''] exit_code message"

definition popen_parse_arguments :: "string list \<Rightarrow> string option result" where
  "popen_parse_arguments argv =
     with_options argv ''h''
       (help_cases popen_usage (hd argv)) ()
       (\<lambda>_ optind.
       if optind \<ge> argc argv then popen_usage (hd argv) EXIT_FAILURE (Some ''The command is required'')
       else if optind < argc argv - 1 then popen_usage (hd argv) EXIT_FAILURE (Some ''Too many arguments.'')
       else bind_result (argv_at argv optind) (\<lambda>command.
       Returns command))"

definition popen_handle_arguments :: "string \<Rightarrow> string option \<Rightarrow> unit result" where
  "popen_handle_arguments binary_name command =
     (if command = None then popen_usage binary_name EXIT_FAILURE (Some ''The command is required.'')
      else Returns ())"

definition popen_arguments :: "string list \<Rightarrow> string option result" where
  "popen_arguments argv =
     bind_result (popen_parse_arguments argv) (\<lambda>command.
     bind_result (popen_handle_arguments (hd argv) command) (\<lambda>_.
       Returns command))"

subsection \<open>shell/system/main.c\<close>

definition system_usage :: "string \<Rightarrow> int \<Rightarrow> string option \<Rightarrow> 'a result" where
  "system_usage program_name exit_code message =
     usage_exit
       [''Usage: '' @ program_name @ '' [-h] <command>'',
        ''Options:'',
        ''  -h  Display this help message''] exit_code message"

definition system_parse_arguments :: "string list \<Rightarrow> string option result" where
  "system_parse_arguments argv =
     with_options argv ''h''
       (help_cases system_usage (hd argv)) ()
       (\<lambda>_ optind.
       if optind \<ge> argc argv then system_usage (hd argv) EXIT_FAILURE (Some ''The command is required'')
       else if optind < argc argv - 1 then system_usage (hd argv) EXIT_FAILURE (Some ''Too many arguments.'')
       else bind_result (argv_at argv optind) (\<lambda>command.
       Returns command))"

definition system_handle_arguments :: "string \<Rightarrow> string option \<Rightarrow> unit result" where
  "system_handle_arguments binary_name command =
     (if command = None then system_usage binary_name EXIT_FAILURE (Some ''The command is required.'')
      else Returns ())"

definition system_arguments :: "string list \<Rightarrow> string option result" where
  "system_arguments argv =
     bind_result (system_parse_arguments argv) (\<lambda>command.
     bind_result (system_handle_arguments (hd argv) command) (\<lambda>_.
       Returns command))"

subsection \<open>sleep/nanosleep/main.c\<close>

definition nanosleep_usage :: "string \<Rightarrow> int \<Rightarrow> string option \<Rightarrow> 'a result" where
  "nanosleep_usage program_name exit_code message =
     usage_exit
       [''Usage: '' @ program_name @ '' [-h] [-s <seconds>] [-n nanoseconds]'',
        ''Options:'',
        ''  -h                Display this help message'',
        ''  -s <seconds>      '',
        ''  -n <nanoseconds>  ''] exit_code message"

definition nanosleep_get_time_t_min :: "nat \<Rightarrow> int result" where
  "nanosleep_get_time_t_min sizeof_time_t =
     (if sizeof_time_t = sizeof_char then Returns CHAR_MIN
      else if sizeof_time_t = sizeof_short then Returns SHRT_MIN
      else if sizeof_time_t = sizeof_int then Returns INT_MIN
      else if sizeof_time_t = sizeof_long then Returns LONG_MIN
      else if sizeof_time_t = sizeof_long_long then Returns LLONG_MIN
      else Exits EXIT_FAILURE [Text (''Unsupported size of time_t'' @ [NL])])"

definition nanosleep_get_time_t_max :: "nat \<Rightarrow> int result" where
  "nanosleep_get_time_t_max sizeof_time_t =
     (if sizeof_time_t = sizeof_char then Returns CHAR_MAX
      else if sizeof_time_t = sizeof_short then Returns SHRT_MAX
      else if sizeof_time_t = sizeof_int then Returns INT_MAX
      else if sizeof_time_t = sizeof_long then Returns LONG_MAX
      else if sizeof_time_t = sizeof_long_long then Returns LLONG_MAX
      else Exits EXIT_FAILURE [Text (''Unsupported size of time_t'' @ [NL])])"

definition nanosleep_parse_time_t :: "string \<Rightarrow> int \<Rightarrow> int \<Rightarrow> string \<Rightarrow> int result" where
  "nanosleep_parse_time_t binary_name min_value max_value str =
     (case strtoimax str of (parsed_value, endptr, erange) \<Rightarrow>
      if erange then nanosleep_usage binary_name EXIT_FAILURE (Some ''Error parsing time.'')
      else if endptr \<noteq> [] then nanosleep_usage binary_name EXIT_FAILURE (Some ''Invalid characters in input.'')
      else if parsed_value < min_value \<or> max_value < parsed_value then nanosleep_usage binary_name EXIT_FAILURE (Some ''Unsigned integer out of range for time.'')
      else Returns parsed_value)"

definition nanosleep_parse_long :: "string \<Rightarrow> string \<Rightarrow> int result" where
  "nanosleep_parse_long binary_name str =
     (case strtoimax str of (parsed_value, endptr, erange) \<Rightarrow>
      if erange then nanosleep_usage binary_name EXIT_FAILURE (Some ''Error parsing unsigned integer.'')
      else if endptr \<noteq> [] then nanosleep_usage binary_name EXIT_FAILURE (Some ''Invalid characters in input.'')
      else if parsed_value < LONG_MIN \<or> LONG_MAX < parsed_value then nanosleep_usage binary_name EXIT_FAILURE (Some ''Unsigned integer out of range for signed long.'')
      else Returns parsed_value)"

definition nanosleep_parse_arguments :: "string list \<Rightarrow> string option \<Rightarrow> string option \<Rightarrow> (string option \<times> string option) result" where
  "nanosleep_parse_arguments argv seconds nanoseconds =
     with_options argv ''hs:n:''
       (option_case (CHR ''s'') (\<lambda>arg (_, nanoseconds). (arg, nanoseconds))
       (option_case (CHR ''n'') (\<lambda>arg (seconds, _). (seconds, arg))
       (help_cases nanosleep_usage (hd argv)))) (seconds, nanoseconds)
       (\<lambda>(seconds, nanoseconds) optind.
       if optind \<noteq> argc argv then nanosleep_usage (hd argv) EXIT_FAILURE (Some ''Too many arguments.'')
       else Returns (seconds, nanoseconds))"

definition nanosleep_handle_arguments :: "nat \<Rightarrow> string \<Rightarrow> string option \<Rightarrow> string option \<Rightarrow> (int \<times> int) result" where
  "nanosleep_handle_arguments sizeof_time_t binary_name seconds_str nanoseconds_str =
     (if seconds_str = None \<and> nanoseconds_str = None then nanosleep_usage binary_name EXIT_FAILURE (Some ''seconds or nanoseconds are required.'')
      else bind_result (if seconds_str \<noteq> None then bind_result (nanosleep_get_time_t_min sizeof_time_t) (\<lambda>min_value.
        bind_result (nanosleep_get_time_t_max sizeof_time_t) (\<lambda>max_value. nanosleep_parse_time_t binary_name min_value max_value (the seconds_str)))
        else Returns 0) (\<lambda>seconds.
      bind_result (if nanoseconds_str \<noteq> None then nanosleep_parse_long binary_name (the nanoseconds_str) else Returns 0) (\<lambda>nanoseconds.
      Returns (seconds, nanoseconds))))"

definition nanosleep_arguments :: "nat \<Rightarrow> string list \<Rightarrow> (string option \<times> string option \<times> int \<times> int) result" where
  "nanosleep_arguments sizeof_time_t argv =
     bind_result (nanosleep_parse_arguments argv None None) (\<lambda>(seconds_str, nanoseconds_str).
     bind_result (nanosleep_handle_arguments sizeof_time_t (hd argv) seconds_str nanoseconds_str) (\<lambda>(seconds, nanoseconds).
       Returns (seconds_str, nanoseconds_str, seconds, nanoseconds)))"

subsection \<open>sleep/sleep/main.c\<close>

definition sleep_usage :: "string \<Rightarrow> int \<Rightarrow> string option \<Rightarrow> 'a result" where
  "sleep_usage program_name exit_code message =
     usage_exit
       [''Usage: '' @ program_name @ '' [-h] <seconds>'',
        ''Options:'',
        ''  -h  Display this help message''] exit_code message"

definition sleep_parse_unsigned_int :: "string \<Rightarrow> string \<Rightarrow> uint64 result" where
  "sleep_parse_unsigned_int binary_name str =
     (case strtoumax str of (parsed_value, endptr, erange) \<Rightarrow>
      if erange then sleep_usage binary_name EXIT_FAILURE (Some ''Error parsing unsigned integer.'')
      else if endptr \<noteq> [] then sleep_usage binary_name EXIT_FAILURE (Some ''Invalid characters in input.'')
      else if UINT_MAX < parsed_value then sleep_usage binary_name EXIT_FAILURE (Some ''Unsigned integer out of range.'')
      else Returns (cast_unsigned sizeof_int parsed_value))"

definition sleep_parse_arguments :: "string list \<Rightarrow> string option result" where
  "sleep_parse_arguments argv =
     with_options argv ''hs:''
       (help_cases sleep_usage (hd argv)) ()
       (\<lambda>_ optind.
       if optind \<ge> argc argv then sleep_usage (hd argv) EXIT_FAILURE (Some ''The seconds are required'')
       else if optind < argc argv - 1 then sleep_usage (hd argv) EXIT_FAILURE (Some ''Too many arguments.'')
       else bind_result (argv_at argv optind) (\<lambda>seconds.
       Returns seconds))"

definition sleep_handle_arguments :: "string \<Rightarrow> string option \<Rightarrow> uint64 result" where
  "sleep_handle_arguments binary_name seconds_str =
     (bind_result (if seconds_str = None then Returns 0 else sleep_parse_unsigned_int binary_name (the seconds_str)) (\<lambda>seconds.
      Returns seconds))"

definition sleep_arguments :: "string list \<Rightarrow> (string option \<times> uint64) result" where
  "sleep_arguments argv =
     bind_result (sleep_parse_arguments argv) (\<lambda>seconds_str.
     bind_result (sleep_handle_arguments (hd argv) seconds_str) (\<lambda>seconds.
       Returns (seconds_str, seconds)))"

subsection \<open>terminal/cfgetispeed-cfsetispeed/main.c\<close>

definition cfgetispeed_usage :: "string \<Rightarrow> int \<Rightarrow> string option \<Rightarrow> 'a result" where
  "cfgetispeed_usage program_name exit_code message =
     usage_exit
       [''Usage: '' @ program_name @ '' [-h] <speed>'',
        ''Options:'',
        ''  -h  Display this help message''] exit_code message"

definition cfgetispeed_parse_baud_rate :: "string \<Rightarrow> string \<Rightarrow> int result" where
  "cfgetispeed_parse_baud_rate binary_name str =
     (case strtoll str of (parsed_speed, endptr, erange) \<Rightarrow>
      if erange then cfgetispeed_usage binary_name EXIT_FAILURE (Some ''Error parsing baud rate.'')
      else if endptr \<noteq> [] then cfgetispeed_usage binary_name EXIT_FAILURE (Some ''Invalid characters in input.'')
      else if parsed_speed < 0 \<or> B38400 < parsed_speed then cfgetispeed_usage binary_name EXIT_FAILURE (Some ''Invalid baud rate.'')
      else if parsed_speed \<notin> set baud_rates then cfgetispeed_usage binary_name EXIT_FAILURE (Some ''Invalid baud rate.'')
      else Returns parsed_speed)"

definition cfgetispeed_parse_arguments :: "string list \<Rightarrow> string option result" where
  "cfgetispeed_parse_arguments argv =
     with_options argv ''h''
       (help_cases cfgetispeed_usage (hd argv)) ()
       (\<lambda>_ optind.
       if optind \<ge> argc argv then cfgetispeed_usage (hd argv) EXIT_FAILURE (Some ''The speed is required'')
       else if optind < argc argv - 1 then cfgetispeed_usage (hd argv) EXIT_FAILURE (Some ''Too many arguments.'')
       else bind_result (argv_at argv optind) (\<lambda>speed.
       Returns speed))"

definition cfgetispeed_handle_arguments :: "string \<Rightarrow> string option \<Rightarrow> int result" where
  "cfgetispeed_handle_arguments binary_name speed_str =
     (if speed_str = None then cfgetispeed_usage binary_name EXIT_FAILURE (Some ''The speed is required.'')
      else bind_result (cfgetispeed_parse_baud_rate binary_name (the speed_str)) (\<lambda>speed.
      Returns speed))"

definition cfgetispeed_arguments :: "string list \<Rightarrow> (string option \<times> int) result" where
  "cfgetispeed_arguments argv =
     bind_result (cfgetispeed_parse_arguments argv) (\<lambda>speed_str.
     bind_result (cfgetispeed_handle_arguments (hd argv) speed_str) (\<lambda>new_input_baud_rate.
       Returns (speed_str, new_input_baud_rate)))"

subsection \<open>terminal/cfgetospeed-cfsetospeed/main.c\<close>

definition cfgetospeed_usage :: "string \<Rightarrow> int \<Rightarrow> string option \<Rightarrow> 'a result" where
  "cfgetospeed_usage program_name exit_code message =
     usage_exit
       [''Usage: '' @ program_name @ '' [-h] <speed>'',
        ''Options:'',
        ''  -h  Display this help message''] exit_code message"

definition cfgetospeed_parse_baud_rate :: "string \<Rightarrow> string \<Rightarrow> int result" where
  "cfgetospeed_parse_baud_rate binary_name str =
     (case strtoll str of (parsed_speed, endptr, erange) \<Rightarrow>
      if erange then cfgetospeed_usage binary_name EXIT_FAILURE (Some ''Error parsing baud rate.'')
      else if endptr \<noteq> [] then cfgetospeed_usage binary_name EXIT_FAILURE (Some ''Invalid characters in input.'')
      else if parsed_speed < 0 \<or> B38400 < parsed_speed then cfgetospeed_usage binary_name EXIT_FAILURE (Some ''Invalid baud rate.'')
      else if parsed_speed \<notin> set baud_rates then cfgetospeed_usage binary_name EXIT_FAILURE (Some ''Invalid baud rate.'')
      else Returns parsed_speed)"

definition cfgetospeed_parse_arguments :: "string list \<Rightarrow> string option result" where
  "cfgetospeed_parse_arguments argv =
     with_options argv ''h''
       (help_cases cfgetospeed_usage (hd argv)) ()
       (\<lambda>_ optind.
       if optind \<ge> argc argv then cfgetospeed_usage (hd argv) EXIT_FAILURE (Some ''The speed is required'')
       else if optind < argc argv - 1 then cfgetospeed_usage (hd argv) EXIT_FAILURE (Some ''Too many arguments.'')
       else bind_result (argv_at argv optind) (\<lambda>speed.
       Returns speed))"

definition cfgetospeed_handle_arguments :: "string \<Rightarrow> string option \<Rightarrow> int result" where
  "cfgetospeed_handle_arguments binary_name speed_str =
     (if speed_str = None then cfgetospeed_usage binary_name EXIT_FAILURE (Some ''The speed is required.'')
      else bind_result (cfgetospeed_parse_baud_rate binary_name (the speed_str)) (\<lambda>speed.
      Returns speed))"

definition cfgetospeed_arguments :: "string list \<Rightarrow> (string option \<times> int) result" where
  "cfgetospeed_arguments argv =
     bind_result (cfgetospeed_parse_arguments argv) (\<lambda>speed_str.
     bind_result (cfgetospeed_handle_arguments (hd argv) speed_str) (\<lambda>new_output_baud_rate.
       Returns (speed_str, new_output_baud_rate)))"

subsection \<open>time/difftime/main.c\<close>

definition difftime_usage :: "string \<Rightarrow> int \<Rightarrow> string option \<Rightarrow> 'a result" where
  "difftime_usage program_name exit_code message =
     usage_exit
       [''Usage: '' @ program_name @ '' [-h] <seconds>'',
        ''Options:'',
        ''  -h  Display this help message''] exit_code message"

definition difftime_parse_unsigned_int :: "string \<Rightarrow> string \<Rightarrow> uint64 result" where
  "difftime_parse_unsigned_int binary_name str =
     (case strtoumax str of (parsed_value, endptr, erange) \<Rightarrow>
      if erange then difftime_usage binary_name EXIT_FAILURE (Some ''Error parsing unsigned integer.'')
      else if endptr \<noteq> [] then difftime_usage binary_name EXIT_FAILURE (Some ''Invalid characters in input.'')
      else if UINT_MAX < parsed_value then difftime_usage binary_name EXIT_FAILURE (Some ''Unsigned integer out of range.'')
      else Returns (cast_unsigned sizeof_int parsed_value))"

definition difftime_parse_arguments :: "string list \<Rightarrow> string option result" where
  "difftime_parse_arguments argv =
     with_options argv ''h''
       (help_cases difftime_usage (hd argv)) ()
       (\<lambda>_ optind.
       if optind \<ge> argc argv then difftime_usage (hd argv) EXIT_FAILURE (Some ''The seconds are required'')
       else if optind < argc argv - 1 then difftime_usage (hd argv) EXIT_FAILURE (Some ''Too many arguments.'')
       else bind_result (argv_at argv optind) (\<lambda>seconds.
       Returns seconds))"

definition difftime_handle_arguments :: "string \<Rightarrow> string option \<Rightarrow> uint64 result" where
  "difftime_handle_arguments binary_name seconds_str =
     (if seconds_str = None then difftime_usage binary_name EXIT_FAILURE (Some ''The seconds are required.'')
      else bind_result (difftime_parse_unsigned_int binary_name (the seconds_str)) (\<lambda>seconds.
      Returns seconds))"

definition difftime_arguments :: "string list \<Rightarrow> (string option \<times> uint64) result" where
  "difftime_arguments argv =
     bind_result (difftime_parse_arguments argv) (\<lambda>seconds_str.
     bind_result (difftime_handle_arguments (hd argv) seconds_str) (\<lambda>seconds.
       Returns (seconds_str, seconds)))"

section \<open>All of them\<close>

lemmas system_usage =
    dlopen_usage_def dlsym_usage_def openlog_usage_def setlogmask_usage_def syslog_usage_def
    abort_usage_def fork_usage_def nice_usage_def pthread_cond_timedwait_usage_def
    pthread_cond_wait_usage_def pthread_mutex_lock_usage_def popen_usage_def system_usage_def
    nanosleep_usage_def sleep_usage_def cfgetispeed_usage_def cfgetospeed_usage_def difftime_usage_def

lemmas system_defs =
    dlopen_parse_arguments_def dlopen_handle_arguments_def dlopen_arguments_def dlsym_parse_arguments_def
    dlsym_handle_arguments_def dlsym_arguments_def openlog_parse_arguments_def openlog_handle_arguments_def
    openlog_arguments_def setlogmask_parse_arguments_def setlogmask_handle_arguments_def
    setlogmask_arguments_def syslog_parse_arguments_def syslog_handle_arguments_def syslog_arguments_def
    abort_parse_arguments_def abort_get_rlim_t_max_def abort_parse_rlim_t_def abort_handle_arguments_def
    abort_arguments_def fork_parse_arguments_def fork_parse_unsigned_int_def fork_handle_arguments_def
    fork_arguments_def nice_parse_arguments_def nice_parse_int_def nice_handle_arguments_def
    nice_arguments_def pthread_cond_timedwait_parse_arguments_def pthread_cond_timedwait_get_time_t_min_def
    pthread_cond_timedwait_get_time_t_max_def pthread_cond_timedwait_parse_time_t_def
    pthread_cond_timedwait_parse_unsigned_int_def pthread_cond_timedwait_handle_arguments_def
    pthread_cond_timedwait_arguments_def pthread_cond_wait_parse_arguments_def
    pthread_cond_wait_handle_arguments_def pthread_cond_wait_arguments_def
    pthread_mutex_lock_parse_arguments_def pthread_mutex_lock_arguments_def popen_parse_arguments_def
    popen_handle_arguments_def popen_arguments_def system_parse_arguments_def system_handle_arguments_def
    system_arguments_def nanosleep_parse_arguments_def nanosleep_get_time_t_min_def
    nanosleep_get_time_t_max_def nanosleep_parse_time_t_def nanosleep_parse_long_def
    nanosleep_handle_arguments_def nanosleep_arguments_def sleep_parse_arguments_def
    sleep_parse_unsigned_int_def sleep_handle_arguments_def sleep_arguments_def
    cfgetispeed_parse_arguments_def cfgetispeed_parse_baud_rate_def cfgetispeed_handle_arguments_def
    cfgetispeed_arguments_def cfgetospeed_parse_arguments_def cfgetospeed_parse_baud_rate_def
    cfgetospeed_handle_arguments_def cfgetospeed_arguments_def difftime_parse_arguments_def
    difftime_parse_unsigned_int_def difftime_handle_arguments_def difftime_arguments_def

text \<open>The command lines with \<^verbatim>\<open>-h\<close> as an option without argument, and the ones where the option string gives it one.\<close>

definition system_programs :: "(string list \<Rightarrow> ending) list" where
  "system_programs =
    [\<lambda>argv. outcome (dlsym_arguments argv),
     \<lambda>argv. outcome (openlog_arguments argv),
     \<lambda>argv. outcome (setlogmask_arguments argv),
     \<lambda>argv. outcome (syslog_arguments argv),
     \<lambda>argv. outcome (abort_arguments 8 argv),
     \<lambda>argv. outcome (fork_arguments argv),
     \<lambda>argv. outcome (nice_arguments argv),
     \<lambda>argv. outcome (pthread_cond_timedwait_arguments 8 argv),
     \<lambda>argv. outcome (pthread_cond_wait_arguments argv),
     \<lambda>argv. outcome (pthread_mutex_lock_arguments argv),
     \<lambda>argv. outcome (popen_arguments argv),
     \<lambda>argv. outcome (system_arguments argv),
     \<lambda>argv. outcome (nanosleep_arguments 8 argv),
     \<lambda>argv. outcome (sleep_arguments argv),
     \<lambda>argv. outcome (cfgetispeed_arguments argv),
     \<lambda>argv. outcome (cfgetospeed_arguments argv),
     \<lambda>argv. outcome (difftime_arguments argv)]"

definition system_argument_help_programs :: "(string list \<Rightarrow> ending) list" where
  "system_argument_help_programs =
    [\<lambda>argv. outcome (dlopen_arguments argv)]"

lemma system_defined:
  assumes "argv \<noteq> []" "p \<in> set system_programs \<union> set system_argument_help_programs"
  shows "p argv \<noteq> Breaks"
  using assms
  by (auto simp: system_programs_def system_argument_help_programs_def system_defs system_usage c_sizes bind_result_Undef_iff
      argv_at_Undef_iff split: prod.splits if_splits dest!: cli_Undef)

lemma system_help:
  "p \<in> set system_programs \<Longrightarrow> p (name # ''-h'' # args) = Leaves EXIT_SUCCESS"
  by (auto simp: system_programs_def system_defs system_usage cli_switch split: prod.splits)

end
