(* ===== verification/Cli_Strings.thy ===== *)
theory Cli_Strings
  imports Getopt Number_Parse
begin

text \<open>
  The command lines of the programs under \<^verbatim>\<open>command-line-arguments, string-processing and strings\<close>
  of \<^verbatim>\<open>src\<close>: for each program its \<^verbatim>\<open>usage\<close>, its
  \<^verbatim>\<open>parse_...\<close> and \<^verbatim>\<open>get_..._max\<close> functions, \<^verbatim>\<open>parse_arguments\<close>,
  \<^verbatim>\<open>handle_arguments\<close>, and, as \<open>..._arguments\<close>, the two calls with which
  \<^verbatim>\<open>main\<close> begins. A \<^verbatim>\<open>char *\<close> variable is a \<^typ>\<open>string option\<close>, the null pointer
  being \<open>None\<close>; the variables a function sets through pointers are its result.
\<close>

section \<open>The programs\<close>

subsection \<open>command-line-arguments/getopt/main.c\<close>

definition getopt_usage :: "string \<Rightarrow> int \<Rightarrow> string option \<Rightarrow> 'a result" where
  "getopt_usage program_name exit_code message =
     usage_exit
       [''Usage: '' @ program_name @ '' [-h] [-a] [-b] -c <value> [arg1 arg2 ...]'',
        ''Options:'',
        ''  -h          Display this help message'',
        ''  -a          Option '' @ [CHR 0x27] @ ''a'' @ [CHR 0x27],
        ''  -b          Option '' @ [CHR 0x27] @ ''b'' @ [CHR 0x27],
        ''  -c <value>  Option 'c' (required) with value''] exit_code message"

definition getopt_parse_arguments :: "string list \<Rightarrow> bool \<Rightarrow> bool \<Rightarrow> string option \<Rightarrow> (bool \<times> bool \<times> string option) result" where
  "getopt_parse_arguments argv option_a_set option_b_set option_c_value =
     with_options argv ''habc:''
       (option_case (CHR ''a'') (\<lambda>_ (_, option_b_set, option_c_value). (True, option_b_set, option_c_value))
       (option_case (CHR ''b'') (\<lambda>_ (option_a_set, _, option_c_value). (option_a_set, True, option_c_value))
       (option_case (CHR ''c'') (\<lambda>arg (option_a_set, option_b_set, _). (option_a_set, option_b_set, arg))
       (unknown_case (CHR ''c'') (getopt_usage (hd argv) EXIT_FAILURE (Some (''Option '-c' requires a value.''))) (help_cases getopt_usage (hd argv)))))) (option_a_set, option_b_set, option_c_value)
       (\<lambda>(option_a_set, option_b_set, option_c_value) _.
       Returns (option_a_set, option_b_set, option_c_value))"

definition getopt_handle_arguments :: "string \<Rightarrow> string option \<Rightarrow> unit result" where
  "getopt_handle_arguments binary_name option_c_value =
     (if option_c_value = None then getopt_usage binary_name EXIT_FAILURE (Some ''-c is required'')
      else Returns ())"

definition getopt_arguments :: "string list \<Rightarrow> (bool \<times> bool \<times> string option) result" where
  "getopt_arguments argv =
     bind_result (getopt_parse_arguments argv False False None) (\<lambda>(option_a_set, option_b_set, option_c_value).
     bind_result (getopt_handle_arguments (hd argv) option_c_value) (\<lambda>_.
       Returns (option_a_set, option_b_set, option_c_value)))"

subsection \<open>string-processing/regcomp-regfree-regerror/main.c\<close>

definition regcomp_usage :: "string \<Rightarrow> int \<Rightarrow> string option \<Rightarrow> 'a result" where
  "regcomp_usage program_name exit_code message =
     usage_exit
       [''Usage: '' @ program_name @ '' [-h] <pattern>'',
        ''Options:'',
        ''  -h            Display this help message''] exit_code message"

definition regcomp_parse_arguments :: "string list \<Rightarrow> string option result" where
  "regcomp_parse_arguments argv =
     with_options argv ''h''
       (help_cases regcomp_usage (hd argv)) ()
       (\<lambda>_ optind.
       if optind \<ge> argc argv then regcomp_usage (hd argv) EXIT_FAILURE (Some ''The pattern is required'')
       else if optind < argc argv - 1 then regcomp_usage (hd argv) EXIT_FAILURE (Some ''Too many arguments.'')
       else bind_result (argv_at argv optind) (\<lambda>pattern.
       Returns pattern))"

definition regcomp_handle_arguments :: "string \<Rightarrow> string option \<Rightarrow> unit result" where
  "regcomp_handle_arguments binary_name pattern =
     (if pattern = None then regcomp_usage binary_name EXIT_FAILURE (Some ''The pattern is required.'')
      else Returns ())"

definition regcomp_arguments :: "string list \<Rightarrow> string option result" where
  "regcomp_arguments argv =
     bind_result (regcomp_parse_arguments argv) (\<lambda>pattern.
     bind_result (regcomp_handle_arguments (hd argv) pattern) (\<lambda>_.
       Returns pattern))"

subsection \<open>string-processing/regexec/main.c\<close>

definition regexec_usage :: "string \<Rightarrow> int \<Rightarrow> string option \<Rightarrow> 'a result" where
  "regexec_usage program_name exit_code message =
     usage_exit
       [''Usage: '' @ program_name @ '' [-h] pattern <test string>'',
        ''Options:'',
        ''  -h            Display this help message''] exit_code message"

definition regexec_parse_arguments :: "string list \<Rightarrow> string option result" where
  "regexec_parse_arguments argv =
     with_options argv ''h''
       (help_cases_default regexec_usage (hd argv) EXIT_FAILURE (Some ''Z'')) ()
       (\<lambda>_ optind.
       if optind + 1 \<ge> argc argv then regexec_usage (hd argv) EXIT_FAILURE (Some ''Too few arguments.'')
       else bind_result (argv_at argv optind) (\<lambda>pattern.
       Returns pattern))"

definition regexec_handle_arguments :: "string \<Rightarrow> string option \<Rightarrow> unit result" where
  "regexec_handle_arguments binary_name pattern =
     (if pattern = None then regexec_usage binary_name EXIT_FAILURE (Some ''The pattern is required.'')
      else Returns ())"

definition regexec_arguments :: "string list \<Rightarrow> string option result" where
  "regexec_arguments argv =
     bind_result (regexec_parse_arguments argv) (\<lambda>pattern.
     bind_result (regexec_handle_arguments (hd argv) pattern) (\<lambda>_.
       Returns pattern))"

subsection \<open>string-processing/strchr/main.c\<close>

definition strchr_usage :: "string \<Rightarrow> int \<Rightarrow> string option \<Rightarrow> 'a result" where
  "strchr_usage program_name exit_code message =
     usage_exit
       [''Usage: '' @ program_name @ '' [-h] <needle> <haystack>'',
        ''Options:'',
        ''  -h  Display this help message''] exit_code message"

definition strchr_parse_arguments :: "string list \<Rightarrow> (string option \<times> string option) result" where
  "strchr_parse_arguments argv =
     with_options argv ''h''
       (help_cases strchr_usage (hd argv)) ()
       (\<lambda>_ optind.
       if optind + 1 \<ge> argc argv then strchr_usage (hd argv) EXIT_FAILURE (Some ''Too few arguments.'')
       else if optind < argc argv - 2 then strchr_usage (hd argv) EXIT_FAILURE (Some ''Too many arguments.'')
       else bind_result (argv_at argv optind) (\<lambda>needle.
       bind_result (argv_at argv (optind + 1)) (\<lambda>haystack.
       Returns (needle, haystack))))"

definition strchr_handle_arguments :: "string \<Rightarrow> string option \<Rightarrow> string option \<Rightarrow> char result" where
  "strchr_handle_arguments binary_name needle_str haystack =
     (if needle_str = None then strchr_usage binary_name EXIT_FAILURE (Some ''The needle is required.'')
      else if haystack = None then strchr_usage binary_name EXIT_FAILURE (Some ''The haystack is required.'')
      else if length (the needle_str) \<noteq> 1 then strchr_usage binary_name EXIT_FAILURE (Some ''The needle must be a single character.'')
      else bind_result (Returns (the needle_str ! 0)) (\<lambda>needle.
      Returns needle))"

definition strchr_arguments :: "string list \<Rightarrow> (string option \<times> string option \<times> char) result" where
  "strchr_arguments argv =
     bind_result (strchr_parse_arguments argv) (\<lambda>(needle_str, haystack).
     bind_result (strchr_handle_arguments (hd argv) needle_str haystack) (\<lambda>needle.
       Returns (needle_str, haystack, needle)))"

subsection \<open>string-processing/strstr/main.c\<close>

definition strstr_usage :: "string \<Rightarrow> int \<Rightarrow> string option \<Rightarrow> 'a result" where
  "strstr_usage program_name exit_code message =
     usage_exit
       [''Usage: '' @ program_name @ '' [-h] <needle> <haystack>'',
        ''Options:'',
        ''  -h  Display this help message''] exit_code message"

definition strstr_parse_arguments :: "string list \<Rightarrow> (string option \<times> string option) result" where
  "strstr_parse_arguments argv =
     with_options argv ''h''
       (help_cases strstr_usage (hd argv)) ()
       (\<lambda>_ optind.
       if optind + 1 \<ge> argc argv then strstr_usage (hd argv) EXIT_FAILURE (Some ''Too few arguments.'')
       else if optind < argc argv - 2 then strstr_usage (hd argv) EXIT_FAILURE (Some ''Too many arguments.'')
       else bind_result (argv_at argv optind) (\<lambda>needle.
       bind_result (argv_at argv (optind + 1)) (\<lambda>haystack.
       Returns (needle, haystack))))"

definition strstr_handle_arguments :: "string \<Rightarrow> string option \<Rightarrow> string option \<Rightarrow> unit result" where
  "strstr_handle_arguments binary_name needle haystack =
     (if needle = None then strstr_usage binary_name EXIT_FAILURE (Some ''The needle is required.'')
      else if haystack = None then strstr_usage binary_name EXIT_FAILURE (Some ''The haystack is required.'')
      else if length (the needle) = 0 then strstr_usage binary_name EXIT_FAILURE (Some ''The needle must have at least one character.'')
      else Returns ())"

definition strstr_arguments :: "string list \<Rightarrow> (string option \<times> string option) result" where
  "strstr_arguments argv =
     bind_result (strstr_parse_arguments argv) (\<lambda>(needle, haystack).
     bind_result (strstr_handle_arguments (hd argv) needle haystack) (\<lambda>_.
       Returns (needle, haystack)))"

subsection \<open>string-processing/strtok\_r/main.c\<close>

definition strtok_r_usage :: "string \<Rightarrow> int \<Rightarrow> string option \<Rightarrow> 'a result" where
  "strtok_r_usage program_name exit_code message =
     usage_exit
       [''Usage: '' @ program_name @ '' [-h] <string>>'',
        ''Options:'',
        ''  -h            Display this help message''] exit_code message"

definition strtok_r_parse_arguments :: "string list \<Rightarrow> string option result" where
  "strtok_r_parse_arguments argv =
     with_options argv ''h''
       (help_cases strtok_r_usage (hd argv)) ()
       (\<lambda>_ optind.
       if optind \<ge> argc argv then strtok_r_usage (hd argv) EXIT_FAILURE (Some ''The string is required'')
       else if optind < argc argv - 1 then strtok_r_usage (hd argv) EXIT_FAILURE (Some ''Too many arguments.'')
       else bind_result (argv_at argv optind) (\<lambda>string.
       Returns string))"

definition strtok_r_handle_arguments :: "string \<Rightarrow> string option \<Rightarrow> unit result" where
  "strtok_r_handle_arguments binary_name string =
     (if string = None then strtok_r_usage binary_name EXIT_FAILURE (Some ''The string is required.'')
      else Returns ())"

definition strtok_r_arguments :: "string list \<Rightarrow> string option result" where
  "strtok_r_arguments argv =
     bind_result (strtok_r_parse_arguments argv) (\<lambda>string.
     bind_result (strtok_r_handle_arguments (hd argv) string) (\<lambda>_.
       Returns string))"

subsection \<open>string-processing/wordexp-wordfree/main.c\<close>

definition wordexp_usage :: "string \<Rightarrow> int \<Rightarrow> string option \<Rightarrow> 'a result" where
  "wordexp_usage program_name exit_code message =
     usage_exit
       [''Usage: '' @ program_name @ '' [-h] <string>>'',
        ''Options:'',
        ''  -h            Display this help message''] exit_code message"

definition wordexp_parse_arguments :: "string list \<Rightarrow> string option \<Rightarrow> string option result" where
  "wordexp_parse_arguments argv string =
     with_options argv ''h''
       (help_cases wordexp_usage (hd argv)) ()
       (\<lambda>_ optind.
       if argc argv - optind > 1 then wordexp_usage (hd argv) EXIT_FAILURE (Some ''Too many unnamed arguments.'')
       else bind_result (if argc argv - optind = 1 then argv_at argv optind else Returns string) (\<lambda>string.
       Returns string))"

definition wordexp_handle_arguments :: "string \<Rightarrow> string option \<Rightarrow> unit result" where
  "wordexp_handle_arguments binary_name string =
     (if string = None then wordexp_usage binary_name EXIT_FAILURE (Some ''The string is required.'')
      else Returns ())"

definition wordexp_arguments :: "string list \<Rightarrow> string option result" where
  "wordexp_arguments argv =
     bind_result (wordexp_parse_arguments argv None) (\<lambda>string.
     bind_result (wordexp_handle_arguments (hd argv) string) (\<lambda>_.
       Returns string))"

subsection \<open>strings/strcmp/main.c\<close>

definition strcmp_usage :: "string \<Rightarrow> int \<Rightarrow> string option \<Rightarrow> 'a result" where
  "strcmp_usage program_name exit_code message =
     usage_exit
       [''Usage: '' @ program_name @ '' [-h] <string1> <string2>'',
        ''Options:'',
        ''  -h  Display this help message''] exit_code message"

definition strcmp_parse_arguments :: "string list \<Rightarrow> (string option \<times> string option) result" where
  "strcmp_parse_arguments argv =
     with_options argv ''h''
       (help_cases strcmp_usage (hd argv)) ()
       (\<lambda>_ optind.
       if optind \<ge> argc argv then strcmp_usage (hd argv) EXIT_FAILURE (Some ''The string1 and string2 are required'')
       else if optind + 1 \<ge> argc argv then strcmp_usage (hd argv) EXIT_FAILURE (Some ''The string2 is required'')
       else if optind < argc argv - 2 then strcmp_usage (hd argv) EXIT_FAILURE (Some ''Error: Too many arguments.'')
       else bind_result (argv_at argv optind) (\<lambda>string1.
       bind_result (argv_at argv (optind + 1)) (\<lambda>string2.
       Returns (string1, string2))))"

definition strcmp_handle_arguments :: "string \<Rightarrow> string option \<Rightarrow> string option \<Rightarrow> unit result" where
  "strcmp_handle_arguments binary_name string1 string2 =
     (if string1 = None then strcmp_usage binary_name EXIT_FAILURE (Some ''string1 is required.'')
      else if string2 = None then strcmp_usage binary_name EXIT_FAILURE (Some ''string2 is required.'')
      else Returns ())"

definition strcmp_arguments :: "string list \<Rightarrow> (string option \<times> string option) result" where
  "strcmp_arguments argv =
     bind_result (strcmp_parse_arguments argv) (\<lambda>(string1, string2).
     bind_result (strcmp_handle_arguments (hd argv) string1 string2) (\<lambda>_.
       Returns (string1, string2)))"

subsection \<open>strings/strdup/main.c\<close>

definition strdup_usage :: "string \<Rightarrow> int \<Rightarrow> string option \<Rightarrow> 'a result" where
  "strdup_usage program_name exit_code message =
     usage_exit
       [''Usage: '' @ program_name @ '' [-h] <string>'',
        ''Options:'',
        ''  -h  Display this help message''] exit_code message"

definition strdup_parse_arguments :: "string list \<Rightarrow> string option result" where
  "strdup_parse_arguments argv =
     with_options argv ''h''
       (help_cases strdup_usage (hd argv)) ()
       (\<lambda>_ optind.
       if optind \<ge> argc argv then strdup_usage (hd argv) EXIT_FAILURE (Some ''The string is required'')
       else if optind < argc argv - 1 then strdup_usage (hd argv) EXIT_FAILURE (Some ''Too many arguments.'')
       else bind_result (argv_at argv optind) (\<lambda>string.
       Returns string))"

definition strdup_handle_arguments :: "string \<Rightarrow> string option \<Rightarrow> unit result" where
  "strdup_handle_arguments binary_name string =
     (if string = None then strdup_usage binary_name EXIT_FAILURE (Some ''The string is required.'')
      else Returns ())"

definition strdup_arguments :: "string list \<Rightarrow> string option result" where
  "strdup_arguments argv =
     bind_result (strdup_parse_arguments argv) (\<lambda>string.
     bind_result (strdup_handle_arguments (hd argv) string) (\<lambda>_.
       Returns string))"

subsection \<open>strings/strlen/main.c\<close>

definition strlen_usage :: "string \<Rightarrow> int \<Rightarrow> string option \<Rightarrow> 'a result" where
  "strlen_usage program_name exit_code message =
     usage_exit
       [''Usage: '' @ program_name @ '' [-h] <string>'',
        ''Options:'',
        ''  -h  Display this help message''] exit_code message"

definition strlen_parse_arguments :: "string list \<Rightarrow> string option result" where
  "strlen_parse_arguments argv =
     with_options argv ''h''
       (help_cases strlen_usage (hd argv)) ()
       (\<lambda>_ optind.
       if optind \<ge> argc argv then strlen_usage (hd argv) EXIT_FAILURE (Some ''The string is required'')
       else if optind < argc argv - 1 then strlen_usage (hd argv) EXIT_FAILURE (Some ''Too many arguments.'')
       else bind_result (argv_at argv optind) (\<lambda>string.
       Returns string))"

definition strlen_handle_arguments :: "string \<Rightarrow> string option \<Rightarrow> unit result" where
  "strlen_handle_arguments binary_name string =
     (if string = None then strlen_usage binary_name EXIT_FAILURE (Some ''The string is required.'')
      else Returns ())"

definition strlen_arguments :: "string list \<Rightarrow> string option result" where
  "strlen_arguments argv =
     bind_result (strlen_parse_arguments argv) (\<lambda>string.
     bind_result (strlen_handle_arguments (hd argv) string) (\<lambda>_.
       Returns string))"

subsection \<open>strings/strncmp/main.c\<close>

definition strncmp_usage :: "string \<Rightarrow> int \<Rightarrow> string option \<Rightarrow> 'a result" where
  "strncmp_usage program_name exit_code message =
     usage_exit
       [''Usage: '' @ program_name @ '' [-h] -n <length> <string1> <string2>'',
        ''Options:'',
        ''  -h           Display this help message'',
        ''  -n <length>  The number of characters to compare''] exit_code message"

definition strncmp_parse_size_t :: "string \<Rightarrow> string \<Rightarrow> uint64 result" where
  "strncmp_parse_size_t binary_name str =
     (case strtoumax str of (parsed_value, endptr, erange) \<Rightarrow>
      if erange then strncmp_usage binary_name EXIT_FAILURE (Some ''Error parsing size_t.'')
      else if endptr \<noteq> [] then strncmp_usage binary_name EXIT_FAILURE (Some ''Invalid characters in input.'')
      else if SIZE_MAX < parsed_value then strncmp_usage binary_name EXIT_FAILURE (Some ''size_t value out of range.'')
      else Returns parsed_value)"

definition strncmp_parse_arguments :: "string list \<Rightarrow> string option \<Rightarrow> (string option \<times> string option \<times> string option) result" where
  "strncmp_parse_arguments argv n =
     with_options argv ''hn:''
       (option_case (CHR ''n'') (\<lambda>arg _. arg)
       (help_cases strncmp_usage (hd argv))) n
       (\<lambda>n optind.
       if optind \<ge> argc argv then strncmp_usage (hd argv) EXIT_FAILURE (Some ''The string1 and string2 are required'')
       else if optind + 1 \<ge> argc argv then strncmp_usage (hd argv) EXIT_FAILURE (Some ''The string2 is required'')
       else if optind < argc argv - 2 then strncmp_usage (hd argv) EXIT_FAILURE (Some ''Error: Too many arguments.'')
       else bind_result (argv_at argv optind) (\<lambda>string1.
       bind_result (argv_at argv (optind + 1)) (\<lambda>string2.
       Returns (n, string1, string2))))"

definition strncmp_handle_arguments :: "string \<Rightarrow> string option \<Rightarrow> string option \<Rightarrow> string option \<Rightarrow> uint64 result" where
  "strncmp_handle_arguments binary_name n_str string1 string2 =
     (if n_str = None then strncmp_usage binary_name EXIT_FAILURE (Some ''n is required.'')
      else if string1 = None then strncmp_usage binary_name EXIT_FAILURE (Some ''string1 is required.'')
      else if string2 = None then strncmp_usage binary_name EXIT_FAILURE (Some ''string2 is required.'')
      else bind_result (strncmp_parse_size_t binary_name (the n_str)) (\<lambda>n.
      Returns n))"

definition strncmp_arguments :: "string list \<Rightarrow> (string option \<times> string option \<times> string option \<times> uint64) result" where
  "strncmp_arguments argv =
     bind_result (strncmp_parse_arguments argv None) (\<lambda>(n_str, string1, string2).
     bind_result (strncmp_handle_arguments (hd argv) n_str string1 string2) (\<lambda>n.
       Returns (n_str, string1, string2, n)))"

subsection \<open>strings/strncpy/main.c\<close>

definition strncpy_usage :: "string \<Rightarrow> int \<Rightarrow> string option \<Rightarrow> 'a result" where
  "strncpy_usage program_name exit_code message =
     usage_exit
       [''Usage: '' @ program_name @ '' [-h] -n <length> <string>'',
        ''Options:'',
        ''  -h           Display this help message'',
        ''  -n <length>  The number of characters to copy''] exit_code message"

definition strncpy_parse_size_t :: "string \<Rightarrow> string \<Rightarrow> uint64 result" where
  "strncpy_parse_size_t binary_name str =
     (case strtoumax str of (parsed_value, endptr, erange) \<Rightarrow>
      if erange then strncpy_usage binary_name EXIT_FAILURE (Some ''Error parsing size_t.'')
      else if endptr \<noteq> [] then strncpy_usage binary_name EXIT_FAILURE (Some ''Invalid characters in input.'')
      else if SIZE_MAX < parsed_value then strncpy_usage binary_name EXIT_FAILURE (Some ''size_t value out of range.'')
      else Returns parsed_value)"

definition strncpy_parse_arguments :: "string list \<Rightarrow> string option \<Rightarrow> (string option \<times> string option) result" where
  "strncpy_parse_arguments argv n =
     with_options argv ''hn:''
       (option_case (CHR ''n'') (\<lambda>arg _. arg)
       (help_cases strncpy_usage (hd argv))) n
       (\<lambda>n optind.
       if optind \<ge> argc argv then strncpy_usage (hd argv) EXIT_FAILURE (Some ''The string is required'')
       else if optind < argc argv - 1 then strncpy_usage (hd argv) EXIT_FAILURE (Some ''Too many arguments.'')
       else bind_result (argv_at argv optind) (\<lambda>string.
       Returns (n, string)))"

definition strncpy_handle_arguments :: "string \<Rightarrow> string option \<Rightarrow> string option \<Rightarrow> uint64 result" where
  "strncpy_handle_arguments binary_name n_str string =
     (if n_str = None then strncpy_usage binary_name EXIT_FAILURE (Some ''n is required.'')
      else if string = None then strncpy_usage binary_name EXIT_FAILURE (Some ''The string is required.'')
      else bind_result (strncpy_parse_size_t binary_name (the n_str)) (\<lambda>n.
      Returns n))"

definition strncpy_arguments :: "string list \<Rightarrow> (string option \<times> string option \<times> uint64) result" where
  "strncpy_arguments argv =
     bind_result (strncpy_parse_arguments argv None) (\<lambda>(n_str, string).
     bind_result (strncpy_handle_arguments (hd argv) n_str string) (\<lambda>n.
       Returns (n_str, string, n)))"

section \<open>All of them\<close>

lemmas strings_usage =
    getopt_usage_def regcomp_usage_def regexec_usage_def strchr_usage_def strstr_usage_def
    strtok_r_usage_def wordexp_usage_def strcmp_usage_def strdup_usage_def strlen_usage_def
    strncmp_usage_def strncpy_usage_def

lemmas strings_defs =
    getopt_parse_arguments_def getopt_handle_arguments_def getopt_arguments_def regcomp_parse_arguments_def
    regcomp_handle_arguments_def regcomp_arguments_def regexec_parse_arguments_def
    regexec_handle_arguments_def regexec_arguments_def strchr_parse_arguments_def
    strchr_handle_arguments_def strchr_arguments_def strstr_parse_arguments_def strstr_handle_arguments_def
    strstr_arguments_def strtok_r_parse_arguments_def strtok_r_handle_arguments_def strtok_r_arguments_def
    wordexp_parse_arguments_def wordexp_handle_arguments_def wordexp_arguments_def
    strcmp_parse_arguments_def strcmp_handle_arguments_def strcmp_arguments_def strdup_parse_arguments_def
    strdup_handle_arguments_def strdup_arguments_def strlen_parse_arguments_def strlen_handle_arguments_def
    strlen_arguments_def strncmp_parse_arguments_def strncmp_parse_size_t_def strncmp_handle_arguments_def
    strncmp_arguments_def strncpy_parse_arguments_def strncpy_parse_size_t_def strncpy_handle_arguments_def
    strncpy_arguments_def

text \<open>The command lines with \<^verbatim>\<open>-h\<close> as an option without argument.\<close>

definition strings_programs :: "(string list \<Rightarrow> ending) list" where
  "strings_programs =
    [\<lambda>argv. outcome (getopt_arguments argv),
     \<lambda>argv. outcome (regcomp_arguments argv),
     \<lambda>argv. outcome (regexec_arguments argv),
     \<lambda>argv. outcome (strchr_arguments argv),
     \<lambda>argv. outcome (strstr_arguments argv),
     \<lambda>argv. outcome (strtok_r_arguments argv),
     \<lambda>argv. outcome (wordexp_arguments argv),
     \<lambda>argv. outcome (strcmp_arguments argv),
     \<lambda>argv. outcome (strdup_arguments argv),
     \<lambda>argv. outcome (strlen_arguments argv),
     \<lambda>argv. outcome (strncmp_arguments argv),
     \<lambda>argv. outcome (strncpy_arguments argv)]"

lemma strings_defined:
  assumes "argv \<noteq> []" "p \<in> set strings_programs"
  shows "p argv \<noteq> Breaks"
  using assms
  by (auto simp: strings_programs_def strings_defs strings_usage c_sizes bind_result_Undef_iff
      argv_at_Undef_iff split: prod.splits if_splits dest!: cli_Undef)

lemma strings_help:
  "p \<in> set strings_programs \<Longrightarrow> p (name # ''-h'' # args) = Leaves EXIT_SUCCESS"
  by (auto simp: strings_programs_def strings_defs strings_usage cli_switch split: prod.splits)

end
