(* ===== verification/Command_Lines.thy ===== *)
theory Command_Lines
  imports Cli_Files Cli_Identity Cli_Network Cli_System Cli_Strings
begin

text \<open>
  What the command lines of the programs have in common, stated over lists of the programs'
  own functions: no access outside \<^verbatim>\<open>argv\<close>, the answer to \<^verbatim>\<open>-h\<close>, the
  programs that take one operand, and the number parsers. The sizes of the system types are those
  of 64-bit Linux.
\<close>

section \<open>The lists\<close>

definition all_programs :: "(string list \<Rightarrow> ending) list" where
  "all_programs = files_programs @ identity_programs @ network_programs @ system_programs @ strings_programs"

definition argument_help_programs :: "(string list \<Rightarrow> ending) list" where
  "argument_help_programs = files_argument_help_programs @ system_argument_help_programs"

text \<open>The programs with one operand and no option but \<^verbatim>\<open>-h\<close>.\<close>

definition single_operand_programs :: "(string list \<Rightarrow> string option result) list" where
  "single_operand_programs =
    [access_arguments,
     chdir_arguments,
     lstat_arguments,
     opendir_arguments,
     readdir_arguments,
     stat_arguments,
     unlink_arguments,
     nftw_arguments,
     S_IS_arguments,
     fcntl_arguments,
     fdopen_arguments,
     fstat_arguments,
     open_arguments,
     basename_arguments,
     dirname_arguments,
     glob_arguments,
     reliable_arguments,
     simple_arguments,
     synchronized_arguments,
     mmap_client_arguments,
     shm_open_arguments,
     ferror_arguments,
     fopen_arguments,
     fprintf_arguments,
     getgrnam_arguments,
     getpwnam_arguments,
     read_write_client_arguments,
     send_recv_client_arguments,
     socketpair_arguments,
     io_client_arguments,
     getaddrinfo_arguments,
     dlopen_arguments,
     openlog_arguments,
     setlogmask_arguments,
     syslog_arguments,
     pthread_cond_wait_arguments,
     popen_arguments,
     system_arguments,
     regcomp_arguments,
     strtok_r_arguments,
     strdup_arguments,
     strlen_arguments]"

lemmas single_operand_defs =
    access_arguments_def access_parse_arguments_def access_handle_arguments_def
    access_usage_def chdir_arguments_def chdir_parse_arguments_def
    chdir_handle_arguments_def chdir_usage_def lstat_arguments_def
    lstat_parse_arguments_def lstat_handle_arguments_def lstat_usage_def
    opendir_arguments_def opendir_parse_arguments_def opendir_handle_arguments_def
    opendir_usage_def readdir_arguments_def readdir_parse_arguments_def
    readdir_handle_arguments_def readdir_usage_def stat_arguments_def
    stat_parse_arguments_def stat_handle_arguments_def stat_usage_def
    unlink_arguments_def unlink_parse_arguments_def unlink_handle_arguments_def
    unlink_usage_def nftw_arguments_def nftw_parse_arguments_def
    nftw_handle_arguments_def nftw_usage_def S_IS_arguments_def
    S_IS_parse_arguments_def S_IS_handle_arguments_def S_IS_usage_def
    fcntl_arguments_def fcntl_parse_arguments_def fcntl_handle_arguments_def
    fcntl_usage_def fdopen_arguments_def fdopen_parse_arguments_def
    fdopen_handle_arguments_def fdopen_usage_def fstat_arguments_def
    fstat_parse_arguments_def fstat_handle_arguments_def fstat_usage_def
    open_arguments_def open_parse_arguments_def open_handle_arguments_def
    open_usage_def basename_arguments_def basename_parse_arguments_def
    basename_handle_arguments_def basename_usage_def dirname_arguments_def
    dirname_parse_arguments_def dirname_handle_arguments_def dirname_usage_def
    glob_arguments_def glob_parse_arguments_def glob_handle_arguments_def
    glob_usage_def reliable_arguments_def reliable_parse_arguments_def
    reliable_handle_arguments_def reliable_usage_def simple_arguments_def
    simple_parse_arguments_def simple_handle_arguments_def simple_usage_def
    synchronized_arguments_def synchronized_parse_arguments_def synchronized_handle_arguments_def
    synchronized_usage_def mmap_client_arguments_def mmap_client_parse_arguments_def
    mmap_client_handle_arguments_def mmap_client_usage_def shm_open_arguments_def
    shm_open_parse_arguments_def shm_open_handle_arguments_def shm_open_usage_def
    ferror_arguments_def ferror_parse_arguments_def ferror_handle_arguments_def
    ferror_usage_def fopen_arguments_def fopen_parse_arguments_def
    fopen_handle_arguments_def fopen_usage_def fprintf_arguments_def
    fprintf_parse_arguments_def fprintf_handle_arguments_def fprintf_usage_def
    getgrnam_arguments_def getgrnam_parse_arguments_def getgrnam_handle_arguments_def
    getgrnam_usage_def getpwnam_arguments_def getpwnam_parse_arguments_def
    getpwnam_handle_arguments_def getpwnam_usage_def read_write_client_arguments_def
    read_write_client_parse_arguments_def read_write_client_handle_arguments_def read_write_client_usage_def
    send_recv_client_arguments_def send_recv_client_parse_arguments_def send_recv_client_handle_arguments_def
    send_recv_client_usage_def socketpair_arguments_def socketpair_parse_arguments_def
    socketpair_handle_arguments_def socketpair_usage_def io_client_arguments_def
    io_client_parse_arguments_def io_client_handle_arguments_def io_client_usage_def
    getaddrinfo_arguments_def getaddrinfo_parse_arguments_def getaddrinfo_handle_arguments_def
    getaddrinfo_usage_def dlopen_arguments_def dlopen_parse_arguments_def
    dlopen_handle_arguments_def dlopen_usage_def openlog_arguments_def
    openlog_parse_arguments_def openlog_handle_arguments_def openlog_usage_def
    setlogmask_arguments_def setlogmask_parse_arguments_def setlogmask_handle_arguments_def
    setlogmask_usage_def syslog_arguments_def syslog_parse_arguments_def
    syslog_handle_arguments_def syslog_usage_def pthread_cond_wait_arguments_def
    pthread_cond_wait_parse_arguments_def pthread_cond_wait_handle_arguments_def pthread_cond_wait_usage_def
    popen_arguments_def popen_parse_arguments_def popen_handle_arguments_def
    popen_usage_def system_arguments_def system_parse_arguments_def
    system_handle_arguments_def system_usage_def regcomp_arguments_def
    regcomp_parse_arguments_def regcomp_handle_arguments_def regcomp_usage_def
    strtok_r_arguments_def strtok_r_parse_arguments_def strtok_r_handle_arguments_def
    strtok_r_usage_def strdup_arguments_def strdup_parse_arguments_def
    strdup_handle_arguments_def strdup_usage_def strlen_arguments_def
    strlen_parse_arguments_def strlen_handle_arguments_def strlen_usage_def

text \<open>Every \<^verbatim>\<open>parse_...\<close> function for an unsigned type, with the first number it does not take.\<close>

definition unsigned_parsers :: "((string \<Rightarrow> string \<Rightarrow> uint64 result) \<times> nat) list" where
  "unsigned_parsers =
    [(chown_parse_uid_t 4, 2 ^ 32),
     (chown_parse_gid_t 4, 2 ^ 32),
     (getgrgid_parse_gid_t 4, 2 ^ 32),
     (setegid_parse_gid_t 4, 2 ^ 32),
     (setgid_parse_gid_t 4, 2 ^ 32),
     (setregid_parse_gid_t 4, 2 ^ 32),
     (getpwuid_parse_uid_t 4, 2 ^ 32),
     (seteuid_parse_uid_t 4, 2 ^ 32),
     (setreuid_parse_uid_t 4, 2 ^ 32),
     (setuid_parse_uid_t 4, 2 ^ 32),
     (getnameinfo_parse_in_port_t, 2 ^ 16),
     (bind_parse_in_port_t, 2 ^ 16),
     (connect_parse_in_port_t, 2 ^ 16),
     (listen_parse_in_port_t, 2 ^ 16),
     (getsockopt_parse_in_port_t, 2 ^ 16),
     (setsockopt_client_parse_in_port_t, 2 ^ 16),
     (setsockopt_server_parse_in_port_t, 2 ^ 16),
     (shutdown_client_parse_in_port_t, 2 ^ 16),
     (shutdown_server_parse_in_port_t, 2 ^ 16),
     (sendto_client_parse_in_port_t, 2 ^ 16),
     (sendto_server_parse_in_port_t, 2 ^ 16),
     (abort_parse_rlim_t 8, 2 ^ 64),
     (fork_parse_unsigned_int, 2 ^ 32),
     (pthread_cond_timedwait_parse_unsigned_int, 2 ^ 32),
     (sleep_parse_unsigned_int, 2 ^ 32),
     (difftime_parse_unsigned_int, 2 ^ 32),
     (strncmp_parse_size_t, 2 ^ 64),
     (strncpy_parse_size_t, 2 ^ 64)]"

lemmas unsigned_parser_defs =
    chown_parse_uid_t_def chown_usage_def chown_get_uid_t_max_def
    chown_parse_gid_t_def chown_get_gid_t_max_def getgrgid_parse_gid_t_def
    getgrgid_usage_def getgrgid_get_gid_t_max_def setegid_parse_gid_t_def
    setegid_usage_def setegid_get_gid_t_max_def setgid_parse_gid_t_def
    setgid_usage_def setgid_get_gid_t_max_def setregid_parse_gid_t_def
    setregid_usage_def setregid_get_gid_t_max_def getpwuid_parse_uid_t_def
    getpwuid_usage_def getpwuid_get_uid_t_max_def seteuid_parse_uid_t_def
    seteuid_usage_def seteuid_get_uid_t_max_def setreuid_parse_uid_t_def
    setreuid_usage_def setreuid_get_uid_t_max_def setuid_parse_uid_t_def
    setuid_usage_def setuid_get_uid_t_max_def getnameinfo_parse_in_port_t_def
    getnameinfo_usage_def bind_parse_in_port_t_def bind_usage_def
    connect_parse_in_port_t_def connect_usage_def listen_parse_in_port_t_def
    listen_usage_def getsockopt_parse_in_port_t_def getsockopt_usage_def
    setsockopt_client_parse_in_port_t_def setsockopt_client_usage_def setsockopt_server_parse_in_port_t_def
    setsockopt_server_usage_def shutdown_client_parse_in_port_t_def shutdown_client_usage_def
    shutdown_server_parse_in_port_t_def shutdown_server_usage_def sendto_client_parse_in_port_t_def
    sendto_client_usage_def sendto_server_parse_in_port_t_def sendto_server_usage_def
    abort_parse_rlim_t_def abort_usage_def abort_get_rlim_t_max_def
    fork_parse_unsigned_int_def fork_usage_def pthread_cond_timedwait_parse_unsigned_int_def
    pthread_cond_timedwait_usage_def sleep_parse_unsigned_int_def sleep_usage_def
    difftime_parse_unsigned_int_def difftime_usage_def strncmp_parse_size_t_def
    strncmp_usage_def strncpy_parse_size_t_def strncpy_usage_def

text \<open>Every \<^verbatim>\<open>parse_...\<close> function for a signed type, with its range.\<close>

definition signed_parsers :: "((string \<Rightarrow> string \<Rightarrow> int result) \<times> int \<times> int) list" where
  "signed_parsers =
    [(\<lambda>b. lseek_parse_off_t b LONG_MIN LONG_MAX, LONG_MIN, LONG_MAX),
     (fseek_parse_long, LONG_MIN, LONG_MAX),
     (fseeko_parse_off_t 8, LONG_MIN, LONG_MAX),
     (listen_parse_positive_int, 0, INT_MAX),
     (nice_parse_int, INT_MIN, INT_MAX),
     (\<lambda>b. pthread_cond_timedwait_parse_time_t b LONG_MIN LONG_MAX, LONG_MIN, LONG_MAX),
     (\<lambda>b. nanosleep_parse_time_t b LONG_MIN LONG_MAX, LONG_MIN, LONG_MAX),
     (nanosleep_parse_long, LONG_MIN, LONG_MAX)]"

lemmas signed_parser_defs =
    lseek_parse_off_t_def lseek_usage_def fseek_parse_long_def
    fseek_usage_def fseeko_parse_off_t_def fseeko_usage_def
    fseeko_get_off_t_min_def fseeko_get_off_t_max_def listen_parse_positive_int_def
    listen_usage_def nice_parse_int_def nice_usage_def
    pthread_cond_timedwait_parse_time_t_def pthread_cond_timedwait_usage_def nanosleep_parse_time_t_def
    nanosleep_usage_def nanosleep_parse_long_def

section \<open>Lemmas\<close>

lemma u64_limit_less:
  assumes "n < 2 ^ 64"
  shows "(0xFFFF :: uint64) < word_of_nat n \<longleftrightarrow> 2 ^ 16 \<le> n"
    and "(0xFFFFFFFF :: uint64) < word_of_nat n \<longleftrightarrow> 2 ^ 32 \<le> n"
    and "\<not> (0xFFFFFFFFFFFFFFFF :: uint64) < word_of_nat n"
  using word_of_nat_less_u64 [of "0xFFFF" n] word_of_nat_less_u64 [of "0xFFFFFFFF" n]
    word_of_nat_less_u64 [of "0xFFFFFFFFFFFFFFFF" n] assms by auto

lemma cast_limits:
  "cast_unsigned 4 0xFFFFFFFF = 0xFFFFFFFF" "cast_unsigned 8 0xFFFFFFFFFFFFFFFF = 0xFFFFFFFFFFFFFFFF"
  by (simp_all add: cast_unsigned_def)

lemma cast_unsigned_8: "cast_unsigned 8 v = v"
  using take_bit_length_eq [of v] by (simp add: cast_unsigned_def)

lemmas parser_eval = c_sizes c_limits cast_limits cast_unsigned_8 u64_limit_less cast_unsigned_small usage_exit_def

text \<open>The conversion succeeds on every string of digits below \<open>2 ^ 64\<close>; for a larger one it reports \<^verbatim>\<open>ERANGE\<close>.\<close>

lemma unsigned_parser_value:
  "(f, b) \<in> set unsigned_parsers \<Longrightarrow> n < 2 ^ 64 \<Longrightarrow> strtoumax str = (word_of_nat n, [], False)
    \<Longrightarrow> (n < b \<longrightarrow> f bn str = Returns (word_of_nat n)) \<and> (b \<le> n \<longrightarrow> outcome (f bn str) = Leaves EXIT_FAILURE)"
  by (auto simp: unsigned_parsers_def unsigned_parser_defs parser_eval)

lemma unsigned_parser_range:
  "(f, b) \<in> set unsigned_parsers \<Longrightarrow> strtoumax str = (v, [], True) \<Longrightarrow> outcome (f bn str) = Leaves EXIT_FAILURE"
  by (auto simp: unsigned_parsers_def unsigned_parser_defs parser_eval)

lemma unsigned_parsers_bound: "(f, b) \<in> set unsigned_parsers \<Longrightarrow> b \<le> 2 ^ 64"
  by (auto simp: unsigned_parsers_def)

lemma signed_parser_value:
  "(f, lo, hi) \<in> set signed_parsers \<Longrightarrow> strtoimax str = (i, [], False)
    \<Longrightarrow> (lo \<le> i \<and> i \<le> hi \<longrightarrow> f bn str = Returns i)
      \<and> (\<not> (lo \<le> i \<and> i \<le> hi) \<longrightarrow> outcome (f bn str) = Leaves EXIT_FAILURE)"
  by (auto simp: signed_parsers_def signed_parser_defs parser_eval)

lemma signed_parsers_bound: "(f, lo, hi) \<in> set signed_parsers \<Longrightarrow> LLONG_MIN \<le> lo \<and> hi \<le> LLONG_MAX"
  by (auto simp: signed_parsers_def c_limits)

lemma uminus_word_of_nat_u64:
  assumes "0 < n" "n \<le> 2 ^ 64"
  shows "- (word_of_nat n :: uint64) = word_of_nat (2 ^ 64 - n)"
proof -
  have "(word_of_nat (2 ^ 64 - n) :: uint64) + word_of_nat n = word_of_nat (2 ^ 64)"
    using assms by (metis le_add_diff_inverse2 of_nat_add)
  also have "(word_of_nat (2 ^ 64) :: uint64) = 0" by simp
  finally show ?thesis by (metis add.inverse_inverse eq_neg_iff_add_eq_0)
qed

section \<open>Theorems about the programs\<close>

text \<open>C24. Whatever the arguments are, no program reads an element of \<^verbatim>\<open>argv\<close> behind its
  null pointer while it reads its command line.\<close>

theorem programs_stay_in_argv:
  assumes "argv \<noteq> []" "p \<in> set all_programs \<union> set argument_help_programs"
  shows "p argv \<noteq> Breaks"
  using assms files_defined identity_defined network_defined system_defined strings_defined
  by (auto simp: all_programs_def argument_help_programs_def)

lemma programs_stay_in_argv_witness: "outcome (listen_arguments [''listen'', ''127.0.0.1'', ''80'']) \<noteq> Breaks"
proof -
  have "(\<lambda>argv. outcome (listen_arguments argv)) \<in> set all_programs \<union> set argument_help_programs"
    by (simp add: all_programs_def network_programs_def)
  from programs_stay_in_argv [OF _ this, of "[''listen'', ''127.0.0.1'', ''80'']"] show ?thesis by simp
qed

text \<open>\<^verbatim>\<open>-h\<close> as the first argument makes every program print its usage and leave with
  \<^verbatim>\<open>EXIT_SUCCESS\<close>, except the three whose option string gives \<^verbatim>\<open>-h\<close> an argument.\<close>

theorem programs_help:
  assumes "p \<in> set all_programs"
  shows "p (name # ''-h'' # args) = Leaves EXIT_SUCCESS"
  using assms files_help identity_help network_help system_help strings_help
  by (auto simp: all_programs_def)

lemma programs_help_witness: "outcome (pthread_mutex_lock_arguments [''m'', ''-h'', ''x'']) = Leaves 0"
proof -
  have "(\<lambda>argv. outcome (pthread_mutex_lock_arguments argv)) \<in> set all_programs"
    by (simp add: all_programs_def system_programs_def)
  from programs_help [OF this, of "''m''" "[''x'']"] show ?thesis by simp
qed

text \<open>These three (\<^verbatim>\<open>dlopen\<close>, \<^verbatim>\<open>shm_open\<close>, \<^verbatim>\<open>fprintf\<close>) answer a lone
  \<^verbatim>\<open>-h\<close> with "Unknown option '-h'." and \<^verbatim>\<open>EXIT_FAILURE\<close>.\<close>

theorem argument_help_fails:
  assumes "p \<in> set argument_help_programs"
  shows "p [name, ''-h''] = Leaves EXIT_FAILURE"
  using assms
  by (auto simp: argument_help_programs_def files_argument_help_programs_def system_argument_help_programs_def
      files_defs files_usage system_defs system_usage cli_switch)

lemma argument_help_fails_witness: "outcome (dlopen_arguments [''d'', ''-h'']) = Leaves 1"
proof -
  have "(\<lambda>argv. outcome (dlopen_arguments argv)) \<in> set argument_help_programs"
    by (simp add: argument_help_programs_def system_argument_help_programs_def)
  from argument_help_fails [OF this, of "''d''"] show ?thesis by simp
qed

text \<open>A program with one operand takes a command line without options exactly when it has one
  argument, and then hands that argument on.\<close>

theorem single_operand_accepts:
  assumes "p \<in> set single_operand_programs" "args = [] \<or> operand (hd args)"
  shows "p (name # args) = Returns (Some x) \<longleftrightarrow> args = [x]"
proof -
  consider "args = []" | y where "args = [y]" "operand y" | y z zs where "args = y # z # zs" "operand y"
    using assms(2) by (cases args; cases "tl args") auto
  then show ?thesis
  proof cases
    case 1
    with assms(1) show ?thesis
      by (auto simp: single_operand_programs_def single_operand_defs with_options_operands usage_exit_def)
  next
    case 2
    with assms(1) show ?thesis
      by (auto simp: single_operand_programs_def single_operand_defs with_options_operands argv_at_def)
  next
    case 3
    with assms(1) show ?thesis
      by (auto simp: single_operand_programs_def single_operand_defs with_options_operands usage_exit_def)
  qed
qed

lemma single_operand_accepts_witness: "reliable_arguments [''reliable'', ''words.txt''] = Returns (Some ''words.txt'')"
proof -
  have "reliable_arguments \<in> set single_operand_programs" by (simp add: single_operand_programs_def)
  from single_operand_accepts [OF this, of "[''words.txt'']" "''reliable''" "''words.txt''"] show ?thesis
    by (simp add: operand_def)
qed

text \<open>C25. Every parser of an unsigned type reads the decimal form of each number below its limit as
  that number and leaves with \<^verbatim>\<open>EXIT_FAILURE\<close> for every larger one.\<close>

theorem unsigned_parsers_roundtrip:
  assumes "(f, b) \<in> set unsigned_parsers"
  shows "(n < b \<longrightarrow> f bn (dec_nat n) = Returns (word_of_nat n))
    \<and> (b \<le> n \<longrightarrow> outcome (f bn (dec_nat n)) = Leaves EXIT_FAILURE)"
proof (cases "n < 2 ^ 64")
  case True
  then show ?thesis using unsigned_parser_value [OF assms True strtoumax_dec_nat] by blast
next
  case False
  then have "2 ^ 64 \<le> n" by simp
  with unsigned_parser_range [OF assms strtoumax_large] unsigned_parsers_bound [OF assms] show ?thesis
    by (meson le_less_trans not_less)
qed

lemma unsigned_parsers_roundtrip_witness:
  "bind_parse_in_port_t ''bind'' (dec_nat 8080) = Returns 8080
    \<and> outcome (bind_parse_in_port_t ''bind'' (dec_nat 65536)) = Leaves 1"
proof -
  have m: "(bind_parse_in_port_t, 2 ^ 16) \<in> set unsigned_parsers" by (simp add: unsigned_parsers_def)
  show ?thesis
    using unsigned_parsers_roundtrip [OF m, of 8080 "''bind''"] unsigned_parsers_roundtrip [OF m, of 65536 "''bind''"]
    by simp
qed

text \<open>C26. The same parsers take a negative number whose distance to \<open>2 ^ 64\<close> is in range (so
  \<open>-18446744073709551615\<close> is port 1), and the empty string as 0.\<close>

theorem unsigned_parsers_wrap:
  assumes "(f, b) \<in> set unsigned_parsers" "0 < m" "m < b" "m < 2 ^ 64"
  shows "f bn (CHR ''-'' # dec_nat (2 ^ 64 - m)) = Returns (word_of_nat m) \<and> f bn [] = Returns 0"
proof
  have "strtoumax (CHR ''-'' # dec_nat (2 ^ 64 - m)) = (- word_of_nat (2 ^ 64 - m), [], False)"
    using assms(2) by (intro strtoumax_neg) simp
  also have "- (word_of_nat (2 ^ 64 - m) :: uint64) = word_of_nat m"
    using uminus_word_of_nat_u64 [of "2 ^ 64 - m"] assms(2,4) by simp
  finally show "f bn (CHR ''-'' # dec_nat (2 ^ 64 - m)) = Returns (word_of_nat m)"
    using unsigned_parser_value [OF assms(1,4)] assms(3) by blast
  show "f bn [] = Returns 0"
    using unsigned_parser_value [OF assms(1), of 0 "[]"] assms(2,3) by simp
qed

lemma unsigned_parsers_wrap_witness:
  "sendto_client_parse_in_port_t ''c'' (CHR ''-'' # dec_nat 18446744073709551615) = Returns 1
    \<and> sendto_client_parse_in_port_t ''c'' [] = Returns 0"
proof -
  have "(sendto_client_parse_in_port_t, 2 ^ 16) \<in> set unsigned_parsers" by (simp add: unsigned_parsers_def)
  from unsigned_parsers_wrap [OF this, of 1 "''c''"] show ?thesis by simp
qed

text \<open>Every parser of a signed type reads the decimal form of each number of its range as that
  number and leaves with \<^verbatim>\<open>EXIT_FAILURE\<close> for the others that fit \<^verbatim>\<open>intmax_t\<close>.\<close>

theorem signed_parsers_roundtrip:
  assumes "(f, lo, hi) \<in> set signed_parsers" "LLONG_MIN \<le> i" "i \<le> LLONG_MAX"
  shows "(lo \<le> i \<and> i \<le> hi \<longrightarrow> f bn (dec_int i) = Returns i)
    \<and> (\<not> (lo \<le> i \<and> i \<le> hi) \<longrightarrow> outcome (f bn (dec_int i)) = Leaves EXIT_FAILURE)"
  by (rule signed_parser_value [OF assms(1) strtoimax_dec_int [OF assms(2,3)]])

lemma signed_parsers_roundtrip_witness:
  "nice_parse_int ''nice'' (dec_int (- 5)) = Returns (- 5)
    \<and> outcome (listen_parse_positive_int ''l'' (dec_int (- 5))) = Leaves 1"
proof -
  have "(nice_parse_int, INT_MIN, INT_MAX) \<in> set signed_parsers"
    "(listen_parse_positive_int, 0, INT_MAX) \<in> set signed_parsers" by (simp_all add: signed_parsers_def)
  from signed_parsers_roundtrip [OF this(1), of "- 5" "''nice''"]
    signed_parsers_roundtrip [OF this(2), of "- 5" "''l''"]
  show ?thesis by (simp add: c_limits)
qed

text \<open>The baud rate parsers take the codes 0 to 15 of \<^verbatim>\<open>termios.h\<close> and nothing else: a rate in
  bits per second, such as 9600, is refused.\<close>

theorem baud_rate_codes:
  assumes "LLONG_MIN \<le> i" "i \<le> LLONG_MAX"
  shows "(cfgetispeed_parse_baud_rate bn (dec_int i) = Returns v \<longleftrightarrow> v = i \<and> 0 \<le> i \<and> i \<le> 15)
    \<and> (cfgetospeed_parse_baud_rate bn (dec_int i) = Returns v \<longleftrightarrow> v = i \<and> 0 \<le> i \<and> i \<le> 15)"
proof -
  have "i \<in> set baud_rates \<longleftrightarrow> 0 \<le> i \<and> i \<le> 15"
    unfolding baud_rates_def by (simp, presburger)
  then show ?thesis
    using strtoimax_dec_int [OF assms]
    by (auto simp: cfgetispeed_parse_baud_rate_def cfgetospeed_parse_baud_rate_def strtoll_def
        cfgetispeed_usage_def cfgetospeed_usage_def usage_exit_def B38400_def)
qed

lemma baud_rate_codes_witness: "cfgetispeed_parse_baud_rate ''c'' (dec_int 9600) \<noteq> Returns 9600"
  using baud_rate_codes [of 9600 "''c''" 9600] by (simp add: c_limits)

end
