(* ===== verification/Mux_Stream.thy ===== *)
theory Mux_Stream
  imports Word_Framing "HOL-Library.Multiset"
begin

text \<open>
  What the two servers under \<^verbatim>\<open>src/io-multiplexing\<close> share: a connected stream socket as the
  results of the \<^verbatim>\<open>read\<close> calls on it, the loop \<^verbatim>\<open>read_full\<close> (each server has
  its own copy), and the reading of one message, a length byte and a word.
\<close>

section \<open>A socket that is read\<close>

text \<open>
  The results of successive calls of \<^verbatim>\<open>read\<close>: bytes that have arrived together, the end of
  the file, an interruption (\<^verbatim>\<open>EINTR\<close>) or another error. A call takes no more than it asked
  for; what is left of the segment is there for the next call. When the list is used up, the peer is
  silent and \<^verbatim>\<open>read\<close> blocks.
\<close>

datatype rd = Rd string | Rd_eof | Rd_intr | Rd_err

text \<open>The bytes the peer has sent before the end of the file or an error.\<close>

fun stream :: "rd list \<Rightarrow> string" where
  "stream [] = []"
| "stream (Rd bs # rs) = bs @ stream rs"
| "stream (Rd_intr # rs) = stream rs"
| "stream (Rd_eof # rs) = []"
| "stream (Rd_err # rs) = []"

text \<open>How \<^verbatim>\<open>read_full\<close> ends: its return value, or it blocks.\<close>

datatype full = Full | Closed | Failed_read | Stuck

fun return_code :: "full \<Rightarrow> int" where
  "return_code Full = 1"
| "return_code Closed = 0"
| "return_code Failed_read = - 1"
| "return_code Stuck = 0"

section \<open>read\_full\<close>

text \<open>\<^verbatim>\<open>read_full(fd, buf, n)\<close> of the poll server: the bytes stored, how it ends, and what is left to read.\<close>

fun poll_read_full :: "rd list \<Rightarrow> nat \<Rightarrow> string \<times> full \<times> rd list" where
  "poll_read_full rs 0 = ([], Full, rs)"
| "poll_read_full [] (Suc n) = ([], Stuck, [])"
| "poll_read_full (Rd_eof # rs) (Suc n) = ([], Closed, Rd_eof # rs)"
| "poll_read_full (Rd_intr # rs) (Suc n) = poll_read_full rs (Suc n)"
| "poll_read_full (Rd_err # rs) (Suc n) = ([], Failed_read, rs)"
| "poll_read_full (Rd bs # rs) (Suc n) =
     (if bs = [] then ([], Closed, rs)
      else if length bs \<le> Suc n
      then (case poll_read_full rs (Suc n - length bs) of (got, e, rs') \<Rightarrow> (bs @ got, e, rs'))
      else (take (Suc n) bs, Full, Rd (drop (Suc n) bs) # rs))"

text \<open>The same loop of the select server.\<close>

fun select_read_full :: "rd list \<Rightarrow> nat \<Rightarrow> string \<times> full \<times> rd list" where
  "select_read_full rs 0 = ([], Full, rs)"
| "select_read_full [] (Suc n) = ([], Stuck, [])"
| "select_read_full (Rd_eof # rs) (Suc n) = ([], Closed, Rd_eof # rs)"
| "select_read_full (Rd_intr # rs) (Suc n) = select_read_full rs (Suc n)"
| "select_read_full (Rd_err # rs) (Suc n) = ([], Failed_read, rs)"
| "select_read_full (Rd bs # rs) (Suc n) =
     (if bs = [] then ([], Closed, rs)
      else if length bs \<le> Suc n
      then (case select_read_full rs (Suc n - length bs) of (got, e, rs') \<Rightarrow> (bs @ got, e, rs'))
      else (take (Suc n) bs, Full, Rd (drop (Suc n) bs) # rs))"

lemma select_read_full_eq: "select_read_full = poll_read_full"
proof (intro ext)
  fix rs n
  show "select_read_full rs n = poll_read_full rs n"
    by (induction rs n rule: poll_read_full.induct) (auto split: prod.splits)
qed

text \<open>No segment is empty: \<^verbatim>\<open>read\<close> returns 0 at the end of the file only.\<close>

definition segments :: "rd list \<Rightarrow> bool" where
  "segments rs \<longleftrightarrow> Rd [] \<notin> set rs"

lemma segments_simps [simp]:
  "segments []" "segments (Rd bs # rs) \<longleftrightarrow> bs \<noteq> [] \<and> segments rs"
  "segments (Rd_eof # rs) = segments rs" "segments (Rd_intr # rs) = segments rs"
  "segments (Rd_err # rs) = segments rs"
  by (auto simp: segments_def)

text \<open>The loop gets exactly the next \<open>n\<close> bytes when the peer has sent them, however they arrive and
  however often it is interrupted.\<close>

lemma read_full_complete:
  assumes "segments rs" "n \<le> length (stream rs)"
  shows "\<exists>rs'. poll_read_full rs n = (take n (stream rs), Full, rs')
    \<and> stream rs' = drop n (stream rs) \<and> segments rs'"
  using assms
proof (induction rs n rule: poll_read_full.induct)
  case (6 bs rs n)
  show ?case
  proof (cases "length bs \<le> Suc n")
    case True
    with 6 obtain rs' where "poll_read_full rs (Suc n - length bs) = (take (Suc n - length bs) (stream rs), Full, rs')"
      "stream rs' = drop (Suc n - length bs) (stream rs)" "segments rs'" by fastforce
    with 6 True show ?thesis by simp
  qed (use 6 in \<open>auto simp: not_le\<close>)
qed auto

text \<open>Otherwise it does not report success.\<close>

lemma read_full_incomplete:
  "segments rs \<Longrightarrow> length (stream rs) < n \<Longrightarrow> fst (snd (poll_read_full rs n)) \<noteq> Full"
proof (induction rs n rule: poll_read_full.induct)
  case (6 bs rs n)
  then have "length (stream rs) < Suc n - length bs" "length bs \<le> Suc n" "segments rs" by auto
  with 6 show ?case by (auto split: prod.splits)
qed auto

lemma read_full_facts:
  "poll_read_full rs n = (got, e, rs') \<Longrightarrow> (e = Full \<longrightarrow> length got = n) \<and> (segments rs \<longrightarrow> segments rs')"
proof (induction rs n arbitrary: got rule: poll_read_full.induct)
  case (6 bs rs n)
  show ?case
  proof (cases "bs \<noteq> [] \<and> length bs \<le> Suc n")
    case True
    then obtain got' where "poll_read_full rs (Suc n - length bs) = (got', e, rs')" "got = bs @ got'"
      using "6.prems" by (auto split: prod.splits)
    with 6 True show ?thesis by auto
  qed (use 6 in \<open>auto simp: not_le split: if_splits\<close>)
qed auto

text \<open>A peer that is silent but connected keeps the loop waiting.\<close>

lemma read_full_silent:
  "poll_read_full rs n = (got, e, rs') \<Longrightarrow> Rd_eof \<notin> set rs \<and> Rd_err \<notin> set rs
    \<Longrightarrow> Rd_eof \<notin> set rs' \<and> Rd_err \<notin> set rs'"
proof (induction rs n arbitrary: got rule: poll_read_full.induct)
  case (6 bs rs n)
  show ?case
  proof (cases "bs \<noteq> [] \<and> length bs \<le> Suc n")
    case True
    then obtain got' where "poll_read_full rs (Suc n - length bs) = (got', e, rs')"
      using "6.prems" by (auto split: prod.splits)
    with 6 True show ?thesis by auto
  qed (use 6 in \<open>auto split: if_splits\<close>)
qed auto

lemma read_full_stuck:
  "segments rs \<Longrightarrow> length (stream rs) < n \<Longrightarrow> Rd_eof \<notin> set rs \<and> Rd_err \<notin> set rs
    \<Longrightarrow> fst (snd (poll_read_full rs n)) = Stuck"
proof (induction rs n rule: poll_read_full.induct)
  case (6 bs rs n)
  then have "length (stream rs) < Suc n - length bs" "length bs \<le> Suc n" "segments rs" by auto
  with 6 show ?case by (auto split: prod.splits)
qed auto

text \<open>A framed word is read by two calls.\<close>

lemma stream_frame_read:
  assumes "segments rs" "stream rs = frame w @ rest" "length w < 256"
  shows "\<exists>rs1 rs2. poll_read_full rs 1 = ([byte_of_u8 (word_of_nat (length w))], Full, rs1)
    \<and> poll_read_full rs1 (length w) = (w, Full, rs2) \<and> stream rs2 = rest \<and> segments rs2"
proof -
  from read_full_complete [OF assms(1), of 1] assms(2) obtain rs1 where
    r1: "poll_read_full rs 1 = ([byte_of_u8 (word_of_nat (length w))], Full, rs1)" "stream rs1 = w @ rest" "segments rs1"
    by (auto simp: frame_def)
  from read_full_complete [OF r1(3), of "length w"] r1 show ?thesis by force
qed

section \<open>Removal by moving the last element\<close>

text \<open>What both servers do with a client that has gone.\<close>

definition swap_remove :: "nat \<Rightarrow> 'a list \<Rightarrow> 'a list" where
  "swap_remove i xs = (if i = length xs - 1 then butlast xs else (butlast xs)[i := last xs])"

lemma mset_swap_remove:
  assumes "i < length xs"
  shows "mset (swap_remove i xs) = mset xs - {#xs ! i#}"
proof (cases xs rule: rev_cases)
  case (snoc ys y)
  show ?thesis
  proof (cases "i = length ys")
    case True
    with snoc show ?thesis by (simp add: swap_remove_def)
  next
    case False
    with assms snoc have i: "i < length ys" by simp
    then have "xs ! i = ys ! i" "ys ! i \<in># mset ys" using snoc by (simp_all add: nth_append)
    with snoc i show ?thesis by (simp add: swap_remove_def mset_update)
  qed
qed (use assms in simp)

lemma length_swap_remove: "i < length xs \<Longrightarrow> length (swap_remove i xs) = length xs - 1"
  by (simp add: swap_remove_def)

lemma map_swap_remove: "i < length xs \<Longrightarrow> map f (swap_remove i xs) = swap_remove i (map f xs)"
  by (cases xs rule: rev_cases) (auto simp: swap_remove_def map_update)

lemma mset_swap_remove1: "i < length xs \<Longrightarrow> mset (swap_remove i xs) = mset (remove1 (xs ! i) xs)"
  by (simp add: mset_swap_remove)

lemma distinct_swap_remove: "i < length xs \<Longrightarrow> distinct xs \<Longrightarrow> distinct (swap_remove i xs)"
  by (simp add: mset_eq_imp_distinct_iff [OF mset_swap_remove1])

lemma set_swap_remove: "i < length xs \<Longrightarrow> distinct xs \<Longrightarrow> set (swap_remove i xs) = set xs - {xs ! i}"
  using mset_eq_setD [OF mset_swap_remove1, of i xs] by simp

text \<open>From the clients \<open>cl\<close> and the sockets \<open>c\<close> closed before to \<open>cl'\<close> and \<open>c'\<close>: each
  client that is missing has been closed once, and nothing else has been closed.\<close>

definition accounts :: "int list \<Rightarrow> int list \<Rightarrow> int list \<Rightarrow> int list \<Rightarrow> bool" where
  "accounts cl c cl' c' \<longleftrightarrow> (\<exists>gone. c' = c @ gone \<and> mset cl = mset gone + mset cl')"

lemma accounts_refl [simp]: "accounts cl c cl c"
  by (simp add: accounts_def)

lemma accounts_trans: "accounts cl c cl' c' \<Longrightarrow> accounts cl' c' cl'' c'' \<Longrightarrow> accounts cl c cl'' c''"
  by (fastforce simp: accounts_def)

lemma accounts_facts:
  assumes "accounts cl c cl' c'"
  shows "set cl' \<subseteq> set cl" "length cl' \<le> length cl" "mset c' + mset cl' = mset c + mset cl"
proof -
  from assms obtain gone where g: "c' = c @ gone" "mset cl = mset gone + mset cl'" by (auto simp: accounts_def)
  have "mset cl' \<subseteq># mset cl" using g(2) by simp
  from set_mset_mono [OF this] size_mset_mono [OF this]
  show "set cl' \<subseteq> set cl" "length cl' \<le> length cl" by simp_all
  show "mset c' + mset cl' = mset c + mset cl" using g by simp
qed

lemma accounts_swap_remove: "i < length cl \<Longrightarrow> accounts cl c (swap_remove i cl) (c @ [cl ! i])"
  by (simp add: accounts_def mset_swap_remove)

section \<open>A server of words\<close>

text \<open>The part of a server that handles one message, run \<open>n\<close> times.\<close>

fun messages :: "('s \<Rightarrow> 's result) \<Rightarrow> nat \<Rightarrow> 's \<Rightarrow> 's result" where
  "messages message 0 st = Returns st"
| "messages message (Suc n) st = bind_result (message st) (messages message n)"

text \<open>
  What a client relies on: \<open>message i\<close> handles one message of the client at index \<open>i\<close> of the table
  (\<open>connected cl st\<close>: the table lists the sockets \<open>cl\<close>), \<open>inp\<close> is what is still to be read from
  each socket, \<open>out\<close> the lines printed, and \<open>line\<close> the line for a word.
\<close>

locale word_server =
  fixes message :: "nat \<Rightarrow> 's \<Rightarrow> 's result"
    and connected :: "int list \<Rightarrow> 's \<Rightarrow> bool"
    and inp :: "'s \<Rightarrow> int \<Rightarrow> rd list"
    and out :: "'s \<Rightarrow> string list"
    and line :: "int \<Rightarrow> string \<Rightarrow> string"
  assumes message_word:
    "connected cl st \<Longrightarrow> i < length cl \<Longrightarrow> segments (inp st (cl ! i))
      \<Longrightarrow> stream (inp st (cl ! i)) = frame w @ rest \<Longrightarrow> length w < 256
      \<Longrightarrow> \<exists>st'. message i st = Returns st' \<and> connected cl st' \<and> out st' = out st @ [line (cl ! i) w]
        \<and> stream (inp st' (cl ! i)) = rest \<and> segments (inp st' (cl ! i))
        \<and> (\<forall>sd. sd \<noteq> cl ! i \<longrightarrow> inp st' sd = inp st sd)"
begin

lemma messages_words:
  assumes "connected cl st" "i < length cl" "segments (inp st (cl ! i))"
    and "stream (inp st (cl ! i)) = concat (map frame ws) @ rest" "\<forall>w \<in> set ws. length w < 256"
  shows "\<exists>st'. messages (message i) (length ws) st = Returns st'
    \<and> connected cl st' \<and> out st' = out st @ map (line (cl ! i)) ws
    \<and> stream (inp st' (cl ! i)) = rest \<and> (\<forall>sd. sd \<noteq> cl ! i \<longrightarrow> inp st' sd = inp st sd)"
  using assms
proof (induction ws arbitrary: st)
  case (Cons w ws)
  from message_word [OF Cons.prems(1-3), of w "concat (map frame ws) @ rest"] Cons.prems(4,5)
  obtain st1 where st1: "message i st = Returns st1" "connected cl st1"
    "out st1 = out st @ [line (cl ! i) w]" "stream (inp st1 (cl ! i)) = concat (map frame ws) @ rest"
    "segments (inp st1 (cl ! i))" "\<forall>sd. sd \<noteq> cl ! i \<longrightarrow> inp st1 sd = inp st sd" by auto
  with Cons.IH [OF st1(2) Cons.prems(2) st1(5,4)] Cons.prems(5) show ?case
    by auto
qed simp

end

end
