(* ===== verification/Mux_Poll.thy ===== *)
theory Mux_Poll
  imports Mux_Stream
begin

text \<open>
  \<^verbatim>\<open>src/io-multiplexing/poll/main.c\<close>: the server's table of clients, kept in the two
  arrays \<^verbatim>\<open>client_sockets\<close> and \<^verbatim>\<open>fds\<close>, and its main loop. The theory shows that
  the arrays stay consistent and are never accessed outside their bounds, that the words of a
  client are printed as sent, and what a signal does to the server.
\<close>

section \<open>State\<close>

text \<open>A \<^verbatim>\<open>struct pollfd\<close>; of \<^verbatim>\<open>events\<close> and \<^verbatim>\<open>revents\<close> the bit \<^verbatim>\<open>POLLIN\<close>.\<close>

record pollfd =
  pf_fd :: int
  pf_events :: bool
  pf_revents :: bool

text \<open>The variables of \<^verbatim>\<open>main\<close>, what the clients have sent (by socket), the lines printed and
  the sockets closed.\<close>

record pserver =
  ps_sockets :: "int list"
  ps_fds :: "pollfd list"
  ps_count :: nat
  ps_capacity :: nat
  ps_in :: "int \<Rightarrow> rd list"
  ps_out :: "string list"
  ps_closed :: "int list"

definition free_slot :: pollfd where
  "free_slot = \<lparr>pf_fd = - 1, pf_events = False, pf_revents = False\<rparr>"

definition POLL_MAX_WORD_LEN :: nat where "POLL_MAX_WORD_LEN = 256"

definition poll_min_size :: "nat \<Rightarrow> nat \<Rightarrow> nat" where
  "poll_min_size a b = (if a < b then a else b)"

definition print_line :: "string \<Rightarrow> pserver \<Rightarrow> pserver" where
  "print_line t st = st\<lparr>ps_out := ps_out st @ [t]\<rparr>"

section \<open>The functions\<close>

text \<open>\<^verbatim>\<open>initialize_pollfds\<close>, the two \<^verbatim>\<open>malloc\<close>s succeeding or not.\<close>

definition initialize_pollfds :: "bool \<Rightarrow> bool \<Rightarrow> int \<Rightarrow> (int \<Rightarrow> rd list) \<Rightarrow> pserver result" where
  "initialize_pollfds malloc1 malloc2 sockfd inp =
     (if \<not> malloc1 then Exits EXIT_FAILURE [Perror ''malloc'']
      else if \<not> malloc2 then Exits EXIT_FAILURE [Perror ''malloc'']
      else Returns \<lparr>ps_sockets = replicate 4 (- 1),
             ps_fds = \<lparr>pf_fd = sockfd, pf_events = True, pf_revents = False\<rparr> # replicate 4 free_slot,
             ps_count = 0, ps_capacity = 4, ps_in = inp, ps_out = [], ps_closed = []\<rparr>)"

text \<open>The part of \<^verbatim>\<open>handle_new_connection\<close> that grows the arrays; the new elements of a
  \<^verbatim>\<open>realloc\<close> are set by the loop behind it.\<close>

definition grow_pollfds :: "bool \<Rightarrow> bool \<Rightarrow> pserver \<Rightarrow> pserver result" where
  "grow_pollfds realloc1 realloc2 st =
     (let new_cap = (if ps_capacity st = 0 then 4 else ps_capacity st * 2)
      in if \<not> realloc1 then Exits EXIT_FAILURE [Perror ''realloc'']
         else if \<not> realloc2 then Exits EXIT_FAILURE [Perror ''realloc'']
         else Returns (st\<lparr>ps_sockets := take (ps_capacity st) (ps_sockets st) @ replicate (new_cap - ps_capacity st) (- 1),
                ps_fds := take (ps_capacity st + 1) (ps_fds st) @ replicate (new_cap - ps_capacity st) free_slot,
                ps_capacity := new_cap\<rparr>))"

text \<open>\<^verbatim>\<open>handle_new_connection\<close>; \<open>new_socket\<close> is what \<^verbatim>\<open>accept\<close> returns.\<close>

definition handle_new_connection :: "bool \<Rightarrow> bool \<Rightarrow> int \<Rightarrow> pserver \<Rightarrow> pserver result" where
  "handle_new_connection realloc1 realloc2 new_socket st =
     bind_result (arr_get (ps_fds st) 0) (\<lambda>f0.
       if pf_revents f0
       then if new_socket = - 1 then Exits EXIT_FAILURE [Perror ''Accept error'']
            else bind_result (if ps_count st = ps_capacity st then grow_pollfds realloc1 realloc2 st else Returns st) (\<lambda>st.
              bind_result (arr_set (ps_sockets st) (ps_count st) new_socket) (\<lambda>cs.
              bind_result (arr_set (ps_fds st) (ps_count st + 1)
                  \<lparr>pf_fd = new_socket, pf_events = True, pf_revents = False\<rparr>) (\<lambda>fds.
              Returns (st\<lparr>ps_sockets := cs, ps_fds := fds, ps_count := ps_count st + 1\<rparr>))))
       else Returns st)"

text \<open>\<^verbatim>\<open>handle_client_disconnection\<close>; \<^verbatim>\<open>nfds_t\<close> is unsigned, so with no client
  \<open>last\<close> would be its greatest value.\<close>

definition handle_client_disconnection :: "nat \<Rightarrow> pserver \<Rightarrow> pserver result" where
  "handle_client_disconnection client_index st =
     bind_result (arr_get (ps_sockets st) client_index) (\<lambda>disconnected_socket.
       if ps_count st = 0 then Undef
       else let last = ps_count st - 1
            in bind_result
                 (if client_index \<noteq> last
                  then bind_result (arr_get (ps_sockets st) last) (\<lambda>s.
                    bind_result (arr_set (ps_sockets st) client_index s) (\<lambda>cs.
                    bind_result (arr_get (ps_fds st) (last + 1)) (\<lambda>f.
                    bind_result (arr_set (ps_fds st) (client_index + 1) f) (\<lambda>fds.
                    Returns (cs, fds)))))
                  else Returns (ps_sockets st, ps_fds st)) (\<lambda>(cs, fds).
               bind_result (arr_set cs last (- 1)) (\<lambda>cs.
               bind_result (arr_set fds (last + 1) free_slot) (\<lambda>fds.
               Returns (st\<lparr>ps_sockets := cs, ps_fds := fds, ps_count := last,
                 ps_closed := ps_closed st @ [disconnected_socket]\<rparr>)))))"

definition disconnected_line :: "int \<Rightarrow> string" where
  "disconnected_line fd = ''Client '' @ dec_int fd @ '' disconnected'' @ [NL]"

definition oversize_line :: "int \<Rightarrow> nat \<Rightarrow> string" where
  "oversize_line fd n = ''Client '' @ dec_int fd @ '' sent oversize word length ('' @ dec_nat n @ '')'' @ [NL]"

definition received_line :: "int \<Rightarrow> string \<Rightarrow> string" where
  "received_line fd w = ''Received word from client '' @ dec_int fd @ '': '' @ c_str (w @ [NUL]) @ [NL]"

text \<open>The body of the loop of \<^verbatim>\<open>handle_client_data\<close> for a ready client: one message.\<close>

definition poll_message :: "nat \<Rightarrow> pserver \<Rightarrow> pserver result" where
  "poll_message i st =
     (let sd = ps_sockets st ! i;
          max_payload = poll_min_size (POLL_MAX_WORD_LEN - 1) 255
      in case poll_read_full (ps_in st sd) 1 of (got, e, rs) \<Rightarrow>
           let st = st\<lparr>ps_in := (ps_in st)(sd := rs)\<rparr>
           in if e = Stuck then Blocks
              else if return_code e \<le> 0 then handle_client_disconnection i (print_line (disconnected_line sd) st)
              else let word_length = unat (u8_of_byte (hd got))
                   in if word_length > max_payload
                      then handle_client_disconnection i (print_line (oversize_line sd word_length) st)
                      else case poll_read_full (ps_in st sd) word_length of (word, e, rs) \<Rightarrow>
                             let st = st\<lparr>ps_in := (ps_in st)(sd := rs)\<rparr>
                             in if e = Stuck then Blocks
                                else if return_code e \<le> 0
                                then handle_client_disconnection i (print_line (disconnected_line sd) st)
                                else bind_result (arr_get (ps_fds st) (i + 1)) (\<lambda>f.
                                  bind_result (arr_set (ps_fds st) (i + 1) (f\<lparr>pf_revents := False\<rparr>)) (\<lambda>fds.
                                  Returns (print_line (received_line sd word) (st\<lparr>ps_fds := fds\<rparr>)))))"

definition poll_client :: "nat \<Rightarrow> pserver \<Rightarrow> pserver result" where
  "poll_client i st =
     bind_result (arr_get (ps_sockets st) i) (\<lambda>sd.
       bind_result (arr_get (ps_fds st) (i + 1)) (\<lambda>f.
         if sd \<noteq> - 1 \<and> pf_revents f then poll_message i st else Returns st))"

text \<open>The loop \<^verbatim>\<open>for(i = 0; i < *client_count; i++)\<close>; the count never grows in it, so as many
  rounds as there are clients at the start are enough.\<close>

fun poll_clients :: "nat \<Rightarrow> nat \<Rightarrow> pserver \<Rightarrow> pserver result" where
  "poll_clients 0 i st = Returns st"
| "poll_clients (Suc n) i st =
     (if i < ps_count st then bind_result (poll_client i st) (\<lambda>st'. poll_clients n (i + 1) st')
      else Returns st)"

definition handle_client_data :: "pserver \<Rightarrow> pserver result" where
  "handle_client_data st = poll_clients (ps_count st) 0 st"

section \<open>The main loop\<close>

text \<open>What the environment contributes to one round: the \<^verbatim>\<open>revents\<close> that \<^verbatim>\<open>poll\<close>
  stores, or its failure, interrupted by \<^verbatim>\<open>SIGINT\<close> or not; the socket from
  \<^verbatim>\<open>accept\<close>; the results of \<^verbatim>\<open>realloc\<close>; and whether \<^verbatim>\<open>SIGINT\<close> arrives later in the round.\<close>

record round =
  rd_poll_fails :: bool
  rd_revents :: "nat \<Rightarrow> bool"
  rd_accept :: int
  rd_realloc1 :: bool
  rd_realloc2 :: bool
  rd_sigint :: bool

fun set_revents :: "nat \<Rightarrow> (nat \<Rightarrow> bool) \<Rightarrow> nat \<Rightarrow> pollfd list \<Rightarrow> pollfd list" where
  "set_revents n ready i [] = []"
| "set_revents n ready i (f # fs) =
     (if i < n then f\<lparr>pf_revents := ready i \<and> pf_events f\<rparr> else f) # set_revents n ready (Suc i) fs"

definition poll_revents :: "(nat \<Rightarrow> bool) \<Rightarrow> pserver \<Rightarrow> pserver" where
  "poll_revents ready st = st\<lparr>ps_fds := set_revents (ps_count st + 1) ready 0 (ps_fds st)\<rparr>"

text \<open>One round; a \<^verbatim>\<open>poll\<close> that fails, for whatever reason, ends the process.\<close>

definition poll_round :: "round \<Rightarrow> pserver \<Rightarrow> pserver result" where
  "poll_round r st =
     (if rd_poll_fails r then Exits EXIT_FAILURE [Perror ''Poll error'']
      else bind_result (handle_new_connection (rd_realloc1 r) (rd_realloc2 r) (rd_accept r) (poll_revents (rd_revents r) st)) (\<lambda>st.
        bind_result (if ps_count st > 0 then handle_client_data st else Returns st) (\<lambda>st.
        bind_result (arr_get (ps_fds st) 0) (\<lambda>f.
        bind_result (arr_set (ps_fds st) 0 (f\<lparr>pf_revents := False\<rparr>)) (\<lambda>fds.
        Returns (st\<lparr>ps_fds := fds\<rparr>))))))"

text \<open>The rest of \<^verbatim>\<open>main\<close>: the sockets of the clients are closed, then the server's; \<open>shut\<close> says
  for which sockets \<^verbatim>\<open>close\<close> succeeds.\<close>

definition poll_socket_close :: "(int \<Rightarrow> bool) \<Rightarrow> int \<Rightarrow> pserver \<Rightarrow> pserver result" where
  "poll_socket_close shut sockfd st =
     (if \<not> shut sockfd then Exits EXIT_FAILURE [Perror ''Error closing socket'']
      else Returns (print_line (''Socket closed.'' @ [NL]) (st\<lparr>ps_closed := ps_closed st @ [sockfd]\<rparr>)))"

fun poll_close_clients :: "(int \<Rightarrow> bool) \<Rightarrow> int list \<Rightarrow> pserver \<Rightarrow> pserver result" where
  "poll_close_clients shut [] st = Returns st"
| "poll_close_clients shut (c # cs) st =
     bind_result (if c > 0 then poll_socket_close shut c st else Returns st) (poll_close_clients shut cs)"

definition poll_cleanup :: "(int \<Rightarrow> bool) \<Rightarrow> int \<Rightarrow> pserver \<Rightarrow> pserver result" where
  "poll_cleanup shut sockfd st =
     bind_result (poll_close_clients shut (take (ps_count st) (ps_sockets st)) st) (\<lambda>st.
     bind_result (poll_socket_close shut sockfd st) (\<lambda>st.
     Returns (print_line (''Server exited successfully.'' @ [NL]) st)))"

fun poll_server :: "(int \<Rightarrow> bool) \<Rightarrow> int \<Rightarrow> bool \<Rightarrow> round list \<Rightarrow> pserver \<Rightarrow> pserver result" where
  "poll_server shut sockfd exit_flag rs st =
     (if exit_flag then poll_cleanup shut sockfd st
      else case rs of
             [] \<Rightarrow> Blocks
           | r # rs' \<Rightarrow> bind_result (poll_round r st) (\<lambda>st'. poll_server shut sockfd (rd_sigint r) rs' st'))"

text \<open>\<^verbatim>\<open>main\<close>: \<open>sockfd\<close>, \<open>bound\<close> and \<open>listening\<close> are what \<^verbatim>\<open>socket\<close>,
  \<^verbatim>\<open>bind\<close> and \<^verbatim>\<open>listen\<close> return.\<close>

definition poll_started :: "pserver \<Rightarrow> pserver" where
  "poll_started st = st\<lparr>ps_out := [''Socket created successfully.'' @ [NL],
     ''Bound to domain socket: /tmp/example_socket'' @ [NL],
     ''Server listening for incoming connections...'' @ [NL]]\<rparr>"

definition poll_main ::
  "int \<Rightarrow> bool \<Rightarrow> bool \<Rightarrow> bool \<Rightarrow> bool \<Rightarrow> (int \<Rightarrow> bool) \<Rightarrow> (int \<Rightarrow> rd list) \<Rightarrow> round list \<Rightarrow> pserver result" where
  "poll_main sockfd bound listening malloc1 malloc2 shut inp rs =
     (if sockfd = - 1 then Exits EXIT_FAILURE [Perror ''socket'']
      else if \<not> bound then Exits EXIT_FAILURE [Perror ''bind'']
      else if \<not> listening then Exits EXIT_FAILURE [Perror ''Listen error'']
      else bind_result (initialize_pollfds malloc1 malloc2 sockfd inp) (\<lambda>st.
        poll_server shut sockfd False rs (poll_started st)))"

declare poll_server.simps [simp del]

section \<open>The invariant\<close>

text \<open>\<open>cl\<close> are the clients in the order of the table; behind them both arrays have the same \<open>k\<close>
  free slots. Slot 0 of \<^verbatim>\<open>fds\<close> is the listening socket.\<close>

definition table :: "int \<Rightarrow> int list \<Rightarrow> nat \<Rightarrow> pserver \<Rightarrow> bool" where
  "table sockfd cl k st \<longleftrightarrow>
     ps_sockets st = cl @ replicate k (- 1)
     \<and> (\<exists>f0 fs. ps_fds st = f0 # fs @ replicate k free_slot \<and> pf_fd f0 = sockfd \<and> pf_events f0
          \<and> map pf_fd fs = cl \<and> (\<forall>f \<in> set fs. pf_events f))
     \<and> ps_count st = length cl \<and> ps_capacity st = length cl + k \<and> 0 < ps_capacity st
     \<and> distinct cl \<and> - 1 \<notin> set cl"

lemma tableE:
  assumes "table sockfd cl k st"
  obtains f0 fs where "ps_fds st = f0 # fs @ replicate k free_slot" "pf_fd f0 = sockfd" "pf_events f0"
    "map pf_fd fs = cl" "\<forall>f \<in> set fs. pf_events f" "length fs = length cl"
    "ps_sockets st = cl @ replicate k (- 1)" "ps_count st = length cl" "ps_capacity st = length cl + k"
    "0 < ps_capacity st" "distinct cl" "- 1 \<notin> set cl"
  using assms unfolding table_def by (metis length_map)

lemma tableI:
  assumes "ps_fds st = f0 # fs @ replicate k free_slot" "pf_fd f0 = sockfd" "pf_events f0"
    "map pf_fd fs = cl" "\<forall>f \<in> set fs. pf_events f"
    "ps_sockets st = cl @ replicate k (- 1)" "ps_count st = length cl" "ps_capacity st = length cl + k"
    "0 < ps_capacity st" "distinct cl" "- 1 \<notin> set cl"
  shows "table sockfd cl k st"
  using assms unfolding table_def by blast

lemma table_initial:
  "initialize_pollfds True True sockfd inp = Returns st \<Longrightarrow> table sockfd [] 4 st \<and> ps_in st = inp"
  by (auto simp: initialize_pollfds_def table_def)

lemma table_frame:
  "ps_sockets st' = ps_sockets st \<Longrightarrow> ps_fds st' = ps_fds st \<Longrightarrow> ps_count st' = ps_count st
    \<Longrightarrow> ps_capacity st' = ps_capacity st \<Longrightarrow> table sockfd cl k st' = table sockfd cl k st"
  by (simp add: table_def)

lemma table_print [simp]: "table sockfd cl k (print_line t st) = table sockfd cl k st"
  by (rule table_frame) (simp_all add: print_line_def)

text \<open>Growing keeps the clients and adds free slots.\<close>

lemma grow_table:
  assumes "table sockfd cl 0 st"
  shows "\<exists>st'. grow_pollfds True True st = Returns st' \<and> table sockfd cl (length cl) st'
    \<and> ps_in st' = ps_in st \<and> ps_out st' = ps_out st \<and> ps_closed st' = ps_closed st"
proof -
  from assms obtain f0 fs where t: "ps_fds st = f0 # fs @ replicate 0 free_slot" "pf_fd f0 = sockfd" "pf_events f0"
    "map pf_fd fs = cl" "\<forall>f \<in> set fs. pf_events f" "length fs = length cl"
    "ps_sockets st = cl @ replicate 0 (- 1)" "ps_count st = length cl" "ps_capacity st = length cl + 0"
    "0 < ps_capacity st" "distinct cl" "- 1 \<notin> set cl" by (rule tableE)
  let ?st' = "st\<lparr>ps_sockets := cl @ replicate (length cl) (- 1),
    ps_fds := f0 # fs @ replicate (length cl) free_slot, ps_capacity := 2 * length cl\<rparr>"
  have "grow_pollfds True True st = Returns ?st'"
    using t by (simp add: grow_pollfds_def Let_def mult_2)
  moreover have "table sockfd cl (length cl) ?st'" using t by (simp add: table_def)
  ultimately show ?thesis by force
qed

text \<open>A new client goes to the end of the table.\<close>

lemma new_connection_table:
  assumes "table sockfd cl k st" "pf_revents (ps_fds st ! 0)" "new \<noteq> - 1" "new \<notin> set cl"
  shows "\<exists>k' st'. handle_new_connection True True new st = Returns st' \<and> table sockfd (cl @ [new]) k' st'
    \<and> ps_in st' = ps_in st \<and> ps_out st' = ps_out st \<and> ps_closed st' = ps_closed st"
proof -
  define st1 where "st1 = (if k = 0 then (case grow_pollfds True True st of Returns s \<Rightarrow> s | _ \<Rightarrow> st) else st)"
  have grown: "(if ps_count st = ps_capacity st then grow_pollfds True True st else Returns st) = Returns st1
      \<and> (\<exists>k1. 0 < k1 \<and> table sockfd cl k1 st1) \<and> ps_in st1 = ps_in st \<and> ps_out st1 = ps_out st
      \<and> ps_closed st1 = ps_closed st"
  proof (cases "k = 0")
    case True
    with assms(1) grow_table obtain st' where g: "grow_pollfds True True st = Returns st'"
      "table sockfd cl (length cl) st'" "ps_in st' = ps_in st" "ps_out st' = ps_out st" "ps_closed st' = ps_closed st"
      by blast
    moreover have "0 < length cl" "ps_count st = ps_capacity st" using assms(1) True by (auto simp: table_def)
    ultimately show ?thesis using True by (auto simp: st1_def)
  next
    case False
    with assms(1) show ?thesis by (auto simp: st1_def table_def)
  qed
  then obtain k1 where k1: "0 < k1" "table sockfd cl k1 st1" by blast
  from k1(2) obtain f0 fs where t: "ps_fds st1 = f0 # fs @ replicate k1 free_slot" "pf_fd f0 = sockfd" "pf_events f0"
    "map pf_fd fs = cl" "\<forall>f \<in> set fs. pf_events f" "length fs = length cl"
    "ps_sockets st1 = cl @ replicate k1 (- 1)" "ps_count st1 = length cl" "ps_capacity st1 = length cl + k1"
    "0 < ps_capacity st1" "distinct cl" "- 1 \<notin> set cl" by (rule tableE)
  obtain k2 where k2: "k1 = Suc k2" using k1(1) by (cases k1) auto
  let ?f = "\<lparr>pf_fd = new, pf_events = True, pf_revents = False\<rparr>"
  let ?st2 = "st1\<lparr>ps_sockets := (cl @ [new]) @ replicate k2 (- 1), ps_fds := f0 # (fs @ [?f]) @ replicate k2 free_slot,
    ps_count := ps_count st1 + 1\<rparr>"
  have "ps_fds st \<noteq> []" using assms(1) by (auto simp: table_def)
  then have "handle_new_connection True True new st = Returns ?st2"
    using assms(2,3) grown t k2
    by (simp add: handle_new_connection_def list_update_append)
  moreover have "table sockfd (cl @ [new]) k2 ?st2"
    unfolding table_def
  proof (intro conjI)
    show "\<exists>f0' fs'. ps_fds ?st2 = f0' # fs' @ replicate k2 free_slot \<and> pf_fd f0' = sockfd \<and> pf_events f0'
        \<and> map pf_fd fs' = cl @ [new] \<and> (\<forall>f \<in> set fs'. pf_events f)"
      using t by (intro exI [of _ f0] exI [of _ "fs @ [?f]"]) simp
  qed (use t k2 assms(3,4) in auto)
  ultimately show ?thesis using grown by force
qed

text \<open>A client that has gone is taken out by moving the last one into its place; only its socket is closed.\<close>

lemma disconnection_table:
  assumes "table sockfd cl k st" "i < length cl"
  shows "\<exists>st'. handle_client_disconnection i st = Returns st' \<and> table sockfd (swap_remove i cl) (Suc k) st'
    \<and> ps_in st' = ps_in st \<and> ps_out st' = ps_out st \<and> ps_closed st' = ps_closed st @ [cl ! i]"
proof -
  from assms(1) obtain f0 fs where t: "ps_fds st = f0 # fs @ replicate k free_slot" "pf_fd f0 = sockfd" "pf_events f0"
    "map pf_fd fs = cl" "\<forall>f \<in> set fs. pf_events f" "length fs = length cl"
    "ps_sockets st = cl @ replicate k (- 1)" "ps_count st = length cl" "ps_capacity st = length cl + k"
    "0 < ps_capacity st" "distinct cl" "- 1 \<notin> set cl" by (rule tableE)
  obtain cl' c where cl: "cl = cl' @ [c]" using assms(2) by (cases cl rule: rev_cases) auto
  obtain fs' f where fs: "fs = fs' @ [f]" using assms(2) t(6) by (cases fs rule: rev_cases) auto
  have len: "length fs' = length cl'" using t(6) cl fs by simp
  let ?st' = "st\<lparr>ps_sockets := swap_remove i cl @ replicate (Suc k) (- 1),
    ps_fds := f0 # swap_remove i fs @ replicate (Suc k) free_slot, ps_count := length cl - 1,
    ps_closed := ps_closed st @ [cl ! i]\<rparr>"
  have "handle_client_disconnection i st = Returns ?st'"
  proof (cases "i = length cl'")
    case True
    then show ?thesis
      using t cl fs len
      by (simp add: handle_client_disconnection_def swap_remove_def list_update_append nth_append)
  next
    case False
    with assms(2) cl have i: "i < length cl'" by simp
    then show ?thesis
      using t cl fs len False
      by (simp add: handle_client_disconnection_def swap_remove_def list_update_append nth_append Let_def)
  qed
  moreover have "table sockfd (swap_remove i cl) (Suc k) ?st'"
    unfolding table_def
  proof (intro conjI)
    have "set (swap_remove i fs) \<subseteq> set fs"
      using fs by (auto simp: swap_remove_def dest: in_set_butlastD subsetD [OF set_update_subset_insert])
    then show "\<exists>f0' fs'. ps_fds ?st' = f0' # fs' @ replicate (Suc k) free_slot \<and> pf_fd f0' = sockfd
        \<and> pf_events f0' \<and> map pf_fd fs' = swap_remove i cl \<and> (\<forall>f \<in> set fs'. pf_events f)"
      using t map_swap_remove [of i fs pf_fd] assms(2)
      by (intro exI [of _ f0] exI [of _ "swap_remove i fs"]) auto
    show "- 1 \<notin> set (swap_remove i cl)" using t(11,12) assms(2) by (simp add: set_swap_remove)
  qed (use t assms(2) in \<open>auto simp: length_swap_remove distinct_swap_remove\<close>)
  ultimately show ?thesis by force
qed

section \<open>A round keeps the table\<close>

lemma set_revents_append:
  "set_revents n ready i (fs @ gs) = set_revents n ready i fs @ set_revents n ready (i + length fs) gs"
  by (induction fs arbitrary: i) auto

lemma set_revents_beyond: "n \<le> i \<Longrightarrow> set_revents n ready i fs = fs"
  by (induction fs arbitrary: i) auto

lemma map_fd_set_revents: "map pf_fd (set_revents n ready i fs) = map pf_fd fs"
  by (induction fs arbitrary: i) auto

lemma events_set_revents: "\<forall>f \<in> set fs. pf_events f \<Longrightarrow> \<forall>f \<in> set (set_revents n ready i fs). pf_events f"
  by (induction fs arbitrary: i) auto

lemma poll_revents_table:
  assumes "table sockfd cl k st"
  shows "table sockfd cl k (poll_revents ready st)"
proof -
  from assms obtain f0 fs where t: "ps_fds st = f0 # fs @ replicate k free_slot" "pf_fd f0 = sockfd" "pf_events f0"
    "map pf_fd fs = cl" "\<forall>f \<in> set fs. pf_events f" "length fs = length cl"
    "ps_sockets st = cl @ replicate k (- 1)" "ps_count st = length cl" "ps_capacity st = length cl + k"
    "0 < ps_capacity st" "distinct cl" "- 1 \<notin> set cl" by (rule tableE)
  let ?f0 = "f0\<lparr>pf_revents := ready 0 \<and> pf_events f0\<rparr>"
  let ?fs = "set_revents (length cl + 1) ready 1 fs"
  have "set_revents (ps_count st + 1) ready 0 (ps_fds st) = ?f0 # ?fs @ replicate k free_slot"
    using t by (simp add: set_revents_append set_revents_beyond)
  then show ?thesis
    using t map_fd_set_revents events_set_revents [OF t(5)]
    by (intro tableI [of _ ?f0 ?fs]) (simp_all add: poll_revents_def)
qed

lemma clear_revents_table:
  assumes "table sockfd cl k st" "i \<le> length cl"
  shows "i < length (ps_fds st)"
    and "table sockfd cl k (st\<lparr>ps_fds := (ps_fds st)[i := (ps_fds st ! i)\<lparr>pf_revents := False\<rparr>]\<rparr>)"
proof -
  from assms(1) obtain f0 fs where t: "ps_fds st = f0 # fs @ replicate k free_slot" "pf_fd f0 = sockfd" "pf_events f0"
    "map pf_fd fs = cl" "\<forall>f \<in> set fs. pf_events f" "length fs = length cl"
    "ps_sockets st = cl @ replicate k (- 1)" "ps_count st = length cl" "ps_capacity st = length cl + k"
    "0 < ps_capacity st" "distinct cl" "- 1 \<notin> set cl" by (rule tableE)
  show "i < length (ps_fds st)" using t assms(2) by simp
  show "table sockfd cl k (st\<lparr>ps_fds := (ps_fds st)[i := (ps_fds st ! i)\<lparr>pf_revents := False\<rparr>]\<rparr>)"
  proof (cases i)
    case 0
    with t show ?thesis by (auto simp: table_def)
  next
    case (Suc j)
    with assms(2) t have j: "j < length fs" by simp
    then have fs: "pf_fd (fs ! j) = cl ! j" "pf_events (fs ! j)"
      using t(5) nth_map [of j fs pf_fd] unfolding t(4) by simp_all
    let ?fs = "fs[j := (fs ! j)\<lparr>pf_revents := False\<rparr>]"
    have "map pf_fd ?fs = (map pf_fd fs)[j := cl ! j]" using fs(1) by (simp add: map_update)
    also have "\<dots> = cl" using t(4) by simp
    finally have "map pf_fd ?fs = cl" .
    moreover have "\<forall>f \<in> set ?fs. pf_events f"
      using t(5) fs(2) by (auto dest: subsetD [OF set_update_subset_insert])
    moreover have "(ps_fds st)[i := (ps_fds st ! i)\<lparr>pf_revents := False\<rparr>] = f0 # ?fs @ replicate k free_slot"
      using Suc t j by (simp add: list_update_append nth_append)
    ultimately show ?thesis
      using t by (intro tableI [of _ f0 ?fs]) simp_all
  qed
qed

text \<open>One message: the client stays or is taken out of the table, or the server waits for it.\<close>

definition keeps_table :: "int \<Rightarrow> int list \<Rightarrow> int list \<Rightarrow> pserver result \<Rightarrow> bool" where
  "keeps_table sockfd cl c r \<longleftrightarrow> r = Blocks
     \<or> (\<exists>st cl' k. r = Returns st \<and> table sockfd cl' k st \<and> accounts cl c cl' (ps_closed st))"

lemma disconnection_keeps:
  assumes "table sockfd cl k st" "i < length cl"
  shows "keeps_table sockfd cl (ps_closed st) (handle_client_disconnection i (print_line t (st\<lparr>ps_in := inp\<rparr>)))"
proof -
  have "table sockfd cl k (print_line t (st\<lparr>ps_in := inp\<rparr>))"
    using assms(1) by (simp add: table_frame [of "st\<lparr>ps_in := inp\<rparr>" st])
  moreover have "ps_closed (print_line t (st\<lparr>ps_in := inp\<rparr>)) = ps_closed st" by (simp add: print_line_def)
  ultimately show ?thesis
    using disconnection_table [of sockfd cl k _ i] assms(2) accounts_swap_remove [OF assms(2)] unfolding keeps_table_def
    by metis
qed

lemma poll_message_keeps:
  assumes "table sockfd cl k st" "i < length cl"
  shows "keeps_table sockfd cl (ps_closed st) (poll_message i st)"
proof -
  obtain got e rs where r1: "poll_read_full (ps_in st (ps_sockets st ! i)) 1 = (got, e, rs)"
    by (metis prod_cases3)
  let ?in1 = "(ps_in st)(ps_sockets st ! i := rs)"
  let ?n = "unat (u8_of_byte (hd got))"
  obtain word e' rs' where r2: "poll_read_full (?in1 (ps_sockets st ! i)) ?n = (word, e', rs')"
    by (metis prod_cases3)
  let ?in2 = "?in1(ps_sockets st ! i := rs')"
  note cl = clear_revents_table [of sockfd cl k "st\<lparr>ps_in := ?in2\<rparr>" "Suc i"]
  have "table sockfd cl k (st\<lparr>ps_in := ?in2\<rparr>)" using assms(1) by (subst table_frame [of _ st]) simp_all
  from cl [OF this] assms(2) have
    "arr_set (ps_fds st) (Suc i) ((ps_fds st ! Suc i)\<lparr>pf_revents := False\<rparr>)
      = Returns ((ps_fds st)[Suc i := (ps_fds st ! Suc i)\<lparr>pf_revents := False\<rparr>])"
    "arr_get (ps_fds st) (Suc i) = Returns (ps_fds st ! Suc i)"
    "table sockfd cl k (print_line t (st\<lparr>ps_in := ?in2,
        ps_fds := (ps_fds st)[Suc i := (ps_fds st ! Suc i)\<lparr>pf_revents := False\<rparr>]\<rparr>))" for t
    by simp_all
  moreover have "ps_closed (print_line t (st\<lparr>ps_in := ?in2, ps_fds := fds\<rparr>)) = ps_closed st" for t fds
    by (simp add: print_line_def)
  ultimately have "keeps_table sockfd cl (ps_closed st)
      (bind_result (arr_get (ps_fds st) (i + 1)) (\<lambda>f.
        bind_result (arr_set (ps_fds st) (i + 1) (f\<lparr>pf_revents := False\<rparr>)) (\<lambda>fds.
        Returns (print_line t (st\<lparr>ps_in := ?in2, ps_fds := fds\<rparr>)))))" for t
    unfolding keeps_table_def by fastforce
  with r1 r2 disconnection_keeps [OF assms] show ?thesis
    by (simp add: poll_message_def Let_def) (simp add: keeps_table_def)
qed

lemma keeps_table_Returns:
  "table sockfd cl' k st \<Longrightarrow> accounts cl c cl' (ps_closed st) \<Longrightarrow> keeps_table sockfd cl c (Returns st)"
  unfolding keeps_table_def by blast

lemma keeps_table_case:
  assumes "keeps_table sockfd cl c r"
  shows "case r of Returns st' \<Rightarrow> \<exists>cl' k'. table sockfd cl' k' st' \<and> accounts cl c cl' (ps_closed st')
    | Exits n e \<Rightarrow> Q n | Undef \<Rightarrow> False | Blocks \<Rightarrow> True"
  using assms unfolding keeps_table_def by (auto split: result.splits)

lemma keeps_table_bind:
  assumes "keeps_table sockfd cl c r" "\<And>st cl' k. table sockfd cl' k st \<Longrightarrow> accounts cl c cl' (ps_closed st)
      \<Longrightarrow> keeps_table sockfd cl' (ps_closed st) (f st)"
  shows "keeps_table sockfd cl c (bind_result r f)"
proof (cases "r = Blocks")
  case True
  then show ?thesis by (simp add: keeps_table_def)
next
  case False
  with assms(1) obtain st cl' k where "r = Returns st" "table sockfd cl' k st" "accounts cl c cl' (ps_closed st)"
    unfolding keeps_table_def by blast
  with assms(2) [of cl' k st] show ?thesis unfolding keeps_table_def by (auto intro: accounts_trans)
qed

lemma poll_client_keeps:
  assumes "table sockfd cl k st" "i < length cl"
  shows "keeps_table sockfd cl (ps_closed st) (poll_client i st)"
proof -
  from assms(1) obtain f0 fs where "ps_fds st = f0 # fs @ replicate k free_slot" "length fs = length cl"
    "ps_sockets st = cl @ replicate k (- 1)" by (rule tableE)
  with assms poll_message_keeps [OF assms] show ?thesis
    by (auto simp: poll_client_def intro: keeps_table_Returns)
qed

lemma poll_clients_keeps:
  "table sockfd cl k st \<Longrightarrow> keeps_table sockfd cl (ps_closed st) (poll_clients n i st)"
proof (induction n arbitrary: i cl k st)
  case 0
  then show ?case by (auto intro: keeps_table_Returns)
next
  case (Suc n)
  have count: "ps_count st = length cl" using Suc.prems by (simp add: table_def)
  show ?case
  proof (cases "i < ps_count st")
    case True
    with Suc count have "keeps_table sockfd cl (ps_closed st) (bind_result (poll_client i st) (\<lambda>st'. poll_clients n (i + 1) st'))"
      by (intro keeps_table_bind [OF poll_client_keeps]) auto
    with True show ?thesis by simp
  qed (use Suc.prems in \<open>auto intro: keeps_table_Returns\<close>)
qed

text \<open>More rounds of the loop than there are clients change nothing.\<close>

lemma poll_clients_enough:
  assumes "table sockfd cl k st" "length cl \<le> n + i"
  shows "poll_clients (n + m) i st = poll_clients n i st"
  using assms
proof (induction n arbitrary: i cl k st)
  case 0
  then have "ps_count st \<le> i" by (simp add: table_def)
  then show ?case by (cases m) auto
next
  case (Suc n)
  have count: "ps_count st = length cl" using Suc.prems(1) by (simp add: table_def)
  show ?case
  proof (cases "i < ps_count st")
    case True
    with poll_client_keeps [OF Suc.prems(1)] count have "keeps_table sockfd cl (ps_closed st) (poll_client i st)" by simp
    then consider "poll_client i st = Blocks" | st' cl' k' where "poll_client i st = Returns st'"
      "table sockfd cl' k' st'" "length cl' \<le> length cl" unfolding keeps_table_def using accounts_facts(2) by blast
    then show ?thesis
    proof cases
      case 2
      with Suc.IH [OF 2(2), of "Suc i"] Suc.prems(2) True show ?thesis by simp
    qed (simp add: True)
  qed simp
qed

lemma finish_round_keeps:
  assumes "table sockfd cl k st"
  shows "keeps_table sockfd cl (ps_closed st)
    (bind_result (if ps_count st > 0 then handle_client_data st else Returns st) (\<lambda>st.
      bind_result (arr_get (ps_fds st) 0) (\<lambda>f.
      bind_result (arr_set (ps_fds st) 0 (f\<lparr>pf_revents := False\<rparr>)) (\<lambda>fds.
      Returns (st\<lparr>ps_fds := fds\<rparr>)))))"
proof (rule keeps_table_bind)
  show "keeps_table sockfd cl (ps_closed st) (if ps_count st > 0 then handle_client_data st else Returns st)"
    using assms poll_clients_keeps by (auto simp: handle_client_data_def intro: keeps_table_Returns)
  fix st' cl' k'
  assume t: "table sockfd cl' k' st'"
  from clear_revents_table [OF t, of 0] show "keeps_table sockfd cl' (ps_closed st') (bind_result (arr_get (ps_fds st') 0) (\<lambda>f.
      bind_result (arr_set (ps_fds st') 0 (f\<lparr>pf_revents := False\<rparr>)) (\<lambda>fds. Returns (st'\<lparr>ps_fds := fds\<rparr>))))"
    by (auto intro: keeps_table_Returns)
qed

lemma new_connection_cases:
  assumes "table sockfd cl k st" "new \<notin> set cl"
  shows "(\<exists>st' k'. handle_new_connection r1 r2 new st = Returns st' \<and> ps_closed st' = ps_closed st
      \<and> table sockfd (cl @ (if pf_revents (ps_fds st ! 0) then [new] else [])) k' st')
    \<or> (\<exists>e. handle_new_connection r1 r2 new st = Exits EXIT_FAILURE e \<and> (new = - 1 \<or> \<not> r1 \<or> \<not> r2))"
proof -
  have ne: "ps_fds st \<noteq> []" using assms(1) by (auto simp: table_def)
  consider (idle) "\<not> pf_revents (ps_fds st ! 0)" | (refused) "pf_revents (ps_fds st ! 0)" "new = - 1"
    | (nomem) "pf_revents (ps_fds st ! 0)" "new \<noteq> - 1" "ps_count st = ps_capacity st" "\<not> (r1 \<and> r2)"
    | (accepted) "pf_revents (ps_fds st ! 0)" "new \<noteq> - 1" "ps_count st = ps_capacity st \<longrightarrow> r1 \<and> r2"
    by blast
  then show ?thesis
  proof cases
    case idle
    with ne have "handle_new_connection r1 r2 new st = Returns st" by (simp add: handle_new_connection_def)
    with assms(1) idle show ?thesis by auto
  next
    case refused
    with ne show ?thesis by (simp add: handle_new_connection_def)
  next
    case nomem
    then have "grow_pollfds r1 r2 st = Exits EXIT_FAILURE [Perror ''realloc'']"
      by (auto simp: grow_pollfds_def Let_def)
    with nomem ne show ?thesis by (auto simp: handle_new_connection_def)
  next
    case accepted
    then have "handle_new_connection r1 r2 new st = handle_new_connection True True new st"
      using ne by (auto simp: handle_new_connection_def)
    with new_connection_table [OF assms(1) accepted(1,2) assms(2)] accepted(1) show ?thesis by fastforce
  qed
qed

section \<open>Messages\<close>

lemma poll_message_word:
  assumes "table sockfd cl k st" "i < length cl"
    and "segments (ps_in st (cl ! i))" "stream (ps_in st (cl ! i)) = frame w @ rest" "length w < 256"
  shows "\<exists>st'. poll_message i st = Returns st' \<and> table sockfd cl k st'
    \<and> ps_out st' = ps_out st @ [received_line (cl ! i) w] \<and> ps_closed st' = ps_closed st
    \<and> stream (ps_in st' (cl ! i)) = rest \<and> segments (ps_in st' (cl ! i))
    \<and> (\<forall>sd. sd \<noteq> cl ! i \<longrightarrow> ps_in st' sd = ps_in st sd)"
proof -
  from stream_frame_read [OF assms(3-5)] obtain rs1 rs2 where
    r: "poll_read_full (ps_in st (cl ! i)) 1 = ([byte_of_u8 (word_of_nat (length w))], Full, rs1)"
      "poll_read_full rs1 (length w) = (w, Full, rs2)" "stream rs2 = rest" "segments rs2" by blast
  have sd: "ps_sockets st ! i = cl ! i" using assms(1,2) by (simp add: table_def nth_append)
  have len: "unat (word_of_nat (length w) :: uint8) = length w" using assms(5) by (rule unat_word_of_nat_u8)
  let ?st1 = "st\<lparr>ps_in := (ps_in st)(cl ! i := rs2)\<rparr>"
  have "table sockfd cl k ?st1" using assms(1) by (subst table_frame [of _ st]) simp_all
  note c = clear_revents_table [OF this, of "Suc i"]
  let ?st' = "print_line (received_line (cl ! i) w)
    (?st1\<lparr>ps_fds := (ps_fds st)[Suc i := (ps_fds st ! Suc i)\<lparr>pf_revents := False\<rparr>]\<rparr>)"
  have "poll_message i st = Returns ?st'"
    using r sd len assms(2,5) c(1)
    by (simp add: poll_message_def Let_def poll_min_size_def POLL_MAX_WORD_LEN_def)
  moreover have "table sockfd cl k ?st'" using c(2) assms(2) by simp
  ultimately show ?thesis using r by (intro exI [of _ ?st']) (simp add: print_line_def)
qed

interpretation ps: word_server poll_message "\<lambda>cl st. \<exists>k. table sockfd cl k st" ps_in ps_out received_line
  for sockfd
  using poll_message_word by unfold_locales blast

section \<open>Theorems about the program\<close>

text \<open>One round: the arrays are never accessed outside their bounds, and they list the clients of
  before and the new one, less those that have been closed.\<close>

definition newcomer :: "round \<Rightarrow> int list" where
  "newcomer r = (if rd_revents r 0 then [rd_accept r] else [])"

lemma poll_round_table:
  assumes "table sockfd cl k st" "rd_accept r \<notin> set cl"
  shows "case poll_round r st of
      Returns st' \<Rightarrow> \<exists>cl' k'. table sockfd cl' k' st' \<and> accounts (cl @ newcomer r) (ps_closed st) cl' (ps_closed st')
    | Exits n e \<Rightarrow> n = EXIT_FAILURE \<and> (rd_poll_fails r \<or> rd_accept r = - 1 \<or> \<not> rd_realloc1 r \<or> \<not> rd_realloc2 r)
    | Undef \<Rightarrow> False
    | Blocks \<Rightarrow> True"
proof (cases "rd_poll_fails r")
  case False
  let ?st = "poll_revents (rd_revents r) st"
  have "pf_revents (ps_fds ?st ! 0) = rd_revents r 0" "ps_closed ?st = ps_closed st"
    using assms(1) by (auto simp: table_def poll_revents_def)
  with new_connection_cases [OF poll_revents_table [OF assms(1), of "rd_revents r"] assms(2), of "rd_realloc1 r" "rd_realloc2 r"]
  consider (ok) st' k' where
      "handle_new_connection (rd_realloc1 r) (rd_realloc2 r) (rd_accept r) ?st = Returns st'"
      "table sockfd (cl @ newcomer r) k' st'" "ps_closed st' = ps_closed st"
    | (bad) e where "handle_new_connection (rd_realloc1 r) (rd_realloc2 r) (rd_accept r) ?st = Exits EXIT_FAILURE e"
      "rd_accept r = - 1 \<or> \<not> rd_realloc1 r \<or> \<not> rd_realloc2 r" unfolding newcomer_def by (simp only:) blast
  then show ?thesis
  proof cases
    case ok
    with keeps_table_case [OF finish_round_keeps [OF ok(2), unfolded ok(3)]] False show ?thesis
      by (simp add: poll_round_def)
  qed (use False in \<open>simp add: poll_round_def\<close>)
qed (simp add: poll_round_def)

text \<open>The kernel gives \<^verbatim>\<open>accept\<close> a descriptor that is not in use, which may be 0; a failed call yields \<open>- 1\<close>.\<close>

fun fresh_accepts :: "round list \<Rightarrow> pserver \<Rightarrow> bool" where
  "fresh_accepts [] st = True"
| "fresh_accepts (r # rs) st \<longleftrightarrow>
     - 1 \<le> rd_accept r \<and> rd_accept r \<notin> set (take (ps_count st) (ps_sockets st))
     \<and> (case poll_round r st of Returns st' \<Rightarrow> fresh_accepts rs st' | _ \<Rightarrow> True)"

text \<open>The sockets accepted up to the round in which \<^verbatim>\<open>SIGINT\<close> arrives.\<close>

fun accepted :: "round list \<Rightarrow> int list" where
  "accepted [] = []"
| "accepted (r # rs) = newcomer r @ (if rd_sigint r then [] else accepted rs)"

text \<open>The final loop closes the sockets above 0, unless a \<^verbatim>\<open>close\<close> fails.\<close>

lemma close_clients_cases:
  "case poll_close_clients shut cs st of
      Returns st' \<Rightarrow> ps_closed st' = ps_closed st @ filter (\<lambda>c. 0 < c) cs
    | Exits n e \<Rightarrow> n = EXIT_FAILURE \<and> (\<exists>c. \<not> shut c)
    | Undef \<Rightarrow> False | Blocks \<Rightarrow> False"
proof (induction cs arbitrary: st)
  case (Cons c cs)
  let ?st1 = "print_line (''Socket closed.'' @ [NL]) (st\<lparr>ps_closed := ps_closed st @ [c]\<rparr>)"
  have "ps_closed ?st1 = ps_closed st @ [c]" by (simp add: print_line_def)
  with Cons.IH [of ?st1] Cons.IH [of st] show ?case
    by (auto simp: poll_socket_close_def split: result.splits)
qed simp

lemma cleanup_cases:
  assumes "table sockfd cl k st"
  shows "case poll_cleanup shut sockfd st of
      Returns st' \<Rightarrow> ps_closed st' = ps_closed st @ filter (\<lambda>c. 0 < c) cl @ [sockfd]
        \<and> last (ps_out st') = ''Server exited successfully.'' @ [NL]
    | Exits n e \<Rightarrow> n = EXIT_FAILURE \<and> (\<exists>c. \<not> shut c)
    | Undef \<Rightarrow> False | Blocks \<Rightarrow> False"
proof -
  have "take (ps_count st) (ps_sockets st) = cl" using assms(1) by (simp add: table_def)
  with close_clients_cases [where shut = shut and cs = cl and st = st] show ?thesis
    by (auto simp: poll_cleanup_def poll_socket_close_def print_line_def split: result.splits)
qed

text \<open>Of distinct descriptors that are not negative, all but the descriptor 0 are above 0.\<close>

lemma above_zero:
  assumes "distinct cs" "\<forall>c \<in> set cs. - 1 < (c :: int)"
  shows "mset cs = mset (filter (\<lambda>c. 0 < c) cs) + (if 0 \<in> set cs then {#0#} else {#})"
  using assms
proof (induction cs)
  case (Cons c cs)
  then show ?case by (cases "c = 0") (auto simp: ac_simps)
qed simp

definition left_open :: "int list \<Rightarrow> int multiset \<Rightarrow> bool" where
  "left_open cs L \<longleftrightarrow> L = {#} \<or> L = {#0#} \<and> 0 \<in> set cs"

lemma poll_server_closes:
  assumes "table sockfd cl k st" "\<forall>c \<in> set cl. - 1 < c" "fresh_accepts rs st"
  shows "case poll_server shut sockfd False rs st of
      Returns st' \<Rightarrow> \<exists>L. left_open (cl @ accepted rs) L
        \<and> mset (ps_closed st') + L = mset (ps_closed st) + mset cl + mset (accepted rs) + {#sockfd#}
    | Exits n e \<Rightarrow> n = EXIT_FAILURE | Undef \<Rightarrow> False | Blocks \<Rightarrow> True"
  using assms
proof (induction rs arbitrary: st cl k)
  case (Cons r rs)
  have fresh: "rd_accept r \<notin> set cl" "- 1 \<le> rd_accept r"
    using Cons.prems by (auto simp: table_def)
  show ?case
  proof (cases "poll_round r st")
    case (Returns st')
    with poll_round_table [OF Cons.prems(1) fresh(1)] obtain cl' k' where
      t: "table sockfd cl' k' st'" "accounts (cl @ newcomer r) (ps_closed st) cl' (ps_closed st')" by auto
    note f = accounts_facts [OF t(2)]
    have pos: "\<forall>c \<in> set cl'. - 1 < c"
    proof
      fix c
      assume c: "c \<in> set cl'"
      then have "c \<noteq> - 1" using t(1) by (auto simp: table_def)
      moreover have "- 1 \<le> c" using f(1) c Cons.prems(2) fresh(2) by (force simp: newcomer_def split: if_splits)
      ultimately show "- 1 < c" by simp
    qed
    show ?thesis
    proof (cases "rd_sigint r")
      case True
      define L where "L = (if 0 \<in> set cl' then {#0 :: int#} else {#})"
      have "distinct cl'" using t(1) by (simp add: table_def)
      from above_zero [OF this pos] have split: "mset (filter (\<lambda>c. 0 < c) cl') + L = mset cl'" by (simp add: L_def)
      have left: "left_open (cl @ accepted (r # rs)) L"
        using f(1) True by (auto simp: left_open_def L_def)
      have server: "poll_server shut sockfd False (r # rs) st = poll_cleanup shut sockfd st'"
        using Returns True by (simp add: poll_server.simps)
      consider (good) st'' where "poll_cleanup shut sockfd st' = Returns st''"
          "ps_closed st'' = ps_closed st' @ filter (\<lambda>c. 0 < c) cl' @ [sockfd]"
        | (bad) e where "poll_cleanup shut sockfd st' = Exits EXIT_FAILURE e"
        using cleanup_cases [OF t(1), where shut = shut] by (cases "poll_cleanup shut sockfd st'") auto
      then show ?thesis
      proof cases
        case good
        have "mset (ps_closed st'') + L = mset (ps_closed st') + (mset (filter (\<lambda>c. 0 < c) cl') + L) + {#sockfd#}"
          unfolding good(2) by simp
        also have "\<dots> = mset (ps_closed st) + mset cl + mset (accepted (r # rs)) + {#sockfd#}"
          unfolding split using f(3) True by simp
        finally show ?thesis unfolding server good(1) using left by auto
      qed (simp add: server)
    next
      case False
      have sub: "left_open (cl @ accepted (r # rs)) L" if "left_open (cl' @ accepted rs) L" for L
        using that f(1) False by (auto simp: left_open_def)
      have sum: "mset (ps_closed st') + mset cl' + mset (accepted rs) + {#sockfd#}
          = mset (ps_closed st) + mset cl + mset (accepted (r # rs)) + {#sockfd#}"
        using f(3) False by simp
      from Cons.IH [OF t(1) pos] Cons.prems(3) Returns sub show ?thesis
        unfolding sum by (auto simp: poll_server.simps [of shut sockfd False "r # rs"] False split: result.splits)
    qed
  qed (use poll_round_table [OF Cons.prems(1) fresh(1)] in \<open>simp_all add: poll_server.simps [of shut sockfd False]\<close>)
qed (simp add: poll_server.simps)

text \<open>C9. A whole run of the server, whatever the clients send, in whatever pieces, and whatever calls
  fail: no array is ever accessed outside its bounds, and when \<^verbatim>\<open>main\<close> returns, every accepted
  socket and the listening socket have been closed exactly once and nothing else has. The one exception is a client
  whose socket is the descriptor 0: if it is connected when the server ends, its socket is left open. The answers of
  \<^verbatim>\<open>accept\<close> are descriptors that no connected client has.\<close>

theorem poll_main_closes_all:
  assumes "\<And>st. initialize_pollfds m1 m2 sockfd inp = Returns st \<Longrightarrow> fresh_accepts rs (poll_started st)"
  shows "case poll_main sockfd bound listening m1 m2 shut inp rs of
      Returns st' \<Rightarrow> mset (ps_closed st') = mset (sockfd # accepted rs)
        \<or> 0 \<in> set (accepted rs) \<and> mset (ps_closed st') + {#0#} = mset (sockfd # accepted rs)
    | Exits n e \<Rightarrow> n = EXIT_FAILURE
    | Undef \<Rightarrow> False
    | Blocks \<Rightarrow> True"
proof (cases "sockfd \<noteq> - 1 \<and> bound \<and> listening \<and> m1 \<and> m2")
  case True
  then obtain st where st: "initialize_pollfds m1 m2 sockfd inp = Returns st" "table sockfd [] 4 st" "ps_closed st = []"
    by (auto simp: initialize_pollfds_def table_def)
  have "table sockfd [] 4 (poll_started st)" "ps_closed (poll_started st) = []"
    using st(2,3) table_frame [of "poll_started st" st] by (simp_all add: poll_started_def)
  with poll_server_closes [of sockfd "[]" 4 "poll_started st" rs shut] assms(1) [OF st(1)] True st(1)
  show ?thesis by (auto simp: poll_main_def left_open_def split: result.splits)
qed (auto simp: poll_main_def initialize_pollfds_def)

text \<open>A server with one client, for the instances below.\<close>

definition one_client :: "rd list \<Rightarrow> pserver" where
  "one_client rs =
     \<lparr>ps_sockets = [5, - 1, - 1, - 1],
      ps_fds = [\<lparr>pf_fd = 3, pf_events = True, pf_revents = False\<rparr>, \<lparr>pf_fd = 5, pf_events = True, pf_revents = True\<rparr>,
        free_slot, free_slot, free_slot],
      ps_count = 1, ps_capacity = 4, ps_in = (\<lambda>_. []) (5 := rs), ps_out = [], ps_closed = []\<rparr>"

lemma one_client_table: "table 3 [5] 3 (one_client rs)"
  by (rule tableI [of _ "\<lparr>pf_fd = 3, pf_events = True, pf_revents = False\<rparr>"
        "[\<lparr>pf_fd = 5, pf_events = True, pf_revents = True\<rparr>]"])
    (simp_all add: one_client_def numeral_eq_Suc)

definition quiet_round :: round where
  "quiet_round = \<lparr>rd_poll_fails = False, rd_revents = (\<lambda>_. False), rd_accept = - 1, rd_realloc1 = True,
     rd_realloc2 = True, rd_sigint = False\<rparr>"

text \<open>A client connects as 5 and sends a word, a second one as 6, the first one leaves, \<^verbatim>\<open>SIGINT\<close>.\<close>

definition sample_rounds :: "round list" where
  "sample_rounds =
     [quiet_round\<lparr>rd_revents := (\<lambda>i. i = 0), rd_accept := 5\<rparr>,
      quiet_round\<lparr>rd_revents := (\<lambda>i. True), rd_accept := 6\<rparr>,
      quiet_round\<lparr>rd_revents := (\<lambda>i. i = 1), rd_sigint := True\<rparr>]"

definition sample_input :: "int \<Rightarrow> rd list" where
  "sample_input = (\<lambda>_. []) (5 := [Rd [CHR 0x02, CHR ''a''], Rd ''b'', Rd_eof])"

lemma poll_main_closes_all_witness:
  "case poll_main 3 True True True True (\<lambda>_. True) sample_input sample_rounds of
      Returns st' \<Rightarrow> mset (ps_closed st') = {#3, 5, 6#}
    | Exits n e \<Rightarrow> n = EXIT_FAILURE | Undef \<Rightarrow> False | Blocks \<Rightarrow> True"
proof -
  have "fresh_accepts sample_rounds (poll_started st)" if "initialize_pollfds True True 3 sample_input = Returns st" for st
  proof -
    have "(case initialize_pollfds True True 3 sample_input of Returns st \<Rightarrow> fresh_accepts sample_rounds (poll_started st)
        | _ \<Rightarrow> False)" by code_simp
    with that show ?thesis by simp
  qed
  moreover have "accepted sample_rounds = [5, 6]" by code_simp
  ultimately show ?thesis
    using poll_main_closes_all [of True True 3 sample_input sample_rounds True True "\<lambda>_. True"]
    by (simp split: result.splits)
qed

text \<open>A server without standard input may accept a client as 0: it is not closed at the end.\<close>

lemma poll_leaves_zero_open:
  "case poll_main 3 True True True True (\<lambda>_. True) (\<lambda>_. [])
      [quiet_round\<lparr>rd_revents := (\<lambda>i. i = 0), rd_accept := 0, rd_sigint := True\<rparr>] of
      Returns st' \<Rightarrow> ps_closed st' = [3]
    | _ \<Rightarrow> False"
  by code_simp

text \<open>A client that announces a word and then falls silent stops the whole server: the round does not
  end, whatever the other clients have sent.\<close>

theorem poll_silent_client_blocks:
  assumes "table sockfd cl k st" "0 < length cl" "pf_revents (ps_fds st ! 1)"
    and "segments (ps_in st (cl ! 0))" "stream (ps_in st (cl ! 0)) = byte_of_u8 n # bs" "length bs < unat n"
    and "Rd_eof \<notin> set (ps_in st (cl ! 0))" "Rd_err \<notin> set (ps_in st (cl ! 0))"
  shows "handle_client_data st = Blocks"
proof -
  let ?rs = "ps_in st (cl ! 0)"
  from read_full_complete [OF assms(4), of 1] assms(5) obtain rs1 where
    r1: "poll_read_full ?rs 1 = ([byte_of_u8 n], Full, rs1)" "stream rs1 = bs" "segments rs1" by auto
  have "Rd_eof \<notin> set rs1 \<and> Rd_err \<notin> set rs1"
    using read_full_silent [OF r1(1)] assms(7,8) by blast
  then have "fst (snd (poll_read_full rs1 (unat n))) = Stuck"
    using read_full_stuck [OF r1(3)] r1(2) assms(6) by simp
  moreover have "cl ! 0 \<noteq> - 1" using assms(1,2) unfolding table_def by (metis nth_mem)
  moreover have "ps_sockets st ! 0 = cl ! 0" "ps_sockets st \<noteq> []" "1 < length (ps_fds st)" "ps_count st = length cl"
    using assms(1,2) by (auto simp: table_def nth_append)
  ultimately show ?thesis
    using r1 assms(2,3) unat_u8_less [of n]
    by (cases cl)
      (auto simp: handle_client_data_def poll_client_def poll_message_def Let_def poll_min_size_def
        POLL_MAX_WORD_LEN_def split: prod.splits)
qed

lemma poll_silent_client_blocks_witness: "handle_client_data (one_client [Rd [CHR 0x05, CHR ''a'']]) = Blocks"
proof -
  have "byte_of_u8 5 = CHR 0x05" by code_simp
  with poll_silent_client_blocks [OF one_client_table, of "[Rd [CHR 0x05, CHR ''a'']]" 5 "''a''"] show ?thesis
    by (simp add: one_client_def)
qed

text \<open>What \<^verbatim>\<open>SIGINT\<close> does depends on where it arrives. During the rest of a round it ends the loop as
  meant: exactly the clients connected after the round are closed, then the listening socket, and the
  server reports success. While the server waits in \<^verbatim>\<open>poll\<close> the interrupted call counts as an error: the
  process leaves with \<^verbatim>\<open>EXIT_FAILURE\<close> and the final part of \<^verbatim>\<open>main\<close> is not reached.\<close>

theorem poll_sigint:
  assumes "table sockfd cl k st" "rd_sigint r" "\<forall>fd. shut fd"
  shows "if rd_poll_fails r then poll_server shut sockfd False (r # rs) st = Exits EXIT_FAILURE [Perror ''Poll error'']
    else (\<forall>st' cl' k'. poll_round r st = Returns st' \<and> table sockfd cl' k' st' \<and> (\<forall>c \<in> set cl'. 0 < c)
      \<longrightarrow> (\<exists>st''. poll_server shut sockfd False (r # rs) st = Returns st'' \<and> ps_closed st'' = ps_closed st' @ cl' @ [sockfd]
          \<and> last (ps_out st'') = ''Server exited successfully.'' @ [NL]))"
proof (cases "rd_poll_fails r")
  case False
  have "\<exists>st''. poll_server shut sockfd False (r # rs) st = Returns st'' \<and> ps_closed st'' = ps_closed st' @ cl' @ [sockfd]
      \<and> last (ps_out st'') = ''Server exited successfully.'' @ [NL]"
    if "poll_round r st = Returns st'" "table sockfd cl' k' st'" "\<forall>c \<in> set cl'. 0 < c" for st' cl' k'
  proof -
    have "filter (\<lambda>c. 0 < c) cl' = cl'" using that(3) by (simp add: filter_id_conv)
    with cleanup_cases [OF that(2), where shut = shut] that(1) assms(2,3) show ?thesis
      by (auto simp: poll_server.simps split: result.splits)
  qed
  then show ?thesis unfolding if_not_P [OF False] by blast
qed (simp add: poll_server.simps poll_round_def)

lemma poll_sigint_witness:
  "poll_server (\<lambda>_. True) 3 False [quiet_round\<lparr>rd_poll_fails := True, rd_sigint := True\<rparr>] (one_client [])
     = Exits EXIT_FAILURE [Perror ''Poll error'']"
  using poll_sigint [OF one_client_table, of "quiet_round\<lparr>rd_poll_fails := True, rd_sigint := True\<rparr>" "\<lambda>_. True" "[]" "[]"]
  by (simp add: quiet_round_def)

end
