(* ===== verification/Mux_Select.thy ===== *)
theory Mux_Select
  imports Mux_Stream
begin

text \<open>
  \<^verbatim>\<open>src/io-multiplexing/select/main.c\<close>: the same service with \<^verbatim>\<open>select\<close> and a single
  array of clients. The theory shows that the array stays consistent, that every descriptor
  handed to the \<^verbatim>\<open>FD_\<close> macros is in range, that the words of a client are printed as
  sent, and that \<^verbatim>\<open>SIGINT\<close> ends the server in an orderly way.
\<close>

section \<open>State\<close>

text \<open>The variables of \<^verbatim>\<open>main\<close>, what the clients have sent (by socket), the lines printed on
  either standard stream and the sockets closed.\<close>

record sserver =
  ss_sockets :: "int list"
  ss_count :: nat
  ss_capacity :: nat
  ss_in :: "int \<Rightarrow> rd list"
  ss_out :: "string list"
  ss_closed :: "int list"

definition FD_SETSIZE :: int where "FD_SETSIZE = 1024"

definition SELECT_MAX_WORD_LEN :: nat where "SELECT_MAX_WORD_LEN = 256"

definition PROTOCOL_MAX_PAYLOAD_LEN :: nat where "PROTOCOL_MAX_PAYLOAD_LEN = 255"

definition select_min_size :: "nat \<Rightarrow> nat \<Rightarrow> nat" where
  "select_min_size a b = (if a < b then a else b)"

definition fd_in_select_range :: "int \<Rightarrow> bool" where
  "fd_in_select_range fd \<longleftrightarrow> fd \<ge> 0 \<and> fd < FD_SETSIZE"

text \<open>An \<^verbatim>\<open>fd_set\<close> is a list of descriptors; outside the range the macros are undefined.\<close>

definition FD_SET :: "int \<Rightarrow> int list \<Rightarrow> int list result" where
  "FD_SET fd fds = (if fd_in_select_range fd then Returns (fd # fds) else Undef)"

definition FD_ISSET :: "int \<Rightarrow> int list \<Rightarrow> bool result" where
  "FD_ISSET fd fds = (if fd_in_select_range fd then Returns (fd \<in> set fds) else Undef)"

definition fd_set_safe :: "int \<Rightarrow> int list \<Rightarrow> int list result" where
  "fd_set_safe fd fds = (if \<not> fd_in_select_range fd then Returns fds else FD_SET fd fds)"

definition fd_isset_safe :: "int \<Rightarrow> int list \<Rightarrow> bool result" where
  "fd_isset_safe fd fds = (if \<not> fd_in_select_range fd then Returns False else FD_ISSET fd fds)"

definition say :: "string \<Rightarrow> sserver \<Rightarrow> sserver" where
  "say t st = st\<lparr>ss_out := ss_out st @ [t]\<rparr>"

section \<open>The functions\<close>

text \<open>\<open>junk\<close> is what \<^verbatim>\<open>realloc\<close> leaves in the new part of the array.\<close>

definition grow_clients :: "bool \<Rightarrow> int \<Rightarrow> sserver \<Rightarrow> sserver result" where
  "grow_clients realloc junk st =
     (let new_cap = (if ss_capacity st = 0 then 4 else ss_capacity st * 2)
      in if \<not> realloc then Exits EXIT_FAILURE [Perror ''realloc'']
         else Returns (st\<lparr>ss_sockets := take (ss_capacity st) (ss_sockets st) @ replicate (new_cap - ss_capacity st) junk,
                ss_capacity := new_cap\<rparr>))"

definition remove_client :: "nat \<Rightarrow> sserver \<Rightarrow> sserver result" where
  "remove_client idx st =
     (if ss_count st = 0 then Undef
      else let last = ss_count st - 1
           in bind_result
                (if idx \<noteq> last
                 then bind_result (arr_get (ss_sockets st) last) (\<lambda>s. arr_set (ss_sockets st) idx s)
                 else Returns (ss_sockets st)) (\<lambda>cs.
              Returns (st\<lparr>ss_sockets := cs, ss_count := ss_count st - 1\<rparr>)))"

text \<open>\<^verbatim>\<open>(void)close(sd); remove_client(client_sockets, &client_count, i);\<close>\<close>

definition drop_client :: "int \<Rightarrow> nat \<Rightarrow> sserver \<Rightarrow> sserver result" where
  "drop_client sd i st = remove_client i (st\<lparr>ss_closed := ss_closed st @ [sd]\<rparr>)"

definition range_line :: "int \<Rightarrow> string" where
  "range_line sd = ''Client fd '' @ dec_int sd @ '' is out of range for select(); disconnecting'' @ [NL]"

text \<open>The loop that fills \<^verbatim>\<open>readfds\<close> and computes \<^verbatim>\<open>max_fd\<close>. A client that is removed
  is replaced by the last one, which is looked at next (\<^verbatim>\<open>i--\<close>); each round takes one client
  out or goes one further, so as many rounds as there are clients are enough.\<close>

fun fill_readfds :: "nat \<Rightarrow> nat \<Rightarrow> int list \<Rightarrow> int \<Rightarrow> sserver \<Rightarrow> (int list \<times> int \<times> sserver) result" where
  "fill_readfds 0 i fds max_fd st = Returns (fds, max_fd, st)"
| "fill_readfds (Suc n) i fds max_fd st =
     (if i < ss_count st
      then bind_result (arr_get (ss_sockets st) i) (\<lambda>sd.
        if sd < 0 then fill_readfds n (i + 1) fds max_fd st
        else if sd \<ge> FD_SETSIZE
        then bind_result (drop_client sd i (say (range_line sd) st)) (\<lambda>st'. fill_readfds n i fds max_fd st')
        else bind_result (fd_set_safe sd fds) (\<lambda>fds'.
          fill_readfds n (i + 1) fds' (if sd > max_fd then sd else max_fd) st))
      else Returns (fds, max_fd, st))"

definition established_line :: "int \<Rightarrow> string" where
  "established_line fd = ''New connection established (fd='' @ dec_int fd @ '')'' @ [NL]"

definition accepted_line :: "int \<Rightarrow> string" where
  "accepted_line fd = ''Accepted client fd '' @ dec_int fd @ '' out of range for select(); closing'' @ [NL]"

text \<open>The part of the loop for a new connection.\<close>

definition accept_client :: "bool \<Rightarrow> int \<Rightarrow> int \<Rightarrow> sserver \<Rightarrow> sserver result" where
  "accept_client realloc junk new_socket st =
     (if new_socket = - 1 then Exits EXIT_FAILURE [Perror ''Accept error'']
      else if new_socket \<ge> FD_SETSIZE
      then Returns (say (accepted_line new_socket) (st\<lparr>ss_closed := ss_closed st @ [new_socket]\<rparr>))
      else bind_result (if ss_count st = ss_capacity st then grow_clients realloc junk st else Returns st) (\<lambda>st.
        bind_result (arr_set (ss_sockets st) (ss_count st) new_socket) (\<lambda>cs.
        Returns (say (established_line new_socket) (st\<lparr>ss_sockets := cs, ss_count := ss_count st + 1\<rparr>)))))"

definition sel_disconnected_line :: "int \<Rightarrow> string" where
  "sel_disconnected_line fd = ''Client '' @ dec_int fd @ '' disconnected'' @ [NL]"

definition sel_oversize_line :: "int \<Rightarrow> nat \<Rightarrow> string" where
  "sel_oversize_line fd n = ''Client '' @ dec_int fd @ '' sent oversize word length ('' @ dec_nat n @ '')'' @ [NL]"

definition sel_received_line :: "int \<Rightarrow> string \<Rightarrow> string" where
  "sel_received_line fd w = ''Received word from client '' @ dec_int fd @ '': '' @ c_str (w @ [NUL]) @ [NL]"

text \<open>One message of a ready client. The flag says whether the client has been removed
  (\<^verbatim>\<open>i--; continue\<close>).\<close>

definition select_message :: "int \<Rightarrow> nat \<Rightarrow> sserver \<Rightarrow> (bool \<times> sserver) result" where
  "select_message sd i st =
     (case select_read_full (ss_in st sd) 1 of (got, e, rs) \<Rightarrow>
        let st = st\<lparr>ss_in := (ss_in st)(sd := rs)\<rparr>
        in if e = Stuck then Blocks
           else if return_code e \<le> 0
           then bind_result (drop_client sd i (say (sel_disconnected_line sd) st)) (\<lambda>st. Returns (True, st))
           else let word_length = unat (u8_of_byte (hd got));
                    max_payload = select_min_size (SELECT_MAX_WORD_LEN - 1) PROTOCOL_MAX_PAYLOAD_LEN
                in if word_length > max_payload
                   then bind_result (drop_client sd i (say (sel_oversize_line sd word_length) st)) (\<lambda>st. Returns (True, st))
                   else case select_read_full (ss_in st sd) word_length of (word, e, rs) \<Rightarrow>
                          let st = st\<lparr>ss_in := (ss_in st)(sd := rs)\<rparr>
                          in if e = Stuck then Blocks
                             else if return_code e \<le> 0
                             then bind_result (drop_client sd i (say (sel_disconnected_line sd) st)) (\<lambda>st. Returns (True, st))
                             else Returns (False, say (sel_received_line sd word) st))"

text \<open>The loop over the clients; again one round per client is enough.\<close>

fun client_io :: "nat \<Rightarrow> nat \<Rightarrow> int list \<Rightarrow> sserver \<Rightarrow> sserver result" where
  "client_io 0 i readfds st = Returns st"
| "client_io (Suc n) i readfds st =
     (if i < ss_count st
      then bind_result (arr_get (ss_sockets st) i) (\<lambda>sd.
        if \<not> fd_in_select_range sd then client_io n (i + 1) readfds st
        else bind_result (fd_isset_safe sd readfds) (\<lambda>isset.
          if isset
          then bind_result (select_message sd i st) (\<lambda>(removed, st').
            client_io n (if removed then i else i + 1) readfds st')
          else client_io n (i + 1) readfds st))
      else Returns st)"

section \<open>The main loop\<close>

text \<open>How \<^verbatim>\<open>select\<close> returns: with the descriptors that are ready, interrupted, or with another error.\<close>

datatype sel = Ready "int \<Rightarrow> bool" | Interrupted | Select_fails

record sround =
  sr_select :: sel
  sr_accept :: int
  sr_realloc :: bool
  sr_junk :: int
  sr_sigint :: bool

definition select_round :: "int \<Rightarrow> sround \<Rightarrow> sserver \<Rightarrow> sserver result" where
  "select_round sockfd r st =
     bind_result (fd_set_safe sockfd []) (\<lambda>fds.
     bind_result (fill_readfds (ss_count st) 0 fds sockfd st) (\<lambda>(fds, max_fd, st).
       case sr_select r of
         Interrupted \<Rightarrow> Returns st
       | Select_fails \<Rightarrow> Exits EXIT_FAILURE [Perror ''Select error'']
       | Ready ready \<Rightarrow>
           let readfds = filter ready fds
           in bind_result (fd_isset_safe sockfd readfds) (\<lambda>isset.
              bind_result (if isset then accept_client (sr_realloc r) (sr_junk r) (sr_accept r) st else Returns st) (\<lambda>st.
              client_io (ss_count st) 0 readfds st))))"

text \<open>The rest of \<^verbatim>\<open>main\<close>: the sockets of the clients are closed, then the server's; \<open>shut\<close> says
  for which sockets \<^verbatim>\<open>close\<close> succeeds.\<close>

definition select_socket_close :: "(int \<Rightarrow> bool) \<Rightarrow> int \<Rightarrow> sserver \<Rightarrow> sserver result" where
  "select_socket_close shut sockfd st =
     (if \<not> shut sockfd then Exits EXIT_FAILURE [Perror ''Error closing socket'']
      else Returns (st\<lparr>ss_closed := ss_closed st @ [sockfd]\<rparr>))"

fun select_close_clients :: "(int \<Rightarrow> bool) \<Rightarrow> int list \<Rightarrow> sserver \<Rightarrow> sserver result" where
  "select_close_clients shut [] st = Returns st"
| "select_close_clients shut (c # cs) st =
     bind_result (if c \<ge> 0 then select_socket_close shut c st else Returns st) (select_close_clients shut cs)"

definition select_cleanup :: "(int \<Rightarrow> bool) \<Rightarrow> int \<Rightarrow> sserver \<Rightarrow> sserver result" where
  "select_cleanup shut sockfd st =
     bind_result (select_close_clients shut (take (ss_count st) (ss_sockets st)) st) (\<lambda>st.
     bind_result (select_socket_close shut sockfd st) (\<lambda>st.
     Returns (say (''Server exited successfully.'' @ [NL]) st)))"

fun select_server :: "(int \<Rightarrow> bool) \<Rightarrow> int \<Rightarrow> bool \<Rightarrow> sround list \<Rightarrow> sserver \<Rightarrow> sserver result" where
  "select_server shut sockfd exit_flag rs st =
     (if exit_flag then select_cleanup shut sockfd st
      else case rs of
             [] \<Rightarrow> Blocks
           | r # rs' \<Rightarrow> bind_result (select_round sockfd r st) (\<lambda>st'. select_server shut sockfd (sr_sigint r) rs' st'))"

text \<open>\<^verbatim>\<open>main\<close>: \<open>sockfd\<close>, \<open>bound\<close> and \<open>listening\<close> are what \<^verbatim>\<open>socket\<close>,
  \<^verbatim>\<open>bind\<close> and \<^verbatim>\<open>listen\<close> return; a socket out of range for \<^verbatim>\<open>select\<close> is refused.\<close>

definition select_start :: "(int \<Rightarrow> rd list) \<Rightarrow> sserver" where
  "select_start inp = \<lparr>ss_sockets = [], ss_count = 0, ss_capacity = 0, ss_in = inp,
     ss_out = [''Bound to domain socket: /tmp/example_socket'' @ [NL],
       ''Server listening for incoming connections...'' @ [NL]], ss_closed = []\<rparr>"

definition out_of_range_line :: "int \<Rightarrow> string" where
  "out_of_range_line sockfd = ''Server socket fd '' @ dec_int sockfd
     @ '' is out of range for select() (FD_SETSIZE='' @ dec_int FD_SETSIZE @ '')'' @ [NL]"

text \<open>\<^verbatim>\<open>socket_close\<close> on the way out of a failed start, then \<^verbatim>\<open>exit(EXIT_FAILURE)\<close>.\<close>

definition close_and_exit :: "(int \<Rightarrow> bool) \<Rightarrow> int \<Rightarrow> err_item list \<Rightarrow> sserver result" where
  "close_and_exit shut sockfd e =
     Exits EXIT_FAILURE (e @ (if shut sockfd then [] else [Perror ''Error closing socket'']))"

definition select_main ::
  "int \<Rightarrow> bool \<Rightarrow> bool \<Rightarrow> (int \<Rightarrow> bool) \<Rightarrow> (int \<Rightarrow> rd list) \<Rightarrow> sround list \<Rightarrow> sserver result" where
  "select_main sockfd bound listening shut inp rs =
     (if sockfd = - 1 then Exits EXIT_FAILURE [Perror ''Socket creation failed'', Perror ''socket'']
      else if \<not> bound then close_and_exit shut sockfd [Perror ''bind error'']
      else if \<not> listening then close_and_exit shut sockfd [Perror ''Listen error'']
      else if sockfd < 0 \<or> sockfd \<ge> FD_SETSIZE
      then (if sockfd \<ge> 0 then close_and_exit shut sockfd [Text (out_of_range_line sockfd)]
            else Exits EXIT_FAILURE [Text (out_of_range_line sockfd)])
      else select_server shut sockfd False rs (select_start inp))"

declare select_server.simps [simp del]

section \<open>The invariant\<close>

definition clients :: "int list \<Rightarrow> sserver \<Rightarrow> bool" where
  "clients cl st \<longleftrightarrow> (\<exists>junk. ss_sockets st = cl @ junk \<and> ss_capacity st = length cl + length junk)
     \<and> ss_count st = length cl \<and> distinct cl \<and> (\<forall>s \<in> set cl. fd_in_select_range s)"

lemma clients_frame:
  "ss_sockets st' = ss_sockets st \<Longrightarrow> ss_count st' = ss_count st \<Longrightarrow> ss_capacity st' = ss_capacity st
    \<Longrightarrow> clients cl st' = clients cl st"
  by (simp add: clients_def)

lemma clients_say [simp]: "clients cl (say t st) = clients cl st"
  by (rule clients_frame) (simp_all add: say_def)

lemma remove_client_swap:
  assumes "clients cl st" "i < length cl"
  shows "\<exists>st'. drop_client sd i st = Returns st' \<and> clients (swap_remove i cl) st'
    \<and> ss_in st' = ss_in st \<and> ss_out st' = ss_out st \<and> ss_closed st' = ss_closed st @ [sd]"
proof -
  from assms(1) obtain junk where t: "ss_sockets st = cl @ junk" "ss_capacity st = length cl + length junk"
    "ss_count st = length cl" "distinct cl" "\<forall>s \<in> set cl. fd_in_select_range s" by (auto simp: clients_def)
  obtain cl' c where cl: "cl = cl' @ [c]" using assms(2) by (cases cl rule: rev_cases) auto
  let ?st' = "st\<lparr>ss_sockets := swap_remove i cl @ c # junk, ss_count := length cl',
    ss_closed := ss_closed st @ [sd]\<rparr>"
  have "drop_client sd i st = Returns ?st'"
    using t cl assms(2)
    by (auto simp: drop_client_def remove_client_def swap_remove_def list_update_append nth_append Let_def)
  moreover have "clients (swap_remove i cl) ?st'"
    using t cl assms(2) set_swap_remove [OF assms(2) t(4)] distinct_swap_remove [OF assms(2) t(4)]
      length_swap_remove [OF assms(2)]
    by (auto simp: clients_def)
  ultimately show ?thesis by force
qed

text \<open>Every client is in range, so none is dropped while \<^verbatim>\<open>readfds\<close> is filled.\<close>

lemma fill_readfds_clients:
  assumes "clients cl st" "i \<le> length cl" "length cl - i \<le> n"
  shows "\<exists>m. fill_readfds n i fds max_fd st = Returns (rev (drop i cl) @ fds, m, st)"
  using assms(2,3)
proof (induction n arbitrary: i fds max_fd)
  case 0
  then show ?case using assms(1) by simp
next
  case (Suc n)
  from assms(1) obtain junk where t: "ss_sockets st = cl @ junk" "ss_count st = length cl"
    "\<forall>s \<in> set cl. fd_in_select_range s" by (auto simp: clients_def)
  show ?case
  proof (cases "i < length cl")
    case True
    then have r: "fd_in_select_range (cl ! i)" using t(3) by simp
    then have "\<not> cl ! i < 0" "\<not> FD_SETSIZE \<le> cl ! i" by (auto simp: fd_in_select_range_def)
    moreover from True have "drop i cl = cl ! i # drop (Suc i) cl" by (simp add: Cons_nth_drop_Suc)
    ultimately show ?thesis
      using Suc.IH [of "Suc i" "cl ! i # fds"] Suc.prems True t r
      by (auto simp: nth_append fd_set_safe_def FD_SET_def)
  qed (use t(2) Suc.prems in auto)
qed

definition keeps_clients :: "int list \<Rightarrow> int list \<Rightarrow> sserver result \<Rightarrow> bool" where
  "keeps_clients cl c r \<longleftrightarrow> r = Blocks
     \<or> (\<exists>st cl'. r = Returns st \<and> clients cl' st \<and> accounts cl c cl' (ss_closed st))"

lemma clients_in [simp]: "clients cl (st\<lparr>ss_in := f\<rparr>) = clients cl st"
  by (rule clients_frame) simp_all

lemma drop_client_keeps:
  assumes "clients cl st" "i < length cl"
  shows "\<exists>st' cl'. bind_result (drop_client (cl ! i) i (say t (st\<lparr>ss_in := inp\<rparr>))) (\<lambda>st. Returns (True, st)) = Returns (True, st')
    \<and> clients cl' st' \<and> accounts cl (ss_closed st) cl' (ss_closed st') \<and> length cl' < length cl"
proof -
  have "clients cl (say t (st\<lparr>ss_in := inp\<rparr>))" using assms(1) by simp
  from remove_client_swap [OF this assms(2), of "cl ! i"] obtain st' where
    "drop_client (cl ! i) i (say t (st\<lparr>ss_in := inp\<rparr>)) = Returns st'" "clients (swap_remove i cl) st'"
    "ss_closed st' = ss_closed st @ [cl ! i]" by (auto simp: say_def)
  moreover have "length (swap_remove i cl) < length cl" using assms(2) by (simp add: length_swap_remove)
  ultimately show ?thesis using accounts_swap_remove [OF assms(2)] by force
qed

text \<open>A client that is removed leaves the loop at the same index, with fewer clients to come.\<close>

lemma select_message_keeps:
  assumes "clients cl st" "i < length cl"
  shows "select_message (cl ! i) i st = Blocks \<or> (\<exists>removed st' cl'. select_message (cl ! i) i st = Returns (removed, st')
    \<and> clients cl' st' \<and> accounts cl (ss_closed st) cl' (ss_closed st') \<and> (removed \<longrightarrow> length cl' < length cl))"
proof -
  let ?sd = "cl ! i"
  obtain got e rs where r1: "select_read_full (ss_in st ?sd) 1 = (got, e, rs)" by (metis prod_cases3)
  obtain word e' rs' where r2: "select_read_full rs (unat (u8_of_byte (hd got))) = (word, e', rs')"
    by (metis prod_cases3)
  let ?n = "unat (u8_of_byte (hd got))"
  have keep: "clients cl (say t (st\<lparr>ss_in := f\<rparr>))" "ss_closed (say t (st\<lparr>ss_in := f\<rparr>)) = ss_closed st" for t f
    using assms(1) by (simp_all add: say_def clients_def)
  note drop = drop_client_keeps [OF assms]
  consider (stuck) "e = Stuck" | (gone) "e \<noteq> Stuck" "return_code e \<le> 0"
    | (large) "e \<noteq> Stuck" "\<not> return_code e \<le> 0" "select_min_size (SELECT_MAX_WORD_LEN - 1) PROTOCOL_MAX_PAYLOAD_LEN < ?n"
    | (body) "e \<noteq> Stuck" "\<not> return_code e \<le> 0" "\<not> select_min_size (SELECT_MAX_WORD_LEN - 1) PROTOCOL_MAX_PAYLOAD_LEN < ?n"
    by blast
  then show ?thesis
  proof cases
    case gone
    with r1 drop [of "sel_disconnected_line ?sd" "(ss_in st)(?sd := rs)"] show ?thesis
      by (simp add: select_message_def Let_def) blast
  next
    case large
    with r1 drop [of "sel_oversize_line ?sd ?n" "(ss_in st)(?sd := rs)"] show ?thesis
      by (simp add: select_message_def Let_def) blast
  next
    case body
    consider (stuck') "e' = Stuck" | (gone') "e' \<noteq> Stuck" "return_code e' \<le> 0" | (word) "e' \<noteq> Stuck" "\<not> return_code e' \<le> 0"
      by blast
    then show ?thesis
    proof cases
      case gone'
      with body r1 r2 drop [of "sel_disconnected_line ?sd" "(ss_in st)(?sd := rs')"] show ?thesis
        by (simp add: select_message_def Let_def) blast
    next
      case word
      with body r1 r2 keep(2) keep(1) [of "sel_received_line ?sd word" "(ss_in st)(?sd := rs')"] show ?thesis
        by (simp add: select_message_def Let_def) (metis accounts_refl)
    qed (use body r1 r2 in \<open>simp add: select_message_def Let_def\<close>)
  qed (use r1 in \<open>simp add: select_message_def\<close>)
qed

lemma client_io_keeps:
  "clients cl st \<Longrightarrow> keeps_clients cl (ss_closed st) (client_io n i readfds st)"
proof (induction n arbitrary: i cl st)
  case 0
  then show ?case by (auto simp: keeps_clients_def)
next
  case (Suc n)
  from Suc.prems obtain junk where t: "ss_sockets st = cl @ junk" "ss_count st = length cl"
    "\<forall>s \<in> set cl. fd_in_select_range s" by (auto simp: clients_def)
  show ?case
  proof (cases "i < length cl \<and> cl ! i \<in> set readfds")
    case True
    have "keeps_clients cl (ss_closed st) (bind_result (select_message (cl ! i) i st) (\<lambda>(removed, st').
        client_io n (if removed then i else i + 1) readfds st'))"
    proof (cases "select_message (cl ! i) i st = Blocks")
      case False
      with select_message_keeps [OF Suc.prems, of i] True obtain rm st' cl' where
        m: "select_message (cl ! i) i st = Returns (rm, st')" "clients cl' st'"
        "accounts cl (ss_closed st) cl' (ss_closed st')" by blast
      from Suc.IH [OF m(2)] m show ?thesis by (auto simp: keeps_clients_def intro: accounts_trans)
    qed (simp add: keeps_clients_def)
    with True t show ?thesis by (simp add: nth_append fd_isset_safe_def FD_ISSET_def)
  next
    case False
    with Suc.IH [OF Suc.prems] Suc.prems t show ?thesis
      by (auto simp: nth_append fd_isset_safe_def FD_ISSET_def keeps_clients_def)
  qed
qed

lemma accept_client_cases:
  assumes "clients cl st" "new \<notin> set cl" "new = - 1 \<or> 0 \<le> new"
  shows "(\<exists>st' cl'. accept_client realloc junk new st = Returns st' \<and> clients cl' st'
      \<and> accounts (cl @ [new]) (ss_closed st) cl' (ss_closed st'))
    \<or> (\<exists>e. accept_client realloc junk new st = Exits EXIT_FAILURE e \<and> (new = - 1 \<or> \<not> realloc))"
proof -
  from assms(1) obtain jk where t: "ss_sockets st = cl @ jk" "ss_capacity st = length cl + length jk"
    "ss_count st = length cl" "distinct cl" "\<forall>s \<in> set cl. fd_in_select_range s" by (auto simp: clients_def)
  consider (refused) "new = - 1" | (large) "new \<noteq> - 1" "FD_SETSIZE \<le> new"
    | (nomem) "new \<noteq> - 1" "new < FD_SETSIZE" "jk = []" "\<not> realloc"
    | (room) "new \<noteq> - 1" "new < FD_SETSIZE" "jk \<noteq> []" | (grown) "new \<noteq> - 1" "new < FD_SETSIZE" "jk = []" realloc
    by fastforce
  then show ?thesis
  proof cases
    case large
    have "clients cl (st\<lparr>ss_closed := ss_closed st @ [new]\<rparr>)"
      using assms(1) by (simp add: clients_frame [of "st\<lparr>ss_closed := ss_closed st @ [new]\<rparr>" st])
    moreover have "accept_client realloc junk new st = Returns (say (accepted_line new) (st\<lparr>ss_closed := ss_closed st @ [new]\<rparr>))"
      using large by (simp add: accept_client_def)
    moreover have "accounts (cl @ [new]) (ss_closed st) cl (ss_closed (say (accepted_line new) (st\<lparr>ss_closed := ss_closed st @ [new]\<rparr>)))"
      by (simp add: accounts_def say_def)
    ultimately show ?thesis by (metis clients_say)
  next
    case room
    then obtain j js where "jk = j # js" by (cases jk) auto
    with room t assms(2,3) have "accept_client realloc junk new st
        = Returns (say (established_line new) (st\<lparr>ss_sockets := (cl @ [new]) @ js, ss_count := length cl + 1\<rparr>))"
      by (simp add: accept_client_def list_update_append)
    moreover from room t \<open>jk = j # js\<close> assms(2,3)
    have "clients (cl @ [new]) (say (established_line new) (st\<lparr>ss_sockets := (cl @ [new]) @ js, ss_count := length cl + 1\<rparr>))"
      unfolding clients_say by (auto simp: clients_def fd_in_select_range_def)
    moreover have "ss_closed (say (established_line new) (st\<lparr>ss_sockets := (cl @ [new]) @ js, ss_count := length cl + 1\<rparr>))
        = ss_closed st" by (simp add: say_def)
    ultimately show ?thesis by (metis accounts_refl)
  next
    case grown
    define c where "c = (if ss_capacity st = 0 then 4 else ss_capacity st)"
    have c: "0 < c" "(if ss_capacity st = 0 then 4 else ss_capacity st * 2) - ss_capacity st = c"
      by (simp_all add: c_def)
    then obtain d where d: "c = Suc d" by (cases c) auto
    let ?st' = "say (established_line new) (st\<lparr>ss_sockets := (cl @ [new]) @ replicate d junk, ss_count := length cl + 1,
      ss_capacity := length cl + c\<rparr>)"
    have "accept_client realloc junk new st = Returns ?st'"
      using grown t d c by (auto simp: accept_client_def grow_clients_def list_update_append c_def Let_def say_def)
    moreover have "clients (cl @ [new]) ?st'"
      using grown t d assms(2,3) unfolding clients_say
      by (auto simp: clients_def fd_in_select_range_def)
    moreover have "ss_closed ?st' = ss_closed st" by (simp add: say_def)
    ultimately show ?thesis by (metis accounts_refl)
  qed (use t in \<open>auto simp: accept_client_def grow_clients_def\<close>)
qed

lemma keeps_clients_trans:
  "accounts cl c cl' c' \<Longrightarrow> keeps_clients cl' c' res \<Longrightarrow> keeps_clients cl c res"
  unfolding keeps_clients_def by (blast intro: accounts_trans)

lemma keeps_clients_case:
  "keeps_clients cl c res \<Longrightarrow> case res of
      Returns st' \<Rightarrow> \<exists>cl'. clients cl' st' \<and> accounts cl c cl' (ss_closed st')
    | Exits n e \<Rightarrow> P n e
    | Undef \<Rightarrow> False
    | Blocks \<Rightarrow> True"
  by (auto simp: keeps_clients_def)

lemma select_message_word:
  assumes "segments (ss_in st sd)" "stream (ss_in st sd) = frame w @ rest" "length w < 256"
  shows "\<exists>rs. select_message sd i st
      = Returns (False, say (sel_received_line sd w) (st\<lparr>ss_in := (ss_in st)(sd := rs)\<rparr>))
    \<and> stream rs = rest \<and> segments rs"
proof -
  from stream_frame_read [OF assms] obtain rs1 rs2 where
    r: "poll_read_full (ss_in st sd) 1 = ([byte_of_u8 (word_of_nat (length w))], Full, rs1)"
      "poll_read_full rs1 (length w) = (w, Full, rs2)" "stream rs2 = rest" "segments rs2" by blast
  have len: "unat (word_of_nat (length w) :: uint8) = length w" using assms(3) by (rule unat_word_of_nat_u8)
  have "select_message sd i st = Returns (False, say (sel_received_line sd w) (st\<lparr>ss_in := (ss_in st)(sd := rs2)\<rparr>))"
    using r len assms(3)
    by (simp add: select_message_def Let_def select_read_full_eq select_min_size_def SELECT_MAX_WORD_LEN_def
        PROTOCOL_MAX_PAYLOAD_LEN_def)
  with r show ?thesis by blast
qed

text \<open>The message of the client at an index of the array.\<close>

definition select_client :: "nat \<Rightarrow> sserver \<Rightarrow> sserver result" where
  "select_client i st = bind_result (arr_get (ss_sockets st) i) (\<lambda>sd.
     bind_result (select_message sd i st) (\<lambda>(removed, st'). Returns st'))"

interpretation sls: word_server select_client clients ss_in ss_out sel_received_line
proof unfold_locales
  fix cl st i w rest
  assume a: "clients cl st" "i < length cl" "segments (ss_in st (cl ! i))"
    "stream (ss_in st (cl ! i)) = frame w @ rest" "length w < (256 :: nat)"
  from select_message_word [OF a(3-5), of i] obtain rs where
    m: "select_message (cl ! i) i st = Returns (False, say (sel_received_line (cl ! i) w) (st\<lparr>ss_in := (ss_in st)(cl ! i := rs)\<rparr>))"
      "stream rs = rest" "segments rs" by blast
  have "arr_get (ss_sockets st) i = Returns (cl ! i)" using a(1,2) by (auto simp: clients_def nth_append)
  with m a(1) show "\<exists>st'. select_client i st = Returns st' \<and> clients cl st'
      \<and> ss_out st' = ss_out st @ [sel_received_line (cl ! i) w] \<and> stream (ss_in st' (cl ! i)) = rest
      \<and> segments (ss_in st' (cl ! i)) \<and> (\<forall>sd. sd \<noteq> cl ! i \<longrightarrow> ss_in st' sd = ss_in st sd)"
    by (simp add: select_client_def say_def clients_def)
qed

section \<open>Rounds and the whole server\<close>

definition select_newcomer :: "sround \<Rightarrow> int \<Rightarrow> int list" where
  "select_newcomer r sockfd = (case sr_select r of Ready ready \<Rightarrow> if ready sockfd then [sr_accept r] else [] | _ \<Rightarrow> [])"

lemmas fd_macros = fd_set_safe_def FD_SET_def fd_isset_safe_def FD_ISSET_def

text \<open>One round, whatever the sockets deliver: the array is never accessed outside its bounds and no
  descriptor outside the range reaches the \<^verbatim>\<open>FD_\<close> macros (\<^verbatim>\<open>i--\<close> at index 0 included).\<close>

lemma select_round_clients:
  assumes "clients cl st" "sr_accept r \<notin> set cl" "sr_accept r = - 1 \<or> 0 \<le> sr_accept r"
    and "fd_in_select_range sockfd"
  shows "case select_round sockfd r st of
      Returns st' \<Rightarrow> \<exists>cl'. clients cl' st' \<and> accounts (cl @ select_newcomer r sockfd) (ss_closed st) cl' (ss_closed st')
    | Exits n e \<Rightarrow> n = EXIT_FAILURE \<and> (sr_select r = Select_fails \<or> sr_accept r = - 1 \<or> \<not> sr_realloc r)
    | Undef \<Rightarrow> False
    | Blocks \<Rightarrow> True"
proof -
  have count: "ss_count st = length cl" using assms(1) by (simp add: clients_def)
  with fill_readfds_clients [OF assms(1), of 0 "length cl" "[sockfd]" sockfd] obtain m where
    fill: "fill_readfds (ss_count st) 0 [sockfd] sockfd st = Returns (rev cl @ [sockfd], m, st)" by auto
  show ?thesis
  proof (cases "sr_select r")
    case (Ready ready)
    let ?acc = "accept_client (sr_realloc r) (sr_junk r) (sr_accept r) st"
    let ?io = "\<lambda>st. client_io (ss_count st) 0 (filter ready (rev cl @ [sockfd])) st"
    have round: "select_round sockfd r st = bind_result (if ready sockfd then ?acc else Returns st) ?io"
      using Ready fill assms(4) by (simp add: select_round_def fd_macros)
    from accept_client_cases [OF assms(1-3), of "sr_realloc r" "sr_junk r"]
    consider (idle) "\<not> ready sockfd" | (ok) st' cl' where "ready sockfd" "?acc = Returns st'" "clients cl' st'"
        "accounts (cl @ [sr_accept r]) (ss_closed st) cl' (ss_closed st')"
      | (bad) e where "ready sockfd" "?acc = Exits EXIT_FAILURE e" "sr_accept r = - 1 \<or> \<not> sr_realloc r" by blast
    then show ?thesis
    proof cases
      case idle
      then have new: "cl @ select_newcomer r sockfd = cl" using Ready by (simp add: select_newcomer_def)
      show ?thesis
        using keeps_clients_case [OF client_io_keeps [OF assms(1)]] idle unfolding round new by simp
    next
      case ok
      have "keeps_clients (cl @ [sr_accept r]) (ss_closed st) (?io st')"
        by (rule keeps_clients_trans [OF ok(4) client_io_keeps [OF ok(3)]])
      moreover have "select_newcomer r sockfd = [sr_accept r]" using Ready ok(1) by (simp add: select_newcomer_def)
      ultimately show ?thesis using keeps_clients_case ok(1,2) unfolding round by simp
    qed (simp add: round)
  next
    case Interrupted
    with fill assms(1,4) show ?thesis by (auto simp: select_round_def fd_macros select_newcomer_def)
  next
    case Select_fails
    with fill assms(4) show ?thesis by (simp add: select_round_def fd_macros)
  qed
qed

text \<open>The kernel gives \<^verbatim>\<open>accept\<close> a descriptor that is not in use; a failed call yields \<open>- 1\<close>.\<close>

fun select_fresh_accepts :: "int \<Rightarrow> sround list \<Rightarrow> sserver \<Rightarrow> bool" where
  "select_fresh_accepts sockfd [] st = True"
| "select_fresh_accepts sockfd (r # rs) st \<longleftrightarrow>
     (sr_accept r = - 1 \<or> 0 \<le> sr_accept r) \<and> sr_accept r \<notin> set (take (ss_count st) (ss_sockets st))
     \<and> (case select_round sockfd r st of Returns st' \<Rightarrow> select_fresh_accepts sockfd rs st' | _ \<Rightarrow> True)"

fun select_accepted :: "int \<Rightarrow> sround list \<Rightarrow> int list" where
  "select_accepted sockfd [] = []"
| "select_accepted sockfd (r # rs) = select_newcomer r sockfd @ (if sr_sigint r then [] else select_accepted sockfd rs)"

lemma select_close_clients_ok:
  "\<forall>c \<in> set cs. 0 \<le> c \<and> shut c \<Longrightarrow> select_close_clients shut cs st = Returns (st\<lparr>ss_closed := ss_closed st @ cs\<rparr>)"
  by (induction cs arbitrary: st) (simp_all add: select_socket_close_def)

lemma select_cleanup_ok:
  assumes "clients cl st" "\<forall>c. shut c"
  shows "\<exists>st'. select_cleanup shut sockfd st = Returns st' \<and> ss_closed st' = ss_closed st @ cl @ [sockfd]
    \<and> ss_out st' = ss_out st @ [''Server exited successfully.'' @ [NL]]"
proof -
  have "take (ss_count st) (ss_sockets st) = cl" "\<forall>c \<in> set cl. 0 \<le> c"
    using assms(1) by (auto simp: clients_def fd_in_select_range_def)
  with select_close_clients_ok [of cl shut st] assms(2) show ?thesis
    by (simp add: select_cleanup_def select_socket_close_def say_def)
qed

lemma select_server_closes:
  assumes "clients cl st" "\<forall>c. shut c" "select_fresh_accepts sockfd rs st" "fd_in_select_range sockfd"
  shows "case select_server shut sockfd False rs st of
      Returns st' \<Rightarrow> mset (ss_closed st') = mset (ss_closed st) + mset cl + mset (select_accepted sockfd rs) + {#sockfd#}
    | Exits n e \<Rightarrow> n = EXIT_FAILURE | Undef \<Rightarrow> False | Blocks \<Rightarrow> True"
  using assms(1,3)
proof (induction rs arbitrary: st cl)
  case (Cons r rs)
  have fresh: "sr_accept r \<notin> set cl" "sr_accept r = - 1 \<or> 0 \<le> sr_accept r"
    using Cons.prems by (auto simp: clients_def)
  note round = select_round_clients [OF Cons.prems(1) fresh assms(4)]
  show ?case
  proof (cases "select_round sockfd r st")
    case (Returns st')
    with round obtain cl' where t: "clients cl' st'"
      "accounts (cl @ select_newcomer r sockfd) (ss_closed st) cl' (ss_closed st')" by auto
    note f = accounts_facts(3) [OF t(2)]
    show ?thesis
    proof (cases "sr_sigint r")
      case True
      with select_cleanup_ok [OF t(1) assms(2), of sockfd] Returns f show ?thesis
        by (auto simp: select_server.simps [of shut sockfd False] select_server.simps [of shut sockfd True] ac_simps)
    next
      case False
      with Cons.IH [OF t(1)] Cons.prems(2) Returns f show ?thesis
        by (auto simp: select_server.simps [of shut sockfd False "r # rs"] ac_simps split: result.splits)
    qed
  qed (use round in \<open>simp_all add: select_server.simps [of shut sockfd False]\<close>)
qed (simp add: select_server.simps)

section \<open>Theorems about the program\<close>


definition one_select_client :: "rd list \<Rightarrow> sserver" where
  "one_select_client rs = \<lparr>ss_sockets = [5, 0, 0, 0], ss_count = 1, ss_capacity = 4, ss_in = (\<lambda>_. []) (5 := rs),
     ss_out = [], ss_closed = []\<rparr>"

lemma one_select_client_clients: "clients [5] (one_select_client rs)"
  by (simp add: clients_def one_select_client_def fd_in_select_range_def FD_SETSIZE_def)

definition quiet_sround :: sround where
  "quiet_sround = \<lparr>sr_select = Interrupted, sr_accept = - 1, sr_realloc = True, sr_junk = 0, sr_sigint = False\<rparr>"

text \<open>A client connects as 5 and sends a word, a second one as 6, the first one leaves, \<^verbatim>\<open>SIGINT\<close>.\<close>

definition sample_srounds :: "sround list" where
  "sample_srounds =
     [quiet_sround\<lparr>sr_select := Ready (\<lambda>fd. fd = 3), sr_accept := 5\<rparr>,
      quiet_sround\<lparr>sr_select := Ready (\<lambda>fd. True), sr_accept := 6\<rparr>,
      quiet_sround\<lparr>sr_select := Ready (\<lambda>fd. fd = 5)\<rparr>,
      quiet_sround\<lparr>sr_sigint := True\<rparr>]"

definition sample_sinput :: "int \<Rightarrow> rd list" where
  "sample_sinput = (\<lambda>_. []) (5 := [Rd [CHR 0x02, CHR ''a''], Rd ''b'', Rd_eof])"


text \<open>A \<^verbatim>\<open>SIGINT\<close> while the server waits in \<^verbatim>\<open>select\<close> ends the loop: exactly the connected
  clients are closed, each once, then the listening socket.\<close>

theorem select_sigint_closes_clients:
  assumes "clients cl st" "fd_in_select_range sockfd" "sr_select r = Interrupted" "sr_sigint r" "\<forall>fd. shut fd"
  shows "\<exists>st'. select_server shut sockfd False (r # rs) st = Returns st' \<and> ss_closed st' = ss_closed st @ cl @ [sockfd]
    \<and> ss_out st' = ss_out st @ [''Server exited successfully.'' @ [NL]]"
proof -
  have count: "ss_count st = length cl" using assms(1) by (simp add: clients_def)
  with fill_readfds_clients [OF assms(1), of 0 "length cl" "[sockfd]" sockfd] obtain m where
    fill: "fill_readfds (ss_count st) 0 [sockfd] sockfd st = Returns (rev cl @ [sockfd], m, st)" by auto
  with assms(2-4) select_cleanup_ok [OF assms(1,5)] show ?thesis
    by (simp add: select_server.simps select_round_def fd_macros)
qed

lemma select_sigint_closes_clients_witness:
  "\<exists>st'. select_server (\<lambda>_. True) 3 False [quiet_sround\<lparr>sr_sigint := True\<rparr>] (one_select_client []) = Returns st'
    \<and> ss_closed st' = [5, 3]"
  using select_sigint_closes_clients [OF one_select_client_clients, of 3 "quiet_sround\<lparr>sr_sigint := True\<rparr>" "\<lambda>_. True" "[]" "[]"]
  by (simp add: quiet_sround_def fd_in_select_range_def FD_SETSIZE_def one_select_client_def) blast

end
