(* ===== verification/C_Text.thy ===== *)
theory C_Text
  imports Word_Framing
begin

text \<open>
  Reading text by lines and words as the C library does it: \<^verbatim>\<open>fgets\<close> and \<^verbatim>\<open>strtok_r\<close>, and
  how the lines and tokens they yield relate to the words of a file.
\<close>

section \<open>The library functions\<close>

text \<open>\<^verbatim>\<open>fgets(line, n + 1, file)\<close>: at most \<open>n\<close> characters, up to and including a newline; the
  characters stored and the rest of the file.\<close>

fun fgets_chars :: "nat \<Rightarrow> string \<Rightarrow> string \<times> string" where
  "fgets_chars 0 s = ([], s)"
| "fgets_chars (Suc n) [] = ([], [])"
| "fgets_chars (Suc n) (c # s) =
     (if c = NL then ([c], s) else case fgets_chars n s of (line, rest) \<Rightarrow> (c # line, rest))"

definition fgets :: "nat \<Rightarrow> string \<Rightarrow> (string \<times> string) option" where
  "fgets n s = (if s = [] then None else Some (fgets_chars (n - 1) s))"

text \<open>\<^verbatim>\<open>strtok_r\<close>: the next word and what \<^verbatim>\<open>saveptr\<close> points to, the character behind the delimiter
  that ended the word.\<close>

definition strtok_r :: "string \<Rightarrow> string \<Rightarrow> (string \<times> string) option" where
  "strtok_r delim s =
     (let s = dropWhile (\<lambda>c. c \<in> set delim) s
      in if s = [] then None
         else Some (takeWhile (\<lambda>c. c \<notin> set delim) s, drop 1 (dropWhile (\<lambda>c. c \<notin> set delim) s)))"

lemma strtok_r_shorter:
  assumes "strtok_r delim s = Some (w, save)"
  shows "length save < length s"
proof -
  let ?s = "dropWhile (\<lambda>c. c \<in> set delim) s"
  from assms have s: "?s \<noteq> []" "save = drop 1 (dropWhile (\<lambda>c. c \<notin> set delim) ?s)"
    by (auto simp: strtok_r_def Let_def split: if_splits)
  have "length (dropWhile (\<lambda>c. c \<notin> set delim) ?s) \<le> length ?s" "length ?s \<le> length s"
    by (rule length_dropWhile_le)+
  with s show ?thesis by (cases ?s) auto
qed

text \<open>The words \<^verbatim>\<open>strtok_r\<close> yields when it is called until it returns \<^verbatim>\<open>NULL\<close>.\<close>

function tokens :: "string \<Rightarrow> string \<Rightarrow> string list" where
  "tokens delim s = (case strtok_r delim s of None \<Rightarrow> [] | Some (w, save) \<Rightarrow> w # tokens delim save)"
  by pat_completeness auto
termination by (relation "measure (\<lambda>(delim, s). length s)") (auto simp: strtok_r_shorter)

declare tokens.simps [simp del]

lemma fgets_chars_append: "fgets_chars n s = (line, rest) \<Longrightarrow> s = line @ rest"
  by (induction n s arbitrary: line rule: fgets_chars.induct) (auto split: if_splits prod.splits)

lemma fgets_chars_progress: "fgets_chars (Suc n) s = (line, rest) \<Longrightarrow> s \<noteq> [] \<Longrightarrow> line \<noteq> []"
  by (cases s) (auto split: if_splits prod.splits)

lemma fgets_shorter: "fgets (Suc (Suc n)) s = Some (line, rest) \<Longrightarrow> length rest < length s"
  using fgets_chars_append [of "Suc n" s line rest] fgets_chars_progress [of n s line rest]
  by (auto simp: fgets_def split: if_splits)

section \<open>Words, lines and tokens\<close>

lemma words_of_dropWhile: "words_of (dropWhile is_blank s) = words_of s"
  by (induction s) auto

lemma words_from_split:
  "words_from cur s = (let w = cur @ takeWhile (\<lambda>c. \<not> is_blank c) s
     in (if w = [] then [] else [w]) @ words_of (drop 1 (dropWhile (\<lambda>c. \<not> is_blank c) s)))"
  by (induction s arbitrary: cur) (auto simp: Let_def)

text \<open>The delimiter strings of the programs.\<close>

abbreviation BLANKS :: string where "BLANKS \<equiv> [SPACE, TAB, NL]"

abbreviation LINE_BLANKS :: string where "LINE_BLANKS \<equiv> [SPACE, TAB]"

lemma strtok_r_blanks:
  "strtok_r BLANKS s = (let s = dropWhile is_blank s
     in if s = [] then None else Some (takeWhile (\<lambda>c. \<not> is_blank c) s, drop 1 (dropWhile (\<lambda>c. \<not> is_blank c) s)))"
proof -
  have "(\<lambda>c. c \<in> set BLANKS) = is_blank" "(\<lambda>c. c \<notin> set BLANKS) = (\<lambda>c. \<not> is_blank c)"
    by (auto simp: is_blank_def)
  then show ?thesis unfolding strtok_r_def by (simp only:)
qed

lemma strtok_r_None:
  assumes "strtok_r BLANKS s = None"
  shows "words_of s = []"
proof -
  have "dropWhile is_blank s = []"
    using assms unfolding strtok_r_blanks Let_def by (metis option.distinct(1))
  then show ?thesis by (metis words_of_dropWhile words_from.simps(1))
qed

lemma strtok_r_Some:
  assumes "strtok_r BLANKS s = Some (w, save)"
  shows "words_of s = w # words_of save"
proof -
  let ?s = "dropWhile is_blank s"
  from assms have s: "?s \<noteq> []" "w = takeWhile (\<lambda>c. \<not> is_blank c) ?s"
    "save = drop 1 (dropWhile (\<lambda>c. \<not> is_blank c) ?s)" by (auto simp: strtok_r_blanks Let_def split: if_splits)
  have "\<not> is_blank (hd ?s)" using s(1) by (rule hd_dropWhile)
  then have "w \<noteq> []" using s by (cases ?s) auto
  then show ?thesis
    using words_from_split [of "[]" ?s] s words_of_dropWhile [of s] by (simp add: Let_def)
qed

lemma tokens_blanks: "tokens BLANKS s = words_of s"
proof (induction "BLANKS" s rule: tokens.induct)
  case (1 s)
  then show ?case
    by (cases "strtok_r BLANKS s") (auto simp: tokens.simps [of BLANKS s] strtok_r_None strtok_r_Some)
qed

lemma words_from_append_blank:
  "is_blank c \<Longrightarrow> words_from cur (a @ c # b) = words_from cur (a @ [c]) @ words_of b"
  by (induction cur a rule: words_from.induct) auto

lemma words_from_snoc_blank: "is_blank c \<Longrightarrow> words_from cur (a @ [c]) = words_from cur a"
  by (induction cur a rule: words_from.induct) auto

lemma words_of_append:
  assumes "b = [] \<or> is_blank (hd b) \<or> (a \<noteq> [] \<and> is_blank (last a))"
  shows "words_of (a @ b) = words_of a @ words_of b"
proof -
  consider "b = []" | c d where "b = c # d" "is_blank c" | c d where "a = d @ [c]" "is_blank c"
    using assms by (cases b; cases a rule: rev_cases) auto
  then show ?thesis
  proof cases
    case 2
    then show ?thesis
      using words_from_append_blank [of c "[]" a d] words_from_snoc_blank [of c "[]" a] by simp
  next
    case 3
    then show ?thesis using words_from_append_blank [of c "[]" d b] by simp
  qed simp
qed

text \<open>Where \<^verbatim>\<open>fgets\<close> stops: behind a newline, at the end of the file, or when the array is full.\<close>

lemma fgets_chars_stop:
  "fgets_chars n s = (line, rest) \<Longrightarrow>
     (line \<noteq> [] \<and> last line = NL) \<or> rest = [] \<or> (length line = n \<and> NL \<notin> set line)"
  by (induction n s arbitrary: line rule: fgets_chars.induct) (auto split: if_splits prod.splits)

definition lines_at_most :: "nat \<Rightarrow> string \<Rightarrow> bool" where
  "lines_at_most n file \<longleftrightarrow> (\<forall>a b c. file = a @ b @ c \<and> NL \<notin> set b \<longrightarrow> length b \<le> n)"

lemma lines_at_most_rest: "lines_at_most n (a @ b) \<Longrightarrow> lines_at_most n b"
  unfolding lines_at_most_def by (metis append_assoc)

text \<open>No word is cut when no line is longer than what fits into the array.\<close>

lemma fgets_words:
  assumes "fgets_chars n s = (line, rest)" "lines_at_most n s"
  shows "words_of s = words_of line @ words_of rest"
proof -
  have s: "s = line @ rest" using assms(1) by (rule fgets_chars_append)
  have "rest = [] \<or> is_blank (hd rest) \<or> (line \<noteq> [] \<and> is_blank (last line))"
  proof (rule ccontr)
    assume c: "\<not> ?thesis"
    with fgets_chars_stop [OF assms(1)] have "length line = n" "NL \<notin> set line" by (auto simp: is_blank_def)
    moreover from c obtain d r where "rest = d # r" "d \<noteq> NL" by (cases rest) (auto simp: is_blank_def)
    moreover from this s have "s = [] @ (line @ [d]) @ r" by simp
    ultimately have "length (line @ [d]) \<le> n"
      using assms(2) unfolding lines_at_most_def by (metis Un_iff empty_iff empty_set set_ConsD set_append)
    with \<open>length line = n\<close> show False by simp
  qed
  then show ?thesis unfolding s by (rule words_of_append)
qed

lemma lines_at_most_length: "length s \<le> n \<Longrightarrow> lines_at_most n s"
  by (auto simp: lines_at_most_def)

section \<open>A file by lines\<close>

text \<open>The lines of successive calls \<^verbatim>\<open>fgets(line, n + 2, file)\<close>; an array of two characters is the
  smallest with which the loop gets ahead.\<close>

function fgets_lines :: "nat \<Rightarrow> string \<Rightarrow> string list" where
  "fgets_lines n s = (case fgets (Suc (Suc n)) s of None \<Rightarrow> [] | Some (line, rest) \<Rightarrow> line # fgets_lines n rest)"
  by pat_completeness auto
termination by (relation "measure (\<lambda>(n, s). length s)") (auto simp: fgets_shorter)

declare fgets_lines.simps [simp del]

lemma fgets_chars_length: "fgets_chars n s = (line, rest) \<Longrightarrow> length line \<le> n"
  by (induction n s arbitrary: line rule: fgets_chars.induct) (auto split: if_splits prod.splits)

lemma fgets_lines_concat: "concat (fgets_lines n s) = s"
proof (induction n s rule: fgets_lines.induct)
  case (1 n s)
  then show ?case
    by (auto simp: fgets_lines.simps [of n s] fgets_def dest: fgets_chars_append split: option.splits prod.splits)
qed

lemma fgets_lines_length: "line \<in> set (fgets_lines n s) \<Longrightarrow> length line \<le> Suc n"
proof (induction n s rule: fgets_lines.induct)
  case (1 n s)
  show ?case
  proof (cases "fgets (Suc (Suc n)) s")
    case (Some p)
    then obtain l rest where p: "fgets (Suc (Suc n)) s = Some (l, rest)" by (cases p) auto
    then have "length l \<le> Suc n" by (auto simp: fgets_def dest: fgets_chars_length split: if_splits)
    with 1 p show ?thesis by (auto simp: fgets_lines.simps [of n s])
  qed (use 1 in \<open>simp add: fgets_lines.simps [of n s]\<close>)
qed

lemma fgets_lines_c_str:
  assumes "NUL \<notin> set s"
  shows "map (\<lambda>line. f (c_str (line @ [NUL]))) (fgets_lines n s) = map f (fgets_lines n s)"
proof (intro map_cong refl)
  fix line
  assume "line \<in> set (fgets_lines n s)"
  then have "set line \<subseteq> set (concat (fgets_lines n s))" by auto
  with assms have "NUL \<notin> set line" by (auto simp: fgets_lines_concat)
  then show "f (c_str (line @ [NUL])) = f line" by simp
qed

text \<open>No word is lost or cut when the lines fit.\<close>

lemma fgets_lines_words: "lines_at_most (Suc n) s \<Longrightarrow> concat (map words_of (fgets_lines n s)) = words_of s"
proof (induction n s rule: fgets_lines.induct)
  case (1 n s)
  show ?case
  proof (cases "s = []")
    case False
    obtain line rest where f: "fgets_chars (Suc n) s = (line, rest)" by (cases "fgets_chars (Suc n) s") auto
    with False have g: "fgets (Suc (Suc n)) s = Some (line, rest)" by (simp add: fgets_def)
    have "lines_at_most (Suc n) rest"
      using lines_at_most_rest "1.prems" fgets_chars_append [OF f] by blast
    with "1.IH" [OF g refl] g fgets_words [OF f "1.prems"] show ?thesis by (simp add: fgets_lines.simps [of n s])
  qed (simp add: fgets_lines.simps [of n "[]"] fgets_def)
qed

lemma words_from_length:
  "w \<in> set (words_from cur s) \<Longrightarrow> length w \<le> length cur + length s"
  by (induction cur s rule: words_from.induct) (fastforce split: if_splits)+

end
