(* ===== verification/Mux_Client.thy ===== *)
theory Mux_Client
  imports Mux_Stream C_Text
begin

text \<open>
  \<^verbatim>\<open>src/io-multiplexing/client.c\<close>: the client of the two multiplexing servers. It reads a
  file line by line into \<^verbatim>\<open>line[1024]\<close>, cuts the lines into words with
  \<^verbatim>\<open>strtok_r\<close> and sends each word with its length, pausing after it.
\<close>

section \<open>State\<close>

text \<open>
  What has gone into the socket, the lines printed, what \<^verbatim>\<open>stderr\<close> shows, the pauses made,
  and the exit status once \<^verbatim>\<open>exit\<close> has been called. The environment gives the results of the
  \<^verbatim>\<open>send\<close> calls still to come (\<open>None\<close> a failure, \<open>Some k\<close> at most \<open>k\<close> bytes taken, with
  everything taken once the list is used up) and the numbers \<^verbatim>\<open>arc4random_uniform\<close> yields.
\<close>

record mclient =
  mc_sent :: string
  mc_out :: "string list"
  mc_err :: "err_item list"
  mc_sleeps :: "nat option list"
  mc_exit :: "int option"
  mc_net :: "nat option list"
  mc_rand :: "nat list"

definition LINE_LEN :: nat where "LINE_LEN = 1024"

definition MILLISECONDS_IN_NANOSECONDS :: nat where "MILLISECONDS_IN_NANOSECONDS = 1000000"

definition MIN_DELAY_MILLISECONDS :: nat where "MIN_DELAY_MILLISECONDS = 500"

definition MAX_ADDITIONAL_NANOSECONDS :: nat where "MAX_ADDITIONAL_NANOSECONDS = 1000000000"

definition net_send :: "string \<Rightarrow> mclient \<Rightarrow> bool \<times> mclient" where
  "net_send bs st =
     (case mc_net st of
        [] \<Rightarrow> (True, st\<lparr>mc_sent := mc_sent st @ bs\<rparr>)
      | Some k # net \<Rightarrow> (True, st\<lparr>mc_sent := mc_sent st @ take k bs, mc_net := net\<rparr>)
      | None # net \<Rightarrow> (False, st\<lparr>mc_net := net\<rparr>))"

text \<open>\<^verbatim>\<open>nanosleep\<close> with no seconds refuses (\<^verbatim>\<open>EINVAL\<close>) a nanosecond field of a second or more.\<close>

definition nanosleep_ns :: "nat \<Rightarrow> nat option" where
  "nanosleep_ns ns = (if ns < 1000000000 then Some ns else None)"

definition client_error_exit :: "string \<Rightarrow> mclient \<Rightarrow> mclient" where
  "client_error_exit msg st = st\<lparr>mc_err := mc_err st @ [Perror msg], mc_exit := Some EXIT_FAILURE\<rparr>"

definition send_delay :: "nat \<Rightarrow> nat" where
  "send_delay random = MIN_DELAY_MILLISECONDS * MILLISECONDS_IN_NANOSECONDS + random"

definition take_random :: "mclient \<Rightarrow> nat \<times> mclient" where
  "take_random st = (case mc_rand st of [] \<Rightarrow> (0, st) | r # rs \<Rightarrow> (r mod MAX_ADDITIONAL_NANOSECONDS, st\<lparr>mc_rand := rs\<rparr>))"

definition client_pause :: "mclient \<Rightarrow> mclient" where
  "client_pause st =
     (case take_random st of (r, st) \<Rightarrow> st\<lparr>mc_sleeps := mc_sleeps st @ [nanosleep_ns (send_delay r)]\<rparr>)"

section \<open>The functions\<close>

definition sending_line :: "string \<Rightarrow> uint8 \<Rightarrow> string" where
  "sending_line word len = ''Client: sending word of length '' @ dec_nat (unat len) @ '': '' @ word @ [NL]"

definition client_send_word :: "string \<Rightarrow> uint8 \<Rightarrow> mclient \<Rightarrow> mclient" where
  "client_send_word word len st =
     (case net_send [byte_of_u8 len] (st\<lparr>mc_out := mc_out st @ [sending_line word len]\<rparr>) of (ok, st) \<Rightarrow>
        if \<not> ok then client_error_exit ''Error writing word length to socket'' st
        else case (if len > 0 then net_send (take (unat len) word) st else (True, st)) of (ok, st) \<Rightarrow>
          if \<not> ok then client_error_exit ''Error writing word to socket'' st
          else client_pause st)"

text \<open>The inner loop of \<^verbatim>\<open>main\<close>.\<close>

function client_line :: "string \<Rightarrow> mclient \<Rightarrow> mclient" where
  "client_line s st =
     (case strtok_r BLANKS s of
        None \<Rightarrow> st
      | Some (word, save) \<Rightarrow>
          if length word > 255
          then st\<lparr>mc_err := mc_err st @ [Text (''Word exceeds maximum length'' @ [NL])], mc_exit := Some EXIT_FAILURE\<rparr>
          else let st' = client_send_word word (word_of_nat (length word)) st
               in if mc_exit st' \<noteq> None then st' else client_line save st')"
  by pat_completeness auto
termination by (relation "measure (\<lambda>(s, st). length s)") (auto simp: strtok_r_shorter)

declare client_line.simps [simp del]

text \<open>The outer loop and the end of \<^verbatim>\<open>main\<close>; \<^verbatim>\<open>strtok_r\<close> sees the line up to its first NUL.\<close>

function client_file :: "string \<Rightarrow> mclient \<Rightarrow> mclient" where
  "client_file file st =
     (case fgets LINE_LEN file of
        None \<Rightarrow> st\<lparr>mc_exit := Some EXIT_SUCCESS\<rparr>
      | Some (line, rest) \<Rightarrow>
          let st' = client_line (c_str (line @ [NUL])) st
          in if mc_exit st' \<noteq> None then st' else client_file rest st')"
  by pat_completeness auto
termination
  by (relation "measure (\<lambda>(s, st). length s)") (auto simp: LINE_LEN_def fgets_shorter numeral_eq_Suc)

declare client_file.simps [simp del]

definition client_start :: "nat option list \<Rightarrow> nat list \<Rightarrow> mclient" where
  "client_start net rand = \<lparr>mc_sent = [], mc_out = [], mc_err = [], mc_sleeps = [], mc_exit = None,
     mc_net = net, mc_rand = rand\<rparr>"

definition client_main :: "nat option list \<Rightarrow> nat list \<Rightarrow> string \<Rightarrow> mclient" where
  "client_main net rand file = client_file file (client_start net rand)"

section \<open>What the loops send\<close>

text \<open>The pause after a word, by the number drawn.\<close>

definition pause_of :: "nat \<Rightarrow> nat option" where
  "pause_of r = (if r < 500000000 then Some (500000000 + r) else None)"

lemma send_word_ok:
  assumes "mc_net st = []" "length w \<le> 255" "mc_rand st = r # rs" "r < 1000000000"
  shows "mc_sent (client_send_word w (word_of_nat (length w)) st) = mc_sent st @ frame w
    \<and> mc_exit (client_send_word w (word_of_nat (length w)) st) = mc_exit st
    \<and> mc_sleeps (client_send_word w (word_of_nat (length w)) st) = mc_sleeps st @ [pause_of r]
    \<and> mc_net (client_send_word w (word_of_nat (length w)) st) = []
    \<and> mc_rand (client_send_word w (word_of_nat (length w)) st) = rs"
proof -
  have len: "unat (word_of_nat (length w) :: uint8) = length w"
    using assms(2) by (simp add: unat_word_of_nat_u8)
  then have "(0 :: uint8) < word_of_nat (length w) \<longleftrightarrow> w \<noteq> []"
    by (auto simp: word_less_nat_alt)
  then show ?thesis
    using assms len
    by (auto simp: client_send_word_def net_send_def frame_def client_pause_def take_random_def send_delay_def
        nanosleep_ns_def pause_of_def MAX_ADDITIONAL_NANOSECONDS_def MIN_DELAY_MILLISECONDS_def
        MILLISECONDS_IN_NANOSECONDS_def)
qed

definition sends :: "mclient \<Rightarrow> string list \<Rightarrow> mclient \<Rightarrow> bool" where
  "sends st ws st' \<longleftrightarrow> mc_sent st' = mc_sent st @ concat (map frame ws) \<and> mc_net st' = []
     \<and> mc_sleeps st' = mc_sleeps st @ map pause_of (take (length ws) (mc_rand st))
     \<and> mc_rand st' = drop (length ws) (mc_rand st)"

lemma client_line_sends:
  assumes "mc_net st = []" "mc_exit st = None" "\<forall>w \<in> set (words_of s). length w \<le> 255"
    and "length (words_of s) \<le> length (mc_rand st)" "\<forall>r \<in> set (mc_rand st). r < 1000000000"
  shows "sends st (words_of s) (client_line s st) \<and> mc_exit (client_line s st) = None"
  using assms
proof (induction s st rule: client_line.induct)
  case (1 s st)
  show ?case
  proof (cases "strtok_r BLANKS s")
    case None
    then show ?thesis using "1.prems" strtok_r_None [OF None] by (simp add: client_line.simps [of s] sends_def)
  next
    case (Some p)
    then obtain w save where p: "strtok_r BLANKS s = Some (w, save)" by (cases p) auto
    note ws = strtok_r_Some [OF p]
    with "1.prems"(3,4) have w: "length w \<le> 255" "\<forall>w \<in> set (words_of save). length w \<le> 255"
      "mc_rand st \<noteq> []" by auto
    then obtain r rs where r: "mc_rand st = r # rs" by (cases "mc_rand st") auto
    let ?st' = "client_send_word w (word_of_nat (length w)) st"
    have ok: "mc_sent ?st' = mc_sent st @ frame w" "mc_exit ?st' = None" "mc_sleeps ?st' = mc_sleeps st @ [pause_of r]"
      "mc_net ?st' = []" "mc_rand ?st' = rs"
      using send_word_ok [OF "1.prems"(1) w(1) r] "1.prems"(2,5) r by simp_all
    have "sends ?st' (words_of save) (client_line save ?st') \<and> mc_exit (client_line save ?st') = None"
      using "1.IH" [OF p refl _ refl] ok w "1.prems"(4,5) r ws by simp
    then show ?thesis
      using p ok w(1) r ws by (simp add: client_line.simps [of s] sends_def)
  qed
qed

lemma client_file_sends:
  assumes "mc_net st = []" "mc_exit st = None" "\<forall>w \<in> set (words_of file). length w \<le> 255"
    and "length (words_of file) \<le> length (mc_rand st)" "\<forall>r \<in> set (mc_rand st). r < 1000000000"
    and "NUL \<notin> set file" "lines_at_most (LINE_LEN - 1) file"
  shows "sends st (words_of file) (client_file file st) \<and> mc_exit (client_file file st) = Some EXIT_SUCCESS"
  using assms
proof (induction "file" st rule: client_file.induct)
  case (1 "file" st)
  show ?case
  proof (cases "fgets LINE_LEN file")
    case None
    then have "file = []" by (simp add: fgets_def split: if_splits)
    then show ?thesis using "1.prems" by (simp add: client_file.simps [of "[]"] sends_def fgets_def)
  next
    case (Some p)
    then obtain line rest where p: "fgets LINE_LEN file = Some (line, rest)" by (cases p) auto
    then have f: "fgets_chars (LINE_LEN - 1) file = (line, rest)" by (simp add: fgets_def split: if_splits)
    have s: "file = line @ rest" using f by (rule fgets_chars_append)
    have ws: "words_of file = words_of line @ words_of rest" using fgets_words [OF f "1.prems"(7)] .
    have line: "c_str (line @ [NUL]) = line" using "1.prems"(6) s by simp
    let ?st' = "client_line line st"
    have ok: "sends st (words_of line) ?st'" "mc_exit ?st' = None"
      using client_line_sends [of st line] "1.prems" ws by auto
    have rand: "mc_rand ?st' = drop (length (words_of line)) (mc_rand st)" "mc_net ?st' = []"
      using ok(1) by (simp_all add: sends_def)
    have "sends ?st' (words_of rest) (client_file rest ?st') \<and> mc_exit (client_file rest ?st') = Some EXIT_SUCCESS"
    proof -
      have "\<forall>r \<in> set (mc_rand ?st'). r < 1000000000" using "1.prems"(5) rand by (auto dest: in_set_dropD)
      moreover have "length (words_of rest) \<le> length (mc_rand ?st')" using "1.prems"(4) rand ws by simp
      moreover have "lines_at_most (LINE_LEN - 1) rest" using lines_at_most_rest "1.prems"(7) s by blast
      ultimately show ?thesis
        using "1.IH" [OF p refl, of ?st'] line ok(2) rand(2) ws s "1.prems"(3,6) by simp
    qed
    then show ?thesis
      using p line ok ws rand take_add [of "length (words_of line)" "length (words_of rest)" "mc_rand st"]
      by (simp add: client_file.simps [of "file"] sends_def add.commute)
  qed
qed

lemma client_main_sends:
  assumes "NUL \<notin> set file" "lines_at_most 1023 file" "\<forall>w \<in> set (words_of file). length w \<le> 255"
    and "length (words_of file) \<le> length rand" "\<forall>r \<in> set rand. r < 1000000000"
  shows "mc_sent (client_main [] rand file) = concat (map frame (words_of file))
    \<and> mc_exit (client_main [] rand file) = Some EXIT_SUCCESS
    \<and> mc_sleeps (client_main [] rand file) = map pause_of (take (length (words_of file)) rand)"
  using client_file_sends [of "client_start [] rand" "file"] assms
  by (simp add: client_main_def client_start_def sends_def LINE_LEN_def)

section \<open>Theorems about the program\<close>

text \<open>For a file without NUL whose lines have at most 1023 characters and whose words have at most
  255, and with no failing call, the client sends every word of the file, in order and framed by its
  length, and leaves with success: reading by lines loses and cuts no word.\<close>

theorem client_sends_file:
  assumes "NUL \<notin> set file" "lines_at_most 1023 file" "\<forall>w \<in> set (words_of file). length w \<le> 255"
    and "length (words_of file) \<le> length rand" "\<forall>r \<in> set rand. r < 1000000000"
  shows "mc_sent (client_main [] rand file) = concat (map frame (words_of file))
    \<and> mc_exit (client_main [] rand file) = Some EXIT_SUCCESS"
  using client_main_sends [OF assms] by simp

lemma client_sends_file_witness:
  "mc_sent (client_main [] [1, 2] [CHR ''a'', SPACE, CHR ''b'', NL]) = concat (map frame [''a'', ''b''])"
  using client_sends_file [of "[CHR ''a'', SPACE, CHR ''b'', NL]" "[1, 2]"]
  by (simp add: is_blank_def lines_at_most_length)

text \<open>The pauses: the comment promises between 500 and 1500 milliseconds after every word. A drawn
  number below half a second gives a pause of 500 to 1000 milliseconds; every other number gives no
  pause at all, because \<^verbatim>\<open>tv_nsec\<close> then reaches a second and \<^verbatim>\<open>nanosleep\<close> refuses it.\<close>

theorem client_pauses:
  assumes "NUL \<notin> set file" "lines_at_most 1023 file" "\<forall>w \<in> set (words_of file). length w \<le> 255"
    and "length rand = length (words_of file)" "\<forall>r \<in> set rand. r < 1000000000"
  shows "mc_sleeps (client_main [] rand file)
    = map (\<lambda>r. if r < 500000000 then Some (500000000 + r) else None) rand"
proof -
  have "pause_of = (\<lambda>r. if r < 500000000 then Some (500000000 + r) else None)"
    by (auto simp: pause_of_def)
  then show ?thesis
    using client_main_sends [OF assms(1-3) _ assms(5)] assms(4) by simp
qed

lemma client_pauses_witness:
  "mc_sleeps (client_main [] [1, 700000000] [CHR ''a'', SPACE, CHR ''b'', NL]) = [Some 500000001, None]"
  using client_pauses [of "[CHR ''a'', SPACE, CHR ''b'', NL]" "[1, 700000000]"]
  by (simp add: is_blank_def lines_at_most_length)

end
