(* ===== verification/Shm_Mmap.thy ===== *)
theory Shm_Mmap
  imports C_Text "HOL-Library.Sublist"
begin

text \<open>
  \<^verbatim>\<open>src/shared-memory/mmap-munmap\<close>: a client that hands the words of a file to a server through a
  shared memory object, the two taking turns through the semaphores \<^verbatim>\<open>/client_semaphore\<close> and
  \<^verbatim>\<open>/server_semaphore\<close>. The theory shows that the server prints every word, that a run always ends,
  and that at its end one of the two processes is left waiting for ever: the server posts
  \<^verbatim>\<open>server_sem\<close> once for the end and then waits on it itself. The sizes of the two mappings come last.
\<close>

unbundle bit_operations_syntax

section \<open>The client\<close>

text \<open>What the client does to the shared state, call by call.\<close>

datatype shm_op =
    Sh_strncpy string      \<comment> \<open>\<^verbatim>\<open>strncpy(shm_ptr, word, len)\<close>\<close>
  | Sh_nul nat             \<comment> \<open>\<^verbatim>\<open>shm_ptr[len] = '\\0'\<close>\<close>
  | Sh_post                \<comment> \<open>\<^verbatim>\<open>sem_post(client_sem)\<close>\<close>
  | Sh_wait                \<comment> \<open>\<^verbatim>\<open>sem_wait(server_sem)\<close>\<close>
  | Sh_fail string         \<comment> \<open>the message on \<^verbatim>\<open>stderr\<close>, then \<^verbatim>\<open>exit(EXIT_FAILURE)\<close>\<close>

definition SHM_SIZE :: nat where "SHM_SIZE = 1024"

definition BUFFER_LEN :: nat where "BUFFER_LEN = 100"

definition shm_word :: "string \<Rightarrow> shm_op list" where
  "shm_word word =
     (let len = length word
      in if len \<ge> SHM_SIZE - 1 then [Sh_fail (''Word too long for shared memory: '' @ word @ [NL])]
         else [Sh_strncpy word, Sh_nul len, Sh_post, Sh_wait])"

text \<open>The loops over the lines and the words; \<^verbatim>\<open>strtok_r\<close> sees a line up to its first NUL.\<close>

definition shm_line :: "string \<Rightarrow> shm_op list" where
  "shm_line line = concat (map shm_word (tokens BLANKS (c_str (line @ [NUL]))))"

definition mmap_client_ops :: "string \<Rightarrow> shm_op list" where
  "mmap_client_ops file = concat (map shm_line (fgets_lines (BUFFER_LEN - 2) file)) @ [Sh_nul 0, Sh_post, Sh_wait]"

text \<open>The first part of \<^verbatim>\<open>main\<close> behind the command line: every call may fail.\<close>

definition mmap_client_main :: "bool \<Rightarrow> bool \<Rightarrow> bool \<Rightarrow> bool \<Rightarrow> bool \<Rightarrow> string \<Rightarrow> shm_op list result" where
  "mmap_client_main fopen shm_open mmap sem_open1 sem_open2 file =
     (if \<not> fopen then Exits EXIT_FAILURE [Perror ''fopen'']
      else if \<not> shm_open then Exits EXIT_FAILURE [Perror ''shm_open'']
      else if \<not> mmap then Exits EXIT_FAILURE [Perror ''mmap'']
      else if \<not> sem_open1 then Exits EXIT_FAILURE [Perror ''sem_open'']
      else if \<not> sem_open2 then Exits EXIT_FAILURE [Perror ''sem_open'']
      else Returns (mmap_client_ops file))"

section \<open>The server and the shared state\<close>

text \<open>Control points of the server, named after what comes next.\<close>

datatype spc = S_say | S_wait | S_test | S_print | S_posting | S_post | S_last_post | S_last_wait | S_done

record shm =
  sh_mem :: "char list"
  sh_client_sem :: nat
  sh_server_sem :: nat
  sh_ops :: "shm_op list"
  sh_err :: "string list"
  sh_spc :: spc
  sh_out :: "string list"
  sh_undef :: bool

definition waiting_line :: string where "waiting_line = ''Waiting for client_sem'' @ [NL]"

definition posting_line :: string where "posting_line = ''Posting to server_sem'' @ [NL]"

fun mmap_client_step :: "shm \<Rightarrow> shm option" where
  "mmap_client_step s =
     (case sh_ops s of
        [] \<Rightarrow> None
      | Sh_strncpy w # ops \<Rightarrow>
          Some (s\<lparr>sh_mem := w @ drop (length w) (sh_mem s), sh_undef := (sh_undef s \<or> length (sh_mem s) < length w), sh_ops := ops\<rparr>)
      | Sh_nul i # ops \<Rightarrow>
          Some (s\<lparr>sh_mem := (sh_mem s)[i := NUL], sh_undef := (sh_undef s \<or> length (sh_mem s) \<le> i), sh_ops := ops\<rparr>)
      | Sh_post # ops \<Rightarrow> Some (s\<lparr>sh_client_sem := Suc (sh_client_sem s), sh_ops := ops\<rparr>)
      | Sh_wait # ops \<Rightarrow>
          (case sh_server_sem s of 0 \<Rightarrow> None | Suc n \<Rightarrow> Some (s\<lparr>sh_server_sem := n, sh_ops := ops\<rparr>))
      | Sh_fail m # ops \<Rightarrow> Some (s\<lparr>sh_err := sh_err s @ [m], sh_ops := []\<rparr>))"

text \<open>The test of \<^verbatim>\<open>shm_ptr\<close> for \<^verbatim>\<open>NULL\<close> never holds: a mapping that failed has ended the process.\<close>

fun mmap_server_step :: "shm \<Rightarrow> shm option" where
  "mmap_server_step s =
     (case sh_spc s of
        S_say \<Rightarrow> Some (s\<lparr>sh_out := sh_out s @ [waiting_line], sh_spc := S_wait\<rparr>)
      | S_wait \<Rightarrow>
          (case sh_client_sem s of 0 \<Rightarrow> None | Suc n \<Rightarrow> Some (s\<lparr>sh_client_sem := n, sh_spc := S_test\<rparr>))
      | S_test \<Rightarrow> Some (s\<lparr>sh_spc := (if c_str (sh_mem s) = [] then S_last_post else S_print)\<rparr>)
      | S_print \<Rightarrow> Some (s\<lparr>sh_out := sh_out s @ [c_str (sh_mem s) @ [NL]], sh_spc := S_posting\<rparr>)
      | S_posting \<Rightarrow> Some (s\<lparr>sh_out := sh_out s @ [posting_line], sh_spc := S_post\<rparr>)
      | S_post \<Rightarrow> Some (s\<lparr>sh_server_sem := Suc (sh_server_sem s), sh_spc := S_say\<rparr>)
      | S_last_post \<Rightarrow> Some (s\<lparr>sh_server_sem := Suc (sh_server_sem s), sh_spc := S_last_wait\<rparr>)
      | S_last_wait \<Rightarrow>
          (case sh_server_sem s of 0 \<Rightarrow> None | Suc n \<Rightarrow> Some (s\<lparr>sh_server_sem := n, sh_spc := S_done\<rparr>))
      | S_done \<Rightarrow> None)"

declare mmap_client_step.simps [simp del] mmap_server_step.simps [simp del]

inductive shm_step :: "shm \<Rightarrow> shm \<Rightarrow> bool" where
  client: "mmap_client_step s = Some s' \<Longrightarrow> shm_step s s'"
| server: "mmap_server_step s = Some s' \<Longrightarrow> shm_step s s'"

inductive_cases shm_stepE: "shm_step s s'"

inductive shm_reach :: "shm \<Rightarrow> shm \<Rightarrow> bool" where
  refl: "shm_reach s s"
| step: "shm_reach s s' \<Longrightarrow> shm_step s' s'' \<Longrightarrow> shm_reach s s''"

text \<open>Both semaphores are created with the value 0; \<open>mem\<close> is the memory object.\<close>

definition shm_start :: "char list \<Rightarrow> string \<Rightarrow> shm" where
  "shm_start mem file = \<lparr>sh_mem = mem, sh_client_sem = 0, sh_server_sem = 0, sh_ops = mmap_client_ops file, sh_err = [],
     sh_spc = S_say, sh_out = [], sh_undef = False\<rparr>"

section \<open>The words of the client\<close>

definition mmap_client_words :: "string \<Rightarrow> string list" where
  "mmap_client_words file = concat (map (\<lambda>line. words_of (c_str (line @ [NUL]))) (fgets_lines (BUFFER_LEN - 2) file))"

text \<open>One message is a word or, at the end, the empty string.\<close>

definition message :: "string \<Rightarrow> shm_op list" where
  "message w = (if w = [] then [] else [Sh_strncpy w]) @ [Sh_nul (length w), Sh_post, Sh_wait]"

lemma mmap_client_words_facts:
  assumes "w \<in> set (mmap_client_words file)"
  shows "w \<noteq> []" "length w < SHM_SIZE - 1" "NUL \<notin> set w"
proof -
  from assms obtain line where line: "line \<in> set (fgets_lines (BUFFER_LEN - 2) file)" "w \<in> set (words_of (c_str (line @ [NUL])))"
    by (auto simp: mmap_client_words_def)
  then show "w \<noteq> []" by (blast dest: words_from_nonempty)
  have "length w \<le> length (c_str (line @ [NUL]))" using words_from_length [OF line(2)] by simp
  also have "\<dots> \<le> length line" unfolding c_str_def by (induction line) auto
  also have "\<dots> \<le> 99" using fgets_lines_length [OF line(1)] by (simp add: BUFFER_LEN_def)
  finally show "length w < SHM_SIZE - 1" by (simp add: SHM_SIZE_def)
  have "set w \<subseteq> set (concat (words_of (c_str (line @ [NUL]))))" using line(2) by auto
  also have "\<dots> \<subseteq> set (c_str (line @ [NUL]))" by (auto simp: concat_words_from)
  finally show "NUL \<notin> set w" by (auto simp: c_str_def dest: set_takeWhileD)
qed

text \<open>The guard against long words is never met: a word comes from \<^verbatim>\<open>buffer[100]\<close>.\<close>

lemma mmap_client_ops_messages: "mmap_client_ops file = concat (map message (mmap_client_words file @ [[]]))"
proof -
  have "shm_line line = concat (map message (words_of (c_str (line @ [NUL]))))"
    if "line \<in> set (fgets_lines (BUFFER_LEN - 2) file)" for line
  proof -
    have "shm_word w = message w" if w: "w \<in> set (words_of (c_str (line @ [NUL])))" for w
    proof -
      have "w \<in> set (mmap_client_words file)"
        using w \<open>line \<in> set (fgets_lines (BUFFER_LEN - 2) file)\<close> by (auto simp: mmap_client_words_def)
      from mmap_client_words_facts [OF this] show ?thesis by (simp add: shm_word_def message_def)
    qed
    then show ?thesis unfolding shm_line_def tokens_blanks by (metis map_cong)
  qed
  then have eq: "map shm_line (fgets_lines (BUFFER_LEN - 2) file)
      = map (\<lambda>line. concat (map message (words_of (c_str (line @ [NUL]))))) (fgets_lines (BUFFER_LEN - 2) file)"
    by (intro map_cong) simp_all
  show ?thesis
    unfolding mmap_client_ops_def mmap_client_words_def eq by (simp add: concat_map_concat o_def message_def)
qed

section \<open>The invariant\<close>

definition said :: "string list \<Rightarrow> string list" where
  "said ws = concat (map (\<lambda>w. [waiting_line, w @ [NL], posting_line]) ws)"

text \<open>The server between two messages.\<close>

definition idle :: "string list \<Rightarrow> shm \<Rightarrow> bool" where
  "idle us s \<longleftrightarrow> sh_spc s = S_say \<and> sh_out s = said us \<or> sh_spc s = S_wait \<and> sh_out s = said us @ [waiting_line]"

text \<open>The server at work on the message \<open>w\<close>.\<close>

definition busy :: "string list \<Rightarrow> string \<Rightarrow> shm \<Rightarrow> bool" where
  "busy us w s \<longleftrightarrow>
     sh_spc s = S_test \<and> sh_out s = said us @ [waiting_line]
     \<or> w \<noteq> [] \<and> (sh_spc s = S_print \<and> sh_out s = said us @ [waiting_line]
         \<or> sh_spc s = S_posting \<and> sh_out s = said us @ [waiting_line, w @ [NL]]
         \<or> sh_spc s = S_post \<and> sh_out s = said us @ [waiting_line, w @ [NL], posting_line])"

text \<open>The client is handing over \<open>w\<close>: storing it, then waiting for the acknowledgement.\<close>

definition storing :: "string list \<Rightarrow> string \<Rightarrow> shm_op list \<Rightarrow> shm \<Rightarrow> bool" where
  "storing us w ops s \<longleftrightarrow> idle us s \<and> sh_client_sem s = 0 \<and> sh_server_sem s = 0
     \<and> (sh_ops s = message w @ ops
        \<or> sh_ops s = [Sh_nul (length w), Sh_post, Sh_wait] @ ops \<and> take (length w) (sh_mem s) = w
        \<or> sh_ops s = [Sh_post, Sh_wait] @ ops \<and> c_str (sh_mem s) = w)"

definition acknowledged :: "string list \<Rightarrow> string \<Rightarrow> shm_op list \<Rightarrow> shm \<Rightarrow> bool" where
  "acknowledged us w ops s \<longleftrightarrow> sh_ops s = Sh_wait # ops
     \<and> (c_str (sh_mem s) = w \<and> sh_server_sem s = 0
          \<and> (sh_client_sem s = 1 \<and> idle us s \<or> sh_client_sem s = 0 \<and> busy us w s)
        \<or> w \<noteq> [] \<and> sh_client_sem s = 0 \<and> sh_server_sem s = 1 \<and> idle (us @ [w]) s)"

text \<open>The end: one post of \<^verbatim>\<open>server_sem\<close> and two processes that wait on it.\<close>

definition at_end :: "string list \<Rightarrow> shm \<Rightarrow> bool" where
  "at_end us s \<longleftrightarrow> sh_out s = said us @ [waiting_line] \<and> sh_client_sem s = 0
     \<and> (sh_ops s = [Sh_wait] \<and> (sh_spc s = S_last_post \<and> sh_server_sem s = 0
          \<or> sh_spc s = S_last_wait \<and> sh_server_sem s = 1 \<or> sh_spc s = S_done \<and> sh_server_sem s = 0)
        \<or> sh_ops s = [] \<and> sh_spc s = S_last_wait \<and> sh_server_sem s = 0)"

definition sized :: "shm \<Rightarrow> bool" where
  "sized s \<longleftrightarrow> \<not> sh_undef s \<and> SHM_SIZE \<le> length (sh_mem s)"

definition shm_inv :: "string list \<Rightarrow> shm \<Rightarrow> bool" where
  "shm_inv ws s \<longleftrightarrow> sized s \<and> (at_end ws s
     \<or> (\<exists>us w vs. ws @ [[]] = us @ w # vs \<and> (let ops = concat (map message vs) in storing us w ops s \<or> acknowledged us w ops s)))"

definition words_fit :: "string list \<Rightarrow> bool" where
  "words_fit ws \<longleftrightarrow> (\<forall>w \<in> set ws. w \<noteq> [] \<and> length w < SHM_SIZE - 1 \<and> NUL \<notin> set w)"

lemma last_message: "words_fit ws \<Longrightarrow> ws @ [[]] = us @ w # vs \<Longrightarrow> w = [] \<longleftrightarrow> vs = [] \<and> us = ws"
  by (cases vs rule: rev_cases) (auto simp: words_fit_def)

lemma message_fits: "words_fit ws \<Longrightarrow> ws @ [[]] = us @ w # vs \<Longrightarrow> length w < SHM_SIZE - 1 \<and> NUL \<notin> set w"
proof -
  assume a: "words_fit ws" "ws @ [[]] = us @ w # vs"
  then have "w \<in> set (ws @ [[]])" by simp
  with a(1) show ?thesis by (auto simp: words_fit_def SHM_SIZE_def)
qed

lemma c_str_terminated:
  assumes "take (length w) mem = w" "NUL \<notin> set w" "length w < length mem"
  shows "c_str (mem[length w := NUL]) = w"
proof -
  have "mem[length w := NUL] = w @ NUL # drop (Suc (length w)) mem"
    using assms(1,3) by (simp add: upd_conv_take_nth_drop)
  with assms(2) show ?thesis by simp
qed

text \<open>The steps of the client.\<close>

lemma storing_client:
  assumes "storing us w ops s" "mmap_client_step s = Some s'" "sized s" "length w < SHM_SIZE - 1" "NUL \<notin> set w"
  shows "sized s' \<and> (storing us w ops s' \<or> acknowledged us w ops s')"
proof -
  have len: "length w < length (sh_mem s)" using assms(3,4) by (simp add: sized_def SHM_SIZE_def)
  consider (copy) "w \<noteq> []" "sh_ops s = Sh_strncpy w # [Sh_nul (length w), Sh_post, Sh_wait] @ ops"
    | (nul) "sh_ops s = [Sh_nul (length w), Sh_post, Sh_wait] @ ops" "take (length w) (sh_mem s) = w"
    | (post) "sh_ops s = [Sh_post, Sh_wait] @ ops" "c_str (sh_mem s) = w"
    using assms(1) by (auto simp: storing_def message_def split: if_splits)
  then show ?thesis
  proof cases
    case copy
    with assms(1,2,3) len show ?thesis
      by (auto simp: mmap_client_step.simps storing_def idle_def sized_def)
  next
    case nul
    with assms(1,2,3) len c_str_terminated [OF nul(2) assms(5) len] show ?thesis
      by (auto simp: mmap_client_step.simps storing_def idle_def sized_def)
  next
    case post
    have "idle us s" "sh_client_sem s = 0" "sh_server_sem s = 0" using assms(1) by (simp_all add: storing_def)
    moreover have "s' = s\<lparr>sh_client_sem := Suc (sh_client_sem s), sh_ops := Sh_wait # ops\<rparr>"
      using post(1) assms(2) by (simp add: mmap_client_step.simps)
    ultimately show ?thesis using post(2) assms(3) by (simp add: acknowledged_def idle_def sized_def)
  qed
qed

lemma acknowledged_client:
  assumes "acknowledged us w ops s" "mmap_client_step s = Some s'"
  shows "w \<noteq> [] \<and> idle (us @ [w]) s' \<and> sh_client_sem s' = 0 \<and> sh_server_sem s' = 0 \<and> sh_ops s' = ops
    \<and> sh_mem s' = sh_mem s \<and> sh_undef s' = sh_undef s"
  using assms by (auto simp: mmap_client_step.simps acknowledged_def idle_def split: nat.splits)

text \<open>The steps of the server.\<close>

lemma storing_server:
  "storing us w ops s \<Longrightarrow> mmap_server_step s = Some s' \<Longrightarrow> storing us w ops s'"
  by (auto simp: mmap_server_step.simps storing_def idle_def)

lemma server_sized: "mmap_server_step s = Some s' \<Longrightarrow> sized s' = sized s"
  by (auto simp: mmap_server_step.simps sized_def split: spc.splits nat.splits)

lemma acknowledged_server:
  assumes "acknowledged us w ops s" "mmap_server_step s = Some s'" "w = [] \<Longrightarrow> ops = []"
  shows "acknowledged us w ops s' \<or> w = [] \<and> at_end us s'"
proof -
  have ops: "sh_ops s = Sh_wait # ops" using assms(1) by (simp add: acknowledged_def)
  consider (say) "c_str (sh_mem s) = w" "sh_server_sem s = 0" "sh_client_sem s = 1" "sh_spc s = S_say" "sh_out s = said us"
    | (wait) "c_str (sh_mem s) = w" "sh_server_sem s = 0" "sh_client_sem s = 1" "sh_spc s = S_wait"
        "sh_out s = said us @ [waiting_line]"
    | (test) "c_str (sh_mem s) = w" "sh_server_sem s = 0" "sh_client_sem s = 0" "sh_spc s = S_test"
        "sh_out s = said us @ [waiting_line]"
    | (print) "c_str (sh_mem s) = w" "sh_server_sem s = 0" "sh_client_sem s = 0" "w \<noteq> []" "sh_spc s = S_print"
        "sh_out s = said us @ [waiting_line]"
    | (posting) "c_str (sh_mem s) = w" "sh_server_sem s = 0" "sh_client_sem s = 0" "w \<noteq> []" "sh_spc s = S_posting"
        "sh_out s = said us @ [waiting_line, w @ [NL]]"
    | (post) "c_str (sh_mem s) = w" "sh_server_sem s = 0" "sh_client_sem s = 0" "w \<noteq> []" "sh_spc s = S_post"
        "sh_out s = said us @ [waiting_line, w @ [NL], posting_line]"
    | (acked) "w \<noteq> []" "sh_client_sem s = 0" "sh_server_sem s = 1" "idle (us @ [w]) s"
    using assms(1) unfolding acknowledged_def idle_def busy_def by argo
  then show ?thesis
  proof cases
    case say
    with ops assms(2) have "s' = s\<lparr>sh_out := sh_out s @ [waiting_line], sh_spc := S_wait\<rparr>"
      by (simp add: mmap_server_step.simps)
    with say ops show ?thesis by (simp add: acknowledged_def idle_def)
  next
    case wait
    with ops assms(2) have "s' = s\<lparr>sh_client_sem := 0, sh_spc := S_test\<rparr>"
      by (simp add: mmap_server_step.simps)
    with wait ops show ?thesis by (simp add: acknowledged_def busy_def)
  next
    case test
    with ops assms(2) have "s' = s\<lparr>sh_spc := (if w = [] then S_last_post else S_print)\<rparr>"
      by (simp add: mmap_server_step.simps)
    with test ops assms(3) show ?thesis by (simp add: acknowledged_def busy_def at_end_def)
  next
    case print
    with ops assms(2) have "s' = s\<lparr>sh_out := sh_out s @ [w @ [NL]], sh_spc := S_posting\<rparr>"
      by (simp add: mmap_server_step.simps)
    with print ops show ?thesis by (simp add: acknowledged_def busy_def)
  next
    case posting
    with ops assms(2) have "s' = s\<lparr>sh_out := sh_out s @ [posting_line], sh_spc := S_post\<rparr>"
      by (simp add: mmap_server_step.simps)
    with posting ops show ?thesis by (simp add: acknowledged_def busy_def)
  next
    case post
    with ops assms(2) have "s' = s\<lparr>sh_server_sem := 1, sh_spc := S_say\<rparr>"
      by (simp add: mmap_server_step.simps)
    with post ops show ?thesis by (simp add: acknowledged_def idle_def said_def)
  next
    case acked
    then consider "sh_spc s = S_say" "sh_out s = said (us @ [w])"
      | "sh_spc s = S_wait" by (auto simp: idle_def)
    then show ?thesis
    proof cases
      case 1
      with assms(2) have "s' = s\<lparr>sh_out := said (us @ [w]) @ [waiting_line], sh_spc := S_wait\<rparr>"
        by (simp add: mmap_server_step.simps)
      with 1 acked ops show ?thesis by (simp add: acknowledged_def idle_def)
    qed (use acked assms(2) in \<open>simp add: mmap_server_step.simps\<close>)
  qed
qed

lemma ending_step:
  assumes "at_end us s" "shm_step s s'"
  shows "at_end us s'"
  using assms
  by (auto elim!: shm_stepE simp: at_end_def mmap_client_step.simps mmap_server_step.simps split: nat.splits)

lemma ending_sized:
  assumes "at_end us s" "shm_step s s'"
  shows "sized s' = sized s"
  using assms(2)
proof cases
  case client
  with assms(1) show ?thesis by (auto simp: at_end_def mmap_client_step.simps sized_def split: nat.splits)
qed (rule server_sized)

lemma shm_inv_step:
  assumes "words_fit ws" "shm_inv ws s" "shm_step s s'"
  shows "shm_inv ws s'"
proof (cases "at_end ws s")
  case True
  with assms ending_step ending_sized show ?thesis by (auto simp: shm_inv_def)
next
  case False
  with assms(2) obtain us w vs where u: "ws @ [[]] = us @ w # vs" "sized s"
    "storing us w (concat (map message vs)) s \<or> acknowledged us w (concat (map message vs)) s"
    unfolding shm_inv_def Let_def by blast
  let ?ops = "concat (map message vs)"
  have inv: "shm_inv ws t" if "sized t" "storing us w ?ops t \<or> acknowledged us w ?ops t" for t
    using that u(1) unfolding shm_inv_def Let_def by blast
  note fit = message_fits [OF assms(1) u(1)] and last = last_message [OF assms(1) u(1)]
  from assms(3) show ?thesis
  proof cases
    case client
    show ?thesis
    proof (cases "storing us w ?ops s")
      case True
      with storing_client [OF True client u(2)] fit inv show ?thesis by blast
    next
      case False
      with u(3) acknowledged_client [OF _ client] have a: "w \<noteq> []" "idle (us @ [w]) s'" "sh_client_sem s' = 0"
        "sh_server_sem s' = 0" "sh_ops s' = ?ops" "sh_mem s' = sh_mem s" "sh_undef s' = sh_undef s" by blast+
      from a(1) last u(1) obtain v vs' where v: "vs = v # vs'" by (cases vs) auto
      then have "storing (us @ [w]) v (concat (map message vs')) s'" using a by (simp add: storing_def)
      moreover have "sized s'" using a u(2) by (simp add: sized_def)
      moreover have "ws @ [[]] = (us @ [w]) @ v # vs'" using u(1) v by simp
      ultimately show ?thesis unfolding shm_inv_def Let_def by blast
    qed
  next
    case server
    have sz: "sized s'" using server_sized [OF server] u(2) by simp
    show ?thesis
    proof (cases "storing us w ?ops s")
      case True
      with storing_server [OF True server] sz inv show ?thesis by blast
    next
      case False
      then have ack: "acknowledged us w ?ops s" using u(3) by simp
      from last have "w = [] \<Longrightarrow> ?ops = []" by simp
      from acknowledged_server [OF ack server this] have "acknowledged us w ?ops s' \<or> w = [] \<and> at_end us s'" .
      with sz inv last show ?thesis unfolding shm_inv_def by blast
    qed
  qed
qed

lemma shm_reach_inv:
  assumes "shm_reach (shm_start mem file) s" "SHM_SIZE \<le> length mem"
  shows "shm_inv (mmap_client_words file) s"
  using assms(1)
proof (induction "shm_start mem file" s rule: shm_reach.induct)
  case refl
  let ?ws = "mmap_client_words file"
  obtain w vs where w: "?ws @ [[]] = [] @ w # vs" by (cases ?ws) auto
  then have "sh_ops (shm_start mem file) = message w @ concat (map message vs)"
    unfolding shm_start_def mmap_client_ops_messages by simp
  then have "storing [] w (concat (map message vs)) (shm_start mem file)"
    by (simp add: storing_def idle_def shm_start_def said_def)
  moreover have "sized (shm_start mem file)" using assms(2) by (simp add: sized_def shm_start_def)
  ultimately show ?case using w unfolding shm_inv_def Let_def by blast
next
  case (step s' s'')
  have "words_fit (mmap_client_words file)" using mmap_client_words_facts by (auto simp: words_fit_def)
  from shm_inv_step [OF this step(2,3)] show ?case .
qed

text \<open>What has been printed is always an initial part of what is to be printed.\<close>

lemma said_append [simp]: "said (us @ vs) = said us @ said vs"
  by (simp add: said_def)

lemma said_prefix:
  assumes "prefix (said us @ [waiting_line, w @ [NL], posting_line]) xs" "idle us s \<or> busy us w s \<or> idle (us @ [w]) s"
    and "prefix (said us @ [waiting_line, w @ [NL], posting_line, waiting_line]) xs \<or> \<not> idle (us @ [w]) s"
  shows "prefix (sh_out s) xs"
proof -
  have "prefix (sh_out s) (said us @ [waiting_line, w @ [NL], posting_line])
      \<or> sh_out s = said us @ [waiting_line, w @ [NL], posting_line, waiting_line] \<and> idle (us @ [w]) s"
    using assms(2) unfolding idle_def busy_def said_def by (elim disjE conjE) (simp_all add: prefix_def)
  then show ?thesis
  proof
    assume "prefix (sh_out s) (said us @ [waiting_line, w @ [NL], posting_line])"
    from prefix_order.trans [OF this assms(1)] show ?thesis .
  qed (use assms(3) in simp)
qed

lemma shm_inv_out:
  assumes "words_fit ws" "shm_inv ws s"
  shows "prefix (sh_out s) (said ws @ [waiting_line])"
proof (cases "at_end ws s")
  case False
  with assms(2) obtain us w vs ops where u: "ws @ [[]] = us @ w # vs" "storing us w ops s \<or> acknowledged us w ops s"
    unfolding shm_inv_def Let_def by blast
  show ?thesis
  proof (cases "w = []")
    case True
    then have "us = ws" using last_message [OF assms(1) u(1)] by simp
    with u(2) True show ?thesis by (auto simp: storing_def acknowledged_def idle_def busy_def)
  next
    case w: False
    then obtain vs' where "vs = vs' @ [[]]" using last_message [OF assms(1) u(1)] u(1) by (cases vs rule: rev_cases) auto
    with u(1) have ws: "ws = us @ w # vs'" by simp
    have all: "said ws @ [waiting_line]
        = (said us @ [waiting_line, w @ [NL], posting_line]) @ said vs' @ [waiting_line]"
      unfolding ws by (simp add: said_def)
    show ?thesis
    proof (rule said_prefix [of us w _ s])
      show "prefix (said us @ [waiting_line, w @ [NL], posting_line]) (said ws @ [waiting_line])" unfolding all by simp
      show "idle us s \<or> busy us w s \<or> idle (us @ [w]) s" using u(2) by (auto simp: storing_def acknowledged_def)
      have "prefix [waiting_line] (said vs' @ [waiting_line])" by (cases vs') (simp_all add: said_def)
      then show "prefix (said us @ [waiting_line, w @ [NL], posting_line, waiting_line]) (said ws @ [waiting_line])
          \<or> \<not> idle (us @ [w]) s" unfolding all by simp
    qed
  qed
qed (auto simp: at_end_def)

text \<open>A measure of what is still to be done.\<close>

fun spc_rank :: "spc \<Rightarrow> nat" where
  "spc_rank S_test = 5"
| "spc_rank S_print = 4"
| "spc_rank S_posting = 3"
| "spc_rank S_post = 2"
| "spc_rank S_say = 1"
| "spc_rank S_wait = 0"
| "spc_rank S_last_post = 2"
| "spc_rank S_last_wait = 1"
| "spc_rank S_done = 0"

definition shm_weight :: "shm \<Rightarrow> nat" where
  "shm_weight s = 7 * length (sh_ops s) + 6 * sh_client_sem s + spc_rank (sh_spc s)"

lemma shm_weight_step: "shm_step s s' \<Longrightarrow> shm_weight s' < shm_weight s"
  by (erule shm_stepE)
    (auto simp: shm_weight_def mmap_client_step.simps mmap_server_step.simps
      split: list.splits shm_op.splits spc.splits nat.splits)

lemma shm_stuck_ending:
  assumes "words_fit ws" "shm_inv ws s" "\<And>s'. \<not> shm_step s s'"
  shows "at_end ws s \<and> (sh_ops s = [] \<longleftrightarrow> sh_spc s \<noteq> S_done)"
proof -
  have c: "mmap_client_step s = None" and v: "mmap_server_step s = None"
    using assms(3) client server by (metis not_None_eq)+
  have "at_end ws s"
  proof (rule ccontr)
    assume "\<not> at_end ws s"
    with assms(2) obtain us w vs ops where u: "storing us w ops s \<or> acknowledged us w ops s"
      unfolding shm_inv_def Let_def by blast
    then show False
    proof
      assume "storing us w ops s"
      then consider x xs where "sh_ops s = Sh_strncpy x # xs" | i xs where "sh_ops s = Sh_nul i # xs"
        | xs where "sh_ops s = Sh_post # xs" by (auto simp: storing_def message_def split: if_splits)
      then show False using c by cases (simp_all add: mmap_client_step.simps)
    next
      assume "acknowledged us w ops s"
      with c v show False
        by (auto simp: acknowledged_def idle_def busy_def mmap_client_step.simps mmap_server_step.simps)
    qed
  qed
  moreover from this c v have "sh_ops s = [] \<longleftrightarrow> sh_spc s \<noteq> S_done"
    by (auto simp: at_end_def mmap_client_step.simps mmap_server_step.simps)
  ultimately show ?thesis by blast
qed

lemma mmap_client_words_fit: "words_fit (mmap_client_words file)"
  using mmap_client_words_facts by (auto simp: words_fit_def)

section \<open>The sizes of the mappings\<close>

definition get_page_size :: "int \<Rightarrow> uint64 result" where
  "get_page_size page_size =
     (if page_size = - 1 then Exits EXIT_FAILURE [Perror ''sysconf''] else Returns (word_of_int page_size))"

definition client_shm_size :: "uint64 \<Rightarrow> uint64" where
  "client_shm_size page_size = (word_of_nat SHM_SIZE + page_size - 1) AND NOT (page_size - 1)"

definition server_shm_size :: "uint64 \<Rightarrow> uint64" where
  "server_shm_size page_size =
     (let shm_size = (word_of_nat SHM_SIZE + page_size - 1) AND NOT (page_size - 1)
      in shm_size + (page_size - shm_size mod page_size))"

text \<open>The size the client maps is \<^verbatim>\<open>SHM_SIZE\<close> rounded up to whole pages.\<close>

lemma and_not_mask: "(w :: 'a :: len word) AND NOT (mask n) = push_bit n (drop_bit n w)"
  by (rule bit_word_eqI) (auto simp: bit_simps)

lemma push_drop_nat: "push_bit n (drop_bit n (m :: nat)) = m div 2 ^ n * 2 ^ n"
  by (simp add: push_bit_eq_mult drop_bit_eq_div)

lemma client_shm_size_nat:
  assumes "page_size = 2 ^ k" "k < 63"
  shows "unat (client_shm_size page_size) = (1023 + 2 ^ k) div 2 ^ k * 2 ^ k"
proof -
  let ?m = "(1023 + 2 ^ k) :: nat"
  have k: "(2 :: nat) ^ k \<le> 2 ^ 62" using assms(2) by (intro power_increasing) auto
  have "page_size - 1 = mask k" using assms(1) by (simp add: mask_eq_exp_minus_1)
  moreover have "word_of_nat SHM_SIZE + page_size - 1 = (word_of_nat ?m :: uint64)"
    using assms(1) by (simp add: SHM_SIZE_def)
  ultimately have "client_shm_size page_size = push_bit k (drop_bit k (word_of_nat ?m))"
    by (simp add: client_shm_size_def and_not_mask)
  moreover have u: "unat (word_of_nat ?m :: uint64) = ?m"
    using k by (intro unat_word_of_nat_u64) simp
  have "take_bit 64 ?m = ?m" using k by (simp add: take_bit_nat_eq_self_iff)
  then have "unat (push_bit k (drop_bit k (word_of_nat ?m :: uint64))) = take_bit 64 (push_bit k (drop_bit k ?m))"
    using u by (simp add: unsigned_push_bit_eq unsigned_drop_bit_eq)
  also have "\<dots> = push_bit k (drop_bit k ?m)"
  proof -
    have "?m div 2 ^ k * 2 ^ k \<le> ?m" by (rule div_times_less_eq_dividend)
    also have "\<dots> < 2 ^ 64" using k by simp
    finally show ?thesis by (simp add: push_drop_nat take_bit_nat_eq_self_iff)
  qed
  ultimately show ?thesis by (simp add: push_drop_nat)
qed

section \<open>Schedules\<close>

text \<open>A run by a list of turns, the client's being \<open>True\<close>; a process that cannot go on passes.\<close>

fun shm_run :: "bool list \<Rightarrow> shm \<Rightarrow> shm" where
  "shm_run [] s = s"
| "shm_run (b # bs) s = shm_run bs (case (if b then mmap_client_step s else mmap_server_step s) of None \<Rightarrow> s | Some s' \<Rightarrow> s')"

lemma shm_run_reach: "shm_reach s0 s \<Longrightarrow> shm_reach s0 (shm_run bs s)"
proof (induction bs arbitrary: s)
  case (Cons b bs)
  have "shm_reach s0 (case (if b then mmap_client_step s else mmap_server_step s) of None \<Rightarrow> s | Some s' \<Rightarrow> s')"
    using Cons.prems by (auto split: option.splits intro: shm_reach.step shm_step.intros)
  with Cons.IH show ?case by simp
qed simp

definition shm_demo :: "bool list \<Rightarrow> shm" where
  "shm_demo bs = shm_run bs (shm_start (replicate 1024 NUL) [CHR ''h'', CHR ''i'', NL])"

definition rounds_of :: "bool \<Rightarrow> bool list" where
  "rounds_of b = concat (replicate 25 [b, \<not> b])"

lemma shm_demo_reach: "shm_reach (shm_start (replicate 1024 NUL) [CHR ''h'', CHR ''i'', NL]) (shm_demo bs)"
  unfolding shm_demo_def by (rule shm_run_reach [OF shm_reach.refl])

section \<open>Theorems about the programs\<close>

text \<open>C14. In every interleaving of the client and the server and for every file, whatever its lines: no call of the client stores
  outside a memory object of \<^verbatim>\<open>SHM_SIZE\<close> bytes or more, its guard against long words is never met, and the server has
  printed an initial part of the words the client takes from the file, whole and in order, between its own two lines each. These
  are the words of the file if it has no NUL and no line longer than the 99 characters that fit into \<^verbatim>\<open>buffer[100]\<close>; a longer line
  is read in pieces, which cuts a word in two, and of a line with a NUL the rest is lost.\<close>

theorem shm_prints_words:
  assumes "shm_reach (shm_start mem file) s" "SHM_SIZE \<le> length mem"
  shows "\<not> sh_undef s \<and> sh_err s = []
    \<and> prefix (sh_out s) (concat (map (\<lambda>w. [waiting_line, w @ [NL], posting_line]) (mmap_client_words file)) @ [waiting_line])
    \<and> (NUL \<notin> set file \<and> lines_at_most 99 file \<longrightarrow> mmap_client_words file = words_of file)"
proof -
  have no_fail: "(\<forall>m. Sh_fail m \<notin> set (sh_ops s)) \<and> sh_err s = []"
    using assms(1)
  proof (induction "shm_start mem file" s rule: shm_reach.induct)
    case refl
    show ?case by (auto simp: shm_start_def mmap_client_ops_messages message_def)
  next
    case (step s' s'')
    from step(3,2) show ?case
      by (auto elim!: shm_stepE simp: mmap_client_step.simps mmap_server_step.simps
          split: list.splits shm_op.splits spc.splits nat.splits)
  qed
  have "mmap_client_words file = words_of file" if "NUL \<notin> set file" "lines_at_most 99 file"
    using fgets_lines_words [of 98 "file"] that(2)
    unfolding mmap_client_words_def BUFFER_LEN_def fgets_lines_c_str [OF that(1), of words_of] by simp
  moreover have inv: "shm_inv (mmap_client_words file) s" by (rule shm_reach_inv [OF assms(1,2)])
  ultimately show ?thesis
    using shm_inv_out [OF mmap_client_words_fit inv] no_fail by (simp add: shm_inv_def sized_def said_def)
qed

lemma shm_prints_words_witness:
  "sh_out (shm_demo (rounds_of True)) = [waiting_line, ''hi'' @ [NL], posting_line, waiting_line]
    \<and> prefix (sh_out (shm_demo (rounds_of True))) ([waiting_line, ''hi'' @ [NL], posting_line] @ [waiting_line])"
proof -
  have "sh_out (shm_demo (rounds_of True)) = [waiting_line, ''hi'' @ [NL], posting_line, waiting_line]" by code_simp
  then show ?thesis
    using shm_prints_words [OF shm_demo_reach] by (simp add: SHM_SIZE_def lines_at_most_length is_blank_def)
qed

text \<open>C15. Every run ends, since each step lowers a weight, and when neither process can go on, the server has
  printed every word, but exactly one of the two has come to its end: the other waits on
  \<^verbatim>\<open>server_sem\<close> for ever, because the server takes part in waiting for its own last post.\<close>

theorem shm_leaves_one_waiting:
  assumes "shm_reach (shm_start mem file) s" "SHM_SIZE \<le> length mem"
  shows "(\<forall>s'. shm_step s s' \<longrightarrow> shm_weight s' < shm_weight s)
    \<and> ((\<nexists>s'. shm_step s s') \<longrightarrow> sh_out s = said (mmap_client_words file) @ [waiting_line]
        \<and> (sh_ops s = [] \<and> sh_spc s = S_last_wait \<or> sh_ops s = [Sh_wait] \<and> sh_spc s = S_done))"
proof -
  note inv = shm_reach_inv [OF assms]
  have "sh_out s = said (mmap_client_words file) @ [waiting_line]
      \<and> (sh_ops s = [] \<and> sh_spc s = S_last_wait \<or> sh_ops s = [Sh_wait] \<and> sh_spc s = S_done)"
    if "\<nexists>s'. shm_step s s'"
    using shm_stuck_ending [OF mmap_client_words_fit inv] that by (auto simp: at_end_def)
  then show ?thesis using shm_weight_step by blast
qed

lemma shm_no_step: "mmap_client_step s = None \<Longrightarrow> mmap_server_step s = None \<Longrightarrow> \<nexists>s'. shm_step s s'"
  by (auto elim: shm_stepE)

lemma shm_leaves_one_waiting_witness:
  "sh_ops (shm_demo (rounds_of True)) = [] \<and> sh_spc (shm_demo (rounds_of True)) = S_last_wait
    \<or> sh_ops (shm_demo (rounds_of True)) = [Sh_wait] \<and> sh_spc (shm_demo (rounds_of True)) = S_done"
proof -
  have "\<nexists>s'. shm_step (shm_demo (rounds_of True)) s'"
    by (rule shm_no_step) code_simp+
  then show ?thesis
    using shm_leaves_one_waiting [OF shm_demo_reach, of "rounds_of True"] by (simp add: SHM_SIZE_def)
qed

text \<open>For a page size that is a power of two, the client maps the least multiple of it that holds
  \<^verbatim>\<open>SHM_SIZE\<close> bytes, and the server creates one page more than that: the client never maps beyond the
  end of the object.\<close>

theorem shm_sizes:
  assumes "page_size = 2 ^ k" "k < 63"
  shows "unat page_size dvd unat (client_shm_size page_size)
    \<and> SHM_SIZE \<le> unat (client_shm_size page_size) \<and> unat (client_shm_size page_size) < SHM_SIZE + unat page_size
    \<and> unat (server_shm_size page_size) = unat (client_shm_size page_size) + unat page_size"
proof -
  have "(2 :: nat) ^ k < 2 ^ 64" using assms(2) by (intro power_strict_increasing) auto
  then have p: "unat page_size = 2 ^ k" using unat_word_of_nat_u64 [of "2 ^ k"] assms(1) by simp
  let ?q = "(1023 + 2 ^ k) div (2 :: nat) ^ k"
  have c: "unat (client_shm_size page_size) = ?q * 2 ^ k" by (rule client_shm_size_nat [OF assms])
  have "?q * 2 ^ k + (1023 + 2 ^ k) mod 2 ^ k = 1023 + 2 ^ k" by (rule div_mult_mod_eq)
  moreover have "(1023 + 2 ^ k) mod 2 ^ k < (2 :: nat) ^ k" by simp
  ultimately have bounds: "1024 \<le> ?q * 2 ^ k" "?q * 2 ^ k < 1024 + 2 ^ k" by linarith+
  have "client_shm_size page_size mod page_size = 0"
    using c p by (simp add: unat_eq_zero [symmetric] unat_mod)
  then have "server_shm_size page_size = client_shm_size page_size + page_size"
    by (simp add: server_shm_size_def client_shm_size_def Let_def)
  moreover have "(2 :: nat) ^ k \<le> 2 ^ 62" using assms(2) by (intro power_increasing) auto
  then have "?q * 2 ^ k + 2 ^ k < 2 ^ 64" using bounds(2) by simp
  ultimately have "unat (server_shm_size page_size) = ?q * 2 ^ k + 2 ^ k"
    using c p by (simp add: unat_word_ariths)
  with c p bounds show ?thesis by (simp add: SHM_SIZE_def)
qed

lemma shm_sizes_witness:
  "unat (client_shm_size 4096) < 5120 \<and> unat (server_shm_size 4096) = unat (client_shm_size 4096) + 4096"
  using shm_sizes [of 4096 12] by (simp add: SHM_SIZE_def)

end
