(* ===== verification/Cond_Mailbox.thy ===== *)
theory Cond_Mailbox
  imports C_Text
begin

text \<open>
  \<^verbatim>\<open>src/pthread-condition/pthread_cond_wait-pthread_cond_signal/main.c\<close>: one thread hands the words
  of a file to another through \<^verbatim>\<open>data->shared_word\<close>, guarded by a mutex, a condition variable and the
  flag \<^verbatim>\<open>word_ready\<close>. A step is one call or one access to the shared data; a waiting thread may also wake
  up without a signal, as POSIX allows. The theory shows that the threads never block each other for
  good, and what goes wrong because the receiver looks at \<^verbatim>\<open>shared_word\<close> after it has unlocked the mutex.
\<close>

section \<open>State\<close>

text \<open>Control points of \<^verbatim>\<open>send_word\<close>, called by \<^verbatim>\<open>child_process\<close>: what comes next. \<open>C_sleep\<close> is inside
  \<^verbatim>\<open>pthread_cond_wait\<close>, \<open>C_wake\<close> there too but woken and in need of the mutex.\<close>

datatype cpc = C_lock | C_test | C_sleep | C_wake | C_free | C_set | C_ready | C_signal | C_unlock | C_done

text \<open>Control points of \<^verbatim>\<open>parent_process\<close>; \<open>Q_check\<close> and \<open>Q_print\<close> hold its variable \<^verbatim>\<open>word\<close>.\<close>

datatype qpc = Q_lock | Q_test | Q_sleep | Q_wake | Q_clear | Q_signal | Q_unlock | Q_read
  | Q_check "nat option" | Q_print nat | Q_done

datatype thread = Child | Parent

text \<open>A pointer is an index of the heap, the null pointer \<open>None\<close>; a freed block is \<open>None\<close> in the heap.\<close>

record mailbox =
  mb_owner :: "thread option"
  mb_ready :: bool
  mb_word :: "nat option"
  mb_heap :: "string option list"
  mb_todo :: "string option list"
  mb_cpc :: cpc
  mb_qpc :: qpc
  mb_out :: "string list"
  mb_err :: "err_item list"
  mb_undef :: bool

text \<open>The words \<^verbatim>\<open>child_process\<close> sends, then the null pointer: the lines of \<^verbatim>\<open>fgets\<close> into
  \<^verbatim>\<open>line[255]\<close>, cut at the newline, by spaces and tabs.\<close>

definition MAILBOX_WORD_LENGTH :: nat where "MAILBOX_WORD_LENGTH = 255"

definition mailbox_line :: "string \<Rightarrow> string list" where
  "mailbox_line line = tokens LINE_BLANKS (takeWhile (\<lambda>c. c \<noteq> NL) (c_str (line @ [NUL])))"

definition mailbox_messages :: "string \<Rightarrow> string option list" where
  "mailbox_messages file = map Some (concat (map mailbox_line (fgets_lines (MAILBOX_WORD_LENGTH - 2) file))) @ [None]"

section \<open>Steps\<close>

definition mailbox_free :: "nat option \<Rightarrow> string option list \<Rightarrow> string option list" where
  "mailbox_free p h = (case p of None \<Rightarrow> h | Some a \<Rightarrow> h[a := None])"

definition mailbox_child_step :: "mailbox \<Rightarrow> mailbox option" where
  "mailbox_child_step s =
     (case mb_cpc s of
        C_lock \<Rightarrow> if mb_owner s = None then Some (s\<lparr>mb_owner := Some Child, mb_cpc := C_test\<rparr>) else None
      | C_test \<Rightarrow> if mb_ready s then Some (s\<lparr>mb_owner := None, mb_cpc := C_sleep\<rparr>) else Some (s\<lparr>mb_cpc := C_free\<rparr>)
      | C_sleep \<Rightarrow> None
      | C_wake \<Rightarrow> if mb_owner s = None then Some (s\<lparr>mb_owner := Some Child, mb_cpc := C_test\<rparr>) else None
      | C_free \<Rightarrow> Some (s\<lparr>mb_heap := mailbox_free (mb_word s) (mb_heap s), mb_cpc := C_set\<rparr>)
      | C_set \<Rightarrow> (case hd (mb_todo s) of
            None \<Rightarrow> Some (s\<lparr>mb_word := None, mb_cpc := C_ready\<rparr>)
          | Some w \<Rightarrow> Some (s\<lparr>mb_word := Some (length (mb_heap s)), mb_heap := mb_heap s @ [Some w], mb_cpc := C_ready\<rparr>))
      | C_ready \<Rightarrow> Some (s\<lparr>mb_ready := True, mb_cpc := C_signal\<rparr>)
      | C_signal \<Rightarrow> Some (s\<lparr>mb_qpc := (if mb_qpc s = Q_sleep then Q_wake else mb_qpc s), mb_cpc := C_unlock\<rparr>)
      | C_unlock \<Rightarrow> Some (s\<lparr>mb_owner := None, mb_todo := tl (mb_todo s), mb_cpc := (if tl (mb_todo s) = [] then C_done else C_lock)\<rparr>)
      | C_done \<Rightarrow> None)"

definition mailbox_line_out :: "string \<Rightarrow> string" where
  "mailbox_line_out w = ''Parent: received word: '' @ w @ [NL]"

definition mailbox_parent_step :: "mailbox \<Rightarrow> mailbox option" where
  "mailbox_parent_step s =
     (case mb_qpc s of
        Q_lock \<Rightarrow> if mb_owner s = None then Some (s\<lparr>mb_owner := Some Parent, mb_qpc := Q_test\<rparr>) else None
      | Q_test \<Rightarrow> if \<not> mb_ready s then Some (s\<lparr>mb_owner := None, mb_qpc := Q_sleep\<rparr>) else Some (s\<lparr>mb_qpc := Q_clear\<rparr>)
      | Q_sleep \<Rightarrow> None
      | Q_wake \<Rightarrow> if mb_owner s = None then Some (s\<lparr>mb_owner := Some Parent, mb_qpc := Q_test\<rparr>) else None
      | Q_clear \<Rightarrow> Some (s\<lparr>mb_ready := False, mb_qpc := Q_signal\<rparr>)
      | Q_signal \<Rightarrow> Some (s\<lparr>mb_cpc := (if mb_cpc s = C_sleep then C_wake else mb_cpc s), mb_qpc := Q_unlock\<rparr>)
      | Q_unlock \<Rightarrow> Some (s\<lparr>mb_owner := None, mb_qpc := Q_read\<rparr>)
      | Q_read \<Rightarrow> Some (s\<lparr>mb_qpc := Q_check (mb_word s)\<rparr>)
      | Q_check p \<Rightarrow> Some (s\<lparr>mb_qpc := (case p of None \<Rightarrow> Q_done | Some a \<Rightarrow> Q_print a)\<rparr>)
      | Q_print a \<Rightarrow> (case mb_heap s ! a of
            None \<Rightarrow> Some (s\<lparr>mb_undef := True, mb_qpc := Q_lock\<rparr>)
          | Some w \<Rightarrow> Some (s\<lparr>mb_out := mb_out s @ [mailbox_line_out w], mb_qpc := Q_lock\<rparr>))
      | Q_done \<Rightarrow> None)"

text \<open>The moves of the scheduler; \<open>strdup_fails\<close> ends the process.\<close>

inductive mailbox_move :: "mailbox \<Rightarrow> mailbox \<Rightarrow> bool" where
  child: "mb_err s = [] \<Longrightarrow> mailbox_child_step s = Some s' \<Longrightarrow> mailbox_move s s'"
| parent: "mb_err s = [] \<Longrightarrow> mailbox_parent_step s = Some s' \<Longrightarrow> mailbox_move s s'"

inductive mailbox_step :: "mailbox \<Rightarrow> mailbox \<Rightarrow> bool" where
  move: "mailbox_move s s' \<Longrightarrow> mailbox_step s s'"
| spurious_child: "mb_cpc s = C_sleep \<Longrightarrow> mailbox_step s (s\<lparr>mb_cpc := C_wake\<rparr>)"
| spurious_parent: "mb_qpc s = Q_sleep \<Longrightarrow> mailbox_step s (s\<lparr>mb_qpc := Q_wake\<rparr>)"
| strdup_fails: "mb_err s = [] \<Longrightarrow> mb_cpc s = C_set \<Longrightarrow> hd (mb_todo s) \<noteq> None
    \<Longrightarrow> mailbox_step s (s\<lparr>mb_err := [Perror ''Error duplicating word'']\<rparr>)"

inductive mailbox_reach :: "mailbox \<Rightarrow> mailbox \<Rightarrow> bool" where
  refl: "mailbox_reach s s"
| step: "mailbox_reach s s' \<Longrightarrow> mailbox_step s' s'' \<Longrightarrow> mailbox_reach s s''"

definition mailbox_start :: "string \<Rightarrow> mailbox" where
  "mailbox_start file = \<lparr>mb_owner = None, mb_ready = False, mb_word = None, mb_heap = [], mb_todo = mailbox_messages file,
     mb_cpc = C_lock, mb_qpc = Q_lock, mb_out = [], mb_err = [], mb_undef = False\<rparr>"

section \<open>The invariant\<close>

text \<open>Who holds the mutex.\<close>

definition c_holds :: "cpc \<Rightarrow> bool" where
  "c_holds pc \<longleftrightarrow> pc \<in> {C_test, C_free, C_set, C_ready, C_signal, C_unlock}"

definition q_holds :: "qpc \<Rightarrow> bool" where
  "q_holds pc \<longleftrightarrow> pc \<in> {Q_test, Q_clear, Q_signal, Q_unlock}"

text \<open>The mutex is held by the thread that is between lock and unlock, by no more than one.\<close>

definition mutex_inv :: "mailbox \<Rightarrow> bool" where
  "mutex_inv s \<longleftrightarrow> (mb_owner s = Some Child \<longleftrightarrow> c_holds (mb_cpc s)) \<and> (mb_owner s = Some Parent \<longleftrightarrow> q_holds (mb_qpc s))"

text \<open>The flag by the control points: a thread that sleeps is waiting for the flag to change, or the
  signal for the change is just about to be given.\<close>

definition flag_ok :: "cpc \<Rightarrow> qpc \<Rightarrow> bool \<Rightarrow> bool" where
  "flag_ok c q r \<longleftrightarrow>
     (c \<in> {C_free, C_set, C_ready} \<longrightarrow> \<not> r) \<and> (c \<in> {C_signal, C_unlock} \<longrightarrow> r)
     \<and> (q = Q_clear \<longrightarrow> r) \<and> (q \<in> {Q_signal, Q_unlock} \<longrightarrow> \<not> r)
     \<and> (c = C_sleep \<longrightarrow> r \<or> q = Q_signal) \<and> (q = Q_sleep \<longrightarrow> \<not> r \<or> c = C_signal)"

text \<open>The messages: the null pointer comes last.\<close>

fun ends_null :: "string option list \<Rightarrow> bool" where
  "ends_null [] = False"
| "ends_null (None # ms) \<longleftrightarrow> ms = []"
| "ends_null (Some w # ms) = ends_null ms"

text \<open>The null pointer has been stored for good.\<close>

definition last_stored :: "cpc \<Rightarrow> nat option \<Rightarrow> string option list \<Rightarrow> bool" where
  "last_stored c w t \<longleftrightarrow> w = None \<and> (t = [None] \<and> c \<in> {C_ready, C_signal, C_unlock} \<or> t = [] \<and> c = C_done)"

text \<open>The pointer is null before the first message and after the last; once the last message has been
  taken, the receiver is on its way out.\<close>

definition todo_ok :: "cpc \<Rightarrow> qpc \<Rightarrow> bool \<Rightarrow> nat option \<Rightarrow> string option list \<Rightarrow> bool" where
  "todo_ok c q r w t \<longleftrightarrow>
     (if c = C_done then t = [] else ends_null t) \<and> (t = [] \<longrightarrow> w = None)
     \<and> (c \<in> {C_ready, C_signal, C_unlock} \<longrightarrow> (w = None \<longleftrightarrow> t = [None]))
     \<and> (w = None \<longrightarrow> last_stored c w t \<or> \<not> r \<and> q \<in> {Q_lock, Q_test, Q_sleep, Q_wake})
     \<and> (q \<in> {Q_check None, Q_done} \<longrightarrow> last_stored c w t)
     \<and> (t = [] \<and> \<not> r \<longrightarrow> q \<in> {Q_signal, Q_unlock, Q_read, Q_check None, Q_done})"

definition mailbox_inv :: "mailbox \<Rightarrow> bool" where
  "mailbox_inv s \<longleftrightarrow> mutex_inv s \<and> flag_ok (mb_cpc s) (mb_qpc s) (mb_ready s)
     \<and> todo_ok (mb_cpc s) (mb_qpc s) (mb_ready s) (mb_word s) (mb_todo s)"

lemma ends_null_messages: "ends_null (map Some ws @ [None])"
  by (induction ws) auto

lemma mutex_exclusive: "mutex_inv s \<Longrightarrow> c_holds (mb_cpc s) \<Longrightarrow> \<not> q_holds (mb_qpc s)"
  by (auto simp: mutex_inv_def)

lemma mutex_exclusive_parent: "mutex_inv s \<Longrightarrow> q_holds (mb_qpc s) \<Longrightarrow> \<not> c_holds (mb_cpc s)"
  by (auto simp: mutex_inv_def)

lemma mailbox_child_mutex: "mutex_inv s \<Longrightarrow> mailbox_child_step s = Some s' \<Longrightarrow> mutex_inv s'"
  by (cases "mb_cpc s") (auto simp: mailbox_child_step_def mutex_inv_def c_holds_def q_holds_def split: if_splits option.splits)

lemma mailbox_parent_mutex: "mutex_inv s \<Longrightarrow> mailbox_parent_step s = Some s' \<Longrightarrow> mutex_inv s'"
  by (cases "mb_qpc s") (auto simp: mailbox_parent_step_def mutex_inv_def c_holds_def q_holds_def split: if_splits option.splits)

text \<open>The transitions of the two threads, on the components the invariant looks at.\<close>

lemma flag_ok_child:
  "flag_ok C_lock q r \<Longrightarrow> flag_ok C_test q r"
  "flag_ok C_wake q r \<Longrightarrow> flag_ok C_test q r"
  "flag_ok C_test q True \<Longrightarrow> flag_ok C_sleep q True"
  "flag_ok C_test q False \<Longrightarrow> flag_ok C_free q False"
  "flag_ok C_free q r \<Longrightarrow> flag_ok C_set q r"
  "flag_ok C_set q r \<Longrightarrow> flag_ok C_ready q r"
  "flag_ok C_ready q r \<Longrightarrow> \<not> q_holds q \<Longrightarrow> flag_ok C_signal q True"
  "flag_ok C_signal Q_sleep r \<Longrightarrow> flag_ok C_unlock Q_wake r"
  "flag_ok C_signal q r \<Longrightarrow> q \<noteq> Q_sleep \<Longrightarrow> flag_ok C_unlock q r"
  "flag_ok C_unlock q r \<Longrightarrow> flag_ok C_lock q r"
  "flag_ok C_unlock q r \<Longrightarrow> flag_ok C_done q r"
  "flag_ok C_sleep q r \<Longrightarrow> flag_ok C_wake q r"
  by (cases q; simp add: flag_ok_def q_holds_def)+

lemma flag_ok_parent:
  "flag_ok c Q_lock r \<Longrightarrow> flag_ok c Q_test r"
  "flag_ok c Q_wake r \<Longrightarrow> flag_ok c Q_test r"
  "flag_ok c Q_test False \<Longrightarrow> flag_ok c Q_sleep False"
  "flag_ok c Q_test True \<Longrightarrow> flag_ok c Q_clear True"
  "flag_ok c Q_clear r \<Longrightarrow> \<not> c_holds c \<Longrightarrow> flag_ok c Q_signal False"
  "flag_ok C_sleep Q_signal r \<Longrightarrow> flag_ok C_wake Q_unlock r"
  "flag_ok c Q_signal r \<Longrightarrow> c \<noteq> C_sleep \<Longrightarrow> flag_ok c Q_unlock r"
  "flag_ok c Q_unlock r \<Longrightarrow> flag_ok c Q_read r"
  "flag_ok c Q_read r \<Longrightarrow> flag_ok c (Q_check p) r"
  "flag_ok c (Q_check p) r \<Longrightarrow> flag_ok c Q_done r"
  "flag_ok c (Q_check p) r \<Longrightarrow> flag_ok c (Q_print a) r"
  "flag_ok c (Q_print a) r \<Longrightarrow> flag_ok c Q_lock r"
  "flag_ok c Q_sleep r \<Longrightarrow> flag_ok c Q_wake r"
  by (cases c; simp add: flag_ok_def c_holds_def)+

lemma todo_ok_child:
  "todo_ok C_lock q r w t \<Longrightarrow> todo_ok C_test q r w t"
  "todo_ok C_wake q r w t \<Longrightarrow> todo_ok C_test q r w t"
  "todo_ok C_test q r w t \<Longrightarrow> todo_ok C_sleep q r w t"
  "todo_ok C_test q r w t \<Longrightarrow> todo_ok C_free q r w t"
  "todo_ok C_free q r w t \<Longrightarrow> todo_ok C_set q r w t"
  "todo_ok C_ready q r w t \<Longrightarrow> \<not> q_holds q \<Longrightarrow> todo_ok C_signal q True w t"
  "todo_ok C_signal Q_sleep r w t \<Longrightarrow> todo_ok C_unlock Q_wake r w t"
  "todo_ok C_signal q r w t \<Longrightarrow> q \<noteq> Q_sleep \<Longrightarrow> todo_ok C_unlock q r w t"
  "todo_ok C_sleep q r w t \<Longrightarrow> todo_ok C_wake q r w t"
  by (simp add: todo_ok_def last_stored_def q_holds_def; blast)+

lemma todo_ok_set:
  "todo_ok C_set q r w t \<Longrightarrow> hd t = None \<Longrightarrow> todo_ok C_ready q r None t"
  "todo_ok C_set q r w t \<Longrightarrow> hd t = Some v \<Longrightarrow> todo_ok C_ready q r (Some a) t"
  by (cases t rule: ends_null.cases; simp add: todo_ok_def last_stored_def)+

lemma todo_ok_unlock:
  "todo_ok C_unlock q r w t \<Longrightarrow> r \<Longrightarrow> tl t = [] \<Longrightarrow> todo_ok C_done q r w []"
  "todo_ok C_unlock q r w t \<Longrightarrow> r \<Longrightarrow> tl t \<noteq> [] \<Longrightarrow> todo_ok C_lock q r w (tl t)"
  by (cases t rule: ends_null.cases; simp add: todo_ok_def last_stored_def; blast)+

lemma todo_ok_parent:
  "todo_ok c Q_lock r w t \<Longrightarrow> todo_ok c Q_test r w t"
  "todo_ok c Q_wake r w t \<Longrightarrow> todo_ok c Q_test r w t"
  "todo_ok c Q_test False w t \<Longrightarrow> todo_ok c Q_sleep False w t"
  "todo_ok c Q_test True w t \<Longrightarrow> todo_ok c Q_clear True w t"
  "todo_ok c Q_clear True w t \<Longrightarrow> todo_ok c Q_signal False w t"
  "todo_ok C_sleep Q_signal r w t \<Longrightarrow> todo_ok C_wake Q_unlock r w t"
  "todo_ok c Q_signal r w t \<Longrightarrow> todo_ok c Q_unlock r w t"
  "todo_ok c Q_unlock r w t \<Longrightarrow> todo_ok c Q_read r w t"
  "todo_ok c Q_read r w t \<Longrightarrow> todo_ok c (Q_check w) r w t"
  "todo_ok c (Q_check None) r w t \<Longrightarrow> todo_ok c Q_done r w t"
  "todo_ok c (Q_check (Some a)) r w t \<Longrightarrow> todo_ok c (Q_print a) r w t"
  "todo_ok c (Q_print a) r w t \<Longrightarrow> todo_ok c Q_lock r w t"
  "todo_ok c Q_sleep r w t \<Longrightarrow> todo_ok c Q_wake r w t"
  by (simp add: todo_ok_def last_stored_def; blast)+

lemma mailbox_child_inv:
  assumes "mailbox_inv s" "mailbox_child_step s = Some s'"
  shows "mailbox_inv s'"
proof -
  have m: "mutex_inv s" "mutex_inv s'" using assms mailbox_child_mutex by (auto simp: mailbox_inv_def)
  have f: "flag_ok (mb_cpc s) (mb_qpc s) (mb_ready s)"
    and t: "todo_ok (mb_cpc s) (mb_qpc s) (mb_ready s) (mb_word s) (mb_todo s)" using assms(1) by (simp_all add: mailbox_inv_def)
  have q: "c_holds (mb_cpc s) \<Longrightarrow> \<not> q_holds (mb_qpc s)" by (rule mutex_exclusive [OF m(1)])
  show ?thesis
  proof (cases "mb_cpc s")
    case C_test
    with f t assms(2) m(2) show ?thesis
      by (cases "mb_ready s") (auto simp: mailbox_child_step_def mailbox_inv_def intro: flag_ok_child todo_ok_child)
  next
    case C_set
    with f t assms(2) m(2) show ?thesis
      by (cases "hd (mb_todo s)") (auto simp: mailbox_child_step_def mailbox_inv_def intro: flag_ok_child todo_ok_set)
  next
    case C_ready
    then have "\<not> q_holds (mb_qpc s)" using q by (simp add: c_holds_def)
    with C_ready f t assms(2) m(2) show ?thesis
      by (auto simp: mailbox_child_step_def mailbox_inv_def intro: flag_ok_child todo_ok_child)
  next
    case C_signal
    with f t assms(2) m(2) show ?thesis
      by (cases "mb_qpc s = Q_sleep") (auto simp: mailbox_child_step_def mailbox_inv_def intro: flag_ok_child todo_ok_child)
  next
    case C_unlock
    then have "mb_ready s" using f by (simp add: flag_ok_def)
    with C_unlock f t assms(2) m(2) show ?thesis
      by (cases "tl (mb_todo s) = []")
        (auto simp: mailbox_child_step_def mailbox_inv_def intro: flag_ok_child todo_ok_unlock)
  qed (use f t assms(2) m(2) in \<open>auto simp: mailbox_child_step_def mailbox_inv_def split: if_splits
      intro: flag_ok_child todo_ok_child\<close>)
qed

lemma mailbox_parent_inv:
  assumes "mailbox_inv s" "mailbox_parent_step s = Some s'"
  shows "mailbox_inv s'"
proof -
  have m: "mutex_inv s" "mutex_inv s'" using assms mailbox_parent_mutex by (auto simp: mailbox_inv_def)
  have f: "flag_ok (mb_cpc s) (mb_qpc s) (mb_ready s)"
    and t: "todo_ok (mb_cpc s) (mb_qpc s) (mb_ready s) (mb_word s) (mb_todo s)" using assms(1) by (simp_all add: mailbox_inv_def)
  show ?thesis
  proof (cases "mb_qpc s")
    case Q_test
    with f t assms(2) m(2) show ?thesis
      by (cases "mb_ready s") (auto simp: mailbox_parent_step_def mailbox_inv_def intro: flag_ok_parent todo_ok_parent)
  next
    case Q_clear
    then have "\<not> c_holds (mb_cpc s)" "mb_ready s"
      using mutex_exclusive_parent [OF m(1)] f by (simp_all add: q_holds_def flag_ok_def)
    with Q_clear f t assms(2) m(2) show ?thesis
      by (auto simp: mailbox_parent_step_def mailbox_inv_def intro: flag_ok_parent todo_ok_parent)
  next
    case Q_signal
    with f t assms(2) m(2) show ?thesis
      by (cases "mb_cpc s = C_sleep") (auto simp: mailbox_parent_step_def mailbox_inv_def intro: flag_ok_parent todo_ok_parent)
  next
    case (Q_check p)
    with f t assms(2) m(2) show ?thesis
      by (cases p) (auto simp: mailbox_parent_step_def mailbox_inv_def intro: flag_ok_parent todo_ok_parent)
  next
    case (Q_print a)
    with f t assms(2) m(2) show ?thesis
      by (cases "mb_heap s ! a") (auto simp: mailbox_parent_step_def mailbox_inv_def intro: flag_ok_parent todo_ok_parent)
  qed (use f t assms(2) m(2) in \<open>auto simp: mailbox_parent_step_def mailbox_inv_def split: if_splits
      intro: flag_ok_parent todo_ok_parent\<close>)
qed

lemma mailbox_step_inv:
  assumes "mailbox_inv s" "mailbox_step s s'"
  shows "mailbox_inv s'"
  using assms(2)
proof cases
  case move
  then show ?thesis by cases (use assms(1) mailbox_child_inv mailbox_parent_inv in blast)+
next
  case spurious_child
  with assms(1) show ?thesis
    by (auto simp: mailbox_inv_def mutex_inv_def c_holds_def intro: flag_ok_child todo_ok_child)
next
  case spurious_parent
  with assms(1) show ?thesis
    by (auto simp: mailbox_inv_def mutex_inv_def q_holds_def intro: flag_ok_parent todo_ok_parent)
next
  case strdup_fails
  with assms(1) show ?thesis by (simp add: mailbox_inv_def mutex_inv_def)
qed

lemma mailbox_reach_inv: "mailbox_reach (mailbox_start file) s \<Longrightarrow> mailbox_inv s"
proof (induction "mailbox_start file" s rule: mailbox_reach.induct)
  case refl
  have "ends_null (mailbox_messages file)" by (simp add: mailbox_messages_def ends_null_messages)
  then show ?case
    by (auto simp: mailbox_start_def mailbox_inv_def mutex_inv_def c_holds_def q_holds_def flag_ok_def todo_ok_def)
qed (use mailbox_step_inv in blast)

section \<open>Progress\<close>

fun cpc_rank :: "cpc \<Rightarrow> nat" where
  "cpc_rank C_done = 0"
| "cpc_rank C_unlock = 1"
| "cpc_rank C_signal = 4"
| "cpc_rank C_ready = 15"
| "cpc_rank C_set = 16"
| "cpc_rank C_free = 17"
| "cpc_rank C_sleep = 18"
| "cpc_rank C_test = 19"
| "cpc_rank C_wake = 20"
| "cpc_rank C_lock = 20"

fun qpc_rank :: "qpc \<Rightarrow> nat" where
  "qpc_rank Q_done = 0"
| "qpc_rank Q_sleep = 0"
| "qpc_rank Q_clear = 0"
| "qpc_rank Q_test = 1"
| "qpc_rank Q_lock = 2"
| "qpc_rank Q_wake = 2"
| "qpc_rank (Q_print a) = 3"
| "qpc_rank (Q_check p) = 4"
| "qpc_rank Q_read = 5"
| "qpc_rank Q_unlock = 6"
| "qpc_rank Q_signal = 9"

text \<open>A message, a raised flag and the distance of each thread to the end of its round.\<close>

definition mailbox_weight :: "mailbox \<Rightarrow> nat" where
  "mailbox_weight s = 20 * (length (mb_todo s) - 1) + cpc_rank (mb_cpc s) + qpc_rank (mb_qpc s) + (if mb_ready s then 10 else 0)"

lemma child_weight:
  assumes "mailbox_child_step s = Some s'"
  shows "mailbox_weight s' < mailbox_weight s"
proof (cases "mb_cpc s")
  case C_unlock
  show ?thesis
  proof (cases "tl (mb_todo s)")
    case (Cons m ms)
    then obtain m' where "mb_todo s = m' # m # ms" by (cases "mb_todo s") auto
    with assms C_unlock show ?thesis by (auto simp: mailbox_child_step_def mailbox_weight_def)
  qed (use assms C_unlock in \<open>auto simp: mailbox_child_step_def mailbox_weight_def\<close>)
qed (use assms in \<open>auto simp: mailbox_child_step_def mailbox_weight_def split: if_splits option.splits\<close>)

lemma parent_weight:
  assumes "mailbox_inv s" "mailbox_parent_step s = Some s'"
  shows "mailbox_weight s' < mailbox_weight s"
proof -
  have "mb_qpc s = Q_clear \<Longrightarrow> mb_ready s" using assms(1) by (auto simp: mailbox_inv_def flag_ok_def)
  with assms(2) show ?thesis
    by (cases "mb_qpc s") (auto simp: mailbox_parent_step_def mailbox_weight_def split: if_splits option.splits)
qed

lemma owner_child: "mutex_inv s \<Longrightarrow> \<not> c_holds (mb_cpc s) \<Longrightarrow> \<not> q_holds (mb_qpc s) \<Longrightarrow> mb_owner s = None"
  by (cases "mb_owner s") (auto simp: mutex_inv_def intro: thread.exhaust)

text \<open>A thread inside its critical section can go on, and so can one that wants the mutex when it is free.\<close>

lemma child_enabled:
  "mb_cpc s \<notin> {C_sleep, C_done} \<Longrightarrow> c_holds (mb_cpc s) \<or> mb_owner s = None \<Longrightarrow> \<exists>s'. mailbox_child_step s = Some s'"
  by (cases "mb_cpc s"; cases "hd (mb_todo s)") (auto simp: mailbox_child_step_def c_holds_def)

lemma parent_enabled:
  "mb_qpc s \<notin> {Q_sleep, Q_done} \<Longrightarrow> mb_qpc s \<notin> {Q_lock, Q_wake} \<or> mb_owner s = None \<Longrightarrow> \<exists>s'. mailbox_parent_step s = Some s'"
  by (cases "mb_qpc s") (auto simp: mailbox_parent_step_def split: option.splits)

lemma mailbox_enabled:
  assumes "mailbox_inv s" "\<not> (mb_cpc s = C_done \<and> mb_qpc s = Q_done)"
  shows "(\<exists>s'. mailbox_child_step s = Some s') \<or> (\<exists>s'. mailbox_parent_step s = Some s')"
proof (rule ccontr)
  assume "\<not> ?thesis"
  then have stuck: "\<nexists>s'. mailbox_child_step s = Some s'" "\<nexists>s'. mailbox_parent_step s = Some s'" by blast+
  have m: "mutex_inv s" and f: "flag_ok (mb_cpc s) (mb_qpc s) (mb_ready s)"
    and t: "todo_ok (mb_cpc s) (mb_qpc s) (mb_ready s) (mb_word s) (mb_todo s)" using assms(1) by (simp_all add: mailbox_inv_def)
  have "\<not> c_holds (mb_cpc s)" using child_enabled [of s] stuck(1) by (auto simp: c_holds_def)
  moreover have "\<not> q_holds (mb_qpc s)" using parent_enabled [of s] stuck(2) by (auto simp: q_holds_def)
  ultimately have "mb_owner s = None" by (rule owner_child [OF m])
  then have c: "mb_cpc s \<in> {C_sleep, C_done}" and q: "mb_qpc s \<in> {Q_sleep, Q_done}"
    using child_enabled [of s] parent_enabled [of s] stuck by blast+
  consider "mb_cpc s = C_sleep" "mb_qpc s = Q_sleep" | "mb_cpc s = C_sleep" "mb_qpc s = Q_done"
    | "mb_cpc s = C_done" "mb_qpc s = Q_sleep" using c q assms(2) by blast
  then show False
    by cases (use f t in \<open>simp add: flag_ok_def todo_ok_def last_stored_def; blast\<close>)+
qed

section \<open>Schedules\<close>

text \<open>A run by a list of turns; a thread that cannot go on passes.\<close>

fun mailbox_run :: "thread list \<Rightarrow> mailbox \<Rightarrow> mailbox" where
  "mailbox_run [] s = s"
| "mailbox_run (Child # ts) s = mailbox_run ts (case mailbox_child_step s of None \<Rightarrow> s | Some s' \<Rightarrow> s')"
| "mailbox_run (Parent # ts) s = mailbox_run ts (case mailbox_parent_step s of None \<Rightarrow> s | Some s' \<Rightarrow> s')"

lemma mailbox_child_err: "mailbox_child_step s = Some s' \<Longrightarrow> mb_err s' = mb_err s"
  by (auto simp: mailbox_child_step_def split: cpc.splits if_splits option.splits)

lemma mailbox_parent_err: "mailbox_parent_step s = Some s' \<Longrightarrow> mb_err s' = mb_err s"
  by (auto simp: mailbox_parent_step_def split: qpc.splits if_splits option.splits)

lemma mailbox_run_reach: "mailbox_reach s0 s \<Longrightarrow> mb_err s = [] \<Longrightarrow> mailbox_reach s0 (mailbox_run ts s)"
proof (induction ts s rule: mailbox_run.induct)
  case (2 ts s)
  show ?case
  proof (cases "mailbox_child_step s")
    case (Some s')
    with 2 mailbox_child_err [OF Some] show ?thesis
      by (auto intro: mailbox_reach.step mailbox_step.move mailbox_move.child)
  qed (use 2 in simp)
next
  case (3 ts s)
  show ?case
  proof (cases "mailbox_parent_step s")
    case (Some s')
    with 3 mailbox_parent_err [OF Some] show ?thesis
      by (auto intro: mailbox_reach.step mailbox_step.move mailbox_move.parent)
  qed (use 3 in simp)
qed simp

section \<open>Theorems about the program\<close>

text \<open>C16. The threads never block each other for good, with any schedule and any spurious wakeups: as long as
  the process has not been left and the two threads are not both at their end, one of them can go on
  without waiting for a wakeup that nobody will send, and each such step lowers a weight.\<close>

theorem mailbox_progress:
  assumes "mailbox_reach (mailbox_start file) s"
  shows "(mb_err s = [] \<and> \<not> (mb_cpc s = C_done \<and> mb_qpc s = Q_done) \<longrightarrow> (\<exists>s'. mailbox_move s s'))
    \<and> (\<forall>s'. mailbox_move s s' \<longrightarrow> mailbox_weight s' < mailbox_weight s)"
proof -
  have inv: "mailbox_inv s" by (rule mailbox_reach_inv [OF assms])
  have "mailbox_weight s' < mailbox_weight s" if "mailbox_move s s'" for s'
    using that by cases (use child_weight parent_weight [OF inv] in blast)+
  moreover have "\<exists>s'. mailbox_move s s'" if "mb_err s = []" "\<not> (mb_cpc s = C_done \<and> mb_qpc s = Q_done)"
    using mailbox_enabled [OF inv that(2)] that(1) mailbox_move.intros by blast
  ultimately show ?thesis by blast
qed

definition mailbox_demo :: "thread list \<Rightarrow> mailbox" where
  "mailbox_demo ts = mailbox_run ts (mailbox_start [CHR ''h'', CHR ''i'', NL])"

lemma mailbox_demo_reach: "mailbox_reach (mailbox_start [CHR ''h'', CHR ''i'', NL]) (mailbox_demo ts)"
  unfolding mailbox_demo_def by (rule mailbox_run_reach) (simp_all add: mailbox_reach.refl mailbox_start_def)

lemma mailbox_progress_witness: "\<exists>s'. mailbox_move (mailbox_demo [Parent, Parent]) s'"
proof -
  have "mb_err (mailbox_demo [Parent, Parent]) = []" "mb_cpc (mailbox_demo [Parent, Parent]) = C_lock" by code_simp+
  with mailbox_progress [OF mailbox_demo_reach, of "[Parent, Parent]"] show ?thesis by simp
qed

text \<open>C17. The receiver looks at \<^verbatim>\<open>shared_word\<close>, and at the word, after it has unlocked the mutex. For every file
  with a word there is a run in which it prints a word that has been freed, and for every file with one
  word a run, without any such access, in which both threads come to their end and the word is not printed.\<close>

theorem mailbox_race:
  assumes "mailbox_messages file = Some w # ms"
  shows "(\<exists>s. mailbox_reach (mailbox_start file) s \<and> mb_undef s)
    \<and> (ms = [None] \<longrightarrow> (\<exists>s. mailbox_reach (mailbox_start file) s \<and> mb_cpc s = C_done \<and> mb_qpc s = Q_done
        \<and> \<not> mb_undef s \<and> mb_out s = []))"
proof -
  let ?s = "\<lambda>ts. mailbox_run ts (mailbox_start file)"
  let ?first = "replicate 7 Child @ replicate 5 Parent"
  have ms: "ms \<noteq> []" using assms by (auto simp: mailbox_messages_def)
  have reach: "mailbox_reach (mailbox_start file) (?s ts)" for ts
    by (rule mailbox_run_reach) (simp_all add: mailbox_reach.refl mailbox_start_def)
  have "mb_undef (?s (?first @ [Parent, Parent, Child, Child, Child, Parent]))"
    using assms ms by (simp add: numeral_eq_Suc mailbox_start_def mailbox_child_step_def mailbox_parent_step_def mailbox_free_def)
  moreover have "let s = ?s (?first @ replicate 7 Child @ replicate 2 Parent)
      in mb_cpc s = C_done \<and> mb_qpc s = Q_done \<and> \<not> mb_undef s \<and> mb_out s = []" if "ms = [None]"
    using assms that by (simp add: numeral_eq_Suc mailbox_start_def mailbox_child_step_def mailbox_parent_step_def mailbox_free_def)
  ultimately show ?thesis using reach unfolding Let_def by blast
qed

lemma mailbox_race_witness: "\<exists>s. mailbox_reach (mailbox_start [CHR ''h'', CHR ''i'', NL]) s \<and> mb_undef s"
proof -
  have "mailbox_messages [CHR ''h'', CHR ''i'', NL] = [Some ''hi'', None]" by code_simp
  from mailbox_race [OF this] show ?thesis by blast
qed

end
