(* ===== verification/Cond_Broadcast.thy ===== *)
theory Cond_Broadcast
  imports C_Prelude
begin

text \<open>
  \<^verbatim>\<open>src/pthread-condition/pthread_cond_broadcast\<close>: threads that wait on a condition variable until
  \<^verbatim>\<open>shared_data\<close> has reached \<^verbatim>\<open>ITERATIONS\<close>, and a main thread that counts it up and broadcasts each time.
  The theory shows that under every schedule, with any spurious wakeups, all threads come to their end, and
  that \<^verbatim>\<open>main\<close> destroys the mutex and the condition variable only after that.
\<close>

section \<open>State and steps\<close>

text \<open>What a thread does next. \<open>B_sleep\<close> waits for a wakeup, \<open>B_wake\<close> has had one and waits for the mutex.\<close>

datatype bpc = B_lock | B_test | B_wait | B_sleep | B_wake | B_awake | B_unlock | B_end

text \<open>What \<^verbatim>\<open>main\<close> does next; the number is the loop counter.\<close>

datatype mpc = M_lock nat | M_set nat | M_broadcast nat | M_unlock nat | M_join nat | M_end

datatype who = Main | Thread nat

datatype bline = Waiting nat | Awake nat nat | Updating nat

record bcast =
  bc_owner :: "who option"
  bc_data :: nat
  bc_main :: mpc
  bc_threads :: "bpc list"
  bc_out :: "bline list"

definition ITERATIONS :: nat where "ITERATIONS = 10"

definition moves :: "nat \<Rightarrow> bpc \<Rightarrow> bcast \<Rightarrow> bcast" where
  "moves i pc s = s\<lparr>bc_threads := (bc_threads s)[i := pc]\<rparr>"

text \<open>\<^verbatim>\<open>thread_function\<close>.\<close>

definition bcast_thread_step :: "nat \<Rightarrow> bcast \<Rightarrow> bcast option" where
  "bcast_thread_step i s =
     (case bc_threads s ! i of
        B_lock \<Rightarrow> if bc_owner s = None then Some (moves i B_test (s\<lparr>bc_owner := Some (Thread i)\<rparr>)) else None
      | B_test \<Rightarrow> Some (moves i (if bc_data s < ITERATIONS then B_wait else B_unlock) s)
      | B_wait \<Rightarrow> Some (moves i B_sleep (s\<lparr>bc_owner := None, bc_out := bc_out s @ [Waiting i]\<rparr>))
      | B_sleep \<Rightarrow> None
      | B_wake \<Rightarrow> if bc_owner s = None then Some (moves i B_awake (s\<lparr>bc_owner := Some (Thread i)\<rparr>)) else None
      | B_awake \<Rightarrow> Some (moves i B_test (s\<lparr>bc_out := bc_out s @ [Awake i (bc_data s)]\<rparr>))
      | B_unlock \<Rightarrow> Some (moves i B_end (s\<lparr>bc_owner := None\<rparr>))
      | B_end \<Rightarrow> None)"

text \<open>\<^verbatim>\<open>pthread_cond_broadcast\<close> wakes every thread that sleeps.\<close>

definition woken :: "bpc \<Rightarrow> bpc" where
  "woken pc = (if pc = B_sleep then B_wake else pc)"

text \<open>\<^verbatim>\<open>main\<close> once the threads have been created.\<close>

definition bcast_main_step :: "bcast \<Rightarrow> bcast option" where
  "bcast_main_step s =
     (case bc_main s of
        M_lock i \<Rightarrow> if bc_owner s = None then Some (s\<lparr>bc_owner := Some Main, bc_main := M_set i\<rparr>) else None
      | M_set i \<Rightarrow> Some (s\<lparr>bc_data := i + 1, bc_out := bc_out s @ [Updating (i + 1)], bc_main := M_broadcast i\<rparr>)
      | M_broadcast i \<Rightarrow> Some (s\<lparr>bc_threads := map woken (bc_threads s), bc_main := M_unlock i\<rparr>)
      | M_unlock i \<Rightarrow>
          Some (s\<lparr>bc_owner := None, bc_main := (if i + 1 < ITERATIONS then M_lock (i + 1) else M_join 0)\<rparr>)
      | M_join t \<Rightarrow>
          if t < length (bc_threads s)
          then (if bc_threads s ! t = B_end then Some (s\<lparr>bc_main := M_join (t + 1)\<rparr>) else None)
          else Some (s\<lparr>bc_main := M_end\<rparr>)
      | M_end \<Rightarrow> None)"

definition bcast_start :: "nat \<Rightarrow> bcast" where
  "bcast_start n = \<lparr>bc_owner = None, bc_data = 0, bc_main = M_lock 0, bc_threads = replicate n B_lock, bc_out = []\<rparr>"

text \<open>A move is a step of a thread; besides, POSIX lets a thread wake up without a reason.\<close>

inductive bcast_move :: "bcast \<Rightarrow> bcast \<Rightarrow> bool" where
  thread: "i < length (bc_threads s) \<Longrightarrow> bcast_thread_step i s = Some s' \<Longrightarrow> bcast_move s s'"
| main: "bcast_main_step s = Some s' \<Longrightarrow> bcast_move s s'"

inductive bcast_step :: "bcast \<Rightarrow> bcast \<Rightarrow> bool" where
  move: "bcast_move s s' \<Longrightarrow> bcast_step s s'"
| spurious: "i < length (bc_threads s) \<Longrightarrow> bc_threads s ! i = B_sleep \<Longrightarrow> bcast_step s (moves i B_wake s)"

inductive bcast_reach :: "bcast \<Rightarrow> bcast \<Rightarrow> bool" where
  refl: "bcast_reach s s"
| step: "bcast_reach s s' \<Longrightarrow> bcast_step s' s'' \<Longrightarrow> bcast_reach s s''"

section \<open>The invariant\<close>

fun b_holds :: "bpc \<Rightarrow> bool" where
  "b_holds B_test = True" | "b_holds B_wait = True" | "b_holds B_awake = True" | "b_holds B_unlock = True"
| "b_holds pc = False"

fun m_holds :: "mpc \<Rightarrow> bool" where
  "m_holds (M_set i) = True" | "m_holds (M_broadcast i) = True" | "m_holds (M_unlock i) = True"
| "m_holds pc = False"

definition own_ok :: "who option \<Rightarrow> mpc \<Rightarrow> bpc list \<Rightarrow> bool" where
  "own_ok ow m ts \<longleftrightarrow> (\<forall>i < length ts. b_holds (ts ! i) \<longleftrightarrow> ow = Some (Thread i)) \<and> (m_holds m \<longleftrightarrow> ow = Some Main)
     \<and> (\<forall>i. ow = Some (Thread i) \<longrightarrow> i < length ts)"

text \<open>The loop counter of \<^verbatim>\<open>main\<close> against \<^verbatim>\<open>shared_data\<close>, which is also the number of the lines of \<^verbatim>\<open>main\<close>.\<close>

fun data_ok :: "mpc \<Rightarrow> nat \<Rightarrow> bool" where
  "data_ok (M_lock i) d \<longleftrightarrow> d = i \<and> i < ITERATIONS"
| "data_ok (M_set i) d \<longleftrightarrow> d = i \<and> i < ITERATIONS"
| "data_ok (M_broadcast i) d \<longleftrightarrow> d = Suc i \<and> i < ITERATIONS"
| "data_ok (M_unlock i) d \<longleftrightarrow> d = Suc i \<and> i < ITERATIONS"
| "data_ok pc d \<longleftrightarrow> d = ITERATIONS"

text \<open>A thread sleeps only while a broadcast is still to come.\<close>

fun sleep_ok :: "mpc \<Rightarrow> nat \<Rightarrow> bpc \<Rightarrow> bool" where
  "sleep_ok m d B_wait \<longleftrightarrow> d < ITERATIONS"
| "sleep_ok m d B_sleep \<longleftrightarrow> d < ITERATIONS \<or> (\<exists>i. m = M_broadcast i)"
| "sleep_ok m d pc \<longleftrightarrow> True"

definition join_ok :: "mpc \<Rightarrow> bpc list \<Rightarrow> bool" where
  "join_ok m ts \<longleftrightarrow> (\<forall>t. m = M_join t \<longrightarrow> t \<le> length ts \<and> (\<forall>j < t. ts ! j = B_end))
     \<and> (m = M_end \<longrightarrow> (\<forall>j < length ts. ts ! j = B_end))"

fun update_of :: "bline \<Rightarrow> nat list" where
  "update_of (Updating v) = [v]"
| "update_of l = []"

definition updates :: "bcast \<Rightarrow> nat list" where
  "updates s = concat (map update_of (bc_out s))"

definition bcast_inv :: "bcast \<Rightarrow> bool" where
  "bcast_inv s \<longleftrightarrow> own_ok (bc_owner s) (bc_main s) (bc_threads s) \<and> data_ok (bc_main s) (bc_data s)
     \<and> (\<forall>i < length (bc_threads s). sleep_ok (bc_main s) (bc_data s) (bc_threads s ! i))
     \<and> join_ok (bc_main s) (bc_threads s) \<and> updates s = [1..<Suc (bc_data s)]"

lemma moves_sel [simp]: "bc_owner (moves i pc s) = bc_owner s" "bc_data (moves i pc s) = bc_data s"
    "bc_main (moves i pc s) = bc_main s" "bc_out (moves i pc s) = bc_out s"
    "bc_threads (moves i pc s) = (bc_threads s)[i := pc]" "updates (moves i pc s) = updates s"
  by (simp_all add: moves_def updates_def)

lemma join_ok_update: "join_ok m ts \<Longrightarrow> i < length ts \<Longrightarrow> ts ! i \<noteq> B_end \<Longrightarrow> join_ok m (ts[i := pc])"
  by (auto simp: join_ok_def nth_list_update)

text \<open>A thread that takes the mutex, keeps it, gives it back, or has nothing to do with it.\<close>

lemma own_ok_take:
  "own_ok None m ts \<Longrightarrow> i < length ts \<Longrightarrow> b_holds pc \<Longrightarrow> own_ok (Some (Thread i)) m (ts[i := pc])"
  by (auto simp: own_ok_def nth_list_update)

lemma own_ok_keep:
  "own_ok ow m ts \<Longrightarrow> i < length ts \<Longrightarrow> b_holds pc = b_holds (ts ! i) \<Longrightarrow> own_ok ow m (ts[i := pc])"
  by (auto simp: own_ok_def nth_list_update)

lemma own_ok_release:
  "own_ok ow m ts \<Longrightarrow> i < length ts \<Longrightarrow> b_holds (ts ! i) \<Longrightarrow> \<not> b_holds pc \<Longrightarrow> own_ok None m (ts[i := pc])"
  by (auto simp: own_ok_def nth_list_update)

lemma bcast_inv_thread:
  assumes "bcast_inv s" "i < length (bc_threads s)" "bc_threads s ! i \<noteq> B_end"
    and "own_ok ow (bc_main s) ((bc_threads s)[i := pc])" "sleep_ok (bc_main s) (bc_data s) pc" "update_of l = []"
  shows "bcast_inv (moves i pc (s\<lparr>bc_owner := ow, bc_out := bc_out s @ [l]\<rparr>))"
    and "bcast_inv (moves i pc (s\<lparr>bc_owner := ow\<rparr>))"
  using assms join_ok_update by (auto simp: bcast_inv_def nth_list_update updates_def)

lemma bcast_thread_inv:
  assumes inv: "bcast_inv s" and i: "i < length (bc_threads s)" and step: "bcast_thread_step i s = Some s'"
  shows "bcast_inv s'"
proof -
  have own: "own_ok (bc_owner s) (bc_main s) (bc_threads s)"
    and sleep: "sleep_ok (bc_main s) (bc_data s) (bc_threads s ! i)"
    using inv i by (simp_all add: bcast_inv_def)
  note keep = bcast_inv_thread [OF inv i]
  note out = keep(1) [of "bc_owner s"] and quiet = keep(2) [of "bc_owner s"]
  have same: "s\<lparr>bc_owner := bc_owner s\<rparr> = s" "s\<lparr>bc_owner := bc_owner s, bc_out := o'\<rparr> = s\<lparr>bc_out := o'\<rparr>" for o'
    by simp_all
  show ?thesis
  proof (cases "bc_threads s ! i")
    case B_lock
    then have s': "s' = moves i B_test (s\<lparr>bc_owner := Some (Thread i)\<rparr>)" "bc_owner s = None"
      using step by (auto simp: bcast_thread_step_def split: if_splits)
    have "own_ok (Some (Thread i)) (bc_main s) ((bc_threads s)[i := B_test])"
      using own s'(2) own_ok_take i by simp
    with B_lock show ?thesis unfolding s'(1) by (intro keep(2) [of _ _ "Waiting 0"]) simp_all
  next
    case B_test
    then have s': "s' = moves i (if bc_data s < ITERATIONS then B_wait else B_unlock) s"
      using step by (simp add: bcast_thread_step_def)
    show ?thesis unfolding s' using quiet [of _ "Waiting 0"] own_ok_keep [OF own i] B_test by (simp add: same)
  next
    case B_wait
    then have s': "s' = moves i B_sleep (s\<lparr>bc_owner := None, bc_out := bc_out s @ [Waiting i]\<rparr>)"
      using step by (simp add: bcast_thread_step_def)
    have "own_ok None (bc_main s) ((bc_threads s)[i := B_sleep])" using own_ok_release [OF own i] B_wait by simp
    with B_wait sleep show ?thesis unfolding s' by (intro keep(1)) simp_all
  next
    case B_wake
    then have s': "s' = moves i B_awake (s\<lparr>bc_owner := Some (Thread i)\<rparr>)" "bc_owner s = None"
      using step by (auto simp: bcast_thread_step_def split: if_splits)
    have "own_ok (Some (Thread i)) (bc_main s) ((bc_threads s)[i := B_awake])"
      using own s'(2) own_ok_take i by simp
    with B_wake show ?thesis unfolding s'(1) by (intro keep(2) [of _ _ "Waiting 0"]) simp_all
  next
    case B_awake
    then have s': "s' = moves i B_test (s\<lparr>bc_out := bc_out s @ [Awake i (bc_data s)]\<rparr>)"
      using step by (simp add: bcast_thread_step_def)
    show ?thesis unfolding s' using out [of B_test "Awake i (bc_data s)"] own_ok_keep [OF own i] B_awake by (simp add: same)
  next
    case B_unlock
    then have s': "s' = moves i B_end (s\<lparr>bc_owner := None\<rparr>)" using step by (simp add: bcast_thread_step_def)
    have "own_ok None (bc_main s) ((bc_threads s)[i := B_end])" using own_ok_release [OF own i] B_unlock by simp
    with B_unlock show ?thesis unfolding s' by (intro keep(2) [of _ _ "Waiting 0"]) simp_all
  qed (use step in \<open>simp_all add: bcast_thread_step_def\<close>)
qed

lemma woken_facts [simp]: "b_holds (woken pc) = b_holds pc" "woken pc = B_end \<longleftrightarrow> pc = B_end"
    "woken pc \<noteq> B_sleep" "woken pc = B_wait \<longleftrightarrow> pc = B_wait"
  by (cases pc; simp add: woken_def)+

lemma sleep_ok_below: "d < ITERATIONS \<Longrightarrow> sleep_ok m d pc"
  by (cases pc) simp_all

lemma sleep_ok_holds: "\<not> b_holds pc \<Longrightarrow> sleep_ok (M_broadcast i) d pc"
  by (cases pc) simp_all

lemma sleep_ok_woken: "sleep_ok m d pc \<Longrightarrow> sleep_ok m' d (woken pc)"
  by (cases pc) (simp_all add: woken_def)

lemma sleep_ok_main: "sleep_ok m d pc \<Longrightarrow> (\<nexists>i. m = M_broadcast i) \<Longrightarrow> sleep_ok m' d pc"
  by (cases pc) simp_all

lemma bcast_main_inv:
  assumes inv: "bcast_inv s" and step: "bcast_main_step s = Some s'"
  shows "bcast_inv s'"
proof (cases "bc_main s")
  case (M_lock i)
  then have s': "s' = s\<lparr>bc_owner := Some Main, bc_main := M_set i\<rparr>" "bc_owner s = None"
    using step by (auto simp: bcast_main_step_def split: if_splits)
  with inv M_lock show ?thesis
    by (auto simp: bcast_inv_def own_ok_def join_ok_def updates_def intro: sleep_ok_below)
next
  case (M_set i)
  then have s': "s' = s\<lparr>bc_data := i + 1, bc_out := bc_out s @ [Updating (i + 1)], bc_main := M_broadcast i\<rparr>"
    using step by (simp add: bcast_main_step_def)
  have "\<not> b_holds (bc_threads s ! j)" if "j < length (bc_threads s)" for j
    using inv M_set that by (auto simp: bcast_inv_def own_ok_def)
  with inv M_set show ?thesis unfolding s'
    by (auto simp: bcast_inv_def own_ok_def join_ok_def updates_def intro: sleep_ok_holds)
next
  case (M_broadcast i)
  then have s': "s' = s\<lparr>bc_threads := map woken (bc_threads s), bc_main := M_unlock i\<rparr>"
    using step by (simp add: bcast_main_step_def)
  with inv M_broadcast show ?thesis
    by (auto simp: bcast_inv_def own_ok_def join_ok_def updates_def intro: sleep_ok_woken [of "M_broadcast i"])
next
  case (M_unlock i)
  then have s': "s' = s\<lparr>bc_owner := None, bc_main := (if i + 1 < ITERATIONS then M_lock (i + 1) else M_join 0)\<rparr>"
    using step by (simp add: bcast_main_step_def)
  with inv M_unlock show ?thesis
    by (auto simp: bcast_inv_def own_ok_def join_ok_def updates_def ITERATIONS_def intro: sleep_ok_main [of "M_unlock i"])
next
  case (M_join t)
  have keep: "bcast_inv (s\<lparr>bc_main := m\<rparr>)" if "join_ok m (bc_threads s)" "m = M_end \<or> m = M_join (t + 1)" for m
  proof -
    have "sleep_ok m (bc_data s) (bc_threads s ! j)" if "j < length (bc_threads s)" for j
      by (rule sleep_ok_main [of "M_join t"]) (use inv M_join that in \<open>auto simp: bcast_inv_def\<close>)
    with inv that M_join show ?thesis by (auto simp: bcast_inv_def own_ok_def updates_def)
  qed
  have ended: "\<forall>j < t. bc_threads s ! j = B_end" using inv M_join by (simp add: bcast_inv_def join_ok_def)
  show ?thesis
  proof (cases "t < length (bc_threads s)")
    case True
    then have s': "s' = s\<lparr>bc_main := M_join (t + 1)\<rparr>" "bc_threads s ! t = B_end"
      using step M_join by (auto simp: bcast_main_step_def split: if_splits)
    show ?thesis unfolding s'(1) by (rule keep) (use ended True s'(2) in \<open>auto simp: join_ok_def less_Suc_eq\<close>)
  next
    case False
    then have s': "s' = s\<lparr>bc_main := M_end\<rparr>" using step M_join by (simp add: bcast_main_step_def)
    show ?thesis unfolding s' by (rule keep) (use ended False in \<open>auto simp: join_ok_def\<close>)
  qed
qed (use step in \<open>simp add: bcast_main_step_def\<close>)

lemma bcast_step_inv: "bcast_inv s \<Longrightarrow> bcast_step s s' \<Longrightarrow> bcast_inv s'"
proof (erule bcast_step.cases)
  fix t t' assume "bcast_inv s" "s = t" "s' = t'" "bcast_move t t'"
  then show ?thesis by (auto elim!: bcast_move.cases intro: bcast_thread_inv bcast_main_inv)
next
  fix i t assume inv: "bcast_inv s" and eq: "s = t" "s' = moves i B_wake t"
    and i: "i < length (bc_threads t)" "bc_threads t ! i = B_sleep"
  have "own_ok (bc_owner s) (bc_main s) ((bc_threads s)[i := B_wake])"
    using inv eq i own_ok_keep by (simp add: bcast_inv_def)
  then show ?thesis using bcast_inv_thread(2) [OF inv, of i "bc_owner s" B_wake "Waiting 0"] eq i by simp
qed

lemma bcast_reach_inv:
  "bcast_reach (bcast_start n) s \<Longrightarrow> bcast_inv s \<and> length (bc_threads s) = n"
proof (induction "bcast_start n" s rule: bcast_reach.induct)
  case refl
  show ?case by (simp add: bcast_start_def bcast_inv_def own_ok_def join_ok_def updates_def ITERATIONS_def)
next
  case (step s' s'')
  have "length (bc_threads s'') = length (bc_threads s')"
    using step(3) by (auto elim!: bcast_step.cases bcast_move.cases
        simp: bcast_thread_step_def bcast_main_step_def split: bpc.splits mpc.splits if_splits)
  with step(2,3) bcast_step_inv [of s' s''] show ?case by simp
qed

section \<open>Progress\<close>

lemma bcast_enabled:
  assumes inv: "bcast_inv s" and live: "bc_main s \<noteq> M_end"
  shows "\<exists>s'. bcast_move s s'"
proof (cases "bc_owner s")
  case (Some w)
  show ?thesis
  proof (cases w)
    case Main
    with Some inv have "m_holds (bc_main s)" by (simp add: bcast_inv_def own_ok_def)
    then have "bcast_main_step s \<noteq> None" by (cases "bc_main s") (simp_all add: bcast_main_step_def)
    then show ?thesis using bcast_move.main by blast
  next
    case (Thread i)
    with Some inv have i: "i < length (bc_threads s)" "b_holds (bc_threads s ! i)"
      by (simp_all add: bcast_inv_def own_ok_def)
    then have "bcast_thread_step i s \<noteq> None" by (cases "bc_threads s ! i") (simp_all add: bcast_thread_step_def)
    then show ?thesis using bcast_move.thread i(1) by blast
  qed
next
  case None
  show ?thesis
  proof (cases "bcast_main_step s")
    case (Some s')
    then show ?thesis using bcast_move.main by blast
  next
    case blocked: None
    from inv None have nh: "\<not> m_holds (bc_main s)" by (simp add: bcast_inv_def own_ok_def)
    with blocked None live obtain t where t: "bc_main s = M_join t" "t < length (bc_threads s)" "bc_threads s ! t \<noteq> B_end"
      by (cases "bc_main s") (auto simp: bcast_main_step_def split: if_splits)
    from inv t have "\<not> b_holds (bc_threads s ! t)" "sleep_ok (M_join t) ITERATIONS (bc_threads s ! t)"
      using None by (auto simp: bcast_inv_def own_ok_def)
    with t None have "bcast_thread_step t s \<noteq> None"
      by (cases "bc_threads s ! t") (simp_all add: bcast_thread_step_def)
    then show ?thesis using bcast_move.thread t(2) by blast
  qed
qed

fun b_rank :: "bpc \<Rightarrow> nat" where
  "b_rank B_lock = 6" | "b_rank B_wake = 6" | "b_rank B_awake = 5" | "b_rank B_test = 4" | "b_rank B_wait = 3"
| "b_rank B_unlock = 2" | "b_rank B_sleep = 1" | "b_rank B_end = 0"

fun m_rank :: "nat \<Rightarrow> mpc \<Rightarrow> nat" where
  "m_rank n (M_lock i) = 4 * (ITERATIONS - i) + n + 2"
| "m_rank n (M_set i) = 4 * (ITERATIONS - i) + n + 1"
| "m_rank n (M_broadcast i) = 4 * (ITERATIONS - i) + n"
| "m_rank n (M_unlock i) = 4 * (ITERATIONS - i) + n - 1"
| "m_rank n (M_join t) = n + 1 - t"
| "m_rank n M_end = 0"

definition bcast_weight :: "bcast \<Rightarrow> nat" where
  "bcast_weight s = m_rank (length (bc_threads s)) (bc_main s) * (5 * length (bc_threads s) + 1)
     + sum_list (map b_rank (bc_threads s))"

lemma sum_list_update_less:
  assumes "i < length xs" "f x < (f (xs ! i) :: nat)"
  shows "sum_list (map f (xs[i := x])) < sum_list (map f xs)"
proof -
  have "f (xs ! i) \<in> set (map f xs)" using assms(1) by simp
  then have "f (xs ! i) \<le> sum_list (map f xs)" by (rule member_le_sum_list) simp
  then show ?thesis using assms by (simp add: map_update sum_list_update)
qed

lemma sum_list_woken: "sum_list (map b_rank (map woken ts)) \<le> sum_list (map b_rank ts) + 5 * length ts"
proof (induction ts)
  case (Cons pc ts)
  have "b_rank (woken pc) \<le> b_rank pc + 5" by (cases pc) (simp_all add: woken_def)
  with Cons show ?case by simp
qed simp

lemma bcast_weight_main:
  assumes "m_rank n m' < m_rank n m" "length ts = n" "length ts' = n"
    and "sum_list (map b_rank ts') \<le> sum_list (map b_rank ts) + 5 * n"
  shows "m_rank n m' * (5 * n + 1) + sum_list (map b_rank ts') < m_rank n m * (5 * n + 1) + sum_list (map b_rank ts)"
proof -
  have "(m_rank n m' + 1) * (5 * n + 1) \<le> m_rank n m * (5 * n + 1)" using assms(1) by (intro mult_right_mono) simp_all
  with assms(4) show ?thesis by (simp add: algebra_simps)
qed

lemma bcast_move_weight:
  assumes inv: "bcast_inv s" and move: "bcast_move s s'"
  shows "bcast_weight s' < bcast_weight s"
  using move
proof cases
  case (thread i)
  let ?pc = "bc_threads s' ! i"
  have eq: "bc_threads s' = (bc_threads s)[i := ?pc]" "bc_main s' = bc_main s" and less: "b_rank ?pc < b_rank (bc_threads s ! i)"
    using thread by (auto simp: bcast_thread_step_def split: bpc.splits if_splits)
  have "sum_list (map b_rank (bc_threads s')) < sum_list (map b_rank (bc_threads s))"
    using sum_list_update_less [of i "bc_threads s" b_rank ?pc, OF thread(1) less] eq(1) by simp
  moreover have "length (bc_threads s') = length (bc_threads s)" using eq(1) by (metis length_list_update)
  ultimately show ?thesis using eq(2) by (simp add: bcast_weight_def)
next
  case main
  have len: "length (bc_threads s') = length (bc_threads s)"
    and sum: "sum_list (map b_rank (bc_threads s')) \<le> sum_list (map b_rank (bc_threads s)) + 5 * length (bc_threads s)"
    using main sum_list_woken [of "bc_threads s"] by (auto simp: bcast_main_step_def split: mpc.splits if_splits)
  have d: "data_ok (bc_main s) (bc_data s)" "join_ok (bc_main s) (bc_threads s)" using inv by (simp_all add: bcast_inv_def)
  have "m_rank (length (bc_threads s)) (bc_main s') < m_rank (length (bc_threads s)) (bc_main s)"
    using main d by (cases "bc_main s") (auto simp: bcast_main_step_def join_ok_def split: if_splits)
  then show ?thesis unfolding bcast_weight_def len using len sum by (intro bcast_weight_main) simp_all
qed

section \<open>Theorems about the program\<close>

text \<open>C18. With any number of threads, under every schedule and with any spurious wakeups: each step of a thread
  lowers a weight and one is possible until \<^verbatim>\<open>main\<close> has come to its end; \<^verbatim>\<open>main\<close> then has joined every
  thread, so that it destroys the mutex and the condition variable unused, and it has counted
  \<^verbatim>\<open>shared_data\<close> up to \<^verbatim>\<open>ITERATIONS\<close> one by one, without losing an update.\<close>

theorem broadcast_all_end:
  assumes "bcast_reach (bcast_start n) s"
  shows "(\<forall>s'. bcast_move s s' \<longrightarrow> bcast_weight s' < bcast_weight s)
    \<and> (bc_main s \<noteq> M_end \<longrightarrow> (\<exists>s'. bcast_move s s'))
    \<and> (bc_main s = M_end \<longrightarrow> bc_threads s = replicate n B_end \<and> updates s = [1..<Suc ITERATIONS])"
proof -
  have inv: "bcast_inv s" and n: "length (bc_threads s) = n" using bcast_reach_inv [OF assms] by simp_all
  have "bc_threads s = replicate n B_end \<and> updates s = [1..<Suc ITERATIONS]" if "bc_main s = M_end"
  proof -
    from inv that have "\<forall>j < n. bc_threads s ! j = B_end" "updates s = [1..<Suc ITERATIONS]"
      using n by (simp_all add: bcast_inv_def join_ok_def)
    then show ?thesis using n by (simp add: list_eq_iff_nth_eq)
  qed
  with bcast_move_weight [OF inv] bcast_enabled [OF inv] show ?thesis by blast
qed

lemma broadcast_all_end_witness: "\<exists>s'. bcast_move (bcast_start 3) s'"
  using broadcast_all_end [OF bcast_reach.refl, of 3] by (simp add: bcast_start_def)

end
