(* ===== verification/Thread_Counter.thy ===== *)
theory Thread_Counter
  imports C_Prelude
begin

text \<open>
  \<^verbatim>\<open>src/pthread-mutex/pthread_mutex_lock-pthread_mutex_unlock\<close> and
  \<^verbatim>\<open>src/pthread-mutex/pthread_mutex_trylock\<close>: threads that increment one variable and print it, with
  \<^verbatim>\<open>pthread_mutex_lock\<close>, with \<^verbatim>\<open>pthread_mutex_trylock\<close>, or without a mutex. The increment is a load and
  a store. The locale \<open>counting\<close> is the discipline of the mutex; from it follow the numbers that
  are printed.
\<close>

section \<open>State and steps\<close>

text \<open>What a thread does next; \<open>T_store v\<close> has loaded \<open>v\<close>, \<open>T_print v\<close> has loaded \<open>v\<close> for \<^verbatim>\<open>printf\<close>.\<close>

datatype tpc = T_lock | T_load | T_store int | T_show | T_print int | T_unlock | T_end

text \<open>The lines printed are kept as the number of the thread and the value.\<close>

record counter =
  ct_owner :: "nat option"
  ct_var :: int
  ct_threads :: "tpc list"
  ct_out :: "(nat \<times> int) list"

definition goes :: "nat \<Rightarrow> tpc \<Rightarrow> counter \<Rightarrow> counter" where
  "goes i pc s = s\<lparr>ct_threads := (ct_threads s)[i := pc]\<rparr>"

text \<open>The critical section, the same in both programs.\<close>

definition critical_step :: "nat \<Rightarrow> counter \<Rightarrow> counter option" where
  "critical_step i s =
     (case ct_threads s ! i of
        T_load \<Rightarrow> Some (goes i (T_store (ct_var s)) s)
      | T_store v \<Rightarrow> Some (goes i T_show (s\<lparr>ct_var := v + 1\<rparr>))
      | T_show \<Rightarrow> Some (goes i (T_print (ct_var s)) s)
      | T_print v \<Rightarrow> Some (goes i T_unlock (s\<lparr>ct_out := ct_out s @ [(i, v)]\<rparr>))
      | _ \<Rightarrow> None)"

text \<open>\<^verbatim>\<open>thread_function\<close> of the program with \<^verbatim>\<open>pthread_mutex_lock\<close>; without \<^verbatim>\<open>-m\<close> it takes no mutex.\<close>

definition lock_thread_step :: "bool \<Rightarrow> nat \<Rightarrow> counter \<Rightarrow> counter option" where
  "lock_thread_step use_mutex i s =
     (case ct_threads s ! i of
        T_lock \<Rightarrow> if use_mutex
                  then (if ct_owner s = None then Some (goes i T_load (s\<lparr>ct_owner := Some i\<rparr>)) else None)
                  else Some (goes i T_load s)
      | T_unlock \<Rightarrow> Some (goes i T_end (if use_mutex then s\<lparr>ct_owner := None\<rparr> else s))
      | T_end \<Rightarrow> None
      | _ \<Rightarrow> critical_step i s)"

text \<open>\<^verbatim>\<open>thread_function\<close> of the program with \<^verbatim>\<open>pthread_mutex_trylock\<close>.\<close>

definition trylock_thread_step :: "nat \<Rightarrow> counter \<Rightarrow> counter option" where
  "trylock_thread_step i s =
     (case ct_threads s ! i of
        T_lock \<Rightarrow> if ct_owner s = None then Some (goes i T_load (s\<lparr>ct_owner := Some i\<rparr>)) else Some (goes i T_end s)
      | T_unlock \<Rightarrow> Some (goes i T_end (s\<lparr>ct_owner := None\<rparr>))
      | T_end \<Rightarrow> None
      | _ \<Rightarrow> critical_step i s)"

text \<open>\<^verbatim>\<open>main\<close> creates the threads; the model starts them together.\<close>

definition NUM_THREADS :: nat where "NUM_THREADS = 10"

definition counter_start :: "nat \<Rightarrow> counter" where
  "counter_start n = \<lparr>ct_owner = None, ct_var = 0, ct_threads = replicate n T_lock, ct_out = []\<rparr>"

inductive counter_step :: "(nat \<Rightarrow> counter \<Rightarrow> counter option) \<Rightarrow> counter \<Rightarrow> counter \<Rightarrow> bool" for step where
  thread: "i < length (ct_threads s) \<Longrightarrow> step i s = Some s' \<Longrightarrow> counter_step step s s'"

inductive counter_reach :: "(nat \<Rightarrow> counter \<Rightarrow> counter option) \<Rightarrow> counter \<Rightarrow> counter \<Rightarrow> bool" for step where
  refl: "counter_reach step s s"
| step: "counter_reach step s s' \<Longrightarrow> counter_step step s' s'' \<Longrightarrow> counter_reach step s s''"

section \<open>The invariant\<close>

fun inside :: "tpc \<Rightarrow> bool" where
  "inside T_lock = False"
| "inside T_end = False"
| "inside pc = True"

text \<open>Where the thread with the mutex is, against the variable and the lines printed.\<close>

fun in_step :: "tpc \<Rightarrow> int \<Rightarrow> nat \<Rightarrow> bool" where
  "in_step T_load v n \<longleftrightarrow> v = int n"
| "in_step (T_store x) v n \<longleftrightarrow> x = v \<and> v = int n"
| "in_step T_show v n \<longleftrightarrow> v = int n + 1"
| "in_step (T_print x) v n \<longleftrightarrow> x = v \<and> v = int n + 1"
| "in_step T_unlock v n \<longleftrightarrow> v = int n"
| "in_step pc v n \<longleftrightarrow> False"

definition counter_inv :: "counter \<Rightarrow> bool" where
  "counter_inv s \<longleftrightarrow>
     (\<forall>i < length (ct_threads s). inside (ct_threads s ! i) \<longleftrightarrow> ct_owner s = Some i)
     \<and> (case ct_owner s of
          None \<Rightarrow> ct_var s = int (length (ct_out s))
        | Some i \<Rightarrow> i < length (ct_threads s) \<and> in_step (ct_threads s ! i) (ct_var s) (length (ct_out s)))
     \<and> map snd (ct_out s) = map int [1..<Suc (length (ct_out s))]"

text \<open>The threads that have printed or passed.\<close>

fun over :: "tpc \<Rightarrow> bool" where
  "over T_unlock = True"
| "over T_end = True"
| "over pc = False"

definition finished :: "counter \<Rightarrow> nat" where
  "finished s = length (filter over (ct_threads s))"

lemma length_filter_update:
  "i < length xs \<Longrightarrow> length (filter P (xs[i := x])) + (if P (xs ! i) then 1 else 0)
     = length (filter P xs) + (if P x then 1 else 0)"
proof (induction xs arbitrary: i)
  case (Cons y ys)
  show ?case
  proof (cases i)
    case (Suc j)
    with Cons.IH [of j] Cons.prems show ?thesis by simp
  qed simp
qed simp

lemma finished_goes:
  assumes "i < length (ct_threads s)" "finished s = n" "over (ct_threads s ! i) = over pc"
  shows "finished (goes i pc s) = n"
  using length_filter_update [OF assms(1), of over pc] assms(2,3) by (auto simp: finished_def goes_def split: if_splits)

lemma finished_goes_over:
  assumes "i < length (ct_threads s)" "\<not> over (ct_threads s ! i)" "over pc"
  shows "finished (goes i pc s) = Suc (finished s)"
  using length_filter_update [OF assms(1), of over pc] assms(2,3) by (simp add: finished_def goes_def)

lemma finished_frame [simp]: "finished (s\<lparr>ct_owner := o'\<rparr>) = finished s" "finished (s\<lparr>ct_var := v\<rparr>) = finished s"
    "finished (s\<lparr>ct_out := out\<rparr>) = finished s"
  by (simp_all add: finished_def)

lemma goes_sel [simp]: "ct_owner (goes i pc s) = ct_owner s" "ct_var (goes i pc s) = ct_var s" "ct_out (goes i pc s) = ct_out s"
    "length (ct_threads (goes i pc s)) = length (ct_threads s)"
  by (simp_all add: goes_def)

lemma counter_inv_owner: "counter_inv s \<Longrightarrow> i < length (ct_threads s) \<Longrightarrow> inside (ct_threads s ! i) \<Longrightarrow> ct_owner s = Some i"
  by (simp add: counter_inv_def)

lemma all_ended_var:
  assumes "counter_inv s" and all: "\<forall>pc \<in> set (ct_threads s). pc = T_end"
  shows "ct_var s = int (length (ct_out s))"
proof -
  have "ct_owner s = None"
  proof (rule ccontr)
    assume "ct_owner s \<noteq> None"
    then obtain j where j: "j < length (ct_threads s)" "inside (ct_threads s ! j)" using assms(1) by (auto simp: counter_inv_def)
    with all have "ct_threads s ! j = T_end" by simp
    with j show False by simp
  qed
  with assms(1) show ?thesis by (simp add: counter_inv_def)
qed

lemma counter_inv_inside:
  assumes "counter_inv s" "i < length (ct_threads s)" "ct_owner s = Some i" "inside pc" "in_step pc v (length o')"
    and "map snd o' = map int [1..<Suc (length o')]"
  shows "counter_inv (s\<lparr>ct_var := v, ct_threads := (ct_threads s)[i := pc], ct_out := o'\<rparr>)"
  using assms by (auto simp: counter_inv_def nth_list_update)

lemma critical_step_inv:
  assumes "counter_inv s" "i < length (ct_threads s)" "critical_step i s = Some s'"
  shows "counter_inv s'"
proof -
  have "inside (ct_threads s ! i)" using assms(3) by (cases "ct_threads s ! i") (simp_all add: critical_step_def)
  then have own: "ct_owner s = Some i" by (rule counter_inv_owner [OF assms(1,2)])
  then have pos: "in_step (ct_threads s ! i) (ct_var s) (length (ct_out s))"
    and out: "map snd (ct_out s) = map int [1..<Suc (length (ct_out s))]"
    using assms(1) by (auto simp: counter_inv_def)
  note keep = counter_inv_inside [OF assms(1,2) own]
  show ?thesis
  proof (cases "ct_threads s ! i")
    case T_load
    then have "s' = s\<lparr>ct_var := ct_var s, ct_threads := (ct_threads s)[i := T_store (ct_var s)], ct_out := ct_out s\<rparr>"
      using assms(3) by (auto simp: critical_step_def goes_def intro!: counter.equality)
    with T_load keep [of "T_store (ct_var s)" "ct_var s" "ct_out s"] pos out show ?thesis by (simp only: inside.simps in_step.simps)
  next
    case (T_store v)
    then have "s' = s\<lparr>ct_var := v + 1, ct_threads := (ct_threads s)[i := T_show], ct_out := ct_out s\<rparr>"
      using assms(3) by (auto simp: critical_step_def goes_def intro!: counter.equality)
    with T_store keep [of T_show "v + 1" "ct_out s"] pos out show ?thesis by (simp only: inside.simps in_step.simps)
  next
    case T_show
    then have "s' = s\<lparr>ct_var := ct_var s, ct_threads := (ct_threads s)[i := T_print (ct_var s)], ct_out := ct_out s\<rparr>"
      using assms(3) by (auto simp: critical_step_def goes_def intro!: counter.equality)
    with T_show keep [of "T_print (ct_var s)" "ct_var s" "ct_out s"] pos out show ?thesis by (simp only: inside.simps in_step.simps)
  next
    case (T_print v)
    then have "s' = s\<lparr>ct_var := ct_var s, ct_threads := (ct_threads s)[i := T_unlock], ct_out := ct_out s @ [(i, v)]\<rparr>"
      using assms(3) by (auto simp: critical_step_def goes_def intro!: counter.equality)
    moreover have "counter_inv (s\<lparr>ct_var := ct_var s, ct_threads := (ct_threads s)[i := T_unlock], ct_out := ct_out s @ [(i, v)]\<rparr>)"
      using T_print pos out by (intro keep) simp_all
    ultimately show ?thesis by simp
  qed (use assms(3) in \<open>simp_all add: critical_step_def\<close>)
qed

text \<open>A thread prints its line when it leaves the critical section.\<close>

lemma critical_step_finished:
  assumes "i < length (ct_threads s)" "critical_step i s = Some s'" "finished s = length (ct_out s) + k"
  shows "finished s' = length (ct_out s') + k \<and> length (ct_threads s') = length (ct_threads s)"
proof (cases "ct_threads s ! i")
  case (T_print v)
  let ?s = "s\<lparr>ct_out := ct_out s @ [(i, v)]\<rparr>"
  have "s' = goes i T_unlock ?s" using assms(2) T_print by (simp add: critical_step_def)
  moreover have "finished (goes i T_unlock ?s) = Suc (finished ?s)"
    using assms(1) T_print by (intro finished_goes_over) simp_all
  ultimately show ?thesis using assms(3) by simp
qed (use assms in \<open>auto simp: critical_step_def intro!: finished_goes\<close>)

section \<open>The discipline of the mutex\<close>

text \<open>A thread enters the critical section only by taking the free mutex, and releases it on leaving; if
  the mutex is taken it may pass.\<close>

locale counting =
  fixes thread_step :: "nat \<Rightarrow> counter \<Rightarrow> counter option"
  assumes enter: "ct_threads s ! i = T_lock \<Longrightarrow> ct_owner s = None
      \<Longrightarrow> thread_step i s = Some (goes i T_load (s\<lparr>ct_owner := Some i\<rparr>))"
    and pass: "ct_threads s ! i = T_lock \<Longrightarrow> ct_owner s \<noteq> None \<Longrightarrow> thread_step i s = Some s' \<Longrightarrow> s' = goes i T_end s"
    and critical: "ct_threads s ! i \<notin> {T_lock, T_unlock, T_end} \<Longrightarrow> thread_step i s = critical_step i s"
    and leave: "ct_threads s ! i = T_unlock \<Longrightarrow> thread_step i s = Some (goes i T_end (s\<lparr>ct_owner := None\<rparr>))"
    and at_end: "ct_threads s ! i = T_end \<Longrightarrow> thread_step i s = None"
begin

lemma step_inv:
  assumes "counter_inv s" "counter_step thread_step s s'"
  shows "counter_inv s'"
  using assms(2)
proof cases
  case (thread i)
  consider (lock) "ct_threads s ! i = T_lock" "ct_owner s = None" | (taken) "ct_threads s ! i = T_lock" "ct_owner s \<noteq> None"
    | (unlock) "ct_threads s ! i = T_unlock" | (crit) "ct_threads s ! i \<notin> {T_lock, T_unlock, T_end}"
    using thread at_end by fastforce
  then show ?thesis
  proof cases
    case lock
    then have s': "s' = goes i T_load (s\<lparr>ct_owner := Some i\<rparr>)" using enter [OF lock] thread(2) by simp
    have "\<forall>j < length (ct_threads s). \<not> inside (ct_threads s ! j)" "ct_var s = int (length (ct_out s))"
      "map snd (ct_out s) = map int [1..<Suc (length (ct_out s))]"
      using assms(1) lock(2) by (simp_all add: counter_inv_def)
    then show ?thesis unfolding s' using thread(1) by (simp add: counter_inv_def goes_def nth_list_update)
  next
    case taken
    with pass thread have s': "s' = goes i T_end s" by blast
    obtain j where j: "ct_owner s = Some j" using taken(2) by blast
    then have "j \<noteq> i" using taken(1) assms(1) thread(1) by (auto simp: counter_inv_def)
    with s' j taken(1) assms(1) thread(1) show ?thesis by (auto simp: counter_inv_def goes_def nth_list_update)
  next
    case unlock
    then have "ct_owner s = Some i" using counter_inv_owner [OF assms(1) thread(1)] by simp
    then have "\<forall>j < length (ct_threads s). j \<noteq> i \<longrightarrow> \<not> inside (ct_threads s ! j)" "ct_var s = int (length (ct_out s))"
      "map snd (ct_out s) = map int [1..<Suc (length (ct_out s))]"
      using assms(1) unlock by (auto simp: counter_inv_def)
    moreover have "s' = goes i T_end (s\<lparr>ct_owner := None\<rparr>)" using leave [OF unlock] thread(2) by simp
    ultimately show ?thesis using thread(1) by (auto simp: counter_inv_def goes_def nth_list_update)
  next
    case crit
    with critical thread assms(1) show ?thesis by (auto intro: critical_step_inv)
  qed
qed

lemma reach_inv: "counter_reach thread_step (counter_start n) s \<Longrightarrow> counter_inv s"
proof (induction "counter_start n" s rule: counter_reach.induct)
  case refl
  show ?case by (simp add: counter_start_def counter_inv_def)
qed (use step_inv in blast)

lemma reach_threads: "counter_reach thread_step (counter_start n) s \<Longrightarrow> length (ct_threads s) = n"
proof (induction "counter_start n" s rule: counter_reach.induct)
  case refl
  show ?case by (simp add: counter_start_def)
next
  case (step s' s'')
  from step(3) obtain i where i: "i < length (ct_threads s')" "thread_step i s' = Some s''" by cases
  then show ?case
    using step(2) enter [of s' i] pass [of s' i s''] critical [of s' i] leave [of s' i] at_end [of s' i]
    by (cases "ct_threads s' ! i"; cases "ct_owner s' = None") (auto simp: critical_step_def)
qed

text \<open>While a thread is not at its end, one can go on: the one with the mutex, or any when it is free.\<close>

lemma stuck_end:
  assumes "counter_inv s" "\<And>s'. \<not> counter_step thread_step s s'" "i < length (ct_threads s)"
  shows "ct_threads s ! i = T_end"
proof -
  have stuck: "thread_step j s = None" if "j < length (ct_threads s)" for j
    using assms(2) that by (meson counter_step.thread not_None_eq)
  have free: "ct_owner s = None"
  proof (rule ccontr)
    assume "ct_owner s \<noteq> None"
    then obtain j where j: "ct_owner s = Some j" by blast
    then have "j < length (ct_threads s)" "inside (ct_threads s ! j)" using assms(1) by (auto simp: counter_inv_def)
    with stuck [of j] critical [of s j] leave [of s j] show False
      by (cases "ct_threads s ! j") (auto simp: critical_step_def)
  qed
  show ?thesis
  proof (rule ccontr)
    assume "ct_threads s ! i \<noteq> T_end"
    moreover have "\<not> inside (ct_threads s ! i)" using assms(1,3) free by (auto simp: counter_inv_def)
    ultimately have "ct_threads s ! i = T_lock" by (cases "ct_threads s ! i") auto
    with enter free stuck [OF assms(3)] show False by simp
  qed
qed

end

text \<open>A thread that finds the mutex taken waits.\<close>

locale blocking_counting = counting +
  assumes no_pass: "ct_threads s ! i = T_lock \<Longrightarrow> ct_owner s \<noteq> None \<Longrightarrow> thread_step i s = None"
begin

lemma reach_finished: "counter_reach thread_step (counter_start n) s \<Longrightarrow> finished s = length (ct_out s)"
proof (induction "counter_start n" s rule: counter_reach.induct)
  case refl
  show ?case by (simp add: counter_start_def finished_def)
next
  case (step s' s'')
  from step(3) obtain i where i: "i < length (ct_threads s')" "thread_step i s' = Some s''" by cases
  consider (lock) "ct_threads s' ! i = T_lock" "ct_owner s' = None" | (unlock) "ct_threads s' ! i = T_unlock"
    | (crit) "ct_threads s' ! i \<notin> {T_lock, T_unlock, T_end}"
    using i at_end no_pass by fastforce
  then show ?case
  proof cases
    case lock
    with enter [OF lock] i step(2) show ?thesis by (auto intro!: finished_goes)
  next
    case unlock
    with leave [OF unlock] i step(2) show ?thesis by (auto intro!: finished_goes)
  next
    case crit
    with critical [OF crit] critical_step_finished [OF i(1), of s'' 0] i(2) step(2) show ?thesis by simp
  qed
qed

end

interpretation lkc: blocking_counting "lock_thread_step True"
  by unfold_locales (auto simp: lock_thread_step_def split: tpc.splits)

interpretation trc: counting trylock_thread_step
  by unfold_locales (auto simp: trylock_thread_step_def split: tpc.splits)

section \<open>Schedules\<close>

fun counter_run :: "(nat \<Rightarrow> counter \<Rightarrow> counter option) \<Rightarrow> nat list \<Rightarrow> counter \<Rightarrow> counter" where
  "counter_run step [] s = s"
| "counter_run step (i # is) s =
     counter_run step is (if i < length (ct_threads s) then (case step i s of None \<Rightarrow> s | Some s' \<Rightarrow> s') else s)"

lemma counter_run_reach: "counter_reach step s0 s \<Longrightarrow> counter_reach step s0 (counter_run step is s)"
proof (induction "is" arbitrary: s)
  case (Cons i "is")
  have "counter_reach step s0 (if i < length (ct_threads s) then (case step i s of None \<Rightarrow> s | Some s' \<Rightarrow> s') else s)"
    using Cons.prems by (auto split: option.splits intro: counter_reach.step counter_step.thread)
  with Cons.IH show ?case by simp
qed simp

text \<open>The threads take their steps in turn, one step each.\<close>

definition in_turn :: "nat list" where
  "in_turn = concat (replicate 6 [0..<NUM_THREADS])"

section \<open>Theorems about the programs\<close>

text \<open>C19. With the mutex (\<^verbatim>\<open>-m\<close>), in every schedule of any number of threads: the values printed are
  1, 2, 3, ... in this order, and when no thread can go on, all have ended and the variable counts them:
  no update is lost and no thread is left waiting.\<close>

theorem mutex_counts:
  assumes "counter_reach (lock_thread_step True) (counter_start n) s"
  shows "map snd (ct_out s) = map int [1..<Suc (length (ct_out s))]
    \<and> ((\<nexists>s'. counter_step (lock_thread_step True) s s')
        \<longrightarrow> (\<forall>pc \<in> set (ct_threads s). pc = T_end) \<and> ct_var s = int n \<and> map snd (ct_out s) = map int [1..<Suc n])"
proof -
  have inv: "counter_inv s" by (rule lkc.reach_inv [OF assms])
  have n: "length (ct_threads s) = n" by (rule lkc.reach_threads [OF assms])
  have out: "map snd (ct_out s) = map int [1..<Suc (length (ct_out s))]" using inv by (simp add: counter_inv_def)
  have "(\<forall>pc \<in> set (ct_threads s). pc = T_end) \<and> ct_var s = int n \<and> length (ct_out s) = n"
    if "\<nexists>s'. counter_step (lock_thread_step True) s s'"
  proof -
    have all: "\<forall>pc \<in> set (ct_threads s). pc = T_end"
      using lkc.stuck_end [OF inv] that by (metis in_set_conv_nth)
    then have "filter over (ct_threads s) = ct_threads s" by (auto simp: filter_id_conv)
    then have "finished s = n" using n by (simp add: finished_def)
    then have len: "length (ct_out s) = n" using lkc.reach_finished [OF assms] by simp
    with all_ended_var [OF inv all] all show ?thesis by simp
  qed
  with out show ?thesis by metis
qed

definition lock_demo :: counter where
  "lock_demo = counter_run (lock_thread_step True) (concat (replicate 6 [0, 1] @ replicate 6 [1])) (counter_start 2)"

lemma mutex_counts_witness: "ct_var lock_demo = 2 \<and> map snd (ct_out lock_demo) = [1, 2]"
proof -
  have reach: "counter_reach (lock_thread_step True) (counter_start 2) lock_demo"
    unfolding lock_demo_def by (rule counter_run_reach [OF counter_reach.refl])
  have "ct_threads lock_demo = [T_end, T_end]" by code_simp
  then have "\<nexists>s'. counter_step (lock_thread_step True) lock_demo s'"
    by (auto elim!: counter_step.cases simp: lock_thread_step_def less_Suc_eq nth_Cons split: nat.splits)
  with mutex_counts [OF reach] have "ct_var lock_demo = int 2" "map snd (ct_out lock_demo) = map int [1..<Suc 2]" by blast+
  moreover have "map int [1..<Suc 2] = [1, 2]" by code_simp
  ultimately show ?thesis by simp
qed

text \<open>Without the mutex, updates are lost: the ten threads have a run after which the variable is 1 and
  every thread has printed 1.\<close>

theorem no_mutex_loses_updates:
  "\<exists>s. counter_reach (lock_thread_step False) (counter_start NUM_THREADS) s \<and> (\<forall>pc \<in> set (ct_threads s). pc = T_end)
    \<and> ct_var s = 1 \<and> map snd (ct_out s) = replicate NUM_THREADS 1"
proof -
  let ?s = "counter_run (lock_thread_step False) in_turn (counter_start NUM_THREADS)"
  have "counter_reach (lock_thread_step False) (counter_start NUM_THREADS) ?s"
    by (rule counter_run_reach [OF counter_reach.refl])
  moreover have "(\<forall>pc \<in> set (ct_threads ?s). pc = T_end)" by code_simp
  moreover have "ct_var ?s = 1" by code_simp
  moreover have "map snd (ct_out ?s) = replicate NUM_THREADS 1" by code_simp
  ultimately show ?thesis by blast
qed

lemma trylock_in_turn:
  "\<forall>pc \<in> set (ct_threads (counter_run trylock_thread_step in_turn (counter_start NUM_THREADS))). pc = T_end"
  "map snd (ct_out (counter_run trylock_thread_step in_turn (counter_start NUM_THREADS))) = [1]"
  by code_simp+

lemma trylock_one_line: "\<exists>t. counter_reach trylock_thread_step (counter_start NUM_THREADS) t
    \<and> (\<forall>pc \<in> set (ct_threads t). pc = T_end) \<and> map snd (ct_out t) = [1]"
  using counter_run_reach [OF counter_reach.refl] trylock_in_turn by metis

text \<open>With \<^verbatim>\<open>pthread_mutex_trylock\<close> no update is lost either: the values printed are 1, 2, 3, ..., and when
  no thread can go on all have ended and the variable is the number of lines. There may be fewer lines
  than threads, since a thread that finds the mutex taken passes: with ten threads one line is possible.\<close>

theorem trylock_counts:
  assumes "counter_reach trylock_thread_step (counter_start n) s"
  shows "map snd (ct_out s) = map int [1..<Suc (length (ct_out s))]
    \<and> ((\<nexists>s'. counter_step trylock_thread_step s s')
        \<longrightarrow> (\<forall>pc \<in> set (ct_threads s). pc = T_end) \<and> ct_var s = int (length (ct_out s)))
    \<and> (\<exists>t. counter_reach trylock_thread_step (counter_start NUM_THREADS) t
        \<and> (\<forall>pc \<in> set (ct_threads t). pc = T_end) \<and> map snd (ct_out t) = [1])"
proof -
  have inv: "counter_inv s" by (rule trc.reach_inv [OF assms])
  have "(\<forall>pc \<in> set (ct_threads s). pc = T_end) \<and> ct_var s = int (length (ct_out s))"
    if "\<nexists>s'. counter_step trylock_thread_step s s'"
  proof -
    have all: "\<forall>pc \<in> set (ct_threads s). pc = T_end"
      using trc.stuck_end [OF inv] that by (metis in_set_conv_nth)
    with all_ended_var [OF inv] show ?thesis by blast
  qed
  moreover have "map snd (ct_out s) = map int [1..<Suc (length (ct_out s))]" using inv by (simp add: counter_inv_def)
  ultimately show ?thesis using trylock_one_line by metis
qed

lemma trylock_counts_witness: "\<exists>t. counter_reach trylock_thread_step (counter_start NUM_THREADS) t \<and> map snd (ct_out t) = [1]"
  using trylock_counts [OF counter_reach.refl, of 2] by metis

end
