(* ===== verification/Snprintf.thy ===== *)
theory Snprintf
  imports C_Prelude
begin

text \<open>
  \<^verbatim>\<open>src/string-processing/snprintf\<close>: one function for each arithmetic type that prints a value into a
  buffer with \<^verbatim>\<open>snprintf\<close> and falls back to \<^verbatim>\<open>"E"\<close> when it does not fit, and a \<^verbatim>\<open>main\<close> that calls them with
  a buffer of 50 bytes and one of 2. The theory shows what each of them leaves in any buffer, which values
  always fit, and what \<^verbatim>\<open>main\<close> prints.
\<close>

section \<open>The library\<close>

text \<open>\<^verbatim>\<open>snprintf\<close> of a formatted text: at most \<open>n - 1\<close> characters and a NUL are stored, and the length of the
  whole text is returned, or a negative number when an \<^verbatim>\<open>int\<close> cannot hold it. Storing past the end of the
  array is undefined.\<close>

definition store_bytes :: "char list \<Rightarrow> char list \<Rightarrow> char list result" where
  "store_bytes buffer s = (if length s \<le> length buffer then Returns (s @ drop (length s) buffer) else Undef)"

definition snprintf :: "string \<Rightarrow> char list \<Rightarrow> nat \<Rightarrow> (char list \<times> int) result" where
  "snprintf text buffer n =
     bind_result (if n = 0 then Returns buffer else store_bytes buffer (take (n - 1) text @ [NUL]))
       (\<lambda>buffer. Returns (buffer, if length text < 2 ^ 31 then int (length text) else - 1))"

text \<open>A floating-point number of any format: the sign and \<open>m * 2 ^ e\<close>, or one of the special values.\<close>

datatype c_float = Finite bool nat int | Infinity bool | Not_a_number bool

definition round_half_even :: "nat \<Rightarrow> nat \<Rightarrow> nat" where
  "round_half_even n d = (let q = n div d; r = n mod d in if 2 * r < d \<or> 2 * r = d \<and> even q then q else q + 1)"

definition scaled :: "nat \<Rightarrow> nat \<Rightarrow> int \<Rightarrow> nat" where
  "scaled k m e = (if e \<ge> 0 then m * 10 ^ k * 2 ^ nat e else round_half_even (m * 10 ^ k) (2 ^ nat (- e)))"

definition zero_pad :: "nat \<Rightarrow> string \<Rightarrow> string" where
  "zero_pad k s = replicate (k - length s) (CHR ''0'') @ s"

text \<open>\<^verbatim>\<open>%.kf\<close> with \<open>k > 0\<close>, rounding to the nearest.\<close>

fun fmt_f :: "nat \<Rightarrow> c_float \<Rightarrow> string" where
  "fmt_f k (Finite sign m e) =
     (if sign then ''-'' else []) @ dec_nat (scaled k m e div 10 ^ k) @ ''.'' @ zero_pad k (dec_nat (scaled k m e mod 10 ^ k))"
| "fmt_f k (Infinity sign) = (if sign then ''-inf'' else ''inf'')"
| "fmt_f k (Not_a_number sign) = (if sign then ''-nan'' else ''nan'')"

section \<open>The conversions\<close>

text \<open>What all of them do with the formatted value.\<close>

definition conversion :: "string \<Rightarrow> char list \<Rightarrow> nat \<Rightarrow> char list result" where
  "conversion text buffer bufferSize =
     bind_result (snprintf text buffer bufferSize)
       (\<lambda>(buffer, result).
          if result \<ge> 0 \<and> nat result < bufferSize then arr_set buffer (nat result) NUL
          else bind_result (snprintf ''E'' buffer bufferSize) (\<lambda>(buffer, _). Returns buffer))"

definition convertChar :: "char \<Rightarrow> char list \<Rightarrow> nat \<Rightarrow> char list result" where
  "convertChar value = conversion (''char: '' @ [value])"

definition convertInt8 :: "uint8 \<Rightarrow> char list \<Rightarrow> nat \<Rightarrow> char list result" where
  "convertInt8 value = conversion (''int8_t: '' @ dec_int (sint value))"

definition convertUInt8 :: "uint8 \<Rightarrow> char list \<Rightarrow> nat \<Rightarrow> char list result" where
  "convertUInt8 value = conversion (''uint8_t: '' @ dec_nat (unat value))"

definition convertInt16 :: "uint16 \<Rightarrow> char list \<Rightarrow> nat \<Rightarrow> char list result" where
  "convertInt16 value = conversion (''int16_t: '' @ dec_int (sint value))"

definition convertUInt16 :: "uint16 \<Rightarrow> char list \<Rightarrow> nat \<Rightarrow> char list result" where
  "convertUInt16 value = conversion (''uint16_t: '' @ dec_nat (unat value))"

definition convertInt32 :: "uint32 \<Rightarrow> char list \<Rightarrow> nat \<Rightarrow> char list result" where
  "convertInt32 value = conversion (''int32_t: '' @ dec_int (sint value))"

definition convertUInt32 :: "uint32 \<Rightarrow> char list \<Rightarrow> nat \<Rightarrow> char list result" where
  "convertUInt32 value = conversion (''uint32_t: '' @ dec_nat (unat value))"

definition convertInt :: "uint32 \<Rightarrow> char list \<Rightarrow> nat \<Rightarrow> char list result" where
  "convertInt value = conversion (''int: '' @ dec_int (sint value))"

definition convertUInt :: "uint32 \<Rightarrow> char list \<Rightarrow> nat \<Rightarrow> char list result" where
  "convertUInt value = conversion (''uint: '' @ dec_nat (unat value))"

definition convertLong :: "uint64 \<Rightarrow> char list \<Rightarrow> nat \<Rightarrow> char list result" where
  "convertLong value = conversion (''long: '' @ dec_int (sint value))"

definition convertULong :: "uint64 \<Rightarrow> char list \<Rightarrow> nat \<Rightarrow> char list result" where
  "convertULong value = conversion (''ulong: '' @ dec_nat (unat value))"

definition convertLongLong :: "uint64 \<Rightarrow> char list \<Rightarrow> nat \<Rightarrow> char list result" where
  "convertLongLong value = conversion (''long long: '' @ dec_int (sint value))"

definition convertULongLong :: "uint64 \<Rightarrow> char list \<Rightarrow> nat \<Rightarrow> char list result" where
  "convertULongLong value = conversion (''ulonglong: '' @ dec_nat (unat value))"

definition convertFloat :: "c_float \<Rightarrow> char list \<Rightarrow> nat \<Rightarrow> char list result" where
  "convertFloat value = conversion (''float: '' @ fmt_f 5 value)"

definition convertDouble :: "c_float \<Rightarrow> char list \<Rightarrow> nat \<Rightarrow> char list result" where
  "convertDouble value = conversion (''double: '' @ fmt_f 10 value)"

definition convertLongDouble :: "c_float \<Rightarrow> char list \<Rightarrow> nat \<Rightarrow> char list result" where
  "convertLongDouble value = conversion (''long double: '' @ fmt_f 15 value)"

definition convertBool :: "bool \<Rightarrow> char list \<Rightarrow> nat \<Rightarrow> char list result" where
  "convertBool value = (let text = if value then ''true'' else ''false'' in conversion (''bool: '' @ text))"

text \<open>The C library chooses the text of \<^verbatim>\<open>%p\<close>.\<close>

definition convertPointer :: "(uint64 \<Rightarrow> string) \<Rightarrow> uint64 \<Rightarrow> char list \<Rightarrow> nat \<Rightarrow> char list result" where
  "convertPointer fmt_p value = conversion (''pointer: '' @ fmt_p value)"

definition convertSize :: "uint64 \<Rightarrow> char list \<Rightarrow> nat \<Rightarrow> char list result" where
  "convertSize value = conversion (''size_t: '' @ dec_nat (unat value))"

definition convertSSize :: "uint64 \<Rightarrow> char list \<Rightarrow> nat \<Rightarrow> char list result" where
  "convertSSize value = conversion (''ssize_t: '' @ dec_int (sint value))"

definition convertOff :: "uint64 \<Rightarrow> char list \<Rightarrow> nat \<Rightarrow> char list result" where
  "convertOff value = conversion (''off_t: '' @ dec_int (sint value))"

definition convertPid :: "uint32 \<Rightarrow> char list \<Rightarrow> nat \<Rightarrow> char list result" where
  "convertPid value = conversion (''pid_t: '' @ dec_int (sint value))"

definition convertUid :: "uint32 \<Rightarrow> char list \<Rightarrow> nat \<Rightarrow> char list result" where
  "convertUid value = conversion (''uid_t: '' @ dec_nat (unat value))"

definition convertGid :: "uint32 \<Rightarrow> char list \<Rightarrow> nat \<Rightarrow> char list result" where
  "convertGid value = conversion (''gid_t: '' @ dec_nat (unat value))"

section \<open>The main program\<close>

datatype buffer_name = Good_buffer | Bad_buffer

datatype snprintf_op =
    Sn_printf string
  | Sn_convert buffer_name "char list \<Rightarrow> nat \<Rightarrow> char list result"
  | Sn_show buffer_name
  | Sn_memset buffer_name

record sn_state =
  sn_good :: "char list"
  sn_bad :: "char list"
  sn_out :: "string list"

fun sn_buffer :: "buffer_name \<Rightarrow> sn_state \<Rightarrow> char list" where
  "sn_buffer Good_buffer s = sn_good s"
| "sn_buffer Bad_buffer s = sn_bad s"

fun sn_store :: "buffer_name \<Rightarrow> char list \<Rightarrow> sn_state \<Rightarrow> sn_state" where
  "sn_store Good_buffer b s = s\<lparr>sn_good := b\<rparr>"
| "sn_store Bad_buffer b s = s\<lparr>sn_bad := b\<rparr>"

fun sn_label :: "buffer_name \<Rightarrow> string" where
  "sn_label Good_buffer = TAB # ''Good Buffer: ''"
| "sn_label Bad_buffer = TAB # ''Bad Buffer: ''"

definition sn_line :: "buffer_name \<Rightarrow> string \<Rightarrow> string" where
  "sn_line b s = sn_label b @ s @ [NL]"

definition sizeof_buffer :: "buffer_name \<Rightarrow> nat" where
  "sizeof_buffer b = (case b of Good_buffer \<Rightarrow> 50 | Bad_buffer \<Rightarrow> 2)"

text \<open>\<^verbatim>\<open>%s\<close> of an array without a NUL reads past its end.\<close>

fun sn_step :: "snprintf_op \<Rightarrow> sn_state \<Rightarrow> sn_state result" where
  "sn_step (Sn_printf text) s = Returns (s\<lparr>sn_out := sn_out s @ [text]\<rparr>)"
| "sn_step (Sn_convert b convert) s =
     bind_result (convert (sn_buffer b s) (sizeof_buffer b)) (\<lambda>buffer. Returns (sn_store b buffer s))"
| "sn_step (Sn_show b) s =
     (if NUL \<in> set (sn_buffer b s) then Returns (s\<lparr>sn_out := sn_out s @ [sn_line b (c_str (sn_buffer b s))]\<rparr>)
      else Undef)"
| "sn_step (Sn_memset b) s = bind_result (store_bytes (sn_buffer b s) (replicate (sizeof_buffer b) NUL)) (\<lambda>buffer. Returns (sn_store b buffer s))"

fun sn_run :: "snprintf_op list \<Rightarrow> sn_state \<Rightarrow> sn_state result" where
  "sn_run [] s = Returns s"
| "sn_run (op # ops) s = bind_result (sn_step op s) (sn_run ops)"

text \<open>The floating-point constants of \<^verbatim>\<open>main\<close>, in the formats of the x86-64 ABI.\<close>

definition pi_float :: c_float where "pi_float = Finite False 823549 (- 18)"

definition FLT_MAX :: c_float where "FLT_MAX = Finite False (2 ^ 24 - 1) 104"

definition DBL_MAX :: c_float where "DBL_MAX = Finite False (2 ^ 53 - 1) 971"

definition pi_long_double :: c_float where "pi_long_double = Finite False 14488038916154245685 (- 62)"

definition big_long_double :: c_float where "big_long_double = Finite False 1325607190272587599 (- 27)"

definition integer_ops :: "snprintf_op list" where
  "integer_ops =
     [Sn_printf (''Character Types'' @ [NL]),
      Sn_printf (''char'' @ [NL]),
      Sn_convert Good_buffer (convertChar CHR ''A''), Sn_show Good_buffer, Sn_memset Good_buffer,
      Sn_convert Bad_buffer (convertChar NUL), Sn_show Bad_buffer, Sn_memset Bad_buffer,
      Sn_printf (''int8_t'' @ [NL]),
      Sn_convert Good_buffer (convertInt8 (-42)), Sn_show Good_buffer, Sn_memset Good_buffer,
      Sn_printf (''uint8_t'' @ [NL]),
      Sn_convert Good_buffer (convertUInt8 255), Sn_show Good_buffer, Sn_memset Good_buffer,
      Sn_printf (''int16_t'' @ [NL]),
      Sn_convert Good_buffer (convertInt16 (-12345)), Sn_show Good_buffer, Sn_memset Good_buffer,
      Sn_convert Bad_buffer (convertInt16 32767), Sn_show Bad_buffer, Sn_memset Bad_buffer,
      Sn_printf (''uint16_t'' @ [NL]),
      Sn_convert Good_buffer (convertUInt16 65535), Sn_show Good_buffer, Sn_memset Good_buffer,
      Sn_printf (''int32_t'' @ [NL]),
      Sn_convert Good_buffer (convertInt32 (-2147483647 - 1)), Sn_show Good_buffer, Sn_memset Good_buffer,
      Sn_convert Bad_buffer (convertInt32 2147483647), Sn_show Bad_buffer, Sn_memset Bad_buffer,
      Sn_printf (''uint32_t'' @ [NL]),
      Sn_convert Good_buffer (convertUInt32 4294967295), Sn_show Good_buffer, Sn_memset Good_buffer,
      Sn_printf (''int'' @ [NL]),
      Sn_convert Good_buffer (convertInt (-2147483647 - 1)), Sn_show Good_buffer, Sn_memset Good_buffer,
      Sn_convert Bad_buffer (convertInt 2147483647), Sn_show Bad_buffer, Sn_memset Bad_buffer,
      Sn_printf (''unsigned int'' @ [NL]),
      Sn_convert Good_buffer (convertUInt 12345), Sn_show Good_buffer, Sn_memset Good_buffer,
      Sn_convert Bad_buffer (convertUInt 2147483647), Sn_show Bad_buffer, Sn_memset Bad_buffer,
      Sn_printf (''long'' @ [NL]),
      Sn_convert Good_buffer (convertLong 4294967295), Sn_show Good_buffer, Sn_memset Good_buffer,
      Sn_convert Bad_buffer (convertLong 5000000000), Sn_show Bad_buffer, Sn_memset Bad_buffer,
      Sn_printf (''unsigned long'' @ [NL]),
      Sn_convert Good_buffer (convertULong 4294967295), Sn_show Good_buffer, Sn_memset Good_buffer,
      Sn_convert Bad_buffer (convertULong 5000000000), Sn_show Bad_buffer, Sn_memset Bad_buffer,
      Sn_printf (''long long'' @ [NL]),
      Sn_convert Good_buffer (convertLongLong (-9223372036854775807 - 1)), Sn_show Good_buffer, Sn_memset Good_buffer,
      Sn_convert Bad_buffer (convertLongLong 9223372036854775807), Sn_show Bad_buffer, Sn_memset Bad_buffer,
      Sn_printf (''unsigned long long'' @ [NL]),
      Sn_convert Good_buffer (convertULongLong 18446744073709551615), Sn_show Good_buffer, Sn_memset Good_buffer,
      Sn_convert Bad_buffer (convertULongLong 18446744073709551615), Sn_show Bad_buffer, Sn_memset Bad_buffer]"

definition floating_ops :: "snprintf_op list" where
  "floating_ops =
     [Sn_printf (''float'' @ [NL]),
      Sn_convert Good_buffer (convertFloat pi_float), Sn_show Good_buffer, Sn_memset Good_buffer,
      Sn_convert Bad_buffer (convertFloat FLT_MAX), Sn_show Bad_buffer, Sn_memset Bad_buffer,
      Sn_printf (''double'' @ [NL]),
      Sn_convert Good_buffer (convertDouble DBL_MAX), Sn_show Good_buffer, Sn_memset Good_buffer,
      Sn_printf (''long double'' @ [NL]),
      Sn_convert Good_buffer (convertLongDouble pi_long_double), Sn_show Good_buffer, Sn_memset Good_buffer,
      Sn_convert Bad_buffer (convertLongDouble big_long_double), Sn_show Bad_buffer, Sn_memset Bad_buffer,
      Sn_printf (''bool'' @ [NL]),
      Sn_convert Good_buffer (convertBool True), Sn_show Good_buffer, Sn_memset Good_buffer,
      Sn_convert Bad_buffer (convertBool False), Sn_show Bad_buffer, Sn_memset Bad_buffer]"

definition other_ops :: "(uint64 \<Rightarrow> string) \<Rightarrow> uint64 \<Rightarrow> snprintf_op list" where
  "other_ops fmt_p addr =
     [Sn_printf ([NL] @ ''Pointer Types'' @ [NL]),
      Sn_printf (''type*'' @ [NL]),
      Sn_convert Good_buffer (convertPointer fmt_p addr), Sn_show Good_buffer, Sn_memset Good_buffer,
      Sn_convert Bad_buffer (convertPointer fmt_p 0), Sn_show Bad_buffer, Sn_memset Bad_buffer,
      Sn_printf (''size_t'' @ [NL]),
      Sn_convert Good_buffer (convertSize 4), Sn_show Good_buffer, Sn_memset Good_buffer,
      Sn_printf (''ssize_t'' @ [NL]),
      Sn_convert Good_buffer (convertSSize (-42)), Sn_show Good_buffer, Sn_memset Good_buffer,
      Sn_convert Bad_buffer (convertSSize 12345), Sn_show Bad_buffer, Sn_memset Bad_buffer,
      Sn_printf (''off_t'' @ [NL]),
      Sn_convert Good_buffer (convertOff 9876543210), Sn_show Good_buffer, Sn_memset Good_buffer,
      Sn_convert Bad_buffer (convertOff (-1)), Sn_show Bad_buffer, Sn_memset Bad_buffer,
      Sn_printf (''pid_t'' @ [NL]),
      Sn_convert Good_buffer (convertPid 12345), Sn_show Good_buffer, Sn_memset Good_buffer,
      Sn_convert Bad_buffer (convertPid (-1)), Sn_show Bad_buffer, Sn_memset Bad_buffer,
      Sn_printf (''uid_t'' @ [NL]),
      Sn_convert Good_buffer (convertUid 1000), Sn_show Good_buffer, Sn_memset Good_buffer,
      Sn_printf (''gid_t'' @ [NL]),
      Sn_convert Good_buffer (convertGid 100), Sn_show Good_buffer, Sn_memset Good_buffer]"

text \<open>The buffers are not initialised; \<open>addr\<close> is the address of \<^verbatim>\<open>value\<close>.\<close>

definition snprintf_main :: "(uint64 \<Rightarrow> string) \<Rightarrow> uint64 \<Rightarrow> char list \<Rightarrow> char list \<Rightarrow> string list result" where
  "snprintf_main fmt_p addr good bad =
     bind_result (sn_run (integer_ops @ floating_ops @ other_ops fmt_p addr) \<lparr>sn_good = good, sn_bad = bad, sn_out = []\<rparr>)
       (\<lambda>s. Returns (sn_out s))"

section \<open>What a conversion leaves in the buffer\<close>

lemma snprintf_Returns:
  assumes "0 < n" "n \<le> length buffer"
  shows "snprintf text buffer n = Returns (take (n - 1) text @ NUL # drop (Suc (min (n - 1) (length text))) buffer,
    if length text < 2 ^ 31 then int (length text) else - 1)"
proof -
  have len: "length (take (n - 1) text @ [NUL]) = Suc (min (n - 1) (length text))" by (simp add: min.commute)
  then have "length (take (n - 1) text @ [NUL]) \<le> length buffer" using assms by simp
  then show ?thesis using assms(1) len by (simp add: snprintf_def store_bytes_def)
qed

lemma conversion_fits:
  assumes "length text < n" "n \<le> length buffer" "n \<le> 2 ^ 31"
  shows "conversion text buffer n = Returns (text @ NUL # drop (Suc (length text)) buffer)"
  using assms snprintf_Returns [of n buffer "text"]
  by (simp add: conversion_def arr_set_def list_update_append)

lemma conversion_too_long:
  assumes "0 < n" "n \<le> length buffer" "n \<le> length text"
  shows "\<exists>b. conversion text buffer n = Returns b \<and> length b = length buffer \<and> drop n b = drop n buffer
    \<and> c_str b = take (n - 1) ''E''"
proof -
  define b where "b = take (n - 1) text @ NUL # drop (Suc (min (n - 1) (length text))) buffer"
  have b: "length b = length buffer" "drop n b = drop n buffer" using assms by (auto simp: b_def)
  define c where "c = take (n - 1) ''E'' @ NUL # drop (Suc (min (n - 1) (length ''E''))) b"
  define r where "r = (if length text < 2 ^ 31 then int (length text) else - 1)"
  have "snprintf text buffer n = Returns (b, r)" unfolding b_def r_def by (rule snprintf_Returns [OF assms(1,2)])
  moreover have "\<not> (0 \<le> r \<and> nat r < n)" using assms(3) by (auto simp: r_def)
  moreover obtain r' where "snprintf ''E'' b n = Returns (c, r')"
    unfolding c_def using snprintf_Returns [of n b "''E''"] assms(1,2) b(1) by simp
  ultimately have "conversion text buffer n = Returns c" by (auto simp: conversion_def)
  moreover have "length c = length b" using assms(1,2) b(1) by (auto simp: c_def)
  moreover have "drop n c = drop n b"
  proof (cases "n = 1")
    case False
    then obtain k where "n = Suc (Suc k)" using assms(1) by (metis One_nat_def gr0_conv_Suc not_gr0)
    then show ?thesis by (simp add: c_def)
  qed (simp add: c_def)
  moreover have "c_str c = take (n - 1) ''E''" unfolding c_def by (rule c_str_append_NUL) (simp add: take_Cons')
  ultimately show ?thesis using b by auto
qed

lemma conversion_result:
  assumes "0 < n" "n \<le> length buffer" "n \<le> 2 ^ 31"
  shows "\<exists>b. conversion text buffer n = Returns b \<and> length b = length buffer \<and> drop n b = drop n buffer
    \<and> c_str b = (if length text < n then c_str text else take (n - 1) ''E'')"
proof (cases "length text < n")
  case True
  then have "drop n (text @ NUL # drop (Suc (length text)) buffer) = drop n buffer"
    using Suc_diff_Suc [OF True] by (simp add: drop_Cons' add.commute)
  with True show ?thesis using conversion_fits [OF True assms(2,3)] assms(2) by (auto simp: c_str_append)
next
  case False
  then show ?thesis using conversion_too_long [OF assms(1,2), of "text"] by auto
qed

section \<open>The length of a number\<close>

lemma length_dec_nat_unat:
  assumes "2 ^ LENGTH('a :: len) \<le> (10 :: nat) ^ k" "0 < k"
  shows "length (dec_nat (unat (w :: 'a word))) \<le> k"
proof (rule length_dec_nat [OF _ assms(2)])
  have "unat w < 2 ^ LENGTH('a)" by (rule unsigned_less)
  then show "unat w < 10 ^ k" using assms(1) by linarith
qed

lemma length_dec_int: "\<bar>i\<bar> < 10 ^ k \<Longrightarrow> 0 < k \<Longrightarrow> length (dec_int i) \<le> Suc k"
  using length_dec_nat [of "nat \<bar>i\<bar>" k] by (auto simp: dec_int_def nat_less_iff intro: le_SucI)

lemma length_dec_int_sint:
  assumes "2 ^ LENGTH('a :: len) \<le> (10 :: int) ^ k" "0 < k"
  shows "length (dec_int (sint (w :: 'a word))) \<le> Suc k"
proof (rule length_dec_int [OF _ assms(2)])
  have "- (2 ^ (LENGTH('a) - 1)) \<le> sint w" "sint w < 2 ^ (LENGTH('a) - 1)"
    using sint_greater_eq [of w] sint_less [of w] by simp_all
  moreover have "(2 :: int) ^ (LENGTH('a) - 1) < 2 ^ LENGTH('a)" by (rule power_strict_increasing) simp_all
  ultimately show "\<bar>sint w\<bar> < 10 ^ k" using assms(1) by linarith
qed

lemma length_dec_nat_ge: "10 ^ k \<le> n \<Longrightarrow> k < length (dec_nat n)"
proof (induction k arbitrary: n)
  case (Suc k)
  have "10 ^ Suc k div 10 \<le> n div 10" using Suc.prems by (rule div_le_mono)
  then have "10 ^ k \<le> n div 10" by simp
  moreover have "(10 :: nat) \<le> 10 ^ Suc k" by simp
  then have "\<not> n < 10" using Suc.prems by linarith
  ultimately show ?case using Suc.IH [of "n div 10"] by (simp add: dec_nat.simps [of n])
qed simp

section \<open>Running the main program\<close>

lemma conversion_shows:
  assumes "length g = k" "0 < k" "k \<le> 2 ^ 31"
  shows "\<exists>h. conversion s g k = Returns h \<and> length h = k \<and> NUL \<in> set h
    \<and> c_str h = (if length s < k then c_str s else take (k - 1) ''E'')"
proof -
  from conversion_result [of k g s] assms obtain h
    where h: "conversion s g k = Returns h" "length h = k" "c_str h = (if length s < k then c_str s else take (k - 1) ''E'')"
    by auto
  have "length (c_str h) < length h"
  proof (cases "length s < k")
    case True
    have "length (c_str s) \<le> length s" unfolding c_str_def by (rule length_takeWhile_le)
    with h True show ?thesis by simp
  next
    case False
    with h assms(2) show ?thesis by simp
  qed
  then have "NUL \<in> set h" using takeWhile_all [of h "\<lambda>c. c \<noteq> NUL"] by (fastforce simp: c_str_def)
  with h show ?thesis by blast
qed

text \<open>A part of \<^verbatim>\<open>main\<close> that prints given lines, whatever the buffers hold before.\<close>

definition sn_prints :: "snprintf_op list \<Rightarrow> string list \<Rightarrow> bool" where
  "sn_prints ops ls \<longleftrightarrow> (\<forall>g b out. length g = 50 \<longrightarrow> length b = 2 \<longrightarrow>
     (\<exists>g' b'. length g' = 50 \<and> length b' = 2
        \<and> sn_run ops \<lparr>sn_good = g, sn_bad = b, sn_out = out\<rparr> = Returns \<lparr>sn_good = g', sn_bad = b', sn_out = out @ ls\<rparr>))"

lemma sn_prints_Nil: "sn_prints [] []"
  by (simp add: sn_prints_def)

lemma sn_prints_step:
  assumes "sn_prints ops ls"
    and "\<And>g b out. length g = 50 \<Longrightarrow> length b = 2 \<Longrightarrow> \<exists>g' b'. length g' = 50 \<and> length b' = 2
      \<and> sn_run ops' \<lparr>sn_good = g, sn_bad = b, sn_out = out\<rparr> = sn_run ops \<lparr>sn_good = g', sn_bad = b', sn_out = out @ [l]\<rparr>"
  shows "sn_prints ops' (l # ls)"
  unfolding sn_prints_def
proof (intro allI impI)
  fix g b out assume "length (g :: char list) = 50" "length (b :: char list) = 2"
  from assms(2) [OF this] obtain g' b' where one: "length g' = 50" "length b' = 2"
      "sn_run ops' \<lparr>sn_good = g, sn_bad = b, sn_out = out\<rparr> = sn_run ops \<lparr>sn_good = g', sn_bad = b', sn_out = out @ [l]\<rparr>"
    by blast
  have "\<exists>h c. length h = 50 \<and> length c = 2 \<and> sn_run ops \<lparr>sn_good = g', sn_bad = b', sn_out = out @ [l]\<rparr>
      = Returns \<lparr>sn_good = h, sn_bad = c, sn_out = (out @ [l]) @ ls\<rparr>"
    using assms(1) one(1,2) unfolding sn_prints_def by blast
  with one(3) show "\<exists>h c. length h = 50 \<and> length c = 2
      \<and> sn_run ops' \<lparr>sn_good = g, sn_bad = b, sn_out = out\<rparr> = Returns \<lparr>sn_good = h, sn_bad = c, sn_out = out @ l # ls\<rparr>"
    by simp
qed

lemma sn_prints_printf: "sn_prints ops ls \<Longrightarrow> sn_prints (Sn_printf s # ops) (s # ls)"
  by (erule sn_prints_step) auto

lemma sn_group:
  assumes "length (sn_buffer b s) = sizeof_buffer b"
  shows "sn_run (Sn_convert b (conversion t) # Sn_show b # Sn_memset b # ops) s
    = sn_run ops (sn_store b (replicate (sizeof_buffer b) NUL)
        (s\<lparr>sn_out := sn_out s @ [sn_line b (if length t < sizeof_buffer b then c_str t else take (sizeof_buffer b - 1) ''E'')]\<rparr>))"
proof -
  have "0 < sizeof_buffer b" "sizeof_buffer b \<le> 2 ^ 31" by (simp_all add: sizeof_buffer_def split: buffer_name.split)
  from conversion_shows [OF assms this, of t] obtain h
    where "conversion t (sn_buffer b s) (sizeof_buffer b) = Returns h" "length h = sizeof_buffer b" "NUL \<in> set h"
      "c_str h = (if length t < sizeof_buffer b then c_str t else take (sizeof_buffer b - 1) ''E'')" by blast
  moreover have "sn_buffer b (sn_store b h s') = h" "sn_store b k (sn_store b h s') = sn_store b k s'"
    "sn_out (sn_store b h s') = sn_out s'" "(sn_store b h s')\<lparr>sn_out := o'\<rparr> = sn_store b h (s'\<lparr>sn_out := o'\<rparr>)" for k s' o'
    by (cases b; simp)+
  ultimately show ?thesis by (simp add: store_bytes_def)
qed

lemma sn_prints_good:
  assumes "t = s" "length s < 50" "NUL \<notin> set s" "sn_prints ops ls"
  shows "sn_prints (Sn_convert Good_buffer (conversion t) # Sn_show Good_buffer # Sn_memset Good_buffer # ops)
    (sn_line Good_buffer s # ls)"
proof -
  have "c_str s = s" using assms(3) unfolding c_str_def by (intro takeWhile_all) auto
  with assms(1-3) have run: "sn_run (Sn_convert Good_buffer (conversion t) # Sn_show Good_buffer # Sn_memset Good_buffer # ops)
      \<lparr>sn_good = g, sn_bad = b, sn_out = out\<rparr>
    = sn_run ops \<lparr>sn_good = replicate 50 NUL, sn_bad = b, sn_out = out @ [sn_line Good_buffer s]\<rparr>"
    if "length g = 50" for g b out using that by (simp add: sn_group sizeof_buffer_def del: sn_run.simps)
  show ?thesis by (rule sn_prints_step [OF assms(4)]) (metis run length_replicate)
qed

lemma sn_prints_good_E:
  assumes "50 \<le> length t" "sn_prints ops ls"
  shows "sn_prints (Sn_convert Good_buffer (conversion t) # Sn_show Good_buffer # Sn_memset Good_buffer # ops)
    (sn_line Good_buffer ''E'' # ls)"
proof -
  have run: "sn_run (Sn_convert Good_buffer (conversion t) # Sn_show Good_buffer # Sn_memset Good_buffer # ops)
      \<lparr>sn_good = g, sn_bad = b, sn_out = out\<rparr>
    = sn_run ops \<lparr>sn_good = replicate 50 NUL, sn_bad = b, sn_out = out @ [sn_line Good_buffer ''E'']\<rparr>"
    if "length g = 50" for g b out using that assms(1) by (simp add: sn_group sizeof_buffer_def del: sn_run.simps)
  show ?thesis by (rule sn_prints_step [OF assms(2)]) (metis run length_replicate)
qed

lemma sn_prints_bad:
  assumes "2 \<le> length t" "sn_prints ops ls"
  shows "sn_prints (Sn_convert Bad_buffer (conversion t) # Sn_show Bad_buffer # Sn_memset Bad_buffer # ops)
    (sn_line Bad_buffer ''E'' # ls)"
proof -
  have run: "sn_run (Sn_convert Bad_buffer (conversion t) # Sn_show Bad_buffer # Sn_memset Bad_buffer # ops)
      \<lparr>sn_good = g, sn_bad = b, sn_out = out\<rparr>
    = sn_run ops \<lparr>sn_good = g, sn_bad = replicate 2 NUL, sn_out = out @ [sn_line Bad_buffer ''E'']\<rparr>"
    if "length b = 2" for g b out using that assms(1) by (simp add: sn_group sizeof_buffer_def del: sn_run.simps)
  show ?thesis by (rule sn_prints_step [OF assms(2)]) (metis run length_replicate)
qed

lemma sn_run_append: "sn_run (ops @ ops') s = bind_result (sn_run ops s) (sn_run ops')"
proof (induction ops arbitrary: s)
  case (Cons op ops)
  then show ?case by (cases "sn_step op s") simp_all
qed simp

lemma sn_prints_append:
  assumes "sn_prints ops ls" "sn_prints ops' ls'"
  shows "sn_prints (ops @ ops') (ls @ ls')"
  unfolding sn_prints_def
proof (intro allI impI)
  fix g b out assume "length (g :: char list) = 50" "length (b :: char list) = 2"
  then obtain g' b' where one: "length g' = 50" "length b' = 2"
      "sn_run ops \<lparr>sn_good = g, sn_bad = b, sn_out = out\<rparr> = Returns \<lparr>sn_good = g', sn_bad = b', sn_out = out @ ls\<rparr>"
    using assms(1) unfolding sn_prints_def by metis
  then obtain h c where "length h = 50" "length c = 2"
      "sn_run ops' \<lparr>sn_good = g', sn_bad = b', sn_out = out @ ls\<rparr> = Returns \<lparr>sn_good = h, sn_bad = c, sn_out = out @ ls @ ls'\<rparr>"
    using assms(2) unfolding sn_prints_def by (metis append.assoc)
  with one show "\<exists>g' b'. length g' = 50 \<and> length b' = 2
      \<and> sn_run (ops @ ops') \<lparr>sn_good = g, sn_bad = b, sn_out = out\<rparr>
        = Returns \<lparr>sn_good = g', sn_bad = b', sn_out = out @ ls @ ls'\<rparr>"
    by (simp add: sn_run_append)
qed

lemma sn_prints_out:
  assumes "sn_prints ops ls" "length g = 50" "length b = 2"
  shows "bind_result (sn_run ops \<lparr>sn_good = g, sn_bad = b, sn_out = []\<rparr>) (\<lambda>s. Returns (sn_out s)) = Returns ls"
proof -
  obtain g' b' where "sn_run ops \<lparr>sn_good = g, sn_bad = b, sn_out = []\<rparr> = Returns \<lparr>sn_good = g', sn_bad = b', sn_out = [] @ ls\<rparr>"
    using assms unfolding sn_prints_def by metis
  then show ?thesis by simp
qed

lemmas sn_rules = sn_prints_Nil sn_prints_printf sn_prints_good sn_prints_bad

lemmas integer_conversions = convertInt8_def convertUInt8_def convertInt16_def convertUInt16_def convertInt32_def convertUInt32_def convertInt_def convertUInt_def convertLong_def convertULong_def convertLongLong_def convertULongLong_def convertSize_def convertSSize_def convertOff_def convertPid_def convertUid_def convertGid_def

lemmas other_conversions = convertChar_def convertFloat_def convertDouble_def convertLongDouble_def convertBool_def convertPointer_def

section \<open>Theorems about the program\<close>

text \<open>C20. Every conversion, for every value and every buffer that has the size it is told, stores nothing outside
  that size and leaves a string: the whole text when it fits with its NUL, and otherwise \<^verbatim>\<open>E\<close>, cut to the
  size.\<close>

theorem convert_full_or_E:
  assumes "(convert, s) \<in>
      {(convertChar c, ''char: '' @ [c]),
       (convertFloat fl, ''float: '' @ fmt_f 5 fl),
       (convertDouble db, ''double: '' @ fmt_f 10 db),
       (convertLongDouble ld, ''long double: '' @ fmt_f 15 ld),
       (convertBool b, ''bool: '' @ (if b then ''true'' else ''false'')),
       (convertPointer fmt_p p, ''pointer: '' @ fmt_p p),
       (convertInt8 ia, ''int8_t: '' @ dec_int (sint ia)),
       (convertUInt8 ua, ''uint8_t: '' @ dec_nat (unat ua)),
       (convertInt16 ib, ''int16_t: '' @ dec_int (sint ib)),
       (convertUInt16 ub, ''uint16_t: '' @ dec_nat (unat ub)),
       (convertInt32 ic, ''int32_t: '' @ dec_int (sint ic)),
       (convertUInt32 uc, ''uint32_t: '' @ dec_nat (unat uc)),
       (convertInt ii, ''int: '' @ dec_int (sint ii)),
       (convertUInt ui, ''uint: '' @ dec_nat (unat ui)),
       (convertLong il, ''long: '' @ dec_int (sint il)),
       (convertULong ul, ''ulong: '' @ dec_nat (unat ul)),
       (convertLongLong ill, ''long long: '' @ dec_int (sint ill)),
       (convertULongLong ull, ''ulonglong: '' @ dec_nat (unat ull)),
       (convertSize sz, ''size_t: '' @ dec_nat (unat sz)),
       (convertSSize ssz, ''ssize_t: '' @ dec_int (sint ssz)),
       (convertOff off, ''off_t: '' @ dec_int (sint off)),
       (convertPid pid, ''pid_t: '' @ dec_int (sint pid)),
       (convertUid uid, ''uid_t: '' @ dec_nat (unat uid)),
       (convertGid gid, ''gid_t: '' @ dec_nat (unat gid))}"
    and "0 < n" "n \<le> length buffer" "n \<le> 2 ^ 31"
  shows "\<exists>b. convert buffer n = Returns b \<and> length b = length buffer \<and> drop n b = drop n buffer
    \<and> c_str b = (if length s < n then c_str s else take (n - 1) ''E'')"
proof -
  have "convert = conversion s" using assms(1) by (auto simp: integer_conversions other_conversions)
  with conversion_result [OF assms(2-4)] show ?thesis by blast
qed

lemma convert_full_or_E_witness:
  "\<exists>b. convertInt 42 (replicate 9 NUL) 9 = Returns b \<and> c_str b = ''int: 42''"
proof -
  have "''int: '' @ dec_int (sint (42 :: uint32)) = ''int: 42''" by code_simp
  then show ?thesis
    using convert_full_or_E [where convert = "convertInt 42" and s = "''int: 42''" and n = 9 and buffer = "replicate 9 NUL" and ii = 42]
    by (auto simp: c_str_def)
qed

text \<open>The buffer of 50 bytes holds every value of every integer type whole.\<close>

theorem integers_fit:
  assumes "(convert, s) \<in>
      {(convertInt8 ia, ''int8_t: '' @ dec_int (sint ia)),
       (convertUInt8 ua, ''uint8_t: '' @ dec_nat (unat ua)),
       (convertInt16 ib, ''int16_t: '' @ dec_int (sint ib)),
       (convertUInt16 ub, ''uint16_t: '' @ dec_nat (unat ub)),
       (convertInt32 ic, ''int32_t: '' @ dec_int (sint ic)),
       (convertUInt32 uc, ''uint32_t: '' @ dec_nat (unat uc)),
       (convertInt ii, ''int: '' @ dec_int (sint ii)),
       (convertUInt ui, ''uint: '' @ dec_nat (unat ui)),
       (convertLong il, ''long: '' @ dec_int (sint il)),
       (convertULong ul, ''ulong: '' @ dec_nat (unat ul)),
       (convertLongLong ill, ''long long: '' @ dec_int (sint ill)),
       (convertULongLong ull, ''ulonglong: '' @ dec_nat (unat ull)),
       (convertSize sz, ''size_t: '' @ dec_nat (unat sz)),
       (convertSSize ssz, ''ssize_t: '' @ dec_int (sint ssz)),
       (convertOff off, ''off_t: '' @ dec_int (sint off)),
       (convertPid pid, ''pid_t: '' @ dec_int (sint pid)),
       (convertUid uid, ''uid_t: '' @ dec_nat (unat uid)),
       (convertGid gid, ''gid_t: '' @ dec_nat (unat gid))}"
    and "length buffer = 50"
  shows "\<exists>b. convert buffer 50 = Returns b \<and> c_str b = s"
proof -
  have "convert = conversion s" using assms(1) by (auto simp: integer_conversions)
  moreover note lens_u = length_dec_nat_unat [where k = 20] and lens_d = length_dec_int_sint [where k = 20]
  have "length s < 50"
    using assms(1) lens_u [of ua] lens_d [of ia] lens_u [of ub] lens_d [of ib] lens_u [of uc] lens_d [of ic]
      lens_u [of ui] lens_d [of ii] lens_u [of ul] lens_d [of il] lens_u [of ull] lens_d [of ill] lens_u [of sz]
      lens_d [of ssz] lens_d [of off] lens_d [of pid] lens_u [of uid] lens_u [of gid]
    by (elim insertE emptyE) simp_all
  moreover have "NUL \<notin> set s" using assms(1) by (elim insertE emptyE) simp_all
  ultimately show ?thesis using conversion_fits [of s 50 buffer] assms(2) by simp
qed

lemma integers_fit_witness: "\<exists>b. convertInt8 (- 128) (replicate 50 NUL) 50 = Returns b \<and> c_str b = ''int8_t: -128''"
proof -
  have "''int8_t: '' @ dec_int (sint (- 128 :: uint8)) = ''int8_t: -128''" by code_simp
  then show ?thesis
    using integers_fit [where convert = "convertInt8 (- 128)" and s = "''int8_t: -128''" and buffer = "replicate 50 NUL"
        and ia = "- 128"] by auto
qed

lemma digit_chars:
  "digit_char 0 = CHR ''0''" "digit_char 1 = CHR ''1''" "digit_char (Suc 0) = CHR ''1''" "digit_char 2 = CHR ''2''"
  "digit_char 3 = CHR ''3''" "digit_char 4 = CHR ''4''" "digit_char 5 = CHR ''5''" "digit_char 6 = CHR ''6''"
  "digit_char 7 = CHR ''7''" "digit_char 8 = CHR ''8''" "digit_char 9 = CHR ''9''"
  by code_simp+

lemma integer_texts:
  "dec_int (sint (- 42 :: uint8)) = ''-42''" "dec_nat (unat (255 :: uint8)) = ''255''"
  "dec_int (sint (- 12345 :: uint16)) = ''-12345''" "dec_nat (unat (65535 :: uint16)) = ''65535''"
  "dec_int (sint (- 2147483647 - 1 :: uint32)) = ''-2147483648''" "dec_nat (unat (4294967295 :: uint32)) = ''4294967295''"
  "dec_nat (unat (12345 :: uint32)) = ''12345''" "dec_int (sint (4294967295 :: uint64)) = ''4294967295''"
  "dec_nat (unat (4294967295 :: uint64)) = ''4294967295''"
  "dec_int (sint (- 9223372036854775807 - 1 :: uint64)) = ''-9223372036854775808''"
  "dec_nat (unat (18446744073709551615 :: uint64)) = ''18446744073709551615''"
  "dec_nat (unat (4 :: uint64)) = ''4''" "dec_int (sint (- 42 :: uint64)) = ''-42''"
  "dec_int (sint (9876543210 :: uint64)) = ''9876543210''" "dec_int (sint (12345 :: uint32)) = ''12345''"
  "dec_nat (unat (1000 :: uint32)) = ''1000''" "dec_nat (unat (100 :: uint32)) = ''100''"
  by (simp_all add: dec_int_def dec_nat.simps digit_chars)

lemma integer_output:
  "sn_prints integer_ops
      [''Character Types'' @ [NL],
       ''char'' @ [NL],
       sn_line Good_buffer ''char: A'',
       sn_line Bad_buffer ''E'',
       ''int8_t'' @ [NL],
       sn_line Good_buffer ''int8_t: -42'',
       ''uint8_t'' @ [NL],
       sn_line Good_buffer ''uint8_t: 255'',
       ''int16_t'' @ [NL],
       sn_line Good_buffer ''int16_t: -12345'',
       sn_line Bad_buffer ''E'',
       ''uint16_t'' @ [NL],
       sn_line Good_buffer ''uint16_t: 65535'',
       ''int32_t'' @ [NL],
       sn_line Good_buffer ''int32_t: -2147483648'',
       sn_line Bad_buffer ''E'',
       ''uint32_t'' @ [NL],
       sn_line Good_buffer ''uint32_t: 4294967295'',
       ''int'' @ [NL],
       sn_line Good_buffer ''int: -2147483648'',
       sn_line Bad_buffer ''E'',
       ''unsigned int'' @ [NL],
       sn_line Good_buffer ''uint: 12345'',
       sn_line Bad_buffer ''E'',
       ''long'' @ [NL],
       sn_line Good_buffer ''long: 4294967295'',
       sn_line Bad_buffer ''E'',
       ''unsigned long'' @ [NL],
       sn_line Good_buffer ''ulong: 4294967295'',
       sn_line Bad_buffer ''E'',
       ''long long'' @ [NL],
       sn_line Good_buffer ''long long: -9223372036854775808'',
       sn_line Bad_buffer ''E'',
       ''unsigned long long'' @ [NL],
       sn_line Good_buffer ''ulonglong: 18446744073709551615'',
       sn_line Bad_buffer ''E'']"
  unfolding integer_ops_def integer_conversions convertChar_def integer_texts
  by (intro sn_rules) simp_all

lemma float_texts: "fmt_f 5 pi_float = ''3.14159''" "fmt_f 15 pi_long_double = ''3.141592653589793''"
  by (simp_all add: pi_float_def pi_long_double_def scaled_def round_half_even_def zero_pad_def dec_nat.simps digit_chars)

lemma DBL_MAX_long: "50 \<le> length (''double: '' @ fmt_f 10 DBL_MAX)"
proof -
  have "a * 10 ^ 10 * b div 10 ^ 10 = a * b" for a b :: nat
    by (metis mult.assoc mult.commute nonzero_mult_div_cancel_right power_not_zero zero_neq_numeral)
  then have "scaled 10 (2 ^ 53 - 1) 971 div 10 ^ 10 = (2 ^ 53 - 1) * 2 ^ nat 971"
    unfolding scaled_def by (simp only: zero_le_numeral if_True)
  moreover have "(10 :: nat) ^ 50 \<le> 2 ^ 167" by simp
  moreover have "(2 :: nat) ^ 167 \<le> 2 ^ nat 971" by (rule power_increasing) simp_all
  moreover have "1 * (2 :: nat) ^ nat 971 \<le> (2 ^ 53 - 1) * 2 ^ nat 971" by (rule mult_right_mono) simp_all
  ultimately have "10 ^ 50 \<le> scaled 10 (2 ^ 53 - 1) 971 div 10 ^ 10" by linarith
  then have "50 < length (dec_nat (scaled 10 (2 ^ 53 - 1) 971 div 10 ^ 10))"
    by (rule length_dec_nat_ge)
  then show ?thesis unfolding DBL_MAX_def fmt_f.simps length_append by linarith
qed

lemma floating_output:
  "sn_prints floating_ops
      [''float'' @ [NL],
       sn_line Good_buffer ''float: 3.14159'',
       sn_line Bad_buffer ''E'',
       ''double'' @ [NL],
       sn_line Good_buffer ''E'',
       ''long double'' @ [NL],
       sn_line Good_buffer ''long double: 3.141592653589793'',
       sn_line Bad_buffer ''E'',
       ''bool'' @ [NL],
       sn_line Good_buffer ''bool: true'',
       sn_line Bad_buffer ''E'']"
  unfolding floating_ops_def convertFloat_def convertDouble_def convertLongDouble_def convertBool_def Let_def float_texts if_True if_False
  by (rule sn_prints_printf sn_prints_good_E [OF DBL_MAX_long] sn_prints_Nil | (rule sn_prints_good, simp, simp, simp)
      | (rule sn_prints_bad, simp))+

lemma other_output:
  assumes "length (fmt_p addr) < 41" "NUL \<notin> set (fmt_p addr)"
  shows "sn_prints (other_ops fmt_p addr)
      [[NL] @ ''Pointer Types'' @ [NL],
       ''type*'' @ [NL],
       sn_line Good_buffer (''pointer: '' @ fmt_p addr),
       sn_line Bad_buffer ''E'',
       ''size_t'' @ [NL],
       sn_line Good_buffer ''size_t: 4'',
       ''ssize_t'' @ [NL],
       sn_line Good_buffer ''ssize_t: -42'',
       sn_line Bad_buffer ''E'',
       ''off_t'' @ [NL],
       sn_line Good_buffer ''off_t: 9876543210'',
       sn_line Bad_buffer ''E'',
       ''pid_t'' @ [NL],
       sn_line Good_buffer ''pid_t: 12345'',
       sn_line Bad_buffer ''E'',
       ''uid_t'' @ [NL],
       sn_line Good_buffer ''uid_t: 1000'',
       ''gid_t'' @ [NL],
       sn_line Good_buffer ''gid_t: 100'']"
  unfolding other_ops_def integer_conversions convertPointer_def integer_texts
  by (intro sn_rules) (use assms in simp_all)

text \<open>\<^verbatim>\<open>main\<close>, whatever the uninitialised buffers hold, never leaves them and prints these lines: the value
  for the buffer of 50 bytes and \<^verbatim>\<open>E\<close> for the buffer of 2, except that \<^verbatim>\<open>DBL_MAX\<close> does not fit the good
  buffer either.\<close>

theorem snprintf_main_prints:
  assumes "length good = 50" "length bad = 2" "length (fmt_p addr) < 41" "NUL \<notin> set (fmt_p addr)"
  shows "snprintf_main fmt_p addr good bad = Returns
      ([''Character Types'' @ [NL],
       ''char'' @ [NL],
       sn_line Good_buffer ''char: A'',
       sn_line Bad_buffer ''E'',
       ''int8_t'' @ [NL],
       sn_line Good_buffer ''int8_t: -42'',
       ''uint8_t'' @ [NL],
       sn_line Good_buffer ''uint8_t: 255'',
       ''int16_t'' @ [NL],
       sn_line Good_buffer ''int16_t: -12345'',
       sn_line Bad_buffer ''E'',
       ''uint16_t'' @ [NL],
       sn_line Good_buffer ''uint16_t: 65535'',
       ''int32_t'' @ [NL],
       sn_line Good_buffer ''int32_t: -2147483648'',
       sn_line Bad_buffer ''E'',
       ''uint32_t'' @ [NL],
       sn_line Good_buffer ''uint32_t: 4294967295'',
       ''int'' @ [NL],
       sn_line Good_buffer ''int: -2147483648'',
       sn_line Bad_buffer ''E'',
       ''unsigned int'' @ [NL],
       sn_line Good_buffer ''uint: 12345'',
       sn_line Bad_buffer ''E'',
       ''long'' @ [NL],
       sn_line Good_buffer ''long: 4294967295'',
       sn_line Bad_buffer ''E'',
       ''unsigned long'' @ [NL],
       sn_line Good_buffer ''ulong: 4294967295'',
       sn_line Bad_buffer ''E'',
       ''long long'' @ [NL],
       sn_line Good_buffer ''long long: -9223372036854775808'',
       sn_line Bad_buffer ''E'',
       ''unsigned long long'' @ [NL],
       sn_line Good_buffer ''ulonglong: 18446744073709551615'',
       sn_line Bad_buffer ''E''] @
       [''float'' @ [NL],
       sn_line Good_buffer ''float: 3.14159'',
       sn_line Bad_buffer ''E'',
       ''double'' @ [NL],
       sn_line Good_buffer ''E'',
       ''long double'' @ [NL],
       sn_line Good_buffer ''long double: 3.141592653589793'',
       sn_line Bad_buffer ''E'',
       ''bool'' @ [NL],
       sn_line Good_buffer ''bool: true'',
       sn_line Bad_buffer ''E''] @
       [[NL] @ ''Pointer Types'' @ [NL],
       ''type*'' @ [NL],
       sn_line Good_buffer (''pointer: '' @ fmt_p addr),
       sn_line Bad_buffer ''E'',
       ''size_t'' @ [NL],
       sn_line Good_buffer ''size_t: 4'',
       ''ssize_t'' @ [NL],
       sn_line Good_buffer ''ssize_t: -42'',
       sn_line Bad_buffer ''E'',
       ''off_t'' @ [NL],
       sn_line Good_buffer ''off_t: 9876543210'',
       sn_line Bad_buffer ''E'',
       ''pid_t'' @ [NL],
       sn_line Good_buffer ''pid_t: 12345'',
       sn_line Bad_buffer ''E'',
       ''uid_t'' @ [NL],
       sn_line Good_buffer ''uid_t: 1000'',
       ''gid_t'' @ [NL],
       sn_line Good_buffer ''gid_t: 100''])"
  unfolding snprintf_main_def
  by (rule sn_prints_out [OF sn_prints_append [OF integer_output
        sn_prints_append [OF floating_output other_output [of fmt_p addr, OF assms(3,4)]]] assms(1,2)])

lemma snprintf_main_prints_witness:
  "\<exists>ls. snprintf_main (\<lambda>p. ''0x'' @ dec_nat (unat p)) 8 (replicate 50 NUL) (replicate 2 NUL) = Returns ls
    \<and> sn_line Good_buffer ''E'' \<in> set ls"
proof -
  let ?p = "\<lambda>p :: uint64. ''0x'' @ dec_nat (unat p)"
  have "length (?p 8) < 41" "NUL \<notin> set (?p 8)" by (simp_all add: dec_nat.simps digit_chars)
  from snprintf_main_prints [of "replicate 50 NUL" "replicate 2 NUL" ?p 8, OF _ _ this] show ?thesis by simp
qed

end
