(* ===== verification/Net_Sockets.thy ===== *)
theory Net_Sockets
  imports C_Prelude "HOL-Library.Multiset"
begin

text \<open>
  What the socket programs under \<^verbatim>\<open>src/networking-functions\<close>, \<^verbatim>\<open>src/sockets\<close>, \<^verbatim>\<open>src/tcp\<close>,
  \<^verbatim>\<open>src/udp\<close> and \<^verbatim>\<open>src/domain-socket\<close> share. A program is a function on a state that holds the answers
  of the kernel still to come and the calls made so far. The functions of the sources follow, each program
  having its own copy of them, and the loop over \<^verbatim>\<open>accept\<close>. The locale \<open>service\<close> is what a server
  does with one connection; from it follows that no descriptor is leaked or closed twice.
\<close>

unbundle bit_operations_syntax

section \<open>The kernel as a sequence of answers\<close>

text \<open>\<^verbatim>\<open>struct sockaddr_storage\<close>: the family, the address and the port in network order, or the path.\<close>

record sockaddr =
  ss_family :: int
  ss_addr :: "uint8 list"
  ss_port :: uint16
  ss_path :: "char list"

abbreviation (input) AF_UNIX :: int where "AF_UNIX \<equiv> 1"
abbreviation (input) AF_INET :: int where "AF_INET \<equiv> 2"
abbreviation (input) AF_INET6 :: int where "AF_INET6 \<equiv> 10"
abbreviation (input) SOCK_STREAM :: int where "SOCK_STREAM \<equiv> 1"
abbreviation (input) SOCK_DGRAM :: int where "SOCK_DGRAM \<equiv> 2"
abbreviation (input) SHUT_RD :: int where "SHUT_RD \<equiv> 0"
abbreviation (input) SHUT_WR :: int where "SHUT_WR \<equiv> 1"
abbreviation (input) SHUT_RDWR :: int where "SHUT_RDWR \<equiv> 2"
abbreviation (input) SOMAXCONN :: int where "SOMAXCONN \<equiv> 4096"
abbreviation (input) EINTR :: int where "EINTR \<equiv> 4"

datatype net_call =
    C_socket int int int
  | C_bind int sockaddr nat
  | C_connect int sockaddr nat
  | C_listen int int
  | C_accept int
  | C_setsockopt int int int int
  | C_getsockopt int int int
  | C_shutdown int int
  | C_close int
  | C_read int nat
  | C_write int string
  | C_send int string
  | C_recv int nat
  | C_sendto int string sockaddr nat
  | C_recvfrom int nat
  | C_sigaction
  | C_unlink string

text \<open>\<open>A_fd\<close> answers \<^verbatim>\<open>socket\<close> and \<^verbatim>\<open>accept\<close>, \<open>A_data\<close> a call that reads (no bytes: the end of the file),
  \<open>A_count\<close> a call that writes, \<open>A_opt\<close> \<^verbatim>\<open>getsockopt\<close> with the one or two numbers of the option,
  \<open>A_err\<close> is the value -1 with this \<^verbatim>\<open>errno\<close>. An answer of another kind than the
  call expects counts as -1.\<close>

datatype answer = A_ok | A_fd int sockaddr | A_data string | A_count nat | A_opt int int | A_err int

text \<open>Each answer comes with the mark that SIGINT is delivered during the call. Without a handler it kills the
  process; the handler sets \<^verbatim>\<open>exit_flag\<close>.\<close>

record net =
  nt_env :: "(answer \<times> bool) list"
  nt_log :: "(net_call \<times> answer) list"
  nt_out :: "string list"
  nt_err :: "err_item list"
  nt_handler :: bool
  nt_flag :: bool

text \<open>How a piece of a program ends. \<open>Blocked\<close>: the call under way is never answered.\<close>

datatype 'a net_outcome = Val 'a | Exit int | Killed | Blocked

type_synonym 'a prog = "net \<Rightarrow> 'a net_outcome \<times> net"

definition ret :: "'a \<Rightarrow> 'a prog" where
  "ret a st = (Val a, st)"

definition leave :: "int \<Rightarrow> 'a prog" where
  "leave code st = (Exit code, st)"

definition andthen :: "'a prog \<Rightarrow> ('a \<Rightarrow> 'b prog) \<Rightarrow> 'b prog" where
  "andthen m f st =
     (case m st of
        (Val a, st') \<Rightarrow> f a st'
      | (Exit n, st') \<Rightarrow> (Exit n, st')
      | (Killed, st') \<Rightarrow> (Killed, st')
      | (Blocked, st') \<Rightarrow> (Blocked, st'))"

definition say_line :: "string \<Rightarrow> unit prog" where
  "say_line s st = (Val (), st\<lparr>nt_out := nt_out st @ [s]\<rparr>)"

definition complain :: "err_item \<Rightarrow> unit prog" where
  "complain e st = (Val (), st\<lparr>nt_err := nt_err st @ [e]\<rparr>)"

definition ask :: "net_call \<Rightarrow> answer prog" where
  "ask c st =
     (case nt_env st of
        [] \<Rightarrow> (Blocked, st)
      | (a, sigint) # env \<Rightarrow>
          let st' = st\<lparr>nt_env := env, nt_log := nt_log st @ [(c, a)]\<rparr>
          in if sigint \<and> \<not> nt_handler st then (Killed, st') else (Val a, st'\<lparr>nt_flag := nt_flag st \<or> sigint\<rparr>))"

definition net_start :: "(answer \<times> bool) list \<Rightarrow> net" where
  "net_start env = \<lparr>nt_env = env, nt_log = [], nt_out = [], nt_err = [], nt_handler = False, nt_flag = False\<rparr>"

lemma net_start_sel [simp]: "nt_env (net_start env) = env" "nt_log (net_start env) = []" "nt_out (net_start env) = []"
  by (simp_all add: net_start_def)

fun fd_of :: "answer \<Rightarrow> int" where
  "fd_of (A_fd fd a) = fd"
| "fd_of a = - 1"

fun errno_of :: "answer \<Rightarrow> int" where
  "errno_of (A_err e) = e"
| "errno_of a = 0"

text \<open>The functions of the C library that convert addresses; the host and service names are those of
  \<^verbatim>\<open>getnameinfo\<close>.\<close>

record netlib =
  inet_pton :: "int \<Rightarrow> string \<Rightarrow> uint8 list option"
  inet_ntop :: "int \<Rightarrow> uint8 list \<Rightarrow> string option"
  getnameinfo :: "sockaddr \<Rightarrow> (string \<times> string) option"
  c_strerror :: "int \<Rightarrow> string"

text \<open>\<^verbatim>\<open>htons\<close> on a little-endian machine.\<close>

definition htons :: "uint16 \<Rightarrow> uint16" where
  "htons w = push_bit 8 w OR drop_bit 8 w"

lemma htons_htons: "htons (htons w) = w"
  by (rule bit_word_eqI) (auto simp: htons_def bit_simps)

section \<open>The functions of the programs\<close>

definition zero_addr :: sockaddr where
  "zero_addr = \<lparr>ss_family = 0, ss_addr = [], ss_port = 0, ss_path = []\<rparr>"

definition convert_address :: "netlib \<Rightarrow> string \<Rightarrow> sockaddr prog" where
  "convert_address lib address =
     (case inet_pton lib AF_INET address of
        Some a \<Rightarrow> ret (zero_addr\<lparr>ss_addr := a, ss_family := AF_INET\<rparr>)
      | None \<Rightarrow>
          (case inet_pton lib AF_INET6 address of
             Some a \<Rightarrow> ret (zero_addr\<lparr>ss_addr := a, ss_family := AF_INET6\<rparr>)
           | None \<Rightarrow> andthen (complain (Text (address @ '' is not an IPv4 or an IPv6 address'' @ [NL]))) (\<lambda>_. leave EXIT_FAILURE)))"

definition socket_create :: "int \<Rightarrow> int \<Rightarrow> int \<Rightarrow> int prog" where
  "socket_create domain type protocol =
     andthen (ask (C_socket domain type protocol)) (\<lambda>a.
     let sockfd = fd_of a
     in if sockfd = - 1 then andthen (complain (Perror ''Socket creation failed'')) (\<lambda>_. leave EXIT_FAILURE)
        else ret sockfd)"

text \<open>\<^verbatim>\<open>sizeof(struct sockaddr_in)\<close> and \<^verbatim>\<open>sizeof(struct sockaddr_in6)\<close>.\<close>

abbreviation (input) sizeof_sockaddr_in :: nat where "sizeof_sockaddr_in \<equiv> 16"
abbreviation (input) sizeof_sockaddr_in6 :: nat where "sizeof_sockaddr_in6 \<equiv> 28"
abbreviation (input) sizeof_sockaddr_un :: nat where "sizeof_sockaddr_un \<equiv> 110"

definition port_text :: "string \<Rightarrow> uint16 \<Rightarrow> string" where
  "port_text addr_str port = addr_str @ '':'' @ dec_nat (unat port) @ [NL]"

definition socket_bind :: "netlib \<Rightarrow> int \<Rightarrow> sockaddr \<Rightarrow> uint16 \<Rightarrow> unit prog" where
  "socket_bind lib sockfd addr port =
     (if ss_family addr \<noteq> AF_INET \<and> ss_family addr \<noteq> AF_INET6
      then andthen (complain (Text (''Internal error: addr->ss_family must be AF_INET or AF_INET6, was: '' @ dec_int (ss_family addr) @ [NL])))
             (\<lambda>_. leave EXIT_FAILURE)
      else let addr_len = if ss_family addr = AF_INET then sizeof_sockaddr_in else sizeof_sockaddr_in6;
               addr = addr\<lparr>ss_port := htons port\<rparr>
           in case inet_ntop lib (ss_family addr) (ss_addr addr) of
                None \<Rightarrow> andthen (complain (Perror ''inet_ntop'')) (\<lambda>_. leave EXIT_FAILURE)
              | Some addr_str \<Rightarrow>
                  andthen (say_line (''Binding to: '' @ port_text addr_str port)) (\<lambda>_.
                  andthen (ask (C_bind sockfd addr addr_len)) (\<lambda>a.
                  if a \<noteq> A_ok
                  then andthen (complain (Perror ''Binding failed'')) (\<lambda>_.
                       andthen (complain (Text (''Error code: '' @ dec_int (errno_of a) @ [NL]))) (\<lambda>_. leave EXIT_FAILURE))
                  else say_line (''Bound to socket: '' @ port_text addr_str port))))"

definition socket_connect :: "netlib \<Rightarrow> int \<Rightarrow> sockaddr \<Rightarrow> uint16 \<Rightarrow> unit prog" where
  "socket_connect lib sockfd addr port =
     (case inet_ntop lib (ss_family addr) (ss_addr addr) of
        None \<Rightarrow> andthen (complain (Perror ''inet_ntop'')) (\<lambda>_. leave EXIT_FAILURE)
      | Some addr_str \<Rightarrow>
          andthen (say_line (''Connecting to: '' @ port_text addr_str port)) (\<lambda>_.
          if ss_family addr \<noteq> AF_INET \<and> ss_family addr \<noteq> AF_INET6
          then andthen (complain (Text (''Invalid address family: '' @ dec_int (ss_family addr) @ [NL]))) (\<lambda>_. leave EXIT_FAILURE)
          else let addr_len = if ss_family addr = AF_INET then sizeof_sockaddr_in else sizeof_sockaddr_in6
               in andthen (ask (C_connect sockfd (addr\<lparr>ss_port := htons port\<rparr>) addr_len)) (\<lambda>a.
                  if a \<noteq> A_ok
                  then andthen (complain (Text (''Error: connect ('' @ dec_int (errno_of a) @ ''): '' @ c_strerror lib (errno_of a) @ [NL])))
                         (\<lambda>_. leave EXIT_FAILURE)
                  else say_line (''Connected to: '' @ port_text addr_str port))))"

definition start_listening :: "int \<Rightarrow> int \<Rightarrow> unit prog" where
  "start_listening server_fd backlog =
     andthen (ask (C_listen server_fd backlog)) (\<lambda>a.
     if a \<noteq> A_ok
     then andthen (complain (Perror ''listen failed'')) (\<lambda>_.
          andthen (ask (C_close server_fd)) (\<lambda>_. leave EXIT_FAILURE))
     else say_line (''Listening for incoming connections...'' @ [NL]))"

definition setup_signal_handler :: "unit prog" where
  "setup_signal_handler =
     andthen (ask C_sigaction) (\<lambda>a.
     if a \<noteq> A_ok then andthen (complain (Perror ''sigaction'')) (\<lambda>_. leave EXIT_FAILURE)
     else (\<lambda>st. (Val (), st\<lparr>nt_handler := True\<rparr>)))"

text \<open>The client address of \<^verbatim>\<open>accept\<close> goes to \<^verbatim>\<open>getnameinfo\<close> only.\<close>

fun addr_of :: "answer \<Rightarrow> sockaddr" where
  "addr_of (A_fd fd a) = a"
| "addr_of a = zero_addr"

definition socket_accept_connection :: "netlib \<Rightarrow> int \<Rightarrow> int prog" where
  "socket_accept_connection lib server_fd =
     andthen (ask (C_accept server_fd)) (\<lambda>a.
     let client_fd = fd_of a
     in if client_fd = - 1
        then andthen (if errno_of a \<noteq> EINTR then complain (Perror ''accept failed'') else ret ()) (\<lambda>_. ret (- 1))
        else andthen
               (case getnameinfo lib (addr_of a) of
                  Some (client_host, client_service) \<Rightarrow>
                    say_line (''Accepted a new connection from '' @ client_host @ '':'' @ client_service @ [NL])
                | None \<Rightarrow> say_line (''Unable to get client information'' @ [NL]))
               (\<lambda>_. ret client_fd))"

definition shutdown_socket :: "int \<Rightarrow> int \<Rightarrow> unit prog" where
  "shutdown_socket sockfd how =
     andthen (ask (C_shutdown sockfd how)) (\<lambda>a.
     if a \<noteq> A_ok then andthen (complain (Perror ''Error closing socket'')) (\<lambda>_. leave EXIT_FAILURE) else ret ())"

definition socket_close :: "int \<Rightarrow> unit prog" where
  "socket_close sockfd =
     andthen (ask (C_close sockfd)) (\<lambda>a.
     if a \<noteq> A_ok then andthen (complain (Perror ''Error closing socket'')) (\<lambda>_. leave EXIT_FAILURE) else ret ())"

text \<open>The loop \<^verbatim>\<open>while(!exit_flag)\<close> of the servers, with its continuation after a failed \<^verbatim>\<open>accept\<close>; \<open>serve\<close> is what
  follows for a connection. A turn takes at least one answer, so that there are no more turns than answers.\<close>

fun accept_loop :: "nat \<Rightarrow> int prog \<Rightarrow> (int \<Rightarrow> unit prog) \<Rightarrow> unit prog" where
  "accept_loop 0 accept serve st = (Blocked, st)"
| "accept_loop (Suc n) accept serve st =
     (if nt_flag st then (Val (), st)
      else andthen accept (\<lambda>client_sockfd st.
             if client_sockfd = - 1
             then (if nt_flag st then (Val (), st) else accept_loop n accept serve st)
             else andthen (serve client_sockfd) (\<lambda>_. accept_loop n accept serve) st) st)"

definition accept_connections :: "int prog \<Rightarrow> (int \<Rightarrow> unit prog) \<Rightarrow> unit prog" where
  "accept_connections accept serve st = accept_loop (Suc (length (nt_env st))) accept serve st"

section \<open>The descriptors of a run\<close>

text \<open>The descriptors open after a call, and the calls of \<^verbatim>\<open>close\<close> that close an open descriptor.\<close>

fun fds_after :: "net_call \<times> answer \<Rightarrow> int multiset \<Rightarrow> int multiset" where
  "fds_after (C_socket d t p, a) M = (if fd_of a = - 1 then M else add_mset (fd_of a) M)"
| "fds_after (C_accept s, a) M = (if fd_of a = - 1 then M else add_mset (fd_of a) M)"
| "fds_after (C_close fd, a) M = M - {#fd#}"
| "fds_after (c, a) M = M"

fun closes_open :: "net_call \<times> answer \<Rightarrow> int multiset \<Rightarrow> bool" where
  "closes_open (C_close fd, a) M \<longleftrightarrow> fd \<in># M"
| "closes_open (c, a) M \<longleftrightarrow> True"

fun open_fds :: "(net_call \<times> answer) list \<Rightarrow> int multiset \<Rightarrow> int multiset" where
  "open_fds [] M = M"
| "open_fds (x # l) M = open_fds l (fds_after x M)"

fun proper :: "(net_call \<times> answer) list \<Rightarrow> int multiset \<Rightarrow> bool" where
  "proper [] M \<longleftrightarrow> True"
| "proper (x # l) M \<longleftrightarrow> closes_open x M \<and> proper l (fds_after x M)"

lemma open_fds_append: "open_fds (l @ l') M = open_fds l' (open_fds l M)"
  by (induction l arbitrary: M) simp_all

lemma proper_append: "proper (l @ l') M \<longleftrightarrow> proper l M \<and> proper l' (open_fds l M)"
  by (induction l arbitrary: M) simp_all

text \<open>
  What a part of a program, started with the descriptors \<open>M\<close> open, does with them in every run: it closes open
  descriptors only, it blocks only when an answer is missing, it does not take back answers, when it ends
  normally then with a value and descriptors as \<open>Q\<close> says, and when it leaves the process with success then
  with none left open.
\<close>

definition fd_account :: "int multiset \<Rightarrow> ('a \<Rightarrow> int multiset \<Rightarrow> bool) \<Rightarrow> net \<Rightarrow> 'a net_outcome \<Rightarrow> net \<Rightarrow> (net_call \<times> answer) list \<Rightarrow> bool" where
  "fd_account M Q st r st' l \<longleftrightarrow> nt_log st' = nt_log st @ l \<and> proper l M
     \<and> (\<forall>a. r = Val a \<longrightarrow> Q a (open_fds l M))
     \<and> (\<forall>n. r = Exit n \<longrightarrow> n = EXIT_FAILURE \<or> n = EXIT_SUCCESS \<and> open_fds l M = {#})
     \<and> (r = Blocked \<longrightarrow> nt_env st' = [])
     \<and> length (nt_env st') \<le> length (nt_env st)"

definition balanced :: "int multiset \<Rightarrow> 'a prog \<Rightarrow> ('a \<Rightarrow> int multiset \<Rightarrow> bool) \<Rightarrow> bool" where
  "balanced M m Q \<longleftrightarrow> (\<forall>st r st'. m st = (r, st') \<longrightarrow> (\<exists>l. fd_account M Q st r st' l))"

lemma balancedD: "balanced M m Q \<Longrightarrow> m st = (r, st') \<Longrightarrow> \<exists>l. fd_account M Q st r st' l"
  by (simp add: balanced_def)

lemma balancedI: "(\<And>st r st'. m st = (r, st') \<Longrightarrow> \<exists>l. fd_account M Q st r st' l) \<Longrightarrow> balanced M m Q"
  by (simp add: balanced_def)

lemma fd_account_trans:
  assumes "fd_account M P st (Val a) st' l" "fd_account (open_fds l M) Q st' r st'' k"
  shows "fd_account M Q st r st'' (l @ k)"
  using assms by (auto simp: fd_account_def proper_append open_fds_append)

lemma balanced_ret: "Q a M \<Longrightarrow> balanced M (ret a) Q"
  by (auto simp: balanced_def fd_account_def ret_def)

lemma balanced_say: "Q () M \<Longrightarrow> balanced M (say_line s) Q"
  by (auto simp: balanced_def fd_account_def say_line_def)

lemma balanced_complain: "Q () M \<Longrightarrow> balanced M (complain e) Q"
  by (auto simp: balanced_def fd_account_def complain_def)

lemma balanced_fail: "balanced M (leave EXIT_FAILURE) Q"
  by (auto simp: balanced_def fd_account_def leave_def)

lemma balanced_success: "balanced {#} (leave EXIT_SUCCESS) Q"
  by (auto simp: balanced_def fd_account_def leave_def)

lemma balanced_sys:
  assumes "\<And>a. closes_open (c, a) M" "\<And>a. Q a (fds_after (c, a) M)"
  shows "balanced M (ask c) Q"
proof (rule balancedI)
  fix st r st' assume run: "ask c st = (r, st')"
  show "\<exists>l. fd_account M Q st r st' l"
  proof (cases "nt_env st")
    case Nil
    with run show ?thesis by (intro exI [of _ "[]"]) (auto simp: ask_def fd_account_def)
  next
    case (Cons x env)
    obtain a sigint where x: "x = (a, sigint)" by fastforce
    with run Cons assms show ?thesis
      by (intro exI [of _ "[(c, a)]"]) (auto simp: ask_def fd_account_def Let_def split: if_splits)
  qed
qed

lemma balanced_andthen:
  assumes m: "balanced M m P" and f: "\<And>a M'. P a M' \<Longrightarrow> balanced M' (f a) Q"
  shows "balanced M (andthen m f) Q"
proof (rule balancedI)
  fix st r st'' assume run: "andthen m f st = (r, st'')"
  obtain r1 st' where m1: "m st = (r1, st')" by fastforce
  from balancedD [OF m m1] obtain l where l: "fd_account M P st r1 st' l" by blast
  show "\<exists>l. fd_account M Q st r st'' l"
  proof (cases r1)
    case (Val a)
    then have "f a st' = (r, st'')" "P a (open_fds l M)" using run m1 l by (simp_all add: andthen_def fd_account_def)
    with balancedD [OF f] obtain k where "fd_account (open_fds l M) Q st' r st'' k" by metis
    with l Val show ?thesis using fd_account_trans by metis
  qed (use run m1 l in \<open>auto simp: andthen_def fd_account_def\<close>)
qed

lemma balanced_weaken:
  assumes "balanced M m P" "\<And>a M'. P a M' \<Longrightarrow> Q a M'"
  shows "balanced M m Q"
proof (rule balancedI)
  fix st r st' assume "m st = (r, st')"
  with balancedD [OF assms(1)] obtain l where "fd_account M P st r st' l" by blast
  then have "fd_account M Q st r st' l" using assms(2) by (simp add: fd_account_def)
  then show "\<exists>l. fd_account M Q st r st' l" ..
qed

lemma balanced_if: "(b \<Longrightarrow> balanced M m Q) \<Longrightarrow> (\<not> b \<Longrightarrow> balanced M n Q) \<Longrightarrow> balanced M (if b then m else n) Q"
  by simp

text \<open>A failure reported on \<^verbatim>\<open>stderr\<close>, which every function of the programs has.\<close>

lemma balanced_report: "balanced M (andthen (complain e) (\<lambda>_. leave EXIT_FAILURE)) Q"
  by (rule balanced_andthen [OF balanced_complain balanced_fail]) (rule TrueI)

section \<open>The functions keep the account\<close>

lemma balanced_convert_address: "(\<And>a. Q a M) \<Longrightarrow> balanced M (convert_address lib address) Q"
  by (auto simp: convert_address_def split: option.split intro: balanced_ret balanced_report)

lemma balanced_socket_create: "(\<And>fd. Q fd (add_mset fd M)) \<Longrightarrow> balanced M (socket_create d t p) Q"
  unfolding socket_create_def Let_def
  by (rule balanced_andthen [OF balanced_sys, of _ _ "\<lambda>a M'. M' = fds_after (C_socket d t p, a) M"])
    (auto intro: balanced_ret balanced_report)

lemma balanced_call:
  assumes "\<And>a. closes_open (c, a) M" "\<And>a. fds_after (c, a) M = M'" "Q () M'"
  shows "balanced M (andthen (ask c) (\<lambda>a. if a \<noteq> A_ok then andthen (complain e) (\<lambda>_. leave EXIT_FAILURE) else say_line s)) Q"
    and "balanced M (andthen (ask c) (\<lambda>a. if a \<noteq> A_ok then andthen (complain e) (\<lambda>_. leave EXIT_FAILURE) else ret ())) Q"
  by (rule balanced_andthen [OF balanced_sys, of _ _ "\<lambda>a M''. M'' = M'"];
      use assms in \<open>auto intro: balanced_ret balanced_say balanced_report\<close>)+

lemma balanced_socket_bind: "Q () M \<Longrightarrow> balanced M (socket_bind lib fd addr port) Q"
  unfolding socket_bind_def Let_def
  by (auto intro!: balanced_andthen [OF balanced_say, of "\<lambda>_ M'. M' = M"] balanced_andthen [OF balanced_complain, of "\<lambda>_ M'. M' = M"]
      balanced_andthen [OF balanced_sys, of _ _ "\<lambda>_ M'. M' = M"] balanced_fail balanced_say split: option.split)

lemma balanced_socket_connect: "Q () M \<Longrightarrow> balanced M (socket_connect lib fd addr port) Q"
  unfolding socket_connect_def Let_def
  by (auto intro!: balanced_andthen [OF balanced_say, of "\<lambda>_ M'. M' = M"] balanced_andthen [OF balanced_complain, of "\<lambda>_ M'. M' = M"]
      balanced_andthen [OF balanced_sys, of _ _ "\<lambda>_ M'. M' = M"] balanced_fail balanced_say split: option.split)

lemma balanced_start_listening:
  assumes "fd \<in># M" "Q () M"
  shows "balanced M (start_listening fd backlog) Q"
proof -
  have close: "balanced M (andthen (ask (C_close fd)) (\<lambda>_. leave EXIT_FAILURE)) Q"
    by (rule balanced_andthen [OF balanced_sys balanced_fail, of _ _ "\<lambda>_ _. True"]) (use assms in auto)
  show ?thesis unfolding start_listening_def
    by (rule balanced_andthen [OF balanced_sys, of _ M "\<lambda>_ M'. M' = M"])
      (use assms close in \<open>auto intro!: balanced_say balanced_andthen [OF balanced_complain, of "\<lambda>_ M'. M' = M"]\<close>)
qed

lemma balanced_setup_signal_handler: "Q () M \<Longrightarrow> balanced M setup_signal_handler Q"
  unfolding setup_signal_handler_def
  by (auto intro!: balanced_andthen [OF balanced_sys, of _ M "\<lambda>_ M'. M' = M"] balanced_report)
    (auto simp: balanced_def fd_account_def)

lemma balanced_shutdown_socket: "Q () M \<Longrightarrow> balanced M (shutdown_socket fd how) Q"
  unfolding shutdown_socket_def by (rule balanced_call(2)) auto

lemma balanced_socket_close: "fd \<in># M \<Longrightarrow> Q () (M - {#fd#}) \<Longrightarrow> balanced M (socket_close fd) Q"
  unfolding socket_close_def by (rule balanced_call(2)) auto

lemma balanced_socket_accept:
  "balanced M (socket_accept_connection lib fd) (\<lambda>c M'. M' = (if c = - 1 then M else add_mset c M))"
  unfolding socket_accept_connection_def Let_def
  by (rule balanced_andthen [OF balanced_sys, of _ M "\<lambda>a M'. M' = fds_after (C_accept fd, a) M"])
    (auto intro!: balanced_ret balanced_andthen [OF balanced_say, of "\<lambda>_ M'. M' = add_mset _ M"]
      balanced_andthen [OF balanced_complain, of "\<lambda>_ M'. M' = M"] balanced_andthen [OF balanced_ret, of "\<lambda>_ M'. M' = M"]
      split: option.split)

text \<open>A call takes an answer.\<close>

lemma andthen_sys_shrinks:
  assumes "andthen (ask c) f st = (Val b, st')" "\<And>a st r st'. f a st = (r, st') \<Longrightarrow> length (nt_env st') \<le> length (nt_env st)"
  shows "length (nt_env st') < length (nt_env st)"
proof -
  obtain a s env where e: "nt_env st = (a, s) # env"
    using assms(1) by (auto simp: andthen_def ask_def split: list.splits prod.splits)
  let ?st = "st\<lparr>nt_env := env, nt_log := nt_log st @ [(c, a)], nt_flag := nt_flag st \<or> s\<rparr>"
  have "f a ?st = (Val b, st')"
    using assms(1) e by (auto simp: andthen_def ask_def Let_def split: if_splits)
  from assms(2) [OF this] e show ?thesis by simp
qed

lemma socket_accept_shrinks:
  assumes "socket_accept_connection lib fd st = (Val c, st')"
  shows "length (nt_env st') < length (nt_env st)"
  using assms unfolding socket_accept_connection_def
  by (rule andthen_sys_shrinks)
    (auto simp: Let_def andthen_def say_line_def complain_def ret_def split: if_splits option.splits)

text \<open>The same as rules for a program that goes on.\<close>

lemma step_convert_address: "(\<And>a. balanced M (f a) Q) \<Longrightarrow> balanced M (andthen (convert_address lib address) f) Q"
  by (rule balanced_andthen [OF balanced_convert_address, of "\<lambda>_ M'. M' = M"]) simp_all

lemma step_socket_create: "(\<And>fd. balanced (add_mset fd M) (f fd) Q) \<Longrightarrow> balanced M (andthen (socket_create d t p) f) Q"
  by (rule balanced_andthen [OF balanced_socket_create, of "\<lambda>fd M'. M' = add_mset fd M"]) simp_all

lemma step_socket_bind: "balanced M (f ()) Q \<Longrightarrow> balanced M (andthen (socket_bind lib fd addr port) f) Q"
  by (rule balanced_andthen [OF balanced_socket_bind, of "\<lambda>_ M'. M' = M"]) simp_all

lemma step_socket_connect: "balanced M (f ()) Q \<Longrightarrow> balanced M (andthen (socket_connect lib fd addr port) f) Q"
  by (rule balanced_andthen [OF balanced_socket_connect, of "\<lambda>_ M'. M' = M"]) simp_all

lemma step_start_listening: "balanced (add_mset fd M) (f ()) Q \<Longrightarrow> balanced (add_mset fd M) (andthen (start_listening fd b) f) Q"
  by (rule balanced_andthen [OF balanced_start_listening, of _ _ "\<lambda>_ M'. M' = add_mset fd M"]) simp_all

lemma step_setup_signal_handler: "balanced M (f ()) Q \<Longrightarrow> balanced M (andthen setup_signal_handler f) Q"
  by (rule balanced_andthen [OF balanced_setup_signal_handler, of "\<lambda>_ M'. M' = M"]) simp_all

lemma step_shutdown_socket: "balanced M (f ()) Q \<Longrightarrow> balanced M (andthen (shutdown_socket fd how) f) Q"
  by (rule balanced_andthen [OF balanced_shutdown_socket, of "\<lambda>_ M'. M' = M"]) simp_all

lemma step_socket_close: "balanced M (f ()) Q \<Longrightarrow> balanced (add_mset fd M) (andthen (socket_close fd) f) Q"
  by (rule balanced_andthen [OF balanced_socket_close, of _ _ "\<lambda>_ M'. M' = M"]) simp_all

lemma step_say: "balanced M (f ()) Q \<Longrightarrow> balanced M (andthen (say_line s) f) Q"
  by (rule balanced_andthen [OF balanced_say, of "\<lambda>_ M'. M' = M"]) simp_all

lemma step_complain: "balanced M (f ()) Q \<Longrightarrow> balanced M (andthen (complain e) f) Q"
  by (rule balanced_andthen [OF balanced_complain, of "\<lambda>_ M'. M' = M"]) simp_all

text \<open>Any other call leaves the descriptors alone.\<close>

lemma step_sys:
  assumes "\<And>a. closes_open (c, a) M" "\<And>a. fds_after (c, a) M = M" "\<And>a. balanced M (f a) Q"
  shows "balanced M (andthen (ask c) f) Q"
  by (rule balanced_andthen [OF balanced_sys, of _ _ "\<lambda>_ M'. M' = M"]) (use assms in auto)

lemmas balanced_steps = step_convert_address step_socket_create step_socket_bind step_socket_connect step_start_listening
  step_setup_signal_handler step_shutdown_socket step_socket_close step_say step_complain balanced_fail balanced_success

text \<open>A loop that takes an answer in each turn: the same statement for the states with fewer than \<open>k\<close> answers.\<close>

definition balanced_below :: "nat \<Rightarrow> int multiset \<Rightarrow> 'a prog \<Rightarrow> ('a \<Rightarrow> int multiset \<Rightarrow> bool) \<Rightarrow> bool" where
  "balanced_below k M m Q \<longleftrightarrow>
     (\<forall>st r st'. length (nt_env st) < k \<longrightarrow> m st = (r, st') \<longrightarrow> (\<exists>l. fd_account M Q st r st' l))"

lemma balanced_below_0: "balanced_below 0 M m Q"
  by (simp add: balanced_below_def)

lemma balanced_balanced_below: "balanced M m Q \<Longrightarrow> balanced_below k M m Q"
  by (auto simp: balanced_below_def balanced_def)

lemma balanced_below_loop:
  "(\<And>k. balanced_below k M (m k) Q) \<Longrightarrow> balanced M (\<lambda>st. m (Suc (length (nt_env st))) st) Q"
  unfolding balanced_below_def by (intro balancedI) (metis lessI)

lemma balanced_below_sys:
  assumes "\<And>a. closes_open (c, a) M" "\<And>a. balanced_below k (fds_after (c, a) M) (f a) Q"
  shows "balanced_below (Suc k) M (andthen (ask c) f) Q"
  unfolding balanced_below_def
proof (intro allI impI)
  fix st r st' assume k: "length (nt_env st) < Suc k" and run: "andthen (ask c) f st = (r, st')"
  obtain ra st1 where s: "ask c st = (ra, st1)" by fastforce
  from balancedD [OF balanced_sys [OF assms(1), of "\<lambda>a M'. M' = fds_after (c, a) M"] s]
  obtain l where l: "fd_account M (\<lambda>a M'. M' = fds_after (c, a) M) st ra st1 l" by blast
  show "\<exists>l. fd_account M Q st r st' l"
  proof (cases ra)
    case (Val a)
    have "length (nt_env st1) < k" using s k Val by (auto simp: ask_def Let_def split: list.splits if_splits)
    moreover have "f a st1 = (r, st')" using run s Val by (simp add: andthen_def)
    moreover have "open_fds l M = fds_after (c, a) M" using l Val by (simp add: fd_account_def)
    ultimately obtain j where "fd_account (open_fds l M) Q st1 r st' j"
      using assms(2) [of a] unfolding balanced_below_def by metis
    with fd_account_trans [OF l [unfolded Val]] show ?thesis by blast
  qed (use l run s in \<open>auto simp: andthen_def fd_account_def\<close>)
qed

lemma balanced_below_say_state:
  assumes "balanced_below k M (f ()) Q"
  shows "balanced_below k M (\<lambda>st. andthen (say_line (g st)) f st) Q"
  unfolding balanced_below_def
proof (intro allI impI)
  fix st r st' assume k: "length (nt_env st) < k" and run: "andthen (say_line (g st)) f st = (r, st')"
  let ?st = "st\<lparr>nt_out := nt_out st @ [g st]\<rparr>"
  have "f () ?st = (r, st')" using run by (simp add: andthen_def say_line_def)
  with assms k obtain l where "fd_account M Q ?st r st' l" by (fastforce simp: balanced_below_def)
  then show "\<exists>l. fd_account M Q st r st' l" by (auto simp: fd_account_def)
qed

lemmas balanced_below_say = balanced_below_say_state [where g = "\<lambda>_. s" for s]

lemma balanced_below_mono: "balanced_below (Suc k) M m Q \<Longrightarrow> balanced_below k M m Q"
  by (simp add: balanced_below_def)

section \<open>A server\<close>

text \<open>\<open>accept\<close>, on the listening socket \<open>server\<close>, yields a new descriptor or -1, \<open>serve\<close> closes it.\<close>

locale service =
  fixes server :: int and accept :: "int prog" and serve :: "int \<Rightarrow> unit prog"
  assumes accept_balanced: "server \<in># M \<Longrightarrow> balanced M accept (\<lambda>c M'. M' = (if c = - 1 then M else add_mset c M))"
    and accept_shrinks: "accept st = (Val c, st') \<Longrightarrow> length (nt_env st') < length (nt_env st)"
    and serve_balanced: "fd \<noteq> - 1 \<Longrightarrow> balanced (add_mset fd M) (serve fd) (\<lambda>_ M'. M' = M)"
begin

lemma loop_accounts:
  "server \<in># M \<Longrightarrow> length (nt_env st) < n \<Longrightarrow> accept_loop n accept serve st = (r, st')
    \<Longrightarrow> \<exists>l. fd_account M (\<lambda>_ M'. M' = M) st r st' l"
proof (induction n arbitrary: st)
  case (Suc n)
  show ?case
  proof (cases "nt_flag st")
    case True
    with Suc.prems(3) show ?thesis by (intro exI [of _ "[]"]) (auto simp: fd_account_def)
  next
    case False
    obtain ra st1 where a: "accept st = (ra, st1)" by fastforce
    from balancedD [OF accept_balanced [OF Suc.prems(1)] this] obtain l where l: "fd_account M (\<lambda>c M'. M' = (if c = - 1 then M else add_mset c M)) st ra st1 l" ..
    show ?thesis
    proof (cases ra)
      case (Val c)
      have shrink: "length (nt_env st1) < n" using accept_shrinks a Val Suc.prems(2) by fastforce
      have M: "open_fds l M = (if c = - 1 then M else add_mset c M)" using l Val by (simp add: fd_account_def)
      note trans = fd_account_trans [OF l [unfolded Val], unfolded M]
      consider (stop) "c = - 1" "nt_flag st1" | (again) "c = - 1" "\<not> nt_flag st1" | (conn) "c \<noteq> - 1" by blast
      then show ?thesis
      proof cases
        case stop
        then have "r = Val ()" "st' = st1" using Suc.prems(3) False a Val by (simp_all add: andthen_def)
        with l Val stop show ?thesis by (auto simp: fd_account_def)
      next
        case again
        then have "accept_loop n accept serve st1 = (r, st')" using Suc.prems(3) False a Val by (simp add: andthen_def)
        with Suc.IH [OF Suc.prems(1) shrink] obtain k where "fd_account M (\<lambda>_ M'. M' = M) st1 r st' k" by blast
        with trans [of "\<lambda>_ M'. M' = M" r st' k] again show ?thesis by auto
      next
        case conn
        obtain rs st2 where s: "serve c st1 = (rs, st2)" by fastforce
        from balancedD [OF serve_balanced [OF conn] this] obtain k
          where k: "fd_account (add_mset c M) (\<lambda>_ M'. M' = M) st1 rs st2 k" by blast
        have lk: "fd_account M (\<lambda>_ M'. M' = M) st rs st2 (l @ k)" using trans [of "\<lambda>_ M'. M' = M" rs st2 k] conn k by simp
        show ?thesis
        proof (cases rs)
          case Val2: (Val u)
          then have "accept_loop n accept serve st2 = (r, st')" using Suc.prems(3) False a Val conn s by (simp add: andthen_def)
          moreover have "length (nt_env st2) < n" using k shrink by (simp add: fd_account_def)
          ultimately obtain j where "fd_account M (\<lambda>_ M'. M' = M) st2 r st' j" using Suc.IH [OF Suc.prems(1)] by blast
          moreover have "open_fds (l @ k) M = M" using lk Val2 by (simp add: fd_account_def)
          ultimately show ?thesis using fd_account_trans [OF lk [unfolded Val2]] by metis
        qed (use lk Suc.prems(3) False a Val conn s in \<open>auto simp: andthen_def fd_account_def\<close>)
      qed
    qed (use l Suc.prems(3) False a in \<open>auto simp: andthen_def fd_account_def\<close>)
  qed
qed simp

lemma loop_balanced: "server \<in># M \<Longrightarrow> Q () M \<Longrightarrow> balanced M (accept_connections accept serve) Q"
proof (rule balanced_weaken)
  assume "server \<in># M"
  from loop_accounts [OF this] show "balanced M (accept_connections accept serve) (\<lambda>_ M'. M' = M)"
    unfolding accept_connections_def by (intro balancedI) (metis lessI)
qed simp

end

end
