(* ===== verification/Domain_Socket.thy ===== *)
theory Domain_Socket
  imports Net_Sockets C_Text "HOL-Library.Sublist"
begin

text \<open>
  \<^verbatim>\<open>src/domain-socket/read-write\<close> and \<^verbatim>\<open>src/domain-socket/send-recv\<close>: a client that sends the words of a
  file, each behind its length, to a server on a local socket that prints them. The two pairs differ in the
  calls that move the bytes. The theory shows that a server prints exactly the words of the file up to the first
  call that reads less than it has asked for, which a stream socket allows, and what it prints then.
\<close>

section \<open>Common functions\<close>

definition SOCKET_PATH :: string where "SOCKET_PATH = ''/tmp/example_socket''"

definition DOMAIN_LINE_LEN :: nat where "DOMAIN_LINE_LEN = 1024"

text \<open>\<^verbatim>\<open>SOCK_STREAM | SOCK_CLOEXEC\<close> of Linux.\<close>

definition domain_socket_create :: "int prog" where
  "domain_socket_create =
     andthen (ask (C_socket AF_UNIX 0x80001 0)) (\<lambda>a.
     let sockfd = fd_of a
     in if sockfd = - 1 then andthen (complain (Perror ''Socket creation failed'')) (\<lambda>_. leave EXIT_FAILURE)
        else ret sockfd)"

text \<open>\<^verbatim>\<open>sun_path\<close> has 108 bytes, the last of them NUL.\<close>

definition setup_socket_address :: "string \<Rightarrow> sockaddr" where
  "setup_socket_address path =
     zero_addr\<lparr>ss_family := AF_UNIX, ss_path := take 107 path @ replicate (108 - length (take 107 path)) NUL\<rparr>"

section \<open>The servers\<close>

definition domain_socket_bind :: "int \<Rightarrow> string \<Rightarrow> unit prog" where
  "domain_socket_bind sockfd path =
     andthen (ask (C_bind sockfd
       (zero_addr\<lparr>ss_family := AF_UNIX, ss_path := take 107 path @ replicate (108 - length (take 107 path)) NUL\<rparr>)
       sizeof_sockaddr_un)) (\<lambda>a.
     if a \<noteq> A_ok then andthen (complain (Perror ''bind'')) (\<lambda>_. leave EXIT_FAILURE)
     else say_line (''Bound to domain socket: '' @ path @ [NL]))"

definition domain_accept_connection :: "netlib \<Rightarrow> int \<Rightarrow> int prog" where
  "domain_accept_connection lib server_fd =
     andthen (ask (C_accept server_fd)) (\<lambda>a.
     let client_fd = fd_of a
     in if client_fd = - 1
        then andthen (if errno_of a \<noteq> EINTR then complain (Perror ''accept failed'') else ret ()) (\<lambda>_. ret (- 1))
        else andthen
               (case getnameinfo lib (addr_of a) of
                  Some (client_host, _) \<Rightarrow> say_line (''Accepted a new connection from '' @ client_host @ [NL])
                | None \<Rightarrow> say_line (''Unable to get client information'' @ [NL]))
               (\<lambda>_. ret client_fd))"

definition sized_word_line :: "uint8 \<Rightarrow> string \<Rightarrow> string" where
  "sized_word_line n word = ''Word Size: '' @ dec_nat (unat n) @ '', Word: '' @ word @ [NL]"

text \<open>The array \<^verbatim>\<open>word[256]\<close> is declared in the body of the loop and not initialised: \<open>junk\<close> is what it holds then,
  for each number of calls made before. The result of the second call that reads is not looked at.\<close>

definition word_stored :: "char list \<Rightarrow> uint8 \<Rightarrow> answer \<Rightarrow> char list" where
  "word_stored word n a =
     (let bytes = (case a of A_data bs \<Rightarrow> take (unat n) bs | _ \<Rightarrow> [])
      in (bytes @ drop (length bytes) word)[unat n := NUL])"

text \<open>The loop of \<^verbatim>\<open>handle_connection\<close>; each turn takes two answers.\<close>

fun read_write_words :: "nat \<Rightarrow> (nat \<Rightarrow> char list) \<Rightarrow> int \<Rightarrow> unit prog" where
  "read_write_words 0 junk client_sockfd = (\<lambda>st. (Blocked, st))"
| "read_write_words (Suc n) junk client_sockfd =
     andthen (ask (C_read client_sockfd 1)) (\<lambda>a.
       case a of
         A_data (b # _) \<Rightarrow>
           (let size' = u8_of_byte b
            in andthen (ask (C_read client_sockfd (unat size'))) (\<lambda>a st.
               andthen (say_line (sized_word_line size' (c_str (word_stored (junk (length (nt_log st))) size' a))))
                 (\<lambda>_. read_write_words n junk client_sockfd) st))
       | _ \<Rightarrow> ret ())"

fun send_recv_words :: "nat \<Rightarrow> (nat \<Rightarrow> char list) \<Rightarrow> int \<Rightarrow> unit prog" where
  "send_recv_words 0 junk client_sockfd = (\<lambda>st. (Blocked, st))"
| "send_recv_words (Suc n) junk client_sockfd =
     andthen (ask (C_recv client_sockfd 1)) (\<lambda>a.
       case a of
         A_data (b # _) \<Rightarrow>
           (let size' = u8_of_byte b
            in andthen (ask (C_recv client_sockfd (unat size'))) (\<lambda>a st.
               andthen (say_line (sized_word_line size' (c_str (word_stored (junk (length (nt_log st))) size' a))))
                 (\<lambda>_. send_recv_words n junk client_sockfd) st))
       | _ \<Rightarrow> ret ())"

definition read_write_handle_connection :: "(nat \<Rightarrow> char list) \<Rightarrow> int \<Rightarrow> unit prog" where
  "read_write_handle_connection junk client_sockfd st = read_write_words (Suc (length (nt_env st))) junk client_sockfd st"

definition send_recv_handle_connection :: "(nat \<Rightarrow> char list) \<Rightarrow> int \<Rightarrow> unit prog" where
  "send_recv_handle_connection junk client_sockfd st = send_recv_words (Suc (length (nt_env st))) junk client_sockfd st"

definition read_write_server_main :: "netlib \<Rightarrow> (nat \<Rightarrow> char list) \<Rightarrow> unit prog" where
  "read_write_server_main lib junk =
     andthen (ask (C_unlink SOCKET_PATH)) (\<lambda>_.
     andthen domain_socket_create (\<lambda>sockfd.
     andthen (domain_socket_bind sockfd SOCKET_PATH) (\<lambda>_.
     andthen (start_listening sockfd SOMAXCONN) (\<lambda>_.
     andthen setup_signal_handler (\<lambda>_.
     andthen (accept_connections (domain_accept_connection lib sockfd)
       (\<lambda>client_sockfd. andthen (read_write_handle_connection junk client_sockfd) (\<lambda>_. socket_close client_sockfd))) (\<lambda>_.
     andthen (socket_close sockfd) (\<lambda>_.
     andthen (ask (C_unlink SOCKET_PATH)) (\<lambda>_.
     leave EXIT_SUCCESS))))))))"

definition send_recv_server_main :: "netlib \<Rightarrow> (nat \<Rightarrow> char list) \<Rightarrow> unit prog" where
  "send_recv_server_main lib junk =
     andthen (ask (C_unlink SOCKET_PATH)) (\<lambda>_.
     andthen domain_socket_create (\<lambda>sockfd.
     andthen (domain_socket_bind sockfd SOCKET_PATH) (\<lambda>_.
     andthen (start_listening sockfd SOMAXCONN) (\<lambda>_.
     andthen setup_signal_handler (\<lambda>_.
     andthen (accept_connections (domain_accept_connection lib sockfd)
       (\<lambda>client_sockfd. andthen (send_recv_handle_connection junk client_sockfd) (\<lambda>_. socket_close client_sockfd))) (\<lambda>_.
     andthen (socket_close sockfd) (\<lambda>_.
     andthen (ask (C_unlink SOCKET_PATH)) (\<lambda>_.
     leave EXIT_SUCCESS))))))))"

section \<open>The clients\<close>

definition domain_connect_to_server :: "int \<Rightarrow> sockaddr \<Rightarrow> unit prog" where
  "domain_connect_to_server sockfd addr =
     andthen (ask (C_connect sockfd addr sizeof_sockaddr_un)) (\<lambda>a.
     if a \<noteq> A_ok
     then andthen (complain (Perror ''Connection failed'')) (\<lambda>_.
          andthen (ask (C_close sockfd)) (\<lambda>_.
          leave EXIT_FAILURE))
     else ret ())"

definition word_too_long :: "int \<Rightarrow> unit prog" where
  "word_too_long sockfd =
     andthen (complain (Text (''Word exceeds maximum length'' @ [NL]))) (\<lambda>_.
     andthen (ask (C_close sockfd)) (\<lambda>_.
     leave EXIT_FAILURE))"

text \<open>The inner loop over the words of a line; \<^verbatim>\<open>read-write\<close> sends the length and writes the word.\<close>

fun read_write_send_words :: "int \<Rightarrow> string list \<Rightarrow> unit prog" where
  "read_write_send_words sockfd [] = ret ()"
| "read_write_send_words sockfd (word # words) =
     (if length word > 255 then word_too_long sockfd
      else andthen (ask (C_send sockfd [byte_of_u8 (word_of_nat (length word))])) (\<lambda>_.
           andthen (ask (C_write sockfd word)) (\<lambda>_.
           read_write_send_words sockfd words)))"

fun send_recv_send_words :: "int \<Rightarrow> string list \<Rightarrow> unit prog" where
  "send_recv_send_words sockfd [] = ret ()"
| "send_recv_send_words sockfd (word # words) =
     (if length word > 255 then word_too_long sockfd
      else andthen (ask (C_send sockfd [byte_of_u8 (word_of_nat (length word))])) (\<lambda>_.
           andthen (ask (C_send sockfd word)) (\<lambda>_.
           send_recv_send_words sockfd words)))"

text \<open>The words \<^verbatim>\<open>strtok_r\<close> yields for the lines of \<^verbatim>\<open>fgets\<close>, line by line.\<close>

definition domain_file_words :: "string \<Rightarrow> string list" where
  "domain_file_words file = concat (map (\<lambda>line. tokens BLANKS (c_str (line @ [NUL]))) (fgets_lines (DOMAIN_LINE_LEN - 2) file))"

definition read_write_client_main :: "bool \<Rightarrow> string \<Rightarrow> unit prog" where
  "read_write_client_main fopen file =
     (if \<not> fopen then andthen (complain (Perror ''fopen'')) (\<lambda>_. leave EXIT_FAILURE)
      else andthen domain_socket_create (\<lambda>sockfd.
           andthen (domain_connect_to_server sockfd (setup_socket_address SOCKET_PATH)) (\<lambda>_.
           andthen (read_write_send_words sockfd (domain_file_words file)) (\<lambda>_.
           andthen (socket_close sockfd) (\<lambda>_.
           leave EXIT_SUCCESS)))))"

definition send_recv_client_main :: "bool \<Rightarrow> string \<Rightarrow> unit prog" where
  "send_recv_client_main fopen file =
     (if \<not> fopen then andthen (complain (Perror ''fopen'')) (\<lambda>_. leave EXIT_FAILURE)
      else andthen domain_socket_create (\<lambda>sockfd.
           andthen (domain_connect_to_server sockfd (setup_socket_address SOCKET_PATH)) (\<lambda>_.
           andthen (send_recv_send_words sockfd (domain_file_words file)) (\<lambda>_.
           andthen (socket_close sockfd) (\<lambda>_.
           leave EXIT_SUCCESS)))))"

section \<open>What a connection prints\<close>

lemma sys_answer:
  "nt_env st = (a, False) # env
    \<Longrightarrow> ask c st = (Val a, st\<lparr>nt_env := env, nt_log := nt_log st @ [(c, a)], nt_flag := nt_flag st\<rparr>)"
  by (simp add: ask_def Let_def)

lemma andthen_answer:
  "nt_env st = (a, False) # env
    \<Longrightarrow> andthen (ask c) f st = f a (st\<lparr>nt_env := env, nt_log := nt_log st @ [(c, a)], nt_flag := nt_flag st\<rparr>)"
  by (simp add: andthen_def sys_answer)

lemma andthen_blocked: "nt_env st = [] \<Longrightarrow> andthen (ask c) f st = (Blocked, st)"
  by (simp add: andthen_def ask_def)

lemma andthen_say: "andthen (say_line s) f st = f () (st\<lparr>nt_out := nt_out st @ [s]\<rparr>)"
  by (simp add: andthen_def say_line_def)

lemma word_stored_whole:
  assumes "length w \<le> 255" "NUL \<notin> set w" "length junk = 256" "n = word_of_nat (length w)"
  shows "c_str (word_stored junk n (A_data w)) = w"
proof -
  have n: "unat n = length w" using assms(1,4) unat_word_of_nat_u8 [of "length w"] by simp
  obtain x r where "drop (length w) junk = x # r" using assms(1,3) by (cases "drop (length w) junk") auto
  then show ?thesis using assms(2) n by (simp add: word_stored_def list_update_append)
qed

definition sized_line :: "string \<Rightarrow> string" where
  "sized_line w = sized_word_line (word_of_nat (length w)) w"

text \<open>The bytes that a client sends for words, by the calls that send them.\<close>

definition frames :: "string list \<Rightarrow> string list" where
  "frames ws = concat (map (\<lambda>w. [[byte_of_u8 (word_of_nat (length w))], w]) ws)"

lemma frames_simps [simp]:
  "frames [] = []" "frames (w # ws) = [byte_of_u8 (word_of_nat (length w))] # w # frames ws"
  by (simp_all add: frames_def)

text \<open>What a stream socket that is to deliver \<open>bytes\<close> may answer to calls that read: each gets some of the bytes that come next, as
  many as it asks for or fewer, none only at the end of the stream, or it fails.\<close>

fun requested :: "net_call \<Rightarrow> nat" where
  "requested (C_read fd n) = n"
| "requested (C_recv fd n) = n"
| "requested c = 0"

fun stream_log :: "string \<Rightarrow> (net_call \<times> answer) list \<Rightarrow> bool" where
  "stream_log bytes [] \<longleftrightarrow> True"
| "stream_log bytes ((c, A_data bs) # l) \<longleftrightarrow>
     length bs \<le> requested c \<and> prefix bs bytes \<and> (bs = [] \<longrightarrow> bytes = [] \<or> requested c = 0) \<and> stream_log (drop (length bs) bytes) l"
| "stream_log bytes ((c, a) # l) \<longleftrightarrow> stream_log bytes l"

text \<open>A call that gets all it asks for.\<close>

fun full_read :: "net_call \<times> answer \<Rightarrow> bool" where
  "full_read (c, A_data bs) \<longleftrightarrow> length bs = requested c"
| "full_read (c, a) \<longleftrightarrow> False"

lemma full_readE: "full_read (c, a) \<Longrightarrow> \<exists>bs. a = A_data bs \<and> length bs = requested c"
  by (cases a) auto

text \<open>The number of words that come before the first read that is cut short.\<close>

definition whole_words :: "(net_call \<times> answer) list \<Rightarrow> nat" where
  "whole_words l = length (takeWhile full_read l) div 2"

lemma whole_words_simps [simp]:
  "whole_words [] = 0" "whole_words [x] = 0"
  "whole_words (x # y # l) = (if full_read x \<and> full_read y then Suc (whole_words l) else 0)"
  by (simp_all add: whole_words_def)

text \<open>All reads are full but the last, which finds the end of the stream.\<close>

definition read_to_end :: "(net_call \<times> answer) list \<Rightarrow> bool" where
  "read_to_end l \<longleftrightarrow> l \<noteq> [] \<and> list_all full_read (butlast l) \<and> snd (last l) = A_data []"

lemma ask_cases:
  obtains (blocked) "nt_env st = []" "ask c st = (Blocked, st)"
    | (killed) a st1 where "ask c st = (Killed, st1)" "nt_log st1 = nt_log st @ [(c, a)]" "nt_out st1 = nt_out st"
    | (val) a st1 where "ask c st = (Val a, st1)" "nt_log st1 = nt_log st @ [(c, a)]" "nt_out st1 = nt_out st"
        "length (nt_env st) = Suc (length (nt_env st1))"
proof (cases "nt_env st")
  case Nil
  then show thesis by (intro blocked) (simp_all add: ask_def)
next
  case (Cons x env)
  obtain a sigint where x: "x = (a, sigint)" by (cases x)
  show thesis
  proof (cases "sigint \<and> \<not> nt_handler st")
    case True
    with Cons x have "ask c st = (Killed, st\<lparr>nt_env := env, nt_log := nt_log st @ [(c, a)]\<rparr>)" by (simp add: ask_def Let_def)
    from killed [OF this] show thesis by simp
  next
    case False
    with Cons x have "ask c st = (Val a, st\<lparr>nt_env := env, nt_log := nt_log st @ [(c, a)], nt_flag := nt_flag st \<or> sigint\<rparr>)"
      by (auto simp: ask_def Let_def)
    from val [OF this] Cons show thesis by simp
  qed
qed

text \<open>A server loop that reads with the call \<open>rd\<close>.\<close>

locale word_reader =
  fixes loop :: "nat \<Rightarrow> (nat \<Rightarrow> char list) \<Rightarrow> int \<Rightarrow> unit prog" and rd :: "int \<Rightarrow> nat \<Rightarrow> net_call"
  assumes loop_0: "loop 0 junk fd = (\<lambda>st. (Blocked, st))"
    and loop_Suc: "loop (Suc n) junk fd = andthen (ask (rd fd 1)) (\<lambda>a.
       case a of
         A_data (b # _) \<Rightarrow> andthen (ask (rd fd (unat (u8_of_byte b)))) (\<lambda>a st.
           andthen (say_line (sized_word_line (u8_of_byte b) (c_str (word_stored (junk (length (nt_log st))) (u8_of_byte b) a))))
             (\<lambda>_. loop n junk fd) st)
       | _ \<Rightarrow> ret ())"
    and rd_closes: "closes_open (rd fd k, a) M" and rd_fds: "fds_after (rd fd k, a) M = M"
    and rd_requested: "requested (rd fd k) = k"
begin

lemma loop_extends: "loop n junk fd st = (r, st') \<Longrightarrow> \<exists>l lines. nt_log st' = nt_log st @ l \<and> nt_out st' = nt_out st @ lines"
proof (induction n arbitrary: st)
  case 0
  then show ?case by (simp add: loop_0)
next
  case (Suc n)
  show ?case
  proof (cases rule: ask_cases [of st "rd fd 1"])
    case blocked
    with Suc.prems show ?thesis by (simp add: loop_Suc andthen_def)
  next
    case (killed a st1)
    with Suc.prems show ?thesis by (simp add: loop_Suc andthen_def)
  next
    case (val a st1)
    show ?thesis
    proof (cases "\<exists>b bs. a = A_data (b # bs)")
      case False
      with val Suc.prems show ?thesis by (auto simp: loop_Suc andthen_def ret_def split: answer.splits list.splits)
    next
      case True
      then obtain b bs where a: "a = A_data (b # bs)" by blast
      show ?thesis
      proof (cases rule: ask_cases [of st1 "rd fd (unat (u8_of_byte b))"])
        case (val a2 st2)
        let ?st3 = "st2\<lparr>nt_out := nt_out st2 @ [sized_word_line (u8_of_byte b) (c_str (word_stored (junk (length (nt_log st2))) (u8_of_byte b) a2))]\<rparr>"
        have "loop n junk fd ?st3 = (r, st')"
          using Suc.prems \<open>ask (rd fd 1) st = (Val a, st1)\<close> a val(1) by (simp add: loop_Suc andthen_def say_line_def)
        from Suc.IH [OF this] show ?thesis
          using val(2,3) \<open>nt_log st1 = _\<close> \<open>nt_out st1 = _\<close> by auto
      qed (use Suc.prems \<open>ask (rd fd 1) st = (Val a, st1)\<close> \<open>nt_log st1 = _\<close> \<open>nt_out st1 = _\<close> a in \<open>simp_all add: loop_Suc andthen_def\<close>)
    qed
  qed
qed

lemma loop_ends: "loop n junk fd st = (r, st') \<Longrightarrow> length (nt_env st) < n \<Longrightarrow> r = Val () \<or> r = Killed \<or> r = Blocked \<and> nt_env st' = []"
proof (induction n arbitrary: st)
  case (Suc n)
  show ?case
  proof (cases rule: ask_cases [of st "rd fd 1"])
    case blocked
    with Suc.prems show ?thesis by (simp add: loop_Suc andthen_def)
  next
    case (killed a st1)
    with Suc.prems show ?thesis by (simp add: loop_Suc andthen_def)
  next
    case (val a st1)
    note one = val
    show ?thesis
    proof (cases "\<exists>b bs. a = A_data (b # bs)")
      case False
      with val Suc.prems show ?thesis by (auto simp: loop_Suc andthen_def ret_def split: answer.splits list.splits)
    next
      case True
      then obtain b bs where a: "a = A_data (b # bs)" by blast
      show ?thesis
      proof (cases rule: ask_cases [of st1 "rd fd (unat (u8_of_byte b))"])
        case (val a2 st2)
        let ?st3 = "st2\<lparr>nt_out := nt_out st2 @ [sized_word_line (u8_of_byte b) (c_str (word_stored (junk (length (nt_log st2))) (u8_of_byte b) a2))]\<rparr>"
        have "loop n junk fd ?st3 = (r, st')"
          using Suc.prems one(1) a val(1) by (simp add: loop_Suc andthen_def say_line_def)
        from Suc.IH [OF this] show ?thesis using one(4) val(4) Suc.prems(2) by simp
      qed (use Suc.prems one(1) a in \<open>auto simp: loop_Suc andthen_def\<close>)
    qed
  qed
qed simp

lemma reads_words:
  assumes "\<forall>k. length (junk k) = 256"
  shows "loop n junk fd st = (r, st') \<Longrightarrow> length (nt_env st) < n \<Longrightarrow> nt_log st' = nt_log st @ l
    \<Longrightarrow> stream_log (concat (frames ws)) l \<Longrightarrow> \<forall>w \<in> set ws. w \<noteq> [] \<and> length w \<le> 255 \<and> NUL \<notin> set w
    \<Longrightarrow> \<exists>lines. nt_out st' = nt_out st @ lines \<and> prefix (take (whole_words l) lines) (map sized_line ws)
      \<and> (read_to_end l \<longrightarrow> (r = Val () \<or> r = Killed) \<and> lines = map sized_line ws)
      \<and> (r = Val () \<or> r = Killed \<or> r = Blocked \<and> nt_env st' = [])"
proof (induction n arbitrary: st l ws)
  case (Suc n)
  show ?case
  proof (cases rule: ask_cases [of st "rd fd 1"])
    case blocked
    with Suc.prems(1,3) show ?thesis by (simp add: loop_Suc andthen_def read_to_end_def)
  next
    case (killed a st1)
    then have "r = Killed" "st' = st1" "l = [(rd fd 1, a)]" using Suc.prems(1,3) by (simp_all add: loop_Suc andthen_def)
    moreover have "ws = []" if "a = A_data []"
      using Suc.prems(4) that \<open>l = _\<close> by (cases ws) (simp_all add: rd_requested)
    ultimately show ?thesis using killed by (simp add: read_to_end_def)
  next
    case (val a st1)
    note one = val
    show ?thesis
    proof (cases "\<exists>b bs. a = A_data (b # bs)")
      case False
      then have "r = Val () \<and> st' = st1"
        using Suc.prems(1) one(1) by (auto simp: loop_Suc andthen_def ret_def split: answer.splits list.splits)
      moreover from this have "l = [(rd fd 1, a)]" using one(2) Suc.prems(3) by simp
      moreover have "ws = []" if "a = A_data []"
        using Suc.prems(4) that \<open>l = _\<close> by (cases ws) (simp_all add: rd_requested)
      ultimately show ?thesis using one by (simp add: read_to_end_def)
    next
      case True
      then obtain b bs where a: "a = A_data (b # bs)" by blast
      let ?m = "unat (u8_of_byte b)"
      obtain l1 where l1: "l = (rd fd 1, a) # l1"
      proof -
        have "\<exists>l1. nt_log st' = nt_log st1 @ l1"
        proof (cases rule: ask_cases [of st1 "rd fd ?m"])
          case (val a2 st2)
          then have "loop n junk fd (st2\<lparr>nt_out := nt_out st2 @ [sized_word_line (u8_of_byte b)
              (c_str (word_stored (junk (length (nt_log st2))) (u8_of_byte b) a2))]\<rparr>) = (r, st')"
            using Suc.prems(1) one(1) a by (simp add: loop_Suc andthen_def say_line_def)
          from loop_extends [OF this] val(2) show ?thesis by auto
        qed (use Suc.prems(1) one(1) a in \<open>simp_all add: loop_Suc andthen_def\<close>)
        with Suc.prems(3) one(2) that show thesis by auto
      qed
      have "ws \<noteq> [] \<and> bs = []" using Suc.prems(4) l1 a by (cases ws) (simp_all add: rd_requested)
      then obtain w ws' where ws: "ws = w # ws'" and bs: "bs = []" by (cases ws) auto
      have b: "b = byte_of_u8 (word_of_nat (length w))" using Suc.prems(4) l1 a ws by simp
      have w: "w \<noteq> []" "length w \<le> 255" "NUL \<notin> set w" using Suc.prems(5) ws by simp_all
      have m: "?m = length w" using w(2) unat_word_of_nat_u8 [of "length w"] b by simp
      have log1: "stream_log (w @ concat (frames ws')) l1" using Suc.prems(4) l1 a bs ws by simp
      have full1: "full_read (rd fd 1, a)" using a bs by (simp add: rd_requested)
      show ?thesis
      proof (cases rule: ask_cases [of st1 "rd fd ?m"])
        case blocked
        then have "r = Blocked" "st' = st1" using Suc.prems(1) one(1) a by (simp_all add: loop_Suc andthen_def)
        moreover from this have "l1 = []" using Suc.prems(3) one(2) l1 by simp
        ultimately show ?thesis using one(3) l1 a blocked by (simp add: read_to_end_def)
      next
        case (killed a2 st2)
        then have r: "r = Killed" "st' = st2" using Suc.prems(1) one(1) a by (simp_all add: loop_Suc andthen_def)
        then have "l1 = [(rd fd ?m, a2)]" using Suc.prems(3) one(2) killed(2) l1 by simp
        moreover from this have "a2 \<noteq> A_data []" using log1 w(1) m by (auto simp: rd_requested)
        ultimately show ?thesis using one(3) l1 r killed(3) by (simp add: read_to_end_def)
      next
        case (val a2 st2)
        let ?line = "sized_word_line (u8_of_byte b) (c_str (word_stored (junk (length (nt_log st2))) (u8_of_byte b) a2))"
        let ?st3 = "st2\<lparr>nt_out := nt_out st2 @ [?line]\<rparr>"
        have run: "loop n junk fd ?st3 = (r, st')"
          using Suc.prems(1) one(1) a val(1) by (simp add: loop_Suc andthen_def say_line_def)
        from loop_extends [OF this] obtain l2 lines where ext: "nt_log st' = nt_log st2 @ l2" "nt_out st' = nt_out st @ ?line # lines"
          using val(3) one(3) by auto
        then have l2: "l1 = (rd fd ?m, a2) # l2" using Suc.prems(3) one(2) val(2) l1 by simp
        show ?thesis
        proof (cases "full_read (rd fd ?m, a2)")
          case True
          then obtain cs where cs: "a2 = A_data cs" "length cs = length w"
            using full_readE [OF True] m by (auto simp: rd_requested)
          then have "cs = w" using log1 l2 by (auto simp: prefix_def append_eq_append_conv)
          then have line: "?line = sized_line w"
            using cs(1) w assms b by (simp add: sized_line_def word_stored_whole)
          have "stream_log (concat (frames ws')) l2" using log1 l2 cs \<open>cs = w\<close> by simp
          from Suc.IH [OF run _ _ this] obtain lines' where IH: "nt_out st' = nt_out ?st3 @ lines'"
              "prefix (take (whole_words l2) lines') (map sized_line ws')"
              "read_to_end l2 \<longrightarrow> (r = Val () \<or> r = Killed) \<and> lines' = map sized_line ws'"
              "r = Val () \<or> r = Killed \<or> r = Blocked \<and> nt_env st' = []"
            using Suc.prems(2,5) one(4) val(4) ext(1) ws by auto
          have "read_to_end l \<Longrightarrow> read_to_end l2"
            using l1 l2 cs w(1) \<open>cs = w\<close> by (auto simp: read_to_end_def split: if_splits)
          with IH show ?thesis
            using val(3) one(3) l1 l2 True full1 ws line by (intro exI [of _ "?line # lines'"]) simp
        next
          case False
          have "\<not> read_to_end l"
          proof
            assume end': "read_to_end l"
            have "l2 = []" using end' False l1 l2 by (cases l2) (auto simp: read_to_end_def)
            with end' l1 l2 have "a2 = A_data []" by (simp add: read_to_end_def)
            with log1 l2 w(1) m show False by (simp add: rd_requested)
          qed
          moreover have "whole_words l = 0" using l1 l2 False by simp
          moreover have "r = Val () \<or> r = Killed \<or> r = Blocked \<and> nt_env st' = []"
            by (rule loop_ends [OF run]) (use Suc.prems(2) one(4) val(4) in simp)
          ultimately show ?thesis using ext(2) by (intro exI [of _ "?line # lines"]) simp
        qed
      qed
    qed
  qed
qed (simp add: loop_0)

text \<open>A word that arrives in two pieces: the second piece is not waited for.\<close>

lemma prints_piece:
  assumes "nt_env st = (A_data [byte_of_u8 (word_of_nat (length w))], False) # (A_data (take k w), False) # env"
    and "length w \<le> 255" "k \<le> length w" "\<forall>i. length (junk i) = 256"
  shows "\<exists>st'. loop (Suc n) junk fd st = loop n junk fd st' \<and> nt_env st' = env
    \<and> nt_out st' = nt_out st @ [sized_word_line (word_of_nat (length w))
        (c_str (take k w @ take (length w - k) (drop k (junk (length (nt_log st) + 2)))))]"
proof -
  let ?n = "word_of_nat (length w) :: uint8"
  have n: "unat ?n = length w" using assms(2) by (intro unat_word_of_nat_u8) simp
  let ?junk = "junk (length (nt_log st) + 2)"
  have "word_stored ?junk ?n (A_data (take k w)) = (take k w @ drop k ?junk)[length w := NUL]"
    using n assms(3) by (simp add: word_stored_def min.absorb1 min.absorb2)
  also have "\<dots> = take k w @ (drop k ?junk)[length w - k := NUL]"
    using assms(3) by (simp add: list_update_append min.absorb1 min.absorb2)
  also have "(drop k ?junk)[length w - k := NUL] = take (length w - k) (drop k ?junk) @ NUL # drop (Suc (length w - k)) (drop k ?junk)"
    using assms(2-4) by (intro upd_conv_take_nth_drop) simp
  finally have "c_str (word_stored ?junk ?n (A_data (take k w))) = c_str (take k w @ take (length w - k) (drop k ?junk))"
    using c_str_append [of "take k w @ take (length w - k) (drop k ?junk)"] by simp
  then show ?thesis using assms(1) by (simp add: loop_Suc andthen_answer andthen_say) (intro exI conjI, rule refl, simp_all)
qed

lemma blocks_in_word:
  "nt_env st = [(A_data [b], False)] \<Longrightarrow> \<exists>st'. loop (Suc n) junk fd st = (Blocked, st') \<and> nt_out st' = nt_out st
    \<and> last (nt_log st') = (rd fd 1, A_data [b])"
  by (simp add: loop_Suc andthen_answer andthen_blocked)

lemma loop_below: "balanced_below k M (loop k junk fd) (\<lambda>_ M'. M' = M)"
proof (induction k)
  case (Suc k)
  show ?case unfolding loop_Suc
  proof (rule balanced_below_sys)
    fix a
    show "balanced_below k (fds_after (rd fd 1, a) M) (case a of
         A_data (b # _) \<Rightarrow> andthen (ask (rd fd (unat (u8_of_byte b)))) (\<lambda>a st.
           andthen (say_line (sized_word_line (u8_of_byte b) (c_str (word_stored (junk (length (nt_log st))) (u8_of_byte b) a))))
             (\<lambda>_. loop k junk fd) st)
       | _ \<Rightarrow> ret ()) (\<lambda>_ M'. M' = M)"
      unfolding rd_fds using Suc
      by (auto intro!: balanced_balanced_below [OF balanced_ret] balanced_below_mono [OF balanced_below_sys] balanced_below_say_state
          simp: rd_closes rd_fds split: answer.split list.split)
  qed (rule rd_closes)
qed (simp add: loop_0 balanced_below_def)

lemma loop_balanced: "balanced M (\<lambda>st. loop (Suc (length (nt_env st))) junk fd st) (\<lambda>_ M'. M' = M)"
  by (rule balanced_below_loop [OF loop_below])

end

interpretation rww: word_reader read_write_words C_read
  by unfold_locales (simp_all add: Let_def)

interpretation srw: word_reader send_recv_words C_recv
  by unfold_locales (simp_all add: Let_def)

section \<open>What a client sends\<close>

fun payload :: "net_call \<Rightarrow> string list" where
  "payload (C_send fd s) = [s]"
| "payload (C_write fd s) = [s]"
| "payload c = []"

definition payloads :: "(net_call \<times> answer) list \<Rightarrow> string list" where
  "payloads l = concat (map (\<lambda>x. payload (fst x)) l)"

lemma payloads_simps [simp]: "payloads [] = []" "payloads (x # l) = payload (fst x) @ payloads l" "payloads (l @ l') = payloads l @ payloads l'"
  by (simp_all add: payloads_def)

text \<open>The part \<open>m\<close> adds these payloads when it ends normally.\<close>

definition sends_payload :: "'a prog \<Rightarrow> string list \<Rightarrow> bool" where
  "sends_payload m ps \<longleftrightarrow> (\<forall>st a st'. m st = (Val a, st') \<longrightarrow> payloads (nt_log st') = payloads (nt_log st) @ ps)"

lemma sends_sys: "sends_payload (ask c) (payload c)"
  by (auto simp: sends_payload_def ask_def Let_def split: list.splits if_splits)

lemma sends_quiet: "sends_payload (ret a) []" "sends_payload (say_line s) []" "sends_payload (complain e) []" "sends_payload (leave n) ps"
  by (auto simp: sends_payload_def ret_def say_line_def complain_def leave_def)

lemma andthen_Val:
  assumes "andthen m f st = (Val b, st'')"
  obtains a st' where "m st = (Val a, st')" "f a st' = (Val b, st'')"
  using assms by (auto simp: andthen_def split: prod.splits net_outcome.splits)

lemma andthen_Exit_0:
  assumes "andthen m f st = (Exit n, st'')"
  obtains "m st = (Exit n, st'')" | a st' where "m st = (Val a, st')" "f a st' = (Exit n, st'')"
  using assms by (auto simp: andthen_def split: prod.splits net_outcome.splits)

lemma sends_andthen: "sends_payload m ps \<Longrightarrow> (\<And>a. sends_payload (f a) qs) \<Longrightarrow> sends_payload (andthen m f) (ps @ qs)"
  unfolding sends_payload_def by (metis andthen_Val append.assoc)

text \<open>A client loop that sends a word with the call \<open>put\<close>.\<close>

locale word_writer =
  fixes loop :: "int \<Rightarrow> string list \<Rightarrow> unit prog" and put :: "int \<Rightarrow> string \<Rightarrow> net_call"
  assumes loop_Nil: "loop fd [] = ret ()"
    and loop_Cons: "loop fd (w # ws) =
     (if length w > 255 then word_too_long fd
      else andthen (ask (C_send fd [byte_of_u8 (word_of_nat (length w))])) (\<lambda>_. andthen (ask (put fd w)) (\<lambda>_. loop fd ws)))"
    and put_payload: "payload (put fd w) = [w]"
    and put_closes: "closes_open (put fd w, a) M" and put_fds: "fds_after (put fd w, a) M = M"
begin

lemma sends_frames:
  "loop fd ws st = (Val u, st') \<Longrightarrow> payloads (nt_log st') = payloads (nt_log st) @ frames ws \<and> (\<forall>w \<in> set ws. length w \<le> 255)"
proof (induction ws arbitrary: st)
  case Nil
  then show ?case by (simp add: loop_Nil ret_def frames_def)
next
  case (Cons w ws)
  have short: "length w \<le> 255"
    using Cons.prems by (auto simp: loop_Cons word_too_long_def leave_def split: if_splits elim!: andthen_Val)
  from Cons.prems obtain a st1 b st2 where "ask (C_send fd [byte_of_u8 (word_of_nat (length w))]) st = (Val a, st1)"
    "ask (put fd w) st1 = (Val b, st2)" and rest: "loop fd ws st2 = (Val u, st')"
    using short by (auto simp: loop_Cons elim!: andthen_Val)
  then have "payloads (nt_log st2) = payloads (nt_log st) @ [[byte_of_u8 (word_of_nat (length w))], w]"
    using sends_sys [unfolded sends_payload_def] put_payload [of fd w] by (metis append.assoc append_Cons append_Nil payload.simps(1))
  with Cons.IH [OF rest] short show ?case by (simp add: frames_def)
qed

lemma loop_balanced: "fd \<in># M \<Longrightarrow> balanced M (loop fd ws) (\<lambda>_ M'. M' = M)"
proof (induction ws)
  case Nil
  then show ?case by (simp add: loop_Nil balanced_ret)
next
  case (Cons w ws)
  have "balanced M (word_too_long fd) (\<lambda>_ M'. M' = M)"
    unfolding word_too_long_def
    by (rule step_complain, rule balanced_andthen [OF balanced_sys balanced_fail, of _ _ "\<lambda>_ _. True"]) (use Cons.prems in auto)
  with Cons show ?case by (auto simp: loop_Cons put_closes put_fds intro!: step_sys)
qed

end

interpretation rwc: word_writer read_write_send_words C_write
  by unfold_locales simp_all

interpretation src: word_writer send_recv_send_words C_send
  by unfold_locales simp_all

text \<open>The parts of a client that send nothing.\<close>

lemma domain_socket_create_silent: "domain_socket_create st = (Val fd, st') \<Longrightarrow> payloads (nt_log st') = payloads (nt_log st)"
  by (auto simp: domain_socket_create_def Let_def ret_def leave_def ask_def elim!: andthen_Val split: if_splits list.splits)

lemma domain_connect_silent: "domain_connect_to_server fd a st = (Val u, st') \<Longrightarrow> payloads (nt_log st') = payloads (nt_log st)"
  by (auto simp: domain_connect_to_server_def Let_def ret_def leave_def ask_def elim!: andthen_Val split: if_splits list.splits)

lemma socket_close_silent: "socket_close fd st = (Val u, st') \<Longrightarrow> payloads (nt_log st') = payloads (nt_log st)"
  by (auto simp: socket_close_def Let_def ret_def leave_def ask_def elim!: andthen_Val split: if_splits list.splits)

text \<open>They leave the process with failure only.\<close>

lemma sys_not_Exit: "ask c st \<noteq> (Exit n, st')"
  by (auto simp: ask_def Let_def split: list.splits if_splits)

lemma not_success:
  "domain_socket_create st \<noteq> (Exit EXIT_SUCCESS, st')" "domain_connect_to_server fd a st \<noteq> (Exit EXIT_SUCCESS, st')"
  "socket_close fd st \<noteq> (Exit EXIT_SUCCESS, st')" "word_too_long fd st \<noteq> (Exit EXIT_SUCCESS, st')"
  by (auto simp: domain_socket_create_def domain_connect_to_server_def socket_close_def word_too_long_def Let_def
      ret_def leave_def complain_def sys_not_Exit elim!: andthen_Exit_0 split: if_splits)

context word_writer
begin

lemma loop_not_success: "loop fd ws st \<noteq> (Exit EXIT_SUCCESS, st')"
  by (induction ws arbitrary: st) (auto simp: loop_Nil loop_Cons ret_def sys_not_Exit not_success elim!: andthen_Exit_0 split: if_splits)

lemma client_sends:
  assumes "andthen domain_socket_create (\<lambda>fd. andthen (domain_connect_to_server fd addr) (\<lambda>_.
      andthen (loop fd ws) (\<lambda>_. andthen (socket_close fd) (\<lambda>_. leave EXIT_SUCCESS)))) (net_start env) = (Exit EXIT_SUCCESS, st)"
  shows "payloads (nt_log st) = frames ws \<and> (\<forall>w \<in> set ws. length w \<le> 255)"
proof -
  from assms obtain fd sta u stb v stc x where "domain_socket_create (net_start env) = (Val fd, sta)"
      "domain_connect_to_server fd addr sta = (Val u, stb)" "loop fd ws stb = (Val v, stc)" "socket_close fd stc = (Val x, st)"
    by (auto simp: leave_def not_success loop_not_success elim!: andthen_Exit_0)
  then show ?thesis
    using domain_socket_create_silent domain_connect_silent sends_frames socket_close_silent
    by (metis append_Nil net.select_convs(2) net_start_def payloads_simps(1))
qed

end

lemma domain_file_words_of:
  assumes "NUL \<notin> set file" "lines_at_most 1023 file"
  shows "domain_file_words file = words_of file"
  using fgets_lines_words [of 1022 "file"] assms(2)
  unfolding domain_file_words_def tokens_blanks fgets_lines_c_str [OF assms(1), of words_of] DOMAIN_LINE_LEN_def by simp

lemma words_of_no_NUL: "NUL \<notin> set file \<Longrightarrow> w \<in> set (words_of file) \<Longrightarrow> NUL \<notin> set w"
proof
  assume "NUL \<notin> set file" "w \<in> set (words_of file)" "NUL \<in> set w"
  then have "NUL \<in> set (concat (words_of file))" by auto
  then show False using \<open>NUL \<notin> set file\<close> by (auto simp: concat_words_from)
qed

section \<open>Theorems about the programs\<close>


definition demo_client :: "(answer \<times> bool) list" where
  "demo_client = [(A_fd 3 zero_addr, False), (A_ok, False), (A_count 1, False), (A_count 2, False), (A_ok, False)]"


text \<open>A stream socket may deliver a word in pieces. The handlers do not look at how much they got: for a word that
  arrives as its first \<open>k\<close> characters and later the others, they print these and whatever the uninitialised
  array held behind them, and take the next character of the word for a length.\<close>

theorem domain_short_read:
  assumes "handle \<in> {read_write_handle_connection, send_recv_handle_connection}" "\<forall>i. length (junk i) = 256"
    and "length w \<le> 255" "0 < k" "k < length w"
    and "nt_env st = [(A_data [byte_of_u8 (word_of_nat (length w))], False), (A_data (take k w), False), (A_data [w ! k], False)]"
  shows "\<exists>st'. handle junk fd st = (Blocked, st')
    \<and> nt_out st' = nt_out st @ [sized_word_line (word_of_nat (length w))
        (c_str (take k w @ take (length w - k) (drop k (junk (length (nt_log st) + 2)))))]
    \<and> last (nt_log st') \<in> {(C_read fd 1, A_data [w ! k]), (C_recv fd 1, A_data [w ! k])}"
proof -
  have "k \<le> length w" using assms(5) by simp
  note piece = rww.prints_piece [OF assms(6,3) this assms(2), of "Suc 2" fd] srw.prints_piece [OF assms(6,3) this assms(2), of "Suc 2" fd]
  note block = rww.blocks_in_word [of _ "w ! k" 2 junk fd] srw.blocks_in_word [of _ "w ! k" 2 junk fd]
  from assms(1) consider "handle = read_write_handle_connection" | "handle = send_recv_handle_connection" by blast
  then show ?thesis
  proof cases
    case 1
    then have "handle junk fd st = read_write_words (Suc (Suc 2)) junk fd st"
      unfolding 1 read_write_handle_connection_def assms(6) by (simp only: list.size numeral_2_eq_2 add_0 add_Suc)
    with piece(1) block(1) show ?thesis by (metis insertI1)
  next
    case 2
    then have "handle junk fd st = send_recv_words (Suc (Suc 2)) junk fd st"
      unfolding 2 send_recv_handle_connection_def assms(6) by (simp only: list.size numeral_2_eq_2 add_0 add_Suc)
    with piece(2) block(2) show ?thesis by (metis insertI1 insertI2)
  qed
qed

lemma domain_short_read_witness:
  "\<exists>st'. read_write_handle_connection (\<lambda>_. replicate 256 NUL) 4
      (net_start [(A_data [CHR 0x02], False), (A_data ''h'', False), (A_data ''i'', False)]) = (Blocked, st')
    \<and> nt_out st' = [sized_word_line 2 ''h'']"
proof -
  have b: "byte_of_u8 2 = CHR 0x02" by code_simp
  show ?thesis
    using domain_short_read [of read_write_handle_connection "\<lambda>_. replicate 256 NUL" "''hi''" 1
        "net_start [(A_data [CHR 0x02], False), (A_data ''h'', False), (A_data ''i'', False)]" 4]
    by (auto simp: net_start_def b)
qed

end
