(* ===== verification/Net_Programs.thy ===== *)
theory Net_Programs
  imports Domain_Socket
begin

text \<open>
  The \<^verbatim>\<open>main\<close> functions of the programs under \<^verbatim>\<open>src/networking-functions\<close>, \<^verbatim>\<open>src/sockets\<close>, \<^verbatim>\<open>src/tcp\<close> and
  \<^verbatim>\<open>src/udp\<close> behind their command lines, built from the functions of \<open>Net_Sockets\<close>, and what holds of
  all of them: no descriptor is leaked or closed twice, whatever the kernel answers, a server is left in an
  orderly way on SIGINT (one is not), and clients connect to the address servers bind. The first holds of the
  programs of \<open>Domain_Socket\<close> too.
\<close>

section \<open>socket, bind and connect\<close>

definition socket_main :: "int \<Rightarrow> int \<Rightarrow> unit prog" where
  "socket_main address_family socket_type =
     andthen (socket_create address_family socket_type 0) (\<lambda>sockfd.
     andthen (say_line (''Socket created'' @ [NL])) (\<lambda>_.
     andthen (socket_close sockfd) (\<lambda>_.
     andthen (say_line (''Socket closed'' @ [NL])) (\<lambda>_.
     leave EXIT_SUCCESS))))"

definition bind_main :: "netlib \<Rightarrow> string \<Rightarrow> uint16 \<Rightarrow> unit prog" where
  "bind_main lib address port =
     andthen (convert_address lib address) (\<lambda>addr.
     andthen (socket_create (ss_family addr) SOCK_STREAM 0) (\<lambda>sockfd.
     andthen (socket_bind lib sockfd addr port) (\<lambda>_.
     andthen (socket_close sockfd) (\<lambda>_.
     leave EXIT_SUCCESS))))"

text \<open>\<^verbatim>\<open>connect\<close> prints every character that arrives; each turn of its loop takes an answer.\<close>

fun connect_loop :: "nat \<Rightarrow> int \<Rightarrow> unit prog" where
  "connect_loop 0 sockfd = (\<lambda>st. (Blocked, st))"
| "connect_loop (Suc n) sockfd =
     andthen (ask (C_read sockfd 1)) (\<lambda>a.
       case a of
         A_data [] \<Rightarrow> ret ()
       | A_data (ch # _) \<Rightarrow> andthen (say_line (''read: '' @ [ch, NL])) (\<lambda>_. connect_loop n sockfd)
       | _ \<Rightarrow> andthen (complain (Perror ''read'')) (\<lambda>_. leave EXIT_FAILURE))"

definition connect_main :: "netlib \<Rightarrow> string \<Rightarrow> uint16 \<Rightarrow> unit prog" where
  "connect_main lib address port =
     andthen (convert_address lib address) (\<lambda>addr.
     andthen (socket_create (ss_family addr) SOCK_STREAM 0) (\<lambda>sockfd.
     andthen (socket_connect lib sockfd addr port) (\<lambda>_.
     andthen (\<lambda>st. connect_loop (Suc (length (nt_env st))) sockfd st) (\<lambda>_.
     andthen (socket_close sockfd) (\<lambda>_.
     leave EXIT_SUCCESS)))))"

section \<open>listen and accept\<close>

text \<open>\<^verbatim>\<open>handle_connection\<close>: the message, one character a second.\<close>

fun listen_handle_connection :: "int \<Rightarrow> string \<Rightarrow> unit prog" where
  "listen_handle_connection client_sockfd [] = ret ()"
| "listen_handle_connection client_sockfd (c # message) =
     andthen (ask (C_write client_sockfd [c])) (\<lambda>a.
       case a of
         A_count n \<Rightarrow> listen_handle_connection client_sockfd message
       | _ \<Rightarrow> andthen (complain (Perror ''write'')) (\<lambda>_. leave EXIT_FAILURE))"

definition listen_serve :: "string \<Rightarrow> int \<Rightarrow> unit prog" where
  "listen_serve message client_sockfd =
     andthen (listen_handle_connection client_sockfd message) (\<lambda>_. socket_close client_sockfd)"

definition listen_main :: "netlib \<Rightarrow> string \<Rightarrow> uint16 \<Rightarrow> int \<Rightarrow> string \<Rightarrow> unit prog" where
  "listen_main lib address port backlog message =
     andthen (convert_address lib address) (\<lambda>addr.
     andthen (socket_create (ss_family addr) SOCK_STREAM 0) (\<lambda>sockfd.
     andthen (socket_bind lib sockfd addr port) (\<lambda>_.
     andthen (start_listening sockfd backlog) (\<lambda>_.
     andthen setup_signal_handler (\<lambda>_.
     andthen (accept_connections (socket_accept_connection lib sockfd) (listen_serve message)) (\<lambda>_.
     andthen (socket_close sockfd) (\<lambda>_.
     leave EXIT_SUCCESS)))))))"

section \<open>shutdown\<close>

text \<open>\<^verbatim>\<open>handle_connection\<close> is empty.\<close>

definition shutdown_serve :: "int \<Rightarrow> unit prog" where
  "shutdown_serve client_sockfd =
     andthen (shutdown_socket client_sockfd SHUT_RD) (\<lambda>_. socket_close client_sockfd)"

definition shutdown_server_main :: "netlib \<Rightarrow> string \<Rightarrow> uint16 \<Rightarrow> unit prog" where
  "shutdown_server_main lib address port =
     andthen (convert_address lib address) (\<lambda>addr.
     andthen (socket_create (ss_family addr) SOCK_STREAM 0) (\<lambda>sockfd.
     andthen (socket_bind lib sockfd addr port) (\<lambda>_.
     andthen (start_listening sockfd SOMAXCONN) (\<lambda>_.
     andthen setup_signal_handler (\<lambda>_.
     andthen (accept_connections (socket_accept_connection lib sockfd) shutdown_serve) (\<lambda>_.
     andthen (shutdown_socket sockfd SHUT_RDWR) (\<lambda>_.
     andthen (socket_close sockfd) (\<lambda>_.
     leave EXIT_SUCCESS))))))))"

definition shutdown_client_main :: "netlib \<Rightarrow> string \<Rightarrow> uint16 \<Rightarrow> unit prog" where
  "shutdown_client_main lib address port =
     andthen (convert_address lib address) (\<lambda>addr.
     andthen (socket_create (ss_family addr) SOCK_STREAM 0) (\<lambda>sockfd.
     andthen (socket_connect lib sockfd addr port) (\<lambda>_.
     andthen (shutdown_socket sockfd SHUT_WR) (\<lambda>_.
     andthen (socket_close sockfd) (\<lambda>_.
     leave EXIT_SUCCESS)))))"

section \<open>setsockopt\<close>

abbreviation (input) SOL_SOCKET :: int where "SOL_SOCKET \<equiv> 1"
abbreviation (input) IPPROTO_TCP :: int where "IPPROTO_TCP \<equiv> 6"
abbreviation (input) SO_REUSEADDR :: int where "SO_REUSEADDR \<equiv> 2"

text \<open>This \<^verbatim>\<open>socket_accept_connection\<close> ends the process when \<^verbatim>\<open>accept\<close> fails, so that the loop never sees -1.\<close>

definition setsockopt_accept_connection :: "int \<Rightarrow> int prog" where
  "setsockopt_accept_connection server_fd =
     andthen (ask (C_accept server_fd)) (\<lambda>a.
     let client_fd = fd_of a
     in if client_fd = - 1
        then andthen (complain (Perror ''accept failed'')) (\<lambda>_.
             andthen (ask (C_close server_fd)) (\<lambda>_.
             leave EXIT_FAILURE))
        else andthen (say_line (''Accepted a new connection'' @ [NL])) (\<lambda>_. ret client_fd))"

definition setsockopt_server_main :: "netlib \<Rightarrow> string \<Rightarrow> uint16 \<Rightarrow> unit prog" where
  "setsockopt_server_main lib address port =
     andthen (convert_address lib address) (\<lambda>addr.
     andthen (socket_create (ss_family addr) SOCK_STREAM 0) (\<lambda>sockfd.
     andthen (ask (C_setsockopt sockfd SOL_SOCKET SO_REUSEADDR 1)) (\<lambda>a.
     if a \<noteq> A_ok then andthen (complain (Perror ''Setsockopt failed'')) (\<lambda>_. leave EXIT_FAILURE)
     else
     andthen (socket_bind lib sockfd addr port) (\<lambda>_.
     andthen (start_listening sockfd SOMAXCONN) (\<lambda>_.
     andthen setup_signal_handler (\<lambda>_.
     andthen (accept_connections (setsockopt_accept_connection sockfd) socket_close) (\<lambda>_.
     andthen (socket_close sockfd) (\<lambda>_.
     leave EXIT_SUCCESS))))))))"

definition setsockopt_client_main :: "netlib \<Rightarrow> string \<Rightarrow> uint16 \<Rightarrow> unit prog" where
  "setsockopt_client_main lib address port =
     andthen (convert_address lib address) (\<lambda>addr.
     andthen (socket_create (ss_family addr) SOCK_STREAM 0) (\<lambda>sockfd.
     andthen (socket_connect lib sockfd addr port) (\<lambda>_.
     andthen (socket_close sockfd) (\<lambda>_.
     leave EXIT_SUCCESS))))"

section \<open>getsockopt\<close>

abbreviation (input) ENOPROTOOPT :: int where "ENOPROTOOPT \<equiv> 92"
abbreviation (input) EINVAL :: int where "EINVAL \<equiv> 22"

definition option_error :: "netlib \<Rightarrow> string \<Rightarrow> answer \<Rightarrow> unit prog" where
  "option_error lib name a =
     (if errno_of a = ENOPROTOOPT \<or> errno_of a = EINVAL
      then complain (Text (name @ '': Option not supported on this socket.'' @ [NL]))
      else complain (Text (''Error getting '' @ name @ '': '' @ c_strerror lib (errno_of a) @ [NL])))"

definition print_socket_opt_bool :: "netlib \<Rightarrow> int \<Rightarrow> int \<Rightarrow> int \<Rightarrow> string \<Rightarrow> unit prog" where
  "print_socket_opt_bool lib sockfd option_level option_name name =
     andthen (ask (C_getsockopt sockfd option_level option_name)) (\<lambda>a.
     case a of
       A_opt optval _ \<Rightarrow> complain (Text (name @ '': '' @ (if optval \<noteq> 0 then ''Enabled'' else ''Disabled'') @ [NL]))
     | _ \<Rightarrow> option_error lib name a)"

definition print_socket_opt_int :: "netlib \<Rightarrow> int \<Rightarrow> int \<Rightarrow> int \<Rightarrow> string \<Rightarrow> unit prog" where
  "print_socket_opt_int lib sockfd option_level option_name name =
     andthen (ask (C_getsockopt sockfd option_level option_name)) (\<lambda>a.
     case a of
       A_opt optval _ \<Rightarrow> complain (Text (name @ '': '' @ dec_int optval @ [NL]))
     | _ \<Rightarrow> option_error lib name a)"

definition print_socket_opt_timeval :: "netlib \<Rightarrow> int \<Rightarrow> int \<Rightarrow> int \<Rightarrow> string \<Rightarrow> unit prog" where
  "print_socket_opt_timeval lib sockfd option_level option_name name =
     andthen (ask (C_getsockopt sockfd option_level option_name)) (\<lambda>a.
     case a of
       A_opt tv_sec tv_usec \<Rightarrow> say_line (name @ '': '' @ dec_int tv_sec @ '' seconds '' @ dec_int tv_usec @ '' microseconds'' @ [NL])
     | _ \<Rightarrow> complain (Perror ''getsockopt''))"

definition print_socket_opt_linger :: "netlib \<Rightarrow> int \<Rightarrow> int \<Rightarrow> int \<Rightarrow> string \<Rightarrow> unit prog" where
  "print_socket_opt_linger lib sockfd option_level option_name name =
     andthen (ask (C_getsockopt sockfd option_level option_name)) (\<lambda>a.
     case a of
       A_opt l_onoff l_linger \<Rightarrow>
         say_line (name @ '': Linger: '' @ (if l_onoff \<noteq> 0 then ''Enabled'' else ''Disabled'') @ '', Time: '' @ dec_int l_linger @ [NL])
     | _ \<Rightarrow> complain (Perror ''getsockopt''))"

text \<open>The table of \<^verbatim>\<open>main\<close> with the values of the constants on Linux.\<close>

type_synonym socket_option = "string \<times> int \<times> int \<times> (netlib \<Rightarrow> int \<Rightarrow> int \<Rightarrow> int \<Rightarrow> string \<Rightarrow> unit prog)"

definition socket_options :: "socket_option list" where
  "socket_options =
     [(''SO_ACCEPTCONN'', IPPROTO_TCP, 30, print_socket_opt_bool),
      (''SO_BROADCAST'', SOL_SOCKET, 6, print_socket_opt_bool),
      (''SO_DEBUG'', SOL_SOCKET, 1, print_socket_opt_bool),
      (''SO_DONTROUTE'', SOL_SOCKET, 5, print_socket_opt_bool),
      (''SO_ERROR'', SOL_SOCKET, 4, print_socket_opt_int),
      (''SO_KEEPALIVE'', SOL_SOCKET, 9, print_socket_opt_bool),
      (''SO_LINGER'', SOL_SOCKET, 13, print_socket_opt_linger),
      (''SO_OOBINLINE'', SOL_SOCKET, 10, print_socket_opt_bool),
      (''SO_RCVBUF'', SOL_SOCKET, 8, print_socket_opt_int),
      (''SO_RCVLOWAT'', SOL_SOCKET, 18, print_socket_opt_int),
      (''SO_RCVTIMEO'', SOL_SOCKET, 20, print_socket_opt_timeval),
      (''SO_REUSEADDR'', SOL_SOCKET, 2, print_socket_opt_bool),
      (''SO_SNDBUF'', SOL_SOCKET, 7, print_socket_opt_int),
      (''SO_SNDLOWAT'', SOL_SOCKET, 19, print_socket_opt_int),
      (''SO_SNDTIMEO'', SOL_SOCKET, 21, print_socket_opt_timeval),
      (''SO_TYPE'', SOL_SOCKET, 3, print_socket_opt_int)]"

fun print_all_options :: "netlib \<Rightarrow> int \<Rightarrow> socket_option list \<Rightarrow> unit prog" where
  "print_all_options lib sockfd [] = ret ()"
| "print_all_options lib sockfd ((name, level, opt, print) # options) =
     andthen (print lib sockfd level opt name) (\<lambda>_. print_all_options lib sockfd options)"

definition getsockopt_main :: "netlib \<Rightarrow> string \<Rightarrow> uint16 \<Rightarrow> unit prog" where
  "getsockopt_main lib address port =
     andthen (convert_address lib address) (\<lambda>addr.
     andthen (socket_create (ss_family addr) SOCK_STREAM 0) (\<lambda>sockfd.
     andthen (socket_bind lib sockfd addr port) (\<lambda>_.
     andthen (print_all_options lib sockfd socket_options) (\<lambda>_.
     andthen (socket_close sockfd) (\<lambda>_.
     leave EXIT_SUCCESS)))))"

section \<open>sendto and recvfrom\<close>

definition sendto_convert_address :: "netlib \<Rightarrow> string \<Rightarrow> (sockaddr \<times> nat) prog" where
  "sendto_convert_address lib address =
     (case inet_pton lib AF_INET address of
        Some a \<Rightarrow> ret (zero_addr\<lparr>ss_addr := a, ss_family := AF_INET\<rparr>, sizeof_sockaddr_in)
      | None \<Rightarrow>
          (case inet_pton lib AF_INET6 address of
             Some a \<Rightarrow> ret (zero_addr\<lparr>ss_addr := a, ss_family := AF_INET6\<rparr>, sizeof_sockaddr_in6)
           | None \<Rightarrow> andthen (complain (Text (address @ '' is not an IPv4 or an IPv6 address'' @ [NL]))) (\<lambda>_. leave EXIT_FAILURE)))"

definition get_address_to_server :: "sockaddr \<Rightarrow> uint16 \<Rightarrow> sockaddr" where
  "get_address_to_server addr port =
     (if ss_family addr = AF_INET then addr\<lparr>ss_family := AF_INET, ss_port := htons port\<rparr>
      else if ss_family addr = AF_INET6 then addr\<lparr>ss_family := AF_INET6, ss_port := htons port\<rparr>
      else addr)"

definition sendto_client_main :: "netlib \<Rightarrow> string \<Rightarrow> uint16 \<Rightarrow> string \<Rightarrow> unit prog" where
  "sendto_client_main lib address port message =
     andthen (sendto_convert_address lib address) (\<lambda>(addr, addr_len).
     andthen (socket_create (ss_family addr) SOCK_DGRAM 0) (\<lambda>sockfd.
     andthen (ask (C_sendto sockfd (message @ [NUL]) (get_address_to_server addr port) addr_len)) (\<lambda>a.
     case a of
       A_count bytes_sent \<Rightarrow>
         andthen (say_line (''Sent '' @ dec_nat bytes_sent @ '' bytes: '' @ [CHR 0x22] @ message @ [CHR 0x22, NL])) (\<lambda>_.
         andthen (socket_close sockfd) (\<lambda>_.
         leave EXIT_SUCCESS))
     | _ \<Rightarrow> andthen (complain (Perror ''sendto'')) (\<lambda>_. leave EXIT_FAILURE))))"

definition SENDTO_LINE_LEN :: nat where "SENDTO_LINE_LEN = 1024"

definition handle_packet :: "int \<Rightarrow> string \<Rightarrow> nat \<Rightarrow> unit prog" where
  "handle_packet client_sockfd buffer bytes =
     say_line (dec_int client_sockfd @ '' read '' @ dec_nat bytes @ '' characters: '' @ [CHR 0x22] @ c_str buffer @ [CHR 0x22] @ '' from'' @ [NL])"

text \<open>\<open>buffer\<close> is the array before the call; \<^verbatim>\<open>recvfrom\<close> stores no more than \<^verbatim>\<open>sizeof(buffer) - 1\<close> bytes of the
  datagram.\<close>

definition recvfrom_server_main :: "netlib \<Rightarrow> string \<Rightarrow> uint16 \<Rightarrow> char list \<Rightarrow> unit prog" where
  "recvfrom_server_main lib address port buffer =
     andthen (convert_address lib address) (\<lambda>addr.
     andthen (socket_create (ss_family addr) SOCK_DGRAM 0) (\<lambda>sockfd.
     andthen (socket_bind lib sockfd addr port) (\<lambda>_.
     andthen (ask (C_recvfrom sockfd SENDTO_LINE_LEN)) (\<lambda>a.
     case a of
       A_data datagram \<Rightarrow>
         let bytes = take SENDTO_LINE_LEN datagram;
             bytes_received = length bytes;
             buffer = bytes @ drop bytes_received buffer;
             n = (if bytes_received \<ge> SENDTO_LINE_LEN + 1 then SENDTO_LINE_LEN else bytes_received)
         in andthen (handle_packet sockfd (buffer[n := NUL]) bytes_received) (\<lambda>_.
            andthen (socket_close sockfd) (\<lambda>_.
            leave EXIT_SUCCESS))
     | _ \<Rightarrow> andthen (complain (Perror ''recvfrom'')) (\<lambda>_.
           andthen (socket_close sockfd) (\<lambda>_.
           leave EXIT_FAILURE))))))"

section \<open>The account of each program\<close>

lemma bind_main_balanced: "balanced {#} (bind_main lib address port) Q" "balanced {#} (socket_main address_family socket_type) Q"
  unfolding bind_main_def socket_main_def by (intro balanced_steps)+

lemma connect_loop_balanced: "balanced_below k M (connect_loop k fd) (\<lambda>_ M'. M' = M)"
proof (induction k)
  case (Suc k)
  then show ?case
    unfolding connect_loop.simps
    by (intro balanced_below_sys) (auto intro!: balanced_below_say balanced_balanced_below [OF balanced_ret]
        balanced_balanced_below [OF balanced_report] split: answer.split list.split)
qed (rule balanced_below_0)

lemma connect_main_balanced: "balanced {#} (connect_main lib address port) Q"
  unfolding connect_main_def
  by (intro balanced_steps balanced_andthen [OF balanced_below_loop [OF connect_loop_balanced]]) (auto intro: balanced_steps)

lemma listen_handle_balanced: "balanced M (listen_handle_connection fd message) (\<lambda>_ M'. M' = M)"
proof (induction message)
  case (Cons c message)
  then show ?case by (auto intro!: step_sys balanced_report split: answer.split)
qed (simp add: balanced_ret)

lemma listen_serve_balanced: "balanced (add_mset fd M) (listen_serve message fd) (\<lambda>_ M'. M' = M)"
  unfolding listen_serve_def
  by (rule balanced_andthen [OF listen_handle_balanced]) (auto intro: balanced_socket_close)

lemma shutdown_serve_balanced: "balanced (add_mset fd M) (shutdown_serve fd) (\<lambda>_ M'. M' = M)"
  unfolding shutdown_serve_def by (intro balanced_steps) (auto intro: balanced_socket_close)

lemma setsockopt_accept_balanced:
  assumes "fd \<in># M"
  shows "balanced M (setsockopt_accept_connection fd) (\<lambda>c M'. M' = (if c = - 1 then M else add_mset c M))"
  unfolding setsockopt_accept_connection_def Let_def
proof (rule balanced_andthen [OF balanced_sys, of _ M "\<lambda>a M'. M' = fds_after (C_accept fd, a) M"])
  fix a M' assume M': "M' = fds_after (C_accept fd, a) M"
  have fail: "balanced M (andthen (ask (C_close fd)) (\<lambda>_. leave EXIT_FAILURE)) Q" for Q :: "int \<Rightarrow> int multiset \<Rightarrow> bool"
    by (rule balanced_andthen [OF balanced_sys balanced_fail, of _ _ "\<lambda>_ _. True"]) (use assms in auto)
  show "balanced M' (if fd_of a = - 1
      then andthen (complain (Perror ''accept failed'')) (\<lambda>_. andthen (ask (C_close fd)) (\<lambda>_. leave EXIT_FAILURE))
      else andthen (say_line (''Accepted a new connection'' @ [NL])) (\<lambda>_. ret (fd_of a)))
    (\<lambda>c M'. M' = (if c = - 1 then M else add_mset c M))"
    using M' fail by (auto intro!: step_complain step_say balanced_ret)
qed auto

interpretation lss: service fd "socket_accept_connection lib fd" "listen_serve message"
  by unfold_locales (auto intro: balanced_socket_accept socket_accept_shrinks listen_serve_balanced)

interpretation shs: service fd "socket_accept_connection lib fd" shutdown_serve
  by unfold_locales (auto intro: balanced_socket_accept socket_accept_shrinks shutdown_serve_balanced)

interpretation sos: service fd "setsockopt_accept_connection fd" socket_close
proof
  show "length (nt_env st') < length (nt_env st)" if "setsockopt_accept_connection fd st = (Val c, st')" for st c st'
    using that unfolding setsockopt_accept_connection_def
    by (rule andthen_sys_shrinks)
      (auto simp: Let_def andthen_def say_line_def complain_def ret_def ask_def leave_def split: if_splits list.splits)
qed (auto intro: setsockopt_accept_balanced balanced_socket_close)

lemma listen_main_balanced: "balanced {#} (listen_main lib address port backlog message) Q"
  unfolding listen_main_def
  by (intro balanced_steps balanced_andthen [OF lss.loop_balanced, of _ _ "\<lambda>_ M'. M' = _"]) (auto intro: balanced_steps)

lemma shutdown_server_main_balanced: "balanced {#} (shutdown_server_main lib address port) Q"
  unfolding shutdown_server_main_def
  by (intro balanced_steps balanced_andthen [OF shs.loop_balanced, of _ _ "\<lambda>_ M'. M' = _"]) (auto intro: balanced_steps)

lemma setsockopt_server_main_balanced: "balanced {#} (setsockopt_server_main lib address port) Q"
  unfolding setsockopt_server_main_def
  by (intro balanced_steps step_sys balanced_if balanced_andthen [OF sos.loop_balanced, of _ _ "\<lambda>_ M'. M' = _"])
    (auto intro: balanced_steps)

lemma client_mains_balanced:
  "balanced {#} (shutdown_client_main lib address port) Q" "balanced {#} (setsockopt_client_main lib address port) Q"
  unfolding shutdown_client_main_def setsockopt_client_main_def by (intro balanced_steps)+

lemma option_printers_balanced:
  assumes "print \<in> {print_socket_opt_bool, print_socket_opt_int, print_socket_opt_timeval, print_socket_opt_linger}"
  shows "balanced M (print lib fd level opt name) (\<lambda>_ M'. M' = M)"
proof -
  have "balanced M (option_error lib name a) (\<lambda>_ M'. M' = M)" for a
    by (auto simp: option_error_def intro: balanced_complain)
  with assms show ?thesis
    by (auto simp: print_socket_opt_bool_def print_socket_opt_int_def print_socket_opt_timeval_def print_socket_opt_linger_def
        intro!: step_sys balanced_complain balanced_say split: answer.split)
qed

lemma print_all_options_balanced:
  "(\<forall>(name, level, opt, print) \<in> set options.
      print \<in> {print_socket_opt_bool, print_socket_opt_int, print_socket_opt_timeval, print_socket_opt_linger})
    \<Longrightarrow> balanced M (print_all_options lib fd options) (\<lambda>_ M'. M' = M)"
proof (induction options)
  case (Cons x options)
  obtain name level opt print where x: "x = (name, level, opt, print)" by (cases x)
  with Cons.prems x have "balanced M (print lib fd level opt name) (\<lambda>_ M'. M' = M)" by (intro option_printers_balanced) auto
  from balanced_andthen [OF this] Cons x show ?case by auto
qed (simp add: balanced_ret)

lemma getsockopt_main_balanced: "balanced {#} (getsockopt_main lib address port) Q"
proof -
  have "balanced M (print_all_options lib fd socket_options) (\<lambda>_ M'. M' = M)" for M fd
    by (rule print_all_options_balanced) (simp add: socket_options_def)
  note step = balanced_andthen [OF this]
  show ?thesis unfolding getsockopt_main_def by (intro balanced_steps step) (auto intro: balanced_steps)
qed

lemma udp_mains_balanced:
  "balanced {#} (sendto_client_main lib address port message) Q" "balanced {#} (recvfrom_server_main lib address port buffer) Q"
proof -
  have "balanced M (sendto_convert_address lib address) (\<lambda>_ M'. M' = M)" for M
    by (auto simp: sendto_convert_address_def split: option.split intro: balanced_ret balanced_report)
  note step = balanced_andthen [OF this]
  show "balanced {#} (sendto_client_main lib address port message) Q"
    unfolding sendto_client_main_def
    by (rule step) (auto intro!: balanced_steps step_sys balanced_report split: answer.split)
  show "balanced {#} (recvfrom_server_main lib address port buffer) Q"
    unfolding recvfrom_server_main_def handle_packet_def
    by (auto simp: Let_def intro!: balanced_steps step_sys split: answer.split)
qed

text \<open>The programs on a local socket.\<close>

lemma step_domain_socket_create: "(\<And>fd. balanced (add_mset fd M) (f fd) Q) \<Longrightarrow> balanced M (andthen domain_socket_create f) Q"
proof -
  assume f: "\<And>fd. balanced (add_mset fd M) (f fd) Q"
  have "balanced M domain_socket_create (\<lambda>fd M'. M' = add_mset fd M)"
    unfolding domain_socket_create_def Let_def
    by (rule balanced_andthen [OF balanced_sys, of _ _ "\<lambda>a M'. M' = fds_after (C_socket AF_UNIX 0x80001 0, a) M"])
      (auto intro: balanced_ret balanced_report)
  from balanced_andthen [OF this] f show ?thesis by blast
qed

lemma step_domain_socket_bind: "balanced M (f ()) Q \<Longrightarrow> balanced M (andthen (domain_socket_bind fd path) f) Q"
  unfolding domain_socket_bind_def by (rule balanced_andthen [OF balanced_call(1), of _ _ M "\<lambda>_ M'. M' = M"]) auto

lemma step_domain_connect:
  assumes "balanced (add_mset fd M) (f ()) Q"
  shows "balanced (add_mset fd M) (andthen (domain_connect_to_server fd addr) f) Q"
proof -
  have "balanced (add_mset fd M) (andthen (ask (C_close fd)) (\<lambda>_. leave EXIT_FAILURE)) R" for R :: "unit \<Rightarrow> int multiset \<Rightarrow> bool"
    by (rule balanced_andthen [OF balanced_sys balanced_fail, of _ _ "\<lambda>_ _. True"]) auto
  then have "balanced (add_mset fd M) (domain_connect_to_server fd addr) (\<lambda>_ M'. M' = add_mset fd M)"
    unfolding domain_connect_to_server_def by (intro step_sys) (auto intro!: step_complain balanced_ret)
  then show ?thesis by (rule balanced_andthen) (use assms in simp)
qed

lemma domain_accept_balanced:
  "balanced M (domain_accept_connection lib fd) (\<lambda>c M'. M' = (if c = - 1 then M else add_mset c M))"
  unfolding domain_accept_connection_def Let_def
  by (rule balanced_andthen [OF balanced_sys, of _ M "\<lambda>a M'. M' = fds_after (C_accept fd, a) M"])
    (auto intro!: balanced_ret step_say step_complain balanced_andthen [OF balanced_ret, of "\<lambda>_ M'. M' = M"] split: option.split)

lemma domain_accept_shrinks:
  "domain_accept_connection lib fd st = (Val c, st') \<Longrightarrow> length (nt_env st') < length (nt_env st)"
  unfolding domain_accept_connection_def
  by (erule andthen_sys_shrinks)
    (auto simp: Let_def andthen_def say_line_def complain_def ret_def split: if_splits option.splits)

lemma domain_serve_balanced:
  "balanced (add_mset fd M) (andthen (read_write_handle_connection junk fd) (\<lambda>_. socket_close fd)) (\<lambda>_ M'. M' = M)"
  "balanced (add_mset fd M) (andthen (send_recv_handle_connection junk fd) (\<lambda>_. socket_close fd)) (\<lambda>_ M'. M' = M)"
  unfolding read_write_handle_connection_def send_recv_handle_connection_def
  by (rule balanced_andthen [OF rww.loop_balanced] balanced_andthen [OF srw.loop_balanced]; auto intro: balanced_socket_close)+

interpretation rws: service fd "domain_accept_connection lib fd"
    "\<lambda>c. andthen (read_write_handle_connection junk c) (\<lambda>_. socket_close c)"
  by unfold_locales (auto intro: domain_accept_balanced domain_accept_shrinks domain_serve_balanced)

interpretation srs: service fd "domain_accept_connection lib fd"
    "\<lambda>c. andthen (send_recv_handle_connection junk c) (\<lambda>_. socket_close c)"
  by unfold_locales (auto intro: domain_accept_balanced domain_accept_shrinks domain_serve_balanced)

lemma domain_servers_balanced:
  "balanced {#} (read_write_server_main lib junk) Q" "balanced {#} (send_recv_server_main lib junk) Q"
  unfolding read_write_server_main_def send_recv_server_main_def
  by (intro balanced_steps step_sys step_domain_socket_create step_domain_socket_bind
      balanced_andthen [OF rws.loop_balanced, of _ _ "\<lambda>_ M'. M' = _"] balanced_andthen [OF srs.loop_balanced, of _ _ "\<lambda>_ M'. M' = _"];
      auto intro!: balanced_steps step_sys)+

lemma domain_clients_balanced:
  "balanced {#} (read_write_client_main fopen file) Q" "balanced {#} (send_recv_client_main fopen file) Q"
  unfolding read_write_client_main_def send_recv_client_main_def
  by (intro balanced_if balanced_report step_domain_socket_create step_domain_connect
      balanced_andthen [OF rwc.loop_balanced] balanced_andthen [OF src.loop_balanced]; auto intro!: balanced_steps)+

lemmas mains_balanced = bind_main_balanced connect_main_balanced listen_main_balanced shutdown_server_main_balanced
  client_mains_balanced setsockopt_server_main_balanced getsockopt_main_balanced udp_mains_balanced
  domain_servers_balanced domain_clients_balanced

section \<open>The address of each program\<close>

text \<open>The address and its size for the arguments \<open>address\<close> and \<open>port\<close>.\<close>

definition server_address :: "netlib \<Rightarrow> string \<Rightarrow> uint16 \<Rightarrow> sockaddr \<times> nat" where
  "server_address lib address port =
     (case inet_pton lib AF_INET address of
        Some a \<Rightarrow> (\<lparr>ss_family = AF_INET, ss_addr = a, ss_port = htons port, ss_path = []\<rparr>, sizeof_sockaddr_in)
      | None \<Rightarrow> (\<lparr>ss_family = AF_INET6, ss_addr = the (inet_pton lib AF_INET6 address), ss_port = htons port, ss_path = []\<rparr>,
          sizeof_sockaddr_in6))"

fun addresses :: "sockaddr \<times> nat \<Rightarrow> net_call \<Rightarrow> bool" where
  "addresses a (C_bind fd addr len) \<longleftrightarrow> (addr, len) = a"
| "addresses a (C_connect fd addr len) \<longleftrightarrow> (addr, len) = a"
| "addresses a (C_sendto fd msg addr len) \<longleftrightarrow> (addr, len) = a"
| "addresses a c \<longleftrightarrow> True"

text \<open>Every call a part of a program makes satisfies \<open>P\<close>, and its value satisfies \<open>Q\<close>.\<close>

definition all_calls :: "(net_call \<Rightarrow> bool) \<Rightarrow> 'a prog \<Rightarrow> ('a \<Rightarrow> bool) \<Rightarrow> bool" where
  "all_calls P m Q \<longleftrightarrow> (\<forall>st r st'. m st = (r, st') \<longrightarrow>
     (\<exists>l. nt_log st' = nt_log st @ l \<and> (\<forall>x \<in> set l. P (fst x))) \<and> (\<forall>a. r = Val a \<longrightarrow> Q a))"

lemma all_calls_ret: "Q a \<Longrightarrow> all_calls P (ret a) Q"
  by (simp add: all_calls_def ret_def)

lemma all_calls_quiet:
  "Q () \<Longrightarrow> all_calls P (say_line s) Q" "Q () \<Longrightarrow> all_calls P (complain e) Q"
  "Q () \<Longrightarrow> all_calls P (\<lambda>st. (Val (), st\<lparr>nt_handler := True\<rparr>)) Q"
  by (simp_all add: all_calls_def say_line_def complain_def)

lemma all_calls_leave: "all_calls P (leave n) Q"
  by (simp add: all_calls_def leave_def)

lemma all_calls_sys: "P c \<Longrightarrow> (\<And>a. Q a) \<Longrightarrow> all_calls P (ask c) Q"
  by (auto simp: all_calls_def ask_def Let_def split: list.splits if_splits)

lemma all_calls_andthen:
  assumes m: "all_calls P m R" and f: "\<And>a. R a \<Longrightarrow> all_calls P (f a) Q"
  shows "all_calls P (andthen m f) Q"
  unfolding all_calls_def
proof (intro allI impI)
  fix st r st'' assume run: "andthen m f st = (r, st'')"
  obtain r1 st' where m1: "m st = (r1, st')" by fastforce
  with m obtain l where l: "nt_log st' = nt_log st @ l" "\<forall>x \<in> set l. P (fst x)" "\<forall>a. r1 = Val a \<longrightarrow> R a"
    unfolding all_calls_def by metis
  show "(\<exists>l. nt_log st'' = nt_log st @ l \<and> (\<forall>x \<in> set l. P (fst x))) \<and> (\<forall>a. r = Val a \<longrightarrow> Q a)"
  proof (cases r1)
    case (Val a)
    then have "f a st' = (r, st'')" "R a" using run m1 l by (simp_all add: andthen_def)
    with f [of a] obtain k where "nt_log st'' = nt_log st' @ k" "\<forall>x \<in> set k. P (fst x)" "\<forall>a. r = Val a \<longrightarrow> Q a"
      unfolding all_calls_def by metis
    with l show ?thesis by (intro conjI exI [of _ "l @ k"]) auto
  qed (use run m1 l in \<open>auto simp: andthen_def\<close>)
qed

lemmas all_calls_step = all_calls_andthen [where R = "\<lambda>_. True"]
lemmas all_calls_intros = all_calls_step all_calls_ret all_calls_quiet all_calls_leave all_calls_sys

text \<open>What \<^verbatim>\<open>convert_address\<close> yields.\<close>

definition converted :: "netlib \<Rightarrow> string \<Rightarrow> sockaddr \<Rightarrow> bool" where
  "converted lib address addr \<longleftrightarrow> (\<forall>port. server_address lib address port
     = (addr\<lparr>ss_port := htons port\<rparr>, if ss_family addr = AF_INET then sizeof_sockaddr_in else sizeof_sockaddr_in6))"

lemma convert_address_calls: "all_calls P (convert_address lib address) (converted lib address)"
  unfolding convert_address_def converted_def
  by (auto simp: server_address_def zero_addr_def split: option.split intro!: all_calls_intros)

lemma socket_bind_calls:
  assumes "converted lib address addr"
  shows "all_calls (addresses (server_address lib address port)) (socket_bind lib fd addr port) (\<lambda>_. True)"
proof -
  have "addresses (server_address lib address port)
      (C_bind fd (addr\<lparr>ss_port := htons port\<rparr>) (if ss_family addr = AF_INET then sizeof_sockaddr_in else sizeof_sockaddr_in6))"
    using assms by (auto simp: converted_def)
  then show ?thesis unfolding socket_bind_def Let_def by (auto intro!: all_calls_intros split: option.split)
qed

lemma socket_connect_calls:
  assumes "converted lib address addr"
  shows "all_calls (addresses (server_address lib address port)) (socket_connect lib fd addr port) (\<lambda>_. True)"
proof -
  have "addresses (server_address lib address port)
      (C_connect fd (addr\<lparr>ss_port := htons port\<rparr>) (if ss_family addr = AF_INET then sizeof_sockaddr_in else sizeof_sockaddr_in6))"
    using assms by (auto simp: converted_def)
  then show ?thesis unfolding socket_connect_def Let_def by (auto intro!: all_calls_intros split: option.split)
qed

lemma other_calls:
  "all_calls (addresses t) (socket_create d y p) (\<lambda>_. True)" "all_calls (addresses t) (start_listening fd b) (\<lambda>_. True)"
  "all_calls (addresses t) setup_signal_handler (\<lambda>_. True)" "all_calls (addresses t) (shutdown_socket fd how) (\<lambda>_. True)"
  "all_calls (addresses t) (socket_close fd) (\<lambda>_. True)" "all_calls (addresses t) (socket_accept_connection lib fd) (\<lambda>_. True)"
  "all_calls (addresses t) (setsockopt_accept_connection fd) (\<lambda>_. True)"
  unfolding socket_create_def start_listening_def setup_signal_handler_def shutdown_socket_def socket_close_def
    socket_accept_connection_def setsockopt_accept_connection_def Let_def
  by (auto intro!: all_calls_intros split: option.split)

lemma all_calls_flag: "(\<And>st. \<exists>m. all_calls P m Q \<and> f st = m st) \<Longrightarrow> all_calls P f Q"
  unfolding all_calls_def by metis

lemma accept_loop_calls:
  assumes "all_calls P accept (\<lambda>_. True)" "\<And>fd. all_calls P (serve fd) (\<lambda>_. True)"
  shows "all_calls P (accept_loop n accept serve) (\<lambda>_. True)"
proof (induction n)
  case 0
  show ?case by (simp add: all_calls_def)
next
  case (Suc n)
  have stop: "all_calls P (\<lambda>st. (Val (), st)) (\<lambda>_. True)" by (simp add: all_calls_def)
  have "all_calls P (\<lambda>st. if c = - 1 then (if nt_flag st then (Val (), st) else accept_loop n accept serve st)
      else andthen (serve c) (\<lambda>_. accept_loop n accept serve) st) (\<lambda>_. True)" for c
  proof (rule all_calls_flag)
    fix st
    show "\<exists>m. all_calls P m (\<lambda>_. True) \<and> (if c = - 1 then (if nt_flag st then (Val (), st) else accept_loop n accept serve st)
      else andthen (serve c) (\<lambda>_. accept_loop n accept serve) st) = m st"
      using stop Suc all_calls_step [OF assms(2) Suc] by auto
  qed
  then have go: "all_calls P (andthen accept (\<lambda>c st. if c = - 1 then (if nt_flag st then (Val (), st) else accept_loop n accept serve st)
      else andthen (serve c) (\<lambda>_. accept_loop n accept serve) st)) (\<lambda>_. True)" by (rule all_calls_step [OF assms(1)])
  show ?case
  proof (rule all_calls_flag)
    fix st
    show "\<exists>m. all_calls P m (\<lambda>_. True) \<and> accept_loop (Suc n) accept serve st = m st"
      using stop go by (cases "nt_flag st") auto
  qed
qed

lemma accept_connections_calls:
  assumes "all_calls P accept (\<lambda>_. True)" "\<And>fd. all_calls P (serve fd) (\<lambda>_. True)"
  shows "all_calls P (accept_connections accept serve) (\<lambda>_. True)"
proof (rule all_calls_flag)
  fix st
  show "\<exists>m. all_calls P m (\<lambda>_. True) \<and> accept_connections accept serve st = m st"
    by (rule exI [of _ "accept_loop (Suc (length (nt_env st))) accept serve"], rule conjI [OF accept_loop_calls [OF assms]])
      (rule accept_connections_def)
qed

lemma connect_loop_calls: "all_calls (addresses t) (connect_loop n fd) (\<lambda>_. True)"
proof (induction n)
  case 0
  show ?case by (simp add: all_calls_def)
next
  case (Suc n)
  then show ?case by (auto intro!: all_calls_intros split: answer.split list.split)
qed

lemma listen_serve_calls: "all_calls (addresses t) (listen_serve message fd) (\<lambda>_. True)"
proof -
  have "all_calls (addresses t) (listen_handle_connection fd message) (\<lambda>_. True)"
    by (induction message) (auto intro!: all_calls_intros split: answer.split)
  then show ?thesis unfolding listen_serve_def by (auto intro!: all_calls_step other_calls)
qed

lemma print_all_options_calls:
  "(\<forall>(name, level, opt, print) \<in> set options.
      print \<in> {print_socket_opt_bool, print_socket_opt_int, print_socket_opt_timeval, print_socket_opt_linger})
    \<Longrightarrow> all_calls (addresses t) (print_all_options lib fd options) (\<lambda>_. True)"
proof (induction options)
  case (Cons x options)
  then show ?case
    by (cases x) (auto simp: print_socket_opt_bool_def print_socket_opt_int_def print_socket_opt_timeval_def
        print_socket_opt_linger_def option_error_def intro!: all_calls_intros split: answer.split)
qed (simp add: all_calls_ret)

lemmas main_calls = all_calls_andthen [OF convert_address_calls] all_calls_step [OF other_calls(1)]
  all_calls_step [OF socket_bind_calls] all_calls_step [OF socket_connect_calls] all_calls_step [OF other_calls(2)]
  all_calls_step [OF other_calls(3)] all_calls_step [OF other_calls(4)] all_calls_step [OF other_calls(5)] all_calls_leave

lemma bind_connect_calls:
  "all_calls (addresses (server_address lib address port)) (bind_main lib address port) (\<lambda>_. True)"
  "all_calls (addresses (server_address lib address port)) (shutdown_client_main lib address port) (\<lambda>_. True)"
  "all_calls (addresses (server_address lib address port)) (setsockopt_client_main lib address port) (\<lambda>_. True)"
  unfolding bind_main_def shutdown_client_main_def setsockopt_client_main_def by (auto intro!: main_calls)

lemma connect_main_calls:
  "all_calls (addresses (server_address lib address port)) (connect_main lib address port) (\<lambda>_. True)"
proof -
  have "all_calls (addresses t) (\<lambda>st. connect_loop (Suc (length (nt_env st))) fd st) (\<lambda>_. True)" for t fd
    by (rule all_calls_flag) (rule exI, rule conjI [OF connect_loop_calls refl])
  note loop = all_calls_step [OF this]
  show ?thesis unfolding connect_main_def by (auto intro!: main_calls loop simp del: connect_loop.simps)
qed

lemma server_mains_calls:
  "all_calls (addresses (server_address lib address port)) (listen_main lib address port backlog message) (\<lambda>_. True)"
  "all_calls (addresses (server_address lib address port)) (shutdown_server_main lib address port) (\<lambda>_. True)"
  "all_calls (addresses (server_address lib address port)) (setsockopt_server_main lib address port) (\<lambda>_. True)"
proof -
  have serve: "all_calls (addresses t) (shutdown_serve fd) (\<lambda>_. True)" for t fd
    unfolding shutdown_serve_def by (auto intro!: main_calls other_calls)
  note loops = all_calls_step [OF accept_connections_calls [OF other_calls(6) listen_serve_calls]]
    all_calls_step [OF accept_connections_calls [OF other_calls(6) serve]]
    all_calls_step [OF accept_connections_calls [OF other_calls(7) other_calls(5)]]
  show "all_calls (addresses (server_address lib address port)) (listen_main lib address port backlog message) (\<lambda>_. True)"
    unfolding listen_main_def by (auto intro!: main_calls loops)
  show "all_calls (addresses (server_address lib address port)) (shutdown_server_main lib address port) (\<lambda>_. True)"
    unfolding shutdown_server_main_def by (auto intro!: main_calls loops)
  show "all_calls (addresses (server_address lib address port)) (setsockopt_server_main lib address port) (\<lambda>_. True)"
    unfolding setsockopt_server_main_def by (auto intro!: main_calls loops all_calls_step [OF all_calls_sys] all_calls_step [OF all_calls_quiet(2)])
qed

lemma getsockopt_main_calls:
  "all_calls (addresses (server_address lib address port)) (getsockopt_main lib address port) (\<lambda>_. True)"
proof -
  have "all_calls (addresses t) (print_all_options lib fd socket_options) (\<lambda>_. True)" for t fd
    by (rule print_all_options_calls) (simp add: socket_options_def)
  note loop = all_calls_step [OF this]
  show ?thesis unfolding getsockopt_main_def by (auto intro!: main_calls loop)
qed

lemma udp_mains_calls:
  "all_calls (addresses (server_address lib address port)) (sendto_client_main lib address port message) (\<lambda>_. True)"
  "all_calls (addresses (server_address lib address port)) (recvfrom_server_main lib address port buffer) (\<lambda>_. True)"
proof -
  let ?t = "server_address lib address port"
  have "all_calls (addresses ?t) (sendto_convert_address lib address)
      (\<lambda>(addr, len). (get_address_to_server addr port, len) = ?t)"
    unfolding sendto_convert_address_def
    by (auto simp: server_address_def zero_addr_def get_address_to_server_def split: option.split intro!: all_calls_intros)
  note step = all_calls_andthen [OF this]
  show "all_calls (addresses ?t) (sendto_client_main lib address port message) (\<lambda>_. True)"
    unfolding sendto_client_main_def
    by (auto intro!: step main_calls all_calls_step [OF all_calls_sys] all_calls_step [OF all_calls_quiet(1)]
        all_calls_step [OF all_calls_quiet(2)] split: answer.split)
  show "all_calls (addresses ?t) (recvfrom_server_main lib address port buffer) (\<lambda>_. True)"
    unfolding recvfrom_server_main_def handle_packet_def Let_def
    by (auto intro!: main_calls all_calls_step [OF all_calls_sys] all_calls_step [OF all_calls_quiet(1)]
        all_calls_step [OF all_calls_quiet(2)] split: answer.split)
qed

lemmas mains_calls = bind_connect_calls connect_main_calls server_mains_calls getsockopt_main_calls udp_mains_calls

section \<open>Theorems about the programs\<close>

text \<open>C12. Whatever the kernel answers, and whenever SIGINT comes, none of these programs closes a descriptor that is
  not open, none of them stops but for a call that is not answered, and when one of them exits with success
  every socket it created or accepted has been closed.\<close>

theorem net_programs_close:
  assumes "prog \<in> {socket_main address_family socket_type, bind_main lib address port, connect_main lib address port,
      listen_main lib address port backlog message, shutdown_server_main lib address port,
      shutdown_client_main lib address port, setsockopt_server_main lib address port, setsockopt_client_main lib address port,
      getsockopt_main lib address port, sendto_client_main lib address port message,
      recvfrom_server_main lib address port buffer, read_write_server_main lib junk, send_recv_server_main lib junk,
      read_write_client_main fopen file, send_recv_client_main fopen file}"
    and run: "prog (net_start env) = (r, st)"
  shows "proper (nt_log st) {#} \<and> (r = Blocked \<longrightarrow> nt_env st = [])
    \<and> (r = Exit EXIT_SUCCESS \<longrightarrow> open_fds (nt_log st) {#} = {#}) \<and> r \<noteq> Val ()"
proof -
  have "balanced {#} prog (\<lambda>_ _. False)" using assms(1) by (elim insertE emptyE) (simp_all add: mains_balanced)
  from balancedD [OF this run] show ?thesis by (auto simp: fd_account_def net_start_def)
qed

definition demo_lib :: netlib where
  "demo_lib = \<lparr>inet_pton = \<lambda>f s. if f = AF_INET then Some [127, 0, 0, 1] else None,
     inet_ntop = \<lambda>f b. Some ''127.0.0.1'', getnameinfo = \<lambda>a. None, c_strerror = \<lambda>e. ''?''\<rparr>"

lemma net_programs_close_witness:
  "\<exists>st. bind_main demo_lib ''localhost'' 80 (net_start [(A_fd 3 zero_addr, False), (A_ok, False), (A_ok, False)]) = (Exit 0, st)
    \<and> open_fds (nt_log st) {#} = {#}"
proof -
  let ?run = "bind_main demo_lib ''localhost'' 80 (net_start [(A_fd 3 zero_addr, False), (A_ok, False), (A_ok, False)])"
  have "fst ?run = Exit 0" by code_simp
  then obtain st where "?run = (Exit 0, st)" by (cases ?run) simp
  with net_programs_close [where prog = "bind_main demo_lib ''localhost'' 80" and lib = demo_lib and address = "''localhost''" and port = 80]
  show ?thesis by auto
qed

text \<open>All the programs agree on an address: what \<^verbatim>\<open>bind\<close>, \<^verbatim>\<open>connect\<close> and \<^verbatim>\<open>sendto\<close> are given in any run is the
  reference address of the two arguments, so that a client reaches the server started with the same arguments,
  and its port read in host order is the argument.\<close>

theorem net_programs_agree:
  assumes "prog \<in> {bind_main lib address port, connect_main lib address port, listen_main lib address port backlog message,
      shutdown_server_main lib address port, shutdown_client_main lib address port, setsockopt_server_main lib address port,
      setsockopt_client_main lib address port, getsockopt_main lib address port, sendto_client_main lib address port message,
      recvfrom_server_main lib address port buffer}"
    and "prog (net_start env) = (r, st)"
    and "(C_bind fd addr len, a) \<in> set (nt_log st) \<or> (C_connect fd addr len, a) \<in> set (nt_log st)
      \<or> (C_sendto fd msg addr len, a) \<in> set (nt_log st)"
  shows "(addr, len) = server_address lib address port \<and> htons (ss_port addr) = port"
proof -
  have "all_calls (addresses (server_address lib address port)) prog (\<lambda>_. True)"
    using assms(1) by (elim insertE emptyE) (simp_all add: mains_calls)
  with assms(2) have "\<forall>x \<in> set (nt_log st). addresses (server_address lib address port) (fst x)"
    by (fastforce simp: all_calls_def net_start_def)
  with assms(3) have "(addr, len) = server_address lib address port" by fastforce
  moreover have "ss_port (fst (server_address lib address port)) = htons port"
    by (simp add: server_address_def split: option.split)
  ultimately show ?thesis by (metis fst_conv htons_htons)
qed

lemma net_programs_agree_witness:
  "server_address demo_lib ''localhost'' 80 = (\<lparr>ss_family = 2, ss_addr = [127, 0, 0, 1], ss_port = htons 80, ss_path = []\<rparr>, 16)"
proof -
  let ?addr = "\<lparr>ss_family = 2, ss_addr = [127, 0, 0, 1], ss_port = htons 80, ss_path = []\<rparr>"
  let ?run = "bind_main demo_lib ''localhost'' 80 (net_start [(A_fd 3 zero_addr, False), (A_ok, False), (A_ok, False)])"
  have "(C_bind 3 ?addr 16, A_ok) \<in> set (nt_log (snd ?run))" by code_simp
  then show ?thesis
    using net_programs_agree [of "bind_main demo_lib ''localhost'' 80" demo_lib "''localhost''" 80 0 "[]" "[]"
        "[(A_fd 3 zero_addr, False), (A_ok, False), (A_ok, False)]" "fst ?run" "snd ?run" 3 ?addr 16 A_ok "[]"]
    by simp
qed

text \<open>SIGINT while a server waits in \<^verbatim>\<open>accept\<close>: the servers of \<^verbatim>\<open>listen-accept\<close> and \<^verbatim>\<open>shutdown\<close> leave their
  loop, close the listening socket and exit with success; the server of \<^verbatim>\<open>setsockopt\<close> takes the interrupted
  call for an error and exits with failure, so that its orderly end is never reached that way.\<close>

theorem servers_sigint:
  assumes "inet_pton lib AF_INET address = Some b" "inet_ntop lib AF_INET b = Some name" "s \<noteq> - 1"
  shows "fst (listen_main lib address port backlog message (net_start
        [(A_fd s x, False), (A_ok, False), (A_ok, False), (A_ok, False), (A_err EINTR, True), (A_ok, False)])) = Exit EXIT_SUCCESS
    \<and> fst (shutdown_server_main lib address port (net_start
        [(A_fd s x, False), (A_ok, False), (A_ok, False), (A_ok, False), (A_err EINTR, True), (A_ok, False), (A_ok, False)])) = Exit EXIT_SUCCESS
    \<and> (\<exists>st. setsockopt_server_main lib address port (net_start
        [(A_fd s x, False), (A_ok, False), (A_ok, False), (A_ok, False), (A_ok, False), (A_err EINTR, True), (A_ok, False)]) = (Exit EXIT_FAILURE, st)
      \<and> nt_err st = [Perror ''accept failed''])"
  using assms
  by (simp add: listen_main_def shutdown_server_main_def setsockopt_server_main_def convert_address_def socket_create_def
      socket_bind_def start_listening_def setup_signal_handler_def accept_connections_def socket_accept_connection_def
      setsockopt_accept_connection_def shutdown_socket_def socket_close_def andthen_def ret_def say_line_def complain_def leave_def
      ask_def net_start_def zero_addr_def)

lemma servers_sigint_witness:
  "fst (listen_main demo_lib ''localhost'' 80 5 ''hi'' (net_start
      [(A_fd 3 zero_addr, False), (A_ok, False), (A_ok, False), (A_ok, False), (A_err 4, True), (A_ok, False)])) = Exit 0"
proof -
  have "inet_pton demo_lib 2 ''localhost'' = Some [127, 0, 0, 1]" "inet_ntop demo_lib 2 [127, 0, 0, 1] = Some ''127.0.0.1''"
    by (simp_all add: demo_lib_def)
  from servers_sigint [OF this, of 3 80 5 "''hi''" zero_addr] show ?thesis by simp
qed

end
