(* ===== verification/Sort_Search.thy ===== *)
theory Sort_Search
  imports Number_Parse "HOL-Library.Multiset"
begin

text \<open>
  \<^verbatim>\<open>src/sorting-searching\<close>: the two comparison functions, \<^verbatim>\<open>find_index\<close> and the programs that sort an array
  with \<^verbatim>\<open>qsort\<close> and look a number up with \<^verbatim>\<open>bsearch\<close>. A comparison function returns an \<^verbatim>\<open>int\<close>, or is
  undefined when its arithmetic overflows. The C library leaves the algorithms open, so
  \<^verbatim>\<open>qsort\<close> and \<^verbatim>\<open>bsearch\<close> are arguments of the programs, and the contract of the C standard
  (7.22.5) is what is assumed of them; the locale \<open>sorting_library\<close> states it, and an insertion sort and
  a binary search fulfil it.
\<close>

section \<open>The comparison functions\<close>

definition is_int :: "int \<Rightarrow> bool" where
  "is_int v \<longleftrightarrow> INT_MIN \<le> v \<and> v \<le> INT_MAX"

text \<open>\<^verbatim>\<open>intcmp\<close> of the \<^verbatim>\<open>bsearch\<close> program: three branches.\<close>

definition bsearch_intcmp :: "int \<Rightarrow> int \<Rightarrow> int result" where
  "bsearch_intcmp lhs rhs =
     (if lhs < rhs then Returns (- 1) else if rhs < lhs then Returns 1 else Returns 0)"

text \<open>\<^verbatim>\<open>intcmp\<close> of the \<^verbatim>\<open>qsort\<close> program: a subtraction of two \<^verbatim>\<open>int\<close>s.\<close>

definition qsort_intcmp :: "int \<Rightarrow> int \<Rightarrow> int result" where
  "qsort_intcmp a b = (if is_int (a - b) then Returns (a - b) else Undef)"

section \<open>What the C library promises\<close>

type_synonym comparison = "int \<Rightarrow> int \<Rightarrow> int result"

text \<open>On the elements of a set the comparison is defined and orders them as a key does.\<close>

definition orders :: "comparison \<Rightarrow> int set \<Rightarrow> bool" where
  "orders cmp A \<longleftrightarrow>
     (\<forall>a \<in> A. \<forall>b \<in> A. \<exists>r. cmp a b = Returns r)
     \<and> (\<forall>a \<in> A. \<forall>b \<in> A. \<forall>r s. cmp a b = Returns r \<longrightarrow> cmp b a = Returns s \<longrightarrow> sgn s = - sgn r)
     \<and> (\<forall>a \<in> A. \<forall>b \<in> A. \<forall>c \<in> A. \<forall>r s t. cmp a b = Returns r \<longrightarrow> cmp b c = Returns s \<longrightarrow> cmp a c = Returns t
          \<longrightarrow> r \<le> 0 \<longrightarrow> s \<le> 0 \<longrightarrow> t \<le> 0)"

definition not_after :: "comparison \<Rightarrow> int \<Rightarrow> int \<Rightarrow> bool" where
  "not_after cmp a b \<longleftrightarrow> (case cmp a b of Returns r \<Rightarrow> r \<le> 0 | _ \<Rightarrow> False)"

definition is_match :: "comparison \<Rightarrow> int \<Rightarrow> int \<Rightarrow> bool" where
  "is_match cmp a b \<longleftrightarrow> cmp a b = Returns 0"

text \<open>\<^verbatim>\<open>qsort\<close> permutes the array into the order of the comparison; \<^verbatim>\<open>bsearch\<close> returns the position of
  some element that matches, if there is one. Nothing is promised for a comparison that is undefined or
  inconsistent, or for an array that is not in order.\<close>

locale sorting_library =
  fixes qsort :: "comparison \<Rightarrow> int list \<Rightarrow> int list result"
    and bsearch :: "comparison \<Rightarrow> int \<Rightarrow> int list \<Rightarrow> nat option result"
  assumes qsort_sorts: "orders cmp (set xs)
      \<Longrightarrow> \<exists>ys. qsort cmp xs = Returns ys \<and> mset ys = mset xs \<and> sorted_wrt (not_after cmp) ys"
    and bsearch_finds: "orders cmp (insert key (set xs)) \<Longrightarrow> sorted_wrt (not_after cmp) xs \<Longrightarrow> i < length xs
      \<Longrightarrow> is_match cmp key (xs ! i) \<Longrightarrow> \<exists>j < length xs. bsearch cmp key xs = Returns (Some j) \<and> is_match cmp key (xs ! j)"
    and bsearch_misses: "orders cmp (insert key (set xs)) \<Longrightarrow> sorted_wrt (not_after cmp) xs
      \<Longrightarrow> (\<forall>i < length xs. \<not> is_match cmp key (xs ! i)) \<Longrightarrow> bsearch cmp key xs = Returns None"
begin

lemma qsort_is_sort:
  assumes "orders cmp (set xs)" "\<And>a b. a \<in> set xs \<Longrightarrow> b \<in> set xs \<Longrightarrow> not_after cmp a b \<longleftrightarrow> a \<le> b"
  shows "qsort cmp xs = Returns (sort xs)"
proof -
  obtain ys where ys: "qsort cmp xs = Returns ys" "mset ys = mset xs" "sorted_wrt (not_after cmp) ys"
    using qsort_sorts [OF assms(1)] by blast
  then have "set ys = set xs" by (metis set_mset_mset)
  with ys(3) assms(2) have "sorted_wrt (\<le>) ys" by (metis sorted_wrt_mono_rel)
  with ys(2) have "sort xs = ys" by (intro properties_for_sort) auto
  with ys(1) show ?thesis by simp
qed

end

section \<open>The programs\<close>

text \<open>The loop that prints an array.\<close>

fun print_array :: "int list \<Rightarrow> string" where
  "print_array [] = [NL]"
| "print_array (x # xs) = dec_int x @ '' '' @ print_array xs"

definition sort_array :: "int list" where
  "sort_array = [5, 2, 8, 1, 3]"

definition qsort_main :: "(comparison \<Rightarrow> int list \<Rightarrow> int list result) \<Rightarrow> string result" where
  "qsort_main qsort =
     bind_result (qsort qsort_intcmp sort_array) (\<lambda>arr.
       Returns (''Original array: '' @ print_array sort_array @ ''Sorted array: '' @ print_array arr))"

text \<open>\<^verbatim>\<open>find_index\<close> compares addresses; a pointer to an element of the array is its position.\<close>

function find_index_from :: "nat \<Rightarrow> nat \<Rightarrow> nat \<Rightarrow> nat" where
  "find_index_from i n element =
     (if i < n then (if i = element then i else find_index_from (Suc i) n element) else n)"
  by auto

termination
  by (relation "measure (\<lambda>(i, n, e). n - i)") auto

declare find_index_from.simps [simp del]

definition find_index :: "int list \<Rightarrow> nat \<Rightarrow> nat \<Rightarrow> nat" where
  "find_index arr n element = find_index_from 0 n element"

definition bsearch_main :: "(comparison \<Rightarrow> int list \<Rightarrow> int list result)
    \<Rightarrow> (comparison \<Rightarrow> int \<Rightarrow> int list \<Rightarrow> nat option result) \<Rightarrow> string result" where
  "bsearch_main qsort bsearch =
     bind_result (qsort bsearch_intcmp sort_array) (\<lambda>arr.
       let target = 3 in
       bind_result (bsearch bsearch_intcmp target arr) (\<lambda>found.
         Returns (''Unsorted array: '' @ print_array sort_array @ ''Sorted array: '' @ print_array arr
           @ (case found of
                Some element \<Rightarrow> ''Element '' @ dec_int target @ '' found at index ''
                  @ dec_nat (find_index arr (length arr) element) @ [NL]
              | None \<Rightarrow> ''Element '' @ dec_int target @ '' not found'' @ [NL]))))"

section \<open>Lemmas\<close>

lemma find_index_from_spec: "i \<le> element \<Longrightarrow> find_index_from i n element = (if element < n then element else n)"
  by (induction i n element rule: find_index_from.induct) (subst find_index_from.simps, auto)

lemma find_index_spec: "find_index arr n element = (if element < n then element else n)"
  by (simp add: find_index_def find_index_from_spec)

lemma bsearch_intcmp_not_after: "not_after bsearch_intcmp a b \<longleftrightarrow> a \<le> b"
  by (simp add: not_after_def bsearch_intcmp_def)

lemma bsearch_intcmp_is_match: "is_match bsearch_intcmp a b \<longleftrightarrow> a = b"
  by (simp add: is_match_def bsearch_intcmp_def)

lemma bsearch_intcmp_orders: "orders bsearch_intcmp A"
  by (auto simp: orders_def bsearch_intcmp_def split: if_splits)

text \<open>The subtraction orders a set of numbers when no difference of two of them overflows.\<close>

definition differences_fit :: "int set \<Rightarrow> bool" where
  "differences_fit A \<longleftrightarrow> (\<forall>a \<in> A. \<forall>b \<in> A. is_int (a - b))"

lemma qsort_intcmp_orders: "differences_fit A \<Longrightarrow> orders qsort_intcmp A"
  by (auto simp: orders_def qsort_intcmp_def differences_fit_def sgn_if split: if_splits)

lemma qsort_intcmp_not_after:
  "differences_fit A \<Longrightarrow> a \<in> A \<Longrightarrow> b \<in> A \<Longrightarrow> not_after qsort_intcmp a b \<longleftrightarrow> a \<le> b"
  by (auto simp: differences_fit_def not_after_def qsort_intcmp_def)

lemma sort_array_differences: "differences_fit (set sort_array)"
  by (simp add: differences_fit_def sort_array_def is_int_def c_limits)

lemma sort_sort_array: "sort sort_array = [1, 2, 3, 5, 8]"
  by (simp add: sort_array_def)

context sorting_library
begin

lemma qsort_numbers: "qsort bsearch_intcmp xs = Returns (sort xs)"
  by (rule qsort_is_sort [OF bsearch_intcmp_orders bsearch_intcmp_not_after])

lemma qsort_differences:
  "differences_fit (set xs) \<Longrightarrow> qsort qsort_intcmp xs = Returns (sort xs)"
  by (rule qsort_is_sort [OF qsort_intcmp_orders qsort_intcmp_not_after])

lemma bsearch_numbers:
  assumes "sorted xs" "distinct xs" "i < length xs"
  shows "bsearch bsearch_intcmp (xs ! i) xs = Returns (Some i)"
proof -
  have "sorted_wrt (not_after bsearch_intcmp) xs"
    using assms(1) by (simp add: bsearch_intcmp_not_after [abs_def])
  then obtain j where "j < length xs" "bsearch bsearch_intcmp (xs ! i) xs = Returns (Some j)" "xs ! i = xs ! j"
    using bsearch_finds [OF bsearch_intcmp_orders, of xs i "xs ! i"] assms(3)
    by (auto simp: bsearch_intcmp_is_match)
  with assms(2,3) show ?thesis by (simp add: nth_eq_iff_index_eq)
qed

end

section \<open>A library that fulfils the contract\<close>

fun insert_by :: "comparison \<Rightarrow> int \<Rightarrow> int list \<Rightarrow> int list result" where
  "insert_by cmp x [] = Returns [x]"
| "insert_by cmp x (y # ys) =
     bind_result (cmp x y) (\<lambda>r.
       if r \<le> 0 then Returns (x # y # ys) else bind_result (insert_by cmp x ys) (\<lambda>zs. Returns (y # zs)))"

fun insertion_sort :: "comparison \<Rightarrow> int list \<Rightarrow> int list result" where
  "insertion_sort cmp [] = Returns []"
| "insertion_sort cmp (x # xs) = bind_result (insertion_sort cmp xs) (insert_by cmp x)"

lemma half_length: "length xs \<le> length xs div 2 \<Longrightarrow> xs = []"
  by (cases xs) auto

function halving_search :: "comparison \<Rightarrow> int \<Rightarrow> nat \<Rightarrow> int list \<Rightarrow> nat option result" where
  "halving_search cmp key off xs =
     (if xs = [] then Returns None
      else case cmp key (xs ! (length xs div 2)) of
             Returns r \<Rightarrow>
               if r = 0 then Returns (Some (off + length xs div 2))
               else if r < 0 then halving_search cmp key off (take (length xs div 2) xs)
               else halving_search cmp key (off + Suc (length xs div 2)) (drop (Suc (length xs div 2)) xs)
           | Exits n e \<Rightarrow> Exits n e
           | Undef \<Rightarrow> Undef
           | Blocks \<Rightarrow> Blocks)"
  by auto

termination
  by (relation "measure (\<lambda>(cmp, key, off, xs). length xs)") (auto simp: min_def dest: half_length)

declare halving_search.simps [simp del]

definition binary_search :: "comparison \<Rightarrow> int \<Rightarrow> int list \<Rightarrow> nat option result" where
  "binary_search cmp key xs = halving_search cmp key 0 xs"

lemma orders_defined: "orders cmp A \<Longrightarrow> a \<in> A \<Longrightarrow> b \<in> A \<Longrightarrow> \<exists>r. cmp a b = Returns r"
  by (simp add: orders_def)

lemma orders_swap:
  "orders cmp A \<Longrightarrow> a \<in> A \<Longrightarrow> b \<in> A \<Longrightarrow> cmp a b = Returns r \<Longrightarrow> \<exists>s. cmp b a = Returns s \<and> sgn s = - sgn r"
  unfolding orders_def by metis

lemma orders_trans:
  assumes "orders cmp A" "a \<in> A" "b \<in> A" "c \<in> A" "not_after cmp a b" "not_after cmp b c"
  shows "not_after cmp a c"
proof -
  obtain r s t where c: "cmp a b = Returns r" "cmp b c = Returns s" "cmp a c = Returns t"
    using orders_defined [OF assms(1)] assms(2-4) by meson
  with assms show ?thesis unfolding orders_def not_after_def by simp
qed

lemma orders_after:
  assumes "orders cmp A" "a \<in> A" "b \<in> A" "cmp a b = Returns r"
  shows "not_after cmp b a \<longleftrightarrow> 0 \<le> r"
proof -
  obtain s where s: "cmp b a = Returns s" "sgn s = - sgn r" using orders_swap [OF assms] by blast
  then show ?thesis by (auto simp: not_after_def sgn_if split: if_splits)
qed

lemma orders_mono: "orders cmp B \<Longrightarrow> A \<subseteq> B \<Longrightarrow> orders cmp A"
  unfolding orders_def by (elim conjE, intro conjI) (meson subsetD)+

lemma insert_by_spec:
  assumes "orders cmp (insert x (set ys))" "sorted_wrt (not_after cmp) ys"
  shows "\<exists>zs. insert_by cmp x ys = Returns zs \<and> mset zs = add_mset x (mset ys) \<and> sorted_wrt (not_after cmp) zs"
  using assms
proof (induction ys)
  case (Cons y ys)
  note ord = Cons.prems(1)
  obtain r where r: "cmp x y = Returns r" using orders_defined [OF ord] by fastforce
  show ?case
  proof (cases "r \<le> 0")
    case True
    then have xy: "not_after cmp x y" using r by (simp add: not_after_def)
    have "not_after cmp x z" if "z \<in> set ys" for z
      using orders_trans [OF ord, of x y z] xy Cons.prems(2) that by simp
    with True r xy Cons.prems(2) show ?thesis by simp
  next
    case False
    have "orders cmp (insert x (set ys))" by (rule orders_mono [OF ord]) auto
    then obtain zs where zs: "insert_by cmp x ys = Returns zs" "mset zs = add_mset x (mset ys)"
        "sorted_wrt (not_after cmp) zs"
      using Cons.IH Cons.prems(2) by auto
    then have "set zs = insert x (set ys)" by (metis set_mset_add_mset_insert set_mset_mset)
    moreover have "not_after cmp y x" using orders_after [OF ord _ _ r] False by simp
    ultimately show ?thesis using False r zs Cons.prems(2) by simp
  qed
qed simp

lemma insertion_sort_spec:
  "orders cmp (set xs) \<Longrightarrow>
     \<exists>ys. insertion_sort cmp xs = Returns ys \<and> mset ys = mset xs \<and> sorted_wrt (not_after cmp) ys"
proof (induction xs)
  case (Cons x xs)
  have "orders cmp (set xs)" by (rule orders_mono [OF Cons.prems]) auto
  then obtain ys where ys: "insertion_sort cmp xs = Returns ys" "mset ys = mset xs" "sorted_wrt (not_after cmp) ys"
    using Cons.IH by blast
  then have "set ys = set xs" by (metis set_mset_mset)
  with insert_by_spec [of cmp x ys] Cons.prems ys show ?case by simp
qed simp

text \<open>An element that matches lies on the side of the middle that the comparison tells.\<close>

lemma match_below:
  assumes "orders cmp (insert key (set xs))" "sorted_wrt (not_after cmp) xs" "m < length xs"
    and "cmp key (xs ! m) = Returns r" "r < 0" "i < length xs" "is_match cmp key (xs ! i)"
  shows "i < m"
proof (rule ccontr)
  assume "\<not> i < m"
  moreover have "i \<noteq> m" using assms(4,5,7) by (auto simp: is_match_def)
  ultimately have "not_after cmp (xs ! m) (xs ! i)" using assms(2,6) by (simp add: sorted_wrt_iff_nth_less)
  moreover have "not_after cmp (xs ! i) key"
    using orders_after [OF assms(1), of key "xs ! i" 0] assms(6,7) by (simp add: is_match_def)
  ultimately have "not_after cmp (xs ! m) key"
    using orders_trans [OF assms(1), of "xs ! m" "xs ! i" key] assms(3,6) by simp
  then show False using orders_after [OF assms(1), of key "xs ! m" r] assms(3-5) by simp
qed

lemma match_above:
  assumes "orders cmp (insert key (set xs))" "sorted_wrt (not_after cmp) xs" "m < length xs"
    and "cmp key (xs ! m) = Returns r" "0 < r" "i < length xs" "is_match cmp key (xs ! i)"
  shows "m < i"
proof (rule ccontr)
  assume "\<not> m < i"
  moreover have "i \<noteq> m" using assms(4,5,7) by (auto simp: is_match_def)
  ultimately have "not_after cmp (xs ! i) (xs ! m)" using assms(2,3) by (simp add: sorted_wrt_iff_nth_less)
  moreover have "not_after cmp key (xs ! i)" using assms(7) by (simp add: not_after_def is_match_def)
  ultimately have "not_after cmp key (xs ! m)"
    using orders_trans [OF assms(1), of key "xs ! i" "xs ! m"] assms(3,6) by simp
  then show False using assms(4,5) by (simp add: not_after_def)
qed

definition search_result :: "comparison \<Rightarrow> int \<Rightarrow> nat \<Rightarrow> int list \<Rightarrow> nat option result \<Rightarrow> bool" where
  "search_result cmp key off xs res \<longleftrightarrow>
     (res = Returns None \<and> (\<forall>i < length xs. \<not> is_match cmp key (xs ! i)))
     \<or> (\<exists>j < length xs. res = Returns (Some (off + j)) \<and> is_match cmp key (xs ! j))"

lemma search_result_take:
  assumes "search_result cmp key off (take m xs) res" "m < length xs"
    and "\<And>i. i < length xs \<Longrightarrow> is_match cmp key (xs ! i) \<Longrightarrow> i < m"
  shows "search_result cmp key off xs res"
proof (cases "res = Returns None")
  case True
  then have "\<not> is_match cmp key (xs ! i)" if "i < m" for i
    using assms(1,2) that by (auto simp: search_result_def)
  with True assms(3) show ?thesis by (auto simp: search_result_def)
next
  case False
  then obtain j where "j < m" "res = Returns (Some (off + j))" "is_match cmp key (xs ! j)"
    using assms(1,2) by (auto simp: search_result_def)
  then show ?thesis using assms(2) unfolding search_result_def
    by (intro disjI2 exI [of _ j]) simp
qed

lemma search_result_drop:
  assumes "search_result cmp key (off + Suc m) (drop (Suc m) xs) res" "m < length xs"
    and "\<And>i. i < length xs \<Longrightarrow> is_match cmp key (xs ! i) \<Longrightarrow> m < i"
  shows "search_result cmp key off xs res"
proof (cases "res = Returns None")
  case True
  then have "\<not> is_match cmp key (drop (Suc m) xs ! i)" if "i < length xs - Suc m" for i
    using assms(1) that by (auto simp: search_result_def)
  then have "\<not> is_match cmp key (xs ! i)" if "m < i" "i < length xs" for i
  proof -
    have "i - Suc m < length xs - Suc m" "drop (Suc m) xs ! (i - Suc m) = xs ! i" using that by auto
    with \<open>\<And>i. i < length xs - Suc m \<Longrightarrow> \<not> is_match cmp key (drop (Suc m) xs ! i)\<close> show ?thesis by metis
  qed
  with True assms(3) show ?thesis by (auto simp: search_result_def)
next
  case False
  then obtain j where "j < length xs - Suc m" "res = Returns (Some (off + Suc m + j))" "is_match cmp key (xs ! (Suc m + j))"
    using assms(1,2) by (auto simp: search_result_def)
  then show ?thesis unfolding search_result_def
    by (intro disjI2 exI [of _ "Suc m + j"]) simp
qed

lemma halving_search_spec:
  assumes "orders cmp (insert key (set xs))" "sorted_wrt (not_after cmp) xs"
  shows "search_result cmp key off xs (halving_search cmp key off xs)"
  using assms
proof (induction cmp key off xs rule: halving_search.induct)
  case (1 cmp key off xs)
  note ord = "1.prems"(1) and sorted = "1.prems"(2)
  show ?case
  proof (cases "xs = []")
    case True
    then show ?thesis by (simp add: halving_search.simps [of cmp key off "[]"] search_result_def)
  next
    case False
    let ?m = "length xs div 2"
    have m: "?m < length xs" using False by simp
    obtain r where r: "cmp key (xs ! ?m) = Returns r" using orders_defined [OF ord, of key "xs ! ?m"] m by auto
    consider "r = 0" | "r < 0" | "0 < r" by linarith
    then show ?thesis
    proof cases
      assume "r = 0"
      with False m r show ?thesis
        by (auto simp: halving_search.simps [of _ _ _ xs] search_result_def is_match_def)
    next
      assume neg: "r < 0"
      have "orders cmp (insert key (set (take ?m xs)))"
        by (rule orders_mono [OF ord]) (auto dest: in_set_takeD)
      then have "search_result cmp key off (take ?m xs) (halving_search cmp key off (take ?m xs))"
        using "1.IH"(1) [OF False r] neg sorted sorted_wrt_take by blast
      then have "search_result cmp key off xs (halving_search cmp key off (take ?m xs))"
        by (rule search_result_take [OF _ m]) (rule match_below [OF ord sorted m r neg])
      with False r neg show ?thesis by (simp add: halving_search.simps [of _ _ _ xs])
    next
      assume pos: "0 < r"
      have "orders cmp (insert key (set (drop (Suc ?m) xs)))"
        by (rule orders_mono [OF ord]) (auto dest: in_set_dropD)
      then have "search_result cmp key (off + Suc ?m) (drop (Suc ?m) xs)
          (halving_search cmp key (off + Suc ?m) (drop (Suc ?m) xs))"
        using "1.IH"(2) [OF False r] pos sorted sorted_wrt_drop by (metis order_less_asym order_less_irrefl)
      then have "search_result cmp key off xs (halving_search cmp key (off + Suc ?m) (drop (Suc ?m) xs))"
        by (rule search_result_drop [OF _ m]) (rule match_above [OF ord sorted m r pos])
      with False r pos show ?thesis by (simp add: halving_search.simps [of _ _ _ xs])
    qed
  qed
qed

lemma binary_search_spec:
  assumes "orders cmp (insert key (set xs))" "sorted_wrt (not_after cmp) xs"
  shows "search_result cmp key 0 xs (binary_search cmp key xs)"
  unfolding binary_search_def by (rule halving_search_spec [OF assms])

interpretation srt: sorting_library insertion_sort binary_search
proof
  fix cmp xs
  assume "orders cmp (set xs)"
  then show "\<exists>ys. insertion_sort cmp xs = Returns ys \<and> mset ys = mset xs \<and> sorted_wrt (not_after cmp) ys"
    by (rule insertion_sort_spec)
next
  fix cmp key xs i
  assume "orders cmp (insert key (set xs))" "sorted_wrt (not_after cmp) xs" "i < length xs" "is_match cmp key (xs ! i)"
  with binary_search_spec [of cmp key xs]
  show "\<exists>j < length xs. binary_search cmp key xs = Returns (Some j) \<and> is_match cmp key (xs ! j)"
    by (auto simp: search_result_def)
next
  fix cmp key xs
  assume "orders cmp (insert key (set xs))" "sorted_wrt (not_after cmp) xs" "\<forall>i < length xs. \<not> is_match cmp key (xs ! i)"
  with binary_search_spec [of cmp key xs] show "binary_search cmp key xs = Returns None"
    by (auto simp: search_result_def)
qed

section \<open>Theorems about the programs\<close>

lemma orders_differences: "orders qsort_intcmp A \<Longrightarrow> differences_fit A"
  by (auto simp: orders_def differences_fit_def qsort_intcmp_def split: if_splits)

text \<open>C21. With any C library that keeps the contract of \<^verbatim>\<open>qsort\<close> and \<^verbatim>\<open>bsearch\<close>: the three-way comparison
  sorts every array, and each element of a sorted array without repetitions is found where it stands; the
  subtraction orders an array exactly when no difference of two of its elements overflows, and then it sorts
  the array to the same result.\<close>

theorem comparisons_sort:
  assumes "sorting_library qsort bsearch"
  shows "qsort bsearch_intcmp xs = Returns (sort xs)
    \<and> (orders qsort_intcmp (set xs) \<longleftrightarrow> differences_fit (set xs))
    \<and> (differences_fit (set xs) \<longrightarrow> qsort qsort_intcmp xs = qsort bsearch_intcmp xs)
    \<and> (distinct xs \<longrightarrow> (\<forall>i < length xs. bsearch bsearch_intcmp (sort xs ! i) (sort xs) = Returns (Some i)
          \<and> find_index (sort xs) (length xs) i = i))"
  using assms orders_differences qsort_intcmp_orders
  by (auto simp: sorting_library.qsort_numbers sorting_library.qsort_differences
      sorting_library.bsearch_numbers find_index_spec)

lemma comparisons_sort_witness:
  "insertion_sort bsearch_intcmp [INT_MAX, 7, INT_MIN] = Returns [INT_MIN, 7, INT_MAX]
    \<and> \<not> orders qsort_intcmp {INT_MAX, 7, INT_MIN}
    \<and> binary_search bsearch_intcmp 7 [INT_MIN, 7, INT_MAX] = Returns (Some 1)"
proof -
  have s: "sort [INT_MAX, 7, INT_MIN] = [INT_MIN, 7, INT_MAX]" by (simp add: c_limits)
  have d: "distinct [INT_MAX, 7, INT_MIN]" "\<not> differences_fit {INT_MAX, 7, INT_MIN}"
    by (auto simp: c_limits differences_fit_def is_int_def)
  note c = comparisons_sort [OF srt.sorting_library_axioms, of "[INT_MAX, 7, INT_MIN]", unfolded s]
  have "binary_search bsearch_intcmp ([INT_MIN, 7, INT_MAX] ! 1) [INT_MIN, 7, INT_MAX] = Returns (Some 1)"
    using c d(1) by (metis length_Cons lessI less_Suc_eq list.size(3) One_nat_def)
  moreover have "insertion_sort bsearch_intcmp [INT_MAX, 7, INT_MIN] = Returns [INT_MIN, 7, INT_MAX]"
    using c by (elim conjE)
  moreover have "\<not> orders qsort_intcmp {INT_MAX, 7, INT_MIN}" using c d(2) by simp
  ultimately show ?thesis by simp
qed

text \<open>With any such library the two programs print the array, the sorted array, and the position of the
  number they look for.\<close>

theorem sort_programs_print:
  assumes "sorting_library qsort bsearch"
  shows "qsort_main qsort
      = Returns (''Original array: 5 2 8 1 3 '' @ [NL] @ ''Sorted array: 1 2 3 5 8 '' @ [NL])
    \<and> bsearch_main qsort bsearch
      = Returns (''Unsorted array: 5 2 8 1 3 '' @ [NL] @ ''Sorted array: 1 2 3 5 8 '' @ [NL]
          @ ''Element 3 found at index 2'' @ [NL])"
proof -
  have "bsearch bsearch_intcmp ([1, 2, 3, 5, 8] ! 2) [1, 2, 3, 5, 8] = Returns (Some 2)"
    by (rule sorting_library.bsearch_numbers [OF assms]) auto
  then have three: "bsearch bsearch_intcmp 3 [1, 2, 3, 5, 8] = Returns (Some 2)" by simp
  have digits: "dec_int 1 = ''1''" "dec_int 2 = ''2''" "dec_int 3 = ''3''" "dec_int 5 = ''5''" "dec_int 8 = ''8''"
      "dec_nat 2 = ''2''"
    by (simp_all add: dec_int_def dec_nat.simps digit_char_def char_of_def bit_Suc_0_iff)
  show ?thesis
    using sorting_library.qsort_numbers [OF assms, of sort_array]
      sorting_library.qsort_differences [OF assms sort_array_differences] three
    by (simp add: qsort_main_def bsearch_main_def sort_sort_array find_index_spec digits Let_def)
      (simp add: sort_array_def digits)
qed

lemma sort_programs_print_witness:
  "qsort_main insertion_sort
      = Returns (''Original array: 5 2 8 1 3 '' @ [NL] @ ''Sorted array: 1 2 3 5 8 '' @ [NL])"
  using sort_programs_print [OF srt.sorting_library_axioms] by simp

end
