(* ===== verification/Number_Conversion.thy ===== *)
theory Number_Conversion
  imports Number_Parse Snprintf
begin

text \<open>
  \<^verbatim>\<open>src/number-conversion\<close>: seven programs that convert strings with \<^verbatim>\<open>strtol\<close>, \<^verbatim>\<open>strtoll\<close>,
  \<^verbatim>\<open>strtoul\<close>, \<^verbatim>\<open>strtoull\<close>, \<^verbatim>\<open>strtod\<close>, \<^verbatim>\<open>strtof\<close> and \<^verbatim>\<open>strtold\<close> and report what went wrong. A run is what it
  prints on \<^verbatim>\<open>stdout\<close> and the items it prints on \<^verbatim>\<open>stderr\<close>. The conversions of integers
  are those of \<^verbatim>\<open>Number_Parse\<close>; the conversions of floating-point numbers are arguments of the
  programs, since the theorems hold whatever number is read.
\<close>

section \<open>What all the programs do\<close>

definition ERANGE :: int where "ERANGE = 34"

text \<open>\<^verbatim>\<open>errno\<close> after a conversion, which starts with 0.\<close>

definition errno_after :: "bool \<Rightarrow> int" where
  "errno_after range_error = (if range_error then ERANGE else 0)"

text \<open>The reports after the test for errors. The pointer \<^verbatim>\<open>endptr\<close> is the rest of the string it points to; it is
  \<^verbatim>\<open>str\<close> when nothing has been read.\<close>

definition conversion_error :: "(int \<Rightarrow> string) \<Rightarrow> int \<Rightarrow> err_item" where
  "conversion_error strerror errno = Text (''Error during conversion: '' @ strerror errno @ [NL])"

definition no_digits_item :: err_item where
  "no_digits_item = Text (''No digits were found in the input.'' @ [NL])"

definition extra_item :: "string \<Rightarrow> err_item" where
  "extra_item endptr = Text (''Extra characters after the number: '' @ endptr @ [NL])"

definition conversion_reports :: "(int \<Rightarrow> string) \<Rightarrow> string \<Rightarrow> bool \<Rightarrow> int \<Rightarrow> string \<Rightarrow> err_item list" where
  "conversion_reports strerror str failed errno endptr =
     (if failed then [conversion_error strerror errno] else [])
     @ (if endptr = str then [no_digits_item] else [])
     @ (if endptr \<noteq> [] then [extra_item endptr] else [])"

definition result_line :: "string \<Rightarrow> string" where
  "result_line s = ''Result: '' @ s @ [NL]"

type_synonym conversion_run = "string \<times> err_item list"

section \<open>Integers\<close>

text \<open>On a 64-bit Linux system \<^verbatim>\<open>long\<close> and \<^verbatim>\<open>long long\<close> are the types of \<^verbatim>\<open>strtoimax\<close> and \<^verbatim>\<open>strtoumax\<close>.\<close>

definition strtol :: "string \<Rightarrow> int \<times> string \<times> bool" where
  "strtol s = strtoimax s"

definition strtoul :: "string \<Rightarrow> uint64 \<times> string \<times> bool" where
  "strtoul s = strtoumax s"

definition strtoull :: "string \<Rightarrow> uint64 \<times> string \<times> bool" where
  "strtoull s = strtoumax s"

definition strtol_convert :: "(int \<Rightarrow> string) \<Rightarrow> string \<Rightarrow> conversion_run" where
  "strtol_convert strerror str =
     (case strtol str of (result, endptr, range_error) \<Rightarrow>
        let errno = errno_after range_error;
            failed = (errno = ERANGE \<and> (result = LONG_MAX \<or> result = LONG_MIN)) \<or> (errno \<noteq> 0 \<and> result = 0)
        in (result_line (dec_int result), conversion_reports strerror str failed errno endptr))"

definition strtoll_convert :: "(int \<Rightarrow> string) \<Rightarrow> string \<Rightarrow> conversion_run" where
  "strtoll_convert strerror str =
     (case strtoll str of (result, endptr, range_error) \<Rightarrow>
        let errno = errno_after range_error;
            failed = (errno = ERANGE \<and> (result = LLONG_MAX \<or> result = LLONG_MIN)) \<or> (errno \<noteq> 0 \<and> result = 0)
        in (result_line (dec_int result), conversion_reports strerror str failed errno endptr))"

definition strtoul_convert :: "(int \<Rightarrow> string) \<Rightarrow> string \<Rightarrow> conversion_run" where
  "strtoul_convert strerror str =
     (case strtoul str of (result, endptr, range_error) \<Rightarrow>
        let errno = errno_after range_error;
            failed = (errno = ERANGE \<and> result = ULONG_MAX) \<or> (errno \<noteq> 0 \<and> result = 0)
        in (result_line (dec_nat (unat result)), conversion_reports strerror str failed errno endptr))"

definition strtoull_convert :: "(int \<Rightarrow> string) \<Rightarrow> string \<Rightarrow> conversion_run" where
  "strtoull_convert strerror str =
     (case strtoull str of (result, endptr, range_error) \<Rightarrow>
        let errno = errno_after range_error;
            failed = (errno = ERANGE \<and> result = ULONG_MAX) \<or> (errno \<noteq> 0 \<and> result = 0)
        in (result_line (dec_nat (unat result)), conversion_reports strerror str failed errno endptr))"

text \<open>\<^verbatim>\<open>main\<close> converts three strings in turn.\<close>

fun convert_all :: "(string \<Rightarrow> conversion_run) \<Rightarrow> string list \<Rightarrow> conversion_run" where
  "convert_all convert [] = ([], [])"
| "convert_all convert (s # ss) =
     (case convert s of (out, err) \<Rightarrow> case convert_all convert ss of (outs, errs) \<Rightarrow> (out @ outs, err @ errs))"

definition integer_strings :: "string list" where
  "integer_strings = [''12345'', ''42hello'', ''abcde'']"

definition strtol_main :: "(int \<Rightarrow> string) \<Rightarrow> conversion_run" where
  "strtol_main strerror = convert_all (strtol_convert strerror) integer_strings"

definition strtoll_main :: "(int \<Rightarrow> string) \<Rightarrow> conversion_run" where
  "strtoll_main strerror = convert_all (strtoll_convert strerror) integer_strings"

definition strtoul_main :: "(int \<Rightarrow> string) \<Rightarrow> conversion_run" where
  "strtoul_main strerror = convert_all (strtoul_convert strerror) integer_strings"

definition strtoull_main :: "(int \<Rightarrow> string) \<Rightarrow> conversion_run" where
  "strtoull_main strerror = convert_all (strtoull_convert strerror) integer_strings"

section \<open>Floating-point numbers\<close>

text \<open>The operations of \<^verbatim>\<open>math.h\<close> and of the hardware that \<^verbatim>\<open>convert\<close> uses: \<^verbatim>\<open>fabs\<close>, the sum with an
  infinity, and the comparison, which is false for what is not a number.\<close>

fun c_fabs :: "c_float \<Rightarrow> c_float" where
  "c_fabs (Finite sign m e) = Finite False m e"
| "c_fabs (Infinity sign) = Infinity False"
| "c_fabs (Not_a_number sign) = Not_a_number False"

fun plus_infinity :: "bool \<Rightarrow> c_float \<Rightarrow> c_float" where
  "plus_infinity sg (Finite sign m e) = Infinity sg"
| "plus_infinity sg (Infinity sign) = (if sign = sg then Infinity sg else Not_a_number True)"
| "plus_infinity sg (Not_a_number sign) = Not_a_number sign"

definition signed_scaled :: "bool \<Rightarrow> nat \<Rightarrow> int \<Rightarrow> int" where
  "signed_scaled sign m k = (if sign then - int m else int m) * 2 ^ nat k"

fun float_less :: "c_float \<Rightarrow> c_float \<Rightarrow> bool" where
  "float_less (Finite s m e) (Finite s' m' e') \<longleftrightarrow>
     signed_scaled s m (e - min e e') < signed_scaled s' m' (e' - min e e')"
| "float_less (Finite s m e) (Infinity s') \<longleftrightarrow> \<not> s'"
| "float_less (Infinity s) (Finite s' m' e') \<longleftrightarrow> s"
| "float_less (Infinity s) (Infinity s') \<longleftrightarrow> s \<and> \<not> s'"
| "float_less _ _ \<longleftrightarrow> False"

text \<open>\<^verbatim>\<open>HUGE_VAL\<close>, \<^verbatim>\<open>HUGE_VALF\<close> and \<^verbatim>\<open>HUGE_VALL\<close> are the positive infinity.\<close>

definition minus_HUGE_VAL :: "c_float \<Rightarrow> c_float" where
  "minus_HUGE_VAL x = plus_infinity True x"

definition plus_HUGE_VAL :: "c_float \<Rightarrow> c_float" where
  "plus_HUGE_VAL x = plus_infinity False x"

text \<open>\<^verbatim>\<open>TOLLERANCE\<close>: 1e-6 rounded to the format of the program.\<close>

definition TOLLERANCE_double :: c_float where
  "TOLLERANCE_double = Finite False 0x10c6f7a0b5ed8d (- 72)"

definition TOLLERANCE_float :: c_float where
  "TOLLERANCE_float = Finite False 0x8637bd (- 43)"

definition TOLLERANCE_long_double :: c_float where
  "TOLLERANCE_long_double = Finite False 0x8637bd05af6c69b6 (- 83)"

type_synonym float_conversion = "string \<Rightarrow> c_float \<times> string \<times> bool"

definition strtod_convert :: "float_conversion \<Rightarrow> (int \<Rightarrow> string) \<Rightarrow> string \<Rightarrow> conversion_run" where
  "strtod_convert strtod strerror str =
     (case strtod str of (result, endptr, range_error) \<Rightarrow>
        let errno = errno_after range_error;
            tolerance = TOLLERANCE_double;
            failed = (errno = ERANGE \<and> (float_less (c_fabs (minus_HUGE_VAL result)) tolerance
                        \<or> float_less (c_fabs (plus_HUGE_VAL result)) tolerance))
                     \<or> (errno \<noteq> 0 \<and> float_less (c_fabs result) tolerance)
        in (result_line (fmt_f 6 result),
            conversion_reports strerror str failed errno endptr
            @ (if float_less (c_fabs (minus_HUGE_VAL result)) tolerance
                  \<or> float_less (c_fabs (plus_HUGE_VAL result)) tolerance
               then [Text (''Result is HUGE_VAL or -HUGE_VAL'' @ [NL])] else [])))"

definition strtof_convert :: "float_conversion \<Rightarrow> (int \<Rightarrow> string) \<Rightarrow> string \<Rightarrow> conversion_run" where
  "strtof_convert strtof strerror str =
     (case strtof str of (result, endptr, range_error) \<Rightarrow>
        let errno = errno_after range_error;
            tolerance = TOLLERANCE_float;
            failed = (errno = ERANGE \<and> (float_less (c_fabs (minus_HUGE_VAL result)) tolerance
                        \<or> float_less (c_fabs (plus_HUGE_VAL result)) tolerance))
                     \<or> (errno \<noteq> 0 \<and> float_less (c_fabs result) tolerance)
        in (result_line (fmt_f 6 result), conversion_reports strerror str failed errno endptr))"

definition strtold_convert :: "float_conversion \<Rightarrow> (int \<Rightarrow> string) \<Rightarrow> string \<Rightarrow> conversion_run" where
  "strtold_convert strtold strerror str =
     (case strtold str of (result, endptr, range_error) \<Rightarrow>
        let errno = errno_after range_error;
            tolerance = TOLLERANCE_long_double;
            failed = (errno = ERANGE \<and> float_less (c_fabs (minus_HUGE_VAL result)) tolerance)
                     \<or> (errno \<noteq> 0 \<and> float_less (c_fabs result) tolerance)
        in (result_line (fmt_f 6 result), conversion_reports strerror str failed errno endptr))"

definition strtod_main :: "float_conversion \<Rightarrow> (int \<Rightarrow> string) \<Rightarrow> conversion_run" where
  "strtod_main strtod strerror = convert_all (strtod_convert strtod strerror) [''12345.6789'', ''42.8857hello'', ''abcde'']"

definition strtof_main :: "float_conversion \<Rightarrow> (int \<Rightarrow> string) \<Rightarrow> conversion_run" where
  "strtof_main strtof strerror = convert_all (strtof_convert strtof strerror) [''123.456'', ''42.14234hello'', ''abcde'']"

definition strtold_main :: "float_conversion \<Rightarrow> (int \<Rightarrow> string) \<Rightarrow> conversion_run" where
  "strtold_main strtold strerror = convert_all (strtold_convert strtold strerror) [''12345.6789'', ''42.99989hello'', ''abcde'']"

section \<open>Lemmas\<close>

lemma dec_int_inject: "dec_int i = dec_int j \<longleftrightarrow> i = j"
proof -
  have "dec_nat m \<noteq> CHR ''-'' # s" for m s
    using dec_nat_digits [of "CHR ''-''" m] isdigit_not_sign by (metis list.set_intros(1))
  then have "(i < 0) = (j < 0)" if "dec_int i = dec_int j"
    using that by (auto simp: dec_int_def split: if_splits dest: sym)
  then show ?thesis by (auto simp: dec_int_def split: if_splits)
qed

lemma result_line_inject: "result_line s = result_line t \<longleftrightarrow> s = t"
  by (simp add: result_line_def)

lemma conversion_reports_Nil:
  "conversion_reports strerror str failed errno endptr = [] \<longleftrightarrow> \<not> failed \<and> endptr \<noteq> str \<and> endptr = []"
  by (auto simp: conversion_reports_def)

text \<open>A string that is white space, an optional sign and digits, and nothing else.\<close>

definition numeral_of :: "string \<Rightarrow> (bool \<times> nat) option" where
  "numeral_of s = (case strto_split s of (neg, ds, rest) \<Rightarrow>
     if ds \<noteq> [] \<and> rest = [] then Some (neg, undec 0 ds) else None)"

definition signed_value :: "bool \<Rightarrow> nat \<Rightarrow> int" where
  "signed_value neg n = (if neg then - int n else int n)"

definition wrapped_value :: "bool \<Rightarrow> nat \<Rightarrow> nat" where
  "wrapped_value neg n = (if neg then (2 ^ 64 - n) mod 2 ^ 64 else n)"

lemma strto_split_Nil: "strto_split [] = (False, [], [])"
  by (simp add: strto_split_def)

lemma unat_uminus_u64: "n < 2 ^ 64 \<Longrightarrow> unat (- word_of_nat n :: uint64) = (2 ^ 64 - n) mod 2 ^ 64"
proof (cases "n = 0")
  case False
  assume n: "n < 2 ^ 64"
  have "(- word_of_nat n :: uint64) = word_of_nat (2 ^ 64 - n)"
    using n by (simp add: of_nat_diff)
  also have "unat \<dots> = 2 ^ 64 - n" using n False by (intro unat_word_of_nat_u64) simp
  finally show ?thesis using False by simp
qed simp

lemma unat_wrapped_value:
  "n < 2 ^ 64 \<Longrightarrow> unat (if neg then - word_of_nat n else word_of_nat n :: uint64) = wrapped_value neg n"
  by (simp only: wrapped_value_def unat_uminus_u64 unat_word_of_nat_u64 split: if_split) simp

lemma numeral_of_split:
  "strto_split s = (neg, ds, rest) \<Longrightarrow> numeral_of s = Some (neg', n) \<longleftrightarrow> ds \<noteq> [] \<and> rest = [] \<and> neg' = neg \<and> n = undec 0 ds"
  by (auto simp: numeral_of_def)

lemma numeral_not_empty: "strto_split s = (neg, ds, []) \<Longrightarrow> ds \<noteq> [] \<Longrightarrow> s \<noteq> []"
  using strto_split_Nil by auto

lemma strtoimax_split:
  assumes "strto_split s = (neg, ds, rest)"
  shows "ds = [] \<Longrightarrow> strtoimax s = (0, s, False)"
    and "ds \<noteq> [] \<Longrightarrow> LLONG_MIN \<le> signed_value neg (undec 0 ds) \<Longrightarrow> signed_value neg (undec 0 ds) \<le> LLONG_MAX
      \<Longrightarrow> strtoimax s = (signed_value neg (undec 0 ds), rest, False)"
    and "ds \<noteq> [] \<Longrightarrow> \<not> (LLONG_MIN \<le> signed_value neg (undec 0 ds) \<and> signed_value neg (undec 0 ds) \<le> LLONG_MAX)
      \<Longrightarrow> strtoimax s = (if neg then LLONG_MIN else LLONG_MAX, rest, True)"
  using assms by (auto simp: strtoimax_def signed_value_def c_limits Let_def)

lemma strtoumax_split:
  assumes "strto_split s = (neg, ds, rest)"
  shows "ds = [] \<Longrightarrow> strtoumax s = (0, s, False)"
    and "ds \<noteq> [] \<Longrightarrow> undec 0 ds < 2 ^ 64
      \<Longrightarrow> strtoumax s = (if neg then - word_of_nat (undec 0 ds) else word_of_nat (undec 0 ds), rest, False)"
    and "ds \<noteq> [] \<Longrightarrow> \<not> undec 0 ds < 2 ^ 64 \<Longrightarrow> strtoumax s = (0xFFFFFFFFFFFFFFFF, rest, True)"
  using assms by (simp_all add: strtoumax_def not_less)

text \<open>A report is printed unless the string is a numeral whose value is in range.\<close>

lemma strtol_convert_value:
  assumes "strto_split s = (neg, ds, rest)"
  shows "strtol_convert strerror s = (result_line t, []) \<longleftrightarrow>
     ds \<noteq> [] \<and> rest = [] \<and> LONG_MIN \<le> signed_value neg (undec 0 ds) \<and> signed_value neg (undec 0 ds) \<le> LONG_MAX
     \<and> t = dec_int (signed_value neg (undec 0 ds))"
proof (cases "ds = []")
  case True
  with strtoimax_split(1) [OF assms] show ?thesis
    by (simp add: strtol_convert_def strtol_def conversion_reports_Nil Let_def)
next
  case False
  note nonempty = numeral_not_empty [of s neg ds] assms
  show ?thesis
  proof (cases "LLONG_MIN \<le> signed_value neg (undec 0 ds) \<and> signed_value neg (undec 0 ds) \<le> LLONG_MAX")
    case True
    with strtoimax_split(2) [OF assms False] nonempty False show ?thesis
      by (cases "rest = []") (auto simp: strtol_convert_def strtol_def conversion_reports_Nil errno_after_def ERANGE_def Let_def
        result_line_inject LONG_MIN_def LONG_MAX_def LLONG_MIN_def LLONG_MAX_def)
  next
    case False
    with strtoimax_split(3) [OF assms \<open>ds \<noteq> []\<close>] show ?thesis
      by (cases neg) (auto simp: strtol_convert_def strtol_def conversion_reports_Nil errno_after_def Let_def c_limits)
  qed
qed

lemma strtol_convert_silent:
  "strtol_convert strerror s = (result_line (dec_int v), []) \<longleftrightarrow>
     (\<exists>neg n. numeral_of s = Some (neg, n) \<and> v = signed_value neg n \<and> LONG_MIN \<le> v \<and> v \<le> LONG_MAX)"
proof (cases "strto_split s")
  case (fields neg ds rest)
  show ?thesis unfolding strtol_convert_value [OF fields] numeral_of_split [OF fields] dec_int_inject by blast
qed

lemma strtoll_convert_eq: "strtoll_convert = strtol_convert"
  by (simp add: fun_eq_iff strtoll_convert_def strtol_convert_def strtol_def strtoll_def c_limits)

lemma strtoull_convert_eq: "strtoull_convert = strtoul_convert"
  by (simp add: fun_eq_iff strtoull_convert_def strtoul_convert_def strtoul_def strtoull_def)

lemma strtoul_convert_value:
  assumes "strto_split s = (neg, ds, rest)"
  shows "strtoul_convert strerror s = (result_line t, []) \<longleftrightarrow>
     ds \<noteq> [] \<and> rest = [] \<and> undec 0 ds < 2 ^ 64 \<and> t = dec_nat (wrapped_value neg (undec 0 ds))"
proof (cases "ds = []")
  case True
  with strtoumax_split(1) [OF assms] show ?thesis
    by (simp add: strtoul_convert_def strtoul_def conversion_reports_Nil Let_def)
next
  case False
  note nonempty = numeral_not_empty [of s neg ds] assms
  show ?thesis
  proof (cases "undec 0 ds < 2 ^ 64")
    case True
    show ?thesis
    proof (cases "rest = []")
      assume rest: "rest = []"
      have "strtoul_convert strerror s = (result_line (dec_nat (wrapped_value neg (undec 0 ds))), [])"
        unfolding strtoul_convert_def strtoul_def strtoumax_split(2) [OF assms False True] prod.case Let_def
          unat_wrapped_value [OF True]
        using nonempty False rest by (simp add: conversion_reports_Nil errno_after_def ERANGE_def)
      with True False rest show ?thesis by (auto simp: result_line_inject)
    next
      assume "rest \<noteq> []"
      then show ?thesis unfolding strtoul_convert_def strtoul_def strtoumax_split(2) [OF assms False True] prod.case Let_def
        by (simp add: conversion_reports_Nil)
    qed
  next
    case False
    with strtoumax_split(3) [OF assms \<open>ds \<noteq> []\<close>] show ?thesis
      by (simp add: strtoul_convert_def strtoul_def conversion_reports_Nil errno_after_def Let_def ULONG_MAX_def)
  qed
qed

lemma strtoul_convert_silent:
  "strtoul_convert strerror s = (result_line (dec_nat w), []) \<longleftrightarrow>
     (\<exists>neg n. numeral_of s = Some (neg, n) \<and> n < 2 ^ 64 \<and> w = wrapped_value neg n)"
proof (cases "strto_split s")
  case (fields neg ds rest)
  show ?thesis unfolding strtoul_convert_value [OF fields] numeral_of_split [OF fields] dec_nat_inject by blast
qed

section \<open>Theorems about the programs\<close>

text \<open>C22. The integer programs print a number and no report exactly for the strings that are a decimal numeral, with
  white space before it and a sign, in range: \<^verbatim>\<open>strtol\<close> and \<^verbatim>\<open>strtoll\<close> for the signed value, and \<^verbatim>\<open>strtoul\<close> and
  \<^verbatim>\<open>strtoull\<close> for every magnitude below \<open>2 ^ 64\<close>, with a minus sign wrapped around modulo \<open>2 ^ 64\<close>.\<close>

theorem integer_conversions_silent:
  assumes "signed_convert \<in> {strtol_convert, strtoll_convert}" "unsigned_convert \<in> {strtoul_convert, strtoull_convert}"
  shows "(signed_convert strerror s = (result_line (dec_int v), []) \<longleftrightarrow>
       (\<exists>neg n. numeral_of s = Some (neg, n) \<and> v = signed_value neg n \<and> LONG_MIN \<le> v \<and> v \<le> LONG_MAX))
    \<and> (unsigned_convert strerror s = (result_line (dec_nat w), []) \<longleftrightarrow>
       (\<exists>neg n. numeral_of s = Some (neg, n) \<and> n < 2 ^ 64 \<and> w = wrapped_value neg n))"
  using assms strtol_convert_silent [of strerror s v] strtoul_convert_silent [of strerror s w]
  by (auto simp: strtoll_convert_eq strtoull_convert_eq)

lemma numeral_of_minus_one: "numeral_of '' -1'' = Some (True, 1)"
  by (simp add: numeral_of_def strto_split_def c_isspace_def c_isdigit_def digit_value_def Let_def)

lemma integer_conversions_silent_witness:
  "strtoll_convert (\<lambda>_. ''?'') '' -1'' = (result_line (dec_int (- 1)), [])
    \<and> strtoul_convert (\<lambda>_. ''?'') '' -1'' = (result_line (dec_nat 18446744073709551615), [])"
proof -
  have "- 1 = signed_value True 1 \<and> LONG_MIN \<le> - 1 \<and> - 1 \<le> LONG_MAX"
    "(1 :: nat) < 2 ^ 64 \<and> 18446744073709551615 = wrapped_value True 1"
    by (simp_all add: signed_value_def wrapped_value_def c_limits)
  then show ?thesis
    using integer_conversions_silent [of strtoll_convert strtoul_convert "\<lambda>_. ''?''" "'' -1''" "- 1" 18446744073709551615]
      numeral_of_minus_one by blast
qed

text \<open>When the number is too large for the floating-point type, the three floating-point programs report no error:
  the difference of the result and an infinity is never small, and they print an infinity, with at
  most a report of the characters after the number.\<close>

theorem float_overflow_unreported:
  assumes "conv s = (Infinity sign, endptr, range_error)" "endptr \<noteq> s"
  shows "convert \<in> {strtod_convert, strtof_convert, strtold_convert} \<Longrightarrow>
    convert conv strerror s
      = (result_line (if sign then ''-inf'' else ''inf''), if endptr \<noteq> [] then [extra_item endptr] else [])"
  using assms
  by (auto simp: strtod_convert_def strtof_convert_def strtold_convert_def conversion_reports_def Let_def
      minus_HUGE_VAL_def plus_HUGE_VAL_def TOLLERANCE_double_def TOLLERANCE_float_def TOLLERANCE_long_double_def)

lemma float_overflow_unreported_witness:
  "strtod_convert (\<lambda>s. (Infinity True, [], True)) (\<lambda>_. ''Range error'') ''-1e999'' = (result_line ''-inf'', [])"
  using float_overflow_unreported [of "\<lambda>s. (Infinity True, [], True)" "''-1e999''" True "[]" True strtod_convert] by simp

text \<open>A result that has become too small is reported by all three, a finite one that was in range by none.\<close>

lemma float_underflow_reported:
  assumes "conv s = (Finite sign 0 e, [], range_error)" "s \<noteq> []"
    and "convert \<in> {strtod_convert, strtof_convert, strtold_convert}"
  shows "snd (convert conv strerror s) = (if range_error then [conversion_error strerror ERANGE] else [])"
  using assms
  by (auto simp: strtod_convert_def strtof_convert_def strtold_convert_def conversion_reports_def Let_def
      minus_HUGE_VAL_def plus_HUGE_VAL_def TOLLERANCE_double_def TOLLERANCE_float_def TOLLERANCE_long_double_def
      signed_scaled_def errno_after_def ERANGE_def)

text \<open>What the four integer programs print.\<close>

lemma integer_mains_print:
  assumes "main \<in> {strtol_main, strtoll_main, strtoul_main, strtoull_main}"
  shows "main strerror =
    (''Result: 12345'' @ [NL] @ ''Result: 42'' @ [NL] @ ''Result: 0'' @ [NL],
     [extra_item ''hello'', no_digits_item, extra_item ''abcde''])"
proof -
  have digits: "dec_nat 12345 = ''12345''" "dec_nat 42 = ''42''" "dec_nat 0 = ''0''"
    by (simp_all add: dec_nat.simps digit_char_def char_of_def bit_Suc_0_iff)
  have run: "strtoimax ''12345'' = (12345, [], False)" "strtoimax ''42hello'' = (42, ''hello'', False)"
    "strtoimax ''abcde'' = (0, ''abcde'', False)" "strtoumax ''12345'' = (12345, [], False)"
    "strtoumax ''42hello'' = (42, ''hello'', False)" "strtoumax ''abcde'' = (0, ''abcde'', False)"
    by (simp_all add: strtoimax_def strtoumax_def strto_split_def c_isspace_def c_isdigit_def digit_value_def c_limits Let_def)
  have "strtol_main strerror = (''Result: 12345'' @ [NL] @ ''Result: 42'' @ [NL] @ ''Result: 0'' @ [NL],
     [extra_item ''hello'', no_digits_item, extra_item ''abcde''])"
    "strtoul_main strerror = (''Result: 12345'' @ [NL] @ ''Result: 42'' @ [NL] @ ''Result: 0'' @ [NL],
     [extra_item ''hello'', no_digits_item, extra_item ''abcde''])"
    by (simp_all add: strtol_main_def strtoul_main_def integer_strings_def strtol_convert_def strtoul_convert_def strtol_def
        strtoul_def run result_line_def dec_int_def digits conversion_reports_def errno_after_def ERANGE_def)
  with assms show ?thesis
    by (auto simp: strtoll_main_def strtol_main_def strtoull_main_def strtoul_main_def strtoll_convert_eq strtoull_convert_eq)
qed

end
