(* ===== verification/Semaphores.thy ===== *)
theory Semaphores
  imports C_Prelude
begin

text \<open>
  \<^verbatim>\<open>src/semaphores\<close>: a parent and a child that share a named semaphore, waiting for it with \<^verbatim>\<open>sem_wait\<close> or
  trying it with \<^verbatim>\<open>sem_trywait\<close>, and the program that opens, closes and unlinks a semaphore. The two processes
  take their steps in any order; a call of \<^verbatim>\<open>sem_wait\<close> or \<^verbatim>\<open>wait\<close> may fail. The locale \<open>semaphore_program\<close>
  states what the parent has to keep for the two processes to end; both programs keep it.
\<close>

section \<open>State\<close>

text \<open>What the child and the parent do next.\<close>

datatype sem_child = K_say | K_wait | K_sleep | K_say_done | K_post | K_close | K_fail_close | K_fail_unlink | K_exit int

datatype sem_parent = M_sleep | M_say | M_wait | M_try nat | M_retry nat | M_got | M_post | M_signaled | M_close | M_reap
  | M_reap_failed | M_say_end | M_unlink | M_fail_close | M_fail_unlink | M_exit int

record sems =
  sem_value :: nat
  sem_linked :: bool
  kid :: sem_child
  par :: sem_parent
  sem_out :: "string list"
  sem_err :: "string list"

definition sem_say :: "string \<Rightarrow> int \<Rightarrow> string \<Rightarrow> sems \<Rightarrow> sems" where
  "sem_say who pid message s = s\<lparr>sem_out := sem_out s @ [who @ '' process (PID '' @ dec_int pid @ ''): '' @ message @ [NL]]\<rparr>"

definition sem_perror :: "string \<Rightarrow> sems \<Rightarrow> sems" where
  "sem_perror message s = s\<lparr>sem_err := sem_err s @ [message]\<rparr>"

text \<open>\<^verbatim>\<open>sem_unlink\<close> fails when the name is gone.\<close>

definition sem_unlink :: "sems \<Rightarrow> sems" where
  "sem_unlink s = s\<lparr>sem_linked := False\<rparr>"

section \<open>The processes\<close>

text \<open>\<open>fails\<close> tells whether the call of the step fails. The child is the same in both programs but for one message.\<close>

definition sem_child_step :: "string \<Rightarrow> int \<Rightarrow> bool \<Rightarrow> sems \<Rightarrow> sems option" where
  "sem_child_step complaint pid fails s =
     (case kid s of
        K_say \<Rightarrow> Some (sem_say ''Child'' pid ''Simulating some work...'' (s\<lparr>kid := K_wait\<rparr>))
      | K_wait \<Rightarrow> if fails then Some (sem_perror complaint (s\<lparr>kid := K_fail_close\<rparr>))
                  else if 0 < sem_value s then Some (s\<lparr>sem_value := sem_value s - 1, kid := K_sleep\<rparr>) else None
      | K_sleep \<Rightarrow> Some (s\<lparr>kid := K_say_done\<rparr>)
      | K_say_done \<Rightarrow> Some (sem_say ''Child'' pid ''Done work.'' (s\<lparr>kid := K_post\<rparr>))
      | K_post \<Rightarrow> Some (s\<lparr>sem_value := sem_value s + 1, kid := K_close\<rparr>)
      | K_close \<Rightarrow> Some (s\<lparr>kid := K_exit EXIT_SUCCESS\<rparr>)
      | K_fail_close \<Rightarrow> Some (s\<lparr>kid := K_fail_unlink\<rparr>)
      | K_fail_unlink \<Rightarrow> Some (sem_unlink (s\<lparr>kid := K_exit EXIT_FAILURE\<rparr>))
      | K_exit status \<Rightarrow> None)"

definition child_over :: "sem_child \<Rightarrow> bool" where
  "child_over k \<longleftrightarrow> (case k of K_exit status \<Rightarrow> True | _ \<Rightarrow> False)"

text \<open>The end of both parents: \<^verbatim>\<open>wait\<close> and \<^verbatim>\<open>sem_unlink\<close>, and the way out after a failed call.\<close>

definition sem_parent_end :: "int \<Rightarrow> string \<Rightarrow> bool \<Rightarrow> sems \<Rightarrow> sems option" where
  "sem_parent_end pid message fails s =
     (case par s of
        M_close \<Rightarrow> Some (s\<lparr>par := M_reap\<rparr>)
      | M_reap \<Rightarrow> if fails then Some (sem_perror ''wait failed'' (s\<lparr>par := M_reap_failed\<rparr>))
                  else if child_over (kid s) then Some (s\<lparr>par := M_say_end\<rparr>) else None
      | M_reap_failed \<Rightarrow> Some (sem_unlink (s\<lparr>par := M_exit EXIT_FAILURE\<rparr>))
      | M_say_end \<Rightarrow> Some (sem_say ''Parent'' pid message (s\<lparr>par := M_unlink\<rparr>))
      | M_unlink \<Rightarrow> if sem_linked s then Some (sem_unlink (s\<lparr>par := M_exit EXIT_SUCCESS\<rparr>))
                    else Some (sem_perror ''sem_unlink failed'' (s\<lparr>par := M_exit EXIT_FAILURE\<rparr>))
      | M_fail_close \<Rightarrow> Some (s\<lparr>par := M_fail_unlink\<rparr>)
      | M_fail_unlink \<Rightarrow> Some (sem_unlink (s\<lparr>par := M_exit EXIT_FAILURE\<rparr>))
      | _ \<Rightarrow> None)"

definition wait_parent_step :: "int \<Rightarrow> bool \<Rightarrow> sems \<Rightarrow> sems option" where
  "wait_parent_step pid fails s =
     (case par s of
        M_sleep \<Rightarrow> Some (s\<lparr>par := M_say\<rparr>)
      | M_say \<Rightarrow> Some (sem_say ''Parent'' pid ''Waiting for the child to complete...'' (s\<lparr>par := M_wait\<rparr>))
      | M_wait \<Rightarrow> if fails then Some (sem_perror ''sem_wait failed'' (s\<lparr>par := M_fail_close\<rparr>))
                  else if 0 < sem_value s then Some (s\<lparr>sem_value := sem_value s - 1, par := M_got\<rparr>) else None
      | M_got \<Rightarrow> Some (sem_say ''Parent'' pid ''Done sem_wait'' (s\<lparr>par := M_post\<rparr>))
      | M_post \<Rightarrow> Some (s\<lparr>sem_value := sem_value s + 1, par := M_close\<rparr>)
      | _ \<Rightarrow> sem_parent_end pid ''Done waiting.'' fails s)"

definition TRY_COUNT :: nat where "TRY_COUNT = 5"

text \<open>The loop of tries: \<open>M_try n\<close> stands before \<^verbatim>\<open>sem_trywait\<close> with \<open>n\<close> tries left, \<open>M_retry n\<close> before the message and the
  second of sleep after a failed one.\<close>

definition trywait_parent_step :: "int \<Rightarrow> bool \<Rightarrow> sems \<Rightarrow> sems option" where
  "trywait_parent_step pid fails s =
     (case par s of
        M_sleep \<Rightarrow> Some (s\<lparr>par := M_say\<rparr>)
      | M_say \<Rightarrow> Some (sem_say ''Parent'' pid ''Waiting for the child to complete...'' (s\<lparr>par := M_try TRY_COUNT\<rparr>))
      | M_try n \<Rightarrow>
          if n = 0 then Some (s\<lparr>par := M_close\<rparr>)
          else if \<not> fails \<and> 0 < sem_value s then Some (s\<lparr>sem_value := sem_value s - 1, par := M_got\<rparr>)
          else if n = 1 then Some (sem_perror ''sem_trywait failed'' (s\<lparr>par := M_fail_close\<rparr>))
          else Some (s\<lparr>par := M_retry n\<rparr>)
      | M_retry n \<Rightarrow> Some (sem_say ''Parent'' pid ''Child not ready. Retrying...'' (s\<lparr>par := M_try (n - 1)\<rparr>))
      | M_got \<Rightarrow> Some (sem_say ''Parent'' pid ''Done waiting'' (s\<lparr>par := M_post\<rparr>))
      | M_post \<Rightarrow> Some (s\<lparr>sem_value := sem_value s + 1, par := M_signaled\<rparr>)
      | M_signaled \<Rightarrow> Some (sem_say ''Parent'' pid ''Child signaled. Continue processing...'' (s\<lparr>par := M_close\<rparr>))
      | _ \<Rightarrow> sem_parent_end pid ''Child completed.'' fails s)"

text \<open>\<^verbatim>\<open>main\<close> up to the fork: the name must not exist, and the semaphore starts with 1.\<close>

definition sem_fork :: "bool \<Rightarrow> bool \<Rightarrow> int \<times> bool \<times> string list + sems" where
  "sem_fork exists fork_ok =
     (if exists then Inl (EXIT_FAILURE, True, [''Semaphore creation failed''])
      else if \<not> fork_ok then Inl (EXIT_FAILURE, False, [''Fork failed''])
      else Inr \<lparr>sem_value = 1, sem_linked = True, kid = K_say, par = M_sleep, sem_out = [], sem_err = []\<rparr>)"

text \<open>\<^verbatim>\<open>sem_open-sem_close-sem_unlink\<close>: the exit status, whether the name is there afterwards, and the output.\<close>

definition sem_name :: string where "sem_name = ''/example_semaphore''"

definition sem_open_main :: "bool \<Rightarrow> bool \<Rightarrow> bool \<Rightarrow> int \<times> bool \<times> string list \<times> string list" where
  "sem_open_main exists close_fails unlink_fails =
     (if exists then (EXIT_FAILURE, True, [''Opening '' @ sem_name @ [NL]], [''Semaphore creation failed''])
      else if close_fails
      then (EXIT_FAILURE, True, [''Opening '' @ sem_name @ [NL], ''Closing '' @ sem_name @ [NL]], [''sem_close failed''])
      else if unlink_fails
      then (EXIT_FAILURE, True, [''Opening '' @ sem_name @ [NL], ''Closing '' @ sem_name @ [NL], ''Unlinking '' @ sem_name @ [NL]],
            [''sem_unlink failed''])
      else (EXIT_SUCCESS, False, [''Opening '' @ sem_name @ [NL], ''Closing '' @ sem_name @ [NL], ''Unlinking '' @ sem_name @ [NL]],
            []))"

section \<open>Runs\<close>

inductive sem_step :: "bool \<Rightarrow> (bool \<Rightarrow> sems \<Rightarrow> sems option) \<Rightarrow> (bool \<Rightarrow> sems \<Rightarrow> sems option) \<Rightarrow> sems \<Rightarrow> sems \<Rightarrow> bool"
  for may_fail child parent where
  child: "child fails s = Some s' \<Longrightarrow> (fails \<Longrightarrow> may_fail) \<Longrightarrow> sem_step may_fail child parent s s'"
| parent: "parent fails s = Some s' \<Longrightarrow> (fails \<Longrightarrow> may_fail) \<Longrightarrow> sem_step may_fail child parent s s'"

inductive sem_reach :: "bool \<Rightarrow> (bool \<Rightarrow> sems \<Rightarrow> sems option) \<Rightarrow> (bool \<Rightarrow> sems \<Rightarrow> sems option) \<Rightarrow> sems \<Rightarrow> sems \<Rightarrow> bool"
  for may_fail child parent where
  refl: "sem_reach may_fail child parent s s"
| step: "sem_reach may_fail child parent s s' \<Longrightarrow> sem_step may_fail child parent s' s''
    \<Longrightarrow> sem_reach may_fail child parent s s''"

text \<open>A schedule: whose turn it is and whether the call fails; a process that cannot go on is passed over.\<close>

fun sem_run :: "(bool \<Rightarrow> sems \<Rightarrow> sems option) \<Rightarrow> (bool \<Rightarrow> sems \<Rightarrow> sems option) \<Rightarrow> (bool \<times> bool) list \<Rightarrow> sems \<Rightarrow> sems" where
  "sem_run child parent [] s = s"
| "sem_run child parent ((is_child, fails) # ts) s =
     sem_run child parent ts (case (if is_child then child else parent) fails s of None \<Rightarrow> s | Some s' \<Rightarrow> s')"

section \<open>The invariant\<close>

text \<open>The processes between their wait and their post.\<close>

definition child_inside :: "sem_child \<Rightarrow> bool" where
  "child_inside k \<longleftrightarrow> k = K_sleep \<or> k = K_say_done \<or> k = K_post"

definition parent_inside :: "sem_parent \<Rightarrow> bool" where
  "parent_inside p \<longleftrightarrow> p = M_got \<or> p = M_post"

definition parent_over :: "sem_parent \<Rightarrow> bool" where
  "parent_over p \<longleftrightarrow> (case p of M_exit status \<Rightarrow> True | _ \<Rightarrow> False)"

definition sem_inv :: "sems \<Rightarrow> bool" where
  "sem_inv s \<longleftrightarrow>
     sem_value s + of_bool (child_inside (kid s)) + of_bool (parent_inside (par s)) = 1
     \<and> (parent_over (par s) \<longrightarrow> \<not> sem_linked s)"

fun child_rank :: "sem_child \<Rightarrow> nat" where
  "child_rank K_say = 8"
| "child_rank K_wait = 7"
| "child_rank K_sleep = 6"
| "child_rank K_say_done = 5"
| "child_rank K_post = 4"
| "child_rank K_close = 3"
| "child_rank K_fail_close = 2"
| "child_rank K_fail_unlink = 1"
| "child_rank (K_exit status) = 0"

fun parent_rank :: "sem_parent \<Rightarrow> nat" where
  "parent_rank M_sleep = 40"
| "parent_rank M_say = 39"
| "parent_rank M_wait = 38"
| "parent_rank (M_try n) = 10 + 3 * n"
| "parent_rank (M_retry n) = 11 + 3 * (n - 1)"
| "parent_rank M_got = 9"
| "parent_rank M_post = 8"
| "parent_rank M_signaled = 7"
| "parent_rank M_close = 6"
| "parent_rank M_reap = 5"
| "parent_rank M_reap_failed = 1"
| "parent_rank M_say_end = 4"
| "parent_rank M_unlink = 3"
| "parent_rank M_fail_close = 2"
| "parent_rank M_fail_unlink = 1"
| "parent_rank (M_exit status) = 0"

definition sem_weight :: "sems \<Rightarrow> nat" where
  "sem_weight s = child_rank (kid s) + parent_rank (par s)"

lemmas sem_effects = sem_say_def sem_perror_def sem_unlink_def

lemmas sem_predicates = child_inside_def parent_inside_def parent_over_def child_over_def

lemma over_not_inside: "child_over k \<Longrightarrow> \<not> child_inside k" "parent_over p \<Longrightarrow> \<not> parent_inside p"
  by (auto simp: sem_predicates split: sem_child.splits sem_parent.splits)

text \<open>What a step of the child keeps, in whatever program.\<close>

lemma sem_child_step_inv:
  assumes "sem_inv s" "sem_child_step complaint pid fails s = Some s'"
  shows "sem_inv s'"
  using assms
  by (cases "kid s") (auto simp: sem_child_step_def sem_inv_def sem_effects sem_predicates split: if_splits)

lemma sem_child_step_frame: "sem_child_step complaint pid fails s = Some s' \<Longrightarrow> par s' = par s"
  by (cases "kid s") (auto simp: sem_child_step_def sem_effects split: if_splits)

lemma sem_child_step_rank: "sem_child_step complaint pid fails s = Some s' \<Longrightarrow> child_rank (kid s') < child_rank (kid s)"
  by (cases "kid s") (auto simp: sem_child_step_def sem_effects split: if_splits)

lemma sem_child_step_stuck:
  "sem_child_step complaint pid False s = None \<Longrightarrow> child_over (kid s) \<or> (kid s = K_wait \<and> sem_value s = 0)"
  by (cases "kid s") (auto simp: sem_child_step_def child_over_def split: if_splits)

text \<open>What is asked of the parent: it stays at its own points, keeps the invariant and the child's point, comes nearer
  to its end, and waits only for the semaphore or for the child.\<close>

locale semaphore_program =
  fixes points :: "sem_parent set"
    and parent_step :: "bool \<Rightarrow> sems \<Rightarrow> sems option"
  assumes points_start: "M_sleep \<in> points"
    and parent_points: "par s \<in> points \<Longrightarrow> parent_step fails s = Some s' \<Longrightarrow> par s' \<in> points"
    and parent_inv: "sem_inv s \<Longrightarrow> parent_step fails s = Some s' \<Longrightarrow> sem_inv s'"
    and parent_frame: "parent_step fails s = Some s' \<Longrightarrow> kid s' = kid s"
    and parent_rank: "par s \<in> points \<Longrightarrow> parent_step fails s = Some s' \<Longrightarrow> parent_rank (par s') < parent_rank (par s)"
    and parent_stuck: "par s \<in> points \<Longrightarrow> parent_step False s = None
      \<Longrightarrow> parent_over (par s) \<or> (par s = M_wait \<and> sem_value s = 0) \<or> (par s = M_reap \<and> \<not> child_over (kid s))"
begin

lemma step_inv:
  assumes "sem_step may_fail (sem_child_step complaint pid) parent_step s s'" "sem_inv s" "par s \<in> points"
  shows "sem_inv s' \<and> par s' \<in> points \<and> sem_weight s' < sem_weight s"
  using assms
proof cases
  case (child fails)
  then show ?thesis
    using sem_child_step_inv [OF assms(2) child(1)] sem_child_step_frame [OF child(1)] sem_child_step_rank [OF child(1)] assms(3)
    by (simp add: sem_weight_def)
next
  case (parent fails)
  then show ?thesis
    using parent_inv [OF assms(2) parent(1)] parent_points [OF assms(3) parent(1)] parent_frame [OF parent(1)]
      parent_rank [OF assms(3) parent(1)]
    by (simp add: sem_weight_def)
qed

lemma reach_inv:
  assumes "sem_reach may_fail (sem_child_step complaint pid) parent_step s0 s" "sem_fork False True = Inr s0"
  shows "sem_inv s \<and> par s \<in> points"
  using assms
proof (induction rule: sem_reach.induct)
  case refl
  then show ?case
    using points_start by (auto simp: sem_fork_def sem_inv_def sem_predicates)
qed (use step_inv in blast)

lemma stuck_over:
  assumes "sem_inv s" "par s \<in> points" "\<nexists>s'. sem_step may_fail (sem_child_step complaint pid) parent_step s s'"
  shows "child_over (kid s) \<and> parent_over (par s) \<and> \<not> sem_linked s"
proof -
  have "sem_child_step complaint pid False s = None" "parent_step False s = None"
    using assms(3) by (metis not_None_eq sem_step.child sem_step.parent)+
  then have "child_over (kid s) \<or> (kid s = K_wait \<and> sem_value s = 0)"
    "parent_over (par s) \<or> (par s = M_wait \<and> sem_value s = 0) \<or> (par s = M_reap \<and> \<not> child_over (kid s))"
    using sem_child_step_stuck parent_stuck assms(2) by blast+
  moreover have "\<not> child_inside (kid s)" if "child_over (kid s) \<or> kid s = K_wait"
    using that over_not_inside(1) by (auto simp: child_inside_def)
  moreover have "\<not> parent_inside (par s)" if "parent_over (par s) \<or> par s = M_wait \<or> par s = M_reap"
    using that over_not_inside(2) by (auto simp: parent_inside_def)
  moreover have "sem_value s + of_bool (child_inside (kid s)) + of_bool (parent_inside (par s)) = 1"
    "parent_over (par s) \<longrightarrow> \<not> sem_linked s"
    using assms(1) by (auto simp: sem_inv_def)
  ultimately show ?thesis by (smt (verit) add.right_neutral of_bool_eq(1) zero_neq_one add_0)
qed

end

definition wait_points :: "sem_parent set" where
  "wait_points = {p. \<nexists>n. p = M_try n \<or> p = M_retry n} - {M_signaled}"

interpretation wtp: semaphore_program wait_points "wait_parent_step pid"
proof
  fix s s' fails
  show "M_sleep \<in> wait_points" by (simp add: wait_points_def)
  show "par s' \<in> wait_points" if "par s \<in> wait_points" "wait_parent_step pid fails s = Some s'"
    using that by (cases "par s")
      (auto simp: wait_points_def wait_parent_step_def sem_parent_end_def sem_effects split: if_splits)
  show "sem_inv s'" if "sem_inv s" "wait_parent_step pid fails s = Some s'"
    using that by (cases "par s")
      (auto simp: wait_parent_step_def sem_parent_end_def sem_inv_def sem_effects sem_predicates split: if_splits)
  show "kid s' = kid s" if "wait_parent_step pid fails s = Some s'"
    using that by (cases "par s") (auto simp: wait_parent_step_def sem_parent_end_def sem_effects split: if_splits)
  show "parent_rank (par s') < parent_rank (par s)" if "wait_parent_step pid fails s = Some s'"
    using that by (cases "par s") (auto simp: wait_parent_step_def sem_parent_end_def sem_effects split: if_splits)
  show "parent_over (par s) \<or> (par s = M_wait \<and> sem_value s = 0) \<or> (par s = M_reap \<and> \<not> child_over (kid s))"
    if "par s \<in> wait_points" "wait_parent_step pid False s = None"
    using that by (cases "par s")
      (auto simp: wait_points_def wait_parent_step_def sem_parent_end_def parent_over_def split: if_splits)
qed

lemma trywait_try_inv:
  assumes "sem_inv s" "par s = M_try n" "trywait_parent_step pid fails s = Some s'"
  shows "sem_inv s'"
proof -
  have v: "sem_value s + of_bool (child_inside (kid s)) = 1"
    using assms(1,2) by (simp add: sem_inv_def parent_inside_def)
  consider "s' = s\<lparr>par := M_close\<rparr>" | "0 < sem_value s" "s' = s\<lparr>sem_value := sem_value s - 1, par := M_got\<rparr>"
    | "s' = sem_perror ''sem_trywait failed'' (s\<lparr>par := M_fail_close\<rparr>)" | "s' = s\<lparr>par := M_retry n\<rparr>"
    using assms(2,3) by (simp add: trywait_parent_step_def split: if_splits)
  then show ?thesis
    using v by cases (simp_all add: sem_inv_def parent_inside_def parent_over_def sem_perror_def of_bool_def split: if_splits)
qed

lemma trywait_parent_inv:
  assumes "sem_inv s" "trywait_parent_step pid fails s = Some s'"
  shows "sem_inv s'"
proof (cases "\<exists>n. par s = M_try n")
  case True
  with assms trywait_try_inv show ?thesis by blast
next
  case False
  with assms show ?thesis
    by (cases "par s")
      (auto simp: trywait_parent_step_def sem_parent_end_def sem_inv_def sem_effects sem_predicates split: if_splits)
qed

interpretation twp: semaphore_program "- {M_wait}" "trywait_parent_step pid"
proof
  fix s s' fails
  show "M_sleep \<in> - {M_wait}" by simp
  show "par s' \<in> - {M_wait}" if "par s \<in> - {M_wait}" "trywait_parent_step pid fails s = Some s'"
    using that by (cases "par s") (auto simp: trywait_parent_step_def sem_parent_end_def sem_effects split: if_splits)
  show "sem_inv s'" if "sem_inv s" "trywait_parent_step pid fails s = Some s'"
    by (rule trywait_parent_inv [OF that])
  show "kid s' = kid s" if "trywait_parent_step pid fails s = Some s'"
    using that by (cases "par s") (auto simp: trywait_parent_step_def sem_parent_end_def sem_effects split: if_splits)
  show "parent_rank (par s') < parent_rank (par s)" if "trywait_parent_step pid fails s = Some s'"
    using that by (cases "par s")
      (auto simp: trywait_parent_step_def sem_parent_end_def sem_effects TRY_COUNT_def split: if_splits)
  show "parent_over (par s) \<or> (par s = M_wait \<and> sem_value s = 0) \<or> (par s = M_reap \<and> \<not> child_over (kid s))"
    if "par s \<in> - {M_wait}" "trywait_parent_step pid False s = None"
    using that by (cases "par s")
      (auto simp: trywait_parent_step_def sem_parent_end_def parent_over_def split: if_splits)
qed

section \<open>Theorems about the programs\<close>

text \<open>C23. In every schedule of the two processes, with any calls of \<^verbatim>\<open>sem_wait\<close>, \<^verbatim>\<open>sem_trywait\<close> and \<^verbatim>\<open>wait\<close> failing, for
  both programs: the semaphore has 0 or 1 and never are both processes between wait and post; every step brings the end
  nearer; and when neither can go on both have exited and the name has been unlinked.\<close>

theorem semaphore_programs_end:
  assumes "sem_fork False True = Inr s0" "parent_step \<in> {wait_parent_step pid, trywait_parent_step pid}"
    and "sem_reach may_fail (sem_child_step complaint kid_pid) parent_step s0 s"
  shows "sem_value s \<le> 1 \<and> \<not> (child_inside (kid s) \<and> parent_inside (par s))
    \<and> (\<forall>s'. sem_step may_fail (sem_child_step complaint kid_pid) parent_step s s' \<longrightarrow> sem_weight s' < sem_weight s)
    \<and> ((\<nexists>s'. sem_step may_fail (sem_child_step complaint kid_pid) parent_step s s')
        \<longrightarrow> child_over (kid s) \<and> parent_over (par s) \<and> \<not> sem_linked s)"
proof -
  obtain points where points: "semaphore_program points parent_step"
    using assms(2) wtp.semaphore_program_axioms twp.semaphore_program_axioms by blast
  note inv = semaphore_program.reach_inv [OF points assms(3,1)]
  then have "sem_value s \<le> 1" "\<not> (child_inside (kid s) \<and> parent_inside (par s))"
    by (auto simp: sem_inv_def of_bool_def split: if_splits)
  with inv semaphore_program.step_inv [OF points] semaphore_program.stuck_over [OF points] show ?thesis by blast
qed

definition sem_started :: sems where
  "sem_started = \<lparr>sem_value = 1, sem_linked = True, kid = K_say, par = M_sleep, sem_out = [], sem_err = []\<rparr>"

lemma sem_fork_started: "sem_fork False True = Inr sem_started"
  by (simp add: sem_fork_def sem_started_def)

lemma sem_run_reach:
  assumes "sem_reach may_fail child parent s0 s" "\<forall>t \<in> set ts. snd t \<longrightarrow> may_fail"
  shows "sem_reach may_fail child parent s0 (sem_run child parent ts s)"
  using assms
proof (induction child parent ts s rule: sem_run.induct)
  case (2 child parent is_child fails ts s)
  have "sem_reach may_fail child parent s0
      (case (if is_child then child else parent) fails s of None \<Rightarrow> s | Some s' \<Rightarrow> s')"
    using 2(2,3) by (auto split: option.splits if_splits intro: sem_reach.step sem_step.intros)
  with 2 show ?case by simp
qed simp

text \<open>The child first, then the parent.\<close>

definition sem_demo :: "(bool \<Rightarrow> sems \<Rightarrow> sems option) \<Rightarrow> sems" where
  "sem_demo parent = sem_run (sem_child_step ''sem_wait failed'' 7) parent
     (replicate 6 (True, False) @ replicate 9 (False, False)) sem_started"

lemma sem_demo_reach: "sem_reach False (sem_child_step ''sem_wait failed'' 7) parent sem_started (sem_demo parent)"
  unfolding sem_demo_def by (rule sem_run_reach) (auto intro: sem_reach.refl)

lemma sem_demo_wait:
  "kid (sem_demo (wait_parent_step 6)) = K_exit 0 \<and> par (sem_demo (wait_parent_step 6)) = M_exit 0
    \<and> sem_value (sem_demo (wait_parent_step 6)) = 1"
  by (simp add: sem_demo_def sem_started_def sem_child_step_def wait_parent_step_def sem_parent_end_def sem_effects
      child_over_def numeral_eq_Suc)

lemma semaphore_programs_end_witness:
  "par (sem_demo (wait_parent_step 6)) = M_exit 0 \<and> \<not> sem_linked (sem_demo (wait_parent_step 6))"
proof -
  let ?s = "sem_demo (wait_parent_step 6)"
  have no: "\<nexists>s'. sem_step False (sem_child_step ''sem_wait failed'' 7) (wait_parent_step 6) ?s s'"
    using sem_demo_wait
    by (auto elim!: sem_step.cases simp: sem_child_step_def wait_parent_step_def sem_parent_end_def)
  then show ?thesis
    using semaphore_programs_end [OF sem_fork_started, of "wait_parent_step 6" 6 False "''sem_wait failed''" 7 ?s]
      sem_demo_reach [of "wait_parent_step 6"] sem_demo_wait by simp
qed

definition gave_up :: "int \<Rightarrow> int \<Rightarrow> sems" where
  "gave_up pid kid_pid = sem_run (sem_child_step ''sem_trywait failed'' kid_pid) (trywait_parent_step pid)
     (replicate 2 (True, False) @ replicate 13 (False, False)) sem_started"

lemma gave_up_value:
  "par (gave_up pid kid_pid) = M_exit 1 \<and> kid (gave_up pid kid_pid) = K_sleep \<and> \<not> sem_linked (gave_up pid kid_pid)"
  by (simp add: gave_up_def sem_started_def sem_child_step_def trywait_parent_step_def sem_parent_end_def sem_effects
      child_over_def TRY_COUNT_def numeral_eq_Suc)

text \<open>In the program with \<^verbatim>\<open>sem_wait\<close>, without failing calls: the name is there and nothing has failed until the
  parent unlinks it, which it does after the child has exited.\<close>

definition good_points :: "sem_parent set" where
  "good_points = {M_sleep, M_say, M_wait, M_got, M_post, M_close, M_reap, M_say_end, M_unlink, M_exit EXIT_SUCCESS}"

definition sem_good :: "sems \<Rightarrow> bool" where
  "sem_good s \<longleftrightarrow> kid s \<notin> {K_fail_close, K_fail_unlink} \<and> (\<forall>c. kid s = K_exit c \<longrightarrow> c = EXIT_SUCCESS)
     \<and> par s \<in> good_points \<and> (sem_linked s \<longleftrightarrow> par s \<noteq> M_exit EXIT_SUCCESS)
     \<and> (par s \<in> {M_say_end, M_unlink, M_exit EXIT_SUCCESS} \<longrightarrow> child_over (kid s))"

lemma sem_child_step_good:
  assumes "sem_good s" "sem_child_step complaint pid False s = Some s'"
  shows "sem_good s'"
  using assms
  by (cases "kid s") (auto simp: sem_child_step_def sem_good_def sem_effects child_over_def split: if_splits)

lemma wait_parent_good:
  assumes "sem_good s" "wait_parent_step pid False s = Some s'"
  shows "sem_good s'"
  using assms
  by (cases "par s") (auto simp: wait_parent_step_def sem_parent_end_def sem_good_def good_points_def sem_effects split: if_splits)

lemma wait_reach_good:
  assumes "sem_reach False (sem_child_step complaint kid_pid) (wait_parent_step pid) sem_started s"
  shows "sem_good s"
  using assms
proof (induction sem_started s rule: sem_reach.induct)
  case refl
  show ?case by (simp add: sem_good_def sem_started_def good_points_def)
next
  case (step s' s'')
  from step(3) show ?case
  proof cases
    case (child fails)
    with step(2) sem_child_step_good show ?thesis by (cases fails) auto
  next
    case (parent fails)
    with step(2) wait_parent_good show ?thesis by (cases fails) auto
  qed
qed

text \<open>Without any failing call: the parent with \<^verbatim>\<open>sem_wait\<close> exits only after the child and with success, but the five tries
  of \<^verbatim>\<open>sem_trywait\<close> do not make the parent wait for the child: in some run it has exited with failure and unlinked the
  semaphore while the child is still at work.\<close>

theorem trywait_gives_up:
  "(\<forall>s. sem_reach False (sem_child_step ''sem_wait failed'' kid_pid) (wait_parent_step pid) sem_started s
       \<longrightarrow> parent_over (par s) \<longrightarrow> par s = M_exit EXIT_SUCCESS \<and> kid s = K_exit EXIT_SUCCESS)
    \<and> (\<exists>s. sem_reach False (sem_child_step ''sem_trywait failed'' kid_pid) (trywait_parent_step pid) sem_started s
       \<and> par s = M_exit EXIT_FAILURE \<and> \<not> sem_linked s \<and> child_inside (kid s))"
proof (intro conjI allI impI)
  fix s
  assume r: "sem_reach False (sem_child_step ''sem_wait failed'' kid_pid) (wait_parent_step pid) sem_started s"
    and e: "parent_over (par s)"
  from wait_reach_good [OF r] e
  show "par s = M_exit EXIT_SUCCESS" by (auto simp: sem_good_def good_points_def parent_over_def)
  with wait_reach_good [OF r] show "kid s = K_exit EXIT_SUCCESS"
    by (auto simp: sem_good_def child_over_def split: sem_child.splits)
next
  have "sem_reach False (sem_child_step ''sem_trywait failed'' kid_pid) (trywait_parent_step pid) sem_started (gave_up pid kid_pid)"
    unfolding gave_up_def by (rule sem_run_reach) (auto intro: sem_reach.refl)
  then show "\<exists>s. sem_reach False (sem_child_step ''sem_trywait failed'' kid_pid) (trywait_parent_step pid) sem_started s
       \<and> par s = M_exit EXIT_FAILURE \<and> \<not> sem_linked s \<and> child_inside (kid s)"
    using gave_up_value [of pid kid_pid] by (auto simp: child_inside_def)
qed

lemma trywait_gives_up_witness:
  "kid (sem_demo (wait_parent_step 6)) = K_exit EXIT_SUCCESS"
  using trywait_gives_up [of 7 6] sem_demo_reach [of "wait_parent_step 6"] sem_demo_wait by (simp add: parent_over_def)

end
