(* ===== verification/Char_Table.thy ===== *)
theory Char_Table
  imports C_Prelude
begin

unbundle bit_operations_syntax

text \<open>
  \<^verbatim>\<open>src/character-types/is\<close>: the table of the 128 ASCII characters with their classes. A character is its code;
  \<^verbatim>\<open>is...\<close> and \<^verbatim>\<open>to...\<close> are the functions of \<^verbatim>\<open>ctype.h\<close> in the C locale. The theory shows that the
  columns of every row stand under those of the heading, and what the column of binary digits leaves out.
\<close>

section \<open>ctype.h in the C locale\<close>

definition isupper :: "nat \<Rightarrow> bool" where "isupper ch \<longleftrightarrow> 65 \<le> ch \<and> ch \<le> 90"

definition islower :: "nat \<Rightarrow> bool" where "islower ch \<longleftrightarrow> 97 \<le> ch \<and> ch \<le> 122"

definition isdigit :: "nat \<Rightarrow> bool" where "isdigit ch \<longleftrightarrow> 48 \<le> ch \<and> ch \<le> 57"

definition isalpha :: "nat \<Rightarrow> bool" where "isalpha ch \<longleftrightarrow> isupper ch \<or> islower ch"

definition isalnum :: "nat \<Rightarrow> bool" where "isalnum ch \<longleftrightarrow> isalpha ch \<or> isdigit ch"

definition isblank :: "nat \<Rightarrow> bool" where "isblank ch \<longleftrightarrow> ch = 32 \<or> ch = 9"

definition iscntrl :: "nat \<Rightarrow> bool" where "iscntrl ch \<longleftrightarrow> ch < 32 \<or> ch = 127"

definition isgraph :: "nat \<Rightarrow> bool" where "isgraph ch \<longleftrightarrow> 32 < ch \<and> ch < 127"

definition isprint :: "nat \<Rightarrow> bool" where "isprint ch \<longleftrightarrow> 32 \<le> ch \<and> ch < 127"

definition ispunct :: "nat \<Rightarrow> bool" where "ispunct ch \<longleftrightarrow> isgraph ch \<and> \<not> isalnum ch"

definition isspace :: "nat \<Rightarrow> bool" where "isspace ch \<longleftrightarrow> ch = 32 \<or> (9 \<le> ch \<and> ch \<le> 13)"

definition isxdigit :: "nat \<Rightarrow> bool" where
  "isxdigit ch \<longleftrightarrow> isdigit ch \<or> (65 \<le> ch \<and> ch \<le> 70) \<or> (97 \<le> ch \<and> ch \<le> 102)"

definition toupper :: "nat \<Rightarrow> nat" where "toupper ch = (if islower ch then ch - 32 else ch)"

definition tolower :: "nat \<Rightarrow> nat" where "tolower ch = (if isupper ch then ch + 32 else ch)"

lemmas ctype_classes = isupper_def islower_def isdigit_def isalpha_def isalnum_def isblank_def iscntrl_def isgraph_def
  isprint_def ispunct_def isspace_def isxdigit_def

section \<open>The table\<close>

text \<open>\<^verbatim>\<open>%*d\<close>, \<^verbatim>\<open>%3o\<close>, \<^verbatim>\<open>%3u\<close> and \<^verbatim>\<open>%3X\<close>.\<close>

definition pad_to :: "nat \<Rightarrow> string \<Rightarrow> string" where
  "pad_to w s = replicate (w - length s) SPACE @ s"

definition hex_digit :: "nat \<Rightarrow> char" where
  "hex_digit d = (if d < 10 then digit_char d else char_of (55 + d))"

fun base_nat :: "nat \<Rightarrow> nat \<Rightarrow> string" where
  "base_nat b n = (if b < 2 \<or> n < b then [hex_digit n] else base_nat b (n div b) @ [hex_digit (n mod b)])"

declare base_nat.simps [simp del]

text \<open>\<^verbatim>\<open>struct func_info\<close>; the last field prints the row for the name and the function of the same entry.\<close>

record func_info =
  fi_name :: string
  fi_func :: "nat \<Rightarrow> nat"
  fi_print_info :: "string \<Rightarrow> (nat \<Rightarrow> nat) \<Rightarrow> nat \<Rightarrow> string"

fun print_binary :: "uint32 \<Rightarrow> nat \<Rightarrow> string" where
  "print_binary ch 0 = []"
| "print_binary ch (Suc i) = dec_nat (unat (drop_bit (Suc i) ch AND 1)) @ print_binary ch i"

definition print_info_bool :: "string \<Rightarrow> (nat \<Rightarrow> nat) \<Rightarrow> nat \<Rightarrow> string" where
  "print_info_bool name func ch =
     (let num_spaces = length name + 1; value = (if func ch \<noteq> 0 then 1 else 0)
      in pad_to num_spaces (dec_nat value) @ '' |'')"

definition print_info_char :: "string \<Rightarrow> (nat \<Rightarrow> nat) \<Rightarrow> nat \<Rightarrow> string" where
  "print_info_char name func ch =
     (let num_spaces = length name + 1; value = func ch
      in if isspace value \<or> iscntrl value then pad_to num_spaces '' '' @ '' |''
         else if \<not> isprint value then pad_to (num_spaces + 1) [char_of value] @ '' |''
         else pad_to num_spaces [char_of value] @ '' |'')"

definition bool_info :: "string \<Rightarrow> (nat \<Rightarrow> bool) \<Rightarrow> func_info" where
  "bool_info name p = \<lparr>fi_name = name, fi_func = (\<lambda>ch. if p ch then 1 else 0), fi_print_info = print_info_bool\<rparr>"

definition func_infos :: "func_info list" where
  "func_infos =
     [bool_info ''alnum'' isalnum, bool_info ''alpha'' isalpha, bool_info ''blank'' isblank, bool_info ''cntrl'' iscntrl,
      bool_info ''digit'' isdigit, bool_info ''graph'' isgraph, bool_info ''lower'' islower, bool_info ''print'' isprint,
      bool_info ''punct'' ispunct, bool_info ''space'' isspace, bool_info ''upper'' isupper, bool_info ''xdigit'' isxdigit,
      \<lparr>fi_name = ''upper'', fi_func = toupper, fi_print_info = print_info_char\<rparr>,
      \<lparr>fi_name = ''lower'', fi_func = tolower, fi_print_info = print_info_char\<rparr>]"

definition BINARY_DIGITS :: nat where "BINARY_DIGITS = 6"

text \<open>The format made with \<^verbatim>\<open>snprintf\<close> prints a name with a space before it and a bar after it.\<close>

definition table_heading :: "func_info list \<Rightarrow> string" where
  "table_heading info = ''Char | Binary | Oct | Dec | Hex |'' @ concat (map (\<lambda>i. '' '' @ fi_name i @ '' |'') info)"

definition table_row :: "func_info list \<Rightarrow> nat \<Rightarrow> string" where
  "table_row info ch =
     [if isprint ch then char_of ch else SPACE] @ ''    | '' @ print_binary (word_of_nat ch) BINARY_DIGITS
     @ '' | '' @ pad_to 3 (base_nat 8 ch) @ '' | '' @ pad_to 3 (dec_nat ch) @ '' | '' @ pad_to 3 (base_nat 16 ch) @ '' |''
     @ concat (map (\<lambda>i. fi_print_info i (fi_name i) (fi_func i) ch) info)"

definition table_main :: string where
  "table_main =
     (let total_width = length (table_heading func_infos)
      in table_heading func_infos @ [NL] @ replicate total_width (CHR ''-'') @ [NL]
         @ concat (map (\<lambda>ch. table_row func_infos ch @ [NL]) [0..<128]))"

section \<open>Lemmas\<close>

lemma length_pad_to: "length (pad_to w s) = max w (length s)"
  by (simp add: pad_to_def)

lemma length_base_nat: "2 \<le> b \<Longrightarrow> n < b ^ k \<Longrightarrow> 0 < k \<Longrightarrow> length (base_nat b n) \<le> k"
proof (induction b n arbitrary: k rule: base_nat.induct)
  case (1 b n)
  show ?case
  proof (cases "n < b")
    case True
    with 1 show ?thesis by (simp add: base_nat.simps [of b n])
  next
    case False
    with 1 obtain j where k: "k = Suc j" "0 < j" by (cases k; cases "k - 1") auto
    with False 1 have "n div b < b ^ j" by (simp add: less_mult_imp_div_less mult.commute)
    with False k 1 have "length (base_nat b (n div b)) \<le> j" by simp
    with False k 1 show ?thesis by (simp add: base_nat.simps [of b n])
  qed
qed

lemma binary_digit: "unat (w AND 1 :: uint32) < 2"
  by (simp add: and_one_eq mod2_eq_if)

lemma length_print_binary: "length (print_binary ch n) = n"
proof (induction n)
  case (Suc n)
  have "unat (drop_bit (Suc n) ch AND 1) < 10" using binary_digit [of "drop_bit (Suc n) ch"] by simp
  with Suc show ?case by (simp add: dec_nat.simps [of "unat (drop_bit (Suc n) ch AND 1)"])
qed simp

lemma length_print_info_bool: "length (print_info_bool name func ch) = length name + 3"
  by (simp add: print_info_bool_def length_pad_to dec_nat.simps)

lemma length_print_info_char: "func ch < 128 \<Longrightarrow> length (print_info_char name func ch) = length name + 3"
  by (auto simp: print_info_char_def length_pad_to ctype_classes Let_def)

lemma toupper_ASCII: "ch < 128 \<Longrightarrow> toupper ch < 128"
  by (simp add: toupper_def less_imp_diff_less)

lemma tolower_ASCII: "ch < 128 \<Longrightarrow> tolower ch < 128"
  by (simp add: tolower_def isupper_def)

lemma length_func_info:
  assumes "i \<in> set func_infos" "ch < 128"
  shows "length (fi_print_info i (fi_name i) (fi_func i) ch) = length (fi_name i) + 3"
  using assms toupper_ASCII tolower_ASCII
  by (auto simp: func_infos_def bool_info_def length_print_info_bool length_print_info_char)

lemma length_concat_map_cong:
  "(\<And>x. x \<in> set xs \<Longrightarrow> length (f x) = length (g x)) \<Longrightarrow> length (concat (map f xs)) = length (concat (map g xs))"
  by (induction xs) auto

lemma print_binary_cong:
  "(\<And>i. 0 < i \<Longrightarrow> i \<le> n \<Longrightarrow> bit v i = bit w i) \<Longrightarrow> print_binary v n = print_binary w n"
proof (induction n)
  case (Suc n)
  have "drop_bit (Suc n) v AND 1 = drop_bit (Suc n) w AND 1"
    using Suc.prems [of "Suc n"] by (intro bit_word_eqI) (auto simp: bit_simps)
  with Suc show ?case by simp
qed simp

section \<open>Theorems about the program\<close>

text \<open>Every one of the 128 rows is as wide as the heading and the line under it, so that the columns stand
  below their titles, whatever the character is.\<close>

theorem table_aligned:
  assumes "ch < 128"
  shows "length (table_row func_infos ch) = length (table_heading func_infos)"
proof -
  have "length (base_nat 8 ch) \<le> 3" "length (base_nat 16 ch) \<le> 3" "length (dec_nat ch) \<le> 3"
    using length_base_nat [of 8 ch 3] length_base_nat [of 16 ch 3] length_dec_nat [of ch 3] assms by simp_all
  moreover have "length (concat (map (\<lambda>i. fi_print_info i (fi_name i) (fi_func i) ch) func_infos))
      = length (concat (map (\<lambda>i. '' '' @ fi_name i @ '' |'') func_infos))"
    using length_func_info assms by (intro length_concat_map_cong) simp
  ultimately show ?thesis
    by (simp add: table_row_def table_heading_def length_pad_to length_print_binary BINARY_DIGITS_def max_def)
qed

lemma table_aligned_witness: "length (table_row func_infos 127) = 146"
proof -
  have "length (table_heading func_infos) = 146"
    by (simp add: table_heading_def func_infos_def bool_info_def)
  then show ?thesis using table_aligned [of 127] by simp
qed

text \<open>The column of binary digits leaves out the lowest bit: the loop ends before it prints bit 0, so that an even
  code and the odd one after it have the same digits.\<close>

theorem binary_drops_bit_0:
  "print_binary (ch XOR 1) n = print_binary ch n \<and> length (print_binary ch n) = n"
  by (simp add: length_print_binary, rule print_binary_cong) (simp add: bit_simps)

end
