(* ===== verification/Byte_Order.thy ===== *)
theory Byte_Order
  imports Net_Sockets
begin

unbundle bit_operations_syntax

text \<open>
  \<^verbatim>\<open>src/endianness\<close>: the test for the byte order of the machine and the four programs that convert between
  host and network order. A machine is little-endian or not; its memory holds the bytes of a word in its order.
\<close>

section \<open>Memory\<close>

definition u16_bytes :: "bool \<Rightarrow> uint16 \<Rightarrow> uint8 list" where
  "u16_bytes little w = (if little then [ucast w, ucast (drop_bit 8 w)] else [ucast (drop_bit 8 w), ucast w])"

definition u32_bytes :: "bool \<Rightarrow> uint32 \<Rightarrow> uint8 list" where
  "u32_bytes little w =
     (let bytes = [ucast w, ucast (drop_bit 8 w), ucast (drop_bit 16 w), ucast (drop_bit 24 w)]
      in if little then bytes else rev bytes)"

definition is_little_endian :: "bool \<Rightarrow> bool" where
  "is_little_endian little = (let value = 1; byte = hd (u32_bytes little value) in byte = 1)"

definition endianness_main :: "bool \<Rightarrow> string" where
  "endianness_main little =
     (if is_little_endian little then ''Machine is little-endian.'' else ''Machine is big-endian.'') @ [NL]"

section \<open>Conversions\<close>

text \<open>\<^verbatim>\<open>htons\<close> and \<^verbatim>\<open>htonl\<close> of the C library; \<^verbatim>\<open>ntohs\<close> and \<^verbatim>\<open>ntohl\<close> are the same functions.\<close>

definition swap32 :: "uint32 \<Rightarrow> uint32" where
  "swap32 w = push_bit 24 (take_bit 8 w) OR push_bit 16 (take_bit 8 (drop_bit 8 w))
     OR push_bit 8 (take_bit 8 (drop_bit 16 w)) OR drop_bit 24 w"

definition htons_on :: "bool \<Rightarrow> uint16 \<Rightarrow> uint16" where
  "htons_on little w = (if little then htons w else w)"

definition htonl_on :: "bool \<Rightarrow> uint32 \<Rightarrow> uint32" where
  "htonl_on little w = (if little then swap32 w else w)"

definition value_lines :: "string \<Rightarrow> nat \<Rightarrow> string \<Rightarrow> nat \<Rightarrow> string" where
  "value_lines first v second w = first @ '' value: '' @ dec_nat v @ [NL] @ second @ '' value: '' @ dec_nat w @ [NL]"

definition htons_main :: "bool \<Rightarrow> string" where
  "htons_main little =
     (let host_value = 12345; network_value = htons_on little host_value
      in value_lines ''Host'' (unat host_value) ''Network'' (unat network_value))"

definition htonl_main :: "bool \<Rightarrow> string" where
  "htonl_main little =
     (let host_value = 0x12345678; network_value = htonl_on little host_value
      in value_lines ''Host'' (unat host_value) ''Network'' (unat network_value))"

definition ntohs_main :: "bool \<Rightarrow> string" where
  "ntohs_main little =
     (let network_value = 0x3039; host_value = htons_on little network_value
      in value_lines ''Network'' (unat network_value) ''Host'' (unat host_value))"

definition ntohl_main :: "bool \<Rightarrow> string" where
  "ntohl_main little =
     (let network_value = 0x78563412; host_value = htonl_on little network_value
      in value_lines ''Network'' (unat network_value) ''Host'' (unat host_value))"

section \<open>Lemmas\<close>

lemma bit_u32_less: "bit (w :: uint32) n \<Longrightarrow> n < 32"
  using bit_imp_le_length [of w n] by simp

lemma bit_swap32:
  "n < 8 \<Longrightarrow> bit (swap32 w) n = bit w (n + 24)"
  "8 \<le> n \<Longrightarrow> n < 16 \<Longrightarrow> bit (swap32 w) n = bit w (n + 8)"
  "16 \<le> n \<Longrightarrow> n < 24 \<Longrightarrow> bit (swap32 w) n = bit w (n - 8)"
  "24 \<le> n \<Longrightarrow> n < 32 \<Longrightarrow> bit (swap32 w) n = bit w (n - 24)"
  using bit_u32_less [of w "n + 24"] bit_u32_less [of w "n + 8"] bit_u32_less [of w "n - 8 + 16"]
  by (auto simp: swap32_def bit_simps ac_simps)

lemma swap32_swap32: "swap32 (swap32 w) = w"
proof (rule bit_word_eqI)
  fix n
  assume "n < LENGTH(32)"
  then consider "n < 8" | "8 \<le> n" "n < 16" | "16 \<le> n" "n < 24" | "24 \<le> n" "n < 32" by fastforce
  then show "bit (swap32 (swap32 w)) n \<longleftrightarrow> bit w n"
    by cases (simp_all add: bit_swap32)
qed

lemma byte_eqI: "(\<And>n. n < 8 \<Longrightarrow> bit v n = bit w n) \<Longrightarrow> v = (w :: uint8)"
  by (rule bit_word_eqI) simp

lemma bytes_swap32: "u32_bytes True (swap32 w) = u32_bytes False w"
proof -
  have "(ucast (swap32 w) :: uint8) = ucast (drop_bit 24 w)"
    by (rule byte_eqI) (simp add: bit_simps bit_swap32 ac_simps)
  moreover have "(ucast (drop_bit 8 (swap32 w)) :: uint8) = ucast (drop_bit 16 w)"
    by (rule byte_eqI) (simp add: bit_simps bit_swap32 ac_simps)
  moreover have "(ucast (drop_bit 16 (swap32 w)) :: uint8) = ucast (drop_bit 8 w)"
    by (rule byte_eqI) (simp add: bit_simps bit_swap32 ac_simps)
  moreover have "(ucast (drop_bit 24 (swap32 w)) :: uint8) = ucast w"
    by (rule byte_eqI) (simp add: bit_simps bit_swap32 ac_simps)
  ultimately show ?thesis by (simp add: u32_bytes_def Let_def)
qed

lemma bytes_htons: "u16_bytes True (htons w) = u16_bytes False w"
proof -
  have "(ucast (htons w) :: uint8) = ucast (drop_bit 8 w)"
    by (rule byte_eqI) (simp add: htons_def bit_simps ac_simps)
  moreover have "(ucast (drop_bit 8 (htons w)) :: uint8) = ucast w"
    using bit_imp_le_length [of w] by (intro byte_eqI) (auto simp: htons_def bit_simps ac_simps)
  ultimately show ?thesis by (simp add: u16_bytes_def)
qed

section \<open>Theorems about the programs\<close>

text \<open>On a machine of either byte order: the test tells the order; a converted value lies in memory most significant
  byte first; and converting to network order and back gives the value again.\<close>

theorem byte_order_roundtrip:
  "is_little_endian little = little
    \<and> u16_bytes little (htons_on little v) = [ucast (drop_bit 8 v), ucast v]
    \<and> u32_bytes little (htonl_on little w)
        = [ucast (drop_bit 24 w), ucast (drop_bit 16 w), ucast (drop_bit 8 w), ucast w]
    \<and> htons_on little (htons_on little v) = v \<and> htonl_on little (htonl_on little w) = w"
  using bytes_htons [of v] bytes_swap32 [of w]
  by (cases little)
    (simp_all add: is_little_endian_def htons_on_def htonl_on_def htons_htons swap32_swap32 u16_bytes_def u32_bytes_def)

text \<open>What the programs print on a little-endian machine.\<close>

lemma byte_order_mains:
  "htons_main True = value_lines ''Host'' 12345 ''Network'' 14640"
  "htonl_main True = value_lines ''Host'' 305419896 ''Network'' 2018915346"
  "ntohs_main True = value_lines ''Network'' 12345 ''Host'' 14640"
  "ntohl_main True = value_lines ''Network'' 2018915346 ''Host'' 305419896"
  by (simp_all add: htons_main_def htonl_main_def ntohs_main_def ntohl_main_def htons_on_def htonl_on_def htons_def swap32_def)

end
