(* ===== verification/Unix_Files.thy ===== *)
theory Unix_Files
  imports C_Prelude Char_Table
begin

unbundle bit_operations_syntax

text \<open>
  The part of a Unix kernel and of \<^verbatim>\<open>stdio\<close> that the programs under \<^verbatim>\<open>src/files\<close> and \<^verbatim>\<open>src/file-system\<close>
  call: names, inodes, descriptors and open descriptions, with every call able to fail. Programs are functions on
  this state; \<open>good\<close> is a program logic for them, whose rules for the calls are collected in \<open>unix_rules\<close>.
\<close>

named_theorems unix_rules \<open>rules of the program logic\<close>

section \<open>State\<close>

text \<open>The contents of an inode. A terminal holds what has been written to it; \<open>Special\<close> is a device, a FIFO or a
  socket of a given type. All names are in one directory.\<close>

datatype node = Regular string uint32 | Directory uint32 | Symlink string | Terminal string uint32 | Special uint32 uint32

record stat =
  st_mode :: uint32
  st_size :: nat
  st_ino :: nat
  st_dev :: nat
  st_nlink :: nat
  st_uid :: nat
  st_gid :: nat
  st_atime :: int
  st_mtime :: int
  st_ctime :: int

text \<open>\<open>u_meta\<close> has what the model does not track (owner, device, links, times); \<open>u_suffixes\<close> are the six characters
  that \<^verbatim>\<open>mkstemp\<close> will try; \<open>u_faults\<close> says which of the next calls fail with which error; \<open>u_stdout\<close> is what
  \<^verbatim>\<open>stdio\<close> still holds of the standard output.\<close>

record unix =
  u_names :: "string \<Rightarrow> nat option"
  u_nodes :: "nat \<Rightarrow> node option"
  u_meta :: "nat \<Rightarrow> stat"
  u_next :: nat
  u_fds :: "nat \<Rightarrow> nat option"
  u_open :: "nat \<Rightarrow> (nat \<times> nat) option"
  u_opened :: nat
  u_mask :: uint32
  u_suffixes :: "string list"
  u_faults :: "int option list"
  u_stdout :: string
  u_err :: "err_item list"

abbreviation (input) ENOENT :: int where "ENOENT \<equiv> 2"
abbreviation (input) EBADF :: int where "EBADF \<equiv> 9"
abbreviation (input) EEXIST :: int where "EEXIST \<equiv> 17"
abbreviation (input) ENOTDIR :: int where "ENOTDIR \<equiv> 20"
abbreviation (input) EISDIR :: int where "EISDIR \<equiv> 21"
abbreviation (input) EINVAL :: int where "EINVAL \<equiv> 22"
abbreviation (input) EMFILE :: int where "EMFILE \<equiv> 24"
abbreviation (input) ELOOP :: int where "ELOOP \<equiv> 40"

section \<open>Programs\<close>

datatype 'a uresult = Done 'a | Quit int

type_synonym 'a uprog = "unix \<Rightarrow> 'a uresult \<times> unix"

definition u_ret :: "'a \<Rightarrow> 'a uprog" where
  "u_ret v s = (Done v, s)"

definition u_exit :: "int \<Rightarrow> 'a uprog" where
  "u_exit n s = (Quit n, s)"

definition u_then :: "'a uprog \<Rightarrow> ('a \<Rightarrow> 'b uprog) \<Rightarrow> 'b uprog" where
  "u_then c k s = (case c s of (Done v, s') \<Rightarrow> k v s' | (Quit n, s') \<Rightarrow> (Quit n, s'))"

definition u_try :: "(int + 'a) uprog \<Rightarrow> (int \<Rightarrow> 'b uprog) \<Rightarrow> ('a \<Rightarrow> 'b uprog) \<Rightarrow> 'b uprog" where
  "u_try c h k = u_then c (\<lambda>r. case r of Inl e \<Rightarrow> h e | Inr v \<Rightarrow> k v)"

definition u_printf :: "string \<Rightarrow> unit uprog" where
  "u_printf text s = (Done (), s\<lparr>u_stdout := u_stdout s @ text\<rparr>)"

definition u_report :: "err_item \<Rightarrow> unit uprog" where
  "u_report e s = (Done (), s\<lparr>u_err := u_err s @ [e]\<rparr>)"

text \<open>\<^verbatim>\<open>perror\<close> followed by \<^verbatim>\<open>return EXIT_FAILURE\<close> or by \<^verbatim>\<open>exit(EXIT_FAILURE)\<close>.\<close>

definition u_fail :: "string \<Rightarrow> int uprog" where
  "u_fail message = u_then (u_report (Perror message)) (\<lambda>_. u_ret EXIT_FAILURE)"

definition u_die :: "string \<Rightarrow> 'a uprog" where
  "u_die message = u_then (u_report (Perror message)) (\<lambda>_. u_exit EXIT_FAILURE)"

text \<open>A call of the kernel, which fails when the next fault says so.\<close>

definition u_sys :: "(unix \<Rightarrow> (int + 'a) \<times> unix) \<Rightarrow> (int + 'a) uprog" where
  "u_sys call s =
     (case u_faults s of
        [] \<Rightarrow> (case call s of (r, s') \<Rightarrow> (Done r, s'))
      | None # fs \<Rightarrow> (case call (s\<lparr>u_faults := fs\<rparr>) of (r, s') \<Rightarrow> (Done r, s'))
      | Some e # fs \<Rightarrow> (Done (Inl e), s\<lparr>u_faults := fs\<rparr>))"

section \<open>Names and inodes\<close>

fun resolve :: "nat \<Rightarrow> unix \<Rightarrow> string \<Rightarrow> string option" where
  "resolve 0 s path = None"
| "resolve (Suc n) s path =
     (case u_names s path of
        Some i \<Rightarrow> (case u_nodes s i of Some (Symlink target) \<Rightarrow> resolve n s target | _ \<Rightarrow> Some path)
      | None \<Rightarrow> Some path)"

definition final_name :: "unix \<Rightarrow> string \<Rightarrow> string option" where
  "final_name s path = resolve 40 s path"

text \<open>The inode a path leads to, following symbolic links.\<close>

definition lookup :: "unix \<Rightarrow> string \<Rightarrow> int + nat" where
  "lookup s path =
     (case final_name s path of
        None \<Rightarrow> Inl ELOOP
      | Some q \<Rightarrow> (case u_names s q of None \<Rightarrow> Inl ENOENT | Some i \<Rightarrow> Inr i))"

definition new_inode :: "string \<Rightarrow> node \<Rightarrow> unix \<Rightarrow> unix" where
  "new_inode path nd s =
     s\<lparr>u_names := (u_names s)(path \<mapsto> u_next s), u_nodes := (u_nodes s)(u_next s \<mapsto> nd), u_next := Suc (u_next s)\<rparr>"

definition k_access :: "string \<Rightarrow> unix \<Rightarrow> (int + unit) \<times> unix" where
  "k_access path s = (case lookup s path of Inl e \<Rightarrow> (Inl e, s) | Inr i \<Rightarrow> (Inr (), s))"

fun node_mode :: "node \<Rightarrow> uint32" where
  "node_mode (Regular d m) = 0x8000 OR m"
| "node_mode (Directory m) = 0x4000 OR m"
| "node_mode (Symlink t) = 0xA000 OR 0x1FF"
| "node_mode (Terminal d m) = 0x2000 OR m"
| "node_mode (Special k m) = k OR m"

fun node_size :: "node \<Rightarrow> nat" where
  "node_size (Regular d m) = length d"
| "node_size (Symlink t) = length t"
| "node_size nd = 0"

definition stat_of :: "unix \<Rightarrow> nat \<Rightarrow> int + stat" where
  "stat_of s i =
     (case u_nodes s i of
        None \<Rightarrow> Inl ENOENT
      | Some nd \<Rightarrow> Inr ((u_meta s i)\<lparr>st_mode := node_mode nd, st_size := node_size nd, st_ino := i\<rparr>))"

definition k_stat :: "string \<Rightarrow> unix \<Rightarrow> (int + stat) \<times> unix" where
  "k_stat path s = (case lookup s path of Inl e \<Rightarrow> (Inl e, s) | Inr i \<Rightarrow> (stat_of s i, s))"

definition k_lstat :: "string \<Rightarrow> unix \<Rightarrow> (int + stat) \<times> unix" where
  "k_lstat path s = (case u_names s path of None \<Rightarrow> (Inl ENOENT, s) | Some i \<Rightarrow> (stat_of s i, s))"

definition k_unlink :: "string \<Rightarrow> unix \<Rightarrow> (int + unit) \<times> unix" where
  "k_unlink path s =
     (case u_names s path of
        None \<Rightarrow> (Inl ENOENT, s)
      | Some i \<Rightarrow> (case u_nodes s i of
            Some (Directory m) \<Rightarrow> (Inl EISDIR, s)
          | _ \<Rightarrow> (Inr (), s\<lparr>u_names := (u_names s)(path := None)\<rparr>)))"

definition k_link :: "string \<Rightarrow> string \<Rightarrow> unix \<Rightarrow> (int + unit) \<times> unix" where
  "k_link source target s =
     (case u_names s source of
        None \<Rightarrow> (Inl ENOENT, s)
      | Some i \<Rightarrow>
          if u_names s target \<noteq> None then (Inl EEXIST, s)
          else (case u_nodes s i of
                  Some (Directory m) \<Rightarrow> (Inl 1, s)
                | _ \<Rightarrow> (Inr (), s\<lparr>u_names := (u_names s)(target \<mapsto> i)\<rparr>)))"

definition is_directory :: "unix \<Rightarrow> nat \<Rightarrow> bool" where
  "is_directory s i \<longleftrightarrow> (case u_nodes s i of Some (Directory m) \<Rightarrow> True | _ \<Rightarrow> False)"

definition k_rename :: "string \<Rightarrow> string \<Rightarrow> unix \<Rightarrow> (int + unit) \<times> unix" where
  "k_rename source target s =
     (case u_names s source of
        None \<Rightarrow> (Inl ENOENT, s)
      | Some i \<Rightarrow>
          (case u_names s target of
             Some j \<Rightarrow>
               if j = i then (Inr (), s)
               else if is_directory s j \<and> \<not> is_directory s i then (Inl EISDIR, s)
               else if is_directory s i \<and> \<not> is_directory s j then (Inl ENOTDIR, s)
               else (Inr (), s\<lparr>u_names := (u_names s)(source := None, target \<mapsto> i)\<rparr>)
           | None \<Rightarrow> (Inr (), s\<lparr>u_names := (u_names s)(source := None, target \<mapsto> i)\<rparr>)))"

definition k_symlink :: "string \<Rightarrow> string \<Rightarrow> unix \<Rightarrow> (int + unit) \<times> unix" where
  "k_symlink target path s =
     (if u_names s path \<noteq> None then (Inl EEXIST, s) else (Inr (), new_inode path (Symlink target) s))"

definition k_mkdir :: "string \<Rightarrow> uint32 \<Rightarrow> unix \<Rightarrow> (int + unit) \<times> unix" where
  "k_mkdir path mode s =
     (if u_names s path \<noteq> None then (Inl EEXIST, s)
      else (Inr (), new_inode path (Directory (mode AND NOT (u_mask s))) s))"

definition k_rmdir :: "string \<Rightarrow> unix \<Rightarrow> (int + unit) \<times> unix" where
  "k_rmdir path s =
     (case u_names s path of
        None \<Rightarrow> (Inl ENOENT, s)
      | Some i \<Rightarrow> if is_directory s i then (Inr (), s\<lparr>u_names := (u_names s)(path := None)\<rparr>) else (Inl ENOTDIR, s))"

fun node_chmod :: "uint32 \<Rightarrow> node \<Rightarrow> node" where
  "node_chmod mode (Regular d m) = Regular d mode"
| "node_chmod mode (Directory m) = Directory mode"
| "node_chmod mode (Symlink t) = Symlink t"
| "node_chmod mode (Terminal d m) = Terminal d mode"
| "node_chmod mode (Special k m) = Special k mode"

definition k_chmod :: "string \<Rightarrow> uint32 \<Rightarrow> unix \<Rightarrow> (int + unit) \<times> unix" where
  "k_chmod path mode s =
     (case lookup s path of
        Inl e \<Rightarrow> (Inl e, s)
      | Inr i \<Rightarrow> (Inr (), s\<lparr>u_nodes := (u_nodes s)(i := map_option (node_chmod mode) (u_nodes s i))\<rparr>))"

text \<open>A file of another length: cut, or filled with NULs.\<close>

definition resize :: "nat \<Rightarrow> string \<Rightarrow> string" where
  "resize n d = take n d @ replicate (n - length d) NUL"

definition truncate_inode :: "nat \<Rightarrow> nat \<Rightarrow> unix \<Rightarrow> (int + unit) \<times> unix" where
  "truncate_inode i n s =
     (case u_nodes s i of
        Some (Regular d m) \<Rightarrow> (Inr (), s\<lparr>u_nodes := (u_nodes s)(i \<mapsto> Regular (resize n d) m)\<rparr>)
      | Some (Directory m) \<Rightarrow> (Inl EISDIR, s)
      | _ \<Rightarrow> (Inl EINVAL, s))"

definition k_truncate :: "string \<Rightarrow> nat \<Rightarrow> unix \<Rightarrow> (int + unit) \<times> unix" where
  "k_truncate path n s = (case lookup s path of Inl e \<Rightarrow> (Inl e, s) | Inr i \<Rightarrow> truncate_inode i n s)"

definition u_umask :: "uint32 \<Rightarrow> uint32 uprog" where
  "u_umask bits s = (Done (u_mask s), s\<lparr>u_mask := bits AND 0x1FF\<rparr>)"

section \<open>Descriptors\<close>

fun first_free :: "(nat \<Rightarrow> nat option) \<Rightarrow> nat \<Rightarrow> nat \<Rightarrow> nat option" where
  "first_free fds n 0 = None"
| "first_free fds n (Suc k) = (if fds n = None then Some n else first_free fds (Suc n) k)"

definition free_fd :: "unix \<Rightarrow> nat option" where
  "free_fd s = first_free (u_fds s) 0 1024"

definition install :: "nat \<Rightarrow> nat \<Rightarrow> unix \<Rightarrow> unix" where
  "install fd i s =
     s\<lparr>u_fds := (u_fds s)(fd \<mapsto> u_opened s), u_open := (u_open s)(u_opened s \<mapsto> (i, 0)), u_opened := Suc (u_opened s)\<rparr>"

text \<open>\<^verbatim>\<open>open\<close> with \<^verbatim>\<open>O_RDONLY\<close>, and with \<^verbatim>\<open>O_WRONLY | O_CREAT | O_TRUNC\<close> and mode 0666 as \<^verbatim>\<open>fopen\<close> calls it.\<close>

definition k_open_read :: "string \<Rightarrow> unix \<Rightarrow> (int + nat) \<times> unix" where
  "k_open_read path s =
     (case free_fd s of
        None \<Rightarrow> (Inl EMFILE, s)
      | Some fd \<Rightarrow> (case lookup s path of Inl e \<Rightarrow> (Inl e, s) | Inr i \<Rightarrow> (Inr fd, install fd i s)))"

fun cut_node :: "node \<Rightarrow> node" where
  "cut_node (Regular d m) = Regular [] m"
| "cut_node nd = nd"

definition k_open_write :: "string \<Rightarrow> unix \<Rightarrow> (int + nat) \<times> unix" where
  "k_open_write path s =
     (case free_fd s of
        None \<Rightarrow> (Inl EMFILE, s)
      | Some fd \<Rightarrow>
          (case final_name s path of
             None \<Rightarrow> (Inl ELOOP, s)
           | Some q \<Rightarrow>
               (case u_names s q of
                  None \<Rightarrow> (Inr fd, install fd (u_next s) (new_inode q (Regular [] (0x1B6 AND NOT (u_mask s))) s))
                | Some i \<Rightarrow>
                    if is_directory s i then (Inl EISDIR, s)
                    else (Inr fd, install fd i (s\<lparr>u_nodes := (u_nodes s)(i := map_option cut_node (u_nodes s i))\<rparr>)))))"

definition inode_of :: "unix \<Rightarrow> nat \<Rightarrow> (nat \<times> nat \<times> nat) option" where
  "inode_of s fd =
     (case u_fds s fd of
        None \<Rightarrow> None
      | Some d \<Rightarrow> (case u_open s d of None \<Rightarrow> None | Some (i, pos) \<Rightarrow> Some (d, i, pos)))"

definition write_at :: "nat \<Rightarrow> string \<Rightarrow> string \<Rightarrow> string" where
  "write_at pos text d = take pos d @ replicate (pos - length d) NUL @ text @ drop (pos + length text) d"

definition k_write :: "nat \<Rightarrow> string \<Rightarrow> unix \<Rightarrow> (int + unit) \<times> unix" where
  "k_write fd text s =
     (case inode_of s fd of
        None \<Rightarrow> (Inl EBADF, s)
      | Some (d, i, pos) \<Rightarrow>
          (case u_nodes s i of
             Some (Regular data m) \<Rightarrow>
               (Inr (), s\<lparr>u_nodes := (u_nodes s)(i \<mapsto> Regular (write_at pos text data) m),
                         u_open := (u_open s)(d \<mapsto> (i, pos + length text))\<rparr>)
           | Some (Terminal data m) \<Rightarrow> (Inr (), s\<lparr>u_nodes := (u_nodes s)(i \<mapsto> Terminal (data @ text) m)\<rparr>)
           | _ \<Rightarrow> (Inl EBADF, s)))"

text \<open>A read of up to \<open>n\<close> characters of a regular file.\<close>

definition k_read :: "nat \<Rightarrow> nat \<Rightarrow> unix \<Rightarrow> (int + string) \<times> unix" where
  "k_read fd n s =
     (case inode_of s fd of
        None \<Rightarrow> (Inl EBADF, s)
      | Some (d, i, pos) \<Rightarrow>
          (case u_nodes s i of
             Some (Regular data m) \<Rightarrow>
               let text = take n (drop pos data)
               in (Inr text, s\<lparr>u_open := (u_open s)(d \<mapsto> (i, pos + length text))\<rparr>)
           | Some (Directory m) \<Rightarrow> (Inl EISDIR, s)
           | _ \<Rightarrow> (Inl EBADF, s)))"

definition k_fstat :: "nat \<Rightarrow> unix \<Rightarrow> (int + stat) \<times> unix" where
  "k_fstat fd s = (case inode_of s fd of None \<Rightarrow> (Inl EBADF, s) | Some (d, i, pos) \<Rightarrow> (stat_of s i, s))"

definition k_ftruncate :: "nat \<Rightarrow> nat \<Rightarrow> unix \<Rightarrow> (int + unit) \<times> unix" where
  "k_ftruncate fd n s = (case inode_of s fd of None \<Rightarrow> (Inl EBADF, s) | Some (d, i, pos) \<Rightarrow> truncate_inode i n s)"

definition k_dup :: "nat \<Rightarrow> unix \<Rightarrow> (int + nat) \<times> unix" where
  "k_dup fd s =
     (case u_fds s fd of
        None \<Rightarrow> (Inl EBADF, s)
      | Some d \<Rightarrow>
          (case free_fd s of
             None \<Rightarrow> (Inl EMFILE, s)
           | Some fd' \<Rightarrow> (Inr fd', s\<lparr>u_fds := (u_fds s)(fd' \<mapsto> d)\<rparr>)))"

definition k_dup2 :: "nat \<Rightarrow> nat \<Rightarrow> unix \<Rightarrow> (int + nat) \<times> unix" where
  "k_dup2 fd fd' s =
     (case u_fds s fd of
        None \<Rightarrow> (Inl EBADF, s)
      | Some d \<Rightarrow> (Inr fd', s\<lparr>u_fds := (u_fds s)(fd' \<mapsto> d)\<rparr>))"

text \<open>\<^verbatim>\<open>close\<close> gives the descriptor up even when it reports an error, as on Linux.\<close>

definition u_close :: "nat \<Rightarrow> (int + unit) uprog" where
  "u_close fd s =
     (if u_fds s fd = None then u_sys (\<lambda>s. (Inl EBADF, s)) s
      else u_sys (\<lambda>s. (Inr (), s)) (s\<lparr>u_fds := (u_fds s)(fd := None)\<rparr>))"

text \<open>\<^verbatim>\<open>mkstemp\<close> and \<^verbatim>\<open>mkdtemp\<close>: the six characters at the end of the template are replaced.\<close>

definition temp_name :: "unix \<Rightarrow> string \<Rightarrow> string option" where
  "temp_name s prefix =
     (case filter (\<lambda>x. u_names s (prefix @ x) = None) (u_suffixes s) of [] \<Rightarrow> None | x # _ \<Rightarrow> Some (prefix @ x))"

definition k_mkstemp :: "string \<Rightarrow> unix \<Rightarrow> (int + nat \<times> string) \<times> unix" where
  "k_mkstemp prefix s =
     (case free_fd s of
        None \<Rightarrow> (Inl EMFILE, s)
      | Some fd \<Rightarrow>
          (case temp_name s prefix of
             None \<Rightarrow> (Inl EEXIST, s)
           | Some path \<Rightarrow> (Inr (fd, path), install fd (u_next s) (new_inode path (Regular [] 0x180) s))))"

definition k_mkdtemp :: "string \<Rightarrow> unix \<Rightarrow> (int + string) \<times> unix" where
  "k_mkdtemp prefix s =
     (case temp_name s prefix of
        None \<Rightarrow> (Inl EEXIST, s)
      | Some path \<Rightarrow> (Inr path, new_inode path (Directory 0x1C0) s))"

section \<open>Streams\<close>

text \<open>A \<^verbatim>\<open>FILE\<close> opened for writing: its descriptor and what \<^verbatim>\<open>fprintf\<close> has left in its buffer. \<^verbatim>\<open>fclose\<close> writes
  the buffer and closes the descriptor, also when it fails.\<close>

type_synonym stream = "nat \<times> string"

definition u_fopen :: "string \<Rightarrow> (int + stream) uprog" where
  "u_fopen path = u_try (u_sys (k_open_write path)) (\<lambda>e. u_ret (Inl e)) (\<lambda>fd. u_ret (Inr (fd, [])))"

definition u_fprintf :: "stream \<Rightarrow> string \<Rightarrow> (int + stream) uprog" where
  "u_fprintf f text = u_sys (\<lambda>s. (Inr (fst f, snd f @ text), s))"

definition u_fclose :: "stream \<Rightarrow> (int + unit) uprog" where
  "u_fclose f =
     u_try (if snd f = [] then u_ret (Inr ()) else u_sys (k_write (fst f) (snd f)))
       (\<lambda>e. u_then (u_close (fst f)) (\<lambda>_. u_ret (Inl e))) (\<lambda>_. u_close (fst f))"

text \<open>\<^verbatim>\<open>fflush(stdout)\<close>, and what happens at the end of the process.\<close>

definition u_fflush :: "(int + unit) uprog" where
  "u_fflush s =
     (if u_stdout s = [] then (Done (Inr ()), s)
      else u_try (u_sys (k_write 1 (u_stdout s))) (\<lambda>e. u_ret (Inl e)) (\<lambda>_ s. (Done (Inr ()), s\<lparr>u_stdout := []\<rparr>)) s)"

definition u_process :: "int uprog \<Rightarrow> unix \<Rightarrow> int \<times> unix" where
  "u_process main s =
     (case main s of
        (Done n, s') \<Rightarrow> (n, snd (u_fflush s'))
      | (Quit n, s') \<Rightarrow> (n, snd (u_fflush s')))"

section \<open>Program logic\<close>

text \<open>When the precondition holds, the program returns with the postcondition or calls \<^verbatim>\<open>exit\<close> with another status
  than success, whatever calls fail.\<close>

definition good :: "(unix \<Rightarrow> bool) \<Rightarrow> 'a uprog \<Rightarrow> ('a \<Rightarrow> unix \<Rightarrow> bool) \<Rightarrow> bool" where
  "good P c Q \<longleftrightarrow> (\<forall>s. P s \<longrightarrow> (case c s of (Done v, s') \<Rightarrow> Q v s' | (Quit n, s') \<Rightarrow> n \<noteq> 0))"

text \<open>Conditions on names, inodes and descriptors only.\<close>

definition framed :: "(unix \<Rightarrow> bool) \<Rightarrow> bool" where
  "framed P \<longleftrightarrow> (\<forall>s f t e m. P (s\<lparr>u_faults := f\<rparr>) = P s \<and> P (s\<lparr>u_stdout := t\<rparr>) = P s \<and> P (s\<lparr>u_err := e\<rparr>) = P s
     \<and> P (s\<lparr>u_mask := m\<rparr>) = P s)"

lemma good_ret: "(\<And>s. P s \<Longrightarrow> Q v s) \<Longrightarrow> good P (u_ret v) Q"
  by (simp add: good_def u_ret_def)

lemma good_exit: "n \<noteq> 0 \<Longrightarrow> good P (u_exit n) Q"
  by (simp add: good_def u_exit_def)

lemma good_then [unix_rules]: "good P c Q \<Longrightarrow> (\<And>v. good (Q v) (k v) R) \<Longrightarrow> good P (u_then c k) R"
  unfolding good_def u_then_def by (fastforce split: uresult.splits prod.splits)

lemma good_try [unix_rules]:
  assumes "good P c (\<lambda>r s. case r of Inl e \<Rightarrow> E e s | Inr v \<Rightarrow> Q v s)"
    and "\<And>e. good (E e) (h e) R" "\<And>v. good (Q v) (k v) R"
  shows "good P (u_try c h k) R"
  unfolding u_try_def
proof (rule good_then [OF assms(1)])
  fix r
  show "good (\<lambda>s. case r of Inl e \<Rightarrow> E e s | Inr v \<Rightarrow> Q v s) (case r of Inl e \<Rightarrow> h e | Inr v \<Rightarrow> k v) R"
    using assms(2,3) by (cases r) simp_all
qed

lemma good_pair [unix_rules]: "(\<And>a b. good (P (a, b)) (f a b) R) \<Longrightarrow> good (P v) (case v of (a, b) \<Rightarrow> f a b) R"
  by (cases v) simp

lemma good_case_pair:
  "(\<And>a b. good (P a b) (f a b) R) \<Longrightarrow> good (\<lambda>s. case v of (a, b) \<Rightarrow> P a b s) (case v of (a, b) \<Rightarrow> f a b) R"
  by (cases v) simp

lemma good_pre: "good P c Q \<Longrightarrow> (\<And>s. P' s \<Longrightarrow> P s) \<Longrightarrow> good P' c Q"
  by (simp add: good_def)

lemma good_post: "good P c Q \<Longrightarrow> (\<And>v s. Q v s \<Longrightarrow> Q' v s) \<Longrightarrow> good P c Q'"
  unfolding good_def by (fastforce split: uresult.splits prod.splits)

lemma good_printf [unix_rules]: "framed P \<Longrightarrow> good P (u_printf text) (\<lambda>_. P)"
  by (simp add: good_def u_printf_def framed_def)

lemma good_report [unix_rules]: "framed P \<Longrightarrow> good P (u_report e) (\<lambda>_. P)"
  by (simp add: good_def u_report_def framed_def)

lemma good_umask [unix_rules]: "framed P \<Longrightarrow> good P (u_umask m) (\<lambda>_. P)"
  by (simp add: good_def u_umask_def framed_def)

lemma good_fail [unix_rules]: "good P (u_fail message) (\<lambda>status s. status = 0 \<longrightarrow> R s)"
  by (simp add: good_def u_fail_def u_then_def u_report_def u_ret_def)

lemma good_die [unix_rules]: "good P (u_die message) Q"
  by (simp add: good_def u_die_def u_then_def u_report_def u_exit_def)

text \<open>A call that leaves the state alone when it fails.\<close>

lemma good_sys:
  assumes "framed P"
    and "\<And>s. P s \<Longrightarrow> (case call s of (Inl e, s') \<Rightarrow> P s' | (Inr v, s') \<Rightarrow> Q v s')"
  shows "good P (u_sys call) (\<lambda>r s. case r of Inl e \<Rightarrow> P s | Inr v \<Rightarrow> Q v s)"
proof -
  have step: "case (case call t of (r, s') \<Rightarrow> (Done r, s')) of
      (Done r, s') \<Rightarrow> (case r of Inl e \<Rightarrow> P s' | Inr v \<Rightarrow> Q v s') | (Quit n, s') \<Rightarrow> n \<noteq> 0" if "P t" for t
    using assms(2) [OF that] by (auto split: prod.splits sum.splits)
  have faults: "P (t\<lparr>u_faults := fs\<rparr>)" if "P t" for t fs
    using assms(1) that by (simp add: framed_def)
  show ?thesis
    unfolding good_def u_sys_def using step faults
    by (intro allI impI, simp split: list.split option.split)
qed

section \<open>What is known of the file system\<close>

definition not_link :: "unix \<Rightarrow> string \<Rightarrow> bool" where
  "not_link s path \<longleftrightarrow>
     (case u_names s path of
        None \<Rightarrow> True
      | Some i \<Rightarrow> (case u_nodes s i of Some (Symlink t) \<Rightarrow> False | _ \<Rightarrow> True))"

lemma not_link_frame [simp]:
  "not_link (s\<lparr>u_faults := f\<rparr>) path = not_link s path" "not_link (s\<lparr>u_stdout := t\<rparr>) path = not_link s path"
  "not_link (s\<lparr>u_err := e\<rparr>) path = not_link s path" "not_link (s\<lparr>u_mask := m\<rparr>) path = not_link s path"
  "not_link (s\<lparr>u_fds := d\<rparr>) path = not_link s path" "not_link (s\<lparr>u_open := od\<rparr>) path = not_link s path"
  "not_link (s\<lparr>u_opened := n\<rparr>) path = not_link s path" "not_link (s\<lparr>u_next := k\<rparr>) path = not_link s path"
  by (simp_all add: not_link_def cong: option.case_cong node.case_cong)

text \<open>Apart from the names in \<open>A\<close>, of which nothing is known, the names are those of \<open>N\<close>, without those in \<open>B\<close>; the
  descriptors are those of \<open>D\<close>; the names in \<open>L\<close> are no symbolic links.\<close>

definition fs_at :: "(string \<Rightarrow> nat option) \<Rightarrow> (nat \<Rightarrow> nat option) \<Rightarrow> string set \<Rightarrow> string set \<Rightarrow> string set \<Rightarrow> unix \<Rightarrow> bool" where
  "fs_at N D A B L s \<longleftrightarrow>
     (\<forall>p. p \<notin> A \<longrightarrow> u_names s p = (if p \<in> B then None else N p)) \<and> u_fds s = D \<and> (\<forall>p \<in> L. not_link s p)"

text \<open>The same with one more descriptor.\<close>

definition fs_open :: "(string \<Rightarrow> nat option) \<Rightarrow> (nat \<Rightarrow> nat option) \<Rightarrow> string set \<Rightarrow> string set \<Rightarrow> string set \<Rightarrow> nat \<Rightarrow> unix \<Rightarrow> bool"
  where "fs_open N D A B L fd s \<longleftrightarrow> D fd = None \<and> (\<exists>d. fs_at N (D(fd \<mapsto> d)) A B L s)"

lemma framed_fs [simp]: "framed (fs_at N D A B L)" "framed (fs_open N D A B L fd)"
  by (auto simp: framed_def fs_at_def fs_open_def)

lemma framed_conj [simp]: "framed P \<Longrightarrow> framed (\<lambda>s. c \<and> P s)"
  by (simp add: framed_def)

lemma first_free_None: "first_free fds n k = Some fd \<Longrightarrow> fds fd = None"
  by (induction fds n k rule: first_free.induct) (auto split: if_splits)

lemma free_fd_None: "free_fd s = Some fd \<Longrightarrow> u_fds s fd = None"
  by (auto simp: free_fd_def dest: first_free_None)

lemma not_link_final_name: "not_link s path \<Longrightarrow> final_name s path = Some path"
proof -
  have "resolve (Suc n) s path = Some path" if "not_link s path" for n
    using that by (auto simp: not_link_def split: option.splits node.splits)
  moreover have "(40 :: nat) = Suc 39" by simp
  ultimately show "not_link s path \<Longrightarrow> final_name s path = Some path" by (metis final_name_def)
qed

text \<open>Calls that change nothing of this.\<close>

lemma good_reading:
  assumes "framed P" "\<And>s. snd (call s) = s"
  shows "good P (u_sys call) (\<lambda>r s. case r of Inl e \<Rightarrow> P s | Inr v \<Rightarrow> P s)"
proof (rule good_sys [OF assms(1)])
  fix s
  assume "P s"
  with assms(2) [of s] show "case call s of (Inl e, s') \<Rightarrow> P s' | (Inr v, s') \<Rightarrow> P s'"
    by (auto split: prod.splits sum.splits)
qed

lemma good_access [unix_rules]: "framed P \<Longrightarrow> good P (u_sys (k_access p)) (\<lambda>r s. case r of Inl e \<Rightarrow> P s | Inr v \<Rightarrow> P s)"
  by (erule good_reading) (simp add: k_access_def split: sum.split)

lemma good_stat [unix_rules]: "framed P \<Longrightarrow> good P (u_sys (k_stat p)) (\<lambda>r s. case r of Inl e \<Rightarrow> P s | Inr v \<Rightarrow> P s)"
  by (erule good_reading) (simp add: k_stat_def split: sum.split)

lemma good_lstat [unix_rules]: "framed P \<Longrightarrow> good P (u_sys (k_lstat p)) (\<lambda>r s. case r of Inl e \<Rightarrow> P s | Inr v \<Rightarrow> P s)"
  by (erule good_reading) (simp add: k_lstat_def split: option.split)

lemma good_fstat [unix_rules]: "framed P \<Longrightarrow> good P (u_sys (k_fstat fd)) (\<lambda>r s. case r of Inl e \<Rightarrow> P s | Inr v \<Rightarrow> P s)"
  by (erule good_reading) (simp add: k_fstat_def split: option.split prod.split)

text \<open>Changing an inode to one that is no link either.\<close>

definition keeps_kind :: "node option \<Rightarrow> node option \<Rightarrow> bool" where
  "keeps_kind nd nd' \<longleftrightarrow> ((\<exists>t. nd' = Some (Symlink t)) \<longrightarrow> nd' = nd)"

lemma not_link_node:
  "not_link s p \<Longrightarrow> keeps_kind (u_nodes s i) nd \<Longrightarrow> not_link (s\<lparr>u_nodes := (u_nodes s)(i := nd)\<rparr>) p"
  by (auto simp: not_link_def keeps_kind_def split: option.splits node.splits if_splits)

lemma fs_at_node:
  assumes "fs_at N D A B L s" "keeps_kind (u_nodes s i) nd"
  shows "fs_at N D A B L (s\<lparr>u_nodes := (u_nodes s)(i := nd)\<rparr>)"
  using assms not_link_node by (auto simp: fs_at_def)

lemma fs_open_node:
  assumes "fs_open N D A B L fd s" "keeps_kind (u_nodes s i) nd"
  shows "fs_open N D A B L fd (s\<lparr>u_nodes := (u_nodes s)(i := nd)\<rparr>)"
proof -
  obtain d where d: "D fd = None" "fs_at N (D(fd \<mapsto> d)) A B L s" using assms(1) by (auto simp: fs_open_def)
  show ?thesis unfolding fs_open_def using d(1) fs_at_node [OF d(2) assms(2)] by blast
qed

lemma fs_at_open [simp]: "fs_at N D A B L (s\<lparr>u_open := x\<rparr>) = fs_at N D A B L s"
  by (simp add: fs_at_def)

lemma fs_open_open [simp]: "fs_open N D A B L fd (s\<lparr>u_open := x\<rparr>) = fs_open N D A B L fd s"
  by (simp add: fs_open_def)

lemma fs_node_open:
  "fs_at N D A B L s \<Longrightarrow> keeps_kind (u_nodes s i) nd
    \<Longrightarrow> fs_at N D A B L (s\<lparr>u_nodes := (u_nodes s)(i := nd), u_open := x\<rparr>)"
  "fs_open N D A B L fd s \<Longrightarrow> keeps_kind (u_nodes s i) nd
    \<Longrightarrow> fs_open N D A B L fd (s\<lparr>u_nodes := (u_nodes s)(i := nd), u_open := x\<rparr>)"
  using fs_at_node [of N D A B L s i nd] fs_open_node [of N D A B L fd s i nd]
  by (auto simp: fs_at_def fs_open_def)

lemma keeps_kind_simps [simp]:
  "keeps_kind nd nd" "keeps_kind nd (Some (Regular d m))" "keeps_kind nd (Some (Terminal d m))"
  "keeps_kind (Some x) (Some (node_chmod m x))" "keeps_kind (Some x) (Some (cut_node x))" "keeps_kind None None"
  by (simp_all add: keeps_kind_def) (cases x; simp)+

lemma good_write_at [unix_rules]:
  "good (fs_at N D A B L) (u_sys (k_write fd text))
     (\<lambda>r s. case r of Inl e \<Rightarrow> fs_at N D A B L s | Inr v \<Rightarrow> fs_at N D A B L s)"
  by (rule good_sys) (auto simp: k_write_def intro: fs_node_open fs_at_node split: option.splits node.splits)

lemma good_write_open [unix_rules]:
  "good (fs_open N D A B L fd) (u_sys (k_write fd' text))
     (\<lambda>r s. case r of Inl e \<Rightarrow> fs_open N D A B L fd s | Inr v \<Rightarrow> fs_open N D A B L fd s)"
  by (rule good_sys) (auto simp: k_write_def intro: fs_node_open fs_open_node split: option.splits node.splits)

lemma truncate_inode_cases:
  "truncate_inode i n s = (r, s') \<Longrightarrow> s' = s \<or> (\<exists>d m. s' = s\<lparr>u_nodes := (u_nodes s)(i \<mapsto> Regular d m)\<rparr>)"
  by (auto simp: truncate_inode_def split: option.splits node.splits)

lemma good_truncate [unix_rules]:
  "good (fs_at N D A B L) (u_sys (k_truncate p n))
     (\<lambda>r s. case r of Inl e \<Rightarrow> fs_at N D A B L s | Inr v \<Rightarrow> fs_at N D A B L s)"
  by (rule good_sys)
    (auto simp: k_truncate_def intro: fs_at_node dest!: truncate_inode_cases split: sum.splits prod.splits)

lemma good_ftruncate [unix_rules]:
  "good (fs_open N D A B L fd) (u_sys (k_ftruncate fd' n))
     (\<lambda>r s. case r of Inl e \<Rightarrow> fs_open N D A B L fd s | Inr v \<Rightarrow> fs_open N D A B L fd s)"
  by (rule good_sys)
    (auto simp: k_ftruncate_def intro: fs_open_node dest!: truncate_inode_cases split: option.splits sum.splits prod.splits)

lemma good_chmod [unix_rules]:
  "good (fs_at N D A B L) (u_sys (k_chmod p m))
     (\<lambda>r s. case r of Inl e \<Rightarrow> fs_at N D A B L s | Inr v \<Rightarrow> fs_at N D A B L s)"
proof (rule good_sys)
  fix s
  assume s: "fs_at N D A B L s"
  have "keeps_kind (u_nodes s i) (map_option (node_chmod m) (u_nodes s i))" for i
    by (cases "u_nodes s i") simp_all
  with s show "case k_chmod p m s of (Inl e, s') \<Rightarrow> fs_at N D A B L s' | (Inr v, s') \<Rightarrow> fs_at N D A B L s'"
    by (auto simp: k_chmod_def intro: fs_at_node split: sum.split)
qed simp

text \<open>Calls that change the names.\<close>

lemma fs_at_remove:
  "fs_at N D A B L s \<Longrightarrow> fs_at N D (A - {p}) (insert p B) L (s\<lparr>u_names := (u_names s)(p := None)\<rparr>)"
  by (auto simp: fs_at_def not_link_def split: option.splits)

lemma good_unlink [unix_rules]:
  "good (fs_at N D A B L) (u_sys (k_unlink p))
     (\<lambda>r s. case r of Inl e \<Rightarrow> fs_at N D A B L s | Inr v \<Rightarrow> fs_at N D (A - {p}) (insert p B) L s)"
  by (rule good_sys) (auto simp: k_unlink_def intro: fs_at_remove split: option.splits node.splits)

lemma good_rmdir [unix_rules]:
  "good (fs_at N D A B L) (u_sys (k_rmdir p))
     (\<lambda>r s. case r of Inl e \<Rightarrow> fs_at N D A B L s | Inr v \<Rightarrow> fs_at N D (A - {p}) (insert p B) L s)"
  by (rule good_sys) (auto simp: k_rmdir_def intro: fs_at_remove split: option.splits)

lemma good_link [unix_rules]:
  "good (fs_at N D A B L) (u_sys (k_link p q))
     (\<lambda>r s. case r of Inl e \<Rightarrow> fs_at N D A B L s | Inr v \<Rightarrow> fs_at N D (insert q A) (B - {q}) {} s)"
  by (rule good_sys) (auto simp: k_link_def fs_at_def split: option.splits node.splits)

lemma good_symlink [unix_rules]:
  "good (fs_at N D A B L) (u_sys (k_symlink t p))
     (\<lambda>r s. case r of Inl e \<Rightarrow> fs_at N D A B L s | Inr v \<Rightarrow> fs_at N D (insert p A) (B - {p}) {} s)"
  by (rule good_sys) (auto simp: k_symlink_def new_inode_def fs_at_def)

text \<open>A name that is not there, renamed to.\<close>

lemma good_rename:
  assumes "q \<in> B" "q \<notin> A"
  shows "good (fs_at N D A B L) (u_sys (k_rename p q))
     (\<lambda>r s. case r of Inl e \<Rightarrow> fs_at N D A B L s | Inr v \<Rightarrow> fs_at N D (insert q (A - {p})) (insert p (B - {q})) {} s)"
proof (rule good_sys)
  fix s
  assume s: "fs_at N D A B L s"
  then have "u_names s q = None" using assms by (simp add: fs_at_def)
  with s show "case k_rename p q s of (Inl e, s') \<Rightarrow> fs_at N D A B L s'
      | (Inr v, s') \<Rightarrow> fs_at N D (insert q (A - {p})) (insert p (B - {q})) {} s'"
    by (auto simp: k_rename_def fs_at_def split: option.splits)
qed simp

lemma fs_at_new:
  assumes "fs_at N D A B L s" "\<And>t. nd \<noteq> Symlink t"
  shows "fs_at N D (insert p A) (B - {p}) L (new_inode p nd s)"
  using assms by (auto simp: fs_at_def new_inode_def not_link_def split: option.splits node.splits)

lemma good_mkdir [unix_rules]:
  "good (fs_at N D A B L) (u_sys (k_mkdir p m))
     (\<lambda>r s. case r of Inl e \<Rightarrow> fs_at N D A B L s | Inr v \<Rightarrow> fs_at N D (insert p A) (B - {p}) L s)"
  by (rule good_sys) (auto simp: k_mkdir_def intro: fs_at_new)

lemma temp_name_new: "temp_name s prefix = Some p \<Longrightarrow> u_names s p = None"
  by (auto simp: temp_name_def filter_eq_Cons_iff split: list.splits)

lemma good_mkdtemp [unix_rules]:
  "good (fs_at N D {} {} L) (u_sys (k_mkdtemp prefix))
     (\<lambda>r s. case r of Inl e \<Rightarrow> fs_at N D {} {} L s | Inr p \<Rightarrow> N p = None \<and> fs_at N D {p} {} L s)"
proof (rule good_sys)
  fix s
  assume s: "fs_at N D {} {} L s"
  have "N p = None \<and> fs_at N D {p} {} L (new_inode p (Directory m) s)" if "temp_name s prefix = Some p" for p m
    using fs_at_new [OF s, of "Directory m" p] temp_name_new [OF that] s by (auto simp: fs_at_def)
  with s show "case k_mkdtemp prefix s of (Inl e, s') \<Rightarrow> fs_at N D {} {} L s'
      | (Inr p, s') \<Rightarrow> N p = None \<and> fs_at N D {p} {} L s'"
    by (auto simp: k_mkdtemp_def split: option.splits)
qed simp

lemma fs_open_install:
  assumes "fs_at N D A B L s" "free_fd s = Some fd"
  shows "fs_open N D A B L fd (install fd i s)"
  using assms free_fd_None by (auto simp: fs_open_def fs_at_def install_def)

lemma good_mkstemp [unix_rules]:
  "good (fs_at N D {} {} L) (u_sys (k_mkstemp prefix))
     (\<lambda>r s. case r of Inl e \<Rightarrow> fs_at N D {} {} L s
        | Inr v \<Rightarrow> (case v of (fd, p) \<Rightarrow> N p = None \<and> fs_open N D {p} {} L fd s))"
proof (rule good_sys)
  fix s
  assume s: "fs_at N D {} {} L s"
  have "N p = None \<and> fs_open N D {p} {} L fd (install fd i (new_inode p (Regular [] m) s))"
    if "free_fd s = Some fd" "temp_name s prefix = Some p" for fd p i m
  proof -
    have "free_fd (new_inode p (Regular [] m) s) = Some fd"
      using that(1) by (simp add: free_fd_def new_inode_def)
    moreover have "fs_at N D {p} {} L (new_inode p (Regular [] m) s)" using fs_at_new [OF s] by simp
    ultimately show ?thesis using fs_open_install temp_name_new [OF that(2)] s by (auto simp: fs_at_def)
  qed
  with s show "case k_mkstemp prefix s of (Inl e, s') \<Rightarrow> fs_at N D {} {} L s'
      | (Inr v, s') \<Rightarrow> (case v of (fd, p) \<Rightarrow> N p = None \<and> fs_open N D {p} {} L fd s')"
    by (auto simp: k_mkstemp_def split: option.splits)
qed simp

text \<open>Opening, writing to and closing a stream.\<close>

lemma good_open_write:
  assumes "p \<in> L"
  shows "good (fs_at N D A B L) (u_sys (k_open_write p))
     (\<lambda>r s. case r of Inl e \<Rightarrow> fs_at N D A B L s | Inr fd \<Rightarrow> fs_open N D (insert p A) (B - {p}) L fd s)"
proof (rule good_sys)
  fix s
  assume s: "fs_at N D A B L s"
  then have "not_link s p" using assms by (simp add: fs_at_def)
  then have final: "final_name s p = Some p" by (rule not_link_final_name)
  have new: "fs_open N D (insert p A) (B - {p}) L fd (install fd i (new_inode p (Regular [] m) s))"
    if "free_fd s = Some fd" for fd i m
  proof (rule fs_open_install)
    show "free_fd (new_inode p (Regular [] m) s) = Some fd" using that by (simp add: free_fd_def new_inode_def)
  qed (use fs_at_new [OF s] in simp)
  have old: "fs_open N D (insert p A) (B - {p}) L fd
      (install fd i (s\<lparr>u_nodes := (u_nodes s)(i := map_option cut_node (u_nodes s i))\<rparr>))"
    if "free_fd s = Some fd" for fd i
  proof (rule fs_open_install)
    have "keeps_kind (u_nodes s i) (map_option cut_node (u_nodes s i))" by (cases "u_nodes s i") simp_all
    then have "fs_at N D A B L (s\<lparr>u_nodes := (u_nodes s)(i := map_option cut_node (u_nodes s i))\<rparr>)"
      by (rule fs_at_node [OF s])
    then show "fs_at N D (insert p A) (B - {p}) L (s\<lparr>u_nodes := (u_nodes s)(i := map_option cut_node (u_nodes s i))\<rparr>)"
      by (auto simp: fs_at_def)
  qed (use that in \<open>simp add: free_fd_def\<close>)
  show "case k_open_write p s of (Inl e, s') \<Rightarrow> fs_at N D A B L s'
      | (Inr fd, s') \<Rightarrow> fs_open N D (insert p A) (B - {p}) L fd s'"
    using s new old by (auto simp: k_open_write_def final split: option.splits)
qed simp

lemma good_fopen [unix_rules]:
  assumes "p \<in> L"
  shows "good (fs_at N D A B L) (u_fopen p)
     (\<lambda>r s. case r of Inl e \<Rightarrow> fs_at N D A B L s | Inr f \<Rightarrow> fs_open N D (insert p A) (B - {p}) L (fst f) s)"
  unfolding u_fopen_def by (rule good_try [OF good_open_write [OF assms]]) (simp_all add: good_ret)

lemma good_fprintf [unix_rules]:
  "good (fs_open N D A B L (fst f)) (u_fprintf f text)
     (\<lambda>r s. case r of Inl e \<Rightarrow> fs_open N D A B L (fst f) s | Inr f' \<Rightarrow> fs_open N D A B L (fst f') s)"
  unfolding u_fprintf_def by (rule good_sys) auto

lemma good_close [unix_rules]:
  "good (fs_open N D A B L fd) (u_close fd)
     (\<lambda>r s. case r of Inl e \<Rightarrow> fs_at N D A B L s | Inr v \<Rightarrow> fs_at N D A B L s)"
proof -
  have "case u_close fd s of
      (Done r, s') \<Rightarrow> (case r of Inl e \<Rightarrow> fs_at N D A B L s' | Inr v \<Rightarrow> fs_at N D A B L s') | (Quit n, s') \<Rightarrow> n \<noteq> 0"
    if s: "fs_open N D A B L fd s" for s
  proof -
    have "fs_at N D A B L (s\<lparr>u_fds := (u_fds s)(fd := None), u_faults := fs\<rparr>)"
      "fs_at N D A B L (s\<lparr>u_fds := (u_fds s)(fd := None)\<rparr>)" "u_fds s fd \<noteq> None" for fs
      using s by (auto simp: fs_open_def fs_at_def)
    then show ?thesis by (auto simp: u_close_def u_sys_def split: list.split option.split)
  qed
  then show ?thesis unfolding good_def by blast
qed

lemma good_fclose:
  "good (fs_open N D A B L (fst f)) (u_fclose f)
     (\<lambda>r s. case r of Inl e \<Rightarrow> fs_at N D A B L s | Inr v \<Rightarrow> fs_at N D A B L s)"
proof -
  have plain: "good (fs_open N D A B L (fst f)) (u_close (fst f)) (\<lambda>r. fs_at N D A B L)"
    by (rule good_post [OF good_close]) (auto split: sum.splits)
  have failed: "good (fs_open N D A B L (fst f)) (u_then (u_close (fst f)) (\<lambda>_. u_ret (Inl e)))
      (\<lambda>r s. case r of Inl e \<Rightarrow> fs_at N D A B L s | Inr v \<Rightarrow> fs_at N D A B L s)" for e
    by (rule good_then [OF plain]) (simp add: good_ret)
  have start: "good (fs_open N D A B L (fst f)) (if snd f = [] then u_ret (Inr ()) else u_sys (k_write (fst f) (snd f)))
      (\<lambda>r s. case r of Inl e \<Rightarrow> fs_open N D A B L (fst f) s | Inr v \<Rightarrow> fs_open N D A B L (fst f) s)"
    using good_write_open [of N D A B L "fst f"] by (simp add: good_ret)
  show ?thesis unfolding u_fclose_def by (rule good_try [OF start failed]) (rule good_close)
qed

section \<open>Programs that do not call exit\<close>

definition returns :: "'a uprog \<Rightarrow> bool" where
  "returns c \<longleftrightarrow> (\<forall>s. \<exists>v s'. c s = (Done v, s'))"

lemma returns_calls [intro]: "returns (u_ret v)" "returns (u_sys call)" "returns (u_report e)" "returns (u_close fd)"
  by (auto simp: returns_def u_ret_def u_sys_def u_report_def u_close_def split: list.split option.split prod.split)

lemma returns_then [intro]: "returns c \<Longrightarrow> (\<And>v. returns (k v)) \<Longrightarrow> returns (u_then c k)"
  unfolding returns_def u_then_def by (metis (no_types, lifting) case_prod_conv uresult.case(1))

lemma returns_try [intro]: "returns c \<Longrightarrow> (\<And>e. returns (h e)) \<Longrightarrow> (\<And>v. returns (k v)) \<Longrightarrow> returns (u_try c h k)"
  unfolding u_try_def by (rule returns_then) (auto split: sum.split)

lemma returns_fflush [intro]: "returns u_fflush"
proof -
  have set_empty: "returns (\<lambda>s. (Done (Inr ()), s\<lparr>u_stdout := []\<rparr>))" by (simp add: returns_def)
  have "returns (u_try (u_sys (k_write 1 t)) (\<lambda>e. u_ret (Inl e)) (\<lambda>_ s. (Done (Inr ()), s\<lparr>u_stdout := []\<rparr>)))" for t
    by (intro returns_try returns_calls set_empty)
  then show ?thesis unfolding returns_def u_fflush_def by auto
qed

end
