(* ===== verification/Unix_Programs.thy ===== *)
theory Unix_Programs
  imports Unix_Files
begin

unbundle bit_operations_syntax

text \<open>
  The programs under \<^verbatim>\<open>src/file-system\<close> and \<^verbatim>\<open>src/files\<close> that make files, directories and links, change and look at
  them and take them away again. Each definition is a function of the source with the calls in its order;
  a \<^verbatim>\<open>main\<close> with a command line takes the path that \<^verbatim>\<open>handle_arguments\<close> hands on. The theorems say what is left
  in the file system when such a program reports success, whatever was there and whatever calls have failed.
\<close>

section \<open>Shared pieces\<close>

definition sample_text :: string where
  "sample_text = ''This is a sample file.'' @ [NL]"

abbreviation QUOTE :: char where "QUOTE \<equiv> CHR 0x27"

text \<open>\<^verbatim>\<open>fprintf\<close> and \<^verbatim>\<open>fclose\<close> whose results are not looked at.\<close>

definition fprintf_ignored :: "stream \<Rightarrow> string \<Rightarrow> stream uprog" where
  "fprintf_ignored f text = u_try (u_fprintf f text) (\<lambda>e. u_ret f) u_ret"

definition fclose_ignored :: "stream \<Rightarrow> unit uprog" where
  "fclose_ignored f = u_then (u_fclose f) (\<lambda>r. u_ret ())"

definition close_ignored :: "nat \<Rightarrow> unit uprog" where
  "close_ignored fd = u_then (u_close fd) (\<lambda>r. u_ret ())"

definition write_ignored :: "nat \<Rightarrow> string \<Rightarrow> unit uprog" where
  "write_ignored fd text = u_then (u_sys (k_write fd text)) (\<lambda>r. u_ret ())"

text \<open>\<^verbatim>\<open>%o\<close> of the permission bits.\<close>

definition mode_text :: "uint32 \<Rightarrow> string" where
  "mode_text mode = base_nat 8 (unat (mode AND (0x1C0 OR 0x38 OR 0x7)))"

definition write_sample :: "stream \<Rightarrow> unit uprog" where
  "write_sample f = u_then (fprintf_ignored f sample_text) fclose_ignored"

section \<open>Hard and symbolic links, renaming\<close>

definition check_file_existence :: "string \<Rightarrow> string \<Rightarrow> unit uprog" where
  "check_file_existence filename message =
     u_try (u_sys (k_access filename))
       (\<lambda>e. u_printf ([TAB] @ message @ '' '' @ [QUOTE] @ filename @ [QUOTE] @ '' does not exist.'' @ [NL]))
       (\<lambda>_. u_printf ([TAB] @ message @ '' '' @ [QUOTE] @ filename @ [QUOTE] @ '' exists.'' @ [NL]))"

definition link_create_sample_file :: "string \<Rightarrow> unit uprog" where
  "link_create_sample_file filename = u_try (u_fopen filename) (\<lambda>e. u_ret ()) write_sample"

definition create_hard_link :: "string \<Rightarrow> string \<Rightarrow> unit uprog" where
  "create_hard_link source_filename link_filename =
     u_try (u_sys (k_link source_filename link_filename)) (\<lambda>e. u_die ''Error creating hard link'') u_ret"

definition link_main :: "int uprog" where
  "link_main =
     (let source_filename = ''example.txt''; link_filename = ''hard_link.txt'' in
      u_then (u_printf (''Creating file '' @ source_filename @ [NL])) (\<lambda>_.
      u_then (link_create_sample_file source_filename) (\<lambda>_.
      u_then (check_file_existence source_filename ''Source file'') (\<lambda>_.
      u_then (check_file_existence link_filename ''Link file'') (\<lambda>_.
      u_then (u_printf (''Creating hard link '' @ link_filename @ [NL])) (\<lambda>_.
      u_then (create_hard_link source_filename link_filename) (\<lambda>_.
      u_then (check_file_existence source_filename ''Source file'') (\<lambda>_.
      u_then (check_file_existence link_filename ''Hard link'') (\<lambda>_.
      u_then (u_printf (''Deleting file '' @ source_filename @ [NL])) (\<lambda>_.
      u_try (u_sys (k_unlink source_filename)) (\<lambda>e. u_fail ''Error deleting source file'') (\<lambda>_.
      u_then (check_file_existence source_filename ''Source file'') (\<lambda>_.
      u_then (check_file_existence link_filename ''Hard link'') (\<lambda>_.
      u_then (u_printf (''Deleting hard link '' @ link_filename @ [NL])) (\<lambda>_.
      u_try (u_sys (k_unlink link_filename)) (\<lambda>e. u_fail ''Error deleting hard link'') (\<lambda>_.
      u_then (check_file_existence source_filename ''Source file'') (\<lambda>_.
      u_then (check_file_existence link_filename ''Hard link'') (\<lambda>_.
      u_ret EXIT_SUCCESS)))))))))))))))))"

definition symlink_create_sample_file :: "string \<Rightarrow> unit uprog" where
  "symlink_create_sample_file filename =
     u_try (u_fopen filename) (\<lambda>e. u_die ''Error creating sample file'') write_sample"

definition create_symbolic_link :: "string \<Rightarrow> string \<Rightarrow> unit uprog" where
  "create_symbolic_link source_filename link_filename =
     u_try (u_sys (k_symlink source_filename link_filename)) (\<lambda>e. u_die ''Error creating symbolic link'') u_ret"

definition symlink_main :: "int uprog" where
  "symlink_main =
     (let source_filename = ''example.txt''; link_filename = ''symbolic_link.txt'' in
      u_then (u_printf (''Creating file '' @ source_filename @ [NL])) (\<lambda>_.
      u_then (symlink_create_sample_file source_filename) (\<lambda>_.
      u_then (check_file_existence source_filename ''Source file'') (\<lambda>_.
      u_then (check_file_existence link_filename ''Symbolic link'') (\<lambda>_.
      u_then (u_printf (''Creating symbolic link '' @ link_filename @ [NL])) (\<lambda>_.
      u_then (create_symbolic_link source_filename link_filename) (\<lambda>_.
      u_then (check_file_existence source_filename ''Source file'') (\<lambda>_.
      u_then (check_file_existence link_filename ''Symbolic link'') (\<lambda>_.
      u_then (u_printf (''Deleting file '' @ source_filename @ [NL])) (\<lambda>_.
      u_try (u_sys (k_unlink source_filename)) (\<lambda>e. u_fail ''Error deleting source file'') (\<lambda>_.
      u_then (check_file_existence source_filename ''Source file'') (\<lambda>_.
      u_then (u_printf (''Deleting symbolic link '' @ link_filename @ [NL])) (\<lambda>_.
      u_try (u_sys (k_unlink link_filename)) (\<lambda>e. u_fail ''Error deleting symbolic link'') (\<lambda>_.
      u_then (check_file_existence link_filename ''Symbolic link'') (\<lambda>_.
      u_ret EXIT_SUCCESS)))))))))))))))"

definition rename_main :: "int uprog" where
  "rename_main =
     (let old_filename = ''old_file.txt''; new_filename = ''new_file.txt'' in
      u_then (u_try (u_fopen old_filename) (\<lambda>e. u_ret ()) write_sample) (\<lambda>_.
      u_then (u_printf (''Creating file '' @ old_filename @ [NL])) (\<lambda>_.
      u_then (check_file_existence old_filename ''Original file'') (\<lambda>_.
      u_then (check_file_existence new_filename ''Renamed file'') (\<lambda>_.
      u_then (u_printf (''Renaming file '' @ old_filename @ '' to '' @ new_filename @ [NL])) (\<lambda>_.
      u_try (u_sys (k_rename old_filename new_filename)) (\<lambda>e. u_fail ''Error renaming file'') (\<lambda>_.
      u_then (check_file_existence old_filename ''Original file'') (\<lambda>_.
      u_then (check_file_existence new_filename ''Renamed file'') (\<lambda>_.
      u_then (u_printf (''Removing file '' @ new_filename @ [NL])) (\<lambda>_.
      u_try (u_sys (k_unlink new_filename)) (\<lambda>e. u_fail ''Error unlinking file'') (\<lambda>_.
      u_then (check_file_existence old_filename ''Original file'') (\<lambda>_.
      u_then (check_file_existence new_filename ''Renamed file'') (\<lambda>_.
      u_ret EXIT_SUCCESS)))))))))))))"

section \<open>Modes\<close>

definition chmod_print_permissions :: "string \<Rightarrow> unit uprog" where
  "chmod_print_permissions filename =
     u_try (u_sys (k_stat filename)) (\<lambda>e. u_die ''Error getting file stats'') (\<lambda>st.
     u_then (u_printf (''File: '' @ filename @ [NL])) (\<lambda>_.
     u_printf (''Permissions: '' @ mode_text (st_mode st) @ [NL])))"

definition chmod_main :: "int uprog" where
  "chmod_main =
     (let filename = ''file.txt'';
          new_permissions = 0x100 OR 0x80 OR 0x40 OR 0x10 OR 0x20 OR 0x4 in
      u_try (u_fopen filename) (\<lambda>e. u_fail ''Error creating file'') (\<lambda>f.
      u_then (fclose_ignored f) (\<lambda>_.
      u_then (u_printf (''Before chmod:'' @ [NL])) (\<lambda>_.
      u_then (chmod_print_permissions filename) (\<lambda>_.
      u_try (u_sys (k_chmod filename new_permissions)) (\<lambda>e. u_fail ''Error changing file permissions'') (\<lambda>_.
      u_then (u_printf ([NL] @ ''File permissions changed successfully.'' @ [NL])) (\<lambda>_.
      u_then (u_printf ([NL] @ ''After chmod:'' @ [NL])) (\<lambda>_.
      u_then (chmod_print_permissions filename) (\<lambda>_.
      u_try (u_sys (k_unlink filename)) (\<lambda>e. u_fail ''Error removing file'') (\<lambda>_.
      u_ret EXIT_SUCCESS))))))))))"

definition umask_create_file :: "string \<Rightarrow> string \<Rightarrow> unit uprog" where
  "umask_create_file filename content =
     u_try (u_fopen filename) (\<lambda>e. u_die ''Error creating file'') (\<lambda>f.
     u_try (u_fprintf f content)
       (\<lambda>e. u_then (u_report (Perror ''Error writing to file'')) (\<lambda>_. u_then (fclose_ignored f) (\<lambda>_. u_exit EXIT_FAILURE)))
       fclose_ignored)"

definition print_file_permissions :: "string \<Rightarrow> unit uprog" where
  "print_file_permissions filename =
     u_try (u_sys (k_stat filename)) (\<lambda>e. u_report (Perror ''Error getting file stats'')) (\<lambda>st.
     u_then (u_printf (''File: '' @ filename @ [NL])) (\<lambda>_.
     u_printf (''Permissions: '' @ mode_text (st_mode st) @ [NL])))"

definition delete_file :: "string \<Rightarrow> unit uprog" where
  "delete_file filename = u_try (u_sys (k_unlink filename)) (\<lambda>e. u_die ''Error deleting file'') u_ret"

definition umask_main :: "int uprog" where
  "umask_main =
     (let filename1 = ''file1.txt''; filename2 = ''file2.txt''; content = sample_text in
      u_then (u_umask 0) (\<lambda>old_mask.
      u_then (umask_create_file filename1 content) (\<lambda>_.
      u_then (u_printf (''File created with umask 000:'' @ [NL])) (\<lambda>_.
      u_then (print_file_permissions filename1) (\<lambda>_.
      u_then (u_umask (0x80 OR 0x10 OR 0x2)) (\<lambda>_.
      u_then (umask_create_file filename2 content) (\<lambda>_.
      u_then (u_printf ([NL] @ ''File created with umask 222:'' @ [NL])) (\<lambda>_.
      u_then (print_file_permissions filename2) (\<lambda>_.
      u_then (u_umask old_mask) (\<lambda>_.
      u_then (delete_file filename1) (\<lambda>_.
      u_then (delete_file filename2) (\<lambda>_.
      u_ret EXIT_SUCCESS))))))))))))"

section \<open>Sizes\<close>

definition truncate_check_file_size :: "string \<Rightarrow> string \<Rightarrow> unit uprog" where
  "truncate_check_file_size filename message =
     u_try (u_sys (k_stat filename)) (\<lambda>e. u_report (Perror ''Error getting file size'')) (\<lambda>st.
     u_printf ([TAB] @ message @ '' of '' @ [QUOTE] @ filename @ [QUOTE] @ '' is '' @ dec_nat (st_size st) @ '' bytes.'' @ [NL]))"

definition TRUNCATED_SIZE :: nat where "TRUNCATED_SIZE = 9"

definition truncate_main :: "int uprog" where
  "truncate_main =
     (let filename = ''example.txt''; new_size = TRUNCATED_SIZE in
      u_then (u_try (u_fopen filename) (\<lambda>e. u_ret ()) write_sample) (\<lambda>_.
      u_then (truncate_check_file_size filename ''Truncated file size'') (\<lambda>_.
      u_then (u_printf (''Truncating file '' @ filename @ '' to '' @ dec_nat new_size @ '' bytes'' @ [NL])) (\<lambda>_.
      u_try (u_sys (k_truncate filename new_size)) (\<lambda>e. u_fail ''Error truncating file'') (\<lambda>_.
      u_then (truncate_check_file_size filename ''Truncated file size'') (\<lambda>_.
      u_try (u_sys (k_unlink filename)) (\<lambda>e. u_fail ''Error unlinking file'') (\<lambda>_.
      u_ret EXIT_SUCCESS)))))))"

definition ftruncate_check_file_size :: "string \<Rightarrow> string \<Rightarrow> unit uprog" where
  "ftruncate_check_file_size filename message =
     u_try (u_sys (k_stat filename)) (\<lambda>e. u_report (Perror ''Error getting file size'')) (\<lambda>st.
     u_then (u_printf (message @ '' of '' @ [QUOTE] @ filename @ [QUOTE] @ '' is '' @ dec_nat (st_size st) @ '' bytes.'' @ [NL])) (\<lambda>_.
     u_printf (message @ [NL])))"

definition ftruncate_main :: "int uprog" where
  "ftruncate_main =
     (let content = sample_text; new_size = TRUNCATED_SIZE in
      u_try (u_sys (k_mkstemp ''example_'')) (\<lambda>e. u_fail ''Error creating temporary file'') (\<lambda>(fd, filename).
      u_then (write_ignored fd (content @ [NL])) (\<lambda>_.
      u_then (ftruncate_check_file_size filename ''Initial file size'') (\<lambda>_.
      u_then (u_printf (''Truncating file '' @ filename @ '' to '' @ dec_nat new_size @ '' bytes'' @ [NL])) (\<lambda>_.
      u_try (u_sys (k_ftruncate fd new_size))
        (\<lambda>e. u_then (u_report (Perror ''Error truncating file'')) (\<lambda>_. u_then (close_ignored fd) (\<lambda>_. u_ret EXIT_FAILURE))) (\<lambda>_.
      u_try (u_close fd) (\<lambda>e. u_fail ''Error closing file'') (\<lambda>_.
      u_try (u_sys (k_unlink filename)) (\<lambda>e. u_fail ''Error unlinking file'') (\<lambda>_.
      u_ret EXIT_SUCCESS))))))))"

section \<open>Directories and temporary files\<close>

definition mkdir_main :: "int uprog" where
  "mkdir_main =
     (let tempdir_template = ''example_dir'' in
      u_try (u_sys (k_mkdir tempdir_template 0x1C0)) (\<lambda>e. u_fail ''Error creating temporary directory'') (\<lambda>_.
      u_then (u_printf (''Directory created: '' @ tempdir_template @ [NL])) (\<lambda>_.
      u_try (u_sys (k_rmdir tempdir_template)) (\<lambda>e. u_fail ''Error removing temporary directory'') (\<lambda>_.
      u_then (u_printf (''Temporary directory removed: '' @ tempdir_template @ [NL])) (\<lambda>_.
      u_ret EXIT_SUCCESS)))))"

definition mkdtemp_main :: "int uprog" where
  "mkdtemp_main =
     u_try (u_sys (k_mkdtemp ''example'')) (\<lambda>e. u_fail ''Error creating temporary directory'') (\<lambda>tempdir_template.
     u_then (u_printf (''Temporary directory created: '' @ tempdir_template @ [NL])) (\<lambda>_.
     u_try (u_sys (k_rmdir tempdir_template)) (\<lambda>e. u_fail ''Error removing temporary directory'') (\<lambda>_.
     u_then (u_printf (''Temporary directory removed: '' @ tempdir_template @ [NL])) (\<lambda>_.
     u_ret EXIT_SUCCESS))))"

definition mkstemp_main :: "int uprog" where
  "mkstemp_main =
     u_try (u_sys (k_mkstemp ''/tmp/temp_file_'')) (\<lambda>e. u_fail ''Error creating temporary file'') (\<lambda>(fd, templ).
     u_then (u_printf (''Created temporary file '' @ templ @ [NL])) (\<lambda>_.
     u_then (close_ignored fd) (\<lambda>_.
     u_try (u_sys (k_unlink templ)) (\<lambda>e. u_fail ''Error deleting temporary file'') (\<lambda>_.
     u_then (u_printf (''Temporary file deleted successfully.'' @ [NL])) (\<lambda>_.
     u_ret EXIT_SUCCESS)))))"

definition sync_main :: "int uprog" where
  "sync_main =
     (let data = ''This is some data that needs to be written to the file.'' @ [NL] in
      u_then (u_printf (''Creating a temporary file...'' @ [NL])) (\<lambda>_.
      u_try (u_sys (k_mkstemp ''/tmp/mytempfile'')) (\<lambda>e. u_fail ''Error creating temporary file'') (\<lambda>(fd, templ).
      u_try (u_sys (k_write fd data))
        (\<lambda>e. u_then (u_report (Perror ''Error writing to temporary file'')) (\<lambda>_. u_then (close_ignored fd) (\<lambda>_. u_ret EXIT_FAILURE))) (\<lambda>_.
      u_then (u_printf (''Flushing data to disk...'' @ [NL])) (\<lambda>_.
      u_then (u_printf (''Data successfully flushed to disk.'' @ [NL])) (\<lambda>_.
      u_try (u_close fd) (\<lambda>e. u_fail ''Error closing file descriptor'') (\<lambda>_.
      u_then (u_printf (''Deleting the temporary file...'' @ [NL])) (\<lambda>_.
      u_try (u_sys (k_unlink templ)) (\<lambda>e. u_fail ''Error deleting temporary file'') (\<lambda>_.
      u_then (u_printf (''Temporary file deleted successfully.'' @ [NL])) (\<lambda>_.
      u_ret EXIT_SUCCESS))))))))))"

definition unlink_main :: "string \<Rightarrow> int uprog" where
  "unlink_main file_path =
     u_try (u_sys (k_access file_path))
       (\<lambda>e.
         u_try (u_fopen file_path) (\<lambda>e. u_fail ''Error creating file'') (\<lambda>f.
         u_then (u_printf (''Created file '' @ file_path @ [NL])) (\<lambda>_.
         u_then (write_sample f) (\<lambda>_.
         u_try (u_sys (k_access file_path))
           (\<lambda>e. u_then (u_printf (''File '' @ [QUOTE] @ file_path @ [QUOTE] @ '' does not exist.'' @ [NL])) (\<lambda>_. u_ret EXIT_FAILURE)) (\<lambda>_.
         u_try (u_sys (k_unlink file_path)) (\<lambda>e. u_fail ''Error deleting file'') (\<lambda>_.
         u_then (u_try (u_sys (k_access file_path))
             (\<lambda>e. u_printf (''File '' @ [QUOTE] @ file_path @ [QUOTE] @ '' successfully deleted.'' @ [NL]))
             (\<lambda>_. u_printf (''File '' @ [QUOTE] @ file_path @ [QUOTE] @ '' was not deleted.'' @ [NL]))) (\<lambda>_.
         u_ret EXIT_SUCCESS)))))))
       (\<lambda>_. u_then (u_report (Text (file_path @ '' already exists, please us a file that does not exist'' @ [NL])))
          (\<lambda>_. u_ret EXIT_FAILURE))"

definition lstat_main :: "string \<Rightarrow> int uprog" where
  "lstat_main file_path =
     (let symlink_name = ''symlink_example.txt'' in
      u_try (u_sys (k_symlink file_path symlink_name)) (\<lambda>e. u_fail ''Error creating symbolic link'') (\<lambda>_.
      u_try (u_sys (k_lstat symlink_name)) (\<lambda>e. u_fail ''Error getting link information'') (\<lambda>link_stat.
      u_try (u_sys (k_stat symlink_name)) (\<lambda>e. u_fail ''Error getting target file information'') (\<lambda>target_stat.
      u_then (u_printf (''Symbolic link information for: '' @ symlink_name @ [NL])) (\<lambda>_.
      u_then (u_printf (''Link size: '' @ dec_nat (st_size link_stat) @ '' bytes'' @ [NL])) (\<lambda>_.
      u_then (u_printf (''Link permissions: '' @ mode_text (st_mode link_stat) @ [NL])) (\<lambda>_.
      u_then (u_printf ([NL] @ ''Target file information (follows the symbolic link):'' @ [NL])) (\<lambda>_.
      u_then (u_printf (''Target size: '' @ dec_nat (st_size target_stat) @ '' bytes'' @ [NL])) (\<lambda>_.
      u_then (u_printf (''Target permissions: '' @ mode_text (st_mode target_stat) @ [NL])) (\<lambda>_.
      u_try (u_sys (k_unlink symlink_name)) (\<lambda>e. u_fail ''Error unlinking symbolic link'') (\<lambda>_.
      u_ret EXIT_SUCCESS)))))))))))"

section \<open>Rules for the shared pieces\<close>

lemma good_fclose_ignored [unix_rules]:
  "good (fs_open N D A B L (fst f)) (fclose_ignored f) (\<lambda>_. fs_at N D A B L)"
  unfolding fclose_ignored_def
  by (rule good_then [OF good_fclose]) (auto intro: good_ret split: sum.splits)

lemma good_close_ignored [unix_rules]: "good (fs_open N D A B L fd) (close_ignored fd) (\<lambda>_. fs_at N D A B L)"
  unfolding close_ignored_def
  by (rule good_then [OF good_close]) (auto intro: good_ret split: sum.splits)

lemma good_write_ignored [unix_rules]:
  "good (fs_open N D A B L fd) (write_ignored fd text) (\<lambda>_. fs_open N D A B L fd)"
  unfolding write_ignored_def
  by (rule good_then [OF good_write_open]) (auto intro: good_ret split: sum.splits)

lemma good_fprintf_ignored:
  "good (fs_open N D A B L (fst f)) (fprintf_ignored f text) (\<lambda>f'. fs_open N D A B L (fst f'))"
  unfolding fprintf_ignored_def by (rule good_try [OF good_fprintf]) (auto intro: good_ret)

lemma good_write_sample [unix_rules]:
  "good (fs_open N D A B L (fst f)) (write_sample f) (\<lambda>_. fs_at N D A B L)"
  unfolding write_sample_def by (rule good_then [OF good_fprintf_ignored good_fclose_ignored])

lemma good_check_file_existence [unix_rules]:
  "framed P \<Longrightarrow> good P (check_file_existence p message) (\<lambda>_. P)"
  unfolding check_file_existence_def by (rule unix_rules | assumption)+

lemma good_chmod_print_permissions [unix_rules]:
  "framed P \<Longrightarrow> good P (chmod_print_permissions p) (\<lambda>_. P)"
  unfolding chmod_print_permissions_def by (rule unix_rules | assumption)+

lemma good_print_file_permissions [unix_rules]:
  "framed P \<Longrightarrow> good P (print_file_permissions p) (\<lambda>_. P)"
  unfolding print_file_permissions_def by (rule unix_rules | assumption)+

lemma good_truncate_check_file_size [unix_rules]:
  "framed P \<Longrightarrow> good P (truncate_check_file_size p message) (\<lambda>_. P)"
  unfolding truncate_check_file_size_def by (rule unix_rules | assumption)+

lemma good_ftruncate_check_file_size [unix_rules]:
  "framed P \<Longrightarrow> good P (ftruncate_check_file_size p message) (\<lambda>_. P)"
  unfolding ftruncate_check_file_size_def by (rule unix_rules | assumption)+

lemma good_link_create [unix_rules]:
  "p \<in> L \<Longrightarrow> good (fs_at N D A B L) (link_create_sample_file p) (\<lambda>_. fs_at N D (insert p A) (B - {p}) L)"
  unfolding link_create_sample_file_def
  by (rule good_try [OF good_fopen], assumption, rule good_ret) (auto simp: fs_at_def intro: good_write_sample)

lemma good_symlink_create [unix_rules]:
  "p \<in> L \<Longrightarrow> good (fs_at N D A B L) (symlink_create_sample_file p) (\<lambda>_. fs_at N D (insert p A) (B - {p}) L)"
  unfolding symlink_create_sample_file_def
  by (rule good_try [OF good_fopen], assumption, rule good_die, rule good_write_sample)

lemma good_rename_create:
  "p \<in> L \<Longrightarrow> good (fs_at N D A B L) (u_try (u_fopen p) (\<lambda>e. u_ret ()) write_sample)
     (\<lambda>_. fs_at N D (insert p A) (B - {p}) L)"
  by (rule good_try [OF good_fopen], assumption, rule good_ret) (auto simp: fs_at_def intro: good_write_sample)

lemma good_umask_create [unix_rules]:
  "p \<in> L \<Longrightarrow> good (fs_at N D A B L) (umask_create_file p content) (\<lambda>_. fs_at N D (insert p A) (B - {p}) L)"
  unfolding umask_create_file_def
  by (rule good_try [OF good_fopen], assumption, rule good_die, rule good_try [OF good_fprintf])
    (rule good_then [OF good_report] good_then [OF good_fclose_ignored] good_exit good_fclose_ignored framed_fs | simp)+

lemma good_hard_link [unix_rules]:
  "good (fs_at N D A B L) (create_hard_link p q) (\<lambda>_. fs_at N D (insert q A) (B - {q}) {})"
  unfolding create_hard_link_def by (rule good_try [OF good_link], rule good_die, rule good_ret)

lemma good_symbolic_link [unix_rules]:
  "good (fs_at N D A B L) (create_symbolic_link t q) (\<lambda>_. fs_at N D (insert q A) (B - {q}) {})"
  unfolding create_symbolic_link_def by (rule good_try [OF good_symlink], rule good_die, rule good_ret)

lemma good_delete_file [unix_rules]:
  "good (fs_at N D A B L) (delete_file p) (\<lambda>_. fs_at N D (A - {p}) (insert p B) L)"
  unfolding delete_file_def by (rule good_try [OF good_unlink], rule good_die, rule good_ret)

section \<open>What the programs leave\<close>

text \<open>A program that has made the names in \<open>F\<close>, and those in \<open>E\<close> which were not there, and has removed them: what is left when
  it returns with success.\<close>

definition left_over :: "(string \<Rightarrow> nat option) \<Rightarrow> (nat \<Rightarrow> nat option) \<Rightarrow> string set \<Rightarrow> int \<Rightarrow> unix \<Rightarrow> bool" where
  "left_over N D F status s \<longleftrightarrow> (status = 0 \<longrightarrow> u_names s = N |` (- F) \<and> u_fds s = D)"

lemma good_left_over_fail [unix_rules]: "good P (u_fail message) (left_over N D F)"
  by (simp add: good_def left_over_def u_fail_def u_then_def u_report_def u_ret_def)

lemma good_left_over_failure [unix_rules]: "good P (u_ret 1) (left_over N D F)"
  by (rule good_ret) (simp add: left_over_def)

lemma good_left_over_success [unix_rules]:
  assumes "A = {}" "F \<subseteq> B" "\<forall>p \<in> B - F. N p = None"
  shows "good (fs_at N D A B L) (u_ret 0) (left_over N D F)"
proof (rule good_ret)
  fix s
  assume s: "fs_at N D A B L s"
  have "u_names s p = (N |` (- F)) p" for p
    using s assms by (auto simp: fs_at_def restrict_map_def)
  with s show "left_over N D F 0 s" by (auto simp: left_over_def fs_at_def)
qed

lemma link_main_good:
  assumes "N ''hard_link.txt'' = None"
  shows "good (fs_at N D {} {''hard_link.txt''} {''example.txt''}) link_main (left_over N D {''example.txt''})"
  unfolding link_main_def Let_def
  by (rule unix_rules | (auto simp: assms; fail))+

lemma symlink_main_good:
  assumes "N ''symbolic_link.txt'' = None"
  shows "good (fs_at N D {} {''symbolic_link.txt''} {''example.txt''}) symlink_main (left_over N D {''example.txt''})"
  unfolding symlink_main_def Let_def
  by (rule unix_rules | (auto simp: assms; fail))+

lemma rename_main_good:
  assumes "N ''new_file.txt'' = None"
  shows "good (fs_at N D {} {''new_file.txt''} {''old_file.txt''}) rename_main (left_over N D {''old_file.txt''})"
  unfolding rename_main_def Let_def
  by (rule good_rename_create good_rename unix_rules | (auto simp: assms; fail))+

lemma chmod_main_good: "good (fs_at N D {} {} {''file.txt''}) chmod_main (left_over N D {''file.txt''})"
  unfolding chmod_main_def Let_def by (rule unix_rules | (auto; fail))+

lemma umask_main_good:
  "good (fs_at N D {} {} {''file1.txt'', ''file2.txt''}) umask_main (left_over N D {''file1.txt'', ''file2.txt''})"
  unfolding umask_main_def Let_def by (rule unix_rules | (auto; fail))+

lemma truncate_main_good: "good (fs_at N D {} {} {''example.txt''}) truncate_main (left_over N D {''example.txt''})"
  unfolding truncate_main_def Let_def by (rule good_rename_create unix_rules | (auto; fail))+

lemma mkdir_main_good:
  assumes "N ''example_dir'' = None"
  shows "good (fs_at N D {} {''example_dir''} {}) mkdir_main (left_over N D {})"
  unfolding mkdir_main_def Let_def by (rule unix_rules | (auto simp: assms; fail))+

lemma lstat_main_good:
  assumes "N ''symlink_example.txt'' = None"
  shows "good (fs_at N D {} {''symlink_example.txt''} {}) (lstat_main file_path) (left_over N D {})"
  unfolding lstat_main_def Let_def by (rule unix_rules | (auto simp: assms; fail))+

lemma unlink_main_good: "good (fs_at N D {} {} {file_path}) (unlink_main file_path) (left_over N D {file_path})"
  unfolding unlink_main_def by (rule unix_rules | (auto; fail))+

text \<open>The name of a temporary file is new.\<close>

lemma good_conj: "(c \<Longrightarrow> good P k R) \<Longrightarrow> good (\<lambda>s. c \<and> P s) k R"
  by (auto simp: good_def)

lemma mkdtemp_main_good: "good (fs_at N D {} {} {}) mkdtemp_main (left_over N D {})"
  unfolding mkdtemp_main_def by (rule good_conj unix_rules | (auto; fail))+

lemma good_temporary:
  assumes "\<And>fd p. N p = None \<Longrightarrow> good (fs_open N D {p} {} L fd) (k fd p) R"
  shows "good (\<lambda>s. case v of (fd, p) \<Rightarrow> N p = None \<and> fs_open N D {p} {} L fd s) (case v of (fd, p) \<Rightarrow> k fd p) R"
  using assms by (cases v) (simp add: good_conj)

lemma mkstemp_main_good: "good (fs_at N D {} {} {}) mkstemp_main (left_over N D {})"
  unfolding mkstemp_main_def by (rule good_temporary unix_rules | (auto; fail))+

lemma sync_main_good: "good (fs_at N D {} {} {}) sync_main (left_over N D {})"
  unfolding sync_main_def Let_def by (rule good_temporary unix_rules | (auto; fail))+

lemma ftruncate_main_good: "good (fs_at N D {} {} {}) ftruncate_main (left_over N D {})"
  unfolding ftruncate_main_def Let_def by (rule good_temporary unix_rules | (auto; fail))+

lemma fflush_keeps: "u_names (snd (u_fflush s)) = u_names s" "u_fds (snd (u_fflush s)) = u_fds s"
  by (auto simp: u_fflush_def u_try_def u_then_def u_sys_def u_ret_def k_write_def
      split: list.splits option.splits prod.splits uresult.splits sum.splits node.splits)

text \<open>The programs with the names each of them makes with \<^verbatim>\<open>fopen\<close>, which may have been there, and those it makes anew.\<close>

definition file_programs :: "string \<Rightarrow> (int uprog \<times> string set \<times> string set) set" where
  "file_programs file_path =
     {(link_main, {''example.txt''}, {''hard_link.txt''}), (symlink_main, {''example.txt''}, {''symbolic_link.txt''}),
      (rename_main, {''old_file.txt''}, {''new_file.txt''}), (chmod_main, {''file.txt''}, {}),
      (umask_main, {''file1.txt'', ''file2.txt''}, {}), (truncate_main, {''example.txt''}, {}),
      (ftruncate_main, {}, {}), (mkdir_main, {}, {''example_dir''}), (mkdtemp_main, {}, {}), (mkstemp_main, {}, {}),
      (sync_main, {}, {}), (unlink_main file_path, {file_path}, {}), (lstat_main file_path, {}, {''symlink_example.txt''})}"

lemma file_programs_good:
  assumes "(main, F, E) \<in> file_programs file_path" "\<forall>p \<in> E. N p = None"
  shows "good (fs_at N D {} E F) main (left_over N D F)"
  using assms link_main_good symlink_main_good rename_main_good chmod_main_good umask_main_good truncate_main_good
    ftruncate_main_good mkdir_main_good mkdtemp_main_good mkstemp_main_good sync_main_good unlink_main_good lstat_main_good
  unfolding file_programs_def by (elim insertE emptyE Pair_inject) simp_all

section \<open>Theorems about the programs\<close>

text \<open>C27. Each of the thirteen programs that make files, links and directories leaves, when it reports success, no name behind and no
  descriptor open, whatever calls in between have failed, if two things hold of the file system at its start. The names it opens with
  \<^verbatim>\<open>fopen\<close> are no symbolic links: through a dangling one \<^verbatim>\<open>fopen\<close> would make a file that stays (\<open>chmod_leaves_target\<close>). The names it
  links, renames or makes a directory at do not exist. But a file
  that had one of the names it opens with \<^verbatim>\<open>fopen\<close> is gone: it is emptied and unlinked without a question.\<close>

theorem file_programs_leave_nothing:
  assumes "(main, F, E) \<in> file_programs file_path" "\<forall>p \<in> F. not_link s p" "\<forall>p \<in> E. u_names s p = None"
    and "u_process main s = (0, s')"
  shows "u_names s' = u_names s |` (- F) \<and> u_fds s' = u_fds s"
proof -
  have "fs_at (u_names s) (u_fds s) {} E F s" using assms(2,3) by (simp add: fs_at_def)
  then have "case main s of (Done n, t) \<Rightarrow> left_over (u_names s) (u_fds s) F n t | (Quit n, t) \<Rightarrow> n \<noteq> 0"
    by (rule file_programs_good [OF assms(1,3), unfolded good_def, rule_format])
  then show ?thesis
    using assms(4) by (auto simp: u_process_def left_over_def fflush_keeps split: prod.splits uresult.splits)
qed

text \<open>A terminal, no files.\<close>

definition unix_start :: "(nat \<Rightarrow> stat) \<Rightarrow> string list \<Rightarrow> unix" where
  "unix_start meta suffixes =
     \<lparr>u_names = (\<lambda>_. None), u_nodes = [0 \<mapsto> Terminal [] 0x190], u_meta = meta, u_next = 1,
      u_fds = [0 \<mapsto> 0, 1 \<mapsto> 0, 2 \<mapsto> 0], u_open = [0 \<mapsto> (0, 0)], u_opened = 1, u_mask = 0x12, u_suffixes = suffixes,
      u_faults = [], u_stdout = [], u_err = []\<rparr>"

definition plain_meta :: "nat \<Rightarrow> stat" where
  "plain_meta i = \<lparr>st_mode = 0, st_size = 0, st_ino = 0, st_dev = 1, st_nlink = 1, st_uid = 0, st_gid = 0,
     st_atime = 0, st_mtime = 0, st_ctime = 0\<rparr>"

definition terminal :: "unix \<Rightarrow> string" where
  "terminal s = (case u_nodes s 0 of Some (Terminal text m) \<Rightarrow> text | _ \<Rightarrow> [])"

lemma first_free_simps:
  "fds n = None \<Longrightarrow> first_free fds n (numeral k) = Some n"
  "fds n = Some d \<Longrightarrow> first_free fds n (numeral k) = first_free fds (Suc n) (pred_numeral k)"
  by (simp_all add: numeral_eq_Suc)

lemma final_name_link:
  "u_names s p = Some i \<Longrightarrow> u_nodes s i = Some (Symlink t) \<Longrightarrow> not_link s t \<Longrightarrow> final_name s p = Some t"
proof -
  have "resolve (Suc n) s t = Some t" if "not_link s t" for n
    using that by (auto simp: not_link_def split: option.splits node.splits)
  moreover have "resolve 40 s p = resolve (Suc 38) s t" if "u_names s p = Some i" "u_nodes s i = Some (Symlink t)"
    using that by (simp add: numeral_eq_Suc)
  ultimately show "u_names s p = Some i \<Longrightarrow> u_nodes s i = Some (Symlink t) \<Longrightarrow> not_link s t \<Longrightarrow> final_name s p = Some t"
    unfolding final_name_def by metis
qed

lemmas u_run = Let_def u_ret_def u_exit_def u_then_def u_try_def u_printf_def u_report_def u_fail_def u_die_def u_sys_def u_umask_def
  u_fopen_def u_fprintf_def u_fclose_def u_close_def u_fflush_def u_process_def

lemmas k_run = lookup_def new_inode_def k_access_def stat_of_def k_stat_def k_lstat_def k_unlink_def k_link_def is_directory_def
  k_rename_def k_symlink_def k_mkdir_def k_rmdir_def k_chmod_def resize_def truncate_inode_def k_truncate_def free_fd_def
  install_def k_open_write_def k_open_read_def inode_of_def write_at_def k_write_def k_read_def k_fstat_def k_ftruncate_def k_dup_def
  k_dup2_def temp_name_def k_mkstemp_def k_mkdtemp_def not_link_final_name final_name_link not_link_def first_free_simps

definition found_line :: "string \<Rightarrow> string \<Rightarrow> bool \<Rightarrow> string" where
  "found_line message filename there =
     [TAB] @ message @ '' '' @ [QUOTE] @ filename @ [QUOTE] @ (if there then '' exists.'' else '' does not exist.'') @ [NL]"

lemmas program_defs = check_file_existence_def link_create_sample_file_def symlink_create_sample_file_def write_sample_def
  fprintf_ignored_def fclose_ignored_def close_ignored_def write_ignored_def create_hard_link_def create_symbolic_link_def sample_text_def
  chmod_print_permissions_def umask_create_file_def print_file_permissions_def delete_file_def truncate_check_file_size_def
  ftruncate_check_file_size_def TRUNCATED_SIZE_def

lemmas start_defs = unix_start_def terminal_def found_line_def

lemma link_prints:
  "terminal (snd (u_process link_main (unix_start meta suffixes))) =
     ''Creating file example.txt'' @ [NL]
     @ found_line ''Source file'' ''example.txt'' True @ found_line ''Link file'' ''hard_link.txt'' False
     @ ''Creating hard link hard_link.txt'' @ [NL]
     @ found_line ''Source file'' ''example.txt'' True @ found_line ''Hard link'' ''hard_link.txt'' True
     @ ''Deleting file example.txt'' @ [NL]
     @ found_line ''Source file'' ''example.txt'' False @ found_line ''Hard link'' ''hard_link.txt'' True
     @ ''Deleting hard link hard_link.txt'' @ [NL]
     @ found_line ''Source file'' ''example.txt'' False @ found_line ''Hard link'' ''hard_link.txt'' False"
  by (simp add: link_main_def u_run k_run program_defs start_defs)

lemma symlink_prints:
  "terminal (snd (u_process symlink_main (unix_start meta suffixes))) =
     ''Creating file example.txt'' @ [NL]
     @ found_line ''Source file'' ''example.txt'' True @ found_line ''Symbolic link'' ''symbolic_link.txt'' False
     @ ''Creating symbolic link symbolic_link.txt'' @ [NL]
     @ found_line ''Source file'' ''example.txt'' True @ found_line ''Symbolic link'' ''symbolic_link.txt'' True
     @ ''Deleting file example.txt'' @ [NL]
     @ found_line ''Source file'' ''example.txt'' False
     @ ''Deleting symbolic link symbolic_link.txt'' @ [NL]
     @ found_line ''Symbolic link'' ''symbolic_link.txt'' False"
  by (simp add: symlink_main_def u_run k_run program_defs start_defs)

lemma rename_prints:
  "terminal (snd (u_process rename_main (unix_start meta suffixes))) =
     ''Creating file old_file.txt'' @ [NL]
     @ found_line ''Original file'' ''old_file.txt'' True @ found_line ''Renamed file'' ''new_file.txt'' False
     @ ''Renaming file old_file.txt to new_file.txt'' @ [NL]
     @ found_line ''Original file'' ''old_file.txt'' False @ found_line ''Renamed file'' ''new_file.txt'' True
     @ ''Removing file new_file.txt'' @ [NL]
     @ found_line ''Original file'' ''old_file.txt'' False @ found_line ''Renamed file'' ''new_file.txt'' False"
  by (simp add: rename_main_def u_run k_run program_defs start_defs)

lemma octal_modes: "base_nat 8 420 = ''644''" "base_nat 8 500 = ''764''" "base_nat 8 438 = ''666''" "base_nat 8 292 = ''444''"
  by (simp_all add: base_nat.simps hex_digit_def digit_char_def char_of_def bit_Suc_0_iff)

lemma chmod_prints:
  "terminal (snd (u_process chmod_main (unix_start meta suffixes))) =
     ''Before chmod:'' @ [NL] @ ''File: file.txt'' @ [NL] @ ''Permissions: 644'' @ [NL]
     @ [NL] @ ''File permissions changed successfully.'' @ [NL]
     @ [NL] @ ''After chmod:'' @ [NL] @ ''File: file.txt'' @ [NL] @ ''Permissions: 764'' @ [NL]"
  by (simp add: chmod_main_def u_run k_run program_defs start_defs mode_text_def octal_modes)

text \<open>What the condition on symbolic links is for: if \<^verbatim>\<open>file.txt\<close> is a dangling link, \<^verbatim>\<open>fopen\<close> makes the file it points
  to, and \<^verbatim>\<open>unlink\<close> removes the link only; the program reports success.\<close>

definition with_dangling_link :: "unix \<Rightarrow> unix" where
  "with_dangling_link s = s\<lparr>u_names := [''file.txt'' \<mapsto> 1], u_nodes := (u_nodes s)(1 \<mapsto> Symlink ''target''), u_next := 2\<rparr>"

lemma chmod_leaves_target:
  assumes "s = with_dangling_link (unix_start meta suffixes)"
  shows "fst (u_process chmod_main s) = 0" and "u_names (snd (u_process chmod_main s)) = [''target'' \<mapsto> 2]"
  unfolding assms with_dangling_link_def
  by (simp_all add: chmod_main_def u_run k_run program_defs start_defs mode_text_def octal_modes)

lemma umask_prints:
  "terminal (snd (u_process umask_main (unix_start meta suffixes))) =
     ''File created with umask 000:'' @ [NL] @ ''File: file1.txt'' @ [NL] @ ''Permissions: 666'' @ [NL]
     @ [NL] @ ''File created with umask 222:'' @ [NL] @ ''File: file2.txt'' @ [NL] @ ''Permissions: 444'' @ [NL]"
  by (simp add: umask_main_def u_run k_run program_defs start_defs mode_text_def octal_modes)

lemma truncate_prints:
  "terminal (snd (u_process truncate_main (unix_start meta suffixes))) =
     [TAB] @ ''Truncated file size of '' @ [QUOTE] @ ''example.txt'' @ [QUOTE] @ '' is '' @ dec_nat 23 @ '' bytes.'' @ [NL]
     @ ''Truncating file example.txt to '' @ dec_nat 9 @ '' bytes'' @ [NL]
     @ [TAB] @ ''Truncated file size of '' @ [QUOTE] @ ''example.txt'' @ [QUOTE] @ '' is '' @ dec_nat 9 @ '' bytes.'' @ [NL]"
  by (simp add: truncate_main_def u_run k_run program_defs start_defs) (simp add: numeral_eq_Suc)

text \<open>In an empty directory, with a \<^verbatim>\<open>umask\<close> of 022 and no failing call: a hard link keeps the file when its first name is
  gone, renaming moves the one name to the other, \<^verbatim>\<open>chmod\<close> turns 644 into 764, \<^verbatim>\<open>umask\<close> gives new files 666 and
  444, and \<^verbatim>\<open>truncate\<close> cuts 23 bytes to 9: the programs print just this.\<close>

theorem file_programs_print:
  "terminal (snd (u_process link_main (unix_start meta suffixes))) =
     ''Creating file example.txt'' @ [NL]
     @ found_line ''Source file'' ''example.txt'' True @ found_line ''Link file'' ''hard_link.txt'' False
     @ ''Creating hard link hard_link.txt'' @ [NL]
     @ found_line ''Source file'' ''example.txt'' True @ found_line ''Hard link'' ''hard_link.txt'' True
     @ ''Deleting file example.txt'' @ [NL]
     @ found_line ''Source file'' ''example.txt'' False @ found_line ''Hard link'' ''hard_link.txt'' True
     @ ''Deleting hard link hard_link.txt'' @ [NL]
     @ found_line ''Source file'' ''example.txt'' False @ found_line ''Hard link'' ''hard_link.txt'' False
   \<and> terminal (snd (u_process rename_main (unix_start meta suffixes))) =
     ''Creating file old_file.txt'' @ [NL]
     @ found_line ''Original file'' ''old_file.txt'' True @ found_line ''Renamed file'' ''new_file.txt'' False
     @ ''Renaming file old_file.txt to new_file.txt'' @ [NL]
     @ found_line ''Original file'' ''old_file.txt'' False @ found_line ''Renamed file'' ''new_file.txt'' True
     @ ''Removing file new_file.txt'' @ [NL]
     @ found_line ''Original file'' ''old_file.txt'' False @ found_line ''Renamed file'' ''new_file.txt'' False
   \<and> terminal (snd (u_process chmod_main (unix_start meta suffixes))) =
     ''Before chmod:'' @ [NL] @ ''File: file.txt'' @ [NL] @ ''Permissions: 644'' @ [NL]
     @ [NL] @ ''File permissions changed successfully.'' @ [NL]
     @ [NL] @ ''After chmod:'' @ [NL] @ ''File: file.txt'' @ [NL] @ ''Permissions: 764'' @ [NL]
   \<and> terminal (snd (u_process umask_main (unix_start meta suffixes))) =
     ''File created with umask 000:'' @ [NL] @ ''File: file1.txt'' @ [NL] @ ''Permissions: 666'' @ [NL]
     @ [NL] @ ''File created with umask 222:'' @ [NL] @ ''File: file2.txt'' @ [NL] @ ''Permissions: 444'' @ [NL]
   \<and> terminal (snd (u_process truncate_main (unix_start meta suffixes))) =
     [TAB] @ ''Truncated file size of '' @ [QUOTE] @ ''example.txt'' @ [QUOTE] @ '' is '' @ dec_nat 23 @ '' bytes.'' @ [NL]
     @ ''Truncating file example.txt to '' @ dec_nat 9 @ '' bytes'' @ [NL]
     @ [TAB] @ ''Truncated file size of '' @ [QUOTE] @ ''example.txt'' @ [QUOTE] @ '' is '' @ dec_nat 9 @ '' bytes.'' @ [NL]"
  by (intro conjI link_prints rename_prints chmod_prints umask_prints truncate_prints)

lemma file_programs_leave_nothing_witness:
  "u_names (snd (u_process chmod_main (unix_start plain_meta []))) = (\<lambda>_. None)"
proof -
  let ?s = "unix_start plain_meta []"
  have "fst (u_process chmod_main ?s) = 0"
    by (simp add: chmod_main_def u_run k_run program_defs start_defs mode_text_def octal_modes)
  then have "u_process chmod_main ?s = (0, snd (u_process chmod_main ?s))" by (simp add: prod_eq_iff)
  moreover have "(chmod_main, {''file.txt''}, {}) \<in> file_programs []" by (simp add: file_programs_def)
  ultimately have "u_names (snd (u_process chmod_main ?s)) = u_names ?s |` (- {''file.txt''})"
    using file_programs_leave_nothing [of chmod_main "{''file.txt''}" "{}" "[]" ?s "snd (u_process chmod_main ?s)"]
    by (simp add: unix_start_def not_link_def)
  then show ?thesis by (simp add: unix_start_def restrict_map_def)
qed

end
