(* ===== verification/Unix_Descriptors.thy ===== *)
theory Unix_Descriptors
  imports Unix_Programs
begin

text \<open>
  \<^verbatim>\<open>src/files/dup\<close> and \<^verbatim>\<open>src/files/dup2\<close>: writing through a copy of the standard output, and sending the standard
  output to a temporary file and back. The second program has one way out, a list of clean-up steps that
  every failure jumps to; the theory shows that these steps undo what has been done, whatever has failed.
\<close>

section \<open>dup\<close>

definition dup_failed :: "string \<Rightarrow> nat \<Rightarrow> int uprog" where
  "dup_failed message fd = u_then (u_report (Perror message)) (\<lambda>_. u_then (close_ignored fd) (\<lambda>_. u_ret EXIT_FAILURE))"

definition dup_main :: "int uprog" where
  "dup_main =
     u_try (u_sys (k_dup 1)) (\<lambda>e. u_fail ''Error duplicating stdout'') (\<lambda>stdout_dup_fd.
     u_try (u_close 1) (\<lambda>e. dup_failed ''Error closing stdout'' stdout_dup_fd) (\<lambda>_.
     u_try (u_sys (k_write stdout_dup_fd (''This will be written using dprintf to the duplicated file descriptor.'' @ [NL])))
       (\<lambda>e. dup_failed ''Error writing to stdout using dprintf'' stdout_dup_fd) (\<lambda>_.
     u_try (u_close stdout_dup_fd) (\<lambda>e. u_fail ''Error closing duplicated file descriptor'') (\<lambda>_.
     u_then (u_printf (''This will not be printed because stdout is closed.'' @ [NL])) (\<lambda>_.
     u_ret EXIT_SUCCESS)))))"

section \<open>dup2\<close>

text \<open>The variables of \<^verbatim>\<open>main\<close>; a descriptor with its \<^verbatim>\<open>have_...\<close> flag is an option.\<close>

record dup2_vars =
  templ :: string
  temp_fd :: "nat option"
  saved_stdout_fd :: "nat option"
  stdout_redirected :: bool
  failed :: bool

definition u_fprintf_stderr :: "string \<Rightarrow> (int + unit) uprog" where
  "u_fprintf_stderr text = u_sys (\<lambda>s. (Inr (), s\<lparr>u_err := u_err s @ [Text text]\<rparr>))"

definition u_printf_checked :: "string \<Rightarrow> (int + unit) uprog" where
  "u_printf_checked text = u_sys (\<lambda>s. (Inr (), s\<lparr>u_stdout := u_stdout s @ text\<rparr>))"

text \<open>\<^verbatim>\<open>perror\<close>, \<^verbatim>\<open>failed = 1\<close> and the jump to the label.\<close>

definition give_up :: "string \<Rightarrow> dup2_vars \<Rightarrow> dup2_vars uprog" where
  "give_up message l = u_then (u_report (Perror message)) (\<lambda>_. u_ret (l\<lparr>failed := True\<rparr>))"

definition dup2_after_redirect :: "nat \<Rightarrow> dup2_vars \<Rightarrow> dup2_vars uprog" where
  "dup2_after_redirect fd l =
     u_try (u_printf_checked (''This will be written to the temporary file using printf.'' @ [NL]))
       (\<lambda>e. give_up ''printf failed'' l) (\<lambda>_.
     u_try u_fflush (\<lambda>e. give_up ''fflush(stdout) failed'' l) (\<lambda>_.
     u_try (u_sys (k_fstat fd)) (\<lambda>e. give_up ''fstat after write failed'' l) (\<lambda>sb.
     u_try (u_fprintf_stderr (''Size after write: '' @ dec_nat (st_size sb) @ '' bytes'' @ [NL]))
       (\<lambda>e. give_up ''fprintf stderr failed'' l) (\<lambda>_. u_ret l))))"

definition dup2_body :: "dup2_vars \<Rightarrow> dup2_vars uprog" where
  "dup2_body l =
     u_try (u_sys (k_mkstemp ''/tmp/tempfile'')) (\<lambda>e. give_up ''mkstemp failed'' l) (\<lambda>(fd, path).
     let l = l\<lparr>templ := path, temp_fd := Some fd\<rparr> in
     u_try (u_sys (k_fstat fd)) (\<lambda>e. give_up ''fstat before write failed'' l) (\<lambda>sb.
     u_try (u_fprintf_stderr (''Size before write: '' @ dec_nat (st_size sb) @ '' bytes'' @ [NL]))
       (\<lambda>e. give_up ''fprintf stderr failed'' l) (\<lambda>_.
     u_try (u_sys (k_dup 1)) (\<lambda>e. give_up ''dup(STDOUT_FILENO) failed'' l) (\<lambda>copy.
     let l = l\<lparr>saved_stdout_fd := Some copy\<rparr> in
     u_try (u_sys (k_dup2 fd 1)) (\<lambda>e. give_up ''dup2 to stdout failed'' l) (\<lambda>_.
     dup2_after_redirect fd (l\<lparr>stdout_redirected := True\<rparr>))))))"

text \<open>The steps after the label \<^verbatim>\<open>cleanup\<close>.\<close>

definition restore_stdout :: "dup2_vars \<Rightarrow> dup2_vars uprog" where
  "restore_stdout l =
     (case saved_stdout_fd l of
        Some fd \<Rightarrow>
          if stdout_redirected l
          then u_try (u_sys (k_dup2 fd 1)) (\<lambda>e. give_up ''final restore of stdout failed'' l) (\<lambda>_. u_ret l)
          else u_ret l
      | None \<Rightarrow> u_ret l)"

definition close_if_open :: "nat option \<Rightarrow> string \<Rightarrow> dup2_vars \<Rightarrow> dup2_vars uprog" where
  "close_if_open fd message l =
     (case fd of
        Some fd \<Rightarrow> u_try (u_close fd) (\<lambda>e. give_up message l) (\<lambda>_. u_ret l)
      | None \<Rightarrow> u_ret l)"

definition unlink_template :: "dup2_vars \<Rightarrow> dup2_vars uprog" where
  "unlink_template l =
     (if templ l \<noteq> []
      then u_try (u_sys (k_unlink (templ l)))
             (\<lambda>e. if e \<noteq> ENOENT then give_up ''unlink(temp file) failed'' l else u_ret l) (\<lambda>_. u_ret l)
      else u_ret l)"

definition dup2_cleanup :: "dup2_vars \<Rightarrow> int uprog" where
  "dup2_cleanup l =
     u_then (restore_stdout l) (\<lambda>l.
     u_then (close_if_open (saved_stdout_fd l) ''close(saved_stdout_fd) failed'' l) (\<lambda>l.
     u_then (close_if_open (temp_fd l) ''close(temp_fd) failed'' l) (\<lambda>l.
     u_then (unlink_template l) (\<lambda>l.
     u_ret (if failed l then EXIT_FAILURE else EXIT_SUCCESS)))))"

definition dup2_main :: "int uprog" where
  "dup2_main =
     u_then (dup2_body \<lparr>templ = ''/tmp/tempfileXXXXXX'', temp_fd = None, saved_stdout_fd = None, stdout_redirected = False,
       failed = False\<rparr>) dup2_cleanup"

section \<open>Transcripts\<close>

lemma dup_prints:
  "terminal (snd (u_process dup_main (unix_start meta suffixes)))
     = ''This will be written using dprintf to the duplicated file descriptor.'' @ [NL]"
  by (simp add: dup_main_def dup_failed_def u_run k_run program_defs start_defs)

lemma dup2_reports:
  "u_err (snd (u_process dup2_main (unix_start meta (suffix # suffixes))))
      = [Text (''Size before write: '' @ dec_nat 0 @ '' bytes'' @ [NL]), Text (''Size after write: '' @ dec_nat 57 @ '' bytes'' @ [NL])]
   \<and> terminal (snd (u_process dup2_main (unix_start meta (suffix # suffixes)))) = []
   \<and> fst (u_process dup2_main (unix_start meta (suffix # suffixes))) = 0"
  by (simp add: dup2_main_def dup2_body_def dup2_after_redirect_def dup2_cleanup_def restore_stdout_def close_if_open_def
      unlink_template_def u_printf_checked_def u_fprintf_stderr_def give_up_def u_run k_run program_defs start_defs)

section \<open>What the clean-up undoes\<close>

text \<open>A call whose faults matter; the precondition holds with fewer faults too.\<close>

definition drops_faults :: "(unix \<Rightarrow> bool) \<Rightarrow> bool" where
  "drops_faults P \<longleftrightarrow> (\<forall>s f fs. P s \<longrightarrow> u_faults s = f # fs \<longrightarrow> P (s\<lparr>u_faults := fs\<rparr>))"

lemma good_call:
  assumes "drops_faults P"
    and "\<And>s. P s \<Longrightarrow> (case call s of (Inl e, s') \<Rightarrow> E e s' | (Inr v, s') \<Rightarrow> Q v s')"
    and "\<And>s e fs. P s \<Longrightarrow> u_faults s = Some e # fs \<Longrightarrow> E e (s\<lparr>u_faults := fs\<rparr>)"
  shows "good P (u_sys call) (\<lambda>r s. case r of Inl e \<Rightarrow> E e s | Inr v \<Rightarrow> Q v s)"
proof -
  have step: "case (case call t of (r, s') \<Rightarrow> (Done r, s')) of
      (Done r, s') \<Rightarrow> (case r of Inl e \<Rightarrow> E e s' | Inr v \<Rightarrow> Q v s') | (Quit n, s') \<Rightarrow> n \<noteq> 0" if "P t" for t
    using assms(2) [OF that] by (auto split: prod.splits sum.splits)
  show ?thesis
    unfolding good_def
  proof (intro allI impI)
    fix s
    assume s: "P s"
    show "case u_sys call s of (Done r, s') \<Rightarrow> (case r of Inl e \<Rightarrow> E e s' | Inr v \<Rightarrow> Q v s') | (Quit n, s') \<Rightarrow> n \<noteq> 0"
    proof (cases "u_faults s")
      case Nil
      then have run: "u_sys call s = (case call s of (r, s') \<Rightarrow> (Done r, s'))" by (simp add: u_sys_def)
      show ?thesis unfolding run by (rule step [OF s])
    next
      case (Cons f fs)
      with assms(1) s have "P (s\<lparr>u_faults := fs\<rparr>)" by (simp add: drops_faults_def)
      note again = step [OF this]
      show ?thesis
      proof (cases f)
        case None
        with Cons have run: "u_sys call s = (case call (s\<lparr>u_faults := fs\<rparr>) of (r, s') \<Rightarrow> (Done r, s'))"
          by (simp add: u_sys_def)
        show ?thesis unfolding run by (rule again)
      next
        case (Some e)
        have "E e (s\<lparr>u_faults := fs\<rparr>)" by (rule assms(3) [OF s]) (simp add: Cons Some)
        with Cons Some show ?thesis by (simp add: u_sys_def)
      qed
    qed
  qed
qed

text \<open>The descriptors are those of \<open>D\<close>, with \<open>T\<close> and \<open>S\<close> open besides them, where \<open>S\<close> is a copy of the standard output;
  the standard output itself is the one of \<open>D\<close> if \<open>ok\<close>.\<close>

definition dup2_fds :: "(nat \<Rightarrow> nat option) \<Rightarrow> nat option \<Rightarrow> nat option \<Rightarrow> bool \<Rightarrow> unix \<Rightarrow> bool" where
  "dup2_fds D T S ok s \<longleftrightarrow>
     D 1 \<noteq> None \<and> (\<forall>fd. fd \<noteq> 1 \<longrightarrow> T \<noteq> Some fd \<longrightarrow> S \<noteq> Some fd \<longrightarrow> u_fds s fd = D fd)
     \<and> (\<forall>t. T = Some t \<longrightarrow> D t = None \<and> u_fds s t \<noteq> None)
     \<and> (\<forall>x. S = Some x \<longrightarrow> D x = None \<and> u_fds s x = D 1 \<and> T \<noteq> Some x)
     \<and> (ok \<longrightarrow> u_fds s 1 = D 1)"

text \<open>The only other name is that of the temporary file, and it is new.\<close>

definition dup2_names :: "(string \<Rightarrow> nat option) \<Rightarrow> dup2_vars \<Rightarrow> unix \<Rightarrow> bool" where
  "dup2_names N l s \<longleftrightarrow>
     (if temp_fd l = None then u_names s = N
      else templ l \<noteq> [] \<and> N (templ l) = None \<and> (\<forall>p. p \<noteq> templ l \<longrightarrow> u_names s p = N p))
     \<and> Some ENOENT \<notin> set (u_faults s)"

definition dup2_at :: "(string \<Rightarrow> nat option) \<Rightarrow> (nat \<Rightarrow> nat option) \<Rightarrow> nat option \<Rightarrow> nat option \<Rightarrow> bool \<Rightarrow> dup2_vars \<Rightarrow> unix \<Rightarrow> bool"
  where "dup2_at N D T S ok l s \<longleftrightarrow> dup2_fds D T S ok s \<and> dup2_names N l s"

lemma dup2_fds_frame:
  "u_fds s' = u_fds s \<Longrightarrow> dup2_fds D T S ok s' = dup2_fds D T S ok s"
  by (simp add: dup2_fds_def)

lemma dup2_names_frame:
  "u_names s' = u_names s \<Longrightarrow> set (u_faults s') \<subseteq> set (u_faults s) \<Longrightarrow> dup2_names N l s \<Longrightarrow> dup2_names N l s'"
  by (cases "temp_fd l") (auto simp: dup2_names_def)

lemma drops_dup2 [simp]: "drops_faults (dup2_at N D T S ok l)"
  unfolding drops_faults_def dup2_at_def
proof (intro allI impI, elim conjE, intro conjI)
  fix s f fs
  assume "dup2_fds D T S ok s"
  then show "dup2_fds D T S ok (s\<lparr>u_faults := fs\<rparr>)" by (subst dup2_fds_frame [of _ s]) simp_all
next
  fix s f fs
  assume "u_faults s = f # fs" "dup2_names N l s"
  then show "dup2_names N l (s\<lparr>u_faults := fs\<rparr>)" using dup2_names_frame [of "s\<lparr>u_faults := fs\<rparr>" s N l] by auto
qed

text \<open>In the body the variables tell what is open.\<close>

definition dup2_body_at :: "(string \<Rightarrow> nat option) \<Rightarrow> (nat \<Rightarrow> nat option) \<Rightarrow> dup2_vars \<Rightarrow> unix \<Rightarrow> bool" where
  "dup2_body_at N D l s \<longleftrightarrow>
     dup2_at N D (temp_fd l) (saved_stdout_fd l) (\<not> stdout_redirected l) l s
     \<and> (stdout_redirected l \<longrightarrow> saved_stdout_fd l \<noteq> None)"

definition dup2_jump :: "(string \<Rightarrow> nat option) \<Rightarrow> (nat \<Rightarrow> nat option) \<Rightarrow> dup2_vars \<Rightarrow> unix \<Rightarrow> bool" where
  "dup2_jump N D l s \<longleftrightarrow> dup2_body_at N D l s \<and> (temp_fd l = None \<longrightarrow> failed l)"

lemma drops_body [simp]: "drops_faults (dup2_body_at N D l)"
  using drops_dup2 [of N D "temp_fd l" "saved_stdout_fd l" "\<not> stdout_redirected l" l]
  by (auto simp: drops_faults_def dup2_body_at_def)

lemmas dup2_state = dup2_body_at_def dup2_jump_def dup2_at_def dup2_fds_def dup2_names_def

lemma good_give_up: "good (dup2_body_at N D l) (give_up message l) (dup2_jump N D)"
  by (auto simp: good_def give_up_def u_then_def u_report_def u_ret_def dup2_state)

text \<open>Calls in the body that change no name and no descriptor.\<close>

lemma good_body_call:
  assumes "\<And>s. u_names (snd (call s)) = u_names s \<and> u_fds (snd (call s)) = u_fds s \<and> u_faults (snd (call s)) = u_faults s"
  shows "good (dup2_body_at N D l) (u_sys call)
    (\<lambda>r s. case r of Inl e \<Rightarrow> dup2_body_at N D l s | Inr v \<Rightarrow> dup2_body_at N D l s)"
proof (rule good_call)
  fix s
  assume s: "dup2_body_at N D l s"
  have "dup2_body_at N D l (snd (call s)) = dup2_body_at N D l s" using assms [of s] by (simp add: dup2_state)
  with s show "case call s of (Inl e, s') \<Rightarrow> dup2_body_at N D l s' | (Inr v, s') \<Rightarrow> dup2_body_at N D l s'"
    by (auto split: prod.splits sum.splits)
qed (auto dest: drops_body [unfolded drops_faults_def, rule_format])

lemma k_write_keeps:
  "u_names (snd (k_write fd t s)) = u_names s \<and> u_fds (snd (k_write fd t s)) = u_fds s
    \<and> u_faults (snd (k_write fd t s)) = u_faults s"
  by (simp add: k_write_def split: option.split prod.split node.split)

lemma k_fstat_keeps:
  "u_names (snd (k_fstat fd s)) = u_names s \<and> u_fds (snd (k_fstat fd s)) = u_fds s
    \<and> u_faults (snd (k_fstat fd s)) = u_faults s"
  by (simp add: k_fstat_def split: option.split prod.split)

lemma good_body_fflush:
  "good (dup2_body_at N D l) u_fflush
    (\<lambda>r s. case r of Inl e \<Rightarrow> dup2_body_at N D l s | Inr v \<Rightarrow> dup2_body_at N D l s)"
proof -
  have "case u_fflush s of (Done r, s') \<Rightarrow>
      (case r of Inl e \<Rightarrow> dup2_body_at N D l s' | Inr v \<Rightarrow> dup2_body_at N D l s') | (Quit n, s') \<Rightarrow> n \<noteq> 0"
    if s: "dup2_body_at N D l s" for s
  proof -
    have frame: "dup2_body_at N D l (s'\<lparr>u_stdout := []\<rparr>) = dup2_body_at N D l s'" for s'
      by (simp add: dup2_state)
    obtain r s' where r: "u_sys (k_write 1 (u_stdout s)) s = (r, s')" by fastforce
    have written: "case (r, s') of (Done r, s') \<Rightarrow> (case r of Inl e \<Rightarrow> dup2_body_at N D l s' | Inr v \<Rightarrow> dup2_body_at N D l s')
         | (Quit n, s') \<Rightarrow> n \<noteq> 0"
      unfolding r [symmetric]
      by (rule good_body_call [of "k_write 1 (u_stdout s)" N D l, OF k_write_keeps, unfolded good_def, rule_format, OF s])
    show ?thesis
    proof (cases r)
      case (Done v)
      with r s written frame show ?thesis
        by (cases v) (simp_all add: u_fflush_def u_try_def u_then_def u_ret_def)
    next
      case (Quit n)
      with r s written show ?thesis by (simp add: u_fflush_def u_try_def u_then_def)
    qed
  qed
  then show ?thesis unfolding good_def by (intro allI impI)
qed

lemma good_after_redirect:
  assumes "temp_fd l \<noteq> None"
  shows "good (dup2_body_at N D l) (dup2_after_redirect fd l) (dup2_jump N D)"
proof -
  have ret: "good (dup2_body_at N D l) (u_ret l) (dup2_jump N D)"
    using assms by (intro good_ret) (auto simp: dup2_jump_def)
  show ?thesis
    unfolding dup2_after_redirect_def u_printf_checked_def u_fprintf_stderr_def
    by (rule good_try [OF good_body_call good_give_up] good_try [OF good_body_fflush good_give_up] ret
      | simp add: k_fstat_keeps)+
qed

lemma body_faults: "dup2_body_at N D l s \<Longrightarrow> u_faults s = f # fs \<Longrightarrow> dup2_body_at N D l (s\<lparr>u_faults := fs\<rparr>)"
  using drops_body by (auto simp: drops_faults_def)

text \<open>The three calls of the body that open or redirect a descriptor.\<close>

lemma good_body_mkstemp:
  assumes "temp_fd l = None" "saved_stdout_fd l = None" "\<not> stdout_redirected l" "prefix \<noteq> []"
  shows "good (dup2_body_at N D l) (u_sys (k_mkstemp prefix))
    (\<lambda>r s. case r of Inl e \<Rightarrow> dup2_body_at N D l s
       | Inr v \<Rightarrow> (case v of (fd, path) \<Rightarrow> dup2_body_at N D (l\<lparr>templ := path, temp_fd := Some fd\<rparr>) s))"
proof (rule good_call)
  fix s
  assume s: "dup2_body_at N D l s"
  have "dup2_body_at N D (l\<lparr>templ := path, temp_fd := Some fd\<rparr>) (install fd i (new_inode path nd s))"
    if "free_fd s = Some fd" "temp_name s prefix = Some path" for fd path i nd
  proof -
    have fd: "u_fds s fd = None" and path: "u_names s path = None"
      using that free_fd_None temp_name_new by blast+
    have "path \<noteq> []" using that(2) assms(4) by (auto simp: temp_name_def split: list.splits)
    with fd path s assms show ?thesis
      by (auto simp: dup2_state install_def new_inode_def)
  qed
  with s show "case k_mkstemp prefix s of (Inl e, s') \<Rightarrow> dup2_body_at N D l s'
      | (Inr v, s') \<Rightarrow> (case v of (fd, path) \<Rightarrow> dup2_body_at N D (l\<lparr>templ := path, temp_fd := Some fd\<rparr>) s')"
    by (simp add: k_mkstemp_def split: option.split)
qed (auto dest: body_faults)

lemma good_body_dup:
  assumes "saved_stdout_fd l = None" "\<not> stdout_redirected l"
  shows "good (dup2_body_at N D l) (u_sys (k_dup 1))
    (\<lambda>r s. case r of Inl e \<Rightarrow> dup2_body_at N D l s | Inr fd \<Rightarrow> dup2_body_at N D (l\<lparr>saved_stdout_fd := Some fd\<rparr>) s)"
proof (rule good_call)
  fix s
  assume s: "dup2_body_at N D l s"
  have "dup2_body_at N D (l\<lparr>saved_stdout_fd := Some fd\<rparr>) (s\<lparr>u_fds := (u_fds s)(fd \<mapsto> d)\<rparr>)"
    if "free_fd s = Some fd" "u_fds s 1 = Some d" for fd d
  proof -
    have free: "u_fds s fd = None" by (rule free_fd_None [OF that(1)])
    then have "fd \<noteq> 1" "temp_fd l \<noteq> Some fd" using s assms by (auto simp: dup2_state)
    moreover from this free have "D fd = None" using s assms(1) by (simp add: dup2_state)
    ultimately show ?thesis using s assms that(2) by (auto simp: dup2_state)
  qed
  with s show "case k_dup 1 s of (Inl e, s') \<Rightarrow> dup2_body_at N D l s'
      | (Inr fd, s') \<Rightarrow> dup2_body_at N D (l\<lparr>saved_stdout_fd := Some fd\<rparr>) s'"
    by (simp add: k_dup_def split: option.split)
qed (auto dest: body_faults)

lemma good_body_dup2:
  assumes "saved_stdout_fd l \<noteq> None"
  shows "good (dup2_body_at N D l) (u_sys (k_dup2 fd 1))
    (\<lambda>r s. case r of Inl e \<Rightarrow> dup2_body_at N D l s | Inr v \<Rightarrow> dup2_body_at N D (l\<lparr>stdout_redirected := True\<rparr>) s)"
proof (rule good_call)
  fix s
  assume s: "dup2_body_at N D l s"
  then have "dup2_body_at N D (l\<lparr>stdout_redirected := True\<rparr>) (s\<lparr>u_fds := (u_fds s)(1 := x)\<rparr>)" if "x \<noteq> None" for x
    using assms that by (auto simp: dup2_state)
  with s show "case k_dup2 fd 1 s of (Inl e, s') \<Rightarrow> dup2_body_at N D l s'
      | (Inr v, s') \<Rightarrow> dup2_body_at N D (l\<lparr>stdout_redirected := True\<rparr>) s'"
    by (simp add: k_dup2_def split: option.split)
qed (auto dest: body_faults)

lemma good_body:
  assumes "temp_fd l = None" "saved_stdout_fd l = None" "\<not> stdout_redirected l"
  shows "good (dup2_body_at N D l) (dup2_body l) (dup2_jump N D)"
  unfolding dup2_body_def Let_def
proof (rule good_try [OF good_body_mkstemp good_give_up], simp_all only: assms)
  fix v :: "nat \<times> string"
  show "good (\<lambda>s. case v of (fd, path) \<Rightarrow> dup2_body_at N D (l\<lparr>templ := path, temp_fd := Some fd\<rparr>) s)
     (case v of (fd, path) \<Rightarrow>
      u_try (u_sys (k_fstat fd)) (\<lambda>e. give_up ''fstat before write failed'' (l\<lparr>templ := path, temp_fd := Some fd\<rparr>)) (\<lambda>sb.
      u_try (u_fprintf_stderr (''Size before write: '' @ dec_nat (st_size sb) @ '' bytes'' @ [NL]))
        (\<lambda>e. give_up ''fprintf stderr failed'' (l\<lparr>templ := path, temp_fd := Some fd\<rparr>)) (\<lambda>_.
      u_try (u_sys (k_dup 1)) (\<lambda>e. give_up ''dup(STDOUT_FILENO) failed'' (l\<lparr>templ := path, temp_fd := Some fd\<rparr>)) (\<lambda>copy.
      u_try (u_sys (k_dup2 fd 1)) (\<lambda>e. give_up ''dup2 to stdout failed''
          (l\<lparr>templ := path, temp_fd := Some fd, saved_stdout_fd := Some copy\<rparr>)) (\<lambda>_.
      dup2_after_redirect fd (l\<lparr>templ := path, temp_fd := Some fd, saved_stdout_fd := Some copy, stdout_redirected := True\<rparr>))))))
     (dup2_jump N D)"
    unfolding u_fprintf_stderr_def
    by (rule good_case_pair good_try [OF good_body_dup good_give_up] good_try [OF good_body_dup2 good_give_up] good_after_redirect
        good_try [OF good_body_call good_give_up] | (simp add: k_fstat_keeps assms; fail))+
qed auto

text \<open>The clean-up: the standard output is put back, then the copy and the temporary file are closed.\<close>

definition dup2_left :: "(string \<Rightarrow> nat option) \<Rightarrow> (nat \<Rightarrow> nat option) \<Rightarrow> nat option \<Rightarrow> nat option \<Rightarrow> dup2_vars \<Rightarrow> unix \<Rightarrow> bool"
  where "dup2_left N D T S l s \<longleftrightarrow> dup2_at N D T S (\<not> failed l) l s \<and> (temp_fd l = None \<longrightarrow> failed l)"

lemma left_faults: "dup2_left N D T S l s \<Longrightarrow> u_faults s = f # fs \<Longrightarrow> dup2_left N D T S l (s\<lparr>u_faults := fs\<rparr>)"
  by (auto simp: dup2_left_def dup2_state)

lemma good_give_up_left: "good (dup2_left N D T S l) (give_up message l) (dup2_left N D T S)"
  by (auto simp: good_def give_up_def u_then_def u_report_def u_ret_def dup2_left_def dup2_state)

text \<open>What the variables say about the state does not change while the steps run.\<close>

definition dup2_vars_kept :: "dup2_vars \<Rightarrow> dup2_vars \<Rightarrow> bool" where
  "dup2_vars_kept l l' \<longleftrightarrow> temp_fd l' = temp_fd l \<and> saved_stdout_fd l' = saved_stdout_fd l \<and> templ l' = templ l"

lemma good_restore:
  "good (dup2_jump N D l) (restore_stdout l)
     (\<lambda>l' s. dup2_vars_kept l l' \<and> dup2_left N D (temp_fd l) (saved_stdout_fd l) l' s)"
proof (cases "stdout_redirected l")
  case False
  then have "restore_stdout l = u_ret l" by (simp add: restore_stdout_def split: option.split)
  with False show ?thesis
    by (auto intro!: good_ret simp: dup2_vars_kept_def dup2_left_def dup2_state)
next
  case True
  show ?thesis
    unfolding good_def
  proof (intro allI impI)
    fix s
    assume s: "dup2_jump N D l s"
    with True obtain fd d where fd: "saved_stdout_fd l = Some fd" "D 1 = Some d" "u_fds s fd = Some d"
      by (auto simp: dup2_state)
    with s True show "case restore_stdout l s of
        (Done l', s') \<Rightarrow> dup2_vars_kept l l' \<and> dup2_left N D (temp_fd l) (saved_stdout_fd l) l' s'
      | (Quit n, s') \<Rightarrow> n \<noteq> 0"
      by (auto simp: restore_stdout_def u_try_def u_then_def u_sys_def k_dup2_def u_ret_def give_up_def u_report_def
          dup2_vars_kept_def dup2_left_def dup2_state split: list.split option.split)
  qed
qed

lemma good_close_left:
  assumes "\<And>s. dup2_left N D T S l s \<Longrightarrow> dup2_left N D T' S' l (s\<lparr>u_fds := (u_fds s)(fd := None)\<rparr>)"
    and "\<And>s. dup2_left N D T S l s \<Longrightarrow> u_fds s fd \<noteq> None"
  shows "good (dup2_left N D T S l) (close_if_open (Some fd) message l) (\<lambda>l' s. dup2_vars_kept l l' \<and> dup2_left N D T' S' l' s)"
  unfolding good_def
proof (intro allI impI)
  fix s
  assume s: "dup2_left N D T S l s"
  let ?s = "s\<lparr>u_fds := (u_fds s)(fd := None)\<rparr>"
  have closed: "dup2_left N D T' S' l ?s" by (rule assms(1) [OF s])
  have quiet: "dup2_left N D T' S' l (?s\<lparr>u_faults := fs\<rparr>)" if "u_faults s = f # fs" for f fs
    using left_faults [OF closed, of f fs] that by simp
  have loud: "dup2_left N D T' S' (l\<lparr>failed := True\<rparr>) (t\<lparr>u_err := x\<rparr>)" if "dup2_left N D T' S' l t" for t x
    using that by (auto simp: dup2_left_def dup2_state)
  show "case close_if_open (Some fd) message l s of
      (Done l', s') \<Rightarrow> dup2_vars_kept l l' \<and> dup2_left N D T' S' l' s' | (Quit n, s') \<Rightarrow> n \<noteq> 0"
    using assms(2) [OF s] closed quiet loud
    by (clarsimp simp: close_if_open_def u_close_def u_try_def u_then_def u_sys_def u_ret_def give_up_def u_report_def
        dup2_vars_kept_def split: list.split option.split)
qed

lemma good_close_saved:
  assumes "saved_stdout_fd l = S"
  shows "good (dup2_left N D T S l) (close_if_open (saved_stdout_fd l) message l)
     (\<lambda>l' s. dup2_vars_kept l l' \<and> dup2_left N D T None l' s)"
proof (cases S)
  case None
  with assms show ?thesis by (auto simp: close_if_open_def dup2_vars_kept_def intro!: good_ret)
next
  case (Some fd)
  show ?thesis
    unfolding assms Some by (rule good_close_left) (auto simp: dup2_left_def dup2_state)
qed

lemma good_close_temp:
  assumes "temp_fd l = T"
  shows "good (dup2_left N D T None l) (close_if_open (temp_fd l) message l)
     (\<lambda>l' s. dup2_vars_kept l l' \<and> dup2_left N D None None l' s)"
proof (cases T)
  case None
  with assms show ?thesis by (auto simp: close_if_open_def dup2_vars_kept_def intro!: good_ret)
next
  case (Some fd)
  show ?thesis
    unfolding assms Some by (rule good_close_left) (auto simp: dup2_left_def dup2_state)
qed

definition dup2_clean :: "(string \<Rightarrow> nat option) \<Rightarrow> (nat \<Rightarrow> nat option) \<Rightarrow> dup2_vars \<Rightarrow> unix \<Rightarrow> bool" where
  "dup2_clean N D l s \<longleftrightarrow>
     (\<forall>fd. fd \<noteq> 1 \<longrightarrow> u_fds s fd = D fd) \<and> (\<not> failed l \<longrightarrow> u_fds s = D \<and> u_names s = N)"

lemma fds_clean: "dup2_fds D None None ok s \<Longrightarrow> ok \<Longrightarrow> u_fds s = D"
  by (rule ext) (metis dup2_fds_def option.distinct(1))

lemma good_unlink_template:
  "good (dup2_left N D None None l) (unlink_template l) (dup2_clean N D)"
proof -
  have clean: "dup2_clean N D l (s\<lparr>u_names := (u_names s)(templ l := None)\<rparr>)"
    if s: "dup2_left N D None None l s" for s
  proof (cases "failed l")
    case True
    with s show ?thesis by (simp add: dup2_clean_def dup2_left_def dup2_state)
  next
    case False
    with s have "dup2_fds D None None True s" and "(u_names s)(templ l := None) = N"
      by (auto simp: dup2_left_def dup2_at_def dup2_names_def split: if_splits)
    then show ?thesis using fds_clean [of D True s] by (simp add: dup2_clean_def)
  qed
  have absent: "dup2_clean N D l s" if "dup2_left N D None None l s" "u_names s (templ l) = None" for s
  proof -
    have "(u_names s)(templ l := None) = u_names s" using that(2) by auto
    with clean [OF that(1)] show ?thesis by (simp add: dup2_clean_def)
  qed
  have noted: "dup2_clean N D (l\<lparr>failed := True\<rparr>) (s\<lparr>u_err := x\<rparr>)" if "dup2_left N D None None l s" for s x
    using that by (simp add: dup2_clean_def dup2_left_def dup2_state)
  have start: "good (dup2_left N D None None l) (u_sys (k_unlink (templ l)))
      (\<lambda>r s. case r of Inl e \<Rightarrow> dup2_left N D None None l s \<and> (e = ENOENT \<longrightarrow> dup2_clean N D l s)
         | Inr v \<Rightarrow> dup2_clean N D l s)"
  proof (rule good_call)
    fix s
    assume s: "dup2_left N D None None l s"
    show "case k_unlink (templ l) s of
        (Inl e, s') \<Rightarrow> dup2_left N D None None l s' \<and> (e = ENOENT \<longrightarrow> dup2_clean N D l s')
      | (Inr v, s') \<Rightarrow> dup2_clean N D l s'"
      using s clean [OF s] absent [OF s] by (simp add: k_unlink_def split: option.split node.split)
  next
    fix s e fs
    assume "dup2_left N D None None l s" "u_faults s = Some e # fs"
    then show "dup2_left N D None None l (s\<lparr>u_faults := fs\<rparr>)
        \<and> (e = ENOENT \<longrightarrow> dup2_clean N D l (s\<lparr>u_faults := fs\<rparr>))"
      using left_faults by (auto simp: dup2_left_def dup2_state)
  qed (auto simp: drops_faults_def left_faults)
  show ?thesis
  proof (cases "templ l = []")
    case True
    then have "unlink_template l = u_ret l" by (simp add: unlink_template_def)
    moreover have "dup2_clean N D l s" if "dup2_left N D None None l s" for s
    proof -
      from that True have "failed l" "dup2_fds D None None (\<not> failed l) s"
        by (auto simp: dup2_left_def dup2_at_def dup2_names_def split: if_splits)
      then show ?thesis by (simp add: dup2_clean_def dup2_fds_def)
    qed
    ultimately show ?thesis by (simp add: good_ret)
  next
    case False
    then have run: "unlink_template l = u_try (u_sys (k_unlink (templ l)))
        (\<lambda>e. if e \<noteq> ENOENT then give_up ''unlink(temp file) failed'' l else u_ret l) (\<lambda>_. u_ret l)"
      by (simp add: unlink_template_def)
    show ?thesis
      unfolding run
    proof (rule good_try [OF start])
      fix e
      show "good (\<lambda>s. dup2_left N D None None l s \<and> (e = ENOENT \<longrightarrow> dup2_clean N D l s))
         (if e \<noteq> ENOENT then give_up ''unlink(temp file) failed'' l else u_ret l) (dup2_clean N D)"
        using noted
        by (auto simp: good_def give_up_def u_then_def u_report_def u_ret_def)
    qed (simp add: good_ret)
  qed
qed

lemma good_cleanup:
  "good (dup2_jump N D l) (dup2_cleanup l)
     (\<lambda>status s. (\<forall>fd. fd \<noteq> 1 \<longrightarrow> u_fds s fd = D fd) \<and> (status = 0 \<longrightarrow> u_fds s = D \<and> u_names s = N))"
  unfolding dup2_cleanup_def
proof (rule good_then [OF good_restore])
  fix l1
  let ?R = "\<lambda>status s. (\<forall>fd. fd \<noteq> 1 \<longrightarrow> u_fds s fd = D fd) \<and> (status = 0 \<longrightarrow> u_fds s = D \<and> u_names s = N)"
  have end_up: "good (dup2_clean N D l4) (u_ret (if failed l4 then EXIT_FAILURE else EXIT_SUCCESS)) ?R" for l4
    by (rule good_ret) (auto simp: dup2_clean_def)
  have under: "good (\<lambda>s. c \<and> P s) p Q" if "c \<Longrightarrow> good P p Q" for c P Q and p :: "'a uprog"
    using that by (auto simp: good_def)
  show "good (\<lambda>s. dup2_vars_kept l l1 \<and> dup2_left N D (temp_fd l) (saved_stdout_fd l) l1 s)
     (u_then (close_if_open (saved_stdout_fd l1) ''close(saved_stdout_fd) failed'' l1) (\<lambda>l.
      u_then (close_if_open (temp_fd l) ''close(temp_fd) failed'' l) (\<lambda>l.
      u_then (unlink_template l) (\<lambda>l. u_ret (if failed l then EXIT_FAILURE else EXIT_SUCCESS))))) ?R"
  proof (rule under, rule good_then [OF good_close_saved])
    assume l1: "dup2_vars_kept l l1"
    then show "saved_stdout_fd l1 = saved_stdout_fd l" by (simp add: dup2_vars_kept_def)
    fix l2
    show "good (\<lambda>s. dup2_vars_kept l1 l2 \<and> dup2_left N D (temp_fd l) None l2 s)
       (u_then (close_if_open (temp_fd l2) ''close(temp_fd) failed'' l2) (\<lambda>l.
        u_then (unlink_template l) (\<lambda>l. u_ret (if failed l then EXIT_FAILURE else EXIT_SUCCESS)))) ?R"
    proof (rule under, rule good_then [OF good_close_temp])
      assume "dup2_vars_kept l1 l2"
      with l1 show "temp_fd l2 = temp_fd l" by (simp add: dup2_vars_kept_def)
      fix l3
      show "good (\<lambda>s. dup2_vars_kept l2 l3 \<and> dup2_left N D None None l3 s)
        (u_then (unlink_template l3) (\<lambda>l. u_ret (if failed l then EXIT_FAILURE else EXIT_SUCCESS))) ?R"
        by (rule under, rule good_then [OF good_unlink_template end_up])
    qed
  qed
qed

lemma good_dup2:
  "good (\<lambda>s. u_fds s = D \<and> D 1 \<noteq> None \<and> u_names s = N \<and> Some ENOENT \<notin> set (u_faults s)) dup2_main
     (\<lambda>status s. (\<forall>fd. fd \<noteq> 1 \<longrightarrow> u_fds s fd = D fd) \<and> (status = 0 \<longrightarrow> u_fds s = D \<and> u_names s = N))"
  unfolding dup2_main_def
proof (rule good_then)
  show "good (\<lambda>s. u_fds s = D \<and> D 1 \<noteq> None \<and> u_names s = N \<and> Some ENOENT \<notin> set (u_faults s))
     (dup2_body \<lparr>templ = ''/tmp/tempfileXXXXXX'', temp_fd = None, saved_stdout_fd = None, stdout_redirected = False,
       failed = False\<rparr>) (dup2_jump N D)"
    by (rule good_pre [OF good_body]) (auto simp: dup2_state)
qed (rule good_cleanup)

lemma returns_give_up [intro]: "returns (give_up message l)"
  unfolding give_up_def by blast

lemma returns_dup2: "returns dup2_main"
proof -
  have body: "returns (dup2_body l)" for l
    by (auto simp: dup2_body_def dup2_after_redirect_def u_printf_checked_def u_fprintf_stderr_def Let_def split: prod.split
        intro!: returns_try returns_calls returns_fflush returns_give_up)
  have cleanup: "returns (dup2_cleanup l)" for l
    by (auto simp: dup2_cleanup_def restore_stdout_def close_if_open_def unlink_template_def split: option.split
        intro!: returns_then returns_try returns_calls returns_give_up)
  show ?thesis unfolding dup2_main_def by (rule returns_then [OF body cleanup])
qed

text \<open>C28. Whichever calls fail in the \<^verbatim>\<open>dup2\<close> program, once it has run every descriptor other than the standard output is what it was
  before; if it reports success the standard output is too, and the temporary file is gone. (A call of \<^verbatim>\<open>unlink\<close> that
  fails with \<^verbatim>\<open>ENOENT\<close> although the file is there would be taken for success, so no fault is that one.)\<close>

theorem dup2_cleans_up:
  assumes "u_process dup2_main s = (status, s')" "u_fds s 1 \<noteq> None" "Some ENOENT \<notin> set (u_faults s)"
  shows "(\<forall>fd. fd \<noteq> 1 \<longrightarrow> u_fds s' fd = u_fds s fd) \<and> (status = 0 \<longrightarrow> u_fds s' = u_fds s \<and> u_names s' = u_names s)"
proof -
  obtain n t where run: "dup2_main s = (Done n, t)" using returns_dup2 unfolding returns_def by blast
  have "case dup2_main s of
      (Done status, t) \<Rightarrow> (\<forall>fd. fd \<noteq> 1 \<longrightarrow> u_fds t fd = u_fds s fd)
        \<and> (status = 0 \<longrightarrow> u_fds t = u_fds s \<and> u_names t = u_names s)
    | (Quit n, t) \<Rightarrow> n \<noteq> 0"
    by (rule good_dup2 [of "u_fds s" "u_names s", unfolded good_def, rule_format]) (use assms(2,3) in simp_all)
  with run assms(1) show ?thesis by (auto simp: u_process_def fflush_keeps)
qed

lemma dup2_cleans_up_witness:
  "u_fds (snd (u_process dup2_main ((unix_start plain_meta [''aaaaaa''])\<lparr>u_faults := [None, Some 5]\<rparr>))) 3 = None"
  using dup2_cleans_up [of "(unix_start plain_meta [''aaaaaa''])\<lparr>u_faults := [None, Some 5]\<rparr>", OF surjective_pairing]
  by (simp add: unix_start_def)

end
