(* ===== verification/Unix_Readers.thy ===== *)
theory Unix_Readers
  imports Unix_Programs
begin

text \<open>
  The programs under \<^verbatim>\<open>src/files\<close>, \<^verbatim>\<open>src/file-system\<close> and \<^verbatim>\<open>src/streams\<close> that report on a file or
  read it: \<^verbatim>\<open>stat\<close>, \<^verbatim>\<open>fstat\<close>, \<^verbatim>\<open>S_IS\<close>, \<^verbatim>\<open>access\<close>, \<^verbatim>\<open>open-close\<close>, \<^verbatim>\<open>fcntl\<close>,
  \<^verbatim>\<open>fdopen\<close>, \<^verbatim>\<open>lseek\<close>, \<^verbatim>\<open>fopen-fclose\<close>, \<^verbatim>\<open>ferror\<close>, \<^verbatim>\<open>fseek\<close> and \<^verbatim>\<open>fseeko\<close>. Reading is modelled
  for regular files. A loop takes the number of rounds it may run and answers None when it is not done by then.
\<close>

section \<open>Seeking and reading streams\<close>

abbreviation (input) EAGAIN :: int where "EAGAIN \<equiv> 11"
abbreviation (input) EACCES :: int where "EACCES \<equiv> 13"
abbreviation (input) ESPIPE :: int where "ESPIPE \<equiv> 29"
abbreviation (input) EROFS :: int where "EROFS \<equiv> 30"

datatype whence = SEEK_SET | SEEK_CUR

text \<open>\<^verbatim>\<open>lseek\<close> refuses to go before the start of a file; there is no largest size.\<close>

definition k_lseek :: "nat \<Rightarrow> int \<Rightarrow> whence \<Rightarrow> unix \<Rightarrow> (int + nat) \<times> unix" where
  "k_lseek fd offset whence s =
     (case inode_of s fd of
        None \<Rightarrow> (Inl EBADF, s)
      | Some (d, i, pos) \<Rightarrow>
          (case u_nodes s i of
             Some (Regular data m) \<Rightarrow>
               let there = (case whence of SEEK_SET \<Rightarrow> 0 | SEEK_CUR \<Rightarrow> int pos) + offset
               in if there < 0 then (Inl EINVAL, s)
                  else (Inr (nat there), s\<lparr>u_open := (u_open s)(d \<mapsto> (i, nat there))\<rparr>)
           | _ \<Rightarrow> (Inl ESPIPE, s)))"

text \<open>A \<^verbatim>\<open>FILE\<close> opened for reading: its descriptor and what has been read of the file but not yet taken. \<^verbatim>\<open>fgetc\<close>
  answers \<open>Inl\<close> for a read error and \<open>Inr None\<close> at the end of the file.\<close>

type_synonym reader = "nat \<times> string"

definition STDIO_BUFFER :: nat where
  "STDIO_BUFFER = 4096"

definition u_fopen_read :: "string \<Rightarrow> (int + reader) uprog" where
  "u_fopen_read path = u_try (u_sys (k_open_read path)) (\<lambda>e. u_ret (Inl e)) (\<lambda>fd. u_ret (Inr (fd, [])))"

definition u_getc :: "reader \<Rightarrow> ((int + char option) \<times> reader) uprog" where
  "u_getc f =
     (case snd f of
        c # rest \<Rightarrow> u_ret (Inr (Some c), (fst f, rest))
      | [] \<Rightarrow> u_try (u_sys (k_read (fst f) STDIO_BUFFER)) (\<lambda>e. u_ret (Inl e, f))
                (\<lambda>text. case text of [] \<Rightarrow> u_ret (Inr None, f) | c # rest \<Rightarrow> u_ret (Inr (Some c), (fst f, rest))))"

text \<open>\<^verbatim>\<open>fgets\<close>, which loses the start of a line when it meets an error in it.\<close>

fun u_getline :: "nat \<Rightarrow> reader \<Rightarrow> ((int + string) \<times> reader) uprog" where
  "u_getline 0 f = u_ret (Inr [], f)"
| "u_getline (Suc n) f =
     u_then (u_getc f) (\<lambda>(r, f).
       case r of
         Inl e \<Rightarrow> u_ret (Inl e, f)
       | Inr None \<Rightarrow> u_ret (Inr [], f)
       | Inr (Some c) \<Rightarrow>
           if c = NL then u_ret (Inr [c], f)
           else u_then (u_getline n f) (\<lambda>(r, f). u_ret (map_sum id (\<lambda>line. c # line) r, f)))"

definition u_fgets :: "nat \<Rightarrow> reader \<Rightarrow> (string option \<times> reader) uprog" where
  "u_fgets room f =
     u_then (u_getline (room - 1) f) (\<lambda>(r, f). u_ret (case r of Inl e \<Rightarrow> None | Inr line \<Rightarrow> if line = [] then None else Some line, f))"

text \<open>The position of a stream is behind that of its descriptor by what is in the buffer; \<^verbatim>\<open>fseek\<close> empties it.\<close>

definition u_fseek :: "reader \<Rightarrow> int \<Rightarrow> whence \<Rightarrow> reader uprog" where
  "u_fseek f offset whence =
     u_try (u_sys (k_lseek (fst f) (offset - (if whence = SEEK_CUR then int (length (snd f)) else 0)) whence))
       (\<lambda>e. u_ret f) (\<lambda>_. u_ret (fst f, []))"

text \<open>\<^verbatim>\<open>printf\<close> to a standard output that may be a terminal, which is written to with every newline.\<close>

definition on_terminal :: "unix \<Rightarrow> bool" where
  "on_terminal s = (case inode_of s 1 of
     None \<Rightarrow> False
   | Some (d, i, pos) \<Rightarrow> (case u_nodes s i of Some (Terminal text m) \<Rightarrow> True | _ \<Rightarrow> False))"

definition u_print :: "string \<Rightarrow> unit uprog" where
  "u_print text =
     u_then (u_printf text) (\<lambda>_ s.
       if on_terminal s \<and> NL \<in> set text then u_then u_fflush (\<lambda>_. u_ret ()) s else u_ret () s)"

section \<open>Reports\<close>

definition stat_main :: "string \<Rightarrow> int uprog" where
  "stat_main file_path =
     u_try (u_sys (k_stat file_path)) (\<lambda>e. u_fail ''Error getting file information'') (\<lambda>file_stat.
     u_then (u_printf (''File information for: '' @ file_path @ [NL])) (\<lambda>_.
     u_then (u_printf (''File size: '' @ dec_nat (st_size file_stat) @ '' bytes'' @ [NL])) (\<lambda>_.
     u_then (u_printf (''File permissions: '' @ mode_text (st_mode file_stat) @ [NL])) (\<lambda>_.
     u_ret EXIT_SUCCESS))))"

definition fstat_main :: "string \<Rightarrow> int uprog" where
  "fstat_main file_path =
     u_try (u_sys (k_open_read file_path)) (\<lambda>e. u_fail ''Error opening file'') (\<lambda>fd.
     u_try (u_sys (k_fstat fd))
       (\<lambda>e. u_then (u_report (Perror ''Error getting file stats'')) (\<lambda>_. u_then (close_ignored fd) (\<lambda>_. u_ret EXIT_FAILURE)))
       (\<lambda>fileStat.
     u_then (u_printf (''File Information:'' @ [NL])) (\<lambda>_.
     u_then (u_printf (''File Size: '' @ dec_nat (st_size fileStat) @ '' bytes'' @ [NL])) (\<lambda>_.
     u_then (u_printf (''File Permissions: '' @ mode_text (st_mode fileStat) @ [NL])) (\<lambda>_.
     u_then (u_printf (''File inode: '' @ dec_nat (st_ino fileStat) @ [NL])) (\<lambda>_.
     u_then (u_printf (''Device ID: '' @ dec_nat (st_dev fileStat) @ [NL])) (\<lambda>_.
     u_then (u_printf (''Number of hard links: '' @ dec_nat (st_nlink fileStat) @ [NL])) (\<lambda>_.
     u_then (u_printf (''File Owner UID: '' @ dec_nat (st_uid fileStat) @ [NL])) (\<lambda>_.
     u_then (u_printf (''File Group GID: '' @ dec_nat (st_gid fileStat) @ [NL])) (\<lambda>_.
     u_then (u_printf (''Last access time: '' @ dec_int (st_atime fileStat) @ [NL])) (\<lambda>_.
     u_then (u_printf (''Last modification time: '' @ dec_int (st_mtime fileStat) @ [NL])) (\<lambda>_.
     u_then (u_printf (''Last status change time: '' @ dec_int (st_ctime fileStat) @ [NL])) (\<lambda>_.
     u_try (u_close fd) (\<lambda>e. u_fail ''Error closing file descriptor'') (\<lambda>_.
     u_ret EXIT_SUCCESS))))))))))))))"

definition S_IFMT :: uint32 where "S_IFMT = 0xF000"

definition print_special_type :: "stat \<Rightarrow> string" where
  "print_special_type fileStat =
     (let kind = st_mode fileStat AND S_IFMT in
      if kind = 0x6000 then ''Type: Block special file'' @ [NL]
      else if kind = 0x2000 then ''Type: Character special file'' @ [NL]
      else if kind = 0x4000 then ''Type: Directory'' @ [NL]
      else if kind = 0x1000 then ''Type: FIFO/Named Pipe'' @ [NL]
      else if kind = 0x8000 then ''Type: Regular file'' @ [NL]
      else if kind = 0xA000 then ''Type: Symbolic link'' @ [NL]
      else if kind = 0xC000 then ''Type: Socket'' @ [NL]
      else ''Type: Unknown file type'' @ [NL])"

definition print_time :: "string \<Rightarrow> int \<Rightarrow> string" where
  "print_time label timeValue = label @ '': '' @ dec_int timeValue @ [NL]"

text \<open>Linux has no \<^verbatim>\<open>S_TYPEISMQ\<close> and its like with another value than 0, so that \<^verbatim>\<open>print_extended_type\<close> is empty.\<close>

definition print_file_info :: "stat \<Rightarrow> string" where
  "print_file_info fileStat =
     print_special_type fileStat
     @ ''File Size: '' @ dec_nat (st_size fileStat) @ '' bytes'' @ [NL]
     @ ''File Permissions: '' @ mode_text (st_mode fileStat) @ [NL]
     @ ''File inode: '' @ dec_nat (st_ino fileStat) @ [NL]
     @ ''Device ID: '' @ dec_nat (st_dev fileStat) @ [NL]
     @ ''Number of hard links: '' @ dec_nat (st_nlink fileStat) @ [NL]
     @ ''File Owner UID: '' @ dec_nat (st_uid fileStat) @ [NL]
     @ ''File Group GID: '' @ dec_nat (st_gid fileStat) @ [NL]
     @ print_time ''Last access time'' (st_atime fileStat)
     @ print_time ''Last modification time'' (st_mtime fileStat)
     @ print_time ''Last status change time'' (st_ctime fileStat)"

definition S_IS_main :: "string \<Rightarrow> int uprog" where
  "S_IS_main file_path =
     u_try (u_sys (k_stat file_path)) (\<lambda>e. u_fail ''Error getting file stats'') (\<lambda>fileStat.
     u_then (u_printf (''File Information for '' @ [QUOTE] @ file_path @ [QUOTE] @ '':'' @ [NL, NL])) (\<lambda>_.
     u_then (u_printf (print_file_info fileStat)) (\<lambda>_.
     u_ret EXIT_SUCCESS)))"

text \<open>What the process may do with a file depends on its user, which is the parameter \<open>permitted\<close>.\<close>

definition k_access_mode :: "(nat \<Rightarrow> nat \<Rightarrow> bool) \<Rightarrow> string \<Rightarrow> nat \<Rightarrow> unix \<Rightarrow> (int + unit) \<times> unix" where
  "k_access_mode permitted path mode s =
     (case lookup s path of
        Inl e \<Rightarrow> (Inl e, s)
      | Inr i \<Rightarrow> (if permitted i mode then Inr () else Inl EACCES, s))"

definition check_file_access :: "(int \<Rightarrow> string) \<Rightarrow> (nat \<Rightarrow> nat \<Rightarrow> bool) \<Rightarrow> string \<Rightarrow> nat \<Rightarrow> string \<Rightarrow> unit uprog" where
  "check_file_access strerror permitted filename mode access_msg =
     u_try (u_sys (k_access_mode permitted filename mode))
       (\<lambda>e. if e = EACCES \<or> e = EROFS
            then u_printf (filename @ '' is not '' @ access_msg @ ''.'' @ [NL])
            else u_report (Text (''Error ('' @ dec_int e @ '') accessing '' @ filename @ '': '' @ strerror e @ [NL])))
       (\<lambda>_. u_printf (filename @ '' is '' @ access_msg @ ''.'' @ [NL]))"

definition access_main :: "(int \<Rightarrow> string) \<Rightarrow> (nat \<Rightarrow> nat \<Rightarrow> bool) \<Rightarrow> string \<Rightarrow> int uprog" where
  "access_main strerror permitted file_path =
     u_then (check_file_access strerror permitted file_path 4 ''readable'') (\<lambda>_.
     u_then (check_file_access strerror permitted file_path 2 ''writable'') (\<lambda>_.
     u_then (check_file_access strerror permitted file_path 1 ''executable'') (\<lambda>_.
     u_ret EXIT_SUCCESS)))"

section \<open>Opening, reading and seeking\<close>

definition open_close_main :: "string \<Rightarrow> int uprog" where
  "open_close_main file_path =
     u_then (u_printf (''Opening '' @ file_path @ [NL])) (\<lambda>_.
     u_try (u_sys (k_open_read file_path)) (\<lambda>e. u_fail ''Error opening file'') (\<lambda>fd.
     u_then (u_printf (''Closing the file'' @ [NL])) (\<lambda>_.
     u_try (u_close fd) (\<lambda>e. u_fail ''Error closing file'') (\<lambda>_.
     u_ret EXIT_SUCCESS))))"

definition fopen_fclose_main :: "(int \<Rightarrow> string) \<Rightarrow> string \<Rightarrow> int uprog" where
  "fopen_fclose_main strerror file_path =
     u_try (u_fopen_read file_path)
       (\<lambda>e. u_then (u_report (Text (''Error opening the file '' @ [QUOTE] @ file_path @ [QUOTE] @ '': '' @ strerror e @ [NL])))
          (\<lambda>_. u_ret EXIT_FAILURE)) (\<lambda>f.
     u_then (u_printf (''Successfully opened file: '' @ file_path @ [NL])) (\<lambda>_.
     u_try (u_close (fst f))
       (\<lambda>e. u_then (u_report (Text (''Error closing the file '' @ [QUOTE] @ file_path @ [QUOTE] @ '': '' @ strerror e @ [NL])))
          (\<lambda>_. u_ret EXIT_FAILURE)) (\<lambda>_.
     u_then (u_printf (''Successfully closed file: '' @ file_path @ [NL])) (\<lambda>_.
     u_ret EXIT_SUCCESS))))"

text \<open>\<^verbatim>\<open>fputs\<close> to a stream opened for reading fails and sets the error indicator.\<close>

definition ferror_main :: "string \<Rightarrow> int uprog" where
  "ferror_main file_path =
     u_try (u_fopen_read file_path) (\<lambda>e. u_fail ''Error opening the file'') (\<lambda>f.
     u_then (u_report (Perror ''Error writing to the file'')) (\<lambda>_.
     u_then (close_ignored (fst f)) (\<lambda>_.
     u_ret EXIT_SUCCESS)))"

text \<open>\<^verbatim>\<open>O_NONBLOCK\<close> makes no difference for a regular file; the flags themselves are not in the state.\<close>

definition k_getfl :: "nat \<Rightarrow> unix \<Rightarrow> (int + uint32) \<times> unix" where
  "k_getfl fd s = (if u_fds s fd = None then Inl EBADF else Inr 0x8000, s)"

definition k_setfl :: "nat \<Rightarrow> uint32 \<Rightarrow> unix \<Rightarrow> (int + unit) \<times> unix" where
  "k_setfl fd flags s = (if u_fds s fd = None then Inl EBADF else Inr (), s)"

definition FCNTL_LINE_LEN :: nat where
  "FCNTL_LINE_LEN = 1024"

definition fcntl_failed :: "string \<Rightarrow> nat \<Rightarrow> int uprog" where
  "fcntl_failed message fd = u_then (u_report (Perror message)) (\<lambda>_. u_then (close_ignored fd) (\<lambda>_. u_ret EXIT_FAILURE))"

definition fcntl_main :: "string \<Rightarrow> int uprog" where
  "fcntl_main file_path =
     u_try (u_sys (k_open_read file_path)) (\<lambda>e. u_fail ''Error opening the file'') (\<lambda>fd.
     u_try (u_sys (k_getfl fd)) (\<lambda>e. fcntl_failed ''Error getting file descriptor flags'' fd) (\<lambda>flags.
     u_try (u_sys (k_setfl fd (flags OR 0x800)))
       (\<lambda>e. fcntl_failed ''Error setting file descriptor to non-blocking mode'' fd) (\<lambda>_.
     let finish = u_try (u_close fd) (\<lambda>e. u_fail ''Error closing the file'') (\<lambda>_. u_ret EXIT_SUCCESS) in
     u_try (u_sys (k_read fd (FCNTL_LINE_LEN - 1)))
       (\<lambda>e. if e = EAGAIN then u_then (u_printf (''No data available (EAGAIN)'' @ [NL])) (\<lambda>_. finish)
            else fcntl_failed ''Error reading from the file'' fd)
       (\<lambda>text. u_then (u_printf (''Read '' @ dec_nat (length text) @ '' bytes:'' @ [NL] @ takeWhile (\<lambda>c. c \<noteq> NUL) text @ [NL]))
          (\<lambda>_. finish)))))"

definition FDOPEN_BUFFER_LEN :: nat where
  "FDOPEN_BUFFER_LEN = 256"

fun print_lines :: "nat \<Rightarrow> reader \<Rightarrow> reader option uprog" where
  "print_lines 0 f = u_ret None"
| "print_lines (Suc n) f =
     u_then (u_fgets FDOPEN_BUFFER_LEN f) (\<lambda>(line, f).
       case line of
         None \<Rightarrow> u_ret (Some f)
       | Some buffer \<Rightarrow> u_then (u_printf (takeWhile (\<lambda>c. c \<noteq> NUL) buffer)) (\<lambda>_. print_lines n f))"

definition fdopen_main :: "nat \<Rightarrow> string \<Rightarrow> int option uprog" where
  "fdopen_main n file_path =
     u_try (u_sys (k_open_read file_path)) (\<lambda>e. u_then (u_fail ''Error opening file'') (\<lambda>r. u_ret (Some r))) (\<lambda>fd.
     u_try (u_sys (\<lambda>s. (Inr (fd, []), s))) (\<lambda>e. u_then (u_fail ''Error creating FILE* stream'') (\<lambda>r. u_ret (Some r))) (\<lambda>f.
     u_then (print_lines n f) (\<lambda>f.
       case f of
         None \<Rightarrow> u_ret None
       | Some f \<Rightarrow> u_try (u_close (fst f)) (\<lambda>e. u_then (u_fail ''Error closing FILE* stream'') (\<lambda>r. u_ret (Some r)))
                    (\<lambda>_. u_ret (Some EXIT_SUCCESS)))))"

fun copy_bytes :: "nat \<Rightarrow> nat \<Rightarrow> bool uprog" where
  "copy_bytes 0 fd = u_ret False"
| "copy_bytes (Suc n) fd =
     u_try (u_sys (k_read fd 1)) (\<lambda>e. u_ret True) (\<lambda>ch.
       if ch = [] then u_ret True else u_then (write_ignored 1 ch) (\<lambda>_. copy_bytes n fd))"

definition lseek_display_file :: "nat \<Rightarrow> nat \<Rightarrow> string \<Rightarrow> int \<Rightarrow> bool uprog" where
  "lseek_display_file n fd message offset =
     u_then (u_print (message @ '' '' @ dec_int offset @ '':'' @ [NL, NL])) (\<lambda>_. copy_bytes n fd)"

definition lseek_ignored :: "nat \<Rightarrow> int \<Rightarrow> whence \<Rightarrow> unit uprog" where
  "lseek_ignored fd offset whence = u_then (u_sys (k_lseek fd offset whence)) (\<lambda>r. u_ret ())"

definition go_on :: "bool uprog \<Rightarrow> int option uprog \<Rightarrow> int option uprog" where
  "go_on loop rest = u_then loop (\<lambda>ended. if ended then rest else u_ret None)"

definition lseek_main :: "nat \<Rightarrow> string \<Rightarrow> int \<Rightarrow> int option uprog" where
  "lseek_main n file_path offset =
     u_try (u_sys (k_open_read file_path)) (\<lambda>e. u_then (u_fail ''Error opening the file'') (\<lambda>r. u_ret (Some r))) (\<lambda>fd.
     go_on (lseek_display_file n fd ''File contents'' 0) (
     u_then (lseek_ignored fd 0 SEEK_SET) (\<lambda>_.
     go_on (lseek_display_file n fd ([NL, NL] @ ''File contents after SEEK_SET'') 0) (
     u_then (lseek_ignored fd 0 SEEK_SET) (\<lambda>_.
     u_then (lseek_ignored fd offset SEEK_CUR) (\<lambda>_.
     go_on (lseek_display_file n fd ([NL, NL] @ ''File contents after SEEK_CUR'') offset) (
     u_then (close_ignored fd) (\<lambda>_.
     u_ret (Some EXIT_SUCCESS)))))))))"

fun print_chars :: "nat \<Rightarrow> reader \<Rightarrow> reader option uprog" where
  "print_chars 0 f = u_ret None"
| "print_chars (Suc n) f =
     u_then (u_getc f) (\<lambda>(r, f).
       case r of
         Inr (Some ch) \<Rightarrow> u_then (u_print [ch]) (\<lambda>_. print_chars n f)
       | _ \<Rightarrow> u_ret (Some f))"

definition fseek_display_file :: "nat \<Rightarrow> reader \<Rightarrow> string \<Rightarrow> int \<Rightarrow> reader option uprog" where
  "fseek_display_file n f message offset =
     u_then (u_print (message @ '' '' @ dec_int offset @ '':'' @ [NL, NL])) (\<lambda>_. print_chars n f)"

definition go_on_with :: "reader option uprog \<Rightarrow> (reader \<Rightarrow> int option uprog) \<Rightarrow> int option uprog" where
  "go_on_with loop rest = u_then loop (\<lambda>f. case f of None \<Rightarrow> u_ret None | Some f \<Rightarrow> rest f)"

definition fseek_main :: "nat \<Rightarrow> string \<Rightarrow> int \<Rightarrow> int option uprog" where
  "fseek_main n file_path offset =
     u_try (u_fopen_read file_path) (\<lambda>e. u_then (u_fail ''Error opening the file'') (\<lambda>r. u_ret (Some r))) (\<lambda>f.
     go_on_with (fseek_display_file n f ''File contents'' 0) (\<lambda>f.
     u_then (u_fseek f 0 SEEK_SET) (\<lambda>f.
     go_on_with (fseek_display_file n f ([NL, NL] @ ''File contents after SEEK_SET'') 0) (\<lambda>f.
     u_then (u_fseek f 0 SEEK_SET) (\<lambda>f.
     u_then (u_fseek f offset SEEK_CUR) (\<lambda>f.
     go_on_with (fseek_display_file n f ([NL, NL] @ ''File contents after SEEK_CUR'') offset) (\<lambda>f.
     u_then (close_ignored (fst f)) (\<lambda>_.
     u_ret (Some EXIT_SUCCESS)))))))))"

definition fseeko_main :: "nat \<Rightarrow> string \<Rightarrow> int \<Rightarrow> int option uprog" where
  "fseeko_main n file_path offset =
     u_try (u_fopen_read file_path) (\<lambda>e. u_then (u_fail ''Error opening the file'') (\<lambda>r. u_ret (Some r))) (\<lambda>f.
     go_on_with (fseek_display_file n f ''File contents'' 0) (\<lambda>f.
     u_then (u_fseek f 0 SEEK_SET) (\<lambda>f.
     go_on_with (fseek_display_file n f ([NL, NL] @ ''File contents after SEEK_SET'') 0) (\<lambda>f.
     u_then (u_fseek f 0 SEEK_SET) (\<lambda>f.
     u_then (u_fseek f offset SEEK_CUR) (\<lambda>f.
     go_on_with (fseek_display_file n f ([NL, NL] @ ''File contents after SEEK_CUR'') offset) (\<lambda>f.
     u_then (close_ignored (fst f)) (\<lambda>_.
     u_ret (Some EXIT_SUCCESS)))))))))"

text \<open>\<^verbatim>\<open>fseek\<close> and \<^verbatim>\<open>fseeko\<close> differ in the type of the offset only.\<close>

lemma fseeko_fseek: "fseeko_main = fseek_main"
  by (simp add: fun_eq_iff fseeko_main_def fseek_main_def)

section \<open>Reading changes nothing\<close>

text \<open>The standard output goes to the inode \<open>i\<close>; the names are \<open>N\<close>, the descriptors \<open>D\<close>, the other inodes those of \<open>X\<close>.\<close>

definition rd_base :: "(string \<Rightarrow> nat option) \<Rightarrow> (nat \<Rightarrow> nat option) \<Rightarrow> (nat \<Rightarrow> node option) \<Rightarrow> nat \<Rightarrow> unix \<Rightarrow> bool" where
  "rd_base N D X i s \<longleftrightarrow> u_names s = N \<and> (\<forall>j. j \<noteq> i \<longrightarrow> u_nodes s j = X j)
     \<and> u_fds s 1 = D 1 \<and> (case D 1 of None \<Rightarrow> False | Some d \<Rightarrow> d < u_opened s \<and> map_option fst (u_open s d) = Some i)"

definition rd_at :: "(string \<Rightarrow> nat option) \<Rightarrow> (nat \<Rightarrow> nat option) \<Rightarrow> (nat \<Rightarrow> node option) \<Rightarrow> nat \<Rightarrow> unix \<Rightarrow> bool" where
  "rd_at N D X i s \<longleftrightarrow> rd_base N D X i s \<and> u_fds s = D"

definition rd_open :: "(string \<Rightarrow> nat option) \<Rightarrow> (nat \<Rightarrow> nat option) \<Rightarrow> (nat \<Rightarrow> node option) \<Rightarrow> nat \<Rightarrow> nat \<Rightarrow> unix \<Rightarrow> bool"
  where "rd_open N D X i fd s \<longleftrightarrow>
     rd_base N D X i s \<and> D fd = None \<and> (\<exists>d. u_fds s = D(fd \<mapsto> d) \<and> D 1 \<noteq> Some d)"

lemmas rd_defs = rd_base_def rd_at_def rd_open_def

lemma framed_rd [simp]: "framed (rd_at N D X i)" "framed (rd_open N D X i fd)"
  by (auto simp: framed_def rd_defs split: option.splits)

lemma good_open_read [unix_rules]:
  "good (rd_at N D X i) (u_sys (k_open_read path))
     (\<lambda>r s. case r of Inl e \<Rightarrow> rd_at N D X i s | Inr fd \<Rightarrow> rd_open N D X i fd s)"
proof (rule good_sys)
  fix s
  assume s: "rd_at N D X i s"
  have "rd_open N D X i fd (install fd j s)" if "free_fd s = Some fd" for fd j
    using s free_fd_None [OF that] by (auto simp: rd_defs install_def split: option.splits)
  with s show "case k_open_read path s of (Inl e, s') \<Rightarrow> rd_at N D X i s' | (Inr fd, s') \<Rightarrow> rd_open N D X i fd s'"
    by (simp add: k_open_read_def split: option.split sum.split)
qed simp

text \<open>Calls on the descriptor that has been opened move its description, which is not that of the standard output.\<close>

lemma rd_moved:
  assumes "rd_open N D X i fd s" "inode_of s fd = Some (d, j, pos)"
  shows "rd_open N D X i fd (s\<lparr>u_open := (u_open s)(d \<mapsto> (j, q))\<rparr>)"
  using assms by (auto simp: rd_defs inode_of_def split: option.splits)

lemma good_read_open [unix_rules]:
  "good (rd_open N D X i fd) (u_sys (k_read fd n))
     (\<lambda>r s. case r of Inl e \<Rightarrow> rd_open N D X i fd s | Inr text \<Rightarrow> rd_open N D X i fd s)"
  by (rule good_sys) (auto simp: k_read_def Let_def intro: rd_moved split: option.splits node.splits prod.splits)

lemma good_lseek_open [unix_rules]:
  "good (rd_open N D X i fd) (u_sys (k_lseek fd offset whence))
     (\<lambda>r s. case r of Inl e \<Rightarrow> rd_open N D X i fd s | Inr p \<Rightarrow> rd_open N D X i fd s)"
  by (rule good_sys) (auto simp: k_lseek_def Let_def intro: rd_moved split: option.splits node.splits prod.splits if_splits)

lemma good_rd_close [unix_rules]:
  "good (rd_open N D X i fd) (u_close fd) (\<lambda>r s. case r of Inl e \<Rightarrow> rd_at N D X i s | Inr v \<Rightarrow> rd_at N D X i s)"
  by (auto simp: good_def u_close_def u_sys_def rd_defs split: list.splits option.splits)

lemma good_rd_close_ignored [unix_rules]: "good (rd_open N D X i fd) (close_ignored fd) (\<lambda>_. rd_at N D X i)"
  unfolding close_ignored_def by (rule good_then [OF good_rd_close]) (auto intro: good_ret split: sum.splits)

lemma rd_written:
  assumes "rd_open N D X i fd s" "inode_of s 1 = Some (d, j, pos)"
  shows "j = i \<and> rd_open N D X i fd (s\<lparr>u_nodes := (u_nodes s)(j \<mapsto> nd)\<rparr>)
    \<and> rd_open N D X i fd (s\<lparr>u_nodes := (u_nodes s)(j \<mapsto> nd), u_open := (u_open s)(d \<mapsto> (j, q))\<rparr>)"
  using assms by (auto simp: rd_defs inode_of_def split: option.splits if_splits)

lemma good_write_out [unix_rules]:
  "good (rd_open N D X i fd) (u_sys (k_write 1 text))
     (\<lambda>r s. case r of Inl e \<Rightarrow> rd_open N D X i fd s | Inr v \<Rightarrow> rd_open N D X i fd s)"
proof (rule good_sys)
  fix s
  assume s: "rd_open N D X i fd s"
  show "case k_write 1 text s of (Inl e, s') \<Rightarrow> rd_open N D X i fd s' | (Inr v, s') \<Rightarrow> rd_open N D X i fd s'"
    using s by (auto simp: k_write_def dest: rd_written split: option.splits node.splits)
qed simp

lemma good_write_ignored_out [unix_rules]: "good (rd_open N D X i fd) (write_ignored 1 text) (\<lambda>_. rd_open N D X i fd)"
  unfolding write_ignored_def by (rule good_then [OF good_write_out]) (auto intro: good_ret split: sum.splits)

lemma framed_rd_base: "framed (rd_base N D X i)"
  by (auto simp: framed_def rd_base_def split: option.splits)

lemma good_write_at_out:
  "good (rd_at N D X i) (u_sys (k_write 1 text))
     (\<lambda>r s. case r of Inl e \<Rightarrow> rd_at N D X i s | Inr v \<Rightarrow> rd_at N D X i s)"
  by (rule good_sys) (auto simp: k_write_def rd_defs inode_of_def split: option.splits node.splits if_splits)

lemma good_flush_of:
  assumes "framed P" "\<And>text. good P (u_sys (k_write 1 text)) (\<lambda>r s. case r of Inl e \<Rightarrow> P s | Inr v \<Rightarrow> P s)"
  shows "good P u_fflush (\<lambda>_. P)"
proof -
  have empty: "good P (\<lambda>s. (Done (Inr ()), s\<lparr>u_stdout := []\<rparr>)) (\<lambda>_. P)" using assms(1) by (simp add: good_def framed_def)
  have "good P (u_try (u_sys (k_write 1 t)) (\<lambda>e. u_ret (Inl e)) (\<lambda>_ s. (Done (Inr ()), s\<lparr>u_stdout := []\<rparr>))) (\<lambda>_. P)" for t
    by (rule good_try [OF assms(2)]) (use empty good_ret in auto)
  then show ?thesis by (auto simp: good_def u_fflush_def)
qed

lemma good_write_base_out:
  "good (rd_base N D X i) (u_sys (k_write 1 text))
     (\<lambda>r s. case r of Inl e \<Rightarrow> rd_base N D X i s | Inr v \<Rightarrow> rd_base N D X i s)"
  by (rule good_sys [OF framed_rd_base]) (auto simp: k_write_def rd_defs inode_of_def split: option.splits node.splits if_splits)

lemmas good_flush_base = good_flush_of [OF framed_rd_base good_write_base_out]
lemmas good_flush_at = good_flush_of [OF framed_rd(1) good_write_at_out]
lemmas good_flush_open = good_flush_of [OF framed_rd(2) good_write_out]

lemma good_print [unix_rules]: "good (rd_open N D X i fd) (u_print text) (\<lambda>_. rd_open N D X i fd)"
  unfolding u_print_def
proof (rule good_then [OF good_printf])
  have flush: "good (rd_open N D X i fd) (u_then u_fflush (\<lambda>_. u_ret ())) (\<lambda>_. rd_open N D X i fd)"
    by (rule good_then [OF good_flush_open]) (simp add: good_ret)
  then show "good (rd_open N D X i fd)
      (\<lambda>s. if on_terminal s \<and> NL \<in> set text then u_then u_fflush (\<lambda>_. u_ret ()) s else u_ret () s) (\<lambda>_. rd_open N D X i fd)"
    by (simp add: good_def u_ret_def)
qed simp

text \<open>Reading a stream keeps its descriptor.\<close>

definition rd_stream :: "(string \<Rightarrow> nat option) \<Rightarrow> (nat \<Rightarrow> nat option) \<Rightarrow> (nat \<Rightarrow> node option) \<Rightarrow> nat \<Rightarrow> nat \<Rightarrow> reader \<Rightarrow> unix \<Rightarrow> bool"
  where "rd_stream N D X i fd f s \<longleftrightarrow> fst f = fd \<and> rd_open N D X i fd s"

lemma good_getc: "good (rd_stream N D X i fd f) (u_getc f) (\<lambda>v s. rd_stream N D X i fd (snd v) s)"
proof (cases "fst f = fd")
  case True
  show ?thesis
  proof (cases "snd f")
    case Nil
    have "good (rd_open N D X i fd) (u_getc f) (\<lambda>v s. rd_stream N D X i fd (snd v) s)"
      unfolding u_getc_def Nil list.case True
      by (rule good_try [OF good_read_open]) (auto intro!: good_ret simp: rd_stream_def True split: list.split)
    then show ?thesis by (rule good_pre) (simp add: rd_stream_def)
  next
    case (Cons c rest)
    then show ?thesis by (auto intro!: good_ret simp: u_getc_def rd_stream_def)
  qed
qed (simp add: good_def rd_stream_def)

lemma good_getline: "good (rd_stream N D X i fd f) (u_getline n f) (\<lambda>v s. rd_stream N D X i fd (snd v) s)"
proof (induction n arbitrary: f)
  case (Suc n)
  have again: "good (rd_stream N D X i fd f) (u_then (u_getline n f) (\<lambda>(r, f). u_ret (map_sum id (\<lambda>line. c # line) r, f)))
      (\<lambda>v s. rd_stream N D X i fd (snd v) s)" for f c
    by (rule good_then [OF Suc]) (auto intro!: good_ret split: prod.split)
  show ?case
    unfolding u_getline.simps
    by (rule good_then [OF good_getc]) (auto intro!: good_ret again split: prod.split sum.split option.split)
qed (simp add: good_ret)

lemma good_fgets: "good (rd_stream N D X i fd f) (u_fgets n f) (\<lambda>v s. rd_stream N D X i fd (snd v) s)"
  unfolding u_fgets_def by (rule good_then [OF good_getline]) (auto intro!: good_ret split: prod.split)

lemma framed_stream [simp]: "framed (rd_stream N D X i fd f)"
  by (auto simp: framed_def rd_stream_def rd_defs split: option.splits)

definition rd_finished :: "(string \<Rightarrow> nat option) \<Rightarrow> (nat \<Rightarrow> nat option) \<Rightarrow> (nat \<Rightarrow> node option) \<Rightarrow> nat \<Rightarrow> nat \<Rightarrow> reader option \<Rightarrow> unix \<Rightarrow> bool"
  where "rd_finished N D X i fd f s \<longleftrightarrow> (case f of None \<Rightarrow> rd_open N D X i fd s | Some f \<Rightarrow> rd_stream N D X i fd f s)"

lemma rd_finished_simps [simp]:
  "rd_finished N D X i fd None = rd_open N D X i fd" "rd_finished N D X i fd (Some f) = rd_stream N D X i fd f"
  by (simp_all add: rd_finished_def fun_eq_iff)

lemma good_print_lines: "good (rd_stream N D X i fd f) (print_lines n f) (rd_finished N D X i fd)"
proof (induction n arbitrary: f)
  case (Suc n)
  have again: "good (rd_stream N D X i fd f) (u_then (u_printf t) (\<lambda>_. print_lines n f)) (rd_finished N D X i fd)" for f t
    by (rule good_then [OF good_printf Suc]) simp
  show ?case
    unfolding print_lines.simps
    by (rule good_then [OF good_fgets]) (auto intro!: good_ret again split: prod.split option.split)
qed (auto intro!: good_ret simp: rd_stream_def)

lemma good_print_chars: "good (rd_stream N D X i fd f) (print_chars n f) (rd_finished N D X i fd)"
proof (induction n arbitrary: f)
  case (Suc n)
  have print: "good (rd_stream N D X i fd f) (u_print t) (\<lambda>_. rd_stream N D X i fd f)" for f t
  proof (cases "fst f = fd")
    case True
    then have "rd_stream N D X i fd f = rd_open N D X i fd" by (simp add: rd_stream_def fun_eq_iff)
    then show ?thesis by (simp add: good_print)
  qed (simp add: good_def rd_stream_def)
  have again: "good (rd_stream N D X i fd f) (u_then (u_print t) (\<lambda>_. print_chars n f)) (rd_finished N D X i fd)" for f t
    by (rule good_then [OF print Suc])
  show ?case
    unfolding print_chars.simps
    by (rule good_then [OF good_getc]) (auto intro!: good_ret again split: prod.split sum.split option.split)
qed (auto intro!: good_ret simp: rd_stream_def)

lemma good_copy_bytes [unix_rules]: "good (rd_open N D X i fd) (copy_bytes n fd) (\<lambda>_. rd_open N D X i fd)"
proof (induction n)
  case (Suc n)
  have again: "good (rd_open N D X i fd) (u_then (write_ignored 1 ch) (\<lambda>_. copy_bytes n fd)) (\<lambda>_. rd_open N D X i fd)" for ch
    by (rule good_then [OF good_write_ignored_out Suc])
  show ?case
    unfolding copy_bytes.simps by (rule good_try [OF good_read_open]) (auto intro!: good_ret again simp del: One_nat_def)
qed (simp add: good_ret)

lemma good_fseek: "good (rd_stream N D X i fd f) (u_fseek f offset whence) (rd_stream N D X i fd)"
proof (cases "fst f = fd")
  case True
  have "good (rd_open N D X i fd) (u_fseek f offset whence) (rd_stream N D X i fd)"
    unfolding u_fseek_def True
    by (rule good_try [OF good_lseek_open]) (auto intro!: good_ret simp: rd_stream_def True)
  then show ?thesis by (rule good_pre) (simp add: rd_stream_def)
qed (simp add: good_def rd_stream_def)

text \<open>At the end the files are those of before, and the descriptors too if success is reported. The program that cannot
  make a stream of its descriptor leaves it open.\<close>

definition rd_end :: "(string \<Rightarrow> nat option) \<Rightarrow> (nat \<Rightarrow> nat option) \<Rightarrow> (nat \<Rightarrow> node option) \<Rightarrow> nat \<Rightarrow> int \<Rightarrow> unix \<Rightarrow> bool" where
  "rd_end N D X i status s \<longleftrightarrow> rd_base N D X i s \<and> (status = 0 \<longrightarrow> u_fds s = D)"

definition rd_ended :: "(string \<Rightarrow> nat option) \<Rightarrow> (nat \<Rightarrow> nat option) \<Rightarrow> (nat \<Rightarrow> node option) \<Rightarrow> nat \<Rightarrow> int option \<Rightarrow> unix \<Rightarrow> bool"
  where "rd_ended N D X i r s \<longleftrightarrow> (case r of None \<Rightarrow> rd_base N D X i s | Some status \<Rightarrow> rd_end N D X i status s)"

lemma rd_base_of: "rd_at N D X i s \<Longrightarrow> rd_base N D X i s" "rd_open N D X i fd s \<Longrightarrow> rd_base N D X i s"
  by (simp_all add: rd_at_def rd_open_def)

lemma good_fail_base:
  "(\<And>s. P s \<Longrightarrow> rd_base N D X i s) \<Longrightarrow> good P (u_fail message) (rd_end N D X i)"
  using framed_rd_base [of N D X i]
  by (auto simp: good_def u_fail_def u_then_def u_report_def u_ret_def rd_end_def framed_def)

lemma good_end:
  "good (rd_at N D X i) (u_fail message) (rd_end N D X i)" "good (rd_open N D X i fd) (u_fail message) (rd_end N D X i)"
  "good (rd_at N D X i) (u_ret status) (rd_end N D X i)"
  by (rule good_fail_base good_ret, simp add: rd_base_of rd_end_def; simp add: rd_at_def)+

lemma good_ended:
  "good (rd_at N D X i) (u_then (u_fail message) (\<lambda>r. u_ret (Some r))) (rd_ended N D X i)"
  "good (rd_open N D X i fd) (u_then (u_fail message) (\<lambda>r. u_ret (Some r))) (rd_ended N D X i)"
  "good (rd_at N D X i) (u_ret (Some status)) (rd_ended N D X i)" "good (rd_open N D X i fd) (u_ret None) (rd_ended N D X i)"
  by (auto intro!: good_then [OF good_end(1)] good_then [OF good_end(2)] good_ret rd_base_of
      simp: rd_ended_def rd_end_def rd_at_def)

lemma good_report_fail:
  "good (rd_at N D X i) (u_then (u_report e) (\<lambda>_. u_ret EXIT_FAILURE)) (rd_end N D X i)"
  "good (rd_open N D X i fd) (u_then (u_report e) (\<lambda>_. u_then (close_ignored fd) (\<lambda>_. u_ret EXIT_FAILURE))) (rd_end N D X i)"
  by (rule good_then [OF good_report] good_then [OF good_rd_close_ignored] good_end | simp)+

lemma good_fopen_read [unix_rules]:
  "good (rd_at N D X i) (u_fopen_read path)
     (\<lambda>r s. case r of Inl e \<Rightarrow> rd_at N D X i s | Inr f \<Rightarrow> rd_open N D X i (fst f) s)"
  unfolding u_fopen_read_def by (rule good_try [OF good_open_read]) (simp_all add: good_ret)

lemma stat_good: "good (rd_at N D X i) (stat_main file_path) (rd_end N D X i)"
  unfolding stat_main_def by (rule good_end unix_rules | simp)+

lemma S_IS_good: "good (rd_at N D X i) (S_IS_main file_path) (rd_end N D X i)"
  unfolding S_IS_main_def by (rule good_end unix_rules | simp)+

lemma good_access_mode [unix_rules]:
  "framed P \<Longrightarrow> good P (u_sys (k_access_mode permitted path mode)) (\<lambda>r s. case r of Inl e \<Rightarrow> P s | Inr v \<Rightarrow> P s)"
  by (erule good_reading) (simp add: k_access_mode_def split: sum.split)

lemma access_good: "good (rd_at N D X i) (access_main strerror permitted file_path) (rd_end N D X i)"
proof -
  have check: "good (rd_at N D X i) (check_file_access strerror permitted filename mode msg) (\<lambda>_. rd_at N D X i)" for filename mode msg
    unfolding check_file_access_def
    by (rule good_try [OF good_access_mode]) (auto intro: good_printf good_report)
  show ?thesis unfolding access_main_def by (rule good_then [OF check] good_end)+
qed

lemma fstat_good: "good (rd_at N D X i) (fstat_main file_path) (rd_end N D X i)"
  unfolding fstat_main_def by (rule good_end good_report_fail unix_rules | simp)+

lemma open_close_good: "good (rd_at N D X i) (open_close_main file_path) (rd_end N D X i)"
  unfolding open_close_main_def by (rule good_end unix_rules | simp)+

lemma fopen_fclose_good: "good (rd_at N D X i) (fopen_fclose_main strerror file_path) (rd_end N D X i)"
  unfolding fopen_fclose_main_def by (rule good_end good_report_fail unix_rules | simp)+

lemma ferror_good: "good (rd_at N D X i) (ferror_main file_path) (rd_end N D X i)"
  unfolding ferror_main_def by (rule good_end unix_rules | simp)+

lemma fcntl_good: "good (rd_at N D X i) (fcntl_main file_path) (rd_end N D X i)"
proof -
  have getfl: "good (rd_open N D X i fd) (u_sys (k_getfl fd))
      (\<lambda>r s. case r of Inl e \<Rightarrow> rd_open N D X i fd s | Inr v \<Rightarrow> rd_open N D X i fd s)" for fd
    by (rule good_reading) (simp_all add: k_getfl_def)
  have setfl: "good (rd_open N D X i fd) (u_sys (k_setfl fd flags))
      (\<lambda>r s. case r of Inl e \<Rightarrow> rd_open N D X i fd s | Inr v \<Rightarrow> rd_open N D X i fd s)" for fd flags
    by (rule good_reading) (simp_all add: k_setfl_def)
  have failed: "good (rd_open N D X i fd) (fcntl_failed message fd) (rd_end N D X i)" for message fd
    unfolding fcntl_failed_def by (rule good_report_fail)
  have finish: "good (rd_open N D X i fd) (u_try (u_close fd) (\<lambda>e. u_fail m) (\<lambda>_. u_ret EXIT_SUCCESS)) (rd_end N D X i)" for fd m
    by (rule good_try [OF good_rd_close] good_end)+
  have printed: "good (rd_open N D X i fd)
      (u_then (u_printf t) (\<lambda>_. u_try (u_close fd) (\<lambda>e. u_fail m) (\<lambda>_. u_ret EXIT_SUCCESS))) (rd_end N D X i)" for fd m t
    by (rule good_then [OF good_printf finish]) simp
  show ?thesis
    unfolding fcntl_main_def Let_def
    by (rule good_try [OF good_open_read] good_try [OF getfl] good_try [OF setfl] good_try [OF good_read_open]
        good_end failed printed | (simp add: failed printed; fail))+
qed

lemma fdopen_good: "good (rd_at N D X i) (fdopen_main n file_path) (rd_ended N D X i)"
proof -
  have stream: "good (rd_open N D X i fd) (u_sys (\<lambda>s. (Inr (fd, []), s)))
      (\<lambda>r s. case r of Inl e \<Rightarrow> rd_open N D X i fd s | Inr f \<Rightarrow> rd_stream N D X i fd f s)" for fd
    by (rule good_sys) (simp_all add: rd_stream_def)
  have close: "good (rd_finished N D X i fd f)
      (case f of None \<Rightarrow> u_ret None
       | Some f \<Rightarrow> u_try (u_close (fst f)) (\<lambda>e. u_then (u_fail m) (\<lambda>r. u_ret (Some r))) (\<lambda>_. u_ret (Some EXIT_SUCCESS)))
      (rd_ended N D X i)" for fd f m
  proof (cases f)
    case (Some g)
    have "good (rd_open N D X i (fst g))
        (u_try (u_close (fst g)) (\<lambda>e. u_then (u_fail m) (\<lambda>r. u_ret (Some r))) (\<lambda>_. u_ret (Some EXIT_SUCCESS))) (rd_ended N D X i)"
      by (rule good_try [OF good_rd_close] good_ended)+
    with Some show ?thesis by (auto simp: good_def rd_stream_def)
  qed (simp add: good_ended)
  show ?thesis
    unfolding fdopen_main_def
    by (rule good_try [OF good_open_read] good_try [OF stream] good_then [OF good_print_lines] good_ended close)+
qed

lemma lseek_good: "good (rd_at N D X i) (lseek_main n file_path offset) (rd_ended N D X i)"
proof -
  have seek: "good (rd_open N D X i fd) (lseek_ignored fd off w) (\<lambda>_. rd_open N D X i fd)" for fd off w
    unfolding lseek_ignored_def by (rule good_then [OF good_lseek_open]) (auto intro: good_ret split: sum.splits)
  have shown: "good (rd_open N D X i fd) (lseek_display_file n fd m off) (\<lambda>_. rd_open N D X i fd)" for fd m off
    unfolding lseek_display_file_def by (rule good_then [OF good_print good_copy_bytes])
  have on: "good (rd_open N D X i fd) rest (rd_ended N D X i)
      \<Longrightarrow> good (rd_open N D X i fd) (go_on (lseek_display_file n fd m off) rest) (rd_ended N D X i)" for fd m off rest
    unfolding go_on_def by (rule good_then [OF shown]) (simp add: good_ended)
  show ?thesis
    unfolding lseek_main_def
    by (rule good_try [OF good_open_read] on good_then [OF seek] good_then [OF good_rd_close_ignored] good_ended)+
qed

lemma fseek_good: "good (rd_at N D X i) (fseek_main n file_path offset) (rd_ended N D X i)"
proof -
  have shown: "good (rd_stream N D X i fd f) (fseek_display_file n f m off) (rd_finished N D X i fd)" for fd f m off
  proof (cases "fst f = fd")
    case True
    then have "rd_stream N D X i fd f = rd_open N D X i fd" by (simp add: rd_stream_def fun_eq_iff)
    then have "good (rd_stream N D X i fd f) (u_print t) (\<lambda>_. rd_stream N D X i fd f)" for t by (simp add: good_print)
    then show ?thesis unfolding fseek_display_file_def by (rule good_then [OF _ good_print_chars])
  qed (simp add: good_def rd_stream_def)
  have on: "(\<And>f. good (rd_stream N D X i fd f) (rest f) (rd_ended N D X i))
      \<Longrightarrow> good (rd_stream N D X i fd f) (go_on_with (fseek_display_file n f m off) rest) (rd_ended N D X i)" for fd f m off rest
    unfolding go_on_with_def by (rule good_then [OF shown]) (simp add: good_ended split: option.split)
  have close: "good (rd_stream N D X i fd f) (u_then (close_ignored (fst f)) (\<lambda>_. u_ret (Some EXIT_SUCCESS))) (rd_ended N D X i)" for fd f
  proof -
    have "good (rd_open N D X i (fst f)) (u_then (close_ignored (fst f)) (\<lambda>_. u_ret (Some EXIT_SUCCESS))) (rd_ended N D X i)"
      by (rule good_then [OF good_rd_close_ignored good_ended(3)])
    then show ?thesis by (auto simp: good_def rd_stream_def)
  qed
  have start: "good (rd_at N D X i) (u_fopen_read file_path)
      (\<lambda>r s. case r of Inl e \<Rightarrow> rd_at N D X i s | Inr f \<Rightarrow> rd_stream N D X i (fst f) f s)"
    by (rule good_post [OF good_fopen_read]) (auto simp: rd_stream_def split: sum.splits)
  show ?thesis
    unfolding fseek_main_def
    by (rule good_try [OF start] on good_then [OF good_fseek] close good_ended)+
qed

lemma returns_parts:
  "returns (u_printf text)" "returns (u_fail message)" "returns (close_ignored fd)" "returns (u_fopen_read path)"
  "returns (u_getc f)" "returns (u_print text)" "returns (write_ignored fd text)"
proof -
  show "returns (u_printf text)" by (simp add: returns_def u_printf_def)
  then have "returns (u_then (u_printf text) (\<lambda>_ s.
       if on_terminal s \<and> NL \<in> set text then u_then u_fflush (\<lambda>_. u_ret ()) s else u_ret () s))"
  proof (rule returns_then)
    have "returns (u_then u_fflush (\<lambda>_. u_ret ()))" by blast
    moreover have "returns (u_ret ())" by blast
    ultimately show "returns (\<lambda>s. if on_terminal s \<and> NL \<in> set text then u_then u_fflush (\<lambda>_. u_ret ()) s else u_ret () s)"
      by (simp add: returns_def)
  qed
  then show "returns (u_print text)" by (simp add: u_print_def)
  show "returns (u_getc f)" by (cases "snd f") (auto simp: u_getc_def intro!: returns_try split: list.split)
qed (auto simp: u_fail_def close_ignored_def u_fopen_read_def write_ignored_def)

lemma returns_loops:
  "returns (u_getline n f)" "returns (print_lines n f)" "returns (print_chars n f)" "returns (copy_bytes n fd)"
proof -
  have line: "returns (u_getline n f)" for n f
    by (induction n arbitrary: f) (auto intro!: returns_then returns_parts split: prod.split sum.split option.split)
  then show "returns (u_getline n f)" .
  have fgets: "returns (u_fgets n f)" for n f
    unfolding u_fgets_def by (auto intro!: returns_then line split: prod.split)
  show "returns (print_lines n f)"
    by (induction n arbitrary: f) (auto intro!: returns_then returns_parts fgets split: prod.split option.split)
  show "returns (print_chars n f)"
    by (induction n arbitrary: f) (auto intro!: returns_then returns_parts split: prod.split sum.split option.split)
  show "returns (copy_bytes n fd)"
    by (induction n) (auto intro!: returns_try returns_then returns_parts)
qed

text \<open>A program that answers None has not come to its end; otherwise the process ends with the flushing of the output.\<close>

definition u_within :: "int option uprog \<Rightarrow> unix \<Rightarrow> int option \<times> unix" where
  "u_within main s =
     (case main s of
        (Done None, s') \<Rightarrow> (None, s')
      | (Done (Some n), s') \<Rightarrow> (Some n, snd (u_fflush s'))
      | (Quit n, s') \<Rightarrow> (Some n, snd (u_fflush s')))"

definition ended :: "int uprog \<Rightarrow> int option uprog" where
  "ended main = u_then main (\<lambda>status. u_ret (Some status))"

definition reading_programs :: "(int \<Rightarrow> string) \<Rightarrow> (nat \<Rightarrow> nat \<Rightarrow> bool) \<Rightarrow> nat \<Rightarrow> string \<Rightarrow> int \<Rightarrow> int option uprog set" where
  "reading_programs strerror permitted n file_path offset =
     {ended (stat_main file_path), ended (fstat_main file_path), ended (S_IS_main file_path),
      ended (access_main strerror permitted file_path), ended (open_close_main file_path),
      ended (fopen_fclose_main strerror file_path), ended (ferror_main file_path), ended (fcntl_main file_path),
      fdopen_main n file_path, lseek_main n file_path offset, fseek_main n file_path offset, fseeko_main n file_path offset}"

lemma ended_good: "good (rd_at N D X i) main (rd_end N D X i) \<Longrightarrow> good (rd_at N D X i) (ended main) (rd_ended N D X i)"
  unfolding ended_def by (rule good_then) (auto intro: good_ret simp: rd_ended_def)

lemma reading_good:
  "main \<in> reading_programs strerror permitted n file_path offset \<Longrightarrow> good (rd_at N D X i) main (rd_ended N D X i)"
  unfolding reading_programs_def
  by (auto intro: ended_good stat_good fstat_good S_IS_good access_good open_close_good fopen_fclose_good ferror_good
      fcntl_good fdopen_good lseek_good fseek_good simp: fseeko_fseek)

lemma returns_ended: "returns main \<Longrightarrow> returns (ended main)"
  unfolding ended_def by blast

lemmas returning = returns_then returns_try returns_calls returns_parts returns_loops

lemma reading_returns: "main \<in> reading_programs strerror permitted n file_path offset \<Longrightarrow> returns main"
proof -
  have small: "returns (stat_main file_path)" "returns (fstat_main file_path)" "returns (S_IS_main file_path)"
    "returns (access_main strerror permitted file_path)" "returns (open_close_main file_path)"
    "returns (fopen_fclose_main strerror file_path)" "returns (ferror_main file_path)"
    by (auto simp: stat_main_def fstat_main_def S_IS_main_def access_main_def open_close_main_def fopen_fclose_main_def
        ferror_main_def check_file_access_def intro!: returning)
  have fcntl: "returns (fcntl_main file_path)"
    by (auto simp: fcntl_main_def fcntl_failed_def Let_def intro!: returning)
  have loops: "returns (fdopen_main n file_path)" "returns (lseek_main n file_path offset)" "returns (fseek_main n file_path offset)"
    by (auto simp: fdopen_main_def lseek_main_def fseek_main_def go_on_def go_on_with_def lseek_display_file_def
        fseek_display_file_def lseek_ignored_def u_fseek_def split: option.split intro!: returning)
  show "main \<in> reading_programs strerror permitted n file_path offset \<Longrightarrow> returns main"
    unfolding reading_programs_def using small fcntl loops by (auto intro: returns_ended simp: fseeko_fseek)
qed

text \<open>C29. Whatever file they are given, whatever calls fail and however far they have come, the programs that report on or read a file
  leave every name, and every inode but the one the standard output goes to, as it was; a program that reports success has
  closed what it has opened.\<close>

theorem reading_programs_change_nothing:
  assumes "main \<in> reading_programs strerror permitted n file_path offset" "inode_of s 1 = Some (d, i, pos)" "d < u_opened s"
    and "u_within main s = (status, s')"
  shows "u_names s' = u_names s \<and> (\<forall>j. j \<noteq> i \<longrightarrow> u_nodes s' j = u_nodes s j) \<and> (status = Some 0 \<longrightarrow> u_fds s' = u_fds s)"
proof -
  have s: "rd_at (u_names s) (u_fds s) (u_nodes s) i s"
    using assms(2,3) by (auto simp: rd_defs inode_of_def split: option.splits)
  obtain v t where run: "main s = (Done v, t)"
    using reading_returns [OF assms(1)] unfolding returns_def by blast
  have "rd_ended (u_names s) (u_fds s) (u_nodes s) i v t"
    using reading_good [OF assms(1), unfolded good_def, rule_format, OF s] run by simp
  then have t: "rd_base (u_names s) (u_fds s) (u_nodes s) i t \<and> (v = Some 0 \<longrightarrow> u_fds t = u_fds s)"
    by (auto simp: rd_ended_def rd_end_def split: option.splits)
  obtain r t' where flush: "u_fflush t = (Done r, t')" using returns_fflush unfolding returns_def by blast
  have "case u_fflush t of (Done r, t') \<Rightarrow> rd_base (u_names s) (u_fds s) (u_nodes s) i t' | (Quit n, t') \<Rightarrow> n \<noteq> 0"
    using t by (intro good_flush_base [unfolded good_def, rule_format]) simp
  with flush have flushed: "rd_base (u_names s) (u_fds s) (u_nodes s) i (snd (u_fflush t))" by simp
  show ?thesis
    using assms(4) t flushed
    by (auto simp: u_within_def run rd_base_def fflush_keeps split: option.splits)
qed

lemma reading_programs_change_nothing_witness:
  "u_names (snd (u_within (lseek_main 3 ''x'' 0) ((unix_start plain_meta [])\<lparr>u_faults := [Some 13]\<rparr>))) = (\<lambda>_. None)"
  using reading_programs_change_nothing [of "lseek_main 3 ''x'' 0" "\<lambda>e. []" "\<lambda>i m. True" 3 "''x''" 0
      "(unix_start plain_meta [])\<lparr>u_faults := [Some 13]\<rparr>" 0 0 0, OF _ _ _ surjective_pairing]
  by (simp add: reading_programs_def unix_start_def inode_of_def)

section \<open>Kinds of files\<close>

fun type_line :: "node \<Rightarrow> string" where
  "type_line (Regular d m) = ''Type: Regular file'' @ [NL]"
| "type_line (Directory m) = ''Type: Directory'' @ [NL]"
| "type_line (Symlink t) = ''Type: Symbolic link'' @ [NL]"
| "type_line (Terminal d m) = ''Type: Character special file'' @ [NL]"
| "type_line (Special k m) =
     (if k = 0x6000 then ''Type: Block special file'' else if k = 0x2000 then ''Type: Character special file''
      else if k = 0x1000 then ''Type: FIFO/Named Pipe'' else if k = 0xC000 then ''Type: Socket'' else ''Type: Unknown file type'') @ [NL]"

fun node_bits :: "node \<Rightarrow> bool" where
  "node_bits (Symlink t) = True"
| "node_bits (Special k m) = (k AND S_IFMT = k \<and> k \<notin> {0x4000, 0x8000, 0xA000} \<and> m AND S_IFMT = 0)"
| "node_bits (Regular d m) = (m AND S_IFMT = 0)"
| "node_bits (Directory m) = (m AND S_IFMT = 0)"
| "node_bits (Terminal d m) = (m AND S_IFMT = 0)"

lemma kind_bits: "k AND S_IFMT = k \<Longrightarrow> m AND S_IFMT = 0 \<Longrightarrow> (k OR m) AND S_IFMT = k" for k m :: uint32
  by (simp add: bit.conj_disj_distrib2)

lemma kinds:
  "m AND S_IFMT = 0 \<Longrightarrow> (0x8000 OR m) AND S_IFMT = 0x8000" "m AND S_IFMT = 0 \<Longrightarrow> (0x4000 OR m) AND S_IFMT = 0x4000"
  "m AND S_IFMT = 0 \<Longrightarrow> (0x2000 OR m) AND S_IFMT = 0x2000" "0xA1FF AND S_IFMT = 0xA000" for m :: uint32
  by (rule kind_bits, simp add: S_IFMT_def, assumption)+ (simp add: S_IFMT_def)

lemma type_line_stat: "node_bits nd \<Longrightarrow> st_mode st = node_mode nd \<Longrightarrow> print_special_type st = type_line nd"
  by (cases nd) (auto simp: print_special_type_def kind_bits kinds Let_def)

lemma resolve_not_link:
  "resolve n s path = Some q \<Longrightarrow> u_names s q = Some i \<Longrightarrow> u_nodes s i \<noteq> Some (Symlink t)"
  by (induction n s path rule: resolve.induct) (auto split: option.splits node.splits)

text \<open>\<^verbatim>\<open>S_IS\<close> names the kind of the file its path leads to, and never calls it a symbolic link.\<close>

theorem S_IS_names_kind:
  assumes "k_stat path s = (Inr fileStat, s')" "\<And>i nd. u_nodes s i = Some nd \<Longrightarrow> node_bits nd"
  shows "\<exists>i nd. lookup s path = Inr i \<and> u_nodes s i = Some nd \<and> print_special_type fileStat = type_line nd \<and> (\<forall>t. nd \<noteq> Symlink t)"
proof -
  obtain i where i: "lookup s path = Inr i" and st: "stat_of s i = Inr fileStat"
    using assms(1) by (auto simp: k_stat_def split: sum.splits)
  then obtain nd where nd: "u_nodes s i = Some nd" and mode: "st_mode fileStat = node_mode nd"
    by (auto simp: stat_of_def split: option.splits)
  have "nd \<noteq> Symlink t" for t
    using i nd resolve_not_link [of 40 s path] by (auto simp: lookup_def final_name_def split: option.splits)
  with i nd type_line_stat [OF assms(2) [OF nd] mode] show ?thesis by blast
qed

end
