(* ===== verification/Unix_Seek.thy ===== *)
theory Unix_Seek
  imports Unix_Readers
begin

text \<open>
  What \<^verbatim>\<open>src/files/lseek\<close>, \<^verbatim>\<open>src/streams/fseek\<close> and \<^verbatim>\<open>src/streams/fseeko\<close> print of a regular file when no call
  fails. The first writes the file with \<^verbatim>\<open>write\<close> and its headings with \<^verbatim>\<open>printf\<close>, so that the order depends on
  where the standard output goes.
\<close>

section \<open>A file being read\<close>

text \<open>The descriptor \<open>fd\<close> is at \<open>p\<close> in a file with contents \<open>data\<close>, the standard output holds \<open>written\<close> and its buffer
  \<open>held\<close>. The standard output is a terminal, or a file at whose end it is.\<close>

record seeing_what =
  see_tty :: bool
  see_fd :: nat
  see_description :: nat
  see_inode :: nat
  see_data :: string
  see_mode :: uint32
  out_description :: nat
  out_inode :: nat
  out_mode :: uint32

definition out_ok :: "bool \<Rightarrow> node option \<Rightarrow> uint32 \<Rightarrow> nat \<Rightarrow> string \<Rightarrow> bool" where
  "out_ok tty nd m q written \<longleftrightarrow> nd = Some (if tty then Terminal written m else Regular written m) \<and> (tty \<or> q = length written)"

definition out_at :: "seeing_what \<Rightarrow> string \<Rightarrow> string \<Rightarrow> unix \<Rightarrow> bool" where
  "out_at w written held s \<longleftrightarrow>
     u_faults s = [] \<and> u_stdout s = held \<and> u_fds s 1 = Some (out_description w)
     \<and> (\<exists>q. u_open s (out_description w) = Some (out_inode w, q)
          \<and> out_ok (see_tty w) (u_nodes s (out_inode w)) (out_mode w) q written)"

definition seeing :: "seeing_what \<Rightarrow> nat \<Rightarrow> string \<Rightarrow> string \<Rightarrow> unix \<Rightarrow> bool" where
  "seeing w p written held s \<longleftrightarrow>
     u_faults s = [] \<and> u_stdout s = held \<and> see_inode w \<noteq> out_inode w \<and> see_description w \<noteq> out_description w
     \<and> u_fds s (see_fd w) = Some (see_description w) \<and> u_open s (see_description w) = Some (see_inode w, p)
     \<and> u_nodes s (see_inode w) = Some (Regular (see_data w) (see_mode w))
     \<and> u_fds s 1 = Some (out_description w)
     \<and> (\<exists>q. u_open s (out_description w) = Some (out_inode w, q)
          \<and> out_ok (see_tty w) (u_nodes s (out_inode w)) (out_mode w) q written)"

lemma write_at_end: "write_at (length d) t d = d @ t"
  by (simp add: write_at_def)

lemma see_sys:
  assumes "\<And>s. P s \<Longrightarrow> u_faults s = []" "\<And>s. P s \<Longrightarrow> \<exists>v s'. call s = (Inr v, s') \<and> Q v s'"
  shows "good P (u_sys call) (\<lambda>r s. case r of Inl e \<Rightarrow> False | Inr v \<Rightarrow> Q v s)"
  unfolding good_def
proof (intro allI impI)
  fix s
  assume "P s"
  with assms obtain v s' where "u_faults s = []" "call s = (Inr v, s')" "Q v s'" by blast
  then show "case u_sys call s of (Done r, s') \<Rightarrow> (case r of Inl e \<Rightarrow> False | Inr v \<Rightarrow> Q v s') | (Quit n, s') \<Rightarrow> n \<noteq> 0"
    by (simp add: u_sys_def)
qed

lemma see_write:
  "good (seeing w p written held) (u_sys (k_write 1 text))
     (\<lambda>r s. case r of Inl e \<Rightarrow> False | Inr v \<Rightarrow> seeing w p (written @ text) held s)"
proof (rule see_sys)
  fix s
  assume "seeing w p written held s"
  then show "\<exists>v s'. k_write 1 text s = (Inr v, s') \<and> seeing w p (written @ text) held s'"
    by (cases "see_tty w")
      (auto simp: seeing_def k_write_def out_ok_def write_at_end inode_of_def simp del: One_nat_def)
qed (simp add: seeing_def)

lemma see_read:
  "good (seeing w p written held) (u_sys (k_read (see_fd w) n))
     (\<lambda>r s. case r of Inl e \<Rightarrow> False
        | Inr text \<Rightarrow> text = take n (drop p (see_data w)) \<and> seeing w (p + length text) written held s)"
  by (rule see_sys) (auto simp: seeing_def k_read_def Let_def inode_of_def out_ok_def)

lemma see_lseek:
  "good (seeing w p written held) (u_sys (k_lseek (see_fd w) 0 SEEK_SET))
     (\<lambda>r s. case r of Inl e \<Rightarrow> False | Inr v \<Rightarrow> seeing w 0 written held s)"
  by (rule see_sys) (auto simp: seeing_def k_lseek_def Let_def inode_of_def out_ok_def)

lemma see_lseek_cur:
  "good (seeing w 0 written held) (u_sys (k_lseek (see_fd w) offset SEEK_CUR))
     (\<lambda>r s. seeing w (nat offset) written held s)"
  by (auto simp: good_def u_sys_def seeing_def k_lseek_def Let_def inode_of_def out_ok_def)

lemma see_printf: "good (seeing w p written held) (u_printf text) (\<lambda>_. seeing w p written (held @ text))"
  by (simp add: good_def u_printf_def seeing_def inode_of_def)

lemma flush_from:
  assumes "good P (u_sys (k_write 1 held)) (\<lambda>r s. case r of Inl e \<Rightarrow> False | Inr v \<Rightarrow> Q s)"
    and "\<And>s. Q s \<Longrightarrow> R (s\<lparr>u_stdout := []\<rparr>)" "\<And>s. P s \<Longrightarrow> u_stdout s = held" "\<And>s. P s \<Longrightarrow> held = [] \<Longrightarrow> R s"
  shows "good P u_fflush (\<lambda>_. R)"
proof -
  have empty: "good Q (\<lambda>s. (Done (Inr ()), s\<lparr>u_stdout := []\<rparr>)) (\<lambda>_. R)" using assms(2) by (simp add: good_def)
  have wr: "good P (u_try (u_sys (k_write 1 held)) (\<lambda>e. u_ret (Inl e)) (\<lambda>_ s. (Done (Inr ()), s\<lparr>u_stdout := []\<rparr>))) (\<lambda>_. R)"
    by (rule good_try [OF assms(1)]) (simp_all add: empty good_ret)
  show ?thesis
    unfolding good_def
  proof (intro allI impI)
    fix s
    assume s: "P s"
    show "case u_fflush s of (Done v, s') \<Rightarrow> R s' | (Quit n, s') \<Rightarrow> n \<noteq> 0"
      using wr [unfolded good_def, rule_format, OF s] assms(3,4) [OF s] by (cases "held = []") (simp_all add: u_fflush_def)
  qed
qed

lemma see_flush: "good (seeing w p written held) u_fflush (\<lambda>_. seeing w p (written @ held) [])"
  by (rule flush_from [OF see_write]) (auto simp: seeing_def)

lemma out_write:
  "good (out_at w written held) (u_sys (k_write 1 text)) (\<lambda>r s. case r of Inl e \<Rightarrow> False | Inr v \<Rightarrow> out_at w (written @ text) held s)"
proof (rule see_sys)
  fix s
  assume "out_at w written held s"
  then show "\<exists>v s'. k_write 1 text s = (Inr v, s') \<and> out_at w (written @ text) held s'"
    by (cases "see_tty w")
      (auto simp: out_at_def k_write_def out_ok_def write_at_end inode_of_def simp del: One_nat_def)
qed (simp add: out_at_def)

lemma out_flush: "good (out_at w written held) u_fflush (\<lambda>_. out_at w (written @ held) [])"
  by (rule flush_from [OF out_write]) (auto simp: out_at_def)

lemma see_print:
  "good (seeing w p written held) (u_print text)
     (\<lambda>_. if see_tty w \<and> NL \<in> set text then seeing w p (written @ held @ text) [] else seeing w p written (held @ text))"
  unfolding u_print_def
proof (rule good_then [OF see_printf])
  let ?P = "seeing w p written (held @ text)"
  have tty: "on_terminal s = see_tty w" if "?P s" for s
    using that by (cases "see_tty w") (auto simp: seeing_def on_terminal_def inode_of_def out_ok_def simp del: One_nat_def)
  have "good ?P (u_then u_fflush (\<lambda>_. u_ret ())) (\<lambda>_. seeing w p (written @ held @ text) [])"
    by (rule good_then [OF see_flush]) (simp add: good_ret)
  then show "good ?P (\<lambda>s. if on_terminal s \<and> NL \<in> set text then u_then u_fflush (\<lambda>_. u_ret ()) s else u_ret () s)
     (\<lambda>_. if see_tty w \<and> NL \<in> set text then seeing w p (written @ held @ text) [] else ?P)"
    using tty by (cases "see_tty w \<and> NL \<in> set text") (auto simp: good_def u_ret_def)
qed

section \<open>The loops\<close>

lemma see_copy_bytes:
  "length (see_data w) - p < n \<Longrightarrow>
    good (seeing w p written held) (copy_bytes n (see_fd w))
      (\<lambda>ended s. ended \<and> seeing w (max p (length (see_data w))) (written @ drop p (see_data w)) held s)"
proof (induction n arbitrary: p written)
  case (Suc n)
  have wr: "good (seeing w p written held) (write_ignored 1 t) (\<lambda>_. seeing w p (written @ t) held)" for p written t
    unfolding write_ignored_def
  proof (rule good_then [OF see_write])
    fix r :: "int + unit"
    show "good (\<lambda>s. case r of Inl e \<Rightarrow> False | Inr v \<Rightarrow> seeing w p (written @ t) held s) (u_ret ()) (\<lambda>_. seeing w p (written @ t) held)"
      by (cases r) (simp_all add: good_def u_ret_def)
  qed
  show ?case
    unfolding copy_bytes.simps
  proof (rule good_try [OF see_read])
    fix ch
    let ?post = "\<lambda>ended s. ended \<and> seeing w (max p (length (see_data w))) (written @ drop p (see_data w)) held s"
    let ?next = "if ch = [] then u_ret True else u_then (write_ignored 1 ch) (\<lambda>_. copy_bytes n (see_fd w))"
    show "good (\<lambda>s. ch = take 1 (drop p (see_data w)) \<and> seeing w (p + length ch) written held s) ?next ?post"
    proof (cases "p < length (see_data w)")
      case True
      then have ch: "take 1 (drop p (see_data w)) = [see_data w ! p]" by (simp add: take_Suc_conv_app_nth)
      have "good (seeing w (Suc p) written held)
          (u_then (write_ignored 1 [see_data w ! p]) (\<lambda>_. copy_bytes n (see_fd w))) ?post"
      proof (rule good_then [OF wr])
        have "good (seeing w (Suc p) (written @ [see_data w ! p]) held) (copy_bytes n (see_fd w))
           (\<lambda>ended s. ended \<and> seeing w (max (Suc p) (length (see_data w)))
              ((written @ [see_data w ! p]) @ drop (Suc p) (see_data w)) held s)"
          using Suc.prems True by (intro Suc.IH) simp
        with True show "good (seeing w (Suc p) (written @ [see_data w ! p]) held) (copy_bytes n (see_fd w)) ?post"
          by (simp add: max_def Cons_nth_drop_Suc)
      qed
      then show ?thesis unfolding ch by (auto simp: good_def)
    qed (auto simp: good_def u_ret_def max_def)
  qed (simp add: good_def)
qed simp

text \<open>A stream at the position where \<open>left\<close> remains to be read; \<open>shown\<close> is what has been printed, whether it has left the buffer
  or not.\<close>

definition streaming :: "seeing_what \<Rightarrow> string \<Rightarrow> string \<Rightarrow> reader \<Rightarrow> unix \<Rightarrow> bool" where
  "streaming w left shown f s \<longleftrightarrow>
     fst f = see_fd w
     \<and> (\<exists>p written held. left = snd f @ drop p (see_data w) \<and> shown = written @ held \<and> seeing w p written held s)"

lemma streamingI:
  "seeing w p written held s \<Longrightarrow> fst f = see_fd w \<Longrightarrow> left = snd f @ drop p (see_data w) \<Longrightarrow> shown = written @ held
    \<Longrightarrow> streaming w left shown f s"
  unfolding streaming_def by blast

lemma stream_print: "good (streaming w left shown f) (u_print t) (\<lambda>_. streaming w left (shown @ t) f)"
  unfolding good_def
proof (intro allI impI)
  fix s
  assume "streaming w left shown f s"
  then obtain p written held where s: "fst f = see_fd w" "left = snd f @ drop p (see_data w)" "shown = written @ held"
    and see: "seeing w p written held s" by (auto simp: streaming_def)
  have "seeing w p a b s' \<Longrightarrow> a @ b = shown @ t \<Longrightarrow> streaming w left (shown @ t) f s'" for a b s'
    using s(1,2) unfolding streaming_def by metis
  then show "case u_print t s of (Done v, s') \<Rightarrow> streaming w left (shown @ t) f s' | (Quit n, s') \<Rightarrow> n \<noteq> 0"
    using see_print [of w p written held t, unfolded good_def, rule_format, OF see] s(3)
    by (auto split: prod.splits uresult.splits if_splits)
qed

text \<open>The next character of a stream.\<close>

lemma stream_getc:
  "good (streaming w left shown f) (u_getc f)
     (\<lambda>(r, f') s. case left of [] \<Rightarrow> r = Inr None \<and> streaming w [] shown f' s
        | c # rest \<Rightarrow> r = Inr (Some c) \<and> streaming w rest shown f' s)"
  unfolding good_def
proof (intro allI impI)
  fix s
  let ?post = "\<lambda>(r, f') s. case left of [] \<Rightarrow> r = Inr None \<and> streaming w [] shown f' s
        | c # rest \<Rightarrow> r = Inr (Some c) \<and> streaming w rest shown f' s"
  assume "streaming w left shown f s"
  then obtain p written held where f: "fst f = see_fd w" "left = snd f @ drop p (see_data w)" "shown = written @ held"
    and see: "seeing w p written held s" by (auto simp: streaming_def)
  have streaming: "streaming w (b @ drop q (see_data w)) shown (see_fd w, b) t" if "seeing w q written held t" for b q t
    using that f(3) by (auto simp: streaming_def)
  show "case u_getc f s of (Done v, s') \<Rightarrow> ?post v s' | (Quit n, s') \<Rightarrow> n \<noteq> 0"
  proof (cases "snd f")
    case (Cons c rest)
    with f streaming [OF see, of rest] show ?thesis by (simp add: u_getc_def u_ret_def)
  next
    case Nil
    obtain n where n: "STDIO_BUFFER = Suc n" by (simp add: STDIO_BUFFER_def numeral_eq_Suc)
    have run: "good (seeing w p written held) (u_getc f) ?post"
      unfolding u_getc_def Nil f(1) list.case
    proof (rule good_try [OF see_read])
      fix taken
      have eq: "(case taken of [] \<Rightarrow> u_ret (Inr None, f) | c # rest \<Rightarrow> u_ret (Inr (Some c), see_fd w, rest))
          = u_ret (case taken of [] \<Rightarrow> (Inr None, f) | c # rest \<Rightarrow> (Inr (Some c), see_fd w, rest))"
        by (cases taken) simp_all
      have post: "?post (case taken of [] \<Rightarrow> (Inr None, f) | c # rest \<Rightarrow> (Inr (Some c), (see_fd w, rest))) t"
        if taken: "taken = take STDIO_BUFFER (drop p (see_data w))" and t: "seeing w (p + length taken) written held t" for t
      proof (cases "drop p (see_data w)")
        case Nil': Nil
        have "f = (see_fd w, [])" using f(1) Nil by (simp add: prod_eq_iff)
        with streaming [OF t, of "[]"] taken Nil Nil' f(2) show ?thesis by simp
      next
        case Cons': (Cons c rest)
        have parts: "take n rest @ drop (p + length taken) (see_data w) = rest"
          using taken Cons' n by (metis add.commute append_take_drop_id drop_drop length_take list.sel(3) take_Suc_Cons
              append_Cons take_drop append_eq_conv_conj list.inject)
        have taken: "taken = c # take n rest" using taken Cons' by (simp add: n)
        have left: "left = c # rest" using Nil Cons' f(2) by simp
        show ?thesis unfolding taken left using streaming [OF t, of "take n rest"] parts taken by simp
      qed
      show "good (\<lambda>s. taken = take STDIO_BUFFER (drop p (see_data w)) \<and> seeing w (p + length taken) written held s)
         (case taken of [] \<Rightarrow> u_ret (Inr None, f) | c # rest \<Rightarrow> u_ret (Inr (Some c), see_fd w, rest)) ?post"
        unfolding eq by (rule good_ret, rule post, erule conjunct1, erule conjunct2)
    qed (simp add: good_def)
    show ?thesis by (rule run [unfolded good_def, rule_format, OF see])
  qed
qed

lemma stream_print_chars:
  "length left < n \<Longrightarrow>
    good (streaming w left shown f) (print_chars n f)
      (\<lambda>r s. case r of None \<Rightarrow> False | Some f' \<Rightarrow> streaming w [] (shown @ left) f' s)"
proof (induction n arbitrary: left shown f)
  case (Suc n)
  let ?post = "\<lambda>r s. case r of None \<Rightarrow> False | Some f' \<Rightarrow> streaming w [] (shown @ left) f' s"
  show ?case
    unfolding print_chars.simps
  proof (rule good_then [OF stream_getc], rule good_pair, simp only: prod.case)
    fix r and f' :: reader
    let ?next = "case r of Inr (Some ch) \<Rightarrow> u_then (u_print [ch]) (\<lambda>_. print_chars n f') | _ \<Rightarrow> u_ret (Some f')"
    show "good (\<lambda>s. case left of [] \<Rightarrow> r = Inr None \<and> streaming w [] shown f' s
         | c # rest \<Rightarrow> r = Inr (Some c) \<and> streaming w rest shown f' s) ?next ?post"
    proof (cases left)
      case Nil
      then show ?thesis by (auto simp: good_def u_ret_def)
    next
      case (Cons c rest)
      have "good (streaming w rest (shown @ [c]) f') (print_chars n f') ?post"
        using Suc.IH [of rest "shown @ [c]" f'] Suc.prems unfolding Cons append_assoc append_Cons append_Nil by simp
      then have "good (streaming w rest shown f') (u_then (u_print [c]) (\<lambda>_. print_chars n f')) ?post"
        by (rule good_then [OF stream_print])
      with Cons show ?thesis by (auto simp: good_def)
    qed
  qed
qed simp

section \<open>The programs\<close>

text \<open>Before the program: the path leads to the file, which is not the one the standard output goes to.\<close>

definition before :: "seeing_what \<Rightarrow> string \<Rightarrow> string \<Rightarrow> unix \<Rightarrow> bool" where
  "before w path written s \<longleftrightarrow>
     out_at w written [] s \<and> free_fd s = Some (see_fd w) \<and> lookup s path = Inr (see_inode w)
     \<and> u_nodes s (see_inode w) = Some (Regular (see_data w) (see_mode w)) \<and> see_inode w \<noteq> out_inode w
     \<and> see_description w = u_opened s \<and> out_description w < u_opened s"

lemma see_open:
  "good (before w path written) (u_sys (k_open_read path))
     (\<lambda>r s. case r of Inl e \<Rightarrow> False | Inr fd \<Rightarrow> fd = see_fd w \<and> seeing w 0 written [] s)"
proof (rule see_sys)
  fix s
  assume s: "before w path written s"
  then have "see_fd w \<noteq> 1" using free_fd_None [of s "see_fd w"] by (auto simp: before_def out_at_def)
  with s show "\<exists>v s'. k_open_read path s = (Inr v, s') \<and> v = see_fd w \<and> seeing w 0 written [] s'"
    by (simp add: before_def out_at_def k_open_read_def install_def seeing_def)
qed (simp add: before_def out_at_def)

lemma see_close: "good (seeing w p written held) (close_ignored (see_fd w)) (\<lambda>_. out_at w written held)"
  by (auto simp: good_def close_ignored_def u_close_def u_then_def u_sys_def u_ret_def seeing_def out_at_def)

definition display_heading :: "string \<Rightarrow> int \<Rightarrow> string" where
  "display_heading message offset = message @ '' '' @ dec_int offset @ '':'' @ [NL, NL]"

definition contents_from :: "int \<Rightarrow> string \<Rightarrow> string" where
  "contents_from offset data = drop (nat offset) data"

lemma see_heading:
  "good (seeing w p written held) (u_print (message @ '' '' @ dec_int offset @ '':'' @ [NL, NL]))
     (\<lambda>_. seeing w p (if see_tty w then written @ held @ display_heading message offset else written)
        (if see_tty w then [] else held @ display_heading message offset))"
  by (rule good_post [OF see_print]) (simp add: display_heading_def split: if_splits)

lemma see_display:
  assumes "length (see_data w) < n"
  shows "good (seeing w p written held) (lseek_display_file n (see_fd w) message offset)
     (\<lambda>ended s. ended \<and> seeing w (max p (length (see_data w)))
        ((if see_tty w then written @ held @ display_heading message offset else written) @ drop p (see_data w))
        (if see_tty w then [] else held @ display_heading message offset) s)"
  unfolding lseek_display_file_def
proof (rule good_then [OF see_heading see_copy_bytes])
  show "length (see_data w) - p < n" using assms by simp
qed

lemma see_go_on:
  assumes "length (see_data w) < n"
    and "good (seeing w (max p (length (see_data w)))
        ((if see_tty w then written @ held @ display_heading message offset else written) @ drop p (see_data w))
        (if see_tty w then [] else held @ display_heading message offset)) rest R"
  shows "good (seeing w p written held) (go_on (lseek_display_file n (see_fd w) message offset) rest) R"
  unfolding go_on_def
  by (rule good_then [OF see_display [OF assms(1)]]) (use assms(2) in \<open>auto simp: good_def\<close>)

lemma see_rewind: "good (seeing w p written held) (lseek_ignored (see_fd w) 0 SEEK_SET) (\<lambda>_. seeing w 0 written held)"
  unfolding lseek_ignored_def by (rule good_then [OF see_lseek]) (auto simp: good_def u_ret_def split: sum.splits)

lemma see_skip: "good (seeing w 0 written held) (lseek_ignored (see_fd w) offset SEEK_CUR) (\<lambda>_. seeing w (nat offset) written held)"
  unfolding lseek_ignored_def by (rule good_then [OF see_lseek_cur]) (simp add: good_ret)

definition in_turn :: "string \<Rightarrow> int \<Rightarrow> string" where
  "in_turn data offset =
     display_heading ''File contents'' 0 @ data
     @ display_heading ([NL, NL] @ ''File contents after SEEK_SET'') 0 @ data
     @ display_heading ([NL, NL] @ ''File contents after SEEK_CUR'') offset @ contents_from offset data"

definition headings_last :: "string \<Rightarrow> int \<Rightarrow> string" where
  "headings_last data offset =
     data @ data @ contents_from offset data @ display_heading ''File contents'' 0
     @ display_heading ([NL, NL] @ ''File contents after SEEK_SET'') 0
     @ display_heading ([NL, NL] @ ''File contents after SEEK_CUR'') offset"

lemma lseek_run:
  assumes n: "length (see_data w) < n"
  shows "good (before w path T) (lseek_main n path offset)
     (\<lambda>r s. r = Some 0 \<and> (\<exists>a b. out_at w a b s
        \<and> a @ b = T @ (if see_tty w then in_turn (see_data w) offset else headings_last (see_data w) offset)))"
  (is "good _ _ ?R")
proof -
  have rest: "good (seeing w 0 T []) (
     go_on (lseek_display_file n (see_fd w) ''File contents'' 0) (
     u_then (lseek_ignored (see_fd w) 0 SEEK_SET) (\<lambda>_.
     go_on (lseek_display_file n (see_fd w) ([NL, NL] @ ''File contents after SEEK_SET'') 0) (
     u_then (lseek_ignored (see_fd w) 0 SEEK_SET) (\<lambda>_.
     u_then (lseek_ignored (see_fd w) offset SEEK_CUR) (\<lambda>_.
     go_on (lseek_display_file n (see_fd w) ([NL, NL] @ ''File contents after SEEK_CUR'') offset) (
     u_then (close_ignored (see_fd w)) (\<lambda>_. u_ret (Some EXIT_SUCCESS))))))))) ?R"
    by (rule see_go_on [OF n] good_then [OF see_rewind] good_then [OF see_skip] good_then [OF see_close])+
      (rule good_ret, rule conjI, rule refl, intro exI conjI, assumption,
        simp add: in_turn_def headings_last_def contents_from_def)
  show ?thesis
    unfolding lseek_main_def
    by (rule good_try [OF see_open]) (use rest in \<open>auto simp: good_def\<close>)
qed

text \<open>The same with a stream, whose output goes through one buffer.\<close>

lemma stream_open:
  "good (before w path T) (u_fopen_read path) (\<lambda>r s. case r of Inl e \<Rightarrow> False | Inr f \<Rightarrow> streaming w (see_data w) T f s)"
  unfolding u_fopen_read_def
proof (rule good_try [OF see_open])
  fix fd
  show "good (\<lambda>s. fd = see_fd w \<and> seeing w 0 T [] s) (u_ret (Inr (fd, [])))
     (\<lambda>r s. case r of Inl e \<Rightarrow> False | Inr f \<Rightarrow> streaming w (see_data w) T f s)"
    by (rule good_ret) (auto intro: streamingI [of w 0 T "[]"])
qed (simp add: good_def)

text \<open>Seeking empties the buffer of the stream.\<close>

definition emptied :: "seeing_what \<Rightarrow> string \<Rightarrow> reader \<Rightarrow> unix \<Rightarrow> bool" where
  "emptied w shown f s \<longleftrightarrow> f = (see_fd w, []) \<and> (\<exists>written held. shown = written @ held \<and> seeing w 0 written held s)"

lemma streaming_pre:
  assumes "\<And>p written held. fst f = see_fd w \<Longrightarrow> left = snd f @ drop p (see_data w) \<Longrightarrow> shown = written @ held
      \<Longrightarrow> good (seeing w p written held) c R"
  shows "good (streaming w left shown f) c R"
  unfolding good_def
proof (intro allI impI)
  fix s
  assume "streaming w left shown f s"
  then obtain p written held where "fst f = see_fd w" "left = snd f @ drop p (see_data w)" "shown = written @ held"
    and s: "seeing w p written held s" by (auto simp: streaming_def)
  then show "case c s of (Done v, s') \<Rightarrow> R v s' | (Quit n, s') \<Rightarrow> n \<noteq> 0"
    by (intro assms [unfolded good_def, rule_format])
qed

lemma stream_rewind: "good (streaming w left shown f) (u_fseek f 0 SEEK_SET) (emptied w shown)"
proof (rule streaming_pre)
  fix p written held
  assume f: "fst f = see_fd w" and shown: "shown = written @ held"
  show "good (seeing w p written held) (u_fseek f 0 SEEK_SET) (emptied w shown)"
    unfolding u_fseek_def f
  proof (simp, rule good_try [OF see_lseek])
    show "good (seeing w 0 written held) (u_ret (see_fd w, [])) (emptied w shown)" for v :: nat
      by (rule good_ret) (auto simp: emptied_def shown)
  qed (simp add: good_def)
qed

lemma stream_skip:
  "good (emptied w shown f) (u_fseek f offset SEEK_CUR) (streaming w (contents_from offset (see_data w)) shown)"
  unfolding good_def
proof (intro allI impI)
  fix s
  assume "emptied w shown f s"
  then obtain written held where f: "f = (see_fd w, [])" and shown: "shown = written @ held" and see: "seeing w 0 written held s"
    by (auto simp: emptied_def)
  have "good (seeing w 0 written held) (u_sys (k_lseek (see_fd w) offset SEEK_CUR))
      (\<lambda>r s. case r of Inl e \<Rightarrow> seeing w (nat offset) written held s | Inr v \<Rightarrow> seeing w (nat offset) written held s)"
    by (rule good_post [OF see_lseek_cur]) (simp split: sum.split)
  then have "good (seeing w 0 written held) (u_fseek f offset SEEK_CUR) (streaming w (contents_from offset (see_data w)) shown)"
    unfolding u_fseek_def f
    by (simp, rule good_try) (auto intro!: good_ret intro: streamingI simp: contents_from_def shown)
  from this [unfolded good_def, rule_format, OF see]
  show "case u_fseek f offset SEEK_CUR s of (Done v, s') \<Rightarrow> streaming w (contents_from offset (see_data w)) shown v s'
      | (Quit n, s') \<Rightarrow> n \<noteq> 0" .
qed

lemma stream_go_on:
  assumes "length left < n" "\<And>f. good (streaming w [] (shown @ display_heading message offset @ left) f) (rest f) R"
  shows "good (streaming w left shown f) (go_on_with (fseek_display_file n f message offset) rest) R"
  unfolding go_on_with_def fseek_display_file_def
proof (rule good_then)
  show "good (streaming w left shown f) (u_then (u_print (message @ '' '' @ dec_int offset @ '':'' @ [NL, NL])) (\<lambda>_. print_chars n f))
     (\<lambda>r s. case r of None \<Rightarrow> False
        | Some f' \<Rightarrow> streaming w [] ((shown @ (message @ '' '' @ dec_int offset @ '':'' @ [NL, NL])) @ left) f' s)"
    by (rule good_then [OF stream_print stream_print_chars [OF assms(1)]])
  fix r
  show "good (\<lambda>s. case r of None \<Rightarrow> False
        | Some f' \<Rightarrow> streaming w [] ((shown @ (message @ '' '' @ dec_int offset @ '':'' @ [NL, NL])) @ left) f' s)
     (case r of None \<Rightarrow> u_ret None | Some f \<Rightarrow> rest f) R"
    using assms(2) by (cases r) (simp_all add: good_def display_heading_def)
qed

lemma emptied_go_on:
  assumes "length (see_data w) < n"
    "\<And>f. good (streaming w [] (shown @ display_heading message offset @ see_data w) f) (rest f) R"
  shows "good (emptied w shown f) (go_on_with (fseek_display_file n f message offset) rest) R"
proof (rule good_pre [OF stream_go_on [OF assms]])
  fix s
  assume "emptied w shown f s"
  then show "streaming w (see_data w) shown f s" by (auto simp: emptied_def intro: streamingI)
qed

lemma stream_close:
  "good (streaming w left shown f) (close_ignored (fst f)) (\<lambda>_ s. \<exists>a b. out_at w a b s \<and> a @ b = shown)"
proof (rule streaming_pre)
  fix p written held
  assume "fst f = see_fd w" "shown = written @ held"
  then show "good (seeing w p written held) (close_ignored (fst f)) (\<lambda>_ s. \<exists>a b. out_at w a b s \<and> a @ b = shown)"
    using good_post [OF see_close [of w p written held], of "\<lambda>_ s. \<exists>a b. out_at w a b s \<and> a @ b = shown"] by auto
qed

lemma fseek_run:
  assumes n: "length (see_data w) < n"
  shows "good (before w path T) (fseek_main n path offset)
     (\<lambda>r s. r = Some 0 \<and> (\<exists>a b. out_at w a b s \<and> a @ b = T @ in_turn (see_data w) offset))"
proof -
  have rest: "length (contents_from offset (see_data w)) < n" using n by (simp add: contents_from_def)
  show ?thesis
    unfolding fseek_main_def
    by (rule good_try [OF stream_open] stream_go_on [OF n] emptied_go_on [OF n] stream_go_on [OF rest]
        good_then [OF stream_rewind] good_then [OF stream_skip] good_then [OF stream_close] good_ret
      | simp add: good_def in_turn_def; fail | simp add: in_turn_def)+
qed

lemma within_flush:
  assumes "good P main (\<lambda>r s. r = Some 0 \<and> (\<exists>a b. out_at w a b s \<and> a @ b = result))" "P s" "returns main"
  shows "fst (u_within main s) = Some 0 \<and> out_at w result [] (snd (u_within main s))"
proof -
  obtain r t where run: "main s = (Done r, t)" using assms(3) unfolding returns_def by blast
  then obtain a b where t: "r = Some 0" "out_at w a b t" "a @ b = result"
    using assms(1) [unfolded good_def, rule_format, OF assms(2)] by auto
  obtain v t' where flush: "u_fflush t = (Done v, t')" using returns_fflush unfolding returns_def by blast
  with t run show ?thesis using out_flush [of w a b, unfolded good_def, rule_format, OF t(2)] by (simp add: u_within_def)
qed

definition contents :: "unix \<Rightarrow> nat \<Rightarrow> string" where
  "contents s i = (case u_nodes s i of Some (Regular t m) \<Rightarrow> t | Some (Terminal t m) \<Rightarrow> t | _ \<Rightarrow> [])"

text \<open>C30. The programs \<^verbatim>\<open>lseek\<close>, \<^verbatim>\<open>fseek\<close> and \<^verbatim>\<open>fseeko\<close>, given a regular file and enough rounds for each of its bytes, end
  with success. On a terminal they print the same: three times a heading followed by the file, the last time from the
  offset on, or from its start if the offset is negative. When the output goes to a file, \<^verbatim>\<open>lseek\<close>, which writes the
  headings through a buffer and the contents past it, prints the contents first and all three headings after them.\<close>

theorem seek_programs_print:
  assumes "u_faults s = []" "u_stdout s = []" "free_fd s \<noteq> None" "lookup s path = Inr j" "u_nodes s j = Some (Regular data m)"
    and "u_fds s 1 = Some d" "u_open s d = Some (i, q)" "d < u_opened s" "i \<noteq> j" "length data < n"
    and "u_nodes s i = Some (if tty then Terminal T mt else Regular T mt)" "tty \<or> q = length T"
  shows "fst (u_within (lseek_main n path offset) s) = Some 0 \<and> fst (u_within (fseek_main n path offset) s) = Some 0
    \<and> u_within (fseeko_main n path offset) s = u_within (fseek_main n path offset) s
    \<and> contents (snd (u_within (fseek_main n path offset) s)) i = T @ in_turn data offset
    \<and> contents (snd (u_within (lseek_main n path offset) s)) i
        = T @ (if tty then in_turn data offset else headings_last data offset)"
proof -
  obtain fd where fd: "free_fd s = Some fd" using assms(3) by auto
  define w where "w = \<lparr>see_tty = tty, see_fd = fd, see_description = u_opened s, see_inode = j, see_data = data, see_mode = m,
    out_description = d, out_inode = i, out_mode = mt\<rparr>"
  have w: "see_tty w = tty" "see_data w = data" "out_inode w = i" by (simp_all add: w_def)
  have start: "before w path T s"
    using assms fd by (simp add: before_def out_at_def out_ok_def w_def)
  have n: "length (see_data w) < n" using assms(10) by (simp add: w_def)
  have member: "lseek_main n path offset \<in> reading_programs (\<lambda>e. []) (\<lambda>a b. True) n path offset"
    "fseek_main n path offset \<in> reading_programs (\<lambda>e. []) (\<lambda>a b. True) n path offset"
    by (simp_all add: reading_programs_def)
  have out: "contents t i = a" if "out_at w a [] t" for a t
    using that by (auto simp: contents_def out_at_def out_ok_def w split: if_splits)
  note l = within_flush [OF lseek_run [OF n] start reading_returns [OF member(1)], unfolded w]
  note f = within_flush [OF fseek_run [OF n] start reading_returns [OF member(2)], unfolded w]
  show ?thesis using l f out by (simp add: fseeko_fseek)
qed

text \<open>A file of two lines beside a terminal.\<close>

definition one_file :: unix where
  "one_file = (unix_start plain_meta [])\<lparr>u_names := [''f'' \<mapsto> 1], u_nodes := [0 \<mapsto> Terminal [] 0x190, 1 \<mapsto> Regular ''a'' 0x1A4],
     u_next := 2\<rparr>"

lemma seek_programs_print_witness:
  "contents (snd (u_within (lseek_main 2 ''f'' 1) one_file)) 0 = in_turn ''a'' 1"
proof -
  have "lookup one_file ''f'' = Inr 1"
    by (simp add: one_file_def unix_start_def lookup_def not_link_final_name not_link_def)
  moreover have "free_fd one_file \<noteq> None"
    by (simp add: one_file_def unix_start_def free_fd_def first_free_simps)
  ultimately show ?thesis
    using seek_programs_print [of one_file "''f''" 1 "''a''" "0x1A4" 0 0 0 2 True "[]" "0x190" 1]
    by (simp add: one_file_def unix_start_def)
qed

end
