(* ===== verification/Getopt_Long.thy ===== *)
theory Getopt_Long
  imports Cli_Strings
begin

text \<open>
  \<^verbatim>\<open>src/command-line-arguments/getopt_long\<close>: options that may be spelled \<^verbatim>\<open>-a\<close>, \<^verbatim>\<open>--alpha\<close> or \<^verbatim>\<open>--al\<close>, values
  that may follow, be attached or stand behind an equals sign, and operands between them. \<^verbatim>\<open>getopt_long\<close> is
  modelled as the C libraries have it; whether it moves operands behind the options, as it does unless
  \<^verbatim>\<open>POSIXLY_CORRECT\<close> is set, is the argument \<open>permute\<close>.
\<close>

section \<open>getopt\_long\<close>

text \<open>A long option: its name, whether it takes an argument, and the character it stands for.\<close>

type_synonym long_option = "string \<times> bool \<times> char"

text \<open>An exact name, or else the only name it is the start of.\<close>

definition long_match :: "long_option list \<Rightarrow> string \<Rightarrow> long_option option" where
  "long_match ls name =
     (case filter (\<lambda>l. fst l = name) ls of
        l # _ \<Rightarrow> Some l
      | [] \<Rightarrow> (case filter (\<lambda>l. take (length name) (fst l) = name) ls of [l] \<Rightarrow> Some l | _ \<Rightarrow> None))"

text \<open>An element \<^verbatim>\<open>--name\<close> or \<^verbatim>\<open>--name=value\<close>, with the number of further elements it takes. For a name that is
  not known \<^verbatim>\<open>optopt\<close> is 0.\<close>

definition long_element :: "long_option list \<Rightarrow> string \<Rightarrow> string list \<Rightarrow> getopt_event \<times> nat" where
  "long_element ls element as =
     (let name = takeWhile (\<lambda>c. c \<noteq> CHR ''='') element; rest = dropWhile (\<lambda>c. c \<noteq> CHR ''='') element in
      case long_match ls name of
        None \<Rightarrow> (Unknown NUL, 0)
      | Some (long, takes, val) \<Rightarrow>
          if rest \<noteq> [] then (if takes then Opt val (Some (tl rest)) else Unknown val, 0)
          else if takes then (case as of [] \<Rightarrow> (Unknown val, 0) | a # _ \<Rightarrow> (Opt val (Some a), 1))
          else (Opt val None, 0))"

text \<open>The results of all calls, and the elements from \<^verbatim>\<open>argv[optind]\<close> on when the last one has returned -1.\<close>

function getopt_long_events :: "bool \<Rightarrow> string \<Rightarrow> long_option list \<Rightarrow> string list \<Rightarrow> getopt_event list \<times> string list" where
  "getopt_long_events permute os ls [] = ([], [])"
| "getopt_long_events permute os ls (a # as) =
     (if a = ''--'' then ([], as)
      else if take 2 a = ''--''
      then (case long_element ls (drop 2 a) as of
              (ev, n) \<Rightarrow> (case getopt_long_events permute os ls (drop n as) of (evs, ops) \<Rightarrow> (ev # evs, ops)))
      else if a \<noteq> [] \<and> hd a = CHR ''-'' \<and> tl a \<noteq> []
      then (case getopt_cluster os (tl a) as of
              (evs, n) \<Rightarrow> (case getopt_long_events permute os ls (drop n as) of (evs', ops) \<Rightarrow> (evs @ evs', ops)))
      else if permute then (case getopt_long_events permute os ls as of (evs, ops) \<Rightarrow> (evs, a # ops))
      else ([], a # as))"
  by pat_completeness auto
termination by (relation "measure (\<lambda>(permute, os, ls, as). length as)") auto

declare getopt_long_events.simps [simp del]

section \<open>The program\<close>

definition getopt_long_usage :: "string \<Rightarrow> int \<Rightarrow> string option \<Rightarrow> 'a result" where
  "getopt_long_usage program_name exit_code message =
     usage_exit
       [''Usage: '' @ program_name @ '' [-h] [-a] [-b] -c <value> [arg1 arg2 ...]'',
        ''Options:'',
        ''  -h, --help                     Display this help message'',
        ''  -a, --alpha                    Option '' @ [CHR 0x27] @ ''a'' @ [CHR 0x27],
        ''  -b, --beta                     Option '' @ [CHR 0x27] @ ''b'' @ [CHR 0x27],
        ''  -c <value>, --charlie <value>  Option '' @ [CHR 0x27] @ ''c'' @ [CHR 0x27] @ '' (required) with value''] exit_code message"

definition long_options :: "long_option list" where
  "long_options =
     [(''alpha'', False, CHR ''a''), (''beta'', False, CHR ''b''), (''charlie'', True, CHR ''c''), (''help'', False, CHR ''h'')]"

text \<open>The variables \<^verbatim>\<open>option_a_set\<close>, \<^verbatim>\<open>option_b_set\<close> and \<^verbatim>\<open>option_c_value\<close>, with one turn of the loop.\<close>

type_synonym long_vars = "bool \<times> bool \<times> string option"

fun getopt_long_switch :: "string \<Rightarrow> getopt_event \<Rightarrow> long_vars \<Rightarrow> long_vars result" where
  "getopt_long_switch name (Opt c optarg) (a, b, v) =
     (if c = CHR ''a'' then Returns (True, b, v)
      else if c = CHR ''b'' then Returns (a, True, v)
      else if c = CHR ''c'' then Returns (a, b, optarg)
      else if c = CHR ''h'' then getopt_long_usage name EXIT_SUCCESS None
      else getopt_long_usage name EXIT_FAILURE None)"
| "getopt_long_switch name (Unknown optopt) (a, b, v) =
     (if optopt = CHR ''c'' then getopt_long_usage name EXIT_FAILURE (Some (''Option '' @ [CHR 0x27] @ ''-c'' @ [CHR 0x27] @ '' requires a value.''))
      else getopt_long_usage name EXIT_FAILURE (Some (takeWhile (\<lambda>x. x \<noteq> NUL) (unknown_option optopt))))"

definition getopt_long_parse_arguments :: "bool \<Rightarrow> string list \<Rightarrow> (long_vars \<times> string list) result" where
  "getopt_long_parse_arguments permute argv =
     (case getopt_long_events permute ''habc:'' long_options (tl argv) of
        (evs, operands) \<Rightarrow>
          bind_result (run_options (getopt_long_switch (hd argv)) (False, False, None) evs) (\<lambda>vars. Returns (vars, operands)))"

definition getopt_long_handle_arguments :: "string \<Rightarrow> string option \<Rightarrow> unit result" where
  "getopt_long_handle_arguments binary_name option_c_value =
     (if option_c_value = None then getopt_long_usage binary_name EXIT_FAILURE (Some ''-c is required'') else Returns ())"

definition bool_to_string :: "bool \<Rightarrow> string" where
  "bool_to_string value = (if value then ''true'' else ''false'')"

definition unnamed_line :: "nat \<Rightarrow> string \<Rightarrow> string" where
  "unnamed_line i arg = ''Unnamed argument '' @ dec_nat i @ '': '' @ [CHR 0x27] @ arg @ [CHR 0x27] @ [NL]"

text \<open>What \<^verbatim>\<open>main\<close> prints.\<close>

definition getopt_long_report :: "bool \<Rightarrow> bool \<Rightarrow> string \<Rightarrow> string list \<Rightarrow> string" where
  "getopt_long_report a b v operands =
     ''Is option '' @ [CHR 0x27] @ ''a'' @ [CHR 0x27] @ '' set?: '' @ bool_to_string a @ [NL]
     @ ''Is option '' @ [CHR 0x27] @ ''b'' @ [CHR 0x27] @ '' set?: '' @ bool_to_string b @ [NL]
     @ ''Value of option '' @ [CHR 0x27] @ ''c'' @ [CHR 0x27] @ '': '' @ v @ [NL]
     @ concat (map2 unnamed_line [1..<Suc (length operands)] operands)"

definition getopt_long_main :: "bool \<Rightarrow> string list \<Rightarrow> string result" where
  "getopt_long_main permute argv =
     bind_result (getopt_long_parse_arguments permute argv) (\<lambda>((option_a_set, option_b_set, option_c_value), operands).
     bind_result (getopt_long_handle_arguments (hd argv) option_c_value) (\<lambda>_.
     Returns (getopt_long_report option_a_set option_b_set (the option_c_value) operands)))"

section \<open>Every spelling is understood\<close>

definition prefixes_of :: "string \<Rightarrow> string set" where
  "prefixes_of name = {take n name | n. 0 < n}"

definition flags :: "string \<Rightarrow> bool" where
  "flags cs \<longleftrightarrow> set cs \<subseteq> {CHR ''a'', CHR ''b''}"

definition flag_events :: "string \<Rightarrow> getopt_event list" where
  "flag_events cs = map (\<lambda>c. Opt c None) cs"

text \<open>The ways to write options other than those for help, several of them also behind one dash.\<close>

inductive spelled :: "getopt_event list \<Rightarrow> string list \<Rightarrow> bool" where
  cluster: "flags cs \<Longrightarrow> cs \<noteq> [] \<Longrightarrow> spelled (flag_events cs) [''-'' @ cs]"
| alpha: "p \<in> prefixes_of ''alpha'' \<Longrightarrow> spelled [Opt (CHR ''a'') None] [''--'' @ p]"
| beta: "p \<in> prefixes_of ''beta'' \<Longrightarrow> spelled [Opt (CHR ''b'') None] [''--'' @ p]"
| attached: "flags cs \<Longrightarrow> v \<noteq> [] \<Longrightarrow> spelled (flag_events cs @ [Opt (CHR ''c'') (Some v)]) [''-'' @ cs @ ''c'' @ v]"
| separate: "flags cs \<Longrightarrow> spelled (flag_events cs @ [Opt (CHR ''c'') (Some v)]) [''-'' @ cs @ ''c'', v]"
| charlie: "p \<in> prefixes_of ''charlie'' \<Longrightarrow> spelled [Opt (CHR ''c'') (Some v)] [''--'' @ p, v]"
| equals: "p \<in> prefixes_of ''charlie'' \<Longrightarrow> spelled [Opt (CHR ''c'') (Some v)] [''--'' @ p @ ''='' @ v]"

definition is_operand :: "string \<Rightarrow> bool" where
  "is_operand a \<longleftrightarrow> a = [] \<or> hd a \<noteq> CHR ''-'' \<or> tl a = []"

text \<open>What stands on a command line: options, and operands between them where \<^verbatim>\<open>getopt_long\<close> moves these; then perhaps two
  dashes and more operands, or, where it does not move them, the first operand and all that follows it.\<close>

inductive written :: "bool \<Rightarrow> getopt_event list \<times> string list \<Rightarrow> string list \<Rightarrow> bool" for permute where
  option: "spelled evs ws \<Longrightarrow> written permute (evs, []) ws"
| operand: "permute \<Longrightarrow> is_operand a \<Longrightarrow> written permute ([], [a]) [a]"

inductive ending :: "bool \<Rightarrow> string list \<Rightarrow> string list \<Rightarrow> bool" for permute where
  nothing: "ending permute [] []"
| dashes: "ending permute (''--'' # operands) operands"
| first: "\<not> permute \<Longrightarrow> is_operand a \<Longrightarrow> ending permute (a # as) (a # as)"

lemma prefixes_of_Cons: "p \<in> prefixes_of (c # cs) \<longleftrightarrow> p = [c] \<or> (\<exists>q \<in> prefixes_of cs. p = c # q)"
proof
  assume "p \<in> prefixes_of (c # cs)"
  then obtain n where n: "p = take (Suc n) (c # cs)" by (auto simp: prefixes_of_def dest!: gr0_implies_Suc)
  show "p = [c] \<or> (\<exists>q \<in> prefixes_of cs. p = c # q)"
  proof (cases n)
    case 0
    with n show ?thesis by simp
  next
    case (Suc m)
    with n show ?thesis by (auto simp: prefixes_of_def)
  qed
next
  have "[c] = take 1 (c # cs)" by simp
  moreover have "c # take n cs = take (Suc n) (c # cs)" for n by simp
  ultimately show "p = [c] \<or> (\<exists>q \<in> prefixes_of cs. p = c # q) \<Longrightarrow> p \<in> prefixes_of (c # cs)"
    unfolding prefixes_of_def by fastforce
qed

lemma prefixes_of_Nil: "p \<in> prefixes_of [] \<longleftrightarrow> p = []"
  by (auto simp: prefixes_of_def)

lemmas prefixes = prefixes_of_Cons prefixes_of_Nil bex_simps

lemma long_match_prefix:
  "p \<in> prefixes_of ''alpha'' \<Longrightarrow> long_match long_options p = Some (''alpha'', False, CHR ''a'')"
  "p \<in> prefixes_of ''beta'' \<Longrightarrow> long_match long_options p = Some (''beta'', False, CHR ''b'')"
  "p \<in> prefixes_of ''charlie'' \<Longrightarrow> long_match long_options p = Some (''charlie'', True, CHR ''c'')"
  by (auto simp: prefixes long_match_def long_options_def)

lemma prefix_has_no_equals:
  "p \<in> prefixes_of ''alpha'' \<union> prefixes_of ''beta'' \<union> prefixes_of ''charlie'' \<Longrightarrow> p \<noteq> [] \<and> (\<forall>c \<in> set p. c \<noteq> CHR ''='')"
  by (auto simp: prefixes)

lemma cluster_flags:
  "flags cs \<Longrightarrow> getopt_cluster ''habc:'' (cs @ rest) as
    = (case getopt_cluster ''habc:'' rest as of (evs, n) \<Rightarrow> (flag_events cs @ evs, n))"
proof (induction cs)
  case Nil
  show ?case by (simp add: flag_events_def split: prod.split)
next
  case (Cons c cs)
  then have cs: "flags cs" "c = CHR ''a'' \<or> c = CHR ''b''" by (simp_all add: flags_def)
  from cs(2) have "takes_argument ''habc:'' c = Some False" by (elim disjE; hypsubst; code_simp)
  with Cons.IH [OF cs(1)] show ?case
    by (simp add: flag_events_def split: prod.split)
qed

lemma cluster_events:
  assumes "flags cs" "cs @ rest \<noteq> []" "getopt_cluster ''habc:'' rest as = (evs, n)" "cs = [] \<Longrightarrow> hd rest \<noteq> CHR ''-''"
  shows "getopt_long_events permute ''habc:'' long_options ((''-'' @ cs @ rest) # as)
    = (case getopt_long_events permute ''habc:'' long_options (drop n as) of (evs', ops) \<Rightarrow> (flag_events cs @ evs @ evs', ops))"
proof -
  have "hd (cs @ rest) \<noteq> CHR ''-''"
    using assms(1,4) by (cases cs) (auto simp: flags_def)
  moreover obtain x xs where x: "cs @ rest = x # xs" using assms(2) by (cases "cs @ rest") auto
  ultimately have "''-'' @ cs @ rest \<noteq> ''--''" "take 2 (''-'' @ cs @ rest) \<noteq> ''--''" by simp_all
  moreover have "getopt_cluster ''habc:'' (cs @ rest) as = (flag_events cs @ evs, n)"
    using cluster_flags [OF assms(1), of rest as] assms(3) by simp
  ultimately show ?thesis
    unfolding x by (simp add: getopt_long_events.simps(2))
qed

lemma spelled_event:
  assumes "spelled evs ws"
  shows "getopt_long_events permute ''habc:'' long_options (ws @ rest)
    = (case getopt_long_events permute ''habc:'' long_options rest of (evs', ops) \<Rightarrow> (evs @ evs', ops))"
  using assms
proof cases
  case (cluster cs)
  with cluster_events [of cs "[]" rest "[]" 0 permute] show ?thesis by simp
next
  case (alpha p)
  with prefix_has_no_equals [of p] long_match_prefix(1) [of p] show ?thesis
    by (simp add: getopt_long_events.simps(2) long_element_def takeWhile_eq_all_conv [THEN iffD2] dropWhile_eq_Nil_conv [THEN iffD2])
next
  case (beta p)
  with prefix_has_no_equals [of p] long_match_prefix(2) [of p] show ?thesis
    by (simp add: getopt_long_events.simps(2) long_element_def takeWhile_eq_all_conv [THEN iffD2] dropWhile_eq_Nil_conv [THEN iffD2])
next
  case (attached cs v)
  with cluster_events [of cs "''c'' @ v" rest "[Opt (CHR ''c'') (Some v)]" 0 permute] show ?thesis by simp
next
  case (separate cs v)
  with cluster_events [of cs "''c''" "v # rest" "[Opt (CHR ''c'') (Some v)]" 1 permute] show ?thesis by simp
next
  case (charlie p v)
  with prefix_has_no_equals [of p] long_match_prefix(3) [of p] show ?thesis
    by (simp add: getopt_long_events.simps(2) long_element_def takeWhile_eq_all_conv [THEN iffD2] dropWhile_eq_Nil_conv [THEN iffD2])
next
  case (equals p v)
  with prefix_has_no_equals [of p] long_match_prefix(3) [of p] show ?thesis
    by (simp add: getopt_long_events.simps(2) long_element_def takeWhile_append2 dropWhile_append2)
qed

lemma operand_not_option: "is_operand a \<Longrightarrow> a \<noteq> ''--'' \<and> take 2 a \<noteq> ''--''"
  by (cases a; cases "tl a") (auto simp: is_operand_def)

lemma ending_events: "ending permute rest operands \<Longrightarrow> getopt_long_events permute ''habc:'' long_options rest = ([], operands)"
proof (induction rule: ending.induct)
  case (first a as)
  with operand_not_option [OF first(2)] show ?case by (auto simp: getopt_long_events.simps(2) is_operand_def)
qed (simp_all add: getopt_long_events.simps)

lemma element_events:
  assumes "written permute (evs, ops) ws"
  shows "getopt_long_events permute ''habc:'' long_options (ws @ rest)
    = (case getopt_long_events permute ''habc:'' long_options rest of (evs', ops') \<Rightarrow> (evs @ evs', ops @ ops'))"
  using assms
proof cases
  case option
  with spelled_event [of evs ws permute rest] show ?thesis by simp
next
  case (operand a)
  with operand_not_option [of a] show ?thesis
    by (auto simp: getopt_long_events.simps(2) is_operand_def split: prod.split)
qed

lemma written_events:
  "list_all2 (written permute) parts wss \<Longrightarrow> ending permute rest operands \<Longrightarrow>
    getopt_long_events permute ''habc:'' long_options (concat wss @ rest)
      = (concat (map fst parts), concat (map snd parts) @ operands)"
proof (induction rule: list_all2_induct)
  case Nil
  then show ?case by (simp add: ending_events)
next
  case (Cons part parts ws wss)
  with element_events [of permute "fst part" "snd part" ws "concat wss @ rest"] show ?case by simp
qed

text \<open>The loop over options that are none of \<^verbatim>\<open>h\<close>.\<close>

definition option_value :: "getopt_event list \<Rightarrow> string option" where
  "option_value evs = foldl (\<lambda>v ev. case ev of Opt c optarg \<Rightarrow> if c = CHR ''c'' then optarg else v | Unknown c \<Rightarrow> v) None evs"

definition known_option :: "getopt_event \<Rightarrow> bool" where
  "known_option ev \<longleftrightarrow> ev = Opt (CHR ''a'') None \<or> ev = Opt (CHR ''b'') None \<or> (\<exists>v. ev = Opt (CHR ''c'') (Some v))"

lemma flag_events_known: "flags cs \<Longrightarrow> ev \<in> set (flag_events cs) \<Longrightarrow> known_option ev"
  by (auto simp: flags_def flag_events_def known_option_def)

lemma spelled_known: "spelled evs ws \<Longrightarrow> ev \<in> set evs \<Longrightarrow> known_option ev"
  by (induction rule: spelled.induct) (auto dest: flag_events_known simp: known_option_def)

lemma written_known: "list_all2 (written permute) parts wss \<Longrightarrow> ev \<in> set (concat (map fst parts)) \<Longrightarrow> known_option ev"
  by (induction rule: list_all2_induct) (auto elim!: written.cases dest: spelled_known)

lemma run_known:
  "\<forall>ev \<in> set evs. known_option ev \<Longrightarrow>
    run_options (getopt_long_switch name) (a, b, v) evs
      = Returns (a \<or> Opt (CHR ''a'') None \<in> set evs, b \<or> Opt (CHR ''b'') None \<in> set evs,
          foldl (\<lambda>v ev. case ev of Opt c optarg \<Rightarrow> if c = CHR ''c'' then optarg else v | Unknown c \<Rightarrow> v) v evs)"
  by (induction evs arbitrary: a b v) (auto simp: known_option_def)

text \<open>C31. On a command line of options, short or long, abbreviated, several behind one dash, with their value attached, behind an
  equals sign or as the next element, in any order and repeated, but without one for help or one that is not known, and with a value
  for \<^verbatim>\<open>c\<close>: the program prints whether \<^verbatim>\<open>a\<close> and \<^verbatim>\<open>b\<close> are among the options, the last value of \<^verbatim>\<open>c\<close>, and all operands in order. Operands
  stand anywhere between the options where \<^verbatim>\<open>getopt_long\<close> moves them, and behind all options, or two dashes, where it does not.\<close>

theorem getopt_long_reads_options:
  assumes "list_all2 (written permute) parts wss" "ending permute rest operands"
    and "evs = concat (map fst parts)" "option_value evs = Some v"
  shows "getopt_long_main permute (name # concat wss @ rest)
    = Returns (getopt_long_report (Opt (CHR ''a'') None \<in> set evs) (Opt (CHR ''b'') None \<in> set evs) v
        (concat (map snd parts) @ operands))"
proof -
  have "\<forall>ev \<in> set evs. known_option ev" using written_known [OF assms(1)] assms(3) by blast
  from run_known [OF this, of name False False None] written_events [OF assms(1,2)] assms(3,4) show ?thesis
    by (simp add: getopt_long_main_def getopt_long_parse_arguments_def getopt_long_handle_arguments_def option_value_def)
qed

lemma getopt_long_reads_options_witness:
  "getopt_long_main True [''p'', ''x'', ''-bacv'', ''y'', ''--al'', ''z'']
    = Returns (getopt_long_report True True ''v'' [''x'', ''y'', ''z''])"
proof -
  let ?c = "CHR ''c''"
  have "spelled (flag_events ''ba'' @ [Opt ?c (Some ''v'')]) [''-'' @ ''ba'' @ ''c'' @ ''v'']"
    by (rule attached) (simp_all add: flags_def)
  moreover have "spelled [Opt (CHR ''a'') None] [''--'' @ ''al'']" by (rule alpha) (simp add: prefixes)
  moreover have "written True ([], [[d]]) [[d]]" for d by (rule operand) (simp_all add: is_operand_def)
  ultimately have "list_all2 (written True)
      [([], [''x'']), (flag_events ''ba'' @ [Opt ?c (Some ''v'')], []), ([], [''y'']), ([Opt (CHR ''a'') None], []), ([], [''z''])]
      [[''x''], [''-bacv''], [''y''], [''--al''], [''z'']]"
    by (auto intro: option)
  from getopt_long_reads_options [OF this ending.nothing refl, of "''v''" "''p''"] show ?thesis
    by (simp add: option_value_def flag_events_def)
qed

text \<open>A long option that is not known is reported without its name: the message ends at the NUL that stands for it.\<close>

theorem getopt_long_unknown:
  assumes "element \<noteq> []" "long_match long_options (takeWhile (\<lambda>c. c \<noteq> CHR ''='') element) = None"
  shows "getopt_long_main permute (name # (''--'' @ element) # rest)
    = getopt_long_usage name EXIT_FAILURE (Some (''Unknown option '' @ [CHR 0x27, CHR ''-'']))"
proof -
  obtain evs ops where "getopt_long_events permute ''habc:'' long_options rest = (evs, ops)" by fastforce
  then have "getopt_long_events permute ''habc:'' long_options ((''--'' @ element) # rest) = (Unknown NUL # evs, ops)"
    using assms by (simp add: getopt_long_events.simps(2) long_element_def)
  then show ?thesis
    by (simp add: getopt_long_main_def getopt_long_parse_arguments_def unknown_option_def getopt_long_usage_def usage_exit_def)
qed

end
