(* ===== verification/Cond_Timedwait.thy ===== *)
theory Cond_Timedwait
  imports C_Prelude
begin

text \<open>
  \<^verbatim>\<open>src/pthread-condition/pthread_cond_timedwait\<close>: a thread that sleeps and then signals a condition variable, and
  \<^verbatim>\<open>main\<close>, which waits for it until a time. Every call is a step; time passes in steps of its own. Nothing in the
  program says whether the signal has been sent, so that the theory also shows what \<^verbatim>\<open>main\<close> cannot know.
\<close>

section \<open>State\<close>

text \<open>The results of \<^verbatim>\<open>pthread_cond_timedwait\<close>. Its other errors, for which \<^verbatim>\<open>main\<close> has a third line, are those of
  arguments it does not get: \<^verbatim>\<open>tv_nsec\<close> comes from \<^verbatim>\<open>clock_gettime\<close> and the mutex is held.\<close>

datatype tw_result = Signaled | Timed_out

datatype main_pc = M_create | M_clock | M_lock | M_wait | M_asleep | M_relock tw_result | M_unlock tw_result | M_say tw_result
  | M_join | M_end | M_undefined

datatype thread_pc = T_unborn | T_say | T_sleep | T_asleep nat | T_lock | T_signal | T_unlock | T_end

datatype tw_owner = Main | Thread

text \<open>\<open>tw_clock\<close> is the time in seconds, \<open>tw_timeout\<close> \<^verbatim>\<open>abs_timeout.tv_sec\<close>; \<open>tw_signaled\<close> notes that the signal has been
  sent, which no variable of the program does. At \<open>M_undefined\<close> the sum \<^verbatim>\<open>abs_timeout.tv_sec += main_seconds\<close> has left
  \<^verbatim>\<open>time_t\<close>, which has 64 bits; what follows is undefined. The creation of the thread, whose result \<^verbatim>\<open>main\<close> does not look at,
  succeeds here.\<close>

record timedwait =
  tw_clock :: nat
  tw_timeout :: int
  tw_main :: main_pc
  tw_thread :: thread_pc
  tw_mutex :: "tw_owner option"
  tw_signaled :: bool
  tw_out :: "string list"

definition timedwait_start :: "nat \<Rightarrow> timedwait" where
  "timedwait_start now =
     \<lparr>tw_clock = now, tw_timeout = 0, tw_main = M_create, tw_thread = T_unborn, tw_mutex = None, tw_signaled = False,
      tw_out = []\<rparr>"

section \<open>Steps\<close>

definition result_line :: "tw_result \<Rightarrow> string" where
  "result_line r =
     (case r of
        Signaled \<Rightarrow> ''Condition variable signaled before timeout.'' @ [NL]
      | Timed_out \<Rightarrow> ''Timeout occurred. Condition variable was not signaled.'' @ [NL])"

definition fits_time_t :: "int \<Rightarrow> bool" where
  "fits_time_t t \<longleftrightarrow> - (2 ^ 63) \<le> t \<and> t < 2 ^ 63"

text \<open>The thread \<^verbatim>\<open>main\<close>. While it waits it returns when the time has come, or, if \<open>spurious\<close>, for no reason; returning
  for the signal is part of the step of the other thread.\<close>

definition timedwait_main_step :: "int \<Rightarrow> bool \<Rightarrow> timedwait \<Rightarrow> timedwait option" where
  "timedwait_main_step main_seconds spurious s =
     (case tw_main s of
        M_create \<Rightarrow> Some (s\<lparr>tw_thread := T_say, tw_main := M_clock\<rparr>)
      | M_clock \<Rightarrow>
          let t = int (tw_clock s) + main_seconds
          in if fits_time_t t then Some (s\<lparr>tw_timeout := t, tw_main := M_lock\<rparr>) else Some (s\<lparr>tw_main := M_undefined\<rparr>)
      | M_lock \<Rightarrow> if tw_mutex s = None then Some (s\<lparr>tw_mutex := Some Main, tw_main := M_wait\<rparr>) else None
      | M_wait \<Rightarrow> Some (s\<lparr>tw_mutex := None, tw_main := M_asleep\<rparr>)
      | M_asleep \<Rightarrow>
          if tw_timeout s \<le> int (tw_clock s) then Some (s\<lparr>tw_main := M_relock Timed_out\<rparr>)
          else if spurious then Some (s\<lparr>tw_main := M_relock Signaled\<rparr>) else None
      | M_relock r \<Rightarrow> if tw_mutex s = None then Some (s\<lparr>tw_mutex := Some Main, tw_main := M_unlock r\<rparr>) else None
      | M_unlock r \<Rightarrow> Some (s\<lparr>tw_mutex := None, tw_main := M_say r\<rparr>)
      | M_say r \<Rightarrow> Some (s\<lparr>tw_out := tw_out s @ [result_line r], tw_main := M_join\<rparr>)
      | M_join \<Rightarrow> if tw_thread s = T_end then Some (s\<lparr>tw_main := M_end\<rparr>) else None
      | M_end \<Rightarrow> None
      | M_undefined \<Rightarrow> None)"

definition sleep_line :: "nat \<Rightarrow> string" where
  "sleep_line sleep_time = ''Thread will sleep for '' @ dec_nat sleep_time @ '' seconds.'' @ [NL]"

definition timedwait_thread_step :: "nat \<Rightarrow> timedwait \<Rightarrow> timedwait option" where
  "timedwait_thread_step sleep_time s =
     (case tw_thread s of
        T_unborn \<Rightarrow> None
      | T_say \<Rightarrow> Some (s\<lparr>tw_out := tw_out s @ [sleep_line sleep_time], tw_thread := T_sleep\<rparr>)
      | T_sleep \<Rightarrow> Some (s\<lparr>tw_thread := T_asleep (tw_clock s + sleep_time)\<rparr>)
      | T_asleep t \<Rightarrow> if t \<le> tw_clock s then Some (s\<lparr>tw_thread := T_lock\<rparr>) else None
      | T_lock \<Rightarrow> if tw_mutex s = None then Some (s\<lparr>tw_mutex := Some Thread, tw_thread := T_signal\<rparr>) else None
      | T_signal \<Rightarrow>
          Some (s\<lparr>tw_signaled := True, tw_main := (if tw_main s = M_asleep then M_relock Signaled else tw_main s),
                  tw_thread := T_unlock\<rparr>)
      | T_unlock \<Rightarrow> Some (s\<lparr>tw_mutex := None, tw_thread := T_end\<rparr>)
      | T_end \<Rightarrow> None)"

inductive timedwait_reach :: "int \<Rightarrow> nat \<Rightarrow> timedwait \<Rightarrow> timedwait \<Rightarrow> bool" for main_seconds sleep_time s0 where
  start: "timedwait_reach main_seconds sleep_time s0 s0"
| main: "timedwait_reach main_seconds sleep_time s0 s \<Longrightarrow> timedwait_main_step main_seconds spurious s = Some s'
    \<Longrightarrow> timedwait_reach main_seconds sleep_time s0 s'"
| thread: "timedwait_reach main_seconds sleep_time s0 s \<Longrightarrow> timedwait_thread_step sleep_time s = Some s'
    \<Longrightarrow> timedwait_reach main_seconds sleep_time s0 s'"
| time: "timedwait_reach main_seconds sleep_time s0 s
    \<Longrightarrow> timedwait_reach main_seconds sleep_time s0 (s\<lparr>tw_clock := Suc (tw_clock s)\<rparr>)"

section \<open>Invariant\<close>

fun said :: "main_pc \<Rightarrow> bool" where
  "said M_join = True"
| "said M_end = True"
| "said pc = False"

fun result_of :: "main_pc \<Rightarrow> tw_result option" where
  "result_of (M_relock r) = Some r"
| "result_of (M_unlock r) = Some r"
| "result_of (M_say r) = Some r"
| "result_of pc = None"

fun main_holds :: "main_pc \<Rightarrow> bool" where
  "main_holds M_wait = True"
| "main_holds (M_unlock r) = True"
| "main_holds pc = False"

fun thread_holds :: "thread_pc \<Rightarrow> bool" where
  "thread_holds T_signal = True"
| "thread_holds T_unlock = True"
| "thread_holds pc = False"

fun has_signaled :: "thread_pc \<Rightarrow> bool" where
  "has_signaled T_unlock = True"
| "has_signaled T_end = True"
| "has_signaled pc = False"

fun thread_said :: "thread_pc \<Rightarrow> bool" where
  "thread_said T_unborn = False"
| "thread_said T_say = False"
| "thread_said pc = True"

text \<open>The mutex is held by the thread that is between its calls.\<close>

definition tw_control :: "timedwait \<Rightarrow> bool" where
  "tw_control s \<longleftrightarrow>
     (tw_mutex s = Some Main \<longleftrightarrow> main_holds (tw_main s)) \<and> (tw_mutex s = Some Thread \<longleftrightarrow> thread_holds (tw_thread s))
   \<and> (tw_thread s = T_unborn \<longleftrightarrow> tw_main s = M_create) \<and> (tw_main s = M_end \<longrightarrow> tw_thread s = T_end)
   \<and> (tw_signaled s \<longleftrightarrow> has_signaled (tw_thread s))"

text \<open>The lines printed are that of the thread and one of those of \<^verbatim>\<open>main\<close>, and the second of these only when the time has come.\<close>

definition main_lines :: "nat \<Rightarrow> string list \<Rightarrow> string list" where
  "main_lines n out = filter (\<lambda>l. l \<noteq> sleep_line n) out"

definition thread_lines :: "nat \<Rightarrow> string list \<Rightarrow> nat" where
  "thread_lines n out = length (filter (\<lambda>l. l = sleep_line n) out)"

definition time_has_come :: "timedwait \<Rightarrow> bool" where
  "time_has_come s \<longleftrightarrow> tw_timeout s \<le> int (tw_clock s)"

definition tw_output :: "nat \<Rightarrow> timedwait \<Rightarrow> bool" where
  "tw_output n s \<longleftrightarrow>
     (result_of (tw_main s) = Some Timed_out \<longrightarrow> time_has_come s)
   \<and> (if said (tw_main s)
       then main_lines n (tw_out s) = [result_line Signaled] \<or> main_lines n (tw_out s) = [result_line Timed_out] \<and> time_has_come s
       else main_lines n (tw_out s) = [])
   \<and> thread_lines n (tw_out s) = (if thread_said (tw_thread s) then 1 else 0)"

lemma lines_simps [simp]:
  "main_lines n (out @ [result_line r]) = main_lines n out @ [result_line r]"
  "main_lines n (out @ [sleep_line n]) = main_lines n out"
  "thread_lines n (out @ [result_line r]) = thread_lines n out"
  "thread_lines n (out @ [sleep_line n]) = Suc (thread_lines n out)"
  "main_lines n [] = []" "thread_lines n [] = 0" "main_lines n [sleep_line n] = []" "main_lines n [result_line r] = [result_line r]"
  by (cases r; simp add: main_lines_def thread_lines_def result_line_def sleep_line_def)+

lemma time_simps [simp]:
  "time_has_come (s\<lparr>tw_main := a\<rparr>) = time_has_come s" "time_has_come (s\<lparr>tw_thread := b\<rparr>) = time_has_come s"
  "time_has_come (s\<lparr>tw_mutex := c\<rparr>) = time_has_come s" "time_has_come (s\<lparr>tw_out := d\<rparr>) = time_has_come s"
  "time_has_come (s\<lparr>tw_signaled := e\<rparr>) = time_has_come s"
  "time_has_come s \<Longrightarrow> time_has_come (s\<lparr>tw_clock := Suc (tw_clock s)\<rparr>)"
  by (simp_all add: time_has_come_def)

lemma control_start: "tw_control (timedwait_start now)"
  by (simp add: tw_control_def timedwait_start_def)

lemma control_main: "timedwait_main_step m spurious s = Some s' \<Longrightarrow> tw_control s \<Longrightarrow> tw_control s'"
  by (cases "tw_main s") (auto simp: timedwait_main_step_def tw_control_def Let_def split: if_splits)

lemma control_thread: "timedwait_thread_step n s = Some s' \<Longrightarrow> tw_control s \<Longrightarrow> tw_control s'"
  by (cases "tw_thread s") (auto simp: timedwait_thread_step_def tw_control_def split: if_splits)

lemma control_time: "tw_control s \<Longrightarrow> tw_control (s\<lparr>tw_clock := Suc (tw_clock s)\<rparr>)"
  by (simp add: tw_control_def)

lemma reach_control: "timedwait_reach m n (timedwait_start now) s \<Longrightarrow> tw_control s"
  by (induction rule: timedwait_reach.induct) (auto intro: control_start control_main control_thread control_time)

lemma output_start: "tw_output n (timedwait_start now)"
  by (simp add: tw_output_def timedwait_start_def)

lemma output_main:
  assumes "timedwait_main_step m spurious s = Some s'" "tw_control s" "tw_output n s"
  shows "tw_output n s'"
proof -
  have unborn: "tw_main s = M_create \<Longrightarrow> tw_thread s = T_unborn" using assms(2) by (simp add: tw_control_def)
  show ?thesis
  proof (cases "tw_main s")
    case (M_say r)
    with assms(1,3) show ?thesis
      by (cases r) (auto simp: timedwait_main_step_def tw_output_def)
  qed (use assms(1,3) unborn in
      \<open>auto simp: timedwait_main_step_def tw_output_def time_has_come_def Let_def split: if_splits\<close>)
qed

lemma output_thread: "timedwait_thread_step n s = Some s' \<Longrightarrow> tw_control s \<Longrightarrow> tw_output n s \<Longrightarrow> tw_output n s'"
  by (cases "tw_thread s") (auto simp: timedwait_thread_step_def tw_output_def split: if_splits)

lemma output_time: "tw_output n s \<Longrightarrow> tw_output n (s\<lparr>tw_clock := Suc (tw_clock s)\<rparr>)"
  by (auto simp: tw_output_def split: if_splits)

lemma reach_output: "timedwait_reach m n (timedwait_start now) s \<Longrightarrow> tw_output n s"
  by (induction rule: timedwait_reach.induct)
    (auto intro: output_start output_main output_thread output_time reach_control)

section \<open>Every run ends\<close>

fun main_left :: "main_pc \<Rightarrow> nat" where
  "main_left M_create = 10"
| "main_left M_clock = 9"
| "main_left M_lock = 8"
| "main_left M_wait = 7"
| "main_left M_asleep = 6"
| "main_left (M_relock r) = 5"
| "main_left (M_unlock r) = 4"
| "main_left (M_say r) = 3"
| "main_left M_join = 2"
| "main_left M_end = 0"
| "main_left M_undefined = 0"

fun thread_left :: "thread_pc \<Rightarrow> nat" where
  "thread_left T_unborn = 7"
| "thread_left T_say = 7"
| "thread_left T_sleep = 6"
| "thread_left (T_asleep t) = 5"
| "thread_left T_lock = 4"
| "thread_left T_signal = 3"
| "thread_left T_unlock = 2"
| "thread_left T_end = 0"

definition timedwait_left :: "timedwait \<Rightarrow> nat" where
  "timedwait_left s = main_left (tw_main s) + thread_left (tw_thread s)"

lemma main_step_left: "timedwait_main_step m spurious s = Some s' \<Longrightarrow> tw_control s \<Longrightarrow> timedwait_left s' < timedwait_left s"
  by (cases "tw_main s") (auto simp: timedwait_main_step_def timedwait_left_def tw_control_def Let_def split: if_splits)

lemma thread_step_left: "timedwait_thread_step n s = Some s' \<Longrightarrow> timedwait_left s' < timedwait_left s"
  by (cases "tw_thread s") (auto simp: timedwait_thread_step_def timedwait_left_def split: if_splits)

text \<open>The time at which somebody wakes up.\<close>

definition wake_up :: "timedwait \<Rightarrow> nat" where
  "wake_up s = (case tw_thread s of T_asleep t \<Rightarrow> t | _ \<Rightarrow> nat (tw_timeout s))"

definition later :: "nat \<Rightarrow> timedwait \<Rightarrow> timedwait" where
  "later k s = s\<lparr>tw_clock := tw_clock s + k\<rparr>"

lemma some_step:
  assumes "tw_control s" "tw_main s \<notin> {M_end, M_undefined}" "wake_up s \<le> tw_clock s"
  shows "timedwait_main_step m False s \<noteq> None \<or> timedwait_thread_step n s \<noteq> None"
proof (cases "timedwait_thread_step n s")
  case None
  then have "tw_thread s \<in> {T_unborn, T_lock, T_end}" "tw_thread s = T_lock \<longrightarrow> tw_mutex s \<noteq> None"
    using assms(3) by (auto simp: timedwait_thread_step_def wake_up_def split: thread_pc.splits if_splits)
  moreover have "tw_mutex s \<noteq> Some Thread" using calculation assms(1) by (auto simp: tw_control_def)
  moreover have "tw_mutex s = Some Main \<longrightarrow> main_holds (tw_main s)" using assms(1) by (simp add: tw_control_def)
  moreover have "tw_mutex s = None \<or> tw_mutex s = Some Main \<or> tw_mutex s = Some Thread"
    by (cases "tw_mutex s") (auto intro: tw_owner.exhaust)
  ultimately show ?thesis
    using assms
    by (cases "tw_main s") (auto simp: timedwait_main_step_def wake_up_def tw_control_def Let_def)
qed simp

lemma later_control: "tw_control (later k s) = tw_control s"
  by (simp add: tw_control_def later_def)

text \<open>The sum leaves its type only where it is computed.\<close>

lemma reach_clock: "timedwait_reach m n (timedwait_start now) s \<Longrightarrow> now \<le> tw_clock s"
proof (induction rule: timedwait_reach.induct)
  case start
  show ?case by (simp add: timedwait_start_def)
next
  case (main s spurious s')
  then show ?case by (cases "tw_main s") (auto simp: timedwait_main_step_def Let_def split: if_splits)
next
  case (thread s s')
  then show ?case by (cases "tw_thread s") (auto simp: timedwait_thread_step_def split: if_splits)
qed simp

lemma reach_timeout:
  "timedwait_reach m n (timedwait_start now) s \<Longrightarrow> tw_main s \<notin> {M_create, M_clock, M_undefined} \<Longrightarrow> int now + m \<le> tw_timeout s"
proof (induction rule: timedwait_reach.induct)
  case start
  then show ?case by (simp add: timedwait_start_def)
next
  case (main s spurious s')
  then show ?case
    using reach_clock [OF main.hyps(1)]
    by (cases "tw_main s") (auto simp: timedwait_main_step_def Let_def split: if_splits)
next
  case (thread s s')
  then show ?case by (cases "tw_thread s") (auto simp: timedwait_thread_step_def split: if_splits)
qed simp

lemma reach_undefined:
  assumes "timedwait_reach m n (timedwait_start now) s" "tw_main s = M_undefined"
  shows "\<exists>t \<ge> now. t \<le> tw_clock s \<and> \<not> fits_time_t (int t + m)"
  using assms
proof (induction rule: timedwait_reach.induct)
  case start
  then show ?case by (simp add: timedwait_start_def)
next
  case (main s spurious s')
  then have "tw_main s = M_clock \<and> \<not> fits_time_t (int (tw_clock s) + m) \<and> tw_clock s' = tw_clock s"
    by (cases "tw_main s") (auto simp: timedwait_main_step_def Let_def split: if_splits)
  moreover have "now \<le> tw_clock s" using main.hyps(1) by (rule reach_clock)
  ultimately show ?case by auto
next
  case (thread s s')
  then have "tw_main s = M_undefined" "tw_clock s' = tw_clock s"
    by (cases "tw_thread s"; auto simp: timedwait_thread_step_def split: if_splits)+
  with thread.IH show ?case by simp
next
  case (time s)
  then show ?case by auto
qed

text \<open>C32. Whatever the two threads do in turn, however time passes and whatever wakes \<^verbatim>\<open>main\<close> up: every step other than that of the
  clock lowers a weight, and until \<^verbatim>\<open>main\<close> has come to its end one of the threads can do a step at once or after some
  time. The one exception is a timeout that leaves \<^verbatim>\<open>time_t\<close> when it is added to a time of the run, which is undefined.
  At the end both threads have finished, nobody holds the mutex, the thread has printed its line and \<^verbatim>\<open>main\<close> one of
  its two, that of the timeout only when \<open>main_seconds\<close> have passed since the start.\<close>

theorem timedwait_ends:
  assumes "timedwait_reach main_seconds sleep_time (timedwait_start now) s"
  shows "(timedwait_main_step main_seconds spurious s = Some s' \<longrightarrow> timedwait_left s' < timedwait_left s)
    \<and> (timedwait_thread_step sleep_time s = Some s' \<longrightarrow> timedwait_left s' < timedwait_left s)
    \<and> (tw_main s \<notin> {M_end, M_undefined} \<longrightarrow> (\<exists>k. timedwait_main_step main_seconds False (later k s) \<noteq> None
          \<or> timedwait_thread_step sleep_time (later k s) \<noteq> None))
    \<and> (tw_main s = M_undefined \<longrightarrow> (\<exists>t \<ge> now. t \<le> tw_clock s \<and> \<not> fits_time_t (int t + main_seconds)))
    \<and> (tw_main s = M_end \<longrightarrow> tw_thread s = T_end \<and> tw_mutex s = None \<and> thread_lines sleep_time (tw_out s) = 1
        \<and> (main_lines sleep_time (tw_out s) = [result_line Signaled]
           \<or> main_lines sleep_time (tw_out s) = [result_line Timed_out] \<and> int now + main_seconds \<le> int (tw_clock s)))"
proof (intro conjI impI)
  note control = reach_control [OF assms] and out = reach_output [OF assms]
  show "timedwait_left s' < timedwait_left s" if "timedwait_main_step main_seconds spurious s = Some s'"
    using that control by (rule main_step_left)
  show "timedwait_left s' < timedwait_left s" if "timedwait_thread_step sleep_time s = Some s'"
    using that by (rule thread_step_left)
  show "\<exists>k. timedwait_main_step main_seconds False (later k s) \<noteq> None \<or> timedwait_thread_step sleep_time (later k s) \<noteq> None"
    if "tw_main s \<notin> {M_end, M_undefined}"
  proof (intro exI some_step)
    show "tw_control (later (wake_up s) s)" using control by (simp add: later_control)
  qed (use that in \<open>simp_all add: later_def wake_up_def split: thread_pc.split\<close>)
  show "\<exists>t \<ge> now. t \<le> tw_clock s \<and> \<not> fits_time_t (int t + main_seconds)" if "tw_main s = M_undefined"
    using assms that by (rule reach_undefined)
  assume last: "tw_main s = M_end"
  then show "tw_thread s = T_end" using control by (simp add: tw_control_def)
  with last control show "tw_mutex s = None"
    by (cases "tw_mutex s") (auto simp: tw_control_def intro: tw_owner.exhaust)
  show "thread_lines sleep_time (tw_out s) = 1" using out \<open>tw_thread s = T_end\<close> by (simp add: tw_output_def)
  show "main_lines sleep_time (tw_out s) = [result_line Signaled]
      \<or> main_lines sleep_time (tw_out s) = [result_line Timed_out] \<and> int now + main_seconds \<le> int (tw_clock s)"
    using out last reach_timeout [OF assms] by (auto simp: tw_output_def time_has_come_def)
qed

lemma timedwait_ends_witness:
  "timedwait_left (timedwait_start 0) > timedwait_left ((timedwait_start 0)\<lparr>tw_thread := T_say, tw_main := M_clock\<rparr>)"
  using timedwait_ends [OF timedwait_reach.start, of 5 True 0 "(timedwait_start 0)\<lparr>tw_thread := T_say, tw_main := M_clock\<rparr>" 3]
  by (simp add: timedwait_main_step_def timedwait_start_def)

section \<open>What main cannot know\<close>

lemma reach_time: "timedwait_reach m n s0 s \<Longrightarrow> timedwait_reach m n s0 (later k s)"
proof (induction k)
  case (Suc k)
  then have "timedwait_reach m n s0 ((later k s)\<lparr>tw_clock := Suc (tw_clock (later k s))\<rparr>)" by (intro timedwait_reach.time) simp
  then show ?case by (simp add: later_def)
qed (simp add: later_def)

text \<open>A schedule.\<close>

datatype turn = Main_turn bool | Thread_turn | Passing nat

fun timedwait_run :: "int \<Rightarrow> nat \<Rightarrow> turn list \<Rightarrow> timedwait \<Rightarrow> timedwait option" where
  "timedwait_run m n [] s = Some s"
| "timedwait_run m n (Main_turn spurious # ts) s =
     (case timedwait_main_step m spurious s of None \<Rightarrow> None | Some s' \<Rightarrow> timedwait_run m n ts s')"
| "timedwait_run m n (Thread_turn # ts) s =
     (case timedwait_thread_step n s of None \<Rightarrow> None | Some s' \<Rightarrow> timedwait_run m n ts s')"
| "timedwait_run m n (Passing k # ts) s = timedwait_run m n ts (later k s)"

lemma timedwait_run_reach:
  "timedwait_run m n ts s = Some s' \<Longrightarrow> timedwait_reach m n s0 s \<Longrightarrow> timedwait_reach m n s0 s'"
  by (induction m n ts s rule: timedwait_run.induct)
    (auto intro: timedwait_reach.main timedwait_reach.thread reach_time split: option.splits)

text \<open>The thread that does not sleep sends its signal before \<^verbatim>\<open>main\<close> has come to wait: \<^verbatim>\<open>main\<close> waits until its time
  and reports that the variable was not signaled. The other way round, a spurious wakeup is reported as a signal
  although none has been sent.\<close>

theorem timedwait_misreports:
  assumes "fits_time_t (int (now + Suc m))"
  shows "(\<exists>s. timedwait_reach (int m) 0 (timedwait_start now) s \<and> tw_main s = M_end \<and> tw_signaled s
      \<and> main_lines 0 (tw_out s) = [result_line Timed_out])
   \<and> (\<exists>s. timedwait_reach (int (Suc m)) n (timedwait_start now) s \<and> tw_main s = M_join \<and> \<not> tw_signaled s
      \<and> main_lines n (tw_out s) = [result_line Signaled])"
proof (intro conjI)
  have fits: "fits_time_t (int now + int m)" using assms by (simp_all add: fits_time_t_def)
  let ?lost = "Main_turn False # replicate 6 Thread_turn @ replicate 3 (Main_turn False) @ Passing m # replicate 5 (Main_turn False)"
  obtain s where s: "timedwait_run (int m) 0 ?lost (timedwait_start now) = Some s"
    "tw_main s = M_end" "tw_signaled s" "tw_out s = [] @ [sleep_line 0] @ [result_line Timed_out]"
    by (simp add: Let_def numeral_eq_Suc timedwait_main_step_def timedwait_thread_step_def timedwait_start_def later_def fits)
  have lines: "main_lines 0 (tw_out s) = [result_line Timed_out]"
    unfolding s(4) append_assoc [symmetric] by (simp only: lines_simps append_Nil)
  show "\<exists>s. timedwait_reach (int m) 0 (timedwait_start now) s \<and> tw_main s = M_end \<and> tw_signaled s
      \<and> main_lines 0 (tw_out s) = [result_line Timed_out]"
    using timedwait_run_reach [OF s(1) timedwait_reach.start] s(2,3) lines by blast
next
  have fits: "fits_time_t (int now + (1 + int m))" using assms by (simp add: fits_time_t_def)
  obtain s where s: "timedwait_run (int (Suc m)) n (replicate 4 (Main_turn False) @ replicate 4 (Main_turn True)) (timedwait_start now) = Some s"
    "tw_main s = M_join" "\<not> tw_signaled s" "tw_out s = [] @ [result_line Signaled]"
    by (simp add: Let_def numeral_eq_Suc timedwait_main_step_def timedwait_start_def fits)
  have lines: "main_lines n (tw_out s) = [result_line Signaled]" unfolding s(4) by (simp only: lines_simps append_Nil)
  show "\<exists>s. timedwait_reach (int (Suc m)) n (timedwait_start now) s \<and> tw_main s = M_join \<and> \<not> tw_signaled s
      \<and> main_lines n (tw_out s) = [result_line Signaled]"
    using timedwait_run_reach [OF s(1) timedwait_reach.start] s(2,3) lines by blast
qed

end
