(* ===== verification/Stream_Programs.thy ===== *)
theory Stream_Programs
  imports C_Text
begin

text \<open>
  The programs under \<^verbatim>\<open>src/streams\<close> and \<^verbatim>\<open>src/files\<close> that copy their standard input to their standard output, by
  characters (\<^verbatim>\<open>fgetc-fputc\<close>), lines (\<^verbatim>\<open>fgets-fputs\<close>, \<^verbatim>\<open>feof\<close>), blocks (\<^verbatim>\<open>fread-fwrite\<close>) or calls of \<^verbatim>\<open>read\<close> and \<^verbatim>\<open>write\<close>
  (\<^verbatim>\<open>read-write\<close>), over an input that can have errors.
\<close>

section \<open>The standard input\<close>

text \<open>What is still to be read: characters and single errors, then the end of the file or, for ever, an error.\<close>

datatype item = Byte char | Fault

record input =
  in_items :: "item list"
  in_broken :: bool
  in_eof :: bool
  in_error :: bool

definition input_of :: "item list \<Rightarrow> bool \<Rightarrow> input" where
  "input_of items broken = \<lparr>in_items = items, in_broken = broken, in_eof = False, in_error = False\<rparr>"

text \<open>\<^verbatim>\<open>fgetc\<close>; the end of the file, once seen, stays.\<close>

definition c_fgetc :: "input \<Rightarrow> char option \<times> input" where
  "c_fgetc s =
     (if in_eof s then (None, s)
      else case in_items s of
        [] \<Rightarrow> if in_broken s then (None, s\<lparr>in_error := True\<rparr>) else (None, s\<lparr>in_eof := True\<rparr>)
      | Byte c # rest \<Rightarrow> (Some c, s\<lparr>in_items := rest\<rparr>)
      | Fault # rest \<Rightarrow> (None, s\<lparr>in_items := rest, in_error := True\<rparr>))"

text \<open>The characters that \<^verbatim>\<open>fgets\<close> and \<^verbatim>\<open>fread\<close> take, at most \<open>n\<close>; the flag says that an error has ended them.\<close>

fun take_chars :: "(char \<Rightarrow> bool) \<Rightarrow> nat \<Rightarrow> input \<Rightarrow> string \<times> bool \<times> input" where
  "take_chars stop 0 s = ([], False, s)"
| "take_chars stop (Suc n) s =
     (case c_fgetc s of
        (None, s') \<Rightarrow> ([], \<not> in_eof s', s')
      | (Some c, s') \<Rightarrow>
          if stop c then ([c], False, s')
          else case take_chars stop n s' of (cs, bad, s'') \<Rightarrow> (c # cs, bad, s''))"

text \<open>\<^verbatim>\<open>fgets(buffer, n, stdin)\<close>: null at the end of the file and after an error.\<close>

definition c_fgets :: "nat \<Rightarrow> input \<Rightarrow> string option \<times> input" where
  "c_fgets n s =
     (case take_chars (\<lambda>c. c = NL) (n - 1) s of (cs, bad, s') \<Rightarrow> (if bad \<or> cs = [] then None else Some cs, s'))"

definition c_fread :: "nat \<Rightarrow> input \<Rightarrow> string \<times> input" where
  "c_fread n s = (case take_chars (\<lambda>c. False) n s of (cs, bad, s') \<Rightarrow> (cs, s'))"

section \<open>The programs\<close>

text \<open>A loop gets a number of rounds and gives what has been printed, or nothing if the rounds are used up.\<close>

definition BUFFER_SIZE :: nat where
  "BUFFER_SIZE = 256"

fun fgetc_loop :: "nat \<Rightarrow> input \<Rightarrow> string option" where
  "fgetc_loop 0 s = None"
| "fgetc_loop (Suc n) s =
     (case c_fgetc s of
        (None, s') \<Rightarrow> Some []
      | (Some ch, s') \<Rightarrow> map_option (\<lambda>out. ''you typed: '' @ [ch] @ [NL] @ out) (fgetc_loop n s'))"

definition fgetc_main :: "nat \<Rightarrow> input \<Rightarrow> string option" where
  "fgetc_main n s = map_option (\<lambda>out. ''Please input some text, end with Ctrl-D:'' @ [NL] @ out) (fgetc_loop n s)"

text \<open>\<^verbatim>\<open>fputs\<close> prints the buffer up to its first NUL.\<close>

fun fgets_loop :: "nat \<Rightarrow> input \<Rightarrow> string option" where
  "fgets_loop 0 s = None"
| "fgets_loop (Suc n) s =
     (case c_fgets BUFFER_SIZE s of
        (None, s') \<Rightarrow> Some []
      | (Some buffer, s') \<Rightarrow> map_option (\<lambda>out. ''You typed: '' @ c_str (buffer @ [NUL]) @ out) (fgets_loop n s'))"

definition fgets_main :: "nat \<Rightarrow> input \<Rightarrow> string option" where
  "fgets_main n s = map_option (\<lambda>out. ''Please input some lines, end with Ctrl-D:'' @ [NL] @ out) (fgets_loop n s)"

fun fread_loop :: "nat \<Rightarrow> input \<Rightarrow> string option" where
  "fread_loop 0 s = None"
| "fread_loop (Suc n) s =
     (case c_fread (BUFFER_SIZE - 1) s of (buffer, s') \<Rightarrow>
        if length buffer = 0 then Some []
        else map_option (\<lambda>out. ''You typed: '' @ buffer @ out) (fread_loop n s'))"

definition fread_main :: "nat \<Rightarrow> input \<Rightarrow> string option" where
  "fread_main n s = map_option (\<lambda>out. ''Enter some text (press Ctrl+D to stop):'' @ [NL] @ out) (fread_loop n s)"

fun feof_loop :: "nat \<Rightarrow> input \<Rightarrow> string option" where
  "feof_loop 0 s = None"
| "feof_loop (Suc n) s =
     (if in_eof s then Some []
      else case c_fgets BUFFER_SIZE s of
        (Some buffer, s') \<Rightarrow> map_option (\<lambda>out. ''You entered: '' @ c_str (buffer @ [NUL]) @ out) (feof_loop n s')
      | (None, s') \<Rightarrow> feof_loop n s')"

definition feof_main :: "nat \<Rightarrow> input \<Rightarrow> string option" where
  "feof_main n s =
     map_option (\<lambda>out. ''Enter some text (press Ctrl+D to stop):'' @ [NL] @ out @ [NL] @ ''Reached the end of input.'' @ [NL]) (feof_loop n s)"

section \<open>read and write\<close>

text \<open>The answers of the calls: \<^verbatim>\<open>read\<close> fails, or takes up to the given number of bytes (and at least one, if there is one);
  \<^verbatim>\<open>write\<close> fails, or writes up to the given number. When the list is used up the calls do all they are asked to.\<close>

record transfer =
  tr_input :: string
  tr_reads :: "nat option list"
  tr_writes :: "nat option list"
  tr_out :: string
  tr_err :: "err_item list"

definition next_answer :: "nat option list \<Rightarrow> nat \<Rightarrow> nat option \<times> nat option list" where
  "next_answer answers all = (case answers of [] \<Rightarrow> (Some all, []) | None # r \<Rightarrow> (None, r) | Some k # r \<Rightarrow> (Some (min k all), r))"

definition t_read :: "nat \<Rightarrow> transfer \<Rightarrow> string option \<times> transfer" where
  "t_read n s =
     (case next_answer (tr_reads s) n of
        (None, r) \<Rightarrow> (None, s\<lparr>tr_reads := r\<rparr>)
      | (Some k, r) \<Rightarrow> (Some (take (max 1 k) (tr_input s)), s\<lparr>tr_reads := r, tr_input := drop (max 1 k) (tr_input s)\<rparr>))"

definition t_write :: "string \<Rightarrow> transfer \<Rightarrow> int \<times> transfer" where
  "t_write buffer s =
     (case next_answer (tr_writes s) (length buffer) of
        (None, r) \<Rightarrow> (- 1, s\<lparr>tr_writes := r\<rparr>)
      | (Some k, r) \<Rightarrow> (int k, s\<lparr>tr_writes := r, tr_out := tr_out s @ take k buffer\<rparr>))"

fun read_write_loop :: "nat \<Rightarrow> transfer \<Rightarrow> (int \<times> transfer) option" where
  "read_write_loop 0 s = None"
| "read_write_loop (Suc n) s =
     (case t_read 4096 s of
        (None, s') \<Rightarrow> Some (EXIT_FAILURE, s'\<lparr>tr_err := tr_err s' @ [Perror ''Error reading from stdin'']\<rparr>)
      | (Some buffer, s') \<Rightarrow>
          if buffer = [] then Some (EXIT_SUCCESS, s')
          else case t_write buffer s' of (bytesWritten, s'') \<Rightarrow>
            if bytesWritten \<noteq> int (length buffer)
            then Some (EXIT_FAILURE, s''\<lparr>tr_err := tr_err s'' @ [Perror ''Error writing to stdout'']\<rparr>)
            else read_write_loop n s'')"

definition read_write_main :: "nat \<Rightarrow> transfer \<Rightarrow> (int \<times> transfer) option" where
  "read_write_main n s = read_write_loop n (s\<lparr>tr_out := tr_out s @ ''Press ctrl-d to exit.'' @ [NL] @ ''Start typing...'' @ [NL]\<rparr>)"

section \<open>Input without errors\<close>

definition reads_text :: "string \<Rightarrow> input \<Rightarrow> bool" where
  "reads_text t s \<longleftrightarrow> in_items s = map Byte t \<and> \<not> in_broken s \<and> (in_eof s \<longrightarrow> t = [])"

lemma reads_text_start: "reads_text t (input_of (map Byte t) False)"
  by (simp add: reads_text_def input_of_def)

lemma fgetc_text:
  "reads_text [] s \<Longrightarrow> \<exists>s'. c_fgetc s = (None, s') \<and> reads_text [] s' \<and> in_eof s'"
  "reads_text (c # t) s \<Longrightarrow> \<exists>s'. c_fgetc s = (Some c, s') \<and> reads_text t s'"
  by (auto simp: reads_text_def c_fgetc_def)

text \<open>The characters up to the first that stops, at most \<open>n\<close>.\<close>

fun split_chars :: "(char \<Rightarrow> bool) \<Rightarrow> nat \<Rightarrow> string \<Rightarrow> string \<times> string" where
  "split_chars stop 0 s = ([], s)"
| "split_chars stop (Suc n) [] = ([], [])"
| "split_chars stop (Suc n) (c # s) =
     (if stop c then ([c], s) else case split_chars stop n s of (line, rest) \<Rightarrow> (c # line, rest))"

lemma split_chars_fgets: "split_chars (\<lambda>c. c = NL) n s = fgets_chars n s"
  by (induction n s rule: fgets_chars.induct) (auto split: prod.split)

lemma split_chars_take: "split_chars (\<lambda>c. False) n s = (take n s, drop n s)"
  by (induction "\<lambda>c :: char. False" n s rule: split_chars.induct) auto

lemma take_chars_text:
  assumes "reads_text t s" "split_chars stop n t = (line, rest)"
  shows "\<exists>s'. take_chars stop n s = (line, False, s') \<and> reads_text rest s' \<and> (0 < n \<and> t = [] \<longrightarrow> in_eof s')"
  using assms
proof (induction n arbitrary: t s line rest)
  case (Suc n)
  show ?case
  proof (cases t)
    case Nil
    with Suc.prems fgetc_text(1) [of s] show ?thesis by auto
  next
    case (Cons c u)
    with Suc.prems(1) obtain s1 where s1: "c_fgetc s = (Some c, s1)" "reads_text u s1" using fgetc_text(2) by blast
    show ?thesis
    proof (cases "stop c")
      case True
      with Suc.prems(2) Cons s1 show ?thesis by auto
    next
      case False
      obtain l r where lr: "split_chars stop n u = (l, r)" by (cases "split_chars stop n u") auto
      from Suc.IH [OF s1(2) lr] obtain s2 where "take_chars stop n s1 = (l, False, s2)" "reads_text r s2" by blast
      with Suc.prems(2) Cons s1 False lr show ?thesis by auto
    qed
  qed
qed simp

lemma fgets_text:
  assumes "reads_text t s" "t \<noteq> []" "fgets_chars 255 t = (line, rest)"
  shows "\<exists>s'. c_fgets BUFFER_SIZE s = (Some line, s') \<and> reads_text rest s'"
proof -
  have "line \<noteq> []" using assms(2,3) fgets_chars_progress [of 254 t line rest] by simp
  moreover have "split_chars (\<lambda>c. c = NL) 255 t = (line, rest)" using assms(3) by (simp only: split_chars_fgets)
  ultimately show ?thesis
    using take_chars_text [OF assms(1), of "\<lambda>c. c = NL" 255 line rest] by (auto simp: c_fgets_def BUFFER_SIZE_def)
qed

lemma fgets_no_text:
  assumes "reads_text [] s"
  shows "\<exists>s'. c_fgets BUFFER_SIZE s = (None, s') \<and> reads_text [] s' \<and> in_eof s'"
  using take_chars_text [OF assms, of "\<lambda>c. c = NL" 255 "[]" "[]"]
  by (auto simp: c_fgets_def BUFFER_SIZE_def split_chars_fgets numeral_eq_Suc)

lemma fread_text:
  assumes "reads_text t s"
  shows "\<exists>s'. c_fread (BUFFER_SIZE - 1) s = (take 255 t, s') \<and> reads_text (drop 255 t) s'"
  using take_chars_text [OF assms split_chars_take, of 255] by (auto simp: c_fread_def BUFFER_SIZE_def)

section \<open>What the programs print\<close>

lemma fgets_lines_step:
  "fgets_lines 254 t = (if t = [] then [] else case fgets_chars 255 t of (line, rest) \<Rightarrow> line # fgets_lines 254 rest)"
  by (subst fgets_lines.simps) (simp add: fgets_def split: prod.split)

lemma fgetc_prints:
  "reads_text t s \<Longrightarrow> length t < n \<Longrightarrow> fgetc_loop n s = Some (concat (map (\<lambda>c. ''you typed: '' @ [c] @ [NL]) t))"
proof (induction n arbitrary: t s)
  case (Suc n)
  then show ?case
  proof (cases t)
    case Nil
    with Suc.prems fgetc_text(1) [of s] show ?thesis by auto
  next
    case (Cons c u)
    with Suc.prems(1) obtain s1 where "c_fgetc s = (Some c, s1)" "reads_text u s1" using fgetc_text(2) by blast
    with Suc Cons show ?thesis by simp
  qed
qed simp

lemma fgets_rest_shorter:
  assumes "t \<noteq> []" "fgets_chars 255 t = (line, rest)"
  shows "length rest < length t"
  using fgets_shorter [of 254 t line rest] assms by (simp add: fgets_def)

lemma fgets_prints:
  "reads_text t s \<Longrightarrow> length t < n \<Longrightarrow>
     fgets_loop n s = Some (concat (map (\<lambda>line. ''You typed: '' @ c_str (line @ [NUL])) (fgets_lines 254 t)))"
proof (induction n arbitrary: t s)
  case (Suc n)
  obtain line rest where f: "fgets_chars 255 t = (line, rest)" by (cases "fgets_chars 255 t") auto
  show ?case
  proof (cases "t = []")
    case True
    with Suc.prems fgets_no_text [of s] show ?thesis by (auto simp: fgets_lines_step)
  next
    case False
    with fgets_text [OF Suc.prems(1) False f] obtain s1 where s1: "c_fgets BUFFER_SIZE s = (Some line, s1)" "reads_text rest s1" by blast
    have "length rest < n" using fgets_rest_shorter [OF False f] Suc.prems(2) by simp
    with Suc.IH [OF s1(2)] s1 False f show ?thesis by (simp add: fgets_lines_step [of t])
  qed
qed simp

lemma feof_prints:
  "reads_text t s \<Longrightarrow> length t + 1 < n \<Longrightarrow>
     feof_loop n s = Some (concat (map (\<lambda>line. ''You entered: '' @ c_str (line @ [NUL])) (fgets_lines 254 t)))"
proof (induction n arbitrary: t s)
  case (Suc n)
  obtain line rest where f: "fgets_chars 255 t = (line, rest)" by (cases "fgets_chars 255 t") auto
  show ?case
  proof (cases "t = []")
    case True
    then obtain m where m: "n = Suc m" using Suc.prems(2) by (cases n) auto
    from True Suc.prems(1) fgets_no_text [of s] obtain s1 where "c_fgets BUFFER_SIZE s = (None, s1)" "in_eof s1" by auto
    then show ?thesis using True by (simp add: m fgets_lines_step)
  next
    case False
    then have "\<not> in_eof s" using Suc.prems(1) by (auto simp: reads_text_def)
    from fgets_text [OF Suc.prems(1) False f] obtain s1 where s1: "c_fgets BUFFER_SIZE s = (Some line, s1)" "reads_text rest s1" by blast
    have "length rest + 1 < n" using fgets_rest_shorter [OF False f] Suc.prems(2) by simp
    with Suc.IH [OF s1(2)] s1 False f \<open>\<not> in_eof s\<close> show ?thesis by (simp add: fgets_lines_step [of t])
  qed
qed simp

function blocks :: "nat \<Rightarrow> string \<Rightarrow> string list" where
  "blocks k t = (if t = [] \<or> k = 0 then [] else take k t # blocks k (drop k t))"
  by pat_completeness auto
termination by (relation "measure (\<lambda>(k, t). length t)") auto

declare blocks.simps [simp del]

lemma blocks_concat: "0 < k \<Longrightarrow> concat (blocks k t) = t"
proof (induction k t rule: blocks.induct)
  case (1 k t)
  then show ?case by (cases "t = []") (simp_all add: blocks.simps [of k t] blocks.simps [of k "[]"])
qed

lemma fread_prints:
  "reads_text t s \<Longrightarrow> length t < n \<Longrightarrow> fread_loop n s = Some (concat (map (\<lambda>b. ''You typed: '' @ b) (blocks 255 t)))"
proof (induction n arbitrary: t s)
  case (Suc n)
  from fread_text [OF Suc.prems(1)] obtain s1 where s1: "c_fread (BUFFER_SIZE - 1) s = (take 255 t, s1)" "reads_text (drop 255 t) s1" by blast
  show ?case
  proof (cases "t = []")
    case True
    with s1 show ?thesis by (simp add: blocks.simps)
  next
    case False
    then have "length (drop 255 t) < n" using Suc.prems(2) by (cases t) auto
    from Suc.IH [OF s1(2) this] s1 False show ?thesis by (simp add: blocks.simps [of 255 t])
  qed
qed simp

text \<open>C38. With an input that has no errors the four copying programs come to their end and print the input whole and in order, each
  piece behind its announcement: a character, a line of at most 255 characters, or a block of 255; those that print with fputs
  leave out what a line has behind a NUL.\<close>

theorem copying_programs_print:
  assumes "length t + 1 < n"
  shows "fgetc_main n (input_of (map Byte t) False) =
      Some (''Please input some text, end with Ctrl-D:'' @ [NL] @ concat (map (\<lambda>c. ''you typed: '' @ [c] @ [NL]) t))
    \<and> fgets_main n (input_of (map Byte t) False) = Some (''Please input some lines, end with Ctrl-D:'' @ [NL]
        @ concat (map (\<lambda>line. ''You typed: '' @ c_str (line @ [NUL])) (fgets_lines 254 t)))
    \<and> feof_main n (input_of (map Byte t) False) = Some (''Enter some text (press Ctrl+D to stop):'' @ [NL]
        @ concat (map (\<lambda>line. ''You entered: '' @ c_str (line @ [NUL])) (fgets_lines 254 t))
        @ [NL] @ ''Reached the end of input.'' @ [NL])
    \<and> fread_main n (input_of (map Byte t) False) = Some (''Enter some text (press Ctrl+D to stop):'' @ [NL]
        @ concat (map (\<lambda>b. ''You typed: '' @ b) (blocks 255 t)))
    \<and> concat (fgets_lines 254 t) = t \<and> concat (blocks 255 t) = t"
proof -
  have n: "length t < n" using assms by simp
  note start = reads_text_start [of t]
  show ?thesis
    using fgetc_prints [OF start n] fgets_prints [OF start n] feof_prints [OF start assms] fread_prints [OF start n]
    by (simp add: fgetc_main_def fgets_main_def feof_main_def fread_main_def fgets_lines_concat blocks_concat)
qed

lemma copying_programs_print_witness:
  "fgetc_main 4 (input_of (map Byte ''ab'') False)
    = Some (''Please input some text, end with Ctrl-D:'' @ [NL] @ ''you typed: a'' @ [NL] @ ''you typed: b'' @ [NL])"
  using copying_programs_print [of "''ab''" 4] by simp

section \<open>Input with errors\<close>

lemma fgetc_item:
  "c_fgetc s = (Some c, s') \<Longrightarrow> length (in_items s') < length (in_items s)"
  "c_fgetc s = (r, s') \<Longrightarrow> length (in_items s') \<le> length (in_items s) \<and> in_broken s' = in_broken s"
  by (auto simp: c_fgetc_def split: if_splits list.splits item.splits)

lemma take_chars_item:
  assumes "take_chars stop n s = (cs, bad, s')"
  shows "length cs + length (in_items s') \<le> length (in_items s)"
  using assms
proof (induction n arbitrary: s cs)
  case (Suc n)
  obtain r s1 where f: "c_fgetc s = (r, s1)" by (cases "c_fgetc s") auto
  show ?case
  proof (cases r)
    case None
    with Suc.prems f fgetc_item(2) [OF f] show ?thesis by auto
  next
    case (Some c)
    obtain ds b s2 where t: "take_chars stop n s1 = (ds, b, s2)" by (cases "take_chars stop n s1") auto
    with Suc.IH [of s1 ds] Suc.prems f Some fgetc_item(1) [of s c s1] show ?thesis
      by (auto split: if_splits)
  qed
qed simp

lemma loops_end:
  "length (in_items s) < n \<Longrightarrow> fgetc_loop n s \<noteq> None"
  "length (in_items s) < n \<Longrightarrow> fgets_loop n s \<noteq> None"
  "length (in_items s) < n \<Longrightarrow> fread_loop n s \<noteq> None"
proof (induction n arbitrary: s)
  case (Suc n)
  {
    case 1
    then show ?case
      using Suc.IH(1) fgetc_item(1) [of s] by (fastforce split: prod.split option.split)
  next
    case 2
    have "length (in_items s') < length (in_items s)" if "c_fgets BUFFER_SIZE s = (Some b, s')" for b s'
    proof -
      from that have "\<exists>bad. take_chars (\<lambda>c. c = NL) 255 s = (b, bad, s') \<and> b \<noteq> []"
        by (auto simp: c_fgets_def BUFFER_SIZE_def split: prod.splits if_splits)
      with take_chars_item [of "\<lambda>c. c = NL" 255 s b _ s'] show ?thesis by (cases b) auto
    qed
    with 2 Suc.IH(2) show ?case by (fastforce split: prod.split option.split)
  next
    case 3
    have "length (in_items s') < length (in_items s)" if "c_fread (BUFFER_SIZE - 1) s = (b, s')" "b \<noteq> []" for b s'
    proof -
      from that(1) have "\<exists>bad. take_chars (\<lambda>c. False) (BUFFER_SIZE - 1) s = (b, bad, s')" by (auto simp: c_fread_def split: prod.splits)
      with take_chars_item [of "\<lambda>c. False" "BUFFER_SIZE - 1" s b _ s'] that(2) show ?thesis by (cases b) auto
    qed
    with 3 Suc.IH(3) show ?case by (fastforce split: prod.split option.split)
  }
qed simp_all

text \<open>An input that is broken never comes to its end.\<close>

lemma broken_stays:
  "in_broken s \<Longrightarrow> \<not> in_eof s \<Longrightarrow> c_fgetc s = (r, s') \<Longrightarrow> in_broken s' \<and> \<not> in_eof s'"
  by (auto simp: c_fgetc_def split: list.splits item.splits)

lemma broken_take:
  "in_broken s \<Longrightarrow> \<not> in_eof s \<Longrightarrow> take_chars stop n s = (cs, bad, s') \<Longrightarrow> in_broken s' \<and> \<not> in_eof s'"
proof (induction n arbitrary: s cs bad)
  case (Suc n)
  obtain r s1 where f: "c_fgetc s = (r, s1)" by (cases "c_fgetc s") auto
  have b: "in_broken s1 \<and> \<not> in_eof s1" by (rule broken_stays [OF Suc.prems(1,2) f])
  obtain ds e s2 where t: "take_chars stop n s1 = (ds, e, s2)" by (cases "take_chars stop n s1") auto
  with Suc.IH [of s1 ds e] Suc.prems(3) f b show ?case by (cases r) (auto split: if_splits)
qed simp

lemma feof_broken: "in_broken s \<Longrightarrow> \<not> in_eof s \<Longrightarrow> feof_loop n s = None"
proof (induction n arbitrary: s)
  case (Suc n)
  obtain r s1 where f: "c_fgets BUFFER_SIZE s = (r, s1)" by (cases "c_fgets BUFFER_SIZE s") auto
  then obtain cs bad where "take_chars (\<lambda>c. c = NL) 255 s = (cs, bad, s1)"
    by (auto simp: c_fgets_def BUFFER_SIZE_def split: prod.splits)
  from broken_take [OF Suc.prems this] Suc.IH [of s1] Suc.prems f show ?case by (cases r) auto
qed simp

text \<open>An error of the input that stays, as when the standard input is a directory, ends the programs that test what the reading
  function returns, and is never seen by feof: that program goes on reading for ever.\<close>

theorem feof_ignores_errors:
  "feof_main n (input_of items True) = None
    \<and> fgetc_main (length items + 1) (input_of items True) \<noteq> None
    \<and> fgets_main (length items + 1) (input_of items True) \<noteq> None
    \<and> fread_main (length items + 1) (input_of items True) \<noteq> None"
  using feof_broken [of "input_of items True" n] loops_end [of "input_of items True" "length items + 1"]
  by (simp add: feof_main_def fgetc_main_def fgets_main_def fread_main_def input_of_def)

section \<open>Copying with read and write\<close>

lemma read_part:
  assumes "t_read 4096 s = (Some b, s')"
  shows "tr_input s = b @ tr_input s' \<and> tr_out s' = tr_out s \<and> tr_err s' = tr_err s \<and> tr_writes s' = tr_writes s
    \<and> (b = [] \<longrightarrow> tr_input s = [])"
  using assms by (auto simp: t_read_def split: prod.splits option.splits)

lemma read_write_copies:
  assumes "length (tr_input s) < n" "tr_err s = []"
  shows "\<exists>r s' copied rest. read_write_loop n s = Some (r, s') \<and> tr_input s = copied @ rest \<and> tr_out s' = tr_out s @ copied
    \<and> (if tr_err s' = [] then r = EXIT_SUCCESS \<and> rest = [] else r = EXIT_FAILURE)
    \<and> (tr_reads s = [] \<and> tr_writes s = [] \<longrightarrow> r = EXIT_SUCCESS)"
  using assms
proof (induction n arbitrary: s)
  case (Suc n)
  obtain q s1 where q: "t_read 4096 s = (q, s1)" by (cases "t_read 4096 s") auto
  show ?case
  proof (cases q)
    case None
    then have "tr_out s1 = tr_out s" "tr_reads s \<noteq> []"
      using q by (auto simp: t_read_def next_answer_def split: prod.splits option.splits list.splits)
    with None q show ?thesis by (intro exI [of _ 1] exI [of _ "s1\<lparr>tr_err := tr_err s1 @ [Perror ''Error reading from stdin'']\<rparr>"]
          exI [of _ "[]"] exI [of _ "tr_input s"]) auto
  next
    case (Some b)
    note part = read_part [OF q [unfolded Some]]
    have whole: "tr_reads s = [] \<Longrightarrow> tr_reads s1 = []"
      using q by (auto simp: t_read_def next_answer_def split: prod.splits option.splits list.splits)
    show ?thesis
    proof (cases "b = []")
      case True
      with part Some q Suc.prems show ?thesis
        by (intro exI [of _ 0] exI [of _ s1] exI [of _ "[]"] exI [of _ "[]"]) auto
    next
      case False
      obtain k s2 where w: "t_write b s1 = (k, s2)" by (cases "t_write b s1") auto
      show ?thesis
      proof (cases "k = int (length b)")
        case True
        then have s2: "tr_out s2 = tr_out s1 @ b" "tr_input s2 = tr_input s1" "tr_err s2 = tr_err s1" "tr_reads s2 = tr_reads s1"
            "tr_writes s1 = [] \<longrightarrow> tr_writes s2 = []"
          using w by (auto simp: t_write_def next_answer_def min_def split: prod.splits option.splits list.splits if_splits)
        have "length (tr_input s2) < n" "tr_err s2 = []" using part False Suc.prems s2 by (cases b; simp)+
        from Suc.IH [OF this] obtain r s' copied rest where
          "read_write_loop n s2 = Some (r, s') \<and> tr_input s2 = copied @ rest \<and> tr_out s' = tr_out s2 @ copied
            \<and> (if tr_err s' = [] then r = EXIT_SUCCESS \<and> rest = [] else r = EXIT_FAILURE)
            \<and> (tr_reads s2 = [] \<and> tr_writes s2 = [] \<longrightarrow> r = EXIT_SUCCESS)" by blast
        with True Some q w False part s2 whole show ?thesis
          by (intro exI [of _ r] exI [of _ s'] exI [of _ "b @ copied"] exI [of _ rest]) auto
      next
        case short: False
        then have more: "tr_writes s1 \<noteq> []"
          using w by (auto simp: t_write_def next_answer_def split: prod.splits option.splits list.splits)
        obtain a r where a: "next_answer (tr_writes s1) (length b) = (a, r)" by (cases "next_answer (tr_writes s1) (length b)") auto
        have "\<exists>j. tr_out s2 = tr_out s1 @ take j b"
          using w a by (cases a) (auto simp: t_write_def intro: exI [of _ 0])
        with more obtain j where j: "tr_out s2 = tr_out s1 @ take j b" "tr_writes s1 \<noteq> []" by blast
        with short Some q w False part show ?thesis
          by (intro exI [of _ 1] exI [of _ "s2\<lparr>tr_err := tr_err s2 @ [Perror ''Error writing to stdout'']\<rparr>"]
              exI [of _ "take j b"] exI [of _ "drop j b @ tr_input s1"]) auto
      qed
    qed
  qed
qed simp

text \<open>The program that copies with \<^verbatim>\<open>read\<close> and \<^verbatim>\<open>write\<close> ends, has written an initial part of its input, and reports success only if
  that is all of it; a \<^verbatim>\<open>write\<close> that writes less than it was given ends the program with a message.\<close>

theorem read_write_program:
  assumes "length (tr_input s) < n" "tr_err s = []" "tr_out s = []"
  shows "\<exists>r s' copied rest. read_write_main n s = Some (r, s') \<and> tr_input s = copied @ rest
    \<and> tr_out s' = ''Press ctrl-d to exit.'' @ [NL] @ ''Start typing...'' @ [NL] @ copied
    \<and> (if tr_err s' = [] then r = EXIT_SUCCESS \<and> rest = [] else r = EXIT_FAILURE)
    \<and> (tr_reads s = [] \<and> tr_writes s = [] \<longrightarrow> r = EXIT_SUCCESS)"
  using read_write_copies [of "s\<lparr>tr_out := ''Press ctrl-d to exit.'' @ [NL] @ ''Start typing...'' @ [NL]\<rparr>" n] assms
  by (simp add: read_write_main_def)

end
