(* ===== verification/C_Heap.thy ===== *)
theory C_Heap
  imports C_Prelude
begin

text \<open>
  Allocated memory as the programs under \<^verbatim>\<open>src/memory\<close>, \<^verbatim>\<open>src/strings\<close> and \<^verbatim>\<open>src/string-processing\<close> use it: blocks of
  bytes that are indeterminate until they are written, \<^verbatim>\<open>malloc\<close> and its relatives, each able to fail, the copying
  functions of \<^verbatim>\<open>string.h\<close>, and arrays of \<^verbatim>\<open>int\<close>. An access outside a block or after \<^verbatim>\<open>free\<close>, and the use of an
  indeterminate byte, have the result \<open>Bad\<close>. The collection \<open>heap_run\<close> executes programs.
\<close>

named_theorems heap_run \<open>equations that execute programs on the heap\<close>

section \<open>State and programs\<close>

text \<open>A block that has been freed is \<open>None\<close>; \<open>hp_faults\<close> says which of the next allocations fail.\<close>

record heap =
  hp_blocks :: "char option list option list"
  hp_faults :: "bool list"
  hp_out :: string
  hp_err :: "err_item list"

definition fresh_heap :: "bool list \<Rightarrow> heap" where
  "fresh_heap faults = \<lparr>hp_blocks = [], hp_faults = faults, hp_out = [], hp_err = []\<rparr>"

type_synonym addr = "nat \<times> nat"

datatype 'a hresult = Good 'a | Quits int | Bad

type_synonym 'a hprog = "heap \<Rightarrow> 'a hresult \<times> heap"

definition h_ret :: "'a \<Rightarrow> 'a hprog" where
  "h_ret v s = (Good v, s)"

definition h_exit :: "int \<Rightarrow> 'a hprog" where
  "h_exit n s = (Quits n, s)"

definition h_bad :: "'a hprog" where
  "h_bad s = (Bad, s)"

definition h_then :: "'a hprog \<Rightarrow> ('a \<Rightarrow> 'b hprog) \<Rightarrow> 'b hprog" where
  "h_then c k s = (case c s of (Good v, s') \<Rightarrow> k v s' | (Quits n, s') \<Rightarrow> (Quits n, s') | (Bad, s') \<Rightarrow> (Bad, s'))"

definition h_printf :: "string \<Rightarrow> unit hprog" where
  "h_printf t s = (Good (), s\<lparr>hp_out := hp_out s @ t\<rparr>)"

definition h_perror :: "string \<Rightarrow> unit hprog" where
  "h_perror m s = (Good (), s\<lparr>hp_err := hp_err s @ [Perror m]\<rparr>)"

text \<open>\<^verbatim>\<open>perror\<close> and \<^verbatim>\<open>return EXIT_FAILURE\<close>.\<close>

definition h_fail :: "string \<Rightarrow> int hprog" where
  "h_fail m = h_then (h_perror m) (\<lambda>_. h_ret EXIT_FAILURE)"

text \<open>The command line in front of a program.\<close>

definition h_cli :: "'a result \<Rightarrow> 'a hprog" where
  "h_cli r s =
     (case r of Returns v \<Rightarrow> (Good v, s) | Exits n e \<Rightarrow> (Quits n, s\<lparr>hp_err := hp_err s @ e\<rparr>) | Undef \<Rightarrow> (Bad, s) | Blocks \<Rightarrow> (Bad, s))"

section \<open>Allocation\<close>

definition h_allocate :: "char option list \<Rightarrow> addr option hprog" where
  "h_allocate cells s =
     (case hp_faults s of
        True # fs \<Rightarrow> (Good None, s\<lparr>hp_faults := fs\<rparr>)
      | fs \<Rightarrow> (Good (Some (length (hp_blocks s), 0)), s\<lparr>hp_blocks := hp_blocks s @ [Some cells], hp_faults := tl fs\<rparr>))"

definition h_malloc :: "nat \<Rightarrow> addr option hprog" where
  "h_malloc n = h_allocate (replicate n None)"

definition h_calloc :: "nat \<Rightarrow> nat \<Rightarrow> addr option hprog" where
  "h_calloc n width = h_allocate (replicate (n * width) (Some NUL))"

definition block_at :: "addr \<Rightarrow> heap \<Rightarrow> char option list option" where
  "block_at p s = (if fst p < length (hp_blocks s) then hp_blocks s ! fst p else None)"

definition put_block :: "addr \<Rightarrow> char option list option \<Rightarrow> heap \<Rightarrow> heap" where
  "put_block p c s = s\<lparr>hp_blocks := (hp_blocks s)[fst p := c]\<rparr>"

definition h_free :: "addr option \<Rightarrow> unit hprog" where
  "h_free q s =
     (case q of
        None \<Rightarrow> (Good (), s)
      | Some p \<Rightarrow> (case block_at p s of
          None \<Rightarrow> (Bad, s)
        | Some cells \<Rightarrow> if snd p = 0 then (Good (), put_block p None s) else (Bad, s)))"

text \<open>\<^verbatim>\<open>realloc\<close> of an allocated block to a size that is not zero: a new block with the old contents, or failure, which leaves
  the block as it is.\<close>

definition h_realloc :: "addr \<Rightarrow> nat \<Rightarrow> addr option hprog" where
  "h_realloc p n s =
     (case block_at p s of
        None \<Rightarrow> (Bad, s)
      | Some cells \<Rightarrow>
          h_then (h_allocate (take n cells @ replicate (n - length cells) None))
            (\<lambda>q. case q of None \<Rightarrow> h_ret None | Some q' \<Rightarrow> h_then (h_free (Some p)) (\<lambda>_. h_ret (Some q'))) s)"

text \<open>An array with automatic storage lives until its block is left.\<close>

definition h_local :: "char option list \<Rightarrow> (addr \<Rightarrow> 'a hprog) \<Rightarrow> 'a hprog" where
  "h_local cells body s =
     (let p = (length (hp_blocks s), 0)
      in case body p (s\<lparr>hp_blocks := hp_blocks s @ [Some cells]\<rparr>) of (r, s') \<Rightarrow> (r, put_block p None s'))"

section \<open>Access\<close>

definition plus_addr :: "addr \<Rightarrow> nat \<Rightarrow> addr" where
  "plus_addr p n = (fst p, snd p + n)"

definition h_store :: "addr \<Rightarrow> char option list \<Rightarrow> unit hprog" where
  "h_store p cs s =
     (case block_at p s of
        None \<Rightarrow> (Bad, s)
      | Some cells \<Rightarrow>
          if snd p + length cs \<le> length cells
          then (Good (), put_block p (Some (take (snd p) cells @ cs @ drop (snd p + length cs) cells)) s)
          else (Bad, s))"

definition h_load :: "addr \<Rightarrow> nat \<Rightarrow> char option list hprog" where
  "h_load p n s =
     (case block_at p s of
        None \<Rightarrow> (Bad, s)
      | Some cells \<Rightarrow> if snd p + n \<le> length cells then (Good (take n (drop (snd p) cells)), s) else (Bad, s))"

text \<open>The bytes of a use as values.\<close>

definition h_values :: "char option list \<Rightarrow> char list hprog" where
  "h_values cs = (if None \<in> set cs then h_bad else h_ret (map the cs))"

text \<open>\<^verbatim>\<open>memcpy\<close> (for blocks that do not overlap) and \<^verbatim>\<open>memmove\<close>, \<^verbatim>\<open>memset\<close>, and whether \<^verbatim>\<open>memcmp\<close> is zero.\<close>

definition h_memcpy :: "addr \<Rightarrow> addr \<Rightarrow> nat \<Rightarrow> unit hprog" where
  "h_memcpy dst src n = (if fst dst = fst src then h_bad else h_then (h_load src n) (h_store dst))"

definition h_memmove :: "addr \<Rightarrow> addr \<Rightarrow> nat \<Rightarrow> unit hprog" where
  "h_memmove dst src n = h_then (h_load src n) (h_store dst)"

definition h_memset :: "addr \<Rightarrow> char \<Rightarrow> nat \<Rightarrow> unit hprog" where
  "h_memset p c n = h_store p (replicate n (Some c))"

definition h_memcmp_equal :: "addr \<Rightarrow> addr \<Rightarrow> nat \<Rightarrow> bool hprog" where
  "h_memcmp_equal p q n =
     h_then (h_load p n) (\<lambda>a. h_then (h_values a) (\<lambda>a. h_then (h_load q n) (\<lambda>b. h_then (h_values b) (\<lambda>b. h_ret (a = b)))))"

text \<open>The string at an address; there is none if an indeterminate byte or the end of the block comes before a NUL.\<close>

fun read_string :: "char option list \<Rightarrow> string option" where
  "read_string [] = None"
| "read_string (None # cells) = None"
| "read_string (Some c # cells) = (if c = NUL then Some [] else map_option (Cons c) (read_string cells))"

definition h_string :: "addr \<Rightarrow> string hprog" where
  "h_string p s =
     (case block_at p s of
        None \<Rightarrow> (Bad, s)
      | Some cells \<Rightarrow> (case read_string (drop (snd p) cells) of None \<Rightarrow> (Bad, s) | Some t \<Rightarrow> (Good t, s)))"

section \<open>Integers\<close>

text \<open>An \<^verbatim>\<open>int\<close> has four bytes, the lowest first, in two's complement.\<close>

definition int_cells :: "int \<Rightarrow> char option list" where
  "int_cells v =
     (let n = nat (v mod 2 ^ 32)
      in [Some (char_of n), Some (char_of (n div 256)), Some (char_of (n div 65536)), Some (char_of (n div 16777216))])"

definition int_of_bytes :: "char list \<Rightarrow> int" where
  "int_of_bytes cs = (let n = int (foldr (\<lambda>c n. of_char c + 256 * n) cs 0) in if n < 2 ^ 31 then n else n - 2 ^ 32)"

definition h_get_int :: "addr \<Rightarrow> nat \<Rightarrow> int hprog" where
  "h_get_int p i = h_then (h_load (plus_addr p (4 * i)) 4) (\<lambda>cs. h_then (h_values cs) (\<lambda>cs. h_ret (int_of_bytes cs)))"

definition h_set_int :: "addr \<Rightarrow> nat \<Rightarrow> int \<Rightarrow> unit hprog" where
  "h_set_int p i v = h_store (plus_addr p (4 * i)) (int_cells v)"

text \<open>\<^verbatim>\<open>for(i = 0; i < size; i++)\<close> with a body; the loop has \<open>n\<close> rounds from \<open>i\<close>.\<close>

fun h_for :: "nat \<Rightarrow> nat \<Rightarrow> (nat \<Rightarrow> unit hprog) \<Rightarrow> unit hprog" where
  "h_for i 0 body = h_ret ()"
| "h_for i (Suc n) body = h_then (body i) (\<lambda>_. h_for (Suc i) n body)"

lemma length_int_cells [simp]: "length (int_cells v) = 4"
  by (simp add: int_cells_def Let_def)

lemma nat_bytes:
  fixes n :: nat
  assumes "n < 4294967296"
  shows "n mod 256 + 256 * (n div 256 mod 256 + 256 * (n div 65536 mod 256 + 256 * (n div 16777216 mod 256))) = n"
proof -
  have top: "n div 16777216 mod 256 = n div 16777216" using assms by simp
  have divs: "n div 16777216 = n div 65536 div 256" "n div 65536 = n div 256 div 256" by (simp_all add: div_mult2_eq [symmetric])
  have "n div 65536 mod 256 + 256 * (n div 16777216) = n div 65536" unfolding divs(1) by (rule mod_mult_div_eq)
  moreover have "n div 256 mod 256 + 256 * (n div 65536) = n div 256" unfolding divs(2) by (rule mod_mult_div_eq)
  moreover have "n mod 256 + 256 * (n div 256) = n" by (rule mod_mult_div_eq)
  ultimately show ?thesis by (simp only: top)
qed

lemma foldr_bytes:
  "n < 4294967296 \<Longrightarrow>
    foldr (\<lambda>c n. of_char c + 256 * n) [char_of n, char_of (n div 256), char_of (n div 65536), char_of (n div 16777216)] 0 = n"
  for n :: nat
  using nat_bytes [of n] by simp

lemma int_roundtrip:
  assumes "- 2147483648 \<le> v" "v < 2147483648"
  shows "int_of_bytes (map the (int_cells v)) = v"
proof -
  have "v mod 4294967296 = (if v < 0 then v + 4294967296 else v)"
    using assms mod_pos_pos_trivial [of "v + 4294967296" 4294967296] by (simp add: mod_pos_pos_trivial)
  moreover have "foldr (\<lambda>c n. of_char c + 256 * n) (map the (int_cells v)) 0 = nat (v mod 4294967296)"
  proof -
    define n where "n = nat (v mod 4294967296)"
    have "n < 4294967296" by (simp add: n_def nat_less_iff)
    moreover have "map the (int_cells v) = [char_of n, char_of (n div 256), char_of (n div 65536), char_of (n div 16777216)]"
      by (simp add: int_cells_def Let_def n_def)
    ultimately show ?thesis unfolding n_def [symmetric] by (simp only: foldr_bytes)
  qed
  ultimately show ?thesis using assms unfolding int_of_bytes_def Let_def by (simp split: if_splits)
qed

text \<open>Writing a block and looking at it.\<close>

lemma block_at_put [simp]: "block_at p s = Some c \<Longrightarrow> block_at p (put_block p d s) = d"
  by (auto simp: block_at_def put_block_def split: if_splits)

lemma block_at_put_other [simp]: "fst p \<noteq> fst q \<Longrightarrow> block_at p (put_block q d s) = block_at p s"
  by (simp add: block_at_def put_block_def)

lemma put_put [simp]: "put_block p c (put_block p d s) = put_block p c s"
  by (simp add: put_block_def)

lemma put_block_same: "block_at p s = Some c \<Longrightarrow> put_block p (Some c) s = s"
  by (cases s) (auto simp: put_block_def block_at_def list_update_same_conv split: if_splits)

lemma block_at_out [simp]: "block_at p (s\<lparr>hp_out := t\<rparr>) = block_at p s" "block_at p (s\<lparr>hp_err := e\<rparr>) = block_at p s"
  by (simp_all add: block_at_def)

lemma put_block_out: "put_block p c (s\<lparr>hp_out := t\<rparr>) = (put_block p c s)\<lparr>hp_out := t\<rparr>"
  by (simp add: put_block_def)

lemma put_block_keeps [simp]: "hp_out (put_block p c s) = hp_out s" "hp_err (put_block p c s) = hp_err s"
  "hp_faults (put_block p c s) = hp_faults s"
  by (simp_all add: put_block_def)

lemma plus_addr_simps [simp]: "block_at (plus_addr p n) s = block_at p s" "put_block (plus_addr p n) c s = put_block p c s"
  "snd (plus_addr p n) = snd p + n"
  by (simp_all add: block_at_def put_block_def plus_addr_def)

text \<open>Every block has been freed.\<close>

definition all_freed :: "heap \<Rightarrow> bool" where
  "all_freed s \<longleftrightarrow> list_all (\<lambda>b. b = None) (hp_blocks s)"

lemmas [heap_run] = h_then_def h_ret_def h_printf_def h_perror_def h_fail_def h_exit_def

end
