(* ===== verification/Memory_Programs.thy ===== *)
theory Memory_Programs
  imports C_Heap
begin

text \<open>
  The programs under \<^verbatim>\<open>src/memory\<close> on the heap of \<open>C_Heap\<close>: what they print, and that they free what they have
  allocated whatever allocations fail. \<^verbatim>\<open>malloc-free\<close> and \<^verbatim>\<open>memset\<close> print an array that they have not
  written, which is the use of indeterminate values.
\<close>

section \<open>The programs\<close>

definition NUM_ELEMENTS :: nat where
  "NUM_ELEMENTS = 5"

definition print_array :: "addr \<Rightarrow> nat \<Rightarrow> unit hprog" where
  "print_array arr n =
     h_then (h_for 0 n (\<lambda>i. h_then (h_get_int arr i) (\<lambda>v. h_printf (dec_int v @ '' '')))) (\<lambda>_. h_printf [NL])"

definition calloc_main :: "int hprog" where
  "calloc_main =
     h_then (h_calloc 5 4) (\<lambda>q. case q of
       None \<Rightarrow> h_fail (''Memory allocation failed'' @ [NL])
     | Some dynamic_array \<Rightarrow>
         h_then (print_array dynamic_array 5) (\<lambda>_. h_then (h_free q) (\<lambda>_. h_ret EXIT_SUCCESS)))"

definition malloc_main :: "int hprog" where
  "malloc_main =
     h_then (h_malloc (NUM_ELEMENTS * 4)) (\<lambda>q. case q of
       None \<Rightarrow> h_fail (''Memory allocation failed'' @ [NL])
     | Some dynamic_array \<Rightarrow>
         h_then (print_array dynamic_array NUM_ELEMENTS) (\<lambda>_. h_then (h_free q) (\<lambda>_. h_ret EXIT_SUCCESS)))"

text \<open>The random numbers are an argument.\<close>

definition fill_with_random_ints :: "(nat \<Rightarrow> int) \<Rightarrow> addr \<Rightarrow> nat \<Rightarrow> unit hprog" where
  "fill_with_random_ints random arr n = h_for 0 n (\<lambda>i. h_set_int arr i (random i))"

definition memset_main :: "(nat \<Rightarrow> int) \<Rightarrow> int hprog" where
  "memset_main random =
     h_then (h_malloc (5 * 4)) (\<lambda>q. case q of
       None \<Rightarrow> h_fail (''Memory allocation failed'' @ [NL])
     | Some dynamic_array \<Rightarrow>
         h_then (h_printf (''Array after malloc:'' @ [NL])) (\<lambda>_.
         h_then (print_array dynamic_array 5) (\<lambda>_.
         h_then (fill_with_random_ints random dynamic_array 5) (\<lambda>_.
         h_then (h_printf (''Array after filling with random integers:'' @ [NL])) (\<lambda>_.
         h_then (print_array dynamic_array 5) (\<lambda>_.
         h_then (h_memset dynamic_array NUL (5 * 4)) (\<lambda>_.
         h_then (h_printf (''Array after memset:'' @ [NL])) (\<lambda>_.
         h_then (print_array dynamic_array 5) (\<lambda>_.
         h_then (h_free q) (\<lambda>_. h_ret EXIT_SUCCESS))))))))))"

definition source_data :: "char option list" where
  "source_data = concat (map int_cells [1, 2, 3, 4])"

definition print_copied :: "addr \<Rightarrow> nat \<Rightarrow> unit hprog" where
  "print_copied destination_buffer num_elements =
     h_then (h_printf ''Copied elements: '') (\<lambda>_. print_array destination_buffer num_elements)"

definition memcpy_main :: "int hprog" where
  "memcpy_main =
     h_local source_data (\<lambda>source_data. h_local (replicate 16 None) (\<lambda>destination_buffer.
       let num_elements = 16 div 4 in
       h_then (h_memcpy destination_buffer source_data (num_elements * 4)) (\<lambda>_.
       h_then (print_copied destination_buffer num_elements) (\<lambda>_. h_ret EXIT_SUCCESS))))"

definition memmove_main :: "int hprog" where
  "memmove_main =
     h_local source_data (\<lambda>source_data. h_local (replicate 16 None) (\<lambda>destination_buffer.
       let num_elements = 16 div 4 in
       h_then (h_memmove destination_buffer source_data (num_elements * 4)) (\<lambda>_.
       h_then (print_copied destination_buffer num_elements) (\<lambda>_. h_ret EXIT_SUCCESS))))"

definition print_comparison :: "string \<Rightarrow> bool \<Rightarrow> unit hprog" where
  "print_comparison other equal =
     h_printf (''data1 and '' @ other @ (if equal then '' are identical.'' else '' are different.'') @ [NL])"

definition memcmp_main :: "int hprog" where
  "memcmp_main =
     h_local source_data (\<lambda>data1. h_local source_data (\<lambda>data2. h_local source_data (\<lambda>data3.
       h_then (h_memcmp_equal data1 data2 16) (\<lambda>result1.
       h_then (print_comparison ''data2'' result1) (\<lambda>_.
       h_then (h_memcmp_equal data1 data3 16) (\<lambda>result2.
       h_then (print_comparison ''data3'' result2) (\<lambda>_. h_ret EXIT_SUCCESS)))))))"

definition initialize_array :: "addr \<Rightarrow> nat \<Rightarrow> unit hprog" where
  "initialize_array array num_elements = h_for 0 num_elements (\<lambda>i. h_set_int array i (int i + 1))"

definition print_array_after :: "string \<Rightarrow> addr \<Rightarrow> nat \<Rightarrow> unit hprog" where
  "print_array_after message array num_elements = h_then (h_printf message) (\<lambda>_. print_array array num_elements)"

definition resize_array :: "addr \<Rightarrow> nat \<Rightarrow> addr hprog" where
  "resize_array array new_num_elements =
     h_then (h_realloc array (new_num_elements * 4)) (\<lambda>q. case q of
       None \<Rightarrow>
         h_then (h_perror (''Memory reallocation failed'' @ [NL])) (\<lambda>_. h_then (h_free (Some array)) (\<lambda>_. h_exit EXIT_FAILURE))
     | Some resized_array \<Rightarrow> h_ret resized_array)"

definition realloc_main :: "int hprog" where
  "realloc_main =
     h_then (h_malloc (NUM_ELEMENTS * 4)) (\<lambda>q. case q of
       None \<Rightarrow> h_fail (''Memory allocation failed'' @ [NL])
     | Some dynamic_array \<Rightarrow>
         h_then (initialize_array dynamic_array NUM_ELEMENTS) (\<lambda>_.
         h_then (print_array_after ''Initial elements of the array: '' dynamic_array NUM_ELEMENTS) (\<lambda>_.
         let num_elements = NUM_ELEMENTS * 2 in
         h_then (resize_array dynamic_array num_elements) (\<lambda>dynamic_array.
         h_then (initialize_array (plus_addr dynamic_array (4 * NUM_ELEMENTS)) (num_elements - NUM_ELEMENTS)) (\<lambda>_.
         h_then (print_array_after ''Resized elements of the array: '' dynamic_array num_elements) (\<lambda>_.
         h_then (h_free (Some dynamic_array)) (\<lambda>_. h_ret EXIT_SUCCESS)))))))"

text \<open>The sizes of the platform.\<close>

definition sizeof_main :: string where
  "sizeof_main =
     concat (map (\<lambda>(name, n). ''Size of '' @ name @ '': '' @ dec_nat n @ [NL])
       [(''pointer'', 8), (''char'', 1), (''wchar_t'', 4), (''int8_t'', 1), (''uint8_t'', 1), (''int16_t'', 2), (''uint16_t'', 2),
        (''int32_t'', 4), (''uint32_t'', 4), (''int'', 4), (''unsigned int'', 4), (''long'', 8), (''unsigned long'', 8),
        (''long long'', 8), (''unsigned long long'', 8), (''float'', 4), (''double'', 8), (''long double'', 16), (''intptr_t'', 8),
        (''size_t'', 8), (''ssize_t'', 8), (''fpos_t'', 16), (''off_t'', 8), (''bool'', 1), (''pid_t'', 4), (''uid_t'', 4), (''gid_t'', 4)])"

section \<open>Arrays of integers\<close>

text \<open>The block at \<open>p\<close> is an array with the given elements.\<close>

definition int_array :: "addr \<Rightarrow> int list \<Rightarrow> heap \<Rightarrow> bool" where
  "int_array p vs s \<longleftrightarrow> snd p = 0 \<and> block_at p s = Some (concat (map int_cells vs))"

definition is_int :: "int \<Rightarrow> bool" where
  "is_int v \<longleftrightarrow> - 2147483648 \<le> v \<and> v < 2147483648"

lemma length_cells: "length (concat (map int_cells vs)) = 4 * length vs"
  by (induction vs) simp_all

lemma cells_at: "i < length vs \<Longrightarrow> take 4 (drop (4 * i) (concat (map int_cells vs))) = int_cells (vs ! i)"
proof (induction vs arbitrary: i)
  case (Cons v vs)
  then show ?case by (cases i) simp_all
qed simp

lemma no_indeterminate [simp]: "None \<notin> set (int_cells v)"
  by (auto simp: int_cells_def Let_def)

lemma get_int:
  assumes "int_array p vs s" "i < length vs" "is_int (vs ! i)"
  shows "h_get_int p i s = (Good (vs ! i), s)"
  using assms int_roundtrip [of "vs ! i"]
  by (simp add: h_get_int_def h_then_def h_load_def int_array_def h_values_def h_ret_def cells_at
      length_cells is_int_def)

lemma int_array_out [simp]: "int_array p vs (s\<lparr>hp_out := t\<rparr>) = int_array p vs s"
  by (simp add: int_array_def block_at_def)

lemma print_from:
  assumes "int_array p vs s" "\<forall>v \<in> set vs. is_int v" "i + n = length vs"
  shows "h_for i n (\<lambda>i. h_then (h_get_int p i) (\<lambda>v. h_printf (dec_int v @ '' ''))) s
    = (Good (), s\<lparr>hp_out := hp_out s @ concat (map (\<lambda>v. dec_int v @ '' '') (drop i vs))\<rparr>)"
  using assms
proof (induction n arbitrary: i s)
  case 0
  then show ?case by (simp add: h_ret_def)
next
  case (Suc n)
  then have i: "i < length vs" "is_int (vs ! i)" by simp_all
  have "int_array p vs (s\<lparr>hp_out := hp_out s @ dec_int (vs ! i) @ '' ''\<rparr>)" using Suc.prems by simp
  from Suc.IH [OF this, of "Suc i"] Suc.prems show ?case
    by (simp add: h_then_def get_int [OF Suc.prems(1) i] h_printf_def Cons_nth_drop_Suc [OF i(1), symmetric])
qed

lemma print_array_prints:
  assumes "int_array p vs s" "\<forall>v \<in> set vs. is_int v" "n = length vs"
  shows "print_array p n s = (Good (), s\<lparr>hp_out := hp_out s @ concat (map (\<lambda>v. dec_int v @ '' '') vs) @ [NL]\<rparr>)"
  using print_from [OF assms(1,2), of 0 n] assms(3) by (simp add: print_array_def h_then_def h_printf_def)

lemma set_from:
  assumes "block_at p s = Some cells" "snd p + 4 * (i + n) \<le> length cells"
  shows "h_for i n (\<lambda>i. h_set_int p i (f i)) s = (Good (),
    put_block p (Some (take (snd p + 4 * i) cells @ concat (map (\<lambda>i. int_cells (f i)) [i..<i + n]) @ drop (snd p + 4 * (i + n)) cells)) s)"
  using assms
proof (induction n arbitrary: i s cells)
  case 0
  then show ?case by (simp add: h_ret_def put_block_same)
next
  case (Suc n)
  let ?cells = "take (snd p + 4 * i) cells @ int_cells (f i) @ drop (snd p + 4 * i + 4) cells"
  let ?s = "put_block p (Some ?cells) s"
  have "h_set_int p i (f i) s = (Good (), ?s)"
    using Suc.prems by (simp add: h_set_int_def h_store_def)
  moreover have "block_at p ?s = Some ?cells" using Suc.prems(1) by simp
  moreover have "take (snd p + 4 * Suc i) ?cells = take (snd p + 4 * i) cells @ int_cells (f i)"
    "drop (snd p + 4 * (Suc i + n)) ?cells = drop (snd p + 4 * (Suc i + n)) cells"
    using Suc.prems(2) by (simp_all add: ac_simps)
  moreover have "[i..<i + Suc n] = i # [Suc i..<Suc i + n]" by (simp add: upt_conv_Cons)
  moreover have "h_for (Suc i) n (\<lambda>i. h_set_int p i (f i)) ?s = (Good (),
      put_block p (Some (take (snd p + 4 * Suc i) ?cells @ concat (map (\<lambda>i. int_cells (f i)) [Suc i..<Suc i + n])
        @ drop (snd p + 4 * (Suc i + n)) ?cells)) ?s)"
    by (rule Suc.IH) (use calculation(2) Suc.prems(2) in simp_all)
  ultimately show ?case
    by (simp only: h_for.simps h_then_def prod.case hresult.case put_put list.map concat.simps append_assoc add_Suc_right add_Suc)
qed

lemma small_decimals:
  "dec_int 0 = ''0''" "dec_int 1 = ''1''" "dec_int 2 = ''2''" "dec_int 3 = ''3''" "dec_int 4 = ''4''" "dec_int 5 = ''5''"
  by (simp_all add: dec_int_def dec_nat.simps digit_char_def char_of_def bit_Suc_0_iff)

text \<open>Which of the allocations fails.\<close>

definition failing :: "nat \<Rightarrow> bool list \<Rightarrow> bool" where
  "failing k faults \<longleftrightarrow> k < length faults \<and> faults ! k"

lemma failing_simps [simp]: "\<not> failing k []" "failing 0 (b # fs) = b" "failing (Suc k) (b # fs) = failing k fs"
  by (simp_all add: failing_def)

lemma allocate_fresh:
  "h_allocate cells s =
    (if failing 0 (hp_faults s) then (Good None, s\<lparr>hp_faults := tl (hp_faults s)\<rparr>)
     else (Good (Some (length (hp_blocks s), 0)), s\<lparr>hp_blocks := hp_blocks s @ [Some cells], hp_faults := tl (hp_faults s)\<rparr>))"
proof (cases "hp_faults s")
  case (Cons b fs)
  then show ?thesis by (cases b) (simp_all add: h_allocate_def)
qed (simp add: h_allocate_def)

lemma zero_cells: "replicate 20 (Some NUL) = concat (map int_cells [0, 0, 0, 0, 0])"
proof -
  have "int_cells 0 = [Some NUL, Some NUL, Some NUL, Some NUL]" by (simp add: int_cells_def Let_def char_of_def)
  then show ?thesis by (simp add: numeral_eq_Suc)
qed

lemmas memory_run = heap_run allocate_fresh fresh_heap_def h_free_def block_at_def put_block_def all_freed_def h_calloc_def h_malloc_def

text \<open>How a program ends: its result, its output, its messages, and every block freed.\<close>

definition ends :: "int hprog \<Rightarrow> bool list \<Rightarrow> int hresult \<Rightarrow> string \<Rightarrow> err_item list \<Rightarrow> bool" where
  "ends program faults r out messages \<longleftrightarrow>
     (case program (fresh_heap faults) of (r', s) \<Rightarrow>
        r' = r \<and> hp_out s = out \<and> hp_err s = messages \<and> all_freed s)"

abbreviation (input) allocation_failed :: string where
  "allocation_failed \<equiv> ''Memory allocation failed'' @ [NL]"

lemma calloc_ends:
  "ends calloc_main faults (Good (if failing 0 faults then 1 else 0)) (if failing 0 faults then [] else ''0 0 0 0 0 '' @ [NL])
     (if failing 0 faults then [Perror allocation_failed] else [])"
proof -
  let ?s = "\<lparr>hp_blocks = [Some (concat (map int_cells [0, 0, 0, 0, 0]))], hp_faults = tl faults, hp_out = [], hp_err = []\<rparr>"
  have "int_array (0, 0) [0, 0, 0, 0, 0] ?s" by (simp add: int_array_def block_at_def)
  from print_array_prints [OF this, of 5] have
    "print_array (0, 0) 5 ?s = (Good (), ?s\<lparr>hp_out := ''0 0 0 0 0 '' @ [NL]\<rparr>)"
    by (simp add: is_int_def small_decimals)
  then show ?thesis
    by (cases "failing 0 faults") (simp_all add: ends_def calloc_main_def memory_run zero_cells del: concat.simps list.map)
qed

lemma print_integers:
  assumes "block_at (b, 0) s = Some (concat (map int_cells vs))" "list_all is_int vs" "n = length vs"
  shows "print_array (b, 0) n s = (Good (), s\<lparr>hp_out := hp_out s @ concat (map (\<lambda>v. dec_int v @ '' '') vs) @ [NL]\<rparr>)"
  using assms by (intro print_array_prints) (simp_all add: int_array_def list_all_iff)

lemma source_data_simps [simp]: "length source_data = 16" "None \<notin> set source_data"
  by (simp_all add: source_data_def)

lemma print_source:
  "block_at (b, 0) s = Some source_data \<Longrightarrow> print_array (b, 0) 4 s = (Good (), s\<lparr>hp_out := hp_out s @ ''1 2 3 4 '' @ [NL]\<rparr>)"
  using print_integers [of b s "[1, 2, 3, 4]" 4] by (simp add: source_data_def is_int_def small_decimals)

lemmas copy_run = memory_run h_local_def h_memcpy_def h_memmove_def h_memcmp_equal_def h_load_def h_store_def h_values_def
  print_copied_def print_comparison_def print_source

lemma copy_ends:
  "ends memcpy_main faults (Good 0) (''Copied elements: 1 2 3 4 '' @ [NL]) []"
  "ends memmove_main faults (Good 0) (''Copied elements: 1 2 3 4 '' @ [NL]) []"
  by (simp_all add: ends_def memcpy_main_def memmove_main_def copy_run)

lemma memcmp_ends:
  "ends memcmp_main faults (Good 0) (''data1 and data2 are identical.'' @ [NL] @ ''data1 and data3 are identical.'' @ [NL]) []"
  by (simp add: ends_def memcmp_main_def copy_run)

text \<open>Integers that have not been written cannot be used.\<close>

lemma print_indeterminate:
  assumes "block_at (b, 0) s = Some (replicate 20 None)"
  shows "fst (print_array (b, 0) 5 s) = Bad"
proof -
  have "h_get_int (b, 0) 0 s = (Bad, s)"
    using assms by (simp add: h_get_int_def plus_addr_def h_load_def h_values_def h_then_def h_bad_def)
  then show ?thesis by (simp add: print_array_def h_then_def numeral_eq_Suc)
qed

lemma then_Bad: "fst (c s) = Bad \<Longrightarrow> fst (h_then c k s) = Bad"
  by (cases "c s") (simp add: h_then_def)

lemma indeterminate_ends:
  "fst (malloc_main (fresh_heap faults)) = (if failing 0 faults then Good 1 else Bad)"
  "fst (memset_main random (fresh_heap faults)) = (if failing 0 faults then Good 1 else Bad)"
proof -
  let ?s = "\<lambda>t. \<lparr>hp_blocks = [Some (replicate 20 None)], hp_faults = tl faults, hp_out = t, hp_err = []\<rparr>"
  have bad: "fst (print_array (0, 0) 5 (?s t)) = Bad" for t by (rule print_indeterminate) (simp add: block_at_def)
  show "fst (malloc_main (fresh_heap faults)) = (if failing 0 faults then Good 1 else Bad)"
    using then_Bad [where c = "print_array (0, 0) 5", OF bad [of "[]"]]
    by (cases "failing 0 faults") (simp_all add: malloc_main_def NUM_ELEMENTS_def h_malloc_def allocate_fresh fresh_heap_def
        h_fail_def h_perror_def h_ret_def h_then_def [where c = "h_allocate c" for c] h_then_def [where c = "h_perror c" for c])
  show "fst (memset_main random (fresh_heap faults)) = (if failing 0 faults then Good 1 else Bad)"
    using then_Bad [where c = "print_array (0, 0) 5", OF bad [of "''Array after malloc:'' @ [NL]"]]
    by (cases "failing 0 faults") (simp_all add: memset_main_def h_malloc_def allocate_fresh fresh_heap_def
        h_fail_def h_perror_def h_printf_def h_ret_def h_then_def [where c = "h_allocate c" for c] h_then_def [where c = "h_perror c" for c]
        h_then_def [where c = "h_printf c" for c])
qed

section \<open>realloc\<close>

abbreviation (input) five :: "char option list" where
  "five \<equiv> concat (map int_cells [1, 2, 3, 4, 5])"

lemma initialized: "concat (map (\<lambda>i. int_cells (int i + 1)) [0..<5]) = five"
  by (simp add: upt_rec numeral_eq_Suc)

lemma initialize_five:
  assumes "block_at p s = Some cells" "snd p + 20 \<le> length cells"
  shows "initialize_array p 5 s = (Good (), put_block p (Some (take (snd p) cells @ five @ drop (snd p + 20) cells)) s)"
  using set_from [of p s cells 0 5 "\<lambda>i. int i + 1"] assms unfolding initialize_array_def by (simp add: initialized del: concat.simps list.map)

definition realloc_first :: string where
  "realloc_first = ''Initial elements of the array: 1 2 3 4 5 '' @ [NL]"

definition realloc_second :: string where
  "realloc_second = ''Resized elements of the array: 1 2 3 4 5 1 2 3 4 5 '' @ [NL]"

lemma print_first:
  assumes "block_at (b, 0) s = Some five"
  shows "print_array_after ''Initial elements of the array: '' (b, 0) 5 s = (Good (), s\<lparr>hp_out := hp_out s @ realloc_first\<rparr>)"
  using print_integers [of b "s\<lparr>hp_out := hp_out s @ ''Initial elements of the array: ''\<rparr>" "[1, 2, 3, 4, 5]" 5] assms
  by (simp add: print_array_after_def h_then_def h_printf_def realloc_first_def is_int_def small_decimals)

lemma print_second:
  assumes "block_at (b, 0) s = Some (five @ five)"
  shows "print_array_after ''Resized elements of the array: '' (b, 0) 10 s = (Good (), s\<lparr>hp_out := hp_out s @ realloc_second\<rparr>)"
  using print_integers [of b "s\<lparr>hp_out := hp_out s @ ''Resized elements of the array: ''\<rparr>" "[1, 2, 3, 4, 5, 1, 2, 3, 4, 5]" 10] assms
  by (simp add: print_array_after_def h_then_def h_printf_def realloc_second_def is_int_def small_decimals)

lemma realloc_ends:
  "ends realloc_main faults
     (if failing 0 faults then Good 1 else if failing 1 faults then Quits 1 else Good 0)
     (if failing 0 faults then [] else if failing 1 faults then realloc_first else realloc_first @ realloc_second)
     (if failing 0 faults then [Perror allocation_failed]
      else if failing 1 faults then [Perror (''Memory reallocation failed'' @ [NL])] else [])"
proof (cases "failing 0 faults")
  case True
  then show ?thesis by (simp add: ends_def realloc_main_def memory_run NUM_ELEMENTS_def)
next
  case False
  let ?s = "\<lambda>bs t. \<lparr>hp_blocks = bs, hp_faults = tl faults, hp_out = t, hp_err = []\<rparr>"
  have one: "failing 1 faults = failing 0 (tl faults)" by (cases faults) (simp_all add: failing_def)
  have five: "length five = 20" by simp
  have malloc: "h_malloc 20 (fresh_heap faults) = (Good (Some (0, 0)), ?s [Some (replicate 20 None)] [])"
    using False by (simp add: memory_run)
  have "initialize_array (0, 0) 5 (?s [Some (replicate 20 None)] []) = (Good (), ?s [Some five] [])"
    using initialize_five [of "(0, 0)" "?s [Some (replicate 20 None)] []" "replicate 20 None"]
    by (simp add: block_at_def put_block_def del: concat.simps list.map)
  moreover have "print_array_after ''Initial elements of the array: '' (0, 0) 5 (?s [Some five] []) = (Good (), ?s [Some five] realloc_first)"
    using print_first [of 0 "?s [Some five] []"] by (simp add: block_at_def del: concat.simps list.map)
  ultimately have start: "realloc_main (fresh_heap faults) =
      h_then (resize_array (0, 0) 10) (\<lambda>dynamic_array.
         h_then (initialize_array (plus_addr dynamic_array 20) 5) (\<lambda>_.
         h_then (print_array_after ''Resized elements of the array: '' dynamic_array 10) (\<lambda>_.
         h_then (h_free (Some dynamic_array)) (\<lambda>_. h_ret EXIT_SUCCESS)))) (?s [Some five] realloc_first)"
    using malloc by (simp add: realloc_main_def NUM_ELEMENTS_def h_then_def del: concat.simps list.map)
  show ?thesis
  proof (cases "failing 0 (tl faults)")
    case True
    with False show ?thesis
      unfolding ends_def start one
      by (simp add: resize_array_def h_realloc_def memory_run five del: concat.simps list.map)
  next
    case f1: False
    let ?t = "\<lambda>bs t. \<lparr>hp_blocks = bs, hp_faults = tl (tl faults), hp_out = t, hp_err = []\<rparr>"
    have resize: "resize_array (0, 0) 10 (?s [Some five] realloc_first) =
        (Good (1, 0), ?t [None, Some (five @ replicate 20 None)] realloc_first)"
      using f1 by (simp add: resize_array_def h_realloc_def memory_run five del: concat.simps list.map)
    have "initialize_array (1, 20) 5 (?t [None, Some (five @ replicate 20 None)] realloc_first)
        = (Good (), ?t [None, Some (five @ five)] realloc_first)"
      using initialize_five [of "(1, 20)" "?t [None, Some (five @ replicate 20 None)] realloc_first" "five @ replicate 20 None"] five
      by (simp add: block_at_def put_block_def del: concat.simps list.map)
    moreover have "print_array_after ''Resized elements of the array: '' (1, 0) 10 (?t [None, Some (five @ five)] realloc_first)
        = (Good (), ?t [None, Some (five @ five)] (realloc_first @ realloc_second))"
      using print_second [of 1 "?t [None, Some (five @ five)] realloc_first"] by (simp add: block_at_def del: concat.simps list.map)
    ultimately show ?thesis
      using False f1 resize unfolding ends_def start one
      by (simp add: h_then_def plus_addr_def h_free_def block_at_def put_block_def h_ret_def all_freed_def del: concat.simps list.map)
  qed
qed

text \<open>C35. The programs under memory: whichever allocations fail, calloc, realloc, memcpy, memmove and memcmp print what they should
  or a message for the allocation that failed, stay inside their blocks and free every one of them; malloc-free and memset, which
  print an array before anything has been stored in it, use indeterminate values as soon as their allocation succeeds.\<close>

theorem memory_programs_end:
  "ends calloc_main faults (Good (if failing 0 faults then 1 else 0)) (if failing 0 faults then [] else ''0 0 0 0 0 '' @ [NL])
     (if failing 0 faults then [Perror allocation_failed] else [])
   \<and> ends realloc_main faults
     (if failing 0 faults then Good 1 else if failing 1 faults then Quits 1 else Good 0)
     (if failing 0 faults then [] else if failing 1 faults then realloc_first else realloc_first @ realloc_second)
     (if failing 0 faults then [Perror allocation_failed]
      else if failing 1 faults then [Perror (''Memory reallocation failed'' @ [NL])] else [])
   \<and> ends memcpy_main faults (Good 0) (''Copied elements: 1 2 3 4 '' @ [NL]) []
   \<and> ends memmove_main faults (Good 0) (''Copied elements: 1 2 3 4 '' @ [NL]) []
   \<and> ends memcmp_main faults (Good 0) (''data1 and data2 are identical.'' @ [NL] @ ''data1 and data3 are identical.'' @ [NL]) []
   \<and> fst (malloc_main (fresh_heap faults)) = (if failing 0 faults then Good 1 else Bad)
   \<and> fst (memset_main random (fresh_heap faults)) = (if failing 0 faults then Good 1 else Bad)"
  by (intro conjI calloc_ends realloc_ends copy_ends memcmp_ends indeterminate_ends)

end
