(* ===== verification/Text_Programs.thy ===== *)
theory Text_Programs
  imports Memory_Programs C_Text Cli_Strings Cli_Files
begin

text \<open>
  The programs under \<^verbatim>\<open>src/strings\<close>, and \<^verbatim>\<open>strchr\<close>, \<^verbatim>\<open>strstr\<close>, \<^verbatim>\<open>strtok_r\<close>, \<^verbatim>\<open>strncat\<close>, \<^verbatim>\<open>regcomp\<close>, \<^verbatim>\<open>regexec\<close>,
  \<^verbatim>\<open>wordexp\<close>, \<^verbatim>\<open>basename\<close>, \<^verbatim>\<open>dirname\<close>, \<^verbatim>\<open>fnmatch\<close> and \<^verbatim>\<open>glob\<close>, from their command line to their output, over the heap of
  \<open>C_Heap\<close>. Regular expressions, expansions and patterns are those of library parameters, and so are the numbers that
  \<^verbatim>\<open>strcmp\<close> and \<^verbatim>\<open>strncmp\<close> return for strings that differ, of which the standard gives the sign.
\<close>

section \<open>The functions of \<^verbatim>\<open>string.h\<close>\<close>

text \<open>The order of strings by unsigned characters.\<close>

fun compare_chars :: "string \<Rightarrow> string \<Rightarrow> int" where
  "compare_chars [] [] = 0"
| "compare_chars [] (d # t) = - 1"
| "compare_chars (c # s) [] = 1"
| "compare_chars (c # s) (d # t) =
     (if c = d then compare_chars s t else if (of_char c :: nat) < of_char d then - 1 else 1)"

definition strcmp_contract :: "(string \<Rightarrow> string \<Rightarrow> int) \<Rightarrow> bool" where
  "strcmp_contract cmp \<longleftrightarrow> (\<forall>a b. sgn (cmp a b) = compare_chars a b)"

definition strncmp_contract :: "(string \<Rightarrow> string \<Rightarrow> nat \<Rightarrow> int) \<Rightarrow> bool" where
  "strncmp_contract ncmp \<longleftrightarrow> (\<forall>a b n. sgn (ncmp a b n) = compare_chars (take n a) (take n b))"

text \<open>\<^verbatim>\<open>strchr\<close> and \<^verbatim>\<open>strstr\<close> as the difference of their result and the string.\<close>

fun strchr :: "string \<Rightarrow> char \<Rightarrow> nat option" where
  "strchr [] c = (if c = NUL then Some 0 else None)"
| "strchr (d # s) c = (if d = c then Some 0 else map_option Suc (strchr s c))"

fun strstr :: "string \<Rightarrow> string \<Rightarrow> nat option" where
  "strstr [] needle = (if needle = [] then Some 0 else None)"
| "strstr (d # s) needle = (if take (length needle) (d # s) = needle then Some 0 else map_option Suc (strstr s needle))"

text \<open>Copies into a block.\<close>

definition h_strcpy :: "addr \<Rightarrow> string \<Rightarrow> unit hprog" where
  "h_strcpy p src = h_store p (map Some (src @ [NUL]))"

definition h_strncpy :: "addr \<Rightarrow> string \<Rightarrow> nat \<Rightarrow> unit hprog" where
  "h_strncpy p src n = h_store p (map Some (take n src @ replicate (n - length src) NUL))"

definition h_strncat :: "addr \<Rightarrow> string \<Rightarrow> nat \<Rightarrow> unit hprog" where
  "h_strncat p src n = h_then (h_string p) (\<lambda>t. h_store (plus_addr p (length t)) (map Some (take n src @ [NUL])))"

definition h_strdup :: "string \<Rightarrow> addr option hprog" where
  "h_strdup src =
     h_then (h_malloc (length src + 1)) (\<lambda>q. case q of
       None \<Rightarrow> h_ret None
     | Some p \<Rightarrow> h_then (h_strcpy p src) (\<lambda>_. h_ret (Some p)))"

text \<open>\<^verbatim>\<open>strtok_r\<close> from an address: the token, whose end it overwrites with a NUL, and the address from which to go on.\<close>

definition h_strtok_r :: "string \<Rightarrow> addr \<Rightarrow> (addr option \<times> addr) hprog" where
  "h_strtok_r delimiter p =
     h_then (h_string p) (\<lambda>t.
       let before = length (takeWhile (\<lambda>c. c \<in> set delimiter) t);
           rest = drop before t;
           token = plus_addr p before;
           after = plus_addr token (length (takeWhile (\<lambda>c. c \<notin> set delimiter) rest))
       in if rest = [] then h_ret (None, token)
          else if takeWhile (\<lambda>c. c \<notin> set delimiter) rest = rest then h_ret (Some token, after)
          else h_then (h_store after [Some NUL]) (\<lambda>_. h_ret (Some token, plus_addr after 1)))"

section \<open>The programs\<close>

definition quoted :: "string \<Rightarrow> string" where
  "quoted t = [CHR 0x22] @ t @ [CHR 0x22]"

definition single_quoted :: "string \<Rightarrow> string" where
  "single_quoted t = [CHR 0x27] @ t @ [CHR 0x27]"

definition strcmp_main :: "(string \<Rightarrow> string \<Rightarrow> int) \<Rightarrow> string list \<Rightarrow> int hprog" where
  "strcmp_main cmp argv =
     h_then (h_cli (strcmp_arguments argv)) (\<lambda>(s1, s2).
       let string1 = the s1; string2 = the s2; r = cmp string1 string2 in
       h_then
         (if r = 0 then h_printf (quoted string1 @ '' and '' @ quoted string2 @ '' are identical.'' @ [NL])
          else h_printf (quoted string1 @ '' and '' @ quoted string2 @ '' are different ('' @ dec_int r @ '').'' @ [NL]))
         (\<lambda>_. h_ret EXIT_SUCCESS))"

definition strncmp_main :: "(string \<Rightarrow> string \<Rightarrow> nat \<Rightarrow> int) \<Rightarrow> string list \<Rightarrow> int hprog" where
  "strncmp_main ncmp argv =
     h_then (h_cli (strncmp_arguments argv)) (\<lambda>(_, s1, s2, n).
       let string1 = the s1; string2 = the s2; r = ncmp string1 string2 (unat n) in
       h_then
         (if r = 0 then h_printf (quoted string1 @ '' and '' @ quoted string2 @ '' are identical to '' @ dec_nat (unat n) @ ''.'' @ [NL])
          else h_printf (quoted string1 @ '' and '' @ quoted string2 @ '' are different to '' @ dec_nat (unat n)
            @ '' ('' @ dec_int r @ '').'' @ [NL]))
         (\<lambda>_. h_ret EXIT_SUCCESS))"

definition strlen_main :: "string list \<Rightarrow> int hprog" where
  "strlen_main argv =
     h_then (h_cli (strlen_arguments argv)) (\<lambda>s1.
       h_then (h_printf (''Length of '' @ quoted (the s1) @ '' is '' @ dec_nat (length (the s1)) @ [NL])) (\<lambda>_. h_ret EXIT_SUCCESS))"

definition strdup_main :: "string list \<Rightarrow> int hprog" where
  "strdup_main argv =
     h_then (h_cli (strdup_arguments argv)) (\<lambda>s1.
     h_then (h_strdup (the s1)) (\<lambda>q. case q of
       None \<Rightarrow> h_fail (''Memory allocation failed for duplicate'' @ [NL])
     | Some duplicate \<Rightarrow>
         h_then (h_string duplicate) (\<lambda>t.
         h_then (h_printf (''Duplicated string: '' @ quoted t @ [NL])) (\<lambda>_.
         h_then (h_free q) (\<lambda>_. h_ret EXIT_SUCCESS)))))"

definition strncpy_main :: "string list \<Rightarrow> int hprog" where
  "strncpy_main argv =
     h_then (h_cli (strncpy_arguments argv)) (\<lambda>(_, s1, n).
     h_then (h_malloc (unat (n + 1))) (\<lambda>q. case q of
       None \<Rightarrow> h_fail (''Memory allocation failed'' @ [NL])
     | Some destination \<Rightarrow>
         h_then (h_strncpy destination (the s1) (unat n)) (\<lambda>_.
         h_then (h_printf (''Source string: '' @ the s1 @ [NL])) (\<lambda>_.
         h_then (h_string destination) (\<lambda>t.
         h_then (h_printf (''Copied string: '' @ t @ [NL])) (\<lambda>_.
         h_then (h_free q) (\<lambda>_. h_ret EXIT_SUCCESS)))))))"

definition strchr_search_for :: "char \<Rightarrow> string \<Rightarrow> unit hprog" where
  "strchr_search_for needle haystack =
     (case strchr haystack needle of
        Some k \<Rightarrow> h_printf (''Found character '' @ single_quoted [needle] @ '' at position '' @ dec_nat k @ [NL])
      | None \<Rightarrow> h_printf (''Character '' @ single_quoted [needle] @ '' not found.'' @ [NL]))"

definition strchr_main :: "string list \<Rightarrow> int hprog" where
  "strchr_main argv =
     h_then (h_cli (strchr_arguments argv)) (\<lambda>(_, haystack, needle).
     h_then (strchr_search_for needle (the haystack)) (\<lambda>_. h_ret EXIT_SUCCESS))"

definition strstr_search_for :: "string \<Rightarrow> string \<Rightarrow> unit hprog" where
  "strstr_search_for needle haystack =
     (case strstr haystack needle of
        Some k \<Rightarrow> h_printf (''Found substring '' @ single_quoted needle @ '' at position '' @ dec_nat k @ [NL])
      | None \<Rightarrow> h_printf (''Substring '' @ single_quoted needle @ '' not found.'' @ [NL]))"

definition strstr_main :: "string list \<Rightarrow> int hprog" where
  "strstr_main argv =
     h_then (h_cli (strstr_arguments argv)) (\<lambda>(needle, haystack).
     h_then (strstr_search_for (the needle) (the haystack)) (\<lambda>_. h_ret EXIT_SUCCESS))"

definition strncat_main :: "int hprog" where
  "strncat_main =
     h_local (replicate 100 None) (\<lambda>str.
       h_then (h_strcpy str ''Hello, '') (\<lambda>_.
       h_then (h_strncat str ''World!'' 3) (\<lambda>_.
       h_then (h_string str) (\<lambda>t.
       h_then (h_printf (''Concatenated string: '' @ quoted t @ [NL])) (\<lambda>_. h_ret EXIT_SUCCESS)))))"

text \<open>The loop takes one round more than the tokens it prints; the first argument bounds the rounds, and the loop that
  uses them up is \<open>Bad\<close>.\<close>

fun print_tokens :: "nat \<Rightarrow> string \<Rightarrow> addr option \<times> addr \<Rightarrow> unit hprog" where
  "print_tokens 0 delimiter q = h_bad"
| "print_tokens (Suc n) delimiter q =
     (case fst q of
        None \<Rightarrow> h_ret ()
      | Some token \<Rightarrow>
          h_then (h_string token) (\<lambda>t.
          h_then (h_printf (''Token: '' @ t @ [NL])) (\<lambda>_.
          h_then (h_strtok_r delimiter (snd q)) (print_tokens n delimiter))))"

definition strtok_r_main :: "string list \<Rightarrow> int hprog" where
  "strtok_r_main argv =
     h_then (h_cli (strtok_r_arguments argv)) (\<lambda>s1.
     h_then (h_strdup (the s1)) (\<lambda>q. case q of
       None \<Rightarrow> h_then (h_printf (''Memory allocation failed'' @ [NL])) (\<lambda>_. h_ret EXIT_FAILURE)
     | Some token_copy \<Rightarrow>
         h_then (h_strtok_r '' '' token_copy) (\<lambda>token.
         h_then (h_printf (''Tokenized words:'' @ [NL])) (\<lambda>_.
         h_then (print_tokens (length (the s1) + 2) '' '' token) (\<lambda>_.
         h_then (h_free q) (\<lambda>_. h_ret EXIT_SUCCESS))))))"

text \<open>\<^verbatim>\<open>pattern\<close> points into \<^verbatim>\<open>argv\<close>, which no allocation has returned: \<^verbatim>\<open>free\<close> of it is undefined.\<close>

definition free_argument :: "unit hprog" where
  "free_argument = h_bad"

definition regcomp_main :: "(string \<Rightarrow> int) \<Rightarrow> (int \<Rightarrow> string) \<Rightarrow> string list \<Rightarrow> int hprog" where
  "regcomp_main regcomp regerror argv =
     h_then (h_cli (regcomp_arguments argv)) (\<lambda>pattern.
       let r = regcomp (the pattern) in
       if r \<noteq> 0
       then h_then (h_printf (''Error compiling regex: '' @ take 99 (regerror r) @ [NL])) (\<lambda>_.
            h_then free_argument (\<lambda>_. h_ret EXIT_FAILURE))
       else h_then (h_printf (''Regular expression compiled successfully'' @ [NL])) (\<lambda>_. h_ret EXIT_SUCCESS))"

text \<open>\<^verbatim>\<open>regexec\<close> and \<^verbatim>\<open>regfree\<close> of a \<^verbatim>\<open>regex_t\<close> that \<^verbatim>\<open>regcomp\<close> has not filled are undefined.\<close>

definition regexec_line :: "(int \<Rightarrow> string) \<Rightarrow> string \<Rightarrow> string \<Rightarrow> int \<Rightarrow> string" where
  "regexec_line regerror pattern subject r =
     (if r = 0 then ''The string '' @ quoted subject @ '' matches the regex: '' @ quoted pattern @ [NL]
      else if r = 1 then ''The string '' @ quoted subject @ '' does not match the regex: '' @ quoted pattern @ [NL]
      else ''Error executing regex: '' @ take 99 (regerror r) @ '' on the string '' @ quoted subject @ [NL])"

definition regexec_main ::
  "(string \<Rightarrow> int) \<Rightarrow> (string \<Rightarrow> string \<Rightarrow> int) \<Rightarrow> (int \<Rightarrow> string) \<Rightarrow> string list \<Rightarrow> int hprog"
where
  "regexec_main regcomp regexec regerror argv =
     h_then (h_cli (regexec_arguments argv)) (\<lambda>pattern.
       let r = regcomp (the pattern); optind = nat (snd (getopt_events ''h'' 1 (tl argv))) in
       h_then (if r \<noteq> 0 then h_printf (''Error compiling regex: '' @ take 99 (regerror r) @ [NL]) else h_ret ()) (\<lambda>_.
       h_then (h_printf (''Regular expression compiled successfully'' @ [NL])) (\<lambda>_.
       if r \<noteq> 0 then h_bad
       else h_then (h_printf (concat (map (\<lambda>a. regexec_line regerror (the pattern) a (regexec (the pattern) a)) (drop (optind + 1) argv))))
         (\<lambda>_. h_ret EXIT_SUCCESS))))"

text \<open>\<^verbatim>\<open>wordexp\<close> gives an error number or the words.\<close>

definition wordexp_main :: "(string \<Rightarrow> int + string list) \<Rightarrow> string list \<Rightarrow> int hprog" where
  "wordexp_main wordexp argv =
     h_then (h_cli (wordexp_arguments argv)) (\<lambda>s1. case wordexp (the s1) of
       Inl r \<Rightarrow> h_then (h_printf (''Error expanding command: '' @ dec_int r @ [NL])) (\<lambda>_. h_ret EXIT_FAILURE)
     | Inr ws \<Rightarrow>
         h_then (h_printf (''Expanded words:'' @ [NL]
           @ concat (map (\<lambda>(i, w). ''Word '' @ dec_nat i @ '': '' @ w @ [NL]) (List.enumerate 0 ws)))) (\<lambda>_. h_ret EXIT_SUCCESS))"

text \<open>\<^verbatim>\<open>basename\<close> and \<^verbatim>\<open>dirname\<close> as POSIX has them; they may change their argument, into what \<open>leaves\<close> gives.\<close>

abbreviation (input) SLASH :: char where "SLASH \<equiv> CHR ''/''"

definition strip_slashes :: "string \<Rightarrow> string" where
  "strip_slashes path = rev (dropWhile (\<lambda>c. c = SLASH) (rev path))"

definition base_name :: "string \<Rightarrow> string" where
  "base_name path =
     (if path = [] then ''.'' else if strip_slashes path = [] then ''/''
      else rev (takeWhile (\<lambda>c. c \<noteq> SLASH) (rev (strip_slashes path))))"

definition dir_name :: "string \<Rightarrow> string" where
  "dir_name path =
     (if path = [] then ''.'' else if strip_slashes path = [] then ''/''
      else let d = rev (dropWhile (\<lambda>c. c \<noteq> SLASH) (rev (strip_slashes path)))
           in if d = [] then ''.'' else if strip_slashes d = [] then ''/'' else strip_slashes d)"

definition basename_main :: "(string \<Rightarrow> string) \<Rightarrow> string list \<Rightarrow> int hprog" where
  "basename_main leaves argv =
     h_then (h_cli (basename_arguments argv)) (\<lambda>path.
     h_then (h_printf (''Original Path: '' @ leaves (the path) @ [NL])) (\<lambda>_.
     h_then (h_printf (''File Name: '' @ base_name (the path) @ [NL])) (\<lambda>_. h_ret EXIT_SUCCESS)))"

definition dirname_main :: "(string \<Rightarrow> string) \<Rightarrow> string list \<Rightarrow> int hprog" where
  "dirname_main leaves argv =
     h_then (h_cli (dirname_arguments argv)) (\<lambda>path.
     h_then (h_printf (''Original Path: '' @ the path @ [NL])) (\<lambda>_.
     h_then (h_printf (''Original Path after dirname: '' @ leaves (the path) @ [NL])) (\<lambda>_.
     h_then (h_printf (''Directory Name: '' @ dir_name (the path) @ [NL])) (\<lambda>_. h_ret EXIT_SUCCESS))))"

definition fnmatch_main :: "(string \<Rightarrow> string \<Rightarrow> bool) \<Rightarrow> string list \<Rightarrow> int hprog" where
  "fnmatch_main matches argv =
     h_then (h_cli (fnmatch_arguments argv)) (\<lambda>pattern.
       let optind = nat (snd (getopt_events ''h'' 1 (tl argv))) in
       h_then (h_printf (concat (map (\<lambda>path. ''Filename '' @ single_quoted path
           @ (if matches (the pattern) path then '' matches the pattern.'' else '' doesn'' @ [CHR 0x27] @ ''t match the pattern.'') @ [NL])
         (drop (optind + 1) argv)))) (\<lambda>_. h_ret EXIT_SUCCESS))"

abbreviation (input) GLOB_NOSPACE :: int where "GLOB_NOSPACE \<equiv> 1"
abbreviation (input) GLOB_NOMATCH :: int where "GLOB_NOMATCH \<equiv> 3"

text \<open>\<^verbatim>\<open>glob\<close> gives a status, the paths, and the calls of the error handler with their paths and error numbers.\<close>

definition custom_error_handler :: "string \<Rightarrow> int \<Rightarrow> err_item" where
  "custom_error_handler epath err =
     Text (''Custom Error: Failed to process path '' @ single_quoted epath @ '' with error code '' @ dec_int err @ [NL])"

definition h_eprint :: "err_item list \<Rightarrow> unit hprog" where
  "h_eprint e s = (Good (), s\<lparr>hp_err := hp_err s @ e\<rparr>)"

definition glob_main :: "(string \<Rightarrow> int \<times> string list \<times> (string \<times> int) list) \<Rightarrow> string list \<Rightarrow> int hprog" where
  "glob_main glob argv =
     h_then (h_cli (glob_arguments argv)) (\<lambda>pattern. case glob (the pattern) of (glob_status, pathv, errors) \<Rightarrow>
       h_then (h_eprint (map (\<lambda>(epath, err). custom_error_handler epath err) errors)) (\<lambda>_.
       if glob_status \<noteq> 0
       then h_then (h_eprint [Text ((if glob_status = GLOB_NOMATCH then ''No matching files found.''
              else if glob_status = GLOB_NOSPACE then ''Memory allocation error.'' else ''Error matching files.'') @ [NL])])
            (\<lambda>_. h_ret EXIT_FAILURE)
       else h_then (h_printf (concat (map (\<lambda>path. ''Matched file: '' @ path @ [NL]) pathv))) (\<lambda>_. h_ret EXIT_SUCCESS)))"

section \<open>Comparing and searching\<close>

lemma compare_chars_zero: "compare_chars a b = 0 \<longleftrightarrow> a = b"
  by (induction a b rule: compare_chars.induct) auto

lemma compare_chars_swap: "compare_chars b a = - compare_chars a b"
  by (induction a b rule: compare_chars.induct) (auto simp: not_less_iff_gr_or_eq)

lemma strcmp_zero: "strcmp_contract cmp \<Longrightarrow> cmp a b = 0 \<longleftrightarrow> a = b"
  using compare_chars_zero [of a b] unfolding strcmp_contract_def by (metis sgn_0_0)

lemma strncmp_zero: "strncmp_contract ncmp \<Longrightarrow> ncmp a b n = 0 \<longleftrightarrow> take n a = take n b"
  using compare_chars_zero [of "take n a" "take n b"] unfolding strncmp_contract_def by (metis sgn_0_0)

lemma strchr_Some:
  "c \<noteq> NUL \<Longrightarrow> strchr s c = Some k \<longleftrightarrow> k < length s \<and> s ! k = c \<and> (\<forall>j < k. s ! j \<noteq> c)"
proof (induction s arbitrary: k)
  case (Cons d s)
  then show ?case by (cases k) (auto simp: All_less_Suc2)
qed simp

lemma strchr_None: "c \<noteq> NUL \<Longrightarrow> strchr s c = None \<longleftrightarrow> c \<notin> set s"
  by (induction s) auto

lemma strstr_Some:
  "strstr s needle = Some k \<longleftrightarrow>
     k \<le> length s \<and> take (length needle) (drop k s) = needle \<and> (\<forall>j < k. take (length needle) (drop j s) \<noteq> needle)"
proof (induction s arbitrary: k)
  case (Cons d s)
  then show ?case by (cases k) (auto simp: All_less_Suc2)
qed auto

lemma strstr_None: "strstr s needle = None \<longleftrightarrow> (\<forall>j \<le> length s. take (length needle) (drop j s) \<noteq> needle)"
proof (induction s)
  case (Cons d s)
  have "(\<forall>j \<le> Suc (length s). P j) \<longleftrightarrow> P 0 \<and> (\<forall>j \<le> length s. P (Suc j))" for P
    by (metis Suc_le_mono le0 not0_implies_Suc)
  with Cons show ?case by simp
qed simp

lemma size_max: "\<not> SIZE_MAX < n" for n :: uint64
proof -
  have "SIZE_MAX = - 1" by (simp add: SIZE_MAX_def)
  with word_n1_ge [of n] show ?thesis by (simp only: not_less)
qed

text \<open>The command lines with operands only.\<close>

lemma text_arguments:
  "operand [c] \<Longrightarrow> strchr_arguments [name, [c], haystack] = Returns (Some [c], Some haystack, c)"
  "operand needle \<Longrightarrow> needle \<noteq> [] \<Longrightarrow> strstr_arguments [name, needle, haystack] = Returns (Some needle, Some haystack)"
  "operand text \<Longrightarrow> strtok_r_arguments [name, text] = Returns (Some text)"
  "operand text \<Longrightarrow> strdup_arguments [name, text] = Returns (Some text)"
  "operand text \<Longrightarrow> strlen_arguments [name, text] = Returns (Some text)"
  "operand s1 \<Longrightarrow> strcmp_arguments [name, s1, s2] = Returns (Some s1, Some s2)"
  by (simp_all add: strings_defs with_options_operands argv_at_def)

text \<open>strchr and strstr print the position of the first occurrence of the character or the text in the other operand, and that
  there is none only if there is none.\<close>

theorem search_programs_first:
  assumes "operand needle" "needle \<noteq> []" "strstr_main [name, needle, haystack] s = (r, s')"
    and "strchr_main [name, [c], haystack] s = (r2, s2)" "c \<noteq> NUL"
  shows "r = Good EXIT_SUCCESS \<and> r2 = Good EXIT_SUCCESS
    \<and> (if \<exists>k \<le> length haystack. take (length needle) (drop k haystack) = needle
       then \<exists>k \<le> length haystack. take (length needle) (drop k haystack) = needle
         \<and> (\<forall>j < k. take (length needle) (drop j haystack) \<noteq> needle)
         \<and> s' = s\<lparr>hp_out := hp_out s @ ''Found substring '' @ single_quoted needle @ '' at position '' @ dec_nat k @ [NL]\<rparr>
       else s' = s\<lparr>hp_out := hp_out s @ ''Substring '' @ single_quoted needle @ '' not found.'' @ [NL]\<rparr>)
    \<and> (if c \<in> set haystack
       then \<exists>k < length haystack. haystack ! k = c \<and> (\<forall>j < k. haystack ! j \<noteq> c)
         \<and> s2 = s\<lparr>hp_out := hp_out s @ ''Found character '' @ single_quoted [c] @ '' at position '' @ dec_nat k @ [NL]\<rparr>
       else s2 = s\<lparr>hp_out := hp_out s @ ''Character '' @ single_quoted [c] @ '' not found.'' @ [NL]\<rparr>)"
proof -
  have c: "operand [c]" by (simp add: operand_def)
  note run = heap_run h_cli_def strstr_main_def strchr_main_def strstr_search_for_def strchr_search_for_def
    text_arguments(1) [OF c] text_arguments(2) [OF assms(1,2)]
  have "r = Good EXIT_SUCCESS \<and> (if \<exists>k \<le> length haystack. take (length needle) (drop k haystack) = needle
       then \<exists>k \<le> length haystack. take (length needle) (drop k haystack) = needle
         \<and> (\<forall>j < k. take (length needle) (drop j haystack) \<noteq> needle)
         \<and> s' = s\<lparr>hp_out := hp_out s @ ''Found substring '' @ single_quoted needle @ '' at position '' @ dec_nat k @ [NL]\<rparr>
       else s' = s\<lparr>hp_out := hp_out s @ ''Substring '' @ single_quoted needle @ '' not found.'' @ [NL]\<rparr>)"
  proof (cases "strstr haystack needle")
    case None
    with strstr_None [of haystack needle] assms(3) show ?thesis by (auto simp: run)
  next
    case (Some k)
    with strstr_Some [of haystack needle k] assms(3) show ?thesis by (auto simp: run)
  qed
  moreover have "r2 = Good EXIT_SUCCESS \<and> (if c \<in> set haystack
       then \<exists>k < length haystack. haystack ! k = c \<and> (\<forall>j < k. haystack ! j \<noteq> c)
         \<and> s2 = s\<lparr>hp_out := hp_out s @ ''Found character '' @ single_quoted [c] @ '' at position '' @ dec_nat k @ [NL]\<rparr>
       else s2 = s\<lparr>hp_out := hp_out s @ ''Character '' @ single_quoted [c] @ '' not found.'' @ [NL]\<rparr>)"
  proof (cases "strchr haystack c")
    case None
    with strchr_None [OF assms(5), of haystack] assms(4) show ?thesis by (auto simp: run)
  next
    case (Some k)
    with strchr_Some [OF assms(5), of haystack k] assms(4) show ?thesis by (auto simp: run)
  qed
  ultimately show ?thesis by blast
qed

lemma search_programs_first_witness:
  "\<exists>r s' r2 s2. strstr_main [''p'', ''ana'', ''banana''] (fresh_heap []) = (r, s') \<and> strchr_main [''p'', ''n'', ''banana''] (fresh_heap []) = (r2, s2)
    \<and> r = Good EXIT_SUCCESS \<and> r2 = Good EXIT_SUCCESS"
proof -
  obtain r s' where first: "strstr_main [''p'', ''ana'', ''banana''] (fresh_heap []) = (r, s')" by (metis surj_pair)
  obtain r2 s2 where second: "strchr_main [''p'', ''n'', ''banana''] (fresh_heap []) = (r2, s2)" by (metis surj_pair)
  have "operand ''ana''" by (simp add: operand_def)
  from search_programs_first [OF this _ first second] first second show ?thesis by simp
qed

text \<open>strcmp and strncmp report that the operands are identical exactly if they, or their first n characters, are.\<close>

theorem compare_programs_identical:
  assumes "strcmp_contract cmp" "strncmp_contract ncmp" "operand a" "n < 2 ^ 64"
  shows "strcmp_main cmp [name, a, b] s = (Good EXIT_SUCCESS, s\<lparr>hp_out := hp_out s @ quoted a @ '' and '' @ quoted b
      @ (if a = b then '' are identical.'' else '' are different ('' @ dec_int (cmp a b) @ '').'') @ [NL]\<rparr>)"
    and "strncmp_main ncmp [name, ''-n'', dec_nat n, a, b] s = (Good EXIT_SUCCESS, s\<lparr>hp_out := hp_out s @ quoted a @ '' and '' @ quoted b
      @ (if take n a = take n b then '' are identical to '' @ dec_nat n @ ''.''
         else '' are different to '' @ dec_nat n @ '' ('' @ dec_int (ncmp a b n) @ '').'') @ [NL]\<rparr>)"
proof -
  show "strcmp_main cmp [name, a, b] s = (Good EXIT_SUCCESS, s\<lparr>hp_out := hp_out s @ quoted a @ '' and '' @ quoted b
      @ (if a = b then '' are identical.'' else '' are different ('' @ dec_int (cmp a b) @ '').'') @ [NL]\<rparr>)"
    using strcmp_zero [OF assms(1), of a b]
    by (simp add: strcmp_main_def h_cli_def text_arguments(6) [OF assms(3)] heap_run)
  have "strncmp_arguments [name, ''-n'', dec_nat n, a, b] = Returns (Some (dec_nat n), Some a, Some b, word_of_nat n)"
    using assms(3) strtoumax_dec_nat [OF assms(4)]
    by (simp add: strings_defs with_options_def option_case_def argv_at_def operand_def size_max)
  then show "strncmp_main ncmp [name, ''-n'', dec_nat n, a, b] s = (Good EXIT_SUCCESS, s\<lparr>hp_out := hp_out s @ quoted a @ '' and '' @ quoted b
      @ (if take n a = take n b then '' are identical to '' @ dec_nat n @ ''.''
         else '' are different to '' @ dec_nat n @ '' ('' @ dec_int (ncmp a b n) @ '').'') @ [NL]\<rparr>)"
    using strncmp_zero [OF assms(2), of a b n] unat_word_of_nat_u64 [OF assms(4)]
    by (simp add: strncmp_main_def h_cli_def heap_run)
qed

text \<open>A pattern that does not compile makes regcomp free its argument, and regexec go on with the pattern it has not got.\<close>

theorem regex_failure_undefined:
  assumes "regcomp pattern \<noteq> 0" "operand pattern"
  shows "fst (regcomp_main regcomp regerror [name, pattern] s) = Bad"
    "fst (regexec_main regcomp regexec regerror [name, pattern, subject] s) = Bad"
  using assms
  by (simp_all add: regcomp_main_def regexec_main_def h_cli_def strings_defs with_options_operands argv_at_def heap_run
      free_argument_def h_bad_def)

text \<open>A path without the slashes at its end is its directory, slashes, and the name of the file.\<close>

lemma strip_slashes_snoc: "strip_slashes (xs @ [x]) = (if x = SLASH then strip_slashes xs else xs @ [x])"
  by (simp add: strip_slashes_def)

theorem path_parts:
  assumes "strip_slashes path \<noteq> []"
  shows "\<exists>front. strip_slashes path = front @ base_name path \<and> base_name path \<noteq> [] \<and> SLASH \<notin> set (base_name path)
    \<and> (if front = [] then dir_name path = ''.''
        else last front = SLASH \<and> dir_name path = (if strip_slashes front = [] then ''/'' else strip_slashes front))"
proof -
  let ?q = "rev (strip_slashes path)"
  have path: "path \<noteq> []" using assms by (auto simp: strip_slashes_def)
  have q: "?q = dropWhile (\<lambda>c. c = SLASH) (rev path)" by (simp add: strip_slashes_def)
  have "dropWhile (\<lambda>c. c = SLASH) (rev path) \<noteq> []" using assms unfolding strip_slashes_def by (simp only: rev_is_Nil_conv not_False_eq_True)
  then have "hd ?q \<noteq> SLASH" unfolding q by (rule hd_dropWhile)
  then have base: "takeWhile (\<lambda>c. c \<noteq> SLASH) ?q \<noteq> []" using assms by (cases ?q) auto
  define front where "front = rev (dropWhile (\<lambda>c. c \<noteq> SLASH) ?q)"
  have "strip_slashes path = front @ base_name path"
    using path assms by (simp add: base_name_def front_def rev_append [symmetric])
  moreover have "base_name path \<noteq> []" "SLASH \<notin> set (base_name path)"
    using base path assms by (auto simp: base_name_def dest: set_takeWhileD)
  moreover have "last front = SLASH" if "front \<noteq> []"
    using that hd_dropWhile [of "\<lambda>c. c \<noteq> SLASH" ?q] by (simp add: front_def last_rev)
  moreover have "dir_name path = (if front = [] then ''.'' else if strip_slashes front = [] then ''/'' else strip_slashes front)"
    using path assms by (auto simp: dir_name_def front_def Let_def)
  ultimately show ?thesis by (intro exI [of _ front]) simp
qed

section \<open>Copies\<close>

lemma read_string_map: "NUL \<notin> set t \<Longrightarrow> read_string (map Some t @ Some NUL # cells) = Some t"
  by (induction t) auto

lemma read_string_open: "NUL \<notin> set t \<Longrightarrow> read_string (map Some t @ None # cells) = None"
  by (induction t) auto

lemma read_string_end: "NUL \<notin> set t \<Longrightarrow> read_string (map Some t) = None"
  by (induction t) auto

lemmas text_run = heap_run h_cli_def h_malloc_def allocate_fresh h_store_def h_string_def h_free_def block_at_def put_block_def
  all_freed_def fresh_heap_def

lemma strdup_ends:
  assumes "operand t" "NUL \<notin> set t"
  shows "ends (strdup_main [name, t]) faults (Good (if failing 0 faults then 1 else 0))
    (if failing 0 faults then [] else ''Duplicated string: '' @ quoted t @ [NL])
    (if failing 0 faults then [Perror (''Memory allocation failed for duplicate'' @ [NL])] else [])"
  using assms read_string_map [OF assms(2), of "[]"]
  by (cases "failing 0 faults")
    (simp_all add: ends_def strdup_main_def h_strdup_def h_strcpy_def text_run text_arguments)

lemma strncat_ends: "ends strncat_main faults (Good 0) (''Concatenated string: '' @ quoted ''Hello, Wor'' @ [NL]) []"
  by (simp add: ends_def strncat_main_def h_local_def h_strcpy_def h_strncat_def text_run fresh_heap_def plus_addr_def)

lemma strncpy_arguments_n:
  assumes "operand t" "n < 2 ^ 64"
  shows "strncpy_arguments [name, ''-n'', dec_nat n, t] = Returns (Some (dec_nat n), Some t, word_of_nat n)"
proof -
  show ?thesis
    using assms(1) strtoumax_dec_nat [OF assms(2)]
    by (simp add: strings_defs with_options_def option_case_def argv_at_def operand_def size_max)
qed

text \<open>C36. strncpy copies into n + 1 bytes and stores no NUL behind a string that it has cut off: the program is correct only if the
  whole string fits into n characters, and otherwise prints a text that has no end, or stores outside an empty block when
  n + 1 wraps around to zero.\<close>

theorem strncpy_only_whole:
  assumes "operand t" "NUL \<notin> set t" "n < 2 ^ 64"
  shows "if failing 0 faults
     then ends (strncpy_main [name, ''-n'', dec_nat n, t]) faults (Good EXIT_FAILURE) [] [Perror (''Memory allocation failed'' @ [NL])]
     else if length t < n \<and> n \<noteq> 2 ^ 64 - 1
     then ends (strncpy_main [name, ''-n'', dec_nat n, t]) faults (Good EXIT_SUCCESS)
       (''Source string: '' @ t @ [NL] @ ''Copied string: '' @ t @ [NL]) []
     else fst (strncpy_main [name, ''-n'', dec_nat n, t] (fresh_heap faults)) = Bad"
proof -
  let ?w = "word_of_nat n :: uint64" and ?cells = "map Some (take n t @ replicate (n - length t) NUL)"
  have n: "unat ?w = n" using assms(3) by (rule unat_word_of_nat_u64)
  have size_n: "unat (?w + 1) = (if n = 2 ^ 64 - 1 then 0 else n + 1)"
    using n assms(3) by (auto simp: unat_word_ariths)
  have len: "length ?cells = n" by simp
  note arguments = strncpy_arguments_n [OF assms(1,3), of name]
  show ?thesis
  proof (cases "failing 0 faults")
    case True
    then show ?thesis by (simp add: ends_def strncpy_main_def text_run arguments)
  next
    case False
    show ?thesis
    proof (cases "n = 2 ^ 64 - 1")
      case True
      then have "unat (?w + 1) = 0" "0 < n" using size_n by simp_all
      moreover have "fst (strncpy_main [name, ''-n'', dec_nat n, t] (fresh_heap faults)) = Bad" if "unat (?w + 1) = 0" "0 < n"
        using that False n len by (simp add: strncpy_main_def text_run arguments h_strncpy_def)
      ultimately show ?thesis using False True by simp
    next
      case fits: False
      have string: "read_string (?cells @ [None]) = (if length t < n then Some t else None)"
      proof (cases "length t < n")
        case True
        then obtain k where "n - length t = Suc k" by (cases "n - length t") auto
        with True read_string_map [OF assms(2)] show ?thesis by simp
      next
        case False
        have "NUL \<notin> set (take n t)" using assms(2) by (meson in_set_takeD)
        with False read_string_open [of "take n t" "[]"] show ?thesis by simp
      qed
      have one: "replicate (Suc 0) x = [x]" for x :: "char option" by simp
      have cells: "drop n (replicate (Suc n) (None :: char option)) = [None]" by (simp only: drop_replicate) simp
      show ?thesis
        using False fits n size_n string
        by (cases "length t < n")
          (simp_all add: ends_def strncpy_main_def text_run arguments h_strncpy_def cells one del: map_append replicate.simps)
    qed
  qed
qed

lemma strncpy_only_whole_witness:
  "ends (strncpy_main [''p'', ''-n'', dec_nat 3, ''ab'']) [] (Good EXIT_SUCCESS)
     (''Source string: '' @ ''ab'' @ [NL] @ ''Copied string: '' @ ''ab'' @ [NL]) []"
  using strncpy_only_whole [of "''ab''" 3 "[]" "''p''"] by (simp add: operand_def)

section \<open>strtok_r\<close>

fun pieces :: "char \<Rightarrow> string \<Rightarrow> string list" where
  "pieces d [] = [[]]"
| "pieces d (c # s) = (if c = d then [] # pieces d s else (c # hd (pieces d s)) # tl (pieces d s))"

lemma pieces_split:
  "pieces d s = takeWhile (\<lambda>c. c \<noteq> d) s # (case dropWhile (\<lambda>c. c \<noteq> d) s of [] \<Rightarrow> [] | x # r \<Rightarrow> pieces d r)"
  by (induction s) auto

lemma pieces_drop: "filter (\<lambda>w. w \<noteq> []) (pieces d (dropWhile (\<lambda>c. c = d) s)) = filter (\<lambda>w. w \<noteq> []) (pieces d s)"
  by (induction s) auto

lemma tokens_pieces: "tokens [d] s = filter (\<lambda>w. w \<noteq> []) (pieces d s)"
proof (induction s rule: measure_induct_rule [where f = length])
  case (less s)
  let ?s = "dropWhile (\<lambda>c. c = d) s" and ?rest = "dropWhile (\<lambda>c. c \<noteq> d) (dropWhile (\<lambda>c. c = d) s)"
  show ?case
  proof (cases "?s = []")
    case True
    have "filter (\<lambda>w. w \<noteq> []) (pieces d s) = []" unfolding pieces_drop [of d s, symmetric] True by simp
    with True show ?thesis by (simp add: tokens.simps [of "[d]" s] strtok_r_def Let_def)
  next
    case False
    then have "hd ?s \<noteq> d" using hd_dropWhile [of "\<lambda>c. c = d" s] by simp
    with False have w: "takeWhile (\<lambda>c. c \<noteq> d) ?s \<noteq> []" by (cases ?s) auto
    have "strtok_r [d] s = Some (takeWhile (\<lambda>c. c \<noteq> d) ?s, drop 1 ?rest)" using False by (simp add: strtok_r_def Let_def)
    then have "length (drop 1 ?rest) < length s" by (rule strtok_r_shorter)
    then have "tokens [d] (drop 1 ?rest) = filter (\<lambda>w. w \<noteq> []) (pieces d (drop 1 ?rest))" by (rule less.IH)
    have "tokens [d] s = takeWhile (\<lambda>c. c \<noteq> d) ?s # tokens [d] (drop 1 ?rest)"
      using False by (simp add: tokens.simps [of "[d]" s] strtok_r_def Let_def)
    moreover have "filter (\<lambda>w. w \<noteq> []) (pieces d s) =
        takeWhile (\<lambda>c. c \<noteq> d) ?s # filter (\<lambda>w. w \<noteq> []) (case ?rest of [] \<Rightarrow> [] | x # r \<Rightarrow> pieces d r)"
      unfolding pieces_drop [of d s, symmetric] pieces_split [of d ?s] using w by simp
    moreover have "filter (\<lambda>w. w \<noteq> []) (case q of [] \<Rightarrow> [] | x # r \<Rightarrow> pieces d r) = filter (\<lambda>w. w \<noteq> []) (pieces d (drop 1 q))" for q
      by (cases q) simp_all
    ultimately show ?thesis using \<open>tokens [d] (drop 1 ?rest) = _\<close> by (simp only:)
  qed
qed

definition token_lines :: "string list \<Rightarrow> string" where
  "token_lines ws = concat (map (\<lambda>w. ''Token: '' @ w @ [NL]) ws)"

definition copy_heap :: "bool list \<Rightarrow> char option list \<Rightarrow> string \<Rightarrow> heap" where
  "copy_heap fs cells out = \<lparr>hp_blocks = [Some cells], hp_faults = fs, hp_out = out, hp_err = []\<rparr>"

lemma string_in_copy:
  "NUL \<notin> set t \<Longrightarrow> h_string (0, length pre) (copy_heap fs (pre @ map Some t @ Some NUL # post) out)
     = (Good t, copy_heap fs (pre @ map Some t @ Some NUL # post) out)"
  by (simp add: h_string_def copy_heap_def block_at_def read_string_map)

lemma strtok_in_copy:
  assumes "NUL \<notin> set t" "t = b @ rest" "takeWhile (\<lambda>c. c \<in> set d) t = b" "takeWhile (\<lambda>c. c \<notin> set d) rest = w"
  shows "h_strtok_r d (0, length pre) (copy_heap fs (pre @ map Some t @ [Some NUL]) out) =
    (if rest = [] then h_ret (None, (0, length pre + length b))
     else if w = rest then h_ret (Some (0, length pre + length b), (0, length pre + length b + length w))
     else h_then (h_store (0, length pre + length b + length w) [Some NUL])
       (\<lambda>_. h_ret (Some (0, length pre + length b), (0, length pre + length b + length w + 1))))
     (copy_heap fs (pre @ map Some t @ [Some NUL]) out)"
proof -
  have "drop (length b) t = rest" using assms(2) by simp
  then show ?thesis
    using string_in_copy [OF assms(1), of pre fs "[]" out] assms(3,4)
    by (simp add: h_strtok_r_def h_then_def [where c = "h_string p" for p] plus_addr_def Let_def del: drop_eq_Nil)
qed

lemma strtok_none:
  assumes "strtok_r d t = None" "NUL \<notin> set t"
  shows "h_strtok_r d (0, length pre) (copy_heap fs (pre @ map Some t @ [Some NUL]) out)
    = (Good (None, (0, length pre + length t)), copy_heap fs (pre @ map Some t @ [Some NUL]) out)"
proof -
  have "dropWhile (\<lambda>c. c \<in> set d) t = []" using assms(1) by (simp add: strtok_r_def Let_def split: if_splits)
  then have "takeWhile (\<lambda>c. c \<in> set d) t = t" by (metis append_Nil2 takeWhile_dropWhile_id)
  from strtok_in_copy [OF assms(2) _ this, of "[]"] show ?thesis by (simp add: h_ret_def)
qed

lemma h_then_assoc: "h_then (h_then c f) g = h_then c (\<lambda>v. h_then (f v) g)"
  by (rule ext) (simp add: h_then_def split: prod.split hresult.split)

lemma then_Good: "c s = (Good v, s') \<Longrightarrow> h_then c k s = k v s'"
  by (simp add: h_then_def)

text \<open>A token is found at \<open>k\<close>, and the rest of the text behind \<open>pre'\<close>.\<close>

lemma strtok_some:
  assumes "strtok_r d t = Some (w, save)" "NUL \<notin> set t"
  shows "\<exists>pre' front post. h_strtok_r d (0, length pre) (copy_heap fs (pre @ map Some t @ [Some NUL]) out)
      = (Good (Some (0, length front), (0, length pre')), copy_heap fs (pre' @ map Some save @ [Some NUL]) out)
    \<and> pre' @ map Some save @ [Some NUL] = front @ map Some w @ Some NUL # post"
proof -
  obtain b r where b: "takeWhile (\<lambda>c. c \<in> set d) t = b" and r: "dropWhile (\<lambda>c. c \<in> set d) t = r" by blast
  from assms(1) r have ne: "r \<noteq> []" and w: "takeWhile (\<lambda>c. c \<notin> set d) r = w" and save: "save = drop 1 (dropWhile (\<lambda>c. c \<notin> set d) r)"
    by (auto simp: strtok_r_def Let_def split: if_splits)
  have t: "t = b @ r" using b r by (metis takeWhile_dropWhile_id)
  note run = strtok_in_copy [OF assms(2) t b w, of pre fs out]
  let ?front = "pre @ map Some b"
  show ?thesis
  proof (cases "dropWhile (\<lambda>c. c \<notin> set d) r")
    case Nil
    then have wr: "w = r" using w by (metis append_Nil2 takeWhile_dropWhile_id)
    let ?pre = "pre @ map Some b @ map Some w"
    have "pre @ map Some t @ [Some NUL] = ?pre @ map Some save @ [Some NUL]" using save Nil wr by (simp add: t)
    moreover have "?pre @ map Some save @ [Some NUL] = ?front @ map Some w @ Some NUL # []" using save Nil by simp
    ultimately show ?thesis
      using run ne wr by (intro exI [of _ ?pre] exI [of _ ?front] exI [of _ "[]"]) (simp add: h_ret_def add.assoc)
  next
    case (Cons x rest)
    then have rw: "r = w @ x # save" using w save by (metis One_nat_def drop0 drop_Suc_Cons takeWhile_dropWhile_id)
    let ?pre = "pre @ map Some b @ map Some w @ [Some NUL]"
    have cells: "pre @ map Some t @ [Some NUL] = (?front @ map Some w) @ Some x # map Some save @ [Some NUL]"
      by (simp add: t rw)
    have "h_store (0, length pre + length b + length w) [Some NUL] (copy_heap fs (pre @ map Some t @ [Some NUL]) out)
      = (Good (), copy_heap fs (?pre @ map Some save @ [Some NUL]) out)"
      unfolding cells by (simp add: h_store_def copy_heap_def block_at_def put_block_def add.assoc)
    then show ?thesis
      using run ne rw
      by (intro exI [of _ ?pre] exI [of _ ?front] exI [of _ "map Some save @ [Some NUL]"]) (simp add: h_ret_def h_then_def add.assoc)
  qed
qed

lemma strtok_parts: "strtok_r d t = Some (w, save) \<Longrightarrow> NUL \<notin> set t \<Longrightarrow> NUL \<notin> set w \<and> NUL \<notin> set save"
  by (auto simp: strtok_r_def Let_def split: if_splits dest!: set_takeWhileD in_set_dropD set_dropWhileD)

lemma print_in_copy: "h_printf u (copy_heap fs cells out) = (Good (), copy_heap fs cells (out @ u))"
  by (simp add: h_printf_def copy_heap_def)

lemma tokens_step: "tokens d t = (case strtok_r d t of None \<Rightarrow> [] | Some (w, save) \<Rightarrow> w # tokens d save)"
  by (rule tokens.simps)

lemma print_tokens_prints:
  assumes "NUL \<notin> set t" "length t < n"
  shows "\<exists>cells. h_then (h_strtok_r d (0, length pre)) (print_tokens n d) (copy_heap fs (pre @ map Some t @ [Some NUL]) out)
    = (Good (), copy_heap fs cells (out @ token_lines (tokens d t)))"
  using assms
proof (induction n arbitrary: t pre out)
  case (Suc n)
  show ?case
  proof (cases "strtok_r d t")
    case None
    then show ?thesis
      using strtok_none [OF None Suc.prems(1), of pre fs out]
      by (auto simp: h_then_def h_ret_def tokens_step [of d t] token_lines_def)
  next
    case (Some a)
    then obtain w save where ws: "strtok_r d t = Some (w, save)" by (cases a) auto
    obtain pre' front post where
      run: "h_strtok_r d (0, length pre) (copy_heap fs (pre @ map Some t @ [Some NUL]) out)
        = (Good (Some (0, length front), (0, length pre')), copy_heap fs (pre' @ map Some save @ [Some NUL]) out)"
      and cells: "pre' @ map Some save @ [Some NUL] = front @ map Some w @ Some NUL # post"
      using strtok_some [OF ws Suc.prems(1), of pre fs out] by blast
    have parts: "NUL \<notin> set w" "NUL \<notin> set save" using strtok_parts [OF ws Suc.prems(1)] by simp_all
    have "length save < n" using strtok_r_shorter [OF ws] Suc.prems(2) by simp
    from Suc.IH [OF parts(2) this, of pre' "out @ ''Token: '' @ w @ [NL]"] obtain cells' where
      "h_then (h_strtok_r d (0, length pre')) (print_tokens n d)
         (copy_heap fs (pre' @ map Some save @ [Some NUL]) (out @ ''Token: '' @ w @ [NL]))
       = (Good (), copy_heap fs cells' ((out @ ''Token: '' @ w @ [NL]) @ token_lines (tokens d save)))" by blast
    moreover have "h_string (0, length front) (copy_heap fs (pre' @ map Some save @ [Some NUL]) out)
        = (Good w, copy_heap fs (pre' @ map Some save @ [Some NUL]) out)"
      unfolding cells by (rule string_in_copy [OF parts(1)])
    ultimately show ?thesis
      using run ws by (simp add: h_then_def print_in_copy tokens_step [of d t] token_lines_def) blast
  qed
qed simp

text \<open>C37. strtok_r, working on a copy of the operand into which it writes the ends of the tokens, makes the program print the pieces
  between spaces that are not empty, in order, and free the copy; the loop comes to its end.\<close>

theorem strtok_program_prints:
  assumes "operand t" "NUL \<notin> set t" "\<not> failing 0 faults"
  shows "ends (strtok_r_main [name, t]) faults (Good EXIT_SUCCESS)
    (''Tokenized words:'' @ [NL] @ token_lines (filter (\<lambda>w. w \<noteq> []) (pieces SPACE t))) []"
proof -
  let ?h = "copy_heap (tl faults)"
  have dup: "h_strdup t (fresh_heap faults) = (Good (Some (0, 0)), ?h (map Some t @ [Some NUL]) [])"
    using assms(3) by (simp add: h_strdup_def h_strcpy_def text_run copy_heap_def)
  have free: "h_free (Some (0, 0)) (?h cells out) = (Good (), \<lparr>hp_blocks = [None], hp_faults = tl faults, hp_out = out, hp_err = []\<rparr>)"
    for cells out by (simp add: text_run copy_heap_def)
  have "\<exists>cells. h_then (h_strtok_r '' '' (0, 0)) (\<lambda>token.
         h_then (h_printf (''Tokenized words:'' @ [NL])) (\<lambda>_. print_tokens (length t + 2) '' '' token))
       (?h (map Some t @ [Some NUL]) []) = (Good (), ?h cells (''Tokenized words:'' @ [NL] @ token_lines (tokens '' '' t)))"
  proof (cases "strtok_r '' '' t")
    case None
    then show ?thesis
      using strtok_none [OF None assms(2), of "[]" "tl faults" "[]"]
      by (auto simp: h_then_def print_in_copy h_ret_def tokens_step [of "'' ''" t] token_lines_def)
  next
    case (Some a)
    then obtain w save where ws: "strtok_r '' '' t = Some (w, save)" by (cases a) auto
    obtain pre' front post where
      run: "h_strtok_r '' '' (0, 0) (?h (map Some t @ [Some NUL]) [])
        = (Good (Some (0, length front), (0, length pre')), ?h (pre' @ map Some save @ [Some NUL]) [])"
      and cells: "pre' @ map Some save @ [Some NUL] = front @ map Some w @ Some NUL # post"
      using strtok_some [OF ws assms(2), of "[]" "tl faults" "[]"] by auto
    have parts: "NUL \<notin> set w" "NUL \<notin> set save" using strtok_parts [OF ws assms(2)] by simp_all
    have short: "length save < Suc (length t)" using strtok_r_shorter [OF ws] by simp
    have "h_string (0, length front) (?h (pre' @ map Some save @ [Some NUL]) out) = (Good w, ?h (pre' @ map Some save @ [Some NUL]) out)" for out
      unfolding cells by (rule string_in_copy [OF parts(1)])
    then show ?thesis
      using run ws print_tokens_prints [OF parts(2) short, of "'' ''" pre' "tl faults" "''Tokenized words:'' @ [NL] @ ''Token: '' @ w @ [NL]"]
      by (simp add: h_then_def print_in_copy tokens_step [of "'' ''" t] token_lines_def)
  qed
  then obtain cells where "h_then (h_strtok_r '' '' (0, 0)) (\<lambda>token.
         h_then (h_printf (''Tokenized words:'' @ [NL])) (\<lambda>_. print_tokens (length t + 2) '' '' token))
       (?h (map Some t @ [Some NUL]) []) = (Good (), ?h cells (''Tokenized words:'' @ [NL] @ token_lines (tokens '' '' t)))" by blast
  then have "strtok_r_main [name, t] (fresh_heap faults) = (Good EXIT_SUCCESS,
      \<lparr>hp_blocks = [None], hp_faults = tl faults, hp_out = ''Tokenized words:'' @ [NL] @ token_lines (tokens '' '' t), hp_err = []\<rparr>)"
    unfolding h_then_assoc [symmetric]
    by (simp add: strtok_r_main_def h_cli_def text_arguments(3) [OF assms(1)] then_Good dup free h_ret_def h_then_assoc [symmetric])
  then show ?thesis by (simp add: ends_def all_freed_def tokens_pieces)
qed

lemma strtok_program_prints_witness:
  "ends (strtok_r_main [''p'', ''ab  c'']) [] (Good EXIT_SUCCESS)
    (''Tokenized words:'' @ [NL] @ ''Token: ab'' @ [NL] @ ''Token: c'' @ [NL]) []"
  using strtok_program_prints [of "''ab  c''" "[]" "''p''"] by (simp add: operand_def token_lines_def)

end
