(* ===== verification/Directories.thy ===== *)
theory Directories
  imports Text_Programs
begin

text \<open>
  \<^verbatim>\<open>src/file-system/getcwd\<close> and \<^verbatim>\<open>src/file-system/chdir\<close>, which ask for the working directory with a buffer that they double until
  it is large enough, and \<^verbatim>\<open>opendir-closedir\<close>, \<^verbatim>\<open>readdir\<close>, \<^verbatim>\<open>chown\<close> and \<^verbatim>\<open>src/file-tree-walking/nftw\<close>, from their command line to
  their output. The answers of the kernel are arguments.
\<close>

section \<open>The working directory\<close>

abbreviation (input) ERANGE :: int where "ERANGE \<equiv> 34"

definition PATH_LEN :: int where
  "PATH_LEN = 4096"

text \<open>\<^verbatim>\<open>getcwd\<close>: the directory, if it fits with its NUL, or the error.\<close>

definition h_getcwd :: "int + string \<Rightarrow> addr \<Rightarrow> nat \<Rightarrow> (int + unit) hprog" where
  "h_getcwd cwd p n =
     (case cwd of
        Inl e \<Rightarrow> h_ret (Inl e)
      | Inr d \<Rightarrow> if n < length d + 1 then h_ret (Inl ERANGE) else h_then (h_strcpy p d) (\<lambda>_. h_ret (Inr ())))"

text \<open>\<^verbatim>\<open>realloc\<close>, also of the null pointer; what it does with size 0 is up to the library.\<close>

definition h_resize :: "addr option \<Rightarrow> nat \<Rightarrow> addr option hprog" where
  "h_resize q n = (if n = 0 then h_bad else case q of None \<Rightarrow> h_malloc n | Some p \<Rightarrow> h_realloc p n)"

text \<open>The loop gets a number of rounds; the loop that uses them up is \<open>Bad\<close>.\<close>

fun cwd_loop :: "nat \<Rightarrow> int + string \<Rightarrow> addr option \<Rightarrow> uint64 \<Rightarrow> addr option hprog" where
  "cwd_loop 0 cwd buffer n = h_bad"
| "cwd_loop (Suc rounds) cwd buffer n =
     h_then (h_resize buffer (unat n)) (\<lambda>temp_buffer. case temp_buffer of
       None \<Rightarrow>
         h_then (h_perror ''Error allocating/reallocating memory for buffer'') (\<lambda>_. h_then (h_free buffer) (\<lambda>_. h_ret None))
     | Some b \<Rightarrow>
         h_then (h_getcwd cwd b (unat n)) (\<lambda>r. case r of
           Inr _ \<Rightarrow> h_ret (Some b)
         | Inl e \<Rightarrow>
             if e = ERANGE then cwd_loop rounds cwd (Some b) (n * 2)
             else h_then (h_perror ''Error getting current working directory'') (\<lambda>_. h_then (h_free (Some b)) (\<lambda>_. h_ret None))))"

definition path_max_or_default :: "int \<Rightarrow> int" where
  "path_max_or_default path_max = (if path_max = - 1 then PATH_LEN else path_max)"

definition cwd_line :: "string \<Rightarrow> string" where
  "cwd_line d = ''Current working directory: '' @ d @ [NL]"

definition getcwd_main :: "nat \<Rightarrow> int \<Rightarrow> int + string \<Rightarrow> int hprog" where
  "getcwd_main rounds path_max cwd =
     h_then (cwd_loop rounds cwd None (word_of_int (path_max_or_default path_max))) (\<lambda>q. case q of
       None \<Rightarrow> h_ret EXIT_FAILURE
     | Some buffer \<Rightarrow>
         h_then (h_string buffer) (\<lambda>d.
         h_then (h_printf (cwd_line d)) (\<lambda>_.
         h_then (h_free (Some buffer)) (\<lambda>_. h_ret EXIT_SUCCESS))))"

definition getCurrentWorkingDirectory :: "nat \<Rightarrow> int + string \<Rightarrow> int \<Rightarrow> addr option hprog" where
  "getCurrentWorkingDirectory rounds cwd path_max = cwd_loop rounds cwd None (word_of_int path_max)"

definition printCurrentWorkingDirectory :: "nat \<Rightarrow> int + string \<Rightarrow> int \<Rightarrow> unit hprog" where
  "printCurrentWorkingDirectory rounds cwd path_max =
     h_then (getCurrentWorkingDirectory rounds cwd path_max) (\<lambda>q. case q of
       None \<Rightarrow> h_exit EXIT_FAILURE
     | Some b \<Rightarrow>
         h_then (h_string b) (\<lambda>d. h_then (h_printf (cwd_line d)) (\<lambda>_. h_free (Some b))))"

text \<open>\<open>chdir_fails\<close> is the answer of \<^verbatim>\<open>chdir\<close>, and \<open>after\<close> the directory then.\<close>

definition chdir_main :: "nat \<Rightarrow> (string \<Rightarrow> int) \<Rightarrow> int + string \<Rightarrow> (string \<Rightarrow> bool) \<Rightarrow> (string \<Rightarrow> int + string) \<Rightarrow> string list \<Rightarrow> int hprog" where
  "chdir_main rounds pathconf before chdir_fails after argv =
     h_then (h_cli (chdir_arguments argv)) (\<lambda>directory_path.
       let path_max = path_max_or_default (pathconf (the directory_path)) in
       h_then (printCurrentWorkingDirectory rounds before path_max) (\<lambda>_.
       if chdir_fails (the directory_path) then h_then (h_perror ''chdir'') (\<lambda>_. h_exit EXIT_FAILURE)
       else h_then (printCurrentWorkingDirectory rounds (after (the directory_path)) path_max) (\<lambda>_. h_ret EXIT_SUCCESS)))"

section \<open>Reading directories\<close>

definition opendir_main :: "(string \<Rightarrow> bool) \<Rightarrow> bool \<Rightarrow> string list \<Rightarrow> int hprog" where
  "opendir_main opendir_fails closedir_fails argv =
     h_then (h_cli (opendir_arguments argv)) (\<lambda>directory_path.
       if opendir_fails (the directory_path) then h_fail ''opendir''
       else h_then (h_printf (''Opened directory: '' @ the directory_path @ [NL])) (\<lambda>_.
         if closedir_fails then h_fail ''closedir''
         else h_then (h_printf (''Closed directory: '' @ the directory_path @ [NL])) (\<lambda>_. h_ret EXIT_SUCCESS)))"

text \<open>The entries that \<^verbatim>\<open>readdir\<close> returns, with their inodes.\<close>

definition readdir_main :: "(string \<Rightarrow> (string \<times> nat) list option) \<Rightarrow> bool \<Rightarrow> string list \<Rightarrow> int hprog" where
  "readdir_main opendir closedir_fails argv =
     h_then (h_cli (readdir_arguments argv)) (\<lambda>directory_path.
       case opendir (the directory_path) of
         None \<Rightarrow> h_fail ''opendir''
       | Some entries \<Rightarrow>
           h_then (h_printf (concat (map (\<lambda>(name, ino). ''Name: '' @ name @ [NL] @ ''Inode number: '' @ dec_nat ino @ [NL, NL]) entries))) (\<lambda>_.
           if closedir_fails then h_fail ''closedir'' else h_ret EXIT_SUCCESS))"

definition chown_main :: "(string \<Rightarrow> uint64 \<Rightarrow> uint64 \<Rightarrow> bool) \<Rightarrow> string list \<Rightarrow> int hprog" where
  "chown_main chown_fails argv =
     h_then (h_cli (chown_arguments sizeof_int sizeof_int argv)) (\<lambda>(path, user_id, group_id, uid, gid).
       if chown_fails (the path) uid gid then h_then (h_perror ''chown'') (\<lambda>_. h_exit EXIT_FAILURE)
       else h_then (h_printf (''File ownership changed successfully.'' @ [NL])) (\<lambda>_. h_ret EXIT_SUCCESS))"

datatype ftw_flag = FTW_F | FTW_D | FTW_SL | FTW_other

definition print_file :: "string \<times> ftw_flag \<Rightarrow> string" where
  "print_file f =
     (case snd f of
        FTW_F \<Rightarrow> ''File: '' @ fst f @ [NL]
      | FTW_D \<Rightarrow> ''Directory: '' @ fst f @ [NL]
      | FTW_SL \<Rightarrow> ''Link: '' @ fst f @ [NL]
      | FTW_other \<Rightarrow> [])"

text \<open>The calls that \<^verbatim>\<open>nftw\<close> makes, and whether it fails in the end.\<close>

definition nftw_main :: "(string \<Rightarrow> (string \<times> ftw_flag) list \<times> bool) \<Rightarrow> string list \<Rightarrow> int hprog" where
  "nftw_main nftw argv =
     h_then (h_cli (nftw_arguments argv)) (\<lambda>directory_path.
       case nftw (the directory_path) of (calls, failed) \<Rightarrow>
         h_then (h_printf (concat (map print_file calls))) (\<lambda>_.
         if failed then h_fail ''nftw'' else h_ret EXIT_SUCCESS))"

section \<open>The loop that doubles the buffer\<close>

text \<open>At most the given block has not been freed.\<close>

definition only_live :: "addr option \<Rightarrow> heap \<Rightarrow> bool" where
  "only_live q s \<longleftrightarrow>
     (case q of
        None \<Rightarrow> all_freed s
      | Some p \<Rightarrow> all_freed (put_block p None s) \<and> snd p = 0 \<and> (\<exists>cells. block_at p s = Some cells))"

lemma all_freed_put: "all_freed s \<Longrightarrow> all_freed (put_block p None s)"
  unfolding all_freed_def put_block_def by (simp add: list_all_iff) (metis insertE set_update_subset_insert subsetD)

lemma live_free: "only_live q s \<Longrightarrow> \<exists>s'. h_free q s = (Good (), s') \<and> all_freed s' \<and> hp_out s' = hp_out s \<and> hp_err s' = hp_err s \<and> hp_faults s' = hp_faults s"
  by (cases q) (auto simp: only_live_def h_free_def)

lemma faults_keep [simp]:
  "block_at p (s\<lparr>hp_faults := fs\<rparr>) = block_at p s" "put_block p c (s\<lparr>hp_faults := fs\<rparr>) = (put_block p c s)\<lparr>hp_faults := fs\<rparr>"
  "all_freed (s\<lparr>hp_faults := fs\<rparr>) = all_freed s"
  by (simp_all add: block_at_def put_block_def all_freed_def)

lemma live_resize:
  assumes "only_live q s" "n \<noteq> 0"
  shows "\<exists>r s'. h_resize q n s = (Good r, s') \<and> hp_out s' = hp_out s \<and> hp_err s' = hp_err s \<and> hp_faults s' = tl (hp_faults s)
    \<and> (if failing 0 (hp_faults s) then r = None \<and> only_live q s'
       else \<exists>p cells. r = Some p \<and> only_live r s' \<and> block_at p s' = Some cells \<and> length cells = n)"
proof (cases "failing 0 (hp_faults s)")
  case True
  with assms show ?thesis
    by (cases q) (auto simp: h_resize_def h_malloc_def allocate_fresh h_realloc_def only_live_def heap_run)
next
  case False
  show ?thesis
  proof (cases q)
    case None
    with assms False show ?thesis
      by (auto simp: h_resize_def h_malloc_def allocate_fresh only_live_def all_freed_def block_at_def put_block_def)
  next
    case (Some p)
    with assms(1) obtain cells where c: "block_at p s = Some cells" "snd p = 0" "all_freed (put_block p None s)"
      by (auto simp: only_live_def)
    then have p: "fst p < length (hp_blocks s)" by (auto simp: block_at_def split: if_splits)
    with Some assms(2) False c show ?thesis
      by (auto simp: h_resize_def allocate_fresh h_realloc_def only_live_def heap_run all_freed_def block_at_def put_block_def h_free_def
          nth_append list_update_append)
  qed
qed

lemma cwd_found:
  assumes "only_live (Some p) s" "block_at p s = Some cells" "length d < length cells" "NUL \<notin> set d"
  shows "\<exists>s'. h_getcwd (Inr d) p (length cells) s = (Good (Inr ()), s') \<and> hp_out s' = hp_out s \<and> hp_err s' = hp_err s
    \<and> hp_faults s' = hp_faults s \<and> only_live (Some p) s' \<and> h_string p s' = (Good d, s')"
proof -
  have p: "snd p = 0" using assms(1) by (simp add: only_live_def)
  let ?cells = "map Some d @ Some NUL # drop (Suc (length d)) cells"
  let ?s = "put_block p (Some ?cells) s"
  have "h_getcwd (Inr d) p (length cells) s = (Good (Inr ()), ?s)"
    using assms(2,3) p by (simp add: h_getcwd_def h_strcpy_def h_store_def heap_run)
  moreover have "block_at p ?s = Some ?cells" using assms(2) by simp
  moreover from this have "h_string p ?s = (Good d, ?s)"
    using p read_string_map [OF assms(4)] by (simp add: h_string_def)
  moreover have "only_live (Some p) ?s" using assms(1,2) by (simp add: only_live_def)
  ultimately show ?thesis by (intro exI [of _ ?s]) simp
qed

definition allocation_message :: err_item where
  "allocation_message = Perror ''Error allocating/reallocating memory for buffer''"

text \<open>What a run of the loop may end with, from a state \<open>s\<close>.\<close>

definition found :: "string \<Rightarrow> heap \<Rightarrow> addr option \<Rightarrow> heap \<Rightarrow> bool" where
  "found d s r s' \<longleftrightarrow> hp_out s' = hp_out s \<and> only_live r s' \<and> set (hp_faults s') \<subseteq> set (hp_faults s)
     \<and> (case r of
          None \<Rightarrow> hp_err s' = hp_err s @ [allocation_message] \<and> True \<in> set (hp_faults s)
        | Some p \<Rightarrow> h_string p s' = (Good d, s') \<and> hp_err s' = hp_err s)"

lemma failing_set: "failing k fs \<Longrightarrow> True \<in> set fs"
  by (metis failing_def nth_mem)

lemma found_later:
  assumes "found d s1 r s'" "hp_out s1 = hp_out s" "hp_err s1 = hp_err s" "hp_faults s1 = tl (hp_faults s)"
  shows "found d s r s'"
  using assms list.set_sel(2) [of "hp_faults s"] by (cases "hp_faults s") (auto simp: found_def split: option.splits)

lemma cwd_loop_step:
  assumes "only_live q s" "NUL \<notin> set d" "0 < unat n"
  shows "(\<exists>r s'. cwd_loop (Suc rounds) (Inr d) q n s = (Good r, s') \<and> found d s r s')
    \<or> (unat n \<le> length d \<and> (\<exists>p s1. cwd_loop (Suc rounds) (Inr d) q n s = cwd_loop rounds (Inr d) (Some p) (n * 2) s1
      \<and> only_live (Some p) s1 \<and> hp_out s1 = hp_out s \<and> hp_err s1 = hp_err s \<and> hp_faults s1 = tl (hp_faults s)))"
proof -
  obtain r s1 where resize: "h_resize q (unat n) s = (Good r, s1)"
    and keeps: "hp_out s1 = hp_out s" "hp_err s1 = hp_err s" "hp_faults s1 = tl (hp_faults s)"
    and result: "if failing 0 (hp_faults s) then r = None \<and> only_live q s1
       else \<exists>p cells. r = Some p \<and> only_live r s1 \<and> block_at p s1 = Some cells \<and> length cells = unat n"
    using live_resize [OF assms(1), of "unat n"] assms(3) by blast
  have subset: "set (tl (hp_faults s)) \<subseteq> set (hp_faults s)" by (cases "hp_faults s") auto
  show ?thesis
  proof (cases "failing 0 (hp_faults s)")
    case True
    then have r: "r = None" "only_live q s1" using result by simp_all
    have "only_live q (s1\<lparr>hp_err := e\<rparr>)" for e
      using r(2) by (cases q) (simp_all add: only_live_def all_freed_def put_block_def)
    from live_free [OF this] obtain s2 where "h_free q (s1\<lparr>hp_err := hp_err s1 @ [allocation_message]\<rparr>) = (Good (), s2)"
      "all_freed s2" "hp_out s2 = hp_out s1" "hp_err s2 = hp_err s1 @ [allocation_message]" "hp_faults s2 = hp_faults s1"
      by (metis heap.select_convs(2,3,4) heap.surjective heap.update_convs(4))
    with r resize keeps subset failing_set [OF True] show ?thesis
      by (intro disjI1 exI [of _ None] exI [of _ s2])
        (simp add: heap_run allocation_message_def found_def only_live_def)
  next
    case False
    then obtain p cells where r: "r = Some p" "only_live (Some p) s1" "block_at p s1 = Some cells" "length cells = unat n"
      using result by auto
    show ?thesis
    proof (cases "length d < unat n")
      case True
      from cwd_found [OF r(2,3) _ assms(2)] True r(4) obtain s2 where
        "h_getcwd (Inr d) p (unat n) s1 = (Good (Inr ()), s2)" "hp_out s2 = hp_out s1" "hp_err s2 = hp_err s1"
        "hp_faults s2 = hp_faults s1" "only_live (Some p) s2" "h_string p s2 = (Good d, s2)" by auto
      with resize r keeps subset show ?thesis
        by (intro disjI1 exI [of _ "Some p"] exI [of _ s2]) (simp add: heap_run found_def)
    next
      case False
      then have "h_getcwd (Inr d) p (unat n) s1 = (Good (Inl ERANGE), s1)" by (simp add: h_getcwd_def heap_run)
      with resize r keeps False show ?thesis
        by (intro disjI2 conjI exI [of _ p] exI [of _ s1]) (simp_all add: heap_run)
    qed
  qed
qed

lemma unat_double: "unat n < 2 ^ 63 \<Longrightarrow> unat (n * 2) = 2 * unat n" for n :: uint64
  by (simp add: unat_word_ariths)

lemma cwd_loop_ends:
  assumes "only_live q s" "NUL \<notin> set d" "length d < unat n * 2 ^ rounds" "unat n * 2 ^ rounds \<le> 2 ^ 63" "0 < unat n"
  shows "\<exists>r s'. cwd_loop (Suc rounds) (Inr d) q n s = (Good r, s') \<and> found d s r s'"
  using assms
proof (induction rounds arbitrary: q n s)
  case (0 q n s)
  then show ?case using cwd_loop_step [of q s d n 0] by auto
next
  case (Suc rounds q n s)
  show ?case
  proof (cases "\<exists>r s'. cwd_loop (Suc (Suc rounds)) (Inr d) q n s = (Good r, s') \<and> found d s r s'")
    case False
    then obtain p s1 where again: "cwd_loop (Suc (Suc rounds)) (Inr d) q n s = cwd_loop (Suc rounds) (Inr d) (Some p) (n * 2) s1"
      and s1: "only_live (Some p) s1" "hp_out s1 = hp_out s" "hp_err s1 = hp_err s" "hp_faults s1 = tl (hp_faults s)"
      using cwd_loop_step [OF Suc.prems(1,2,5), of "Suc rounds"] by blast
    have "unat n * 2 \<le> unat n * 2 ^ Suc rounds" by simp
    also have "\<dots> \<le> 2 ^ 63" by (rule Suc.prems(4))
    finally have "unat n < 2 ^ 63" by simp
    then have n: "unat (n * 2) = 2 * unat n" by (rule unat_double)
    have "\<exists>r s'. cwd_loop (Suc rounds) (Inr d) (Some p) (n * 2) s1 = (Good r, s') \<and> found d s1 r s'"
      by (rule Suc.IH [OF s1(1) Suc.prems(2)]) (use Suc.prems n in \<open>simp_all add: mult.assoc mult.left_commute\<close>)
    then show ?thesis using found_later [OF _ s1(2,3,4)] again by auto
  qed blast
qed

section \<open>The programs\<close>

text \<open>Enough rounds for a directory of that length, from the size that the program starts with.\<close>

definition enough_rounds :: "nat \<Rightarrow> int \<Rightarrow> string \<Rightarrow> bool" where
  "enough_rounds rounds path_max d \<longleftrightarrow> 0 < path_max \<and> int (length d) < path_max * 2 ^ rounds \<and> path_max * 2 ^ rounds \<le> 2 ^ 63"

lemma enough_unat:
  assumes "enough_rounds rounds path_max d"
  shows "length d < unat (word_of_int path_max :: uint64) * 2 ^ rounds" "unat (word_of_int path_max :: uint64) * 2 ^ rounds \<le> 2 ^ 63"
    "0 < unat (word_of_int path_max :: uint64)"
proof -
  have le: "path_max \<le> path_max * 2 ^ rounds" using assms by (simp add: enough_rounds_def)
  have "path_max * 2 ^ rounds \<le> 9223372036854775808" using assms by (simp add: enough_rounds_def)
  with le have "path_max \<le> 9223372036854775808" by (rule order_trans)
  then have n: "int (unat (word_of_int path_max :: uint64)) = path_max"
    using assms by (simp add: enough_rounds_def unsigned_of_int take_bit_int_eq_self_iff)
  have "int (length d) < int (unat (word_of_int path_max :: uint64) * 2 ^ rounds)" using assms n by (simp add: enough_rounds_def)
  then show "length d < unat (word_of_int path_max :: uint64) * 2 ^ rounds" by linarith
  have "int (unat (word_of_int path_max :: uint64) * 2 ^ rounds) \<le> int (2 ^ 63)" using assms n by (simp add: enough_rounds_def)
  then show "unat (word_of_int path_max :: uint64) * 2 ^ rounds \<le> 2 ^ 63" by linarith
  show "0 < unat (word_of_int path_max :: uint64)" using assms n unfolding enough_rounds_def by linarith
qed

lemma live_print:
  assumes "only_live (Some p) s" "h_string p s = (Good d, s)"
  shows "\<exists>s'. h_then (h_string p) (\<lambda>d. h_then (h_printf (cwd_line d)) (\<lambda>_. h_free (Some p))) s = (Good (), s')
    \<and> all_freed s' \<and> hp_out s' = hp_out s @ cwd_line d \<and> hp_err s' = hp_err s \<and> hp_faults s' = hp_faults s"
proof -
  have "only_live (Some p) (s\<lparr>hp_out := hp_out s @ cwd_line d\<rparr>)"
    using assms(1) by (simp add: only_live_def all_freed_def put_block_def)
  from live_free [OF this] show ?thesis using assms(2) by (auto simp: heap_run)
qed

definition cwd_message :: err_item where
  "cwd_message = Perror ''Error getting current working directory''"

text \<open>The answer of \<^verbatim>\<open>getcwd\<close> is a directory for which the rounds are enough, or an error other than that of a small buffer.\<close>

definition answers :: "nat \<Rightarrow> int \<Rightarrow> int + string \<Rightarrow> bool" where
  "answers rounds path_max cwd \<longleftrightarrow>
     (case cwd of
        Inl e \<Rightarrow> e \<noteq> ERANGE \<and> 0 < path_max \<and> path_max \<le> 2 ^ 63
      | Inr d \<Rightarrow> enough_rounds rounds path_max d \<and> NUL \<notin> set d)"

definition refused :: "int + string \<Rightarrow> bool list \<Rightarrow> err_item \<Rightarrow> bool" where
  "refused cwd faults m \<longleftrightarrow> m = allocation_message \<and> True \<in> set faults \<or> m = cwd_message \<and> isl cwd"

definition settled :: "int + string \<Rightarrow> heap \<Rightarrow> addr option \<Rightarrow> heap \<Rightarrow> bool" where
  "settled cwd s r s' \<longleftrightarrow> hp_out s' = hp_out s \<and> only_live r s' \<and> set (hp_faults s') \<subseteq> set (hp_faults s)
     \<and> (case r of
          None \<Rightarrow> \<exists>m. hp_err s' = hp_err s @ [m] \<and> refused cwd (hp_faults s) m
        | Some p \<Rightarrow> \<exists>d. cwd = Inr d \<and> h_string p s' = (Good d, s') \<and> hp_err s' = hp_err s)"

lemma cwd_loop_refused:
  assumes "only_live None s" "e \<noteq> ERANGE" "0 < unat n"
  shows "\<exists>s'. cwd_loop (Suc rounds) (Inl e) None n s = (Good None, s') \<and> settled (Inl e) s None s'"
proof -
  obtain r s1 where resize: "h_resize None (unat n) s = (Good r, s1)"
    and keeps: "hp_out s1 = hp_out s" "hp_err s1 = hp_err s" "hp_faults s1 = tl (hp_faults s)"
    and result: "if failing 0 (hp_faults s) then r = None \<and> only_live None s1
       else \<exists>p cells. r = Some p \<and> only_live r s1 \<and> block_at p s1 = Some cells \<and> length cells = unat n"
    using live_resize [OF assms(1), of "unat n"] assms(3) by blast
  have subset: "set (tl (hp_faults s)) \<subseteq> set (hp_faults s)" by (cases "hp_faults s") auto
  have live: "only_live r s1" using result by (auto split: if_splits)
  have "only_live r (s1\<lparr>hp_err := x\<rparr>)" for x
    using live by (cases r) (simp_all add: only_live_def all_freed_def put_block_def)
  note free = live_free [OF this]
  show ?thesis
  proof (cases "failing 0 (hp_faults s)")
    case True
    then have "r = None" using result by simp
    moreover obtain s2 where "h_free r (s1\<lparr>hp_err := hp_err s @ [allocation_message]\<rparr>) = (Good (), s2)" "all_freed s2"
      "hp_out s2 = hp_out s" "hp_err s2 = hp_err s @ [allocation_message]" "hp_faults s2 = tl (hp_faults s)"
      using free [of "hp_err s @ [allocation_message]"] keeps by auto
    ultimately show ?thesis
      using resize keeps subset failing_set [OF True]
      by (intro exI [of _ s2]) (simp add: heap_run allocation_message_def settled_def refused_def only_live_def)
  next
    case False
    then obtain p where "r = Some p" using result by auto
    moreover obtain s2 where "h_free r (s1\<lparr>hp_err := hp_err s @ [cwd_message]\<rparr>) = (Good (), s2)" "all_freed s2"
      "hp_out s2 = hp_out s" "hp_err s2 = hp_err s @ [cwd_message]" "hp_faults s2 = tl (hp_faults s)"
      using free [of "hp_err s @ [cwd_message]"] keeps by auto
    ultimately show ?thesis
      using resize keeps subset assms(2)
      by (intro exI [of _ s2]) (simp add: heap_run h_getcwd_def cwd_message_def settled_def refused_def only_live_def)
  qed
qed

lemma cwd_loop_settled:
  assumes "only_live None s" "answers rounds path_max cwd"
  shows "\<exists>r s'. cwd_loop (Suc rounds) cwd None (word_of_int path_max) s = (Good r, s') \<and> settled cwd s r s'"
proof (cases cwd)
  case (Inl e)
  then have e: "e \<noteq> ERANGE" "0 < path_max" "path_max \<le> 9223372036854775808" using assms(2) by (simp_all add: answers_def)
  then have "int (unat (word_of_int path_max :: uint64)) = path_max"
    by (simp add: unsigned_of_int take_bit_int_eq_self_iff)
  then have "0 < unat (word_of_int path_max :: uint64)" using e(2) by linarith
  from cwd_loop_refused [OF assms(1) e(1) this] Inl show ?thesis by blast
next
  case (Inr d)
  then have d: "enough_rounds rounds path_max d" "NUL \<notin> set d" using assms(2) by (simp_all add: answers_def)
  from cwd_loop_ends [OF assms(1) d(2) enough_unat [OF d(1)]] obtain r s' where
    "cwd_loop (Suc rounds) (Inr d) None (word_of_int path_max) s = (Good r, s')" "found d s r s'" by blast
  moreover from this(2) have "settled (Inr d) s r s'"
    by (cases r) (auto simp: found_def settled_def refused_def)
  ultimately show ?thesis using Inr by blast
qed

lemma getcwd_ends:
  assumes "answers rounds (path_max_or_default path_max) cwd"
  shows "\<exists>r s'. getcwd_main (Suc rounds) path_max cwd (fresh_heap faults) = (Good r, s') \<and> all_freed s'
    \<and> (r = EXIT_SUCCESS \<and> (\<exists>d. cwd = Inr d \<and> hp_out s' = cwd_line d) \<and> hp_err s' = []
       \<or> r = EXIT_FAILURE \<and> hp_out s' = [] \<and> (\<exists>m. hp_err s' = [m] \<and> refused cwd faults m))"
proof -
  let ?n = "word_of_int (path_max_or_default path_max) :: uint64" and ?s = "fresh_heap faults"
  have "only_live None ?s" by (simp add: only_live_def all_freed_def fresh_heap_def)
  from cwd_loop_settled [OF this assms] obtain r s1 where
    run: "cwd_loop (Suc rounds) cwd None ?n ?s = (Good r, s1)" "settled cwd ?s r s1" by blast
  show ?thesis
  proof (cases r)
    case None
    with run show ?thesis
      by (intro exI [of _ 1] exI [of _ s1]) (auto simp: getcwd_main_def heap_run settled_def only_live_def fresh_heap_def)
  next
    case (Some p)
    with run(2) obtain d where d: "cwd = Inr d" and "only_live (Some p) s1" "h_string p s1 = (Good d, s1)" "hp_out s1 = []" "hp_err s1 = []"
      by (auto simp: settled_def fresh_heap_def)
    with live_print [of p s1 d] obtain s2 where
      "h_then (h_string p) (\<lambda>d. h_then (h_printf (cwd_line d)) (\<lambda>_. h_free (Some p))) s1 = (Good (), s2)"
      "all_freed s2" "hp_out s2 = cwd_line d" "hp_err s2 = []" by auto
    moreover from this(1) have "h_then (h_string p) (\<lambda>d. h_then (h_printf (cwd_line d)) (\<lambda>_. h_then (h_free (Some p)) (\<lambda>_. h_ret EXIT_SUCCESS))) s1
        = (Good EXIT_SUCCESS, s2)"
      using \<open>h_string p s1 = (Good d, s1)\<close> by (simp add: heap_run)
    ultimately show ?thesis
      using run(1) Some d by (intro exI [of _ 0] exI [of _ s2]) (simp add: getcwd_main_def then_Good)
  qed
qed

lemma print_cwd:
  assumes "all_freed s" "answers rounds path_max cwd"
  shows "\<exists>r s'. printCurrentWorkingDirectory (Suc rounds) cwd path_max s = (r, s') \<and> all_freed s' \<and> set (hp_faults s') \<subseteq> set (hp_faults s)
    \<and> (r = Quits EXIT_FAILURE \<and> hp_out s' = hp_out s \<and> (\<exists>m. hp_err s' = hp_err s @ [m] \<and> refused cwd (hp_faults s) m)
       \<or> (\<exists>d. cwd = Inr d \<and> r = Good () \<and> hp_out s' = hp_out s @ cwd_line d) \<and> hp_err s' = hp_err s)"
proof -
  let ?n = "word_of_int path_max :: uint64"
  have "only_live None s" using assms(1) by (simp add: only_live_def)
  from cwd_loop_settled [OF this assms(2)] obtain r s1 where
    run: "cwd_loop (Suc rounds) cwd None ?n s = (Good r, s1)" "settled cwd s r s1" by blast
  show ?thesis
  proof (cases r)
    case None
    with run show ?thesis
      by (simp add: printCurrentWorkingDirectory_def getCurrentWorkingDirectory_def then_Good h_exit_def settled_def only_live_def)
  next
    case (Some p)
    with run(2) obtain d where d: "cwd = Inr d" "only_live (Some p) s1" "h_string p s1 = (Good d, s1)"
      "hp_out s1 = hp_out s" "hp_err s1 = hp_err s" "set (hp_faults s1) \<subseteq> set (hp_faults s)"
      by (auto simp: settled_def)
    with live_print [of p s1 d] obtain s2 where
      "h_then (h_string p) (\<lambda>d. h_then (h_printf (cwd_line d)) (\<lambda>_. h_free (Some p))) s1 = (Good (), s2)"
      "all_freed s2" "hp_out s2 = hp_out s @ cwd_line d" "hp_err s2 = hp_err s" "set (hp_faults s2) \<subseteq> set (hp_faults s)"
      by auto
    with run(1) Some d(1) show ?thesis
      by (simp add: printCurrentWorkingDirectory_def getCurrentWorkingDirectory_def then_Good)
  qed
qed

lemma chdir_main_parts:
  assumes "operand dir"
  shows "chdir_main rounds (\<lambda>_. path_max) before chdir_fails (\<lambda>_. after) [name, dir] s =
      h_then (printCurrentWorkingDirectory rounds before (path_max_or_default path_max)) (\<lambda>_.
       if chdir_fails dir then h_then (h_perror ''chdir'') (\<lambda>_. h_exit EXIT_FAILURE)
       else h_then (printCurrentWorkingDirectory rounds after (path_max_or_default path_max)) (\<lambda>_. h_ret EXIT_SUCCESS)) s"
proof -
  have "chdir_arguments [name, dir] = Returns (Some dir)"
    using assms by (simp add: chdir_arguments_def chdir_parse_arguments_def chdir_handle_arguments_def with_options_operands argv_at_def)
  then show ?thesis by (simp add: chdir_main_def h_cli_def then_Good Let_def)
qed

text \<open>What \<^verbatim>\<open>chdir\<close> ends with when no allocation fails.\<close>

definition chdir_outcome :: "int + string \<Rightarrow> bool \<Rightarrow> int + string \<Rightarrow> int hresult \<Rightarrow> string \<Rightarrow> err_item list \<Rightarrow> bool" where
  "chdir_outcome before fails after r out err \<longleftrightarrow>
     (case before of
        Inl _ \<Rightarrow> r = Quits EXIT_FAILURE \<and> out = [] \<and> err = [cwd_message]
      | Inr d \<Rightarrow>
          if fails then r = Quits EXIT_FAILURE \<and> out = cwd_line d \<and> err = [Perror ''chdir'']
          else case after of
            Inl _ \<Rightarrow> r = Quits EXIT_FAILURE \<and> out = cwd_line d \<and> err = [cwd_message]
          | Inr e \<Rightarrow> r = Good EXIT_SUCCESS \<and> out = cwd_line d @ cwd_line e \<and> err = [])"

text \<open>C39. getcwd and chdir, for every path limit from 1 on and every answer of \<^verbatim>\<open>getcwd\<close>, a directory or an error other than that
  of a small buffer. They double their buffer until the directory fits, which it does after finitely many rounds, and print it; an
  allocation or a \<^verbatim>\<open>getcwd\<close> that fails ends them with failure and its message, and every block is freed on every path.
  Without a failed allocation the result of \<^verbatim>\<open>chdir\<close> is what the answers of \<^verbatim>\<open>getcwd\<close> and \<^verbatim>\<open>chdir\<close> say.\<close>

theorem directory_programs_end:
  assumes "answers rounds (path_max_or_default path_max) before" "answers rounds (path_max_or_default path_max) after"
    and "operand dir"
  shows "(\<exists>r s'. getcwd_main (Suc rounds) path_max before (fresh_heap faults) = (Good r, s') \<and> all_freed s'
      \<and> (r = EXIT_SUCCESS \<and> (\<exists>d. before = Inr d \<and> hp_out s' = cwd_line d) \<and> hp_err s' = []
         \<or> r = EXIT_FAILURE \<and> hp_out s' = [] \<and> (\<exists>m. hp_err s' = [m] \<and> refused before faults m)))
    \<and> (\<exists>r s'. chdir_main (Suc rounds) (\<lambda>_. path_max) before chdir_fails (\<lambda>_. after) [name, dir] (fresh_heap faults) = (r, s')
      \<and> all_freed s' \<and> r \<noteq> Bad \<and> (True \<in> set faults \<or> chdir_outcome before (chdir_fails dir) after r (hp_out s') (hp_err s')))"
proof
  show "\<exists>r s'. getcwd_main (Suc rounds) path_max before (fresh_heap faults) = (Good r, s') \<and> all_freed s'
      \<and> (r = EXIT_SUCCESS \<and> (\<exists>d. before = Inr d \<and> hp_out s' = cwd_line d) \<and> hp_err s' = []
         \<or> r = EXIT_FAILURE \<and> hp_out s' = [] \<and> (\<exists>m. hp_err s' = [m] \<and> refused before faults m))"
    by (rule getcwd_ends [OF assms(1)])
next
  let ?s = "fresh_heap faults"
  have "all_freed ?s" by (simp add: all_freed_def fresh_heap_def)
  from print_cwd [OF this assms(1)] obtain r1 s1 where
    one: "printCurrentWorkingDirectory (Suc rounds) before (path_max_or_default path_max) ?s = (r1, s1)" "all_freed s1"
      "set (hp_faults s1) \<subseteq> set faults"
      "r1 = Quits EXIT_FAILURE \<and> hp_out s1 = [] \<and> (\<exists>m. hp_err s1 = [m] \<and> refused before faults m)
        \<or> (\<exists>d. before = Inr d \<and> r1 = Good () \<and> hp_out s1 = cwd_line d) \<and> hp_err s1 = []"
    by (auto simp: fresh_heap_def)
  from print_cwd [OF one(2) assms(2)] obtain r2 s2 where
    two: "printCurrentWorkingDirectory (Suc rounds) after (path_max_or_default path_max) s1 = (r2, s2)" "all_freed s2"
      "r2 = Quits EXIT_FAILURE \<and> hp_out s2 = hp_out s1 \<and> (\<exists>m. hp_err s2 = hp_err s1 @ [m] \<and> refused after (hp_faults s1) m)
        \<or> (\<exists>d. after = Inr d \<and> r2 = Good () \<and> hp_out s2 = hp_out s1 @ cwd_line d) \<and> hp_err s2 = hp_err s1"
    by auto
  have err: "all_freed (s1\<lparr>hp_err := x\<rparr>)" for x using one(2) by (simp add: all_freed_def)
  have sub: "refused after faults m" if "refused after (hp_faults s1) m" for m using that one(3) by (auto simp: refused_def)
  show "\<exists>r s'. chdir_main (Suc rounds) (\<lambda>_. path_max) before chdir_fails (\<lambda>_. after) [name, dir] ?s = (r, s')
      \<and> all_freed s' \<and> r \<noteq> Bad \<and> (True \<in> set faults \<or> chdir_outcome before (chdir_fails dir) after r (hp_out s') (hp_err s'))"
    using one(4)
  proof
    assume "r1 = Quits EXIT_FAILURE \<and> hp_out s1 = [] \<and> (\<exists>m. hp_err s1 = [m] \<and> refused before faults m)"
    then have "chdir_outcome before (chdir_fails dir) after (Quits EXIT_FAILURE) (hp_out s1) (hp_err s1) \<or> True \<in> set faults"
      "r1 = Quits EXIT_FAILURE"
      by (cases before; auto simp: refused_def chdir_outcome_def)+
    with one(1,2) show ?thesis
      unfolding chdir_main_parts [OF assms(3)] by (intro exI [of _ "Quits EXIT_FAILURE"] exI [of _ s1]) (simp add: heap_run, blast)
  next
    assume d: "(\<exists>d. before = Inr d \<and> r1 = Good () \<and> hp_out s1 = cwd_line d) \<and> hp_err s1 = []"
    then have r1: "r1 = Good ()" "hp_err s1 = []" by auto
    show ?thesis
    proof (cases "chdir_fails dir")
      case True
      with r1 one(1) have "chdir_main (Suc rounds) (\<lambda>_. path_max) before chdir_fails (\<lambda>_. after) [name, dir] ?s
          = (Quits EXIT_FAILURE, s1\<lparr>hp_err := [Perror ''chdir'']\<rparr>)"
        unfolding chdir_main_parts [OF assms(3)] by (simp add: heap_run)
      moreover have "chdir_outcome before (chdir_fails dir) after (Quits EXIT_FAILURE) (hp_out s1) [Perror ''chdir'']"
        using d True by (auto simp: chdir_outcome_def)
      ultimately show ?thesis using err
        by (intro exI [of _ "Quits EXIT_FAILURE"] exI [of _ "s1\<lparr>hp_err := [Perror ''chdir'']\<rparr>"]) simp
    next
      case False
      obtain d1 where d1: "before = Inr d1" "hp_out s1 = cwd_line d1" using d by blast
      have run: "chdir_main (Suc rounds) (\<lambda>_. path_max) before chdir_fails (\<lambda>_. after) [name, dir] ?s
          = (case r2 of Good _ \<Rightarrow> (Good EXIT_SUCCESS, s2) | Quits n \<Rightarrow> (Quits n, s2) | Bad \<Rightarrow> (Bad, s2))"
        unfolding chdir_main_parts [OF assms(3)] using one(1) r1(1) two(1) False by (cases r2) (simp_all add: heap_run)
      from two(3) show ?thesis
      proof
        assume bad: "r2 = Quits EXIT_FAILURE \<and> hp_out s2 = hp_out s1 \<and> (\<exists>m. hp_err s2 = hp_err s1 @ [m] \<and> refused after (hp_faults s1) m)"
        then obtain m where m: "hp_err s2 = [m]" "refused after faults m" using r1(2) sub by auto
        have "chdir_outcome before (chdir_fails dir) after (Quits EXIT_FAILURE) (hp_out s2) (hp_err s2) \<or> True \<in> set faults"
        proof (cases after)
          case (Inl e)
          with m bad d1 False show ?thesis unfolding refused_def chdir_outcome_def by simp blast
        next
          case (Inr e)
          with m show ?thesis by (simp add: refused_def)
        qed
        with bad run two(2) show ?thesis by (intro exI [of _ "Quits EXIT_FAILURE"] exI [of _ s2]) auto
      next
        assume good: "(\<exists>d. after = Inr d \<and> r2 = Good () \<and> hp_out s2 = hp_out s1 @ cwd_line d) \<and> hp_err s2 = hp_err s1"
        then have "chdir_outcome before (chdir_fails dir) after (Good EXIT_SUCCESS) (hp_out s2) (hp_err s2)" "r2 = Good ()"
          using d1 False r1(2) by (auto simp: chdir_outcome_def)
        with run two(2) show ?thesis by (intro exI [of _ "Good EXIT_SUCCESS"] exI [of _ s2]) simp
      qed
    qed
  qed
qed

lemma directory_programs_end_witness:
  "\<exists>r s'. getcwd_main 3 2 (Inr ''/tmp'') (fresh_heap [False, True]) = (Good r, s') \<and> all_freed s'"
proof -
  have a: "answers 2 (path_max_or_default 2) (Inr ''/tmp'')" "answers 2 (path_max_or_default 2) (Inl 2)"
    by (simp_all add: answers_def enough_rounds_def path_max_or_default_def)
  from directory_programs_end [OF a, of "''x''" "[False, True]" "\<lambda>_. False" "''p''"]
  have "\<exists>r s'. getcwd_main (Suc 2) 2 (Inr ''/tmp'') (fresh_heap [False, True]) = (Good r, s') \<and> all_freed s'"
    by (simp add: operand_def) blast
  then show ?thesis by simp
qed

end
