(* ===== verification/System_Reports.thy ===== *)
theory System_Reports
  imports Text_Programs
begin

text \<open>
  The programs that report on the system: \<^verbatim>\<open>src/system-information\<close>, \<^verbatim>\<open>src/random-numbers\<close>, and \<^verbatim>\<open>clock\<close>, \<^verbatim>\<open>times\<close> and
  \<^verbatim>\<open>getrusage\<close> of \<^verbatim>\<open>src/process\<close>, which measure a calculation. What the kernel and the library answer are arguments.
\<close>

section \<open>Tables\<close>

text \<open>The constants of \<^verbatim>\<open>sysconf\<close>; the flag marks those that are in the table only if the platform defines them.\<close>

definition sysconf_pairs :: "(string \<times> bool) list" where
  "sysconf_pairs = [
      (''_SC_AIO_LISTIO_MAX'', False), (''_SC_AIO_MAX'', False), (''_SC_AIO_PRIO_DELTA_MAX'', False),
      (''_SC_ARG_MAX'', False), (''_SC_ATEXIT_MAX'', False), (''_SC_BC_BASE_MAX'', False),
      (''_SC_BC_DIM_MAX'', False), (''_SC_BC_SCALE_MAX'', False), (''_SC_BC_STRING_MAX'', False),
      (''_SC_CHILD_MAX'', False), (''_SC_CLK_TCK'', False), (''_SC_COLL_WEIGHTS_MAX'', False),
      (''_SC_DELAYTIMER_MAX'', False), (''_SC_EXPR_NEST_MAX'', False), (''_SC_HOST_NAME_MAX'', False),
      (''_SC_IOV_MAX'', False), (''_SC_LINE_MAX'', False), (''_SC_LOGIN_NAME_MAX'', False),
      (''_SC_NGROUPS_MAX'', False), (''_SC_GETGR_R_SIZE_MAX'', False), (''_SC_GETPW_R_SIZE_MAX'', False),
      (''_SC_MQ_OPEN_MAX'', False), (''_SC_MQ_PRIO_MAX'', False), (''_SC_OPEN_MAX'', False),
      (''_SC_PAGE_SIZE'', False), (''_SC_PAGESIZE'', False), (''_SC_THREAD_DESTRUCTOR_ITERATIONS'', False),
      (''_SC_THREAD_KEYS_MAX'', False), (''_SC_THREAD_STACK_MIN'', False), (''_SC_THREAD_THREADS_MAX'', False),
      (''_SC_RE_DUP_MAX'', False), (''_SC_RTSIG_MAX'', False), (''_SC_SEM_NSEMS_MAX'', False),
      (''_SC_SEM_VALUE_MAX'', False), (''_SC_SIGQUEUE_MAX'', False), (''_SC_STREAM_MAX'', False),
      (''_SC_SYMLOOP_MAX'', False), (''_SC_TIMER_MAX'', False), (''_SC_TTY_NAME_MAX'', False),
      (''_SC_TZNAME_MAX'', False), (''_SC_ADVISORY_INFO'', False), (''_SC_BARRIERS'', False),
      (''_SC_ASYNCHRONOUS_IO'', False), (''_SC_CLOCK_SELECTION'', False), (''_SC_CPUTIME'', False),
      (''_SC_FSYNC'', False), (''_SC_IPV6'', False), (''_SC_JOB_CONTROL'', False), (''_SC_MAPPED_FILES'', False),
      (''_SC_MEMLOCK'', False), (''_SC_MEMLOCK_RANGE'', False), (''_SC_MEMORY_PROTECTION'', False),
      (''_SC_MESSAGE_PASSING'', False), (''_SC_MONOTONIC_CLOCK'', False), (''_SC_PRIORITIZED_IO'', False),
      (''_SC_PRIORITY_SCHEDULING'', False), (''_SC_RAW_SOCKETS'', False), (''_SC_READER_WRITER_LOCKS'', False),
      (''_SC_REALTIME_SIGNALS'', False), (''_SC_REGEXP'', False), (''_SC_SAVED_IDS'', False),
      (''_SC_SEMAPHORES'', False), (''_SC_SHARED_MEMORY_OBJECTS'', False), (''_SC_SHELL'', False),
      (''_SC_SPAWN'', False), (''_SC_SPIN_LOCKS'', False), (''_SC_SPORADIC_SERVER'', False),
      (''_SC_SS_REPL_MAX'', True), (''_SC_SYNCHRONIZED_IO'', False), (''_SC_THREAD_ATTR_STACKADDR'', False),
      (''_SC_THREAD_ATTR_STACKSIZE'', False), (''_SC_THREAD_CPUTIME'', False), (''_SC_THREAD_PRIO_INHERIT'', False),
      (''_SC_THREAD_PRIO_PROTECT'', False), (''_SC_THREAD_PRIORITY_SCHEDULING'', False),
      (''_SC_THREAD_PROCESS_SHARED'', False), (''_SC_THREAD_ROBUST_PRIO_INHERIT'', True),
      (''_SC_THREAD_ROBUST_PRIO_PROTECT'', True), (''_SC_THREAD_SAFE_FUNCTIONS'', False),
      (''_SC_THREAD_SPORADIC_SERVER'', False), (''_SC_THREADS'', False), (''_SC_TIMEOUTS'', False),
      (''_SC_TIMERS'', False), (''_SC_TRACE'', False), (''_SC_TRACE_EVENT_FILTER'', False),
      (''_SC_TRACE_EVENT_NAME_MAX'', True), (''_SC_TRACE_INHERIT'', False), (''_SC_TRACE_LOG'', False),
      (''_SC_TRACE_NAME_MAX'', True), (''_SC_TRACE_SYS_MAX'', True), (''_SC_TRACE_USER_EVENT_MAX'', True),
      (''_SC_TYPED_MEMORY_OBJECTS'', False), (''_SC_VERSION'', False), (''_SC_V7_ILP32_OFF32'', True),
      (''_SC_V7_ILP32_OFFBIG'', True), (''_SC_V7_LP64_OFF64'', True), (''_SC_V7_LPBIG_OFFBIG'', True),
      (''_SC_2_C_BIND'', False), (''_SC_2_C_DEV'', False), (''_SC_2_CHAR_TERM'', False), (''_SC_2_FORT_DEV'', False),
      (''_SC_2_FORT_RUN'', False), (''_SC_2_LOCALEDEF'', False), (''_SC_2_PBS'', False),
      (''_SC_2_PBS_ACCOUNTING'', False), (''_SC_2_PBS_CHECKPOINT'', False), (''_SC_2_PBS_LOCATE'', False),
      (''_SC_2_PBS_MESSAGE'', False), (''_SC_2_PBS_TRACK'', False), (''_SC_2_SW_DEV'', False),
      (''_SC_2_UPE'', False), (''_SC_2_VERSION'', False), (''_SC_XOPEN_CRYPT'', False),
      (''_SC_XOPEN_ENH_I18N'', False), (''_SC_XOPEN_REALTIME'', False), (''_SC_XOPEN_REALTIME_THREADS'', False),
      (''_SC_XOPEN_SHM'', False), (''_SC_XOPEN_STREAMS'', False), (''_SC_XOPEN_UNIX'', False),
      (''_SC_XOPEN_UUCP'', True), (''_SC_XOPEN_VERSION'', False)]"

text \<open>\<^verbatim>\<open>sysconf\<close> answers with the message of \<^verbatim>\<open>errno\<close>, or a number.\<close>

definition get_sysconf_value :: "(string \<Rightarrow> string + int) \<Rightarrow> string \<Rightarrow> string" where
  "get_sysconf_value sysconf name =
     (case sysconf name of
        Inl message \<Rightarrow> name @ '': '' @ message @ [NL]
      | Inr v \<Rightarrow> name @ '': '' @ dec_int v @ [NL])"

definition sysconf_main :: "(string \<Rightarrow> bool) \<Rightarrow> (string \<Rightarrow> string + int) \<Rightarrow> string" where
  "sysconf_main defined sysconf =
     concat (map (\<lambda>(name, optional). get_sysconf_value sysconf name)
       (filter (\<lambda>(name, optional). optional \<longrightarrow> defined name) sysconf_pairs))"

definition env_variables :: "string list" where
  "env_variables = [
      ''ARFLAGS'', ''CC'', ''COLUMNS'', ''CDPATH'', ''CFLAGS'', ''CHARSET'', ''DATEMSK'', ''DEAD'', ''EDITOR'',
      ''ENV'', ''EXINIT'', ''FC'', ''FCEDIT'', ''FFLAGS'', ''GFLAGS'', ''GET'', ''HISTFILE'', ''HISTSIZE'',
      ''HISTORY'', ''HOME'', ''IFS'', ''LANG'', ''LDFLAGS'', ''LEX'', ''LFLAGS'', ''LC_ALL'', ''LC_COLLATE'',
      ''LC_CTYPE'', ''LC_MESSAGES'', ''LC_MONETARY'', ''LC_NUMERIC'', ''LC_TIME'', ''LINENO'', ''LINES'', ''LISTER'',
      ''LOGNAME'', ''LPDEST'', ''MAIL'', ''MAILCHECK'', ''MAILER'', ''MAILPATH'', ''MAILRC'', ''MAKEFLAGS'',
      ''MAKESHELL'', ''MANPATH'', ''MBOX'', ''MORE'', ''MSGVERB'', ''NPROC'', ''NLSPATH'', ''OLDPWD'', ''OPTARG'',
      ''OPTERR'', ''OPTIND'', ''PAGER'', ''PATH'', ''PPID'', ''PRINTER'', ''PROCLANG'', ''PROJECTDIR'', ''PS1'',
      ''PS2'', ''PS3'', ''PS4'', ''PWD'', ''RANDOM'', ''SECONDS'', ''SHELL'', ''TERM'', ''TERMCAP'', ''TERMINFO'',
      ''TMPDIR'', ''TZ'', ''USER'', ''VISUAL'', ''YACC'', ''YFLAGS'']"

definition print_env_variable :: "(string \<Rightarrow> string option) \<Rightarrow> string \<Rightarrow> string" where
  "print_env_variable getenv variable =
     (case getenv variable of
        Some v \<Rightarrow> variable @ '': '' @ v @ [NL]
      | None \<Rightarrow> variable @ '': (not set)'' @ [NL])"

definition getenv_main :: "(string \<Rightarrow> string option) \<Rightarrow> string" where
  "getenv_main getenv = concat (map (print_env_variable getenv) env_variables)"

section \<open>Limits\<close>

text \<open>A limit is 64 bits wide; \<^verbatim>\<open>RLIM_INFINITY\<close> is the largest. \<^verbatim>\<open>%lld\<close> prints it as a signed number.\<close>

definition RLIM_INFINITY :: uint64 where
  "RLIM_INFINITY = - 1"

definition show_limit :: "(string \<Rightarrow> (uint64 \<times> uint64) option) \<Rightarrow> string \<Rightarrow> unit hprog" where
  "show_limit getrlimit name =
     (case getrlimit name of
        Some (cur, maximum) \<Rightarrow>
          h_printf (name @ '':'' @ [NL] @ [TAB] @ ''Current soft limit: ''
            @ (if cur = RLIM_INFINITY then ''unlimited'' else dec_int (sint cur) @ '' bytes'') @ [NL]
            @ [TAB] @ ''Current hard limit: ''
            @ (if maximum = RLIM_INFINITY then ''unlimited'' else dec_int (sint maximum) @ '' bytes'') @ [NL])
      | None \<Rightarrow> h_perror ''Error getting resource limit'')"

fun in_order :: "unit hprog list \<Rightarrow> int hprog" where
  "in_order [] = h_ret EXIT_SUCCESS"
| "in_order (c # cs) = h_then c (\<lambda>_. in_order cs)"

definition getrlimit_main :: "(string \<Rightarrow> (uint64 \<times> uint64) option) \<Rightarrow> int hprog" where
  "getrlimit_main getrlimit =
     in_order (map (show_limit getrlimit)
       [''RLIMIT_CORE'', ''RLIMIT_CPU'', ''RLIMIT_DATA'', ''RLIMIT_FSIZE'', ''RLIMIT_NOFILE'', ''RLIMIT_STACK'', ''RLIMIT_AS''])"

text \<open>\<open>fails\<close> says for which resource \<^verbatim>\<open>setrlimit\<close> fails.\<close>

definition set_rlimit :: "(string \<Rightarrow> bool) \<Rightarrow> string \<Rightarrow> uint64 \<Rightarrow> uint64 \<Rightarrow> unit hprog" where
  "set_rlimit fails name soft_limit hard_limit =
     h_then (h_printf (''Resource: '' @ name @ [NL])) (\<lambda>_.
     if fails name then h_perror ''setrlimit''
     else h_printf (''  Soft limit set to: '' @ dec_int (sint soft_limit) @ [NL] @ ''  Hard limit set to: '' @ dec_int (sint hard_limit) @ [NL]))"

definition setrlimit_main :: "(string \<Rightarrow> bool) \<Rightarrow> int hprog" where
  "setrlimit_main fails =
     in_order
       [set_rlimit fails ''RLIMIT_CORE'' 8 32,
        set_rlimit fails ''RLIMIT_CPU'' 5 10,
        h_printf (''Resource: RLIMIT_DATA'' @ [NL]),
        h_printf (''  Not settable by setrlimit'' @ [NL]),
        set_rlimit fails ''RLIMIT_FSIZE'' 1048576 1048576,
        set_rlimit fails ''RLIMIT_NOFILE'' 1024 2048,
        set_rlimit fails ''RLIMIT_STACK'' 8388608 16777216,
        set_rlimit fails ''RLIMIT_AS'' 6710886 6710886]"

section \<open>Names\<close>

text \<open>The five texts of \<^verbatim>\<open>uname\<close>.\<close>

definition uname_main :: "(string \<times> string \<times> string \<times> string \<times> string) option \<Rightarrow> int hprog" where
  "uname_main uname =
     (case uname of
        None \<Rightarrow> h_fail ''uname''
      | Some (sysname, nodename, release, version, machine) \<Rightarrow>
          h_then (h_printf (''System Name: '' @ sysname @ [NL] @ ''Node Name: '' @ nodename @ [NL] @ ''Release: '' @ release @ [NL]
            @ ''Version: '' @ version @ [NL] @ ''Machine: '' @ machine @ [NL])) (\<lambda>_. h_ret EXIT_FAILURE))"

text \<open>\<^verbatim>\<open>getlogin_r\<close> and \<^verbatim>\<open>gethostname\<close> store the name with its NUL if it fits, and fail otherwise.\<close>

definition h_get_name :: "string option \<Rightarrow> addr \<Rightarrow> nat \<Rightarrow> bool hprog" where
  "h_get_name name p n =
     (case name of
        None \<Rightarrow> h_ret False
      | Some d \<Rightarrow> if length d + 1 \<le> n then h_then (h_strcpy p d) (\<lambda>_. h_ret True) else h_ret False)"

definition getlogin_main :: "int \<Rightarrow> string option \<Rightarrow> int hprog" where
  "getlogin_main max_length getlogin_r =
     (if max_length \<le> 0 then h_fail ''sysconf''
      else h_then (h_malloc (nat max_length + 1)) (\<lambda>q. case q of
        None \<Rightarrow> h_fail ''malloc''
      | Some login_name \<Rightarrow>
          h_then (h_get_name getlogin_r login_name (nat max_length)) (\<lambda>ok.
          if ok
          then h_then (h_string login_name) (\<lambda>t. h_then (h_printf (''Logged-in user: '' @ t @ [NL])) (\<lambda>_.
               h_then (h_free q) (\<lambda>_. h_ret EXIT_SUCCESS)))
          else h_then (h_perror ''getlogin_r'') (\<lambda>_. h_then (h_free q) (\<lambda>_. h_ret EXIT_FAILURE)))))"

definition gethostname_main :: "int \<Rightarrow> string option \<Rightarrow> int hprog" where
  "gethostname_main max_length gethostname =
     (if max_length \<le> 0 then h_fail ''sysconf''
      else h_then (h_malloc (nat max_length + 1)) (\<lambda>q. case q of
        None \<Rightarrow> h_fail ''malloc''
      | Some hostname \<Rightarrow>
          h_then (h_get_name gethostname hostname (nat max_length)) (\<lambda>ok.
          if ok
          then h_then (h_string hostname) (\<lambda>t. h_then (h_printf (''Hostname: '' @ t @ [NL])) (\<lambda>_.
               h_then (h_free q) (\<lambda>_. h_ret EXIT_SUCCESS)))
          else h_then (h_perror ''gethostname'') (\<lambda>_. h_then (h_free q) (\<lambda>_. h_ret EXIT_FAILURE)))))"

section \<open>Random numbers\<close>

text \<open>A generator: \<open>seeded\<close> is the state after \<^verbatim>\<open>srandom\<close>, \<open>draw\<close> the next number and state.\<close>

definition COUNT :: nat where
  "COUNT = 5"

fun print_random_numbers :: "('g \<Rightarrow> int \<times> 'g) \<Rightarrow> nat \<Rightarrow> nat \<Rightarrow> 'g \<Rightarrow> string \<times> 'g" where
  "print_random_numbers draw i 0 g = ([], g)"
| "print_random_numbers draw i (Suc n) g =
     (case draw g of (random_value, g') \<Rightarrow>
      case print_random_numbers draw (Suc i) n g' of (out, g'') \<Rightarrow>
        (''Random number '' @ dec_nat i @ '': '' @ dec_int random_value @ [NL] @ out, g''))"

definition srandom_main :: "(uint32 \<Rightarrow> 'g) \<Rightarrow> ('g \<Rightarrow> int \<times> 'g) \<Rightarrow> uint32 \<Rightarrow> string" where
  "srandom_main seeded draw seed =
     (case print_random_numbers draw 1 COUNT (seeded seed) of (first, g1) \<Rightarrow>
      case print_random_numbers draw 1 COUNT (seeded (seed + 1)) of (second, g2) \<Rightarrow>
      case print_random_numbers draw 1 COUNT (seeded seed) of (third, g3) \<Rightarrow>
        ''First sequence'' @ [NL] @ first @ ''Second sequence'' @ [NL] @ second @ ''Third sequence'' @ [NL] @ third)"

section \<open>The calculation\<close>

definition MAX_NUMBER :: int where
  "MAX_NUMBER = 100"

text \<open>A sum that leaves the range of \<^verbatim>\<open>long long\<close> is undefined.\<close>

definition add_long_long :: "int \<Rightarrow> int \<Rightarrow> int option" where
  "add_long_long a b = (let c = a + b in if LLONG_MIN \<le> c \<and> c \<le> LLONG_MAX then Some c else None)"

fun add_numbers :: "int list \<Rightarrow> int \<Rightarrow> int option" where
  "add_numbers [] subtotal = Some subtotal"
| "add_numbers (x # xs) subtotal = (case add_long_long subtotal x of None \<Rightarrow> None | Some subtotal' \<Rightarrow> add_numbers xs subtotal')"

fun add_rounds :: "nat \<Rightarrow> int list \<Rightarrow> int \<Rightarrow> int option" where
  "add_rounds 0 numbers subtotal = Some subtotal"
| "add_rounds (Suc n) numbers subtotal = (case add_numbers numbers subtotal of None \<Rightarrow> None | Some subtotal' \<Rightarrow> add_rounds n numbers subtotal')"

text \<open>The numbers are what \<^verbatim>\<open>arc4random_uniform(MAX_NUMBER)\<close> has given; an allocation that fails ends the process.\<close>

definition performCalculation :: "int list \<Rightarrow> nat \<Rightarrow> int hprog" where
  "performCalculation numbers iterations =
     h_then (h_malloc (length numbers * 4)) (\<lambda>q. case q of
       None \<Rightarrow> h_then (h_perror ''Failed to allocate memory'') (\<lambda>_. h_exit EXIT_FAILURE)
     | Some p \<Rightarrow>
         (case add_rounds iterations numbers 0 of
            None \<Rightarrow> h_bad
          | Some subtotal \<Rightarrow> h_then (h_free q) (\<lambda>_. h_ret subtotal)))"

definition sum_line :: "string \<Rightarrow> nat \<Rightarrow> nat \<Rightarrow> int \<Rightarrow> string" where
  "sum_line who n iterations subtotal =
     who @ ''Sum of '' @ dec_nat n @ '' random numbers for '' @ dec_nat iterations @ '' iterations: '' @ dec_int subtotal @ [NL]"

definition calculation :: "int list \<Rightarrow> nat \<Rightarrow> int hprog" where
  "calculation numbers iterations =
     h_then (performCalculation numbers iterations) (\<lambda>subtotal.
     h_then (h_printf (sum_line [] (length numbers) iterations subtotal)) (\<lambda>_. h_ret EXIT_SUCCESS))"

text \<open>A process of \<^verbatim>\<open>clock\<close>: \<open>seconds\<close> is how the library prints a number of ticks as seconds.\<close>

definition clock_process :: "string \<Rightarrow> (int \<Rightarrow> string) \<Rightarrow> int \<Rightarrow> int \<Rightarrow> int list \<Rightarrow> nat \<Rightarrow> int hprog" where
  "clock_process who seconds start_time end_time numbers iterations =
     h_then (performCalculation numbers iterations) (\<lambda>subtotal.
     h_then (h_printf (sum_line who (length numbers) iterations subtotal)) (\<lambda>_.
     h_then (h_printf (who @ ''Real Time: '' @ dec_int (end_time - start_time) @ '' clock ticks'' @ [NL])) (\<lambda>_.
     h_then (h_printf (who @ ''CPU time used: '' @ seconds (end_time - start_time) @ '' seconds'' @ [NL])) (\<lambda>_. h_ret EXIT_SUCCESS))))"

record tms =
  tms_utime :: int
  tms_stime :: int
  tms_cutime :: int
  tms_cstime :: int

definition printTimes :: "tms \<Rightarrow> string" where
  "printTimes tms_data =
     ''User time: '' @ dec_int (tms_utime tms_data) @ '' clock ticks'' @ [NL]
     @ ''System time: '' @ dec_int (tms_stime tms_data) @ '' clock ticks'' @ [NL]
     @ ''Children'' @ [CHR 0x27] @ ''s user time: '' @ dec_int (tms_cutime tms_data) @ '' clock ticks'' @ [NL]
     @ ''Children'' @ [CHR 0x27] @ ''s system time: '' @ dec_int (tms_cstime tms_data) @ '' clock ticks'' @ [NL]"

text \<open>The parent of \<^verbatim>\<open>times\<close>, with the answers of the three calls.\<close>

definition times_parent :: "tms \<Rightarrow> tms \<Rightarrow> tms \<Rightarrow> int list \<Rightarrow> nat \<Rightarrow> int hprog" where
  "times_parent start_tms end_tms last_tms numbers iterations =
     h_then (performCalculation numbers iterations) (\<lambda>subtotal.
     h_then (h_printf (sum_line [] (length numbers) iterations subtotal)) (\<lambda>_.
     h_then (h_printf (''Real Time: '' @ dec_int (tms_stime end_tms - tms_stime start_tms) @ '' clock ticks'' @ [NL])) (\<lambda>_.
     h_then (h_printf (printTimes last_tms)) (\<lambda>_. h_ret EXIT_SUCCESS))))"

record rusage =
  ru_utime :: "int \<times> nat"
  ru_stime :: "int \<times> nat"
  ru_counts :: "int list"

text \<open>\<^verbatim>\<open>%06ld\<close>.\<close>

definition six_digits :: "nat \<Rightarrow> string" where
  "six_digits n = replicate (6 - length (dec_nat n)) (CHR ''0'') @ dec_nat n"

definition time_line :: "string \<Rightarrow> int \<times> nat \<Rightarrow> string" where
  "time_line name t = name @ '': '' @ dec_int (fst t) @ ''.'' @ six_digits (snd t) @ '' seconds'' @ [NL]"

text \<open>The members from \<^verbatim>\<open>ru_maxrss\<close> to \<^verbatim>\<open>ru_nivcsw\<close>, in their order.\<close>

definition usage_names :: "(string \<times> string) list" where
  "usage_names =
     [(''Maximum resident set size (RSS)'', '' kilobytes''), (''Integral shared memory size'', '' kilobytes''),
      (''Integral unshared data size'', '' kilobytes''), (''Integral unshared stack size'', '' kilobytes''),
      (''Page reclaims (soft page faults)'', []), (''Page faults (hard page faults)'', []), (''Swaps'', []),
      (''Block input operations'', []), (''Block output operations'', []), (''IPC messages sent'', []), (''IPC messages received'', []),
      (''Signals received'', []), (''Voluntary context switches'', []), (''Involuntary context switches'', [])]"

definition printUsage :: "rusage \<Rightarrow> string" where
  "printUsage ru =
     time_line ''User time'' (ru_utime ru) @ time_line ''System time'' (ru_stime ru)
     @ concat (map (\<lambda>((name, unit), n). name @ '': '' @ dec_int n @ unit @ [NL]) (zip usage_names (ru_counts ru)))"

definition getrusage_parent :: "rusage \<Rightarrow> rusage \<Rightarrow> int list \<Rightarrow> nat \<Rightarrow> int hprog" where
  "getrusage_parent children_ru self_ru numbers iterations =
     h_then (performCalculation numbers iterations) (\<lambda>subtotal.
     h_then (h_printf (sum_line [] (length numbers) iterations subtotal)) (\<lambda>_.
     h_then (h_printf (printUsage children_ru)) (\<lambda>_.
     h_then (h_printf (printUsage self_ru)) (\<lambda>_. h_ret EXIT_SUCCESS))))"

section \<open>What they do\<close>

lemma sum_bounds:
  assumes "\<forall>x \<in> set xs. 0 \<le> x \<and> x < MAX_NUMBER"
  shows "0 \<le> sum_list xs \<and> sum_list xs \<le> 99 * int (length xs)"
  using assms by (induction xs) (auto simp: MAX_NUMBER_def)

lemma add_numbers_sum:
  assumes "\<forall>x \<in> set xs. 0 \<le> x" "0 \<le> subtotal" "subtotal + sum_list xs \<le> LLONG_MAX"
  shows "add_numbers xs subtotal = Some (subtotal + sum_list xs)"
  using assms
proof (induction xs arbitrary: subtotal)
  case (Cons x xs)
  have "0 \<le> sum_list xs" using Cons.prems(1) by (intro sum_list_nonneg) simp
  then have "add_long_long subtotal x = Some (subtotal + x)"
    using Cons.prems by (simp add: add_long_long_def Let_def LLONG_MIN_def)
  with Cons show ?case by (simp add: add.assoc)
qed simp

lemma add_rounds_sum:
  assumes "\<forall>x \<in> set xs. 0 \<le> x" "0 \<le> subtotal" "subtotal + int n * sum_list xs \<le> LLONG_MAX"
  shows "add_rounds n xs subtotal = Some (subtotal + int n * sum_list xs)"
  using assms
proof (induction n arbitrary: subtotal)
  case (Suc n)
  have s: "0 \<le> sum_list xs" using Suc.prems(1) by (intro sum_list_nonneg) simp
  have p: "0 \<le> int n * sum_list xs" by (intro mult_nonneg_nonneg s) simp
  have e: "int (Suc n) * sum_list xs = sum_list xs + int n * sum_list xs" by (simp add: distrib_right)
  have "subtotal + sum_list xs \<le> LLONG_MAX" using Suc.prems(3) p unfolding e by linarith
  then have "add_numbers xs subtotal = Some (subtotal + sum_list xs)" by (rule add_numbers_sum [OF Suc.prems(1,2)])
  with Suc s show ?case by (simp add: distrib_right add.assoc)
qed simp

text \<open>The numbers of the programs: 100000 of them, and 20000 iterations.\<close>

lemma calculation_fits:
  assumes "\<forall>x \<in> set numbers. 0 \<le> x \<and> x < MAX_NUMBER" "length numbers * iterations \<le> 2000000000"
  shows "add_rounds iterations numbers 0 = Some (int iterations * sum_list numbers)"
    "0 \<le> int iterations * sum_list numbers" "int iterations * sum_list numbers \<le> 198000000000"
proof -
  have b: "0 \<le> sum_list numbers" "sum_list numbers \<le> 99 * int (length numbers)" using sum_bounds [OF assms(1)] by simp_all
  show low: "0 \<le> int iterations * sum_list numbers" using b(1) by simp
  have "int iterations * sum_list numbers \<le> int iterations * (99 * int (length numbers))"
    using b(2) by (intro mult_left_mono) simp_all
  also have "\<dots> = 99 * int (length numbers * iterations)" by simp
  also have "\<dots> \<le> 99 * 2000000000" using assms(2) by (intro mult_left_mono) linarith+
  finally show high: "int iterations * sum_list numbers \<le> 198000000000" by simp
  have "\<forall>x \<in> set numbers. 0 \<le> x" using assms(1) by simp
  from add_rounds_sum [OF this, of 0 iterations] high show "add_rounds iterations numbers 0 = Some (int iterations * sum_list numbers)"
    by (simp add: LLONG_MAX_def)
qed

text \<open>The subtotal that clock, times and getrusage compute never leaves the range of long long for the numbers of elements and iterations
  that they use, and is the number of iterations times the subtotal of the elements; their array is freed, and an allocation that fails
  ends the process with a message.\<close>

theorem calculation_sum:
  assumes "\<forall>x \<in> set numbers. 0 \<le> x \<and> x < MAX_NUMBER" "length numbers * iterations \<le> 2000000000"
  shows "performCalculation numbers iterations (fresh_heap faults) =
      (if failing 0 faults
       then (Quits EXIT_FAILURE, \<lparr>hp_blocks = [], hp_faults = tl faults, hp_out = [], hp_err = [Perror ''Failed to allocate memory'']\<rparr>)
       else (Good (int iterations * sum_list numbers), \<lparr>hp_blocks = [None], hp_faults = tl faults, hp_out = [], hp_err = []\<rparr>))
    \<and> 0 \<le> int iterations * sum_list numbers \<and> int iterations * sum_list numbers \<le> 198000000000"
  using calculation_fits [OF assms]
  by (simp add: performCalculation_def text_run)

lemma calculation_sum_witness:
  "performCalculation [7, 99] 3 (fresh_heap []) = (Good 318, \<lparr>hp_blocks = [None], hp_faults = [], hp_out = [], hp_err = []\<rparr>)"
  using calculation_sum [of "[7, 99]" 3 "[]"] by (simp add: MAX_NUMBER_def)

text \<open>The third sequence is the first.\<close>

theorem third_sequence_is_first:
  "\<exists>first second. srandom_main seeded draw seed =
     ''First sequence'' @ [NL] @ first @ ''Second sequence'' @ [NL] @ second @ ''Third sequence'' @ [NL] @ first"
  by (simp add: srandom_main_def split: prod.split) blast

text \<open>\<^verbatim>\<open>uname\<close> reports failure to its caller in every case.\<close>

theorem uname_never_succeeds: "fst (uname_main answer s) = Good EXIT_FAILURE"
  by (simp add: uname_main_def heap_run split: option.split prod.split)

lemma get_name_ends:
  assumes "NUL \<notin> set d" "length d < n"
  shows "\<exists>cells. h_get_name (Some d) (0, 0) n \<lparr>hp_blocks = [Some (replicate (Suc n) None)], hp_faults = fs, hp_out = [], hp_err = []\<rparr>
    = (Good True, \<lparr>hp_blocks = [Some cells], hp_faults = fs, hp_out = [], hp_err = []\<rparr>) \<and> read_string cells = Some d"
  using assms read_string_map [OF assms(1)]
  by (simp add: h_get_name_def h_strcpy_def text_run)

text \<open>Both programs stay inside their buffer and free it, and print the name if there is one that fits.\<close>

theorem name_programs_end:
  assumes "NUL \<notin> set d" "0 < n"
  shows "ends (getlogin_main n (Some d)) faults (Good (if failing 0 faults \<or> n \<le> int (length d) then EXIT_FAILURE else EXIT_SUCCESS))
      (if failing 0 faults \<or> n \<le> int (length d) then [] else ''Logged-in user: '' @ d @ [NL])
      (if failing 0 faults then [Perror ''malloc''] else if n \<le> int (length d) then [Perror ''getlogin_r''] else [])"
    and "ends (gethostname_main n (Some d)) faults (Good (if failing 0 faults \<or> n \<le> int (length d) then EXIT_FAILURE else EXIT_SUCCESS))
      (if failing 0 faults \<or> n \<le> int (length d) then [] else ''Hostname: '' @ d @ [NL])
      (if failing 0 faults then [Perror ''malloc''] else if n \<le> int (length d) then [Perror ''gethostname''] else [])"
proof -
  have n: "nat n + 1 = Suc (nat n)" by simp
  show "ends (getlogin_main n (Some d)) faults (Good (if failing 0 faults \<or> n \<le> int (length d) then EXIT_FAILURE else EXIT_SUCCESS))
      (if failing 0 faults \<or> n \<le> int (length d) then [] else ''Logged-in user: '' @ d @ [NL])
      (if failing 0 faults then [Perror ''malloc''] else if n \<le> int (length d) then [Perror ''getlogin_r''] else [])"
    using get_name_ends [OF assms(1), of "nat n" "tl faults"] assms(2)
    by (cases "failing 0 faults"; cases "n \<le> int (length d)")
      (auto simp: ends_def getlogin_main_def text_run h_get_name_def n simp del: replicate.simps)
  show "ends (gethostname_main n (Some d)) faults (Good (if failing 0 faults \<or> n \<le> int (length d) then EXIT_FAILURE else EXIT_SUCCESS))
      (if failing 0 faults \<or> n \<le> int (length d) then [] else ''Hostname: '' @ d @ [NL])
      (if failing 0 faults then [Perror ''malloc''] else if n \<le> int (length d) then [Perror ''gethostname''] else [])"
    using get_name_ends [OF assms(1), of "nat n" "tl faults"] assms(2)
    by (cases "failing 0 faults"; cases "n \<le> int (length d)")
      (auto simp: ends_def gethostname_main_def text_run h_get_name_def n simp del: replicate.simps)
qed

end
