(* ===== verification/Spec2Isabelle.thy ===== *)
theory Spec2Isabelle
  imports Waiting_Programs Thread_Programs Pipe_Reliable Pipe_Synchronized Socketpair Command_Lines Mux_Poll Mux_Select Mux_Client
    Shm_Mmap Cond_Mailbox Cond_Broadcast Thread_Counter Snprintf Net_Programs
    Sort_Search Number_Conversion Semaphores Char_Table Byte_Order
    Unix_Descriptors Unix_Seek Getopt_Long Cond_Timedwait Processes Stream_Programs Directories System_Reports
begin

text \<open>
  \<^bold>\<open>A verification of the programs of c-examples\<close>

  The repository holds about two hundred small C programs, one directory each, grouped by the part of the C
  library or of POSIX they show. There is no code shared between programs: every program has its own copy of
  functions such as \<^verbatim>\<open>parse_arguments\<close>, \<^verbatim>\<open>send_word\<close> or \<^verbatim>\<open>socket_bind\<close>. The programs with logic of
  their own are those in which two processes or threads work together (\<^verbatim>\<open>src/pipe\<close>, \<^verbatim>\<open>src/domain-socket\<close>,
  \<^verbatim>\<open>src/shared-memory\<close>, \<^verbatim>\<open>src/pthread-condition\<close>, \<^verbatim>\<open>src/pthread-mutex\<close>), the servers
  (\<^verbatim>\<open>src/io-multiplexing\<close>, \<^verbatim>\<open>src/networking-functions\<close>, \<^verbatim>\<open>src/sockets\<close>, \<^verbatim>\<open>src/tcp\<close>, \<^verbatim>\<open>src/udp\<close>), the
  command lines and number parsers all programs with arguments have, and the conversions of
  \<^verbatim>\<open>src/string-processing/snprintf\<close>.

  \<^bold>\<open>Conventions.\<close> A C function is a HOL function with the name of the source, prefixed by the program where
  several programs have one of that name. Machine integers are words of their width. What can go wrong is a
  value: \<open>result\<close> of \<open>C_Prelude\<close> has \<open>Exits\<close> (\<^verbatim>\<open>exit\<close> with what \<^verbatim>\<open>stderr\<close> shows), \<open>Undef\<close> (an access outside an
  array, or another undefined behaviour) and \<open>Blocks\<close>; state records have flags for the same. Processes and
  threads that run together are step relations on one state, so that a theorem about reachable states is about
  every schedule. The kernel is an argument: the failing calls, the sizes of reads, the answers and signals of a
  run are lists the theorems quantify over. The platform is Linux on x86-64 where the C standard leaves a
  choice (sizes of types, numbers of constants).

  \<^bold>\<open>The theories.\<close>
  \<^item> \<open>C_Prelude\<close>: words, C strings, decimal numerals, \<open>result\<close>, arrays. \<open>C_Text\<close>: \<^verbatim>\<open>fgets\<close> and
    \<^verbatim>\<open>strtok_r\<close>, and that cutting a file into lines and these into tokens gives the words of the file.
  \<^item> \<open>Word_Framing\<close>: the scanner of the sending processes under \<^verbatim>\<open>src/pipe\<close> and \<^verbatim>\<open>src/domain-socket/socketpair\<close>
    (\<^verbatim>\<open>child_process\<close>), related to the specification \<open>words_of\<close>, in the locale \<open>word_sender\<close>.
    \<open>Pipe_Kernel\<close>: a pipe, semaphores and the two processes as steps. \<open>Turn_Taking\<close>: the protocol of a
    reliable transfer as an abstract machine. \<open>Pipe_Simple\<close>, \<open>Pipe_Synchronized\<close>, \<open>Pipe_Reliable\<close>,
    \<open>Socketpair\<close>: the four programs, with safety, deadlock freedom, termination, and the overruns and
    failures they do have.
  \<^item> \<open>Mux_Stream\<close>, \<open>Mux_Poll\<close>, \<open>Mux_Select\<close>, \<open>Mux_Client\<close>: the poll and the select server of
    \<^verbatim>\<open>src/io-multiplexing\<close> with their tables of clients, \<^verbatim>\<open>read_full\<close>, framing, signals and cleanup, and
    their client. The locale \<open>word_server\<close> is what both servers promise of one message.
  \<^item> \<open>Net_Sockets\<close>, \<open>Domain_Socket\<close>, \<open>Net_Programs\<close>: the fifteen socket programs as functions on the answers of
    the kernel and the log of the calls; \<open>balanced\<close> is a program logic for the descriptors that are open,
    the locale \<open>service\<close> a server loop, \<open>word_reader\<close> and \<open>word_writer\<close> the two ends of a local socket.
  \<^item> \<open>Shm_Mmap\<close>: client and server of \<^verbatim>\<open>src/shared-memory/mmap-munmap\<close> over one memory object and two semaphores.
    \<open>Cond_Mailbox\<close>, \<open>Cond_Broadcast\<close>, \<open>Cond_Timedwait\<close>, \<open>Thread_Counter\<close>: the threads of
    \<^verbatim>\<open>pthread_cond_wait\<close>, \<^verbatim>\<open>pthread_cond_broadcast\<close>, \<^verbatim>\<open>pthread_cond_timedwait\<close>, \<^verbatim>\<open>pthread_mutex_lock\<close> and \<^verbatim>\<open>pthread_mutex_trylock\<close>, each call and each
    access to shared data a step; the locales \<open>counting\<close> and \<open>blocking_counting\<close> are the discipline of a mutex.
  \<^item> \<open>Getopt\<close>: \<^verbatim>\<open>getopt\<close> and the loop every \<^verbatim>\<open>parse_arguments\<close> has. \<open>Number_Parse\<close>: \<^verbatim>\<open>strtoumax\<close>,
    \<^verbatim>\<open>strtoimax\<close> and the \<^verbatim>\<open>parse_\<close> functions. \<open>Cli_Files\<close>, \<open>Cli_Identity\<close>, \<open>Cli_Network\<close>,
    \<open>Cli_System\<close>, \<open>Cli_Strings\<close>: \<^verbatim>\<open>parse_arguments\<close>, \<^verbatim>\<open>handle_arguments\<close>, \<^verbatim>\<open>usage\<close> and the number parsers of
    each program. \<open>Command_Lines\<close>: what holds of all of them. \<open>Getopt_Long\<close>: the program with long options.
  \<^item> \<open>Snprintf\<close>: the conversions of \<^verbatim>\<open>src/string-processing/snprintf\<close> and its \<^verbatim>\<open>main\<close>.
    \<open>Number_Conversion\<close>: \<^verbatim>\<open>strtol\<close> and its six relatives with their reports. \<open>Sort_Search\<close>: the comparison
    functions under \<^verbatim>\<open>qsort\<close> and \<^verbatim>\<open>bsearch\<close>, which are arguments with the contract of the C standard.
    \<open>Char_Table\<close>: the table of \<^verbatim>\<open>ctype.h\<close>. \<open>Byte_Order\<close>: the programs of \<^verbatim>\<open>src/endianness\<close> on machines of
    either order. \<open>Semaphores\<close>: the two programs that fork and share a named semaphore, as steps.
  \<^item> \<open>Unix_Files\<close>: names, inodes, descriptors and streams, calls that can all fail (the list \<open>u_faults\<close>), and
    \<open>good\<close>, a program logic with the rules \<open>unix_rules\<close>. \<open>Unix_Programs\<close>: thirteen programs of \<^verbatim>\<open>src/files\<close> and
    \<^verbatim>\<open>src/file-system\<close> that make, rename or delete files. \<open>Unix_Descriptors\<close>: \<^verbatim>\<open>dup\<close> and \<^verbatim>\<open>dup2\<close> with
    its clean-up. \<open>Unix_Readers\<close>: twelve programs that report on a file or read it. \<open>Unix_Seek\<close>: what
    \<^verbatim>\<open>lseek\<close>, \<^verbatim>\<open>fseek\<close> and \<^verbatim>\<open>fseeko\<close> print.
  \<^item> \<open>Processes\<close>: the fifteen programs of \<^verbatim>\<open>src/process\<close> and \<^verbatim>\<open>src/process-groups\<close> that fork, wait, leave, change
    their group or session or report identifiers, with buffers that \<^verbatim>\<open>fork\<close> copies and \<^verbatim>\<open>abort\<close> drops; every schedule ends.
    \<open>Waiting_Programs\<close>: the state in which \<^verbatim>\<open>wait\<close> and \<^verbatim>\<open>waitpid\<close> end, with what has been waited for and printed.
  \<^item> \<open>C_Heap\<close>: allocated blocks whose bytes are indeterminate until they are written. \<open>Memory_Programs\<close>: the programs of
    \<^verbatim>\<open>src/memory\<close>. \<open>Text_Programs\<close>: those of \<^verbatim>\<open>src/strings\<close>, \<^verbatim>\<open>src/string-processing\<close> and \<^verbatim>\<open>src/path-manipulation\<close> from
    their command line to their output.
    \<open>Stream_Programs\<close>: the programs that copy their input, with errors of the input. \<open>Directories\<close>: the buffer that
    \<^verbatim>\<open>getcwd\<close> and \<^verbatim>\<open>chdir\<close> double, and the reading of directories. \<open>System_Reports\<close>: what the programs of
    \<^verbatim>\<open>src/system-information\<close>, and \<^verbatim>\<open>clock\<close>, \<^verbatim>\<open>times\<close> and \<^verbatim>\<open>getrusage\<close>, print.
    \<open>Thread_Programs\<close>: the four programs of \<^verbatim>\<open>src/pthread\<close>, under every schedule and with creations that fail.
  \<^item> This theory: what spans programs, the overrun of the three pipe programs and the way of a file through the
    client and either multiplexing server.

  \<^bold>\<open>Bounds and fuel.\<close> Loops are structural or have a measure. The loops over kernel answers (\<open>accept_loop\<close>,
  \<open>connect_loop\<close>, \<open>read_write_words\<close>, \<open>send_recv_words\<close>) take one turn more than there are answers left; a
  turn uses up at least one, and \<open>balanced\<close> states that they block only when the answers are used up, so that
  the bound is never what ends them. Liveness is stated as: a step is possible in every state that is not
  final, and every step lowers a weight. The loops that read a file (\<open>print_lines\<close>, \<open>copy_bytes\<close>,
  \<open>print_chars\<close>) take a number of rounds and answer whether they have come to their end, because a file that
  grows while it is read keeps them busy; one round more than the file has bytes is enough otherwise. The loops of \<open>Stream_Programs\<close> and \<open>Directories\<close> take a
  number of rounds too; the theorems say how many are enough (one more than the input has items, or as many as double the
  buffer to the length of the path), and for which input no number is. The number of threads is arbitrary where the source has a constant.

  \<^bold>\<open>Not modelled.\<close> Programs that make one call of the library or the kernel after their command line and print
  what it returns (\<^verbatim>\<open>src/users\<close>, \<^verbatim>\<open>src/groups\<close>, \<^verbatim>\<open>src/terminal\<close>,
  \<^verbatim>\<open>src/time\<close>, ...) have their command lines here and not the call. The names and addresses the C library
  makes (\<^verbatim>\<open>inet_pton\<close>, \<^verbatim>\<open>getnameinfo\<close>, \<^verbatim>\<open>strerror\<close>, \<^verbatim>\<open>%p\<close>) are parameters. In the model of files all
  names are in one directory, access rights are an argument, and only regular files can be read. Signals other
  than SIGINT, partial initialisation by \<^verbatim>\<open>fork\<close>, and the text of
  \<^verbatim>\<open>perror\<close> behind its prefix are left out.
\<close>

section \<open>Properties that span programs\<close>

lemma child_overrun_iff:
  assumes "word_sender send" "length word0 = MAX_WORD_LENGTH"
  shows "c_status (run_child send [Op_fclose, Op_close] word0 file) = Undefined
    \<longleftrightarrow> (\<exists>us w vs. words_of file = us @ w # vs \<and> length w = MAX_WORD_LENGTH
           \<and> (\<forall>u \<in> set us. length u < MAX_WORD_LENGTH))"
proof -
  let ?c = "run_child send [Op_fclose, Op_close] word0 file"
  have "c_status ?c = snd (send_words send [Op_fclose, Op_close] MAX_WORD_LENGTH (words_of file))"
    using word_sender.run_child_sends [OF assms(1), of word0 "[Op_fclose, Op_close]" "file"] assms(2)
    by (metis order_refl snd_conv)
  then have "c_status ?c = Undefined \<longleftrightarrow> (\<exists>us w vs. words_of file = us @ w # vs
      \<and> MAX_WORD_LENGTH \<le> length w \<and> length w \<le> MAX_WORD_LENGTH
      \<and> (\<forall>u \<in> set us. length u < MAX_WORD_LENGTH \<and> length u \<le> MAX_WORD_LENGTH))"
    by (simp only: send_words_undefined)
  also have "\<dots> \<longleftrightarrow> (\<exists>us w vs. words_of file = us @ w # vs \<and> length w = MAX_WORD_LENGTH
      \<and> (\<forall>u \<in> set us. length u < MAX_WORD_LENGTH))"
    by (intro iff_exI) auto
  finally show ?thesis .
qed

text \<open>C8. The sending process of each program under \<^verbatim>\<open>src/pipe\<close> stores its NUL past the end of
  \<^verbatim>\<open>word[255]\<close> exactly for the files whose first word of 255 characters or more has 255:
  the test against \<^verbatim>\<open>MAX_WORD_LENGTH\<close> leaves no room for the NUL.\<close>

theorem pipe_children_overrun:
  assumes "child \<in> {simple_child_process, reliable_child_process, synchronized_child_process}"
    and "length word0 = MAX_WORD_LENGTH"
  shows "c_status (child word0 file) = Undefined
    \<longleftrightarrow> (\<exists>us w vs. words_of file = us @ w # vs \<and> length w = MAX_WORD_LENGTH
           \<and> (\<forall>u \<in> set us. length u < MAX_WORD_LENGTH))"
proof -
  note iff = child_overrun_iff [OF ss.word_sender_axioms assms(2)] child_overrun_iff [OF rs.word_sender_axioms assms(2)]
    child_overrun_iff [OF sys.word_sender_axioms assms(2)]
  from assms(1) consider "child = simple_child_process" | "child = reliable_child_process"
    | "child = synchronized_child_process" by blast
  then show ?thesis
    by cases (simp_all only: simple_child_process_def reliable_child_process_def synchronized_child_process_def iff)
qed

lemma pipe_children_overrun_witness:
  "c_status (reliable_child_process (replicate 255 NUL) (replicate 255 CHR ''a'')) = Undefined"
proof -
  have "words_of (replicate 255 CHR ''a'') = [] @ replicate 255 CHR ''a'' # []"
    using words_of_replicate [of 255 0] by simp
  then show ?thesis
    using pipe_children_overrun [of reliable_child_process "replicate 255 NUL" "replicate 255 CHR ''a''"]
    by (fastforce simp: MAX_WORD_LENGTH_def)
qed

context word_server
begin

lemma delivers_file:
  assumes "NUL \<notin> set file" "lines_at_most 1023 file" "\<forall>w \<in> set (words_of file). length w \<le> 255"
    and "length (words_of file) \<le> length rand" "\<forall>r \<in> set rand. r < 1000000000"
    and "connected cl st" "i < length cl" "segments (inp st (cl ! i))"
    and "stream (inp st (cl ! i)) = mc_sent (client_main [] rand file)"
  shows "\<exists>st'. messages (message i) (length (words_of file)) st = Returns st'
    \<and> connected cl st' \<and> out st' = out st @ map (line (cl ! i)) (words_of file)"
proof -
  have "stream (inp st (cl ! i)) = concat (map frame (words_of file)) @ []"
    using assms(9) client_main_sends [OF assms(1-5)] by simp
  moreover have "\<forall>w \<in> set (words_of file). length w < 256" using assms(3) by fastforce
  ultimately show ?thesis using messages_words [OF assms(6-8)] by blast
qed

end

text \<open>C11. From file to terminal: the file has no NUL, no line longer than the 1023 characters that fit into the client's line
  buffer and no word longer than 255 characters, and every send of the client of \<^verbatim>\<open>src/io-multiplexing\<close> sends all it is given (the random
  numbers for its pauses are below a billion, one for each word). What the client sends is then printed by the poll
  server and the select server, reading it in any pieces, as the words of the file, one line each, in
  order, whichever client of their table it is.\<close>

theorem mux_delivers_file:
  assumes "NUL \<notin> set file" "lines_at_most 1023 file" "\<forall>w \<in> set (words_of file). length w \<le> 255"
    and "length (words_of file) \<le> length rand" "\<forall>r \<in> set rand. r < 1000000000"
    and "table sockfd cl k pst" "clients cl sst" "i < length cl"
    and "segments (ps_in pst (cl ! i))" "stream (ps_in pst (cl ! i)) = mc_sent (client_main [] rand file)"
    and "segments (ss_in sst (cl ! i))" "stream (ss_in sst (cl ! i)) = mc_sent (client_main [] rand file)"
  shows "(\<exists>st'. messages (poll_message i) (length (words_of file)) pst = Returns st'
      \<and> ps_out st' = ps_out pst @ map (received_line (cl ! i)) (words_of file))
    \<and> (\<exists>st'. messages (select_client i) (length (words_of file)) sst = Returns st'
      \<and> ss_out st' = ss_out sst @ map (sel_received_line (cl ! i)) (words_of file))"
  using ps.delivers_file [OF assms(1-5) _ assms(8-10), of sockfd] sls.delivers_file [OF assms(1-5,7,8,11,12)] assms(6)
  by blast

lemma mux_delivers_file_witness:
  "\<exists>st'. messages (select_client 0) 2 (one_select_client [Rd (frame ''a'' @ [CHR 0x01]), Rd ''b'']) = Returns st'
    \<and> ss_out st' = [sel_received_line 5 ''a'', sel_received_line 5 ''b'']"
proof -
  let ?file = "[CHR ''a'', SPACE, CHR ''b'', NL]"
  have u: "byte_of_u8 1 = CHR 0x01" by code_simp
  have ws: "words_of ?file = [''a'', ''b'']" by (simp add: is_blank_def)
  have sent: "mc_sent (client_main [] [5, 6] ?file) = concat (map frame [''a'', ''b''])"
    using client_main_sends [of ?file "[5, 6]"] ws by (simp add: lines_at_most_length)
  show ?thesis
    using mux_delivers_file [of ?file "[5, 6]", OF _ _ _ _ _ one_client_table one_select_client_clients,
        of 0 "[Rd (frame ''a'' @ [CHR 0x01]), Rd ''b'']" "[Rd (frame ''a'' @ [CHR 0x01]), Rd ''b'']"]
    by (simp add: ws sent u frame_def lines_at_most_length one_client_def one_select_client_def numeral_2_eq_2
        del: messages.simps words_from.simps)
qed

end
